(* ===== verification/Prelude.thy ===== *)
theory Prelude
  imports Main "HOL-Library.AList"
begin

text \<open>
  What the components share: the outcome of a call that may throw, the \<open>a ?? b\<close> chaining of
  rejection reasons, JavaScript's insertion-ordered \<open>Map\<close> as an association list, and the
  fail-fast loop with its invariant rule. The interface of a keyed store and of a loop body are
  locales, interpreted here and in the components that provide them.
\<close>

named_theorems js_map_simps "rewrites for the JavaScript Map model"

named_theorems wf_intros "introduction rules for well-formedness facts"

section \<open>Outcomes and rejection reasons\<close>

text \<open>
  A call ends in one of three ways: an uncaught exception, a typed rejection (an error value), or
  a result.
\<close>

datatype ('e, 'a) outcome = Threw | Rejected 'e | Accepted 'a

fun then_call :: "('e, 'a) outcome \<Rightarrow> ('a \<Rightarrow> ('e, 'b) outcome) \<Rightarrow> ('e, 'b) outcome" where
  "then_call Threw k = Threw"
| "then_call (Rejected e) k = Rejected e"
| "then_call (Accepted a) k = k a"

lemma then_call_Accepted_iff [simp]:
  "then_call r k = Accepted b \<longleftrightarrow> (\<exists>a. r = Accepted a \<and> k a = Accepted b)"
  by (cases r) auto

text \<open>\<open>a ?? b\<close>: the first reason wins, and no reason (null) means the check passed.\<close>

definition first_reason :: "'r option \<Rightarrow> 'r option \<Rightarrow> 'r option" where
  "first_reason a b = (case a of None \<Rightarrow> b | Some r \<Rightarrow> Some r)"

definition reject_when :: "bool \<Rightarrow> 'r \<Rightarrow> 'r option" where
  "reject_when b r = (if b then Some r else None)"

lemma first_reason_None_iff [simp]: "first_reason a b = None \<longleftrightarrow> a = None \<and> b = None"
  by (auto simp: first_reason_def split: option.splits)

lemma first_reason_simps [simp]:
  "first_reason None b = b"
  "first_reason (Some r) b = Some r"
  by (simp_all add: first_reason_def)

lemma reject_when_None_iff [simp]: "reject_when b r = None \<longleftrightarrow> \<not> b"
  by (simp add: reject_when_def)

lemma reject_when_simps [simp]:
  "reject_when True r = Some r"
  "reject_when False r = None"
  by (simp_all add: reject_when_def)

lemma reject_when_Some_iff: "reject_when b r = Some x \<longleftrightarrow> b \<and> x = r"
  by (auto simp: reject_when_def)

section \<open>JavaScript's Map\<close>

text \<open>
  A JavaScript \<open>Map\<close> iterates in insertion order; \<open>set\<close> on a present key keeps its place and on
  an absent key appends, \<open>delete\<close> removes. That is an association list under
  \<^const>\<open>AList.update\<close> and \<^const>\<open>AList.delete\<close>, read with \<^const>\<open>map_of\<close>.
\<close>

type_synonym ('k, 'v) js_map = "('k \<times> 'v) list"

definition map_has :: "('k, 'v) js_map \<Rightarrow> 'k \<Rightarrow> bool" where
  "map_has m k \<longleftrightarrow> map_of m k \<noteq> None"

definition map_entries :: "('v \<Rightarrow> 'w) \<Rightarrow> ('k, 'v) js_map \<Rightarrow> ('k, 'w) js_map" where
  "map_entries f m = map (\<lambda>(k, v). (k, f v)) m"

definition count_values :: "('v \<Rightarrow> bool) \<Rightarrow> ('k, 'v) js_map \<Rightarrow> nat" where
  "count_values P m = length (filter P (map snd m))"

definition keys_ok :: "('k, 'v) js_map \<Rightarrow> bool" where
  "keys_ok m \<longleftrightarrow> distinct (map fst m)"

lemma keys_ok_Nil [simp]: "keys_ok []"
  by (simp add: keys_ok_def)

lemma keys_ok_single [simp]: "keys_ok [p]"
  by (simp add: keys_ok_def)

lemma update_fresh: "k \<notin> fst ` set m \<Longrightarrow> AList.update k v m = m @ [(k, v)]"
  by (induction m) auto

lemma map_of_map_set [simp, js_map_simps]:
  "map_of (AList.update k v m) = (map_of m)(k \<mapsto> v)"
  by (rule update_conv')

lemma map_of_map_delete [simp, js_map_simps]:
  "map_of (AList.delete k m) = (map_of m)(k := None)"
  by (rule delete_conv')

lemma keys_ok_set [simp, wf_intros]: "keys_ok m \<Longrightarrow> keys_ok (AList.update k v m)"
  by (simp add: keys_ok_def distinct_update)

lemma keys_ok_delete [simp, wf_intros]: "keys_ok m \<Longrightarrow> keys_ok (AList.delete k m)"
  by (simp add: keys_ok_def distinct_delete)

lemma keys_ok_map_entries [simp]: "keys_ok (map_entries f m) \<longleftrightarrow> keys_ok m"
  by (simp add: keys_ok_def map_entries_def comp_def case_prod_beta)

lemma map_of_map_entries [simp]: "map_of (map_entries f m) = map_option f \<circ> map_of m"
  by (induction m) (auto simp: map_entries_def)

lemma map_entries_simps [simp]:
  "map_entries f [] = []"
  "map_entries f ((k, v) # m) = (k, f v) # map_entries f m"
  "map_entries f (m @ m') = map_entries f m @ map_entries f m'"
  by (simp_all add: map_entries_def)

lemma map_entries_Nil_iff [simp]: "map_entries f m = [] \<longleftrightarrow> m = []"
  by (simp add: map_entries_def)

lemma map_fst_map_entries [simp]: "map fst (map_entries f m) = map fst m"
  by (simp add: map_entries_def comp_def case_prod_beta)

lemma map_entries_set:
  "map_entries f (AList.update k v m) = AList.update k (f v) (map_entries f m)"
  by (induction m) auto

lemma map_entries_id: "(\<And>k v. (k, v) \<in> set m \<Longrightarrow> f v = v) \<Longrightarrow> map_entries f m = m"
  by (induction m) (auto simp: map_entries_def)

lemma in_set_map_of: "keys_ok m \<Longrightarrow> (k, v) \<in> set m \<longleftrightarrow> map_of m k = Some v"
  by (simp add: keys_ok_def)

lemma map_has_Some [simp]: "map_of m k = Some v \<Longrightarrow> map_has m k"
  by (simp add: map_has_def)

lemma not_map_has [simp]: "\<not> map_has m k \<longleftrightarrow> map_of m k = None"
  by (simp add: map_has_def)

lemma map_has_ex: "map_has m k \<longleftrightarrow> (\<exists>v. map_of m k = Some v)"
  by (simp add: map_has_def)

lemma finite_map_of_where: "finite {k. \<exists>v. map_of m k = Some v \<and> P k v}"
  by (rule finite_subset [OF _ finite_dom_map_of [of m]]) auto

text \<open>Counting the values of a map that satisfy a predicate is the cardinality of their keys.\<close>

lemma count_values_card:
  assumes "keys_ok m"
  shows "count_values P m = card {k. \<exists>v. map_of m k = Some v \<and> P v}"
proof -
  let ?ps = "filter (P \<circ> snd) m"
  have "count_values P m = length ?ps"
    by (simp add: count_values_def filter_map comp_def)
  also have "\<dots> = length (map fst ?ps)"
    by simp
  also have "\<dots> = card (set (map fst ?ps))"
  proof -
    have "distinct (map fst ?ps)"
      using assms by (simp add: keys_ok_def distinct_map_filter)
    then show ?thesis by (simp only: distinct_card)
  qed
  also have "set (map fst ?ps) = {k. \<exists>v. map_of m k = Some v \<and> P v}"
    using assms by (force simp: in_set_map_of [OF assms, symmetric])
  finally show ?thesis .
qed

section \<open>The keyed store interface\<close>

text \<open>
  What the verifier asks of a \<open>Map\<close>: a lookup after a \<open>set\<close> or a \<open>delete\<close>, and that both keep
  the keys distinct. A property of every stored entry is kept by both.
\<close>

locale keyed_store =
  fixes lookup :: "'m \<Rightarrow> 'k \<Rightarrow> 'v option"
    and store :: "'k \<Rightarrow> 'v \<Rightarrow> 'm \<Rightarrow> 'm"
    and remove :: "'k \<Rightarrow> 'm \<Rightarrow> 'm"
    and sound :: "'m \<Rightarrow> bool"
  assumes lookup_store: "lookup (store k v m) = (lookup m)(k \<mapsto> v)"
    and lookup_remove: "lookup (remove k m) = (lookup m)(k := None)"
    and sound_store: "sound m \<Longrightarrow> sound (store k v m)"
    and sound_remove: "sound m \<Longrightarrow> sound (remove k m)"
begin

definition everywhere :: "('k \<Rightarrow> 'v \<Rightarrow> bool) \<Rightarrow> 'm \<Rightarrow> bool" where
  "everywhere P m \<longleftrightarrow> (\<forall>k v. lookup m k = Some v \<longrightarrow> P k v)"

lemma everywhere_store: "everywhere P m \<Longrightarrow> P k v \<Longrightarrow> everywhere P (store k v m)"
  by (simp add: everywhere_def lookup_store)

lemma everywhere_remove: "everywhere P m \<Longrightarrow> everywhere P (remove k m)"
  by (simp add: everywhere_def lookup_remove)

lemma everywhere_lookup: "everywhere P m \<Longrightarrow> lookup m k = Some v \<Longrightarrow> P k v"
  by (simp add: everywhere_def)

lemma everywhere_mono: "everywhere P m \<Longrightarrow> (\<And>k v. P k v \<Longrightarrow> Q k v) \<Longrightarrow> everywhere Q m"
  by (auto simp: everywhere_def)

end

interpretation js: keyed_store map_of AList.update AList.delete keys_ok
  by unfold_locales simp_all

section \<open>Fail-fast loops\<close>

text \<open>
  The verifying loops of the source run one body per element and stop at the first exception or
  rejection.
\<close>

fun run_loop :: "('s \<Rightarrow> 'x \<Rightarrow> ('e, 's) outcome) \<Rightarrow> 's \<Rightarrow> 'x list \<Rightarrow> ('e, 's) outcome" where
  "run_loop step s [] = Accepted s"
| "run_loop step s (x # xs) =
     (case step s x of
        Threw \<Rightarrow> Threw
      | Rejected e \<Rightarrow> Rejected e
      | Accepted s' \<Rightarrow> run_loop step s' xs)"

lemma run_loop_append:
  "run_loop step s (xs @ ys) = then_call (run_loop step s xs) (\<lambda>s'. run_loop step s' ys)"
  by (induction xs arbitrary: s) (auto split: outcome.splits)

lemma run_loop_Cons_Accepted:
  "run_loop step s (x # xs) = Accepted t \<longleftrightarrow>
     (\<exists>s'. step s x = Accepted s' \<and> run_loop step s' xs = Accepted t)"
  by (auto split: outcome.splits)

lemma run_loop_single: "run_loop step s [x] = step s x"
  by (cases "step s x") simp_all

lemma run_loop_snoc_Accepted:
  "run_loop step s (xs @ [x]) = Accepted t \<longleftrightarrow>
     (\<exists>s'. run_loop step s xs = Accepted s' \<and> step s' x = Accepted t)"
  by (simp only: run_loop_append run_loop_single then_call_Accepted_iff)

lemma run_loop_take:
  assumes "run_loop step s xs = Accepted t"
  shows "\<exists>s'. run_loop step s (take n xs) = Accepted s'"
proof -
  have "then_call (run_loop step s (take n xs)) (\<lambda>s'. run_loop step s' (drop n xs)) = Accepted t"
    using assms by (simp only: run_loop_append [symmetric] append_take_drop_id)
  then show ?thesis by (simp only: then_call_Accepted_iff) blast
qed

text \<open>
  The contract of a loop body: it never throws from a state that satisfies the invariant, and
  what it accepts satisfies the invariant again.
\<close>

locale loop_contract =
  fixes step :: "'s \<Rightarrow> 'x \<Rightarrow> ('e, 's) outcome"
    and inv :: "'s \<Rightarrow> bool"
  assumes step_inv: "inv s \<Longrightarrow> step s x = Accepted s' \<Longrightarrow> inv s'"
begin

lemma run_inv: "inv s \<Longrightarrow> run_loop step s xs = Accepted s' \<Longrightarrow> inv s'"
  by (induction xs arbitrary: s) (auto split: outcome.splits intro: step_inv)

lemma run_inv_take:
  assumes "inv s" and "run_loop step s xs = Accepted t"
  obtains s' where "run_loop step s (take n xs) = Accepted s'" and "inv s'"
  using run_loop_take [OF assms(2), of n] run_inv [OF assms(1)] by blast

end

locale total_loop = loop_contract +
  assumes step_total: "inv s \<Longrightarrow> step s x \<noteq> Threw"
begin

lemma run_total: "inv s \<Longrightarrow> run_loop step s xs \<noteq> Threw"
  by (induction xs arbitrary: s) (auto split: outcome.splits intro: step_inv dest: step_total)

end

end
