(* ===== verification/Js_Text.thy ===== *)
theory Js_Text
  imports Prelude "HOL-Library.Word"
begin

text \<open>
  Strings and byte strings (\<open>bytes.ts\<close>): a JavaScript string is its list of UTF-16 code units, a
  \<open>Uint8Array\<close> a list of bytes. UTF-8 encoding is the platform's \<open>TextEncoder\<close> (a lone surrogate
  becomes U+FFFD), hexadecimal is lowercase only. The encoders are shown to be decodable:
  hexadecimal both ways, UTF-8 on well-formed strings.
\<close>

type_synonym ustr = "16 word list"

type_synonym bytes = "8 word list"

section \<open>Literals\<close>

definition lit :: "string \<Rightarrow> ustr" where
  "lit s = map (\<lambda>c. word_of_nat (of_char c)) s"

lemma of_char_less: "(of_char c :: nat) < 256"
  using of_char_mod_256 [of c, where 'a = nat] mod_less_divisor [of 256 "of_char c :: nat"]
  by simp

lemma unat_char_unit: "unat (word_of_nat (of_char c) :: 16 word) = of_char c"
proof -
  have "(of_char c :: nat) mod 65536 = of_char c"
    by (rule mod_less) (rule less_trans [OF of_char_less], simp)
  then show ?thesis by (simp add: unat_of_nat)
qed

lemma lit_char_inject:
  "(word_of_nat (of_char c) :: 16 word) = word_of_nat (of_char d) \<longleftrightarrow> c = d"
  by (metis of_char_eq_iff unat_char_unit)

lemma lit_inject [simp]: "lit s = lit t \<longleftrightarrow> s = t"
  by (auto simp: lit_def lit_char_inject inj_on_def intro: map_injective)

lemma lit_simps [simp]:
  "lit [] = []"
  "length (lit s) = length s"
  "lit s = [] \<longleftrightarrow> s = []"
  "lit (s @ t) = lit s @ lit t"
  by (simp_all add: lit_def)

section \<open>A self-delimiting code\<close>

text \<open>
  The interface the canonical encodings rely on: the code word of a valid item can be split off
  the front of a byte string in one way only. Concatenations of code words are then decodable.
\<close>

locale self_delimiting =
  fixes code :: "'a \<Rightarrow> 'b list"
    and valid :: "'a \<Rightarrow> bool"
  assumes code_split: "valid x \<Longrightarrow> valid y \<Longrightarrow> code x @ r = code y @ s \<Longrightarrow> x = y \<and> r = s"
    and code_nonempty: "valid x \<Longrightarrow> code x \<noteq> []"
begin

lemma code_inj: "valid x \<Longrightarrow> valid y \<Longrightarrow> code x = code y \<Longrightarrow> x = y"
  using code_split [of x y "[]" "[]"] by simp

lemma concat_code_inj:
  assumes "list_all valid xs" and "list_all valid ys"
    and "concat (map code xs) = concat (map code ys)"
  shows "xs = ys"
  using assms
proof (induction xs arbitrary: ys)
  case Nil
  then show ?case by (cases ys) (auto dest: code_nonempty)
next
  case (Cons x xs)
  from Cons.prems obtain y ys' where ys: "ys = y # ys'"
    by (cases ys) (auto dest: code_nonempty)
  from Cons.prems ys have "x = y \<and> concat (map code xs) = concat (map code ys')"
    by (auto dest: code_split)
  with Cons ys show ?case by auto
qed

end

section \<open>UTF-8\<close>

definition high_surrogate :: "16 word \<Rightarrow> bool" where
  "high_surrogate u \<longleftrightarrow> 0xD800 \<le> unat u \<and> unat u \<le> 0xDBFF"

definition low_surrogate :: "16 word \<Rightarrow> bool" where
  "low_surrogate u \<longleftrightarrow> 0xDC00 \<le> unat u \<and> unat u \<le> 0xDFFF"

definition scalar_of_unit :: "16 word \<Rightarrow> nat" where
  "scalar_of_unit u = (if high_surrogate u \<or> low_surrogate u then 0xFFFD else unat u)"

definition pair_scalar :: "16 word \<Rightarrow> 16 word \<Rightarrow> nat" where
  "pair_scalar u v = 0x10000 + (unat u - 0xD800) * 0x400 + (unat v - 0xDC00)"

fun code_points :: "ustr \<Rightarrow> nat list" where
  "code_points [] = []"
| "code_points [u] = [scalar_of_unit u]"
| "code_points (u # v # us) =
     (if high_surrogate u \<and> low_surrogate v then pair_scalar u v # code_points us
      else scalar_of_unit u # code_points (v # us))"

definition utf8_units :: "nat \<Rightarrow> nat list" where
  "utf8_units c =
     (if c < 0x80 then [c]
      else if c < 0x800 then [0xC0 + c div 0x40, 0x80 + c mod 0x40]
      else if c < 0x10000 then
        [0xE0 + c div 0x1000, 0x80 + c div 0x40 mod 0x40, 0x80 + c mod 0x40]
      else
        [0xF0 + c div 0x40000, 0x80 + c div 0x1000 mod 0x40, 0x80 + c div 0x40 mod 0x40,
         0x80 + c mod 0x40])"

definition utf8_of_code_point :: "nat \<Rightarrow> bytes" where
  "utf8_of_code_point c = map word_of_nat (utf8_units c)"

definition utf8_encode :: "ustr \<Rightarrow> bytes" where
  "utf8_encode s = concat (map utf8_of_code_point (code_points s))"

text \<open>Well-formed UTF-16: every surrogate is half of a pair.\<close>

fun well_formed :: "ustr \<Rightarrow> bool" where
  "well_formed [] = True"
| "well_formed [u] = (\<not> high_surrogate u \<and> \<not> low_surrogate u)"
| "well_formed (u # v # us) =
     (if high_surrogate u \<and> low_surrogate v then well_formed us
      else \<not> high_surrogate u \<and> \<not> low_surrogate u \<and> well_formed (v # us))"

lemma utf8_encode_Nil [simp]: "utf8_encode [] = []"
  by (simp add: utf8_encode_def)

lemma map_unat_of_nat8: "list_all (\<lambda>n. n < 256) ns \<Longrightarrow> map unat (map (word_of_nat :: nat \<Rightarrow> 8 word) ns) = ns"
  by (induction ns) (simp_all add: unat_of_nat)

lemma utf8_units_small: "c < 0x110000 \<Longrightarrow> list_all (\<lambda>n. n < 256) (utf8_units c)"
  by (auto simp: utf8_units_def)

text \<open>Reading one scalar value off the front of its units.\<close>

fun utf8_front :: "nat list \<Rightarrow> nat" where
  "utf8_front (a # b # c # d # ns) =
     (if a < 0x80 then a
      else if a < 0xE0 then (a - 0xC0) * 0x40 + (b - 0x80)
      else if a < 0xF0 then ((a - 0xE0) * 0x40 + (b - 0x80)) * 0x40 + (c - 0x80)
      else (((a - 0xF0) * 0x40 + (b - 0x80)) * 0x40 + (c - 0x80)) * 0x40 + (d - 0x80))"
| "utf8_front _ = 0"

lemma utf8_front_units:
  assumes "c < 0x110000"
  shows "utf8_front (utf8_units c @ ns @ [0, 0, 0]) = c"
proof -
  have div_steps: "c div 0x1000 = c div 0x40 div 0x40" "c div 0x40000 = c div 0x40 div 0x40 div 0x40"
    by (simp_all add: div_mult2_eq [symmetric])
  have join: "a div 0x40 * 0x40 + a mod 0x40 = a" for a :: nat
    by simp
  have small: "c div 0x40 < 32" if "c < 0x800"
    using that by simp
  have medium: "c div 0x40 div 0x40 < 16" if "c < 0x10000"
    using that by simp
  show ?thesis
  proof (cases ns rule: utf8_front.cases)
  qed (use small medium in \<open>auto simp: utf8_units_def div_steps join\<close>)
qed

lemma utf8_units_split:
  assumes "x < 0x110000" and "y < 0x110000" and "utf8_units x @ r = utf8_units y @ s"
  shows "x = y"
proof -
  from assms(3) have "utf8_units x @ r @ [0, 0, 0] = utf8_units y @ s @ [0, 0, 0]"
    by (simp only: append_assoc [symmetric])
  then show ?thesis
    by (metis utf8_front_units assms(1,2))
qed

interpretation utf8: self_delimiting utf8_of_code_point "\<lambda>c. c < 0x110000"
proof unfold_locales
  fix x y :: nat and r s :: bytes
  assume bounds: "x < 0x110000" "y < 0x110000"
    and eq: "utf8_of_code_point x @ r = utf8_of_code_point y @ s"
  from eq have "map unat (utf8_of_code_point x) @ map unat r = map unat (utf8_of_code_point y) @ map unat s"
    by (simp flip: map_append)
  then have "utf8_units x @ map unat r = utf8_units y @ map unat s"
    using bounds by (simp only: utf8_of_code_point_def map_unat_of_nat8 utf8_units_small)
  with bounds have "x = y" by (rule utf8_units_split)
  with eq show "x = y \<and> r = s" by simp
qed (simp add: utf8_of_code_point_def utf8_units_def)

text \<open>Well-formed strings can be read back from their code points.\<close>

definition utf16_of_code_point :: "nat \<Rightarrow> ustr" where
  "utf16_of_code_point c =
     (if c < 0x10000 then [word_of_nat c]
      else [word_of_nat (0xD800 + (c - 0x10000) div 0x400),
            word_of_nat (0xDC00 + (c - 0x10000) mod 0x400)])"

lemma scalar_of_unit_bound: "scalar_of_unit u < 0x10000"
  using unsigned_less [of u, where ?'a = nat] by (simp add: scalar_of_unit_def)

lemma utf16_of_scalar:
  "\<not> high_surrogate u \<Longrightarrow> \<not> low_surrogate u \<Longrightarrow> utf16_of_code_point (scalar_of_unit u) = [u]"
  using unsigned_less [of u, where ?'a = nat] by (simp add: utf16_of_code_point_def scalar_of_unit_def)

lemma utf16_of_pair:
  assumes "high_surrogate u" and "low_surrogate v"
  shows "utf16_of_code_point (pair_scalar u v) = [u, v]"
proof -
  define a b where "a = unat u - 0xD800" and "b = unat v - 0xDC00"
  with assms have b: "b < 0x400" and u: "unat u = 0xD800 + a" and v: "unat v = 0xDC00 + b"
    by (auto simp: high_surrogate_def low_surrogate_def)
  have "pair_scalar u v = 0x10000 + a * 0x400 + b"
    by (simp add: pair_scalar_def a_def b_def)
  with b have "utf16_of_code_point (pair_scalar u v)
      = [word_of_nat (0xD800 + a), word_of_nat (0xDC00 + b)]"
    by (simp add: utf16_of_code_point_def)
  then show ?thesis by (simp flip: u v)
qed

lemma code_points_bound: "list_all (\<lambda>c. c < 0x110000) (code_points s)"
proof (induction s rule: code_points.induct)
  case (2 u)
  then show ?case using scalar_of_unit_bound [of u] by simp
next
  case (3 u v us)
  have "pair_scalar u v < 0x110000" if "high_surrogate u" and "low_surrogate v"
  proof -
    from that have "unat u - 0xD800 \<le> 0x3FF" and "unat v - 0xDC00 \<le> 0x3FF"
      by (auto simp: high_surrogate_def low_surrogate_def)
    then show ?thesis by (simp add: pair_scalar_def)
  qed
  with 3 scalar_of_unit_bound [of u] show ?case by auto
qed simp

lemma utf16_of_code_points:
  "well_formed s \<Longrightarrow> concat (map utf16_of_code_point (code_points s)) = s"
  by (induction s rule: well_formed.induct)
    (auto simp: utf16_of_scalar utf16_of_pair split: if_splits)

lemma utf8_encode_inj:
  assumes "well_formed s" and "well_formed t" and "utf8_encode s = utf8_encode t"
  shows "s = t"
proof -
  have "code_points s = code_points t"
    using code_points_bound [of s] code_points_bound [of t] assms(3)
    by (auto simp: utf8_encode_def intro: utf8.concat_code_inj)
  with assms(1,2) show ?thesis by (metis utf16_of_code_points)
qed

text \<open>The size of the encoding; every code unit costs one to three bytes.\<close>

lemma length_code_points: "length (code_points s) \<le> length s"
  by (induction s rule: code_points.induct) auto

lemma length_utf8_encode_le: "length (utf8_encode s) \<le> 3 * length s"
proof (induction s rule: code_points.induct)
  case (2 u)
  then show ?case using scalar_of_unit_bound [of u]
    by (simp add: utf8_encode_def utf8_of_code_point_def utf8_units_def)
next
  case (3 u v us)
  then show ?case using scalar_of_unit_bound [of u]
    by (auto simp: utf8_encode_def utf8_of_code_point_def utf8_units_def)
qed simp

lemma length_utf8_encode_ge: "length s \<le> length (utf8_encode s)"
proof (induction s rule: code_points.induct)
  case (3 u v us)
  have "2 \<le> length (utf8_of_code_point (pair_scalar u v))"
    by (simp add: utf8_of_code_point_def utf8_units_def pair_scalar_def)
  moreover have "1 \<le> length (utf8_of_code_point (scalar_of_unit u))"
    by (simp add: utf8_of_code_point_def utf8_units_def)
  ultimately show ?case
    using 3 by (auto simp: utf8_encode_def)
qed (simp_all add: utf8_encode_def utf8_of_code_point_def utf8_units_def)

lemma ascii_utf8: "list_all (\<lambda>u. unat u < 0x80) s \<Longrightarrow> length (utf8_encode s) = length s"
  by (induction s rule: code_points.induct)
    (auto simp: utf8_encode_def utf8_of_code_point_def utf8_units_def scalar_of_unit_def
      high_surrogate_def low_surrogate_def)

lemma code_points_append:
  "b = [] \<or> \<not> low_surrogate (hd b) \<Longrightarrow> code_points (a @ b) = code_points a @ code_points b"
proof (induction a rule: code_points.induct)
  case (2 u)
  then show ?case by (cases b) auto
qed auto

lemma utf8_append:
  "b = [] \<or> \<not> low_surrogate (hd b) \<Longrightarrow> utf8_encode (a @ b) = utf8_encode a @ utf8_encode b"
  by (simp add: utf8_encode_def code_points_append)

lemma utf8_append_ascii:
  "list_all (\<lambda>u. unat u < 0x80) a \<Longrightarrow> utf8_encode (a @ b) = utf8_encode a @ utf8_encode b"
proof (induction a)
  case (Cons u a)
  then have "\<not> high_surrogate u" by (simp add: high_surrogate_def)
  then have "code_points (u # us) = scalar_of_unit u # code_points us" for us
    by (cases us) simp_all
  with Cons show ?case by (simp add: utf8_encode_def)
qed (simp add: utf8_encode_def)

lemma utf8_ascii:
  "list_all (\<lambda>u. unat u < 0x80) a \<Longrightarrow> utf8_encode a = map (\<lambda>u. word_of_nat (unat u)) a"
proof (induction a)
  case (Cons u a)
  then have "\<not> high_surrogate u \<and> \<not> low_surrogate u" by (simp add: high_surrogate_def low_surrogate_def)
  then have "code_points (u # a) = unat u # code_points a" by (cases a) (simp_all add: scalar_of_unit_def)
  with Cons show ?case by (simp add: utf8_encode_def utf8_of_code_point_def utf8_units_def)
qed (simp add: utf8_encode_def)

section \<open>Hexadecimal\<close>

definition hex_digit :: "nat \<Rightarrow> 16 word" where
  "hex_digit n = word_of_nat (if n < 10 then 48 + n else 87 + n)"

definition hex_byte :: "8 word \<Rightarrow> ustr" where
  "hex_byte b = [hex_digit (unat b div 16), hex_digit (unat b mod 16)]"

definition encode_hex :: "bytes \<Rightarrow> ustr" where
  "encode_hex bs = concat (map hex_byte bs)"

definition hex_value :: "16 word \<Rightarrow> nat" where
  "hex_value u = (if unat u < 58 then unat u - 48 else unat u - 87)"

definition is_hex_digit :: "16 word \<Rightarrow> bool" where
  "is_hex_digit u \<longleftrightarrow> 48 \<le> unat u \<and> unat u \<le> 57 \<or> 97 \<le> unat u \<and> unat u \<le> 102"

fun hex_pairs :: "ustr \<Rightarrow> bytes" where
  "hex_pairs (a # b # us) = word_of_nat (16 * hex_value a + hex_value b) # hex_pairs us"
| "hex_pairs _ = []"

text \<open>\<open>decodeHex\<close>: null on an odd length or a character outside \<open>[0-9a-f]\<close>.\<close>

definition decode_hex :: "ustr \<Rightarrow> bytes option" where
  "decode_hex s = (if odd (length s) \<or> \<not> list_all is_hex_digit s then None else Some (hex_pairs s))"

lemma hex_digit_facts:
  assumes "n < 16"
  shows "is_hex_digit (hex_digit n)" and "hex_value (hex_digit n) = n"
    and "unat (hex_digit n) < 0x80"
  using assms by (auto simp: hex_digit_def is_hex_digit_def hex_value_def unat_of_nat)

lemma hex_value_digit:
  assumes "is_hex_digit u"
  shows "hex_value u < 16" and "hex_digit (hex_value u) = u"
  using assms by (auto simp: hex_digit_def is_hex_digit_def hex_value_def of_nat_diff)

lemma unat_byte_nibbles: "unat (b :: 8 word) div 16 < 16"
  using unsigned_less [of b, where ?'a = nat] by simp

lemma hex_byte_props [simp]:
  "length (hex_byte b) = 2"
  "list_all is_hex_digit (hex_byte b)"
  "hex_pairs (hex_byte b @ us) = b # hex_pairs us"
  using unat_byte_nibbles [of b]
  by (simp_all add: hex_byte_def hex_digit_facts)

lemma encode_hex_Nil [simp]: "encode_hex [] = []"
  by (simp add: encode_hex_def)

lemma encode_hex_Cons [simp]: "encode_hex (b # bs) = hex_byte b @ encode_hex bs"
  by (simp add: encode_hex_def)

lemma length_encode_hex [simp]: "length (encode_hex bs) = 2 * length bs"
  by (induction bs) auto

lemma hex_digits_encode_hex [simp]: "list_all is_hex_digit (encode_hex bs)"
  by (induction bs) auto

lemma decode_encode_hex [simp]: "decode_hex (encode_hex bs) = Some bs"
proof -
  have "hex_pairs (encode_hex bs) = bs" by (induction bs) auto
  then show ?thesis by (simp add: decode_hex_def)
qed

lemma encode_hex_inject [simp]: "encode_hex a = encode_hex b \<longleftrightarrow> a = b"
  by (metis decode_encode_hex option.inject)

lemma encode_hex_pairs:
  "even (length s) \<Longrightarrow> list_all is_hex_digit s \<Longrightarrow> encode_hex (hex_pairs s) = s"
proof (induction s rule: hex_pairs.induct)
  case (1 a b us)
  then have "hex_value a < 16" "hex_value b < 16"
    by (auto intro: hex_value_digit)
  then have "unat (word_of_nat (16 * hex_value a + hex_value b) :: 8 word) = 16 * hex_value a + hex_value b"
    by (simp add: unat_of_nat del: of_nat_add of_nat_mult)
  with 1 \<open>hex_value b < 16\<close> show ?case
    by (simp add: hex_byte_def hex_value_digit del: of_nat_add of_nat_mult)
qed auto

lemma encode_decode_hex: "decode_hex s = Some bs \<Longrightarrow> encode_hex bs = s"
  by (auto simp: decode_hex_def encode_hex_pairs split: if_splits)

lemma length_decode_hex: "decode_hex s = Some bs \<Longrightarrow> length s = 2 * length bs"
  by (metis encode_decode_hex length_encode_hex)

lemma well_formed_ascii: "list_all (\<lambda>u. unat u < 0x80) s \<Longrightarrow> well_formed s"
  by (induction s rule: well_formed.induct) (auto simp: high_surrogate_def low_surrogate_def)

lemma hex_digits_ascii: "list_all is_hex_digit s \<Longrightarrow> list_all (\<lambda>u. unat u < 0x80) s"
  by (auto simp: list_all_iff is_hex_digit_def)

lemma decode_hex_ascii: "decode_hex s = Some bs \<Longrightarrow> list_all (\<lambda>u. unat u < 0x80) s"
  by (auto simp: decode_hex_def hex_digits_ascii split: if_splits)

lemma well_formed_hex: "decode_hex s = Some bs \<Longrightarrow> well_formed s"
  by (intro well_formed_ascii decode_hex_ascii)

section \<open>Decimal numbers\<close>

text \<open>\<open>String(n)\<close> of a non-negative safe integer.\<close>

fun decimal :: "nat \<Rightarrow> ustr" where
  "decimal n = (if n < 10 then [word_of_nat (48 + n)]
                else decimal (n div 10) @ [word_of_nat (48 + n mod 10)])"

declare decimal.simps [simp del]

lemma unat_digit: "n < 10 \<Longrightarrow> unat (word_of_nat (48 + n) :: 16 word) = 48 + n"
  by (simp add: unat_of_nat del: of_nat_add)

definition decimal_value :: "ustr \<Rightarrow> nat" where
  "decimal_value s = foldl (\<lambda>acc u. 10 * acc + (unat u - 48)) 0 s"

lemma decimal_value_decimal: "decimal_value (decimal n) = n"
proof (induction n rule: decimal.induct)
  case (1 n)
  show ?case
  proof (cases "n < 10")
    case True
    then show ?thesis
      by (simp add: decimal.simps decimal_value_def unat_digit del: of_nat_add)
  next
    case False
    with 1 have "decimal_value (decimal (n div 10)) = n div 10" by simp
    with False show ?thesis
      by (simp add: decimal.simps [of n] decimal_value_def unat_digit del: of_nat_add)
  qed
qed

lemma decimal_inject [simp]: "decimal m = decimal n \<longleftrightarrow> m = n"
  by (metis decimal_value_decimal)

lemma decimal_ascii: "list_all (\<lambda>u. unat u < 0x80) (decimal n)"
proof (induction n rule: decimal.induct)
  case (1 n)
  then show ?case
    by (subst decimal.simps) (auto simp: unat_digit simp del: of_nat_add)
qed

lemma length_decimal: "length (decimal n) \<le> Suc n"
proof (induction n rule: decimal.induct)
  case (1 n)
  then show ?case
    by (subst decimal.simps) auto
qed

lemma length_decimal_digits: "n < 10 ^ Suc k \<Longrightarrow> length (decimal n) \<le> Suc k"
proof (induction k arbitrary: n)
  case 0
  then show ?case by (subst decimal.simps) simp
next
  case (Suc k)
  then have "n div 10 < 10 ^ Suc k"
    by (simp add: less_mult_imp_div_less mult.commute)
  with Suc.IH have "length (decimal (n div 10)) \<le> Suc k" by simp
  then show ?case by (subst decimal.simps) simp
qed

lemma utf8_decimal_inj: "utf8_encode (decimal m) = utf8_encode (decimal n) \<Longrightarrow> m = n"
  by (metis decimal_ascii decimal_inject utf8_encode_inj well_formed_ascii)

section \<open>Code-unit order\<close>

text \<open>The \<open><\<close> of JavaScript strings, used by \<open>byCodeUnits\<close>.\<close>

fun units_less :: "ustr \<Rightarrow> ustr \<Rightarrow> bool" where
  "units_less [] [] = False"
| "units_less [] (_ # _) = True"
| "units_less (_ # _) [] = False"
| "units_less (a # as) (b # bs) = (a < b \<or> a = b \<and> units_less as bs)"

lemma units_less_irrefl: "\<not> units_less a a"
  by (induction a) auto

lemma units_less_trans: "units_less a b \<Longrightarrow> units_less b c \<Longrightarrow> units_less a c"
proof (induction a b arbitrary: c rule: units_less.induct [case_names Nil Shorter Longer Cons])
  case (Cons a as b bs)
  then show ?case by (cases c) auto
next
  case (Shorter b bs)
  then show ?case by (cases c) auto
qed auto

lemma units_less_total: "a \<noteq> b \<Longrightarrow> units_less a b \<or> units_less b a"
  by (induction a b rule: units_less.induct) auto

lemma units_less_asym: "units_less a b \<Longrightarrow> \<not> units_less b a"
  using units_less_trans units_less_irrefl by blast

end
