(* ===== verification/Lp_Encoding.thy ===== *)
theory Lp_Encoding
  imports Js_Text
begin

text \<open>
  The deterministic length-prefixed encoding (\<open>encoding.ts\<close>): each field is its body behind a
  big-endian 32-bit length. An encoding that succeeds determines the list of field bodies, and so
  the fields themselves where the strings are well formed.
\<close>

datatype lp_field = LpStr ustr | LpNum int | LpBytes bytes

definition max_safe_integer :: int where
  "max_safe_integer = 9007199254740991"

definition safe_int :: "int \<Rightarrow> bool" where
  "safe_int n \<longleftrightarrow> \<bar>n\<bar> \<le> max_safe_integer"

definition uint32_max :: nat where
  "uint32_max = 4294967295"

definition uint32_be :: "nat \<Rightarrow> bytes" where
  "uint32_be n = map word_of_nat [n div 0x1000000, n div 0x10000 mod 0x100, n div 0x100 mod 0x100, n mod 0x100]"

text \<open>The body of one field; a number must be a non-negative safe integer, else the encoder throws.\<close>

fun lp_body :: "lp_field \<Rightarrow> bytes option" where
  "lp_body (LpNum n) = (if \<not> safe_int n \<or> n < 0 then None else Some (utf8_encode (decimal (nat n))))"
| "lp_body (LpStr s) = Some (utf8_encode s)"
| "lp_body (LpBytes b) = Some b"

text \<open>\<open>encodeLengthPrefixed\<close>; \<^const>\<open>None\<close> is the \<open>TypeError\<close> of a bad number or an oversized body.\<close>

fun encode_lp :: "lp_field list \<Rightarrow> bytes option" where
  "encode_lp [] = Some []"
| "encode_lp (f # fs) =
     (case lp_body f of
        None \<Rightarrow> None
      | Some body \<Rightarrow>
          if uint32_max < length body then None
          else (case encode_lp fs of
                  None \<Rightarrow> None
                | Some rest \<Rightarrow> Some (uint32_be (length body) @ body @ rest)))"

section \<open>The prefix\<close>

lemma length_uint32_be [simp]: "length (uint32_be n) = 4"
  by (simp add: uint32_be_def)

lemma uint32_be_inject:
  assumes "m \<le> uint32_max" and "n \<le> uint32_max" and "uint32_be m = uint32_be n"
  shows "m = n"
proof -
  have small: "k div 0x1000000 < 0x100" if "k \<le> uint32_max" for k :: nat
    using that by (simp add: uint32_max_def)
  have units: "map unat (uint32_be k)
      = [k div 0x1000000, k div 0x10000 mod 0x100, k div 0x100 mod 0x100, k mod 0x100]"
    if "k \<le> uint32_max" for k
    unfolding uint32_be_def by (rule map_unat_of_nat8) (use small [OF that] in simp)
  have parts: "m div 0x1000000 = n div 0x1000000" "m div 0x10000 mod 0x100 = n div 0x10000 mod 0x100"
    "m div 0x100 mod 0x100 = n div 0x100 mod 0x100" "m mod 0x100 = n mod 0x100"
    using units [OF assms(1), unfolded assms(3) units [OF assms(2)]]
    by (simp_all only: list.inject)
  have pieces: "a = b" if "a div 0x100 = b div 0x100" and "a mod 0x100 = b mod 0x100" for a b :: nat
    using that by (metis div_mult_mod_eq)
  have steps: "k div 0x100 div 0x100 = k div 0x10000" "k div 0x10000 div 0x100 = k div 0x1000000"
    for k :: nat
    by (simp_all add: div_mult2_eq [symmetric])
  have high: "m div 0x10000 = n div 0x10000"
    by (rule pieces) (simp_all only: steps parts)
  have mid: "m div 0x100 = n div 0x100"
    by (rule pieces) (simp_all only: steps parts high)
  show ?thesis
    by (rule pieces) (simp_all only: parts mid)
qed

definition framed :: "bytes \<Rightarrow> bytes" where
  "framed body = uint32_be (length body) @ body"

interpretation frame: self_delimiting framed "\<lambda>body. length body \<le> uint32_max"
proof unfold_locales
  fix x y r s :: bytes
  assume bounds: "length x \<le> uint32_max" "length y \<le> uint32_max"
    and eq: "framed x @ r = framed y @ s"
  then have "uint32_be (length x) = uint32_be (length y)" and rest: "x @ r = y @ s"
    by (auto simp: framed_def)
  with bounds have "length x = length y" by (blast intro: uint32_be_inject)
  with rest show "x = y \<and> r = s" by simp
qed (simp add: framed_def uint32_be_def)

section \<open>Decodability\<close>

lemma encode_lp_Some_iff:
  "encode_lp fs = Some b \<longleftrightarrow>
     (\<exists>bodies. map lp_body fs = map Some bodies \<and> list_all (\<lambda>x. length x \<le> uint32_max) bodies
        \<and> b = concat (map framed bodies))"
proof (induction fs arbitrary: b)
  case Nil
  then show ?case by auto
next
  case (Cons f fs)
  show ?case
  proof
    assume "encode_lp (f # fs) = Some b"
    then obtain body rest where f: "lp_body f = Some body" and le: "length body \<le> uint32_max"
      and rest: "encode_lp fs = Some rest" and b: "b = framed body @ rest"
      by (auto simp: framed_def split: option.splits if_splits)
    from rest obtain bodies where "map lp_body fs = map Some bodies"
      and "list_all (\<lambda>x. length x \<le> uint32_max) bodies" and "rest = concat (map framed bodies)"
      using Cons.IH by blast
    with f le b show "\<exists>bodies. map lp_body (f # fs) = map Some bodies
        \<and> list_all (\<lambda>x. length x \<le> uint32_max) bodies \<and> b = concat (map framed bodies)"
      by (intro exI [of _ "body # bodies"]) simp
  next
    assume "\<exists>bodies. map lp_body (f # fs) = map Some bodies
        \<and> list_all (\<lambda>x. length x \<le> uint32_max) bodies \<and> b = concat (map framed bodies)"
    then obtain body bodies where "lp_body f = Some body" "map lp_body fs = map Some bodies"
      and "list_all (\<lambda>x. length x \<le> uint32_max) (body # bodies)"
      and "b = concat (map framed (body # bodies))"
      by (auto simp: Cons_eq_map_conv)
    moreover from this have "encode_lp fs = Some (concat (map framed bodies))"
      using Cons.IH by auto
    ultimately show "encode_lp (f # fs) = Some b" by (simp add: framed_def)
  qed
qed

lemma encode_lp_bodies:
  assumes "encode_lp fs = Some b" and "encode_lp gs = Some b"
  shows "map lp_body fs = map lp_body gs"
  using assms by (auto simp: encode_lp_Some_iff dest: frame.concat_code_inj)

text \<open>Reading the fields back: same kind of field, well-formed strings.\<close>

fun same_kind :: "lp_field \<Rightarrow> lp_field \<Rightarrow> bool" where
  "same_kind (LpStr s) (LpStr t) = (well_formed s \<and> well_formed t)"
| "same_kind (LpNum m) (LpNum n) = True"
| "same_kind (LpBytes a) (LpBytes b) = True"
| "same_kind _ _ = False"

lemma lp_body_inj:
  "same_kind f g \<Longrightarrow> lp_body f = lp_body g \<Longrightarrow> lp_body f \<noteq> None \<Longrightarrow> f = g"
  by (induction f g rule: same_kind.induct)
    (auto dest: utf8_encode_inj utf8_decimal_inj split: if_splits)

lemma encode_lp_inj:
  assumes "encode_lp fs = Some b" and "encode_lp gs = Some b" and "list_all2 same_kind fs gs"
  shows "fs = gs"
proof -
  have defined: "list_all (\<lambda>f. lp_body f \<noteq> None) fs"
  proof -
    from assms(1) obtain bodies where "map lp_body fs = map Some bodies"
      by (auto simp: encode_lp_Some_iff)
    then have "list_all (\<lambda>x. x \<noteq> None) (map lp_body fs)" by (simp add: list_all_iff)
    then show ?thesis by (simp add: list.pred_map comp_def)
  qed
  have "map lp_body fs = map lp_body gs"
    using assms(1,2) by (rule encode_lp_bodies)
  with assms(3) defined show ?thesis
    by (induction rule: list_all2_induct) (auto dest: lp_body_inj)
qed

lemma encode_lp_length_eq:
  "encode_lp fs = Some b \<Longrightarrow> encode_lp gs = Some b \<Longrightarrow> length fs = length gs"
  by (drule (1) encode_lp_bodies) (metis length_map)

text \<open>When the encoder succeeds, and for how long a result.\<close>

definition short_field :: "lp_field \<Rightarrow> bool" where
  "short_field f \<longleftrightarrow> (\<exists>body. lp_body f = Some body \<and> length body \<le> uint32_max)"

lemma encode_lp_defined: "(\<exists>b. encode_lp fs = Some b) \<longleftrightarrow> list_all short_field fs"
  by (induction fs) (auto simp: short_field_def split: option.splits if_splits)

lemma encode_lp_None_iff: "encode_lp fs = None \<longleftrightarrow> \<not> list_all short_field fs"
  using encode_lp_defined [of fs] by (cases "encode_lp fs") auto

lemma encode_lp_append_Some:
  "encode_lp fs = Some b \<Longrightarrow> encode_lp gs = Some c \<Longrightarrow> encode_lp (fs @ gs) = Some (b @ c)"
  by (induction fs arbitrary: b) (auto split: option.splits if_splits)

lemma short_field_str: "3 * length s \<le> uint32_max \<Longrightarrow> short_field (LpStr s)"
  using length_utf8_encode_le [of s] by (simp add: short_field_def)

lemma short_field_num: "0 \<le> n \<Longrightarrow> safe_int n \<Longrightarrow> short_field (LpNum n)"
proof -
  assume n: "0 \<le> n" "safe_int n"
  then have "nat n < 10 ^ Suc 15"
    by (simp add: safe_int_def max_safe_integer_def nat_less_iff)
  then have "length (decimal (nat n)) \<le> Suc 15" by (rule length_decimal_digits)
  with n show ?thesis
    by (simp add: short_field_def ascii_utf8 decimal_ascii uint32_max_def)
qed

text \<open>From here on encodings are reasoned about through the facts above.\<close>

declare encode_lp.simps [simp del]

end
