(* ===== verification/Js_Value.thy ===== *)
theory Js_Value
  imports Lp_Encoding
begin

text \<open>
  Untrusted input: a chain is distributed as JSON and cast to the entry type, so a field can hold
  any JavaScript value. Numbers that are integers are kept exactly, every other number (a
  fraction, an infinity, NaN) is one constructor, since no check looks further. Reading a field
  of an object gives \<open>undefined\<close> when the field is missing.
\<close>

datatype js_value =
    JUndefined
  | JNull
  | JBool bool
  | JNumber int
  | JNonInteger
  | JString ustr
  | JArray "js_value list"
  | JObject "(string \<times> js_value) list"

fun is_record :: "js_value \<Rightarrow> bool" where
  "is_record (JObject _) = True"
| "is_record (JArray _) = True"
| "is_record _ = False"

fun field :: "js_value \<Rightarrow> string \<Rightarrow> js_value" where
  "field (JObject kvs) k = (case map_of kvs k of None \<Rightarrow> JUndefined | Some v \<Rightarrow> v)"
| "field _ k = JUndefined"

fun is_safe_integer :: "js_value \<Rightarrow> bool" where
  "is_safe_integer (JNumber n) = safe_int n"
| "is_safe_integer _ = False"

text \<open>A numeric comparison \<open>v >= n\<close> that follows a safe-integer check.\<close>

fun number_at_least :: "js_value \<Rightarrow> int \<Rightarrow> bool" where
  "number_at_least (JNumber n) k = (k \<le> n)"
| "number_at_least _ k = False"

fun as_string :: "js_value \<Rightarrow> ustr option" where
  "as_string (JString s) = Some s"
| "as_string _ = None"

fun as_int :: "js_value \<Rightarrow> int option" where
  "as_int (JNumber n) = Some n"
| "as_int _ = None"

fun as_array :: "js_value \<Rightarrow> js_value list option" where
  "as_array (JArray vs) = Some vs"
| "as_array _ = None"

text \<open>An array read with one reader for its elements; the whole read fails if one element does.\<close>

definition array_of :: "(js_value \<Rightarrow> 'a option) \<Rightarrow> js_value \<Rightarrow> 'a list option" where
  "array_of f v = (case as_array v of None \<Rightarrow> None | Some vs \<Rightarrow> those (map f vs))"

lemma those_Some_iff: "those ys = Some xs \<longleftrightarrow> ys = map Some xs"
  by (induction ys arbitrary: xs) (auto split: option.splits simp: Cons_eq_map_conv)

lemma those_map_defined: "list_all (\<lambda>v. \<exists>x. f v = Some x) vs \<Longrightarrow> \<exists>xs. those (map f vs) = Some xs"
  by (induction vs) auto

lemma those_map_all:
  "those (map f vs) = Some xs \<Longrightarrow> list_all (\<lambda>v. \<forall>x. f v = Some x \<longrightarrow> P x) vs \<Longrightarrow> list_all P xs"
  by (induction vs arbitrary: xs) (auto split: option.splits)

lemma those_map_length: "those (map f vs) = Some xs \<Longrightarrow> length xs = length vs"
  by (auto simp: those_Some_iff dest: map_eq_imp_length_eq)

lemma those_map_distinct:
  assumes "those (map f vs) = Some xs" and "distinct vs"
    and inj: "\<And>u v x. f u = Some x \<Longrightarrow> f v = Some x \<Longrightarrow> u = v"
  shows "distinct xs"
  using assms(1,2)
proof (induction vs arbitrary: xs)
  case (Cons v vs)
  then obtain x ys where x: "f v = Some x" and ys: "those (map f vs) = Some ys" and xs: "xs = x # ys"
    by (auto split: option.splits)
  have "x \<notin> set ys"
  proof
    assume "x \<in> set ys"
    with ys obtain u where "u \<in> set vs" and "f u = Some x"
      by (auto simp: those_Some_iff dest!: arg_cong [where f = set])
        (metis (no_types, lifting) imageE imageI)
    with x Cons.prems(2) inj show False by auto
  qed
  with Cons ys xs show ?case by auto
qed simp

lemma as_string_inj: "as_string u = Some x \<Longrightarrow> as_string v = Some x \<Longrightarrow> u = v"
  by (cases u; cases v) auto

lemma as_string_eq_Some [simp]: "as_string v = Some s \<longleftrightarrow> v = JString s"
  by (cases v) auto

lemma as_int_eq_Some [simp]: "as_int v = Some n \<longleftrightarrow> v = JNumber n"
  by (cases v) auto

lemma as_array_eq_Some [simp]: "as_array v = Some vs \<longleftrightarrow> v = JArray vs"
  by (cases v) auto

lemma is_safe_integer_iff: "is_safe_integer v \<longleftrightarrow> (\<exists>n. v = JNumber n \<and> safe_int n)"
  by (cases v) auto

lemma number_at_least_iff: "number_at_least v k \<longleftrightarrow> (\<exists>n. v = JNumber n \<and> k \<le> n)"
  by (cases v) auto

end
