(* ===== verification/Member_Scope.thy ===== *)
theory Member_Scope
  imports Js_Value
begin

text \<open>
  Environment scopes (\<open>member-scope.ts\<close>): the wire fields, their structure rule, a member's derived
  scope, and the set algebra behind principle 1. The abstract meaning of a scope is a set of
  environment ids (\<open>all\<close> is every id, the ones created later included); the algebra is shown to
  decide containment exactly.
\<close>

type_synonym user_id = ustr

type_synonym environment_id = ustr

type_synonym fingerprint = ustr

datatype scope_kind = ScopeAll | ScopeListed

record scope_payload_fields =
  scopeKind :: scope_kind
  scopeEnvironmentIds :: "environment_id list"

datatype member_scope = AllScope | ListedScope "environment_id list"

datatype environment_set = AllSet | ListedSet "environment_id set"

definition ALL_SCOPE :: member_scope where
  "ALL_SCOPE = AllScope"

definition MAX_SCOPE_ENVIRONMENTS :: nat where
  "MAX_SCOPE_ENVIRONMENTS = 256"

definition memberScopeOf :: "'a scope_payload_fields_scheme \<Rightarrow> member_scope" where
  "memberScopeOf p =
     (case scopeKind p of
        ScopeAll \<Rightarrow> ALL_SCOPE
      | ScopeListed \<Rightarrow> ListedScope (scopeEnvironmentIds p))"

definition scopePayloadFieldsOf :: "member_scope \<Rightarrow> scope_payload_fields" where
  "scopePayloadFieldsOf s =
     (case s of
        AllScope \<Rightarrow> \<lparr>scopeKind = ScopeAll, scopeEnvironmentIds = []\<rparr>
      | ListedScope ids \<Rightarrow> \<lparr>scopeKind = ScopeListed, scopeEnvironmentIds = ids\<rparr>)"

definition scope_kind_name :: "scope_kind \<Rightarrow> ustr" where
  "scope_kind_name k = (case k of ScopeAll \<Rightarrow> lit ''all'' | ScopeListed \<Rightarrow> lit ''listed'')"

definition canonicalScopeEnvironmentsHex :: "environment_id list \<Rightarrow> ustr option" where
  "canonicalScopeEnvironmentsHex ids = map_option encode_hex (encode_lp (map LpStr ids))"

text \<open>
  The structure rule of the two wire fields, over values of unknown type. \<open>new Set(ids).size\<close> is
  the number of distinct elements.
\<close>

definition scopeShapeOk :: "js_value \<Rightarrow> js_value \<Rightarrow> (js_value \<Rightarrow> bool) \<Rightarrow> bool" where
  "scopeShapeOk kind environmentIds isBoundedId =
     (if kind \<noteq> JString (lit ''all'') \<and> kind \<noteq> JString (lit ''listed'') then False
      else case environmentIds of
        JArray ids \<Rightarrow>
          if MAX_SCOPE_ENVIRONMENTS < length ids then False
          else if \<not> list_all isBoundedId ids then False
          else if kind = JString (lit ''all'') then length ids = 0
          else length (remdups ids) = length ids
      | _ \<Rightarrow> False)"

definition scopeIncludesEnvironment :: "member_scope \<Rightarrow> environment_id \<Rightarrow> bool" where
  "scopeIncludesEnvironment s environmentId =
     (case s of AllScope \<Rightarrow> True | ListedScope ids \<Rightarrow> environmentId \<in> set ids)"

definition scopeWithout :: "member_scope \<Rightarrow> environment_id \<Rightarrow> member_scope" where
  "scopeWithout s environmentId =
     (case s of
        AllScope \<Rightarrow> AllScope
      | ListedScope ids \<Rightarrow>
          if environmentId \<notin> set ids then ListedScope ids
          else ListedScope (filter (\<lambda>id. id \<noteq> environmentId) ids))"

definition scopeAsEnvironmentSet :: "member_scope \<Rightarrow> environment_set" where
  "scopeAsEnvironmentSet s = (case s of AllScope \<Rightarrow> AllSet | ListedScope ids \<Rightarrow> ListedSet (set ids))"

fun unionEnvironmentSets :: "environment_set \<Rightarrow> environment_set \<Rightarrow> environment_set" where
  "unionEnvironmentSets (ListedSet a) (ListedSet b) = ListedSet (a \<union> b)"
| "unionEnvironmentSets _ _ = AllSet"

fun symmetricDifferenceEnvironmentSets :: "environment_set \<Rightarrow> environment_set \<Rightarrow> environment_set" where
  "symmetricDifferenceEnvironmentSets AllSet AllSet = ListedSet {}"
| "symmetricDifferenceEnvironmentSets (ListedSet a) (ListedSet b) = ListedSet ((a - b) \<union> (b - a))"
| "symmetricDifferenceEnvironmentSets _ _ = AllSet"

fun scopeContainsEnvironmentSet :: "member_scope \<Rightarrow> environment_set \<Rightarrow> bool" where
  "scopeContainsEnvironmentSet AllScope s = True"
| "scopeContainsEnvironmentSet (ListedScope ids) AllSet = False"
| "scopeContainsEnvironmentSet (ListedScope ids) (ListedSet s) = (\<forall>id \<in> s. id \<in> set ids)"

section \<open>The meaning of a scope\<close>

definition scope_envs :: "member_scope \<Rightarrow> environment_id set" where
  "scope_envs s = (case s of AllScope \<Rightarrow> UNIV | ListedScope ids \<Rightarrow> set ids)"

lemma scope_envs_simps [simp]:
  "scope_envs AllScope = UNIV"
  "scope_envs ALL_SCOPE = UNIV"
  "scope_envs (ListedScope ids) = set ids"
  by (simp_all add: scope_envs_def ALL_SCOPE_def)

lemma scopeIncludesEnvironment_iff: "scopeIncludesEnvironment s e \<longleftrightarrow> e \<in> scope_envs s"
  by (cases s) (simp_all add: scopeIncludesEnvironment_def)

lemma infinite_environment_ids: "infinite (UNIV :: environment_id set)"
  by (rule infinite_UNIV_listI)

lemma cofinite_not_listed: "finite (X :: environment_id set) \<Longrightarrow> \<not> UNIV - X \<subseteq> set ids"
  using infinite_environment_ids by (metis List.finite_set finite_Diff2 finite_subset)

text \<open>The containment test decides inclusion of the meanings.\<close>

lemma contains_scope_iff:
  "scopeContainsEnvironmentSet actor (scopeAsEnvironmentSet s) \<longleftrightarrow> scope_envs s \<subseteq> scope_envs actor"
  using cofinite_not_listed [of "{}"]
  by (cases actor; cases s) (auto simp: scopeAsEnvironmentSet_def)

lemma contains_union_iff:
  "scopeContainsEnvironmentSet actor
     (unionEnvironmentSets (scopeAsEnvironmentSet s) (scopeAsEnvironmentSet t))
   \<longleftrightarrow> scope_envs s \<union> scope_envs t \<subseteq> scope_envs actor"
  using cofinite_not_listed [of "{}"]
  by (cases actor; cases s; cases t) (auto simp: scopeAsEnvironmentSet_def)

lemma contains_symmetric_difference_iff:
  "scopeContainsEnvironmentSet actor
     (symmetricDifferenceEnvironmentSets (scopeAsEnvironmentSet s) (scopeAsEnvironmentSet t))
   \<longleftrightarrow> (scope_envs s - scope_envs t) \<union> (scope_envs t - scope_envs s) \<subseteq> scope_envs actor"
proof (cases actor)
  case (ListedScope ids)
  then show ?thesis
    using cofinite_not_listed [of "set x" ids for x]
    by (cases s; cases t) (auto simp: scopeAsEnvironmentSet_def)
qed simp

lemma scope_envs_without [simp]: "s \<noteq> AllScope \<Longrightarrow> scope_envs (scopeWithout s e) = scope_envs s - {e}"
  by (cases s) (auto simp: scopeWithout_def)

lemma scopeWithout_AllScope [simp]: "scopeWithout AllScope e = AllScope"
  by (simp add: scopeWithout_def)

lemma scopeWithout_Listed [simp]: "scopeWithout (ListedScope ids) e = ListedScope (filter (\<lambda>id. id \<noteq> e) ids)"
proof (cases "e \<in> set ids")
  case False
  then have "filter (\<lambda>id. id \<noteq> e) ids = ids" by (auto simp: filter_id_conv)
  then show ?thesis by (simp add: scopeWithout_def False)
qed (simp add: scopeWithout_def)

lemma scopeWithout_eq_iff: "scopeWithout s e = s \<longleftrightarrow> (\<forall>ids. s = ListedScope ids \<longrightarrow> e \<notin> set ids)"
  by (cases s) (auto simp: filter_id_conv)

lemma scopeWithout_All_iff [simp]: "scopeWithout s e = AllScope \<longleftrightarrow> s = AllScope"
  by (cases s) auto

lemma scope_envs_without_subset: "scope_envs (scopeWithout s e) \<subseteq> scope_envs s"
  by (cases s) auto

lemma scope_kind_name_inject [simp]: "scope_kind_name a = scope_kind_name b \<longleftrightarrow> a = b"
  by (cases a; cases b) (simp_all add: scope_kind_name_def)

lemma memberScopeOf_fields [simp]: "memberScopeOf (scopePayloadFieldsOf s) = s"
  by (cases s) (simp_all add: memberScopeOf_def scopePayloadFieldsOf_def ALL_SCOPE_def)

end
