(* ===== verification/Chain_Device.thy ===== *)
theory Chain_Device
  imports Member_Scope
begin

text \<open>
  Roles, device caps and effective permission (\<open>chain-device.ts\<close>). Keys belong to devices, permission
  belongs to the person: the permission a signature carries is the meet of the person's (role,
  scope) and the signing device's cap.
\<close>

datatype role = Reader | Member | Admin | Owner

definition ROLE_RANK :: "role \<Rightarrow> nat" where
  "ROLE_RANK r = (case r of Reader \<Rightarrow> 0 | Member \<Rightarrow> 1 | Admin \<Rightarrow> 2 | Owner \<Rightarrow> 3)"

lemma ROLE_RANK_simps [simp]:
  "ROLE_RANK Reader = 0" "ROLE_RANK Member = 1" "ROLE_RANK Admin = 2" "ROLE_RANK Owner = 3"
  by (simp_all add: ROLE_RANK_def)

lemma ROLE_RANK_inject [simp]: "ROLE_RANK a = ROLE_RANK b \<longleftrightarrow> a = b"
  by (cases a; cases b) simp_all

instantiation role :: linorder
begin

definition less_eq_role :: "role \<Rightarrow> role \<Rightarrow> bool" where
  "less_eq_role a b \<longleftrightarrow> ROLE_RANK a \<le> ROLE_RANK b"

definition less_role :: "role \<Rightarrow> role \<Rightarrow> bool" where
  "less_role a b \<longleftrightarrow> ROLE_RANK a < ROLE_RANK b"

instance
  by standard (auto simp: less_eq_role_def less_role_def)

end

lemma role_le_Owner [simp]: "r \<le> Owner"
  by (cases r) (simp_all add: less_eq_role_def)

lemma Reader_le_role [simp]: "Reader \<le> r"
  by (cases r) (simp_all add: less_eq_role_def)

lemma Owner_le_iff [simp]: "Owner \<le> r \<longleftrightarrow> r = Owner"
  by (cases r) (simp_all add: less_eq_role_def)

text \<open>The lower of two roles.\<close>

definition minRole :: "role \<Rightarrow> role \<Rightarrow> role" where
  "minRole a b = (if ROLE_RANK a \<le> ROLE_RANK b then a else b)"

lemma minRole_min: "minRole a b = min a b"
  by (simp add: minRole_def min_def less_eq_role_def)

record device_cap =
  roleCap :: role
  cap_scope :: member_scope

definition FIRST_DEVICE_CAP :: device_cap where
  "FIRST_DEVICE_CAP = \<lparr>roleCap = Owner, cap_scope = ALL_SCOPE\<rparr>"

record chain_device = device_cap +
  keyFingerprintHex :: fingerprint
  encPubHex :: ustr
  sigPubHex :: ustr
  addedSeq :: int

record effective_permission =
  perm_role :: role
  perm_scope :: member_scope

definition intersectScopes :: "member_scope \<Rightarrow> member_scope \<Rightarrow> member_scope" where
  "intersectScopes a b =
     (case a of
        AllScope \<Rightarrow> (case b of AllScope \<Rightarrow> ALL_SCOPE | ListedScope ids \<Rightarrow> ListedScope ids)
      | ListedScope as \<Rightarrow>
          (case b of
             AllScope \<Rightarrow> ListedScope as
           | ListedScope bs \<Rightarrow> ListedScope (filter (\<lambda>id. id \<in> set bs) as)))"

definition effectivePermissionOf ::
  "role \<Rightarrow> member_scope \<Rightarrow> 'a device_cap_scheme \<Rightarrow> effective_permission" where
  "effectivePermissionOf person_role person_scope device =
     \<lparr>perm_role = minRole person_role (roleCap device),
      perm_scope = intersectScopes person_scope (cap_scope device)\<rparr>"

definition capWithinCap :: "'a device_cap_scheme \<Rightarrow> 'b device_cap_scheme \<Rightarrow> bool" where
  "capWithinCap candidate signer =
     (if ROLE_RANK (roleCap signer) < ROLE_RANK (roleCap candidate) then False
      else case cap_scope signer of
        AllScope \<Rightarrow> True
      | ListedScope allowed \<Rightarrow>
          (case cap_scope candidate of
             AllScope \<Rightarrow> False
           | ListedScope ids \<Rightarrow> list_all (\<lambda>id. id \<in> set allowed) ids))"

text \<open>The member's only device, or nothing when it holds none or several.\<close>

definition soleDeviceOf :: "(fingerprint, chain_device) js_map \<Rightarrow> chain_device option" where
  "soleDeviceOf devices = (if length devices \<noteq> 1 then None else Some (snd (hd devices)))"

lemma scope_envs_intersect [simp]: "scope_envs (intersectScopes a b) = scope_envs a \<inter> scope_envs b"
  by (cases a; cases b) (auto simp: intersectScopes_def)

lemma intersectScopes_All [simp]: "intersectScopes s AllScope = s" "intersectScopes AllScope s = s"
  by (cases s; simp add: intersectScopes_def ALL_SCOPE_def)+

text \<open>The effective permission is the greatest permission below both the person's and the cap.\<close>

lemma effective_role_le:
  "perm_role (effectivePermissionOf r s d) \<le> r"
  "perm_role (effectivePermissionOf r s d) \<le> roleCap d"
  by (simp_all add: effectivePermissionOf_def minRole_min)

lemma effective_role_eq: "perm_role (effectivePermissionOf r s d) = min r (roleCap d)"
  by (simp add: effectivePermissionOf_def minRole_min)

lemma effective_scope_envs:
  "scope_envs (perm_scope (effectivePermissionOf r s d)) = scope_envs s \<inter> scope_envs (cap_scope d)"
  by (simp add: effectivePermissionOf_def)

lemma effective_owner_iff:
  "perm_role (effectivePermissionOf r s d) = Owner \<longleftrightarrow> r = Owner \<and> roleCap d = Owner"
  by (cases r; cases "roleCap d") (simp_all add: effective_role_eq min_def less_eq_role_def)

lemma capWithinCap_iff:
  "capWithinCap c s \<longleftrightarrow> roleCap c \<le> roleCap s \<and> scope_envs (cap_scope c) \<subseteq> scope_envs (cap_scope s)"
  using cofinite_not_listed [of "{}"]
  by (auto simp: capWithinCap_def less_eq_role_def list_all_iff split: member_scope.splits)

lemma capWithinCap_refl: "capWithinCap c c"
  by (simp add: capWithinCap_iff)

lemma capWithinCap_trans: "capWithinCap a b \<Longrightarrow> capWithinCap b c \<Longrightarrow> capWithinCap a c"
  by (auto simp: capWithinCap_iff)

end
