(* ===== verification/Chain_Types.thy ===== *)
theory Chain_Types
  imports Chain_Device
begin

text \<open>
  The types of the membership log (\<open>chain-types.ts\<close>) and the verifier's state (the interfaces at the
  head of \<open>chain-verify.ts\<close>). The payload of each operation is a record with the source's fields
  (prefixed where two payloads share a name), the operations are datatypes, a branded string is a
  plain one, and every number is an integer.
\<close>

section \<open>Operations and payloads\<close>

datatype approval_target_op =
    GrantServerOp | RevokeServerOp | RemoveMemberOp | ChangeRoleOp | AddMemberOp | SetApprovalPolicyOp

definition APPROVAL_TARGET_OPS :: "approval_target_op list" where
  "APPROVAL_TARGET_OPS =
     [GrantServerOp, RevokeServerOp, RemoveMemberOp, ChangeRoleOp, AddMemberOp, SetApprovalPolicyOp]"

record chain_actor =
  actor_userId :: user_id
  actor_keyFingerprintHex :: fingerprint

record genesis_payload =
  gn_encPubHex :: ustr
  gn_sigPubHex :: ustr

record add_member_payload = scope_payload_fields +
  am_targetUserId :: user_id
  am_encPubHex :: ustr
  am_sigPubHex :: ustr
  am_role :: role

record change_role_payload = scope_payload_fields +
  cr_targetUserId :: user_id
  cr_newRole :: role

record create_environment_payload =
  ce_environmentId :: environment_id
  ce_dekCommitmentHex :: ustr

record rotate_epoch_payload =
  re_environmentId :: environment_id
  re_newEpoch :: int
  re_reason :: ustr
  re_dekCommitmentHex :: ustr

record lease_claim_constraint =
  claimName :: ustr
  claimValue :: ustr

record lease_policy_issuer =
  issuerUrl :: ustr
  audience :: ustr
  claimConstraints :: "lease_claim_constraint list"

record grant_server_payload =
  gs_serverEncPubHex :: ustr
  gs_serverKeyFingerprintHex :: fingerprint
  gs_scopeEnvironmentIds :: "environment_id list"
  gs_leasePolicy :: "lease_policy_issuer list"

record checkpoint_environment_entry =
  ck_environmentId :: environment_id
  ck_epoch :: int
  ck_manifestVersion :: int
  ck_manifestSigHashHex :: ustr
  ck_valuesDigestHex :: ustr

record checkpoint_payload =
  cp_environments :: "checkpoint_environment_entry list"
  cp_auditHeadHashHex :: ustr

record set_approval_policy_payload =
  sp_ops :: "approval_target_op list"
  sp_requiredApprovals :: int

record add_device_payload = scope_payload_fields +
  ad_encPubHex :: ustr
  ad_sigPubHex :: ustr
  ad_roleCap :: role

record revoke_device_payload =
  rd_targetUserId :: user_id
  rd_deviceFingerprintsHex :: "fingerprint list"

text \<open>
  Every operation that a proposal can carry. \<open>remove_member\<close>, \<open>delete_environment\<close> and
  \<open>revoke_server\<close> have one payload field, held by the constructor.
\<close>

datatype proposable_operation =
    Genesis genesis_payload
  | Add_Member add_member_payload
  | Remove_Member user_id
  | Change_Role change_role_payload
  | Create_Environment create_environment_payload
  | Delete_Environment environment_id
  | Rotate_Epoch rotate_epoch_payload
  | Grant_Server grant_server_payload
  | Revoke_Server fingerprint
  | Checkpoint checkpoint_payload
  | Set_Approval_Policy set_approval_policy_payload
  | Add_Device add_device_payload
  | Revoke_Device revoke_device_payload

record propose_payload =
  pr_inner :: proposable_operation
  pr_expiresAtMs :: int

text \<open>The sixteen operations: a proposable one, or one of the three approval operations.\<close>

datatype chain_operation =
    Direct proposable_operation
  | Propose propose_payload
  | Approve ustr
  | Withdraw ustr

record unsigned_chain_entry =
  entry_operation :: chain_operation
  entry_suite :: ustr
  entry_seq :: int
  entry_prevHashHex :: ustr
  entry_actor :: chain_actor
  entry_timestampMs :: int

record chain_entry = unsigned_chain_entry +
  entry_signatureHex :: ustr

text \<open>The strings of the wire format.\<close>

definition role_name :: "role \<Rightarrow> ustr" where
  "role_name r = (case r of
     Reader \<Rightarrow> lit ''reader'' | Member \<Rightarrow> lit ''member'' | Admin \<Rightarrow> lit ''admin'' | Owner \<Rightarrow> lit ''owner'')"

definition approval_target_name :: "approval_target_op \<Rightarrow> ustr" where
  "approval_target_name k = (case k of
     GrantServerOp \<Rightarrow> lit ''grant_server''
   | RevokeServerOp \<Rightarrow> lit ''revoke_server''
   | RemoveMemberOp \<Rightarrow> lit ''remove_member''
   | ChangeRoleOp \<Rightarrow> lit ''change_role''
   | AddMemberOp \<Rightarrow> lit ''add_member''
   | SetApprovalPolicyOp \<Rightarrow> lit ''set_approval_policy'')"

definition proposable_op_name :: "proposable_operation \<Rightarrow> ustr" where
  "proposable_op_name opn = (case opn of
     Genesis _ \<Rightarrow> lit ''genesis''
   | Add_Member _ \<Rightarrow> lit ''add_member''
   | Remove_Member _ \<Rightarrow> lit ''remove_member''
   | Change_Role _ \<Rightarrow> lit ''change_role''
   | Create_Environment _ \<Rightarrow> lit ''create_environment''
   | Delete_Environment _ \<Rightarrow> lit ''delete_environment''
   | Rotate_Epoch _ \<Rightarrow> lit ''rotate_epoch''
   | Grant_Server _ \<Rightarrow> lit ''grant_server''
   | Revoke_Server _ \<Rightarrow> lit ''revoke_server''
   | Checkpoint _ \<Rightarrow> lit ''checkpoint''
   | Set_Approval_Policy _ \<Rightarrow> lit ''set_approval_policy''
   | Add_Device _ \<Rightarrow> lit ''add_device''
   | Revoke_Device _ \<Rightarrow> lit ''revoke_device'')"

definition op_name :: "chain_operation \<Rightarrow> ustr" where
  "op_name opn = (case opn of
     Direct inner \<Rightarrow> proposable_op_name inner
   | Propose _ \<Rightarrow> lit ''propose''
   | Approve _ \<Rightarrow> lit ''approve''
   | Withdraw _ \<Rightarrow> lit ''withdraw'')"

section \<open>The verified state\<close>

record chain_member =
  mem_userId :: user_id
  mem_role :: role
  mem_scope :: member_scope
  devices :: "(fingerprint, chain_device) js_map"

record approval_policy =
  pol_ops :: "approval_target_op list"
  pol_requiredApprovals :: int

record approval_vote =
  vote_userId :: user_id
  vote_keyFingerprintHex :: fingerprint

record pending_proposal =
  proposalSeq :: int
  proposalHashHex :: ustr
  proposerUserId :: user_id
  proposerKeyFingerprintHex :: fingerprint
  proposerRoleAtProposal :: role
  inner_operation :: proposable_operation
  expiresAtMs :: int
  approvals :: "approval_vote list"

record server_grant =
  serverKeyFingerprintHex :: fingerprint
  serverEncPubHex :: ustr
  grantSeq :: int
  grant_scopeEnvironmentIds :: "environment_id list"
  grant_leasePolicy :: "lease_policy_issuer list"

record environment_state =
  currentEpoch :: int
  createdAtSeq :: int
  deletedAtSeq :: "int option"
  epochStartSeqs :: "(int, int) js_map"
  dekCommitments :: "(int, ustr) js_map"

record environment_checkpoint_state =
  chk_seq :: int
  chk_epoch :: int
  chk_manifestVersion :: int
  chk_manifestSigHashHex :: ustr
  chk_valuesDigestHex :: ustr

record mutable_chain_state =
  members :: "(user_id, chain_member) js_map"
  serverGrants :: "(fingerprint, server_grant) js_map"
  environments :: "(environment_id, environment_state) js_map"
  checkpoints :: "(environment_id, environment_checkpoint_state) js_map"
  memberEncPubs :: "ustr set"
  memberSigPubs :: "ustr set"
  namedServerKeys :: "(ustr, fingerprint) js_map"
  approvalPolicy :: "approval_policy option"
  pendingProposals :: "(ustr, pending_proposal) js_map"

text \<open>What a caller gets: the same maps without the verifier's key index, and the chain head.\<close>

record chain_state =
  st_members :: "(user_id, chain_member) js_map"
  st_serverGrants :: "(fingerprint, server_grant) js_map"
  st_environments :: "(environment_id, environment_state) js_map"
  st_checkpoints :: "(environment_id, environment_checkpoint_state) js_map"
  st_approvalPolicy :: "approval_policy option"
  st_pendingProposals :: "(ustr, pending_proposal) js_map"
  st_namedServerKeys :: "(ustr, fingerprint) js_map"
  st_headSeq :: int
  st_headHashHex :: ustr

datatype chain_invalid_reason =
    Empty_Chain | Bad_Suite | Bad_Seq | Bad_Prev_Hash | Bad_Genesis | Bad_Signature | Invalid_Payload
  | Insufficient_Role | Actor_Not_Member | Actor_Key_Mismatch | Last_Owner_Protected | Unknown_Target
  | Duplicate_Member | Duplicate_Member_Key | Duplicate_Environment | Unknown_Environment
  | Unknown_Server_Grant | Grant_Scope_Narrowed | Duplicate_Server_Key | Epoch_Out_Of_Sequence
  | Checkpoint_Audit_Role_Insufficient | Checkpoint_Epoch_Mismatch | Checkpoint_Regression
  | Scope_Role_Mismatch | Scope_Not_Contained | Environment_Out_Of_Scope
  | Approval_Required | Approval_Not_Required | Approval_Quorum_Unreachable | Unknown_Proposal
  | Duplicate_Approval | Proposal_Expired | Proposal_Void
  | Unknown_Device | Last_Device_Protected | Device_Cap_Exceeded | Environment_Deleted

record chain_invalid =
  err_seq :: int
  err_reason :: chain_invalid_reason

section \<open>Facts on the names\<close>

lemma role_name_inject [simp]: "role_name a = role_name b \<longleftrightarrow> a = b"
  by (cases a; cases b) (simp_all add: role_name_def)

lemma approval_target_name_inject [simp]: "approval_target_name a = approval_target_name b \<longleftrightarrow> a = b"
  by (cases a; cases b) (simp_all add: approval_target_name_def)

lemma in_APPROVAL_TARGET_OPS [simp]: "k \<in> set APPROVAL_TARGET_OPS"
  by (cases k) (simp_all add: APPROVAL_TARGET_OPS_def)


end
