(* ===== verification/Chain_Shape.thy ===== *)
theory Chain_Shape
  imports Chain_Types "HOL-Library.Monad_Syntax"
begin

text \<open>
  The runtime structure check of untrusted entries (the shape predicates of \<open>chain-verify.ts\<close>) over
  JavaScript values of unknown type, beside the typed reading the rest of the verifier makes of the
  same values. The lemmas show that the check accepts exactly the values that read as a well-formed
  operation, so the cast that follows it in the source is sound.
\<close>

definition SUITE_ID :: ustr where
  "SUITE_ID = lit ''maruhi/v1''"

definition FINGERPRINT_BYTES :: nat where
  "FINGERPRINT_BYTES = 16"

definition SIGNATURE_BYTES :: nat where
  "SIGNATURE_BYTES = 64"

definition SHA256_BYTES :: nat where
  "SHA256_BYTES = 32"

definition MAX_FIELD_BYTES :: nat where
  "MAX_FIELD_BYTES = 1024"

definition MAX_LEASE_POLICY_ISSUERS :: nat where
  "MAX_LEASE_POLICY_ISSUERS = 8"

definition MAX_LEASE_CLAIM_CONSTRAINTS :: nat where
  "MAX_LEASE_CLAIM_CONSTRAINTS = 8"

definition MIN_ACTIVE_REQUIRED_APPROVALS :: int where
  "MIN_ACTIVE_REQUIRED_APPROVALS = 2"

definition MAX_REVOKE_DEVICE_FINGERPRINTS :: nat where
  "MAX_REVOKE_DEVICE_FINGERPRINTS = 256"

definition ROLES :: "role list" where
  "ROLES = [Owner, Admin, Member, Reader]"

section \<open>Field predicates\<close>

definition withinFieldBytes :: "ustr \<Rightarrow> bool" where
  "withinFieldBytes s \<longleftrightarrow> length s \<le> MAX_FIELD_BYTES \<and> length (utf8_encode s) \<le> MAX_FIELD_BYTES"

fun isBoundedId :: "js_value \<Rightarrow> bool" where
  "isBoundedId (JString s) = (0 < length s \<and> withinFieldBytes s)"
| "isBoundedId _ = False"

fun isBoundedText :: "js_value \<Rightarrow> bool" where
  "isBoundedText (JString s) = withinFieldBytes s"
| "isBoundedText _ = False"

fun isHexOfLength :: "js_value \<Rightarrow> nat \<Rightarrow> bool" where
  "isHexOfLength (JString s) n =
     (if length s \<noteq> n * 2 then False
      else case decode_hex s of None \<Rightarrow> False | Some decoded \<Rightarrow> length decoded = n)"
| "isHexOfLength _ n = False"

fun isRole :: "js_value \<Rightarrow> bool" where
  "isRole (JString s) = (s \<in> set (map role_name ROLES))"
| "isRole _ = False"

fun isApprovalTargetOp :: "js_value \<Rightarrow> bool" where
  "isApprovalTargetOp (JString s) = (s \<in> set (map approval_target_name APPROVAL_TARGET_OPS))"
| "isApprovalTargetOp _ = False"

definition every :: "(js_value \<Rightarrow> bool) \<Rightarrow> nat option \<Rightarrow> js_value \<Rightarrow> bool" where
  "every P limit v = (case v of
     JArray vs \<Rightarrow> (case limit of None \<Rightarrow> True | Some n \<Rightarrow> length vs \<le> n) \<and> list_all P vs
   | _ \<Rightarrow> False)"

section \<open>Payload shapes\<close>

definition shapeGenesis :: "js_value \<Rightarrow> bool" where
  "shapeGenesis p \<longleftrightarrow> isHexOfLength (field p ''encPubHex'') 32 \<and> isHexOfLength (field p ''sigPubHex'') 32"

definition shapeScope :: "js_value \<Rightarrow> bool" where
  "shapeScope p \<longleftrightarrow> scopeShapeOk (field p ''scopeKind'') (field p ''scopeEnvironmentIds'') isBoundedId"

definition shapeAddMember :: "js_value \<Rightarrow> bool" where
  "shapeAddMember p \<longleftrightarrow>
     isBoundedId (field p ''targetUserId'') \<and> shapeGenesis p \<and> isRole (field p ''role'') \<and> shapeScope p"

definition shapeChangeRole :: "js_value \<Rightarrow> bool" where
  "shapeChangeRole p \<longleftrightarrow>
     isBoundedId (field p ''targetUserId'') \<and> isRole (field p ''newRole'') \<and> shapeScope p"

definition shapeCreateEnvironment :: "js_value \<Rightarrow> bool" where
  "shapeCreateEnvironment p \<longleftrightarrow>
     isBoundedId (field p ''environmentId'') \<and> isHexOfLength (field p ''dekCommitmentHex'') SHA256_BYTES"

definition shapeRotateEpoch :: "js_value \<Rightarrow> bool" where
  "shapeRotateEpoch p \<longleftrightarrow>
     isBoundedId (field p ''environmentId'') \<and>
     is_safe_integer (field p ''newEpoch'') \<and> number_at_least (field p ''newEpoch'') 1 \<and>
     isBoundedText (field p ''reason'') \<and>
     isHexOfLength (field p ''dekCommitmentHex'') SHA256_BYTES"

definition shapeLeaseClaimConstraint :: "js_value \<Rightarrow> bool" where
  "shapeLeaseClaimConstraint v \<longleftrightarrow>
     is_record v \<and> isBoundedId (field v ''claimName'') \<and> isBoundedText (field v ''claimValue'')"

definition shapeLeasePolicyIssuer :: "js_value \<Rightarrow> bool" where
  "shapeLeasePolicyIssuer v \<longleftrightarrow>
     is_record v \<and> isBoundedId (field v ''issuerUrl'') \<and> isBoundedId (field v ''audience'') \<and>
     every shapeLeaseClaimConstraint (Some MAX_LEASE_CLAIM_CONSTRAINTS) (field v ''claimConstraints'')"

definition shapeGrantServer :: "js_value \<Rightarrow> bool" where
  "shapeGrantServer p \<longleftrightarrow>
     isHexOfLength (field p ''serverEncPubHex'') 32 \<and>
     isHexOfLength (field p ''serverKeyFingerprintHex'') FINGERPRINT_BYTES \<and>
     every isBoundedId (Some MAX_SCOPE_ENVIRONMENTS) (field p ''scopeEnvironmentIds'') \<and>
     every shapeLeasePolicyIssuer (Some MAX_LEASE_POLICY_ISSUERS) (field p ''leasePolicy'')"

definition shapeCheckpointEnvironment :: "js_value \<Rightarrow> bool" where
  "shapeCheckpointEnvironment v \<longleftrightarrow>
     is_record v \<and> isBoundedId (field v ''environmentId'') \<and>
     is_safe_integer (field v ''epoch'') \<and> number_at_least (field v ''epoch'') 1 \<and>
     is_safe_integer (field v ''manifestVersion'') \<and> number_at_least (field v ''manifestVersion'') 1 \<and>
     isHexOfLength (field v ''manifestSigHashHex'') SHA256_BYTES \<and>
     isHexOfLength (field v ''valuesDigestHex'') SHA256_BYTES"

fun no_repeated_environment :: "js_value set \<Rightarrow> js_value list \<Rightarrow> bool" where
  "no_repeated_environment ids [] = True"
| "no_repeated_environment ids (entry # entries) =
     (if field entry ''environmentId'' \<in> ids then False
      else no_repeated_environment (insert (field entry ''environmentId'') ids) entries)"

definition shapeCheckpoint :: "js_value \<Rightarrow> bool" where
  "shapeCheckpoint p = (case field p ''environments'' of
     JArray entries \<Rightarrow>
       if \<not> list_all shapeCheckpointEnvironment entries then False
       else if \<not> no_repeated_environment {} entries then False
       else field p ''auditHeadHashHex'' = JString [] \<or> isHexOfLength (field p ''auditHeadHashHex'') SHA256_BYTES
   | _ \<Rightarrow> False)"

definition shapeSetApprovalPolicy :: "js_value \<Rightarrow> bool" where
  "shapeSetApprovalPolicy p \<longleftrightarrow>
     every isApprovalTargetOp None (field p ''ops'') \<and>
     is_safe_integer (field p ''requiredApprovals'') \<and>
     (field p ''requiredApprovals'' = JNumber 0 \<or>
      number_at_least (field p ''requiredApprovals'') MIN_ACTIVE_REQUIRED_APPROVALS)"

definition shapeProposalRef :: "js_value \<Rightarrow> bool" where
  "shapeProposalRef p \<longleftrightarrow> isHexOfLength (field p ''proposalHashHex'') SHA256_BYTES"

definition shapeAddDevice :: "js_value \<Rightarrow> bool" where
  "shapeAddDevice p \<longleftrightarrow> shapeGenesis p \<and> isRole (field p ''roleCap'') \<and> shapeScope p"

definition shapeRevokeDevice :: "js_value \<Rightarrow> bool" where
  "shapeRevokeDevice p =
     (if \<not> isBoundedId (field p ''targetUserId'') then False
      else case field p ''deviceFingerprintsHex'' of
        JArray fps \<Rightarrow>
          if length fps < 1 \<or> MAX_REVOKE_DEVICE_FINGERPRINTS < length fps then False
          else if \<not> list_all (\<lambda>fp. isHexOfLength fp FINGERPRINT_BYTES) fps then False
          else length (remdups fps) = length fps
      | _ \<Rightarrow> False)"

text \<open>
  The shape table. The rows a proposal may carry come first, so that \<open>shapePropose\<close>, which looks
  one of them up, can be a row of the whole table; a nested proposal is no row of the first part.
\<close>

definition PROPOSABLE_SHAPES :: "(ustr \<times> (js_value \<Rightarrow> bool)) list" where
  "PROPOSABLE_SHAPES =
     [(lit ''genesis'', shapeGenesis),
      (lit ''add_member'', shapeAddMember),
      (lit ''remove_member'', \<lambda>p. isBoundedId (field p ''targetUserId'')),
      (lit ''change_role'', shapeChangeRole),
      (lit ''create_environment'', shapeCreateEnvironment),
      (lit ''delete_environment'', \<lambda>p. isBoundedId (field p ''environmentId'')),
      (lit ''rotate_epoch'', shapeRotateEpoch),
      (lit ''grant_server'', shapeGrantServer),
      (lit ''revoke_server'', \<lambda>p. isHexOfLength (field p ''serverKeyFingerprintHex'') FINGERPRINT_BYTES),
      (lit ''checkpoint'', shapeCheckpoint),
      (lit ''set_approval_policy'', shapeSetApprovalPolicy),
      (lit ''add_device'', shapeAddDevice),
      (lit ''revoke_device'', shapeRevokeDevice)]"

definition shape_in_table :: "(ustr \<times> (js_value \<Rightarrow> bool)) list \<Rightarrow> js_value \<Rightarrow> js_value \<Rightarrow> bool" where
  "shape_in_table table opn payload = (case opn of
     JString name \<Rightarrow>
       (case map_of table name of None \<Rightarrow> False | Some shape \<Rightarrow> is_record payload \<and> shape payload)
   | _ \<Rightarrow> False)"

definition isProposableOp :: "js_value \<Rightarrow> bool" where
  "isProposableOp opn = (case opn of JString name \<Rightarrow> map_has PROPOSABLE_SHAPES name | _ \<Rightarrow> False)"

definition shapePropose :: "js_value \<Rightarrow> bool" where
  "shapePropose p =
     (let inner = field p ''inner'' in
      if \<not> is_record inner \<or> \<not> isProposableOp (field inner ''op'') then False
      else shape_in_table PROPOSABLE_SHAPES (field inner ''op'') (field inner ''payload'') \<and>
        is_safe_integer (field p ''expiresAtMs'') \<and> number_at_least (field p ''expiresAtMs'') 0)"

definition PAYLOAD_SHAPES :: "(ustr \<times> (js_value \<Rightarrow> bool)) list" where
  "PAYLOAD_SHAPES =
     PROPOSABLE_SHAPES @
     [(lit ''propose'', shapePropose), (lit ''approve'', shapeProposalRef), (lit ''withdraw'', shapeProposalRef)]"

definition operationShapeOk :: "js_value \<Rightarrow> js_value \<Rightarrow> bool" where
  "operationShapeOk opn payload = shape_in_table PAYLOAD_SHAPES opn payload"

definition checkPayloadShape :: "js_value \<Rightarrow> chain_invalid_reason option" where
  "checkPayloadShape entry =
     (if \<not> is_safe_integer (field entry ''timestampMs'') \<or> \<not> number_at_least (field entry ''timestampMs'') 0
      then Some Invalid_Payload
      else if \<not> is_record (field entry ''actor'') \<or> \<not> isBoundedId (field (field entry ''actor'') ''userId'') \<or>
        \<not> isHexOfLength (field (field entry ''actor'') ''keyFingerprintHex'') FINGERPRINT_BYTES
      then Some Invalid_Payload
      else if \<not> isHexOfLength (field entry ''signatureHex'') SIGNATURE_BYTES then Some Invalid_Payload
      else reject_when (\<not> operationShapeOk (field entry ''op'') (field entry ''payload'')) Invalid_Payload)"

definition checkFraming :: "js_value \<Rightarrow> int \<Rightarrow> ustr \<Rightarrow> chain_invalid_reason option" where
  "checkFraming entry expectedSeq expectedPrevHash =
     (if field entry ''suite'' \<noteq> JString SUITE_ID then Some Bad_Suite
      else if field entry ''seq'' \<noteq> JNumber expectedSeq then Some Bad_Seq
      else if (expectedSeq = 1) \<noteq> (field entry ''op'' = JString (lit ''genesis'')) then Some Bad_Genesis
      else if field entry ''prevHashHex'' \<noteq> JString expectedPrevHash then Some Bad_Prev_Hash
      else None)"

end
