(* ===== verification/Chain_Rules.thy ===== *)
theory Chain_Rules
  imports Chain_Shape
begin

text \<open>
  The authorization rules of the membership log (\<open>chain-verify.ts\<close>): the derivation functions of
  principle 1 (the environments whose permissions an operation changes) and principle 2 (owner
  votes), the role rules and the consensus rules of each operation, in the order of the checks.
  A rule that passes gives \<^const>\<open>None\<close>. SHA-256 is a parameter.
\<close>

record actor_context =
  ctx_userId :: user_id
  ctx_device :: chain_device
  ctx_permission :: effective_permission

definition atLeast :: "role \<Rightarrow> role \<Rightarrow> bool" where
  "atLeast r minimum \<longleftrightarrow> ROLE_RANK minimum \<le> ROLE_RANK r"

definition userFingerprintHex :: "(bytes \<Rightarrow> bytes) \<Rightarrow> ustr \<Rightarrow> ustr \<Rightarrow> fingerprint" where
  "userFingerprintHex sha256 encPub sigPub =
     (let enc = (case decode_hex encPub of None \<Rightarrow> [] | Some b \<Rightarrow> b);
          sig = (case decode_hex sigPub of None \<Rightarrow> [] | Some b \<Rightarrow> b)
      in encode_hex (take FINGERPRINT_BYTES (sha256 (enc @ sig))))"

definition ownersCount :: "mutable_chain_state \<Rightarrow> nat" where
  "ownersCount state = count_values (\<lambda>m. mem_role m = Owner) (members state)"

definition actorContextOf :: "chain_member \<Rightarrow> chain_device \<Rightarrow> actor_context" where
  "actorContextOf member device =
     \<lparr>ctx_userId = mem_userId member, ctx_device = device,
      ctx_permission = effectivePermissionOf (mem_role member) (mem_scope member) device\<rparr>"

abbreviation actor_role :: "actor_context \<Rightarrow> role" where
  "actor_role actor \<equiv> perm_role (ctx_permission actor)"

abbreviation actor_scope :: "actor_context \<Rightarrow> member_scope" where
  "actor_scope actor \<equiv> perm_scope (ctx_permission actor)"

definition registersTakenKey :: "mutable_chain_state \<Rightarrow> ustr \<Rightarrow> ustr \<Rightarrow> bool" where
  "registersTakenKey state enc sig \<longleftrightarrow>
     enc \<in> memberEncPubs state \<or> sig \<in> memberSigPubs state \<or> map_has (namedServerKeys state) enc"

section \<open>Principle 1 and principle 2\<close>

text \<open>
  The source's argument is one of \<open>add_member\<close>, \<open>change_role\<close>, \<open>remove_member\<close>; for any other
  operation the model answers every environment.
\<close>

definition permissionChangeEnvironments :: "proposable_operation \<Rightarrow> chain_member option \<Rightarrow> environment_set" where
  "permissionChangeEnvironments operation target =
     (let current = scopeAsEnvironmentSet (case target of None \<Rightarrow> ALL_SCOPE | Some t \<Rightarrow> mem_scope t)
      in case operation of
        Remove_Member _ \<Rightarrow> current
      | Add_Member p \<Rightarrow> scopeAsEnvironmentSet (memberScopeOf p)
      | Change_Role p \<Rightarrow>
          if map_option mem_role target = Some (cr_newRole p)
          then symmetricDifferenceEnvironmentSets current (scopeAsEnvironmentSet (memberScopeOf p))
          else unionEnvironmentSets current (scopeAsEnvironmentSet (memberScopeOf p))
      | _ \<Rightarrow> AllSet)"

definition establishesOwner :: "proposable_operation \<Rightarrow> bool" where
  "establishesOwner operation = (case operation of
     Add_Member p \<Rightarrow> am_role p = Owner
   | Change_Role p \<Rightarrow> cr_newRole p = Owner
   | _ \<Rightarrow> False)"

definition isApprovalTarget :: "proposable_operation \<Rightarrow> approval_policy option \<Rightarrow> bool" where
  "isApprovalTarget operation policy = (case policy of
     None \<Rightarrow> False
   | Some p \<Rightarrow>
       if (case operation of Set_Approval_Policy _ \<Rightarrow> True | _ \<Rightarrow> False) \<or> establishesOwner operation then True
       else isApprovalTargetOp (JString (proposable_op_name operation)) \<and>
         proposable_op_name operation \<in> set (map approval_target_name (pol_ops p)))"

definition approvalSignersOf :: "pending_proposal \<Rightarrow> approval_vote list" where
  "approvalSignersOf pending =
     (if proposerRoleAtProposal pending = Owner
      then [\<lparr>vote_userId = proposerUserId pending, vote_keyFingerprintHex = proposerKeyFingerprintHex pending\<rparr>]
      else []) @ approvals pending"

definition device_of :: "(user_id, chain_member) js_map \<Rightarrow> user_id \<Rightarrow> fingerprint \<Rightarrow> chain_device option" where
  "device_of ms userId fp = Option.bind (map_of ms userId) (\<lambda>m. map_of (devices m) fp)"

definition voteDevice :: "mutable_chain_state \<Rightarrow> approval_vote \<Rightarrow> chain_device option" where
  "voteDevice state signer = device_of (members state) (vote_userId signer) (vote_keyFingerprintHex signer)"

definition is_owner_vote :: "(user_id, chain_member) js_map \<Rightarrow> approval_vote \<Rightarrow> bool" where
  "is_owner_vote ms signer = (case map_of ms (vote_userId signer) of
     None \<Rightarrow> False
   | Some member \<Rightarrow>
       (case map_of (devices member) (vote_keyFingerprintHex signer) of
          None \<Rightarrow> False
        | Some device \<Rightarrow> perm_role (effectivePermissionOf (mem_role member) (mem_scope member) device) = Owner))"

definition ownerVotersOf :: "(user_id, chain_member) js_map \<Rightarrow> approval_vote list \<Rightarrow> user_id set" where
  "ownerVotersOf ms signers = set (map vote_userId (filter (is_owner_vote ms) signers))"

definition countOwnerVotes :: "mutable_chain_state \<Rightarrow> approval_vote list \<Rightarrow> nat" where
  "countOwnerVotes state signers = card (ownerVotersOf (members state) signers)"

definition ownersRemovedBy :: "proposable_operation \<Rightarrow> chain_member option \<Rightarrow> nat" where
  "ownersRemovedBy operation target =
     (if map_option mem_role target \<noteq> Some Owner then 0
      else case operation of
        Remove_Member _ \<Rightarrow> 1
      | Change_Role p \<Rightarrow> if cr_newRole p \<noteq> Owner then 1 else 0
      | _ \<Rightarrow> 0)"

definition quorumReachableAfter ::
  "proposable_operation \<Rightarrow> mutable_chain_state \<Rightarrow> chain_member option \<Rightarrow> bool" where
  "quorumReachableAfter operation state target =
     (let required = (case operation of
            Set_Approval_Policy p \<Rightarrow> sp_requiredApprovals p
          | _ \<Rightarrow> (case approvalPolicy state of None \<Rightarrow> 0 | Some p \<Rightarrow> pol_requiredApprovals p))
      in required = 0 \<or> required \<le> int (ownersCount state) - int (ownersRemovedBy operation target))"

section \<open>Role rules\<close>

definition requireRole :: "role \<Rightarrow> role \<Rightarrow> chain_invalid_reason option" where
  "requireRole actual minimum = (if atLeast actual minimum then None else Some Insufficient_Role)"

definition checkpointRoleReason :: "ustr \<Rightarrow> role \<Rightarrow> chain_invalid_reason option" where
  "checkpointRoleReason auditHeadHashHex actorRole =
     (if \<not> atLeast actorRole Member then Some Insufficient_Role
      else if auditHeadHashHex \<noteq> [] \<and> \<not> atLeast actorRole Admin then Some Checkpoint_Audit_Role_Insufficient
      else None)"

definition addMemberRoleReason :: "role \<Rightarrow> role \<Rightarrow> chain_invalid_reason option" where
  "addMemberRoleReason grantedRole actorRole =
     requireRole actorRole (if atLeast grantedRole Admin then Owner else Admin)"

definition roleReason :: "proposable_operation \<Rightarrow> actor_context \<Rightarrow> chain_invalid_reason option" where
  "roleReason operation actor = (case operation of
     Genesis _ \<Rightarrow> None
   | Add_Member p \<Rightarrow> addMemberRoleReason (am_role p) (actor_role actor)
   | Remove_Member _ \<Rightarrow> requireRole (actor_role actor) Admin
   | Change_Role _ \<Rightarrow> requireRole (actor_role actor) Admin
   | Create_Environment _ \<Rightarrow> requireRole (actor_role actor) Member
   | Delete_Environment _ \<Rightarrow> requireRole (actor_role actor) Admin
   | Rotate_Epoch _ \<Rightarrow> requireRole (actor_role actor) Member
   | Checkpoint p \<Rightarrow> checkpointRoleReason (cp_auditHeadHashHex p) (actor_role actor)
   | Grant_Server _ \<Rightarrow> requireRole (actor_role actor) Owner
   | Revoke_Server _ \<Rightarrow> requireRole (actor_role actor) Owner
   | Set_Approval_Policy _ \<Rightarrow> requireRole (actor_role actor) Owner
   | Add_Device _ \<Rightarrow> None
   | Revoke_Device _ \<Rightarrow> None)"

definition targetRoleReason ::
  "proposable_operation \<Rightarrow> actor_context \<Rightarrow> chain_member \<Rightarrow> chain_invalid_reason option" where
  "targetRoleReason operation actor target =
     (if atLeast (mem_role target) Admin \<and> actor_role actor \<noteq> Owner then Some Insufficient_Role
      else if (case operation of Change_Role p \<Rightarrow> atLeast (cr_newRole p) Admin | _ \<Rightarrow> False) \<and>
        actor_role actor \<noteq> Owner then Some Insufficient_Role
      else None)"

section \<open>Consensus rules\<close>

definition isDeletedEnvironment :: "mutable_chain_state \<Rightarrow> environment_id \<Rightarrow> bool" where
  "isDeletedEnvironment state environmentId \<longleftrightarrow>
     Option.bind (map_of (environments state) environmentId) deletedAtSeq \<noteq> None"

definition liveEnvironmentReason ::
  "mutable_chain_state \<Rightarrow> environment_id \<Rightarrow> chain_invalid_reason option" where
  "liveEnvironmentReason state environmentId =
     (if \<not> map_has (environments state) environmentId then Some Unknown_Environment
      else if isDeletedEnvironment state environmentId then Some Environment_Deleted else None)"

definition scopeEnvironmentsReason ::
  "environment_id list \<Rightarrow> mutable_chain_state \<Rightarrow> chain_invalid_reason option" where
  "scopeEnvironmentsReason ids state =
     (if list_ex (\<lambda>id. \<not> map_has (environments state) id) ids then Some Unknown_Environment
      else if list_ex (isDeletedEnvironment state) ids then Some Environment_Deleted else None)"

definition scopeRoleReason :: "role \<Rightarrow> scope_kind \<Rightarrow> chain_invalid_reason option" where
  "scopeRoleReason r kind = (if r = Owner \<and> kind \<noteq> ScopeAll then Some Scope_Role_Mismatch else None)"

definition memberScopeReason ::
  "proposable_operation \<Rightarrow> 'a scope_payload_fields_scheme \<Rightarrow> role \<Rightarrow> actor_context \<Rightarrow> chain_member option \<Rightarrow>
   mutable_chain_state \<Rightarrow> chain_invalid_reason option" where
  "memberScopeReason operation payload establishedRole actor target state =
     first_reason (scopeEnvironmentsReason (scopeEnvironmentIds payload) state)
    (first_reason (scopeRoleReason establishedRole (scopeKind payload))
       (if scopeContainsEnvironmentSet (actor_scope actor) (permissionChangeEnvironments operation target)
        then None else Some Scope_Not_Contained))"

definition resolveTargetedOp ::
  "proposable_operation \<Rightarrow> user_id \<Rightarrow> actor_context \<Rightarrow> mutable_chain_state \<Rightarrow>
   chain_invalid_reason + chain_member" where
  "resolveTargetedOp operation targetUserId actor state =
     (case map_of (members state) targetUserId of
        None \<Rightarrow> Inl Unknown_Target
      | Some target \<Rightarrow>
          (case targetRoleReason operation actor target of
             Some r \<Rightarrow> Inl r
           | None \<Rightarrow>
               if ownersRemovedBy operation (Some target) = 1 \<and> ownersCount state = 1
               then Inl Last_Owner_Protected else Inr target))"

definition addMemberReason ::
  "add_member_payload \<Rightarrow> actor_context \<Rightarrow> mutable_chain_state \<Rightarrow> chain_invalid_reason option" where
  "addMemberReason p actor state =
     (if map_has (members state) (am_targetUserId p) then Some Duplicate_Member
      else if registersTakenKey state (am_encPubHex p) (am_sigPubHex p) then Some Duplicate_Member_Key
      else memberScopeReason (Add_Member p) p (am_role p) actor None state)"

definition changeRoleReason ::
  "change_role_payload \<Rightarrow> actor_context \<Rightarrow> mutable_chain_state \<Rightarrow> chain_invalid_reason option" where
  "changeRoleReason p actor state =
     (case resolveTargetedOp (Change_Role p) (cr_targetUserId p) actor state of
        Inl r \<Rightarrow> Some r
      | Inr target \<Rightarrow>
          first_reason (memberScopeReason (Change_Role p) p (cr_newRole p) actor (Some target) state)
            (if quorumReachableAfter (Change_Role p) state (Some target) then None
             else Some Approval_Quorum_Unreachable))"

definition removeMemberReason ::
  "user_id \<Rightarrow> actor_context \<Rightarrow> mutable_chain_state \<Rightarrow> chain_invalid_reason option" where
  "removeMemberReason targetUserId actor state =
     (case resolveTargetedOp (Remove_Member targetUserId) targetUserId actor state of
        Inl r \<Rightarrow> Some r
      | Inr target \<Rightarrow>
          if \<not> scopeContainsEnvironmentSet (actor_scope actor)
                (permissionChangeEnvironments (Remove_Member targetUserId) (Some target))
          then Some Scope_Not_Contained
          else if quorumReachableAfter (Remove_Member targetUserId) state (Some target) then None
          else Some Approval_Quorum_Unreachable)"

definition addDeviceReason ::
  "add_device_payload \<Rightarrow> actor_context \<Rightarrow> mutable_chain_state \<Rightarrow> chain_invalid_reason option" where
  "addDeviceReason p actor state =
     (if registersTakenKey state (ad_encPubHex p) (ad_sigPubHex p) then Some Duplicate_Member_Key
      else first_reason (scopeEnvironmentsReason (scopeEnvironmentIds p) state)
        (if capWithinCap \<lparr>roleCap = ad_roleCap p, cap_scope = memberScopeOf p\<rparr> (ctx_device actor)
         then None else Some Device_Cap_Exceeded))"

definition revokeDeviceReason ::
  "revoke_device_payload \<Rightarrow> actor_context \<Rightarrow> mutable_chain_state \<Rightarrow> chain_invalid_reason option" where
  "revokeDeviceReason p actor state =
     (case map_of (members state) (rd_targetUserId p) of
        None \<Rightarrow> Some Unknown_Target
      | Some target \<Rightarrow>
          if list_ex (\<lambda>fp. \<not> map_has (devices target) fp) (rd_deviceFingerprintsHex p) then Some Unknown_Device
          else
            let self = (mem_userId target = ctx_userId actor) in
            first_reason
              (if self then None
               else first_reason (requireRole (actor_role actor) Admin)
                      (targetRoleReason (Revoke_Device p) actor target))
              (if int (length (devices target)) - int (length (rd_deviceFingerprintsHex p)) < 1
               then Some Last_Device_Protected
               else if \<not> self \<and>
                 \<not> scopeContainsEnvironmentSet (actor_scope actor) (scopeAsEnvironmentSet (mem_scope target))
               then Some Scope_Not_Contained
               else None))"

definition serverFingerprintHex :: "(bytes \<Rightarrow> bytes) \<Rightarrow> ustr \<Rightarrow> fingerprint" where
  "serverFingerprintHex sha256 encPub =
     encode_hex (take FINGERPRINT_BYTES (sha256 (case decode_hex encPub of None \<Rightarrow> [] | Some b \<Rightarrow> b)))"

definition grantServerReason ::
  "(bytes \<Rightarrow> bytes) \<Rightarrow> grant_server_payload \<Rightarrow> mutable_chain_state \<Rightarrow> chain_invalid_reason option" where
  "grantServerReason sha256 p state =
     (if serverFingerprintHex sha256 (gs_serverEncPubHex p) \<noteq> gs_serverKeyFingerprintHex p
      then Some Invalid_Payload
      else if list_ex (isDeletedEnvironment state) (gs_scopeEnvironmentIds p) then Some Environment_Deleted
      else if (case map_of (serverGrants state) (gs_serverKeyFingerprintHex p) of
                 None \<Rightarrow> False
               | Some existing \<Rightarrow>
                   list_ex (\<lambda>id. id \<notin> set (gs_scopeEnvironmentIds p)) (grant_scopeEnvironmentIds existing))
      then Some Grant_Scope_Narrowed
      else if gs_serverEncPubHex p \<in> memberEncPubs state then Some Duplicate_Server_Key
      else None)"

definition createEnvironmentReason ::
  "environment_id \<Rightarrow> actor_context \<Rightarrow> mutable_chain_state \<Rightarrow> chain_invalid_reason option" where
  "createEnvironmentReason environmentId actor state =
     (if map_has (environments state) environmentId then Some Duplicate_Environment
      else if scopeIncludesEnvironment (actor_scope actor) environmentId then None
      else Some Environment_Out_Of_Scope)"

definition rotateEpochReason ::
  "rotate_epoch_payload \<Rightarrow> actor_context \<Rightarrow> mutable_chain_state \<Rightarrow> chain_invalid_reason option" where
  "rotateEpochReason p actor state =
     (case map_of (environments state) (re_environmentId p) of
        None \<Rightarrow> Some Unknown_Environment
      | Some environment \<Rightarrow>
          if deletedAtSeq environment \<noteq> None then Some Environment_Deleted
          else if \<not> scopeIncludesEnvironment (actor_scope actor) (re_environmentId p)
          then Some Environment_Out_Of_Scope
          else if re_newEpoch p = currentEpoch environment + 1 then None else Some Epoch_Out_Of_Sequence)"

definition deleteEnvironmentReason ::
  "environment_id \<Rightarrow> actor_context \<Rightarrow> mutable_chain_state \<Rightarrow> chain_invalid_reason option" where
  "deleteEnvironmentReason environmentId actor state =
     first_reason (liveEnvironmentReason state environmentId)
       (if scopeIncludesEnvironment (actor_scope actor) environmentId then None
        else Some Environment_Out_Of_Scope)"

definition checkpoint_stage ::
  "checkpoint_environment_entry list \<Rightarrow> (checkpoint_environment_entry \<Rightarrow> bool) \<Rightarrow> chain_invalid_reason \<Rightarrow>
   chain_invalid_reason option" where
  "checkpoint_stage envs rejected r = (if list_ex rejected envs then Some r else None)"

definition checkpointReason ::
  "checkpoint_environment_entry list \<Rightarrow> actor_context \<Rightarrow> mutable_chain_state \<Rightarrow> chain_invalid_reason option" where
  "checkpointReason envs actor state =
     first_reason
       (checkpoint_stage envs (\<lambda>t. \<not> map_has (environments state) (ck_environmentId t)) Unknown_Environment)
    (first_reason
       (checkpoint_stage envs (\<lambda>t. isDeletedEnvironment state (ck_environmentId t)) Environment_Deleted)
    (first_reason
       (checkpoint_stage envs (\<lambda>t. \<not> scopeIncludesEnvironment (actor_scope actor) (ck_environmentId t))
          Environment_Out_Of_Scope)
    (first_reason
       (checkpoint_stage envs
          (\<lambda>t. map_option currentEpoch (map_of (environments state) (ck_environmentId t)) \<noteq> Some (ck_epoch t))
          Checkpoint_Epoch_Mismatch)
       (checkpoint_stage envs
          (\<lambda>t. case map_of (checkpoints state) (ck_environmentId t) of
                  None \<Rightarrow> False
                | Some prior \<Rightarrow> ck_manifestVersion t < chk_manifestVersion prior)
          Checkpoint_Regression))))"

definition consensusReason ::
  "(bytes \<Rightarrow> bytes) \<Rightarrow> proposable_operation \<Rightarrow> actor_context \<Rightarrow> mutable_chain_state \<Rightarrow>
   chain_invalid_reason option" where
  "consensusReason sha256 operation actor state = (case operation of
     Genesis _ \<Rightarrow> None
   | Add_Member p \<Rightarrow> addMemberReason p actor state
   | Change_Role p \<Rightarrow> changeRoleReason p actor state
   | Remove_Member targetUserId \<Rightarrow> removeMemberReason targetUserId actor state
   | Grant_Server p \<Rightarrow> grantServerReason sha256 p state
   | Revoke_Server serverKey \<Rightarrow>
       if map_has (serverGrants state) serverKey then None else Some Unknown_Server_Grant
   | Create_Environment p \<Rightarrow> createEnvironmentReason (ce_environmentId p) actor state
   | Delete_Environment environmentId \<Rightarrow> deleteEnvironmentReason environmentId actor state
   | Rotate_Epoch p \<Rightarrow> rotateEpochReason p actor state
   | Checkpoint p \<Rightarrow> checkpointReason (cp_environments p) actor state
   | Set_Approval_Policy p \<Rightarrow>
       if quorumReachableAfter (Set_Approval_Policy p) state None then None
       else Some Approval_Quorum_Unreachable
   | Add_Device p \<Rightarrow> addDeviceReason p actor state
   | Revoke_Device p \<Rightarrow> revokeDeviceReason p actor state)"

end
