(* ===== verification/Chain_Apply.thy ===== *)
theory Chain_Apply
  imports Chain_Rules
begin

text \<open>
  The state transitions of operations that passed the rules (the appliers of \<open>chain-verify.ts\<close>).
  The source mutates the maps of one state object in place and no map is shared, so a transition is
  a function from state to state.
\<close>

definition indexDeviceKeys :: "chain_device \<Rightarrow> mutable_chain_state \<Rightarrow> mutable_chain_state" where
  "indexDeviceKeys device state =
     state\<lparr>memberEncPubs := insert (encPubHex device) (memberEncPubs state),
           memberSigPubs := insert (sigPubHex device) (memberSigPubs state)\<rparr>"

definition unindexDeviceKeys :: "chain_device \<Rightarrow> mutable_chain_state \<Rightarrow> mutable_chain_state" where
  "unindexDeviceKeys device state =
     state\<lparr>memberEncPubs := memberEncPubs state - {encPubHex device},
           memberSigPubs := memberSigPubs state - {sigPubHex device}\<rparr>"

definition firstDeviceOf :: "ustr \<Rightarrow> ustr \<Rightarrow> fingerprint \<Rightarrow> int \<Rightarrow> chain_device" where
  "firstDeviceOf encPub sigPub fingerprint added =
     \<lparr>roleCap = roleCap FIRST_DEVICE_CAP, cap_scope = cap_scope FIRST_DEVICE_CAP,
      keyFingerprintHex = fingerprint, encPubHex = encPub, sigPubHex = sigPub, addedSeq = added\<rparr>"

definition set_member :: "chain_member \<Rightarrow> mutable_chain_state \<Rightarrow> mutable_chain_state" where
  "set_member member state =
     state\<lparr>members := AList.update (mem_userId member) member (members state)\<rparr>"

definition INITIAL_EPOCH :: int where
  "INITIAL_EPOCH = 1"

definition applyGenesis ::
  "genesis_payload \<Rightarrow> chain_actor \<Rightarrow> int \<Rightarrow> mutable_chain_state \<Rightarrow> mutable_chain_state" where
  "applyGenesis p actor seq state =
     (let device = firstDeviceOf (gn_encPubHex p) (gn_sigPubHex p) (actor_keyFingerprintHex actor) seq
      in indexDeviceKeys device
           (set_member \<lparr>mem_userId = actor_userId actor, mem_role = Owner, mem_scope = ALL_SCOPE,
                        devices = [(keyFingerprintHex device, device)]\<rparr> state))"

definition applyAddMember ::
  "(bytes \<Rightarrow> bytes) \<Rightarrow> add_member_payload \<Rightarrow> int \<Rightarrow> mutable_chain_state \<Rightarrow> mutable_chain_state" where
  "applyAddMember sha256 p seq state =
     (let device = firstDeviceOf (am_encPubHex p) (am_sigPubHex p)
                     (userFingerprintHex sha256 (am_encPubHex p) (am_sigPubHex p)) seq
      in indexDeviceKeys device
           (set_member \<lparr>mem_userId = am_targetUserId p, mem_role = am_role p, mem_scope = memberScopeOf p,
                        devices = [(keyFingerprintHex device, device)]\<rparr> state))"

definition applyAddDevice ::
  "(bytes \<Rightarrow> bytes) \<Rightarrow> add_device_payload \<Rightarrow> int \<Rightarrow> user_id \<Rightarrow> mutable_chain_state \<Rightarrow> mutable_chain_state" where
  "applyAddDevice sha256 p seq actorUserId state =
     (case map_of (members state) actorUserId of
        None \<Rightarrow> state
      | Some member \<Rightarrow>
          let device = \<lparr>roleCap = ad_roleCap p, cap_scope = memberScopeOf p,
                        keyFingerprintHex = userFingerprintHex sha256 (ad_encPubHex p) (ad_sigPubHex p),
                        encPubHex = ad_encPubHex p, sigPubHex = ad_sigPubHex p, addedSeq = seq\<rparr>
          in indexDeviceKeys device
               (set_member (member\<lparr>devices := AList.update (keyFingerprintHex device) device (devices member)\<rparr>)
                  state))"

text \<open>The loop of \<open>applyRevokeDevice\<close> over the listed fingerprints.\<close>

fun revoke_listed ::
  "fingerprint list \<Rightarrow> (fingerprint, chain_device) js_map \<times> mutable_chain_state \<Rightarrow>
   (fingerprint, chain_device) js_map \<times> mutable_chain_state" where
  "revoke_listed [] acc = acc"
| "revoke_listed (fp # fps) (ds, state) =
     (case map_of ds fp of
        None \<Rightarrow> revoke_listed fps (ds, state)
      | Some device \<Rightarrow> revoke_listed fps (AList.delete fp ds, unindexDeviceKeys device state))"

definition applyRevokeDevice :: "revoke_device_payload \<Rightarrow> mutable_chain_state \<Rightarrow> mutable_chain_state" where
  "applyRevokeDevice p state =
     (case map_of (members state) (rd_targetUserId p) of
        None \<Rightarrow> state
      | Some target \<Rightarrow>
          let (ds, state') = revoke_listed (rd_deviceFingerprintsHex p) (devices target, state)
          in set_member (target\<lparr>devices := ds\<rparr>) state')"

definition applyChangeRole :: "change_role_payload \<Rightarrow> mutable_chain_state \<Rightarrow> mutable_chain_state" where
  "applyChangeRole p state =
     (case map_of (members state) (cr_targetUserId p) of
        None \<Rightarrow> state
      | Some target \<Rightarrow> set_member (target\<lparr>mem_role := cr_newRole p, mem_scope := memberScopeOf p\<rparr>) state)"

definition applyRemoveMember :: "user_id \<Rightarrow> mutable_chain_state \<Rightarrow> mutable_chain_state" where
  "applyRemoveMember targetUserId state =
     (case map_of (members state) targetUserId of
        None \<Rightarrow> state
      | Some target \<Rightarrow>
          fold unindexDeviceKeys (map snd (devices target))
            (state\<lparr>members := AList.delete (mem_userId target) (members state)\<rparr>))"

definition applyGrantServer :: "grant_server_payload \<Rightarrow> int \<Rightarrow> mutable_chain_state \<Rightarrow> mutable_chain_state" where
  "applyGrantServer p seq state =
     state\<lparr>namedServerKeys :=
             AList.update (gs_serverEncPubHex p) (gs_serverKeyFingerprintHex p) (namedServerKeys state),
           serverGrants :=
             AList.update (gs_serverKeyFingerprintHex p)
               \<lparr>serverKeyFingerprintHex = gs_serverKeyFingerprintHex p,
                serverEncPubHex = gs_serverEncPubHex p, grantSeq = seq,
                grant_scopeEnvironmentIds = gs_scopeEnvironmentIds p,
                grant_leasePolicy = gs_leasePolicy p\<rparr>
               (serverGrants state)\<rparr>"

definition applyRevokeServer :: "fingerprint \<Rightarrow> mutable_chain_state \<Rightarrow> mutable_chain_state" where
  "applyRevokeServer serverKey state = state\<lparr>serverGrants := AList.delete serverKey (serverGrants state)\<rparr>"

definition applyCreateEnvironment ::
  "create_environment_payload \<Rightarrow> int \<Rightarrow> mutable_chain_state \<Rightarrow> mutable_chain_state" where
  "applyCreateEnvironment p seq state =
     state\<lparr>environments :=
             AList.update (ce_environmentId p)
               \<lparr>currentEpoch = INITIAL_EPOCH, createdAtSeq = seq, deletedAtSeq = None,
                epochStartSeqs = [(INITIAL_EPOCH, seq)],
                dekCommitments = [(INITIAL_EPOCH, ce_dekCommitmentHex p)]\<rparr>
               (environments state)\<rparr>"

definition prune_device :: "environment_id \<Rightarrow> chain_device \<Rightarrow> chain_device" where
  "prune_device environmentId device = device\<lparr>cap_scope := scopeWithout (cap_scope device) environmentId\<rparr>"

definition prune_member :: "environment_id \<Rightarrow> chain_member \<Rightarrow> chain_member" where
  "prune_member environmentId member =
     member\<lparr>mem_scope := scopeWithout (mem_scope member) environmentId,
            devices := fold (\<lambda>(fp, device). AList.update fp (prune_device environmentId device))
                         (devices member) []\<rparr>"

definition prune_grant :: "environment_id \<Rightarrow> server_grant \<Rightarrow> server_grant" where
  "prune_grant environmentId grant =
     grant\<lparr>grant_scopeEnvironmentIds := filter (\<lambda>id. id \<noteq> environmentId) (grant_scopeEnvironmentIds grant)\<rparr>"

definition applyDeleteEnvironment :: "environment_id \<Rightarrow> int \<Rightarrow> mutable_chain_state \<Rightarrow> mutable_chain_state" where
  "applyDeleteEnvironment environmentId seq state =
     (case map_of (environments state) environmentId of
        None \<Rightarrow> state
      | Some environment \<Rightarrow>
          state\<lparr>environments :=
                  AList.update environmentId (environment\<lparr>deletedAtSeq := Some seq\<rparr>) (environments state),
                members :=
                  fold (\<lambda>member. AList.update (mem_userId member) (prune_member environmentId member))
                    (map snd (members state)) (members state),
                serverGrants :=
                  fold (\<lambda>grant. AList.update (serverKeyFingerprintHex grant) (prune_grant environmentId grant))
                    (map snd (serverGrants state)) (serverGrants state),
                checkpoints := AList.delete environmentId (checkpoints state)\<rparr>)"

definition applyRotateEpoch :: "rotate_epoch_payload \<Rightarrow> int \<Rightarrow> mutable_chain_state \<Rightarrow> mutable_chain_state" where
  "applyRotateEpoch p seq state =
     (case map_of (environments state) (re_environmentId p) of
        None \<Rightarrow> state
      | Some environment \<Rightarrow>
          state\<lparr>environments :=
                  AList.update (re_environmentId p)
                    (environment\<lparr>currentEpoch := re_newEpoch p,
                       epochStartSeqs := AList.update (re_newEpoch p) seq (epochStartSeqs environment),
                       dekCommitments :=
                         AList.update (re_newEpoch p) (re_dekCommitmentHex p) (dekCommitments environment)\<rparr>)
                    (environments state)\<rparr>)"

definition checkpoint_tuple_state :: "int \<Rightarrow> checkpoint_environment_entry \<Rightarrow> environment_checkpoint_state" where
  "checkpoint_tuple_state seq t =
     \<lparr>chk_seq = seq, chk_epoch = ck_epoch t, chk_manifestVersion = ck_manifestVersion t,
      chk_manifestSigHashHex = ck_manifestSigHashHex t, chk_valuesDigestHex = ck_valuesDigestHex t\<rparr>"

definition applyCheckpoint :: "checkpoint_payload \<Rightarrow> int \<Rightarrow> mutable_chain_state \<Rightarrow> mutable_chain_state" where
  "applyCheckpoint p seq state =
     state\<lparr>checkpoints :=
             fold (\<lambda>t. AList.update (ck_environmentId t) (checkpoint_tuple_state seq t))
               (cp_environments p) (checkpoints state)\<rparr>"

text \<open>\<open>[...new Set(p.ops)]\<close> keeps the first occurrence of each element.\<close>

definition first_occurrences :: "'a list \<Rightarrow> 'a list" where
  "first_occurrences xs = rev (remdups (rev xs))"

definition applySetApprovalPolicy :: "set_approval_policy_payload \<Rightarrow> mutable_chain_state \<Rightarrow> mutable_chain_state" where
  "applySetApprovalPolicy p state =
     state\<lparr>approvalPolicy :=
             (if sp_requiredApprovals p = 0 then None
              else Some \<lparr>pol_ops = first_occurrences (sp_ops p),
                         pol_requiredApprovals = sp_requiredApprovals p\<rparr>)\<rparr>"

definition applyOperation ::
  "(bytes \<Rightarrow> bytes) \<Rightarrow> proposable_operation \<Rightarrow> int \<Rightarrow> user_id \<Rightarrow> mutable_chain_state \<Rightarrow> mutable_chain_state" where
  "applyOperation sha256 operation seq actorUserId state = (case operation of
     Genesis _ \<Rightarrow> state
   | Add_Member p \<Rightarrow> applyAddMember sha256 p seq state
   | Change_Role p \<Rightarrow> applyChangeRole p state
   | Remove_Member targetUserId \<Rightarrow> applyRemoveMember targetUserId state
   | Grant_Server p \<Rightarrow> applyGrantServer p seq state
   | Revoke_Server serverKey \<Rightarrow> applyRevokeServer serverKey state
   | Create_Environment p \<Rightarrow> applyCreateEnvironment p seq state
   | Delete_Environment environmentId \<Rightarrow> applyDeleteEnvironment environmentId seq state
   | Rotate_Epoch p \<Rightarrow> applyRotateEpoch p seq state
   | Checkpoint p \<Rightarrow> applyCheckpoint p seq state
   | Set_Approval_Policy p \<Rightarrow> applySetApprovalPolicy p state
   | Add_Device p \<Rightarrow> applyAddDevice sha256 p seq actorUserId state
   | Revoke_Device p \<Rightarrow> applyRevokeDevice p state)"

end
