(* ===== verification/Chain_History.thy ===== *)
theory Chain_History
  imports Chain_Types
begin

text \<open>
  The history index of a verified chain (\<open>chain-history.ts\<close>): the builder the verifying loop drives,
  and the point-in-time queries of the finished index. A JavaScript array that grows by \<open>push\<close> is a
  list with the new element last, and the mutable records of a tenure are updated in place in the
  model as new records. Two sequence numbers compare as integers.
\<close>

record member_span =
  span_fromSeq :: int
  span_role :: role
  span_scope :: member_scope

record cap_change =
  cap_fromSeq :: int
  cap_newScope :: member_scope

record device_record =
  rec_device :: chain_device
  revokedSeq :: "int option"
  capChanges :: "cap_change list"

record tenure_record =
  startSeq :: int
  endSeq :: "int option"
  ten_devices :: "device_record list"
  spans :: "member_span list"

record environment_record =
  env_createdAtSeq :: int
  epochStarts :: "(int \<times> int) list"
  env_deletedAtSeq :: "int option"

datatype checkpoint_tuple_record =
    Tuple_Record (tuple_seq: int) (tuple_epoch: int) (tuple_manifestSigHashHex: ustr)
  | Conflict

record chain_history_builder =
  entryHashes :: "ustr list"
  tenures :: "(user_id, tenure_record list) js_map"
  environmentStarts :: "(environment_id, environment_record) js_map"
  checkpointTuples :: "(environment_id, (int, checkpoint_tuple_record) js_map) js_map"
  latestCheckpoints :: "(environment_id, environment_checkpoint_state) js_map"

definition empty_history :: chain_history_builder where
  "empty_history =
     \<lparr>entryHashes = [], tenures = [], environmentStarts = [], checkpointTuples = [], latestCheckpoints = []\<rparr>"

section \<open>Point-in-time readings of one record\<close>

text \<open>A loop that keeps the last element starting at or before \<open>seq\<close> and stops at the first later one.\<close>

fun last_until :: "('a \<Rightarrow> int) \<Rightarrow> int \<Rightarrow> 'a option \<Rightarrow> 'a list \<Rightarrow> 'a option" where
  "last_until from seq current [] = current"
| "last_until from seq current (x # xs) =
     (if from x \<le> seq then last_until from seq (Some x) xs else current)"

definition spanAt :: "tenure_record \<Rightarrow> int \<Rightarrow> member_span option" where
  "spanAt tenure seq = last_until span_fromSeq seq None (spans tenure)"

definition deviceActiveAt :: "device_record \<Rightarrow> int \<Rightarrow> bool" where
  "deviceActiveAt r seq \<longleftrightarrow>
     addedSeq (rec_device r) \<le> seq \<and> (case revokedSeq r of None \<Rightarrow> True | Some s \<Rightarrow> seq < s)"

definition deviceAt :: "device_record \<Rightarrow> int \<Rightarrow> chain_device" where
  "deviceAt r seq =
     (case last_until cap_fromSeq seq None (capChanges r) of
        None \<Rightarrow> rec_device r
      | Some change \<Rightarrow> (rec_device r)\<lparr>cap_scope := cap_newScope change\<rparr>)"

definition activeDevicesAt :: "tenure_record \<Rightarrow> int \<Rightarrow> (fingerprint, chain_device) js_map" where
  "activeDevicesAt tenure seq =
     fold (\<lambda>r ds. if deviceActiveAt r seq
                   then AList.update (keyFingerprintHex (rec_device r)) (deviceAt r seq) ds else ds)
       (ten_devices tenure) []"

definition epochAt :: "environment_record \<Rightarrow> int \<Rightarrow> int option" where
  "epochAt environment seq = map_option fst (last_until snd seq None (epochStarts environment))"

definition deletedAtOrBefore :: "environment_record \<Rightarrow> int \<Rightarrow> int option" where
  "deletedAtOrBefore environment seq =
     (case env_deletedAtSeq environment of
        None \<Rightarrow> None
      | Some s \<Rightarrow> if s \<le> seq then Some s else None)"

section \<open>The builder\<close>

text \<open>
  \<open>scopeWithout\<close> returns the scope object itself when it does not list the environment, so the
  source's identity comparison asks whether the scope lists it.
\<close>

definition lists_environment :: "member_scope \<Rightarrow> environment_id \<Rightarrow> bool" where
  "lists_environment s environmentId =
     (case s of AllScope \<Rightarrow> False | ListedScope ids \<Rightarrow> environmentId \<in> set ids)"

definition prune_span :: "environment_id \<Rightarrow> int \<Rightarrow> member_span list \<Rightarrow> member_span list" where
  "prune_span environmentId seq ss =
     (if ss = [] then ss
      else let span = last ss in
        if lists_environment (span_scope span) environmentId
        then ss @ [\<lparr>span_fromSeq = seq, span_role = span_role span,
                    span_scope = scopeWithout (span_scope span) environmentId\<rparr>]
        else ss)"

definition prune_device_record :: "environment_id \<Rightarrow> int \<Rightarrow> device_record \<Rightarrow> device_record" where
  "prune_device_record environmentId seq r =
     (let cap = cap_scope (deviceAt r seq) in
      if revokedSeq r = None \<and> lists_environment cap environmentId
      then r\<lparr>capChanges := capChanges r @ [\<lparr>cap_fromSeq = seq, cap_newScope = scopeWithout cap environmentId\<rparr>]\<rparr>
      else r)"

definition pruneTenureAt :: "environment_id \<Rightarrow> int \<Rightarrow> tenure_record \<Rightarrow> tenure_record" where
  "pruneTenureAt environmentId seq tenure =
     tenure\<lparr>spans := prune_span environmentId seq (spans tenure),
            ten_devices := map (prune_device_record environmentId seq) (ten_devices tenure)\<rparr>"

definition recordEntryHash :: "ustr \<Rightarrow> chain_history_builder \<Rightarrow> chain_history_builder" where
  "recordEntryHash h b = b\<lparr>entryHashes := entryHashes b @ [h]\<rparr>"

text \<open>The last tenure of a user while it is open, updated by a function; nothing when there is none.\<close>

definition on_open_last :: "(tenure_record \<Rightarrow> tenure_record) \<Rightarrow> tenure_record list \<Rightarrow> tenure_record list" where
  "on_open_last f ts =
     (if ts = [] \<or> endSeq (last ts) \<noteq> None then ts else butlast ts @ [f (last ts)])"

definition on_open_tenure ::
  "user_id \<Rightarrow> (tenure_record \<Rightarrow> tenure_record) \<Rightarrow> chain_history_builder \<Rightarrow> chain_history_builder" where
  "on_open_tenure userId f b =
     (case map_of (tenures b) userId of
        None \<Rightarrow> b
      | Some ts \<Rightarrow> b\<lparr>tenures := AList.update userId (on_open_last f ts) (tenures b)\<rparr>)"

definition recordTenureStart ::
  "user_id \<Rightarrow> int \<Rightarrow> chain_device \<Rightarrow> role \<Rightarrow> member_scope \<Rightarrow> chain_history_builder \<Rightarrow> chain_history_builder" where
  "recordTenureStart userId start firstDevice r s b =
     (let record = \<lparr>startSeq = start, endSeq = None,
                    ten_devices = [\<lparr>rec_device = firstDevice, revokedSeq = None, capChanges = []\<rparr>],
                    spans = [\<lparr>span_fromSeq = start, span_role = r, span_scope = s\<rparr>]\<rparr>
      in b\<lparr>tenures :=
             (case map_of (tenures b) userId of
                None \<Rightarrow> AList.update userId [record] (tenures b)
              | Some ts \<Rightarrow> AList.update userId (ts @ [record]) (tenures b))\<rparr>)"

definition recordDeviceAdded :: "user_id \<Rightarrow> chain_device \<Rightarrow> chain_history_builder \<Rightarrow> chain_history_builder" where
  "recordDeviceAdded userId device =
     on_open_tenure userId (\<lambda>t. t\<lparr>ten_devices :=
       ten_devices t @ [\<lparr>rec_device = device, revokedSeq = None, capChanges = []\<rparr>]\<rparr>)"

definition revoke_record :: "int \<Rightarrow> fingerprint list \<Rightarrow> device_record \<Rightarrow> device_record" where
  "revoke_record seq fps r =
     (if revokedSeq r = None \<and> keyFingerprintHex (rec_device r) \<in> set fps
      then r\<lparr>revokedSeq := Some seq\<rparr> else r)"

definition recordDevicesRevoked ::
  "user_id \<Rightarrow> int \<Rightarrow> fingerprint list \<Rightarrow> chain_history_builder \<Rightarrow> chain_history_builder" where
  "recordDevicesRevoked userId seq fps =
     on_open_tenure userId (\<lambda>t. t\<lparr>ten_devices := map (revoke_record seq fps) (ten_devices t)\<rparr>)"

definition recordRoleChange ::
  "user_id \<Rightarrow> int \<Rightarrow> role \<Rightarrow> member_scope \<Rightarrow> chain_history_builder \<Rightarrow> chain_history_builder" where
  "recordRoleChange userId seq r s =
     on_open_tenure userId (\<lambda>t. t\<lparr>spans :=
       spans t @ [\<lparr>span_fromSeq = seq, span_role = r, span_scope = s\<rparr>]\<rparr>)"

definition recordTenureEnd :: "user_id \<Rightarrow> int \<Rightarrow> chain_history_builder \<Rightarrow> chain_history_builder" where
  "recordTenureEnd userId seq = on_open_tenure userId (\<lambda>t. t\<lparr>endSeq := Some seq\<rparr>)"

definition recordEnvironmentCreated ::
  "environment_id \<Rightarrow> int \<Rightarrow> chain_history_builder \<Rightarrow> chain_history_builder" where
  "recordEnvironmentCreated environmentId seq b =
     b\<lparr>environmentStarts := AList.update environmentId
         \<lparr>env_createdAtSeq = seq, epochStarts = [(1, seq)], env_deletedAtSeq = None\<rparr> (environmentStarts b)\<rparr>"

definition recordEnvironmentDeleted ::
  "environment_id \<Rightarrow> int \<Rightarrow> chain_history_builder \<Rightarrow> chain_history_builder" where
  "recordEnvironmentDeleted environmentId seq b =
     (let b1 = (case map_of (environmentStarts b) environmentId of
                  None \<Rightarrow> b
                | Some environment \<Rightarrow>
                    b\<lparr>environmentStarts := AList.update environmentId
                        (environment\<lparr>env_deletedAtSeq := Some seq\<rparr>) (environmentStarts b)\<rparr>);
          b2 = b1\<lparr>latestCheckpoints := AList.delete environmentId (latestCheckpoints b1)\<rparr>
      in fold (\<lambda>userId. on_open_tenure userId (pruneTenureAt environmentId seq)) (map fst (tenures b2)) b2)"

definition recordEpochRotated ::
  "environment_id \<Rightarrow> int \<Rightarrow> int \<Rightarrow> chain_history_builder \<Rightarrow> chain_history_builder" where
  "recordEpochRotated environmentId newEpoch seq b =
     (case map_of (environmentStarts b) environmentId of
        None \<Rightarrow> b
      | Some environment \<Rightarrow>
          b\<lparr>environmentStarts := AList.update environmentId
              (environment\<lparr>epochStarts := epochStarts environment @ [(newEpoch, seq)]\<rparr>) (environmentStarts b)\<rparr>)"

definition record_tuple ::
  "int \<Rightarrow> checkpoint_environment_entry \<Rightarrow> (int, checkpoint_tuple_record) js_map \<Rightarrow>
   (int, checkpoint_tuple_record) js_map" where
  "record_tuple seq t perEnv =
     (case map_of perEnv (ck_manifestVersion t) of
        None \<Rightarrow> AList.update (ck_manifestVersion t)
                  (Tuple_Record seq (ck_epoch t) (ck_manifestSigHashHex t)) perEnv
      | Some Conflict \<Rightarrow> perEnv
      | Some (Tuple_Record _ epoch h) \<Rightarrow>
          if epoch \<noteq> ck_epoch t \<or> h \<noteq> ck_manifestSigHashHex t
          then AList.update (ck_manifestVersion t) Conflict perEnv else perEnv)"

definition record_checkpoint_tuple ::
  "int \<Rightarrow> checkpoint_environment_entry \<Rightarrow> chain_history_builder \<Rightarrow> chain_history_builder" where
  "record_checkpoint_tuple seq t b =
     (let perEnv = (case map_of (checkpointTuples b) (ck_environmentId t) of None \<Rightarrow> [] | Some m \<Rightarrow> m)
      in b\<lparr>checkpointTuples :=
             AList.update (ck_environmentId t) (record_tuple seq t perEnv) (checkpointTuples b),
           latestCheckpoints :=
             AList.update (ck_environmentId t)
               \<lparr>chk_seq = seq, chk_epoch = ck_epoch t, chk_manifestVersion = ck_manifestVersion t,
                chk_manifestSigHashHex = ck_manifestSigHashHex t, chk_valuesDigestHex = ck_valuesDigestHex t\<rparr>
               (latestCheckpoints b)\<rparr>)"

definition recordCheckpoint ::
  "int \<Rightarrow> checkpoint_environment_entry list \<Rightarrow> chain_history_builder \<Rightarrow> chain_history_builder" where
  "recordCheckpoint seq envs b = fold (record_checkpoint_tuple seq) envs b"

section \<open>The queries of the finished index\<close>

record member_state_at =
  at_role :: role
  at_scope :: member_scope
  at_devices :: "(fingerprint, chain_device) js_map"
  at_tenureStartSeq :: int

record device_state_at =
  at_device :: chain_device
  at_permission :: effective_permission
  at_deviceTenureStartSeq :: int

record environment_state_at =
  at_createdAtSeq :: int
  at_currentEpoch :: int
  at_deletedAtSeq :: "int option"

datatype checkpoint_tuple_lookup = Unique int int ustr | Conflicting

definition headSeq :: "chain_history_builder \<Rightarrow> int" where
  "headSeq h = int (length (entryHashes h))"

definition headHashHex :: "chain_history_builder \<Rightarrow> ustr" where
  "headHashHex h = (if entryHashes h = [] then [] else last (entryHashes h))"

definition in_range :: "chain_history_builder \<Rightarrow> int \<Rightarrow> bool" where
  "in_range h seq \<longleftrightarrow> safe_int seq \<and> 1 \<le> seq \<and> seq \<le> headSeq h"

definition entryHashAt :: "chain_history_builder \<Rightarrow> int \<Rightarrow> ustr option" where
  "entryHashAt h seq = (if \<not> in_range h seq then None else Some (entryHashes h ! nat (seq - 1)))"

definition tenureAt :: "chain_history_builder \<Rightarrow> user_id \<Rightarrow> int \<Rightarrow> tenure_record option" where
  "tenureAt h userId seq =
     (if \<not> in_range h seq then None
      else find (\<lambda>t. startSeq t \<le> seq \<and> (case endSeq t of None \<Rightarrow> True | Some e \<Rightarrow> seq < e))
             (case map_of (tenures h) userId of None \<Rightarrow> [] | Some ts \<Rightarrow> ts))"

definition memberStateAt :: "chain_history_builder \<Rightarrow> user_id \<Rightarrow> int \<Rightarrow> member_state_at option" where
  "memberStateAt h userId seq =
     (case tenureAt h userId seq of
        None \<Rightarrow> None
      | Some tenure \<Rightarrow>
          (case spanAt tenure seq of
             None \<Rightarrow> None
           | Some span \<Rightarrow>
               Some \<lparr>at_role = span_role span, at_scope = span_scope span,
                     at_devices = activeDevicesAt tenure seq, at_tenureStartSeq = startSeq tenure\<rparr>))"

definition deviceStateAt ::
  "chain_history_builder \<Rightarrow> user_id \<Rightarrow> fingerprint \<Rightarrow> int \<Rightarrow> device_state_at option" where
  "deviceStateAt h userId fp seq =
     (case tenureAt h userId seq of
        None \<Rightarrow> None
      | Some tenure \<Rightarrow>
          (case (spanAt tenure seq,
                 find (\<lambda>r. keyFingerprintHex (rec_device r) = fp \<and> deviceActiveAt r seq) (ten_devices tenure)) of
             (Some span, Some r) \<Rightarrow>
               Some \<lparr>at_device = deviceAt r seq,
                     at_permission = effectivePermissionOf (span_role span) (span_scope span) (deviceAt r seq),
                     at_deviceTenureStartSeq = startSeq tenure\<rparr>
           | _ \<Rightarrow> None))"

definition environmentStateAt ::
  "chain_history_builder \<Rightarrow> environment_id \<Rightarrow> int \<Rightarrow> environment_state_at option" where
  "environmentStateAt h environmentId seq =
     (if \<not> in_range h seq then None
      else case map_of (environmentStarts h) environmentId of
        None \<Rightarrow> None
      | Some environment \<Rightarrow>
          if seq < env_createdAtSeq environment then None
          else case epochAt environment seq of
            None \<Rightarrow> None
          | Some epoch \<Rightarrow>
              Some \<lparr>at_createdAtSeq = env_createdAtSeq environment, at_currentEpoch = epoch,
                    at_deletedAtSeq = deletedAtOrBefore environment seq\<rparr>)"

definition sigKeyByFingerprint ::
  "chain_history_builder \<Rightarrow> user_id \<Rightarrow> fingerprint \<Rightarrow> ustr option" where
  "sigKeyByFingerprint h userId fp =
     map_option (\<lambda>r. sigPubHex (rec_device r))
       (find (\<lambda>r. keyFingerprintHex (rec_device r) = fp)
         (concat (map ten_devices (case map_of (tenures h) userId of None \<Rightarrow> [] | Some ts \<Rightarrow> ts))))"

definition checkpointTupleFor ::
  "chain_history_builder \<Rightarrow> environment_id \<Rightarrow> int \<Rightarrow> checkpoint_tuple_lookup option" where
  "checkpointTupleFor h environmentId manifestVersion =
     (if \<not> safe_int manifestVersion \<or> manifestVersion < 1 then None
      else map_option
        (\<lambda>r. case r of Conflict \<Rightarrow> Conflicting | Tuple_Record seq epoch hash \<Rightarrow> Unique seq epoch hash)
        (Option.bind (map_of (checkpointTuples h) environmentId) (\<lambda>m. map_of m manifestVersion)))"

definition latestCheckpointFor ::
  "chain_history_builder \<Rightarrow> environment_id \<Rightarrow> environment_checkpoint_state option" where
  "latestCheckpointFor h environmentId = map_of (latestCheckpoints h) environmentId"

end
