(* ===== verification/Chain_Canonical.thy ===== *)
theory Chain_Canonical
  imports Chain_Types
begin

text \<open>
  The canonical byte strings of chain entries (\<open>chain-canonical.ts\<close>), as partial functions:
  \<^const>\<open>None\<close> is the encoder's \<open>TypeError\<close>. On entries whose strings are well-formed UTF-16 the bytes
  that are signed determine the whole unsigned entry, and the bytes that are hashed the whole entry.
\<close>

section \<open>The encoders\<close>

text \<open>\<open>encodeLengthPrefixed(list.map(...))\<close> over encoders that may throw.\<close>

definition lp_of_encodings :: "bytes option list \<Rightarrow> bytes option" where
  "lp_of_encodings es = Option.bind (those es) (\<lambda>bs. encode_lp (map LpBytes bs))"

definition canonicalLeaseConstraintBytes :: "lease_claim_constraint \<Rightarrow> bytes option" where
  "canonicalLeaseConstraintBytes c = encode_lp [LpStr (claimName c), LpStr (claimValue c)]"

definition canonicalLeaseIssuerBytes :: "lease_policy_issuer \<Rightarrow> bytes option" where
  "canonicalLeaseIssuerBytes element =
     Option.bind (lp_of_encodings (map canonicalLeaseConstraintBytes (claimConstraints element)))
       (\<lambda>cs. encode_lp [LpStr (issuerUrl element), LpStr (audience element), LpBytes cs])"

definition canonicalLeasePolicyBytes :: "lease_policy_issuer list \<Rightarrow> bytes option" where
  "canonicalLeasePolicyBytes policy = lp_of_encodings (map canonicalLeaseIssuerBytes policy)"

definition canonicalCheckpointEnvironmentBytes :: "checkpoint_environment_entry \<Rightarrow> bytes option" where
  "canonicalCheckpointEnvironmentBytes entry =
     encode_lp [LpStr (ck_environmentId entry), LpNum (ck_epoch entry), LpNum (ck_manifestVersion entry),
                LpStr (ck_manifestSigHashHex entry), LpStr (ck_valuesDigestHex entry)]"

definition canonicalCheckpointEnvironmentsBytes ::
  "checkpoint_environment_entry list \<Rightarrow> bytes option" where
  "canonicalCheckpointEnvironmentsBytes envs =
     lp_of_encodings (map canonicalCheckpointEnvironmentBytes envs)"

text \<open>The scope pair shared by \<open>add_member\<close>, \<open>change_role\<close> and \<open>add_device\<close>, behind other fields.\<close>

definition with_scope_fields ::
  "lp_field list \<Rightarrow> 'a scope_payload_fields_scheme \<Rightarrow> bytes option" where
  "with_scope_fields fs p =
     Option.bind (canonicalScopeEnvironmentsHex (scopeEnvironmentIds p))
       (\<lambda>h. encode_lp (fs @ [LpStr (scope_kind_name (scopeKind p)), LpStr h]))"

definition canonicalProposablePayloadBytes :: "proposable_operation \<Rightarrow> bytes option" where
  "canonicalProposablePayloadBytes operation = (case operation of
     Genesis p \<Rightarrow> encode_lp [LpStr (gn_encPubHex p), LpStr (gn_sigPubHex p)]
   | Add_Member p \<Rightarrow>
       with_scope_fields
         [LpStr (am_targetUserId p), LpStr (am_encPubHex p), LpStr (am_sigPubHex p),
          LpStr (role_name (am_role p))] p
   | Remove_Member target \<Rightarrow> encode_lp [LpStr target]
   | Change_Role p \<Rightarrow>
       with_scope_fields [LpStr (cr_targetUserId p), LpStr (role_name (cr_newRole p))] p
   | Create_Environment p \<Rightarrow> encode_lp [LpStr (ce_environmentId p), LpStr (ce_dekCommitmentHex p)]
   | Delete_Environment environmentId \<Rightarrow> encode_lp [LpStr environmentId]
   | Rotate_Epoch p \<Rightarrow>
       encode_lp [LpStr (re_environmentId p), LpNum (re_newEpoch p), LpStr (re_reason p),
                  LpStr (re_dekCommitmentHex p)]
   | Grant_Server p \<Rightarrow>
       Option.bind (encode_lp (map LpStr (gs_scopeEnvironmentIds p))) (\<lambda>scopeLp.
       Option.bind (canonicalLeasePolicyBytes (gs_leasePolicy p)) (\<lambda>leasePolicyLp.
       encode_lp [LpStr (gs_serverEncPubHex p), LpStr (gs_serverKeyFingerprintHex p),
                  LpStr (encode_hex scopeLp), LpStr (encode_hex leasePolicyLp)]))
   | Revoke_Server serverKey \<Rightarrow> encode_lp [LpStr serverKey]
   | Checkpoint p \<Rightarrow>
       Option.bind (canonicalCheckpointEnvironmentsBytes (cp_environments p)) (\<lambda>environmentsLp.
       encode_lp [LpStr (encode_hex environmentsLp), LpStr (cp_auditHeadHashHex p)])
   | Set_Approval_Policy p \<Rightarrow>
       Option.bind (encode_lp (map (LpStr \<circ> approval_target_name) (sp_ops p))) (\<lambda>opsLp.
       encode_lp [LpStr (encode_hex opsLp), LpNum (sp_requiredApprovals p)])
   | Add_Device p \<Rightarrow>
       with_scope_fields
         [LpStr (ad_encPubHex p), LpStr (ad_sigPubHex p), LpStr (role_name (ad_roleCap p))] p
   | Revoke_Device p \<Rightarrow>
       Option.bind (encode_lp (map LpStr (rd_deviceFingerprintsHex p))) (\<lambda>fpsLp.
       encode_lp [LpStr (rd_targetUserId p), LpStr (encode_hex fpsLp)]))"

definition canonicalChainPayloadBytes :: "chain_operation \<Rightarrow> bytes option" where
  "canonicalChainPayloadBytes operation = (case operation of
     Direct inner \<Rightarrow> canonicalProposablePayloadBytes inner
   | Propose p \<Rightarrow>
       Option.bind (canonicalProposablePayloadBytes (pr_inner p)) (\<lambda>innerBytes.
       encode_lp [LpStr (proposable_op_name (pr_inner p)), LpStr (encode_hex innerBytes),
                  LpNum (pr_expiresAtMs p)])
   | Approve proposal \<Rightarrow> encode_lp [LpStr proposal]
   | Withdraw proposal \<Rightarrow> encode_lp [LpStr proposal])"

text \<open>The eight signed fields around the payload bytes.\<close>

definition signed_fields :: "'a unsigned_chain_entry_scheme \<Rightarrow> bytes \<Rightarrow> lp_field list" where
  "signed_fields entry payload =
     [LpStr (entry_suite entry), LpNum (entry_seq entry), LpStr (entry_prevHashHex entry),
      LpStr (op_name (entry_operation entry)),
      LpStr (actor_userId (entry_actor entry)), LpStr (actor_keyFingerprintHex (entry_actor entry)),
      LpBytes payload, LpNum (entry_timestampMs entry)]"

definition canonicalChainSignedBytes :: "'a unsigned_chain_entry_scheme \<Rightarrow> bytes option" where
  "canonicalChainSignedBytes entry =
     Option.bind (canonicalChainPayloadBytes (entry_operation entry))
       (\<lambda>payload. encode_lp (signed_fields entry payload))"

definition canonicalChainEntryBytes :: "chain_entry \<Rightarrow> bytes option" where
  "canonicalChainEntryBytes entry =
     Option.bind (canonicalChainPayloadBytes (entry_operation entry))
       (\<lambda>payload. encode_lp (signed_fields entry payload @ [LpStr (entry_signatureHex entry)]))"

text \<open>The digest function is the platform's SHA-256, a parameter.\<close>

definition computeChainEntryHash :: "(bytes \<Rightarrow> bytes) \<Rightarrow> chain_entry \<Rightarrow> ustr option" where
  "computeChainEntryHash sha256 entry =
     map_option (\<lambda>b. encode_hex (sha256 b)) (canonicalChainEntryBytes entry)"

section \<open>Injective encoders\<close>

text \<open>
  A canonical encoder determines the value among those whose strings are well formed; a nested
  length-prefixed list of such encodings does so for the list.
\<close>

locale canonical_encoder =
  fixes canon :: "'a \<Rightarrow> bytes option"
    and texts :: "'a \<Rightarrow> ustr list"
  assumes canon_inj:
    "canon x = Some b \<Longrightarrow> canon y = Some b \<Longrightarrow> list_all well_formed (texts x) \<Longrightarrow>
     list_all well_formed (texts y) \<Longrightarrow> x = y"
begin

lemma those_canon_inj:
  "those (map canon xs) = Some bs \<Longrightarrow> those (map canon ys) = Some bs \<Longrightarrow>
   list_all well_formed (concat (map texts xs)) \<Longrightarrow> list_all well_formed (concat (map texts ys)) \<Longrightarrow>
   xs = ys"
proof (induction xs arbitrary: ys bs)
  case Nil
  then show ?case by (cases ys) (auto split: option.splits)
next
  case (Cons x xs)
  then obtain y ys' where ys: "ys = y # ys'" by (cases ys) (auto split: option.splits)
  from Cons.prems(1) obtain c cs where x: "canon x = Some c" and xs: "those (map canon xs) = Some cs"
    and bs: "bs = c # cs"
    by (auto split: option.splits)
  from Cons.prems(2) ys bs have y: "canon y = Some c" and ys': "those (map canon ys') = Some cs"
    by (auto split: option.splits)
  have "x = y" using canon_inj [OF x y] Cons.prems(3,4) ys by simp
  moreover have "xs = ys'" using Cons.IH [OF xs ys'] Cons.prems(3,4) ys by simp
  ultimately show ?case using ys by simp
qed

lemma list_canon_inj:
  assumes "lp_of_encodings (map canon xs) = Some b" and "lp_of_encodings (map canon ys) = Some b"
    and "list_all well_formed (concat (map texts xs))" and "list_all well_formed (concat (map texts ys))"
  shows "xs = ys"
proof -
  from assms(1,2) obtain as bs where as: "those (map canon xs) = Some as"
    and bs: "those (map canon ys) = Some bs"
    and enc: "encode_lp (map LpBytes as) = Some b" "encode_lp (map LpBytes bs) = Some b"
    by (auto simp: lp_of_encodings_def Option.bind_eq_Some_conv)
  from enc have "map lp_body (map LpBytes as) = map lp_body (map LpBytes bs)"
    by (rule encode_lp_bodies)
  then have "map Some as = map Some bs" by (simp add: comp_def)
  then have "as = bs" by (rule map_injective) (simp add: inj_def)
  with as bs assms(3,4) show ?thesis by (blast intro: those_canon_inj)
qed

end

lemma well_formed_lit [simp]: "well_formed (lit s)"
proof -
  have small: "unat (word_of_nat (of_char c) :: 16 word) < 256" for c
    by (simp only: unat_char_unit of_char_less)
  have "\<not> high_surrogate (word_of_nat (of_char c)) \<and> \<not> low_surrogate (word_of_nat (of_char c))" for c
    using small [of c] by (simp add: high_surrogate_def low_surrogate_def)
  then have "well_formed (map (\<lambda>c. word_of_nat (of_char c)) s)"
    by (induction s rule: induct_list012) auto
  then show ?thesis by (simp add: lit_def)
qed

lemma well_formed_encode_hex [simp]: "well_formed (encode_hex b)"
  by (rule well_formed_hex) (rule decode_encode_hex)

lemma well_formed_role_name [simp]: "well_formed (role_name r)"
  by (simp add: role_name_def split: role.split)

lemma well_formed_scope_kind_name [simp]: "well_formed (scope_kind_name k)"
  by (simp add: scope_kind_name_def split: scope_kind.split)

lemma well_formed_approval_target_name [simp]: "well_formed (approval_target_name t)"
  by (simp add: approval_target_name_def split: approval_target_op.split)

lemma well_formed_proposable_op_name [simp]: "well_formed (proposable_op_name opn)"
  by (simp add: proposable_op_name_def split: proposable_operation.split)

lemma well_formed_op_name [simp]: "well_formed (op_name opn)"
  by (simp add: op_name_def split: chain_operation.split)

interpretation lease_constraint:
  canonical_encoder canonicalLeaseConstraintBytes "\<lambda>c. [claimName c, claimValue c]"
proof unfold_locales
  fix x y :: lease_claim_constraint and b
  assume "canonicalLeaseConstraintBytes x = Some b" "canonicalLeaseConstraintBytes y = Some b"
    "list_all well_formed [claimName x, claimValue x]" "list_all well_formed [claimName y, claimValue y]"
  then have "[LpStr (claimName x), LpStr (claimValue x)] = [LpStr (claimName y), LpStr (claimValue y)]"
    unfolding canonicalLeaseConstraintBytes_def by (elim encode_lp_inj) simp_all
  then show "x = y" by simp
qed

definition issuer_texts :: "lease_policy_issuer \<Rightarrow> ustr list" where
  "issuer_texts e =
     issuerUrl e # audience e # concat (map (\<lambda>c. [claimName c, claimValue c]) (claimConstraints e))"

interpretation lease_issuer: canonical_encoder canonicalLeaseIssuerBytes issuer_texts
proof unfold_locales
  fix x y :: lease_policy_issuer and b
  assume enc: "canonicalLeaseIssuerBytes x = Some b" "canonicalLeaseIssuerBytes y = Some b"
    and texts: "list_all well_formed (issuer_texts x)" "list_all well_formed (issuer_texts y)"
  from enc obtain u v where
    uv: "lp_of_encodings (map canonicalLeaseConstraintBytes (claimConstraints x)) = Some u"
      "lp_of_encodings (map canonicalLeaseConstraintBytes (claimConstraints y)) = Some v"
    and outer: "encode_lp [LpStr (issuerUrl x), LpStr (audience x), LpBytes u] = Some b"
      "encode_lp [LpStr (issuerUrl y), LpStr (audience y), LpBytes v] = Some b"
    by (auto simp: canonicalLeaseIssuerBytes_def Option.bind_eq_Some_conv)
  have heads: "issuerUrl x = issuerUrl y" "audience x = audience y" "u = v"
    using encode_lp_inj [OF outer] texts by (auto simp: issuer_texts_def)
  with uv texts have "claimConstraints x = claimConstraints y"
    by (auto simp: issuer_texts_def intro: lease_constraint.list_canon_inj)
  with heads show "x = y" by simp
qed

definition checkpoint_texts :: "checkpoint_environment_entry \<Rightarrow> ustr list" where
  "checkpoint_texts e = [ck_environmentId e, ck_manifestSigHashHex e, ck_valuesDigestHex e]"

interpretation checkpoint_tuple: canonical_encoder canonicalCheckpointEnvironmentBytes checkpoint_texts
proof unfold_locales
  fix x y :: checkpoint_environment_entry and b
  assume "canonicalCheckpointEnvironmentBytes x = Some b" "canonicalCheckpointEnvironmentBytes y = Some b"
    "list_all well_formed (checkpoint_texts x)" "list_all well_formed (checkpoint_texts y)"
  then have "[LpStr (ck_environmentId x), LpNum (ck_epoch x), LpNum (ck_manifestVersion x),
        LpStr (ck_manifestSigHashHex x), LpStr (ck_valuesDigestHex x)]
      = [LpStr (ck_environmentId y), LpNum (ck_epoch y), LpNum (ck_manifestVersion y),
         LpStr (ck_manifestSigHashHex y), LpStr (ck_valuesDigestHex y)]"
    unfolding canonicalCheckpointEnvironmentBytes_def checkpoint_texts_def
    by (elim encode_lp_inj) simp_all
  then show "x = y" by simp
qed

lemma encode_strings_inj:
  assumes "encode_lp (map LpStr xs) = Some b" and "encode_lp (map LpStr ys) = Some b"
    and "list_all well_formed xs" and "list_all well_formed ys"
  shows "xs = ys"
proof -
  have "length xs = length ys" using encode_lp_length_eq [OF assms(1,2)] by simp
  then have "list_all2 same_kind (map LpStr xs) (map LpStr ys)"
    using assms(3,4) by (simp add: list_all2_conv_all_nth list_all_length)
  then have "map LpStr xs = map LpStr ys" by (rule encode_lp_inj [OF assms(1,2)])
  then show ?thesis by (rule map_injective) (simp add: inj_def)
qed

lemma encode_strings_encoder: "canonical_encoder (\<lambda>xs. encode_lp (map LpStr xs)) (\<lambda>xs. xs)"
  by unfold_locales (rule encode_strings_inj)

section \<open>What the bytes determine\<close>

text \<open>Every string an operation carries.\<close>

definition proposable_texts :: "proposable_operation \<Rightarrow> ustr list" where
  "proposable_texts operation = (case operation of
     Genesis p \<Rightarrow> [gn_encPubHex p, gn_sigPubHex p]
   | Add_Member p \<Rightarrow> am_targetUserId p # am_encPubHex p # am_sigPubHex p # scopeEnvironmentIds p
   | Remove_Member target \<Rightarrow> [target]
   | Change_Role p \<Rightarrow> cr_targetUserId p # scopeEnvironmentIds p
   | Create_Environment p \<Rightarrow> [ce_environmentId p, ce_dekCommitmentHex p]
   | Delete_Environment environmentId \<Rightarrow> [environmentId]
   | Rotate_Epoch p \<Rightarrow> [re_environmentId p, re_reason p, re_dekCommitmentHex p]
   | Grant_Server p \<Rightarrow>
       gs_serverEncPubHex p # gs_serverKeyFingerprintHex p #
       gs_scopeEnvironmentIds p @ concat (map issuer_texts (gs_leasePolicy p))
   | Revoke_Server serverKey \<Rightarrow> [serverKey]
   | Checkpoint p \<Rightarrow> cp_auditHeadHashHex p # concat (map checkpoint_texts (cp_environments p))
   | Set_Approval_Policy p \<Rightarrow> []
   | Add_Device p \<Rightarrow> ad_encPubHex p # ad_sigPubHex p # scopeEnvironmentIds p
   | Revoke_Device p \<Rightarrow> rd_targetUserId p # rd_deviceFingerprintsHex p)"

definition operation_texts :: "chain_operation \<Rightarrow> ustr list" where
  "operation_texts operation = (case operation of
     Direct inner \<Rightarrow> proposable_texts inner
   | Propose p \<Rightarrow> proposable_texts (pr_inner p)
   | Approve proposal \<Rightarrow> [proposal]
   | Withdraw proposal \<Rightarrow> [proposal])"

definition entry_texts :: "'a unsigned_chain_entry_scheme \<Rightarrow> ustr list" where
  "entry_texts entry =
     entry_suite entry # entry_prevHashHex entry # actor_userId (entry_actor entry) #
     actor_keyFingerprintHex (entry_actor entry) # operation_texts (entry_operation entry)"

definition well_formed_entry :: "'a unsigned_chain_entry_scheme \<Rightarrow> bool" where
  "well_formed_entry entry \<longleftrightarrow> list_all well_formed (entry_texts entry)"

lemma encode_hex_strings_inj:
  assumes "map_option encode_hex (encode_lp (map LpStr xs)) = Some h"
    and "map_option encode_hex (encode_lp (map LpStr ys)) = Some h"
    and "list_all well_formed xs" and "list_all well_formed ys"
  shows "xs = ys"
  using assms by (auto intro: encode_strings_inj)

lemma with_scope_fields_inj:
  assumes p: "with_scope_fields fs p = Some b" and q: "with_scope_fields gs q = Some b"
    and kinds: "list_all2 same_kind fs gs"
    and texts: "list_all well_formed (scopeEnvironmentIds p)" "list_all well_formed (scopeEnvironmentIds q)"
  shows "fs = gs \<and> scopeKind p = scopeKind q \<and> scopeEnvironmentIds p = scopeEnvironmentIds q"
proof -
  from p q obtain u v where
    uv: "encode_lp (map LpStr (scopeEnvironmentIds p)) = Some u"
      "encode_lp (map LpStr (scopeEnvironmentIds q)) = Some v"
    and outer:
      "encode_lp (fs @ [LpStr (scope_kind_name (scopeKind p)), LpStr (encode_hex u)]) = Some b"
      "encode_lp (gs @ [LpStr (scope_kind_name (scopeKind q)), LpStr (encode_hex v)]) = Some b"
    by (auto simp: with_scope_fields_def canonicalScopeEnvironmentsHex_def Option.bind_eq_Some_conv)
  have "fs @ [LpStr (scope_kind_name (scopeKind p)), LpStr (encode_hex u)]
      = gs @ [LpStr (scope_kind_name (scopeKind q)), LpStr (encode_hex v)]"
    using kinds by (intro encode_lp_inj [OF outer] list_all2_appendI) simp_all
  with list_all2_lengthD [OF kinds] have "fs = gs" and "scopeKind p = scopeKind q" and "u = v"
    by simp_all
  with uv texts show ?thesis by (blast intro: encode_strings_inj)
qed

lemma grant_payload_inj:
  assumes "canonicalProposablePayloadBytes (Grant_Server p) = Some b"
    and "canonicalProposablePayloadBytes (Grant_Server q) = Some b"
    and "list_all well_formed (proposable_texts (Grant_Server p))"
    and "list_all well_formed (proposable_texts (Grant_Server q))"
  shows "p = q"
proof -
  from assms(1,2) obtain sp lp sq lq where
    nested: "encode_lp (map LpStr (gs_scopeEnvironmentIds p)) = Some sp"
      "encode_lp (map LpStr (gs_scopeEnvironmentIds q)) = Some sq"
      "canonicalLeasePolicyBytes (gs_leasePolicy p) = Some lp"
      "canonicalLeasePolicyBytes (gs_leasePolicy q) = Some lq"
    and outer:
      "encode_lp [LpStr (gs_serverEncPubHex p), LpStr (gs_serverKeyFingerprintHex p),
         LpStr (encode_hex sp), LpStr (encode_hex lp)] = Some b"
      "encode_lp [LpStr (gs_serverEncPubHex q), LpStr (gs_serverKeyFingerprintHex q),
         LpStr (encode_hex sq), LpStr (encode_hex lq)] = Some b"
    by (auto simp: canonicalProposablePayloadBytes_def Option.bind_eq_Some_conv)
  have heads: "gs_serverEncPubHex p = gs_serverEncPubHex q"
    "gs_serverKeyFingerprintHex p = gs_serverKeyFingerprintHex q" "sp = sq" "lp = lq"
    using encode_lp_inj [OF outer] assms(3,4) by (simp_all add: proposable_texts_def)
  have "gs_scopeEnvironmentIds p = gs_scopeEnvironmentIds q"
    using nested(1,2) heads assms(3,4) by (auto simp: proposable_texts_def intro: encode_strings_inj)
  moreover have "gs_leasePolicy p = gs_leasePolicy q"
    using nested(3,4) heads assms(3,4) lease_issuer.list_canon_inj [of "gs_leasePolicy p"]
    by (auto simp: proposable_texts_def canonicalLeasePolicyBytes_def)
  ultimately show ?thesis using heads by simp
qed

lemma checkpoint_payload_inj:
  assumes "canonicalProposablePayloadBytes (Checkpoint p) = Some b"
    and "canonicalProposablePayloadBytes (Checkpoint q) = Some b"
    and "list_all well_formed (proposable_texts (Checkpoint p))"
    and "list_all well_formed (proposable_texts (Checkpoint q))"
  shows "p = q"
proof -
  from assms(1,2) obtain u v where
    nested: "canonicalCheckpointEnvironmentsBytes (cp_environments p) = Some u"
      "canonicalCheckpointEnvironmentsBytes (cp_environments q) = Some v"
    and outer: "encode_lp [LpStr (encode_hex u), LpStr (cp_auditHeadHashHex p)] = Some b"
      "encode_lp [LpStr (encode_hex v), LpStr (cp_auditHeadHashHex q)] = Some b"
    by (auto simp: canonicalProposablePayloadBytes_def Option.bind_eq_Some_conv)
  have heads: "u = v" "cp_auditHeadHashHex p = cp_auditHeadHashHex q"
    using encode_lp_inj [OF outer] assms(3,4) by (simp_all add: proposable_texts_def)
  moreover have "cp_environments p = cp_environments q"
    using nested heads assms(3,4) checkpoint_tuple.list_canon_inj [of "cp_environments p"]
    by (auto simp: proposable_texts_def canonicalCheckpointEnvironmentsBytes_def)
  ultimately show ?thesis by simp
qed

lemma policy_payload_inj:
  assumes "canonicalProposablePayloadBytes (Set_Approval_Policy p) = Some b"
    and "canonicalProposablePayloadBytes (Set_Approval_Policy q) = Some b"
  shows "p = q"
proof -
  from assms obtain u v where
    nested: "encode_lp (map LpStr (map approval_target_name (sp_ops p))) = Some u"
      "encode_lp (map LpStr (map approval_target_name (sp_ops q))) = Some v"
    and outer: "encode_lp [LpStr (encode_hex u), LpNum (sp_requiredApprovals p)] = Some b"
      "encode_lp [LpStr (encode_hex v), LpNum (sp_requiredApprovals q)] = Some b"
    by (auto simp: canonicalProposablePayloadBytes_def Option.bind_eq_Some_conv)
  have heads: "u = v" "sp_requiredApprovals p = sp_requiredApprovals q"
    using encode_lp_inj [OF outer] by simp_all
  have "map approval_target_name (sp_ops p) = map approval_target_name (sp_ops q)"
    by (rule encode_strings_inj [OF nested(1) nested(2) [folded heads(1)]]) (simp_all add: list_all_iff)
  then have "sp_ops p = sp_ops q" by (rule map_injective) (simp add: inj_def)
  with heads show ?thesis by simp
qed

lemma revoke_device_payload_inj:
  assumes "canonicalProposablePayloadBytes (Revoke_Device p) = Some b"
    and "canonicalProposablePayloadBytes (Revoke_Device q) = Some b"
    and "list_all well_formed (proposable_texts (Revoke_Device p))"
    and "list_all well_formed (proposable_texts (Revoke_Device q))"
  shows "p = q"
proof -
  from assms(1,2) obtain u v where
    nested: "encode_lp (map LpStr (rd_deviceFingerprintsHex p)) = Some u"
      "encode_lp (map LpStr (rd_deviceFingerprintsHex q)) = Some v"
    and outer: "encode_lp [LpStr (rd_targetUserId p), LpStr (encode_hex u)] = Some b"
      "encode_lp [LpStr (rd_targetUserId q), LpStr (encode_hex v)] = Some b"
    by (auto simp: canonicalProposablePayloadBytes_def Option.bind_eq_Some_conv)
  have heads: "u = v" "rd_targetUserId p = rd_targetUserId q"
    using encode_lp_inj [OF outer] assms(3,4) by (simp_all add: proposable_texts_def)
  moreover have "rd_deviceFingerprintsHex p = rd_deviceFingerprintsHex q"
    using nested heads assms(3,4) by (auto simp: proposable_texts_def intro: encode_strings_inj)
  ultimately show ?thesis by simp
qed

lemma scoped_payload_inj:
  "canonicalProposablePayloadBytes (Add_Member p) = Some b \<Longrightarrow>
   canonicalProposablePayloadBytes (Add_Member q) = Some b \<Longrightarrow>
   list_all well_formed (proposable_texts (Add_Member p)) \<Longrightarrow>
   list_all well_formed (proposable_texts (Add_Member q)) \<Longrightarrow> p = q"
  "canonicalProposablePayloadBytes (Change_Role p') = Some b \<Longrightarrow>
   canonicalProposablePayloadBytes (Change_Role q') = Some b \<Longrightarrow>
   list_all well_formed (proposable_texts (Change_Role p')) \<Longrightarrow>
   list_all well_formed (proposable_texts (Change_Role q')) \<Longrightarrow> p' = q'"
  "canonicalProposablePayloadBytes (Add_Device p'') = Some b \<Longrightarrow>
   canonicalProposablePayloadBytes (Add_Device q'') = Some b \<Longrightarrow>
   list_all well_formed (proposable_texts (Add_Device p'')) \<Longrightarrow>
   list_all well_formed (proposable_texts (Add_Device q'')) \<Longrightarrow> p'' = q''"
  by (simp_all add: canonicalProposablePayloadBytes_def proposable_texts_def)
    (drule (1) with_scope_fields_inj; simp)+

lemma plain_payload_inj:
  assumes "canonicalProposablePayloadBytes x = Some b" and "canonicalProposablePayloadBytes y = Some b"
    and "list_all well_formed (proposable_texts x)" and "list_all well_formed (proposable_texts y)"
  shows "x = Genesis p \<Longrightarrow> y = Genesis q \<Longrightarrow> p = q"
    and "x = Remove_Member u \<Longrightarrow> y = Remove_Member v \<Longrightarrow> u = v"
    and "x = Create_Environment c \<Longrightarrow> y = Create_Environment d \<Longrightarrow> c = d"
    and "x = Delete_Environment u \<Longrightarrow> y = Delete_Environment v \<Longrightarrow> u = v"
    and "x = Rotate_Epoch r \<Longrightarrow> y = Rotate_Epoch s \<Longrightarrow> r = s"
    and "x = Revoke_Server u \<Longrightarrow> y = Revoke_Server v \<Longrightarrow> u = v"
  using assms
  by (simp_all add: canonicalProposablePayloadBytes_def proposable_texts_def)
    (drule (1) encode_lp_inj; simp)+

text \<open>The payload bytes of two operations of the same name determine the operation.\<close>

lemma proposable_payload_inj:
  assumes "canonicalProposablePayloadBytes x = Some b" and "canonicalProposablePayloadBytes y = Some b"
    and "proposable_op_name x = proposable_op_name y"
    and "list_all well_formed (proposable_texts x)" and "list_all well_formed (proposable_texts y)"
  shows "x = y"
  using assms(3)
  by (cases x; cases y; simp add: proposable_op_name_def)
    (use assms(1,2,4,5) in \<open>blast dest: grant_payload_inj checkpoint_payload_inj policy_payload_inj
       revoke_device_payload_inj scoped_payload_inj plain_payload_inj\<close>)+

lemma chain_payload_inj:
  assumes "canonicalChainPayloadBytes x = Some b" and "canonicalChainPayloadBytes y = Some b"
    and "op_name x = op_name y"
    and "list_all well_formed (operation_texts x)" and "list_all well_formed (operation_texts y)"
  shows "x = y"
proof -
  have names: "proposable_op_name opn \<noteq> lit ''propose'' \<and> proposable_op_name opn \<noteq> lit ''approve''
      \<and> proposable_op_name opn \<noteq> lit ''withdraw''" for opn
    by (simp add: proposable_op_name_def split: proposable_operation.split)
  consider (direct) i j where "x = Direct i" "y = Direct j"
    | (propose) p q where "x = Propose p" "y = Propose q"
    | (approve) u v where "x = Approve u" "y = Approve v"
    | (withdraw) u v where "x = Withdraw u" "y = Withdraw v"
    using assms(3) names names [THEN conjunct2, THEN conjunct1, symmetric]
    by (cases x; cases y) (auto simp: op_name_def dest: sym)
  then show ?thesis
  proof cases
    case direct
    then show ?thesis
      using assms proposable_payload_inj [of i b j]
      by (simp add: canonicalChainPayloadBytes_def operation_texts_def op_name_def)
  next
    case propose
    with assms(1,2) obtain u v where
      nested: "canonicalProposablePayloadBytes (pr_inner p) = Some u"
        "canonicalProposablePayloadBytes (pr_inner q) = Some v"
      and outer:
        "encode_lp [LpStr (proposable_op_name (pr_inner p)), LpStr (encode_hex u), LpNum (pr_expiresAtMs p)] = Some b"
        "encode_lp [LpStr (proposable_op_name (pr_inner q)), LpStr (encode_hex v), LpNum (pr_expiresAtMs q)] = Some b"
      by (auto simp: canonicalChainPayloadBytes_def Option.bind_eq_Some_conv)
    have heads: "proposable_op_name (pr_inner p) = proposable_op_name (pr_inner q)" "u = v"
      "pr_expiresAtMs p = pr_expiresAtMs q"
      using encode_lp_inj [OF outer] by simp_all
    moreover have "pr_inner p = pr_inner q"
      using nested heads assms(4,5) propose
      by (auto simp: operation_texts_def intro: proposable_payload_inj)
    ultimately show ?thesis using propose by simp
  next
    case approve
    then show ?thesis using assms
      by (simp add: canonicalChainPayloadBytes_def operation_texts_def) (drule (1) encode_lp_inj; simp)
  next
    case withdraw
    then show ?thesis using assms
      by (simp add: canonicalChainPayloadBytes_def operation_texts_def) (drule (1) encode_lp_inj; simp)
  qed
qed

lemma signed_fields_kinds:
  "well_formed_entry x \<Longrightarrow> well_formed_entry y \<Longrightarrow>
   list_all2 same_kind (signed_fields x u) (signed_fields y v)"
  by (simp add: signed_fields_def well_formed_entry_def entry_texts_def)

lemma signed_fields_inj:
  "signed_fields x u = signed_fields y v \<Longrightarrow>
   u = v \<and> entry_suite x = entry_suite y \<and> entry_seq x = entry_seq y
   \<and> entry_prevHashHex x = entry_prevHashHex y
   \<and> op_name (entry_operation x) = op_name (entry_operation y)
   \<and> entry_actor x = entry_actor y \<and> entry_timestampMs x = entry_timestampMs y"
  by (simp add: signed_fields_def chain_actor.equality)

lemma entry_operation_inj:
  assumes "canonicalChainPayloadBytes (entry_operation x) = Some u"
    and "canonicalChainPayloadBytes (entry_operation y) = Some u"
    and "op_name (entry_operation x) = op_name (entry_operation y)"
    and "well_formed_entry x" and "well_formed_entry y"
  shows "entry_operation x = entry_operation y"
  using assms by (auto simp: well_formed_entry_def entry_texts_def intro: chain_payload_inj)

lemma signed_bytes_determine_fields:
  assumes "canonicalChainSignedBytes x = Some b" and "canonicalChainSignedBytes y = Some b"
    and "well_formed_entry x" and "well_formed_entry y"
  shows "entry_operation x = entry_operation y \<and> entry_suite x = entry_suite y
    \<and> entry_seq x = entry_seq y \<and> entry_prevHashHex x = entry_prevHashHex y
    \<and> entry_actor x = entry_actor y \<and> entry_timestampMs x = entry_timestampMs y"
proof -
  from assms(1,2) obtain u v where
    payloads: "canonicalChainPayloadBytes (entry_operation x) = Some u"
      "canonicalChainPayloadBytes (entry_operation y) = Some v"
    and outer: "encode_lp (signed_fields x u) = Some b" "encode_lp (signed_fields y v) = Some b"
    by (auto simp: canonicalChainSignedBytes_def Option.bind_eq_Some_conv)
  from encode_lp_inj [OF outer signed_fields_kinds [OF assms(3,4)]]
  have heads: "u = v \<and> entry_suite x = entry_suite y \<and> entry_seq x = entry_seq y
      \<and> entry_prevHashHex x = entry_prevHashHex y
      \<and> op_name (entry_operation x) = op_name (entry_operation y)
      \<and> entry_actor x = entry_actor y \<and> entry_timestampMs x = entry_timestampMs y"
    by (rule signed_fields_inj)
  with payloads assms(3,4) show ?thesis by (auto intro: entry_operation_inj)
qed

lemma entry_bytes_determine_entry:
  assumes "canonicalChainEntryBytes x = Some b" and "canonicalChainEntryBytes y = Some b"
    and "well_formed_entry x" and "well_formed_entry y"
    and "well_formed (entry_signatureHex x)" and "well_formed (entry_signatureHex y)"
  shows "x = y"
proof -
  from assms(1,2) obtain u v where
    payloads: "canonicalChainPayloadBytes (entry_operation x) = Some u"
      "canonicalChainPayloadBytes (entry_operation y) = Some v"
    and outer: "encode_lp (signed_fields x u @ [LpStr (entry_signatureHex x)]) = Some b"
      "encode_lp (signed_fields y v @ [LpStr (entry_signatureHex y)]) = Some b"
    by (auto simp: canonicalChainEntryBytes_def Option.bind_eq_Some_conv)
  have "signed_fields x u @ [LpStr (entry_signatureHex x)] = signed_fields y v @ [LpStr (entry_signatureHex y)]"
    by (rule encode_lp_inj [OF outer list_all2_appendI [OF signed_fields_kinds [OF assms(3,4)]]])
      (simp add: assms(5,6))
  then have heads: "signed_fields x u = signed_fields y v" "entry_signatureHex x = entry_signatureHex y"
    by simp_all
  with payloads assms(3,4) have "entry_operation x = entry_operation y"
    by (auto dest!: signed_fields_inj intro: entry_operation_inj)
  with heads show ?thesis by (auto dest!: signed_fields_inj intro: chain_entry.equality)
qed

text \<open>The entry bytes are the signed bytes and the framed signature.\<close>

lemma entry_bytes_signed:
  assumes "canonicalChainSignedBytes entry = Some b" and "short_field (LpStr (entry_signatureHex entry))"
  obtains c where "canonicalChainEntryBytes entry = Some (b @ c)"
proof -
  from assms(2) obtain c where "encode_lp [LpStr (entry_signatureHex entry)] = Some c"
    using encode_lp_defined [of "[LpStr (entry_signatureHex entry)]"] by auto
  moreover from assms(1) obtain payload where
    payload: "canonicalChainPayloadBytes (entry_operation entry) = Some payload"
    and "encode_lp (signed_fields entry payload) = Some b"
    by (auto simp: canonicalChainSignedBytes_def Option.bind_eq_Some_conv)
  ultimately have "encode_lp (signed_fields entry payload @ [LpStr (entry_signatureHex entry)]) = Some (b @ c)"
    by (simp add: encode_lp_append_Some)
  with payload show ?thesis
    by (auto simp: canonicalChainEntryBytes_def intro: that)
qed

end
