(* ===== verification/Chain_Reading.thy ===== *)
theory Chain_Reading
  imports Chain_Shape
begin

text \<open>
  The typed reading of an entry: the fields the verifier uses after the structure check, read off
  the JavaScript value. A shape predicate and its reader share a contract (the shape holds exactly
  when the value reads as something well formed), proved once for lists and interpreted for every
  kind of field and payload.
\<close>

section \<open>Well-formed typed values\<close>

definition bounded_id :: "ustr \<Rightarrow> bool" where
  "bounded_id s \<longleftrightarrow> 0 < length s \<and> withinFieldBytes s"

definition hex_of_length :: "nat \<Rightarrow> ustr \<Rightarrow> bool" where
  "hex_of_length n s \<longleftrightarrow> (\<exists>b. decode_hex s = Some b \<and> length b = n)"

definition scope_fields_ok :: "'a scope_payload_fields_scheme \<Rightarrow> bool" where
  "scope_fields_ok p \<longleftrightarrow>
     length (scopeEnvironmentIds p) \<le> MAX_SCOPE_ENVIRONMENTS \<and>
     list_all bounded_id (scopeEnvironmentIds p) \<and> distinct (scopeEnvironmentIds p) \<and>
     (scopeKind p = ScopeAll \<longrightarrow> scopeEnvironmentIds p = [])"

definition constraint_ok :: "lease_claim_constraint \<Rightarrow> bool" where
  "constraint_ok c \<longleftrightarrow> bounded_id (claimName c) \<and> withinFieldBytes (claimValue c)"

definition issuer_ok :: "lease_policy_issuer \<Rightarrow> bool" where
  "issuer_ok e \<longleftrightarrow> bounded_id (issuerUrl e) \<and> bounded_id (audience e) \<and>
     list_all constraint_ok (claimConstraints e) \<and> length (claimConstraints e) \<le> MAX_LEASE_CLAIM_CONSTRAINTS"

definition checkpoint_entry_ok :: "checkpoint_environment_entry \<Rightarrow> bool" where
  "checkpoint_entry_ok e \<longleftrightarrow>
     bounded_id (ck_environmentId e) \<and> safe_int (ck_epoch e) \<and> 1 \<le> ck_epoch e \<and>
     safe_int (ck_manifestVersion e) \<and> 1 \<le> ck_manifestVersion e \<and>
     hex_of_length SHA256_BYTES (ck_manifestSigHashHex e) \<and> hex_of_length SHA256_BYTES (ck_valuesDigestHex e)"

definition proposable_ok :: "proposable_operation \<Rightarrow> bool" where
  "proposable_ok operation = (case operation of
     Genesis p \<Rightarrow> hex_of_length 32 (gn_encPubHex p) \<and> hex_of_length 32 (gn_sigPubHex p)
   | Add_Member p \<Rightarrow> bounded_id (am_targetUserId p) \<and> hex_of_length 32 (am_encPubHex p) \<and>
       hex_of_length 32 (am_sigPubHex p) \<and> scope_fields_ok p
   | Remove_Member target \<Rightarrow> bounded_id target
   | Change_Role p \<Rightarrow> bounded_id (cr_targetUserId p) \<and> scope_fields_ok p
   | Create_Environment p \<Rightarrow>
       bounded_id (ce_environmentId p) \<and> hex_of_length SHA256_BYTES (ce_dekCommitmentHex p)
   | Delete_Environment environmentId \<Rightarrow> bounded_id environmentId
   | Rotate_Epoch p \<Rightarrow> bounded_id (re_environmentId p) \<and> safe_int (re_newEpoch p) \<and> 1 \<le> re_newEpoch p \<and>
       withinFieldBytes (re_reason p) \<and> hex_of_length SHA256_BYTES (re_dekCommitmentHex p)
   | Grant_Server p \<Rightarrow> hex_of_length 32 (gs_serverEncPubHex p) \<and>
       hex_of_length FINGERPRINT_BYTES (gs_serverKeyFingerprintHex p) \<and>
       list_all bounded_id (gs_scopeEnvironmentIds p) \<and>
       length (gs_scopeEnvironmentIds p) \<le> MAX_SCOPE_ENVIRONMENTS \<and>
       list_all issuer_ok (gs_leasePolicy p) \<and> length (gs_leasePolicy p) \<le> MAX_LEASE_POLICY_ISSUERS
   | Revoke_Server serverKey \<Rightarrow> hex_of_length FINGERPRINT_BYTES serverKey
   | Checkpoint p \<Rightarrow> list_all checkpoint_entry_ok (cp_environments p) \<and>
       distinct (map ck_environmentId (cp_environments p)) \<and>
       (cp_auditHeadHashHex p = [] \<or> hex_of_length SHA256_BYTES (cp_auditHeadHashHex p))
   | Set_Approval_Policy p \<Rightarrow> safe_int (sp_requiredApprovals p) \<and>
       (sp_requiredApprovals p = 0 \<or> MIN_ACTIVE_REQUIRED_APPROVALS \<le> sp_requiredApprovals p)
   | Add_Device p \<Rightarrow>
       hex_of_length 32 (ad_encPubHex p) \<and> hex_of_length 32 (ad_sigPubHex p) \<and> scope_fields_ok p
   | Revoke_Device p \<Rightarrow> bounded_id (rd_targetUserId p) \<and>
       list_all (hex_of_length FINGERPRINT_BYTES) (rd_deviceFingerprintsHex p) \<and>
       distinct (rd_deviceFingerprintsHex p) \<and> 1 \<le> length (rd_deviceFingerprintsHex p) \<and>
       length (rd_deviceFingerprintsHex p) \<le> MAX_REVOKE_DEVICE_FINGERPRINTS)"

definition operation_ok :: "chain_operation \<Rightarrow> bool" where
  "operation_ok operation = (case operation of
     Direct inner \<Rightarrow> proposable_ok inner
   | Propose p \<Rightarrow> proposable_ok (pr_inner p) \<and> safe_int (pr_expiresAtMs p) \<and> 0 \<le> pr_expiresAtMs p
   | Approve proposal \<Rightarrow> hex_of_length SHA256_BYTES proposal
   | Withdraw proposal \<Rightarrow> hex_of_length SHA256_BYTES proposal)"

definition entry_ok :: "chain_entry \<Rightarrow> bool" where
  "entry_ok entry \<longleftrightarrow>
     safe_int (entry_timestampMs entry) \<and> 0 \<le> entry_timestampMs entry \<and>
     bounded_id (actor_userId (entry_actor entry)) \<and>
     hex_of_length FINGERPRINT_BYTES (actor_keyFingerprintHex (entry_actor entry)) \<and>
     hex_of_length SIGNATURE_BYTES (entry_signatureHex entry) \<and>
     operation_ok (entry_operation entry)"

section \<open>Readers\<close>

definition read_role :: "js_value \<Rightarrow> role option" where
  "read_role v = as_string v \<bind> (\<lambda>s. find (\<lambda>r. role_name r = s) ROLES)"

definition read_approval_target :: "js_value \<Rightarrow> approval_target_op option" where
  "read_approval_target v = as_string v \<bind> (\<lambda>s. find (\<lambda>k. approval_target_name k = s) APPROVAL_TARGET_OPS)"

definition read_scope_kind :: "js_value \<Rightarrow> scope_kind option" where
  "read_scope_kind v = as_string v \<bind> (\<lambda>s. find (\<lambda>k. scope_kind_name k = s) [ScopeAll, ScopeListed])"

definition read_genesis :: "js_value \<Rightarrow> genesis_payload option" where
  "read_genesis p = do {
     e \<leftarrow> as_string (field p ''encPubHex'');
     s \<leftarrow> as_string (field p ''sigPubHex'');
     Some \<lparr>gn_encPubHex = e, gn_sigPubHex = s\<rparr> }"

definition read_scope :: "js_value \<Rightarrow> scope_payload_fields option" where
  "read_scope p = do {
     k \<leftarrow> read_scope_kind (field p ''scopeKind'');
     ids \<leftarrow> array_of as_string (field p ''scopeEnvironmentIds'');
     Some \<lparr>scopeKind = k, scopeEnvironmentIds = ids\<rparr> }"

definition read_add_member :: "js_value \<Rightarrow> add_member_payload option" where
  "read_add_member p = do {
     t \<leftarrow> as_string (field p ''targetUserId'');
     g \<leftarrow> read_genesis p;
     r \<leftarrow> read_role (field p ''role'');
     sc \<leftarrow> read_scope p;
     Some \<lparr>scopeKind = scopeKind sc, scopeEnvironmentIds = scopeEnvironmentIds sc, am_targetUserId = t,
           am_encPubHex = gn_encPubHex g, am_sigPubHex = gn_sigPubHex g, am_role = r\<rparr> }"

definition read_change_role :: "js_value \<Rightarrow> change_role_payload option" where
  "read_change_role p = do {
     t \<leftarrow> as_string (field p ''targetUserId'');
     r \<leftarrow> read_role (field p ''newRole'');
     sc \<leftarrow> read_scope p;
     Some \<lparr>scopeKind = scopeKind sc, scopeEnvironmentIds = scopeEnvironmentIds sc, cr_targetUserId = t,
           cr_newRole = r\<rparr> }"

definition read_create_environment :: "js_value \<Rightarrow> create_environment_payload option" where
  "read_create_environment p = do {
     e \<leftarrow> as_string (field p ''environmentId'');
     c \<leftarrow> as_string (field p ''dekCommitmentHex'');
     Some \<lparr>ce_environmentId = e, ce_dekCommitmentHex = c\<rparr> }"

definition read_rotate_epoch :: "js_value \<Rightarrow> rotate_epoch_payload option" where
  "read_rotate_epoch p = do {
     e \<leftarrow> as_string (field p ''environmentId'');
     n \<leftarrow> as_int (field p ''newEpoch'');
     r \<leftarrow> as_string (field p ''reason'');
     c \<leftarrow> as_string (field p ''dekCommitmentHex'');
     Some \<lparr>re_environmentId = e, re_newEpoch = n, re_reason = r, re_dekCommitmentHex = c\<rparr> }"

definition read_constraint :: "js_value \<Rightarrow> lease_claim_constraint option" where
  "read_constraint v = do {
     n \<leftarrow> as_string (field v ''claimName'');
     x \<leftarrow> as_string (field v ''claimValue'');
     Some \<lparr>claimName = n, claimValue = x\<rparr> }"

definition read_issuer :: "js_value \<Rightarrow> lease_policy_issuer option" where
  "read_issuer v = do {
     u \<leftarrow> as_string (field v ''issuerUrl'');
     a \<leftarrow> as_string (field v ''audience'');
     cs \<leftarrow> array_of read_constraint (field v ''claimConstraints'');
     Some \<lparr>issuerUrl = u, audience = a, claimConstraints = cs\<rparr> }"

definition read_grant_server :: "js_value \<Rightarrow> grant_server_payload option" where
  "read_grant_server p = do {
     e \<leftarrow> as_string (field p ''serverEncPubHex'');
     f \<leftarrow> as_string (field p ''serverKeyFingerprintHex'');
     ids \<leftarrow> array_of as_string (field p ''scopeEnvironmentIds'');
     lp \<leftarrow> array_of read_issuer (field p ''leasePolicy'');
     Some \<lparr>gs_serverEncPubHex = e, gs_serverKeyFingerprintHex = f, gs_scopeEnvironmentIds = ids,
           gs_leasePolicy = lp\<rparr> }"

definition read_checkpoint_environment :: "js_value \<Rightarrow> checkpoint_environment_entry option" where
  "read_checkpoint_environment v = do {
     e \<leftarrow> as_string (field v ''environmentId'');
     n \<leftarrow> as_int (field v ''epoch'');
     m \<leftarrow> as_int (field v ''manifestVersion'');
     h \<leftarrow> as_string (field v ''manifestSigHashHex'');
     d \<leftarrow> as_string (field v ''valuesDigestHex'');
     Some \<lparr>ck_environmentId = e, ck_epoch = n, ck_manifestVersion = m, ck_manifestSigHashHex = h,
           ck_valuesDigestHex = d\<rparr> }"

definition read_checkpoint :: "js_value \<Rightarrow> checkpoint_payload option" where
  "read_checkpoint p = do {
     es \<leftarrow> array_of read_checkpoint_environment (field p ''environments'');
     a \<leftarrow> as_string (field p ''auditHeadHashHex'');
     Some \<lparr>cp_environments = es, cp_auditHeadHashHex = a\<rparr> }"

definition read_set_approval_policy :: "js_value \<Rightarrow> set_approval_policy_payload option" where
  "read_set_approval_policy p = do {
     ks \<leftarrow> array_of read_approval_target (field p ''ops'');
     n \<leftarrow> as_int (field p ''requiredApprovals'');
     Some \<lparr>sp_ops = ks, sp_requiredApprovals = n\<rparr> }"

definition read_add_device :: "js_value \<Rightarrow> add_device_payload option" where
  "read_add_device p = do {
     g \<leftarrow> read_genesis p;
     r \<leftarrow> read_role (field p ''roleCap'');
     sc \<leftarrow> read_scope p;
     Some \<lparr>scopeKind = scopeKind sc, scopeEnvironmentIds = scopeEnvironmentIds sc,
           ad_encPubHex = gn_encPubHex g, ad_sigPubHex = gn_sigPubHex g, ad_roleCap = r\<rparr> }"

definition read_revoke_device :: "js_value \<Rightarrow> revoke_device_payload option" where
  "read_revoke_device p = do {
     t \<leftarrow> as_string (field p ''targetUserId'');
     fps \<leftarrow> array_of as_string (field p ''deviceFingerprintsHex'');
     Some \<lparr>rd_targetUserId = t, rd_deviceFingerprintsHex = fps\<rparr> }"

definition PROPOSABLE_READERS :: "(ustr \<times> (js_value \<Rightarrow> proposable_operation option)) list" where
  "PROPOSABLE_READERS =
     [(lit ''genesis'', \<lambda>p. map_option Genesis (read_genesis p)),
      (lit ''add_member'', \<lambda>p. map_option Add_Member (read_add_member p)),
      (lit ''remove_member'', \<lambda>p. map_option Remove_Member (as_string (field p ''targetUserId''))),
      (lit ''change_role'', \<lambda>p. map_option Change_Role (read_change_role p)),
      (lit ''create_environment'', \<lambda>p. map_option Create_Environment (read_create_environment p)),
      (lit ''delete_environment'', \<lambda>p. map_option Delete_Environment (as_string (field p ''environmentId''))),
      (lit ''rotate_epoch'', \<lambda>p. map_option Rotate_Epoch (read_rotate_epoch p)),
      (lit ''grant_server'', \<lambda>p. map_option Grant_Server (read_grant_server p)),
      (lit ''revoke_server'', \<lambda>p. map_option Revoke_Server (as_string (field p ''serverKeyFingerprintHex''))),
      (lit ''checkpoint'', \<lambda>p. map_option Checkpoint (read_checkpoint p)),
      (lit ''set_approval_policy'', \<lambda>p. map_option Set_Approval_Policy (read_set_approval_policy p)),
      (lit ''add_device'', \<lambda>p. map_option Add_Device (read_add_device p)),
      (lit ''revoke_device'', \<lambda>p. map_option Revoke_Device (read_revoke_device p))]"

definition read_in_table :: "(ustr \<times> (js_value \<Rightarrow> 'a option)) list \<Rightarrow> js_value \<Rightarrow> js_value \<Rightarrow> 'a option" where
  "read_in_table table opn payload = do {
     name \<leftarrow> as_string opn;
     reader \<leftarrow> map_of table name;
     reader payload }"

definition read_propose :: "js_value \<Rightarrow> propose_payload option" where
  "read_propose p = do {
     inner \<leftarrow> read_in_table PROPOSABLE_READERS (field (field p ''inner'') ''op'') (field (field p ''inner'') ''payload'');
     n \<leftarrow> as_int (field p ''expiresAtMs'');
     Some \<lparr>pr_inner = inner, pr_expiresAtMs = n\<rparr> }"

definition OPERATION_READERS :: "(ustr \<times> (js_value \<Rightarrow> chain_operation option)) list" where
  "OPERATION_READERS =
     map (\<lambda>(name, reader). (name, \<lambda>p. map_option Direct (reader p))) PROPOSABLE_READERS @
     [(lit ''propose'', \<lambda>p. map_option Propose (read_propose p)),
      (lit ''approve'', \<lambda>p. map_option Approve (as_string (field p ''proposalHashHex''))),
      (lit ''withdraw'', \<lambda>p. map_option Withdraw (as_string (field p ''proposalHashHex'')))]"

definition read_operation :: "js_value \<Rightarrow> js_value \<Rightarrow> chain_operation option" where
  "read_operation = read_in_table OPERATION_READERS"

definition read_actor :: "js_value \<Rightarrow> chain_actor option" where
  "read_actor v = do {
     u \<leftarrow> as_string (field v ''userId'');
     f \<leftarrow> as_string (field v ''keyFingerprintHex'');
     Some \<lparr>actor_userId = u, actor_keyFingerprintHex = f\<rparr> }"

definition read_entry :: "js_value \<Rightarrow> chain_entry option" where
  "read_entry v = do {
     operation \<leftarrow> read_operation (field v ''op'') (field v ''payload'');
     suite \<leftarrow> as_string (field v ''suite'');
     n \<leftarrow> as_int (field v ''seq'');
     prev \<leftarrow> as_string (field v ''prevHashHex'');
     actor \<leftarrow> read_actor (field v ''actor'');
     t \<leftarrow> as_int (field v ''timestampMs'');
     sig \<leftarrow> as_string (field v ''signatureHex'');
     Some \<lparr>entry_operation = operation, entry_suite = suite, entry_seq = n, entry_prevHashHex = prev,
           entry_actor = actor, entry_timestampMs = t, entry_signatureHex = sig\<rparr> }"

section \<open>The contract of a shape and its reader\<close>

locale shape_reader =
  fixes shape :: "js_value \<Rightarrow> bool"
    and reader :: "js_value \<Rightarrow> 'a option"
    and ok :: "'a \<Rightarrow> bool"
  assumes shape_iff: "shape v \<longleftrightarrow> (\<exists>x. reader v = Some x \<and> ok x)"
begin

lemma list_iff: "list_all shape vs \<longleftrightarrow> (\<exists>xs. those (map reader vs) = Some xs \<and> list_all ok xs)"
proof (induction vs)
  case (Cons v vs)
  then show ?case by (auto simp: shape_iff split: option.splits)
qed simp

lemma every_iff:
  "every shape limit v \<longleftrightarrow>
     (\<exists>xs. array_of reader v = Some xs \<and> list_all ok xs \<and> (\<forall>n. limit = Some n \<longrightarrow> length xs \<le> n))"
  by (cases v; cases limit) (auto simp: every_def array_of_def list_iff those_map_length)

end

interpretation bounded_string: shape_reader isBoundedId as_string bounded_id
  by unfold_locales (case_tac v; simp add: bounded_id_def)

interpretation bounded_text: shape_reader isBoundedText as_string withinFieldBytes
  by unfold_locales (case_tac v; simp)

lemma isHexOfLength_iff: "isHexOfLength v n \<longleftrightarrow> (\<exists>s. as_string v = Some s \<and> hex_of_length n s)"
  by (cases v) (auto simp: hex_of_length_def dest: length_decode_hex split: option.splits)

interpretation hex_string: shape_reader "\<lambda>v. isHexOfLength v n" as_string "hex_of_length n" for n
  by unfold_locales (rule isHexOfLength_iff)

lemma find_name_iff:
  assumes "inj name"
  shows "find (\<lambda>r. name r = s) rs = Some r \<longleftrightarrow> r \<in> set rs \<and> name r = s"
  using assms by (induction rs) (auto dest: injD)

lemma read_name_iff:
  assumes "\<And>x y. name x = name y \<Longrightarrow> x = y" and "set rs = UNIV"
  shows "as_string v \<bind> (\<lambda>s. find (\<lambda>r. name r = s) rs) = Some r \<longleftrightarrow> v = JString (name r)"
  using assms by (cases v) (auto simp only: as_string.simps bind.simps find_name_iff [OF injI, of name]
      option.distinct js_value.distinct js_value.inject)

lemma set_ROLES [simp]: "set ROLES = UNIV"
  using role.exhaust by (auto simp: ROLES_def)

lemma read_role_iff [simp]: "read_role v = Some r \<longleftrightarrow> v = JString (role_name r)"
  unfolding read_role_def by (rule read_name_iff) simp_all

lemma read_approval_target_iff [simp]: "read_approval_target v = Some k \<longleftrightarrow> v = JString (approval_target_name k)"
  unfolding read_approval_target_def by (rule read_name_iff) auto

lemma read_scope_kind_iff [simp]: "read_scope_kind v = Some k \<longleftrightarrow> v = JString (scope_kind_name k)"
  unfolding read_scope_kind_def by (rule read_name_iff) (use scope_kind.exhaust in auto)

interpretation role_string: shape_reader isRole read_role "\<lambda>_. True"
  by unfold_locales (case_tac v; auto)

interpretation approval_target_string: shape_reader isApprovalTargetOp read_approval_target "\<lambda>_. True"
  by unfold_locales (case_tac v; auto)

section \<open>Shape and reading agree\<close>

lemmas shape_iffs = bounded_string.shape_iff bounded_text.shape_iff isHexOfLength_iff role_string.shape_iff
  approval_target_string.shape_iff bounded_string.every_iff is_safe_integer_iff number_at_least_iff

lemma array_of_string_iff: "array_of as_string v = Some xs \<longleftrightarrow> v = JArray (map JString xs)"
proof -
  have "those (map as_string vs) = Some xs \<longleftrightarrow> vs = map JString xs" for vs
    by (induction vs arbitrary: xs) (auto split: option.splits simp: Cons_eq_map_conv)
  then show ?thesis by (cases v) (auto simp: array_of_def)
qed

lemma as_string_record: "as_string (field v k) = Some s \<Longrightarrow> is_record v"
  by (cases v) auto

lemma field_string_record: "field v k = JString s \<Longrightarrow> is_record v"
  by (cases v) auto

lemma field_number_record: "field v k = JNumber n \<Longrightarrow> is_record v"
  by (cases v) auto

lemma map_JString_inject [simp]: "map JString xs = map JString ys \<longleftrightarrow> xs = ys"
  by (simp add: inj_map_eq_map inj_def)

lemma distinct_JString [simp]: "distinct (map JString xs) = distinct xs"
  by (simp add: distinct_map inj_on_def)

lemma shapeScope_iff: "shapeScope p \<longleftrightarrow> (\<exists>x. read_scope p = Some x \<and> scope_fields_ok x)"
proof -
  have ids: "list_all isBoundedId vs \<longleftrightarrow> (\<exists>xs. vs = map JString xs \<and> list_all bounded_id xs)" for vs
  proof
    assume "list_all isBoundedId vs"
    then obtain xs where "array_of as_string (JArray vs) = Some xs" and "list_all bounded_id xs"
      by (auto simp: bounded_string.list_iff array_of_def)
    then show "\<exists>xs. vs = map JString xs \<and> list_all bounded_id xs"
      by (auto simp: array_of_string_iff)
  qed (auto simp: list.pred_map comp_def bounded_string.shape_iff list_all_iff)
  have kinds: "(\<exists>x. read_scope p = Some x \<and> scope_fields_ok x) \<longleftrightarrow>
    (\<exists>k xs. field p ''scopeKind'' = JString (scope_kind_name k) \<and>
       field p ''scopeEnvironmentIds'' = JArray (map JString xs) \<and>
       length xs \<le> MAX_SCOPE_ENVIRONMENTS \<and> list_all bounded_id xs \<and> distinct xs \<and>
       (k = ScopeAll \<longrightarrow> xs = []))"
    by (force simp: read_scope_def Option.bind_eq_Some_conv scope_fields_ok_def array_of_string_iff)
  show ?thesis
  proof
    assume shape: "shapeScope p"
    then have "field p ''scopeKind'' = JString (scope_kind_name ScopeAll) \<or>
        field p ''scopeKind'' = JString (scope_kind_name ScopeListed)"
      by (auto simp: shapeScope_def scopeShapeOk_def scope_kind_name_def split: if_splits)
    then obtain k where k: "field p ''scopeKind'' = JString (scope_kind_name k)" by blast
    from shape obtain vs where vs: "field p ''scopeEnvironmentIds'' = JArray vs"
      and all: "list_all isBoundedId vs"
      by (auto simp: shapeScope_def scopeShapeOk_def split: if_splits js_value.splits)
    from all obtain xs where xs: "vs = map JString xs" "list_all bounded_id xs" by (auto simp: ids)
    from shape k vs xs have "length xs \<le> MAX_SCOPE_ENVIRONMENTS" and "k = ScopeAll \<longrightarrow> xs = []"
      and "k \<noteq> ScopeAll \<longrightarrow> length (remdups (map JString xs)) = length (map JString xs)"
      by (auto simp: shapeScope_def scopeShapeOk_def scope_kind_name_def split: if_splits scope_kind.splits)
    moreover from this have "distinct xs"
      by (cases k) (simp_all only: length_remdups_eq distinct_JString, simp_all)
    ultimately show "\<exists>x. read_scope p = Some x \<and> scope_fields_ok x"
      using k vs xs by (auto simp: kinds)
  next
    assume "\<exists>x. read_scope p = Some x \<and> scope_fields_ok x"
    then obtain k xs where "field p ''scopeKind'' = JString (scope_kind_name k)"
      and "field p ''scopeEnvironmentIds'' = JArray (map JString xs)"
      and "length xs \<le> MAX_SCOPE_ENVIRONMENTS" "list_all bounded_id xs" "distinct xs"
      and "k = ScopeAll \<longrightarrow> xs = []"
      by (auto simp: kinds)
    moreover from this have "length (remdups (map JString xs)) = length xs"
      using length_remdups_eq [of "map JString xs"] by simp
    ultimately show "shapeScope p"
      by (cases k) (auto simp: shapeScope_def scopeShapeOk_def scope_kind_name_def ids)
  qed
qed

lemma shapeGenesis_iff:
  "shapeGenesis p \<longleftrightarrow>
     (\<exists>x. read_genesis p = Some x \<and> hex_of_length 32 (gn_encPubHex x) \<and> hex_of_length 32 (gn_sigPubHex x))"
  by (auto simp: shapeGenesis_def read_genesis_def shape_iffs Option.bind_eq_Some_conv)

interpretation constraint: shape_reader shapeLeaseClaimConstraint read_constraint constraint_ok
  by unfold_locales
    (auto simp: shapeLeaseClaimConstraint_def read_constraint_def constraint_ok_def shape_iffs
      Option.bind_eq_Some_conv intro: as_string_record)

interpretation issuer: shape_reader shapeLeasePolicyIssuer read_issuer issuer_ok
  by unfold_locales
    (auto simp: shapeLeasePolicyIssuer_def read_issuer_def issuer_ok_def shape_iffs constraint.every_iff
      Option.bind_eq_Some_conv intro: as_string_record)

interpretation checkpoint_entry: shape_reader shapeCheckpointEnvironment read_checkpoint_environment checkpoint_entry_ok
  by unfold_locales
    (auto simp: shapeCheckpointEnvironment_def read_checkpoint_environment_def checkpoint_entry_ok_def shape_iffs
      Option.bind_eq_Some_conv intro: as_string_record)

lemma no_repeated_environment_iff:
  "no_repeated_environment ids es \<longleftrightarrow>
     distinct (map (\<lambda>e. field e ''environmentId'') es) \<and> (\<forall>e \<in> set es. field e ''environmentId'' \<notin> ids)"
proof (induction ids es rule: no_repeated_environment.induct)
  case (2 ids entry entries)
  show ?case
  proof (cases "field entry ''environmentId'' \<in> ids")
    case False
    with 2 [OF False] show ?thesis by (auto simp: image_iff)
  qed simp
qed simp

lemma read_checkpoint_ids:
  "those (map read_checkpoint_environment vs) = Some xs \<Longrightarrow>
   map (\<lambda>e. field e ''environmentId'') vs = map (JString \<circ> ck_environmentId) xs"
proof (induction vs arbitrary: xs)
  case (Cons v vs)
  then show ?case
    by (auto split: option.splits simp: read_checkpoint_environment_def Option.bind_eq_Some_conv)
qed simp

lemma shapeCheckpoint_iff:
  "shapeCheckpoint p \<longleftrightarrow> (\<exists>x. read_checkpoint p = Some x \<and> proposable_ok (Checkpoint x))"
proof -
  have unique: "no_repeated_environment {} vs \<longleftrightarrow> distinct (map ck_environmentId xs)"
    if "those (map read_checkpoint_environment vs) = Some xs" for vs xs
    using read_checkpoint_ids [OF that]
    by (simp add: no_repeated_environment_iff distinct_JString [symmetric] del: distinct_JString)
  have audit: "(v = JString [] \<or> isHexOfLength v SHA256_BYTES) \<longleftrightarrow>
      (\<exists>a. as_string v = Some a \<and> (a = [] \<or> hex_of_length SHA256_BYTES a))" for v
    by (cases v) (auto simp: isHexOfLength_iff)
  show ?thesis
    by (cases "field p ''environments''")
      (auto simp: shapeCheckpoint_def read_checkpoint_def array_of_def proposable_ok_def audit unique
        checkpoint_entry.list_iff Option.bind_eq_Some_conv)
qed

lemma shapeRevokeDevice_iff:
  "shapeRevokeDevice p \<longleftrightarrow> (\<exists>x. read_revoke_device p = Some x \<and> proposable_ok (Revoke_Device x))"
proof -
  have fps: "list_all (\<lambda>fp. isHexOfLength fp FINGERPRINT_BYTES) vs \<longleftrightarrow>
      (\<exists>xs. vs = map JString xs \<and> list_all (hex_of_length FINGERPRINT_BYTES) xs)" for vs
    unfolding hex_string.list_iff using array_of_string_iff [of "JArray vs"]
    by (auto simp: array_of_def)
  have dist: "length (remdups (map JString xs)) = length xs \<longleftrightarrow> distinct xs" for xs
    using length_remdups_eq [of "map JString xs"] by simp
  show ?thesis
    by (cases "field p ''deviceFingerprintsHex''")
      (auto simp: shapeRevokeDevice_def read_revoke_device_def array_of_string_iff proposable_ok_def fps dist
        bounded_string.shape_iff not_less Suc_le_eq Option.bind_eq_Some_conv)
qed

text \<open>The rows of the two tables, in the same order.\<close>

definition row_agrees :: "(ustr \<times> (js_value \<Rightarrow> bool)) \<Rightarrow> (ustr \<times> (js_value \<Rightarrow> proposable_operation option)) \<Rightarrow> bool" where
  "row_agrees s r \<longleftrightarrow> fst s = fst r \<and>
     (\<forall>p. snd s p \<longleftrightarrow> (\<exists>x. snd r p = Some x \<and> proposable_ok x)) \<and>
     (\<forall>p x. snd r p = Some x \<longrightarrow> proposable_op_name x = fst r \<and> is_record p)"

lemma is_record_readers:
  "read_genesis p = Some g \<Longrightarrow> is_record p"
  "read_add_member p = Some a \<Longrightarrow> is_record p"
  "read_change_role p = Some c \<Longrightarrow> is_record p"
  "read_create_environment p = Some e \<Longrightarrow> is_record p"
  "read_rotate_epoch p = Some r \<Longrightarrow> is_record p"
  "read_grant_server p = Some s \<Longrightarrow> is_record p"
  "read_checkpoint p = Some k \<Longrightarrow> is_record p"
  "read_set_approval_policy p = Some l \<Longrightarrow> is_record p"
  "read_add_device p = Some d \<Longrightarrow> is_record p"
  "read_revoke_device p = Some v \<Longrightarrow> is_record p"
  by (cases p; simp add: read_genesis_def read_add_member_def read_change_role_def read_create_environment_def
      read_rotate_epoch_def read_grant_server_def read_checkpoint_def read_set_approval_policy_def
      read_add_device_def read_revoke_device_def array_of_def)+

lemma rows_agree: "list_all2 row_agrees PROPOSABLE_SHAPES PROPOSABLE_READERS"
proof -
  have scoped: "list_all2 row_agrees
    [(lit ''add_member'', shapeAddMember), (lit ''change_role'', shapeChangeRole), (lit ''add_device'', shapeAddDevice)]
    [(lit ''add_member'', \<lambda>p. map_option Add_Member (read_add_member p)),
     (lit ''change_role'', \<lambda>p. map_option Change_Role (read_change_role p)),
     (lit ''add_device'', \<lambda>p. map_option Add_Device (read_add_device p))]"
    by (auto simp: row_agrees_def proposable_op_name_def shapeAddMember_def shapeChangeRole_def shapeAddDevice_def
        shape_iffs shapeGenesis_iff shapeScope_iff read_add_member_def read_change_role_def read_add_device_def
        Option.bind_eq_Some_conv proposable_ok_def scope_fields_ok_def dest: is_record_readers field_string_record)
  have plain: "list_all2 row_agrees
    [(lit ''genesis'', shapeGenesis), (lit ''create_environment'', shapeCreateEnvironment),
     (lit ''rotate_epoch'', shapeRotateEpoch), (lit ''grant_server'', shapeGrantServer)]
    [(lit ''genesis'', \<lambda>p. map_option Genesis (read_genesis p)),
     (lit ''create_environment'', \<lambda>p. map_option Create_Environment (read_create_environment p)),
     (lit ''rotate_epoch'', \<lambda>p. map_option Rotate_Epoch (read_rotate_epoch p)),
     (lit ''grant_server'', \<lambda>p. map_option Grant_Server (read_grant_server p))]"
    by (auto simp: row_agrees_def proposable_op_name_def shapeCreateEnvironment_def shapeRotateEpoch_def
        shapeGrantServer_def shape_iffs issuer.every_iff shapeGenesis_iff read_create_environment_def
        read_rotate_epoch_def read_grant_server_def Option.bind_eq_Some_conv proposable_ok_def
        dest: is_record_readers field_string_record)
  have listed: "list_all2 row_agrees
    [(lit ''checkpoint'', shapeCheckpoint), (lit ''set_approval_policy'', shapeSetApprovalPolicy),
     (lit ''revoke_device'', shapeRevokeDevice)]
    [(lit ''checkpoint'', \<lambda>p. map_option Checkpoint (read_checkpoint p)),
     (lit ''set_approval_policy'', \<lambda>p. map_option Set_Approval_Policy (read_set_approval_policy p)),
     (lit ''revoke_device'', \<lambda>p. map_option Revoke_Device (read_revoke_device p))]"
    by (auto simp: row_agrees_def proposable_op_name_def shapeCheckpoint_iff shapeRevokeDevice_iff
        shapeSetApprovalPolicy_def read_set_approval_policy_def shape_iffs approval_target_string.every_iff
        Option.bind_eq_Some_conv MIN_ACTIVE_REQUIRED_APPROVALS_def proposable_ok_def safe_int_def list.pred_True
        dest: is_record_readers field_string_record field_number_record)
  have single: "list_all2 row_agrees
    [(lit ''remove_member'', \<lambda>p. isBoundedId (field p ''targetUserId'')),
     (lit ''delete_environment'', \<lambda>p. isBoundedId (field p ''environmentId'')),
     (lit ''revoke_server'', \<lambda>p. isHexOfLength (field p ''serverKeyFingerprintHex'') FINGERPRINT_BYTES)]
    [(lit ''remove_member'', \<lambda>p. map_option Remove_Member (as_string (field p ''targetUserId''))),
     (lit ''delete_environment'', \<lambda>p. map_option Delete_Environment (as_string (field p ''environmentId''))),
     (lit ''revoke_server'', \<lambda>p. map_option Revoke_Server (as_string (field p ''serverKeyFingerprintHex'')))]"
    by (auto simp: row_agrees_def proposable_op_name_def shape_iffs proposable_ok_def
        dest: field_string_record)
  from scoped plain listed single show ?thesis
    by (simp add: PROPOSABLE_SHAPES_def PROPOSABLE_READERS_def)
qed

text \<open>Looking a row up in both tables.\<close>

lemma tables_agree:
  assumes "list_all2 row_agrees ss rs"
  shows "shape_in_table ss opn payload \<longleftrightarrow>
     (\<exists>x. read_in_table rs opn payload = Some x \<and> proposable_ok x)"
    and "read_in_table rs opn payload = Some x \<Longrightarrow> opn = JString (proposable_op_name x) \<and> is_record payload"
proof -
  have row: "(case map_of ss name of None \<Rightarrow> False | Some shape \<Rightarrow> is_record payload \<and> shape payload) \<longleftrightarrow>
      (\<exists>x. (map_of rs name \<bind> (\<lambda>reader. reader payload)) = Some x \<and> proposable_ok x)" for name
    using assms
    by (induction rule: list_all2_induct) (auto simp: row_agrees_def split: option.splits)
  show "shape_in_table ss opn payload \<longleftrightarrow> (\<exists>x. read_in_table rs opn payload = Some x \<and> proposable_ok x)"
    using row by (cases opn) (simp_all add: shape_in_table_def read_in_table_def)
  have named: "map_of rs name = Some reader \<Longrightarrow> reader payload = Some x \<Longrightarrow>
      name = proposable_op_name x \<and> is_record payload" for name reader
    using assms
    by (induction rule: list_all2_induct) (auto simp: row_agrees_def split: if_splits)
  show "read_in_table rs opn payload = Some x \<Longrightarrow> opn = JString (proposable_op_name x) \<and> is_record payload"
    by (auto simp: read_in_table_def Option.bind_eq_Some_conv dest: named)
qed

lemmas proposable_shape_iff = tables_agree(1) [OF rows_agree]

lemmas read_proposable_name = tables_agree(2) [OF rows_agree]

lemma isProposableOp_read:
  "read_in_table PROPOSABLE_READERS opn payload = Some x \<Longrightarrow> isProposableOp opn"
proof -
  assume read: "read_in_table PROPOSABLE_READERS opn payload = Some x"
  have names: "map fst PROPOSABLE_SHAPES = map fst PROPOSABLE_READERS"
    by (simp add: PROPOSABLE_SHAPES_def PROPOSABLE_READERS_def)
  from read obtain name reader where "opn = JString name" and "map_of PROPOSABLE_READERS name = Some reader"
    by (auto simp: read_in_table_def Option.bind_eq_Some_conv)
  moreover from this have "name \<in> set (map fst PROPOSABLE_SHAPES)"
    unfolding names by (auto dest: map_of_SomeD intro: rev_image_eqI)
  ultimately show ?thesis
    by (auto simp: isProposableOp_def map_has_def map_of_eq_None_iff)
qed

lemma shapePropose_iff:
  "shapePropose p \<longleftrightarrow> (\<exists>x. read_propose p = Some x \<and> operation_ok (Propose x))"
proof -
  have inner: "(is_record v \<and> isProposableOp (field v ''op'') \<and>
      shape_in_table PROPOSABLE_SHAPES (field v ''op'') (field v ''payload''))
    \<longleftrightarrow> (\<exists>x. read_in_table PROPOSABLE_READERS (field v ''op'') (field v ''payload'') = Some x \<and> proposable_ok x)"
    for v
    by (auto simp: proposable_shape_iff dest: isProposableOp_read read_proposable_name field_string_record)
  have "shapePropose p \<longleftrightarrow> (is_record (field p ''inner'') \<and> isProposableOp (field (field p ''inner'') ''op'') \<and>
      shape_in_table PROPOSABLE_SHAPES (field (field p ''inner'') ''op'') (field (field p ''inner'') ''payload'')) \<and>
      is_safe_integer (field p ''expiresAtMs'') \<and> number_at_least (field p ''expiresAtMs'') 0"
    by (auto simp: shapePropose_def Let_def)
  also have "\<dots> \<longleftrightarrow> (\<exists>x. read_propose p = Some x \<and> operation_ok (Propose x))"
    unfolding inner
    by (auto simp: read_propose_def operation_ok_def is_safe_integer_iff number_at_least_iff
        Option.bind_eq_Some_conv)
  finally show ?thesis .
qed

lemma map_of_map_values: "map_of (map (\<lambda>(n, r). (n, g r)) xs) name = map_option g (map_of xs name)"
  by (induction xs) auto

lemma read_approval_rows:
  "map_of OPERATION_READERS name =
     (case map_of PROPOSABLE_READERS name of
        Some reader \<Rightarrow> Some (\<lambda>p. map_option Direct (reader p))
      | None \<Rightarrow> map_of
          [(lit ''propose'', \<lambda>p. map_option Propose (read_propose p)),
           (lit ''approve'', \<lambda>p. map_option Approve (as_string (field p ''proposalHashHex''))),
           (lit ''withdraw'', \<lambda>p. map_option Withdraw (as_string (field p ''proposalHashHex'')))] name)"
  by (cases "map_of PROPOSABLE_READERS name")
    (simp_all only: OPERATION_READERS_def map_of_append map_add_def map_of_map_values option.simps)

lemma approval_names_not_proposable:
  "map_of PROPOSABLE_READERS (lit ''propose'') = None"
  "map_of PROPOSABLE_READERS (lit ''approve'') = None"
  "map_of PROPOSABLE_READERS (lit ''withdraw'') = None"
  "map_of PROPOSABLE_SHAPES (lit ''propose'') = None"
  "map_of PROPOSABLE_SHAPES (lit ''approve'') = None"
  "map_of PROPOSABLE_SHAPES (lit ''withdraw'') = None"
  by (simp_all add: PROPOSABLE_READERS_def PROPOSABLE_SHAPES_def)

text \<open>The structure check holds exactly on the values that read as a well-formed operation.\<close>

lemma operation_shape_iff:
  "operationShapeOk opn payload \<longleftrightarrow> (\<exists>x. read_operation opn payload = Some x \<and> operation_ok x)"
proof (cases opn)
  case (JString name)
  have ref: "is_record p \<and> shapeProposalRef p \<longleftrightarrow>
      (\<exists>s. as_string (field p ''proposalHashHex'') = Some s \<and> hex_of_length SHA256_BYTES s)" for p
    by (auto simp: shapeProposalRef_def isHexOfLength_iff dest: field_string_record)
  have proposal: "is_record p \<and> shapePropose p \<longleftrightarrow> (\<exists>x. read_propose p = Some x \<and> operation_ok (Propose x))" for p
    by (auto simp: shapePropose_iff read_propose_def Option.bind_eq_Some_conv dest: field_number_record)
  consider "name = lit ''propose''" | "name = lit ''approve''" | "name = lit ''withdraw''"
    | "name \<noteq> lit ''propose''" "name \<noteq> lit ''approve''" "name \<noteq> lit ''withdraw''" by blast
  then show ?thesis
  proof cases
    case 1
    with JString show ?thesis
      by (simp add: operationShapeOk_def shape_in_table_def read_operation_def read_in_table_def PAYLOAD_SHAPES_def
          read_approval_rows approval_names_not_proposable map_add_def proposal) blast
  next
    case 2
    with JString show ?thesis
      by (simp add: operationShapeOk_def shape_in_table_def read_operation_def read_in_table_def PAYLOAD_SHAPES_def
          read_approval_rows approval_names_not_proposable map_add_def ref) (auto simp: operation_ok_def)
  next
    case 3
    with JString show ?thesis
      by (simp add: operationShapeOk_def shape_in_table_def read_operation_def read_in_table_def PAYLOAD_SHAPES_def
          read_approval_rows approval_names_not_proposable map_add_def ref) (auto simp: operation_ok_def)
  next
    case 4
    then have "operationShapeOk opn payload \<longleftrightarrow> shape_in_table PROPOSABLE_SHAPES opn payload"
      and "read_operation opn payload = map_option Direct (read_in_table PROPOSABLE_READERS opn payload)"
      using JString
      by (simp_all add: operationShapeOk_def shape_in_table_def read_operation_def read_in_table_def
          PAYLOAD_SHAPES_def read_approval_rows map_add_def split: option.split)
    then show ?thesis by (auto simp: proposable_shape_iff operation_ok_def)
  qed
qed (simp_all add: operationShapeOk_def shape_in_table_def read_operation_def read_in_table_def)

lemma read_operation_name:
  assumes "read_operation opn payload = Some x"
  shows "opn = JString (op_name x)"
proof -
  from assms obtain name reader where name: "opn = JString name" "map_of OPERATION_READERS name = Some reader"
    "reader payload = Some x"
    by (auto simp: read_operation_def read_in_table_def Option.bind_eq_Some_conv)
  show ?thesis
  proof (cases "map_of PROPOSABLE_READERS name")
    case None
    with name show ?thesis by (auto simp: read_approval_rows op_name_def split: if_splits)
  next
    case (Some inner)
    with name obtain y where "x = Direct y" "read_in_table PROPOSABLE_READERS opn payload = Some y"
      by (auto simp: read_approval_rows read_in_table_def)
    then show ?thesis by (auto simp: op_name_def dest: read_proposable_name)
  qed
qed

text \<open>
  An entry that passed framing and the structure check reads as a well-formed entry, whose
  suite, position and previous hash are the expected ones.
\<close>

lemma checked_entry_reads:
  assumes "checkFraming v expectedSeq prev = None" and "checkPayloadShape v = None"
  shows "\<exists>entry. read_entry v = Some entry \<and> entry_ok entry \<and> entry_suite entry = SUITE_ID \<and>
     entry_seq entry = expectedSeq \<and> entry_prevHashHex entry = prev \<and>
     (expectedSeq = 1 \<longleftrightarrow> op_name (entry_operation entry) = lit ''genesis'')"
proof -
  from assms(2) obtain t u f sig where
    "as_int (field v ''timestampMs'') = Some t" "safe_int t" "0 \<le> t"
    "as_string (field (field v ''actor'') ''userId'') = Some u" "bounded_id u"
    "as_string (field (field v ''actor'') ''keyFingerprintHex'') = Some f" "hex_of_length FINGERPRINT_BYTES f"
    "as_string (field v ''signatureHex'') = Some sig" "hex_of_length SIGNATURE_BYTES sig"
    and shape: "operationShapeOk (field v ''op'') (field v ''payload'')"
    by (auto simp: checkPayloadShape_def shape_iffs reject_when_def split: if_splits)
  moreover from shape obtain x where "read_operation (field v ''op'') (field v ''payload'') = Some x"
    and "operation_ok x"
    by (auto simp: operation_shape_iff)
  moreover from this have "field v ''op'' = JString (op_name x)" by (blast dest: read_operation_name)
  ultimately show ?thesis
    using assms(1)
    by (auto simp: read_entry_def read_actor_def entry_ok_def checkFraming_def split: if_splits)
qed

end
