(* ===== verification/Chain_Verify.thy ===== *)
theory Chain_Verify
  imports Chain_Apply Chain_History Chain_Canonical Chain_Reading
begin

text \<open>
  Entry evaluation and the verifying loop (\<open>chain-verify.ts\<close>). An entry that the checks reject ends
  the loop with its reason and sequence number; the state a rejection leaves behind is dropped, as
  in the source. An exception that no handler catches is \<^const>\<open>Threw\<close>. The platform's SHA-256 and
  Ed25519 are parameters; a verification that throws is \<^const>\<open>None\<close>.
\<close>

record crypto_api =
  api_sha256 :: "bytes \<Rightarrow> bytes"
  api_ed25519_verify :: "bytes \<Rightarrow> bytes \<Rightarrow> bytes \<Rightarrow> bool option"

record applied_operation =
  applied_operation :: proposable_operation
  applied_actorUserId :: user_id

type_synonym evaluation = "(chain_invalid_reason, mutable_chain_state \<times> applied_operation option) outcome"

definition GENESIS_PREV_HASH :: ustr where
  "GENESIS_PREV_HASH = replicate 64 (hd (lit ''0''))"

section \<open>Actor and signature\<close>

definition resolveActorSigPub ::
  "crypto_api \<Rightarrow> chain_entry \<Rightarrow> mutable_chain_state \<Rightarrow> chain_invalid_reason + ustr" where
  "resolveActorSigPub api entry state =
     (case entry_operation entry of
        Direct (Genesis p) \<Rightarrow>
          if userFingerprintHex (api_sha256 api) (gn_encPubHex p) (gn_sigPubHex p)
             \<noteq> actor_keyFingerprintHex (entry_actor entry)
          then Inl Actor_Key_Mismatch else Inr (gn_sigPubHex p)
      | _ \<Rightarrow>
          (case map_of (members state) (actor_userId (entry_actor entry)) of
             None \<Rightarrow> Inl Actor_Not_Member
           | Some record \<Rightarrow>
               (case map_of (devices record) (actor_keyFingerprintHex (entry_actor entry)) of
                  None \<Rightarrow> Inl Actor_Key_Mismatch
                | Some device \<Rightarrow> Inr (sigPubHex device))))"

definition verifyEntrySignature :: "crypto_api \<Rightarrow> chain_entry \<Rightarrow> ustr \<Rightarrow> bool" where
  "verifyEntrySignature api entry sigPub =
     (case (decode_hex (entry_signatureHex entry), decode_hex sigPub) of
        (Some signature, Some publicKey) \<Rightarrow>
          if length signature \<noteq> SIGNATURE_BYTES then False
          else (case canonicalChainSignedBytes entry of
                  None \<Rightarrow> False
                | Some signedBytes \<Rightarrow> api_ed25519_verify api publicKey signature signedBytes = Some True)
      | _ \<Rightarrow> False)"

section \<open>Evaluation\<close>

definition evaluateDirect ::
  "crypto_api \<Rightarrow> proposable_operation \<Rightarrow> actor_context \<Rightarrow> mutable_chain_state \<Rightarrow> int \<Rightarrow> evaluation" where
  "evaluateDirect api operation actor state seq =
     (case roleReason operation actor of
        Some r \<Rightarrow> Rejected r
      | None \<Rightarrow>
          if isApprovalTarget operation (approvalPolicy state) then Rejected Approval_Required
          else (case consensusReason (api_sha256 api) operation actor state of
                  Some r \<Rightarrow> Rejected r
                | None \<Rightarrow>
                    Accepted (applyOperation (api_sha256 api) operation seq (ctx_userId actor) state,
                              Some \<lparr>applied_operation = operation, applied_actorUserId = ctx_userId actor\<rparr>)))"

definition evaluatePropose ::
  "crypto_api \<Rightarrow> propose_payload \<Rightarrow> int \<Rightarrow> ustr \<Rightarrow> actor_context \<Rightarrow> mutable_chain_state \<Rightarrow> evaluation" where
  "evaluatePropose api p seq entryHashHex actor state =
     (case roleReason (pr_inner p) actor of
        Some r \<Rightarrow> Rejected r
      | None \<Rightarrow>
          if \<not> isApprovalTarget (pr_inner p) (approvalPolicy state) then Rejected Approval_Not_Required
          else (case consensusReason (api_sha256 api) (pr_inner p) actor state of
                  Some r \<Rightarrow> Rejected r
                | None \<Rightarrow>
                    Accepted (state\<lparr>pendingProposals :=
                        AList.update entryHashHex
                          \<lparr>proposalSeq = seq, proposalHashHex = entryHashHex,
                           proposerUserId = ctx_userId actor,
                           proposerKeyFingerprintHex = keyFingerprintHex (ctx_device actor),
                           proposerRoleAtProposal = actor_role actor,
                           inner_operation = pr_inner p, expiresAtMs = pr_expiresAtMs p, approvals = []\<rparr>
                          (pendingProposals state)\<rparr>, None)))"

definition approveVoteReason ::
  "int \<Rightarrow> actor_context \<Rightarrow> pending_proposal \<Rightarrow> mutable_chain_state \<Rightarrow> chain_invalid_reason option" where
  "approveVoteReason timestampMs actor pending state =
     (if list_ex (\<lambda>signer. vote_userId signer = ctx_userId actor \<and> voteDevice state signer \<noteq> None)
           (approvalSignersOf pending)
      then Some Duplicate_Approval
      else if \<not> isApprovalTarget (inner_operation pending) (approvalPolicy state) then Some Approval_Not_Required
      else if expiresAtMs pending < timestampMs then Some Proposal_Expired
      else None)"

definition completeProposal ::
  "crypto_api \<Rightarrow> pending_proposal \<Rightarrow> mutable_chain_state \<Rightarrow> int \<Rightarrow> evaluation" where
  "completeProposal api pending state seq =
     (case map_of (members state) (proposerUserId pending) of
        None \<Rightarrow> Rejected Proposal_Void
      | Some proposer \<Rightarrow>
          (case map_of (devices proposer) (proposerKeyFingerprintHex pending) of
             None \<Rightarrow> Rejected Proposal_Void
           | Some device \<Rightarrow>
               let actor = actorContextOf proposer device;
                   operation = inner_operation pending in
               if roleReason operation actor \<noteq> None then Rejected Proposal_Void
               else (case consensusReason (api_sha256 api) operation actor state of
                       Some r \<Rightarrow> Rejected r
                     | None \<Rightarrow>
                         let state' = applyOperation (api_sha256 api) operation seq (mem_userId proposer) state in
                         Accepted (state'\<lparr>pendingProposals :=
                                     AList.delete (proposalHashHex pending) (pendingProposals state')\<rparr>,
                                   Some \<lparr>applied_operation = operation,
                                         applied_actorUserId = mem_userId proposer\<rparr>))))"

text \<open>
  Without a policy the required count is infinite: the vote is recorded, and nothing else.
\<close>

definition quorum_reached :: "approval_policy option \<Rightarrow> nat \<Rightarrow> bool" where
  "quorum_reached policy votes =
     (case policy of None \<Rightarrow> False | Some p \<Rightarrow> pol_requiredApprovals p \<le> int votes)"

definition evaluateApprove ::
  "crypto_api \<Rightarrow> ustr \<Rightarrow> int \<Rightarrow> int \<Rightarrow> actor_context \<Rightarrow> mutable_chain_state \<Rightarrow> evaluation" where
  "evaluateApprove api proposalHash seq timestampMs actor state =
     (if actor_role actor \<noteq> Owner then Rejected Insufficient_Role
      else case map_of (pendingProposals state) proposalHash of
        None \<Rightarrow> Rejected Unknown_Proposal
      | Some pending \<Rightarrow>
          (case approveVoteReason timestampMs actor pending state of
             Some r \<Rightarrow> Rejected r
           | None \<Rightarrow>
               let signature = \<lparr>vote_userId = ctx_userId actor,
                                vote_keyFingerprintHex = keyFingerprintHex (ctx_device actor)\<rparr> in
               if \<not> quorum_reached (approvalPolicy state)
                      (countOwnerVotes state (approvalSignersOf pending @ [signature]))
               then Accepted (state\<lparr>pendingProposals :=
                      AList.update proposalHash (pending\<lparr>approvals := approvals pending @ [signature]\<rparr>)
                        (pendingProposals state)\<rparr>, None)
               else completeProposal api pending state seq))"

definition evaluateWithdraw :: "ustr \<Rightarrow> actor_context \<Rightarrow> mutable_chain_state \<Rightarrow> evaluation" where
  "evaluateWithdraw proposalHash actor state =
     (let pending = map_of (pendingProposals state) proposalHash in
      if actor_role actor \<noteq> Owner \<and> map_option proposerUserId pending \<noteq> Some (ctx_userId actor)
      then Rejected Insufficient_Role
      else case pending of
        None \<Rightarrow> Rejected Unknown_Proposal
      | Some p \<Rightarrow>
          Accepted (state\<lparr>pendingProposals := AList.delete (proposalHashHex p) (pendingProposals state)\<rparr>, None))"

definition evaluateEntry :: "crypto_api \<Rightarrow> chain_entry \<Rightarrow> ustr \<Rightarrow> mutable_chain_state \<Rightarrow> evaluation" where
  "evaluateEntry api entry entryHashHex state =
     (case entry_operation entry of
        Direct (Genesis p) \<Rightarrow>
          Accepted (applyGenesis p (entry_actor entry) (entry_seq entry) state,
                    Some \<lparr>applied_operation = Genesis p,
                          applied_actorUserId = actor_userId (entry_actor entry)\<rparr>)
      | operation \<Rightarrow>
          (case map_of (members state) (actor_userId (entry_actor entry)) of
             None \<Rightarrow> Rejected Actor_Not_Member
           | Some member \<Rightarrow>
               (case map_of (devices member) (actor_keyFingerprintHex (entry_actor entry)) of
                  None \<Rightarrow> Rejected Actor_Key_Mismatch
                | Some device \<Rightarrow>
                    let actor = actorContextOf member device in
                    (case operation of
                       Propose p \<Rightarrow> evaluatePropose api p (entry_seq entry) entryHashHex actor state
                     | Approve h \<Rightarrow>
                         evaluateApprove api h (entry_seq entry) (entry_timestampMs entry) actor state
                     | Withdraw h \<Rightarrow> evaluateWithdraw h actor state
                     | Direct inner \<Rightarrow> evaluateDirect api inner actor state (entry_seq entry)))))"

section \<open>Recording the history\<close>

definition recordTenureStartOf ::
  "mutable_chain_state \<Rightarrow> user_id \<Rightarrow> int \<Rightarrow> chain_history_builder \<Rightarrow> chain_history_builder" where
  "recordTenureStartOf state userId seq history =
     (case map_of (members state) userId of
        None \<Rightarrow> history
      | Some member \<Rightarrow>
          (case soleDeviceOf (devices member) of
             None \<Rightarrow> history
           | Some device \<Rightarrow>
               recordTenureStart userId seq device (mem_role member) (mem_scope member) history))"

definition recordDeviceAddedOf ::
  "mutable_chain_state \<Rightarrow> user_id \<Rightarrow> ustr \<Rightarrow> chain_history_builder \<Rightarrow> chain_history_builder" where
  "recordDeviceAddedOf state actorUserId encPub history =
     (case find (\<lambda>d. encPubHex d = encPub)
             (case map_of (members state) actorUserId of None \<Rightarrow> [] | Some m \<Rightarrow> map snd (devices m)) of
        None \<Rightarrow> history
      | Some device \<Rightarrow> recordDeviceAdded actorUserId device history)"

definition recordHistory ::
  "applied_operation \<Rightarrow> int \<Rightarrow> mutable_chain_state \<Rightarrow> chain_history_builder \<Rightarrow> chain_history_builder" where
  "recordHistory applied seq state history =
     (case applied_operation applied of
        Genesis _ \<Rightarrow> recordTenureStartOf state (applied_actorUserId applied) seq history
      | Add_Member p \<Rightarrow> recordTenureStartOf state (am_targetUserId p) seq history
      | Change_Role p \<Rightarrow> recordRoleChange (cr_targetUserId p) seq (cr_newRole p) (memberScopeOf p) history
      | Remove_Member target \<Rightarrow> recordTenureEnd target seq history
      | Create_Environment p \<Rightarrow> recordEnvironmentCreated (ce_environmentId p) seq history
      | Delete_Environment environmentId \<Rightarrow> recordEnvironmentDeleted environmentId seq history
      | Rotate_Epoch p \<Rightarrow> recordEpochRotated (re_environmentId p) (re_newEpoch p) seq history
      | Checkpoint p \<Rightarrow> recordCheckpoint seq (cp_environments p) history
      | Grant_Server _ \<Rightarrow> history
      | Revoke_Server _ \<Rightarrow> history
      | Set_Approval_Policy _ \<Rightarrow> history
      | Add_Device p \<Rightarrow> recordDeviceAddedOf state (applied_actorUserId applied) (ad_encPubHex p) history
      | Revoke_Device p \<Rightarrow>
          recordDevicesRevoked (rd_targetUserId p) seq (rd_deviceFingerprintsHex p) history)"

section \<open>The verifying loop\<close>

text \<open>The checks of one entry before it is applied, on the value as distributed.\<close>

definition check_read_entry ::
  "crypto_api \<Rightarrow> chain_entry \<Rightarrow> mutable_chain_state \<Rightarrow> chain_invalid_reason option" where
  "check_read_entry api entry state =
     (case resolveActorSigPub api entry state of
        Inl r \<Rightarrow> Some r
      | Inr sigPub \<Rightarrow> if verifyEntrySignature api entry sigPub then None else Some Bad_Signature)"

definition checkEntryBeforeApply ::
  "crypto_api \<Rightarrow> js_value \<Rightarrow> int \<Rightarrow> ustr \<Rightarrow> mutable_chain_state \<Rightarrow> (chain_invalid_reason, chain_entry) outcome" where
  "checkEntryBeforeApply api v seq prevHash state =
     (if \<not> is_record v then Rejected Invalid_Payload
      else case checkFraming v seq prevHash of
        Some r \<Rightarrow> Rejected r
      | None \<Rightarrow>
          (case checkPayloadShape v of
             Some r \<Rightarrow> Rejected r
           | None \<Rightarrow>
               (case read_entry v of
                  None \<Rightarrow> Threw
                | Some entry \<Rightarrow>
                    (case check_read_entry api entry state of
                       Some r \<Rightarrow> Rejected r
                     | None \<Rightarrow> Accepted entry))))"

definition freezePendingProposals :: "(ustr, pending_proposal) js_map \<Rightarrow> (ustr, pending_proposal) js_map" where
  "freezePendingProposals pending = fold (\<lambda>(h, proposal). AList.update h proposal) pending []"

definition copy_map :: "('k, 'v) js_map \<Rightarrow> ('k, 'v) js_map" where
  "copy_map m = fold (\<lambda>(k, v). AList.update k v) m []"

definition sealChainState :: "mutable_chain_state \<Rightarrow> int \<Rightarrow> ustr \<Rightarrow> chain_state" where
  "sealChainState state seq hash =
     \<lparr>st_members = copy_map (members state),
      st_serverGrants = copy_map (serverGrants state),
      st_environments = copy_map (environments state),
      st_checkpoints = copy_map (checkpoints state),
      st_approvalPolicy = approvalPolicy state,
      st_pendingProposals = freezePendingProposals (pendingProposals state),
      st_namedServerKeys = copy_map (namedServerKeys state),
      st_headSeq = seq,
      st_headHashHex = hash\<rparr>"

definition empty_chain_state :: mutable_chain_state where
  "empty_chain_state =
     \<lparr>members = [], serverGrants = [], environments = [], checkpoints = [], memberEncPubs = {},
      memberSigPubs = {}, namedServerKeys = [], approvalPolicy = None, pendingProposals = []\<rparr>"

text \<open>The loop's variables: the last sequence number, the previous hash, the state, the history.\<close>

record verifier =
  v_seq :: int
  v_prevHash :: ustr
  v_state :: mutable_chain_state
  v_history :: "chain_history_builder option"

definition start_verifier :: "chain_history_builder option \<Rightarrow> verifier" where
  "start_verifier history =
     \<lparr>v_seq = 0, v_prevHash = GENESIS_PREV_HASH, v_state = empty_chain_state, v_history = history\<rparr>"

definition fail :: "int \<Rightarrow> chain_invalid_reason \<Rightarrow> (chain_invalid, 'a) outcome" where
  "fail seq r = Rejected \<lparr>err_seq = seq, err_reason = r\<rparr>"

definition apply_checked :: "crypto_api \<Rightarrow> chain_entry \<Rightarrow> int \<Rightarrow> verifier \<Rightarrow> (chain_invalid, verifier) outcome" where
  "apply_checked api entry seq v =
     (case computeChainEntryHash (api_sha256 api) entry of
        None \<Rightarrow> Threw
      | Some entryHashHex \<Rightarrow>
          (case evaluateEntry api entry entryHashHex (v_state v) of
             Threw \<Rightarrow> Threw
           | Rejected r \<Rightarrow> fail seq r
           | Accepted (state', evaluated) \<Rightarrow>
               Accepted
                 \<lparr>v_seq = seq, v_prevHash = entryHashHex, v_state = state',
                  v_history =
                    map_option
                      (\<lambda>history. recordEntryHash entryHashHex
                         (case evaluated of
                            None \<Rightarrow> history
                          | Some applied \<Rightarrow> recordHistory applied seq state' history))
                      (v_history v)\<rparr>))"

definition verify_step :: "crypto_api \<Rightarrow> verifier \<Rightarrow> js_value \<Rightarrow> (chain_invalid, verifier) outcome" where
  "verify_step api v e =
     (let seq = v_seq v + 1 in
      case checkEntryBeforeApply api e seq (v_prevHash v) (v_state v) of
        Threw \<Rightarrow> Threw
      | Rejected r \<Rightarrow> fail seq r
      | Accepted entry \<Rightarrow> apply_checked api entry seq v)"

definition verifyChainCore ::
  "crypto_api \<Rightarrow> js_value list \<Rightarrow> chain_history_builder option \<Rightarrow> (chain_invalid, verifier) outcome" where
  "verifyChainCore api entries history =
     (if entries = [] then fail 0 Empty_Chain
      else run_loop (verify_step api) (start_verifier history) entries)"

definition verifyChain :: "crypto_api \<Rightarrow> js_value list \<Rightarrow> (chain_invalid, chain_state) outcome" where
  "verifyChain api entries =
     then_call (verifyChainCore api entries None)
       (\<lambda>v. Accepted (sealChainState (v_state v) (int (length entries)) (v_prevHash v)))"

definition verifyChainWithHistory ::
  "crypto_api \<Rightarrow> js_value list \<Rightarrow> (chain_invalid, chain_state \<times> chain_history_builder) outcome" where
  "verifyChainWithHistory api entries =
     then_call (verifyChainCore api entries (Some empty_history))
       (\<lambda>v. case v_history v of
              None \<Rightarrow> Threw
            | Some history \<Rightarrow>
                Accepted (sealChainState (v_state v) (int (length entries)) (v_prevHash v), history))"

end
