(* ===== verification/Chain_Steps.thy ===== *)
theory Chain_Steps
  imports Chain_Verify
begin

text \<open>
  The verifying loop as a step relation: \<open>accepts\<close> is one entry passing every check and changing
  the verifier, \<open>reached\<close> the verifiers that sequences of typed entries lead to. A run of the loop
  that ends in acceptance is such a sequence, and the loop throws on no input.
\<close>

lemma roleReason_etc_not_Threw [simp]:
  "evaluateDirect api operation actor state seq \<noteq> Threw"
  "evaluatePropose api p seq h actor state \<noteq> Threw"
  "completeProposal api pending state seq \<noteq> Threw"
  "evaluateApprove api h seq t actor state \<noteq> Threw"
  "evaluateWithdraw h actor state \<noteq> Threw"
proof -
  show complete: "completeProposal api pending state seq \<noteq> Threw" for pending
    by (simp add: completeProposal_def Let_def split: option.split)
  show "evaluateApprove api h seq t actor state \<noteq> Threw"
    by (simp add: evaluateApprove_def Let_def complete split: option.split)
qed (simp_all add: evaluateDirect_def evaluatePropose_def evaluateWithdraw_def Let_def split: option.split)

lemma evaluateEntry_not_Threw: "evaluateEntry api entry h state \<noteq> Threw"
  by (simp add: evaluateEntry_def Let_def split: option.split chain_operation.split proposable_operation.split)

lemma hex_short_field: "hex_of_length n s \<Longrightarrow> n \<le> 1024 \<Longrightarrow> short_field (LpStr s)"
  by (rule short_field_str) (auto simp: hex_of_length_def uint32_max_def dest: length_decode_hex)

lemma verified_bytes_defined:
  assumes "verifyEntrySignature api entry sigPub" and "entry_ok entry"
  shows "\<exists>h. computeChainEntryHash (api_sha256 api) entry = Some h"
proof -
  from assms(1) obtain b where b: "canonicalChainSignedBytes entry = Some b"
    by (auto simp: verifyEntrySignature_def split: option.splits if_splits)
  have "short_field (LpStr (entry_signatureHex entry))"
    using assms(2) by (auto simp: entry_ok_def SIGNATURE_BYTES_def intro: hex_short_field)
  with b obtain c where "canonicalChainEntryBytes entry = Some (b @ c)"
    by (rule entry_bytes_signed)
  then show ?thesis by (simp add: computeChainEntryHash_def)
qed

section \<open>One accepted entry\<close>

text \<open>What the checks establish of the entry before it is applied.\<close>

definition passes_checks :: "crypto_api \<Rightarrow> chain_entry \<Rightarrow> verifier \<Rightarrow> bool" where
  "passes_checks api entry v \<longleftrightarrow>
     entry_ok entry \<and> entry_suite entry = SUITE_ID \<and> entry_seq entry = v_seq v + 1 \<and>
     entry_prevHashHex entry = v_prevHash v \<and>
     (v_seq v = 0 \<longleftrightarrow> op_name (entry_operation entry) = lit ''genesis'') \<and>
     check_read_entry api entry (v_state v) = None"

lemma checkEntryBeforeApply_cases:
  "checkEntryBeforeApply api e seq prev state \<noteq> Threw"
  "checkEntryBeforeApply api e seq prev state = Accepted entry \<longleftrightarrow>
     is_record e \<and> checkFraming e seq prev = None \<and> checkPayloadShape e = None \<and>
     read_entry e = Some entry \<and> check_read_entry api entry state = None"
proof -
  have reads: "checkFraming e seq prev = None \<Longrightarrow> checkPayloadShape e = None \<Longrightarrow> read_entry e \<noteq> None"
    by (drule (1) checked_entry_reads) auto
  show "checkEntryBeforeApply api e seq prev state \<noteq> Threw"
    using reads by (auto simp: checkEntryBeforeApply_def split: option.splits)
  show "checkEntryBeforeApply api e seq prev state = Accepted entry \<longleftrightarrow>
     is_record e \<and> checkFraming e seq prev = None \<and> checkPayloadShape e = None \<and>
     read_entry e = Some entry \<and> check_read_entry api entry state = None"
    by (auto simp: checkEntryBeforeApply_def split: option.splits)
qed

lemma checked_passes:
  assumes "checkEntryBeforeApply api e (v_seq v + 1) (v_prevHash v) (v_state v) = Accepted entry"
  shows "read_entry e = Some entry \<and> passes_checks api entry v"
proof -
  from assms have "checkFraming e (v_seq v + 1) (v_prevHash v) = None" and "checkPayloadShape e = None"
    and read: "read_entry e = Some entry" and "check_read_entry api entry (v_state v) = None"
    by (simp_all add: checkEntryBeforeApply_cases)
  with checked_entry_reads [OF this(1,2)] show ?thesis
    by (auto simp: passes_checks_def)
qed

lemma passes_hash_defined:
  assumes "passes_checks api entry v"
  shows "\<exists>h. computeChainEntryHash (api_sha256 api) entry = Some h"
  using assms verified_bytes_defined [of api entry]
  by (auto simp: passes_checks_def check_read_entry_def split: sum.splits if_splits)

lemma verify_step_not_Threw: "verify_step api v e \<noteq> Threw"
proof (cases "checkEntryBeforeApply api e (v_seq v + 1) (v_prevHash v) (v_state v)")
  case (Accepted entry)
  then obtain h where "computeChainEntryHash (api_sha256 api) entry = Some h"
    by (blast dest: checked_passes passes_hash_defined)
  with Accepted show ?thesis
    using evaluateEntry_not_Threw [of api entry h "v_state v"]
    by (auto simp: verify_step_def apply_checked_def fail_def Let_def split: outcome.splits)
qed (simp_all add: verify_step_def fail_def checkEntryBeforeApply_cases)

inductive accepts ::
  "crypto_api \<Rightarrow> verifier \<Rightarrow> chain_entry \<Rightarrow> applied_operation option \<Rightarrow> verifier \<Rightarrow> bool" for api where
  accepts_entry:
    "passes_checks api entry v \<Longrightarrow>
     computeChainEntryHash (api_sha256 api) entry = Some h \<Longrightarrow>
     evaluateEntry api entry h (v_state v) = Accepted (state', evaluated) \<Longrightarrow>
     accepts api v entry evaluated
       \<lparr>v_seq = v_seq v + 1, v_prevHash = h, v_state = state',
        v_history = map_option
          (\<lambda>history. recordEntryHash h
             (case evaluated of
                None \<Rightarrow> history
              | Some applied \<Rightarrow> recordHistory applied (v_seq v + 1) state' history))
          (v_history v)\<rparr>"

inductive_cases acceptsE: "accepts api v entry evaluated v'"

lemma verify_step_Accepted:
  assumes "verify_step api v e = Accepted v'"
  obtains entry evaluated where "read_entry e = Some entry" and "accepts api v entry evaluated v'"
proof -
  from assms obtain entry where
    checked: "checkEntryBeforeApply api e (v_seq v + 1) (v_prevHash v) (v_state v) = Accepted entry"
    and app: "apply_checked api entry (v_seq v + 1) v = Accepted v'"
    by (auto simp: verify_step_def fail_def Let_def split: outcome.splits)
  from app obtain h state' evaluated where
    "computeChainEntryHash (api_sha256 api) entry = Some h"
    and "evaluateEntry api entry h (v_state v) = Accepted (state', evaluated)"
    and "v' = \<lparr>v_seq = v_seq v + 1, v_prevHash = h, v_state = state',
        v_history = map_option
          (\<lambda>history. recordEntryHash h
             (case evaluated of
                None \<Rightarrow> history
              | Some applied \<Rightarrow> recordHistory applied (v_seq v + 1) state' history))
          (v_history v)\<rparr>"
    by (auto simp: apply_checked_def fail_def split: option.splits outcome.splits)
  with checked_passes [OF checked] show ?thesis
    by (auto intro: that accepts_entry)
qed

section \<open>Sequences of accepted entries\<close>

inductive reached ::
  "crypto_api \<Rightarrow> chain_history_builder option \<Rightarrow> chain_entry list \<Rightarrow> verifier \<Rightarrow> bool" for api history where
  reached_start: "reached api history [] (start_verifier history)"
| reached_next:
    "reached api history es v \<Longrightarrow> accepts api v entry evaluated v' \<Longrightarrow>
     reached api history (es @ [entry]) v'"

inductive_cases reached_NilE: "reached api history [] v"
inductive_cases reached_snocE: "reached api history (es @ [e]) v"

lemma reached_seq: "reached api history es v \<Longrightarrow> v_seq v = int (length es)"
  by (induction rule: reached.induct) (auto simp: start_verifier_def elim: acceptsE)

lemma run_reached:
  assumes "run_loop (verify_step api) (start_verifier history) vs = Accepted v"
  shows "\<exists>es. map read_entry vs = map Some es \<and> reached api history es v"
  using assms
proof (induction vs arbitrary: v rule: rev_induct)
  case Nil
  then show ?case by (auto intro: reached_start)
next
  case (snoc e vs)
  from snoc.prems obtain u where "run_loop (verify_step api) (start_verifier history) vs = Accepted u"
    and step: "verify_step api u e = Accepted v"
    by (auto simp: run_loop_snoc_Accepted)
  then obtain es where es: "map read_entry vs = map Some es" "reached api history es u"
    using snoc.IH by blast
  from step obtain entry evaluated where "read_entry e = Some entry" "accepts api u entry evaluated v"
    by (rule verify_step_Accepted)
  with es show ?case
    by (intro exI [of _ "es @ [entry]"]) (auto intro: reached_next)
qed

text \<open>An induction over the accepted entries from a state invariant: the entry applied last is named.\<close>

lemma reached_invariant:
  assumes "reached api history es v"
    and "J (start_verifier history)"
    and "\<And>v entry evaluated v'. J v \<Longrightarrow> accepts api v entry evaluated v' \<Longrightarrow> J v'"
  shows "J v"
  using assms by (induction rule: reached.induct) blast+

lemma reached_take:
  assumes "reached api history es v"
  shows "\<exists>u. reached api history (take n es) u"
  using assms
proof (induction rule: reached.induct)
  case reached_start
  show ?case using reached.reached_start by auto
next
  case (reached_next es v entry evaluated v')
  show ?case
  proof (cases "n \<le> length es")
    case False
    then have "take n (es @ [entry]) = es @ [entry]" by simp
    with reached_next show ?thesis by (metis reached.reached_next)
  qed (use reached_next in auto)
qed

interpretation verify_loop: total_loop "verify_step api" "\<lambda>_. True" for api
  by unfold_locales (simp_all add: verify_step_not_Threw)

lemma copy_map_id: "keys_ok m \<Longrightarrow> copy_map m = m"
proof -
  have "keys_ok (acc @ m) \<Longrightarrow> fold (\<lambda>(k, v). AList.update k v) m acc = acc @ m" for acc
  proof (induction m arbitrary: acc)
    case (Cons p m)
    obtain k v where p: "p = (k, v)" by (cases p)
    with Cons.prems have "k \<notin> fst ` set acc" by (auto simp: keys_ok_def)
    then have "AList.update k v acc = acc @ [p]"
      using p by (induction acc) auto
    with Cons p show ?case by simp
  qed simp
  from this [of "[]"] show "keys_ok m \<Longrightarrow> copy_map m = m" by (simp add: copy_map_def)
qed

end
