(* ===== verification/Chain_Invariant.thy ===== *)
theory Chain_Invariant
  imports Chain_Steps
begin

text \<open>
  The consistency of the verifier's state, one predicate per map over the fields it relates, and
  the lemmas that every operation which passed the consensus rules keeps them.
\<close>

section \<open>The predicates\<close>

definition device_ok :: "(bytes \<Rightarrow> bytes) \<Rightarrow> int \<Rightarrow> fingerprint \<Rightarrow> chain_device \<Rightarrow> bool" where
  "device_ok sha256 n fp d \<longleftrightarrow>
     keyFingerprintHex d = fp \<and> fp = userFingerprintHex sha256 (encPubHex d) (sigPubHex d) \<and>
     hex_of_length 32 (encPubHex d) \<and> hex_of_length 32 (sigPubHex d) \<and> addedSeq d \<le> n"

definition member_ok :: "(bytes \<Rightarrow> bytes) \<Rightarrow> int \<Rightarrow> user_id \<Rightarrow> chain_member \<Rightarrow> bool" where
  "member_ok sha256 n u m \<longleftrightarrow>
     mem_userId m = u \<and> keys_ok (devices m) \<and> devices m \<noteq> [] \<and>
     js.everywhere (device_ok sha256 n) (devices m) \<and>
     (mem_role m = Owner \<longrightarrow> mem_scope m = AllScope)"

definition members_ok :: "(bytes \<Rightarrow> bytes) \<Rightarrow> int \<Rightarrow> (user_id, chain_member) js_map \<Rightarrow> bool" where
  "members_ok sha256 n ms \<longleftrightarrow> keys_ok ms \<and> js.everywhere (member_ok sha256 n) ms"

text \<open>Every key of a current device is indexed, and none is a server key a grant has named.\<close>

definition index_ok ::
  "(user_id, chain_member) js_map \<Rightarrow> ustr set \<Rightarrow> ustr set \<Rightarrow> (ustr, fingerprint) js_map \<Rightarrow> bool" where
  "index_ok ms encs sigs named \<longleftrightarrow>
     (\<forall>u f d. device_of ms u f = Some d \<longrightarrow>
        encPubHex d \<in> encs \<and> sigPubHex d \<in> sigs \<and> map_of named (encPubHex d) = None)"

text \<open>A key belongs to at most one current device.\<close>

definition unique_keys :: "(user_id, chain_member) js_map \<Rightarrow> bool" where
  "unique_keys ms \<longleftrightarrow>
     (\<forall>u f d u' f' d'. device_of ms u f = Some d \<longrightarrow> device_of ms u' f' = Some d' \<longrightarrow>
        encPubHex d = encPubHex d' \<or> sigPubHex d = sigPubHex d' \<longrightarrow> u = u' \<and> f = f')"

definition live :: "(environment_id, environment_state) js_map \<Rightarrow> environment_id \<Rightarrow> bool" where
  "live envs e \<longleftrightarrow> (\<exists>env. map_of envs e = Some env \<and> deletedAtSeq env = None)"

definition deleted :: "(environment_id, environment_state) js_map \<Rightarrow> environment_id \<Rightarrow> bool" where
  "deleted envs e \<longleftrightarrow> (\<exists>env. map_of envs e = Some env \<and> deletedAtSeq env \<noteq> None)"

definition grant_ok ::
  "(bytes \<Rightarrow> bytes) \<Rightarrow> int \<Rightarrow> (environment_id, environment_state) js_map \<Rightarrow> (ustr, fingerprint) js_map \<Rightarrow>
   fingerprint \<Rightarrow> server_grant \<Rightarrow> bool" where
  "grant_ok sha256 n envs named fp g \<longleftrightarrow>
     serverKeyFingerprintHex g = fp \<and> fp = serverFingerprintHex sha256 (serverEncPubHex g) \<and>
     map_of named (serverEncPubHex g) = Some fp \<and> grantSeq g \<le> n \<and>
     (\<forall>e \<in> set (grant_scopeEnvironmentIds g). \<not> deleted envs e)"

definition grants_ok where
  "grants_ok sha256 n envs named grants \<longleftrightarrow>
     keys_ok grants \<and> js.everywhere (grant_ok sha256 n envs named) grants"

definition environment_ok :: "int \<Rightarrow> environment_state \<Rightarrow> bool" where
  "environment_ok n env \<longleftrightarrow>
     1 \<le> currentEpoch env \<and>
     (\<forall>k. map_has (epochStartSeqs env) k \<longleftrightarrow> 1 \<le> k \<and> k \<le> currentEpoch env) \<and>
     (\<forall>k. map_has (dekCommitments env) k \<longleftrightarrow> 1 \<le> k \<and> k \<le> currentEpoch env) \<and>
     map_of (epochStartSeqs env) 1 = Some (createdAtSeq env) \<and>
     (\<forall>j k s t. map_of (epochStartSeqs env) j = Some s \<longrightarrow> map_of (epochStartSeqs env) k = Some t \<longrightarrow>
        j < k \<longrightarrow> s < t) \<and>
     (\<forall>k s. map_of (epochStartSeqs env) k = Some s \<longrightarrow>
        s \<le> n \<and> (\<forall>d. deletedAtSeq env = Some d \<longrightarrow> s < d)) \<and>
     (\<forall>d. deletedAtSeq env = Some d \<longrightarrow> d \<le> n)"

definition environments_ok :: "int \<Rightarrow> (environment_id, environment_state) js_map \<Rightarrow> bool" where
  "environments_ok n envs \<longleftrightarrow> keys_ok envs \<and> js.everywhere (\<lambda>_. environment_ok n) envs"

definition scope_live :: "(environment_id, environment_state) js_map \<Rightarrow> member_scope \<Rightarrow> bool" where
  "scope_live envs s \<longleftrightarrow> (\<forall>ids. s = ListedScope ids \<longrightarrow> (\<forall>e \<in> set ids. live envs e))"

definition scopes_ok ::
  "(environment_id, environment_state) js_map \<Rightarrow> (user_id, chain_member) js_map \<Rightarrow> bool" where
  "scopes_ok envs ms \<longleftrightarrow>
     (\<forall>u m. map_of ms u = Some m \<longrightarrow> scope_live envs (mem_scope m)) \<and>
     (\<forall>u f d. device_of ms u f = Some d \<longrightarrow> scope_live envs (cap_scope d))"

definition checkpoint_ok ::
  "int \<Rightarrow> (environment_id, environment_state) js_map \<Rightarrow> environment_id \<Rightarrow> environment_checkpoint_state \<Rightarrow> bool" where
  "checkpoint_ok n envs e c \<longleftrightarrow>
     live envs e \<and> 1 \<le> chk_manifestVersion c \<and> chk_seq c \<le> n \<and>
     (\<forall>env. map_of envs e = Some env \<longrightarrow> chk_epoch c \<le> currentEpoch env)"

definition checkpoints_ok where
  "checkpoints_ok n envs cks \<longleftrightarrow> keys_ok cks \<and> js.everywhere (checkpoint_ok n envs) cks"

definition owners :: "(user_id, chain_member) js_map \<Rightarrow> user_id set" where
  "owners ms = {u. \<exists>m. map_of ms u = Some m \<and> mem_role m = Owner}"

text \<open>There is an owner once the chain has begun, and an active policy can reach its quorum.\<close>

definition policy_ok :: "int \<Rightarrow> (user_id, chain_member) js_map \<Rightarrow> approval_policy option \<Rightarrow> bool" where
  "policy_ok n ms policy \<longleftrightarrow>
     (1 \<le> n \<longrightarrow> 1 \<le> card (owners ms)) \<and>
     (\<forall>p. policy = Some p \<longrightarrow>
        MIN_ACTIVE_REQUIRED_APPROVALS \<le> pol_requiredApprovals p \<and>
        pol_requiredApprovals p \<le> int (card (owners ms)) \<and> distinct (pol_ops p))"

definition pending_ok :: "int \<Rightarrow> ustr \<Rightarrow> pending_proposal \<Rightarrow> bool" where
  "pending_ok n h p \<longleftrightarrow>
     proposalHashHex p = h \<and> proposable_ok (inner_operation p) \<and> proposalSeq p \<le> n"

definition pendings_ok :: "int \<Rightarrow> (ustr, pending_proposal) js_map \<Rightarrow> bool" where
  "pendings_ok n ps \<longleftrightarrow> keys_ok ps \<and> js.everywhere (pending_ok n) ps"

definition state_ok :: "(bytes \<Rightarrow> bytes) \<Rightarrow> int \<Rightarrow> mutable_chain_state \<Rightarrow> bool" where
  "state_ok sha256 n st \<longleftrightarrow>
     members_ok sha256 n (members st) \<and>
     index_ok (members st) (memberEncPubs st) (memberSigPubs st) (namedServerKeys st) \<and>
     unique_keys (members st) \<and>
     grants_ok sha256 n (environments st) (namedServerKeys st) (serverGrants st) \<and>
     keys_ok (namedServerKeys st) \<and>
     environments_ok n (environments st) \<and>
     scopes_ok (environments st) (members st) \<and>
     checkpoints_ok n (environments st) (checkpoints st) \<and>
     policy_ok n (members st) (approvalPolicy st) \<and>
     pendings_ok n (pendingProposals st)"

section \<open>Reading the updated maps\<close>

lemma device_of_update [simp]:
  "device_of (AList.update u m ms) u' f = (if u' = u then map_of (devices m) f else device_of ms u' f)"
  by (simp add: device_of_def)

lemma device_of_delete [simp]:
  "device_of (AList.delete u ms) u' f = (if u' = u then None else device_of ms u' f)"
  by (simp add: device_of_def)

lemma device_of_Nil [simp]: "device_of [] u f = None"
  by (simp add: device_of_def)

lemma device_of_member: "map_of ms u = Some m \<Longrightarrow> device_of ms u f = map_of (devices m) f"
  by (simp add: device_of_def)

lemma device_of_SomeE:
  assumes "device_of ms u f = Some d"
  obtains m where "map_of ms u = Some m" and "map_of (devices m) f = Some d"
  using assms by (auto simp: device_of_def Option.bind_eq_Some_conv)

lemma owners_update:
  "owners (AList.update u m ms) = (if mem_role m = Owner then insert u (owners ms) else owners ms - {u})"
  by (auto simp: owners_def)

lemma owners_delete [simp]: "owners (AList.delete u ms) = owners ms - {u}"
  by (auto simp: owners_def)

lemma finite_owners [simp]: "finite (owners ms)"
  unfolding owners_def by (rule finite_map_of_where)

lemma ownersCount_card: "keys_ok (members st) \<Longrightarrow> ownersCount st = card (owners (members st))"
  by (simp add: ownersCount_def owners_def count_values_card)

lemma in_owners: "u \<in> owners ms \<longleftrightarrow> (\<exists>m. map_of ms u = Some m \<and> mem_role m = Owner)"
  by (simp add: owners_def)

lemma isDeletedEnvironment_iff: "isDeletedEnvironment st e \<longleftrightarrow> deleted (environments st) e"
  by (auto simp: isDeletedEnvironment_def deleted_def bind_eq_None_conv split: option.splits)

lemma live_iff: "live envs e \<longleftrightarrow> map_has envs e \<and> \<not> deleted envs e"
  by (auto simp: live_def deleted_def map_has_def)

lemma scopeEnvironmentsReason_None:
  "scopeEnvironmentsReason ids st = None \<longleftrightarrow> (\<forall>e \<in> set ids. live (environments st) e)"
  by (auto simp: scopeEnvironmentsReason_def live_iff list_ex_iff isDeletedEnvironment_iff)

lemma fold_update_keys:
  assumes "keys_ok (acc @ ms)" and "\<And>k v. (k, v) \<in> set ms \<Longrightarrow> key v = k"
  shows "fold (\<lambda>v. AList.update (key v) (f v)) (map snd ms) (acc @ ms) = acc @ map_entries f ms"
  using assms
proof (induction ms arbitrary: acc)
  case (Cons p ms)
  obtain k v where p: "p = (k, v)" by (cases p)
  have k: "key v = k" using Cons.prems(2) p by simp
  have "k \<notin> fst ` set acc" using Cons.prems(1) p by (auto simp: keys_ok_def)
  then have "AList.update k (f v) (acc @ (k, v) # ms) = (acc @ [(k, f v)]) @ ms"
    by (induction acc) auto
  moreover have "fold (\<lambda>v. AList.update (key v) (f v)) (map snd ms) ((acc @ [(k, f v)]) @ ms)
      = (acc @ [(k, f v)]) @ map_entries f ms"
    by (rule Cons.IH) (use Cons.prems p in \<open>simp_all add: keys_ok_def\<close>)
  ultimately show ?case by (simp add: p k)
qed simp

lemma fold_update_values:
  "keys_ok ms \<Longrightarrow> (\<And>k v. (k, v) \<in> set ms \<Longrightarrow> key v = k) \<Longrightarrow>
   fold (\<lambda>v. AList.update (key v) (f v)) (map snd ms) ms = map_entries f ms"
  using fold_update_keys [of "[]" ms key f] by simp

lemma fold_update_fresh:
  "keys_ok (acc @ m) \<Longrightarrow> fold (\<lambda>(k, v). AList.update k (f v)) m acc = acc @ map_entries f m"
proof (induction m arbitrary: acc)
  case (Cons p m)
  obtain k v where p: "p = (k, v)" by (cases p)
  with Cons.prems have "k \<notin> fst ` set acc" by (auto simp: keys_ok_def)
  then have "AList.update k (f v) acc = acc @ [(k, f v)]"
    by (induction acc) auto
  with Cons p show ?case by (simp add: keys_ok_def)
qed simp

lemma devices_prune_member: "keys_ok (devices m) \<Longrightarrow> devices (prune_member e m) = map_entries (prune_device e) (devices m)"
  using fold_update_fresh [of "[]" "devices m" "prune_device e"] by (simp add: prune_member_def)

section \<open>The invariant and the sequence number\<close>

lemma device_ok_mono: "device_ok sha256 n f d \<Longrightarrow> n \<le> n' \<Longrightarrow> device_ok sha256 n' f d"
  by (simp add: device_ok_def)

lemma member_ok_mono: "member_ok sha256 n u m \<Longrightarrow> n \<le> n' \<Longrightarrow> member_ok sha256 n' u m"
  by (auto simp: member_ok_def elim: js.everywhere_mono intro: device_ok_mono)

lemma members_ok_mono: "members_ok sha256 n ms \<Longrightarrow> n \<le> n' \<Longrightarrow> members_ok sha256 n' ms"
  by (auto simp: members_ok_def elim: js.everywhere_mono intro: member_ok_mono)

lemma grants_ok_mono: "grants_ok sha256 n envs named gs \<Longrightarrow> n \<le> n' \<Longrightarrow> grants_ok sha256 n' envs named gs"
  by (auto simp: grants_ok_def grant_ok_def elim: js.everywhere_mono)

lemma environment_ok_mono: "environment_ok n env \<Longrightarrow> n \<le> n' \<Longrightarrow> environment_ok n' env"
  unfolding environment_ok_def by (meson order_trans)

lemma environments_ok_mono: "environments_ok n envs \<Longrightarrow> n \<le> n' \<Longrightarrow> environments_ok n' envs"
  by (auto simp: environments_ok_def elim: js.everywhere_mono intro: environment_ok_mono)

lemma checkpoints_ok_mono: "checkpoints_ok n envs cks \<Longrightarrow> n \<le> n' \<Longrightarrow> checkpoints_ok n' envs cks"
  by (auto simp: checkpoints_ok_def checkpoint_ok_def elim: js.everywhere_mono)

lemma policy_ok_mono: "policy_ok n ms p \<Longrightarrow> 1 \<le> n \<Longrightarrow> policy_ok n' ms p"
  by (simp add: policy_ok_def)

lemma pendings_ok_mono: "pendings_ok n ps \<Longrightarrow> n \<le> n' \<Longrightarrow> pendings_ok n' ps"
  by (auto simp: pendings_ok_def pending_ok_def elim: js.everywhere_mono)

lemma state_ok_mono:
  "state_ok sha256 n st \<Longrightarrow> 1 \<le> n \<Longrightarrow> n \<le> n' \<Longrightarrow> state_ok sha256 n' st"
  unfolding state_ok_def
  by (blast intro: members_ok_mono grants_ok_mono environments_ok_mono checkpoints_ok_mono
      policy_ok_mono pendings_ok_mono)

lemma members_okD:
  assumes "members_ok sha256 n ms" and "map_of ms u = Some m"
  shows "member_ok sha256 n u m" and "mem_userId m = u" and "keys_ok (devices m)"
proof -
  show ok: "member_ok sha256 n u m"
    using assms by (auto simp: members_ok_def dest: js.everywhere_lookup)
  then show "mem_userId m = u" and "keys_ok (devices m)" by (simp_all add: member_ok_def)
qed

lemma device_okD:
  assumes "members_ok sha256 n ms" and "device_of ms u f = Some d"
  shows "device_ok sha256 n f d"
proof -
  from assms(2) obtain m where m: "map_of ms u = Some m" and d: "map_of (devices m) f = Some d"
    by (rule device_of_SomeE)
  from members_okD(1) [OF assms(1) m] have "js.everywhere (device_ok sha256 n) (devices m)"
    by (simp add: member_ok_def)
  then show ?thesis using d by (rule js.everywhere_lookup)
qed

section \<open>Changes of the member map\<close>

lemma members_ok_update:
  "members_ok sha256 n ms \<Longrightarrow> member_ok sha256 n u m \<Longrightarrow> members_ok sha256 n (AList.update u m ms)"
  by (simp add: members_ok_def js.everywhere_store)

lemma members_ok_delete: "members_ok sha256 n ms \<Longrightarrow> members_ok sha256 n (AList.delete u ms)"
  by (simp add: members_ok_def js.everywhere_remove)

text \<open>
  A device is registered under a new key pair, in the place of at most one device of the same
  fingerprint.
\<close>

lemma index_ok_register:
  assumes "index_ok ms encs sigs named" and "map_of named (encPubHex d) = None"
    and "\<And>u f e. device_of ms' u f = Some e \<Longrightarrow> e = d \<or> device_of ms u f = Some e"
  shows "index_ok ms' (insert (encPubHex d) encs) (insert (sigPubHex d) sigs) named"
  using assms by (auto simp: index_ok_def dest!: assms(3))

lemma unique_keys_register:
  assumes "unique_keys ms" and "index_ok ms encs sigs named"
    and "encPubHex d \<notin> encs" and "sigPubHex d \<notin> sigs"
    and "\<And>u f e. device_of ms' u f = Some e \<Longrightarrow> (u = u0 \<and> f = f0 \<and> e = d) \<or> device_of ms u f = Some e"
  shows "unique_keys ms'"
proof -
  have fresh: "encPubHex e \<noteq> encPubHex d \<and> sigPubHex e \<noteq> sigPubHex d" if "device_of ms u f = Some e" for u f e
    using assms(2-4) that unfolding index_ok_def by metis
  show ?thesis
    unfolding unique_keys_def
  proof (intro allI impI)
    fix u f e u' f' e'
    assume e: "device_of ms' u f = Some e" and e': "device_of ms' u' f' = Some e'"
      and same: "encPubHex e = encPubHex e' \<or> sigPubHex e = sigPubHex e'"
    from assms(5) [OF e] assms(5) [OF e'] same show "u = u' \<and> f = f'"
      using assms(1) fresh unfolding unique_keys_def by metis
  qed
qed

text \<open>Devices are dropped, with their keys taken out of the index.\<close>

lemma index_ok_drop:
  assumes "index_ok ms encs sigs named" and "unique_keys ms"
    and "\<And>u f e. device_of ms' u f = Some e \<Longrightarrow> device_of ms u f = Some e \<and> (u, f) \<notin> gone"
    and "encs' = encs - {encPubHex d |d u f. (u, f) \<in> gone \<and> device_of ms u f = Some d}"
    and "sigs' = sigs - {sigPubHex d |d u f. (u, f) \<in> gone \<and> device_of ms u f = Some d}"
  shows "index_ok ms' encs' sigs' named"
  unfolding index_ok_def
proof (intro allI impI)
  fix u f e
  assume "device_of ms' u f = Some e"
  then have e: "device_of ms u f = Some e" and kept: "(u, f) \<notin> gone" using assms(3) by blast+
  have "encPubHex e \<noteq> encPubHex d \<and> sigPubHex e \<noteq> sigPubHex d"
    if "(u', f') \<in> gone" and "device_of ms u' f' = Some d" for u' f' d
    using assms(2) e kept that unfolding unique_keys_def by metis
  moreover have "encPubHex e \<in> encs \<and> sigPubHex e \<in> sigs \<and> map_of named (encPubHex e) = None"
    using assms(1) e by (simp add: index_ok_def)
  ultimately show "encPubHex e \<in> encs' \<and> sigPubHex e \<in> sigs' \<and> map_of named (encPubHex e) = None"
    using assms(4,5) by auto
qed

lemma unique_keys_subset:
  assumes "unique_keys ms" and "\<And>u f e. device_of ms' u f = Some e \<Longrightarrow> device_of ms u f = Some e"
  shows "unique_keys ms'"
  using assms unfolding unique_keys_def by blast

text \<open>The devices keep their keys: a change of role, of scopes or of caps.\<close>

definition same_keys :: "(user_id, chain_member) js_map \<Rightarrow> (user_id, chain_member) js_map \<Rightarrow> bool" where
  "same_keys ms ms' \<longleftrightarrow> (\<forall>u f e. device_of ms' u f = Some e \<longrightarrow>
     (\<exists>d. device_of ms u f = Some d \<and> encPubHex e = encPubHex d \<and> sigPubHex e = sigPubHex d))"

lemma index_ok_same_keys: "index_ok ms encs sigs named \<Longrightarrow> same_keys ms ms' \<Longrightarrow> index_ok ms' encs sigs named"
  unfolding index_ok_def same_keys_def by metis

lemma unique_keys_same_keys: "unique_keys ms \<Longrightarrow> same_keys ms ms' \<Longrightarrow> unique_keys ms'"
  unfolding unique_keys_def same_keys_def by metis

lemma scopes_ok_update:
  assumes "scopes_ok envs ms" and "scope_live envs (mem_scope m)"
    and "\<And>f d. map_of (devices m) f = Some d \<Longrightarrow> scope_live envs (cap_scope d)"
  shows "scopes_ok envs (AList.update u m ms)"
  using assms by (auto simp: scopes_ok_def)

lemma scopes_ok_delete: "scopes_ok envs ms \<Longrightarrow> scopes_ok envs (AList.delete u ms)"
  by (auto simp: scopes_ok_def)

lemma scope_live_simps [simp]:
  "scope_live envs AllScope"
  "scope_live envs ALL_SCOPE"
  "scope_live envs (ListedScope ids) \<longleftrightarrow> (\<forall>e \<in> set ids. live envs e)"
  by (auto simp: scope_live_def ALL_SCOPE_def)

lemma scope_live_memberScopeOf:
  "\<forall>e \<in> set (scopeEnvironmentIds p). live envs e \<Longrightarrow> scope_live envs (memberScopeOf p)"
  by (simp add: memberScopeOf_def split: scope_kind.split)

lemma policy_ok_update:
  assumes "policy_ok n ms policy" and "mem_role m = Owner \<or> u \<notin> owners ms"
  shows "policy_ok n (AList.update u m ms) policy"
proof -
  have "owners ms \<subseteq> owners (AList.update u m ms)"
    using assms(2) by (auto simp: owners_update)
  then have "card (owners ms) \<le> card (owners (AList.update u m ms))"
    by (rule card_mono [OF finite_owners])
  with assms(1) show ?thesis by (fastforce simp: policy_ok_def)
qed

text \<open>An owner leaves the owner set under last-owner protection and a reachable quorum.\<close>

lemma policy_ok_remove_owner:
  assumes "policy_ok n ms policy" and "u \<in> owners ms" and "card (owners ms) \<noteq> 1"
    and "\<And>p. policy = Some p \<Longrightarrow>
      pol_requiredApprovals p = 0 \<or> pol_requiredApprovals p \<le> int (card (owners ms)) - 1"
    and "owners ms' = owners ms - {u}"
  shows "policy_ok n ms' policy"
proof -
  have "card (owners ms) \<noteq> 0" using assms(2) by auto
  moreover have "card (owners ms') = card (owners ms) - 1"
    using assms(2,5) by simp
  ultimately show ?thesis
    using assms(1,3) assms(4)
    by (fastforce simp: policy_ok_def MIN_ACTIVE_REQUIRED_APPROVALS_def of_nat_diff)
qed

end
