(* ===== verification/Chain_Preserve.thy ===== *)
theory Chain_Preserve
  imports Chain_Invariant
begin

text \<open>
  Every operation that passed its consensus rules keeps the state consistent, one lemma per
  operation and then for the evaluation of any entry and for the whole loop.
\<close>

lemma state_okD:
  assumes "state_ok sha256 n st"
  shows "members_ok sha256 n (members st)"
    and "index_ok (members st) (memberEncPubs st) (memberSigPubs st) (namedServerKeys st)"
    and "unique_keys (members st)"
    and "grants_ok sha256 n (environments st) (namedServerKeys st) (serverGrants st)"
    and "keys_ok (namedServerKeys st)"
    and "environments_ok n (environments st)"
    and "scopes_ok (environments st) (members st)"
    and "checkpoints_ok n (environments st) (checkpoints st)"
    and "policy_ok n (members st) (approvalPolicy st)"
    and "pendings_ok n (pendingProposals st)"
    and "keys_ok (members st)"
  using assms by (simp_all add: state_ok_def members_ok_def)

lemma state_okI:
  assumes "members_ok sha256 n (members st)"
    and "index_ok (members st) (memberEncPubs st) (memberSigPubs st) (namedServerKeys st)"
    and "unique_keys (members st)"
    and "grants_ok sha256 n (environments st) (namedServerKeys st) (serverGrants st)"
    and "keys_ok (namedServerKeys st)"
    and "environments_ok n (environments st)"
    and "scopes_ok (environments st) (members st)"
    and "checkpoints_ok n (environments st) (checkpoints st)"
    and "policy_ok n (members st) (approvalPolicy st)"
    and "pendings_ok n (pendingProposals st)"
  shows "state_ok sha256 n st"
  using assms by (simp add: state_ok_def)

lemma everywhere_single [simp]: "js.everywhere P [(k, v)] \<longleftrightarrow> P k v"
  by (auto simp: js.everywhere_def)

lemma everywhere_Nil [simp]: "js.everywhere P []"
  by (simp add: js.everywhere_def)

lemma scopes_ok_device:
  assumes "scopes_ok envs ms" and "map_of ms u = Some m"
  shows "scope_live envs (mem_scope m)"
    and "map_of (devices m) f = Some d \<Longrightarrow> scope_live envs (cap_scope d)"
  using assms device_of_member [OF assms(2), of f] by (auto simp: scopes_ok_def)

section \<open>Members and devices\<close>

lemma registersTakenKey_None:
  "\<not> registersTakenKey st enc sig \<longleftrightarrow>
     enc \<notin> memberEncPubs st \<and> sig \<notin> memberSigPubs st \<and> map_of (namedServerKeys st) enc = None"
  by (simp add: registersTakenKey_def)

lemma memberScopeReason_None:
  assumes "memberScopeReason operation p r actor target st = None"
  shows "\<forall>e \<in> set (scopeEnvironmentIds p). live (environments st) e"
    and "r = Owner \<Longrightarrow> memberScopeOf p = AllScope"
    and "scopeContainsEnvironmentSet (actor_scope actor) (permissionChangeEnvironments operation target)"
  using assms
  by (auto simp: memberScopeReason_def scopeEnvironmentsReason_None scopeRoleReason_def memberScopeOf_def
      ALL_SCOPE_def split: if_splits scope_kind.splits)

lemma firstDeviceOf_simps [simp]:
  "keyFingerprintHex (firstDeviceOf e s f k) = f"
  "encPubHex (firstDeviceOf e s f k) = e"
  "sigPubHex (firstDeviceOf e s f k) = s"
  "addedSeq (firstDeviceOf e s f k) = k"
  "roleCap (firstDeviceOf e s f k) = Owner"
  "cap_scope (firstDeviceOf e s f k) = AllScope"
  by (simp_all add: firstDeviceOf_def FIRST_DEVICE_CAP_def ALL_SCOPE_def)

lemma apply_add_member_ok:
  assumes ok: "state_ok sha256 n st" and n: "1 \<le> n"
    and reason: "addMemberReason p actor st = None" and wf: "proposable_ok (Add_Member p)"
  shows "state_ok sha256 (n + 1) (applyAddMember sha256 p (n + 1) st)"
proof -
  have ok': "state_ok sha256 (n + 1) st" using state_ok_mono [OF ok n] by simp
  note D = state_okD [OF ok']
  let ?d = "firstDeviceOf (am_encPubHex p) (am_sigPubHex p)
              (userFingerprintHex sha256 (am_encPubHex p) (am_sigPubHex p)) (n + 1)"
  let ?m = "\<lparr>mem_userId = am_targetUserId p, mem_role = am_role p, mem_scope = memberScopeOf p,
             devices = [(keyFingerprintHex ?d, ?d)]\<rparr>"
  let ?ms = "AList.update (am_targetUserId p) ?m (members st)"
  from reason have new: "map_of (members st) (am_targetUserId p) = None"
    and fresh: "\<not> registersTakenKey st (am_encPubHex p) (am_sigPubHex p)"
    and scoped: "memberScopeReason (Add_Member p) p (am_role p) actor None st = None"
    by (auto simp: addMemberReason_def split: if_splits)
  note S = memberScopeReason_None [OF scoped]
  have one: "device_of ?ms u f = Some e \<Longrightarrow>
      (u = am_targetUserId p \<and> f = keyFingerprintHex ?d \<and> e = ?d) \<or> device_of (members st) u f = Some e" for u f e
    by (auto split: if_splits)
  have "member_ok sha256 (n + 1) (am_targetUserId p) ?m"
    using wf S(2) by (simp add: member_ok_def device_ok_def proposable_ok_def)
  then have "members_ok sha256 (n + 1) ?ms" by (rule members_ok_update [OF D(1)])
  moreover have "index_ok ?ms (insert (encPubHex ?d) (memberEncPubs st)) (insert (sigPubHex ?d) (memberSigPubs st))
      (namedServerKeys st)"
    by (rule index_ok_register [OF D(2)])
      (use fresh in \<open>simp add: registersTakenKey_None\<close>, use one in blast)
  moreover have "unique_keys ?ms"
    by (rule unique_keys_register [OF D(3) D(2), of ?d]) (use fresh one in \<open>auto simp: registersTakenKey_None\<close>)
  moreover have "scopes_ok (environments st) ?ms"
    by (rule scopes_ok_update [OF D(7)])
      (use scope_live_memberScopeOf [OF S(1)] in \<open>auto split: if_splits\<close>)
  moreover have "policy_ok (n + 1) ?ms (approvalPolicy st)"
    by (rule policy_ok_update [OF D(9)]) (use new in \<open>simp add: in_owners\<close>)
  ultimately show ?thesis
    using D by (intro state_okI) (simp_all add: applyAddMember_def set_member_def indexDeviceKeys_def Let_def)
qed

lemma apply_add_device_ok:
  assumes ok: "state_ok sha256 n st" and n: "1 \<le> n"
    and reason: "addDeviceReason p actor st = None" and wf: "proposable_ok (Add_Device p)"
  shows "state_ok sha256 (n + 1) (applyAddDevice sha256 p (n + 1) u0 st)"
proof (cases "map_of (members st) u0")
  case None
  then show ?thesis using state_ok_mono [OF ok n] by (simp add: applyAddDevice_def)
next
  case (Some m)
  have ok': "state_ok sha256 (n + 1) st" using state_ok_mono [OF ok n] by simp
  note D = state_okD [OF ok']
  let ?d = "\<lparr>roleCap = ad_roleCap p, cap_scope = memberScopeOf p,
             keyFingerprintHex = userFingerprintHex sha256 (ad_encPubHex p) (ad_sigPubHex p),
             encPubHex = ad_encPubHex p, sigPubHex = ad_sigPubHex p, addedSeq = n + 1\<rparr>"
  let ?m = "m\<lparr>devices := AList.update (keyFingerprintHex ?d) ?d (devices m)\<rparr>"
  let ?ms = "AList.update u0 ?m (members st)"
  have u: "mem_userId m = u0" and mok: "member_ok sha256 (n + 1) u0 m"
    using members_okD [OF D(1) Some] by simp_all
  from reason have fresh: "\<not> registersTakenKey st (ad_encPubHex p) (ad_sigPubHex p)"
    and ids: "\<forall>e \<in> set (scopeEnvironmentIds p). live (environments st) e"
    by (auto simp: addDeviceReason_def scopeEnvironmentsReason_None split: if_splits)
  have one: "device_of ?ms u f = Some e \<Longrightarrow>
      (u = u0 \<and> f = keyFingerprintHex ?d \<and> e = ?d) \<or> device_of (members st) u f = Some e" for u f e
    using Some by (auto simp: device_of_def split: if_splits)
  have "member_ok sha256 (n + 1) u0 ?m"
    using mok wf by (auto simp: member_ok_def device_ok_def proposable_ok_def intro: js.everywhere_store)
  then have "members_ok sha256 (n + 1) ?ms" by (rule members_ok_update [OF D(1)])
  moreover have "index_ok ?ms (insert (encPubHex ?d) (memberEncPubs st)) (insert (sigPubHex ?d) (memberSigPubs st))
      (namedServerKeys st)"
    by (rule index_ok_register [OF D(2)])
      (use fresh in \<open>simp add: registersTakenKey_None\<close>, use one in blast)
  moreover have "unique_keys ?ms"
    by (rule unique_keys_register [OF D(3) D(2), of ?d]) (use fresh one in \<open>auto simp: registersTakenKey_None\<close>)
  moreover have "scopes_ok (environments st) ?ms"
    by (rule scopes_ok_update [OF D(7)])
      (use scope_live_memberScopeOf [OF ids] scopes_ok_device [OF D(7) Some] in \<open>auto split: if_splits\<close>)
  moreover have "policy_ok (n + 1) ?ms (approvalPolicy st)"
    by (rule policy_ok_update [OF D(9)]) (use Some in \<open>auto simp: in_owners\<close>)
  ultimately show ?thesis
    using D Some u
    by (intro state_okI) (simp_all add: applyAddDevice_def set_member_def indexDeviceKeys_def Let_def)
qed

text \<open>A member keeps its keys and gets a new role and scope.\<close>

lemma resolveTargetedOp_Inr:
  assumes "resolveTargetedOp operation u actor st = Inr target"
  shows "map_of (members st) u = Some target"
    and "targetRoleReason operation actor target = None"
    and "\<not> (ownersRemovedBy operation (Some target) = 1 \<and> ownersCount st = 1)"
  using assms by (auto simp: resolveTargetedOp_def split: option.splits if_splits)

lemma quorum_after:
  assumes "quorumReachableAfter operation st target" and "approvalPolicy st = Some p"
    and "\<And>q. operation \<noteq> Set_Approval_Policy q"
  shows "pol_requiredApprovals p = 0 \<or>
    pol_requiredApprovals p \<le> int (ownersCount st) - int (ownersRemovedBy operation target)"
  using assms by (auto simp: quorumReachableAfter_def Let_def split: proposable_operation.splits)

lemma apply_change_role_ok:
  assumes ok: "state_ok sha256 n st" and n: "1 \<le> n"
    and reason: "changeRoleReason p actor st = None"
  shows "state_ok sha256 (n + 1) (applyChangeRole p st)"
proof -
  have ok': "state_ok sha256 (n + 1) st" using state_ok_mono [OF ok n] by simp
  note D = state_okD [OF ok']
  let ?u = "cr_targetUserId p"
  from reason obtain m where
    res: "resolveTargetedOp (Change_Role p) ?u actor st = Inr m"
    and scoped: "memberScopeReason (Change_Role p) p (cr_newRole p) actor (Some m) st = None"
    and quorum: "quorumReachableAfter (Change_Role p) st (Some m)"
    by (auto simp: changeRoleReason_def split: sum.splits if_splits)
  note R = resolveTargetedOp_Inr [OF res] and S = memberScopeReason_None [OF scoped]
  let ?m = "m\<lparr>mem_role := cr_newRole p, mem_scope := memberScopeOf p\<rparr>"
  let ?ms = "AList.update ?u ?m (members st)"
  have u: "mem_userId m = ?u" and mok: "member_ok sha256 (n + 1) ?u m"
    using members_okD [OF D(1) R(1)] by simp_all
  have keys: "same_keys (members st) ?ms"
    using R(1) by (auto simp: same_keys_def device_of_def)
  have "member_ok sha256 (n + 1) ?u ?m"
    using mok S(2) by (simp add: member_ok_def)
  then have "members_ok sha256 (n + 1) ?ms" by (rule members_ok_update [OF D(1)])
  moreover have "scopes_ok (environments st) ?ms"
    by (rule scopes_ok_update [OF D(7)])
      (use scope_live_memberScopeOf [OF S(1)] scopes_ok_device [OF D(7) R(1)] in auto)
  moreover have "policy_ok (n + 1) ?ms (approvalPolicy st)"
  proof (cases "mem_role m = Owner \<and> cr_newRole p \<noteq> Owner")
    case True
    then have removed: "ownersRemovedBy (Change_Role p) (Some m) = 1" by (simp add: ownersRemovedBy_def)
    show ?thesis
    proof (rule policy_ok_remove_owner [OF D(9), of ?u])
      show "?u \<in> owners (members st)" using True R(1) by (simp add: in_owners)
      show "card (owners (members st)) \<noteq> 1"
        using R(3) removed ownersCount_card [OF D(11)] by simp
      show "pol_requiredApprovals q = 0 \<or> pol_requiredApprovals q \<le> int (card (owners (members st))) - 1"
        if "approvalPolicy st = Some q" for q
        using quorum_after [OF quorum that] removed ownersCount_card [OF D(11)] by simp
      show "owners ?ms = owners (members st) - {?u}" using True by (simp add: owners_update)
    qed
  next
    case False
    then show ?thesis using R(1) by (intro policy_ok_update [OF D(9)]) (auto simp: in_owners)
  qed
  ultimately show ?thesis
    using D R(1) u index_ok_same_keys [OF D(2) keys] unique_keys_same_keys [OF D(3) keys]
    by (intro state_okI) (simp_all add: applyChangeRole_def set_member_def)
qed

text \<open>Taking keys out of the index, one device after another.\<close>

lemma fold_unindex:
  "fold unindexDeviceKeys ds st =
     st\<lparr>memberEncPubs := memberEncPubs st - encPubHex ` set ds,
        memberSigPubs := memberSigPubs st - sigPubHex ` set ds\<rparr>"
proof (induction ds arbitrary: st)
  case (Cons d ds)
  have "X - {x} - Y = X - insert x Y" for x and X Y :: "ustr set" by auto
  moreover have "fold unindexDeviceKeys (d # ds) st = fold unindexDeviceKeys ds (unindexDeviceKeys d st)"
    by simp
  ultimately show ?case by (simp only: Cons.IH) (simp add: unindexDeviceKeys_def)
qed simp

lemma apply_remove_member_ok:
  assumes ok: "state_ok sha256 n st" and n: "1 \<le> n"
    and reason: "removeMemberReason u actor st = None"
  shows "state_ok sha256 (n + 1) (applyRemoveMember u st)"
proof -
  have ok': "state_ok sha256 (n + 1) st" using state_ok_mono [OF ok n] by simp
  note D = state_okD [OF ok']
  from reason obtain m where res: "resolveTargetedOp (Remove_Member u) u actor st = Inr m"
    and quorum: "quorumReachableAfter (Remove_Member u) st (Some m)"
    by (auto simp: removeMemberReason_def split: sum.splits if_splits)
  note R = resolveTargetedOp_Inr [OF res]
  let ?ms = "AList.delete u (members st)"
  have u: "mem_userId m = u" and keys: "keys_ok (devices m)"
    using members_okD [OF D(1) R(1)] by simp_all
  have snds: "set (map snd (devices m)) = {d. \<exists>f. map_of (devices m) f = Some d}"
    using in_set_map_of [OF keys] by (force simp: image_iff)
  let ?gone = "{(v, f). v = u}"
  have "index_ok ?ms (memberEncPubs st - encPubHex ` set (map snd (devices m)))
      (memberSigPubs st - sigPubHex ` set (map snd (devices m))) (namedServerKeys st)"
    by (rule index_ok_drop [OF D(2) D(3), of _ ?gone])
      (use R(1) snds in \<open>auto simp: device_of_def split: if_splits\<close>)
  moreover have "unique_keys ?ms"
    by (rule unique_keys_subset [OF D(3)]) (simp split: if_splits)
  moreover have "policy_ok (n + 1) ?ms (approvalPolicy st)"
  proof (cases "mem_role m = Owner")
    case True
    then have removed: "ownersRemovedBy (Remove_Member u) (Some m) = 1" by (simp add: ownersRemovedBy_def)
    show ?thesis
    proof (rule policy_ok_remove_owner [OF D(9), of u])
      show "u \<in> owners (members st)" using True R(1) by (simp add: in_owners)
      show "card (owners (members st)) \<noteq> 1"
        using R(3) removed ownersCount_card [OF D(11)] by simp
      show "pol_requiredApprovals q = 0 \<or> pol_requiredApprovals q \<le> int (card (owners (members st))) - 1"
        if "approvalPolicy st = Some q" for q
        using quorum_after [OF quorum that] removed ownersCount_card [OF D(11)] by simp
    qed simp
  next
    case False
    then have "owners ?ms = owners (members st)" using R(1) by (auto simp: in_owners)
    then show ?thesis using D(9) by (simp add: policy_ok_def)
  qed
  ultimately show ?thesis
    using D R(1) u members_ok_delete [OF D(1)] scopes_ok_delete [OF D(7)]
    by (intro state_okI) (simp_all add: applyRemoveMember_def fold_unindex)
qed

lemma length_delete: "keys_ok m \<Longrightarrow> map_of m k = Some v \<Longrightarrow> length (AList.delete k m) = length m - 1"
proof (induction m)
  case (Cons p m)
  then have "m \<noteq> []" if "fst p \<noteq> k" using that by (cases p) auto
  with Cons show ?case by (cases p) (auto simp: keys_ok_def delete_idem)
qed simp

lemma revoke_listed_char:
  assumes "keys_ok ds" and "distinct fps" and "\<forall>fp \<in> set fps. \<exists>d. map_of ds fp = Some d"
    and "revoke_listed fps (ds, st) = (ds', st')"
  shows "keys_ok ds' \<and> map_of ds' = (\<lambda>f. if f \<in> set fps then None else map_of ds f) \<and>
    length ds' = length ds - length fps \<and>
    st' = st\<lparr>memberEncPubs := memberEncPubs st - {encPubHex d |d f. f \<in> set fps \<and> map_of ds f = Some d},
             memberSigPubs := memberSigPubs st - {sigPubHex d |d f. f \<in> set fps \<and> map_of ds f = Some d}\<rparr>"
  using assms
proof (induction fps arbitrary: ds st)
  case (Cons fp fps)
  from Cons.prems(3) obtain d where d: "map_of ds fp = Some d" by auto
  have rest: "\<forall>g \<in> set fps. \<exists>e. map_of (AList.delete fp ds) g = Some e"
    using Cons.prems(2,3) by auto
  have IH: "keys_ok ds' \<and>
      map_of ds' = (\<lambda>f. if f \<in> set fps then None else map_of (AList.delete fp ds) f) \<and>
      length ds' = length (AList.delete fp ds) - length fps \<and>
      st' = (unindexDeviceKeys d st)
        \<lparr>memberEncPubs := memberEncPubs (unindexDeviceKeys d st) -
            {encPubHex e |e f. f \<in> set fps \<and> map_of (AList.delete fp ds) f = Some e},
         memberSigPubs := memberSigPubs (unindexDeviceKeys d st) -
            {sigPubHex e |e f. f \<in> set fps \<and> map_of (AList.delete fp ds) f = Some e}\<rparr>"
    by (rule Cons.IH) (use Cons.prems d rest in auto)
  have len: "length (AList.delete fp ds) = length ds - 1"
    using Cons.prems(1) d by (rule length_delete)
  have parts: "{h e |e f. f \<in> set (fp # fps) \<and> map_of ds f = Some e} =
      insert (h d) {h e |e f. f \<in> set fps \<and> map_of (AList.delete fp ds) f = Some e}" for h :: "chain_device \<Rightarrow> ustr"
    using Cons.prems(2) d by auto
  have diff: "X - {x} - Y = X - insert x Y" for x and X Y :: "ustr set" by auto
  show ?case
    using IH len Cons.prems(2) unfolding parts
    by (auto simp: unindexDeviceKeys_def diff fun_eq_iff)
qed simp

lemma apply_revoke_device_ok:
  assumes ok: "state_ok sha256 n st" and n: "1 \<le> n"
    and reason: "revokeDeviceReason p actor st = None" and wf: "proposable_ok (Revoke_Device p)"
  shows "state_ok sha256 (n + 1) (applyRevokeDevice p st)"
proof -
  have ok': "state_ok sha256 (n + 1) st" using state_ok_mono [OF ok n] by simp
  note D = state_okD [OF ok']
  let ?u = "rd_targetUserId p" and ?fps = "rd_deviceFingerprintsHex p"
  from reason obtain m where m: "map_of (members st) ?u = Some m"
    and known: "\<forall>fp \<in> set ?fps. \<exists>d. map_of (devices m) fp = Some d"
    and left: "length ?fps < length (devices m)"
    by (auto simp: revokeDeviceReason_def Let_def list_ex_iff not_less split: option.splits if_splits)
  obtain ds st' where run: "revoke_listed ?fps (devices m, st) = (ds, st')" by fastforce
  have u: "mem_userId m = ?u" and mok: "member_ok sha256 (n + 1) ?u m" and keys: "keys_ok (devices m)"
    using members_okD [OF D(1) m] by simp_all
  have "distinct ?fps" using wf by (simp add: proposable_ok_def)
  note C = revoke_listed_char [OF keys this known run]
  let ?m = "m\<lparr>devices := ds\<rparr>"
  let ?ms = "AList.update ?u ?m (members st)"
  have sub: "map_of ds f = Some d \<Longrightarrow> map_of (devices m) f = Some d" for f d
    using C by (auto split: if_splits)
  have "ds \<noteq> []" using C left by auto
  moreover have "js.everywhere (device_ok sha256 (n + 1)) ds"
    using mok sub by (auto simp: member_ok_def js.everywhere_def)
  ultimately have "member_ok sha256 (n + 1) ?u ?m"
    using mok C by (simp add: member_ok_def)
  then have "members_ok sha256 (n + 1) ?ms" by (rule members_ok_update [OF D(1)])
  moreover have "index_ok ?ms (memberEncPubs st') (memberSigPubs st') (namedServerKeys st)"
    by (rule index_ok_drop [OF D(2) D(3), of _ "{(v, f). v = ?u \<and> f \<in> set ?fps}"])
      (use C m in \<open>auto simp: device_of_def split: if_splits\<close>)
  moreover have "unique_keys ?ms"
    by (rule unique_keys_subset [OF D(3)]) (use sub m in \<open>auto simp: device_of_def split: if_splits\<close>)
  moreover have "scopes_ok (environments st) ?ms"
    by (rule scopes_ok_update [OF D(7)]) (use scopes_ok_device [OF D(7) m] sub in auto)
  moreover have "policy_ok (n + 1) ?ms (approvalPolicy st)"
    by (rule policy_ok_update [OF D(9)]) (use m in \<open>auto simp: in_owners\<close>)
  ultimately show ?thesis
    using D C m u run
    by (intro state_okI) (simp_all add: applyRevokeDevice_def set_member_def)
qed

section \<open>Server grants\<close>

lemma apply_grant_server_ok:
  assumes ok: "state_ok sha256 n st" and n: "1 \<le> n"
    and reason: "grantServerReason sha256 p st = None"
  shows "state_ok sha256 (n + 1) (applyGrantServer p (n + 1) st)"
proof -
  have ok': "state_ok sha256 (n + 1) st" using state_ok_mono [OF ok n] by simp
  note D = state_okD [OF ok']
  let ?enc = "gs_serverEncPubHex p" and ?fp = "gs_serverKeyFingerprintHex p"
  let ?named = "AList.update ?enc ?fp (namedServerKeys st)"
  from reason have fp: "?fp = serverFingerprintHex sha256 ?enc"
    and alive: "\<forall>e \<in> set (gs_scopeEnvironmentIds p). \<not> deleted (environments st) e"
    and free: "?enc \<notin> memberEncPubs st"
    by (auto simp: grantServerReason_def list_ex_iff isDeletedEnvironment_iff split: if_splits)
  have "js.everywhere (grant_ok sha256 (n + 1) (environments st) (namedServerKeys st)) (serverGrants st)"
    using D(4) by (simp add: grants_ok_def)
  then have "js.everywhere (grant_ok sha256 (n + 1) (environments st) ?named) (serverGrants st)"
    by (rule js.everywhere_mono) (use fp in \<open>auto simp: grant_ok_def\<close>)
  then have "grants_ok sha256 (n + 1) (environments st) ?named (serverGrants (applyGrantServer p (n + 1) st))"
    using D(4) fp alive
    by (auto simp: grants_ok_def applyGrantServer_def grant_ok_def intro!: js.everywhere_store)
  moreover have "index_ok (members st) (memberEncPubs st) (memberSigPubs st) ?named"
    using D(2) free unfolding index_ok_def by (metis fun_upd_other map_of_map_set)
  ultimately show ?thesis
    using D by (intro state_okI) (simp_all add: applyGrantServer_def)
qed

lemma apply_revoke_server_ok:
  assumes ok: "state_ok sha256 n st" and n: "1 \<le> n"
  shows "state_ok sha256 (n + 1) (applyRevokeServer k st)"
proof -
  have ok': "state_ok sha256 (n + 1) st" using state_ok_mono [OF ok n] by simp
  note D = state_okD [OF ok']
  show ?thesis
    using D by (intro state_okI) (simp_all add: applyRevokeServer_def grants_ok_def js.everywhere_remove)
qed

section \<open>Environments\<close>

lemma grants_ok_envs:
  "grants_ok sha256 n envs named gs \<Longrightarrow> (\<And>e. deleted envs' e \<Longrightarrow> deleted envs e) \<Longrightarrow>
   grants_ok sha256 n envs' named gs"
  unfolding grants_ok_def grant_ok_def js.everywhere_def by blast

lemma scope_live_envs: "scope_live envs s \<Longrightarrow> (\<And>e. live envs e \<Longrightarrow> live envs' e) \<Longrightarrow> scope_live envs' s"
  by (simp add: scope_live_def)

lemma scopes_ok_envs: "scopes_ok envs ms \<Longrightarrow> (\<And>e. live envs e \<Longrightarrow> live envs' e) \<Longrightarrow> scopes_ok envs' ms"
  unfolding scopes_ok_def using scope_live_envs by blast

lemma checkpoints_ok_envs:
  assumes "checkpoints_ok n envs cks"
    and "\<And>e env. live envs e \<Longrightarrow> map_of envs e = Some env \<Longrightarrow>
      \<exists>env'. map_of envs' e = Some env' \<and> deletedAtSeq env' = None \<and> currentEpoch env \<le> currentEpoch env'"
  shows "checkpoints_ok n envs' cks"
proof -
  have "checkpoint_ok n envs' e c" if "checkpoint_ok n envs e c" for e c
  proof -
    from that obtain env where env: "map_of envs e = Some env" "live envs e" "chk_epoch c \<le> currentEpoch env"
      by (auto simp: checkpoint_ok_def live_def)
    from assms(2) [OF env(2,1)] obtain env' where "map_of envs' e = Some env'" "deletedAtSeq env' = None"
      "currentEpoch env \<le> currentEpoch env'" by blast
    with that env show ?thesis by (auto simp: checkpoint_ok_def live_def)
  qed
  with assms(1) show ?thesis by (auto simp: checkpoints_ok_def elim: js.everywhere_mono)
qed

lemma environments_okD: "environments_ok n envs \<Longrightarrow> map_of envs e = Some env \<Longrightarrow> environment_ok n env"
  by (auto simp: environments_ok_def dest: js.everywhere_lookup)

lemma environments_ok_update:
  "environments_ok n envs \<Longrightarrow> environment_ok n env \<Longrightarrow> environments_ok n (AList.update e env envs)"
  by (simp add: environments_ok_def js.everywhere_store)

lemma apply_create_environment_ok:
  assumes ok: "state_ok sha256 n st" and n: "1 \<le> n"
    and reason: "createEnvironmentReason (ce_environmentId p) actor st = None"
  shows "state_ok sha256 (n + 1) (applyCreateEnvironment p (n + 1) st)"
proof -
  have ok': "state_ok sha256 (n + 1) st" using state_ok_mono [OF ok n] by simp
  note D = state_okD [OF ok']
  let ?e = "ce_environmentId p"
  let ?env = "\<lparr>currentEpoch = INITIAL_EPOCH, createdAtSeq = n + 1, deletedAtSeq = None,
       epochStartSeqs = [(INITIAL_EPOCH, n + 1)], dekCommitments = [(INITIAL_EPOCH, ce_dekCommitmentHex p)]\<rparr>"
  let ?envs = "AList.update ?e ?env (environments st)"
  from reason have new: "map_of (environments st) ?e = None"
    by (auto simp: createEnvironmentReason_def split: if_splits)
  have env: "environment_ok (n + 1) ?env"
    by (auto simp: environment_ok_def INITIAL_EPOCH_def map_has_def)
  have "grants_ok sha256 (n + 1) ?envs (namedServerKeys st) (serverGrants st)"
    by (rule grants_ok_envs [OF D(4)]) (auto simp: deleted_def split: if_splits)
  moreover have "scopes_ok ?envs (members st)"
    by (rule scopes_ok_envs [OF D(7)]) (use new in \<open>auto simp: live_def\<close>)
  moreover have "checkpoints_ok (n + 1) ?envs (checkpoints st)"
    by (rule checkpoints_ok_envs [OF D(8)]) (use new in \<open>auto simp: live_def\<close>)
  ultimately show ?thesis
    using D environments_ok_update [OF D(6) env]
    by (intro state_okI) (simp_all add: applyCreateEnvironment_def)
qed

lemma rotated_environment_ok:
  assumes "environment_ok n env" and "deletedAtSeq env = None"
  shows "environment_ok (n + 1) (env\<lparr>currentEpoch := currentEpoch env + 1,
     epochStartSeqs := AList.update (currentEpoch env + 1) (n + 1) (epochStartSeqs env),
     dekCommitments := AList.update (currentEpoch env + 1) c (dekCommitments env)\<rparr>)"
proof -
  have has: "map_has (epochStartSeqs env) k \<longleftrightarrow> 1 \<le> k \<and> k \<le> currentEpoch env"
    "map_has (dekCommitments env) k \<longleftrightarrow> 1 \<le> k \<and> k \<le> currentEpoch env" for k
    using assms(1) by (simp_all add: environment_ok_def)
  have starts: "map_of (epochStartSeqs env) k = Some s \<Longrightarrow> s \<le> n \<and> k \<le> currentEpoch env" for k s
    using assms(1) has(1) [of k] by (auto simp: environment_ok_def)
  have upd: "map_has (AList.update k v m) j \<longleftrightarrow> j = k \<or> map_has m j" for k j and v :: 'v and m
    by (simp add: map_has_def)
  have mono: "map_of (epochStartSeqs env) j = Some s \<Longrightarrow> map_of (epochStartSeqs env) k = Some t \<Longrightarrow>
      j < k \<Longrightarrow> s < t" for j k s t
    using assms(1) unfolding environment_ok_def by blast
  have first: "map_of (epochStartSeqs env) 1 = Some (createdAtSeq env)" and pos: "1 \<le> currentEpoch env"
    using assms(1) by (simp_all add: environment_ok_def)
  have le: "s \<le> n" if "map_of (epochStartSeqs env) k = Some s" for k s using starts [OF that] by simp
  show ?thesis
    using assms(2) first pos starts
    by (auto simp: environment_ok_def upd has simp del: not_map_has dest: mono le starts split: if_splits)
qed

lemma apply_rotate_epoch_ok:
  assumes ok: "state_ok sha256 n st" and n: "1 \<le> n"
    and reason: "rotateEpochReason p actor st = None"
  shows "state_ok sha256 (n + 1) (applyRotateEpoch p (n + 1) st)"
proof -
  have ok': "state_ok sha256 (n + 1) st" using state_ok_mono [OF ok n] by simp
  note D = state_okD [OF ok']
  let ?e = "re_environmentId p"
  from reason obtain env where env: "map_of (environments st) ?e = Some env" and alive: "deletedAtSeq env = None"
    and epoch: "re_newEpoch p = currentEpoch env + 1"
    by (auto simp: rotateEpochReason_def split: option.splits if_splits)
  let ?env = "env\<lparr>currentEpoch := re_newEpoch p,
     epochStartSeqs := AList.update (re_newEpoch p) (n + 1) (epochStartSeqs env),
     dekCommitments := AList.update (re_newEpoch p) (re_dekCommitmentHex p) (dekCommitments env)\<rparr>"
  let ?envs = "AList.update ?e ?env (environments st)"
  have "environment_ok n env" using environments_okD [OF state_okD(6) [OF ok] env] .
  then have "environment_ok (n + 1) ?env"
    using rotated_environment_ok [OF _ alive] by (simp add: epoch)
  then have "environments_ok (n + 1) ?envs" by (rule environments_ok_update [OF D(6)])
  moreover have "grants_ok sha256 (n + 1) ?envs (namedServerKeys st) (serverGrants st)"
    by (rule grants_ok_envs [OF D(4)]) (use alive in \<open>auto simp: deleted_def split: if_splits\<close>)
  moreover have "scopes_ok ?envs (members st)"
    by (rule scopes_ok_envs [OF D(7)]) (use env alive in \<open>auto simp: live_def\<close>)
  moreover have "checkpoints_ok (n + 1) ?envs (checkpoints st)"
    by (rule checkpoints_ok_envs [OF D(8)]) (use env epoch alive in \<open>auto simp: live_def\<close>)
  ultimately show ?thesis
    using D env by (intro state_okI) (simp_all add: applyRotateEpoch_def)
qed

text \<open>Deletion prunes the environment from every scope.\<close>

lemma live_after_delete:
  assumes "map_of envs e = Some env"
  shows "live (AList.update e (env\<lparr>deletedAtSeq := Some d\<rparr>) envs) x \<longleftrightarrow> live envs x \<and> x \<noteq> e"
    and "deleted (AList.update e (env\<lparr>deletedAtSeq := Some d\<rparr>) envs) x \<longleftrightarrow> deleted envs x \<or> x = e"
  by (auto simp: live_def deleted_def)

lemma prune_member_simps [simp]:
  "mem_userId (prune_member e m) = mem_userId m"
  "mem_role (prune_member e m) = mem_role m"
  "mem_scope (prune_member e m) = scopeWithout (mem_scope m) e"
  by (simp_all add: prune_member_def)

lemma prune_device_simps [simp]:
  "keyFingerprintHex (prune_device e d) = keyFingerprintHex d"
  "encPubHex (prune_device e d) = encPubHex d"
  "sigPubHex (prune_device e d) = sigPubHex d"
  "addedSeq (prune_device e d) = addedSeq d"
  "roleCap (prune_device e d) = roleCap d"
  "cap_scope (prune_device e d) = scopeWithout (cap_scope d) e"
  by (simp_all add: prune_device_def)

lemma pruned_members:
  assumes "members_ok sha256 n ms"
  shows "fold (\<lambda>m. AList.update (mem_userId m) (prune_member e m)) (map snd ms) ms = map_entries (prune_member e) ms"
  using assms members_okD(2) [OF assms] in_set_map_of [of ms]
  by (intro fold_update_values) (auto simp: members_ok_def)

lemma device_of_pruned:
  assumes "members_ok sha256 n ms"
  shows "device_of (map_entries (prune_member e) ms) u f = map_option (prune_device e) (device_of ms u f)"
proof (cases "map_of ms u")
  case (Some m)
  with members_okD(3) [OF assms Some] show ?thesis by (simp add: device_of_def devices_prune_member)
qed (simp add: device_of_def)

lemma members_ok_pruned:
  assumes "members_ok sha256 n ms"
  shows "members_ok sha256 n (map_entries (prune_member e) ms)"
proof -
  have "member_ok sha256 n u (prune_member e m)" if m: "map_of ms u = Some m" for u m
    using members_okD(1) [OF assms m] devices_prune_member [of m e]
    by (auto simp: member_ok_def device_ok_def js.everywhere_def)
  with assms show ?thesis by (auto simp: members_ok_def js.everywhere_def)
qed

lemma scope_live_pruned:
  assumes "scope_live envs s" and "\<And>x. live envs x \<Longrightarrow> x \<noteq> e \<Longrightarrow> live envs' x"
  shows "scope_live envs' (scopeWithout s e)"
  using assms by (cases s) auto

lemma apply_delete_environment_ok:
  assumes ok: "state_ok sha256 n st" and n: "1 \<le> n"
    and reason: "deleteEnvironmentReason e actor st = None"
  shows "state_ok sha256 (n + 1) (applyDeleteEnvironment e (n + 1) st)"
proof -
  have ok': "state_ok sha256 (n + 1) st" using state_ok_mono [OF ok n] by simp
  note D = state_okD [OF ok']
  from reason obtain env where env: "map_of (environments st) e = Some env" and alive: "deletedAtSeq env = None"
    by (auto simp: deleteEnvironmentReason_def liveEnvironmentReason_def isDeletedEnvironment_def map_has_def
        split: if_splits)
  let ?env = "env\<lparr>deletedAtSeq := Some (n + 1)\<rparr>"
  let ?envs = "AList.update e ?env (environments st)"
  let ?ms = "map_entries (prune_member e) (members st)"
  let ?gs = "map_entries (prune_grant e) (serverGrants st)"
  note L = live_after_delete [OF env, of "n + 1"]
  have base: "environment_ok n env" using environments_okD [OF state_okD(6) [OF ok] env] .
  then have starts: "map_of (epochStartSeqs env) k = Some s \<Longrightarrow> s < n + 1 \<and> s \<le> n + 1" for k s
    by (force simp: environment_ok_def)
  from base have "environment_ok (n + 1) ?env"
    unfolding environment_ok_def by (auto dest: starts)
  then have "environments_ok (n + 1) ?envs" by (rule environments_ok_update [OF D(6)])
  moreover have keys: "same_keys (members st) ?ms"
    by (auto simp: same_keys_def device_of_pruned [OF D(1)])
  moreover have "scopes_ok ?envs ?ms"
    using D(7) by (auto simp: scopes_ok_def device_of_pruned [OF D(1)] L intro!: scope_live_pruned) blast+
  moreover have "owners ?ms = owners (members st)" by (auto simp: owners_def)
  moreover have gs: "fold (\<lambda>g. AList.update (serverKeyFingerprintHex g) (prune_grant e g)) (map snd (serverGrants st)) (serverGrants st) = ?gs"
    using D(4) by (intro fold_update_values)
      (auto simp: grants_ok_def grant_ok_def in_set_map_of dest: js.everywhere_lookup)
  moreover have "grants_ok sha256 (n + 1) ?envs (namedServerKeys st) ?gs"
    using D(4) by (auto simp: grants_ok_def js.everywhere_def grant_ok_def prune_grant_def L)
  moreover have "checkpoints_ok (n + 1) ?envs (AList.delete e (checkpoints st))"
    using D(8) by (auto simp: checkpoints_ok_def js.everywhere_def checkpoint_ok_def L)
  ultimately show ?thesis
    using D env members_ok_pruned [OF D(1)] pruned_members [OF D(1)]
      index_ok_same_keys [OF D(2) keys] unique_keys_same_keys [OF D(3) keys]
    by (intro state_okI) (simp_all add: applyDeleteEnvironment_def policy_ok_def)
qed

section \<open>Checkpoints and the policy\<close>

lemma everywhere_fold_update:
  "js.everywhere P m \<Longrightarrow> (\<And>t. t \<in> set ts \<Longrightarrow> P (k t) (v t)) \<Longrightarrow>
   js.everywhere P (fold (\<lambda>t. AList.update (k t) (v t)) ts m)"
  by (induction ts arbitrary: m) (auto intro: js.everywhere_store)

lemma keys_ok_fold_update: "keys_ok m \<Longrightarrow> keys_ok (fold (\<lambda>t. AList.update (k t) (v t)) ts m)"
  by (induction ts arbitrary: m) auto

lemma apply_checkpoint_ok:
  assumes ok: "state_ok sha256 n st" and n: "1 \<le> n"
    and reason: "checkpointReason (cp_environments p) actor st = None" and wf: "proposable_ok (Checkpoint p)"
  shows "state_ok sha256 (n + 1) (applyCheckpoint p (n + 1) st)"
proof -
  have ok': "state_ok sha256 (n + 1) st" using state_ok_mono [OF ok n] by simp
  note D = state_okD [OF ok']
  have tuple: "checkpoint_ok (n + 1) (environments st) (ck_environmentId t) (checkpoint_tuple_state (n + 1) t)"
    if "t \<in> set (cp_environments p)" for t
    using reason wf that
    by (auto simp: checkpointReason_def checkpoint_stage_def list_ex_iff checkpoint_ok_def live_iff
        isDeletedEnvironment_iff checkpoint_tuple_state_def proposable_ok_def checkpoint_entry_ok_def list_all_iff
        split: if_splits)
  have "checkpoints_ok (n + 1) (environments st) (checkpoints (applyCheckpoint p (n + 1) st))"
    using D(8) tuple
    by (auto simp: checkpoints_ok_def applyCheckpoint_def intro: everywhere_fold_update keys_ok_fold_update)
  then show ?thesis
    using D by (intro state_okI) (simp_all add: applyCheckpoint_def)
qed

lemma apply_set_approval_policy_ok:
  assumes ok: "state_ok sha256 n st" and n: "1 \<le> n"
    and quorum: "quorumReachableAfter (Set_Approval_Policy p) st None" and wf: "proposable_ok (Set_Approval_Policy p)"
  shows "state_ok sha256 (n + 1) (applySetApprovalPolicy p st)"
proof -
  have ok': "state_ok sha256 (n + 1) st" using state_ok_mono [OF ok n] by simp
  note D = state_okD [OF ok']
  have "policy_ok (n + 1) (members st) (approvalPolicy (applySetApprovalPolicy p st))"
    using D(9) quorum wf ownersCount_card [OF D(11)]
    by (auto simp: policy_ok_def applySetApprovalPolicy_def quorumReachableAfter_def ownersRemovedBy_def
        proposable_ok_def first_occurrences_def Let_def)
  then show ?thesis
    using D by (intro state_okI) (simp_all add: applySetApprovalPolicy_def)
qed

section \<open>Evaluating an entry\<close>

lemma apply_operation_ok:
  assumes ok: "state_ok sha256 n st" and n: "1 \<le> n"
    and reason: "consensusReason sha256 operation actor st = None" and wf: "proposable_ok operation"
  shows "state_ok sha256 (n + 1) (applyOperation sha256 operation (n + 1) u st)"
proof (cases operation)
  case Genesis
  then show ?thesis using state_ok_mono [OF ok n] by (simp add: applyOperation_def)
next
  case (Set_Approval_Policy p)
  with reason have "quorumReachableAfter (Set_Approval_Policy p) st None"
    by (simp add: consensusReason_def split: if_splits)
  with Set_Approval_Policy wf show ?thesis
    using apply_set_approval_policy_ok [OF ok n] by (simp add: applyOperation_def)
qed (use reason wf in \<open>simp_all add: applyOperation_def consensusReason_def apply_add_member_ok [OF ok n]
      apply_remove_member_ok [OF ok n] apply_change_role_ok [OF ok n] apply_create_environment_ok [OF ok n]
      apply_delete_environment_ok [OF ok n] apply_rotate_epoch_ok [OF ok n] apply_grant_server_ok [OF ok n]
      apply_revoke_server_ok [OF ok n] apply_checkpoint_ok [OF ok n] apply_add_device_ok [OF ok n]
      apply_revoke_device_ok [OF ok n]\<close>)

lemma pending_update_ok:
  assumes "state_ok sha256 n st" and "pendings_ok n ps"
  shows "state_ok sha256 n (st\<lparr>pendingProposals := ps\<rparr>)"
  using assms by (simp add: state_ok_def)

lemma pending_delete_ok: "state_ok sha256 n st \<Longrightarrow> state_ok sha256 n (st\<lparr>pendingProposals := AList.delete h (pendingProposals st)\<rparr>)"
  by (rule pending_update_ok) (auto simp: state_ok_def pendings_ok_def js.everywhere_remove)

text \<open>
  What evaluating an entry other than \<open>genesis\<close> does: an operation that passed the role rule and the
  consensus rules is applied for some actor, after which a proposal may be closed, or the pending
  proposals change and nothing else.
\<close>

lemma evaluateDirect_Accepted:
  "evaluateDirect api operation actor st seq = Accepted (st', ev) \<longleftrightarrow>
     roleReason operation actor = None \<and> \<not> isApprovalTarget operation (approvalPolicy st) \<and>
     consensusReason (api_sha256 api) operation actor st = None \<and>
     st' = applyOperation (api_sha256 api) operation seq (ctx_userId actor) st \<and>
     ev = Some \<lparr>applied_operation = operation, applied_actorUserId = ctx_userId actor\<rparr>"
  by (auto simp: evaluateDirect_def split: option.splits)

lemma evaluatePropose_Accepted:
  "evaluatePropose api p seq h actor st = Accepted (st', ev) \<longleftrightarrow>
     roleReason (pr_inner p) actor = None \<and> isApprovalTarget (pr_inner p) (approvalPolicy st) \<and>
     consensusReason (api_sha256 api) (pr_inner p) actor st = None \<and> ev = None \<and>
     st' = st\<lparr>pendingProposals :=
       AList.update h
         \<lparr>proposalSeq = seq, proposalHashHex = h, proposerUserId = ctx_userId actor,
          proposerKeyFingerprintHex = keyFingerprintHex (ctx_device actor),
          proposerRoleAtProposal = actor_role actor, inner_operation = pr_inner p,
          expiresAtMs = pr_expiresAtMs p, approvals = []\<rparr> (pendingProposals st)\<rparr>"
  by (auto simp: evaluatePropose_def split: option.splits)

lemma completeProposal_Accepted:
  "completeProposal api pending st seq = Accepted (st', ev) \<longleftrightarrow>
     (\<exists>proposer device.
        map_of (members st) (proposerUserId pending) = Some proposer \<and>
        map_of (devices proposer) (proposerKeyFingerprintHex pending) = Some device \<and>
        roleReason (inner_operation pending) (actorContextOf proposer device) = None \<and>
        consensusReason (api_sha256 api) (inner_operation pending) (actorContextOf proposer device) st = None \<and>
        (let st1 = applyOperation (api_sha256 api) (inner_operation pending) seq (mem_userId proposer) st in
         st' = st1\<lparr>pendingProposals := AList.delete (proposalHashHex pending) (pendingProposals st1)\<rparr>) \<and>
        ev = Some \<lparr>applied_operation = inner_operation pending, applied_actorUserId = mem_userId proposer\<rparr>)"
  by (auto simp: completeProposal_def Let_def split: option.splits if_splits)

lemma evaluateApprove_Accepted:
  assumes "evaluateApprove api h seq t actor st = Accepted (st', ev)"
  obtains pending signature where "actor_role actor = Owner"
    and "map_of (pendingProposals st) h = Some pending"
    and "approveVoteReason t actor pending st = None"
    and "signature = \<lparr>vote_userId = ctx_userId actor, vote_keyFingerprintHex = keyFingerprintHex (ctx_device actor)\<rparr>"
    and "\<not> quorum_reached (approvalPolicy st) (countOwnerVotes st (approvalSignersOf pending @ [signature])) \<and>
           ev = None \<and>
           st' = st\<lparr>pendingProposals :=
             AList.update h (pending\<lparr>approvals := approvals pending @ [signature]\<rparr>) (pendingProposals st)\<rparr>
       \<or> quorum_reached (approvalPolicy st) (countOwnerVotes st (approvalSignersOf pending @ [signature])) \<and>
           completeProposal api pending st seq = Accepted (st', ev)"
  using assms by (auto simp: evaluateApprove_def Let_def split: option.splits if_splits)

lemma evaluateWithdraw_Accepted:
  "evaluateWithdraw h actor st = Accepted (st', ev) \<longleftrightarrow>
     (\<exists>p. map_of (pendingProposals st) h = Some p \<and>
        (actor_role actor = Owner \<or> proposerUserId p = ctx_userId actor) \<and> ev = None \<and>
        st' = st\<lparr>pendingProposals := AList.delete (proposalHashHex p) (pendingProposals st)\<rparr>)"
  by (auto simp: evaluateWithdraw_def Let_def split: option.splits if_splits)

definition is_genesis :: "chain_operation \<Rightarrow> bool" where
  "is_genesis operation = (case operation of Direct (Genesis _) \<Rightarrow> True | _ \<Rightarrow> False)"

lemma is_genesis_name: "is_genesis operation \<longleftrightarrow> op_name operation = lit ''genesis''"
  by (simp add: is_genesis_def op_name_def proposable_op_name_def
      split: chain_operation.split proposable_operation.split)

definition evaluate_as ::
  "crypto_api \<Rightarrow> chain_entry \<Rightarrow> ustr \<Rightarrow> actor_context \<Rightarrow> mutable_chain_state \<Rightarrow> evaluation" where
  "evaluate_as api entry h actor st = (case entry_operation entry of
     Propose p \<Rightarrow> evaluatePropose api p (entry_seq entry) h actor st
   | Approve k \<Rightarrow> evaluateApprove api k (entry_seq entry) (entry_timestampMs entry) actor st
   | Withdraw k \<Rightarrow> evaluateWithdraw k actor st
   | Direct inner \<Rightarrow> evaluateDirect api inner actor st (entry_seq entry))"

lemma evaluateEntry_Accepted:
  assumes "evaluateEntry api entry h st = Accepted (st', ev)" and "\<not> is_genesis (entry_operation entry)"
  obtains member device where "map_of (members st) (actor_userId (entry_actor entry)) = Some member"
    and "map_of (devices member) (actor_keyFingerprintHex (entry_actor entry)) = Some device"
    and "evaluate_as api entry h (actorContextOf member device) st = Accepted (st', ev)"
  using assms
  by (auto simp: evaluateEntry_def evaluate_as_def is_genesis_def Let_def
      split: chain_operation.splits proposable_operation.splits option.splits)

lemma complete_proposal_ok:
  assumes ok: "state_ok (api_sha256 api) n st" and n: "1 \<le> n"
    and pending: "map_of (pendingProposals st) h = Some pending"
    and complete: "completeProposal api pending st (n + 1) = Accepted (st', ev)"
  shows "state_ok (api_sha256 api) (n + 1) st'"
proof -
  have "proposable_ok (inner_operation pending)"
    using state_okD(10) [OF ok] pending
    by (auto simp: pendings_ok_def pending_ok_def dest: js.everywhere_lookup)
  with complete show ?thesis
    by (auto simp: completeProposal_Accepted Let_def intro: pending_delete_ok apply_operation_ok [OF ok n])
qed

lemma evaluate_as_ok:
  assumes ok: "state_ok (api_sha256 api) n st" and n: "1 \<le> n"
    and wf: "operation_ok (entry_operation entry)" and seq: "entry_seq entry = n + 1"
    and eval: "evaluate_as api entry h actor st = Accepted (st', ev)"
  shows "state_ok (api_sha256 api) (n + 1) st'"
proof -
  have ok': "state_ok (api_sha256 api) (n + 1) st" using state_ok_mono [OF ok n] by simp
  note pend = state_okD(10) [OF ok']
  show ?thesis
  proof (cases "entry_operation entry")
    case (Direct operation)
    with wf have "proposable_ok operation" by (simp add: operation_ok_def)
    with Direct eval seq show ?thesis
      by (auto simp: evaluate_as_def evaluateDirect_Accepted intro: apply_operation_ok [OF ok n])
  next
    case (Propose p)
    with wf have "proposable_ok (pr_inner p)" by (simp add: operation_ok_def)
    with Propose eval seq pend show ?thesis
      by (auto simp: evaluate_as_def evaluatePropose_Accepted pendings_ok_def pending_ok_def
          intro!: pending_update_ok [OF ok'] js.everywhere_store)
  next
    case (Approve k)
    with eval have "evaluateApprove api k (entry_seq entry) (entry_timestampMs entry) actor st = Accepted (st', ev)"
      by (simp add: evaluate_as_def)
    then show ?thesis
    proof (cases rule: evaluateApprove_Accepted)
      case (1 pending signature)
      from 1(5) show ?thesis
      proof (elim disjE conjE)
        assume "st' = st\<lparr>pendingProposals :=
             AList.update k (pending\<lparr>approvals := approvals pending @ [signature]\<rparr>) (pendingProposals st)\<rparr>"
        moreover have "pending_ok (n + 1) k pending"
          using pend 1(2) by (auto simp: pendings_ok_def dest: js.everywhere_lookup)
        ultimately show ?thesis
          using pend by (auto simp: pendings_ok_def pending_ok_def intro!: pending_update_ok [OF ok'] js.everywhere_store)
      next
        assume "completeProposal api pending st (entry_seq entry) = Accepted (st', ev)"
        with 1(2) seq show ?thesis using complete_proposal_ok [OF ok n] by simp
      qed
    qed
  next
    case (Withdraw k)
    with eval show ?thesis
      by (auto simp: evaluate_as_def evaluateWithdraw_Accepted intro: pending_delete_ok [OF ok'])
  qed
qed

section \<open>The whole loop\<close>

lemma genesis_ok:
  assumes check: "check_read_entry api entry empty_chain_state = None" and wf: "entry_ok entry"
    and gen: "entry_operation entry = Direct (Genesis p)" and seq: "entry_seq entry = 1"
  shows "state_ok (api_sha256 api) 1 (applyGenesis p (entry_actor entry) 1 empty_chain_state)"
proof -
  let ?fp = "actor_keyFingerprintHex (entry_actor entry)" and ?u = "actor_userId (entry_actor entry)"
  let ?d = "firstDeviceOf (gn_encPubHex p) (gn_sigPubHex p) ?fp 1"
  from check gen have fp: "?fp = userFingerprintHex (api_sha256 api) (gn_encPubHex p) (gn_sigPubHex p)"
    by (auto simp: check_read_entry_def resolveActorSigPub_def split: if_splits)
  have "device_ok (api_sha256 api) 1 ?fp ?d"
    using wf gen fp by (simp add: device_ok_def entry_ok_def operation_ok_def proposable_ok_def)
  moreover have "card (owners [(?u, m)]) = 1" if "mem_role m = Owner" for m
  proof -
    have "owners [(?u, m)] = {?u}" using that by (auto simp: owners_def split: if_splits)
    then show ?thesis by simp
  qed
  ultimately show ?thesis
    by (intro state_okI)
      (auto simp: applyGenesis_def set_member_def indexDeviceKeys_def empty_chain_state_def Let_def
        members_ok_def member_ok_def ALL_SCOPE_def index_ok_def unique_keys_def grants_ok_def
        environments_ok_def scopes_ok_def checkpoints_ok_def policy_ok_def pendings_ok_def device_of_def
        split: if_splits)
qed

text \<open>The invariant of the loop: nothing yet, or a consistent state.\<close>

definition verifier_ok :: "crypto_api \<Rightarrow> verifier \<Rightarrow> bool" where
  "verifier_ok api v \<longleftrightarrow>
     v_seq v = 0 \<and> v_state v = empty_chain_state \<or>
     1 \<le> v_seq v \<and> state_ok (api_sha256 api) (v_seq v) (v_state v)"

lemma accepts_ok:
  assumes "verifier_ok api v" and "accepts api v entry ev v'"
  shows "verifier_ok api v'"
proof -
  from assms(2) obtain h st' where pass: "passes_checks api entry v"
    and eval: "evaluateEntry api entry h (v_state v) = Accepted (st', ev)"
    and v': "v_seq v' = v_seq v + 1" "v_state v' = st'"
    by (auto elim: acceptsE)
  from pass have wf: "entry_ok entry" and seq: "entry_seq entry = v_seq v + 1"
    and gen: "v_seq v = 0 \<longleftrightarrow> is_genesis (entry_operation entry)"
    and check: "check_read_entry api entry (v_state v) = None"
    by (simp_all add: passes_checks_def is_genesis_name)
  show ?thesis
  proof (cases "v_seq v = 0")
    case True
    with gen obtain p where op: "entry_operation entry = Direct (Genesis p)"
      by (auto simp: is_genesis_def split: chain_operation.splits proposable_operation.splits)
    have "v_state v = empty_chain_state" using assms(1) True by (auto simp: verifier_ok_def)
    with op eval check wf seq True v' show ?thesis
      using genesis_ok [of api entry p] by (auto simp: evaluateEntry_def verifier_ok_def)
  next
    case False
    with assms(1) have n: "1 \<le> v_seq v" and ok: "state_ok (api_sha256 api) (v_seq v) (v_state v)"
      by (auto simp: verifier_ok_def)
    from False gen eval obtain actor where "evaluate_as api entry h actor (v_state v) = Accepted (st', ev)"
      by (auto elim: evaluateEntry_Accepted)
    with evaluate_as_ok [OF ok n _ seq] wf v' n show ?thesis
      by (simp add: verifier_ok_def entry_ok_def)
  qed
qed

lemma start_verifier_ok: "verifier_ok api (start_verifier history)"
  by (simp add: verifier_ok_def start_verifier_def)

interpretation checked_loop: loop_contract "verify_step api" "verifier_ok api" for api
proof unfold_locales
  fix v e v'
  assume "verifier_ok api v" and "verify_step api v e = Accepted v'"
  then show "verifier_ok api v'" by (blast elim: verify_step_Accepted intro: accepts_ok)
qed

lemma reached_ok: "reached api history es v \<Longrightarrow> verifier_ok api v"
  by (induction rule: reached.induct) (auto intro: start_verifier_ok accepts_ok)

lemma run_state_ok:
  assumes "run_loop (verify_step api) (start_verifier history) entries = Accepted v" and "entries \<noteq> []"
  shows "state_ok (api_sha256 api) (int (length entries)) (v_state v)" and "v_seq v = int (length entries)"
proof -
  from run_reached [OF assms(1)] obtain es where "map read_entry entries = map Some es"
    and reach: "reached api history es v" by blast
  moreover from this have "length es = length entries" by (metis length_map)
  ultimately show seq: "v_seq v = int (length entries)" by (simp add: reached_seq)
  have "verifier_ok api v" by (rule checked_loop.run_inv [OF start_verifier_ok assms(1)])
  with seq assms(2) show "state_ok (api_sha256 api) (int (length entries)) (v_state v)"
    by (auto simp: verifier_ok_def)
qed

lemma sealChainState_ok:
  assumes "state_ok sha256 n st"
  shows "sealChainState st k h = \<lparr>st_members = members st, st_serverGrants = serverGrants st,
     st_environments = environments st, st_checkpoints = checkpoints st, st_approvalPolicy = approvalPolicy st,
     st_pendingProposals = pendingProposals st, st_namedServerKeys = namedServerKeys st,
     st_headSeq = k, st_headHashHex = h\<rparr>"
  using assms
  by (simp add: sealChainState_def freezePendingProposals_def copy_map_def [symmetric] copy_map_id
      state_ok_def members_ok_def grants_ok_def environments_ok_def checkpoints_ok_def pendings_ok_def)

end
