(* ===== verification/Chain_Authority.thy ===== *)
theory Chain_Authority
  imports Chain_Preserve
begin

text \<open>
  Who can change what: the shape of every accepted step, and from it the authorization theorems of
  the membership log. An operation takes effect on behalf of an acting device that is current
  before the step, and its role rule and consensus rules passed against that state.
\<close>

section \<open>The shape of an accepted step\<close>

text \<open>The acting subject of an applied operation: a current device of the person it is attributed to.\<close>

definition acting :: "mutable_chain_state \<Rightarrow> applied_operation \<Rightarrow> actor_context \<Rightarrow> bool" where
  "acting st a actor \<longleftrightarrow>
     (\<exists>member fp device. map_of (members st) (applied_actorUserId a) = Some member \<and>
        map_of (devices member) fp = Some device \<and> actor = actorContextOf member device)"

lemma actingI:
  "map_of (members st) (applied_actorUserId a) = Some member \<Longrightarrow> map_of (devices member) fp = Some device \<Longrightarrow>
   acting st a (actorContextOf member device)"
  by (auto simp: acting_def)

definition authorized :: "crypto_api \<Rightarrow> mutable_chain_state \<Rightarrow> applied_operation \<Rightarrow> actor_context \<Rightarrow> bool" where
  "authorized api st a actor \<longleftrightarrow>
     acting st a actor \<and> roleReason (applied_operation a) actor = None \<and>
     consensusReason (api_sha256 api) (applied_operation a) actor st = None \<and>
     proposable_ok (applied_operation a) \<and> (\<forall>g. applied_operation a \<noteq> Genesis g)"

lemma accepts_seq: "accepts api v entry ev v' \<Longrightarrow> v_seq v' = v_seq v + 1 \<and> entry_seq entry = v_seq v'"
  by (auto elim!: acceptsE simp: passes_checks_def)

lemma accepts_genesis_iff: "accepts api v entry ev v' \<Longrightarrow> is_genesis (entry_operation entry) \<longleftrightarrow> v_seq v = 0"
  by (auto elim!: acceptsE simp: passes_checks_def is_genesis_name)

lemma vote_target:
  "approveVoteReason t actor pending st = None \<Longrightarrow> isApprovalTarget (inner_operation pending) (approvalPolicy st)"
  by (simp add: approveVoteReason_def split: if_splits)

lemma not_genesis_target:
  assumes "isApprovalTarget operation policy"
  shows "operation \<noteq> Genesis g"
proof
  assume "operation = Genesis g"
  with assms show False
    by (auto simp: isApprovalTarget_def establishesOwner_def APPROVAL_TARGET_OPS_def proposable_op_name_def
        approval_target_name_def split: option.splits)
qed

lemma complete_authorized:
  assumes ok: "state_ok (api_sha256 api) n st"
    and pending: "map_of (pendingProposals st) h = Some pending"
    and "completeProposal api pending st seq = Accepted (st', ev)"
    and target: "isApprovalTarget (inner_operation pending) policy"
  obtains a actor where "ev = Some a" and "applied_operation a = inner_operation pending"
    and "applied_actorUserId a = proposerUserId pending" and "authorized api st a actor"
    and "st' = (applyOperation (api_sha256 api) (applied_operation a) seq (applied_actorUserId a) st)
           \<lparr>pendingProposals := AList.delete h
              (pendingProposals (applyOperation (api_sha256 api) (applied_operation a) seq (applied_actorUserId a) st))\<rparr>"
proof -
  have inner: "proposable_ok (inner_operation pending)" and key: "proposalHashHex pending = h"
    using state_okD(10) [OF ok] pending
    by (auto simp: pendings_ok_def pending_ok_def dest: js.everywhere_lookup)
  from assms(3) obtain proposer device where
    p: "map_of (members st) (proposerUserId pending) = Some proposer"
      "map_of (devices proposer) (proposerKeyFingerprintHex pending) = Some device"
    and rules: "roleReason (inner_operation pending) (actorContextOf proposer device) = None"
      "consensusReason (api_sha256 api) (inner_operation pending) (actorContextOf proposer device) st = None"
    and st': "st' = (applyOperation (api_sha256 api) (inner_operation pending) seq (mem_userId proposer) st)
       \<lparr>pendingProposals := AList.delete (proposalHashHex pending)
          (pendingProposals (applyOperation (api_sha256 api) (inner_operation pending) seq (mem_userId proposer) st))\<rparr>"
    and ev: "ev = Some \<lparr>applied_operation = inner_operation pending, applied_actorUserId = mem_userId proposer\<rparr>"
    by (auto simp: completeProposal_Accepted Let_def)
  have u: "mem_userId proposer = proposerUserId pending"
    using members_okD(2) [OF state_okD(1) [OF ok] p(1)] .
  show ?thesis
    by (rule that [OF ev])
      (use p rules inner u st' key not_genesis_target [OF target] in \<open>auto simp: authorized_def acting_def\<close>)
qed

text \<open>A step after genesis either changes pending proposals only or applies an authorized operation.\<close>

lemma accepts_cases [consumes 3, case_names pending applied]:
  assumes vok: "verifier_ok api v" and step: "accepts api v entry ev v'" and later: "v_seq v \<noteq> 0"
  obtains (pending) ps where "ev = None" and "v_state v' = (v_state v)\<lparr>pendingProposals := ps\<rparr>"
  | (applied) a actor ps where "ev = Some a" and "authorized api (v_state v) a actor"
    and "v_state v' = (applyOperation (api_sha256 api) (applied_operation a) (v_seq v + 1)
           (applied_actorUserId a) (v_state v))\<lparr>pendingProposals := ps\<rparr>"
proof -
  from vok later have ok: "state_ok (api_sha256 api) (v_seq v) (v_state v)" by (auto simp: verifier_ok_def)
  from step obtain h where pass: "passes_checks api entry v"
    and eval: "evaluateEntry api entry h (v_state v) = Accepted (v_state v', ev)"
    by (auto elim: acceptsE)
  have seq: "entry_seq entry = v_seq v + 1" and wf: "operation_ok (entry_operation entry)"
    using pass by (simp_all add: passes_checks_def entry_ok_def)
  have "\<not> is_genesis (entry_operation entry)" using accepts_genesis_iff [OF step] later by simp
  with eval obtain member device where
    m: "map_of (members (v_state v)) (actor_userId (entry_actor entry)) = Some member"
    and d: "map_of (devices member) (actor_keyFingerprintHex (entry_actor entry)) = Some device"
    and as: "evaluate_as api entry h (actorContextOf member device) (v_state v) = Accepted (v_state v', ev)"
    by (rule evaluateEntry_Accepted)
  have u: "mem_userId member = actor_userId (entry_actor entry)"
    using members_okD(2) [OF state_okD(1) [OF ok] m] .
  show ?thesis
  proof (cases "entry_operation entry")
    case (Direct operation)
    with as have "roleReason operation (actorContextOf member device) = None"
      "consensusReason (api_sha256 api) operation (actorContextOf member device) (v_state v) = None"
      "v_state v' = applyOperation (api_sha256 api) operation (v_seq v + 1) (mem_userId member) (v_state v)"
      "ev = Some \<lparr>applied_operation = operation, applied_actorUserId = mem_userId member\<rparr>"
      by (simp_all add: evaluate_as_def evaluateDirect_Accepted seq actorContextOf_def)
    moreover have "operation \<noteq> Genesis g" for g
      using \<open>\<not> is_genesis (entry_operation entry)\<close> Direct by (auto simp: is_genesis_def)
    ultimately show ?thesis using m d u wf Direct
      by (intro applied [of _ "actorContextOf member device"
            "pendingProposals (applyOperation (api_sha256 api) operation (v_seq v + 1) (mem_userId member) (v_state v))"])
        (auto simp: authorized_def operation_ok_def intro: actingI)
  next
    case (Propose p)
    with as show ?thesis by (auto simp: evaluate_as_def evaluatePropose_Accepted intro: pending)
  next
    case (Approve k)
    with as have "evaluateApprove api k (entry_seq entry) (entry_timestampMs entry) (actorContextOf member device)
        (v_state v) = Accepted (v_state v', ev)"
      by (simp add: evaluate_as_def)
    then show ?thesis
    proof (cases rule: evaluateApprove_Accepted)
      case (1 q signature)
      from 1(5) show ?thesis
      proof (elim disjE conjE)
        assume "completeProposal api q (v_state v) (entry_seq entry) = Accepted (v_state v', ev)"
        with seq show ?thesis
          by (auto elim!: complete_authorized [OF ok 1(2) _ vote_target [OF 1(3)]] intro: applied)
      qed (auto intro: pending)
    qed
  next
    case (Withdraw k)
    with as show ?thesis by (auto simp: evaluate_as_def evaluateWithdraw_Accepted intro: pending)
  qed
qed

section \<open>Signatures\<close>

lemma entry_signed:
  assumes "accepts api v entry ev v'" and "v_seq v \<noteq> 0"
  shows "\<exists>device sigBytes publicKey signature.
     device_of (members (v_state v)) (actor_userId (entry_actor entry))
       (actor_keyFingerprintHex (entry_actor entry)) = Some device \<and>
     canonicalChainSignedBytes entry = Some sigBytes \<and>
     decode_hex (sigPubHex device) = Some publicKey \<and> decode_hex (entry_signatureHex entry) = Some signature \<and>
     api_ed25519_verify api publicKey signature sigBytes = Some True"
proof -
  from assms(1) have check: "check_read_entry api entry (v_state v) = None"
    by (auto elim!: acceptsE simp: passes_checks_def)
  have "\<not> is_genesis (entry_operation entry)" using accepts_genesis_iff [OF assms(1)] assms(2) by simp
  with check obtain m d where "map_of (members (v_state v)) (actor_userId (entry_actor entry)) = Some m"
    and "map_of (devices m) (actor_keyFingerprintHex (entry_actor entry)) = Some d"
    and "verifyEntrySignature api entry (sigPubHex d)"
    by (auto simp: check_read_entry_def resolveActorSigPub_def is_genesis_def
        split: sum.splits if_splits chain_operation.splits proposable_operation.splits option.splits)
  then show ?thesis
    by (auto simp: device_of_def verifyEntrySignature_def split: option.splits if_splits)
qed

section \<open>Environments are append-only\<close>

text \<open>A revocation changes members and the key index only.\<close>

lemma revoke_device_keeps [simp]:
  "environments (applyOperation sha256 (Revoke_Device p) seq u st) = environments st"
  "serverGrants (applyOperation sha256 (Revoke_Device p) seq u st) = serverGrants st"
  "checkpoints (applyOperation sha256 (Revoke_Device p) seq u st) = checkpoints st"
  "approvalPolicy (applyOperation sha256 (Revoke_Device p) seq u st) = approvalPolicy st"
proof -
  have keeps: "environments (snd (revoke_listed fps acc)) = environments (snd acc) \<and>
      serverGrants (snd (revoke_listed fps acc)) = serverGrants (snd acc) \<and>
      checkpoints (snd (revoke_listed fps acc)) = checkpoints (snd acc) \<and>
      approvalPolicy (snd (revoke_listed fps acc)) = approvalPolicy (snd acc)" for fps acc
    by (induction fps acc rule: revoke_listed.induct) (auto simp: unindexDeviceKeys_def split: option.splits)
  show "environments (applyOperation sha256 (Revoke_Device p) seq u st) = environments st"
    "serverGrants (applyOperation sha256 (Revoke_Device p) seq u st) = serverGrants st"
    "checkpoints (applyOperation sha256 (Revoke_Device p) seq u st) = checkpoints st"
    "approvalPolicy (applyOperation sha256 (Revoke_Device p) seq u st) = approvalPolicy st"
    using keeps [of "rd_deviceFingerprintsHex p"]
    by (auto simp: applyOperation_def applyRevokeDevice_def set_member_def split: option.split prod.split)
      (metis snd_conv)+
qed

definition deleted_at :: "int \<Rightarrow> environment_state \<Rightarrow> environment_state" where
  "deleted_at seq env = env\<lparr>deletedAtSeq := Some seq\<rparr>"

definition rotated_at :: "int \<Rightarrow> ustr \<Rightarrow> environment_state \<Rightarrow> environment_state" where
  "rotated_at seq commitment env =
     env\<lparr>currentEpoch := currentEpoch env + 1,
         epochStartSeqs := AList.update (currentEpoch env + 1) seq (epochStartSeqs env),
         dekCommitments := AList.update (currentEpoch env + 1) commitment (dekCommitments env)\<rparr>"

lemma apply_environments:
  assumes ok: "state_ok sha256 n st"
    and reason: "consensusReason sha256 operation actor st = None"
    and env: "map_of (environments st) e = Some env"
  shows "\<exists>env'. map_of (environments (applyOperation sha256 operation seq u st)) e = Some env' \<and>
    (env' = env \<or> deletedAtSeq env = None \<and> e \<in> scope_envs (actor_scope actor) \<and>
       (env' = deleted_at seq env \<or> (\<exists>c. env' = rotated_at seq c env)))"
proof -
  have unindex: "environments (fold unindexDeviceKeys ds s) = environments s" for ds s
    by (simp add: fold_unindex)
  show ?thesis
  proof (cases operation)
    case (Delete_Environment x)
    with reason env show ?thesis
      by (auto simp: applyOperation_def applyDeleteEnvironment_def consensusReason_def deleteEnvironmentReason_def
          liveEnvironmentReason_def isDeletedEnvironment_def deleted_at_def scopeIncludesEnvironment_iff
          split: if_splits option.splits)
  next
    case (Rotate_Epoch p)
    with reason env show ?thesis
      by (auto simp: applyOperation_def applyRotateEpoch_def consensusReason_def rotateEpochReason_def
          rotated_at_def scopeIncludesEnvironment_iff split: if_splits option.splits)
  next
    case (Create_Environment p)
    with reason env show ?thesis
      by (auto simp: applyOperation_def applyCreateEnvironment_def consensusReason_def createEnvironmentReason_def
          split: if_splits)
  next
    case (Revoke_Device p)
    with env show ?thesis by simp
  qed (use env in \<open>auto simp: applyOperation_def applyAddMember_def applyRemoveMember_def applyChangeRole_def
      applyGrantServer_def applyRevokeServer_def applyCheckpoint_def applySetApprovalPolicy_def applyAddDevice_def
      set_member_def indexDeviceKeys_def unindex Let_def split: option.splits\<close>)
qed

lemma step_environments:
  assumes "verifier_ok api v" and "accepts api v entry ev v'" and "v_seq v \<noteq> 0"
    and env: "map_of (environments (v_state v)) e = Some env"
  shows "\<exists>env'. map_of (environments (v_state v')) e = Some env' \<and>
    (env' = env \<or> deletedAtSeq env = None \<and>
       (env' = deleted_at (v_seq v') env \<or> (\<exists>c. env' = rotated_at (v_seq v') c env)))"
  using assms(1-3)
proof (cases rule: accepts_cases)
  case (pending ps)
  with env show ?thesis by simp
next
  case (applied a actor ps)
  have "state_ok (api_sha256 api) (v_seq v) (v_state v)" using assms(1,3) by (auto simp: verifier_ok_def)
  from apply_environments [OF this _ env, of "applied_operation a" actor "v_seq v + 1" "applied_actorUserId a"]
    applied accepts_seq [OF assms(2)]
  show ?thesis by (auto simp: authorized_def)
qed

section \<open>What an operation does to a person's permission\<close>

text \<open>The role a person holds in one environment, if any.\<close>

definition permission_in :: "mutable_chain_state \<Rightarrow> user_id \<Rightarrow> environment_id \<Rightarrow> role option" where
  "permission_in st u e = (case map_of (members st) u of
     None \<Rightarrow> None
   | Some m \<Rightarrow> if e \<in> scope_envs (mem_scope m) then Some (mem_role m) else None)"

lemma permission_in_pending [simp]: "permission_in (st\<lparr>pendingProposals := ps\<rparr>) = permission_in st"
  by (simp add: permission_in_def fun_eq_iff)

lemma revoke_listed_members: "members (snd (revoke_listed fps acc)) = members (snd acc)"
  by (induction fps acc rule: revoke_listed.induct) (auto simp: unindexDeviceKeys_def split: option.splits)

lemma members_unindex [simp]: "members (fold unindexDeviceKeys ds st) = members st"
  by (simp add: fold_unindex)

text \<open>The members after each operation.\<close>

lemma members_apply:
  assumes ok: "state_ok sha256 n st"
  shows "operation = Genesis g \<or> operation = Create_Environment ce \<or> operation = Rotate_Epoch re \<or>
      operation = Grant_Server gs \<or> operation = Revoke_Server rs \<or> operation = Checkpoint cp \<or>
      operation = Set_Approval_Policy sp \<Longrightarrow>
      members (applyOperation sha256 operation seq u st) = members st"
    and "operation = Delete_Environment e \<Longrightarrow> map_of (environments st) e = Some env \<Longrightarrow>
      members (applyOperation sha256 operation seq u st) = map_entries (prune_member e) (members st)"
    and "operation = Remove_Member t \<Longrightarrow> map_of (members st) t = Some m \<Longrightarrow>
      members (applyOperation sha256 operation seq u st) = AList.delete t (members st)"
    and "operation = Change_Role p \<Longrightarrow> map_of (members st) (cr_targetUserId p) = Some m \<Longrightarrow>
      members (applyOperation sha256 operation seq u st) =
        AList.update (cr_targetUserId p) (m\<lparr>mem_role := cr_newRole p, mem_scope := memberScopeOf p\<rparr>) (members st)"
  using members_okD(2) [OF state_okD(1) [OF ok]] pruned_members [OF state_okD(1) [OF ok]]
  by (auto simp: applyOperation_def applyCreateEnvironment_def applyRotateEpoch_def applyGrantServer_def
      applyRevokeServer_def applyCheckpoint_def applySetApprovalPolicy_def applyDeleteEnvironment_def
      applyRemoveMember_def applyChangeRole_def set_member_def split: option.split)

lemma members_apply_device:
  assumes ok: "state_ok sha256 n st"
  shows "operation = Add_Device ad \<or> operation = Revoke_Device rd \<Longrightarrow>
      map_option mem_role (map_of (members (applyOperation sha256 operation seq u st)) t) =
        map_option mem_role (map_of (members st) t) \<and>
      map_option mem_scope (map_of (members (applyOperation sha256 operation seq u st)) t) =
        map_option mem_scope (map_of (members st) t)"
proof (elim disjE)
  assume "operation = Add_Device ad"
  then show ?thesis
    using members_okD(2) [OF state_okD(1) [OF ok]]
    by (auto simp: applyOperation_def applyAddDevice_def set_member_def indexDeviceKeys_def Let_def
        split: option.split)
next
  assume op: "operation = Revoke_Device rd"
  show ?thesis
  proof (cases "map_of (members st) (rd_targetUserId rd)")
    case None
    with op show ?thesis by (simp add: applyOperation_def applyRevokeDevice_def)
  next
    case (Some m)
    obtain ds st' where run: "revoke_listed (rd_deviceFingerprintsHex rd) (devices m, st) = (ds, st')" by fastforce
    then have "members st' = members st"
      using revoke_listed_members [of "rd_deviceFingerprintsHex rd" "(devices m, st)"] by simp
    with op Some run members_okD(2) [OF state_okD(1) [OF ok] Some] show ?thesis
      by (auto simp: applyOperation_def applyRevokeDevice_def set_member_def)
  qed
qed

lemma permission_in_eqI:
  "map_option mem_role (map_of (members st') t) = map_option mem_role (map_of (members st) t) \<Longrightarrow>
   map_option mem_scope (map_of (members st') t) = map_option mem_scope (map_of (members st) t) \<Longrightarrow>
   permission_in st' t e = permission_in st t e"
  by (cases "map_of (members st) t"; cases "map_of (members st') t") (simp_all add: permission_in_def)

lemma change_permission_contained:
  assumes contains: "scopeContainsEnvironmentSet (actor_scope actor)
      (permissionChangeEnvironments (Change_Role p) (Some m))"
    and diff: "(if e \<in> scope_envs (memberScopeOf p) then Some (cr_newRole p) else None) \<noteq>
       (if e \<in> scope_envs (mem_scope m) then Some (mem_role m) else None)"
  shows "e \<in> scope_envs (actor_scope actor)"
proof (cases "mem_role m = cr_newRole p")
  case True
  with contains have "scope_envs (mem_scope m) - scope_envs (memberScopeOf p) \<union>
      (scope_envs (memberScopeOf p) - scope_envs (mem_scope m)) \<subseteq> scope_envs (actor_scope actor)"
    by (simp add: permissionChangeEnvironments_def contains_symmetric_difference_iff)
  with diff True show ?thesis by (auto split: if_splits)
next
  case False
  with contains have "scope_envs (mem_scope m) \<union> scope_envs (memberScopeOf p) \<subseteq> scope_envs (actor_scope actor)"
    by (simp add: permissionChangeEnvironments_def contains_union_iff)
  with diff show ?thesis by (auto split: if_splits)
qed

lemma apply_permission_contained:
  assumes ok: "state_ok sha256 n st"
    and reason: "consensusReason sha256 operation actor st = None"
    and changed: "permission_in (applyOperation sha256 operation seq u st) t e \<noteq> permission_in st t e"
  shows "e \<in> scope_envs (actor_scope actor)"
proof (cases operation)
  case (Add_Member p)
  with reason have "map_of (members st) (am_targetUserId p) = None"
    and contains: "scopeContainsEnvironmentSet (actor_scope actor) (permissionChangeEnvironments (Add_Member p) None)"
    by (auto simp: consensusReason_def addMemberReason_def dest: memberScopeReason_None split: if_splits)
  with changed Add_Member have "e \<in> scope_envs (memberScopeOf p)"
    by (auto simp: permission_in_def applyOperation_def applyAddMember_def set_member_def indexDeviceKeys_def Let_def
        split: if_splits option.splits)
  with contains show ?thesis
    by (auto simp: permissionChangeEnvironments_def contains_scope_iff)
next
  case (Remove_Member t0)
  with reason obtain m where res: "resolveTargetedOp (Remove_Member t0) t0 actor st = Inr m"
    and contains: "scopeContainsEnvironmentSet (actor_scope actor)
      (permissionChangeEnvironments (Remove_Member t0) (Some m))"
    by (auto simp: consensusReason_def removeMemberReason_def split: sum.splits if_splits)
  note m = resolveTargetedOp_Inr(1) [OF res]
  with changed Remove_Member have "e \<in> scope_envs (mem_scope m)"
    by (auto simp: permission_in_def members_apply(3) [OF ok] split: if_splits option.splits)
  with contains show ?thesis
    by (auto simp: permissionChangeEnvironments_def contains_scope_iff)
next
  case (Change_Role p)
  with reason obtain m where res: "resolveTargetedOp (Change_Role p) (cr_targetUserId p) actor st = Inr m"
    and scoped: "memberScopeReason (Change_Role p) p (cr_newRole p) actor (Some m) st = None"
    by (auto simp: consensusReason_def changeRoleReason_def split: sum.splits if_splits)
  note m = resolveTargetedOp_Inr(1) [OF res]
  from changed Change_Role m have t: "t = cr_targetUserId p"
    by (auto simp: permission_in_def members_apply(4) [OF ok] split: if_splits)
  show ?thesis
    by (rule change_permission_contained [OF memberScopeReason_None(3) [OF scoped]])
      (use changed Change_Role m t in \<open>auto simp: permission_in_def members_apply(4) [OF ok] split: if_splits\<close>)
next
  case (Delete_Environment e0)
  with reason obtain env where env: "map_of (environments st) e0 = Some env"
    and inc: "e0 \<in> scope_envs (actor_scope actor)"
    by (auto simp: consensusReason_def deleteEnvironmentReason_def liveEnvironmentReason_def map_has_def
        scopeIncludesEnvironment_iff split: if_splits)
  have "e = e0"
  proof (rule ccontr)
    assume "e \<noteq> e0"
    then have "e \<in> scope_envs (scopeWithout s e0) \<longleftrightarrow> e \<in> scope_envs s" for s by (cases s) auto
    with changed Delete_Environment show False
      by (auto simp: permission_in_def members_apply(2) [OF ok _ env] split: option.splits if_splits)
  qed
  with inc show ?thesis by simp
qed (use changed permission_in_eqI [OF members_apply_device [OF ok, THEN conjunct1] members_apply_device [OF ok, THEN conjunct2]]
     in \<open>simp_all add: permission_in_def members_apply(1) [OF ok]\<close>)

section \<open>High roles\<close>

lemma atLeast_le: "atLeast r m \<longleftrightarrow> m \<le> r"
  by (simp add: atLeast_def less_eq_role_def)

lemma requireRole_None [simp]: "requireRole r m = None \<longleftrightarrow> m \<le> r"
  by (simp add: requireRole_def atLeast_le)

lemma targetRoleReason_None:
  "targetRoleReason operation actor m = None \<longleftrightarrow>
     (Admin \<le> mem_role m \<longrightarrow> actor_role actor = Owner) \<and>
     (\<forall>p. operation = Change_Role p \<longrightarrow> Admin \<le> cr_newRole p \<longrightarrow> actor_role actor = Owner)"
  by (auto simp: targetRoleReason_def atLeast_le split: proposable_operation.splits)

text \<open>A member who is or becomes admin or owner is added, changed or removed by an effective owner only.\<close>

definition role_of_member :: "mutable_chain_state \<Rightarrow> user_id \<Rightarrow> role option" where
  "role_of_member st u = map_option mem_role (map_of (members st) u)"

lemma role_of_member_pending [simp]: "role_of_member (st\<lparr>pendingProposals := ps\<rparr>) = role_of_member st"
  by (simp add: role_of_member_def fun_eq_iff)

lemma apply_role_authority:
  assumes ok: "state_ok sha256 n st"
    and role: "roleReason operation actor = None"
    and reason: "consensusReason sha256 operation actor st = None"
    and changed: "role_of_member (applyOperation sha256 operation seq u st) t \<noteq> role_of_member st t"
    and r: "role_of_member st t = Some r \<or> role_of_member (applyOperation sha256 operation seq u st) t = Some r"
  shows "Admin \<le> actor_role actor" and "Admin \<le> r \<Longrightarrow> actor_role actor = Owner"
proof -
  have "Admin \<le> actor_role actor \<and> (Admin \<le> r \<longrightarrow> actor_role actor = Owner)"
  proof (cases operation)
    case (Add_Member p)
    with changed have "t = am_targetUserId p"
      by (auto simp: role_of_member_def applyOperation_def applyAddMember_def set_member_def indexDeviceKeys_def Let_def
          split: if_splits)
    moreover from reason Add_Member have "map_of (members st) (am_targetUserId p) = None"
      by (auto simp: consensusReason_def addMemberReason_def split: if_splits)
    ultimately have "r = am_role p"
      using r Add_Member
      by (simp add: role_of_member_def applyOperation_def applyAddMember_def set_member_def indexDeviceKeys_def Let_def)
    with role Add_Member show ?thesis
      by (auto simp: roleReason_def addMemberRoleReason_def atLeast_le split: if_splits)
  next
    case (Remove_Member t0)
    with reason obtain m where res: "resolveTargetedOp (Remove_Member t0) t0 actor st = Inr m"
      by (auto simp: consensusReason_def removeMemberReason_def split: sum.splits)
    note R = resolveTargetedOp_Inr [OF res]
    from changed Remove_Member R(1) have "t = t0"
      by (auto simp: role_of_member_def members_apply(3) [OF ok] split: if_splits)
    with r R(1) Remove_Member have "r = mem_role m"
      by (auto simp: role_of_member_def members_apply(3) [OF ok])
    with R(2) role Remove_Member show ?thesis
      by (simp add: targetRoleReason_None roleReason_def)
  next
    case (Change_Role p)
    with reason obtain m where res: "resolveTargetedOp (Change_Role p) (cr_targetUserId p) actor st = Inr m"
      by (auto simp: consensusReason_def changeRoleReason_def split: sum.splits)
    note R = resolveTargetedOp_Inr [OF res]
    from changed Change_Role R(1) have "t = cr_targetUserId p"
      by (auto simp: role_of_member_def members_apply(4) [OF ok] split: if_splits)
    with r R(1) Change_Role have "r = mem_role m \<or> r = cr_newRole p"
      by (auto simp: role_of_member_def members_apply(4) [OF ok])
    with R(2) role Change_Role show ?thesis
      by (auto simp: targetRoleReason_None roleReason_def)
  next
    case (Delete_Environment e0)
    with reason obtain env where env: "map_of (environments st) e0 = Some env"
      by (auto simp: consensusReason_def deleteEnvironmentReason_def liveEnvironmentReason_def map_has_def
          split: if_splits)
    with Delete_Environment changed show ?thesis
      by (cases "map_of (members st) t") (simp_all add: role_of_member_def members_apply(2) [OF ok _ env])
  qed (use changed members_apply_device [OF ok, THEN conjunct1]
       in \<open>simp_all add: role_of_member_def members_apply(1) [OF ok]\<close>)
  then show "Admin \<le> actor_role actor" and "Admin \<le> r \<Longrightarrow> actor_role actor = Owner" by blast+
qed

section \<open>Four eyes\<close>

lemma owner_voter:
  "u \<in> ownerVotersOf ms signers \<longleftrightarrow>
     (\<exists>s \<in> set signers. vote_userId s = u \<and>
        (\<exists>m d. map_of ms u = Some m \<and> map_of (devices m) (vote_keyFingerprintHex s) = Some d \<and>
           mem_role m = Owner \<and> roleCap d = Owner))"
  by (force simp: ownerVotersOf_def is_owner_vote_def effective_owner_iff split: option.splits)

lemma finite_ownerVotersOf [simp]: "finite (ownerVotersOf ms signers)"
  by (simp add: ownerVotersOf_def)

lemma ownerVotersOf_owners: "ownerVotersOf ms signers \<subseteq> owners ms"
  by (auto simp: owner_voter in_owners)

text \<open>
  A four-eyes target takes effect in one way only: an unexpired approve entry whose voters, with
  the entry's own signature, are enough distinct effective owners.
\<close>

lemma target_needs_quorum:
  assumes vok: "verifier_ok api v" and step: "accepts api v entry (Some a) v'" and later: "v_seq v \<noteq> 0"
    and target: "isApprovalTarget (applied_operation a) (approvalPolicy (v_state v))"
  shows "\<exists>h pending policy.
     entry_operation entry = Approve h \<and> map_of (pendingProposals (v_state v)) h = Some pending \<and>
     inner_operation pending = applied_operation a \<and> entry_timestampMs entry \<le> expiresAtMs pending \<and>
     approvalPolicy (v_state v) = Some policy \<and>
     pol_requiredApprovals policy \<le> int (card (ownerVotersOf (members (v_state v))
       (approvalSignersOf pending @
          [\<lparr>vote_userId = actor_userId (entry_actor entry),
            vote_keyFingerprintHex = actor_keyFingerprintHex (entry_actor entry)\<rparr>]))) \<and>
     map_of (pendingProposals (v_state v')) h = None"
proof -
  from vok later have ok: "state_ok (api_sha256 api) (v_seq v) (v_state v)" by (auto simp: verifier_ok_def)
  from step obtain h where pass: "passes_checks api entry v"
    and eval: "evaluateEntry api entry h (v_state v) = Accepted (v_state v', Some a)"
    by (auto elim: acceptsE)
  have "\<not> is_genesis (entry_operation entry)" using accepts_genesis_iff [OF step] later by simp
  with eval obtain member device where
    m: "map_of (members (v_state v)) (actor_userId (entry_actor entry)) = Some member"
    and d: "map_of (devices member) (actor_keyFingerprintHex (entry_actor entry)) = Some device"
    and as: "evaluate_as api entry h (actorContextOf member device) (v_state v) = Accepted (v_state v', Some a)"
    by (rule evaluateEntry_Accepted)
  have u: "mem_userId member = actor_userId (entry_actor entry)"
    using members_okD(2) [OF state_okD(1) [OF ok] m] .
  have f: "keyFingerprintHex device = actor_keyFingerprintHex (entry_actor entry)"
    using device_okD [OF state_okD(1) [OF ok], of "actor_userId (entry_actor entry)"] m d
    by (simp add: device_of_def device_ok_def)
  from as target obtain k where k: "entry_operation entry = Approve k"
    by (cases "entry_operation entry")
      (auto simp: evaluate_as_def evaluateDirect_Accepted evaluatePropose_Accepted evaluateWithdraw_Accepted)
  with as have "evaluateApprove api k (entry_seq entry) (entry_timestampMs entry) (actorContextOf member device)
        (v_state v) = Accepted (v_state v', Some a)"
    by (simp add: evaluate_as_def)
  then show ?thesis
  proof (cases rule: evaluateApprove_Accepted)
    case (1 q signature)
    from 1(5) have quorum: "quorum_reached (approvalPolicy (v_state v))
        (countOwnerVotes (v_state v) (approvalSignersOf q @ [signature]))"
      and complete: "completeProposal api q (v_state v) (entry_seq entry) = Accepted (v_state v', Some a)"
      by auto
    from complete obtain b where b: "Some a = Some b" "applied_operation b = inner_operation q"
      and gone: "map_of (pendingProposals (v_state v')) k = None"
      by (auto elim!: complete_authorized [OF ok 1(2) _ vote_target [OF 1(3)]])
    from 1(3) have "entry_timestampMs entry \<le> expiresAtMs q"
      by (auto simp: approveVoteReason_def split: if_splits)
    with quorum b gone k 1(2,4) u f show ?thesis
      by (auto simp: quorum_reached_def countOwnerVotes_def actorContextOf_def split: option.splits)
  qed
qed

section \<open>Device caps\<close>

text \<open>One cap lies within another: principle D2 compares the caps themselves.\<close>

definition cap_le :: "chain_device \<Rightarrow> chain_device \<Rightarrow> bool" where
  "cap_le d d0 \<longleftrightarrow> roleCap d \<le> roleCap d0 \<and> scope_envs (cap_scope d) \<subseteq> scope_envs (cap_scope d0)"

lemma cap_le_refl [simp]: "cap_le d d"
  by (simp add: cap_le_def)

lemma cap_le_pruned [simp]: "cap_le (prune_device e d) d"
  by (simp add: cap_le_def scope_envs_without_subset)

lemma apply_device_caps:
  assumes ok: "state_ok sha256 n st" and reason: "consensusReason sha256 operation actor st = None"
    and act: "map_of (members st) u0 = Some m0" "map_of (devices m0) f0 = Some (ctx_device actor)"
    and m: "map_of (members st) u = Some m"
    and d: "device_of (members (applyOperation sha256 operation seq u0 st)) u f = Some d"
  shows "\<exists>f1 d1. device_of (members st) u f1 = Some d1 \<and> cap_le d d1"
proof (cases operation)
  case (Add_Member p)
  with reason m have "u \<noteq> am_targetUserId p"
    by (auto simp: consensusReason_def addMemberReason_def split: if_splits)
  with d Add_Member have "device_of (members st) u f = Some d"
    by (simp add: applyOperation_def applyAddMember_def set_member_def indexDeviceKeys_def Let_def)
  then show ?thesis by (meson cap_le_refl)
next
  case (Remove_Member t)
  with reason obtain mt where "map_of (members st) t = Some mt"
    by (auto simp: consensusReason_def removeMemberReason_def split: sum.splits dest: resolveTargetedOp_Inr)
  with d Remove_Member have "device_of (members st) u f = Some d"
    by (auto simp: members_apply(3) [OF ok] split: if_splits)
  then show ?thesis by (meson cap_le_refl)
next
  case (Change_Role p)
  with reason obtain mt where "map_of (members st) (cr_targetUserId p) = Some mt"
    by (auto simp: consensusReason_def changeRoleReason_def split: sum.splits dest: resolveTargetedOp_Inr)
  with d Change_Role have "device_of (members st) u f = Some d"
    by (auto simp: members_apply(4) [OF ok] device_of_def split: if_splits)
  then show ?thesis by (meson cap_le_refl)
next
  case (Delete_Environment e)
  with reason obtain env where env: "map_of (environments st) e = Some env"
    by (auto simp: consensusReason_def deleteEnvironmentReason_def liveEnvironmentReason_def map_has_def
        split: if_splits)
  from d Delete_Environment obtain d1 where "device_of (members st) u f = Some d1" and "d = prune_device e d1"
    by (auto simp: members_apply(2) [OF ok _ env] device_of_pruned [OF state_okD(1) [OF ok]])
  then show ?thesis by (auto intro!: exI [of _ f])
next
  case (Add_Device p)
  have u0: "mem_userId m0 = u0" using members_okD(2) [OF state_okD(1) [OF ok] act(1)] .
  from reason Add_Device have cap: "capWithinCap \<lparr>roleCap = ad_roleCap p, cap_scope = memberScopeOf p\<rparr> (ctx_device actor)"
    by (auto simp: consensusReason_def addDeviceReason_def split: if_splits)
  show ?thesis
  proof (cases "device_of (members st) u f = Some d")
    case False
    with d Add_Device act(1) u0 have u: "u = u0" and caps: "roleCap d = ad_roleCap p" "cap_scope d = memberScopeOf p"
      by (auto simp: applyOperation_def applyAddDevice_def set_member_def indexDeviceKeys_def Let_def device_of_def
          split: if_splits)
    with cap have "cap_le d (ctx_device actor)"
      by (simp add: cap_le_def capWithinCap_iff)
    moreover have "device_of (members st) u f0 = Some (ctx_device actor)"
      using act u by (simp add: device_of_def)
    ultimately show ?thesis by blast
  qed (meson cap_le_refl)
next
  case (Revoke_Device p)
  with reason obtain mt where mt: "map_of (members st) (rd_targetUserId p) = Some mt"
    by (auto simp: consensusReason_def revokeDeviceReason_def split: option.splits)
  obtain ds st' where run: "revoke_listed (rd_deviceFingerprintsHex p) (devices mt, st) = (ds, st')" by fastforce
  have sub: "map_of (fst (revoke_listed fps acc)) g = Some x \<Longrightarrow> map_of (fst acc) g = Some x" for fps acc g x
    by (induction fps acc rule: revoke_listed.induct) (auto split: option.splits if_splits)
  have "members st' = members st"
    using run revoke_listed_members [of "rd_deviceFingerprintsHex p" "(devices mt, st)"] by simp
  with d Revoke_Device mt run members_okD(2) [OF state_okD(1) [OF ok] mt]
    sub [of "rd_deviceFingerprintsHex p" "(devices mt, st)" f d]
  have "device_of (members st) u f = Some d"
    by (auto simp: applyOperation_def applyRevokeDevice_def set_member_def device_of_def split: if_splits)
  then show ?thesis by (meson cap_le_refl)
qed (use d in \<open>auto simp: members_apply(1) [OF ok] intro!: exI [of _ f]\<close>)

section \<open>The hash chain\<close>

definition entry_hash :: "crypto_api \<Rightarrow> chain_entry \<Rightarrow> ustr option" where
  "entry_hash api entry = computeChainEntryHash (api_sha256 api) entry"

lemma accepts_hash:
  assumes "accepts api v entry ev v'"
  shows "entry_hash api entry = Some (v_prevHash v')" and "entry_prevHashHex entry = v_prevHash v"
    and "entry_ok entry"
  using assms by (auto elim!: acceptsE simp: entry_hash_def passes_checks_def)

lemma reached_last:
  assumes "reached api history (es @ [e]) v"
  obtains u ev where "reached api history es u" and "accepts api u e ev v"
  using assms by (auto elim: reached.cases)

lemma reached_head_hash:
  "reached api history es v \<Longrightarrow>
     v_prevHash v = (if es = [] then GENESIS_PREV_HASH else the (entry_hash api (last es))) \<and>
     (es \<noteq> [] \<longrightarrow> entry_hash api (last es) = Some (v_prevHash v))"
  by (induction rule: reached.induct) (auto simp: start_verifier_def dest: accepts_hash)

lemma reached_prefix:
  assumes "reached api history es v" and "i < length es"
  shows "\<exists>u ev v'. reached api history (take i es) u \<and> accepts api u (es ! i) ev v' \<and>
    reached api history (take (Suc i) es) v'"
proof -
  obtain v' where reach: "reached api history (take (Suc i) es) v'"
    using reached_take [OF assms(1)] by blast
  then have "reached api history (take i es @ [es ! i]) v'"
    using assms(2) by (simp add: take_Suc_conv_app_nth)
  then obtain u ev where "reached api history (take i es) u" and "accepts api u (es ! i) ev v'"
    by (rule reached_last)
  with reach show ?thesis by blast
qed

text \<open>SHA-256 without a collision among the given byte strings.\<close>

definition collision_free_on :: "(bytes \<Rightarrow> bytes) \<Rightarrow> bytes set \<Rightarrow> bool" where
  "collision_free_on sha256 X \<longleftrightarrow> (\<forall>a \<in> X. \<forall>b \<in> X. sha256 a = sha256 b \<longrightarrow> a = b)"

definition entry_byte_strings :: "chain_entry list \<Rightarrow> bytes set" where
  "entry_byte_strings es = {b. \<exists>e \<in> set es. canonicalChainEntryBytes e = Some b}"

lemma same_hash_same_entry:
  assumes "entry_hash api e = Some h" and "entry_hash api e' = Some h"
    and "e \<in> set es" and "e' \<in> set es" and "collision_free_on (api_sha256 api) (entry_byte_strings es)"
    and "well_formed_entry e" and "well_formed_entry e'" and "entry_ok e" and "entry_ok e'"
  shows "e = e'"
proof -
  from assms(1,2) obtain b b' where b: "canonicalChainEntryBytes e = Some b" "canonicalChainEntryBytes e' = Some b'"
    and "api_sha256 api b = api_sha256 api b'"
    by (auto simp: entry_hash_def computeChainEntryHash_def)
  with assms(3-5) have "b = b'"
    by (auto simp: collision_free_on_def entry_byte_strings_def)
  moreover have "well_formed (entry_signatureHex x)" if "entry_ok x" for x
    using that by (auto simp: entry_ok_def hex_of_length_def intro: well_formed_hex)
  ultimately show ?thesis
    using b assms(6-9) by (blast intro: entry_bytes_determine_entry)
qed

lemma same_head_same_chain:
  assumes "reached api history es v" and "reached api history' es' v'"
    and "es \<noteq> []" and "es' \<noteq> []" and "v_prevHash v = v_prevHash v'"
    and "set es \<union> set es' \<subseteq> set all" and "\<forall>e \<in> set all. well_formed_entry e"
    and "collision_free_on (api_sha256 api) (entry_byte_strings all)"
  shows "es = es'"
  using assms(1-6)
proof (induction es arbitrary: es' v v' rule: rev_induct)
  case (snoc e es)
  obtain e' ds where es': "es' = ds @ [e']" using snoc.prems(4) by (cases es' rule: rev_cases) auto
  obtain u ev where u: "reached api history es u" "accepts api u e ev v"
    using snoc.prems(1) by (rule reached_last)
  obtain u' ev' where u': "reached api history' ds u'" "accepts api u' e' ev' v'"
    using snoc.prems(2) es' by (auto elim: reached_last)
  have "e = e'"
    by (rule same_hash_same_entry [of api _ "v_prevHash v" _ all])
      (use accepts_hash [OF u(2)] accepts_hash [OF u'(2)] snoc.prems es' assms(7,8) in auto)
  moreover have "length es = length ds"
    using accepts_seq [OF u(2)] accepts_seq [OF u'(2)] reached_seq [OF u(1)] reached_seq [OF u'(1)] \<open>e = e'\<close>
    by simp
  moreover have "v_prevHash u = v_prevHash u'"
    using accepts_hash(2) [OF u(2)] accepts_hash(2) [OF u'(2)] \<open>e = e'\<close> by simp
  ultimately show ?case
    using snoc.IH [OF u(1) u'(1)] snoc.prems(6) es'
    by (cases "es = []"; cases "ds = []") auto
qed simp

end
