(* ===== verification/Chain_Extension.thy ===== *)
theory Chain_Extension
  imports Chain_Authority
begin

text \<open>
  From the loop to its callers: the state a caller gets for a chain and for the chain with one more
  entry are the states before and after one accepted step. The views of a returned state that the
  theorems on authority speak about are defined here, and so is the device that initiated an entry: for
  an approval the one behind the proposal, found in the chain.
\<close>

section \<open>The state a caller gets\<close>

definition at_head :: "verifier \<Rightarrow> chain_state" where
  "at_head v = sealChainState (v_state v) (v_seq v) (v_prevHash v)"

lemma at_head_fields:
  assumes "verifier_ok api v"
  shows "st_members (at_head v) = members (v_state v)" and "st_serverGrants (at_head v) = serverGrants (v_state v)"
    and "st_environments (at_head v) = environments (v_state v)"
    and "st_checkpoints (at_head v) = checkpoints (v_state v)"
    and "st_approvalPolicy (at_head v) = approvalPolicy (v_state v)"
    and "st_pendingProposals (at_head v) = pendingProposals (v_state v)"
    and "st_namedServerKeys (at_head v) = namedServerKeys (v_state v)"
    and "st_headSeq (at_head v) = v_seq v" and "st_headHashHex (at_head v) = v_prevHash v"
proof -
  have "at_head v = \<lparr>st_members = members (v_state v), st_serverGrants = serverGrants (v_state v),
     st_environments = environments (v_state v), st_checkpoints = checkpoints (v_state v),
     st_approvalPolicy = approvalPolicy (v_state v), st_pendingProposals = pendingProposals (v_state v),
     st_namedServerKeys = namedServerKeys (v_state v), st_headSeq = v_seq v, st_headHashHex = v_prevHash v\<rparr>"
    using assms sealChainState_ok
    by (auto simp: verifier_ok_def at_head_def sealChainState_def empty_chain_state_def copy_map_def
        freezePendingProposals_def)
  then show "st_members (at_head v) = members (v_state v)" "st_serverGrants (at_head v) = serverGrants (v_state v)"
    "st_environments (at_head v) = environments (v_state v)"
    "st_checkpoints (at_head v) = checkpoints (v_state v)"
    "st_approvalPolicy (at_head v) = approvalPolicy (v_state v)"
    "st_pendingProposals (at_head v) = pendingProposals (v_state v)"
    "st_namedServerKeys (at_head v) = namedServerKeys (v_state v)"
    "st_headSeq (at_head v) = v_seq v" "st_headHashHex (at_head v) = v_prevHash v"
    by simp_all
qed

lemma run_verifier_ok: "run_loop (verify_step api) (start_verifier history) vs = Accepted v \<Longrightarrow> verifier_ok api v"
  by (rule checked_loop.run_inv [OF start_verifier_ok])

lemma run_seq: "run_loop (verify_step api) (start_verifier history) vs = Accepted v \<Longrightarrow> v_seq v = int (length vs)"
  by (drule run_reached) (auto dest!: reached_seq dest: map_eq_imp_length_eq)

lemma verifyChain_Accepted:
  "verifyChain api vs = Accepted st \<longleftrightarrow>
     vs \<noteq> [] \<and> (\<exists>v. run_loop (verify_step api) (start_verifier None) vs = Accepted v \<and> st = at_head v)"
  by (auto simp: verifyChain_def verifyChainCore_def fail_def at_head_def run_seq split: if_splits)

lemma verifyChain_state_ok:
  assumes "verifyChain api vs = Accepted st"
  obtains v where "st = at_head v" and "verifier_ok api v" and "v_seq v = int (length vs)" and "vs \<noteq> []"
    and "state_ok (api_sha256 api) (int (length vs)) (v_state v)"
    and "run_loop (verify_step api) (start_verifier None) vs = Accepted v"
  using assms run_state_ok run_verifier_ok by (auto simp: verifyChain_Accepted)

text \<open>One more entry is one accepted step.\<close>

lemma extension_step:
  assumes "verifyChain api vs = Accepted s0" and "verifyChain api (vs @ [e]) = Accepted s1"
  obtains u entry ev u' where "s0 = at_head u" and "s1 = at_head u'" and "read_entry e = Some entry"
    and "accepts api u entry ev u'" and "verifier_ok api u" and "verifier_ok api u'" and "v_seq u \<noteq> 0"
    and "v_seq u = int (length vs)" and "v_seq u' = int (length vs) + 1"
proof -
  from assms(1) obtain u where u: "run_loop (verify_step api) (start_verifier None) vs = Accepted u" "s0 = at_head u"
    and "vs \<noteq> []"
    by (auto simp: verifyChain_Accepted)
  from assms(2) u obtain u' where u': "verify_step api u e = Accepted u'" "s1 = at_head u'"
    by (auto simp: verifyChain_Accepted run_loop_snoc_Accepted)
  from u'(1) obtain entry ev where read: "read_entry e = Some entry" and step: "accepts api u entry ev u'"
    by (rule verify_step_Accepted)
  note ok = run_verifier_ok [OF u(1)] and seq = run_seq [OF u(1)]
  show ?thesis
    by (rule that [OF u(2) u'(2) read step ok accepts_ok [OF ok step]])
      (use \<open>vs \<noteq> []\<close> seq accepts_seq [OF step] in simp_all)
qed

lemma prefix_accepted:
  assumes "verifyChain api vs = Accepted st" and "1 \<le> k" and "k \<le> length vs"
  shows "\<exists>s. verifyChain api (take k vs) = Accepted s"
proof -
  from assms obtain v where "run_loop (verify_step api) (start_verifier None) vs = Accepted v"
    by (auto simp: verifyChain_Accepted)
  from run_loop_take [OF this, of k] assms show ?thesis by (auto simp: verifyChain_Accepted)
qed

section \<open>Views of a returned state\<close>

definition role_in :: "chain_state \<Rightarrow> user_id \<Rightarrow> role option" where
  "role_in st u = map_option mem_role (map_of (st_members st) u)"

definition grants_in :: "chain_state \<Rightarrow> user_id \<Rightarrow> environment_id \<Rightarrow> role option" where
  "grants_in st u e = (case map_of (st_members st) u of
     None \<Rightarrow> None
   | Some m \<Rightarrow> if e \<in> scope_envs (mem_scope m) then Some (mem_role m) else None)"

text \<open>The permission with which a current device of the chain acts.\<close>

definition acts_with :: "chain_state \<Rightarrow> user_id \<Rightarrow> fingerprint \<Rightarrow> effective_permission \<Rightarrow> bool" where
  "acts_with st u f perm \<longleftrightarrow>
     (\<exists>m d. map_of (st_members st) u = Some m \<and> map_of (devices m) f = Some d \<and>
        perm = effectivePermissionOf (mem_role m) (mem_scope m) d)"

lemma views_at_head:
  assumes "verifier_ok api u"
  shows "role_in (at_head u) = role_of_member (v_state u)" and "grants_in (at_head u) = permission_in (v_state u)"
  using at_head_fields(1) [OF assms]
  by (auto simp: role_in_def role_of_member_def grants_in_def permission_in_def fun_eq_iff split: option.split)

text \<open>An approve entry that completes a proposal with enough distinct owners' signatures.\<close>

definition completes_with_quorum :: "chain_state \<Rightarrow> chain_entry \<Rightarrow> proposable_operation \<Rightarrow> bool" where
  "completes_with_quorum st entry operation \<longleftrightarrow>
     (\<exists>h pending policy.
        entry_operation entry = Approve h \<and> map_of (st_pendingProposals st) h = Some pending \<and>
        inner_operation pending = operation \<and> entry_timestampMs entry \<le> expiresAtMs pending \<and>
        st_approvalPolicy st = Some policy \<and>
        pol_requiredApprovals policy \<le> int (card (ownerVotersOf (st_members st)
          (approvalSignersOf pending @
             [\<lparr>vote_userId = actor_userId (entry_actor entry),
               vote_keyFingerprintHex = actor_keyFingerprintHex (entry_actor entry)\<rparr>]))))"

lemma target_completes:
  assumes "verifier_ok api v" and "accepts api v entry (Some a) v'" and "v_seq v \<noteq> 0"
    and "isApprovalTarget (applied_operation a) (approvalPolicy (v_state v))"
  shows "completes_with_quorum (at_head v) entry (applied_operation a)"
  using target_needs_quorum [OF assms] at_head_fields [OF assms(1)]
  unfolding completes_with_quorum_def by metis

section \<open>The visible effects of operations\<close>

text \<open>
  What an observer of two consecutive states sees of an operation of each kind the four-eyes policy
  can name: a grant of the new entry, a grant gone, a member gone, new, or with another role, or
  another policy.
\<close>

definition shows_effect :: "approval_target_op \<Rightarrow> chain_state \<Rightarrow> chain_state \<Rightarrow> bool" where
  "shows_effect k s0 s1 \<longleftrightarrow> (case k of
     GrantServerOp \<Rightarrow> \<exists>f g. map_of (st_serverGrants s1) f = Some g \<and> grantSeq g = st_headSeq s1
   | RevokeServerOp \<Rightarrow> \<exists>f. map_of (st_serverGrants s0) f \<noteq> None \<and> map_of (st_serverGrants s1) f = None
   | RemoveMemberOp \<Rightarrow> \<exists>u. role_in s0 u \<noteq> None \<and> role_in s1 u = None
   | AddMemberOp \<Rightarrow> \<exists>u. role_in s0 u = None \<and> role_in s1 u \<noteq> None
   | ChangeRoleOp \<Rightarrow> \<exists>u r r'. role_in s0 u = Some r \<and> role_in s1 u = Some r' \<and> r \<noteq> r'
   | SetApprovalPolicyOp \<Rightarrow> st_approvalPolicy s1 \<noteq> st_approvalPolicy s0)"

definition becomes_owner :: "chain_state \<Rightarrow> chain_state \<Rightarrow> bool" where
  "becomes_owner s0 s1 \<longleftrightarrow> (\<exists>u. role_in s1 u = Some Owner \<and> role_in s0 u \<noteq> Some Owner)"

lemma apply_policy:
  "(\<And>p. operation \<noteq> Set_Approval_Policy p) \<Longrightarrow>
   approvalPolicy (applyOperation sha256 operation n u st) = approvalPolicy st"
proof (cases operation)
  case (Revoke_Device p)
  then show ?thesis by simp
qed (auto simp: applyOperation_def applyAddMember_def applyRemoveMember_def applyChangeRole_def applyGrantServer_def
    applyRevokeServer_def applyCheckpoint_def applyAddDevice_def applyCreateEnvironment_def applyDeleteEnvironment_def
    applyRotateEpoch_def set_member_def indexDeviceKeys_def fold_unindex Let_def split: option.split)

text \<open>The grants after an operation: one added, one removed, some pruned, or the same.\<close>

lemma apply_grants:
  assumes ok: "state_ok sha256 n st"
  shows "(\<And>p. operation \<noteq> Grant_Server p) \<Longrightarrow> map_of (serverGrants (applyOperation sha256 operation (n + 1) u st)) f = Some g \<Longrightarrow>
      grantSeq g \<le> n"
    and "(\<And>k. operation \<noteq> Revoke_Server k) \<Longrightarrow> map_of (serverGrants st) f \<noteq> None \<Longrightarrow>
      map_of (serverGrants (applyOperation sha256 operation (n + 1) u st)) f \<noteq> None"
proof -
  have seqs: "map_of (serverGrants st) f = Some g \<Longrightarrow> grantSeq g \<le> n" for g
    using state_okD(4) [OF ok] by (auto simp: grants_ok_def grant_ok_def dest: js.everywhere_lookup)
  have pruned: "fold (\<lambda>grant. AList.update (serverKeyFingerprintHex grant) (prune_grant e grant))
      (map snd (serverGrants st)) (serverGrants st) = map_entries (prune_grant e) (serverGrants st)" for e
    using state_okD(4) [OF ok]
    by (intro fold_update_values) (auto simp: grants_ok_def grant_ok_def in_set_map_of dest: js.everywhere_lookup)
  note defs = applyOperation_def applyAddMember_def applyRemoveMember_def applyChangeRole_def applyGrantServer_def
    applyRevokeServer_def applyCheckpoint_def applyAddDevice_def applyCreateEnvironment_def applyDeleteEnvironment_def
    applyRotateEpoch_def applySetApprovalPolicy_def set_member_def indexDeviceKeys_def fold_unindex Let_def pruned
  have seq_pruned: "grantSeq (prune_grant e g) = grantSeq g" for e g by (simp add: prune_grant_def)
  show "(\<And>p. operation \<noteq> Grant_Server p) \<Longrightarrow> map_of (serverGrants (applyOperation sha256 operation (n + 1) u st)) f = Some g \<Longrightarrow>
      grantSeq g \<le> n"
  proof (cases operation)
    case (Revoke_Device p)
    then show "map_of (serverGrants (applyOperation sha256 operation (n + 1) u st)) f = Some g \<Longrightarrow> grantSeq g \<le> n"
      using seqs by simp
  qed (auto simp: defs seq_pruned dest: seqs split: option.splits if_splits)
  show "(\<And>k. operation \<noteq> Revoke_Server k) \<Longrightarrow> map_of (serverGrants st) f \<noteq> None \<Longrightarrow>
      map_of (serverGrants (applyOperation sha256 operation (n + 1) u st)) f \<noteq> None"
  proof (cases operation)
    case (Revoke_Device p)
    then show "map_of (serverGrants st) f \<noteq> None \<Longrightarrow>
        map_of (serverGrants (applyOperation sha256 operation (n + 1) u st)) f \<noteq> None"
      by simp
  qed (auto simp: defs split: option.splits if_splits)
qed

text \<open>The roles after an operation differ at its target only.\<close>

lemma apply_roles:
  assumes ok: "state_ok sha256 n st" and reason: "consensusReason sha256 operation actor st = None"
    and changed: "role_of_member (applyOperation sha256 operation seq u st) t \<noteq> role_of_member st t"
  shows "(\<exists>p. operation = Add_Member p \<and> role_of_member st t = None \<and>
        role_of_member (applyOperation sha256 operation seq u st) t = Some (am_role p)) \<or>
    (operation = Remove_Member t \<and> role_of_member st t \<noteq> None \<and>
        role_of_member (applyOperation sha256 operation seq u st) t = None) \<or>
    (\<exists>p. operation = Change_Role p \<and> role_of_member st t \<noteq> None \<and>
        role_of_member (applyOperation sha256 operation seq u st) t = Some (cr_newRole p))"
proof (cases operation)
  case (Add_Member p)
  with reason have "map_of (members st) (am_targetUserId p) = None"
    by (auto simp: consensusReason_def addMemberReason_def split: if_splits)
  with Add_Member changed show ?thesis
    by (auto simp: role_of_member_def applyOperation_def applyAddMember_def set_member_def indexDeviceKeys_def Let_def
        split: if_splits)
next
  case (Remove_Member t0)
  with reason obtain m where "map_of (members st) t0 = Some m"
    by (auto simp: consensusReason_def removeMemberReason_def split: sum.splits dest: resolveTargetedOp_Inr)
  with Remove_Member changed show ?thesis
    by (auto simp: role_of_member_def members_apply(3) [OF ok] split: if_splits)
next
  case (Change_Role p)
  with reason obtain m where "map_of (members st) (cr_targetUserId p) = Some m"
    by (auto simp: consensusReason_def changeRoleReason_def split: sum.splits dest: resolveTargetedOp_Inr)
  with Change_Role changed show ?thesis
    by (auto simp: role_of_member_def members_apply(4) [OF ok] split: if_splits)
next
  case (Delete_Environment e0)
  with reason obtain env where env: "map_of (environments st) e0 = Some env"
    by (auto simp: consensusReason_def deleteEnvironmentReason_def liveEnvironmentReason_def map_has_def
        split: if_splits)
  with Delete_Environment changed show ?thesis
    by (cases "map_of (members st) t") (simp_all add: role_of_member_def members_apply(2) [OF ok _ env])
qed (use changed members_apply_device [OF ok, THEN conjunct1]
     in \<open>simp_all add: role_of_member_def members_apply(1) [OF ok]\<close>)

lemma effect_operation:
  assumes ok: "state_ok sha256 n st" and reason: "consensusReason sha256 operation actor st = None"
    and roles: "role_in s0 = role_of_member st" "role_in s1 = role_of_member (applyOperation sha256 operation (n + 1) u st)"
    and grants: "st_serverGrants s0 = serverGrants st"
      "st_serverGrants s1 = serverGrants (applyOperation sha256 operation (n + 1) u st)"
    and policy: "st_approvalPolicy s0 = approvalPolicy st"
      "st_approvalPolicy s1 = approvalPolicy (applyOperation sha256 operation (n + 1) u st)"
    and seq: "st_headSeq s1 = n + 1"
  shows "shows_effect k s0 s1 \<Longrightarrow> proposable_op_name operation = approval_target_name k"
    and "becomes_owner s0 s1 \<Longrightarrow> establishesOwner operation"
proof -
  note R = apply_roles [OF ok reason, of "n + 1" u]
  show "shows_effect k s0 s1 \<Longrightarrow> proposable_op_name operation = approval_target_name k"
  proof (cases k)
    case GrantServerOp
    moreover assume "shows_effect k s0 s1"
    ultimately obtain f g where "map_of (serverGrants (applyOperation sha256 operation (n + 1) u st)) f = Some g"
      and late: "grantSeq g = n + 1"
      by (auto simp: shows_effect_def grants seq)
    note early = apply_grants(1) [OF ok _ this(1)]
    obtain p where "operation = Grant_Server p"
      using early late by fastforce
    with GrantServerOp show ?thesis by (simp add: proposable_op_name_def approval_target_name_def)
  next
    case RevokeServerOp
    moreover assume "shows_effect k s0 s1"
    ultimately obtain f where "map_of (serverGrants st) f \<noteq> None"
      and "map_of (serverGrants (applyOperation sha256 operation (n + 1) u st)) f = None"
      by (auto simp: shows_effect_def grants)
    then obtain x where "operation = Revoke_Server x"
      using apply_grants(2) [OF ok, of operation f u] by blast
    with RevokeServerOp show ?thesis by (simp add: proposable_op_name_def approval_target_name_def)
  next
    case SetApprovalPolicyOp
    moreover assume "shows_effect k s0 s1"
    ultimately have "approvalPolicy (applyOperation sha256 operation (n + 1) u st) \<noteq> approvalPolicy st"
      by (simp add: shows_effect_def policy)
    then obtain p where "operation = Set_Approval_Policy p"
      using apply_policy [of operation] by blast
    with SetApprovalPolicyOp show ?thesis by (simp add: proposable_op_name_def approval_target_name_def)
  next
    case RemoveMemberOp
    moreover assume "shows_effect k s0 s1"
    ultimately obtain t where "role_in s0 t \<noteq> None" and "role_in s1 t = None" by (auto simp: shows_effect_def)
    with R [of t] RemoveMemberOp show ?thesis
      by (auto simp: roles proposable_op_name_def approval_target_name_def)
  next
    case AddMemberOp
    moreover assume "shows_effect k s0 s1"
    ultimately obtain t where "role_in s0 t = None" and "role_in s1 t \<noteq> None" by (auto simp: shows_effect_def)
    with R [of t] AddMemberOp show ?thesis
      by (auto simp: roles proposable_op_name_def approval_target_name_def)
  next
    case ChangeRoleOp
    moreover assume "shows_effect k s0 s1"
    ultimately obtain t r r' where "role_in s0 t = Some r" and "role_in s1 t = Some r'" and "r \<noteq> r'"
      by (auto simp: shows_effect_def)
    with R [of t] ChangeRoleOp show ?thesis
      by (auto simp: roles proposable_op_name_def approval_target_name_def)
  qed
  show "becomes_owner s0 s1 \<Longrightarrow> establishesOwner operation"
  proof -
    assume "becomes_owner s0 s1"
    then obtain t where "role_in s1 t = Some Owner" and "role_in s0 t \<noteq> Some Owner" by (auto simp: becomes_owner_def)
    with R [of t] show ?thesis by (auto simp: roles establishesOwner_def)
  qed
qed

lemma named_target:
  assumes "proposable_op_name operation = approval_target_name k" and "k = SetApprovalPolicyOp \<or> k \<in> set (pol_ops p)"
  shows "isApprovalTarget operation (Some p)"
proof (cases "k = SetApprovalPolicyOp")
  case True
  with assms(1) show ?thesis
    by (cases operation) (simp_all add: isApprovalTarget_def proposable_op_name_def approval_target_name_def)
next
  case False
  with assms show ?thesis by (simp add: isApprovalTarget_def)
qed

lemma owner_target: "establishesOwner operation \<Longrightarrow> isApprovalTarget operation (Some p)"
  by (simp add: isApprovalTarget_def)

text \<open>The operation applied by one more entry, seen at the interface.\<close>

lemma extension_applied:
  assumes "verifyChain api vs = Accepted s0" and "verifyChain api (vs @ [e]) = Accepted s1"
  obtains (pending) "st_members s1 = st_members s0" and "st_serverGrants s1 = st_serverGrants s0"
      and "st_environments s1 = st_environments s0" and "st_approvalPolicy s1 = st_approvalPolicy s0"
      and "st_headSeq s1 = int (length vs) + 1"
  | (applied) entry u a actor u' where "s0 = at_head u" and "s1 = at_head u'" and "verifier_ok api u" and "verifier_ok api u'"
      and "read_entry e = Some entry" and "accepts api u entry (Some a) u'" and "v_seq u \<noteq> 0"
      and "v_seq u = int (length vs)" and "authorized api (v_state u) a actor"
      and "state_ok (api_sha256 api) (int (length vs)) (v_state u)"
      and "v_seq u' = int (length vs) + 1"
      and "\<exists>ps. v_state u' = (applyOperation (api_sha256 api) (applied_operation a) (int (length vs) + 1)
             (applied_actorUserId a) (v_state u))\<lparr>pendingProposals := ps\<rparr>"
  using assms
proof (rule extension_step)
  fix u entry ev u'
  assume S: "s0 = at_head u" "s1 = at_head u'" "read_entry e = Some entry" "accepts api u entry ev u'"
    "verifier_ok api u" "verifier_ok api u'" "v_seq u \<noteq> 0" "v_seq u = int (length vs)" "v_seq u' = int (length vs) + 1"
  from S(5,4,7) show thesis
  proof (cases rule: accepts_cases)
    case (pending ps)
    with S show thesis by (intro that(1)) (simp_all add: at_head_fields)
  next
    case (applied a actor ps)
    moreover have "state_ok (api_sha256 api) (int (length vs)) (v_state u)"
      using S(5,7,8) by (simp add: verifier_ok_def)
    ultimately show thesis using S by (intro that(2)) auto
  qed
qed

section \<open>Applying an operation leaves the proposals alone\<close>

lemma unindex_pending:
  "unindexDeviceKeys d (st\<lparr>pendingProposals := ps\<rparr>) = (unindexDeviceKeys d st)\<lparr>pendingProposals := ps\<rparr>"
  by (simp add: unindexDeviceKeys_def)

lemma revoke_listed_pending:
  "revoke_listed fps (ds, st\<lparr>pendingProposals := ps\<rparr>) =
     (fst (revoke_listed fps (ds, st)), (snd (revoke_listed fps (ds, st)))\<lparr>pendingProposals := ps\<rparr>)"
  by (induction fps arbitrary: ds st) (auto simp: unindex_pending split: option.splits)

lemma fold_unindex_pending:
  "fold unindexDeviceKeys xs (st\<lparr>pendingProposals := ps\<rparr>) = (fold unindexDeviceKeys xs st)\<lparr>pendingProposals := ps\<rparr>"
  by (induction xs arbitrary: st) (simp_all add: unindex_pending)

lemmas apply_defs =
  applyAddMember_def applyChangeRole_def applyGrantServer_def applyRevokeServer_def
  applyCreateEnvironment_def applyDeleteEnvironment_def applyRotateEpoch_def applyCheckpoint_def
  applySetApprovalPolicy_def applyAddDevice_def set_member_def indexDeviceKeys_def Let_def

lemma apply_operation_pending:
  fixes st :: mutable_chain_state
  shows "applyOperation sha256 operation seq u (st\<lparr>pendingProposals := ps\<rparr>) =
     (applyOperation sha256 operation seq u st)\<lparr>pendingProposals := ps\<rparr>"
proof (cases operation)
  case (Remove_Member target)
  have swap: "st\<lparr>pendingProposals := ps, members := ms\<rparr> = st\<lparr>members := ms, pendingProposals := ps\<rparr>" for ms
    by (cases st) simp
  have "fold unindexDeviceKeys xs (st\<lparr>pendingProposals := ps, members := ms\<rparr>) =
      (fold unindexDeviceKeys xs (st\<lparr>members := ms\<rparr>))\<lparr>pendingProposals := ps\<rparr>" for xs ms
    by (simp only: swap fold_unindex_pending)
  with Remove_Member show ?thesis
    by (simp add: applyOperation_def applyRemoveMember_def split: option.split)
next
  case (Revoke_Device p)
  then show ?thesis
    by (auto simp: applyOperation_def applyRevokeDevice_def revoke_listed_pending set_member_def
        split: option.split prod.split)
qed (auto simp: applyOperation_def apply_defs split: option.split)

lemma pending_of_applied [simp]:
  "pendingProposals (applyOperation sha256 operation seq u st) = pendingProposals st"
  using arg_cong [OF apply_operation_pending [of sha256 operation seq u "pendingProposals st" st], of pendingProposals] by simp

section \<open>Who stands behind an entry\<close>

text \<open>
  The device on whose behalf an entry takes effect: the one that signed the entry, or for an approval the
  one that signed the entry of the chain that proposed what is approved, found by its hash.
\<close>

definition initiated_by ::
  "crypto_api \<Rightarrow> js_value list \<Rightarrow> chain_entry \<Rightarrow> user_id \<Rightarrow> fingerprint \<Rightarrow> bool" where
  "initiated_by api vs entry u f \<longleftrightarrow>
     (case entry_operation entry of
        Direct _ \<Rightarrow> entry_actor entry = \<lparr>actor_userId = u, actor_keyFingerprintHex = f\<rparr>
      | Approve h \<Rightarrow>
          \<exists>v\<in>set vs. \<exists>e p. read_entry v = Some e \<and> entry_operation e = Propose p \<and>
            computeChainEntryHash (api_sha256 api) e = Some h \<and>
            entry_actor e = \<lparr>actor_userId = u, actor_keyFingerprintHex = f\<rparr>
      | _ \<Rightarrow> False)"

definition proposed_in :: "crypto_api \<Rightarrow> chain_entry list \<Rightarrow> ustr \<Rightarrow> pending_proposal \<Rightarrow> bool" where
  "proposed_in api es h q \<longleftrightarrow>
     (\<exists>e\<in>set es. \<exists>p. entry_operation e = Propose p \<and> pr_inner p = inner_operation q \<and>
        computeChainEntryHash (api_sha256 api) e = Some h \<and>
        entry_actor e = \<lparr>actor_userId = proposerUserId q, actor_keyFingerprintHex = proposerKeyFingerprintHex q\<rparr>)"

lemma proposed_vote: "proposed_in api es h (q\<lparr>approvals := votes\<rparr>) = proposed_in api es h q"
  by (simp add: proposed_in_def)

lemma accepts_proposed:
  assumes vok: "verifier_ok api v" and step: "accepts api v entry ev v'"
    and before: "\<And>h q. map_of (pendingProposals (v_state v)) h = Some q \<Longrightarrow> proposed_in api es h q"
    and after: "map_of (pendingProposals (v_state v')) h = Some q"
  shows "proposed_in api (es @ [entry]) h q"
proof -
  have mono: "proposed_in api es h q \<Longrightarrow> proposed_in api (es @ [entry]) h q" for h q
    by (auto simp: proposed_in_def)
  from step obtain hash where pass: "passes_checks api entry v"
    and hash: "computeChainEntryHash (api_sha256 api) entry = Some hash"
    and eval: "evaluateEntry api entry hash (v_state v) = Accepted (v_state v', ev)"
    by (auto elim: acceptsE)
  show ?thesis
  proof (cases "is_genesis (entry_operation entry)")
    case True
    then obtain p where "entry_operation entry = Direct (Genesis p)"
      by (auto simp: is_genesis_def split: chain_operation.splits proposable_operation.splits)
    with eval have "v_state v' = applyGenesis p (entry_actor entry) (entry_seq entry) (v_state v)"
      by (simp add: evaluateEntry_def)
    then have "pendingProposals (v_state v') = pendingProposals (v_state v)"
      by (simp add: applyGenesis_def set_member_def indexDeviceKeys_def Let_def)
    with after before mono show ?thesis by simp
  next
    case False
    with eval obtain member device where
      m: "map_of (members (v_state v)) (actor_userId (entry_actor entry)) = Some member"
      and d: "map_of (devices member) (actor_keyFingerprintHex (entry_actor entry)) = Some device"
      and run: "evaluate_as api entry hash (actorContextOf member device) (v_state v) = Accepted (v_state v', ev)"
      by (rule evaluateEntry_Accepted)
    have "v_seq v \<noteq> 0" using accepts_genesis_iff [OF step] False by simp
    with vok have ok: "state_ok (api_sha256 api) (v_seq v) (v_state v)" by (auto simp: verifier_ok_def)
    have u: "mem_userId member = actor_userId (entry_actor entry)" "member_ok (api_sha256 api) (v_seq v) (actor_userId (entry_actor entry)) member"
      using members_okD [OF state_okD(1) [OF ok] m] by simp_all
    then have f: "keyFingerprintHex device = actor_keyFingerprintHex (entry_actor entry)"
      using d by (auto simp: member_ok_def device_ok_def dest: js.everywhere_lookup)
    show ?thesis
    proof (cases "entry_operation entry")
      case (Direct operation)
      with run have "pendingProposals (v_state v') = pendingProposals (v_state v)"
        by (simp add: evaluate_as_def evaluateDirect_Accepted)
      with after before mono show ?thesis by simp
    next
      case (Propose p)
      with run after u(1) f show ?thesis
      proof (cases "h = hash")
        case True
        with Propose run after u(1) f hash show ?thesis
          by (auto simp: evaluate_as_def evaluatePropose_Accepted proposed_in_def update_conv' actorContextOf_def)
      qed (use Propose run after before mono in \<open>auto simp: evaluate_as_def evaluatePropose_Accepted update_conv'\<close>)
    next
      case (Approve k)
      with run have "evaluateApprove api k (entry_seq entry) (entry_timestampMs entry) (actorContextOf member device)
          (v_state v) = Accepted (v_state v', ev)"
        by (simp add: evaluate_as_def)
      then show ?thesis
      proof (cases rule: evaluateApprove_Accepted)
        case (1 pending signature)
        from 1(5) show ?thesis
        proof (elim disjE conjE)
          assume "v_state v' = (v_state v)\<lparr>pendingProposals :=
             AList.update k (pending\<lparr>approvals := approvals pending @ [signature]\<rparr>) (pendingProposals (v_state v))\<rparr>"
          with after before [OF 1(2)] before show ?thesis
            by (intro mono) (auto simp: update_conv' proposed_vote split: if_splits)
        next
          assume "completeProposal api pending (v_state v) (entry_seq entry) = Accepted (v_state v', ev)"
          with after have "map_of (pendingProposals (v_state v)) h = Some q"
            by (auto simp: completeProposal_Accepted Let_def split: if_splits)
          with before mono show ?thesis by blast
        qed
      qed
    next
      case (Withdraw k)
      with run after have "map_of (pendingProposals (v_state v)) h = Some q"
        by (auto simp: evaluate_as_def evaluateWithdraw_Accepted split: if_splits)
      with before mono show ?thesis by blast
    qed
  qed
qed

lemma reached_proposed:
  assumes "reached api history es v"
  shows "verifier_ok api v \<and> (\<forall>h q. map_of (pendingProposals (v_state v)) h = Some q \<longrightarrow> proposed_in api es h q)"
  using assms
proof (induction rule: reached.induct)
  case reached_start
  then show ?case by (simp add: start_verifier_ok) (simp add: start_verifier_def empty_chain_state_def)
next
  case (reached_next es v entry evaluated v')
  with accepts_ok accepts_proposed show ?case by blast
qed

text \<open>An entry that applies an operation does so with the permission of the device that initiated it.\<close>

lemma accepts_initiated:
  assumes vok: "verifier_ok api v" and step: "accepts api v entry (Some a) v'" and later: "v_seq v \<noteq> 0"
    and before: "\<And>h q. map_of (pendingProposals (v_state v)) h = Some q \<Longrightarrow> proposed_in api es h q"
    and vs: "map read_entry vs = map Some es"
  obtains u f member device where "initiated_by api vs entry u f" and "map_of (members (v_state v)) u = Some member"
    and "map_of (devices member) f = Some device" and "authorized api (v_state v) a (actorContextOf member device)"
proof -
  from vok later have ok: "state_ok (api_sha256 api) (v_seq v) (v_state v)" by (auto simp: verifier_ok_def)
  from step obtain h where pass: "passes_checks api entry v"
    and eval: "evaluateEntry api entry h (v_state v) = Accepted (v_state v', Some a)"
    by (auto elim: acceptsE)
  have wf: "operation_ok (entry_operation entry)" using pass by (simp add: passes_checks_def entry_ok_def)
  have ng: "\<not> is_genesis (entry_operation entry)" using accepts_genesis_iff [OF step] later by simp
  with eval obtain member device where
    m: "map_of (members (v_state v)) (actor_userId (entry_actor entry)) = Some member"
    and d: "map_of (devices member) (actor_keyFingerprintHex (entry_actor entry)) = Some device"
    and run: "evaluate_as api entry h (actorContextOf member device) (v_state v) = Accepted (v_state v', Some a)"
    by (rule evaluateEntry_Accepted)
  have ids: "mem_userId m = u" if "map_of (members (v_state v)) u = Some m" for u m
    using members_okD(2) [OF state_okD(1) [OF ok] that] .
  show ?thesis
  proof (cases "entry_operation entry")
    case (Direct operation)
    with run ids [OF m] have "roleReason operation (actorContextOf member device) = None"
      "consensusReason (api_sha256 api) operation (actorContextOf member device) (v_state v) = None"
      "a = \<lparr>applied_operation = operation, applied_actorUserId = actor_userId (entry_actor entry)\<rparr>"
      by (simp_all add: evaluate_as_def evaluateDirect_Accepted actorContextOf_def)
    moreover have "operation \<noteq> Genesis g" for g using ng Direct by (auto simp: is_genesis_def)
    ultimately have "authorized api (v_state v) a (actorContextOf member device)"
      using m d wf Direct by (auto simp: authorized_def acting_def operation_ok_def)
    with m d show ?thesis by (intro that) (simp_all add: initiated_by_def Direct)
  next
    case (Approve k)
    with run have "evaluateApprove api k (entry_seq entry) (entry_timestampMs entry) (actorContextOf member device)
        (v_state v) = Accepted (v_state v', Some a)"
      by (simp add: evaluate_as_def)
    then show ?thesis
    proof (cases rule: evaluateApprove_Accepted)
      case (1 q signature)
      then have complete: "completeProposal api q (v_state v) (entry_seq entry) = Accepted (v_state v', Some a)" by simp
      then obtain proposer pd where p: "map_of (members (v_state v)) (proposerUserId q) = Some proposer"
        "map_of (devices proposer) (proposerKeyFingerprintHex q) = Some pd"
        "roleReason (inner_operation q) (actorContextOf proposer pd) = None"
        "consensusReason (api_sha256 api) (inner_operation q) (actorContextOf proposer pd) (v_state v) = None"
        "a = \<lparr>applied_operation = inner_operation q, applied_actorUserId = mem_userId proposer\<rparr>"
        by (auto simp: completeProposal_Accepted Let_def)
      have "proposable_ok (inner_operation q)"
        using state_okD(10) [OF ok] 1(2) by (auto simp: pendings_ok_def pending_ok_def dest: js.everywhere_lookup)
      with p ids [OF p(1)] not_genesis_target [OF vote_target [OF 1(3)]]
      have auth: "authorized api (v_state v) a (actorContextOf proposer pd)"
        by (auto simp: authorized_def acting_def)
      from before [OF 1(2)] obtain e p' where e: "e \<in> set es" "entry_operation e = Propose p'"
        "computeChainEntryHash (api_sha256 api) e = Some k"
        "entry_actor e = \<lparr>actor_userId = proposerUserId q, actor_keyFingerprintHex = proposerKeyFingerprintHex q\<rparr>"
        by (auto simp: proposed_in_def)
      from e(1) have "Some e \<in> set (map read_entry vs)" unfolding vs by simp
      then obtain x where "x \<in> set vs" "read_entry x = Some e" by auto
      with e have "initiated_by api vs entry (proposerUserId q) (proposerKeyFingerprintHex q)"
        by (auto simp: initiated_by_def Approve)
      with p auth that show ?thesis by blast
    qed
  qed (use run in \<open>auto simp: evaluate_as_def evaluatePropose_Accepted evaluateWithdraw_Accepted\<close>)
qed

lemma extension_initiated:
  assumes "verifyChain api vs = Accepted s0" and "verifyChain api (vs @ [e]) = Accepted s1"
  obtains (pending) "st_members s1 = st_members s0"
  | (applied) entry u a u' user fp member device where "s0 = at_head u" and "s1 = at_head u'" and "verifier_ok api u" and "verifier_ok api u'"
      and "read_entry e = Some entry" and "initiated_by api vs entry user fp"
      and "map_of (st_members s0) user = Some member" and "map_of (devices member) fp = Some device"
      and "authorized api (v_state u) a (actorContextOf member device)"
      and "state_ok (api_sha256 api) (int (length vs)) (v_state u)"
      and "\<exists>ps. v_state u' = (applyOperation (api_sha256 api) (applied_operation a) (int (length vs) + 1)
             (applied_actorUserId a) (v_state u))\<lparr>pendingProposals := ps\<rparr>"
proof -
  from assms(1) obtain u where u: "run_loop (verify_step api) (start_verifier None) vs = Accepted u" "s0 = at_head u"
    and "vs \<noteq> []" by (auto simp: verifyChain_Accepted)
  from assms(2) u obtain u' where u': "verify_step api u e = Accepted u'" "s1 = at_head u'"
    by (auto simp: verifyChain_Accepted run_loop_snoc_Accepted)
  from u'(1) obtain entry ev where read: "read_entry e = Some entry" and step: "accepts api u entry ev u'"
    by (rule verify_step_Accepted)
  from run_reached [OF u(1)] obtain es where es: "map read_entry vs = map Some es" "reached api None es u" by blast
  note facts = reached_proposed [OF es(2)]
  have ok: "verifier_ok api u" "verifier_ok api u'" using facts accepts_ok [OF _ step] by blast+
  have seq: "v_seq u = int (length vs)" by (rule run_seq [OF u(1)])
  with \<open>vs \<noteq> []\<close> have later: "v_seq u \<noteq> 0" by simp
  with ok(1) seq have sok: "state_ok (api_sha256 api) (int (length vs)) (v_state u)" by (auto simp: verifier_ok_def)
  from ok(1) step later show ?thesis
  proof (cases rule: accepts_cases)
    case (pending ps)
    with ok u(2) u'(2) show ?thesis by (intro that(1)) (simp add: at_head_fields)
  next
    case (applied a actor ps)
    from accepts_initiated [OF ok(1) step [unfolded applied(1)] later _ es(1)] facts obtain user fp member device where
      "initiated_by api vs entry user fp" "map_of (members (v_state u)) user = Some member"
      "map_of (devices member) fp = Some device" "authorized api (v_state u) a (actorContextOf member device)" by blast
    with applied(3) ok(1) seq show ?thesis
      by (intro that(2) [OF u(2) u'(2) ok read _ _ _ _ sok]) (auto simp: at_head_fields u(2))
  qed
qed

lemma initiator_acts:
  "map_of (st_members s) u = Some m \<Longrightarrow> map_of (devices m) f = Some d \<Longrightarrow>
   acts_with s u f (ctx_permission (actorContextOf m d))"
  by (simp add: acts_with_def actorContextOf_def)

section \<open>Named server keys\<close>

lemma unindex_named [simp]: "namedServerKeys (fold unindexDeviceKeys xs st) = namedServerKeys st"
  by (induction xs arbitrary: st) (simp_all add: unindexDeviceKeys_def)

lemma revoke_listed_named: "namedServerKeys (snd (revoke_listed fps acc)) = namedServerKeys (snd acc)"
  by (induction fps acc rule: revoke_listed.induct) (auto simp: unindexDeviceKeys_def split: option.splits)

lemma apply_named:
  assumes "map_of (namedServerKeys st) k \<noteq> None"
  shows "map_of (namedServerKeys (applyOperation sha256 operation seq u st)) k \<noteq> None"
proof (cases operation)
  case (Revoke_Device p)
  with assms revoke_listed_named [of "rd_deviceFingerprintsHex p"] show ?thesis
    by (auto simp: applyOperation_def applyRevokeDevice_def set_member_def split: option.split prod.split)
      (metis snd_conv)
qed (use assms in \<open>auto simp: applyOperation_def apply_defs applyRemoveMember_def update_conv' split: option.split\<close>)

lemma extension_named:
  assumes "verifyChain api vs = Accepted s0" and "verifyChain api (vs @ [e]) = Accepted s1"
    and named: "map_of (st_namedServerKeys s0) k \<noteq> None"
  shows "map_of (st_namedServerKeys s1) k \<noteq> None"
  using assms(1,2)
proof (rule extension_step)
  fix u entry ev u'
  assume S: "s0 = at_head u" "s1 = at_head u'" "accepts api u entry ev u'" "verifier_ok api u" "verifier_ok api u'" "v_seq u \<noteq> 0"
  from S(4,3,6) show ?thesis
  proof (cases rule: accepts_cases)
    case (pending ps)
    with named S show ?thesis by (simp add: at_head_fields)
  next
    case (applied a actor ps)
    with named S apply_named [of "v_state u" k] show ?thesis by (simp add: at_head_fields)
  qed
qed

lemma prefix_named:
  assumes "verifyChain api (vs @ ws) = Accepted st" and "verifyChain api vs = Accepted s"
    and "map_of (st_namedServerKeys s) k \<noteq> None"
  shows "map_of (st_namedServerKeys st) k \<noteq> None"
  using assms(1)
proof (induction ws arbitrary: st rule: rev_induct)
  case Nil
  with assms(2,3) show ?case by simp
next
  case (snoc w ws)
  have "vs \<noteq> []" using assms(2) by (auto simp: verifyChain_Accepted)
  then have "1 \<le> length (vs @ ws)" by (cases vs) simp_all
  with prefix_accepted [OF snoc.prems, of "length (vs @ ws)"] obtain u where "verifyChain api (vs @ ws) = Accepted u" by auto
  with snoc.IH [OF this] extension_named [OF this, of w st k] snoc.prems show ?case by simp
qed

end
