(* ===== verification/Chain_Writing.thy ===== *)
theory Chain_Writing
  imports Chain_Steps
begin

text \<open>
  The wire form of a typed entry: the JavaScript object whose fields are the ones the reader looks
  at. A well-formed entry survives the round trip, and the checks of the verifying loop accept its
  wire form exactly when they accept the entry, so every typed chain is a chain of the loop's input.
\<close>

section \<open>Writing\<close>

definition write_scope :: "'a scope_payload_fields_scheme \<Rightarrow> (string \<times> js_value) list" where
  "write_scope p =
     [(''scopeKind'', JString (scope_kind_name (scopeKind p))),
      (''scopeEnvironmentIds'', JArray (map JString (scopeEnvironmentIds p)))]"

definition write_constraint :: "lease_claim_constraint \<Rightarrow> js_value" where
  "write_constraint c = JObject [(''claimName'', JString (claimName c)), (''claimValue'', JString (claimValue c))]"

definition write_issuer :: "lease_policy_issuer \<Rightarrow> js_value" where
  "write_issuer e =
     JObject [(''issuerUrl'', JString (issuerUrl e)), (''audience'', JString (audience e)),
              (''claimConstraints'', JArray (map write_constraint (claimConstraints e)))]"

definition write_checkpoint_environment :: "checkpoint_environment_entry \<Rightarrow> js_value" where
  "write_checkpoint_environment e =
     JObject [(''environmentId'', JString (ck_environmentId e)), (''epoch'', JNumber (ck_epoch e)),
              (''manifestVersion'', JNumber (ck_manifestVersion e)),
              (''manifestSigHashHex'', JString (ck_manifestSigHashHex e)),
              (''valuesDigestHex'', JString (ck_valuesDigestHex e))]"

definition write_payload :: "proposable_operation \<Rightarrow> js_value" where
  "write_payload operation = JObject (case operation of
     Genesis p \<Rightarrow> [(''encPubHex'', JString (gn_encPubHex p)), (''sigPubHex'', JString (gn_sigPubHex p))]
   | Add_Member p \<Rightarrow>
       [(''targetUserId'', JString (am_targetUserId p)), (''encPubHex'', JString (am_encPubHex p)),
        (''sigPubHex'', JString (am_sigPubHex p)), (''role'', JString (role_name (am_role p)))] @ write_scope p
   | Remove_Member target \<Rightarrow> [(''targetUserId'', JString target)]
   | Change_Role p \<Rightarrow>
       [(''targetUserId'', JString (cr_targetUserId p)), (''newRole'', JString (role_name (cr_newRole p)))] @ write_scope p
   | Create_Environment p \<Rightarrow>
       [(''environmentId'', JString (ce_environmentId p)), (''dekCommitmentHex'', JString (ce_dekCommitmentHex p))]
   | Delete_Environment environmentId \<Rightarrow> [(''environmentId'', JString environmentId)]
   | Rotate_Epoch p \<Rightarrow>
       [(''environmentId'', JString (re_environmentId p)), (''newEpoch'', JNumber (re_newEpoch p)),
        (''reason'', JString (re_reason p)), (''dekCommitmentHex'', JString (re_dekCommitmentHex p))]
   | Grant_Server p \<Rightarrow>
       [(''serverEncPubHex'', JString (gs_serverEncPubHex p)),
        (''serverKeyFingerprintHex'', JString (gs_serverKeyFingerprintHex p)),
        (''scopeEnvironmentIds'', JArray (map JString (gs_scopeEnvironmentIds p))),
        (''leasePolicy'', JArray (map write_issuer (gs_leasePolicy p)))]
   | Revoke_Server serverKey \<Rightarrow> [(''serverKeyFingerprintHex'', JString serverKey)]
   | Checkpoint p \<Rightarrow>
       [(''environments'', JArray (map write_checkpoint_environment (cp_environments p))),
        (''auditHeadHashHex'', JString (cp_auditHeadHashHex p))]
   | Set_Approval_Policy p \<Rightarrow>
       [(''ops'', JArray (map (JString \<circ> approval_target_name) (sp_ops p))),
        (''requiredApprovals'', JNumber (sp_requiredApprovals p))]
   | Add_Device p \<Rightarrow>
       [(''encPubHex'', JString (ad_encPubHex p)), (''sigPubHex'', JString (ad_sigPubHex p)),
        (''roleCap'', JString (role_name (ad_roleCap p)))] @ write_scope p
   | Revoke_Device p \<Rightarrow>
       [(''targetUserId'', JString (rd_targetUserId p)),
        (''deviceFingerprintsHex'', JArray (map JString (rd_deviceFingerprintsHex p)))])"

definition write_operation :: "chain_operation \<Rightarrow> js_value" where
  "write_operation operation = (case operation of
     Direct inner \<Rightarrow> write_payload inner
   | Propose p \<Rightarrow>
       JObject [(''inner'', JObject [(''op'', JString (proposable_op_name (pr_inner p))),
                                     (''payload'', write_payload (pr_inner p))]),
                (''expiresAtMs'', JNumber (pr_expiresAtMs p))]
   | Approve h \<Rightarrow> JObject [(''proposalHashHex'', JString h)]
   | Withdraw h \<Rightarrow> JObject [(''proposalHashHex'', JString h)])"

definition write_entry :: "chain_entry \<Rightarrow> js_value" where
  "write_entry entry =
     JObject [(''suite'', JString (entry_suite entry)), (''seq'', JNumber (entry_seq entry)),
              (''prevHashHex'', JString (entry_prevHashHex entry)),
              (''op'', JString (op_name (entry_operation entry))),
              (''payload'', write_operation (entry_operation entry)),
              (''actor'', JObject [(''userId'', JString (actor_userId (entry_actor entry))),
                                   (''keyFingerprintHex'', JString (actor_keyFingerprintHex (entry_actor entry)))]),
              (''timestampMs'', JNumber (entry_timestampMs entry)),
              (''signatureHex'', JString (entry_signatureHex entry))]"

section \<open>Reading what was written\<close>

lemma array_of_map: "(\<And>x. f (g x) = Some x) \<Longrightarrow> array_of f (JArray (map g xs)) = Some xs"
  by (simp add: array_of_def those_Some_iff)

lemma read_write_constraint: "read_constraint (write_constraint c) = Some c"
  by (simp add: read_constraint_def write_constraint_def)

lemma read_write_issuer: "read_issuer (write_issuer e) = Some e"
  by (simp add: read_issuer_def write_issuer_def array_of_map [OF read_write_constraint])

lemma read_write_checkpoint_environment: "read_checkpoint_environment (write_checkpoint_environment e) = Some e"
  by (simp add: read_checkpoint_environment_def write_checkpoint_environment_def)

lemma read_role_name: "read_role (JString (role_name r)) = Some r"
  by simp

lemma read_approval_target_name: "read_approval_target ((JString \<circ> approval_target_name) k) = Some k"
  by simp

lemma read_scope_kind_name: "read_scope_kind (JString (scope_kind_name k)) = Some k"
  by simp

lemma array_of_strings: "array_of as_string (JArray (map JString xs)) = Some xs"
  by (simp add: array_of_map)

lemmas read_writes = array_of_strings array_of_map [OF read_write_issuer]
  array_of_map [OF read_write_checkpoint_environment] array_of_map [OF read_approval_target_name]
  read_role_name read_scope_kind_name

lemma read_write_payload:
  "read_in_table PROPOSABLE_READERS (JString (proposable_op_name operation)) (write_payload operation) = Some operation"
  by (cases operation)
    (simp_all add: read_in_table_def PROPOSABLE_READERS_def proposable_op_name_def write_payload_def write_scope_def
      read_genesis_def read_add_member_def read_change_role_def read_scope_def read_create_environment_def
      read_rotate_epoch_def read_grant_server_def read_checkpoint_def read_set_approval_policy_def
      read_add_device_def read_revoke_device_def read_writes del: map_map)

lemma read_write_propose: "read_propose (write_operation (Propose p)) = Some p"
  by (simp add: read_propose_def write_operation_def read_write_payload)

lemma read_write_operation:
  "read_operation (JString (op_name operation)) (write_operation operation) = Some operation"
proof (cases operation)
  case (Direct inner)
  have "\<exists>reader. map_of PROPOSABLE_READERS (proposable_op_name inner) = Some reader \<and>
      reader (write_payload inner) = Some inner"
    using read_write_payload [of inner] by (auto simp: read_in_table_def Option.bind_eq_Some_conv)
  with Direct show ?thesis
    by (auto simp: read_operation_def read_in_table_def read_approval_rows op_name_def write_operation_def)
next
  case (Propose p)
  then show ?thesis
    by (simp add: read_operation_def read_in_table_def read_approval_rows approval_names_not_proposable op_name_def
        read_write_propose)
qed (simp_all add: read_operation_def read_in_table_def read_approval_rows approval_names_not_proposable op_name_def
    write_operation_def)

lemma read_write_entry: "read_entry (write_entry entry) = Some entry"
  by (simp add: read_entry_def write_entry_def read_actor_def read_write_operation)

lemma hex_of_length_chars: "hex_of_length n s \<Longrightarrow> length s = 2 * n"
  by (auto simp: hex_of_length_def dest: length_decode_hex)

lemma shape_write_entry:
  assumes "entry_ok entry"
  shows "checkPayloadShape (write_entry entry) = None"
proof -
  have "operationShapeOk (JString (op_name (entry_operation entry))) (write_operation (entry_operation entry))"
    using assms by (simp add: operation_shape_iff read_write_operation entry_ok_def)
  then show ?thesis
    using assms by (simp add: checkPayloadShape_def write_entry_def entry_ok_def isHexOfLength_iff bounded_id_def
        del: isHexOfLength.simps)
qed

section \<open>The checks on the wire form\<close>

lemma framing_write_entry:
  "checkFraming (write_entry entry) n prev = None \<longleftrightarrow>
     entry_suite entry = SUITE_ID \<and> entry_seq entry = n \<and> entry_prevHashHex entry = prev \<and>
     (n = 1 \<longleftrightarrow> op_name (entry_operation entry) = lit ''genesis'')"
  by (auto simp: checkFraming_def write_entry_def)

lemma check_write_entry:
  assumes "passes_checks api entry v"
  shows "checkEntryBeforeApply api (write_entry entry) (v_seq v + 1) (v_prevHash v) (v_state v) = Accepted entry"
proof -
  have "checkFraming (write_entry entry) (v_seq v + 1) (v_prevHash v) = None"
    using assms by (simp add: framing_write_entry passes_checks_def)
  moreover have "checkPayloadShape (write_entry entry) = None"
    using assms by (simp add: shape_write_entry passes_checks_def)
  moreover have "is_record (write_entry entry)" by (simp add: write_entry_def)
  ultimately show ?thesis
    using assms by (simp add: checkEntryBeforeApply_def read_write_entry passes_checks_def)
qed

lemma step_write_entry:
  assumes "accepts api v entry ev v'"
  shows "verify_step api v (write_entry entry) = Accepted v'"
  using assms by (rule acceptsE) (simp add: verify_step_def apply_checked_def check_write_entry Let_def)

lemma run_write_chain:
  assumes "reached api history es v"
  shows "run_loop (verify_step api) (start_verifier history) (map write_entry es) = Accepted v"
  using assms
proof (induction rule: reached.induct)
  case (reached_next es v entry evaluated v')
  then show ?case by (simp add: run_loop_snoc_Accepted step_write_entry)
qed simp

text \<open>The loop accepts a list of values exactly when they read as a chain of accepted entries.\<close>

lemma step_iff_accepts:
  "verify_step api v e = Accepted v' \<longleftrightarrow>
     (\<exists>entry ev. checkEntryBeforeApply api e (v_seq v + 1) (v_prevHash v) (v_state v) = Accepted entry \<and>
        accepts api v entry ev v')"
proof
  assume step: "verify_step api v e = Accepted v'"
  then obtain entry where "checkEntryBeforeApply api e (v_seq v + 1) (v_prevHash v) (v_state v) = Accepted entry"
    by (auto simp: verify_step_def fail_def Let_def split: outcome.splits)
  moreover from this have "read_entry e = Some entry" by (blast dest: checked_passes)
  moreover obtain entry' ev where "read_entry e = Some entry'" and "accepts api v entry' ev v'"
    using step by (rule verify_step_Accepted)
  ultimately show "\<exists>entry ev. checkEntryBeforeApply api e (v_seq v + 1) (v_prevHash v) (v_state v) = Accepted entry \<and>
        accepts api v entry ev v'" by auto
next
  assume "\<exists>entry ev. checkEntryBeforeApply api e (v_seq v + 1) (v_prevHash v) (v_state v) = Accepted entry \<and>
        accepts api v entry ev v'"
  then obtain entry ev where checked: "checkEntryBeforeApply api e (v_seq v + 1) (v_prevHash v) (v_state v) = Accepted entry"
    and acc: "accepts api v entry ev v'" by blast
  from acc show "verify_step api v e = Accepted v'"
    by (rule acceptsE) (simp add: verify_step_def apply_checked_def checked Let_def)
qed

end
