(* ===== verification/Chain_Totality.thy ===== *)
theory Chain_Totality
  imports Chain_Canonical Chain_Reading
begin

text \<open>
  The canonical encoder is total where the structure check passed: an entry with well-formed fields
  has canonical bytes, so neither signature checking nor hashing fails on it for a reason other than
  its content. Two lists of an entry have no length limit in the source (the environments of a
  checkpoint and the operations of an approval policy); they are bounded by a million elements here,
  far above what fits a request and far below the encoder's 4 GiB limit.
\<close>

definition fits :: "nat \<Rightarrow> lp_field \<Rightarrow> bool" where
  "fits n f \<longleftrightarrow> (\<exists>b. lp_body f = Some b \<and> length b \<le> n)"

lemma fits_mono: "fits n f \<Longrightarrow> n \<le> m \<Longrightarrow> fits m f"
  by (auto simp: fits_def)

lemma encode_lp_fits:
  assumes "list_all (fits n) fs" and "n \<le> uint32_max"
  shows "\<exists>b. encode_lp fs = Some b \<and> length b \<le> (n + 4) * length fs"
  using assms
proof (induction fs)
  case (Cons f fs)
  then obtain body rest where "lp_body f = Some body" "length body \<le> n"
    and "encode_lp fs = Some rest" "length rest \<le> (n + 4) * length fs"
    by (auto simp: fits_def)
  with Cons.prems(2) show ?case by (simp add: encode_lp.simps)
qed (simp add: encode_lp.simps)

lemma fits_within: "withinFieldBytes s \<Longrightarrow> fits 1024 (LpStr s)"
  by (simp add: fits_def withinFieldBytes_def MAX_FIELD_BYTES_def)

lemma fits_id: "bounded_id s \<Longrightarrow> fits 1024 (LpStr s)"
  by (simp add: bounded_id_def fits_within)

lemma fits_ascii: "list_all (\<lambda>u. unat u < 0x80) s \<Longrightarrow> fits (length s) (LpStr s)"
  by (simp add: fits_def ascii_utf8)

lemma fits_hex: "fits (2 * length b) (LpStr (encode_hex b))"
  using fits_ascii [of "encode_hex b"] decode_hex_ascii [OF decode_encode_hex] by simp

lemma fits_hex_le: "length b \<le> n \<Longrightarrow> fits (2 * n) (LpStr (encode_hex b))"
  by (rule fits_mono [OF fits_hex]) simp

lemma fits_hex_of_length: "hex_of_length n s \<Longrightarrow> fits (2 * n) (LpStr s)"
  by (auto simp: hex_of_length_def dest: encode_decode_hex intro: fits_hex)

lemma fits_short: "3 * length s \<le> n \<Longrightarrow> fits n (LpStr s)"
  using length_utf8_encode_le [of s] by (simp add: fits_def)

lemma fits_num: "0 \<le> n \<Longrightarrow> safe_int n \<Longrightarrow> fits 16 (LpNum n)"
proof -
  assume n: "0 \<le> n" "safe_int n"
  then have "nat n < 10 ^ Suc 15" by (simp add: safe_int_def max_safe_integer_def nat_less_iff)
  then have "length (decimal (nat n)) \<le> Suc 15" by (rule length_decimal_digits)
  with n show ?thesis by (simp add: fits_def ascii_utf8 decimal_ascii)
qed

lemma length_names [simp]:
  "length (role_name r) \<le> 8" "length (scope_kind_name k) \<le> 8" "length (approval_target_name t) \<le> 32"
  "length (proposable_op_name p) \<le> 32" "length (op_name x) \<le> 32"
proof -
  show names: "length (proposable_op_name p) \<le> 32" for p
    by (simp add: proposable_op_name_def split: proposable_operation.split)
  show "length (op_name x) \<le> 32"
    using names by (simp add: op_name_def split: chain_operation.split)
qed (simp_all add: role_name_def scope_kind_name_def approval_target_name_def
    split: role.split scope_kind.split approval_target_op.split)

section \<open>Nested encodings\<close>

definition encodes :: "nat \<Rightarrow> bytes option \<Rightarrow> bool" where
  "encodes n r \<longleftrightarrow> (\<exists>b. r = Some b \<and> length b \<le> n)"

lemma encodes_mono: "encodes n r \<Longrightarrow> n \<le> m \<Longrightarrow> encodes m r"
  by (auto simp: encodes_def)

lemma encodes_lp: "list_all (fits n) fs \<Longrightarrow> n \<le> uint32_max \<Longrightarrow> (n + 4) * length fs \<le> m \<Longrightarrow> encodes m (encode_lp fs)"
  using encode_lp_fits [of n fs] by (auto simp: encodes_def)

lemma encodes_lp_list:
  assumes "list_all (\<lambda>x. encodes n (f x)) xs" and "n \<le> uint32_max" and "(n + 4) * length xs \<le> m"
  shows "encodes m (lp_of_encodings (map f xs))"
proof -
  have "\<exists>bs. those (map f xs) = Some bs \<and> length bs = length xs \<and> list_all (fits n) (map LpBytes bs)"
    using assms(1)
    by (induction xs) (auto simp: encodes_def fits_def)
  then obtain bs where bs: "those (map f xs) = Some bs" "length bs = length xs" "list_all (fits n) (map LpBytes bs)"
    by blast
  with encodes_lp [OF bs(3) assms(2), of m] assms(3) show ?thesis
    by (simp add: lp_of_encodings_def)
qed

lemma encodes_bind_hex:
  assumes "encodes n r" and "\<And>h. fits (2 * n) (LpStr (encode_hex h)) \<Longrightarrow> encodes m (k h)"
  shows "encodes m (Option.bind r k)"
  using assms fits_hex_le by (auto simp: encodes_def)

lemma encodes_strings:
  "list_all (\<lambda>s. fits n (LpStr s)) ss \<Longrightarrow> n \<le> uint32_max \<Longrightarrow> (n + 4) * length ss \<le> m \<Longrightarrow>
   encodes m (encode_lp (map LpStr ss))"
  by (rule encodes_lp) (simp_all add: list.pred_map comp_def)

lemma bounded_ids_fit: "list_all bounded_id ids \<Longrightarrow> list_all (\<lambda>s. fits 1024 (LpStr s)) ids"
  by (auto simp: list_all_iff intro: fits_id)

section \<open>Payloads\<close>

definition bounded_lists :: "proposable_operation \<Rightarrow> bool" where
  "bounded_lists operation = (case operation of
     Checkpoint p \<Rightarrow> length (cp_environments p) \<le> 10000
   | Set_Approval_Policy p \<Rightarrow> length (sp_ops p) \<le> 10000
   | _ \<Rightarrow> True)"

lemma scope_hex_fits:
  assumes "scope_fields_ok p"
  obtains h where "canonicalScopeEnvironmentsHex (scopeEnvironmentIds p) = Some h" and "fits 600000 (LpStr h)"
proof -
  have "encodes 300000 (encode_lp (map LpStr (scopeEnvironmentIds p)))"
    by (rule encodes_strings [of 1024])
      (use assms in \<open>auto simp: scope_fields_ok_def MAX_SCOPE_ENVIRONMENTS_def uint32_max_def intro: bounded_ids_fit\<close>)
  then show ?thesis
    using that fits_hex_le [of _ 300000] by (auto simp: encodes_def canonicalScopeEnvironmentsHex_def)
qed

lemma encodes_scope_fields:
  assumes "list_all (fits 1024) fs" and "length fs \<le> 4" and "scope_fields_ok p"
  shows "encodes 4000000 (with_scope_fields fs p)"
proof -
  from assms(3) obtain h where h: "canonicalScopeEnvironmentsHex (scopeEnvironmentIds p) = Some h"
    and "fits 600000 (LpStr h)"
    by (rule scope_hex_fits)
  moreover have "fits 600000 (LpStr (scope_kind_name (scopeKind p)))"
    by (rule fits_short) (use length_names(2) [of "scopeKind p"] in linarith)
  moreover have "list_all (fits 600000) fs"
    using assms(1) by (rule list.pred_mono_strong) (auto intro: fits_mono)
  ultimately have "encodes 4000000
      (encode_lp (fs @ [LpStr (scope_kind_name (scopeKind p)), LpStr h]))"
    using assms(2) by (intro encodes_lp [of 600000]) (simp_all add: uint32_max_def)
  with h show ?thesis by (simp add: with_scope_fields_def)
qed

lemma encodes_lease_policy:
  assumes "list_all issuer_ok es" and "length es \<le> MAX_LEASE_POLICY_ISSUERS"
  shows "encodes 400000 (canonicalLeasePolicyBytes es)"
proof -
  have constraint: "encodes 2056 (canonicalLeaseConstraintBytes c)" if "constraint_ok c" for c
    unfolding canonicalLeaseConstraintBytes_def
    by (rule encodes_lp [of 1024])
      (use that in \<open>auto simp: constraint_ok_def uint32_max_def intro: fits_id fits_within\<close>)
  have issuer: "encodes 49452 (canonicalLeaseIssuerBytes e)" if ok: "issuer_ok e" for e
  proof -
    have "list_all (\<lambda>c. encodes 2056 (canonicalLeaseConstraintBytes c)) (claimConstraints e)"
      using ok constraint by (auto simp: issuer_ok_def list_all_iff)
    then have "encodes 16480 (lp_of_encodings (map canonicalLeaseConstraintBytes (claimConstraints e)))"
      by (rule encodes_lp_list) (use ok in \<open>auto simp: issuer_ok_def MAX_LEASE_CLAIM_CONSTRAINTS_def uint32_max_def\<close>)
    then obtain cs where cs: "lp_of_encodings (map canonicalLeaseConstraintBytes (claimConstraints e)) = Some cs"
      and "fits 16480 (LpBytes cs)"
      by (auto simp: encodes_def fits_def)
    moreover have "fits 16480 (LpStr (issuerUrl e))" "fits 16480 (LpStr (audience e))"
      using ok by (auto simp: issuer_ok_def intro: fits_mono [OF fits_id])
    ultimately show ?thesis
      unfolding canonicalLeaseIssuerBytes_def cs bind.simps
      by (intro encodes_lp [of 16480]) (simp_all add: uint32_max_def)
  qed
  have "list_all (\<lambda>e. encodes 49452 (canonicalLeaseIssuerBytes e)) es"
    using assms(1) issuer by (auto simp: list_all_iff)
  then show ?thesis
    unfolding canonicalLeasePolicyBytes_def
    by (rule encodes_lp_list) (use assms(2) in \<open>simp_all add: MAX_LEASE_POLICY_ISSUERS_def uint32_max_def\<close>)
qed

lemma fits_name:
  "fits 1024 (LpStr (role_name r))" "fits 1024 (LpStr (approval_target_name t))"
  "fits 1024 (LpStr (proposable_op_name i))" "fits 1024 (LpStr (op_name x))"
  by (rule fits_short, use length_names(1) [of r] in linarith)
    (rule fits_short, use length_names(3) [of t] in linarith,
     rule fits_short, use length_names(4) [of i] in linarith,
     rule fits_short, use length_names(5) [of x] in linarith)

lemma fits_hex_field: "hex_of_length n s \<Longrightarrow> n \<le> 512 \<Longrightarrow> fits 1024 (LpStr s)"
  by (rule fits_mono [OF fits_hex_of_length]) simp_all

lemma fits_number: "0 \<le> n \<Longrightarrow> safe_int n \<Longrightarrow> fits 1024 (LpNum n)"
  by (rule fits_mono [OF fits_num]) simp_all

lemmas fits_fields = fits_id fits_within fits_name fits_number
  fits_hex_field [of 16, simplified] fits_hex_field [of 32, simplified] fits_hex_field [of 64, simplified]

lemma encodes_plain:
  "list_all (fits 1024) fs \<Longrightarrow> length fs \<le> 5 \<Longrightarrow> encodes 6000000 (encode_lp fs)"
  by (rule encodes_lp [of 1024]) (simp_all add: uint32_max_def)

lemma encodes_hex_payload:
  assumes "encodes 60000000 r" and "\<And>h. fits 120000000 (LpStr (encode_hex h)) \<Longrightarrow> list_all (fits 120000000) (fs h)"
    and "\<And>h. length (fs h) \<le> 2"
  shows "encodes 250000000 (Option.bind r (\<lambda>h. encode_lp (fs h)))"
proof (rule encodes_bind_hex [OF assms(1)])
  fix h :: bytes
  assume "fits (2 * 60000000) (LpStr (encode_hex h))"
  then have "fits 120000000 (LpStr (encode_hex h))" by simp
  then show "encodes 250000000 (encode_lp (fs h))"
    using assms(2,3) [of h] by (intro encodes_lp [of 120000000]) (simp_all add: uint32_max_def)
qed

lemma checkpoint_bytes:
  assumes "list_all checkpoint_entry_ok es" and "length es \<le> 10000"
  shows "encodes 60000000 (canonicalCheckpointEnvironmentsBytes es)"
proof -
  have "encodes 5140 (canonicalCheckpointEnvironmentBytes e)" if "checkpoint_entry_ok e" for e
    unfolding canonicalCheckpointEnvironmentBytes_def
    by (rule encodes_lp [of 1024])
      (use that in \<open>auto simp: checkpoint_entry_ok_def uint32_max_def SHA256_BYTES_def intro: fits_fields\<close>)
  with assms(1) have "list_all (\<lambda>e. encodes 5140 (canonicalCheckpointEnvironmentBytes e)) es"
    by (auto simp: list_all_iff)
  then show ?thesis
    unfolding canonicalCheckpointEnvironmentsBytes_def
    by (rule encodes_lp_list) (use assms(2) in \<open>simp_all add: uint32_max_def\<close>)
qed

lemma fits_big: "fits 1024 f \<Longrightarrow> fits 120000000 f"
  by (erule fits_mono) simp

lemma grant_bytes:
  assumes ok: "proposable_ok (Grant_Server p)"
  shows "encodes 250000000 (canonicalProposablePayloadBytes (Grant_Server p))"
proof -
  have ids: "list_all (\<lambda>s. fits 1024 (LpStr s)) (gs_scopeEnvironmentIds p)"
    and len: "length (gs_scopeEnvironmentIds p) \<le> 256"
    using ok by (auto simp: proposable_ok_def MAX_SCOPE_ENVIRONMENTS_def intro: bounded_ids_fit)
  have scope: "encodes 300000 (encode_lp (map LpStr (gs_scopeEnvironmentIds p)))"
    by (rule encodes_strings [OF ids]) (use len in \<open>simp_all add: uint32_max_def\<close>)
  have lease: "encodes 400000 (canonicalLeasePolicyBytes (gs_leasePolicy p))"
    by (rule encodes_lease_policy) (use ok in \<open>auto simp: proposable_ok_def\<close>)
  have "fits 800000 (LpStr (gs_serverEncPubHex p))" "fits 800000 (LpStr (gs_serverKeyFingerprintHex p))"
    using ok by (auto simp: proposable_ok_def FINGERPRINT_BYTES_def intro: fits_mono [OF fits_hex_field, of _ _ 800000])
  then have "encodes 250000000 (encode_lp [LpStr (gs_serverEncPubHex p), LpStr (gs_serverKeyFingerprintHex p),
      LpStr (encode_hex a), LpStr (encode_hex b)])"
    if "fits (2 * 300000) (LpStr (encode_hex a))" and "fits (2 * 400000) (LpStr (encode_hex b))" for a b
    using that fits_mono [OF that(1), of 800000]
    by (intro encodes_lp [of 800000]) (simp_all add: uint32_max_def)
  then show ?thesis
    unfolding canonicalProposablePayloadBytes_def
    by (simp only: proposable_operation.case) (intro encodes_bind_hex [OF scope] encodes_bind_hex [OF lease])
qed

lemma proposable_bytes:
  assumes ok: "proposable_ok operation" and lists: "bounded_lists operation"
  shows "encodes 250000000 (canonicalProposablePayloadBytes operation)"
proof (cases operation)
  case (Grant_Server p)
  with ok show ?thesis by (simp add: grant_bytes)
next
  case (Checkpoint p)
  have audit: "fits 1024 (LpStr (cp_auditHeadHashHex p))"
    using ok Checkpoint
    by (auto simp: proposable_ok_def SHA256_BYTES_def intro: fits_hex_field fits_short)
  have "encodes 60000000 (canonicalCheckpointEnvironmentsBytes (cp_environments p))"
    by (rule checkpoint_bytes) (use ok lists Checkpoint in \<open>auto simp: proposable_ok_def bounded_lists_def\<close>)
  from encodes_hex_payload [OF this, of "\<lambda>h. [LpStr (encode_hex h), LpStr (cp_auditHeadHashHex p)]"]
  show ?thesis using Checkpoint fits_big [OF audit] by (simp add: canonicalProposablePayloadBytes_def)
next
  case (Set_Approval_Policy p)
  have "list_all (\<lambda>s. fits 1024 (LpStr s)) (map approval_target_name (sp_ops p))"
    by (simp add: list_all_iff fits_name)
  then have "encodes 60000000 (encode_lp (map LpStr (map approval_target_name (sp_ops p))))"
    by (rule encodes_strings) (use lists Set_Approval_Policy in \<open>simp_all add: bounded_lists_def uint32_max_def\<close>)
  then have ops: "encodes 60000000 (encode_lp (map (LpStr \<circ> approval_target_name) (sp_ops p)))" by simp
  have "fits 1024 (LpNum (sp_requiredApprovals p))"
    using ok Set_Approval_Policy
    by (auto simp: proposable_ok_def MIN_ACTIVE_REQUIRED_APPROVALS_def intro: fits_mono [OF fits_num])
  from fits_big [OF this] encodes_hex_payload [OF ops, of "\<lambda>h. [LpStr (encode_hex h), LpNum (sp_requiredApprovals p)]"]
  show ?thesis using Set_Approval_Policy by (simp add: canonicalProposablePayloadBytes_def)
next
  case (Revoke_Device p)
  have "list_all (\<lambda>s. fits 1024 (LpStr s)) (rd_deviceFingerprintsHex p)"
    using ok Revoke_Device by (auto simp: proposable_ok_def list_all_iff FINGERPRINT_BYTES_def intro: fits_hex_field)
  then have fps: "encodes 60000000 (encode_lp (map LpStr (rd_deviceFingerprintsHex p)))"
    by (rule encodes_strings)
      (use ok Revoke_Device in \<open>simp_all add: proposable_ok_def MAX_REVOKE_DEVICE_FINGERPRINTS_def uint32_max_def\<close>)
  have "fits 1024 (LpStr (rd_targetUserId p))"
    using ok Revoke_Device by (auto simp: proposable_ok_def intro: fits_id)
  from fits_big [OF this] encodes_hex_payload [OF fps, of "\<lambda>h. [LpStr (rd_targetUserId p), LpStr (encode_hex h)]"]
  show ?thesis using Revoke_Device by (simp add: canonicalProposablePayloadBytes_def)
next
  case (Add_Member p)
  with ok show ?thesis
    by (auto simp: canonicalProposablePayloadBytes_def proposable_ok_def
        fits_fields intro!: encodes_mono [OF encodes_scope_fields])
next
  case (Change_Role p)
  with ok show ?thesis
    by (auto simp: canonicalProposablePayloadBytes_def proposable_ok_def
        fits_fields intro!: encodes_mono [OF encodes_scope_fields])
next
  case (Add_Device p)
  with ok show ?thesis
    by (auto simp: canonicalProposablePayloadBytes_def proposable_ok_def
        fits_fields intro!: encodes_mono [OF encodes_scope_fields])
qed (use ok in \<open>auto simp: canonicalProposablePayloadBytes_def proposable_ok_def SHA256_BYTES_def FINGERPRINT_BYTES_def
      fits_fields intro!: encodes_mono [OF encodes_plain]\<close>)

section \<open>Entries\<close>

definition bounded_operation :: "chain_operation \<Rightarrow> bool" where
  "bounded_operation operation = (case operation of
     Direct inner \<Rightarrow> bounded_lists inner | Propose p \<Rightarrow> bounded_lists (pr_inner p) | _ \<Rightarrow> True)"

lemma payload_bytes:
  assumes "operation_ok operation" and "bounded_operation operation"
  shows "encodes 2000000000 (canonicalChainPayloadBytes operation)"
proof (cases operation)
  case (Direct inner)
  with assms show ?thesis
    by (auto simp: canonicalChainPayloadBytes_def operation_ok_def bounded_operation_def
        intro: encodes_mono [OF proposable_bytes])
next
  case (Propose p)
  have inner: "encodes 250000000 (canonicalProposablePayloadBytes (pr_inner p))"
    using assms Propose by (auto simp: operation_ok_def bounded_operation_def intro: proposable_bytes)
  have "fits 500000000 (LpNum (pr_expiresAtMs p))"
    using assms(1) Propose by (auto simp: operation_ok_def intro: fits_mono [OF fits_num])
  moreover have "fits 500000000 (LpStr (proposable_op_name (pr_inner p)))"
    by (rule fits_mono [OF fits_name(3)]) simp
  ultimately have "encodes 2000000000 (Option.bind (canonicalProposablePayloadBytes (pr_inner p))
      (\<lambda>h. encode_lp [LpStr (proposable_op_name (pr_inner p)), LpStr (encode_hex h), LpNum (pr_expiresAtMs p)]))"
    by (intro encodes_bind_hex [OF inner] encodes_lp [of 500000000]) (simp_all add: uint32_max_def)
  then show ?thesis by (simp add: Propose canonicalChainPayloadBytes_def)
qed (use assms in \<open>auto simp: canonicalChainPayloadBytes_def operation_ok_def SHA256_BYTES_def
      fits_fields intro!: encodes_mono [OF encodes_plain]\<close>)

lemma entry_bytes_defined:
  assumes "entry_ok entry" and "entry_suite entry = SUITE_ID" and "0 \<le> entry_seq entry" and "safe_int (entry_seq entry)"
    and "hex_of_length SHA256_BYTES (entry_prevHashHex entry)" and "bounded_operation (entry_operation entry)"
  shows "\<exists>b. canonicalChainSignedBytes entry = Some b" and "\<exists>b. canonicalChainEntryBytes entry = Some b"
proof -
  obtain payload where payload: "canonicalChainPayloadBytes (entry_operation entry) = Some payload"
    and len: "length payload \<le> 2000000000"
    using payload_bytes [of "entry_operation entry"] assms(1,6) by (auto simp: entry_ok_def encodes_def)
  have "list_all (fits 1024) [LpStr (entry_suite entry), LpNum (entry_seq entry), LpStr (entry_prevHashHex entry),
      LpStr (op_name (entry_operation entry)), LpStr (actor_userId (entry_actor entry)),
      LpStr (actor_keyFingerprintHex (entry_actor entry)), LpNum (entry_timestampMs entry),
      LpStr (entry_signatureHex entry)]"
    using assms(1-5)
    by (auto simp: entry_ok_def SUITE_ID_def SHA256_BYTES_def FINGERPRINT_BYTES_def SIGNATURE_BYTES_def
        fits_fields intro: fits_short)
  moreover have "fits 2000000000 (LpBytes payload)" using len by (simp add: fits_def)
  ultimately have "list_all (fits 2000000000) (signed_fields entry payload @ [LpStr (entry_signatureHex entry)])"
    by (auto simp: signed_fields_def intro: fits_mono [of 1024])
  then have "list_all short_field (signed_fields entry payload @ [LpStr (entry_signatureHex entry)])"
    by (auto simp: list_all_iff fits_def short_field_def uint32_max_def intro: order_trans)
  then show "\<exists>b. canonicalChainSignedBytes entry = Some b" and "\<exists>b. canonicalChainEntryBytes entry = Some b"
    by (simp_all add: canonicalChainSignedBytes_def canonicalChainEntryBytes_def payload encode_lp_defined)
qed

end
