(* ===== verification/Chain_History_Refinement.thy ===== *)
theory Chain_History_Refinement
  imports Chain_Authority
begin

text \<open>
  The history index answers with the state the verifier had at the queried entry. Two facts carry
  the proof: a recording at one sequence number leaves the answers for earlier numbers alone, and
  after each entry the index agrees with the state at the head.
\<close>

section \<open>Answers without the range check\<close>

definition tenures_of :: "chain_history_builder \<Rightarrow> user_id \<Rightarrow> tenure_record list" where
  "tenures_of h u = (case map_of (tenures h) u of None \<Rightarrow> [] | Some ts \<Rightarrow> ts)"

definition tenure_covers :: "int \<Rightarrow> tenure_record \<Rightarrow> bool" where
  "tenure_covers k t \<longleftrightarrow> startSeq t \<le> k \<and> (case endSeq t of None \<Rightarrow> True | Some e \<Rightarrow> k < e)"

type_synonym member_view = "(role \<times> member_scope \<times> (fingerprint, chain_device) js_map) option"

definition tenure_view :: "int \<Rightarrow> tenure_record \<Rightarrow> member_view" where
  "tenure_view k t = map_option (\<lambda>sp. (span_role sp, span_scope sp, activeDevicesAt t k)) (spanAt t k)"

definition member_view_at :: "chain_history_builder \<Rightarrow> user_id \<Rightarrow> int \<Rightarrow> member_view" where
  "member_view_at h u k = Option.bind (find (tenure_covers k) (tenures_of h u)) (tenure_view k)"

definition member_view :: "mutable_chain_state \<Rightarrow> user_id \<Rightarrow> member_view" where
  "member_view st u = map_option (\<lambda>m. (mem_role m, mem_scope m, devices m)) (map_of (members st) u)"

lemma last_until_append:
  "k < from y \<Longrightarrow> last_until from k c (xs @ [y]) = last_until from k c xs"
  by (induction xs arbitrary: c) auto

lemma last_until_all:
  "\<forall>x \<in> set xs. from x \<le> k \<Longrightarrow> last_until from k c xs = (if xs = [] then c else Some (last xs))"
  by (induction xs arbitrary: c) auto

section \<open>Earlier answers are stable\<close>

text \<open>A recording at \<open>s\<close> that changes an open tenure leaves it as it was for every earlier number.\<close>

definition preserves_before :: "int \<Rightarrow> (tenure_record \<Rightarrow> tenure_record) \<Rightarrow> bool" where
  "preserves_before s f \<longleftrightarrow>
     (\<forall>t k. endSeq t = None \<longrightarrow> k < s \<longrightarrow>
        tenure_covers k (f t) = tenure_covers k t \<and> tenure_view k (f t) = tenure_view k t)"

lemma tenures_of_on_open:
  "tenures_of (on_open_tenure u f h) x = (if x = u then on_open_last f (tenures_of h u) else tenures_of h x)"
  by (simp add: tenures_of_def on_open_tenure_def on_open_last_def split: option.split)

lemma find_append: "find P (xs @ ys) = (case find P xs of None \<Rightarrow> find P ys | Some x \<Rightarrow> Some x)"
  by (induction xs) auto

lemma on_open_last_before:
  assumes "preserves_before s f" and "k < s"
  shows "Option.bind (find (tenure_covers k) (on_open_last f ts)) (tenure_view k) =
     Option.bind (find (tenure_covers k) ts) (tenure_view k)"
proof (cases "ts = [] \<or> endSeq (last ts) \<noteq> None")
  case False
  then have ts: "ts = butlast ts @ [last ts]" by simp
  have "tenure_covers k (f (last ts)) = tenure_covers k (last ts)"
    and "tenure_view k (f (last ts)) = tenure_view k (last ts)"
    using assms False by (auto simp: preserves_before_def)
  then have "Option.bind (find (tenure_covers k) (butlast ts @ [f (last ts)])) (tenure_view k) =
     Option.bind (find (tenure_covers k) (butlast ts @ [last ts])) (tenure_view k)"
    by (auto simp: find_append split: option.split)
  with False ts show ?thesis by (simp add: on_open_last_def)
qed (auto simp: on_open_last_def)

lemma on_open_tenure_before:
  "preserves_before s f \<Longrightarrow> k < s \<Longrightarrow> member_view_at (on_open_tenure u f h) x k = member_view_at h x k"
  by (simp add: member_view_at_def tenures_of_on_open on_open_last_before)

lemma fold_cong_append:
  "(\<And>x acc. x \<in> set xs \<Longrightarrow> f (g x) acc = f x acc) \<Longrightarrow> fold f (map g xs) acc = fold f xs acc"
  by (induction xs arbitrary: acc) auto

lemma revoke_record_before:
  assumes "k < s"
  shows "deviceActiveAt (revoke_record s fps r) k = deviceActiveAt r k" and "deviceAt (revoke_record s fps r) k = deviceAt r k"
    and "rec_device (revoke_record s fps r) = rec_device r"
  using assms by (auto simp: revoke_record_def deviceActiveAt_def deviceAt_def split: option.split)

lemma prune_record_before:
  assumes "k < s"
  shows "deviceActiveAt (prune_device_record e s r) k = deviceActiveAt r k"
    and "deviceAt (prune_device_record e s r) k = deviceAt r k"
    and "rec_device (prune_device_record e s r) = rec_device r"
  using assms
  by (auto simp: prune_device_record_def deviceActiveAt_def deviceAt_def Let_def last_until_append split: option.split)

lemma prune_span_before: "k < s \<Longrightarrow> last_until span_fromSeq k None (prune_span e s ss) = last_until span_fromSeq k None ss"
  by (simp add: prune_span_def Let_def last_until_append)

lemma preserves_before_ops:
  "preserves_before s (\<lambda>t. t\<lparr>ten_devices := map (revoke_record s fps) (ten_devices t)\<rparr>)"
  "preserves_before s (\<lambda>t. t\<lparr>spans := spans t @ [\<lparr>span_fromSeq = s, span_role = r, span_scope = sc\<rparr>]\<rparr>)"
  "preserves_before s (\<lambda>t. t\<lparr>endSeq := Some s\<rparr>)"
  "preserves_before s (pruneTenureAt e s)"
  "addedSeq d = s \<Longrightarrow>
     preserves_before s (\<lambda>t. t\<lparr>ten_devices := ten_devices t @ [\<lparr>rec_device = d, revokedSeq = None, capChanges = []\<rparr>]\<rparr>)"
  by (auto simp: preserves_before_def tenure_covers_def tenure_view_def spanAt_def activeDevicesAt_def
      pruneTenureAt_def last_until_append prune_span_before revoke_record_before prune_record_before
      deviceActiveAt_def [of "\<lparr>rec_device = _, revokedSeq = _, capChanges = _\<rparr>"]
      intro!: fold_cong_append arg_cong [where f = "\<lambda>g. map_option g _"] split: option.split)

lemma tenure_start_before:
  assumes "k < s"
  shows "member_view_at (recordTenureStart u s d r sc h) x k = member_view_at h x k"
proof -
  let ?t = "\<lparr>startSeq = s, endSeq = None, ten_devices = [\<lparr>rec_device = d, revokedSeq = None, capChanges = []\<rparr>],
             spans = [\<lparr>span_fromSeq = s, span_role = r, span_scope = sc\<rparr>]\<rparr>"
  have "tenures_of (recordTenureStart u s d r sc h) x = (if x = u then tenures_of h u @ [?t] else tenures_of h x)"
    by (simp add: tenures_of_def recordTenureStart_def Let_def split: option.split)
  moreover have "\<not> tenure_covers k ?t" using assms by (simp add: tenure_covers_def)
  ultimately show ?thesis by (auto simp: member_view_at_def find_append split: option.split)
qed

lemma fold_on_open_before:
  "preserves_before s f \<Longrightarrow> k < s \<Longrightarrow>
   member_view_at (fold (\<lambda>u. on_open_tenure u f) us h) x k = member_view_at h x k"
  by (induction us arbitrary: h) (simp_all add: on_open_tenure_before)

lemma member_view_at_cong: "tenures h = tenures h' \<Longrightarrow> member_view_at h = member_view_at h'"
  by (simp add: member_view_at_def tenures_of_def fun_eq_iff)

lemma recordCheckpoint_fields [simp]:
  "tenures (recordCheckpoint s envs h) = tenures h"
  "entryHashes (recordCheckpoint s envs h) = entryHashes h"
  "environmentStarts (recordCheckpoint s envs h) = environmentStarts h"
proof -
  have one: "tenures (record_checkpoint_tuple s t b) = tenures b"
    "entryHashes (record_checkpoint_tuple s t b) = entryHashes b"
    "environmentStarts (record_checkpoint_tuple s t b) = environmentStarts b" for t b
    by (simp_all add: record_checkpoint_tuple_def Let_def)
  show "tenures (recordCheckpoint s envs h) = tenures h"
    "entryHashes (recordCheckpoint s envs h) = entryHashes h"
    "environmentStarts (recordCheckpoint s envs h) = environmentStarts h"
    by (induction envs arbitrary: h) (simp_all add: recordCheckpoint_def one)
qed

text \<open>
  Every recording of an applied operation, at the number after the verifier's: the devices it
  records were added at that number.
\<close>

definition records_at :: "int \<Rightarrow> mutable_chain_state \<Rightarrow> applied_operation \<Rightarrow> bool" where
  "records_at s st a \<longleftrightarrow>
     (\<forall>p m d. applied_operation a = Add_Device p \<longrightarrow> map_of (members st) (applied_actorUserId a) = Some m \<longrightarrow>
        find (\<lambda>d. encPubHex d = ad_encPubHex p) (map snd (devices m)) = Some d \<longrightarrow> addedSeq d = s)"

lemma recordHistory_before:
  assumes "records_at s st a" and "k < s"
  shows "member_view_at (recordHistory a s st h) x k = member_view_at h x k"
proof (cases "applied_operation a")
  case (Delete_Environment e)
  have "member_view_at (recordEnvironmentDeleted e s h) x k = member_view_at h x k"
    unfolding recordEnvironmentDeleted_def Let_def
    by (subst fold_on_open_before [OF preserves_before_ops(4) assms(2)])
      (auto intro!: member_view_at_cong [THEN fun_cong, THEN fun_cong] split: option.split)
  with Delete_Environment show ?thesis by (simp add: recordHistory_def)
next
  case (Add_Device p)
  show ?thesis
    using assms(1) Add_Device on_open_tenure_before [OF preserves_before_ops(5) assms(2)]
    by (auto simp: recordHistory_def recordDeviceAddedOf_def recordDeviceAdded_def records_at_def
        split: option.split)
qed (use assms(2) in \<open>auto simp: recordHistory_def recordTenureStartOf_def tenure_start_before recordRoleChange_def
      recordTenureEnd_def recordDevicesRevoked_def on_open_tenure_before [OF preserves_before_ops(1)]
      on_open_tenure_before [OF preserves_before_ops(2)] on_open_tenure_before [OF preserves_before_ops(3)]
      recordEnvironmentCreated_def recordEpochRotated_def
      intro!: member_view_at_cong [THEN fun_cong, THEN fun_cong] split: option.split\<close>)

section \<open>The index and the state at the head\<close>

definition current_device :: "device_record \<Rightarrow> chain_device" where
  "current_device r =
     (if capChanges r = [] then rec_device r
      else (rec_device r)\<lparr>cap_scope := cap_newScope (last (capChanges r))\<rparr>)"

definition record_fits :: "int \<Rightarrow> device_record \<Rightarrow> bool" where
  "record_fits n r \<longleftrightarrow>
     addedSeq (rec_device r) \<le> n \<and> (\<forall>s. revokedSeq r = Some s \<longrightarrow> s \<le> n) \<and>
     (\<forall>c \<in> set (capChanges r). cap_fromSeq c \<le> n)"

definition add_current :: "device_record \<Rightarrow> (fingerprint, chain_device) js_map \<Rightarrow> (fingerprint, chain_device) js_map" where
  "add_current r ds =
     (if revokedSeq r = None then AList.update (keyFingerprintHex (rec_device r)) (current_device r) ds else ds)"

definition current_devices :: "device_record list \<Rightarrow> (fingerprint, chain_device) js_map" where
  "current_devices rs = fold add_current rs []"

definition open_fits :: "int \<Rightarrow> tenure_record \<Rightarrow> chain_member \<Rightarrow> bool" where
  "open_fits n t m \<longleftrightarrow>
     endSeq t = None \<and> startSeq t \<le> n \<and> spans t \<noteq> [] \<and> (\<forall>sp \<in> set (spans t). span_fromSeq sp \<le> n) \<and>
     span_role (last (spans t)) = mem_role m \<and> span_scope (last (spans t)) = mem_scope m \<and>
     (\<forall>r \<in> set (ten_devices t). record_fits n r) \<and> current_devices (ten_devices t) = devices m"

definition closed_by :: "int \<Rightarrow> tenure_record \<Rightarrow> bool" where
  "closed_by n t \<longleftrightarrow> (\<exists>e. endSeq t = Some e \<and> e \<le> n)"

definition user_sync :: "int \<Rightarrow> tenure_record list \<Rightarrow> chain_member option \<Rightarrow> bool" where
  "user_sync n ts mo = (case mo of
     None \<Rightarrow> \<forall>t \<in> set ts. closed_by n t
   | Some m \<Rightarrow> ts \<noteq> [] \<and> (\<forall>t \<in> set (butlast ts). closed_by n t) \<and> open_fits n (last ts) m)"

definition history_sync :: "int \<Rightarrow> chain_history_builder \<Rightarrow> (user_id, chain_member) js_map \<Rightarrow> bool" where
  "history_sync n h ms \<longleftrightarrow> keys_ok (tenures h) \<and> (\<forall>u. user_sync n (tenures_of h u) (map_of ms u))"

lemma record_fits_head:
  assumes "record_fits n r"
  shows "deviceActiveAt r n \<longleftrightarrow> revokedSeq r = None" and "deviceAt r n = current_device r"
  using assms
  by (auto simp: record_fits_def deviceActiveAt_def deviceAt_def current_device_def last_until_all split: option.splits)

lemma open_fits_view:
  assumes "open_fits n t m"
  shows "tenure_covers n t" and "tenure_view n t = Some (mem_role m, mem_scope m, devices m)"
proof -
  have "activeDevicesAt t n = current_devices (ten_devices t)"
  proof -
    have "fold (\<lambda>r ds. if deviceActiveAt r n then AList.update (keyFingerprintHex (rec_device r)) (deviceAt r n) ds else ds)
        rs acc = fold add_current rs acc" if "\<forall>r \<in> set rs. record_fits n r" for rs acc
      using that by (induction rs arbitrary: acc) (simp_all add: record_fits_head add_current_def)
    then show ?thesis using assms by (simp add: activeDevicesAt_def current_devices_def open_fits_def)
  qed
  then show "tenure_view n t = Some (mem_role m, mem_scope m, devices m)"
    using assms by (simp add: tenure_view_def spanAt_def open_fits_def last_until_all)
  show "tenure_covers n t" using assms by (simp add: tenure_covers_def open_fits_def)
qed

lemma closed_not_covering: "closed_by n t \<Longrightarrow> \<not> tenure_covers n t"
  by (auto simp: closed_by_def tenure_covers_def)

lemma sync_view:
  assumes "history_sync n h (members st)"
  shows "member_view_at h u n = member_view st u"
proof (cases "map_of (members st) u")
  case None
  with assms have "\<forall>t \<in> set (tenures_of h u). \<not> tenure_covers n t"
    by (auto simp: history_sync_def user_sync_def dest!: spec [of _ u] closed_not_covering)
  then have "find (tenure_covers n) (tenures_of h u) = None" by (auto simp: find_None_iff)
  with None show ?thesis by (simp add: member_view_at_def member_view_def)
next
  case (Some m)
  let ?ts = "tenures_of h u"
  from assms Some have "user_sync n ?ts (Some m)" by (metis history_sync_def)
  then have ne: "?ts \<noteq> []" and closed: "\<forall>t \<in> set (butlast ?ts). closed_by n t" and fits: "open_fits n (last ?ts) m"
    by (simp_all add: user_sync_def)
  have "find (tenure_covers n) (butlast ?ts) = None"
    using closed by (auto simp: find_None_iff dest: closed_not_covering)
  then have "find (tenure_covers n) (butlast ?ts @ [last ?ts]) = Some (last ?ts)"
    using open_fits_view(1) [OF fits] by (simp add: find_append)
  with ne Some open_fits_view(2) [OF fits] show ?thesis
    by (simp add: member_view_at_def member_view_def)
qed

lemma record_fits_mono: "record_fits n r \<Longrightarrow> n \<le> n' \<Longrightarrow> record_fits n' r"
  unfolding record_fits_def by (meson order_trans)

lemma open_fits_mono: "open_fits n t m \<Longrightarrow> n \<le> n' \<Longrightarrow> open_fits n' t m"
  unfolding open_fits_def by (meson order_trans record_fits_mono)

lemma closed_by_mono: "closed_by n t \<Longrightarrow> n \<le> n' \<Longrightarrow> closed_by n' t"
  unfolding closed_by_def by (meson order_trans)

lemma user_sync_mono: "user_sync n ts mo \<Longrightarrow> n \<le> n' \<Longrightarrow> user_sync n' ts mo"
  by (auto simp: user_sync_def intro: open_fits_mono closed_by_mono split: option.splits)

lemma history_sync_mono: "history_sync n h ms \<Longrightarrow> n \<le> n' \<Longrightarrow> history_sync n' h ms"
  by (auto simp: history_sync_def intro: user_sync_mono)

lemma history_sync_cong: "tenures h = tenures h' \<Longrightarrow> history_sync n h ms = history_sync n h' ms"
  by (simp add: history_sync_def tenures_of_def)

section \<open>Recordings keep the head in agreement\<close>

lemma keys_ok_on_open [simp]: "keys_ok (tenures h) \<Longrightarrow> keys_ok (tenures (on_open_tenure u f h))"
  by (simp add: on_open_tenure_def split: option.split)

text \<open>An open tenure of a current member is changed along with the member.\<close>

lemma sync_on_open:
  assumes sync: "history_sync n h ms" and m: "map_of ms u = Some m"
    and fits: "\<And>t. open_fits n t m \<Longrightarrow> open_fits (n + 1) (f t) m'"
  shows "history_sync (n + 1) (on_open_tenure u f h) (AList.update u m' ms)"
proof -
  have "user_sync n (tenures_of h u) (Some m)" using sync m by (metis history_sync_def)
  then have "user_sync (n + 1) (on_open_last f (tenures_of h u)) (Some m')"
    using fits closed_by_mono [of n _ "n + 1"] by (auto simp: user_sync_def on_open_last_def open_fits_def)
  with sync user_sync_mono [of n _ _ "n + 1"] show ?thesis
    by (auto simp: history_sync_def tenures_of_on_open)
qed

lemma sync_end:
  assumes sync: "history_sync n h ms" and m: "map_of ms u = Some m"
  shows "history_sync (n + 1) (recordTenureEnd u (n + 1) h) (AList.delete u ms)"
proof -
  let ?ts = "tenures_of h u"
  have "user_sync n ?ts (Some m)" using sync m by (metis history_sync_def)
  then have "user_sync (n + 1) (on_open_last (\<lambda>t. t\<lparr>endSeq := Some (n + 1)\<rparr>) ?ts) None"
    using closed_by_mono [of n _ "n + 1"]
    by (auto simp: user_sync_def on_open_last_def open_fits_def closed_by_def)
  with sync user_sync_mono [of n _ _ "n + 1"] show ?thesis
    by (auto simp: history_sync_def tenures_of_on_open recordTenureEnd_def)
qed

lemma sync_start:
  assumes sync: "history_sync n h ms" and u: "map_of ms u = None"
    and m: "mem_role m = r" "mem_scope m = sc" "devices m = [(keyFingerprintHex d, d)]" and d: "addedSeq d = n + 1"
  shows "history_sync (n + 1) (recordTenureStart u (n + 1) d r sc h) (AList.update u m ms)"
proof -
  let ?t = "\<lparr>startSeq = n + 1, endSeq = None, ten_devices = [\<lparr>rec_device = d, revokedSeq = None, capChanges = []\<rparr>],
             spans = [\<lparr>span_fromSeq = n + 1, span_role = r, span_scope = sc\<rparr>]\<rparr>"
  have ts: "tenures_of (recordTenureStart u (n + 1) d r sc h) x =
      (if x = u then tenures_of h u @ [?t] else tenures_of h x)" for x
    by (simp add: tenures_of_def recordTenureStart_def Let_def split: option.split)
  have "user_sync n (tenures_of h u) None" using sync u by (metis history_sync_def)
  moreover have "open_fits (n + 1) ?t m"
    using m d by (simp add: open_fits_def record_fits_def current_devices_def add_current_def current_device_def)
  ultimately have "user_sync (n + 1) (tenures_of h u @ [?t]) (Some m)"
    using closed_by_mono [of n _ "n + 1"] by (auto simp: user_sync_def)
  moreover have "keys_ok (tenures (recordTenureStart u (n + 1) d r sc h))"
    using sync by (simp add: history_sync_def recordTenureStart_def Let_def split: option.split)
  ultimately show ?thesis
    using sync user_sync_mono [of n _ _ "n + 1"] by (auto simp: history_sync_def ts)
qed

lemma fits_role_change:
  "open_fits n t m \<Longrightarrow>
   open_fits (n + 1) (t\<lparr>spans := spans t @ [\<lparr>span_fromSeq = n + 1, span_role = r, span_scope = sc\<rparr>]\<rparr>)
     (m\<lparr>mem_role := r, mem_scope := sc\<rparr>)"
  by (auto simp: open_fits_def intro: record_fits_mono)

lemma fits_add_device:
  "open_fits n t m \<Longrightarrow> addedSeq d = n + 1 \<Longrightarrow>
   open_fits (n + 1) (t\<lparr>ten_devices := ten_devices t @ [\<lparr>rec_device = d, revokedSeq = None, capChanges = []\<rparr>]\<rparr>)
     (m\<lparr>devices := AList.update (keyFingerprintHex d) d (devices m)\<rparr>)"
proof -
  assume fits: "open_fits n t m" and d: "addedSeq d = n + 1"
  then have "record_fits (n + 1) \<lparr>rec_device = d, revokedSeq = None, capChanges = []\<rparr>"
    by (simp add: record_fits_def)
  with fits show ?thesis
    by (auto simp: open_fits_def current_devices_def add_current_def current_device_def intro: record_fits_mono)
qed

text \<open>Revocation: the devices left are those of the records not revoked.\<close>

lemma revoke_listed_fst: "fst (revoke_listed fps (ds, st)) = fold AList.delete fps ds"
proof (induction fps arbitrary: ds st)
  case (Cons fp fps)
  have "map_of ds fp = None \<Longrightarrow> AList.delete fp ds = ds"
    by (simp add: map_of_eq_None_iff delete_idem)
  with Cons show ?case by (simp split: option.split)
qed simp

lemma fold_delete_update:
  "fold AList.delete fps (AList.update k v m) =
     (if k \<in> set fps then fold AList.delete fps m else AList.update k v (fold AList.delete fps m))"
proof (induction fps arbitrary: m)
  case (Cons a fps)
  show ?case
    by (cases "k = a") (simp_all add: Cons.IH delete_update delete_update_same)
qed simp

lemma current_devices_revoke:
  "fold add_current (map (revoke_record s fps) rs) (fold AList.delete fps acc) =
     fold AList.delete fps (fold add_current rs acc)"
proof (induction rs arbitrary: acc)
  case (Cons r rs)
  have "add_current (revoke_record s fps r) (fold AList.delete fps acc) = fold AList.delete fps (add_current r acc)"
    by (cases "revokedSeq r") (simp_all add: add_current_def revoke_record_def fold_delete_update current_device_def)
  then show ?case by (simp add: Cons.IH)
qed simp

lemma fits_revoke:
  assumes "open_fits n t m"
  shows "open_fits (n + 1) (t\<lparr>ten_devices := map (revoke_record (n + 1) fps) (ten_devices t)\<rparr>)
     (m\<lparr>devices := fold AList.delete fps (devices m)\<rparr>)"
proof -
  have "record_fits (n + 1) (revoke_record (n + 1) fps r)" if "record_fits n r" for r
    using that by (auto simp: record_fits_def revoke_record_def)
  moreover have "fold AList.delete fps ([] :: (fingerprint, chain_device) js_map) = []"
    by (induction fps) simp_all
  ultimately show ?thesis
    using assms current_devices_revoke [of "n + 1" fps "ten_devices t" "[]"]
    by (auto simp: open_fits_def current_devices_def)
qed

text \<open>Deletion of an environment: the pruned spans and caps.\<close>

lemma scopeWithout_unlisted: "\<not> lists_environment s e \<Longrightarrow> scopeWithout s e = s"
  by (cases s) (auto simp: lists_environment_def filter_id_conv scopeWithout_eq_iff [of "ListedScope _", simplified])

lemma prune_device_record_head:
  assumes "record_fits n r" and "revokedSeq r = None"
  shows "current_device (prune_device_record e (n + 1) r) = prune_device e (current_device r)"
proof -
  have cap: "deviceAt r (n + 1) = current_device r"
    using record_fits_head(2) [OF record_fits_mono [OF assms(1)], of "n + 1"] by simp
  show ?thesis
  proof (cases "lists_environment (cap_scope (current_device r)) e")
    case True
    with assms(2) show ?thesis
      by (simp add: prune_device_record_def cap prune_device_def) (simp add: current_device_def)
  next
    case False
    then have "prune_device e (current_device r) = current_device r"
      by (simp add: prune_device_def scopeWithout_unlisted)
    with False show ?thesis by (simp add: prune_device_record_def cap)
  qed
qed

lemma prune_device_record_simps [simp]:
  "revokedSeq (prune_device_record e s r) = revokedSeq r"
  "rec_device (prune_device_record e s r) = rec_device r"
  by (simp_all add: prune_device_record_def Let_def)

lemma current_devices_prune:
  "\<forall>r \<in> set rs. record_fits n r \<Longrightarrow>
   fold add_current (map (prune_device_record e (n + 1)) rs) (map_entries (prune_device e) acc) =
     map_entries (prune_device e) (fold add_current rs acc)"
proof (induction rs arbitrary: acc)
  case (Cons r rs)
  then have "add_current (prune_device_record e (n + 1) r) (map_entries (prune_device e) acc) =
      map_entries (prune_device e) (add_current r acc)"
    by (auto simp: add_current_def prune_device_record_head map_entries_set)
  with Cons show ?case by simp
qed simp

lemma fits_prune:
  assumes fits: "open_fits n t m" and keys: "keys_ok (devices m)"
  shows "open_fits (n + 1) (pruneTenureAt e (n + 1) t) (prune_member e m)"
proof -
  have "record_fits (n + 1) (prune_device_record e (n + 1) r)" if "record_fits n r" for r
    using that by (auto simp: record_fits_def prune_device_record_def Let_def)
  moreover have "span_fromSeq sp \<le> n + 1" if "sp \<in> set (prune_span e (n + 1) (spans t))" for sp
    using that fits by (auto simp: prune_span_def Let_def open_fits_def split: if_splits)
  moreover have "span_role (last (prune_span e (n + 1) (spans t))) = mem_role m \<and>
      span_scope (last (prune_span e (n + 1) (spans t))) = scopeWithout (mem_scope m) e"
    using fits by (auto simp: prune_span_def Let_def open_fits_def scopeWithout_unlisted)
  ultimately show ?thesis
    using fits current_devices_prune [of "ten_devices t" n e "[]"] devices_prune_member [OF keys, of e]
    by (auto simp: open_fits_def pruneTenureAt_def current_devices_def prune_span_def Let_def)
qed

lemma find_unique:
  "x \<in> set xs \<Longrightarrow> P x \<Longrightarrow> (\<And>y. y \<in> set xs \<Longrightarrow> P y \<Longrightarrow> y = x) \<Longrightarrow> find P xs = Some x"
proof (induction xs)
  case (Cons y ys)
  show ?case
  proof (cases "P y")
    case True
    then have "y = x" using Cons.prems(3) [of y] by (simp only: list.set_intros)
    with True show ?thesis by simp
  next
    case False
    then have "x \<in> set ys" using Cons.prems(1,2) by auto
    then have "find P ys = Some x"
      by (rule Cons.IH) (use Cons.prems(2,3) in \<open>auto simp only: list.set_intros\<close>)
    with False show ?thesis by simp
  qed
qed simp

lemma tenures_of_fold_on_open:
  "distinct us \<Longrightarrow> tenures_of (fold (\<lambda>u. on_open_tenure u f) us h) x =
     (if x \<in> set us then on_open_last f (tenures_of h x) else tenures_of h x)"
  by (induction us arbitrary: h) (auto simp: tenures_of_on_open)

lemma keys_ok_fold_on_open: "keys_ok (tenures h) \<Longrightarrow> keys_ok (tenures (fold (\<lambda>u. on_open_tenure u f) us h))"
  by (induction us arbitrary: h) simp_all

lemma on_open_last_closed:
  assumes "user_sync n ts None"
  shows "on_open_last f ts = ts"
proof (cases "ts = []")
  case False
  with assms have "closed_by n (last ts)" by (simp add: user_sync_def)
  then show ?thesis by (auto simp: on_open_last_def closed_by_def)
qed (simp add: on_open_last_def)

lemma sync_deleted_environment:
  assumes sync: "history_sync n h ms" and keys: "\<And>u m. map_of ms u = Some m \<Longrightarrow> keys_ok (devices m)"
  shows "history_sync (n + 1) (recordEnvironmentDeleted e (n + 1) h) (map_entries (prune_member e) ms)"
proof -
  define b where "b = (let b1 = (case map_of (environmentStarts h) e of
                  None \<Rightarrow> h
                | Some environment \<Rightarrow>
                    h\<lparr>environmentStarts := AList.update e (environment\<lparr>env_deletedAtSeq := Some (n + 1)\<rparr>) (environmentStarts h)\<rparr>)
      in b1\<lparr>latestCheckpoints := AList.delete e (latestCheckpoints b1)\<rparr>)"
  have same: "tenures b = tenures h" by (simp add: b_def Let_def split: option.split)
  let ?f = "pruneTenureAt e (n + 1)"
  let ?h = "fold (\<lambda>u. on_open_tenure u ?f) (map fst (tenures b)) b"
  have rec: "recordEnvironmentDeleted e (n + 1) h = ?h"
    by (simp add: recordEnvironmentDeleted_def b_def Let_def)
  have dist: "distinct (map fst (tenures b))"
    using sync same by (simp add: history_sync_def keys_ok_def)
  have none: "x \<notin> set (map fst (tenures b)) \<Longrightarrow> tenures_of h x = []" for x
    using same by (auto simp: tenures_of_def map_of_eq_None_iff [symmetric] split: option.split)
  have tb: "tenures_of b x = tenures_of h x" for x
    using same by (simp add: tenures_of_def)
  have ts: "tenures_of ?h x = on_open_last ?f (tenures_of h x)" for x
  proof (cases "x \<in> set (map fst (tenures b))")
    case True
    then show ?thesis by (simp only: tenures_of_fold_on_open [OF dist] tb if_True)
  next
    case False
    moreover from this have "tenures_of h x = []" by (rule none)
    moreover have "on_open_last ?f [] = []" by (simp add: on_open_last_def)
    ultimately show ?thesis by (simp only: tenures_of_fold_on_open [OF dist] tb if_False)
  qed
  have "user_sync (n + 1) (on_open_last ?f (tenures_of h x)) (map_option (prune_member e) (map_of ms x))" for x
  proof (cases "map_of ms x")
    case None
    then have "user_sync n (tenures_of h x) None" using sync by (metis history_sync_def)
    then have "on_open_last ?f (tenures_of h x) = tenures_of h x"
      by (rule on_open_last_closed)
    with None \<open>user_sync n (tenures_of h x) None\<close> show ?thesis by (simp add: user_sync_mono)
  next
    case (Some m)
    then have "user_sync n (tenures_of h x) (Some m)" using sync by (metis history_sync_def)
    then show ?thesis
      using Some fits_prune [OF _ keys [OF Some]] closed_by_mono [of n _ "n + 1"]
      by (auto simp: user_sync_def on_open_last_def open_fits_def)
  qed
  moreover have "keys_ok (tenures ?h)"
    by (rule keys_ok_fold_on_open) (use sync same in \<open>simp add: history_sync_def\<close>)
  ultimately show ?thesis
    unfolding rec history_sync_def ts by simp
qed

lemma applied_sync:
  assumes ok: "state_ok (api_sha256 api) n st" and n: "1 \<le> n"
    and auth: "authorized api st a actor"
    and sync: "history_sync n h (members st)"
    and st': "st' = (applyOperation (api_sha256 api) (applied_operation a) (n + 1) (applied_actorUserId a) st)
        \<lparr>pendingProposals := ps\<rparr>"
  shows "history_sync (n + 1) (recordHistory a (n + 1) st' h) (members st') \<and> records_at (n + 1) st' a"
proof -
  note D = state_okD [OF ok]
  have keep: "history_sync (n + 1) h (members st)" by (rule history_sync_mono [OF sync]) simp
  from auth have reason: "consensusReason (api_sha256 api) (applied_operation a) actor st = None"
    and act: "acting st a actor" and later: "applied_operation a \<noteq> Genesis g" for g
    by (simp_all add: authorized_def)
  have ms': "members st' = members (applyOperation (api_sha256 api) (applied_operation a) (n + 1) (applied_actorUserId a) st)"
    using st' by simp
  show ?thesis
  proof (cases "applied_operation a")
    case (Add_Member p)
    with reason have new: "map_of (members st) (am_targetUserId p) = None"
      by (auto simp: consensusReason_def addMemberReason_def split: if_splits)
    from Add_Member ms' sync_start [OF sync new] show ?thesis
      by (simp add: recordHistory_def recordTenureStartOf_def applyOperation_def applyAddMember_def set_member_def
          indexDeviceKeys_def Let_def soleDeviceOf_def records_at_def)
  next
    case (Remove_Member t)
    with reason obtain m where "resolveTargetedOp (Remove_Member t) t actor st = Inr m"
      by (auto simp: consensusReason_def removeMemberReason_def split: sum.splits)
    note m = resolveTargetedOp_Inr(1) [OF this]
    from Remove_Member ms' members_apply(3) [OF ok _ m] sync_end [OF sync m] show ?thesis
      by (simp add: recordHistory_def records_at_def)
  next
    case (Change_Role p)
    with reason obtain m where "resolveTargetedOp (Change_Role p) (cr_targetUserId p) actor st = Inr m"
      by (auto simp: consensusReason_def changeRoleReason_def split: sum.splits)
    note m = resolveTargetedOp_Inr(1) [OF this]
    from Change_Role ms' members_apply(4) [OF ok _ m] sync_on_open [OF sync m fits_role_change] show ?thesis
      by (simp add: recordHistory_def recordRoleChange_def records_at_def)
  next
    case (Delete_Environment e)
    with reason obtain env where env: "map_of (environments st) e = Some env"
      by (auto simp: consensusReason_def deleteEnvironmentReason_def liveEnvironmentReason_def map_has_def
          split: if_splits)
    from Delete_Environment ms' members_apply(2) [OF ok _ env]
      sync_deleted_environment [OF sync members_okD(3) [OF D(1)]] show ?thesis
      by (simp add: recordHistory_def records_at_def)
  next
    case (Add_Device p)
    let ?u = "applied_actorUserId a"
    from act obtain m where m: "map_of (members st) ?u = Some m" by (auto simp: acting_def)
    let ?d = "\<lparr>roleCap = ad_roleCap p, cap_scope = memberScopeOf p,
        keyFingerprintHex = userFingerprintHex (api_sha256 api) (ad_encPubHex p) (ad_sigPubHex p),
        encPubHex = ad_encPubHex p, sigPubHex = ad_sigPubHex p, addedSeq = n + 1\<rparr>"
    let ?m = "m\<lparr>devices := AList.update (keyFingerprintHex ?d) ?d (devices m)\<rparr>"
    have u: "mem_userId m = ?u" and keys: "keys_ok (devices m)" using members_okD [OF D(1) m] by simp_all
    have ms: "members st' = AList.update ?u ?m (members st)"
      using ms' Add_Device m u
      by (simp add: applyOperation_def applyAddDevice_def set_member_def indexDeviceKeys_def Let_def)
    have free: "ad_encPubHex p \<notin> memberEncPubs st"
      using reason Add_Device
      by (auto simp: consensusReason_def addDeviceReason_def registersTakenKey_def split: if_splits)
    have only: "d = ?d" if "d \<in> snd ` set (devices ?m)" and "encPubHex d = ad_encPubHex p" for d
    proof -
      from that(1) obtain f where "map_of (devices ?m) f = Some d"
        using in_set_map_of [of "devices ?m"] keys by auto
      then have "d = ?d \<or> device_of (members st) ?u f = Some d"
        using m by (auto simp: device_of_def split: if_splits)
      with that(2) free D(2) show ?thesis unfolding index_ok_def by metis
    qed
    have "?d \<in> snd ` set (devices ?m)"
      using in_set_map_of [of "devices ?m" "keyFingerprintHex ?d" ?d] keys by force
    then have found: "find (\<lambda>d. encPubHex d = ad_encPubHex p) (map snd (devices ?m)) = Some ?d"
      using only by (intro find_unique) (simp_all only: set_map simp_thms chain_device.simps device_cap.simps)
    have fits: "open_fits (n + 1)
        (t\<lparr>ten_devices := ten_devices t @ [\<lparr>rec_device = ?d, revokedSeq = None, capChanges = []\<rparr>]\<rparr>) ?m"
      if "open_fits n t m" for t
      using fits_add_device [OF that, of ?d] by simp
    show ?thesis
      using sync_on_open [OF sync m fits] found ms Add_Device
      by (simp add: recordHistory_def recordDeviceAddedOf_def recordDeviceAdded_def records_at_def)
  next
    case (Revoke_Device p)
    with reason obtain m where m: "map_of (members st) (rd_targetUserId p) = Some m"
      by (auto simp: consensusReason_def revokeDeviceReason_def split: option.splits)
    obtain ds st1 where run: "revoke_listed (rd_deviceFingerprintsHex p) (devices m, st) = (ds, st1)" by fastforce
    have "members st1 = members st"
      using run revoke_listed_members [of "rd_deviceFingerprintsHex p" "(devices m, st)"] by simp
    moreover have "ds = fold AList.delete (rd_deviceFingerprintsHex p) (devices m)"
      using revoke_listed_fst [of "rd_deviceFingerprintsHex p" "devices m" st] run by simp
    ultimately show ?thesis
      using Revoke_Device ms' m run members_okD(2) [OF D(1) m] sync_on_open [OF sync m fits_revoke]
      by (simp add: recordHistory_def recordDevicesRevoked_def records_at_def applyOperation_def
          applyRevokeDevice_def set_member_def)
  qed (use keep ms' later in \<open>auto simp: recordHistory_def records_at_def members_apply(1) [OF ok] recordTenureStartOf_def
        recordEnvironmentCreated_def recordEpochRotated_def
        intro: history_sync_cong [THEN iffD1, rotated] split: option.split\<close>)
qed

end
