(* ===== verification/Chain_History_Queries.thy ===== *)
theory Chain_History_Queries
  imports Chain_History_Refinement
begin

text \<open>
  The queries of the history index against the verifier itself: what the index of a verified chain
  answers for entry \<open>k\<close> is what verifying the first \<open>k\<close> entries ends with.
\<close>

section \<open>Environments\<close>

type_synonym environment_view = "(int \<times> int \<times> int option) option"

definition environment_view_at :: "chain_history_builder \<Rightarrow> environment_id \<Rightarrow> int \<Rightarrow> environment_view" where
  "environment_view_at h e k =
     Option.bind (map_of (environmentStarts h) e)
       (\<lambda>r. if k < env_createdAtSeq r then None
            else map_option (\<lambda>epoch. (env_createdAtSeq r, epoch, deletedAtOrBefore r k)) (epochAt r k))"

definition environment_view :: "mutable_chain_state \<Rightarrow> environment_id \<Rightarrow> environment_view" where
  "environment_view st e =
     map_option (\<lambda>env. (createdAtSeq env, currentEpoch env, deletedAtSeq env)) (map_of (environments st) e)"

definition env_matches :: "int \<Rightarrow> environment_record \<Rightarrow> environment_state \<Rightarrow> bool" where
  "env_matches n r env \<longleftrightarrow>
     env_createdAtSeq r = createdAtSeq env \<and> createdAtSeq env \<le> n \<and> epochStarts r \<noteq> [] \<and>
     (\<forall>p \<in> set (epochStarts r). snd p \<le> n) \<and> fst (last (epochStarts r)) = currentEpoch env \<and>
     env_deletedAtSeq r = deletedAtSeq env \<and> (\<forall>d. deletedAtSeq env = Some d \<longrightarrow> d \<le> n)"

definition environment_sync ::
  "int \<Rightarrow> chain_history_builder \<Rightarrow> (environment_id, environment_state) js_map \<Rightarrow> bool" where
  "environment_sync n h envs \<longleftrightarrow>
     (\<forall>e. rel_option (env_matches n) (map_of (environmentStarts h) e) (map_of envs e))"

lemma env_matches_mono: "env_matches n r env \<Longrightarrow> n \<le> n' \<Longrightarrow> env_matches n' r env"
  unfolding env_matches_def by (meson order_trans)

lemma environment_sync_mono: "environment_sync n h envs \<Longrightarrow> n \<le> n' \<Longrightarrow> environment_sync n' h envs"
  by (auto simp: environment_sync_def intro: env_matches_mono dest: spec
      intro!: option.rel_mono_strong [of "env_matches n" _ _ "env_matches n'"])

lemma environment_sync_cong:
  "environmentStarts h = environmentStarts h' \<Longrightarrow> environment_sync n h envs = environment_sync n h' envs"
  by (simp add: environment_sync_def)

lemma environment_sync_view:
  assumes "environment_sync n h envs" and "envs = environments st"
  shows "environment_view_at h e n = environment_view st e"
proof -
  have "rel_option (env_matches n) (map_of (environmentStarts h) e) (map_of envs e)"
    using assms(1) by (simp add: environment_sync_def)
  then show ?thesis
    unfolding assms(2)
    by (cases rule: option.rel_cases)
      (auto simp: environment_view_at_def environment_view_def env_matches_def epochAt_def last_until_all
        deletedAtOrBefore_def split: option.split)
qed

lemma environment_starts_on_open [simp]:
  "environmentStarts (on_open_tenure u f h) = environmentStarts h"
  "environmentStarts (fold (\<lambda>u. on_open_tenure u f) us h) = environmentStarts h"
  "environmentStarts (recordTenureStart u s d r sc h) = environmentStarts h"
proof -
  show one: "environmentStarts (on_open_tenure u f h) = environmentStarts h" for u h
    by (simp add: on_open_tenure_def split: option.split)
  show "environmentStarts (fold (\<lambda>u. on_open_tenure u f) us h) = environmentStarts h"
    by (induction us arbitrary: h) (simp_all add: one)
qed (simp add: recordTenureStart_def Let_def)

text \<open>Which operations touch the recorded environments.\<close>

definition touches_environments :: "proposable_operation \<Rightarrow> bool" where
  "touches_environments operation = (case operation of
     Create_Environment _ \<Rightarrow> True | Delete_Environment _ \<Rightarrow> True | Rotate_Epoch _ \<Rightarrow> True | _ \<Rightarrow> False)"

lemma untouched_environments:
  assumes "\<not> touches_environments (applied_operation a)"
  shows "environmentStarts (recordHistory a s st' h) = environmentStarts h"
    and "environments (applyOperation sha256 (applied_operation a) s u st) = environments st"
proof -
  have unindex: "environments (fold unindexDeviceKeys ds s) = environments s" for ds s
    by (simp add: fold_unindex)
  show "environmentStarts (recordHistory a s st' h) = environmentStarts h"
    using assms
    by (cases "applied_operation a")
      (auto simp: touches_environments_def recordHistory_def recordTenureStartOf_def recordRoleChange_def
        recordTenureEnd_def recordDeviceAddedOf_def recordDeviceAdded_def recordDevicesRevoked_def
        split: option.split)
  show "environments (applyOperation sha256 (applied_operation a) s u st) = environments st"
  proof (cases "applied_operation a")
    case (Revoke_Device p)
    then show ?thesis by simp
  qed (use assms in \<open>auto simp: touches_environments_def applyOperation_def applyAddMember_def applyRemoveMember_def
      applyChangeRole_def applyGrantServer_def applyRevokeServer_def applyCheckpoint_def applySetApprovalPolicy_def
      applyAddDevice_def set_member_def indexDeviceKeys_def unindex Let_def split: option.splits\<close>)
qed

lemma applied_environment_sync:
  assumes sync: "environment_sync n h (environments st)"
    and reason: "consensusReason sha256 (applied_operation a) actor st = None"
    and st': "environments st' = environments (applyOperation sha256 (applied_operation a) (n + 1) u st)"
  shows "environment_sync (n + 1) (recordHistory a (n + 1) st' h) (environments st') \<and>
    (k \<le> n \<longrightarrow> environment_view_at (recordHistory a (n + 1) st' h) e k = environment_view_at h e k)"
proof -
  have rel: "rel_option (env_matches n) (map_of (environmentStarts h) x) (map_of (environments st) x)" for x
    using sync by (simp add: environment_sync_def)
  have rel': "rel_option (env_matches (n + 1)) (map_of (environmentStarts h) x) (map_of (environments st) x)" for x
    using environment_sync_mono [OF sync, of "n + 1"] by (simp add: environment_sync_def)
  show ?thesis
  proof (cases "touches_environments (applied_operation a)")
    case False
    from untouched_environments(1) [OF False, of "n + 1" st' h] untouched_environments(2) [OF False] st'
    show ?thesis using environment_sync_mono [OF sync, of "n + 1"]
      by (simp add: environment_sync_def environment_view_at_def)
  next
    case True
    then consider (create) p where "applied_operation a = Create_Environment p"
      | (delete) x where "applied_operation a = Delete_Environment x"
      | (rotate) p where "applied_operation a = Rotate_Epoch p"
      by (auto simp: touches_environments_def split: proposable_operation.splits)
    then show ?thesis
    proof cases
      case create
      with reason rel [of "ce_environmentId p"] have new: "map_of (environmentStarts h) (ce_environmentId p) = None"
        by (auto simp: consensusReason_def createEnvironmentReason_def split: if_splits)
      from create st' rel' show ?thesis
        by (auto simp: environment_sync_def recordHistory_def recordEnvironmentCreated_def applyOperation_def
            applyCreateEnvironment_def env_matches_def environment_view_at_def new INITIAL_EPOCH_def)
    next
      case delete
      with reason obtain env where env: "map_of (environments st) x = Some env" "deletedAtSeq env = None"
        by (auto simp: consensusReason_def deleteEnvironmentReason_def liveEnvironmentReason_def map_has_def
            isDeletedEnvironment_def split: if_splits)
      with rel [of x] obtain r where r: "map_of (environmentStarts h) x = Some r" "env_matches n r env"
        by (auto simp: option_rel_Some2)
      have "environmentStarts (recordEnvironmentDeleted x (n + 1) h) =
          AList.update x (r\<lparr>env_deletedAtSeq := Some (n + 1)\<rparr>) (environmentStarts h)"
        by (simp add: recordEnvironmentDeleted_def Let_def r)
      moreover have "env_matches (n + 1) (r\<lparr>env_deletedAtSeq := Some (n + 1)\<rparr>) (env\<lparr>deletedAtSeq := Some (n + 1)\<rparr>)"
        using env_matches_mono [OF r(2), of "n + 1"] by (simp add: env_matches_def)
      moreover have "environments st' = AList.update x (env\<lparr>deletedAtSeq := Some (n + 1)\<rparr>) (environments st)"
        using delete st' env by (simp add: applyOperation_def applyDeleteEnvironment_def)
      ultimately show ?thesis
        using delete rel' r env
        by (auto simp: environment_sync_def recordHistory_def environment_view_at_def epochAt_def
            deletedAtOrBefore_def env_matches_def)
    next
      case rotate
      with reason obtain env where env: "map_of (environments st) (re_environmentId p) = Some env"
        and epoch: "re_newEpoch p = currentEpoch env + 1"
        by (auto simp: consensusReason_def rotateEpochReason_def split: if_splits option.splits)
      with rel [of "re_environmentId p"] obtain r
        where r: "map_of (environmentStarts h) (re_environmentId p) = Some r" "env_matches n r env"
        by (auto simp: option_rel_Some2)
      from rotate st' rel' r env epoch show ?thesis
        using env_matches_mono [OF r(2), of "n + 1"]
        by (auto simp: environment_sync_def recordHistory_def recordEpochRotated_def applyOperation_def
            applyRotateEpoch_def environment_view_at_def epochAt_def last_until_append env_matches_def
            deletedAtOrBefore_def)
    qed
  qed
qed

section \<open>Checkpoints\<close>

text \<open>The checkpoint tuples of a sequence of entries, in chain order, each with its entry's number.\<close>

definition checkpoint_log :: "chain_entry list \<Rightarrow> (int \<times> checkpoint_environment_entry) list" where
  "checkpoint_log es = concat (map (\<lambda>e. case entry_operation e of
     Direct (Checkpoint p) \<Rightarrow> map (Pair (entry_seq e)) (cp_environments p) | _ \<Rightarrow> []) es)"

definition tuples_for ::
  "(int \<times> checkpoint_environment_entry) list \<Rightarrow> environment_id \<Rightarrow> int \<Rightarrow> (int \<times> checkpoint_environment_entry) list" where
  "tuples_for log e version = filter (\<lambda>(_, t). ck_environmentId t = e \<and> ck_manifestVersion t = version) log"

definition same_tuple :: "checkpoint_environment_entry \<Rightarrow> checkpoint_environment_entry \<Rightarrow> bool" where
  "same_tuple t t' \<longleftrightarrow> ck_epoch t' = ck_epoch t \<and> ck_manifestSigHashHex t' = ck_manifestSigHashHex t"

fun tuple_summary :: "(int \<times> checkpoint_environment_entry) list \<Rightarrow> checkpoint_tuple_record option" where
  "tuple_summary [] = None"
| "tuple_summary ((s, t) # rest) =
     Some (if \<forall>(s', t') \<in> set rest. same_tuple t t' then Tuple_Record s (ck_epoch t) (ck_manifestSigHashHex t)
           else Conflict)"

definition recorded_tuple :: "chain_history_builder \<Rightarrow> environment_id \<Rightarrow> int \<Rightarrow> checkpoint_tuple_record option" where
  "recorded_tuple h e version = Option.bind (map_of (checkpointTuples h) e) (\<lambda>m. map_of m version)"

definition tuples_sync :: "chain_history_builder \<Rightarrow> (int \<times> checkpoint_environment_entry) list \<Rightarrow> bool" where
  "tuples_sync h log \<longleftrightarrow> (\<forall>e version. recorded_tuple h e version = tuple_summary (tuples_for log e version))"

definition extend_summary ::
  "int \<Rightarrow> checkpoint_environment_entry \<Rightarrow> checkpoint_tuple_record option \<Rightarrow> checkpoint_tuple_record option" where
  "extend_summary s t old = Some (case old of
     None \<Rightarrow> Tuple_Record s (ck_epoch t) (ck_manifestSigHashHex t)
   | Some Conflict \<Rightarrow> Conflict
   | Some (Tuple_Record s0 epoch hash) \<Rightarrow>
       if epoch = ck_epoch t \<and> hash = ck_manifestSigHashHex t then Tuple_Record s0 epoch hash else Conflict)"

lemma tuple_summary_snoc: "tuple_summary (ts @ [(s, t)]) = extend_summary s t (tuple_summary ts)"
  by (cases ts) (auto simp: extend_summary_def same_tuple_def)

lemma recorded_tuple_step:
  "recorded_tuple (record_checkpoint_tuple s t b) e version =
     (if e = ck_environmentId t \<and> version = ck_manifestVersion t
      then extend_summary s t (recorded_tuple b e version) else recorded_tuple b e version)"
  by (auto simp: recorded_tuple_def record_checkpoint_tuple_def record_tuple_def extend_summary_def Let_def
      split: option.split checkpoint_tuple_record.split)

lemma tuples_sync_step:
  "tuples_sync h log \<Longrightarrow> tuples_sync (record_checkpoint_tuple s t h) (log @ [(s, t)])"
  by (auto simp: tuples_sync_def recorded_tuple_step tuples_for_def tuple_summary_snoc)

lemma tuples_sync_checkpoint:
  "tuples_sync h log \<Longrightarrow> tuples_sync (recordCheckpoint s ts h) (log @ map (Pair s) ts)"
proof (induction ts arbitrary: h log)
  case (Cons t ts)
  from Cons.IH [OF tuples_sync_step [OF Cons.prems]] show ?case
    by (simp add: recordCheckpoint_def)
qed (simp add: recordCheckpoint_def)

lemma latest_checkpoint_fold:
  "latestCheckpoints (recordCheckpoint s ts h) =
     fold (\<lambda>t. AList.update (ck_environmentId t) (checkpoint_tuple_state s t)) ts (latestCheckpoints h)"
proof (induction ts arbitrary: h)
  case (Cons t ts)
  have "latestCheckpoints (recordCheckpoint s (t # ts) h) =
      latestCheckpoints (recordCheckpoint s ts (record_checkpoint_tuple s t h))"
    by (simp add: recordCheckpoint_def)
  then show ?case
    unfolding Cons.IH by (simp add: record_checkpoint_tuple_def checkpoint_tuple_state_def Let_def)
qed (simp add: recordCheckpoint_def)

definition touches_checkpoints :: "proposable_operation \<Rightarrow> bool" where
  "touches_checkpoints operation = (case operation of
     Checkpoint _ \<Rightarrow> True | Delete_Environment _ \<Rightarrow> True | _ \<Rightarrow> False)"

lemma on_open_checkpoints [simp]:
  "checkpointTuples (on_open_tenure u f h) = checkpointTuples h"
  "latestCheckpoints (on_open_tenure u f h) = latestCheckpoints h"
  "entryHashes (on_open_tenure u f h) = entryHashes h"
  by (simp_all add: on_open_tenure_def split: option.split)

lemma fold_on_open_checkpoints [simp]:
  "checkpointTuples (fold (\<lambda>u. on_open_tenure u f) us h) = checkpointTuples h"
  "latestCheckpoints (fold (\<lambda>u. on_open_tenure u f) us h) = latestCheckpoints h"
  "entryHashes (fold (\<lambda>u. on_open_tenure u f) us h) = entryHashes h"
  by (induction us arbitrary: h) simp_all

lemma recordHistory_hashes [simp]: "entryHashes (recordHistory a s st' h) = entryHashes h"
  by (cases "applied_operation a")
    (auto simp: recordHistory_def recordTenureStartOf_def recordTenureStart_def recordRoleChange_def recordTenureEnd_def
      recordDeviceAddedOf_def recordDeviceAdded_def recordDevicesRevoked_def recordEnvironmentCreated_def
      recordEpochRotated_def recordEnvironmentDeleted_def Let_def split: option.split)

lemma recordHistory_tuples:
  "(\<And>p. applied_operation a \<noteq> Checkpoint p) \<Longrightarrow> checkpointTuples (recordHistory a s st' h) = checkpointTuples h"
  by (cases "applied_operation a")
    (auto simp: recordHistory_def recordTenureStartOf_def recordTenureStart_def recordRoleChange_def recordTenureEnd_def
      recordDeviceAddedOf_def recordDeviceAdded_def recordDevicesRevoked_def recordEnvironmentCreated_def
      recordEpochRotated_def recordEnvironmentDeleted_def Let_def split: option.split)

lemma recordHistory_latest:
  assumes latest: "latestCheckpoints h = checkpoints st"
    and reason: "consensusReason sha256 (applied_operation a) actor st = None"
    and later: "\<And>g. applied_operation a \<noteq> Genesis g"
  shows "latestCheckpoints (recordHistory a s st' h) =
    checkpoints (applyOperation sha256 (applied_operation a) s u st)"
proof (cases "applied_operation a")
  case (Delete_Environment e)
  with reason obtain env where "map_of (environments st) e = Some env"
    by (auto simp: consensusReason_def deleteEnvironmentReason_def liveEnvironmentReason_def map_has_def
        split: if_splits)
  with Delete_Environment latest show ?thesis
    by (simp add: recordHistory_def recordEnvironmentDeleted_def applyOperation_def applyDeleteEnvironment_def
        Let_def split: option.split)
next
  case (Checkpoint p)
  with latest show ?thesis
    by (simp add: recordHistory_def latest_checkpoint_fold applyOperation_def applyCheckpoint_def)
next
  case (Revoke_Device p)
  with latest show ?thesis by (simp add: recordHistory_def recordDevicesRevoked_def)
qed (use latest later in \<open>auto simp: recordHistory_def recordTenureStartOf_def recordTenureStart_def recordRoleChange_def
    recordTenureEnd_def recordDeviceAddedOf_def recordDeviceAdded_def recordEnvironmentCreated_def
    recordEpochRotated_def applyOperation_def applyAddMember_def applyRemoveMember_def applyChangeRole_def
    applyGrantServer_def applyRevokeServer_def applySetApprovalPolicy_def applyAddDevice_def
    applyCreateEnvironment_def applyRotateEpoch_def set_member_def indexDeviceKeys_def fold_unindex Let_def
    split: option.split\<close>)

section \<open>One accepted entry\<close>

text \<open>A direct entry is evaluated as itself; what a completed proposal applies is an approval target.\<close>

lemma evaluated_operation:
  assumes "evaluateEntry api entry h st = Accepted (st', ev)"
  shows "case entry_operation entry of
      Direct op \<Rightarrow> (\<exists>u. ev = Some \<lparr>applied_operation = op, applied_actorUserId = u\<rparr>)
    | _ \<Rightarrow> (\<forall>a. ev = Some a \<longrightarrow> (\<exists>policy. isApprovalTarget (applied_operation a) policy))"
proof (cases "is_genesis (entry_operation entry)")
  case True
  with assms show ?thesis
    by (auto simp: is_genesis_def evaluateEntry_def split: chain_operation.splits proposable_operation.splits)
next
  case False
  with assms obtain actor where as: "evaluate_as api entry h actor st = Accepted (st', ev)"
    by (auto elim: evaluateEntry_Accepted)
  show ?thesis
  proof (cases "entry_operation entry")
    case (Approve k)
    with as have "evaluateApprove api k (entry_seq entry) (entry_timestampMs entry) actor st = Accepted (st', ev)"
      by (simp add: evaluate_as_def)
    then show ?thesis
      by (rule evaluateApprove_Accepted)
        (use Approve in \<open>auto simp: completeProposal_Accepted Let_def dest!: vote_target\<close>)
  qed (use as in \<open>auto simp: evaluate_as_def evaluateDirect_Accepted evaluatePropose_Accepted
        evaluateWithdraw_Accepted\<close>)
qed

lemma not_checkpoint_target: "isApprovalTarget (Checkpoint p) policy = False"
  by (auto simp: isApprovalTarget_def establishesOwner_def APPROVAL_TARGET_OPS_def proposable_op_name_def
      approval_target_name_def split: option.splits)

lemma evaluated_checkpoint:
  assumes "accepts api v entry ev v'"
  shows "ev = Some a \<Longrightarrow> applied_operation a = Checkpoint p \<longleftrightarrow> entry_operation entry = Direct (Checkpoint p)"
    and "ev = None \<Longrightarrow> entry_operation entry \<noteq> Direct (Checkpoint p)"
proof -
  from assms obtain h st' where "evaluateEntry api entry h (v_state v) = Accepted (st', ev)"
    by (auto elim: acceptsE)
  note E = evaluated_operation [OF this]
  show "ev = Some a \<Longrightarrow> applied_operation a = Checkpoint p \<longleftrightarrow> entry_operation entry = Direct (Checkpoint p)"
    and "ev = None \<Longrightarrow> entry_operation entry \<noteq> Direct (Checkpoint p)"
    using E by (auto split: chain_operation.splits simp: not_checkpoint_target)
qed

definition history_agrees :: "verifier \<Rightarrow> chain_history_builder \<Rightarrow> chain_entry list \<Rightarrow> bool" where
  "history_agrees v h es \<longleftrightarrow>
     history_sync (v_seq v) h (members (v_state v)) \<and> environment_sync (v_seq v) h (environments (v_state v)) \<and>
     latestCheckpoints h = checkpoints (v_state v) \<and> tuples_sync h (checkpoint_log es) \<and>
     int (length (entryHashes h)) = v_seq v"

definition earlier_answers :: "int \<Rightarrow> chain_history_builder \<Rightarrow> chain_history_builder \<Rightarrow> bool" where
  "earlier_answers n h h' \<longleftrightarrow>
     (\<forall>k \<le> n. (\<forall>x. member_view_at h' x k = member_view_at h x k) \<and>
        (\<forall>e. environment_view_at h' e k = environment_view_at h e k))"

lemma checkpoint_log_snoc:
  "checkpoint_log (es @ [entry]) = checkpoint_log es @
     (case entry_operation entry of Direct (Checkpoint p) \<Rightarrow> map (Pair (entry_seq entry)) (cp_environments p) | _ \<Rightarrow> [])"
  by (simp add: checkpoint_log_def)

lemma tuples_sync_cong: "checkpointTuples h = checkpointTuples h' \<Longrightarrow> tuples_sync h log = tuples_sync h' log"
  by (simp add: tuples_sync_def recorded_tuple_def)

lemma tuples_sync_entry:
  assumes step: "accepts api v entry ev v'" and sync: "tuples_sync h (checkpoint_log es)"
  shows "tuples_sync (case ev of None \<Rightarrow> h | Some a \<Rightarrow> recordHistory a (v_seq v') st' h) (checkpoint_log (es @ [entry]))"
proof (cases "\<exists>p. entry_operation entry = Direct (Checkpoint p)")
  case True
  then obtain p where p: "entry_operation entry = Direct (Checkpoint p)" ..
  with evaluated_checkpoint [OF step] obtain a where "ev = Some a" "applied_operation a = Checkpoint p"
    by (cases ev) auto
  with p accepts_seq [OF step] tuples_sync_checkpoint [OF sync] show ?thesis
    by (simp add: checkpoint_log_snoc recordHistory_def)
next
  case False
  then have "checkpoint_log (es @ [entry]) = checkpoint_log es"
    by (auto simp: checkpoint_log_snoc split: chain_operation.split proposable_operation.split)
  moreover have "checkpointTuples (case ev of None \<Rightarrow> h | Some a \<Rightarrow> recordHistory a (v_seq v') st' h) = checkpointTuples h"
    using False evaluated_checkpoint(1) [OF step] by (auto intro: recordHistory_tuples split: option.split)
  ultimately show ?thesis using sync tuples_sync_cong by metis
qed

lemma step_history:
  assumes step: "accepts api v entry ev v'" and h: "v_history v = Some h"
  shows "v_history v' = Some (recordEntryHash (v_prevHash v')
    (case ev of None \<Rightarrow> h | Some a \<Rightarrow> recordHistory a (v_seq v') (v_state v') h))"
  using step by (rule acceptsE) (simp add: h split: option.split)

lemma agrees_recordEntryHash:
  "history_sync n (recordEntryHash x h) ms = history_sync n h ms"
  "environment_sync n (recordEntryHash x h) envs = environment_sync n h envs"
  "tuples_sync (recordEntryHash x h) log = tuples_sync h log"
  "latestCheckpoints (recordEntryHash x h) = latestCheckpoints h"
  "member_view_at (recordEntryHash x h) = member_view_at h"
  "environment_view_at (recordEntryHash x h) = environment_view_at h"
  "entryHashes (recordEntryHash x h) = entryHashes h @ [x]"
  by (simp_all add: recordEntryHash_def history_sync_def environment_sync_def tuples_sync_def recorded_tuple_def
      tenures_of_def member_view_at_def environment_view_at_def fun_eq_iff)

lemma genesis_agrees:
  assumes vok: "verifier_ok api v" and step: "accepts api v entry ev v'" and "v_seq v = 0"
    and agrees: "history_agrees v h es" and h1: "h1 = (case ev of None \<Rightarrow> h | Some a \<Rightarrow> recordHistory a (v_seq v') (v_state v') h)"
  shows "history_sync 1 h1 (members (v_state v')) \<and> environment_sync 1 h1 (environments (v_state v')) \<and>
    latestCheckpoints h1 = checkpoints (v_state v') \<and> earlier_answers 0 h h1"
proof -
  from step obtain k where pass: "passes_checks api entry v"
    and eval: "evaluateEntry api entry k (v_state v) = Accepted (v_state v', ev)"
    by (auto elim: acceptsE)
  have st: "v_state v = empty_chain_state" using vok assms(3) by (auto simp: verifier_ok_def)
  have seq: "entry_seq entry = 1" using pass assms(3) by (simp add: passes_checks_def)
  have "is_genesis (entry_operation entry)" using accepts_genesis_iff [OF step] assms(3) by simp
  then obtain p where op: "entry_operation entry = Direct (Genesis p)"
    by (auto simp: is_genesis_def split: chain_operation.splits proposable_operation.splits)
  let ?u = "actor_userId (entry_actor entry)"
  let ?d = "firstDeviceOf (gn_encPubHex p) (gn_sigPubHex p) (actor_keyFingerprintHex (entry_actor entry)) 1"
  let ?m = "\<lparr>mem_userId = ?u, mem_role = Owner, mem_scope = ALL_SCOPE, devices = [(keyFingerprintHex ?d, ?d)]\<rparr>"
  from eval op seq have st': "v_state v' = applyGenesis p (entry_actor entry) 1 empty_chain_state"
    and ev: "ev = Some \<lparr>applied_operation = Genesis p, applied_actorUserId = ?u\<rparr>"
    by (simp_all add: evaluateEntry_def st)
  have ms: "members (v_state v') = AList.update ?u ?m []" and envs: "environments (v_state v') = []"
    and cks: "checkpoints (v_state v') = []"
    by (simp_all add: st' applyGenesis_def set_member_def indexDeviceKeys_def empty_chain_state_def Let_def)
  have h1': "h1 = recordTenureStart ?u 1 ?d Owner ALL_SCOPE h"
    using accepts_seq [OF step] assms(3) by (simp add: h1 ev recordHistory_def recordTenureStartOf_def ms soleDeviceOf_def)
  have "history_sync 0 h []" and envsync: "environment_sync 0 h []" and "latestCheckpoints h = []"
    using agrees assms(3) by (simp_all add: history_agrees_def st empty_chain_state_def)
  then have "history_sync 1 h1 (members (v_state v'))"
    using sync_start [of 0 h "[]" ?u ?m Owner ALL_SCOPE ?d] by (simp add: h1' ms firstDeviceOf_def)
  moreover have "environmentStarts h1 = environmentStarts h" "latestCheckpoints h1 = latestCheckpoints h"
    by (simp_all add: h1' recordTenureStart_def Let_def)
  ultimately show ?thesis
    using environment_sync_mono [OF envsync, of 1] \<open>latestCheckpoints h = []\<close> tenure_start_before
    by (simp add: envs cks environment_sync_def earlier_answers_def environment_view_at_def h1')
qed

lemma later_agrees:
  assumes vok: "verifier_ok api v" and step: "accepts api v entry ev v'" and later: "v_seq v \<noteq> 0"
    and agrees: "history_agrees v h es" and h1: "h1 = (case ev of None \<Rightarrow> h | Some a \<Rightarrow> recordHistory a (v_seq v') (v_state v') h)"
  shows "history_sync (v_seq v') h1 (members (v_state v')) \<and>
    environment_sync (v_seq v') h1 (environments (v_state v')) \<and>
    latestCheckpoints h1 = checkpoints (v_state v') \<and> earlier_answers (v_seq v) h h1"
proof -
  have ok: "state_ok (api_sha256 api) (v_seq v) (v_state v)" and n: "1 \<le> v_seq v"
    using vok later by (auto simp: verifier_ok_def)
  have seq: "v_seq v' = v_seq v + 1" using accepts_seq [OF step] by simp
  have sync: "history_sync (v_seq v) h (members (v_state v))" and esync: "environment_sync (v_seq v) h (environments (v_state v))"
    and latest: "latestCheckpoints h = checkpoints (v_state v)"
    using agrees by (simp_all add: history_agrees_def)
  from vok step later show ?thesis
  proof (cases rule: accepts_cases)
    case (pending ps)
    then show ?thesis
      using history_sync_mono [OF sync, of "v_seq v'"] environment_sync_mono [OF esync, of "v_seq v'"] latest seq
      by (simp add: h1 earlier_answers_def)
  next
    case (applied a actor ps)
    have reason: "consensusReason (api_sha256 api) (applied_operation a) actor (v_state v) = None"
      and proper: "\<And>g. applied_operation a \<noteq> Genesis g"
      using applied(2) by (simp_all add: authorized_def)
    have h1': "h1 = recordHistory a (v_seq v + 1) (v_state v') h" using applied(1) seq by (simp add: h1)
    note member = applied_sync [OF ok n applied(2) sync applied(3)]
    have "environments (v_state v') =
        environments (applyOperation (api_sha256 api) (applied_operation a) (v_seq v + 1) (applied_actorUserId a) (v_state v))"
      using applied(3) by simp
    note env = applied_environment_sync [OF esync reason this]
    have "latestCheckpoints h1 = checkpoints (v_state v')"
      using recordHistory_latest [OF latest reason proper] applied(3) by (simp add: h1')
    moreover have "earlier_answers (v_seq v) h h1"
      using env recordHistory_before [OF conjunct2 [OF member]] by (simp add: earlier_answers_def h1')
    ultimately show ?thesis using member env seq by (simp add: h1')
  qed
qed

lemma step_agrees:
  assumes vok: "verifier_ok api v" and step: "accepts api v entry ev v'"
    and h: "v_history v = Some h" and agrees: "history_agrees v h es"
  obtains h' where "v_history v' = Some h'" and "history_agrees v' h' (es @ [entry])"
    and "earlier_answers (v_seq v) h h'" and "entryHashes h' = entryHashes h @ [v_prevHash v']"
proof -
  define h1 where h1: "h1 = (case ev of None \<Rightarrow> h | Some a \<Rightarrow> recordHistory a (v_seq v') (v_state v') h)"
  have h': "v_history v' = Some (recordEntryHash (v_prevHash v') h1)"
    using step_history [OF step h] by (simp only: h1)
  have seq: "v_seq v' = v_seq v + 1" using accepts_seq [OF step] by simp
  have parts: "history_sync (v_seq v') h1 (members (v_state v')) \<and>
    environment_sync (v_seq v') h1 (environments (v_state v')) \<and>
    latestCheckpoints h1 = checkpoints (v_state v') \<and> earlier_answers (v_seq v) h h1"
    using genesis_agrees [OF vok step _ agrees h1] later_agrees [OF vok step _ agrees h1] seq
    by (cases "v_seq v = 0") simp_all
  have hashes: "entryHashes h1 = entryHashes h" by (simp add: h1 split: option.split)
  have "tuples_sync h1 (checkpoint_log (es @ [entry]))"
    unfolding h1 by (rule tuples_sync_entry [OF step]) (use agrees in \<open>simp add: history_agrees_def\<close>)
  with parts agrees hashes seq have "history_agrees v' (recordEntryHash (v_prevHash v') h1) (es @ [entry])"
    by (simp add: history_agrees_def agrees_recordEntryHash)
  with h' parts hashes show ?thesis
    by (intro that) (auto simp: earlier_answers_def agrees_recordEntryHash)
qed

section \<open>Runs with and without the history\<close>

definition forget :: "verifier \<Rightarrow> verifier" where
  "forget v = v\<lparr>v_history := None\<rparr>"

lemma verify_step_forget:
  "verify_step api (forget v) e =
     (case verify_step api v e of Threw \<Rightarrow> Threw | Rejected r \<Rightarrow> Rejected r | Accepted v' \<Rightarrow> Accepted (forget v'))"
  by (simp add: verify_step_def apply_checked_def forget_def fail_def Let_def
      split: outcome.split option.split prod.split)

lemma run_forget:
  "run_loop (verify_step api) (forget v) es =
     (case run_loop (verify_step api) v es of
        Threw \<Rightarrow> Threw | Rejected r \<Rightarrow> Rejected r | Accepted v' \<Rightarrow> Accepted (forget v'))"
proof (induction es arbitrary: v)
  case (Cons e es)
  then show ?case by (simp add: verify_step_forget split: outcome.split)
qed simp

lemma run_without_history:
  "run_loop (verify_step api) (start_verifier (Some h)) es = Accepted v \<Longrightarrow>
   run_loop (verify_step api) (start_verifier None) es = Accepted (forget v)"
  using run_forget [of api "start_verifier (Some h)" es] by (simp add: forget_def start_verifier_def)

lemma verifyChain_of_run:
  assumes "run_loop (verify_step api) (start_verifier (Some h)) es = Accepted v" and "es \<noteq> []"
  shows "verifyChain api es = Accepted (sealChainState (v_state v) (int (length es)) (v_prevHash v))"
  using run_without_history [OF assms(1)] assms(2)
  by (simp add: verifyChain_def verifyChainCore_def forget_def)

section \<open>The index answers with the prefix's verification\<close>

definition recorded_run :: "crypto_api \<Rightarrow> js_value list \<Rightarrow> (chain_invalid, verifier) outcome" where
  "recorded_run api vs = run_loop (verify_step api) (start_verifier (Some empty_history)) vs"

lemma start_agrees: "history_agrees (start_verifier (Some empty_history)) empty_history []"
  by (simp add: history_agrees_def start_verifier_def empty_history_def empty_chain_state_def history_sync_def
      user_sync_def tenures_of_def environment_sync_def tuples_sync_def recorded_tuple_def tuples_for_def checkpoint_log_def)

lemma recorded_run_seq: "recorded_run api vs = Accepted v \<Longrightarrow> v_seq v = int (length vs)"
  unfolding recorded_run_def by (drule run_reached) (auto dest!: reached_seq dest: map_eq_imp_length_eq)

lemma recorded_run_agrees:
  assumes "recorded_run api vs = Accepted v"
  shows "\<exists>h es. map read_entry vs = map Some es \<and> v_history v = Some h \<and> history_agrees v h es \<and>
    (\<forall>k u. 1 \<le> k \<longrightarrow> k \<le> length vs \<longrightarrow> recorded_run api (take k vs) = Accepted u \<longrightarrow>
       (\<forall>x. member_view_at h x (int k) = member_view (v_state u) x) \<and>
       (\<forall>e. environment_view_at h e (int k) = environment_view (v_state u) e) \<and>
       entryHashes h ! (k - 1) = v_prevHash u)"
  using assms
proof (induction vs arbitrary: v rule: rev_induct)
  case Nil
  then have "v = start_verifier (Some empty_history)" by (simp add: recorded_run_def)
  with start_agrees show ?case
    by (intro exI [of _ empty_history] exI [of _ "[]"]) (simp add: start_verifier_def)
next
  case (snoc x vs)
  then obtain w where run: "recorded_run api vs = Accepted w" and last: "verify_step api w x = Accepted v"
    by (auto simp: recorded_run_def run_loop_snoc_Accepted)
  from snoc.IH [OF run] obtain h es where es: "map read_entry vs = map Some es" and h: "v_history w = Some h"
    and agrees: "history_agrees w h es"
    and earlier: "\<And>k u. 1 \<le> k \<Longrightarrow> k \<le> length vs \<Longrightarrow> recorded_run api (take k vs) = Accepted u \<Longrightarrow>
       (\<forall>x. member_view_at h x (int k) = member_view (v_state u) x) \<and>
       (\<forall>e. environment_view_at h e (int k) = environment_view (v_state u) e) \<and>
       entryHashes h ! (k - 1) = v_prevHash u"
    by blast
  from last obtain entry ev where read: "read_entry x = Some entry" and step: "accepts api w entry ev v"
    by (rule verify_step_Accepted)
  have wok: "verifier_ok api w"
    using checked_loop.run_inv [OF start_verifier_ok] run by (simp add: recorded_run_def)
  from step_agrees [OF wok step h agrees] obtain h' where h': "v_history v = Some h'"
    and agrees': "history_agrees v h' (es @ [entry])"
    and stable: "earlier_answers (v_seq w) h h'" and hashes: "entryHashes h' = entryHashes h @ [v_prevHash v]"
    by blast
  have seq: "v_seq w = int (length vs)" "v_seq v = int (length (vs @ [x]))"
    using recorded_run_seq [OF run] recorded_run_seq [OF snoc.prems] by simp_all
  have len: "length (entryHashes h) = length vs"
    using agrees seq(1) by (simp add: history_agrees_def)
  have "(\<forall>y. member_view_at h' y (int k) = member_view (v_state u) y) \<and>
       (\<forall>e. environment_view_at h' e (int k) = environment_view (v_state u) e) \<and>
       entryHashes h' ! (k - 1) = v_prevHash u"
    if k: "1 \<le> k" "k \<le> length (vs @ [x])" and u: "recorded_run api (take k (vs @ [x])) = Accepted u" for k u
  proof (cases "k \<le> length vs")
    case True
    with k(1) have "k - 1 < length vs" by simp
    with True show ?thesis
      using earlier [OF k(1) True] u stable seq(1) len \<open>k - 1 < length vs\<close>
      by (simp add: earlier_answers_def hashes nth_append)
  next
    case False
    with k(2) have "take k (vs @ [x]) = vs @ [x]" and at: "int k = v_seq v" "k - 1 = length vs"
      using seq(2) by simp_all
    with u snoc.prems have "u = v" by simp
    with at agrees' len show ?thesis
      using sync_view [of "v_seq v" h' "v_state v"] environment_sync_view [of "v_seq v" h' _ "v_state v"]
      by (simp add: history_agrees_def hashes nth_append)
  qed
  with es read h' agrees' show ?case
    by (intro exI [of _ h'] exI [of _ "es @ [entry]"]) simp
qed

text \<open>The queries read the same views, with the range check in front.\<close>

lemma tenureAt_find:
  "in_range h k \<Longrightarrow> tenureAt h u k = find (tenure_covers k) (tenures_of h u)"
  by (simp add: tenureAt_def tenures_of_def tenure_covers_def [abs_def])

lemma memberStateAt_view:
  "in_range h k \<Longrightarrow> map_option (\<lambda>m. (at_role m, at_scope m, at_devices m)) (memberStateAt h u k) = member_view_at h u k"
  by (simp add: memberStateAt_def tenureAt_find member_view_at_def tenure_view_def split: option.split)

lemma environmentStateAt_view:
  "in_range h k \<Longrightarrow>
   map_option (\<lambda>s. (at_createdAtSeq s, at_currentEpoch s, at_deletedAtSeq s)) (environmentStateAt h e k) =
   environment_view_at h e k"
  by (simp add: environmentStateAt_def environment_view_at_def split: option.split)

end
