(* ===== verification/Chain_Example.thy ===== *)
theory Chain_Example
  imports Chain_Writing Chain_Totality Chain_History_Queries
begin

text \<open>
  A concrete membership log, from genesis to a deletion, at which the theorems on chains are
  applied. The digest of the example keeps the last 32 bytes of its input, so an entry's hash is
  determined by its signature, and its signature check accepts everything. The states are computed
  by the operations of the model; each step's checks are discharged by rewriting.
\<close>

section \<open>The platform of the example\<close>

definition demo_sha256 :: "bytes \<Rightarrow> bytes" where
  "demo_sha256 b = take 32 (rev b @ replicate 32 0)"

definition demo_api :: crypto_api where
  "demo_api = \<lparr>api_sha256 = demo_sha256, api_ed25519_verify = \<lambda>publicKey signature message. Some True\<rparr>"

definition key_hex :: "nat \<Rightarrow> ustr" where
  "key_hex n = encode_hex (replicate 32 (word_of_nat n))"

definition fp_hex :: "nat \<Rightarrow> fingerprint" where
  "fp_hex n = encode_hex (replicate 16 (word_of_nat n))"

definition demo_sig :: "nat \<Rightarrow> ustr" where
  "demo_sig n = encode_hex (replicate 64 (word_of_nat n))"

definition demo_hash :: "nat \<Rightarrow> ustr" where
  "demo_hash n = encode_hex (take 32 (rev (utf8_encode (demo_sig n))))"

lemma demo_api_simps [simp]:
  "api_sha256 demo_api = demo_sha256" "api_ed25519_verify demo_api k s m = Some True"
  by (simp_all add: demo_api_def)

lemma take_demo_sha256: "length b = 32 \<Longrightarrow> demo_sha256 (a @ b) = rev b"
  by (simp add: demo_sha256_def)

lemma demo_fingerprints [simp]:
  "userFingerprintHex demo_sha256 (key_hex e) (key_hex s) = fp_hex s"
  "serverFingerprintHex demo_sha256 (key_hex s) = fp_hex s"
proof -
  show "userFingerprintHex demo_sha256 (key_hex e) (key_hex s) = fp_hex s"
    by (simp add: userFingerprintHex_def key_hex_def fp_hex_def FINGERPRINT_BYTES_def take_demo_sha256)
  have "demo_sha256 (replicate 32 (word_of_nat s)) = replicate 32 (word_of_nat s)"
    using take_demo_sha256 [of "replicate 32 (word_of_nat s)" "[]"] by simp
  then show "serverFingerprintHex demo_sha256 (key_hex s) = fp_hex s"
    by (simp add: serverFingerprintHex_def key_hex_def fp_hex_def FINGERPRINT_BYTES_def)
qed

lemma word_of_nat_byte_inject:
  "m < 256 \<Longrightarrow> n < 256 \<Longrightarrow> (word_of_nat m :: 8 word) = word_of_nat n \<longleftrightarrow> m = n"
  by (simp add: word_of_nat_eq_iff take_bit_nat_def)

lemma key_hex_inject [simp]:
  "m < 256 \<Longrightarrow> n < 256 \<Longrightarrow> key_hex m = key_hex n \<longleftrightarrow> m = n"
  "m < 256 \<Longrightarrow> n < 256 \<Longrightarrow> fp_hex m = fp_hex n \<longleftrightarrow> m = n"
  by (simp_all add: key_hex_def fp_hex_def word_of_nat_byte_inject)

lemma demo_hex_ok [simp]:
  "hex_of_length 32 (key_hex n)" "hex_of_length 16 (fp_hex n)" "hex_of_length 64 (demo_sig n)"
  by (simp_all add: key_hex_def fp_hex_def demo_sig_def hex_of_length_def)

lemma decode_key_hex [simp]: "decode_hex (key_hex n) = Some (replicate 32 (word_of_nat n))"
  by (simp add: key_hex_def)

lemma bounded_lit: "s \<noteq> [] \<Longrightarrow> length s \<le> 341 \<Longrightarrow> bounded_id (lit s)"
  using length_utf8_encode_le [of "lit s"]
  by (simp add: bounded_id_def withinFieldBytes_def MAX_FIELD_BYTES_def)

lemma within_lit: "length s \<le> 341 \<Longrightarrow> withinFieldBytes (lit s)"
  using length_utf8_encode_le [of "lit s"] by (simp add: withinFieldBytes_def MAX_FIELD_BYTES_def)

lemma length_demo_sig_bytes: "length (utf8_encode (demo_sig n)) = 128"
  using ascii_utf8 [OF decode_hex_ascii [OF decode_encode_hex]] by (simp add: demo_sig_def)

lemma demo_hash_ok [simp]: "hex_of_length 32 (demo_hash n)"
  by (simp add: demo_hash_def hex_of_length_def length_demo_sig_bytes)

lemma genesis_prev_ok [simp]: "hex_of_length 32 GENESIS_PREV_HASH"
proof -
  have "unat (word_of_nat (of_char CHR ''0'') :: 16 word) = 48" by (simp only: unat_char_unit) simp
  then have "list_all is_hex_digit GENESIS_PREV_HASH"
    by (simp add: GENESIS_PREV_HASH_def lit_def is_hex_digit_def list_all_iff)
  moreover have "length GENESIS_PREV_HASH = 64" by (simp add: GENESIS_PREV_HASH_def)
  ultimately obtain b where "decode_hex GENESIS_PREV_HASH = Some b" by (simp add: decode_hex_def)
  with \<open>length GENESIS_PREV_HASH = 64\<close> show ?thesis by (auto simp: hex_of_length_def dest: length_decode_hex)
qed

text \<open>The signature comes last in the hashed bytes, so the digest is read off it.\<close>

lemma encode_lp_snoc_str:
  assumes "encode_lp (fs @ [LpStr s]) = Some b"
  shows "\<exists>c. b = c @ utf8_encode s"
proof -
  from assms obtain bodies where bodies: "map lp_body (fs @ [LpStr s]) = map Some bodies"
    and b: "b = concat (map framed bodies)"
    by (auto simp: encode_lp_Some_iff)
  then obtain xs where "bodies = xs @ [utf8_encode s]"
    by (cases bodies rule: rev_cases) auto
  with b show ?thesis by (auto simp: framed_def)
qed

lemma demo_entry_hash:
  assumes "canonicalChainEntryBytes entry = Some b" and "entry_signatureHex entry = demo_sig n"
  shows "computeChainEntryHash demo_sha256 entry = Some (demo_hash n)"
proof -
  from assms(1) obtain payload where "encode_lp (signed_fields entry payload @ [LpStr (entry_signatureHex entry)]) = Some b"
    by (auto simp: canonicalChainEntryBytes_def Option.bind_eq_Some_conv)
  then obtain c where "b = c @ utf8_encode (demo_sig n)"
    using encode_lp_snoc_str assms(2) by fastforce
  then show ?thesis
    using assms(1) by (simp add: computeChainEntryHash_def demo_sha256_def demo_hash_def length_demo_sig_bytes)
qed

section \<open>Entries\<close>

definition demo_entry :: "nat \<Rightarrow> string \<Rightarrow> nat \<Rightarrow> chain_operation \<Rightarrow> chain_entry" where
  "demo_entry n user key operation =
     \<lparr>entry_operation = operation, entry_suite = SUITE_ID, entry_seq = int n,
      entry_prevHashHex = (if n = 1 then GENESIS_PREV_HASH else demo_hash (n - 1)),
      entry_actor = \<lparr>actor_userId = lit user, actor_keyFingerprintHex = fp_hex key\<rparr>,
      entry_timestampMs = 1000 + int n, entry_signatureHex = demo_sig n\<rparr>"

text \<open>A verifier of the example: after \<open>n\<close> entries the previous hash is that of signature \<open>n\<close>.\<close>

definition demo_verifier :: "nat \<Rightarrow> mutable_chain_state \<Rightarrow> chain_history_builder option \<Rightarrow> verifier" where
  "demo_verifier n st h =
     \<lparr>v_seq = int n, v_prevHash = (if n = 0 then GENESIS_PREV_HASH else demo_hash n), v_state = st, v_history = h\<rparr>"

lemma demo_accepts:
  assumes ok: "operation_ok operation" and bounded: "bounded_operation operation" and n: "n < 1000"
    and user: "user \<noteq> []" "length user \<le> 341"
    and gen: "n = 0 \<longleftrightarrow> op_name operation = lit ''genesis''"
    and sig: "resolveActorSigPub demo_api (demo_entry (Suc n) user key operation) st = Inr (key_hex k)"
    and eval: "evaluateEntry demo_api (demo_entry (Suc n) user key operation) (demo_hash (Suc n)) st = Accepted (st', ev)"
  shows "\<exists>h'. accepts demo_api (demo_verifier n st h) (demo_entry (Suc n) user key operation) ev (demo_verifier (Suc n) st' h')"
proof -
  let ?e = "demo_entry (Suc n) user key operation"
  have e_ok: "entry_ok ?e"
    using ok n user
    by (simp add: entry_ok_def demo_entry_def bounded_lit safe_int_def max_safe_integer_def
        FINGERPRINT_BYTES_def SIGNATURE_BYTES_def)
  have "hex_of_length SHA256_BYTES (entry_prevHashHex ?e)" by (simp add: demo_entry_def SHA256_BYTES_def)
  with e_ok n bounded obtain b c where b: "canonicalChainSignedBytes ?e = Some b" and c: "canonicalChainEntryBytes ?e = Some c"
    using entry_bytes_defined [of ?e]
    by (auto simp: demo_entry_def safe_int_def max_safe_integer_def)
  have "decode_hex (entry_signatureHex ?e) = Some (replicate 64 (word_of_nat (Suc n)))"
    by (simp add: demo_entry_def demo_sig_def)
  with b sig have "check_read_entry demo_api ?e st = None"
    by (simp add: check_read_entry_def verifyEntrySignature_def SIGNATURE_BYTES_def)
  with e_ok gen have "passes_checks demo_api ?e (demo_verifier n st h)"
    by (simp add: passes_checks_def demo_verifier_def demo_entry_def)
  moreover have "computeChainEntryHash (api_sha256 demo_api) ?e = Some (demo_hash (Suc n))"
    using demo_entry_hash [OF c, of "Suc n"] by (simp add: demo_entry_def)
  ultimately show ?thesis
    using accepts_entry [of demo_api ?e "demo_verifier n st h" "demo_hash (Suc n)" st' ev] eval
    by (auto simp: demo_verifier_def add.commute)
qed

section \<open>The operations and the states\<close>

definition all_scope_fields :: scope_payload_fields where
  "all_scope_fields = \<lparr>scopeKind = ScopeAll, scopeEnvironmentIds = []\<rparr>"

definition op_genesis :: proposable_operation where
  "op_genesis = Genesis \<lparr>gn_encPubHex = key_hex 1, gn_sigPubHex = key_hex 2\<rparr>"

definition op_add_bob :: proposable_operation where
  "op_add_bob = Add_Member \<lparr>scopeKind = ScopeAll, scopeEnvironmentIds = [], am_targetUserId = lit ''bob'',
     am_encPubHex = key_hex 3, am_sigPubHex = key_hex 4, am_role = Owner\<rparr>"

definition op_create :: proposable_operation where
  "op_create = Create_Environment \<lparr>ce_environmentId = lit ''prod'', ce_dekCommitmentHex = key_hex 50\<rparr>"

definition op_policy :: proposable_operation where
  "op_policy = Set_Approval_Policy \<lparr>sp_ops = [GrantServerOp], sp_requiredApprovals = 2\<rparr>"

definition op_grant :: proposable_operation where
  "op_grant = Grant_Server \<lparr>gs_serverEncPubHex = key_hex 5, gs_serverKeyFingerprintHex = fp_hex 5,
     gs_scopeEnvironmentIds = [lit ''prod''], gs_leasePolicy = []\<rparr>"

definition op_checkpoint :: proposable_operation where
  "op_checkpoint = Checkpoint \<lparr>cp_environments = [\<lparr>ck_environmentId = lit ''prod'', ck_epoch = 1,
     ck_manifestVersion = 1, ck_manifestSigHashHex = key_hex 60, ck_valuesDigestHex = key_hex 61\<rparr>],
     cp_auditHeadHashHex = []\<rparr>"

definition op_rotate :: proposable_operation where
  "op_rotate = Rotate_Epoch \<lparr>re_environmentId = lit ''prod'', re_newEpoch = 2, re_reason = lit ''leak'',
     re_dekCommitmentHex = key_hex 51\<rparr>"

definition op_add_carol :: proposable_operation where
  "op_add_carol = Add_Member \<lparr>scopeKind = ScopeListed, scopeEnvironmentIds = [lit ''prod''],
     am_targetUserId = lit ''carol'', am_encPubHex = key_hex 6, am_sigPubHex = key_hex 7, am_role = Reader\<rparr>"

definition op_add_device :: proposable_operation where
  "op_add_device = Add_Device \<lparr>scopeKind = ScopeListed, scopeEnvironmentIds = [lit ''prod''],
     ad_encPubHex = key_hex 8, ad_sigPubHex = key_hex 9, ad_roleCap = Member\<rparr>"

definition op_delete :: proposable_operation where
  "op_delete = Delete_Environment (lit ''prod'')"

lemmas demo_ops = op_genesis_def op_add_bob_def op_create_def op_policy_def op_grant_def op_checkpoint_def
  op_rotate_def op_add_carol_def op_add_device_def op_delete_def

definition demo_st1 :: mutable_chain_state where
  "demo_st1 = applyGenesis \<lparr>gn_encPubHex = key_hex 1, gn_sigPubHex = key_hex 2\<rparr>
     \<lparr>actor_userId = lit ''alice'', actor_keyFingerprintHex = fp_hex 2\<rparr> 1 empty_chain_state"

definition demo_st2 :: mutable_chain_state where
  "demo_st2 = applyOperation demo_sha256 op_add_bob 2 (lit ''alice'') demo_st1"

definition demo_st3 :: mutable_chain_state where
  "demo_st3 = applyOperation demo_sha256 op_create 3 (lit ''alice'') demo_st2"

definition demo_st4 :: mutable_chain_state where
  "demo_st4 = applyOperation demo_sha256 op_policy 4 (lit ''alice'') demo_st3"

definition demo_proposal :: pending_proposal where
  "demo_proposal =
     \<lparr>proposalSeq = 5, proposalHashHex = demo_hash 5, proposerUserId = lit ''alice'',
      proposerKeyFingerprintHex = fp_hex 2, proposerRoleAtProposal = Owner, inner_operation = op_grant,
      expiresAtMs = 5000, approvals = []\<rparr>"

definition demo_st5 :: mutable_chain_state where
  "demo_st5 = demo_st4\<lparr>pendingProposals := [(demo_hash 5, demo_proposal)]\<rparr>"

definition demo_st6 :: mutable_chain_state where
  "demo_st6 = (applyOperation demo_sha256 op_grant 6 (lit ''alice'') demo_st5)\<lparr>pendingProposals := []\<rparr>"

definition demo_st7 :: mutable_chain_state where
  "demo_st7 = applyOperation demo_sha256 op_checkpoint 7 (lit ''bob'') demo_st6"

definition demo_st8 :: mutable_chain_state where
  "demo_st8 = applyOperation demo_sha256 op_rotate 8 (lit ''alice'') demo_st7"

definition demo_st9 :: mutable_chain_state where
  "demo_st9 = applyOperation demo_sha256 op_add_carol 9 (lit ''alice'') demo_st8"

definition demo_st10 :: mutable_chain_state where
  "demo_st10 = applyOperation demo_sha256 op_add_device 10 (lit ''bob'') demo_st9"

definition demo_st11 :: mutable_chain_state where
  "demo_st11 = applyOperation demo_sha256 op_delete 11 (lit ''alice'') demo_st10"

definition demo_entries :: "chain_entry list" where
  "demo_entries =
     [demo_entry 1 ''alice'' 2 (Direct op_genesis),
      demo_entry 2 ''alice'' 2 (Direct op_add_bob),
      demo_entry 3 ''alice'' 2 (Direct op_create),
      demo_entry 4 ''alice'' 2 (Direct op_policy),
      demo_entry 5 ''alice'' 2 (Propose \<lparr>pr_inner = op_grant, pr_expiresAtMs = 5000\<rparr>),
      demo_entry 6 ''bob'' 4 (Approve (demo_hash 5)),
      demo_entry 7 ''bob'' 4 (Direct op_checkpoint),
      demo_entry 8 ''alice'' 2 (Direct op_rotate),
      demo_entry 9 ''alice'' 2 (Direct op_add_carol),
      demo_entry 10 ''bob'' 4 (Direct op_add_device),
      demo_entry 11 ''alice'' 2 (Direct op_delete)]"

text \<open>The states written out, one after the other.\<close>

definition demo_device :: "nat \<Rightarrow> nat \<Rightarrow> int \<Rightarrow> chain_device" where
  "demo_device e s n = firstDeviceOf (key_hex e) (key_hex s) (fp_hex s) n"

definition demo_owner :: "string \<Rightarrow> nat \<Rightarrow> nat \<Rightarrow> int \<Rightarrow> chain_member" where
  "demo_owner u e s n =
     \<lparr>mem_userId = lit u, mem_role = Owner, mem_scope = AllScope, devices = [(fp_hex s, demo_device e s n)]\<rparr>"

lemma demo_device_simps [simp]:
  "keyFingerprintHex (demo_device e s n) = fp_hex s" "encPubHex (demo_device e s n) = key_hex e"
  "sigPubHex (demo_device e s n) = key_hex s" "addedSeq (demo_device e s n) = n"
  "roleCap (demo_device e s n) = Owner" "cap_scope (demo_device e s n) = AllScope"
  by (simp_all add: demo_device_def firstDeviceOf_def FIRST_DEVICE_CAP_def ALL_SCOPE_def)

lemma demo_st2_eq:
  "demo_st2 = \<lparr>members = [(lit ''alice'', demo_owner ''alice'' 1 2 1), (lit ''bob'', demo_owner ''bob'' 3 4 2)],
     serverGrants = [], environments = [], checkpoints = [], memberEncPubs = {key_hex 3, key_hex 1},
     memberSigPubs = {key_hex 4, key_hex 2}, namedServerKeys = [], approvalPolicy = None, pendingProposals = []\<rparr>"
  by (simp add: demo_st2_def demo_st1_def applyGenesis_def empty_chain_state_def demo_ops applyOperation_def
      applyAddMember_def set_member_def indexDeviceKeys_def demo_owner_def ALL_SCOPE_def memberScopeOf_def
      Let_def demo_device_def [symmetric])

definition demo_prod :: environment_state where
  "demo_prod = \<lparr>currentEpoch = 1, createdAtSeq = 3, deletedAtSeq = None, epochStartSeqs = [(1, 3)],
     dekCommitments = [(1, key_hex 50)]\<rparr>"

lemma demo_st5_eq:
  "demo_st5 = demo_st2\<lparr>environments := [(lit ''prod'', demo_prod)],
     approvalPolicy := Some \<lparr>pol_ops = [GrantServerOp], pol_requiredApprovals = 2\<rparr>,
     pendingProposals := [(demo_hash 5, demo_proposal)]\<rparr>"
  by (simp add: demo_st5_def demo_st4_def demo_st3_def demo_st2_eq applyOperation_def demo_ops
      applyCreateEnvironment_def applySetApprovalPolicy_def first_occurrences_def demo_prod_def INITIAL_EPOCH_def)

definition demo_grant :: server_grant where
  "demo_grant = \<lparr>serverKeyFingerprintHex = fp_hex 5, serverEncPubHex = key_hex 5, grantSeq = 6,
     grant_scopeEnvironmentIds = [lit ''prod''], grant_leasePolicy = []\<rparr>"

lemma demo_st8_eq:
  "demo_st8 = demo_st2\<lparr>serverGrants := [(fp_hex 5, demo_grant)],
     environments := [(lit ''prod'', demo_prod\<lparr>currentEpoch := 2, epochStartSeqs := [(1, 3), (2, 8)],
       dekCommitments := [(1, key_hex 50), (2, key_hex 51)]\<rparr>)],
     checkpoints := [(lit ''prod'', \<lparr>chk_seq = 7, chk_epoch = 1, chk_manifestVersion = 1,
       chk_manifestSigHashHex = key_hex 60, chk_valuesDigestHex = key_hex 61\<rparr>)],
     namedServerKeys := [(key_hex 5, fp_hex 5)],
     approvalPolicy := Some \<lparr>pol_ops = [GrantServerOp], pol_requiredApprovals = 2\<rparr>\<rparr>"
  by (simp add: demo_st8_def demo_st7_def demo_st6_def demo_st5_eq demo_st2_eq applyOperation_def demo_ops
      applyGrantServer_def applyCheckpoint_def applyRotateEpoch_def checkpoint_tuple_state_def demo_prod_def
      demo_grant_def)

definition demo_carol :: chain_member where
  "demo_carol = \<lparr>mem_userId = lit ''carol'', mem_role = Reader, mem_scope = ListedScope [lit ''prod''],
     devices = [(fp_hex 7, demo_device 6 7 9)]\<rparr>"

definition demo_second :: chain_device where
  "demo_second = \<lparr>roleCap = Member, cap_scope = ListedScope [lit ''prod''], keyFingerprintHex = fp_hex 9,
     encPubHex = key_hex 8, sigPubHex = key_hex 9, addedSeq = 10\<rparr>"

lemma demo_st10_eq:
  "demo_st10 = demo_st8\<lparr>members := [(lit ''alice'', demo_owner ''alice'' 1 2 1),
       (lit ''bob'', (demo_owner ''bob'' 3 4 2)\<lparr>devices := [(fp_hex 4, demo_device 3 4 2), (fp_hex 9, demo_second)]\<rparr>),
       (lit ''carol'', demo_carol)],
     memberEncPubs := {key_hex 8, key_hex 6, key_hex 3, key_hex 1},
     memberSigPubs := {key_hex 9, key_hex 7, key_hex 4, key_hex 2}\<rparr>"
  by (simp add: demo_st10_def demo_st9_def demo_st8_eq demo_st2_eq applyOperation_def demo_ops applyAddMember_def
      applyAddDevice_def set_member_def indexDeviceKeys_def memberScopeOf_def Let_def demo_device_def [symmetric]
      demo_carol_def demo_second_def demo_owner_def)

section \<open>The steps\<close>

lemma demo_lookups [simp]:
  "mem_userId (demo_owner u e s n) = lit u" "mem_role (demo_owner u e s n) = Owner"
  "mem_scope (demo_owner u e s n) = AllScope" "devices (demo_owner u e s n) = [(fp_hex s, demo_device e s n)]"
  by (simp_all add: demo_owner_def)

definition demo_context :: "string \<Rightarrow> nat \<Rightarrow> nat \<Rightarrow> int \<Rightarrow> actor_context" where
  "demo_context u e s n = \<lparr>ctx_userId = lit u, ctx_device = demo_device e s n,
     ctx_permission = \<lparr>perm_role = Owner, perm_scope = AllScope\<rparr>\<rparr>"

text \<open>An owner of the state, at one of the owner's first devices.\<close>

definition demo_owner_in :: "mutable_chain_state \<Rightarrow> string \<Rightarrow> nat \<Rightarrow> nat \<Rightarrow> int \<Rightarrow> bool" where
  "demo_owner_in st u e s n \<longleftrightarrow>
     (\<exists>m. map_of (members st) (lit u) = Some m \<and> map_of (devices m) (fp_hex s) = Some (demo_device e s n) \<and>
        mem_userId m = lit u \<and> mem_role m = Owner \<and> mem_scope m = AllScope)"

lemma demo_actor:
  "mem_userId m = lit u \<Longrightarrow> mem_role m = Owner \<Longrightarrow> mem_scope m = AllScope \<Longrightarrow>
   actorContextOf m (demo_device e s n) = demo_context u e s n"
  by (simp add: actorContextOf_def effectivePermissionOf_def minRole_def demo_context_def)

lemma demo_resolves:
  assumes "demo_owner_in st u e s n" and "\<not> is_genesis operation"
  shows "resolveActorSigPub demo_api (demo_entry k u s operation) st = Inr (key_hex s)"
  using assms
  by (auto simp: demo_owner_in_def resolveActorSigPub_def demo_entry_def is_genesis_def
      split: chain_operation.split proposable_operation.split)

lemma demo_evaluates:
  assumes "demo_owner_in st u e s n" and "\<not> is_genesis operation"
  shows "evaluateEntry demo_api (demo_entry k u s operation) h st =
    evaluate_as demo_api (demo_entry k u s operation) h (demo_context u e s n) st"
  using assms demo_actor [of _ u e s n]
  by (auto simp: demo_owner_in_def evaluateEntry_def evaluate_as_def demo_entry_def is_genesis_def
      split: chain_operation.split proposable_operation.split)

lemma demo_direct:
  assumes who: "demo_owner_in st u e s k" and op: "\<not> is_genesis (Direct operation)"
    and ok: "proposable_ok operation" "bounded_lists operation" and n: "0 < n" "n < 1000"
    and user: "u \<noteq> []" "length u \<le> 341"
    and rules: "roleReason operation (demo_context u e s k) = None"
      "\<not> isApprovalTarget operation (approvalPolicy st)"
      "consensusReason demo_sha256 operation (demo_context u e s k) st = None"
  shows "\<exists>h'. accepts demo_api (demo_verifier n st h) (demo_entry (Suc n) u s (Direct operation))
      (Some \<lparr>applied_operation = operation, applied_actorUserId = lit u\<rparr>)
      (demo_verifier (Suc n) (applyOperation demo_sha256 operation (int (Suc n)) (lit u) st) h')"
proof (rule demo_accepts [where k = s])
  show "resolveActorSigPub demo_api (demo_entry (Suc n) u s (Direct operation)) st = Inr (key_hex s)"
    by (rule demo_resolves [OF who op])
  show "evaluateEntry demo_api (demo_entry (Suc n) u s (Direct operation)) (demo_hash (Suc n)) st =
      Accepted (applyOperation demo_sha256 operation (int (Suc n)) (lit u) st,
        Some \<lparr>applied_operation = operation, applied_actorUserId = lit u\<rparr>)"
    unfolding demo_evaluates [OF who op]
    using rules by (simp add: evaluate_as_def evaluateDirect_def demo_entry_def demo_context_def)
qed (use ok n user op is_genesis_name [of "Direct operation"] in
      \<open>simp_all add: operation_ok_def bounded_operation_def\<close>)

lemmas demo_rules = roleReason_def consensusReason_def isApprovalTarget_def establishesOwner_def
  requireRole_def atLeast_def addMemberRoleReason_def checkpointRoleReason_def proposable_op_name_def
  addMemberReason_def registersTakenKey_def memberScopeReason_def scopeEnvironmentsReason_def scopeRoleReason_def
  permissionChangeEnvironments_def contains_scope_iff createEnvironmentReason_def rotateEpochReason_def
  deleteEnvironmentReason_def liveEnvironmentReason_def isDeletedEnvironment_def checkpointReason_def
  checkpoint_stage_def grantServerReason_def addDeviceReason_def quorumReachableAfter_def ownersCount_def
  count_values_def ownersRemovedBy_def

text \<open>One direct operation of an owner, by numbers.\<close>

lemma demo_step:
  assumes "demo_owner_in st u e s k" and "\<not> is_genesis (Direct operation)"
    and "proposable_ok operation" "bounded_lists operation" and "0 < n" "n < 1000"
    and "u \<noteq> []" "length u \<le> 341"
    and "roleReason operation (demo_context u e s k) = None"
      "\<not> isApprovalTarget operation (approvalPolicy st)"
      "consensusReason demo_sha256 operation (demo_context u e s k) st = None"
    and "n' = Suc n" and "st' = applyOperation demo_sha256 operation (int n') (lit u) st"
  shows "\<exists>h'. accepts demo_api (demo_verifier n st h) (demo_entry n' u s (Direct operation))
      (Some \<lparr>applied_operation = operation, applied_actorUserId = lit u\<rparr>) (demo_verifier n' st' h')"
  using demo_direct [OF assms(1-11), of h] assms(12,13) by simp

lemma demo_st1_eq:
  "demo_st1 = demo_st2\<lparr>members := [(lit ''alice'', demo_owner ''alice'' 1 2 1)],
     memberEncPubs := {key_hex 1}, memberSigPubs := {key_hex 2}\<rparr>"
  by (simp add: demo_st1_def demo_st2_eq applyGenesis_def empty_chain_state_def set_member_def indexDeviceKeys_def
      demo_owner_def ALL_SCOPE_def Let_def demo_device_def [symmetric])

lemma demo_st34_eq:
  "demo_st3 = demo_st2\<lparr>environments := [(lit ''prod'', demo_prod)]\<rparr>"
  "demo_st4 = demo_st2\<lparr>environments := [(lit ''prod'', demo_prod)],
     approvalPolicy := Some \<lparr>pol_ops = [GrantServerOp], pol_requiredApprovals = 2\<rparr>\<rparr>"
  by (simp_all add: demo_st4_def demo_st3_def demo_st2_eq applyOperation_def demo_ops
      applyCreateEnvironment_def applySetApprovalPolicy_def first_occurrences_def demo_prod_def INITIAL_EPOCH_def)

lemma demo_st67_eq:
  "demo_st6 = demo_st4\<lparr>serverGrants := [(fp_hex 5, demo_grant)], namedServerKeys := [(key_hex 5, fp_hex 5)]\<rparr>"
  "demo_st7 = demo_st6\<lparr>checkpoints := [(lit ''prod'', \<lparr>chk_seq = 7, chk_epoch = 1, chk_manifestVersion = 1,
       chk_manifestSigHashHex = key_hex 60, chk_valuesDigestHex = key_hex 61\<rparr>)]\<rparr>"
  by (simp_all add: demo_st7_def demo_st6_def demo_st5_def demo_st34_eq demo_st2_eq applyOperation_def demo_ops
      applyGrantServer_def applyCheckpoint_def checkpoint_tuple_state_def demo_grant_def)

lemma demo_st9_eq:
  "demo_st9 = demo_st8\<lparr>members := [(lit ''alice'', demo_owner ''alice'' 1 2 1), (lit ''bob'', demo_owner ''bob'' 3 4 2),
       (lit ''carol'', demo_carol)],
     memberEncPubs := {key_hex 6, key_hex 3, key_hex 1}, memberSigPubs := {key_hex 7, key_hex 4, key_hex 2}\<rparr>"
  by (simp add: demo_st9_def demo_st8_eq demo_st2_eq applyOperation_def demo_ops applyAddMember_def
      set_member_def indexDeviceKeys_def memberScopeOf_def Let_def demo_device_def [symmetric] demo_carol_def)

lemmas demo_states = demo_st1_eq demo_st34_eq demo_st5_eq demo_st67_eq demo_st8_eq demo_st9_eq demo_st10_eq demo_st2_eq

lemma demo_owners:
  "demo_owner_in demo_st1 ''alice'' 1 2 1" "demo_owner_in demo_st2 ''alice'' 1 2 1"
  "demo_owner_in demo_st3 ''alice'' 1 2 1" "demo_owner_in demo_st4 ''alice'' 1 2 1"
  "demo_owner_in demo_st5 ''bob'' 3 4 2" "demo_owner_in demo_st6 ''bob'' 3 4 2"
  "demo_owner_in demo_st7 ''alice'' 1 2 1" "demo_owner_in demo_st8 ''alice'' 1 2 1"
  "demo_owner_in demo_st9 ''bob'' 3 4 2" "demo_owner_in demo_st10 ''alice'' 1 2 1"
  by (simp_all add: demo_owner_in_def demo_states)

lemma demo_ops_ok:
  "proposable_ok op_add_bob" "proposable_ok op_create" "proposable_ok op_policy" "proposable_ok op_grant"
  "proposable_ok op_checkpoint" "proposable_ok op_rotate" "proposable_ok op_add_carol"
  "proposable_ok op_add_device" "proposable_ok op_delete" "proposable_ok op_genesis"
  by (simp_all add: demo_ops proposable_ok_def bounded_lit within_lit scope_fields_ok_def MAX_SCOPE_ENVIRONMENTS_def
      SHA256_BYTES_def FINGERPRINT_BYTES_def MAX_LEASE_POLICY_ISSUERS_def safe_int_def max_safe_integer_def
      MIN_ACTIVE_REQUIRED_APPROVALS_def checkpoint_entry_ok_def)

lemma demo_ops_bounded:
  "bounded_lists op_add_bob" "bounded_lists op_create" "bounded_lists op_policy" "bounded_lists op_grant"
  "bounded_lists op_checkpoint" "bounded_lists op_rotate" "bounded_lists op_add_carol"
  "bounded_lists op_add_device" "bounded_lists op_delete" "bounded_lists op_genesis"
  by (simp_all add: demo_ops bounded_lists_def)

lemma demo_ops_later:
  "\<not> is_genesis (Direct op_add_bob)" "\<not> is_genesis (Direct op_create)" "\<not> is_genesis (Direct op_policy)"
  "\<not> is_genesis (Direct op_checkpoint)" "\<not> is_genesis (Direct op_rotate)" "\<not> is_genesis (Direct op_add_carol)"
  "\<not> is_genesis (Direct op_add_device)" "\<not> is_genesis (Direct op_delete)"
  by (simp_all add: demo_ops is_genesis_def)

lemmas demo_premises = demo_ops_ok demo_ops_bounded demo_ops_later

lemma demo_rules_pass:
  "consensusReason demo_sha256 op_add_bob (demo_context ''alice'' 1 2 1) demo_st1 = None"
  "consensusReason demo_sha256 op_create (demo_context ''alice'' 1 2 1) demo_st2 = None"
  "consensusReason demo_sha256 op_policy (demo_context ''alice'' 1 2 1) demo_st3 = None"
  "consensusReason demo_sha256 op_grant (demo_context ''alice'' 1 2 1) demo_st4 = None"
  "consensusReason demo_sha256 op_grant (demo_context ''alice'' 1 2 1) demo_st5 = None"
  "consensusReason demo_sha256 op_checkpoint (demo_context ''bob'' 3 4 2) demo_st6 = None"
  "consensusReason demo_sha256 op_rotate (demo_context ''alice'' 1 2 1) demo_st7 = None"
  "consensusReason demo_sha256 op_add_carol (demo_context ''alice'' 1 2 1) demo_st8 = None"
  "consensusReason demo_sha256 op_add_device (demo_context ''bob'' 3 4 2) demo_st9 = None"
  "consensusReason demo_sha256 op_delete (demo_context ''alice'' 1 2 1) demo_st10 = None"
  by (simp_all add: demo_rules demo_ops demo_context_def demo_states demo_prod_def demo_grant_def memberScopeOf_def
      scopeIncludesEnvironment_iff capWithinCap_iff)

lemma demo_roles_pass:
  "roleReason op_add_bob (demo_context u e s n) = None" "roleReason op_create (demo_context u e s n) = None"
  "roleReason op_policy (demo_context u e s n) = None" "roleReason op_grant (demo_context u e s n) = None"
  "roleReason op_checkpoint (demo_context u e s n) = None" "roleReason op_rotate (demo_context u e s n) = None"
  "roleReason op_add_carol (demo_context u e s n) = None" "roleReason op_add_device (demo_context u e s n) = None"
  "roleReason op_delete (demo_context u e s n) = None"
  by (simp_all add: demo_rules demo_ops demo_context_def)

lemma demo_not_targets:
  "\<not> isApprovalTarget op_add_bob (approvalPolicy demo_st1)" "\<not> isApprovalTarget op_create (approvalPolicy demo_st2)"
  "\<not> isApprovalTarget op_policy (approvalPolicy demo_st3)"
  "\<not> isApprovalTarget op_checkpoint (approvalPolicy demo_st6)" "\<not> isApprovalTarget op_rotate (approvalPolicy demo_st7)"
  "\<not> isApprovalTarget op_add_carol (approvalPolicy demo_st8)"
  "\<not> isApprovalTarget op_add_device (approvalPolicy demo_st9)"
  "\<not> isApprovalTarget op_delete (approvalPolicy demo_st10)"
  by (simp_all add: demo_rules demo_ops demo_states approval_target_name_def)

lemma demo_genesis_step:
  "\<exists>h'. accepts demo_api (demo_verifier 0 empty_chain_state h) (demo_entry 1 ''alice'' 2 (Direct op_genesis))
      (Some \<lparr>applied_operation = op_genesis, applied_actorUserId = lit ''alice''\<rparr>) (demo_verifier 1 demo_st1 h')"
proof -
  have "\<exists>h'. accepts demo_api (demo_verifier 0 empty_chain_state h) (demo_entry (Suc 0) ''alice'' 2 (Direct op_genesis))
      (Some \<lparr>applied_operation = op_genesis, applied_actorUserId = lit ''alice''\<rparr>) (demo_verifier (Suc 0) demo_st1 h')"
    by (rule demo_accepts [where k = 2])
      (simp_all add: operation_ok_def bounded_operation_def op_name_def proposable_op_name_def op_genesis_def resolveActorSigPub_def demo_entry_def evaluateEntry_def demo_st1_def
        proposable_ok_def bounded_lists_def)
  then show ?thesis by simp
qed

lemma demo_propose_step:
  "\<exists>h'. accepts demo_api (demo_verifier 4 demo_st4 h)
      (demo_entry 5 ''alice'' 2 (Propose \<lparr>pr_inner = op_grant, pr_expiresAtMs = 5000\<rparr>)) None (demo_verifier 5 demo_st5 h')"
proof -
  let ?op = "Propose \<lparr>pr_inner = op_grant, pr_expiresAtMs = 5000\<rparr>"
  have later: "\<not> is_genesis ?op" by (simp add: is_genesis_def)
  have "evaluateEntry demo_api (demo_entry (Suc 4) ''alice'' 2 ?op) (demo_hash (Suc 4)) demo_st4 = Accepted (demo_st5, None)"
    unfolding demo_evaluates [OF demo_owners(4) later]
    using demo_rules_pass(4)
    by (simp add: evaluate_as_def evaluatePropose_def demo_entry_def demo_roles_pass)
      (simp add: demo_context_def demo_st5_def demo_proposal_def demo_states demo_rules demo_ops approval_target_name_def
        APPROVAL_TARGET_OPS_def)
  then have "\<exists>h'. accepts demo_api (demo_verifier 4 demo_st4 h) (demo_entry (Suc 4) ''alice'' 2 ?op) None
      (demo_verifier (Suc 4) demo_st5 h')"
    by (intro demo_accepts [where k = 2] demo_resolves [OF demo_owners(4) later])
      (simp_all add: demo_premises operation_ok_def bounded_operation_def op_name_def safe_int_def max_safe_integer_def)
  then show ?thesis by simp
qed

lemma demo_approve_step:
  "\<exists>h'. accepts demo_api (demo_verifier 5 demo_st5 h) (demo_entry 6 ''bob'' 4 (Approve (demo_hash 5)))
      (Some \<lparr>applied_operation = op_grant, applied_actorUserId = lit ''alice''\<rparr>) (demo_verifier 6 demo_st6 h')"
proof -
  let ?op = "Approve (demo_hash 5)"
  have later: "\<not> is_genesis ?op" by (simp add: is_genesis_def)
  have pending: "map_of (pendingProposals demo_st5) (demo_hash 5) = Some demo_proposal"
    by (simp add: demo_st5_def)
  have vote: "approveVoteReason 1006 (demo_context ''bob'' 3 4 2) demo_proposal demo_st5 = None"
    by (simp add: approveVoteReason_def approvalSignersOf_def demo_proposal_def demo_context_def demo_states
        isApprovalTarget_def establishesOwner_def demo_ops proposable_op_name_def approval_target_name_def
        APPROVAL_TARGET_OPS_def)
  have signers: "approvalSignersOf demo_proposal =
      [\<lparr>vote_userId = lit ''alice'', vote_keyFingerprintHex = fp_hex 2\<rparr>]"
    by (simp add: approvalSignersOf_def demo_proposal_def)
  have "countOwnerVotes demo_st5 [\<lparr>vote_userId = lit ''alice'', vote_keyFingerprintHex = fp_hex 2\<rparr>,
      \<lparr>vote_userId = lit ''bob'', vote_keyFingerprintHex = fp_hex 4\<rparr>] = 2"
    by (simp add: countOwnerVotes_def ownerVotersOf_def is_owner_vote_def demo_states effectivePermissionOf_def minRole_def)
  then have quorum: "quorum_reached (approvalPolicy demo_st5) (countOwnerVotes demo_st5
      [\<lparr>vote_userId = lit ''alice'', vote_keyFingerprintHex = fp_hex 2\<rparr>,
       \<lparr>vote_userId = lit ''bob'', vote_keyFingerprintHex = fp_hex 4\<rparr>])"
    by (simp add: quorum_reached_def demo_st5_eq)
  have complete: "completeProposal demo_api demo_proposal demo_st5 6 =
      Accepted (demo_st6, Some \<lparr>applied_operation = op_grant, applied_actorUserId = lit ''alice''\<rparr>)"
  proof -
    obtain m where m: "map_of (members demo_st5) (lit ''alice'') = Some m" "m = demo_owner ''alice'' 1 2 1"
      by (simp add: demo_states)
    have actor: "actorContextOf m (demo_device 1 2 1) = demo_context ''alice'' 1 2 1"
      unfolding m(2) by (rule demo_actor) simp_all
    have "pendingProposals (applyOperation demo_sha256 op_grant 6 (lit ''alice'') demo_st5) = [(demo_hash 5, demo_proposal)]"
      by (simp add: applyOperation_def op_grant_def applyGrantServer_def demo_st5_def)
    then show ?thesis
      using m actor demo_rules_pass(5) demo_roles_pass(4)
      by (simp add: completeProposal_def demo_proposal_def Let_def demo_st6_def)
  qed
  have "evaluateEntry demo_api (demo_entry (Suc 5) ''bob'' 4 ?op) (demo_hash (Suc 5)) demo_st5 =
      Accepted (demo_st6, Some \<lparr>applied_operation = op_grant, applied_actorUserId = lit ''alice''\<rparr>)"
    unfolding demo_evaluates [OF demo_owners(5) later]
    using complete pending vote quorum signers
    by (simp add: evaluate_as_def evaluateApprove_def demo_entry_def demo_context_def)
  then have "\<exists>h'. accepts demo_api (demo_verifier 5 demo_st5 h) (demo_entry (Suc 5) ''bob'' 4 ?op)
      (Some \<lparr>applied_operation = op_grant, applied_actorUserId = lit ''alice''\<rparr>) (demo_verifier (Suc 5) demo_st6 h')"
    by (intro demo_accepts [where k = 4] demo_resolves [OF demo_owners(5) later])
      (simp_all add: operation_ok_def bounded_operation_def op_name_def SHA256_BYTES_def)
  then show ?thesis by simp
qed

section \<open>The chain\<close>

definition demo_state :: "nat \<Rightarrow> mutable_chain_state" where
  "demo_state k = [empty_chain_state, demo_st1, demo_st2, demo_st3, demo_st4, demo_st5, demo_st6, demo_st7,
     demo_st8, demo_st9, demo_st10, demo_st11] ! k"

lemma demo_next:
  assumes "\<exists>hist. reached demo_api h es (demo_verifier n st hist)"
    and "\<And>hist. \<exists>hist'. accepts demo_api (demo_verifier n st hist) e ev (demo_verifier n' st' hist')"
  shows "\<exists>hist. reached demo_api h (es @ [e]) (demo_verifier n' st' hist)"
  using assms by (meson reached_next)

lemma demo_start: "\<exists>hist. reached demo_api h [] (demo_verifier 0 empty_chain_state hist)"
  using reached_start [of demo_api h] by (auto simp: start_verifier_def demo_verifier_def)

lemma demo_step_2:
  "\<exists>h'. accepts demo_api (demo_verifier 1 demo_st1 h) (demo_entry 2 ''alice'' 2 (Direct op_add_bob))
     (Some \<lparr>applied_operation = op_add_bob, applied_actorUserId = lit ''alice''\<rparr>) (demo_verifier 2 demo_st2 h')"
  by (rule demo_step [OF demo_owners(1) demo_ops_later(1) demo_ops_ok(1) demo_ops_bounded(1) _ _ _ _
        demo_roles_pass(1) demo_not_targets(1) demo_rules_pass(1)]) (simp_all add: demo_st2_def)

lemma demo_step_3:
  "\<exists>h'. accepts demo_api (demo_verifier 2 demo_st2 h) (demo_entry 3 ''alice'' 2 (Direct op_create))
     (Some \<lparr>applied_operation = op_create, applied_actorUserId = lit ''alice''\<rparr>) (demo_verifier 3 demo_st3 h')"
  by (rule demo_step [OF demo_owners(2) demo_ops_later(2) demo_ops_ok(2) demo_ops_bounded(2) _ _ _ _
        demo_roles_pass(2) demo_not_targets(2) demo_rules_pass(2)]) (simp_all add: demo_st3_def)

lemma demo_step_4:
  "\<exists>h'. accepts demo_api (demo_verifier 3 demo_st3 h) (demo_entry 4 ''alice'' 2 (Direct op_policy))
     (Some \<lparr>applied_operation = op_policy, applied_actorUserId = lit ''alice''\<rparr>) (demo_verifier 4 demo_st4 h')"
  by (rule demo_step [OF demo_owners(3) demo_ops_later(3) demo_ops_ok(3) demo_ops_bounded(3) _ _ _ _
        demo_roles_pass(3) demo_not_targets(3) demo_rules_pass(3)]) (simp_all add: demo_st4_def)

lemma demo_step_7:
  "\<exists>h'. accepts demo_api (demo_verifier 6 demo_st6 h) (demo_entry 7 ''bob'' 4 (Direct op_checkpoint))
     (Some \<lparr>applied_operation = op_checkpoint, applied_actorUserId = lit ''bob''\<rparr>) (demo_verifier 7 demo_st7 h')"
  by (rule demo_step [OF demo_owners(6) demo_ops_later(4) demo_ops_ok(5) demo_ops_bounded(5) _ _ _ _
        demo_roles_pass(5) demo_not_targets(4) demo_rules_pass(6)]) (simp_all add: demo_st7_def)

lemma demo_step_8:
  "\<exists>h'. accepts demo_api (demo_verifier 7 demo_st7 h) (demo_entry 8 ''alice'' 2 (Direct op_rotate))
     (Some \<lparr>applied_operation = op_rotate, applied_actorUserId = lit ''alice''\<rparr>) (demo_verifier 8 demo_st8 h')"
  by (rule demo_step [OF demo_owners(7) demo_ops_later(5) demo_ops_ok(6) demo_ops_bounded(6) _ _ _ _
        demo_roles_pass(6) demo_not_targets(5) demo_rules_pass(7)]) (simp_all add: demo_st8_def)

lemma demo_step_9:
  "\<exists>h'. accepts demo_api (demo_verifier 8 demo_st8 h) (demo_entry 9 ''alice'' 2 (Direct op_add_carol))
     (Some \<lparr>applied_operation = op_add_carol, applied_actorUserId = lit ''alice''\<rparr>) (demo_verifier 9 demo_st9 h')"
  by (rule demo_step [OF demo_owners(8) demo_ops_later(6) demo_ops_ok(7) demo_ops_bounded(7) _ _ _ _
        demo_roles_pass(7) demo_not_targets(6) demo_rules_pass(8)]) (simp_all add: demo_st9_def)

lemma demo_step_10:
  "\<exists>h'. accepts demo_api (demo_verifier 9 demo_st9 h) (demo_entry 10 ''bob'' 4 (Direct op_add_device))
     (Some \<lparr>applied_operation = op_add_device, applied_actorUserId = lit ''bob''\<rparr>) (demo_verifier 10 demo_st10 h')"
  by (rule demo_step [OF demo_owners(9) demo_ops_later(7) demo_ops_ok(8) demo_ops_bounded(8) _ _ _ _
        demo_roles_pass(8) demo_not_targets(7) demo_rules_pass(9)]) (simp_all add: demo_st10_def)

lemma demo_step_11:
  "\<exists>h'. accepts demo_api (demo_verifier 10 demo_st10 h) (demo_entry 11 ''alice'' 2 (Direct op_delete))
     (Some \<lparr>applied_operation = op_delete, applied_actorUserId = lit ''alice''\<rparr>) (demo_verifier 11 demo_st11 h')"
  by (rule demo_step [OF demo_owners(10) demo_ops_later(8) demo_ops_ok(9) demo_ops_bounded(9) _ _ _ _
        demo_roles_pass(9) demo_not_targets(8) demo_rules_pass(10)]) (simp_all add: demo_st11_def)

lemma demo_reached:
  "\<exists>hist. reached demo_api h (take 5 demo_entries) (demo_verifier 5 demo_st5 hist)"
  "\<exists>hist. reached demo_api h (take 6 demo_entries) (demo_verifier 6 demo_st6 hist)"
  "\<exists>hist. reached demo_api h (take 8 demo_entries) (demo_verifier 8 demo_st8 hist)"
  "\<exists>hist. reached demo_api h (take 9 demo_entries) (demo_verifier 9 demo_st9 hist)"
  "\<exists>hist. reached demo_api h (take 10 demo_entries) (demo_verifier 10 demo_st10 hist)"
  "\<exists>hist. reached demo_api h (take 11 demo_entries) (demo_verifier 11 demo_st11 hist)"
proof -
  note r4 = demo_next [OF demo_next [OF demo_next [OF demo_next [OF demo_start [of h] demo_genesis_step]
    demo_step_2] demo_step_3] demo_step_4]
  note r5 = demo_next [OF r4 demo_propose_step]
  note r6 = demo_next [OF r5 demo_approve_step]
  note r8 = demo_next [OF demo_next [OF r6 demo_step_7] demo_step_8]
  note r9 = demo_next [OF r8 demo_step_9]
  note r10 = demo_next [OF r9 demo_step_10]
  note r11 = demo_next [OF r10 demo_step_11]
  show "\<exists>hist. reached demo_api h (take 5 demo_entries) (demo_verifier 5 demo_st5 hist)"
    using r5 by (simp add: demo_entries_def)
  show "\<exists>hist. reached demo_api h (take 6 demo_entries) (demo_verifier 6 demo_st6 hist)"
    using r6 by (simp add: demo_entries_def)
  show "\<exists>hist. reached demo_api h (take 8 demo_entries) (demo_verifier 8 demo_st8 hist)"
    using r8 by (simp add: demo_entries_def)
  show "\<exists>hist. reached demo_api h (take 9 demo_entries) (demo_verifier 9 demo_st9 hist)"
    using r9 by (simp add: demo_entries_def)
  show "\<exists>hist. reached demo_api h (take 10 demo_entries) (demo_verifier 10 demo_st10 hist)"
    using r10 by (simp add: demo_entries_def)
  show "\<exists>hist. reached demo_api h (take 11 demo_entries) (demo_verifier 11 demo_st11 hist)"
    using r11 by (simp add: demo_entries_def)
qed

lemma demo_st11_eq:
  "demo_st11 = demo_st10\<lparr>members := [(lit ''alice'', demo_owner ''alice'' 1 2 1),
       (lit ''bob'', (demo_owner ''bob'' 3 4 2)\<lparr>devices := [(fp_hex 4, demo_device 3 4 2),
          (fp_hex 9, demo_second\<lparr>cap_scope := ListedScope []\<rparr>)]\<rparr>),
       (lit ''carol'', demo_carol\<lparr>mem_scope := ListedScope []\<rparr>)],
     environments := [(lit ''prod'', demo_prod\<lparr>currentEpoch := 2, epochStartSeqs := [(1, 3), (2, 8)],
       dekCommitments := [(1, key_hex 50), (2, key_hex 51)], deletedAtSeq := Some 11\<rparr>)],
     serverGrants := [(fp_hex 5, demo_grant\<lparr>grant_scopeEnvironmentIds := []\<rparr>)], checkpoints := []\<rparr>"
  by (simp add: demo_st11_def demo_st10_eq demo_st8_eq demo_st2_eq applyOperation_def op_delete_def
      applyDeleteEnvironment_def prune_member_def prune_device_def prune_grant_def demo_carol_def demo_second_def
      demo_owner_def demo_grant_def demo_device_def firstDeviceOf_def FIRST_DEVICE_CAP_def ALL_SCOPE_def)

section \<open>Distinct hashes\<close>

lemma demo_hash_eq: "demo_hash n = encode_hex (rev (utf8_encode (encode_hex (replicate 16 (word_of_nat n)))))"
proof -
  have "demo_sig n = encode_hex (replicate 48 (word_of_nat n)) @ encode_hex (replicate 16 (word_of_nat n))"
    by (simp add: demo_sig_def encode_hex_def concat_append [symmetric] map_append [symmetric] replicate_add [symmetric]
        del: concat_append map_append map_replicate)
  then have "utf8_encode (demo_sig n) =
      utf8_encode (encode_hex (replicate 48 (word_of_nat n))) @ utf8_encode (encode_hex (replicate 16 (word_of_nat n)))"
    by (simp only: utf8_append_ascii [OF decode_hex_ascii [OF decode_encode_hex]])
  moreover have "length (utf8_encode (encode_hex (replicate 16 (word_of_nat n)))) = 32"
    using ascii_utf8 [OF decode_hex_ascii [OF decode_encode_hex]] by simp
  ultimately show ?thesis by (simp add: demo_hash_def)
qed

lemma demo_hash_inject: "m < 256 \<Longrightarrow> n < 256 \<Longrightarrow> demo_hash m = demo_hash n \<longleftrightarrow> m = n"
  using utf8_encode_inj [of "encode_hex (replicate 16 (word_of_nat m))" "encode_hex (replicate 16 (word_of_nat n))"]
  by (auto simp: demo_hash_eq word_of_nat_byte_inject)

lemma length_demo_entries: "length demo_entries = 11"
  by (simp add: demo_entries_def)

lemma demo_entry_number:
  assumes "e \<in> set demo_entries"
  obtains n where "n < 11" and "e = demo_entries ! n" and "entry_signatureHex e = demo_sig (Suc n)"
proof -
  from assms obtain n where n: "n < 11" "e = demo_entries ! n"
    by (auto simp: in_set_conv_nth length_demo_entries)
  have "\<forall>k \<in> set [0..<11]. entry_signatureHex (demo_entries ! k) = demo_sig (Suc k)"
    by (simp add: demo_entries_def demo_entry_def upt_rec eval_nat_numeral)
  with n have "entry_signatureHex e = demo_sig (Suc n)" by simp
  with n show ?thesis using that [of n] by simp
qed

lemma demo_collision_free:
  "collision_free_on demo_sha256 (entry_byte_strings (take 11 demo_entries @ take 11 demo_entries))"
proof -
  have one: "\<exists>n < 11. canonicalChainEntryBytes (demo_entries ! n) = Some b \<and> encode_hex (demo_sha256 b) = demo_hash (Suc n)"
    if "b \<in> entry_byte_strings (take 11 demo_entries @ take 11 demo_entries)" for b
  proof -
    from that obtain e where "e \<in> set demo_entries" and b: "canonicalChainEntryBytes e = Some b"
      by (auto simp: entry_byte_strings_def dest: in_set_takeD)
    from this(1) obtain n where "n < 11" "e = demo_entries ! n" "entry_signatureHex e = demo_sig (Suc n)"
      by (rule demo_entry_number)
    with b demo_entry_hash [OF b, of "Suc n"] show ?thesis
      by (auto simp: computeChainEntryHash_def)
  qed
  show ?thesis
    unfolding collision_free_on_def
  proof (intro ballI impI)
    fix a b
    assume A: "a \<in> entry_byte_strings (take 11 demo_entries @ take 11 demo_entries)"
      "b \<in> entry_byte_strings (take 11 demo_entries @ take 11 demo_entries)" "demo_sha256 a = demo_sha256 b"
    from one [OF A(1)] obtain m where m: "m < 11" "canonicalChainEntryBytes (demo_entries ! m) = Some a"
      "encode_hex (demo_sha256 a) = demo_hash (Suc m)" by blast
    from one [OF A(2)] obtain n where n: "n < 11" "canonicalChainEntryBytes (demo_entries ! n) = Some b"
      "encode_hex (demo_sha256 b) = demo_hash (Suc n)" by blast
    from m(3) n(3) A(3) have "demo_hash (Suc m) = demo_hash (Suc n)" by simp
    with m(1) n(1) have "m = n" by (simp add: demo_hash_inject)
    with m(2) n(2) show "a = b" by simp
  qed
qed

lemma demo_well_formed: "\<forall>x \<in> set (take 11 demo_entries @ take 11 demo_entries). well_formed_entry x"
proof -
  have "well_formed GENESIS_PREV_HASH" "well_formed (demo_hash n)" "well_formed (fp_hex n)" "well_formed (key_hex n)" for n
    using genesis_prev_ok by (auto simp: hex_of_length_def demo_hash_def fp_hex_def key_hex_def intro: well_formed_hex)
  then show ?thesis
    by (simp add: demo_entries_def demo_entry_def well_formed_entry_def entry_texts_def operation_texts_def
        proposable_texts_def demo_ops SUITE_ID_def checkpoint_texts_def)
qed

end
