(* ===== verification/Chain_Guarantees.thy ===== *)
theory Chain_Guarantees
  imports Chain_Extension Chain_Example
begin

text \<open>
  What a caller of \<open>verifyChain\<close> can rely on, stated on the states it returns: for one chain, and
  for a chain and its extension by one entry. Each theorem is applied at the example chain.
\<close>

section \<open>The example at the interface\<close>

definition demo_chain :: "nat \<Rightarrow> js_value list" where
  "demo_chain k = map write_entry (take k demo_entries)"

lemma demo_chain_next:
  "demo_chain 6 = demo_chain 5 @ [write_entry (demo_entries ! 5)]"
  "demo_chain 9 = demo_chain 8 @ [write_entry (demo_entries ! 8)]"
  "demo_chain 10 = demo_chain 9 @ [write_entry (demo_entries ! 9)]"
  "demo_chain 11 = demo_chain 10 @ [write_entry (demo_entries ! 10)]"
  by (simp_all add: demo_chain_def demo_entries_def)

definition head_of :: "mutable_chain_state \<Rightarrow> nat \<Rightarrow> chain_state \<Rightarrow> bool" where
  "head_of st n s \<longleftrightarrow> st_members s = members st \<and>
    st_serverGrants s = serverGrants st \<and> st_environments s = environments st \<and> st_checkpoints s = checkpoints st \<and>
    st_approvalPolicy s = approvalPolicy st \<and> st_pendingProposals s = pendingProposals st \<and>
    st_headSeq s = int n \<and> st_headHashHex s = demo_hash n"

lemma demo_head:
  assumes "\<exists>hist. reached demo_api None (take n demo_entries) (demo_verifier n st hist)" and "n \<noteq> 0"
  shows "\<exists>s. verifyChain demo_api (demo_chain n) = Accepted s \<and> head_of st n s"
proof -
  from assms(1) obtain hist where reach: "reached demo_api None (take n demo_entries) (demo_verifier n st hist)" ..
  have "take n demo_entries \<noteq> []" using assms(2) by (simp add: demo_entries_def)
  then have "verifyChain demo_api (demo_chain n) = Accepted (at_head (demo_verifier n st hist))"
    using run_write_chain [OF reach] by (auto simp: verifyChain_Accepted demo_chain_def)
  with at_head_fields [OF reached_ok [OF reach]] assms(2) show ?thesis
    by (simp add: demo_verifier_def head_of_def)
qed

lemmas demo_heads = demo_head [OF demo_reached(1)] demo_head [OF demo_reached(2)] demo_head [OF demo_reached(3)]
  demo_head [OF demo_reached(4)] demo_head [OF demo_reached(5)] demo_head [OF demo_reached(6)]

section \<open>Totality\<close>

text \<open>
  C1. Verification is total: whatever JavaScript values a server distributes as the entries, both
  entry points end with a state or with a typed rejection, never with an uncaught exception.
\<close>

theorem verification_never_throws:
  "verifyChain api entries \<noteq> Threw \<and> verifyChainWithHistory api entries \<noteq> Threw"
proof -
  have run: "run_loop (verify_step api) (start_verifier h) entries \<noteq> Threw" for h
    by (rule verify_loop.run_total) simp
  have "v_history v \<noteq> None"
    if "run_loop (verify_step api) (start_verifier (Some empty_history)) entries = Accepted v" for v
    using recorded_run_agrees [of api entries v] that by (auto simp: recorded_run_def)
  with run show ?thesis
    by (auto simp: verifyChain_def verifyChainWithHistory_def verifyChainCore_def fail_def
        split: outcome.splits option.splits elim!: then_call.elims)
qed

section \<open>The state of an accepted chain\<close>

lemma accepted_state_parts:
  assumes "verifyChain api entries = Accepted st"
  shows "st_headSeq st = int (length entries)"
    and "members_ok (api_sha256 api) (st_headSeq st) (st_members st)"
    and "environments_ok (st_headSeq st) (st_environments st)"
    and "checkpoints_ok (st_headSeq st) (st_environments st) (st_checkpoints st)"
    and "grants_ok (api_sha256 api) (st_headSeq st) (st_environments st) (st_namedServerKeys st) (st_serverGrants st)"
    and "pendings_ok (st_headSeq st) (st_pendingProposals st)"
    and "unique_keys (st_members st)"
    and "scopes_ok (st_environments st) (st_members st)"
    and "policy_ok (st_headSeq st) (st_members st) (st_approvalPolicy st)"
    and "device_of (st_members st) u f = Some d \<Longrightarrow> map_of (st_namedServerKeys st) (encPubHex d) = None"
proof -
  from assms obtain v where "st = at_head v" and "verifier_ok api v" and "v_seq v = int (length entries)"
    and "state_ok (api_sha256 api) (int (length entries)) (v_state v)"
    by (rule verifyChain_state_ok)
  then show "st_headSeq st = int (length entries)"
    "members_ok (api_sha256 api) (st_headSeq st) (st_members st)"
    "environments_ok (st_headSeq st) (st_environments st)"
    "checkpoints_ok (st_headSeq st) (st_environments st) (st_checkpoints st)"
    "grants_ok (api_sha256 api) (st_headSeq st) (st_environments st) (st_namedServerKeys st) (st_serverGrants st)"
    "pendings_ok (st_headSeq st) (st_pendingProposals st)"
    "unique_keys (st_members st)"
    "scopes_ok (st_environments st) (st_members st)"
    "policy_ok (st_headSeq st) (st_members st) (st_approvalPolicy st)"
    "device_of (st_members st) u f = Some d \<Longrightarrow> map_of (st_namedServerKeys st) (encPubHex d) = None"
    by (simp_all add: at_head_fields state_ok_def index_ok_def)
qed

text \<open>
  C7. The state returned for an accepted chain is well formed: every member is stored under its id
  with at least one device, whose fingerprint is that of its keys, and an owner's scope is all
  environments; an environment's epochs are numbered from 1 to the current one with increasing start
  numbers, all before its deletion; a checkpoint is of a live environment at an epoch it has reached;
  a grant is stored under its key's fingerprint and names no deleted environment; a pending proposal
  is stored under its hash.
\<close>

theorem accepted_state_well_formed:
  assumes "verifyChain api entries = Accepted st"
  shows "st_headSeq st = int (length entries) \<and>
    members_ok (api_sha256 api) (st_headSeq st) (st_members st) \<and>
    environments_ok (st_headSeq st) (st_environments st) \<and>
    checkpoints_ok (st_headSeq st) (st_environments st) (st_checkpoints st) \<and>
    grants_ok (api_sha256 api) (st_headSeq st) (st_environments st) (st_namedServerKeys st) (st_serverGrants st) \<and>
    pendings_ok (st_headSeq st) (st_pendingProposals st)"
  using accepted_state_parts [OF assms] by simp

theorem accepted_state_well_formed_witness:
  "\<exists>st. verifyChain demo_api (demo_chain 11) = Accepted st \<and> environments_ok 11 (st_environments st) \<and>
     members_ok demo_sha256 11 (st_members st)"
proof -
  obtain st where st: "verifyChain demo_api (demo_chain 11) = Accepted st" and "head_of demo_st11 11 st"
    using demo_heads(6) by auto
  then have "st_headSeq st = 11" by (simp add: head_of_def)
  with accepted_state_well_formed [OF st] st show ?thesis by simp
qed

text \<open>
  C8. In the state of an accepted chain no key is held twice: two current devices that share their
  encryption key or their signing key are one device of one member, and no device's encryption key
  is a server key that a grant of the state of any prefix of the chain names, revoked since or not.
\<close>

theorem device_keys_unique:
  assumes "verifyChain api entries = Accepted st"
    and "device_of (st_members st) u f = Some d" and "device_of (st_members st) u' f' = Some d'"
  shows "(encPubHex d = encPubHex d' \<or> sigPubHex d = sigPubHex d' \<longrightarrow> u = u' \<and> f = f' \<and> d = d') \<and>
    (\<forall>k s fp g. verifyChain api (take k entries) = Accepted s \<and> map_of (st_serverGrants s) fp = Some g \<longrightarrow>
       encPubHex d \<noteq> serverEncPubHex g)"
proof
  show "encPubHex d = encPubHex d' \<or> sigPubHex d = sigPubHex d' \<longrightarrow> u = u' \<and> f = f' \<and> d = d'"
    using accepted_state_parts(7) [OF assms(1)] assms(2,3) unfolding unique_keys_def by (metis option.inject)
  have free: "map_of (st_namedServerKeys st) (encPubHex d) = None" by (rule accepted_state_parts(10) [OF assms(1,2)])
  show "\<forall>k s fp g. verifyChain api (take k entries) = Accepted s \<and> map_of (st_serverGrants s) fp = Some g \<longrightarrow>
       encPubHex d \<noteq> serverEncPubHex g"
  proof (intro allI impI, elim conjE)
    fix k s fp g
    assume s: "verifyChain api (take k entries) = Accepted s" and g: "map_of (st_serverGrants s) fp = Some g"
    have "map_of (st_namedServerKeys s) (serverEncPubHex g) \<noteq> None"
      using accepted_state_parts(5) [OF s] g by (auto simp: grants_ok_def grant_ok_def dest: js.everywhere_lookup)
    from prefix_named [of api "take k entries" "drop k entries", OF _ s this] assms(1) free
    show "encPubHex d \<noteq> serverEncPubHex g" by auto
  qed
qed

theorem device_keys_unique_witness:
  "\<exists>st s. verifyChain demo_api (demo_chain 10) = Accepted st \<and>
     device_of (st_members st) (lit ''bob'') (fp_hex 9) = Some demo_second \<and>
     verifyChain demo_api (take 6 (demo_chain 10)) = Accepted s \<and>
     map_of (st_serverGrants s) (fp_hex 5) = Some demo_grant \<and> encPubHex demo_second \<noteq> serverEncPubHex demo_grant"
proof -
  obtain st where st: "verifyChain demo_api (demo_chain 10) = Accepted st" and "head_of demo_st10 10 st"
    using demo_heads(5) by auto
  then have device: "device_of (st_members st) (lit ''bob'') (fp_hex 9) = Some demo_second"
    by (simp add: head_of_def device_of_def demo_states)
  obtain s where s: "verifyChain demo_api (demo_chain 6) = Accepted s" and "head_of demo_st6 6 s"
    using demo_heads(2) by auto
  then have grant: "map_of (st_serverGrants s) (fp_hex 5) = Some demo_grant"
    by (simp add: head_of_def demo_states)
  have "take 6 (demo_chain 10) = demo_chain 6" by (simp add: demo_chain_def take_map)
  with device_keys_unique [OF st device device] s st device grant show ?thesis by metis
qed

section \<open>One more entry\<close>

text \<open>
  C2. No entry takes effect without a signature of a current device: when a chain accepted at some
  state is accepted with one more entry, that entry reads as an entry at the next position that
  carries the hash of the old head, is attributed to a device that is current in the old state, and
  carries an Ed25519 signature over its canonical bytes that verifies under that device's key.
\<close>

theorem entry_signed_by_current_device:
  assumes "verifyChain api entries = Accepted s0" and "verifyChain api (entries @ [e]) = Accepted s1"
  shows "\<exists>entry device message publicKey signature.
     read_entry e = Some entry \<and> entry_seq entry = int (length entries) + 1 \<and>
     entry_prevHashHex entry = st_headHashHex s0 \<and>
     device_of (st_members s0) (actor_userId (entry_actor entry)) (actor_keyFingerprintHex (entry_actor entry))
       = Some device \<and>
     canonicalChainSignedBytes entry = Some message \<and> decode_hex (sigPubHex device) = Some publicKey \<and>
     decode_hex (entry_signatureHex entry) = Some signature \<and>
     api_ed25519_verify api publicKey signature message = Some True"
  using assms
proof (rule extension_step)
  fix u entry ev u'
  assume S: "s0 = at_head u" "read_entry e = Some entry" "accepts api u entry ev u'" "verifier_ok api u"
    "v_seq u \<noteq> 0" "v_seq u = int (length entries)"
  from entry_signed [OF S(3,5)] accepts_hash(2) [OF S(3)] accepts_seq [OF S(3)] S
  show ?thesis by (auto simp: at_head_fields)
qed

theorem entry_signed_by_current_device_witness:
  "\<exists>s0 entry device. verifyChain demo_api (demo_chain 5) = Accepted s0 \<and>
     read_entry (write_entry (demo_entries ! 5)) = Some entry \<and>
     device_of (st_members s0) (actor_userId (entry_actor entry)) (actor_keyFingerprintHex (entry_actor entry))
       = Some device"
proof -
  obtain s0 where s0: "verifyChain demo_api (demo_chain 5) = Accepted s0" using demo_heads(1) by auto
  obtain s1 where "verifyChain demo_api (demo_chain 6) = Accepted s1" using demo_heads(2) by auto
  from entry_signed_by_current_device [OF s0 this [unfolded demo_chain_next(1)]] s0 show ?thesis by blast
qed

text \<open>
  C3. Four eyes: once a chain has an approval policy, the effects it protects come about through a
  quorum only. If the next entry changes the policy itself, makes anyone an owner, or has the effect
  of an operation the policy names (a new server grant, a revoked one, a member removed, added or
  given another role), then it is the approval, within the deadline, of a pending proposal, and the
  people who proposed or approved it as owners on owner devices that are still current number at
  least what the policy requires.
\<close>

theorem protected_effects_need_quorum:
  assumes "verifyChain api entries = Accepted s0" and "verifyChain api (entries @ [e]) = Accepted s1"
    and policy: "st_approvalPolicy s0 = Some policy"
    and effect: "becomes_owner s0 s1 \<or>
      (\<exists>k. shows_effect k s0 s1 \<and> (k = SetApprovalPolicyOp \<or> k \<in> set (pol_ops policy)))"
  shows "\<exists>entry operation. read_entry e = Some entry \<and> completes_with_quorum s0 entry operation"
  using assms(1,2)
proof (cases rule: extension_applied)
  case pending
  have "grantSeq g \<le> int (length entries)" if "map_of (st_serverGrants s0) f = Some g" for f g
    using accepted_state_parts(1,5) [OF assms(1)] that
    by (auto simp: grants_ok_def grant_ok_def dest: js.everywhere_lookup)
  with pending effect show ?thesis
    by (fastforce simp: becomes_owner_def shows_effect_def role_in_def split: approval_target_op.splits)
next
  case (applied entry u a actor u')
  then obtain ps where st': "v_state u' = (applyOperation (api_sha256 api) (applied_operation a) (int (length entries) + 1)
      (applied_actorUserId a) (v_state u))\<lparr>pendingProposals := ps\<rparr>" by blast
  have reason: "consensusReason (api_sha256 api) (applied_operation a) actor (v_state u) = None"
    using applied by (simp add: authorized_def)
  have "(shows_effect k s0 s1 \<longrightarrow> proposable_op_name (applied_operation a) = approval_target_name k) \<and>
      (becomes_owner s0 s1 \<longrightarrow> establishesOwner (applied_operation a))" for k
    using effect_operation(1) [OF applied(10) reason, of s0 s1 "applied_actorUserId a" k]
      effect_operation(2) [OF applied(10) reason, of s0 s1 "applied_actorUserId a"] applied(1-4,11) st'
    by (simp add: views_at_head at_head_fields)
  with effect have "isApprovalTarget (applied_operation a) (Some policy)"
    by (auto intro: named_target owner_target)
  with policy applied(1,3) have "isApprovalTarget (applied_operation a) (approvalPolicy (v_state u))"
    by (simp add: at_head_fields)
  from target_completes [OF _ _ _ this] applied show ?thesis by blast
qed

theorem protected_effects_need_quorum_witness:
  "\<exists>s0 s1 entry operation. verifyChain demo_api (demo_chain 5) = Accepted s0 \<and>
     verifyChain demo_api (demo_chain 6) = Accepted s1 \<and> shows_effect GrantServerOp s0 s1 \<and>
     read_entry (write_entry (demo_entries ! 5)) = Some entry \<and> completes_with_quorum s0 entry operation"
proof -
  obtain s0 where s0: "verifyChain demo_api (demo_chain 5) = Accepted s0" "head_of demo_st5 5 s0"
    using demo_heads(1) by auto
  obtain s1 where s1: "verifyChain demo_api (demo_chain 6) = Accepted s1" "head_of demo_st6 6 s1"
    using demo_heads(2) by auto
  have policy: "st_approvalPolicy s0 = Some \<lparr>pol_ops = [GrantServerOp], pol_requiredApprovals = 2\<rparr>"
    using s0(2) by (simp add: head_of_def demo_st5_eq)
  have effect: "shows_effect GrantServerOp s0 s1"
    using s1(2) by (auto simp: shows_effect_def head_of_def demo_st67_eq demo_grant_def intro!: exI [of _ "fp_hex 5"])
  with policy have "\<exists>k. shows_effect k s0 s1 \<and> (k = SetApprovalPolicyOp \<or>
      k \<in> set (pol_ops \<lparr>pol_ops = [GrantServerOp], pol_requiredApprovals = 2\<rparr>))"
    by auto
  then show ?thesis
    using protected_effects_need_quorum [OF s0(1) s1(1) [unfolded demo_chain_next(1)] policy] s0(1) s1(1) effect
    by blast
qed

text \<open>
  C4. Containment (principle 1): an entry changes a person's permission in an environment (being
  able to act there at all, or the role) only if the device that initiated it was current before it
  and acts with a scope that contains that environment. The device that initiated an entry is the one
  the entry names as its actor (whose signature C2 demands) or, for an approval, the actor of the
  entry earlier in the same chain that proposed what is approved, found by the hash the approval
  carries. What a device acts with is the role and scope of its member, narrowed by its own caps.
\<close>

theorem permission_change_contained:
  assumes "verifyChain api entries = Accepted s0" and "verifyChain api (entries @ [e]) = Accepted s1"
    and changed: "grants_in s1 target env \<noteq> grants_in s0 target env"
  shows "\<exists>entry user fp perm. read_entry e = Some entry \<and> initiated_by api entries entry user fp \<and>
    acts_with s0 user fp perm \<and> env \<in> scope_envs (perm_scope perm)"
  using assms(1,2)
proof (cases rule: extension_initiated)
  case pending
  with changed show ?thesis by (simp add: grants_in_def)
next
  case (applied entry u a u' user fp member device)
  then have "env \<in> scope_envs (actor_scope (actorContextOf member device))"
    using apply_permission_contained [OF applied(10), of "applied_operation a" "actorContextOf member device"] changed
    by (auto simp: views_at_head authorized_def)
  with applied(5,6) initiator_acts [OF applied(7,8)] show ?thesis by blast
qed

theorem permission_change_contained_witness:
  "\<exists>s0 s1 entry user fp perm. verifyChain demo_api (demo_chain 10) = Accepted s0 \<and>
     verifyChain demo_api (demo_chain 11) = Accepted s1 \<and>
     grants_in s1 (lit ''carol'') (lit ''prod'') \<noteq> grants_in s0 (lit ''carol'') (lit ''prod'') \<and>
     read_entry (write_entry (demo_entries ! 10)) = Some entry \<and>
     initiated_by demo_api (demo_chain 10) entry user fp \<and> acts_with s0 user fp perm \<and>
     lit ''prod'' \<in> scope_envs (perm_scope perm)"
proof -
  obtain s0 where s0: "verifyChain demo_api (demo_chain 10) = Accepted s0" "head_of demo_st10 10 s0"
    using demo_heads(5) by auto
  obtain s1 where s1: "verifyChain demo_api (demo_chain 11) = Accepted s1" "head_of demo_st11 11 s1"
    using demo_heads(6) by auto
  have "grants_in s1 (lit ''carol'') (lit ''prod'') \<noteq> grants_in s0 (lit ''carol'') (lit ''prod'')"
    using s0(2) s1(2) by (simp add: grants_in_def head_of_def demo_st11_eq demo_st10_eq demo_carol_def)
  from permission_change_contained [OF s0(1) s1(1) [unfolded demo_chain_next(4)] this] this s0(1) s1(1)
  show ?thesis by blast
qed

text \<open>
  C9. High roles: when an entry gives a person another role, or adds or removes the person, the
  device that initiated it (its actor, or for an approval the actor of the entry that proposed it, as
  in C4) was current before it and acts with at least the admin role, and with the owner role when
  the old or the new role is admin or owner.
\<close>

theorem role_change_authority:
  assumes "verifyChain api entries = Accepted s0" and "verifyChain api (entries @ [e]) = Accepted s1"
    and changed: "role_in s1 target \<noteq> role_in s0 target"
    and r: "role_in s0 target = Some r \<or> role_in s1 target = Some r"
  shows "\<exists>entry user fp perm. read_entry e = Some entry \<and> initiated_by api entries entry user fp \<and>
    acts_with s0 user fp perm \<and> Admin \<le> perm_role perm \<and> (Admin \<le> r \<longrightarrow> perm_role perm = Owner)"
  using assms(1,2)
proof (cases rule: extension_initiated)
  case pending
  with changed show ?thesis by (simp add: role_in_def)
next
  case (applied entry u a u' user fp member device)
  note auth = applied(9) [unfolded authorized_def]
  from applied(11) obtain ps where st': "v_state u' = (applyOperation (api_sha256 api) (applied_operation a)
      (int (length entries) + 1) (applied_actorUserId a) (v_state u))\<lparr>pendingProposals := ps\<rparr>" ..
  have "Admin \<le> actor_role (actorContextOf member device) \<and>
      (Admin \<le> r \<longrightarrow> actor_role (actorContextOf member device) = Owner)"
    using apply_role_authority [OF applied(10), of "applied_operation a" "actorContextOf member device" "int (length entries) + 1"
        "applied_actorUserId a" target r] auth changed r applied(1-4) st'
    by (simp add: views_at_head)
  with applied(5,6) initiator_acts [OF applied(7,8)] show ?thesis by blast
qed

theorem role_change_authority_witness:
  "\<exists>s0 s1 entry user fp perm. verifyChain demo_api (demo_chain 8) = Accepted s0 \<and>
     verifyChain demo_api (demo_chain 9) = Accepted s1 \<and> role_in s0 (lit ''carol'') = None \<and>
     role_in s1 (lit ''carol'') = Some Reader \<and> read_entry (write_entry (demo_entries ! 8)) = Some entry \<and>
     initiated_by demo_api (demo_chain 8) entry user fp \<and> acts_with s0 user fp perm \<and> Admin \<le> perm_role perm"
proof -
  obtain s0 where s0: "verifyChain demo_api (demo_chain 8) = Accepted s0" "head_of demo_st8 8 s0"
    using demo_heads(3) by auto
  obtain s1 where s1: "verifyChain demo_api (demo_chain 9) = Accepted s1" "head_of demo_st9 9 s1"
    using demo_heads(4) by auto
  have roles: "role_in s0 (lit ''carol'') = None" "role_in s1 (lit ''carol'') = Some Reader"
    using s0(2) s1(2) by (simp_all add: role_in_def head_of_def demo_states demo_carol_def)
  have "role_in s1 (lit ''carol'') \<noteq> role_in s0 (lit ''carol'')" using roles by simp
  from role_change_authority [OF s0(1) s1(1) [unfolded demo_chain_next(2)] this disjI2 [OF roles(2)]] roles s0(1) s1(1)
  show ?thesis by blast
qed

text \<open>
  C11. Environments are append-only: an environment once created stays, and one more entry leaves it
  as it is, or marks it deleted at the new entry, or moves it to the next epoch with a new
  commitment; once deleted it never changes again.
\<close>

theorem environments_append_only:
  assumes "verifyChain api entries = Accepted s0" and "verifyChain api (entries @ [e]) = Accepted s1"
    and env: "map_of (st_environments s0) x = Some env"
  shows "\<exists>env'. map_of (st_environments s1) x = Some env' \<and>
    (env' = env \<or> deletedAtSeq env = None \<and>
       (env' = deleted_at (st_headSeq s1) env \<or> (\<exists>c. env' = rotated_at (st_headSeq s1) c env)))"
  using assms(1,2)
proof (rule extension_step)
  fix u entry ev u'
  assume S: "s0 = at_head u" "s1 = at_head u'" "accepts api u entry ev u'" "verifier_ok api u" "verifier_ok api u'"
    "v_seq u \<noteq> 0"
  from step_environments [OF S(4,3,6), of x env] env S show ?thesis
    by (simp add: at_head_fields)
qed

theorem environments_append_only_witness:
  "\<exists>s0 s1 env'. verifyChain demo_api (demo_chain 10) = Accepted s0 \<and>
     verifyChain demo_api (demo_chain 11) = Accepted s1 \<and> map_of (st_environments s1) (lit ''prod'') = Some env' \<and>
     currentEpoch env' = 2 \<and> deletedAtSeq env' = Some 11"
proof -
  obtain s0 where s0: "verifyChain demo_api (demo_chain 10) = Accepted s0" "head_of demo_st10 10 s0"
    using demo_heads(5) by auto
  obtain s1 where s1: "verifyChain demo_api (demo_chain 11) = Accepted s1" "head_of demo_st11 11 s1"
    using demo_heads(6) by auto
  obtain env where env: "map_of (st_environments s0) (lit ''prod'') = Some env"
    using s0(2) by (auto simp: head_of_def demo_st10_eq demo_st8_eq)
  from environments_append_only [OF s0(1) s1(1) [unfolded demo_chain_next(4)] env] s0(1) s1 show ?thesis
    by (auto simp: head_of_def demo_st11_eq)
qed

text \<open>
  Device caps (principle D2): a device a person holds after one more entry has a cap within that
  of a device the person held before, so no sequence of entries gives a person who stays a member a
  device with more than their devices had.
\<close>

lemma device_caps_never_grow:
  assumes "verifyChain api entries = Accepted s0" and "verifyChain api (entries @ [e]) = Accepted s1"
    and m: "map_of (st_members s0) user = Some m" and d: "device_of (st_members s1) user f = Some d"
  shows "\<exists>f0 d0. device_of (st_members s0) user f0 = Some d0 \<and> roleCap d \<le> roleCap d0 \<and>
    scope_envs (cap_scope d) \<subseteq> scope_envs (cap_scope d0)"
  using assms(1,2)
proof (cases rule: extension_applied)
  case pending
  with d show ?thesis by auto
next
  case (applied entry u a actor u')
  note auth = applied(9) [unfolded authorized_def acting_def]
  from applied(12) obtain ps where st': "v_state u' = (applyOperation (api_sha256 api) (applied_operation a)
      (int (length entries) + 1) (applied_actorUserId a) (v_state u))\<lparr>pendingProposals := ps\<rparr>" ..
  from auth obtain m0 f0 where "map_of (members (v_state u)) (applied_actorUserId a) = Some m0"
    and "map_of (devices m0) f0 = Some (ctx_device actor)"
    by (auto simp: actorContextOf_def)
  from apply_device_caps [OF applied(10) _ this, of "applied_operation a" user m "int (length entries) + 1" f d]
    auth m d applied(1-4) st'
  show ?thesis by (auto simp: at_head_fields cap_le_def)
qed

section \<open>Owners, scopes and the hash chain\<close>



text \<open>
  C12. No stale scope: in the state of an accepted chain every environment named by a member's scope,
  by a device's cap or by a grant whose environment exists is one that has not been deleted.
\<close>

theorem scopes_name_live_environments:
  assumes "verifyChain api entries = Accepted st"
  shows "(\<forall>u m ids x. map_of (st_members st) u = Some m \<and> mem_scope m = ListedScope ids \<and> x \<in> set ids \<longrightarrow>
       live (st_environments st) x) \<and>
    (\<forall>u f d ids x. device_of (st_members st) u f = Some d \<and> cap_scope d = ListedScope ids \<and> x \<in> set ids \<longrightarrow>
       live (st_environments st) x) \<and>
    (\<forall>f g x. map_of (st_serverGrants st) f = Some g \<and> x \<in> set (grant_scopeEnvironmentIds g) \<longrightarrow>
       \<not> deleted (st_environments st) x)"
proof -
  note P = accepted_state_parts [OF assms]
  have "\<not> deleted (st_environments st) x"
    if "map_of (st_serverGrants st) f = Some g" "x \<in> set (grant_scopeEnvironmentIds g)" for f g x
    using P(5) that by (auto simp: grants_ok_def grant_ok_def dest: js.everywhere_lookup)
  with P(8) show ?thesis by (auto simp: scopes_ok_def scope_live_def)
qed

theorem scopes_name_live_environments_witness:
  "\<exists>st. verifyChain demo_api (demo_chain 10) = Accepted st \<and>
     device_of (st_members st) (lit ''bob'') (fp_hex 9) = Some demo_second \<and> live (st_environments st) (lit ''prod'')"
proof -
  obtain st where st: "verifyChain demo_api (demo_chain 10) = Accepted st" "head_of demo_st10 10 st"
    using demo_heads(5) by auto
  then have "device_of (st_members st) (lit ''bob'') (fp_hex 9) = Some demo_second"
    by (simp add: head_of_def device_of_def demo_states)
  moreover have "cap_scope demo_second = ListedScope [lit ''prod'']" by (simp add: demo_second_def)
  ultimately show ?thesis
    using scopes_name_live_environments [OF st(1)] st(1) by (metis list.set_intros(1))
qed

text \<open>Every non-empty prefix of an accepted chain is accepted on its own, and the next entry carries its head hash.\<close>

lemma prefixes_are_chains:
  assumes "verifyChain api entries = Accepted st" and "1 \<le> k" and "k < length entries"
  shows "\<exists>s entry. verifyChain api (take k entries) = Accepted s \<and> st_headSeq s = int k \<and>
     read_entry (entries ! k) = Some entry \<and> entry_prevHashHex entry = st_headHashHex s"
proof -
  obtain s0 where s0: "verifyChain api (take k entries) = Accepted s0"
    using prefix_accepted [OF assms(1), of k] assms(2,3) by auto
  obtain s1 where "verifyChain api (take (Suc k) entries) = Accepted s1"
    using prefix_accepted [OF assms(1), of "Suc k"] assms(3) by auto
  then have "verifyChain api (take k entries @ [entries ! k]) = Accepted s1"
    using assms(3) by (simp add: take_Suc_conv_app_nth)
  with s0 obtain u entry ev u' where "s0 = at_head u" "read_entry (entries ! k) = Some entry"
    "accepts api u entry ev u'" "verifier_ok api u" "v_seq u = int (length (take k entries))"
    by (rule extension_step)
  with s0 assms(3) show ?thesis by (auto simp: at_head_fields dest: accepts_hash(2))
qed

lemma equal_heads_equal_entries:
  assumes "verifyChain api vs = Accepted st" and "verifyChain api ws = Accepted st'"
    and "st_headHashHex st = st_headHashHex st'"
    and "map read_entry vs = map Some es" and "map read_entry ws = map Some ds"
    and "\<forall>x \<in> set (es @ ds). well_formed_entry x"
    and "collision_free_on (api_sha256 api) (entry_byte_strings (es @ ds))"
  shows "es = ds"
proof -
  obtain v where v: "run_loop (verify_step api) (start_verifier None) vs = Accepted v" "st = at_head v" "vs \<noteq> []"
    using assms(1) by (auto simp: verifyChain_Accepted)
  obtain w where w: "run_loop (verify_step api) (start_verifier None) ws = Accepted w" "st' = at_head w" "ws \<noteq> []"
    using assms(2) by (auto simp: verifyChain_Accepted)
  from run_reached [OF v(1)] assms(4) have rv: "reached api None es v" by (auto dest: map_injective simp: inj_def)
  from run_reached [OF w(1)] assms(5) have rw: "reached api None ds w" by (auto dest: map_injective simp: inj_def)
  have "v_prevHash v = v_prevHash w"
    using assms(3) v(2) w(2) at_head_fields(9) [OF reached_ok [OF rv]] at_head_fields(9) [OF reached_ok [OF rw]] by simp
  with same_head_same_chain [OF rv rw, of "es @ ds"] assms(4-7) v(3) w(3) show ?thesis by fastforce
qed

text \<open>
  C5. The head hash pins the chain: two accepted chains with the same head hash consist of the same
  entries, provided SHA-256 has no collision among their canonical byte strings and the texts in them
  are well-formed UTF-16.
\<close>

theorem head_hash_pins_chain:
  assumes "verifyChain api vs = Accepted st" and "verifyChain api ws = Accepted st'"
    and "st_headHashHex st = st_headHashHex st'"
    and "map read_entry vs = map Some es" and "map read_entry ws = map Some ds"
    and "\<forall>x \<in> set (es @ ds). well_formed_entry x"
    and "collision_free_on (api_sha256 api) (entry_byte_strings (es @ ds))"
  shows "es = ds"
  by (rule equal_heads_equal_entries [OF assms])

theorem head_hash_pins_chain_witness:
  "\<exists>st. verifyChain demo_api (demo_chain 11) = Accepted st \<and>
     collision_free_on demo_sha256 (entry_byte_strings (take 11 demo_entries @ take 11 demo_entries)) \<and>
     take 11 demo_entries = take 11 demo_entries"
proof -
  obtain st where st: "verifyChain demo_api (demo_chain 11) = Accepted st" using demo_heads(6) by auto
  have reads: "map read_entry (demo_chain 11) = map Some (take 11 demo_entries)"
    by (simp add: demo_chain_def read_write_entry comp_def)
  have free: "collision_free_on (api_sha256 demo_api) (entry_byte_strings (take 11 demo_entries @ take 11 demo_entries))"
    using demo_collision_free by simp
  have "take 11 demo_entries = take 11 demo_entries"
    by (rule head_hash_pins_chain [OF st st refl reads reads demo_well_formed free])
  with st free show ?thesis by auto
qed

end
