(* ===== verification/History_Guarantees.thy ===== *)
theory History_Guarantees
  imports Chain_Guarantees
begin

text \<open>
  What a caller of \<open>verifyChainWithHistory\<close> can rely on: the index answers a question about entry
  \<open>k\<close> with what verifying the first \<open>k\<close> entries alone returns. A JavaScript array has fewer than
  \<open>2 ^ 32\<close> elements, so every entry's number passes the queries' safe-integer check.
\<close>

section \<open>Unpacking a verification with history\<close>

lemma with_history_run:
  assumes "verifyChainWithHistory api entries = Accepted (st, h)"
  obtains v es where "recorded_run api entries = Accepted v" and "v_history v = Some h" and "st = at_head v"
    and "entries \<noteq> []" and "map read_entry entries = map Some es" and "history_agrees v h es"
    and "\<And>k u. 1 \<le> k \<Longrightarrow> k \<le> length entries \<Longrightarrow> recorded_run api (take k entries) = Accepted u \<Longrightarrow>
       (\<forall>x. member_view_at h x (int k) = member_view (v_state u) x) \<and>
       (\<forall>e. environment_view_at h e (int k) = environment_view (v_state u) e) \<and>
       entryHashes h ! (k - 1) = v_prevHash u"
proof -
  from assms obtain v where run: "recorded_run api entries = Accepted v" and h: "v_history v = Some h"
    and sealed: "st = sealChainState (v_state v) (int (length entries)) (v_prevHash v)" and ne: "entries \<noteq> []"
    by (auto simp: verifyChainWithHistory_def verifyChainCore_def recorded_run_def fail_def
        split: if_splits option.splits)
  have st: "st = at_head v" using recorded_run_seq [OF run] sealed by (simp add: at_head_def)
  from recorded_run_agrees [OF run] obtain h' es where A: "map read_entry entries = map Some es"
    "v_history v = Some h'" "history_agrees v h' es"
    "\<And>k u. 1 \<le> k \<Longrightarrow> k \<le> length entries \<Longrightarrow> recorded_run api (take k entries) = Accepted u \<Longrightarrow>
       (\<forall>x. member_view_at h' x (int k) = member_view (v_state u) x) \<and>
       (\<forall>e. environment_view_at h' e (int k) = environment_view (v_state u) e) \<and>
       entryHashes h' ! (k - 1) = v_prevHash u"
    by blast
  with h have "h' = h" by simp
  with A run h st ne show ?thesis by (intro that [of v es]) auto
qed

lemma at_head_forget: "at_head (forget v) = at_head v"
  by (simp add: at_head_def forget_def)

lemma recorded_prefix:
  assumes "recorded_run api entries = Accepted v" and "1 \<le> k" and "k \<le> length entries"
  obtains u where "recorded_run api (take k entries) = Accepted u" and "verifyChain api (take k entries) = Accepted (at_head u)"
    and "verifier_ok api u" and "v_seq u = int k"
proof -
  from run_loop_take [OF assms(1) [unfolded recorded_run_def], of k] obtain u
    where u: "run_loop (verify_step api) (start_verifier (Some empty_history)) (take k entries) = Accepted u" by blast
  have "take k entries \<noteq> []" using assms(2,3) by (cases entries) auto
  with run_without_history [OF u] have "verifyChain api (take k entries) = Accepted (at_head u)"
    by (auto simp: verifyChain_Accepted at_head_forget intro!: exI [of _ "forget u"])
  with u run_verifier_ok [OF u] run_seq [OF u] assms(3) show ?thesis
    by (intro that) (simp_all add: recorded_run_def)
qed

lemma prefix_in_range:
  assumes "history_agrees v h es" and "v_seq v = int (length entries)" and "length entries < 2 ^ 32"
    and "1 \<le> k" and "k \<le> length entries"
  shows "in_range h (int k)"
  using assms by (simp add: in_range_def headSeq_def history_agrees_def safe_int_def max_safe_integer_def)

section \<open>The example with its history\<close>

lemma demo_with_history:
  "\<exists>st h. verifyChainWithHistory demo_api (demo_chain 11) = Accepted (st, h)"
proof -
  obtain hist where reach: "reached demo_api (Some empty_history) (take 11 demo_entries) (demo_verifier 11 demo_st11 hist)"
    using demo_reached(6) by blast
  from run_write_chain [OF this] have run: "recorded_run demo_api (demo_chain 11) = Accepted (demo_verifier 11 demo_st11 hist)"
    by (simp add: recorded_run_def demo_chain_def)
  from recorded_run_agrees [OF this] obtain h where "v_history (demo_verifier 11 demo_st11 hist) = Some h" by blast
  moreover have "demo_chain 11 \<noteq> []" by (simp add: demo_chain_def demo_entries_def)
  ultimately show ?thesis
    using run by (auto simp: verifyChainWithHistory_def verifyChainCore_def recorded_run_def)
qed

lemma demo_chain_prefix: "length (demo_chain 11) = 11" "take 10 (demo_chain 11) = demo_chain 10"
  by (simp_all add: demo_chain_def length_demo_entries take_map)

section \<open>The queries\<close>

text \<open>
  History of members: for every accepted entry number the index gives each user the role, the
  scope and the devices that the state of the verified prefix holds for that user, and nothing for a
  user who is not a member there.
\<close>

lemma memberStateAt_is_prefix_state:
  assumes "verifyChainWithHistory api entries = Accepted (st, h)" and "1 \<le> k" and "k \<le> length entries"
    and "length entries < 2 ^ 32"
  shows "\<exists>s. verifyChain api (take k entries) = Accepted s \<and>
    (\<forall>user. map_option (\<lambda>m. (at_role m, at_scope m, at_devices m)) (memberStateAt h user (int k)) =
       map_option (\<lambda>m. (mem_role m, mem_scope m, devices m)) (map_of (st_members s) user))"
proof -
  from assms(1) obtain v es where run: "recorded_run api entries = Accepted v" and agrees: "history_agrees v h es"
    and views: "\<And>u. recorded_run api (take k entries) = Accepted u \<Longrightarrow>
      \<forall>x. member_view_at h x (int k) = member_view (v_state u) x"
    using assms(2,3) by (elim with_history_run) blast
  from run assms(2,3) obtain u where u: "recorded_run api (take k entries) = Accepted u"
    "verifyChain api (take k entries) = Accepted (at_head u)" "verifier_ok api u"
    by (rule recorded_prefix)
  have "in_range h (int k)"
    by (rule prefix_in_range [OF agrees recorded_run_seq [OF run] assms(4,2,3)])
  with u views [OF u(1)] show ?thesis
    by (auto simp: memberStateAt_view member_view_def at_head_fields)
qed

text \<open>
  History of environments: for every accepted entry number the index gives each environment its
  creation, its epoch and its deletion as the state of the verified prefix holds them, and nothing
  for an environment that does not exist there yet.
\<close>

lemma environmentStateAt_is_prefix_state:
  assumes "verifyChainWithHistory api entries = Accepted (st, h)" and "1 \<le> k" and "k \<le> length entries"
    and "length entries < 2 ^ 32"
  shows "\<exists>s. verifyChain api (take k entries) = Accepted s \<and>
    (\<forall>env. map_option (\<lambda>r. (at_createdAtSeq r, at_currentEpoch r, at_deletedAtSeq r)) (environmentStateAt h env (int k)) =
       map_option (\<lambda>r. (createdAtSeq r, currentEpoch r, deletedAtSeq r)) (map_of (st_environments s) env))"
proof -
  from assms(1) obtain v es where run: "recorded_run api entries = Accepted v" and agrees: "history_agrees v h es"
    and views: "\<And>u. recorded_run api (take k entries) = Accepted u \<Longrightarrow>
      \<forall>x. environment_view_at h x (int k) = environment_view (v_state u) x"
    using assms(2,3) by (elim with_history_run) blast
  from run assms(2,3) obtain u where u: "recorded_run api (take k entries) = Accepted u"
    "verifyChain api (take k entries) = Accepted (at_head u)" "verifier_ok api u"
    by (rule recorded_prefix)
  have "in_range h (int k)"
    by (rule prefix_in_range [OF agrees recorded_run_seq [OF run] assms(4,2,3)])
  with u views [OF u(1)] show ?thesis
    by (auto simp: environmentStateAt_view environment_view_def at_head_fields)
qed

text \<open>The devices active in a tenure at a number, as a map and as records.\<close>

lemma active_devices_lookup:
  "map_of (fold (\<lambda>r ds. if deviceActiveAt r k then AList.update (keyFingerprintHex (rec_device r)) (deviceAt r k) ds else ds)
       rs acc) f \<noteq> None \<longleftrightarrow>
   map_of acc f \<noteq> None \<or> (\<exists>r \<in> set rs. keyFingerprintHex (rec_device r) = f \<and> deviceActiveAt r k)"
  by (induction rs arbitrary: acc) auto

lemma deviceStateAt_defined:
  assumes "in_range h k"
  shows "deviceStateAt h user f k \<noteq> None \<longleftrightarrow>
    (\<exists>r s ds. member_view_at h user k = Some (r, s, ds) \<and> map_of ds f \<noteq> None)"
proof (cases "find (tenure_covers k) (tenures_of h user)")
  case None
  then show ?thesis by (simp add: deviceStateAt_def tenureAt_find [OF assms] member_view_at_def)
next
  case (Some t)
  have "find (\<lambda>r. keyFingerprintHex (rec_device r) = f \<and> deviceActiveAt r k) (ten_devices t) \<noteq> None \<longleftrightarrow>
      map_of (activeDevicesAt t k) f \<noteq> None"
    using active_devices_lookup [of k "ten_devices t" "[]" f] by (auto simp: activeDevicesAt_def find_None_iff)
  with Some show ?thesis
    by (auto simp: deviceStateAt_def tenureAt_find [OF assms] member_view_at_def tenure_view_def split: option.splits)
qed

text \<open>
  History of devices: the index knows a device of a user at an accepted entry number exactly when
  the state of the verified prefix holds a device under that fingerprint for that user.
\<close>

lemma deviceStateAt_iff_current:
  assumes "verifyChainWithHistory api entries = Accepted (st, h)" and "1 \<le> k" and "k \<le> length entries"
    and "length entries < 2 ^ 32"
  shows "\<exists>s. verifyChain api (take k entries) = Accepted s \<and>
    (\<forall>user f. deviceStateAt h user f (int k) = None \<longleftrightarrow> device_of (st_members s) user f = None)"
proof -
  from assms(1) obtain v es where run: "recorded_run api entries = Accepted v" and agrees: "history_agrees v h es"
    and views: "\<And>u. recorded_run api (take k entries) = Accepted u \<Longrightarrow>
      \<forall>x. member_view_at h x (int k) = member_view (v_state u) x"
    using assms(2,3) by (elim with_history_run) blast
  from run assms(2,3) obtain u where u: "recorded_run api (take k entries) = Accepted u"
    "verifyChain api (take k entries) = Accepted (at_head u)" "verifier_ok api u"
    by (rule recorded_prefix)
  have "in_range h (int k)"
    by (rule prefix_in_range [OF agrees recorded_run_seq [OF run] assms(4,2,3)])
  then have "deviceStateAt h user f (int k) = None \<longleftrightarrow> device_of (members (v_state u)) user f = None" for user f
    using deviceStateAt_defined [of h "int k" user f] views [OF u(1)]
    by (auto simp: member_view_def device_of_def bind_eq_None_conv split: option.splits)
  with u show ?thesis by (auto simp: at_head_fields)
qed

text \<open>
  C6. History: for every accepted entry number the index answers with the state of the verified prefix.
  It gives each user the role, the scope and the devices held there, and nothing for a user who is not a
  member there; it knows a device of a user exactly when the state holds one under that fingerprint; it
  gives each environment its creation, its epoch and its deletion, and nothing for an environment that
  does not exist there yet.
\<close>

theorem history_is_prefix_state:
  assumes "verifyChainWithHistory api entries = Accepted (st, h)" and "1 \<le> k" and "k \<le> length entries"
    and "length entries < 2 ^ 32"
  shows "\<exists>s. verifyChain api (take k entries) = Accepted s \<and>
    (\<forall>user. map_option (\<lambda>m. (at_role m, at_scope m, at_devices m)) (memberStateAt h user (int k)) =
       map_option (\<lambda>m. (mem_role m, mem_scope m, devices m)) (map_of (st_members s) user)) \<and>
    (\<forall>user f. deviceStateAt h user f (int k) = None \<longleftrightarrow> device_of (st_members s) user f = None) \<and>
    (\<forall>env. map_option (\<lambda>r. (at_createdAtSeq r, at_currentEpoch r, at_deletedAtSeq r)) (environmentStateAt h env (int k)) =
       map_option (\<lambda>r. (createdAtSeq r, currentEpoch r, deletedAtSeq r)) (map_of (st_environments s) env))"
  using memberStateAt_is_prefix_state [OF assms] environmentStateAt_is_prefix_state [OF assms]
    deviceStateAt_iff_current [OF assms]
  by (elim exE conjE) (intro exI conjI; assumption | simp)

theorem history_is_prefix_state_witness:
  "\<exists>st h m r d. verifyChainWithHistory demo_api (demo_chain 11) = Accepted (st, h) \<and>
     memberStateAt h (lit ''carol'') 10 = Some m \<and> at_role m = Reader \<and> at_scope m = ListedScope [lit ''prod''] \<and>
     environmentStateAt h (lit ''prod'') 10 = Some r \<and> at_currentEpoch r = 2 \<and> at_deletedAtSeq r = None \<and>
     deviceStateAt h (lit ''bob'') (fp_hex 9) 10 = Some d"
proof -
  obtain st h where sh: "verifyChainWithHistory demo_api (demo_chain 11) = Accepted (st, h)"
    using demo_with_history by blast
  obtain s where s: "verifyChain demo_api (demo_chain 10) = Accepted s" "head_of demo_st10 10 s"
    using demo_heads(5) by auto
  from s(2) have carol: "map_of (st_members s) (lit ''carol'') = Some demo_carol"
    and bob: "device_of (st_members s) (lit ''bob'') (fp_hex 9) = Some demo_second"
    and prod: "map_option (\<lambda>r. (createdAtSeq r, currentEpoch r, deletedAtSeq r)) (map_of (st_environments s) (lit ''prod''))
      = Some (3, 2, None)"
    by (simp_all add: head_of_def demo_st10_eq demo_st8_eq demo_prod_def device_of_def demo_states)
  from history_is_prefix_state [OF sh, of 10] s(1) have
    "map_option (\<lambda>m. (at_role m, at_scope m, at_devices m)) (memberStateAt h (lit ''carol'') 10) =
       map_option (\<lambda>m. (mem_role m, mem_scope m, devices m)) (map_of (st_members s) (lit ''carol''))"
    "deviceStateAt h (lit ''bob'') (fp_hex 9) 10 \<noteq> None"
    "map_option (\<lambda>r. (at_createdAtSeq r, at_currentEpoch r, at_deletedAtSeq r)) (environmentStateAt h (lit ''prod'') 10) = Some (3, 2, None)"
    using bob prod by (auto simp: demo_chain_prefix)
  with carol sh show ?thesis by (auto simp: demo_carol_def)
qed

text \<open>What the index knows of a manifest version, from the chain's checkpoints.\<close>

lemma checkpointTupleFor_log:
  assumes "verifyChainWithHistory api entries = Accepted (st, h)" and "map read_entry entries = map Some es"
    and "1 \<le> version" and "safe_int version"
  shows "checkpointTupleFor h env version = (case tuples_for (checkpoint_log es) env version of
      [] \<Rightarrow> None
    | (s, t) # rest \<Rightarrow>
        Some (if \<forall>(s', t') \<in> set rest. same_tuple t t' then Unique s (ck_epoch t) (ck_manifestSigHashHex t)
              else Conflicting))"
proof -
  from assms(1) obtain v es' where "history_agrees v h es'" and "map read_entry entries = map Some es'"
    by (elim with_history_run) blast
  moreover from this(2) assms(2) have "es' = es" by (auto dest: map_injective simp: inj_def)
  ultimately have "recorded_tuple h env version = tuple_summary (tuples_for (checkpoint_log es) env version)"
    by (simp add: history_agrees_def tuples_sync_def)
  with assms(3,4) show ?thesis
    by (auto simp: checkpointTupleFor_def recorded_tuple_def split: list.split)
qed

text \<open>
  One chain, one answer: verification with history returns the state verification without it
  returns, the index knows the hash of every accepted entry, and its latest checkpoints are those of
  the state.
\<close>

lemma history_matches_state:
  assumes "verifyChainWithHistory api entries = Accepted (st, h)" and "1 \<le> k" and "k \<le> length entries"
    and "length entries < 2 ^ 32"
  shows "verifyChain api entries = Accepted st \<and> latestCheckpointFor h env = map_of (st_checkpoints st) env \<and>
    headSeq h = st_headSeq st \<and>
    (\<exists>s. verifyChain api (take k entries) = Accepted s \<and> entryHashAt h (int k) = Some (st_headHashHex s))"
proof -
  from assms(1) obtain v es where run: "recorded_run api entries = Accepted v" and st: "st = at_head v"
    and agrees: "history_agrees v h es" and ne: "entries \<noteq> []"
    and hashes: "\<And>u. recorded_run api (take k entries) = Accepted u \<Longrightarrow> entryHashes h ! (k - 1) = v_prevHash u"
    using assms(2,3) by (elim with_history_run) blast
  from run assms(2,3) obtain u where u: "recorded_run api (take k entries) = Accepted u"
    "verifyChain api (take k entries) = Accepted (at_head u)" "verifier_ok api u"
    by (rule recorded_prefix)
  from run ne obtain w where w: "recorded_run api (take (length entries) entries) = Accepted w"
    "verifyChain api (take (length entries) entries) = Accepted (at_head w)" "verifier_ok api w"
    using recorded_prefix [OF run, of "length entries"] by (auto simp: Suc_le_eq)
  then have "w = v" using run by simp
  have "in_range h (int k)"
    by (rule prefix_in_range [OF agrees recorded_run_seq [OF run] assms(4,2,3)])
  then have "entryHashAt h (int k) = Some (st_headHashHex (at_head u))"
    using hashes [OF u(1)] u(3) assms(2) by (simp add: entryHashAt_def at_head_fields nat_diff_distrib)
  with u w \<open>w = v\<close> st agrees show ?thesis
    by (auto simp: at_head_fields latestCheckpointFor_def history_agrees_def headSeq_def)
qed

end
