(* ===== verification/Crypto_Errors.thy ===== *)
theory Crypto_Errors
  imports Chain_Verify
begin

text \<open>
  The typed errors of the package (\<open>errors.ts\<close>): the reason codes of the four distributed statements
  and the union of all errors. A fallible operation ends in an \<^typ>\<open>('e, 'a) outcome\<close>: its value, its error
  value, or an exception that escapes.
\<close>

datatype value_invalid_reason =
    Value_Signature_Invalid | Writer_Unknown | Value_Head_Mismatch | Value_Head_Future
  | Writer_Not_Member_At_Head | Writer_Key_Mismatch_At_Head | Writer_Role_Insufficient_At_Head
  | Writer_Out_Of_Scope_At_Head | Value_Environment_Not_Created_At_Head | Value_Epoch_Not_Current_At_Head
  | Value_Prev_Shape_Mismatch | Value_Prev_Hash_Mismatch | Value_Epoch_Regressed

datatype meta_invalid_reason =
    Meta_Signature_Invalid | Author_Unknown | Meta_Head_Mismatch | Meta_Head_Future
  | Author_Not_Member_At_Head | Author_Key_Mismatch_At_Head | Author_Role_Insufficient_At_Head
  | Author_Out_Of_Scope_At_Head | Meta_Prev_Shape_Mismatch | Meta_Prev_Hash_Mismatch
  | Revived_After_Delete | Declared_After_Active | Layout_Regression

datatype attestation_invalid_reason =
    Attestation_Signature_Invalid | Attester_Unknown | Attestation_Head_Mismatch | Attestation_Head_Future
  | Attester_Not_Member_At_Head | Attester_Key_Mismatch_At_Head

datatype manifest_invalid_reason =
    Manifest_Signature_Invalid | Issuer_Unknown | Manifest_Head_Mismatch | Manifest_Head_Future
  | Issuer_Not_Member_At_Head | Issuer_Key_Mismatch_At_Head | Issuer_Role_Insufficient_At_Head
  | Issuer_Out_Of_Scope_At_Head | Manifest_Environment_Not_Created_At_Head
  | Manifest_Epoch_Not_Current_At_Head | Checkpoint_Binding_Mismatch | Checkpoint_Equivocation
  | Checkpoint_Regressed | Env_Meta_Mismatch | Variables_Digest_Mismatch
  | Manifest_Prev_Shape_Mismatch | Manifest_Prev_Hash_Mismatch | Manifest_Epoch_Regressed

datatype aead_operation = Aead_Variable | Aead_Recovery | Aead_Master_Wrap

datatype imported_key = Encryption_Public | Encryption_Private | Signing_Public | Signing_Private

datatype exported_key = Exported_Encryption_Private | Exported_Signing_Private

datatype crypto_error =
    Invalid_Input string
  | Key_Import_Failed imported_key
  | Key_Export_Failed exported_key
  | Encrypt_Failed aead_operation
  | Decrypt_Failed aead_operation
  | Dek_Wrap_Failed
  | Dek_Unwrap_Failed
  | Sign_Failed
  | Dek_Wrap_Signature_Invalid
  | Invite_Accept_Signature_Invalid
  | Invite_Link_Signature_Invalid
  | Invite_Issue_Signature_Invalid
  | Dek_Commitment_Mismatch
  | Value_Invalid value_invalid_reason
  | Meta_Statement_Invalid meta_invalid_reason
  | Unsupported_Meta_Layout int
  | Env_Manifest_Invalid manifest_invalid_reason
  | Head_Attestation_Invalid attestation_invalid_reason
  | Chain_Invalid chain_invalid

type_synonym 'a crypto_result = "(crypto_error, 'a) outcome"

text \<open>A guard sequence \<open>if (c) return "name"\<close>: the name of the first check that fails.\<close>

definition first_invalid :: "(bool \<times> string) list \<Rightarrow> string option" where
  "first_invalid checks = map_option snd (find fst checks)"

definition require_valid :: "string option \<Rightarrow> 'a crypto_result \<Rightarrow> 'a crypto_result" where
  "require_valid invalid_field k = (case invalid_field of None \<Rightarrow> k | Some f \<Rightarrow> Rejected (Invalid_Input f))"

text \<open>A canonical encoding is used where the encoder's exception is not caught.\<close>

definition with_bytes :: "bytes option \<Rightarrow> (bytes \<Rightarrow> 'a crypto_result) \<Rightarrow> 'a crypto_result" where
  "with_bytes b k = (case b of None \<Rightarrow> Threw | Some x \<Rightarrow> k x)"

lemma first_invalid_simps [simp]:
  "first_invalid [] = None"
  "first_invalid ((c, f) # checks) = (if c then Some f else first_invalid checks)"
  by (simp_all add: first_invalid_def)

lemma require_valid_Accepted [simp]:
  "require_valid f k = Accepted x \<longleftrightarrow> f = None \<and> k = Accepted x"
  by (simp add: require_valid_def split: option.split)

lemma require_valid_simps [simp]:
  "require_valid None k = k" "require_valid (Some f) k = Rejected (Invalid_Input f)"
  by (simp_all add: require_valid_def)

lemma require_valid_Threw [simp]: "require_valid f k = Threw \<longleftrightarrow> f = None \<and> k = Threw"
  by (simp add: require_valid_def split: option.split)

lemma with_bytes_Accepted [simp]:
  "with_bytes b k = Accepted x \<longleftrightarrow> (\<exists>y. b = Some y \<and> k y = Accepted x)"
  by (simp add: with_bytes_def split: option.split)

lemma with_bytes_Threw [simp]:
  "with_bytes b k = Threw \<longleftrightarrow> b = None \<or> (\<exists>y. b = Some y \<and> k y = Threw)"
  by (simp add: with_bytes_def split: option.split)

lemma with_bytes_Some [simp]: "with_bytes (Some y) k = k y"
  by (simp add: with_bytes_def)

lemma then_call_Threw [simp]:
  "then_call r k = Threw \<longleftrightarrow> r = Threw \<or> (\<exists>a. r = Accepted a \<and> k a = Threw)"
  by (cases r) auto

end
