(* ===== verification/Signatures.thy ===== *)
theory Signatures
  imports Crypto_Errors
begin

text \<open>
  The checks the signed statements share (\<open>validate.ts\<close>, and the key import of \<open>keys.ts\<close>): hex forms,
  Ed25519 signing and verifying, the selection of a key by fingerprint, and the judgement of a
  declared chain head. WebCrypto is a parameter: which byte strings it imports as a verification key,
  and its signing function (\<^const>\<open>None\<close> when it throws). The error each caller reports is an argument, as
  in the source.
\<close>

record signing_api =
  api_importable :: "bytes \<Rightarrow> bool"
  api_ed25519_sign :: "bytes \<Rightarrow> bytes \<Rightarrow> bytes option"

section \<open>Keys and signatures\<close>

definition FINGERPRINT_HEX_LENGTH :: nat where "FINGERPRINT_HEX_LENGTH = 16 * 2"

definition SHA256_HEX_LENGTH :: nat where "SHA256_HEX_LENGTH = 32 * 2"

definition SIGNATURE_HEX_LENGTH :: nat where "SIGNATURE_HEX_LENGTH = SIGNATURE_BYTES * 2"

definition ED25519_KEY_BYTES :: nat where "ED25519_KEY_BYTES = 32"

definition isLowercaseHexOfLength :: "ustr \<Rightarrow> nat \<Rightarrow> bool" where
  "isLowercaseHexOfLength value n \<longleftrightarrow> length value = n \<and> decode_hex value \<noteq> None"

definition counter_invalid :: "int \<Rightarrow> bool" where
  "counter_invalid n \<longleftrightarrow> \<not> safe_int n \<or> n < 1"

definition importSigningPublicKey :: "signing_api \<Rightarrow> bytes \<Rightarrow> bytes crypto_result" where
  "importSigningPublicKey keys publicKey =
     (if length publicKey \<noteq> ED25519_KEY_BYTES then Rejected (Invalid_Input ''signing public key length'')
      else if api_importable keys publicKey then Accepted publicKey
      else Rejected (Key_Import_Failed Signing_Public))"

definition sign_bytes :: "signing_api \<Rightarrow> bytes \<Rightarrow> bytes \<Rightarrow> ustr crypto_result" where
  "sign_bytes keys signingKey message =
     (case api_ed25519_sign keys signingKey message of
        None \<Rightarrow> Rejected Sign_Failed
      | Some signature \<Rightarrow> Accepted (encode_hex signature))"

definition signEd25519Over :: "signing_api \<Rightarrow> bytes \<Rightarrow> bytes \<Rightarrow> ustr crypto_result" where
  "signEd25519Over keys signedBytes signingKey = sign_bytes keys signingKey signedBytes"

definition verifyEd25519Over ::
  "crypto_api \<Rightarrow> bytes \<Rightarrow> ustr \<Rightarrow> bytes \<Rightarrow> crypto_error \<Rightarrow> unit crypto_result" where
  "verifyEd25519Over api signedBytes signatureHex publicKey onInvalid =
     (case decode_hex signatureHex of
        None \<Rightarrow> Rejected (Invalid_Input ''signatureHex'')
      | Some signature \<Rightarrow>
          if length signature \<noteq> SIGNATURE_BYTES then Rejected (Invalid_Input ''signatureHex'')
          else if api_ed25519_verify api publicKey signature signedBytes = Some True then Accepted ()
          else Rejected onInvalid)"

section \<open>Distributed statements\<close>

definition distributedInputInvalidField :: "fingerprint \<Rightarrow> string \<Rightarrow> ustr \<Rightarrow> ustr option \<Rightarrow> string option" where
  "distributedInputInvalidField actorKeyFingerprint actorField signatureHex predecessorHash =
     first_invalid
       [(\<not> isLowercaseHexOfLength actorKeyFingerprint FINGERPRINT_HEX_LENGTH, actorField),
        (\<not> isLowercaseHexOfLength signatureHex SIGNATURE_HEX_LENGTH, ''signatureHex''),
        (case predecessorHash of None \<Rightarrow> False | Some h \<Rightarrow> \<not> isLowercaseHexOfLength h SHA256_HEX_LENGTH,
         ''predecessor signedBytesHashHex'')]"

definition importActorKeyByFingerprint ::
  "signing_api \<Rightarrow> chain_history_builder \<Rightarrow> user_id \<Rightarrow> fingerprint \<Rightarrow> crypto_error \<Rightarrow> bytes crypto_result" where
  "importActorKeyByFingerprint keys history actorUserId actorKeyFingerprint onUnknown =
     (case sigKeyByFingerprint history actorUserId actorKeyFingerprint of
        None \<Rightarrow> Rejected onUnknown
      | Some sigPub \<Rightarrow>
          (case decode_hex sigPub of
             None \<Rightarrow> Rejected onUnknown
           | Some keyBytes \<Rightarrow> importSigningPublicKey keys keyBytes))"

record 'r head_authorization_reasons =
  chainHeadFuture :: 'r
  chainHeadMismatch :: 'r
  notMemberAtHead :: 'r
  keyMismatchAtHead :: 'r
  roleInsufficientAtHead :: 'r

record 'r head_scope_check =
  check_environmentId :: environment_id
  outOfScopeAtHead :: 'r

definition headAuthorizationReason ::
  "chain_history_builder \<Rightarrow> int \<Rightarrow> ustr \<Rightarrow> user_id \<Rightarrow> fingerprint \<Rightarrow> nat \<Rightarrow> 'r head_authorization_reasons \<Rightarrow>
   'r head_scope_check option \<Rightarrow> 'r option" where
  "headAuthorizationReason history chainHeadSeq chainHeadHash actorUserId actorKeyFingerprint
     requiredRoleRank reasons scope =
     (if headSeq history < chainHeadSeq then Some (chainHeadFuture reasons)
      else if entryHashAt history chainHeadSeq \<noteq> Some chainHeadHash then Some (chainHeadMismatch reasons)
      else if memberStateAt history actorUserId chainHeadSeq = None then Some (notMemberAtHead reasons)
      else case deviceStateAt history actorUserId actorKeyFingerprint chainHeadSeq of
        None \<Rightarrow> Some (keyMismatchAtHead reasons)
      | Some device \<Rightarrow>
          let permission = at_permission device in
          if ROLE_RANK (perm_role permission) < requiredRoleRank then Some (roleInsufficientAtHead reasons)
          else (case scope of
                  None \<Rightarrow> None
                | Some s \<Rightarrow>
                    if scopeIncludesEnvironment (perm_scope permission) (check_environmentId s) then None
                    else Some (outOfScopeAtHead s)))"

text \<open>What the head judgement accepts, whatever the reason codes.\<close>

definition authorized_at_head ::
  "chain_history_builder \<Rightarrow> int \<Rightarrow> ustr \<Rightarrow> user_id \<Rightarrow> fingerprint \<Rightarrow> role \<Rightarrow> environment_id option \<Rightarrow> bool" where
  "authorized_at_head history k hash user fp r env \<longleftrightarrow>
     entryHashAt history k = Some hash \<and> memberStateAt history user k \<noteq> None \<and>
     (\<exists>device. deviceStateAt history user fp k = Some device \<and> r \<le> perm_role (at_permission device) \<and>
        (\<forall>e. env = Some e \<longrightarrow> e \<in> scope_envs (perm_scope (at_permission device))))"

lemma entryHashAt_in_range: "entryHashAt h k = Some x \<Longrightarrow> in_range h k"
  by (simp add: entryHashAt_def split: if_splits)

lemma headAuthorizationReason_None:
  "headAuthorizationReason h k hash user fp (ROLE_RANK r) reasons sc = None \<longleftrightarrow>
     authorized_at_head h k hash user fp r (map_option check_environmentId sc)"
proof -
  have "\<not> headSeq h < k" if "entryHashAt h k = Some hash"
    using entryHashAt_in_range [OF that] by (simp add: in_range_def)
  then show ?thesis
    by (auto simp: headAuthorizationReason_def authorized_at_head_def Let_def less_eq_role_def not_less scopeIncludesEnvironment_iff
        split: option.splits if_splits)
qed

lemmas head_authorization_ranks =
  headAuthorizationReason_None [where r = Member, simplified]
  headAuthorizationReason_None [where r = Reader, simplified]

section \<open>What acceptance means\<close>

lemma verifyEd25519Over_Accepted:
  "verifyEd25519Over api message sigHex key err = Accepted u \<longleftrightarrow>
     (\<exists>signature. decode_hex sigHex = Some signature \<and> length signature = SIGNATURE_BYTES \<and>
        api_ed25519_verify api key signature message = Some True)"
  by (simp add: verifyEd25519Over_def split: option.split)

lemma verifyEd25519Over_not_Threw [simp]: "verifyEd25519Over api message sigHex key err \<noteq> Threw"
  by (simp add: verifyEd25519Over_def split: option.split)

lemma importActorKey_Accepted:
  "importActorKeyByFingerprint keys h user fp err = Accepted key \<longleftrightarrow>
     (\<exists>sigPub. sigKeyByFingerprint h user fp = Some sigPub \<and> decode_hex sigPub = Some key \<and>
        length key = ED25519_KEY_BYTES \<and> api_importable keys key)"
  by (auto simp: importActorKeyByFingerprint_def importSigningPublicKey_def split: option.splits if_splits)

lemma importActorKey_not_Threw [simp]: "importActorKeyByFingerprint keys h user fp err \<noteq> Threw"
  by (simp add: importActorKeyByFingerprint_def importSigningPublicKey_def split: option.split)

lemma sign_bytes_not_Threw [simp]: "sign_bytes keys k message \<noteq> Threw"
  by (simp add: sign_bytes_def split: option.split)

lemma hex_of_length_wf: "isLowercaseHexOfLength s n \<Longrightarrow> well_formed s"
  by (auto simp: isLowercaseHexOfLength_def intro: well_formed_hex)

end
