(* ===== verification/Key_History.thy ===== *)
theory Key_History
  imports History_Guarantees Signatures
begin

text \<open>
  Every device the history index has recorded for a user was a device of that user in the state of
  some verified prefix, so the keys the statements select by fingerprint are keys the chain
  registered. A statement's declared head is such a prefix too.
\<close>

section \<open>Recorded devices\<close>

definition tenure_devices :: "tenure_record \<Rightarrow> chain_device set" where
  "tenure_devices t = set (map rec_device (ten_devices t))"

definition recorded_devices :: "chain_history_builder \<Rightarrow> user_id \<Rightarrow> chain_device set" where
  "recorded_devices h u = (\<Union>t \<in> set (tenures_of h u). tenure_devices t)"

definition held_devices :: "mutable_chain_state \<Rightarrow> user_id \<Rightarrow> chain_device set" where
  "held_devices st u = (case map_of (members st) u of None \<Rightarrow> {} | Some m \<Rightarrow> snd ` set (devices m))"

lemma set_on_open_last: "set (on_open_last f ts) \<subseteq> set ts \<union> f ` set ts"
proof (cases "ts = [] \<or> endSeq (last ts) \<noteq> None")
  case False
  then have "last ts \<in> set ts" by simp
  with False show ?thesis by (auto simp: on_open_last_def dest: in_set_butlastD)
qed (simp add: on_open_last_def)

lemma on_open_last_devices:
  assumes "\<And>t. tenure_devices (f t) \<subseteq> tenure_devices t \<union> D"
  shows "(\<Union>t \<in> set (on_open_last f ts). tenure_devices t) \<subseteq> (\<Union>t \<in> set ts. tenure_devices t) \<union> D"
proof
  fix d assume "d \<in> (\<Union>t \<in> set (on_open_last f ts). tenure_devices t)"
  then obtain t where "t \<in> set ts" and "d \<in> tenure_devices t \<or> d \<in> tenure_devices (f t)"
    using set_on_open_last [of f ts] by blast
  with assms [of t] show "d \<in> (\<Union>t \<in> set ts. tenure_devices t) \<union> D" by blast
qed

lemma recorded_on_open:
  assumes "\<And>t. tenure_devices (f t) \<subseteq> tenure_devices t \<union> D"
  shows "recorded_devices (on_open_tenure u f h) x \<subseteq> recorded_devices h x \<union> (if x = u then D else {})"
  using on_open_last_devices [OF assms, of "tenures_of h u"] by (simp add: recorded_devices_def tenures_of_on_open)

lemma recorded_kept:
  assumes "\<And>t. tenure_devices (f t) = tenure_devices t"
  shows "recorded_devices (on_open_tenure u f h) x \<subseteq> recorded_devices h x"
  using recorded_on_open [of f "{}" u h x] assms by (simp split: if_splits)

lemma tenure_devices_simps:
  "tenure_devices (t\<lparr>spans := ss\<rparr>) = tenure_devices t"
  "tenure_devices (t\<lparr>endSeq := x\<rparr>) = tenure_devices t"
  "tenure_devices (t\<lparr>ten_devices := map (revoke_record s fps) (ten_devices t)\<rparr>) = tenure_devices t"
  "tenure_devices (pruneTenureAt e s t) = tenure_devices t"
proof -
  have "rec_device \<circ> revoke_record s fps = rec_device" "rec_device \<circ> prune_device_record e s = rec_device"
    by (simp_all add: fun_eq_iff revoke_record_def)
  then show "tenure_devices (t\<lparr>ten_devices := map (revoke_record s fps) (ten_devices t)\<rparr>) = tenure_devices t"
    "tenure_devices (pruneTenureAt e s t) = tenure_devices t"
    by (simp_all add: tenure_devices_def pruneTenureAt_def del: set_map)
qed (simp_all add: tenure_devices_def)

lemma recorded_fold_on_open:
  assumes "\<And>t. tenure_devices (f t) = tenure_devices t"
  shows "recorded_devices (fold (\<lambda>u. on_open_tenure u f) us h) x \<subseteq> recorded_devices h x"
proof (induction us arbitrary: h)
  case (Cons u us)
  from Cons [of "on_open_tenure u f h"] recorded_kept [OF assms, of u h x] show ?case by simp
qed simp

lemma recorded_cong: "tenures h = tenures h' \<Longrightarrow> recorded_devices h = recorded_devices h'"
  by (simp add: recorded_devices_def tenures_of_def fun_eq_iff)

lemma recorded_start:
  "recorded_devices (recordTenureStart u s d r sc h) x \<subseteq> recorded_devices h x \<union> (if x = u then {d} else {})"
  by (auto simp: recorded_devices_def recordTenureStart_def tenures_of_def tenure_devices_def Let_def split: option.splits if_splits)

lemma recorded_added:
  "recorded_devices (recordDeviceAdded u d h) x \<subseteq> recorded_devices h x \<union> (if x = u then {d} else {})"
  unfolding recordDeviceAdded_def by (rule recorded_on_open) (auto simp: tenure_devices_def)

lemma soleDeviceOf_held: "soleDeviceOf ds = Some d \<Longrightarrow> d \<in> snd ` set ds"
  by (cases ds; cases "tl ds") (auto simp: soleDeviceOf_def)

lemma recorded_start_of:
  "recorded_devices (recordTenureStartOf st u s h) x \<subseteq> recorded_devices h x \<union> held_devices st x"
proof (cases "map_of (members st) u")
  case (Some m)
  then show ?thesis
    using recorded_start [of u s _ "mem_role m" "mem_scope m" h x] soleDeviceOf_held [of "devices m"]
    by (fastforce simp: recordTenureStartOf_def held_devices_def split: option.splits if_splits)
qed (simp add: recordTenureStartOf_def)

lemma recordHistory_devices:
  "recorded_devices (recordHistory a s st h) x \<subseteq> recorded_devices h x \<union> held_devices st x"
proof (cases "applied_operation a")
  case (Delete_Environment e)
  let ?h = "(case map_of (environmentStarts h) e of None \<Rightarrow> h
    | Some environment \<Rightarrow> h\<lparr>environmentStarts := AList.update e (environment\<lparr>env_deletedAtSeq := Some s\<rparr>) (environmentStarts h)\<rparr>)"
  let ?h2 = "?h\<lparr>latestCheckpoints := AList.delete e (latestCheckpoints ?h)\<rparr>"
  have "recorded_devices ?h2 x = recorded_devices h x"
    by (rule fun_cong [OF recorded_cong]) (simp split: option.split)
  with recorded_fold_on_open [of "pruneTenureAt e s" "map fst (tenures ?h2)" ?h2 x] Delete_Environment
  show ?thesis by (auto simp: recordHistory_def recordEnvironmentDeleted_def Let_def tenure_devices_simps)
next
  case (Add_Device p)
  then show ?thesis
    using recorded_added [of "applied_actorUserId a" _ h x]
    by (fastforce simp: recordHistory_def recordDeviceAddedOf_def held_devices_def find_Some_iff in_set_conv_nth
        split: option.splits if_splits)
next
  case (Change_Role p)
  then show ?thesis
    by (auto simp: recordHistory_def recordRoleChange_def dest!: subsetD [OF recorded_kept [OF tenure_devices_simps(1)]])
next
  case (Remove_Member u)
  then show ?thesis using recorded_kept [of "\<lambda>t. t\<lparr>endSeq := Some s\<rparr>" u h x]
    by (auto simp: recordHistory_def recordTenureEnd_def tenure_devices_simps)
next
  case (Revoke_Device p)
  then show ?thesis
    using recorded_kept [of "\<lambda>t. t\<lparr>ten_devices := map (revoke_record s (rd_deviceFingerprintsHex p)) (ten_devices t)\<rparr>"]
    by (auto simp: recordHistory_def recordDevicesRevoked_def tenure_devices_simps)
next
  case (Create_Environment p)
  then show ?thesis
    using recorded_cong [of "recordHistory a s st h" h] by (simp add: recordHistory_def recordEnvironmentCreated_def)
next
  case (Rotate_Epoch p)
  then show ?thesis
    using recorded_cong [of "recordHistory a s st h" h]
    by (simp add: recordHistory_def recordEpochRotated_def split: option.split)
next
  case (Checkpoint p)
  then show ?thesis using recorded_cong [of "recordHistory a s st h" h] by (simp add: recordHistory_def)
next
  case (Genesis p)
  then show ?thesis using recorded_start_of by (auto simp: recordHistory_def)
next
  case (Add_Member p)
  then show ?thesis using recorded_start_of by (auto simp: recordHistory_def)
qed (simp_all add: recordHistory_def)

section \<open>Every recorded device was registered\<close>

lemma recorded_entry_hash: "recorded_devices (recordEntryHash x h) = recorded_devices h"
  by (rule recorded_cong) (simp add: recordEntryHash_def)

lemma held_device_of:
  assumes "verifier_ok api v" and "d \<in> held_devices (v_state v) u" and "v_seq v \<noteq> 0"
  shows "device_of (members (v_state v)) u (keyFingerprintHex d) = Some d"
proof -
  from assms(2) obtain m where m: "map_of (members (v_state v)) u = Some m" and d: "d \<in> snd ` set (devices m)"
    by (auto simp: held_devices_def split: option.splits)
  have ok: "members_ok (api_sha256 api) (v_seq v) (members (v_state v))"
    using assms(1,3) by (auto simp: verifier_ok_def dest: state_okD)
  from d obtain f where "(f, d) \<in> set (devices m)" by auto
  then have f: "device_of (members (v_state v)) u f = Some d"
    using in_set_map_of [OF members_okD(3) [OF ok m]] m by (simp add: device_of_def)
  with device_okD [OF ok f] show ?thesis by (simp add: device_ok_def)
qed

lemma recorded_registered:
  assumes "recorded_run api vs = Accepted v" and "v_history v = Some h" and "d \<in> recorded_devices h u"
  shows "\<exists>k w. 1 \<le> k \<and> k \<le> length vs \<and> recorded_run api (take k vs) = Accepted w \<and>
    device_of (members (v_state w)) u (keyFingerprintHex d) = Some d"
  using assms
proof (induction vs arbitrary: v h rule: rev_induct)
  case Nil
  then have "v = start_verifier (Some empty_history)" by (simp add: recorded_run_def)
  with Nil(2) have "h = empty_history" by (simp add: start_verifier_def)
  with Nil(3) show ?case by (simp add: empty_history_def recorded_devices_def tenures_of_def)
next
  case (snoc x vs)
  then obtain w where run: "recorded_run api vs = Accepted w" and last: "verify_step api w x = Accepted v"
    by (auto simp: recorded_run_def run_loop_snoc_Accepted)
  from recorded_run_agrees [OF run] obtain h0 where h0: "v_history w = Some h0" by blast
  from last obtain entry ev where step: "accepts api w entry ev v" by (rule verify_step_Accepted)
  have "d \<in> recorded_devices h0 u \<or> d \<in> held_devices (v_state v) u"
    using step_history [OF step h0] snoc.prems(2,3) recordHistory_devices [of _ "v_seq v" "v_state v" h0 u]
    by (auto simp: recorded_entry_hash split: option.splits)
  then show ?case
  proof
    assume "d \<in> recorded_devices h0 u"
    from snoc.IH [OF run h0 this] obtain k w' where "1 \<le> k" "k \<le> length vs"
      "recorded_run api (take k vs) = Accepted w'" "device_of (members (v_state w')) u (keyFingerprintHex d) = Some d"
      by blast
    then show ?thesis by (intro exI [of _ k] exI [of _ w']) simp
  next
    assume held: "d \<in> held_devices (v_state v) u"
    have "verifier_ok api v"
      using checked_loop.run_inv [OF start_verifier_ok] snoc.prems(1) by (simp add: recorded_run_def)
    from held_device_of [OF this held] recorded_run_seq [OF snoc.prems(1)] snoc.prems(1) show ?thesis
      by (intro exI [of _ "length (vs @ [x])"] exI [of _ v]) simp
  qed
qed

section \<open>What a declared head stands for\<close>

text \<open>The state the verifier has at entry \<open>seq\<close>, when the chain is cut there.\<close>

definition prefix_state :: "crypto_api \<Rightarrow> js_value list \<Rightarrow> int \<Rightarrow> chain_state \<Rightarrow> bool" where
  "prefix_state api entries seq s \<longleftrightarrow>
     (\<exists>k. seq = int k \<and> 1 \<le> k \<and> k \<le> length entries \<and> verifyChain api (take k entries) = Accepted s)"

text \<open>A signature under a key the chain registered for the user with this fingerprint.\<close>

definition signed_by_registered_key ::
  "crypto_api \<Rightarrow> js_value list \<Rightarrow> user_id \<Rightarrow> fingerprint \<Rightarrow> bytes \<Rightarrow> ustr \<Rightarrow> bool" where
  "signed_by_registered_key api entries user fp message signatureHex \<longleftrightarrow>
     (\<exists>seq s d key signature. prefix_state api entries seq s \<and> device_of (st_members s) user fp = Some d \<and>
        decode_hex (sigPubHex d) = Some key \<and> decode_hex signatureHex = Some signature \<and>
        length signature = SIGNATURE_BYTES \<and> api_ed25519_verify api key signature message = Some True)"

lemma prefix_answers:
  assumes "verifyChainWithHistory api entries = Accepted (st, h)" and "length entries < 2 ^ 32"
    and "1 \<le> k" and "k \<le> length entries"
  obtains s where "verifyChain api (take k entries) = Accepted s" and "in_range h (int k)"
    and "entryHashAt h (int k) = Some (st_headHashHex s)"
    and "\<And>user. member_view_at h user (int k) =
      map_option (\<lambda>m. (mem_role m, mem_scope m, devices m)) (map_of (st_members s) user)"
    and "\<And>env. environment_view_at h env (int k) =
      map_option (\<lambda>r. (createdAtSeq r, currentEpoch r, deletedAtSeq r)) (map_of (st_environments s) env)"
proof -
  from assms(1) obtain v es where run: "recorded_run api entries = Accepted v" and agrees: "history_agrees v h es"
    and views: "\<And>u. recorded_run api (take k entries) = Accepted u \<Longrightarrow>
       (\<forall>x. member_view_at h x (int k) = member_view (v_state u) x) \<and>
       (\<forall>e. environment_view_at h e (int k) = environment_view (v_state u) e) \<and>
       entryHashes h ! (k - 1) = v_prevHash u"
    using assms(3,4) by (elim with_history_run) blast
  from run assms(3,4) obtain u where u: "recorded_run api (take k entries) = Accepted u"
    "verifyChain api (take k entries) = Accepted (at_head u)" "verifier_ok api u"
    by (rule recorded_prefix)
  have range: "in_range h (int k)"
    by (rule prefix_in_range [OF agrees recorded_run_seq [OF run] assms(2-4)])
  then have "entryHashAt h (int k) = Some (st_headHashHex (at_head u))"
    using views [OF u(1)] u(3) assms(3) by (simp add: entryHashAt_def at_head_fields nat_diff_distrib)
  with u range views [OF u(1)] show ?thesis
    by (intro that [of "at_head u"]) (simp_all add: at_head_fields member_view_def environment_view_def)
qed

lemma latest_checkpoint_of_state:
  assumes "verifyChainWithHistory api entries = Accepted (st, h)"
  shows "latestCheckpointFor h env = map_of (st_checkpoints st) env"
proof -
  from assms obtain v es where run: "recorded_run api entries = Accepted v" and st: "st = at_head v"
    and agrees: "history_agrees v h es" and ne: "entries \<noteq> []"
    by (elim with_history_run)
  from ne obtain w where "recorded_run api (take (length entries) entries) = Accepted w" "verifier_ok api w"
    using recorded_prefix [OF run, of "length entries"] by (auto simp: Suc_le_eq)
  with run st agrees show ?thesis by (simp add: at_head_fields latestCheckpointFor_def history_agrees_def)
qed

lemma selected_key_registered:
  assumes "verifyChainWithHistory api entries = Accepted (st, h)"
    and "sigKeyByFingerprint h user fp = Some sigPub"
  obtains seq s d where "prefix_state api entries seq s" and "device_of (st_members s) user fp = Some d"
    and "sigPubHex d = sigPub"
proof -
  from assms(1) obtain v where run: "recorded_run api entries = Accepted v" and h: "v_history v = Some h"
    by (elim with_history_run)
  from assms(2) obtain r where r: "keyFingerprintHex (rec_device r) = fp" "sigPubHex (rec_device r) = sigPub"
    and "r \<in> set (concat (map ten_devices (tenures_of h user)))"
    by (auto simp: sigKeyByFingerprint_def tenures_of_def [symmetric] find_Some_iff dest: nth_mem)
  then have "rec_device r \<in> recorded_devices h user" by (auto simp: recorded_devices_def tenure_devices_def)
  from recorded_registered [OF run h this] obtain k w where k: "1 \<le> k" "k \<le> length entries"
    and w: "recorded_run api (take k entries) = Accepted w"
    and d: "device_of (members (v_state w)) user fp = Some (rec_device r)"
    using r(1) by blast
  from run k obtain u where "recorded_run api (take k entries) = Accepted u"
    "verifyChain api (take k entries) = Accepted (at_head u)" "verifier_ok api u"
    by (rule recorded_prefix)
  with w d k r(2) show ?thesis
    by (intro that [of "int k" "at_head u" "rec_device r"]) (auto simp: prefix_state_def at_head_fields)
qed

lemma current_device_selected:
  assumes "verifyChainWithHistory api entries = Accepted (st, h)" and "length entries < 2 ^ 32"
    and "prefix_state api entries seq s" and "device_of (st_members s) user fp \<noteq> None"
  shows "sigKeyByFingerprint h user fp \<noteq> None"
proof -
  from assms(3) obtain k where k: "1 \<le> k" "k \<le> length entries" "verifyChain api (take k entries) = Accepted s"
    by (auto simp: prefix_state_def)
  from prefix_answers [OF assms(1,2) k(1,2)] k(3) have range: "in_range h (int k)"
    and view: "member_view_at h user (int k) =
      map_option (\<lambda>m. (mem_role m, mem_scope m, devices m)) (map_of (st_members s) user)" by auto
  from assms(4) view have "deviceStateAt h user fp (int k) \<noteq> None"
    unfolding deviceStateAt_defined [OF range] by (auto simp: device_of_def bind_eq_None_conv split: option.splits)
  then obtain t r where "t \<in> set (tenures_of h user)" and "r \<in> set (ten_devices t)" "keyFingerprintHex (rec_device r) = fp"
    by (auto simp: deviceStateAt_def tenureAt_find [OF range] find_Some_iff split: option.splits dest: nth_mem)
  then show ?thesis by (auto simp: sigKeyByFingerprint_def tenures_of_def [symmetric] find_None_iff)
qed

text \<open>
  What passing the head judgement of a signed statement says of the verified chain: the declared head
  is the hash of a prefix, and in the state of that prefix the author is a member with the role and
  the scope the statement needs, holding the device of the declared fingerprint.
\<close>

text \<open>A user's authority at a chain position: a member of the role at least, holding the device.\<close>

definition authority_at :: "chain_state \<Rightarrow> user_id \<Rightarrow> fingerprint \<Rightarrow> role \<Rightarrow> environment_id option \<Rightarrow> bool" where
  "authority_at s user fp r env \<longleftrightarrow>
     device_of (st_members s) user fp \<noteq> None \<and>
     (\<exists>m. map_of (st_members s) user = Some m \<and> r \<le> mem_role m \<and>
        (\<forall>e. env = Some e \<longrightarrow> e \<in> scope_envs (mem_scope m)))"

lemma deviceStateAt_below_member:
  assumes "in_range h k" and "deviceStateAt h user fp k = Some d" and "member_view_at h user k = Some (r, sc, ds)"
  shows "perm_role (at_permission d) \<le> r" and "scope_envs (perm_scope (at_permission d)) \<subseteq> scope_envs sc"
proof -
  have "\<exists>x :: chain_device. at_permission d = effectivePermissionOf r sc x"
    using assms by (auto simp: deviceStateAt_def member_view_at_def tenure_view_def tenureAt_find split: option.splits)
  then obtain x :: chain_device where x: "at_permission d = effectivePermissionOf r sc x" ..
  show "perm_role (at_permission d) \<le> r" unfolding x by (simp add: effectivePermissionOf_def minRole_min)
  show "scope_envs (perm_scope (at_permission d)) \<subseteq> scope_envs sc" unfolding x by (simp add: effectivePermissionOf_def)
qed

lemma head_authority:
  assumes chain: "verifyChainWithHistory api entries = Accepted (st, h)" "length entries < 2 ^ 32"
    and "authorized_at_head h seq hash user fp r env"
  obtains s where "prefix_state api entries seq s" and "st_headHashHex s = hash" and "authority_at s user fp r env"
    and "\<And>e. map_option (\<lambda>x. (at_createdAtSeq x, at_currentEpoch x, at_deletedAtSeq x)) (environmentStateAt h e seq) =
      map_option (\<lambda>x. (createdAtSeq x, currentEpoch x, deletedAtSeq x)) (map_of (st_environments s) e)"
proof -
  from assms(3) obtain d where hash: "entryHashAt h seq = Some hash" and d: "deviceStateAt h user fp seq = Some d"
    and auth: "r \<le> perm_role (at_permission d)" "\<And>e. env = Some e \<Longrightarrow> e \<in> scope_envs (perm_scope (at_permission d))"
    by (auto simp: authorized_at_head_def)
  have range: "in_range h seq" using hash by (rule entryHashAt_in_range)
  from chain(1) obtain v es where run: "recorded_run api entries = Accepted v" and agrees: "history_agrees v h es"
    by (elim with_history_run)
  have "headSeq h = int (length entries)"
    using agrees recorded_run_seq [OF run] by (simp add: headSeq_def history_agrees_def)
  with range obtain k where k: "seq = int k" "1 \<le> k" "k \<le> length entries"
    by (intro that [of "nat seq"]) (auto simp: in_range_def)
  obtain s where s: "verifyChain api (take k entries) = Accepted s"
    and hash': "entryHashAt h (int k) = Some (st_headHashHex s)"
    and member: "\<And>user. member_view_at h user (int k) =
      map_option (\<lambda>m. (mem_role m, mem_scope m, devices m)) (map_of (st_members s) user)"
    and env: "\<And>env. environment_view_at h env (int k) =
      map_option (\<lambda>r. (createdAtSeq r, currentEpoch r, deletedAtSeq r)) (map_of (st_environments s) env)"
    by (rule prefix_answers [OF chain k(2,3)], rule that)
  from d deviceStateAt_defined [OF range, of user fp] obtain ro sc ds
    where view: "member_view_at h user seq = Some (ro, sc, ds)" "map_of ds fp \<noteq> None" by auto
  with member k(1) obtain m where m: "map_of (st_members s) user = Some m" "ro = mem_role m" "sc = mem_scope m" "ds = devices m"
    by auto
  have "authority_at s user fp r env"
    using m view(2) auth deviceStateAt_below_member [OF range d view(1)]
    by (auto simp: authority_at_def device_of_def dest: order_trans)
  with s k hash hash' env range show ?thesis
    by (intro that [of s]) (auto simp: prefix_state_def environmentStateAt_view)
qed

end
