(* ===== verification/Domain_Strings.thy ===== *)
theory Domain_Strings
  imports Chain_Canonical
begin

text \<open>
  The first field of every signed statement and digest is a domain string: the suite, a slash and the
  name of the statement's kind. Two encodings with different names never agree, whatever the suites,
  because a name has no slash; the interface of a signed statement adds that the other fields
  determine it.
\<close>

definition domain_string :: "ustr \<Rightarrow> string \<Rightarrow> ustr" where
  "domain_string suite name = suite @ lit (CHR ''/'' # name)"

definition plain_name :: "string \<Rightarrow> bool" where
  "plain_name name \<longleftrightarrow> list_all (\<lambda>c. of_char c < (128 :: nat) \<and> c \<noteq> CHR ''/'') name"

definition statement_bytes :: "ustr \<Rightarrow> string \<Rightarrow> lp_field list \<Rightarrow> bytes option" where
  "statement_bytes suite name rest = encode_lp (LpStr (domain_string suite name) # rest)"

lemma split_at_first:
  "d @ c # x = e @ c # y \<Longrightarrow> c \<notin> set d \<Longrightarrow> c \<notin> set e \<Longrightarrow> d = e \<and> x = y"
proof (induction d arbitrary: e)
  case Nil
  then show ?case by (cases e) auto
next
  case (Cons a d)
  then show ?case by (cases e) auto
qed

lemma split_at_last:
  assumes "x @ c # d = y @ c # e" and "c \<notin> set d" and "c \<notin> set e"
  shows "x = y \<and> d = e"
  using split_at_first [of "rev d" c "rev x" "rev e" "rev y"] arg_cong [OF assms(1), of rev] assms(2,3) by simp

lemma plain_lit: "plain_name name \<Longrightarrow> list_all (\<lambda>u. unat u < 0x80) (lit name)"
  by (simp add: plain_name_def lit_def list.pred_map comp_def list_all_iff unat_char_unit)

lemma utf8_domain_string:
  assumes "plain_name name"
  shows "utf8_encode (domain_string suite name) = utf8_encode suite @ 0x2F # map (\<lambda>u. word_of_nat (unat u)) (lit name)"
proof -
  have slash: "lit (CHR ''/'' # name) = 0x2F # lit name" by (simp add: lit_def)
  moreover have "list_all (\<lambda>u. unat u < 0x80) (0x2F # lit name)" using plain_lit [OF assms] by simp
  moreover have "\<not> low_surrogate (0x2F :: 16 word)" by (simp add: low_surrogate_def)
  ultimately show ?thesis by (simp add: domain_string_def utf8_append utf8_ascii)
qed

lemma no_slash:
  assumes "plain_name name"
  shows "(0x2F :: 8 word) \<notin> set (map (\<lambda>u. word_of_nat (unat u)) (lit name))"
proof
  assume "(0x2F :: 8 word) \<in> set (map (\<lambda>u. word_of_nat (unat u)) (lit name))"
  then obtain c where c: "c \<in> set name"
    and eq: "(0x2F :: 8 word) = word_of_nat (unat (word_of_nat (of_char c) :: 16 word))"
    by (auto simp: lit_def)
  have small: "of_char c < (128 :: nat)" and ne: "c \<noteq> CHR ''/''"
    using assms c by (auto simp: plain_name_def list_all_iff)
  from eq have "unat (0x2F :: 8 word) = unat (word_of_nat (of_char c) :: 8 word)"
    by (simp add: unat_char_unit)
  then have "of_char c = (47 :: nat)" using small by (simp add: unat_of_nat)
  then have "of_char c = (of_char (CHR ''/'') :: nat)" by simp
  then have "char_of (of_char c :: nat) = char_of (of_char (CHR ''/'') :: nat)" by simp
  with ne show False by (simp only: char_of_char)
qed

lemma domain_string_bytes:
  assumes "plain_name m" and "plain_name n"
    and "utf8_encode (domain_string s m) = utf8_encode (domain_string t n)"
  shows "m = n \<and> utf8_encode s = utf8_encode t"
proof -
  let ?bytes = "\<lambda>name. map (\<lambda>u. word_of_nat (unat u) :: 8 word) (lit name)"
  have "utf8_encode s = utf8_encode t \<and> ?bytes m = ?bytes n"
    using assms(3) unfolding utf8_domain_string [OF assms(1)] utf8_domain_string [OF assms(2)]
    by (rule split_at_last [OF _ no_slash [OF assms(1)] no_slash [OF assms(2)]])
  moreover have "?bytes name = utf8_encode (lit name)" if "plain_name name" for name
    using utf8_ascii [OF plain_lit [OF that]] by simp
  ultimately have "utf8_encode (lit m) = utf8_encode (lit n)" and "utf8_encode s = utf8_encode t"
    using assms(1,2) by simp_all
  with utf8_encode_inj [of "lit m" "lit n"] show ?thesis by simp
qed

lemma statement_bytes_name:
  assumes "statement_bytes s m fs = Some b" and "statement_bytes t n gs = Some b"
    and "plain_name m" and "plain_name n"
  shows "m = n \<and> utf8_encode s = utf8_encode t"
proof -
  have "map lp_body (LpStr (domain_string s m) # fs) = map lp_body (LpStr (domain_string t n) # gs)"
    using assms(1,2) unfolding statement_bytes_def by (rule encode_lp_bodies)
  then have "utf8_encode (domain_string s m) = utf8_encode (domain_string t n)" by simp
  with assms(3,4) show ?thesis by (rule domain_string_bytes)
qed

lemma defined_fields:
  assumes "encode_lp fs = Some b"
  shows "list_all (\<lambda>f. lp_body f \<noteq> None) fs"
proof -
  from assms obtain bodies where "map lp_body fs = map Some bodies" by (auto simp: encode_lp_Some_iff)
  then have "list_all (\<lambda>x. x \<noteq> None) (map lp_body fs)" by (simp add: list_all_iff)
  then show ?thesis by (simp add: list.pred_map comp_def)
qed

lemma same_bodies:
  "list_all2 same_kind fs gs \<Longrightarrow> map lp_body fs = map lp_body gs \<Longrightarrow> list_all (\<lambda>f. lp_body f \<noteq> None) fs \<Longrightarrow>
   fs = gs"
  by (induction rule: list_all2_induct) (auto dest: lp_body_inj)

text \<open>The interface of a signed statement; \<open>view\<close> is what of it the bytes determine.\<close>

locale signed_statement =
  fixes suite_of :: "'c \<Rightarrow> ustr"
    and name_of :: "'c \<Rightarrow> string"
    and fields_of :: "'c \<Rightarrow> lp_field list"
    and texts :: "'c \<Rightarrow> ustr list"
    and view :: "'c \<Rightarrow> 'v"
  assumes plain: "plain_name (name_of c)"
    and suite_text: "suite_of c \<in> set (texts c)"
    and kinds: "name_of c = name_of c' \<Longrightarrow> list_all well_formed (texts c) \<Longrightarrow> list_all well_formed (texts c') \<Longrightarrow>
      list_all2 same_kind (fields_of c) (fields_of c')"
    and determined: "name_of c = name_of c' \<Longrightarrow> suite_of c = suite_of c' \<Longrightarrow> fields_of c = fields_of c' \<Longrightarrow>
      view c = view c'"
begin

lemma bytes_determine:
  assumes b: "statement_bytes (suite_of c) (name_of c) (fields_of c) = Some b"
    and b': "statement_bytes (suite_of c') (name_of c') (fields_of c') = Some b"
    and texts: "list_all well_formed (texts c)" "list_all well_formed (texts c')"
  shows "view c = view c'"
proof -
  have same: "name_of c = name_of c'" "utf8_encode (suite_of c) = utf8_encode (suite_of c')"
    using statement_bytes_name [OF b b' plain plain] by simp_all
  then have suite: "suite_of c = suite_of c'"
    using texts suite_text [of c] suite_text [of c'] by (auto simp: list_all_iff intro: utf8_encode_inj)
  have "map lp_body (fields_of c) = map lp_body (fields_of c')"
    using encode_lp_bodies [OF b [unfolded statement_bytes_def] b' [unfolded statement_bytes_def]] by simp
  moreover have "list_all (\<lambda>f. lp_body f \<noteq> None) (fields_of c)"
    using defined_fields [OF b [unfolded statement_bytes_def]] by simp
  ultimately have "fields_of c = fields_of c'"
    using kinds [OF same(1) texts] by (intro same_bodies)
  with same(1) suite show ?thesis by (rule determined)
qed

end

end
