(* ===== verification/Value_Statement.thy ===== *)
theory Value_Statement
  imports Signatures Domain_Strings
begin

text \<open>
  The value write signature (\<open>value-sign.ts\<close>) and the verification of a distributed value against
  the history index (\<open>value-verify.ts\<close>): the structure check, the canonical signed bytes, signing,
  and the composed check of key, signature, declared head, epoch and predecessor.
\<close>

section \<open>The signature\<close>

definition NONCE_HEX_LENGTH :: nat where "NONCE_HEX_LENGTH = 12 * 2"

definition MIN_CIPHERTEXT_HEX_LENGTH :: nat where "MIN_CIPHERTEXT_HEX_LENGTH = 16 * 2"

record value_signature_context =
  val_suite :: ustr
  val_projectId :: ustr
  val_environmentId :: environment_id
  val_epoch :: int
  val_variableId :: ustr
  val_version :: int
  val_nonceHex :: ustr
  val_ciphertextHex :: ustr
  val_prevValueSigHashHex :: ustr
  val_writerUserId :: user_id
  val_chainHeadHashHex :: ustr
  val_chainHeadSeq :: int

definition valueNumericFieldInvalid :: "value_signature_context \<Rightarrow> string option" where
  "valueNumericFieldInvalid c = first_invalid
     [(counter_invalid (val_epoch c), ''context epoch''),
      (counter_invalid (val_version c), ''context version''),
      (counter_invalid (val_chainHeadSeq c), ''context chainHeadSeq'')]"

definition valueHexFieldInvalid :: "value_signature_context \<Rightarrow> string option" where
  "valueHexFieldInvalid c = first_invalid
     [(\<not> isLowercaseHexOfLength (val_nonceHex c) NONCE_HEX_LENGTH, ''context nonceHex''),
      (length (val_ciphertextHex c) < MIN_CIPHERTEXT_HEX_LENGTH \<or> length (val_ciphertextHex c) mod 2 \<noteq> 0 \<or>
       decode_hex (val_ciphertextHex c) = None, ''context ciphertextHex''),
      (val_prevValueSigHashHex c \<noteq> [] \<and> \<not> isLowercaseHexOfLength (val_prevValueSigHashHex c) SHA256_HEX_LENGTH,
       ''context prevValueSigHashHex''),
      (\<not> isLowercaseHexOfLength (val_chainHeadHashHex c) SHA256_HEX_LENGTH, ''context chainHeadHashHex'')]"

definition valueContextInvalidField :: "value_signature_context \<Rightarrow> string option" where
  "valueContextInvalidField c = first_reason (first_invalid
     [(val_suite c = [], ''context suite''),
      (val_projectId c = [], ''context projectId''),
      (val_environmentId c = [], ''context environmentId''),
      (val_variableId c = [], ''context variableId''),
      (val_writerUserId c = [], ''context writerUserId'')])
     (first_reason (valueNumericFieldInvalid c) (valueHexFieldInvalid c))"

definition value_fields :: "value_signature_context \<Rightarrow> lp_field list" where
  "value_fields c =
     [LpStr (val_projectId c), LpStr (val_environmentId c), LpNum (val_epoch c), LpStr (val_variableId c),
      LpNum (val_version c), LpStr (val_nonceHex c), LpStr (val_ciphertextHex c),
      LpStr (val_prevValueSigHashHex c), LpStr (val_writerUserId c), LpStr (val_chainHeadHashHex c),
      LpNum (val_chainHeadSeq c)]"

definition buildValueSignedBytes :: "value_signature_context \<Rightarrow> bytes option" where
  "buildValueSignedBytes c = statement_bytes (val_suite c) ''value-sig'' (value_fields c)"

definition computeValueSignedBytesHash :: "(bytes \<Rightarrow> bytes) \<Rightarrow> value_signature_context \<Rightarrow> ustr crypto_result" where
  "computeValueSignedBytesHash sha256 c =
     require_valid (valueContextInvalidField c)
       (with_bytes (buildValueSignedBytes c) (\<lambda>b. Accepted (encode_hex (sha256 b))))"

text \<open>\<open>signValue\<close> builds the bytes inside its \<open>try\<close>: there an encoder exception is \<^const>\<open>Sign_Failed\<close>.\<close>

definition signValue :: "signing_api \<Rightarrow> value_signature_context \<Rightarrow> bytes \<Rightarrow> ustr crypto_result" where
  "signValue keys c signingKey =
     require_valid (first_reason (valueContextInvalidField c)
         (reject_when ((val_version c = 1) \<noteq> (val_prevValueSigHashHex c = [])) ''context prevValueSigHashHex''))
       (case buildValueSignedBytes c of
          None \<Rightarrow> Rejected Sign_Failed
        | Some b \<Rightarrow> sign_bytes keys signingKey b)"

definition verifyValueSignature ::
  "crypto_api \<Rightarrow> value_signature_context \<Rightarrow> ustr \<Rightarrow> bytes \<Rightarrow> unit crypto_result" where
  "verifyValueSignature api c signatureHex writerPublicKey =
     require_valid (valueContextInvalidField c)
       (with_bytes (buildValueSignedBytes c)
          (\<lambda>b. verifyEd25519Over api b signatureHex writerPublicKey (Value_Invalid Value_Signature_Invalid)))"

section \<open>Verification of a distributed value\<close>

record value_predecessor =
  vpred_signedBytesHashHex :: ustr
  vpred_epoch :: int

record distributed_value_input =
  din_history :: chain_history_builder
  din_context :: value_signature_context
  din_writerKeyFingerprintHex :: fingerprint
  din_signatureHex :: ustr
  din_predecessor :: "value_predecessor option"

definition VALUE_HEAD_REASONS :: "value_invalid_reason head_authorization_reasons" where
  "VALUE_HEAD_REASONS =
     \<lparr>chainHeadFuture = Value_Head_Future, chainHeadMismatch = Value_Head_Mismatch,
      notMemberAtHead = Writer_Not_Member_At_Head, keyMismatchAtHead = Writer_Key_Mismatch_At_Head,
      roleInsufficientAtHead = Writer_Role_Insufficient_At_Head\<rparr>"

definition valueHeadStateReason :: "distributed_value_input \<Rightarrow> value_invalid_reason option" where
  "valueHeadStateReason i =
     (let c = din_context i in
      first_reason
        (headAuthorizationReason (din_history i) (val_chainHeadSeq c) (val_chainHeadHashHex c)
           (val_writerUserId c) (din_writerKeyFingerprintHex i) (ROLE_RANK Member) VALUE_HEAD_REASONS
           (Some \<lparr>check_environmentId = val_environmentId c, outOfScopeAtHead = Writer_Out_Of_Scope_At_Head\<rparr>))
        (case environmentStateAt (din_history i) (val_environmentId c) (val_chainHeadSeq c) of
           None \<Rightarrow> Some Value_Environment_Not_Created_At_Head
         | Some env \<Rightarrow>
             reject_when (at_currentEpoch env \<noteq> val_epoch c) Value_Epoch_Not_Current_At_Head))"

definition valuePrevReason :: "distributed_value_input \<Rightarrow> value_invalid_reason option" where
  "valuePrevReason i =
     (let c = din_context i in
      if (val_version c = 1) \<noteq> (val_prevValueSigHashHex c = []) then Some Value_Prev_Shape_Mismatch
      else case din_predecessor i of
        None \<Rightarrow> None
      | Some p \<Rightarrow>
          if val_prevValueSigHashHex c \<noteq> vpred_signedBytesHashHex p then Some Value_Prev_Hash_Mismatch
          else if val_epoch c < vpred_epoch p then Some Value_Epoch_Regressed
          else None)"

definition verifyDistributedValue ::
  "crypto_api \<Rightarrow> signing_api \<Rightarrow> distributed_value_input \<Rightarrow> ustr crypto_result" where
  "verifyDistributedValue api keys i =
     require_valid
       (first_reason (valueContextInvalidField (din_context i))
          (distributedInputInvalidField (din_writerKeyFingerprintHex i) ''writerKeyFingerprintHex''
             (din_signatureHex i) (map_option vpred_signedBytesHashHex (din_predecessor i))))
       (then_call
          (importActorKeyByFingerprint keys (din_history i) (val_writerUserId (din_context i))
             (din_writerKeyFingerprintHex i) (Value_Invalid Writer_Unknown))
          (\<lambda>key. then_call (verifyValueSignature api (din_context i) (din_signatureHex i) key)
             (\<lambda>_. case valueHeadStateReason i of
                    Some r \<Rightarrow> Rejected (Value_Invalid r)
                  | None \<Rightarrow>
                      (case valuePrevReason i of
                         Some r \<Rightarrow> Rejected (Value_Invalid r)
                       | None \<Rightarrow> computeValueSignedBytesHash (api_sha256 api) (din_context i)))))"

section \<open>What the bytes bind\<close>

definition value_texts :: "value_signature_context \<Rightarrow> ustr list" where
  "value_texts c =
     [val_suite c, val_projectId c, val_environmentId c, val_variableId c, val_nonceHex c,
      val_ciphertextHex c, val_prevValueSigHashHex c, val_writerUserId c, val_chainHeadHashHex c]"

interpretation value_statement:
  signed_statement val_suite "\<lambda>_. ''value-sig''" value_fields value_texts "\<lambda>c. c"
proof unfold_locales
  show "plain_name ''value-sig''" by (simp add: plain_name_def)
qed (auto simp: value_texts_def value_fields_def)

section \<open>What acceptance means\<close>

lemma valueHeadStateReason_None:
  "valueHeadStateReason i = None \<longleftrightarrow>
     authorized_at_head (din_history i) (val_chainHeadSeq (din_context i)) (val_chainHeadHashHex (din_context i))
       (val_writerUserId (din_context i)) (din_writerKeyFingerprintHex i) Member
       (Some (val_environmentId (din_context i))) \<and>
     (\<exists>env. environmentStateAt (din_history i) (val_environmentId (din_context i))
         (val_chainHeadSeq (din_context i)) = Some env \<and> at_currentEpoch env = val_epoch (din_context i))"
  by (auto simp: valueHeadStateReason_def Let_def head_authorization_ranks split: option.splits)

lemma verifyDistributedValue_Accepted:
  "verifyDistributedValue api keys i = Accepted hash \<longleftrightarrow>
     valueContextInvalidField (din_context i) = None \<and>
     distributedInputInvalidField (din_writerKeyFingerprintHex i) ''writerKeyFingerprintHex''
       (din_signatureHex i) (map_option vpred_signedBytesHashHex (din_predecessor i)) = None \<and>
     (\<exists>key message. importActorKeyByFingerprint keys (din_history i) (val_writerUserId (din_context i))
          (din_writerKeyFingerprintHex i) (Value_Invalid Writer_Unknown) = Accepted key \<and>
        buildValueSignedBytes (din_context i) = Some message \<and>
        verifyEd25519Over api message (din_signatureHex i) key (Value_Invalid Value_Signature_Invalid) = Accepted () \<and>
        hash = encode_hex (api_sha256 api message)) \<and>
     valueHeadStateReason i = None \<and> valuePrevReason i = None"
  by (auto simp: verifyDistributedValue_def verifyValueSignature_def computeValueSignedBytesHash_def
      split: option.splits)

end
