(* ===== verification/Meta_Statement.thy ===== *)
theory Meta_Statement
  imports Signatures Domain_Strings
begin

text \<open>
  Metadata statements (\<open>meta-sign.ts\<close>, \<open>meta-verify.ts\<close>): the selection of a layout, the structure
  check, the canonical signed bytes of each layout, signing, and the verification of a distributed
  statement against the history index. The closed string unions (status, type, required) are strings
  here, because the code checks them at run time; a \<open>maxAgeDays\<close> that is not a string is \<^const>\<open>None\<close>.
\<close>

section \<open>Fields\<close>

definition META_VAR_TYPES :: "ustr list" where
  "META_VAR_TYPES = [[], lit ''string'', lit ''number'', lit ''boolean'', lit ''url'']"

record meta_variable_schema =
  sch_varType :: ustr
  sch_required :: ustr
  sch_description :: ustr
  sch_maxAgeDays :: "ustr option"

definition MAX_META_MAX_AGE_DAYS :: nat where "MAX_META_MAX_AGE_DAYS = 3650"

definition is_decimal_digit :: "16 word \<Rightarrow> bool" where
  "is_decimal_digit u \<longleftrightarrow> 48 \<le> unat u \<and> unat u \<le> 57"

text \<open>The regular expression \<open>/^(?:[1-9][0-9]{0,3})?$/\<close>.\<close>

definition MAX_AGE_DAYS_FORM :: "ustr \<Rightarrow> bool" where
  "MAX_AGE_DAYS_FORM s = (case s of
     [] \<Rightarrow> True
   | d # ds \<Rightarrow> is_decimal_digit d \<and> unat d \<noteq> 48 \<and> list_all is_decimal_digit ds \<and> length ds \<le> 3)"

definition isMetaMaxAgeDays :: "ustr \<Rightarrow> bool" where
  "isMetaMaxAgeDays s \<longleftrightarrow> MAX_AGE_DAYS_FORM s \<and> (s = [] \<or> decimal_value s \<le> MAX_META_MAX_AGE_DAYS)"

definition SUPPORTED_META_LAYOUT_VERSIONS :: "int list" where
  "SUPPORTED_META_LAYOUT_VERSIONS = [1, 3]"

definition metaLayoutVersionOf :: "int option \<Rightarrow> int" where
  "metaLayoutVersionOf layoutVersion = (case layoutVersion of None \<Rightarrow> 1 | Some v \<Rightarrow> v)"

datatype meta_statement_target = Target_Variable ustr | Target_Environment

record meta_statement_context =
  met_suite :: ustr
  met_projectId :: ustr
  met_environmentId :: environment_id
  met_target :: meta_statement_target
  met_name :: ustr
  met_status :: ustr
  met_layoutVersion :: "int option"
  met_schema :: "meta_variable_schema option"
  met_metaVersion :: int
  met_prevMetaSigHashHex :: ustr
  met_authorUserId :: user_id
  met_chainHeadHashHex :: ustr
  met_chainHeadSeq :: int

definition metaNumericFieldInvalid :: "meta_statement_context \<Rightarrow> string option" where
  "metaNumericFieldInvalid c = first_invalid
     [(counter_invalid (met_metaVersion c), ''context metaVersion''),
      (counter_invalid (met_chainHeadSeq c), ''context chainHeadSeq'')]"

definition metaHexFieldInvalid :: "meta_statement_context \<Rightarrow> string option" where
  "metaHexFieldInvalid c = first_invalid
     [(met_prevMetaSigHashHex c \<noteq> [] \<and> \<not> isLowercaseHexOfLength (met_prevMetaSigHashHex c) SHA256_HEX_LENGTH,
       ''context prevMetaSigHashHex''),
      (\<not> isLowercaseHexOfLength (met_chainHeadHashHex c) SHA256_HEX_LENGTH, ''context chainHeadHashHex'')]"

definition coordinateFieldInvalid :: "meta_statement_context \<Rightarrow> string option" where
  "coordinateFieldInvalid c = first_invalid
     [(met_suite c = [], ''context suite''),
      (met_projectId c = [], ''context projectId''),
      (met_environmentId c = [], ''context environmentId'')]"

section \<open>Layouts\<close>

datatype meta_layout = Layout_1 | Layout_3 ustr meta_variable_schema

definition layoutV1Of :: "meta_statement_context \<Rightarrow> meta_layout crypto_result" where
  "layoutV1Of c = (if met_schema c = None then Accepted Layout_1 else Rejected (Invalid_Input ''context schema''))"

definition layoutV3Of :: "meta_statement_context \<Rightarrow> meta_layout crypto_result" where
  "layoutV3Of c = (case met_target c of
     Target_Environment \<Rightarrow> Rejected (Invalid_Input ''context layoutVersion'')
   | Target_Variable variableId \<Rightarrow>
       (case met_schema c of
          None \<Rightarrow> Rejected (Invalid_Input ''context schema'')
        | Some schema \<Rightarrow> Accepted (Layout_3 variableId schema)))"

definition selectMetaLayout :: "meta_statement_context \<Rightarrow> meta_layout crypto_result" where
  "selectMetaLayout c =
     (if (case met_layoutVersion c of None \<Rightarrow> False | Some v \<Rightarrow> counter_invalid v)
      then Rejected (Invalid_Input ''context layoutVersion'')
      else let version = metaLayoutVersionOf (met_layoutVersion c) in
        if version \<in> set SUPPORTED_META_LAYOUT_VERSIONS \<and> version = 1 then layoutV1Of c
        else if version \<in> set SUPPORTED_META_LAYOUT_VERSIONS \<and> version = 3 then layoutV3Of c
        else Rejected (Unsupported_Meta_Layout version))"

definition layoutV1FieldInvalid :: "meta_statement_context \<Rightarrow> string option" where
  "layoutV1FieldInvalid c =
     (let statuses = (if met_target c = Target_Environment then [lit ''active''] else [lit ''active'', lit ''deleted''])
      in reject_when (met_status c \<notin> set statuses) ''context status'')"

definition layoutV3FieldInvalid :: "meta_statement_context \<Rightarrow> meta_variable_schema \<Rightarrow> string option" where
  "layoutV3FieldInvalid c schema = first_invalid
     [(sch_varType schema \<notin> set META_VAR_TYPES, ''context varType''),
      (sch_required schema \<noteq> lit ''true'' \<and> sch_required schema \<noteq> lit ''false'', ''context required''),
      (case sch_maxAgeDays schema of None \<Rightarrow> True | Some s \<Rightarrow> \<not> isMetaMaxAgeDays s, ''context maxAgeDays''),
      (met_status c \<notin> set [lit ''active'', lit ''deleted'', lit ''declared''], ''context status'')]"

definition metaContextInvalidField :: "meta_statement_context \<Rightarrow> meta_layout \<Rightarrow> string option" where
  "metaContextInvalidField c layout =
     first_reason (coordinateFieldInvalid c)
    (first_reason (first_invalid
       [(met_target c = Target_Variable [], ''context variableId''),
        (met_name c = [], ''context name'')])
    (first_reason (case layout of
        Layout_1 \<Rightarrow> layoutV1FieldInvalid c
      | Layout_3 _ schema \<Rightarrow> layoutV3FieldInvalid c schema)
    (first_reason (reject_when (met_authorUserId c = []) ''context authorUserId'')
    (first_reason (metaNumericFieldInvalid c) (metaHexFieldInvalid c)))))"

definition checkedMetaLayout :: "meta_statement_context \<Rightarrow> meta_layout crypto_result" where
  "checkedMetaLayout c =
     then_call (selectMetaLayout c) (\<lambda>layout. require_valid (metaContextInvalidField c layout) (Accepted layout))"

definition metaContextRejection :: "meta_statement_context \<Rightarrow> crypto_error option" where
  "metaContextRejection c = (case checkedMetaLayout c of Rejected e \<Rightarrow> Some e | _ \<Rightarrow> None)"

section \<open>Signed bytes\<close>

fun meta_name :: "meta_statement_context \<Rightarrow> meta_layout \<Rightarrow> string" where
  "meta_name c (Layout_3 _ _) = ''var-meta-sig-v3''"
| "meta_name c Layout_1 =
     (case met_target c of Target_Variable _ \<Rightarrow> ''var-meta-sig'' | Target_Environment \<Rightarrow> ''env-meta-sig'')"

definition meta_tail :: "meta_statement_context \<Rightarrow> lp_field list" where
  "meta_tail c =
     [LpNum (met_metaVersion c), LpStr (met_prevMetaSigHashHex c), LpStr (met_authorUserId c),
      LpStr (met_chainHeadHashHex c), LpNum (met_chainHeadSeq c)]"

fun meta_fields :: "meta_statement_context \<Rightarrow> meta_layout \<Rightarrow> lp_field list" where
  "meta_fields c (Layout_3 variableId schema) =
     [LpStr (met_projectId c), LpStr (met_environmentId c), LpStr variableId, LpStr (met_name c),
      LpStr (met_status c), LpStr (sch_varType schema), LpStr (sch_required schema),
      LpStr (sch_description schema),
      LpStr (case sch_maxAgeDays schema of None \<Rightarrow> [] | Some s \<Rightarrow> s)] @ meta_tail c"
| "meta_fields c Layout_1 =
     [LpStr (met_projectId c), LpStr (met_environmentId c)] @
     (case met_target c of Target_Variable variableId \<Rightarrow> [LpStr variableId] | Target_Environment \<Rightarrow> []) @
     [LpStr (met_name c), LpStr (met_status c)] @ meta_tail c"

definition encodeMetaSignedBytes :: "meta_statement_context \<Rightarrow> meta_layout \<Rightarrow> bytes option" where
  "encodeMetaSignedBytes c layout = statement_bytes (met_suite c) (meta_name c layout) (meta_fields c layout)"

definition buildMetaSignedBytes :: "meta_statement_context \<Rightarrow> bytes crypto_result" where
  "buildMetaSignedBytes c =
     then_call (selectMetaLayout c) (\<lambda>layout. with_bytes (encodeMetaSignedBytes c layout) Accepted)"

definition computeMetaSignedBytesHash :: "(bytes \<Rightarrow> bytes) \<Rightarrow> meta_statement_context \<Rightarrow> ustr crypto_result" where
  "computeMetaSignedBytesHash sha256 c =
     then_call (checkedMetaLayout c)
       (\<lambda>layout. with_bytes (encodeMetaSignedBytes c layout) (\<lambda>b. Accepted (encode_hex (sha256 b))))"

definition signMetaStatement :: "signing_api \<Rightarrow> meta_statement_context \<Rightarrow> bytes \<Rightarrow> ustr crypto_result" where
  "signMetaStatement keys c signingKey =
     then_call (checkedMetaLayout c)
       (\<lambda>layout. require_valid (first_invalid
            [((met_metaVersion c = 1) \<noteq> (met_prevMetaSigHashHex c = []), ''context prevMetaSigHashHex''),
             (met_metaVersion c = 1 \<and> met_status c = lit ''deleted'', ''context status'')])
          (case encodeMetaSignedBytes c layout of
             None \<Rightarrow> Rejected Sign_Failed
           | Some b \<Rightarrow> sign_bytes keys signingKey b))"

definition verifyMetaStatementSignature ::
  "crypto_api \<Rightarrow> meta_statement_context \<Rightarrow> ustr \<Rightarrow> bytes \<Rightarrow> unit crypto_result" where
  "verifyMetaStatementSignature api c signatureHex authorPublicKey =
     then_call (checkedMetaLayout c)
       (\<lambda>layout. with_bytes (encodeMetaSignedBytes c layout)
          (\<lambda>b. verifyEd25519Over api b signatureHex authorPublicKey (Meta_Statement_Invalid Meta_Signature_Invalid)))"

section \<open>Verification of a distributed statement\<close>

record meta_predecessor =
  mpred_signedBytesHashHex :: ustr
  mpred_status :: ustr
  mpred_layoutVersion :: int

record distributed_meta_input =
  dmi_history :: chain_history_builder
  dmi_context :: meta_statement_context
  dmi_authorKeyFingerprintHex :: fingerprint
  dmi_signatureHex :: ustr
  dmi_predecessor :: "meta_predecessor option"

definition META_HEAD_REASONS :: "meta_invalid_reason head_authorization_reasons" where
  "META_HEAD_REASONS =
     \<lparr>chainHeadFuture = Meta_Head_Future, chainHeadMismatch = Meta_Head_Mismatch,
      notMemberAtHead = Author_Not_Member_At_Head, keyMismatchAtHead = Author_Key_Mismatch_At_Head,
      roleInsufficientAtHead = Author_Role_Insufficient_At_Head\<rparr>"

definition metaHeadStateReason :: "distributed_meta_input \<Rightarrow> meta_invalid_reason option" where
  "metaHeadStateReason i =
     (let c = dmi_context i in
      headAuthorizationReason (dmi_history i) (met_chainHeadSeq c) (met_chainHeadHashHex c)
        (met_authorUserId c) (dmi_authorKeyFingerprintHex i) (ROLE_RANK Member) META_HEAD_REASONS
        (Some \<lparr>check_environmentId = met_environmentId c, outOfScopeAtHead = Author_Out_Of_Scope_At_Head\<rparr>))"

definition metaPrevReason :: "distributed_meta_input \<Rightarrow> meta_invalid_reason option" where
  "metaPrevReason i =
     (let c = dmi_context i in
      if (met_metaVersion c = 1) \<noteq> (met_prevMetaSigHashHex c = []) then Some Meta_Prev_Shape_Mismatch
      else case dmi_predecessor i of
        None \<Rightarrow> None
      | Some p \<Rightarrow>
          if met_prevMetaSigHashHex c \<noteq> mpred_signedBytesHashHex p then Some Meta_Prev_Hash_Mismatch
          else if mpred_status p = lit ''deleted'' then Some Revived_After_Delete
          else if mpred_status p = lit ''active'' \<and> met_status c = lit ''declared'' then Some Declared_After_Active
          else if metaLayoutVersionOf (met_layoutVersion c) < mpred_layoutVersion p then Some Layout_Regression
          else None)"

definition verifyDistributedMetaStatement ::
  "crypto_api \<Rightarrow> signing_api \<Rightarrow> distributed_meta_input \<Rightarrow> ustr crypto_result" where
  "verifyDistributedMetaStatement api keys i =
     (case metaContextRejection (dmi_context i) of
        Some e \<Rightarrow> Rejected e
      | None \<Rightarrow>
          require_valid
            (distributedInputInvalidField (dmi_authorKeyFingerprintHex i) ''authorKeyFingerprintHex''
               (dmi_signatureHex i) (map_option mpred_signedBytesHashHex (dmi_predecessor i)))
            (then_call
               (importActorKeyByFingerprint keys (dmi_history i) (met_authorUserId (dmi_context i))
                  (dmi_authorKeyFingerprintHex i) (Meta_Statement_Invalid Author_Unknown))
               (\<lambda>key. then_call (verifyMetaStatementSignature api (dmi_context i) (dmi_signatureHex i) key)
                  (\<lambda>_. case metaHeadStateReason i of
                         Some r \<Rightarrow> Rejected (Meta_Statement_Invalid r)
                       | None \<Rightarrow>
                           (case metaPrevReason i of
                              Some r \<Rightarrow> Rejected (Meta_Statement_Invalid r)
                            | None \<Rightarrow> computeMetaSignedBytesHash (api_sha256 api) (dmi_context i))))))"

end
