(* ===== verification/Meta_Statement_Facts.thy ===== *)
theory Meta_Statement_Facts
  imports Meta_Statement
begin

text \<open>
  What a metadata statement's bytes bind, which ages are declarable, and what the verification of a
  distributed statement accepts.
\<close>

section \<open>Declarable ages\<close>

lemma digits_decimal: "list_all is_decimal_digit (decimal n)"
proof (induction n rule: decimal.induct)
  case (1 n)
  have "is_decimal_digit (word_of_nat (48 + n mod 10))" by (simp add: is_decimal_digit_def unat_digit del: of_nat_add)
  moreover have "n < 10 \<Longrightarrow> n mod 10 = n" by simp
  ultimately show ?case using 1 by (subst decimal.simps) auto
qed

lemma hd_decimal: "0 < n \<Longrightarrow> unat (hd (decimal n)) \<noteq> 48 \<and> decimal n \<noteq> []"
proof (induction n rule: decimal.induct)
  case (1 n)
  show ?case
  proof (cases "n < 10")
    case True
    with 1 show ?thesis using unat_digit [of n] by (subst (1 2) decimal.simps) simp
  next
    case False
    then have "0 < n div 10" by simp
    with 1 False show ?thesis by (subst (1 2) decimal.simps) simp
  qed
qed

lemma decimal_of_value:
  assumes "list_all is_decimal_digit s" and "s \<noteq> []" and "unat (hd s) \<noteq> 48"
  shows "decimal (decimal_value s) = s \<and> 0 < decimal_value s"
  using assms
proof (induction s rule: rev_induct)
  case (snoc d s)
  then have d: "unat d - 48 < 10" "word_of_nat (48 + (unat d - 48)) = d" by (auto simp: is_decimal_digit_def)
  have v: "decimal_value (s @ [d]) = 10 * decimal_value s + (unat d - 48)" by (simp add: decimal_value_def)
  show ?case
  proof (cases "s = []")
    case True
    with snoc.prems d show ?thesis
      by (subst decimal.simps) (auto simp: decimal_value_def is_decimal_digit_def)
  next
    case False
    with snoc have IH: "decimal (decimal_value s) = s" "0 < decimal_value s" by simp_all
    from v IH(2) d(1) have "\<not> decimal_value (s @ [d]) < 10" "decimal_value (s @ [d]) div 10 = decimal_value s"
      "decimal_value (s @ [d]) mod 10 = unat d - 48" by simp_all
    with IH d show ?thesis by (subst decimal.simps) simp
  qed
qed simp

lemma declarable_ages:
  "isMetaMaxAgeDays s \<longleftrightarrow> s = [] \<or> (\<exists>n. 1 \<le> n \<and> n \<le> 3650 \<and> s = decimal n)"
proof
  assume s: "isMetaMaxAgeDays s"
  show "s = [] \<or> (\<exists>n. 1 \<le> n \<and> n \<le> 3650 \<and> s = decimal n)"
  proof (cases s)
    case (Cons d ds)
    with s have "decimal (decimal_value s) = s \<and> 0 < decimal_value s"
      by (intro decimal_of_value) (auto simp: isMetaMaxAgeDays_def MAX_AGE_DAYS_FORM_def)
    moreover from s Cons have "decimal_value s \<le> 3650"
      by (simp add: isMetaMaxAgeDays_def MAX_META_MAX_AGE_DAYS_def)
    ultimately show ?thesis by (intro disjI2 exI [of _ "decimal_value s"]) simp
  qed simp
next
  assume "s = [] \<or> (\<exists>n. 1 \<le> n \<and> n \<le> 3650 \<and> s = decimal n)"
  then show "isMetaMaxAgeDays s"
  proof
    assume "\<exists>n. 1 \<le> n \<and> n \<le> 3650 \<and> s = decimal n"
    then obtain n where n: "1 \<le> n" "n \<le> 3650" "s = decimal n" by blast
    then have "length s \<le> Suc 3" using length_decimal_digits [of n 3] by simp
    moreover have "list_all is_decimal_digit s" using n(3) digits_decimal by simp
    moreover have "unat (hd s) \<noteq> 48" "s \<noteq> []" using hd_decimal [of n] n by simp_all
    moreover have "decimal_value s = n" using n(3) by (simp add: decimal_value_decimal)
    ultimately show ?thesis
      using n(2) by (cases s) (simp_all add: isMetaMaxAgeDays_def MAX_AGE_DAYS_FORM_def
          MAX_META_MAX_AGE_DAYS_def)
  qed (simp add: isMetaMaxAgeDays_def MAX_AGE_DAYS_FORM_def)
qed

section \<open>What the bytes bind\<close>

definition meta_texts :: "meta_statement_context \<Rightarrow> meta_layout \<Rightarrow> ustr list" where
  "meta_texts c layout =
     [met_suite c, met_projectId c, met_environmentId c, met_name c, met_status c, met_prevMetaSigHashHex c,
      met_authorUserId c, met_chainHeadHashHex c] @
     (case met_target c of Target_Variable v \<Rightarrow> [v] | Target_Environment \<Rightarrow> []) @
     (case layout of
        Layout_1 \<Rightarrow> []
      | Layout_3 v s \<Rightarrow>
          [v, sch_varType s, sch_required s, sch_description s, case sch_maxAgeDays s of None \<Rightarrow> [] | Some a \<Rightarrow> a])"

interpretation meta_statement:
  signed_statement "\<lambda>(c, l). met_suite c" "\<lambda>(c, l). meta_name c l" "\<lambda>(c, l). meta_fields c l"
    "\<lambda>(c, l). meta_texts c l" "\<lambda>(c, l). (met_suite c, meta_name c l, meta_fields c l)"
proof unfold_locales
  fix x x' :: "meta_statement_context \<times> meta_layout"
  obtain c l c' l' where x: "x = (c, l)" "x' = (c', l')" by (cases x, cases x') blast
  show "plain_name (case x of (c, l) \<Rightarrow> meta_name c l)"
    unfolding x by (cases l) (simp_all add: plain_name_def split: meta_statement_target.split)
  show "(case x of (c, l) \<Rightarrow> met_suite c) \<in> set (case x of (c, l) \<Rightarrow> meta_texts c l)"
    by (simp add: x meta_texts_def)
  assume "(case x of (c, l) \<Rightarrow> meta_name c l) = (case x' of (c, l) \<Rightarrow> meta_name c l)"
    and "list_all well_formed (case x of (c, l) \<Rightarrow> meta_texts c l)"
    and "list_all well_formed (case x' of (c, l) \<Rightarrow> meta_texts c l)"
  then show "list_all2 same_kind (case x of (c, l) \<Rightarrow> meta_fields c l) (case x' of (c, l) \<Rightarrow> meta_fields c l)"
    unfolding x by (cases l; cases l'; cases "met_target c"; cases "met_target c'")
      (simp_all add: meta_texts_def meta_tail_def)
qed auto

lemma checkedMetaLayout_Accepted:
  "checkedMetaLayout c = Accepted l \<longleftrightarrow> selectMetaLayout c = Accepted l \<and> metaContextInvalidField c l = None"
  by (auto simp: checkedMetaLayout_def)

lemma selectMetaLayout_Accepted:
  "selectMetaLayout c = Accepted l \<Longrightarrow>
     (l = Layout_1 \<and> metaLayoutVersionOf (met_layoutVersion c) = 1 \<and> met_schema c = None) \<or>
     (\<exists>v s. l = Layout_3 v s \<and> metaLayoutVersionOf (met_layoutVersion c) = 3 \<and> met_target c = Target_Variable v \<and>
        met_schema c = Some s)"
  by (auto simp: selectMetaLayout_def layoutV1Of_def layoutV3Of_def Let_def
      split: if_splits option.splits meta_statement_target.splits)

text \<open>Two valid statements with the same bytes differ at most in whether layout 1 is written out.\<close>

lemma meta_bytes_determine:
  assumes c: "checkedMetaLayout c = Accepted l" and c': "checkedMetaLayout c' = Accepted l'"
    and b: "encodeMetaSignedBytes c l = Some b" and b': "encodeMetaSignedBytes c' l' = Some b"
    and "list_all well_formed (meta_texts c l)" and "list_all well_formed (meta_texts c' l')"
  shows "c\<lparr>met_layoutVersion := None\<rparr> = c'\<lparr>met_layoutVersion := None\<rparr> \<and>
    metaLayoutVersionOf (met_layoutVersion c) = metaLayoutVersionOf (met_layoutVersion c')"
proof -
  have same: "met_suite c = met_suite c'" "meta_name c l = meta_name c' l'" "meta_fields c l = meta_fields c' l'"
    using meta_statement.bytes_determine [of "(c, l)" b "(c', l')"] assms(3-6) by (simp_all add: encodeMetaSignedBytes_def)
  have age: "sch_maxAgeDays s \<noteq> None" if "metaContextInvalidField x (Layout_3 v s) = None" for x v s
    using that by (auto simp: metaContextInvalidField_def layoutV3FieldInvalid_def split: if_splits option.splits)
  show ?thesis
  proof (cases l)
    case Layout_1
    with same(2) have l': "l' = Layout_1" by (cases l') (auto split: meta_statement_target.splits)
    have shape: "met_schema c = None" "met_schema c' = None" "metaLayoutVersionOf (met_layoutVersion c) = 1"
      "metaLayoutVersionOf (met_layoutVersion c') = 1"
      using c c' selectMetaLayout_Accepted [of c l] selectMetaLayout_Accepted [of c' l'] Layout_1 l'
      by (auto simp: checkedMetaLayout_Accepted)
    have "met_target c = met_target c'" using same(2,3) Layout_1 l' by (auto split: meta_statement_target.splits)
    with same Layout_1 l' shape show ?thesis
      by (cases c; cases c') (auto simp: meta_tail_def split: meta_statement_target.splits)
  next
    case (Layout_3 v s)
    with same(2) obtain v' s' where l': "l' = Layout_3 v' s'" by (cases l') (auto split: meta_statement_target.splits)
    have shape: "met_schema c = Some s" "met_schema c' = Some s'" "metaLayoutVersionOf (met_layoutVersion c) = 3"
      "metaLayoutVersionOf (met_layoutVersion c') = 3" "met_target c = Target_Variable v" "met_target c' = Target_Variable v'"
      using c c' selectMetaLayout_Accepted [of c l] selectMetaLayout_Accepted [of c' l'] Layout_3 l'
      by (auto simp: checkedMetaLayout_Accepted)
    have "sch_maxAgeDays s \<noteq> None" "sch_maxAgeDays s' \<noteq> None"
      using c c' age Layout_3 l' by (auto simp: checkedMetaLayout_Accepted)
    with same(3) Layout_3 l' have "s = s'" by (cases s; cases s') (auto simp: meta_tail_def)
    with same Layout_3 l' shape show ?thesis
      by (cases c; cases c') (auto simp: meta_tail_def)
  qed
qed

section \<open>What acceptance means\<close>

lemma checkedMetaLayout_not_Threw: "checkedMetaLayout c \<noteq> Threw"
  by (auto simp: checkedMetaLayout_def selectMetaLayout_def layoutV1Of_def layoutV3Of_def Let_def
      split: option.splits meta_statement_target.splits)

lemma metaContextRejection_None:
  "metaContextRejection c = None \<longleftrightarrow> (\<exists>l. checkedMetaLayout c = Accepted l)"
  using checkedMetaLayout_not_Threw [of c] by (auto simp: metaContextRejection_def split: outcome.split)

lemma metaHeadStateReason_None:
  "metaHeadStateReason i = None \<longleftrightarrow>
     authorized_at_head (dmi_history i) (met_chainHeadSeq (dmi_context i)) (met_chainHeadHashHex (dmi_context i))
       (met_authorUserId (dmi_context i)) (dmi_authorKeyFingerprintHex i) Member
       (Some (met_environmentId (dmi_context i)))"
  by (simp add: metaHeadStateReason_def Let_def head_authorization_ranks)

lemma verifyDistributedMetaStatement_Accepted:
  "verifyDistributedMetaStatement api keys i = Accepted hash \<longleftrightarrow>
     distributedInputInvalidField (dmi_authorKeyFingerprintHex i) ''authorKeyFingerprintHex''
       (dmi_signatureHex i) (map_option mpred_signedBytesHashHex (dmi_predecessor i)) = None \<and>
     (\<exists>key layout message. importActorKeyByFingerprint keys (dmi_history i) (met_authorUserId (dmi_context i))
          (dmi_authorKeyFingerprintHex i) (Meta_Statement_Invalid Author_Unknown) = Accepted key \<and>
        checkedMetaLayout (dmi_context i) = Accepted layout \<and>
        encodeMetaSignedBytes (dmi_context i) layout = Some message \<and>
        verifyEd25519Over api message (dmi_signatureHex i) key (Meta_Statement_Invalid Meta_Signature_Invalid) = Accepted () \<and>
        hash = encode_hex (api_sha256 api message)) \<and>
     metaHeadStateReason i = None \<and> metaPrevReason i = None"
  (is "?L \<longleftrightarrow> ?R")
proof -
  consider (valid) l where "checkedMetaLayout (dmi_context i) = Accepted l"
    | (invalid) e where "checkedMetaLayout (dmi_context i) = Rejected e"
    using checkedMetaLayout_not_Threw [of "dmi_context i"] by (cases "checkedMetaLayout (dmi_context i)") auto
  then show ?thesis
    by cases (auto simp: verifyDistributedMetaStatement_def metaContextRejection_def verifyMetaStatementSignature_def
        computeMetaSignedBytesHash_def split: option.splits)
qed

end
