(* ===== verification/Sorted_Digest.thy ===== *)
theory Sorted_Digest
  imports Signatures Domain_Strings "HOL-Library.Multiset"
begin

text \<open>
  The digest of a set of variables (\<open>sorted-digest.ts\<close>): entries are checked, duplicates refused, and
  the rest is ordered by the UTF-8 bytes of the variable id inside the function, so the digest does
  not depend on the order the caller lists them in. The checkpoint's values digest with its selection
  rule (\<open>values-digest.ts\<close>) is one use, the manifest's variables digest the other. \<open>toSorted\<close> is a
  stable sort.
\<close>

section \<open>The order\<close>

fun byte_delta :: "bytes \<Rightarrow> bytes \<Rightarrow> int" where
  "byte_delta (a # as) (b # bs) = (if uint a \<noteq> uint b then uint a - uint b else byte_delta as bs)"
| "byte_delta as bs = int (length as) - int (length bs)"

definition compareUtf8Bytes :: "ustr \<Rightarrow> ustr \<Rightarrow> int" where
  "compareUtf8Bytes a b = byte_delta (utf8_encode a) (utf8_encode b)"

fun insert_by :: "('a \<Rightarrow> 'a \<Rightarrow> int) \<Rightarrow> 'a \<Rightarrow> 'a list \<Rightarrow> 'a list" where
  "insert_by cmp x [] = [x]"
| "insert_by cmp x (y # ys) = (if cmp x y \<le> 0 then x # y # ys else y # insert_by cmp x ys)"

definition toSorted :: "('a \<Rightarrow> 'a \<Rightarrow> int) \<Rightarrow> 'a list \<Rightarrow> 'a list" where
  "toSorted cmp xs = foldr (insert_by cmp) xs []"

lemma byte_delta_zero: "byte_delta x y = 0 \<longleftrightarrow> x = y"
  by (induction x y rule: byte_delta.induct) (auto simp: word_uint_eq_iff)

lemma byte_delta_flip: "byte_delta y x = - byte_delta x y"
  by (induction x y rule: byte_delta.induct) auto

lemma byte_delta_trans: "byte_delta x y \<le> 0 \<Longrightarrow> byte_delta y z \<le> 0 \<Longrightarrow> byte_delta x z \<le> 0"
proof (induction x y arbitrary: z rule: byte_delta.induct [case_names Both Left Right])
  case (Both a as b bs)
  then show ?case by (cases z) (auto split: if_splits)
next
  case (Left bs)
  then show ?case by (cases z) auto
next
  case (Right as)
  then show ?case by auto
qed

lemma compare_zero: "well_formed a \<Longrightarrow> well_formed b \<Longrightarrow> compareUtf8Bytes a b = 0 \<Longrightarrow> a = b"
  by (auto simp: compareUtf8Bytes_def byte_delta_zero intro: utf8_encode_inj)

lemma mset_insert_by [simp]: "mset (insert_by cmp x ys) = add_mset x (mset ys)"
  by (induction ys) auto

lemma mset_toSorted [simp]: "mset (toSorted cmp xs) = mset xs"
  by (induction xs) (simp_all add: toSorted_def)

lemma set_toSorted [simp]: "set (toSorted cmp xs) = set xs"
  by (metis mset_toSorted set_mset_mset)

lemma sorted_insert_by:
  assumes "\<And>a b. cmp b a = - cmp a b" and "\<And>a b c. cmp a b \<le> 0 \<Longrightarrow> cmp b c \<le> 0 \<Longrightarrow> cmp a c \<le> (0 :: int)"
    and "sorted_wrt (\<lambda>a b. cmp a b \<le> 0) ys"
  shows "sorted_wrt (\<lambda>a b. cmp a b \<le> 0) (insert_by cmp x ys)"
  using assms(3)
proof (induction ys)
  case (Cons y ys)
  have "set (insert_by cmp x ys) = insert x (set ys)"
    by (metis mset_insert_by set_mset_add_mset_insert set_mset_mset)
  moreover have "\<not> cmp x y \<le> 0 \<Longrightarrow> cmp y x \<le> 0" using assms(1) [of y x] by simp
  ultimately show ?case using Cons assms(2) by auto
qed simp

lemma compare_flip: "compareUtf8Bytes b a = - compareUtf8Bytes a b"
  unfolding compareUtf8Bytes_def by (rule byte_delta_flip)

lemma compare_trans:
  "compareUtf8Bytes a b \<le> 0 \<Longrightarrow> compareUtf8Bytes b c \<le> 0 \<Longrightarrow> compareUtf8Bytes a c \<le> 0"
  unfolding compareUtf8Bytes_def by (rule byte_delta_trans)

lemma sorted_toSorted:
  "sorted_wrt (\<lambda>a b. compareUtf8Bytes (f a) (f b) \<le> 0) (toSorted (\<lambda>a b. compareUtf8Bytes (f a) (f b)) xs)"
proof (induction xs)
  case (Cons x xs)
  have "sorted_wrt (\<lambda>a b. compareUtf8Bytes (f a) (f b) \<le> 0)
      (insert_by (\<lambda>a b. compareUtf8Bytes (f a) (f b)) x (toSorted (\<lambda>a b. compareUtf8Bytes (f a) (f b)) xs))"
    by (rule sorted_insert_by [OF compare_flip compare_trans Cons])
  then show ?case by (simp add: toSorted_def)
qed (simp add: toSorted_def)

lemma sorted_distinct_strict:
  assumes "sorted_wrt P xs" and "distinct xs"
  shows "sorted_wrt (\<lambda>a b. a \<in> set xs \<and> b \<in> set xs \<and> a \<noteq> b \<and> P a b) xs"
  using assms by (auto simp: sorted_wrt_iff_nth_less nth_eq_iff_index_eq)

lemma strictly_sorted_unique:
  assumes "\<And>a b. R a b \<Longrightarrow> \<not> R b a" and "sorted_wrt R xs" and "sorted_wrt R ys" and "mset xs = mset ys"
  shows "xs = ys"
  using assms(2-4)
proof (induction xs arbitrary: ys)
  case (Cons x xs)
  then obtain y ys' where ys: "ys = y # ys'" by (cases ys) auto
  have "x = y"
  proof (rule ccontr)
    assume "x \<noteq> y"
    with Cons.prems(3) ys have "x \<in> set ys'" and "y \<in> set xs"
      by (metis list.set_intros(1) set_ConsD set_mset_mset)+
    with Cons.prems(1,2) ys have "R y x" and "R x y" by auto
    with assms(1) show False by blast
  qed
  with Cons ys show ?case by simp
qed simp

section \<open>The digest\<close>

record 'e digest_spec =
  spec_suite :: ustr
  spec_domain :: string
  spec_variableIdOf :: "'e \<Rightarrow> ustr"
  spec_entryInvalidField :: "'e \<Rightarrow> string option"
  spec_entryFields :: "'e \<Rightarrow> lp_field list"

fun check_digest_entries :: "'e digest_spec \<Rightarrow> ustr set \<Rightarrow> 'e list \<Rightarrow> string option" where
  "check_digest_entries spec seen [] = None"
| "check_digest_entries spec seen (entry # entries) =
     (case spec_entryInvalidField spec entry of
        Some f \<Rightarrow> Some f
      | None \<Rightarrow>
          if spec_variableIdOf spec entry \<in> seen then Some ''entry variableId (duplicate)''
          else check_digest_entries spec (insert (spec_variableIdOf spec entry) seen) entries)"

definition ordered_entries :: "'e digest_spec \<Rightarrow> 'e list \<Rightarrow> 'e list" where
  "ordered_entries spec entries =
     toSorted (\<lambda>a b. compareUtf8Bytes (spec_variableIdOf spec a) (spec_variableIdOf spec b)) entries"

definition digest_bytes :: "'e digest_spec \<Rightarrow> 'e list \<Rightarrow> bytes option" where
  "digest_bytes spec entries =
     Option.bind (those (map (\<lambda>e. encode_lp (spec_entryFields spec e)) (ordered_entries spec entries)))
       (\<lambda>es. statement_bytes (spec_suite spec) (spec_domain spec) (map LpBytes es))"

definition computeVariableKeyedDigest :: "(bytes \<Rightarrow> bytes) \<Rightarrow> 'e digest_spec \<Rightarrow> 'e list \<Rightarrow> ustr crypto_result" where
  "computeVariableKeyedDigest sha256 spec entries =
     require_valid (first_reason (reject_when (spec_suite spec = []) ''suite'') (check_digest_entries spec {} entries))
       (with_bytes (digest_bytes spec entries) (\<lambda>b. Accepted (encode_hex (sha256 b))))"

lemma check_digest_entries_None:
  "check_digest_entries spec seen entries = None \<longleftrightarrow>
     (\<forall>e \<in> set entries. spec_entryInvalidField spec e = None) \<and>
     distinct (map (spec_variableIdOf spec) entries) \<and> seen \<inter> spec_variableIdOf spec ` set entries = {}"
  by (induction entries arbitrary: seen) (auto split: option.splits)

text \<open>Both uses supply entries that their fields determine.\<close>

locale keyed_digest =
  fixes name :: string
    and id_of :: "'e \<Rightarrow> ustr"
    and invalid :: "'e \<Rightarrow> string option"
    and fields_of :: "'e \<Rightarrow> lp_field list"
  assumes name_plain: "plain_name name"
    and entry_determined: "invalid e = None \<Longrightarrow> invalid e' = None \<Longrightarrow> well_formed (id_of e) \<Longrightarrow> well_formed (id_of e') \<Longrightarrow>
      encode_lp (fields_of e) = Some b \<Longrightarrow> encode_lp (fields_of e') = Some b \<Longrightarrow> e = e'"
begin

definition spec_for :: "ustr \<Rightarrow> 'e digest_spec" where
  "spec_for suite = \<lparr>spec_suite = suite, spec_domain = name, spec_variableIdOf = id_of,
     spec_entryInvalidField = invalid, spec_entryFields = fields_of\<rparr>"

lemma order_irrelevant:
  assumes "mset entries = mset entries'" and "distinct (map id_of entries)"
    and "\<forall>e \<in> set entries. well_formed (id_of e)"
  shows "ordered_entries (spec_for suite) entries = ordered_entries (spec_for suite) entries'"
proof -
  let ?le = "\<lambda>a b. compareUtf8Bytes (id_of a) (id_of b) \<le> 0"
  let ?R = "\<lambda>a b. a \<in> set entries \<and> b \<in> set entries \<and> a \<noteq> b \<and> ?le a b"
  have set': "set entries' = set entries" using assms(1) by (metis set_mset_mset)
  have inj: "a = b" if "a \<in> set entries" "b \<in> set entries" "id_of a = id_of b" for a b
    using that assms(2) by (auto simp: distinct_map inj_on_def)
  have asym: "\<not> ?R b a" if "?R a b" for a b
  proof
    assume "?R b a"
    with that have "compareUtf8Bytes (id_of a) (id_of b) = 0"
      using byte_delta_flip [of "utf8_encode (id_of b)" "utf8_encode (id_of a)"] by (simp add: compareUtf8Bytes_def)
    with that assms(3) have "id_of a = id_of b" by (auto intro: compare_zero)
    with that inj show False by blast
  qed
  have strict: "sorted_wrt ?R (toSorted (\<lambda>a b. compareUtf8Bytes (id_of a) (id_of b)) es)"
    if "mset es = mset entries" for es
  proof -
    let ?ss = "toSorted (\<lambda>a b. compareUtf8Bytes (id_of a) (id_of b)) es"
    have "set ?ss = set entries" using that by (metis mset_toSorted set_mset_mset)
    moreover have "distinct entries" using assms(2) by (simp add: distinct_map)
    then have "distinct ?ss" using that by (metis mset_eq_imp_distinct_iff mset_toSorted)
    ultimately show ?thesis
      using sorted_distinct_strict [OF sorted_toSorted [of id_of es]] by simp
  qed
  show ?thesis
    unfolding ordered_entries_def spec_for_def digest_spec.simps
    by (rule strictly_sorted_unique [OF asym strict strict]) (simp_all add: assms(1))
qed

lemma digest_order_independent:
  assumes "computeVariableKeyedDigest sha256 (spec_for suite) entries = Accepted d"
    and "mset entries = mset entries'" and "\<forall>e \<in> set entries. well_formed (id_of e)"
  shows "computeVariableKeyedDigest sha256 (spec_for suite) entries' = Accepted d"
proof -
  have checks: "suite \<noteq> []" "\<forall>e \<in> set entries. invalid e = None" "distinct (map id_of entries)"
    using assms(1) by (simp_all add: computeVariableKeyedDigest_def check_digest_entries_None spec_for_def)
  have "set entries' = set entries" using assms(2) by (metis set_mset_mset)
  moreover have "mset (map id_of entries') = mset (map id_of entries)" using assms(2) by simp
  then have "distinct (map id_of entries')" using checks(3) by (metis mset_eq_imp_distinct_iff)
  ultimately have "check_digest_entries (spec_for suite) {} entries' = None"
    using checks by (simp add: check_digest_entries_None spec_for_def)
  moreover have "digest_bytes (spec_for suite) entries' = digest_bytes (spec_for suite) entries"
    using order_irrelevant [OF assms(2) checks(3) assms(3), of suite] by (simp add: digest_bytes_def)
  ultimately show ?thesis using assms(1) checks(1) by (simp add: computeVariableKeyedDigest_def)
qed

lemma digest_determines_entries:
  assumes "computeVariableKeyedDigest sha256 (spec_for suite) entries = Accepted d"
    and "computeVariableKeyedDigest sha256 (spec_for suite) entries' = Accepted d"
    and "\<forall>e \<in> set entries \<union> set entries'. well_formed (id_of e)"
    and "\<And>b b'. digest_bytes (spec_for suite) entries = Some b \<Longrightarrow> digest_bytes (spec_for suite) entries' = Some b' \<Longrightarrow>
      sha256 b = sha256 b' \<Longrightarrow> b = b'"
  shows "mset entries = mset entries'"
proof -
  let ?ordered = "ordered_entries (spec_for suite)"
  let ?enc = "\<lambda>e. encode_lp (fields_of e)"
  have valid: "\<forall>e \<in> set entries \<union> set entries'. invalid e = None"
    using assms(1,2) by (auto simp: computeVariableKeyedDigest_def check_digest_entries_None spec_for_def)
  from assms(1,2) obtain b b' where both: "digest_bytes (spec_for suite) entries = Some b"
    "digest_bytes (spec_for suite) entries' = Some b'" and "sha256 b = sha256 b'"
    by (auto simp: computeVariableKeyedDigest_def)
  from assms(4) [OF this] both have "digest_bytes (spec_for suite) entries = Some b"
    "digest_bytes (spec_for suite) entries' = Some b" by simp_all
  then obtain es es' where es: "map ?enc (?ordered entries) = map Some es"
    and es': "map ?enc (?ordered entries') = map Some es'"
    and bytes: "statement_bytes suite name (map LpBytes es) = Some b" "statement_bytes suite name (map LpBytes es') = Some b"
    by (auto simp: digest_bytes_def spec_for_def those_Some_iff Option.bind_eq_Some_conv)
  have "map lp_body (map LpBytes es) = map lp_body (map LpBytes es')"
    using encode_lp_bodies [OF bytes [unfolded statement_bytes_def]] by simp
  then have "es = es'" by (simp add: map_injective [OF _ inj_Some] comp_def)
  with es es' have "map ?enc (?ordered entries) = map ?enc (?ordered entries')" by simp
  moreover have "inj_on ?enc (set entries \<union> set entries')" if defined: "\<forall>e \<in> set entries \<union> set entries'. ?enc e \<noteq> None"
  proof (rule inj_onI)
    fix e e'
    assume e: "e \<in> set entries \<union> set entries'" and e': "e' \<in> set entries \<union> set entries'" and eq: "?enc e = ?enc e'"
    from defined e obtain x where x: "?enc e = Some x" by blast
    with eq have x': "?enc e' = Some x" by simp
    from valid assms(3) e e' have "invalid e = None" "invalid e' = None" "well_formed (id_of e)" "well_formed (id_of e')"
      by blast+
    then show "e = e'" by (rule entry_determined) (fact x x')+
  qed
  moreover have "?enc e \<noteq> None" if "e \<in> set entries \<union> set entries'" for e
  proof -
    have "e \<in> set (?ordered entries) \<or> e \<in> set (?ordered entries')" using that by (simp add: ordered_entries_def)
    then have "?enc e \<in> set (map ?enc (?ordered entries)) \<union> set (map ?enc (?ordered entries'))" by auto
    then show ?thesis unfolding es es' by auto
  qed
  ultimately have "?ordered entries = ?ordered entries'"
    by (intro map_inj_on [of ?enc]) (simp_all add: ordered_entries_def)
  then show ?thesis by (metis mset_toSorted ordered_entries_def)
qed

end

section \<open>The values digest of a checkpoint\<close>

record env_values_digest_entry =
  vd_variableId :: ustr
  vd_version :: int
  vd_valueSigHashHex :: ustr

definition valuesDigestEntryInvalidField :: "env_values_digest_entry \<Rightarrow> string option" where
  "valuesDigestEntryInvalidField entry = first_invalid
     [(vd_variableId entry = [], ''entry variableId''),
      (counter_invalid (vd_version entry), ''entry version''),
      (\<not> isLowercaseHexOfLength (vd_valueSigHashHex entry) SHA256_HEX_LENGTH, ''entry valueSigHashHex'')]"

text \<open>A variable with its status: only an active one carries a value.\<close>

datatype env_values_digest_source =
    Active_Variable env_values_digest_entry
  | Inactive_Variable (source_variableId: ustr) (source_status: ustr)

fun selected_entry :: "env_values_digest_source \<Rightarrow> env_values_digest_entry option" where
  "selected_entry (Active_Variable entry) =
     Some \<lparr>vd_variableId = vd_variableId entry, vd_version = vd_version entry,
           vd_valueSigHashHex = vd_valueSigHashHex entry\<rparr>"
| "selected_entry (Inactive_Variable _ _) = None"

definition selectEnvValuesDigestEntries :: "env_values_digest_source list \<Rightarrow> env_values_digest_entry list" where
  "selectEnvValuesDigestEntries variables = List.map_filter selected_entry variables"

definition values_entry_fields :: "env_values_digest_entry \<Rightarrow> lp_field list" where
  "values_entry_fields entry =
     [LpStr (vd_variableId entry), LpNum (vd_version entry), LpStr (vd_valueSigHashHex entry)]"

interpretation values_digest:
  keyed_digest "''env-values-digest''" vd_variableId valuesDigestEntryInvalidField values_entry_fields
proof unfold_locales
  fix e e' :: env_values_digest_entry and b
  assume "valuesDigestEntryInvalidField e = None" "valuesDigestEntryInvalidField e' = None"
    "well_formed (vd_variableId e)" "well_formed (vd_variableId e')"
    "encode_lp (values_entry_fields e) = Some b" "encode_lp (values_entry_fields e') = Some b"
  then have "values_entry_fields e = values_entry_fields e'"
    by (elim encode_lp_inj)
      (auto simp: values_entry_fields_def valuesDigestEntryInvalidField_def hex_of_length_wf split: if_splits)
  then show "e = e'" by (simp add: values_entry_fields_def)
qed (simp add: plain_name_def)

definition computeEnvValuesDigest ::
  "(bytes \<Rightarrow> bytes) \<Rightarrow> ustr \<Rightarrow> env_values_digest_entry list \<Rightarrow> ustr crypto_result" where
  "computeEnvValuesDigest sha256 suite entries =
     computeVariableKeyedDigest sha256
       \<lparr>spec_suite = suite, spec_domain = ''env-values-digest'', spec_variableIdOf = vd_variableId,
        spec_entryInvalidField = valuesDigestEntryInvalidField, spec_entryFields = values_entry_fields\<rparr> entries"

lemma computeEnvValuesDigest_spec:
  "computeEnvValuesDigest sha256 suite entries =
     computeVariableKeyedDigest sha256 (values_digest.spec_for suite) entries"
  by (simp add: computeEnvValuesDigest_def values_digest.spec_for_def)

end
