(* ===== verification/Env_Manifest.thy ===== *)
theory Env_Manifest
  imports Sorted_Digest
begin

text \<open>
  The environment manifest (\<open>manifest-sign.ts\<close>, \<open>manifest-verify.ts\<close>): the digest of the variable
  statements, the canonical signed bytes, signing, and the verification of a distributed manifest
  against the history index, with the checkpoints of the chain as its epoch anchor.
\<close>

section \<open>The variables digest\<close>

record variables_digest_entry =
  ve_variableId :: ustr
  ve_status :: ustr
  ve_metaVersion :: int
  ve_metaSigHashHex :: ustr

definition digestEntryInvalidField :: "variables_digest_entry \<Rightarrow> string option" where
  "digestEntryInvalidField entry = first_invalid
     [(ve_variableId entry = [], ''entry variableId''),
      (ve_status entry \<noteq> lit ''active'' \<and> ve_status entry \<noteq> lit ''deleted'' \<and> ve_status entry \<noteq> lit ''declared'',
       ''entry status''),
      (counter_invalid (ve_metaVersion entry), ''entry metaVersion''),
      (\<not> isLowercaseHexOfLength (ve_metaSigHashHex entry) SHA256_HEX_LENGTH, ''entry metaSigHashHex'')]"

definition variables_entry_fields :: "variables_digest_entry \<Rightarrow> lp_field list" where
  "variables_entry_fields entry =
     [LpStr (ve_variableId entry), LpStr (ve_status entry), LpNum (ve_metaVersion entry),
      LpStr (ve_metaSigHashHex entry)]"

interpretation variables_digest:
  keyed_digest "''env-manifest-vars''" ve_variableId digestEntryInvalidField variables_entry_fields
proof unfold_locales
  fix e e' :: variables_digest_entry and b
  assume "digestEntryInvalidField e = None" "digestEntryInvalidField e' = None"
    "well_formed (ve_variableId e)" "well_formed (ve_variableId e')"
    "encode_lp (variables_entry_fields e) = Some b" "encode_lp (variables_entry_fields e') = Some b"
  then have "variables_entry_fields e = variables_entry_fields e'"
    by (elim encode_lp_inj)
      (auto simp: variables_entry_fields_def digestEntryInvalidField_def hex_of_length_wf split: if_splits)
  then show "e = e'" by (simp add: variables_entry_fields_def)
qed (simp add: plain_name_def)

definition computeVariablesDigest ::
  "(bytes \<Rightarrow> bytes) \<Rightarrow> ustr \<Rightarrow> variables_digest_entry list \<Rightarrow> ustr crypto_result" where
  "computeVariablesDigest sha256 suite entries =
     computeVariableKeyedDigest sha256
       \<lparr>spec_suite = suite, spec_domain = ''env-manifest-vars'', spec_variableIdOf = ve_variableId,
        spec_entryInvalidField = digestEntryInvalidField, spec_entryFields = variables_entry_fields\<rparr> entries"

lemma computeVariablesDigest_spec:
  "computeVariablesDigest sha256 suite entries =
     computeVariableKeyedDigest sha256 (variables_digest.spec_for suite) entries"
  by (simp add: computeVariablesDigest_def variables_digest.spec_for_def)

section \<open>The signature\<close>

record env_manifest_context =
  man_suite :: ustr
  man_projectId :: ustr
  man_environmentId :: environment_id
  man_epoch :: int
  man_manifestVersion :: int
  man_variablesDigestHex :: ustr
  man_envMetaVersion :: int
  man_envMetaSigHashHex :: ustr
  man_prevManifestSigHashHex :: ustr
  man_issuerUserId :: user_id
  man_chainHeadHashHex :: ustr
  man_chainHeadSeq :: int

definition manifestNumericFieldInvalid :: "env_manifest_context \<Rightarrow> string option" where
  "manifestNumericFieldInvalid c = first_invalid
     [(counter_invalid (man_epoch c), ''context epoch''),
      (counter_invalid (man_manifestVersion c), ''context manifestVersion''),
      (counter_invalid (man_envMetaVersion c), ''context envMetaVersion''),
      (counter_invalid (man_chainHeadSeq c), ''context chainHeadSeq'')]"

definition manifestHexFieldInvalid :: "env_manifest_context \<Rightarrow> string option" where
  "manifestHexFieldInvalid c = first_invalid
     [(\<not> isLowercaseHexOfLength (man_variablesDigestHex c) SHA256_HEX_LENGTH, ''context variablesDigestHex''),
      (\<not> isLowercaseHexOfLength (man_envMetaSigHashHex c) SHA256_HEX_LENGTH, ''context envMetaSigHashHex''),
      (man_prevManifestSigHashHex c \<noteq> [] \<and>
         \<not> isLowercaseHexOfLength (man_prevManifestSigHashHex c) SHA256_HEX_LENGTH, ''context prevManifestSigHashHex''),
      (\<not> isLowercaseHexOfLength (man_chainHeadHashHex c) SHA256_HEX_LENGTH, ''context chainHeadHashHex'')]"

definition manifestContextInvalidField :: "env_manifest_context \<Rightarrow> string option" where
  "manifestContextInvalidField c = first_reason (first_invalid
     [(man_suite c = [], ''context suite''),
      (man_projectId c = [], ''context projectId''),
      (man_environmentId c = [], ''context environmentId''),
      (man_issuerUserId c = [], ''context issuerUserId'')])
     (first_reason (manifestNumericFieldInvalid c) (manifestHexFieldInvalid c))"

definition manifest_fields :: "env_manifest_context \<Rightarrow> lp_field list" where
  "manifest_fields c =
     [LpStr (man_projectId c), LpStr (man_environmentId c), LpNum (man_epoch c), LpNum (man_manifestVersion c),
      LpStr (man_variablesDigestHex c), LpNum (man_envMetaVersion c), LpStr (man_envMetaSigHashHex c),
      LpStr (man_prevManifestSigHashHex c), LpStr (man_issuerUserId c), LpStr (man_chainHeadHashHex c),
      LpNum (man_chainHeadSeq c)]"

definition buildEnvManifestSignedBytes :: "env_manifest_context \<Rightarrow> bytes option" where
  "buildEnvManifestSignedBytes c = statement_bytes (man_suite c) ''env-manifest-sig'' (manifest_fields c)"

definition computeEnvManifestSignedBytesHash :: "(bytes \<Rightarrow> bytes) \<Rightarrow> env_manifest_context \<Rightarrow> ustr crypto_result" where
  "computeEnvManifestSignedBytesHash sha256 c =
     require_valid (manifestContextInvalidField c)
       (with_bytes (buildEnvManifestSignedBytes c) (\<lambda>b. Accepted (encode_hex (sha256 b))))"

definition signEnvManifest :: "signing_api \<Rightarrow> env_manifest_context \<Rightarrow> bytes \<Rightarrow> ustr crypto_result" where
  "signEnvManifest keys c signingKey =
     require_valid (first_reason (manifestContextInvalidField c)
         (reject_when ((man_manifestVersion c = 1) \<noteq> (man_prevManifestSigHashHex c = [])) ''context prevManifestSigHashHex''))
       (case buildEnvManifestSignedBytes c of
          None \<Rightarrow> Rejected Sign_Failed
        | Some b \<Rightarrow> sign_bytes keys signingKey b)"

definition verifyEnvManifestSignature ::
  "crypto_api \<Rightarrow> env_manifest_context \<Rightarrow> ustr \<Rightarrow> bytes \<Rightarrow> unit crypto_result" where
  "verifyEnvManifestSignature api c signatureHex issuerPublicKey =
     require_valid (manifestContextInvalidField c)
       (with_bytes (buildEnvManifestSignedBytes c)
          (\<lambda>b. verifyEd25519Over api b signatureHex issuerPublicKey (Env_Manifest_Invalid Manifest_Signature_Invalid)))"

section \<open>Verification of a distributed manifest\<close>

record env_manifest_predecessor =
  npred_signedBytesHashHex :: ustr
  npred_epoch :: int

record env_manifest_env_meta =
  bound_metaVersion :: int
  bound_sigHashHex :: ustr

record distributed_manifest_input =
  dni_history :: chain_history_builder
  dni_context :: env_manifest_context
  dni_issuerKeyFingerprintHex :: fingerprint
  dni_signatureHex :: ustr
  dni_entries :: "variables_digest_entry list"
  dni_envMeta :: env_manifest_env_meta
  dni_predecessor :: "env_manifest_predecessor option"

definition MANIFEST_HEAD_REASONS :: "manifest_invalid_reason head_authorization_reasons" where
  "MANIFEST_HEAD_REASONS =
     \<lparr>chainHeadFuture = Manifest_Head_Future, chainHeadMismatch = Manifest_Head_Mismatch,
      notMemberAtHead = Issuer_Not_Member_At_Head, keyMismatchAtHead = Issuer_Key_Mismatch_At_Head,
      roleInsufficientAtHead = Issuer_Role_Insufficient_At_Head\<rparr>"

definition manifestHeadStateReason :: "distributed_manifest_input \<Rightarrow> manifest_invalid_reason option" where
  "manifestHeadStateReason i =
     (let c = dni_context i in
      headAuthorizationReason (dni_history i) (man_chainHeadSeq c) (man_chainHeadHashHex c)
        (man_issuerUserId c) (dni_issuerKeyFingerprintHex i) (ROLE_RANK Member) MANIFEST_HEAD_REASONS
        (Some \<lparr>check_environmentId = man_environmentId c, outOfScopeAtHead = Issuer_Out_Of_Scope_At_Head\<rparr>))"

definition epochIntegrityReason :: "distributed_manifest_input \<Rightarrow> ustr \<Rightarrow> manifest_invalid_reason option" where
  "epochIntegrityReason i signedBytesHashHex =
     (let c = dni_context i in
      case checkpointTupleFor (dni_history i) (man_environmentId c) (man_manifestVersion c) of
        Some Conflicting \<Rightarrow> Some Checkpoint_Equivocation
      | Some (Unique _ epoch sigHash) \<Rightarrow>
          if epoch = man_epoch c \<and> sigHash = signedBytesHashHex then None else Some Checkpoint_Binding_Mismatch
      | None \<Rightarrow>
          (case environmentStateAt (dni_history i) (man_environmentId c) (man_chainHeadSeq c) of
             None \<Rightarrow> Some Manifest_Environment_Not_Created_At_Head
           | Some atHead \<Rightarrow>
               if at_currentEpoch atHead = man_epoch c then None else Some Manifest_Epoch_Not_Current_At_Head))"

definition checkpointIntegrityReason :: "distributed_manifest_input \<Rightarrow> manifest_invalid_reason option" where
  "checkpointIntegrityReason i =
     (let c = dni_context i in
      case latestCheckpointFor (dni_history i) (man_environmentId c) of
        None \<Rightarrow> None
      | Some baseline \<Rightarrow>
          reject_when (man_manifestVersion c < chk_manifestVersion baseline \<or> man_epoch c < chk_epoch baseline)
            Checkpoint_Regressed)"

definition contentReason ::
  "(bytes \<Rightarrow> bytes) \<Rightarrow> distributed_manifest_input \<Rightarrow> (crypto_error, manifest_invalid_reason option) outcome" where
  "contentReason sha256 i =
     (let c = dni_context i in
      if man_envMetaVersion c \<noteq> bound_metaVersion (dni_envMeta i) \<or>
         man_envMetaSigHashHex c \<noteq> bound_sigHashHex (dni_envMeta i)
      then Accepted (Some Env_Meta_Mismatch)
      else case computeVariablesDigest sha256 (man_suite c) (dni_entries i) of
        Threw \<Rightarrow> Threw
      | Rejected _ \<Rightarrow> Accepted (Some Variables_Digest_Mismatch)
      | Accepted digest \<Rightarrow>
          Accepted (reject_when (digest \<noteq> man_variablesDigestHex c) Variables_Digest_Mismatch))"

definition manifestPrevReason :: "distributed_manifest_input \<Rightarrow> manifest_invalid_reason option" where
  "manifestPrevReason i =
     (let c = dni_context i in
      if (man_manifestVersion c = 1) \<noteq> (man_prevManifestSigHashHex c = []) then Some Manifest_Prev_Shape_Mismatch
      else case dni_predecessor i of
        None \<Rightarrow> None
      | Some p \<Rightarrow>
          if man_prevManifestSigHashHex c \<noteq> npred_signedBytesHashHex p then Some Manifest_Prev_Hash_Mismatch
          else if man_epoch c < npred_epoch p then Some Manifest_Epoch_Regressed
          else None)"

definition reject_manifest :: "manifest_invalid_reason option \<Rightarrow> 'a crypto_result \<Rightarrow> 'a crypto_result" where
  "reject_manifest r k = (case r of Some x \<Rightarrow> Rejected (Env_Manifest_Invalid x) | None \<Rightarrow> k)"

definition verifyDistributedEnvManifest ::
  "crypto_api \<Rightarrow> signing_api \<Rightarrow> distributed_manifest_input \<Rightarrow> ustr crypto_result" where
  "verifyDistributedEnvManifest api keys i =
     require_valid
       (first_reason (manifestContextInvalidField (dni_context i))
          (distributedInputInvalidField (dni_issuerKeyFingerprintHex i) ''issuerKeyFingerprintHex''
             (dni_signatureHex i) (map_option npred_signedBytesHashHex (dni_predecessor i))))
       (then_call
          (importActorKeyByFingerprint keys (dni_history i) (man_issuerUserId (dni_context i))
             (dni_issuerKeyFingerprintHex i) (Env_Manifest_Invalid Issuer_Unknown))
          (\<lambda>key. then_call (verifyEnvManifestSignature api (dni_context i) (dni_signatureHex i) key)
             (\<lambda>_. reject_manifest (manifestHeadStateReason i)
                (reject_manifest (manifestPrevReason i)
                   (with_bytes (buildEnvManifestSignedBytes (dni_context i))
                      (\<lambda>b. let signedBytesHashHex = encode_hex (api_sha256 api b) in
                         reject_manifest (epochIntegrityReason i signedBytesHashHex)
                           (then_call (contentReason (api_sha256 api) i)
                              (\<lambda>digestReason. reject_manifest digestReason
                                 (reject_manifest (checkpointIntegrityReason i)
                                    (Accepted signedBytesHashHex))))))))))"

section \<open>What the bytes bind, and what acceptance means\<close>

definition manifest_texts :: "env_manifest_context \<Rightarrow> ustr list" where
  "manifest_texts c =
     [man_suite c, man_projectId c, man_environmentId c, man_variablesDigestHex c, man_envMetaSigHashHex c,
      man_prevManifestSigHashHex c, man_issuerUserId c, man_chainHeadHashHex c]"

interpretation manifest_statement:
  signed_statement man_suite "\<lambda>_. ''env-manifest-sig''" manifest_fields manifest_texts "\<lambda>c. c"
proof unfold_locales
  show "plain_name ''env-manifest-sig''" by (simp add: plain_name_def)
qed (auto simp: manifest_texts_def manifest_fields_def)

lemma reject_manifest_Accepted [simp]:
  "reject_manifest r k = Accepted x \<longleftrightarrow> r = None \<and> k = Accepted x"
  by (simp add: reject_manifest_def split: option.split)

lemma contentReason_None:
  "contentReason sha256 i = Accepted None \<longleftrightarrow>
     man_envMetaVersion (dni_context i) = bound_metaVersion (dni_envMeta i) \<and>
     man_envMetaSigHashHex (dni_context i) = bound_sigHashHex (dni_envMeta i) \<and>
     computeVariablesDigest sha256 (man_suite (dni_context i)) (dni_entries i) =
       Accepted (man_variablesDigestHex (dni_context i))"
  by (auto simp: contentReason_def Let_def split: outcome.splits)

lemma manifestHeadStateReason_None:
  "manifestHeadStateReason i = None \<longleftrightarrow>
     authorized_at_head (dni_history i) (man_chainHeadSeq (dni_context i)) (man_chainHeadHashHex (dni_context i))
       (man_issuerUserId (dni_context i)) (dni_issuerKeyFingerprintHex i) Member
       (Some (man_environmentId (dni_context i)))"
  by (simp add: manifestHeadStateReason_def Let_def head_authorization_ranks)

lemma verifyDistributedEnvManifest_Accepted:
  "verifyDistributedEnvManifest api keys i = Accepted hash \<longleftrightarrow>
     manifestContextInvalidField (dni_context i) = None \<and>
     distributedInputInvalidField (dni_issuerKeyFingerprintHex i) ''issuerKeyFingerprintHex''
       (dni_signatureHex i) (map_option npred_signedBytesHashHex (dni_predecessor i)) = None \<and>
     (\<exists>key message. importActorKeyByFingerprint keys (dni_history i) (man_issuerUserId (dni_context i))
          (dni_issuerKeyFingerprintHex i) (Env_Manifest_Invalid Issuer_Unknown) = Accepted key \<and>
        buildEnvManifestSignedBytes (dni_context i) = Some message \<and>
        verifyEd25519Over api message (dni_signatureHex i) key (Env_Manifest_Invalid Manifest_Signature_Invalid) = Accepted () \<and>
        hash = encode_hex (api_sha256 api message)) \<and>
     manifestHeadStateReason i = None \<and> manifestPrevReason i = None \<and> epochIntegrityReason i hash = None \<and>
     contentReason (api_sha256 api) i = Accepted None \<and> checkpointIntegrityReason i = None"
  by (auto simp: verifyDistributedEnvManifest_def verifyEnvManifestSignature_def Let_def)

end
