(* ===== verification/Head_Attestation.thy ===== *)
theory Head_Attestation
  imports Signatures Domain_Strings
begin

text \<open>
  The head attestation (\<open>head-attestation.ts\<close>): a member's signed statement of the chain head it has
  verified, and its verification against the history index.
\<close>

record head_attestation_context =
  att_suite :: ustr
  att_projectId :: ustr
  att_attesterUserId :: user_id
  att_chainHeadHashHex :: ustr
  att_chainHeadSeq :: int

definition attestationContextInvalidField :: "head_attestation_context \<Rightarrow> string option" where
  "attestationContextInvalidField c = first_invalid
     [(att_suite c = [], ''context suite''),
      (att_projectId c = [], ''context projectId''),
      (att_attesterUserId c = [], ''context attesterUserId''),
      (\<not> isLowercaseHexOfLength (att_chainHeadHashHex c) SHA256_HEX_LENGTH, ''context chainHeadHashHex''),
      (counter_invalid (att_chainHeadSeq c), ''context chainHeadSeq'')]"

definition attestation_fields :: "head_attestation_context \<Rightarrow> lp_field list" where
  "attestation_fields c =
     [LpStr (att_projectId c), LpStr (att_attesterUserId c), LpStr (att_chainHeadHashHex c),
      LpNum (att_chainHeadSeq c)]"

definition buildHeadAttestationSignedBytes :: "head_attestation_context \<Rightarrow> bytes option" where
  "buildHeadAttestationSignedBytes c = statement_bytes (att_suite c) ''head-attestation'' (attestation_fields c)"

definition computeHeadAttestationSignedBytesHash ::
  "(bytes \<Rightarrow> bytes) \<Rightarrow> head_attestation_context \<Rightarrow> ustr crypto_result" where
  "computeHeadAttestationSignedBytesHash sha256 c =
     require_valid (attestationContextInvalidField c)
       (with_bytes (buildHeadAttestationSignedBytes c) (\<lambda>b. Accepted (encode_hex (sha256 b))))"

definition signHeadAttestation :: "signing_api \<Rightarrow> head_attestation_context \<Rightarrow> bytes \<Rightarrow> ustr crypto_result" where
  "signHeadAttestation keys c signingKey =
     require_valid (attestationContextInvalidField c)
       (with_bytes (buildHeadAttestationSignedBytes c) (\<lambda>b. signEd25519Over keys b signingKey))"

definition verifyHeadAttestationSignature ::
  "crypto_api \<Rightarrow> head_attestation_context \<Rightarrow> ustr \<Rightarrow> bytes \<Rightarrow> unit crypto_result" where
  "verifyHeadAttestationSignature api c signatureHex attesterPublicKey =
     require_valid (attestationContextInvalidField c)
       (with_bytes (buildHeadAttestationSignedBytes c)
          (\<lambda>b. verifyEd25519Over api b signatureHex attesterPublicKey
             (Head_Attestation_Invalid Attestation_Signature_Invalid)))"

record distributed_attestation_input =
  dai_history :: chain_history_builder
  dai_context :: head_attestation_context
  dai_attesterKeyFingerprintHex :: fingerprint
  dai_signatureHex :: ustr

definition HEAD_ATTESTATION_REASONS :: "attestation_invalid_reason head_authorization_reasons" where
  "HEAD_ATTESTATION_REASONS =
     \<lparr>chainHeadFuture = Attestation_Head_Future, chainHeadMismatch = Attestation_Head_Mismatch,
      notMemberAtHead = Attester_Not_Member_At_Head, keyMismatchAtHead = Attester_Key_Mismatch_At_Head,
      roleInsufficientAtHead = Attester_Not_Member_At_Head\<rparr>"

definition attestationHeadReason :: "distributed_attestation_input \<Rightarrow> attestation_invalid_reason option" where
  "attestationHeadReason i =
     (let c = dai_context i in
      headAuthorizationReason (dai_history i) (att_chainHeadSeq c) (att_chainHeadHashHex c)
        (att_attesterUserId c) (dai_attesterKeyFingerprintHex i) (ROLE_RANK Reader) HEAD_ATTESTATION_REASONS None)"

definition verifyDistributedHeadAttestation ::
  "crypto_api \<Rightarrow> signing_api \<Rightarrow> distributed_attestation_input \<Rightarrow> ustr crypto_result" where
  "verifyDistributedHeadAttestation api keys i =
     require_valid
       (first_reason (attestationContextInvalidField (dai_context i))
          (distributedInputInvalidField (dai_attesterKeyFingerprintHex i) ''attesterKeyFingerprintHex''
             (dai_signatureHex i) None))
       (then_call
          (importActorKeyByFingerprint keys (dai_history i) (att_attesterUserId (dai_context i))
             (dai_attesterKeyFingerprintHex i) (Head_Attestation_Invalid Attester_Unknown))
          (\<lambda>key. then_call (verifyHeadAttestationSignature api (dai_context i) (dai_signatureHex i) key)
             (\<lambda>_. case attestationHeadReason i of
                    Some r \<Rightarrow> Rejected (Head_Attestation_Invalid r)
                  | None \<Rightarrow>
                      with_bytes (buildHeadAttestationSignedBytes (dai_context i))
                        (\<lambda>b. Accepted (encode_hex (api_sha256 api b))))))"

section \<open>What the bytes bind, and what acceptance means\<close>

definition attestation_texts :: "head_attestation_context \<Rightarrow> ustr list" where
  "attestation_texts c = [att_suite c, att_projectId c, att_attesterUserId c, att_chainHeadHashHex c]"

interpretation attestation_statement:
  signed_statement att_suite "\<lambda>_. ''head-attestation''" attestation_fields attestation_texts "\<lambda>c. c"
proof unfold_locales
  show "plain_name ''head-attestation''" by (simp add: plain_name_def)
qed (auto simp: attestation_texts_def attestation_fields_def)

lemma attestationHeadReason_None:
  "attestationHeadReason i = None \<longleftrightarrow>
     authorized_at_head (dai_history i) (att_chainHeadSeq (dai_context i)) (att_chainHeadHashHex (dai_context i))
       (att_attesterUserId (dai_context i)) (dai_attesterKeyFingerprintHex i) Reader None"
  by (simp add: attestationHeadReason_def Let_def head_authorization_ranks)

text \<open>The role reason of an attestation is never given: every role is at least a reader's.\<close>

lemma attestation_role_suffices:
  "attestationHeadReason i = Some r \<Longrightarrow>
     r = Attestation_Head_Future \<or> r = Attestation_Head_Mismatch \<or>
     r = Attester_Not_Member_At_Head \<and>
       memberStateAt (dai_history i) (att_attesterUserId (dai_context i)) (att_chainHeadSeq (dai_context i)) = None \<or>
     r = Attester_Key_Mismatch_At_Head"
  by (auto simp: attestationHeadReason_def headAuthorizationReason_def HEAD_ATTESTATION_REASONS_def Let_def
      split: if_splits option.splits)

lemma verifyDistributedHeadAttestation_Accepted:
  "verifyDistributedHeadAttestation api keys i = Accepted hash \<longleftrightarrow>
     attestationContextInvalidField (dai_context i) = None \<and>
     distributedInputInvalidField (dai_attesterKeyFingerprintHex i) ''attesterKeyFingerprintHex''
       (dai_signatureHex i) None = None \<and>
     (\<exists>key message. importActorKeyByFingerprint keys (dai_history i) (att_attesterUserId (dai_context i))
          (dai_attesterKeyFingerprintHex i) (Head_Attestation_Invalid Attester_Unknown) = Accepted key \<and>
        buildHeadAttestationSignedBytes (dai_context i) = Some message \<and>
        verifyEd25519Over api message (dai_signatureHex i) key
          (Head_Attestation_Invalid Attestation_Signature_Invalid) = Accepted () \<and>
        hash = encode_hex (api_sha256 api message)) \<and>
     attestationHeadReason i = None"
  by (auto simp: verifyDistributedHeadAttestation_def verifyHeadAttestationSignature_def split: option.splits)

end
