(* ===== verification/Statement_Totality.thy ===== *)
theory Statement_Totality
  imports Value_Statement Meta_Statement_Facts Env_Manifest Head_Attestation
begin

text \<open>
  The canonical bytes of a statement that passed its checks exist, so verifying, hashing and signing
  end with a value. The one exception the encoder has left is a field of \<open>2 ^ 32\<close> bytes; texts of at
  most \<open>2 ^ 30\<close> code units, more than a JavaScript engine's strings hold, stay below it.
\<close>

definition short_text :: "ustr \<Rightarrow> bool" where
  "short_text s \<longleftrightarrow> length s \<le> 2 ^ 30"

lemma short_text_field: "short_text s \<Longrightarrow> short_field (LpStr s)"
  by (rule short_field_str) (simp add: short_text_def uint32_max_def)

lemma counter_field: "\<not> counter_invalid n \<Longrightarrow> short_field (LpNum n)"
  by (rule short_field_num) (simp_all add: counter_invalid_def)

lemma statement_bytes_defined:
  assumes "short_text suite" and "length name \<le> 100" and "list_all short_field fs"
  shows "\<exists>b. statement_bytes suite name fs = Some b"
proof -
  have "short_field (LpStr (domain_string suite name))"
    using assms(1,2) by (intro short_field_str) (simp add: domain_string_def short_text_def uint32_max_def)
  with assms(3) show ?thesis by (simp add: statement_bytes_def encode_lp_defined)
qed

section \<open>Bytes of valid statements\<close>

lemma value_bytes_defined:
  assumes "valueContextInvalidField c = None" and "list_all short_text (value_texts c)"
  shows "\<exists>b. buildValueSignedBytes c = Some b"
  unfolding buildValueSignedBytes_def
  by (rule statement_bytes_defined) (use assms in \<open>auto simp: value_texts_def value_fields_def valueContextInvalidField_def
      valueNumericFieldInvalid_def intro: short_text_field counter_field split: if_splits\<close>)

lemma manifest_bytes_defined:
  assumes "manifestContextInvalidField c = None" and "list_all short_text (manifest_texts c)"
  shows "\<exists>b. buildEnvManifestSignedBytes c = Some b"
  unfolding buildEnvManifestSignedBytes_def
  by (rule statement_bytes_defined) (use assms in \<open>auto simp: manifest_texts_def manifest_fields_def manifestContextInvalidField_def
      manifestNumericFieldInvalid_def intro: short_text_field counter_field split: if_splits\<close>)

lemma attestation_bytes_defined:
  assumes "attestationContextInvalidField c = None" and "list_all short_text (attestation_texts c)"
  shows "\<exists>b. buildHeadAttestationSignedBytes c = Some b"
  unfolding buildHeadAttestationSignedBytes_def
  by (rule statement_bytes_defined) (use assms in \<open>auto simp: attestation_texts_def attestation_fields_def
      attestationContextInvalidField_def intro: short_text_field counter_field split: if_splits\<close>)

lemma meta_bytes_defined:
  assumes "checkedMetaLayout c = Accepted l" and "list_all short_text (meta_texts c l)"
  shows "\<exists>b. encodeMetaSignedBytes c l = Some b"
  unfolding encodeMetaSignedBytes_def
proof (rule statement_bytes_defined)
  have "metaNumericFieldInvalid c = None"
    using assms(1) by (simp add: checkedMetaLayout_Accepted metaContextInvalidField_def)
  then have "list_all short_field (meta_tail c)"
    using assms(2) by (auto simp: meta_tail_def meta_texts_def metaNumericFieldInvalid_def intro: short_text_field counter_field split: if_splits)
  with assms(2) show "list_all short_field (meta_fields c l)"
    by (cases l) (auto simp: meta_texts_def intro: short_text_field split: meta_statement_target.splits)
  show "length (meta_name c l) \<le> 100" by (cases l) (simp_all split: meta_statement_target.split)
qed (use assms(2) in \<open>simp add: meta_texts_def\<close>)

section \<open>Digests of valid entries\<close>

definition field_length :: "lp_field \<Rightarrow> nat" where
  "field_length f = (case lp_body f of None \<Rightarrow> 0 | Some x \<Rightarrow> length x)"

lemma length_encode_lp:
  assumes "encode_lp fs = Some b"
  shows "length b = (\<Sum>f \<leftarrow> fs. 4 + field_length f)"
proof -
  from assms obtain bodies where bodies: "map lp_body fs = map Some bodies" and b: "b = concat (map framed bodies)"
    by (auto simp: encode_lp_Some_iff)
  from bodies have "map field_length fs = map length bodies"
    by (induction fs arbitrary: bodies) (auto simp: field_length_def Cons_eq_map_conv)
  then have "map (\<lambda>n. 4 + n) (map field_length fs) = map (\<lambda>n. 4 + n) (map length bodies)" by (rule arg_cong)
  then have "(\<Sum>f \<leftarrow> fs. 4 + field_length f) = (\<Sum>x \<leftarrow> bodies. 4 + length x)"
    by (simp add: comp_def)
  also have "\<dots> = length b" by (simp add: b length_concat framed_def comp_def)
  finally show ?thesis ..
qed

lemma those_defined: "\<forall>x \<in> set xs. x \<noteq> None \<Longrightarrow> \<exists>ys. those xs = Some ys \<and> map Some ys = xs"
  by (induction xs) auto

text \<open>The fields of a digest entry are an identifier and fields of at most 200 bytes.\<close>

lemma digest_entry_defined:
  assumes "short_text i" and "list_all (\<lambda>f. short_field f \<and> field_length f \<le> 200) fs" and "length fs \<le> 10"
  shows "\<exists>b. encode_lp (LpStr i # fs) = Some b \<and> short_field (LpBytes b)"
proof -
  from assms(1,2) have "list_all short_field (LpStr i # fs)" by (auto simp: list_all_iff intro: short_text_field)
  then obtain b where b: "encode_lp (LpStr i # fs) = Some b" using encode_lp_defined by blast
  have "(\<Sum>f \<leftarrow> fs. 4 + field_length f) \<le> length fs * 204"
    using assms(2) by (induction fs) auto
  moreover have "field_length (LpStr i) \<le> 3 * 2 ^ 30"
    using length_utf8_encode_le [of i] assms(1) by (simp add: field_length_def short_text_def)
  ultimately have "length b \<le> uint32_max" using length_encode_lp [OF b] assms(3) by (simp add: uint32_max_def)
  with b show ?thesis by (simp add: short_field_def)
qed

lemma digest_not_Threw:
  assumes "short_text (spec_suite spec)" and "length (spec_domain spec) \<le> 100"
    and "\<And>e. e \<in> set entries \<Longrightarrow> spec_entryInvalidField spec e = None \<Longrightarrow>
      \<exists>b. encode_lp (spec_entryFields spec e) = Some b \<and> short_field (LpBytes b)"
  shows "computeVariableKeyedDigest sha256 spec entries \<noteq> Threw"
proof
  assume "computeVariableKeyedDigest sha256 spec entries = Threw"
  then have valid: "check_digest_entries spec {} entries = None" and bytes: "digest_bytes spec entries = None"
    by (auto simp: computeVariableKeyedDigest_def reject_when_def split: if_splits)
  have entry: "\<exists>b. encode_lp (spec_entryFields spec e) = Some b \<and> short_field (LpBytes b)"
    if "e \<in> set (ordered_entries spec entries)" for e
    using that valid assms(3) by (auto simp: check_digest_entries_None ordered_entries_def set_toSorted)
  then obtain bs where bs: "those (map (\<lambda>e. encode_lp (spec_entryFields spec e)) (ordered_entries spec entries)) = Some bs"
    and "map Some bs = map (\<lambda>e. encode_lp (spec_entryFields spec e)) (ordered_entries spec entries)"
    using those_defined [of "map (\<lambda>e. encode_lp (spec_entryFields spec e)) (ordered_entries spec entries)"] by fastforce
  then have "short_field (LpBytes b)" if "b \<in> set bs" for b
  proof -
    have "Some b \<in> set (map Some bs)" using that by simp
    with \<open>map Some bs = _\<close> entry show ?thesis by fastforce
  qed
  then have "\<exists>b. statement_bytes (spec_suite spec) (spec_domain spec) (map LpBytes bs) = Some b"
    using assms(1,2) by (intro statement_bytes_defined) (auto simp: list_all_iff)
  with bs bytes show False by (simp add: digest_bytes_def)
qed

lemma hex_field_length: "isLowercaseHexOfLength h SHA256_HEX_LENGTH \<Longrightarrow> short_field (LpStr h) \<and> field_length (LpStr h) \<le> 200"
  using length_utf8_encode_le [of h]
  by (auto simp: isLowercaseHexOfLength_def SHA256_HEX_LENGTH_def field_length_def uint32_max_def intro!: short_field_str)

lemma counter_field_length: "\<not> counter_invalid n \<Longrightarrow> field_length (LpNum n) \<le> 200"
proof -
  assume n: "\<not> counter_invalid n"
  then have "nat n < 10 ^ Suc 15" by (auto simp: counter_invalid_def safe_int_def max_safe_integer_def nat_less_iff)
  then have "length (decimal (nat n)) \<le> Suc 15" by (rule length_decimal_digits)
  with n show ?thesis by (simp add: field_length_def counter_invalid_def ascii_utf8 decimal_ascii)
qed

lemma status_field_length: "length s \<le> 60 \<Longrightarrow> short_field (LpStr s) \<and> field_length (LpStr s) \<le> 200"
  using length_utf8_encode_le [of s] by (auto simp: field_length_def uint32_max_def intro!: short_field_str)

lemma variables_digest_not_Threw:
  assumes "short_text suite" and "\<forall>e \<in> set entries. short_text (ve_variableId e)"
  shows "computeVariablesDigest sha256 suite entries \<noteq> Threw"
  unfolding computeVariablesDigest_def
proof (rule digest_not_Threw)
  fix e :: variables_digest_entry
  assume e: "e \<in> set entries" and "spec_entryInvalidField \<lparr>spec_suite = suite, spec_domain = ''env-manifest-vars'',
      spec_variableIdOf = ve_variableId, spec_entryInvalidField = digestEntryInvalidField,
      spec_entryFields = variables_entry_fields\<rparr> e = None"
  then have valid: "ve_status e = lit ''active'' \<or> ve_status e = lit ''deleted'' \<or> ve_status e = lit ''declared''"
    "\<not> counter_invalid (ve_metaVersion e)" "isLowercaseHexOfLength (ve_metaSigHashHex e) SHA256_HEX_LENGTH"
    by (auto simp: digestEntryInvalidField_def split: if_splits)
  from valid(1) have "length (ve_status e) \<le> 60" by auto
  from digest_entry_defined [of "ve_variableId e" "[LpStr (ve_status e), LpNum (ve_metaVersion e), LpStr (ve_metaSigHashHex e)]"]
    assms(2) e valid status_field_length [OF this] hex_field_length counter_field counter_field_length
  show "\<exists>b. encode_lp (spec_entryFields \<lparr>spec_suite = suite, spec_domain = ''env-manifest-vars'',
      spec_variableIdOf = ve_variableId, spec_entryInvalidField = digestEntryInvalidField,
      spec_entryFields = variables_entry_fields\<rparr> e) = Some b \<and> short_field (LpBytes b)"
    by (simp add: variables_entry_fields_def)
qed (use assms(1) in simp_all)

lemma values_digest_not_Threw:
  assumes "short_text suite" and "\<forall>e \<in> set entries. short_text (vd_variableId e)"
  shows "computeEnvValuesDigest sha256 suite entries \<noteq> Threw"
  unfolding computeEnvValuesDigest_def
proof (rule digest_not_Threw)
  fix e :: env_values_digest_entry
  assume e: "e \<in> set entries" and "spec_entryInvalidField \<lparr>spec_suite = suite, spec_domain = ''env-values-digest'',
      spec_variableIdOf = vd_variableId, spec_entryInvalidField = valuesDigestEntryInvalidField,
      spec_entryFields = values_entry_fields\<rparr> e = None"
  then have valid: "\<not> counter_invalid (vd_version e)" "isLowercaseHexOfLength (vd_valueSigHashHex e) SHA256_HEX_LENGTH"
    by (auto simp: valuesDigestEntryInvalidField_def split: if_splits)
  from digest_entry_defined [of "vd_variableId e" "[LpNum (vd_version e), LpStr (vd_valueSigHashHex e)]"]
    assms(2) e valid hex_field_length counter_field counter_field_length
  show "\<exists>b. encode_lp (spec_entryFields \<lparr>spec_suite = suite, spec_domain = ''env-values-digest'',
      spec_variableIdOf = vd_variableId, spec_entryInvalidField = valuesDigestEntryInvalidField,
      spec_entryFields = values_entry_fields\<rparr> e) = Some b \<and> short_field (LpBytes b)"
    by (simp add: values_entry_fields_def)
qed (use assms(1) in simp_all)

section \<open>The verifiers\<close>

lemma value_verification_total:
  assumes "list_all short_text (value_texts (din_context i))"
  shows "verifyDistributedValue api keys i \<noteq> Threw"
  using value_bytes_defined [OF _ assms]
  by (auto simp: verifyDistributedValue_def verifyValueSignature_def computeValueSignedBytesHash_def split: option.splits)

lemma meta_verification_total:
  assumes "\<And>l. checkedMetaLayout (dmi_context i) = Accepted l \<Longrightarrow> list_all short_text (meta_texts (dmi_context i) l)"
  shows "verifyDistributedMetaStatement api keys i \<noteq> Threw"
  using meta_bytes_defined [OF _ assms, of _] checkedMetaLayout_not_Threw [of "dmi_context i"]
  by (auto simp: verifyDistributedMetaStatement_def verifyMetaStatementSignature_def computeMetaSignedBytesHash_def split: option.splits)

lemma attestation_verification_total:
  assumes "list_all short_text (attestation_texts (dai_context i))"
  shows "verifyDistributedHeadAttestation api keys i \<noteq> Threw"
  using attestation_bytes_defined [OF _ assms]
  by (auto simp: verifyDistributedHeadAttestation_def verifyHeadAttestationSignature_def split: option.splits)

lemma manifest_verification_total:
  assumes "list_all short_text (manifest_texts (dni_context i))" and "\<forall>e \<in> set (dni_entries i). short_text (ve_variableId e)"
  shows "verifyDistributedEnvManifest api keys i \<noteq> Threw"
proof -
  have "short_text (man_suite (dni_context i))" using assms(1) by (simp add: manifest_texts_def)
  then have "contentReason (api_sha256 api) i \<noteq> Threw"
    using variables_digest_not_Threw [OF _ assms(2)] by (auto simp: contentReason_def Let_def split: outcome.split)
  moreover have "reject_manifest r k \<noteq> Threw" if "k \<noteq> Threw" for r and k :: "ustr crypto_result"
    using that by (simp add: reject_manifest_def split: option.split)
  ultimately show ?thesis
    using manifest_bytes_defined [OF _ assms(1)]
    by (auto simp: verifyDistributedEnvManifest_def verifyEnvManifestSignature_def Let_def)
qed

end
