(* ===== verification/Statement_Example.thy ===== *)
theory Statement_Example
  imports Key_History Statement_Totality
begin

text \<open>
  Signed statements against the example chain: the history index of its first eight entries, written
  out, and statements of \<open>alice\<close> at head 8 that its verifiers accept. The example's platform imports
  every key and its signer returns 64 constant bytes.
\<close>

section \<open>The index after eight entries\<close>

definition demo_tenure :: "nat \<Rightarrow> nat \<Rightarrow> int \<Rightarrow> tenure_record" where
  "demo_tenure e s n =
     \<lparr>startSeq = n, endSeq = None,
      ten_devices = [\<lparr>rec_device = demo_device e s n, revokedSeq = None, capChanges = []\<rparr>],
      spans = [\<lparr>span_fromSeq = n, span_role = Owner, span_scope = AllScope\<rparr>]\<rparr>"

definition demo_index :: chain_history_builder where
  "demo_index =
     \<lparr>entryHashes = map demo_hash [1, 2, 3, 4, 5, 6, 7, 8],
      tenures = [(lit ''alice'', [demo_tenure 1 2 1]), (lit ''bob'', [demo_tenure 3 4 2])],
      environmentStarts = [(lit ''prod'', \<lparr>env_createdAtSeq = 3, epochStarts = [(1, 3), (2, 8)], env_deletedAtSeq = None\<rparr>)],
      checkpointTuples = [(lit ''prod'', [(1, Tuple_Record 7 1 (key_hex 60))])],
      latestCheckpoints = [(lit ''prod'', \<lparr>chk_seq = 7, chk_epoch = 1, chk_manifestVersion = 1,
        chk_manifestSigHashHex = key_hex 60, chk_valuesDigestHex = key_hex 61\<rparr>)]\<rparr>"

lemma demo_record:
  assumes "reached demo_api (Some empty_history) es (demo_verifier n st (Some h))"
    and "\<And>hist. \<exists>h'. accepts demo_api (demo_verifier n st hist) e ev (demo_verifier (Suc n) st' h')"
  shows "reached demo_api (Some empty_history) (es @ [e])
    (demo_verifier (Suc n) st' (Some (recordEntryHash (demo_hash (Suc n))
       (case ev of None \<Rightarrow> h | Some a \<Rightarrow> recordHistory a (int (Suc n)) st' h))))"
proof -
  from assms(2) [of "Some h"] obtain h' where step: "accepts demo_api (demo_verifier n st (Some h)) e ev (demo_verifier (Suc n) st' h')"
    by blast
  have "h' = Some (recordEntryHash (demo_hash (Suc n)) (case ev of None \<Rightarrow> h | Some a \<Rightarrow> recordHistory a (int (Suc n)) st' h))"
    using step_history [OF step, of h] by (cases ev) (simp_all add: demo_verifier_def)
  with step assms(1) show ?thesis by (simp add: reached_next)
qed

lemma demo_record_from:
  assumes "reached demo_api (Some empty_history) es (demo_verifier n st (Some h))"
    and "\<And>hist. \<exists>h'. accepts demo_api (demo_verifier n st hist) e ev (demo_verifier n' st' h')" and "n' = Suc n"
    and "h' = recordEntryHash (demo_hash n') (case ev of None \<Rightarrow> h | Some a \<Rightarrow> recordHistory a (int n') st' h)"
  shows "reached demo_api (Some empty_history) (es @ [e]) (demo_verifier n' st' (Some h'))"
  using demo_record [OF assms(1), of e ev st'] assms(2) unfolding assms(3,4) by blast

lemmas demo_recording = recordEntryHash_def recordHistory_def recordTenureStartOf_def recordTenureStart_def
  recordEnvironmentCreated_def recordEpochRotated_def recordCheckpoint_def record_checkpoint_tuple_def record_tuple_def
  demo_ops demo_states empty_history_def demo_tenure_def soleDeviceOf_def Let_def

lemma demo_index_reached:
  "reached demo_api (Some empty_history) (take 8 demo_entries) (demo_verifier 8 demo_st8 (Some demo_index))"
proof -
  have r0: "reached demo_api (Some empty_history) [] (demo_verifier 0 empty_chain_state (Some empty_history))"
    using reached_start [of demo_api "Some empty_history"] by (simp add: start_verifier_def demo_verifier_def)
  let ?h2 = "empty_history\<lparr>entryHashes := map demo_hash [1, 2],
    tenures := [(lit ''alice'', [demo_tenure 1 2 1]), (lit ''bob'', [demo_tenure 3 4 2])]\<rparr>"
  let ?h3 = "?h2\<lparr>entryHashes := map demo_hash [1, 2, 3], environmentStarts :=
    [(lit ''prod'', \<lparr>env_createdAtSeq = 3, epochStarts = [(1, 3)], env_deletedAtSeq = None\<rparr>)]\<rparr>"
  let ?h7 = "?h3\<lparr>entryHashes := map demo_hash [1, 2, 3, 4, 5, 6, 7],
      checkpointTuples := [(lit ''prod'', [(1, Tuple_Record 7 1 (key_hex 60))])],
      latestCheckpoints := [(lit ''prod'', \<lparr>chk_seq = 7, chk_epoch = 1, chk_manifestVersion = 1,
        chk_manifestSigHashHex = key_hex 60, chk_valuesDigestHex = key_hex 61\<rparr>)]\<rparr>"
  have h1: "empty_history\<lparr>entryHashes := map demo_hash [1], tenures := [(lit ''alice'', [demo_tenure 1 2 1])]\<rparr> =
    recordEntryHash (demo_hash 1) (case Some \<lparr>applied_operation = op_genesis, applied_actorUserId = lit ''alice''\<rparr> of
      None \<Rightarrow> empty_history | Some a \<Rightarrow> recordHistory a (int 1) demo_st1 empty_history)"
    by (simp add: demo_recording)
  note r1 = demo_record_from [OF r0 demo_genesis_step _ h1]
  have h2: "?h2 = recordEntryHash (demo_hash 2)
      (case Some \<lparr>applied_operation = op_add_bob, applied_actorUserId = lit ''alice''\<rparr> of
         None \<Rightarrow> empty_history\<lparr>entryHashes := map demo_hash [1], tenures := [(lit ''alice'', [demo_tenure 1 2 1])]\<rparr>
       | Some a \<Rightarrow> recordHistory a (int 2) demo_st2
           (empty_history\<lparr>entryHashes := map demo_hash [1], tenures := [(lit ''alice'', [demo_tenure 1 2 1])]\<rparr>))"
    by (simp add: demo_recording)
  note r2 = demo_record_from [OF r1 demo_step_2 _ h2]
  have h3: "?h3 = recordEntryHash (demo_hash 3)
      (case Some \<lparr>applied_operation = op_create, applied_actorUserId = lit ''alice''\<rparr> of
         None \<Rightarrow> ?h2 | Some a \<Rightarrow> recordHistory a (int 3) demo_st3 ?h2)"
    by (simp add: demo_recording)
  note r3 = demo_record_from [OF r2 demo_step_3 _ h3]
  have h4: "?h3\<lparr>entryHashes := map demo_hash [1, 2, 3, 4]\<rparr> = recordEntryHash (demo_hash 4)
      (case Some \<lparr>applied_operation = op_policy, applied_actorUserId = lit ''alice''\<rparr> of
         None \<Rightarrow> ?h3 | Some a \<Rightarrow> recordHistory a (int 4) demo_st4 ?h3)"
    by (simp add: demo_recording)
  note r4 = demo_record_from [OF r3 demo_step_4 _ h4]
  have h5: "?h3\<lparr>entryHashes := map demo_hash [1, 2, 3, 4, 5]\<rparr> = recordEntryHash (demo_hash 5)
      (case None of None \<Rightarrow> ?h3\<lparr>entryHashes := map demo_hash [1, 2, 3, 4]\<rparr>
       | Some a \<Rightarrow> recordHistory a (int 5) demo_st5 (?h3\<lparr>entryHashes := map demo_hash [1, 2, 3, 4]\<rparr>))"
    by (simp add: demo_recording)
  note r5 = demo_record_from [OF r4 demo_propose_step _ h5]
  have h6: "?h3\<lparr>entryHashes := map demo_hash [1, 2, 3, 4, 5, 6]\<rparr> = recordEntryHash (demo_hash 6)
      (case Some \<lparr>applied_operation = op_grant, applied_actorUserId = lit ''alice''\<rparr> of
         None \<Rightarrow> ?h3\<lparr>entryHashes := map demo_hash [1, 2, 3, 4, 5]\<rparr>
       | Some a \<Rightarrow> recordHistory a (int 6) demo_st6 (?h3\<lparr>entryHashes := map demo_hash [1, 2, 3, 4, 5]\<rparr>))"
    by (simp add: demo_recording)
  note r6 = demo_record_from [OF r5 demo_approve_step _ h6]
  have h7: "?h7 = recordEntryHash (demo_hash 7)
      (case Some \<lparr>applied_operation = op_checkpoint, applied_actorUserId = lit ''bob''\<rparr> of
         None \<Rightarrow> ?h3\<lparr>entryHashes := map demo_hash [1, 2, 3, 4, 5, 6]\<rparr>
       | Some a \<Rightarrow> recordHistory a (int 7) demo_st7 (?h3\<lparr>entryHashes := map demo_hash [1, 2, 3, 4, 5, 6]\<rparr>))"
    by (simp add: demo_recording)
  note r7 = demo_record_from [OF r6 demo_step_7 _ h7]
  have h8: "demo_index = recordEntryHash (demo_hash 8)
      (case Some \<lparr>applied_operation = op_rotate, applied_actorUserId = lit ''alice''\<rparr> of
         None \<Rightarrow> ?h7 | Some a \<Rightarrow> recordHistory a (int 8) demo_st8 ?h7)"
    by (simp add: demo_recording demo_index_def)
  note r8 = demo_record_from [OF r7 demo_step_8 _ h8]
  show ?thesis using r8 by (simp add: demo_entries_def)
qed

section \<open>The chain and the platform\<close>

lemma demo_chain_index: "\<exists>st. verifyChainWithHistory demo_api (demo_chain 8) = Accepted (st, demo_index)"
proof -
  have "recorded_run demo_api (demo_chain 8) = Accepted (demo_verifier 8 demo_st8 (Some demo_index))"
    using run_write_chain [OF demo_index_reached] by (simp add: recorded_run_def demo_chain_def)
  moreover have "demo_chain 8 \<noteq> []" by (simp add: demo_chain_def demo_entries_def)
  ultimately show ?thesis
    by (auto simp: verifyChainWithHistory_def verifyChainCore_def recorded_run_def demo_verifier_def)
qed

lemma length_demo_chain_8: "length (demo_chain 8) = 8"
  by (simp add: demo_chain_def length_demo_entries)

definition demo_keys :: signing_api where
  "demo_keys = \<lparr>api_importable = \<lambda>_. True, api_ed25519_sign = \<lambda>key message. Some (replicate 64 1)\<rparr>"

lemma demo_hex [simp]:
  "isLowercaseHexOfLength (key_hex n) SHA256_HEX_LENGTH" "isLowercaseHexOfLength (fp_hex n) FINGERPRINT_HEX_LENGTH"
  "isLowercaseHexOfLength (demo_sig n) SIGNATURE_HEX_LENGTH" "isLowercaseHexOfLength (demo_hash n) SHA256_HEX_LENGTH"
  using demo_hash_ok [of n]
  by (simp_all add: isLowercaseHexOfLength_def key_hex_def fp_hex_def demo_sig_def SHA256_HEX_LENGTH_def
      FINGERPRINT_HEX_LENGTH_def SIGNATURE_HEX_LENGTH_def SIGNATURE_BYTES_def hex_of_length_def)
    (auto dest: length_decode_hex)

lemma demo_lengths [simp]:
  "length (key_hex n) = 64" "length (fp_hex n) = 32" "length (demo_sig n) = 128" "length (demo_hash n) = 64"
  using demo_hex [of n]
  by (simp_all add: isLowercaseHexOfLength_def SHA256_HEX_LENGTH_def
      FINGERPRINT_HEX_LENGTH_def SIGNATURE_HEX_LENGTH_def SIGNATURE_BYTES_def)

lemma demo_tenures [simp]:
  "startSeq (demo_tenure e s n) = n" "endSeq (demo_tenure e s n) = None"
  "ten_devices (demo_tenure e s n) = [\<lparr>rec_device = demo_device e s n, revokedSeq = None, capChanges = []\<rparr>]"
  "spans (demo_tenure e s n) = [\<lparr>span_fromSeq = n, span_role = Owner, span_scope = AllScope\<rparr>]"
  by (simp_all add: demo_tenure_def)

lemma demo_head_queries:
  "in_range demo_index 8" "entryHashAt demo_index 8 = Some (demo_hash 8)" "headSeq demo_index = 8"
  "memberStateAt demo_index (lit ''alice'') 8 \<noteq> None"
  "sigKeyByFingerprint demo_index (lit ''alice'') (fp_hex 2) = Some (key_hex 2)"
  "environmentStateAt demo_index (lit ''prod'') 8 = Some \<lparr>at_createdAtSeq = 3, at_currentEpoch = 2, at_deletedAtSeq = None\<rparr>"
  "latestCheckpointFor demo_index (lit ''prod'') = Some \<lparr>chk_seq = 7, chk_epoch = 1, chk_manifestVersion = 1,
        chk_manifestSigHashHex = key_hex 60, chk_valuesDigestHex = key_hex 61\<rparr>"
  "checkpointTupleFor demo_index (lit ''prod'') 2 = None"
proof -
  show range: "in_range demo_index 8" and "headSeq demo_index = 8"
    by (simp_all add: in_range_def headSeq_def demo_index_def safe_int_def max_safe_integer_def)
  then show "entryHashAt demo_index 8 = Some (demo_hash 8)" by (simp add: entryHashAt_def demo_index_def)
  show "memberStateAt demo_index (lit ''alice'') 8 \<noteq> None"
    using range by (simp add: memberStateAt_def tenureAt_def) (simp add: demo_index_def spanAt_def)
  show "environmentStateAt demo_index (lit ''prod'') 8 = Some \<lparr>at_createdAtSeq = 3, at_currentEpoch = 2, at_deletedAtSeq = None\<rparr>"
    using range by (simp add: environmentStateAt_def) (simp add: demo_index_def epochAt_def deletedAtOrBefore_def)
qed (simp_all add: sigKeyByFingerprint_def latestCheckpointFor_def checkpointTupleFor_def demo_index_def)

lemma demo_device_query:
  "\<exists>d. deviceStateAt demo_index (lit ''alice'') (fp_hex 2) 8 = Some d \<and>
     at_permission d = \<lparr>perm_role = Owner, perm_scope = AllScope\<rparr>"
proof -
  have "tenureAt demo_index (lit ''alice'') 8 = Some (demo_tenure 1 2 1)"
    using demo_head_queries(1) by (simp add: tenureAt_def) (simp add: demo_index_def)
  then show ?thesis
    by (simp add: deviceStateAt_def spanAt_def deviceActiveAt_def deviceAt_def effectivePermissionOf_def minRole_def)
qed

lemma demo_authorized:
  "authorized_at_head demo_index 8 (demo_hash 8) (lit ''alice'') (fp_hex 2) r env"
proof -
  obtain d where "deviceStateAt demo_index (lit ''alice'') (fp_hex 2) 8 = Some d"
    "at_permission d = \<lparr>perm_role = Owner, perm_scope = AllScope\<rparr>"
    using demo_device_query by blast
  moreover have "r \<le> Owner" by (cases r) (simp_all add: less_eq_role_def)
  ultimately show ?thesis using demo_head_queries by (simp add: authorized_at_head_def)
qed

lemma demo_import [simp]:
  "importActorKeyByFingerprint demo_keys demo_index (lit ''alice'') (fp_hex 2) e = Accepted (replicate 32 2)"
  by (simp add: importActorKeyByFingerprint_def demo_head_queries importSigningPublicKey_def ED25519_KEY_BYTES_def demo_keys_def)

lemma demo_signature [simp]: "verifyEd25519Over demo_api message (demo_sig n) key e = Accepted ()"
  by (simp add: verifyEd25519Over_Accepted demo_sig_def SIGNATURE_BYTES_def)

section \<open>The statements\<close>

definition demo_value :: value_signature_context where
  "demo_value =
     \<lparr>val_suite = SUITE_ID, val_projectId = lit ''acme'', val_environmentId = lit ''prod'', val_epoch = 2,
      val_variableId = lit ''var-1'', val_version = 1, val_nonceHex = encode_hex (replicate 12 7),
      val_ciphertextHex = key_hex 9, val_prevValueSigHashHex = [], val_writerUserId = lit ''alice'',
      val_chainHeadHashHex = demo_hash 8, val_chainHeadSeq = 8\<rparr>"

definition demo_meta :: meta_statement_context where
  "demo_meta =
     \<lparr>met_suite = SUITE_ID, met_projectId = lit ''acme'', met_environmentId = lit ''prod'',
      met_target = Target_Variable (lit ''var-1''), met_name = lit ''DB_URL'', met_status = lit ''active'',
      met_layoutVersion = Some 3,
      met_schema = Some \<lparr>sch_varType = lit ''url'', sch_required = lit ''true'', sch_description = [],
        sch_maxAgeDays = Some (lit ''90'')\<rparr>,
      met_metaVersion = 1, met_prevMetaSigHashHex = [], met_authorUserId = lit ''alice'',
      met_chainHeadHashHex = demo_hash 8, met_chainHeadSeq = 8\<rparr>"

definition demo_attestation :: head_attestation_context where
  "demo_attestation =
     \<lparr>att_suite = SUITE_ID, att_projectId = lit ''acme'', att_attesterUserId = lit ''alice'',
      att_chainHeadHashHex = demo_hash 8, att_chainHeadSeq = 8\<rparr>"

definition demo_digest_entry :: variables_digest_entry where
  "demo_digest_entry =
     \<lparr>ve_variableId = lit ''var-1'', ve_status = lit ''active'', ve_metaVersion = 1, ve_metaSigHashHex = key_hex 70\<rparr>"

definition demo_manifest :: "ustr \<Rightarrow> env_manifest_context" where
  "demo_manifest digest =
     \<lparr>man_suite = SUITE_ID, man_projectId = lit ''acme'', man_environmentId = lit ''prod'', man_epoch = 2,
      man_manifestVersion = 2, man_variablesDigestHex = digest, man_envMetaVersion = 1,
      man_envMetaSigHashHex = key_hex 71, man_prevManifestSigHashHex = key_hex 60, man_issuerUserId = lit ''alice'',
      man_chainHeadHashHex = demo_hash 8, man_chainHeadSeq = 8\<rparr>"

definition demo_value_input :: distributed_value_input where
  "demo_value_input =
     \<lparr>din_history = demo_index, din_context = demo_value, din_writerKeyFingerprintHex = fp_hex 2,
      din_signatureHex = demo_sig 40, din_predecessor = None\<rparr>"

definition demo_meta_input :: distributed_meta_input where
  "demo_meta_input =
     \<lparr>dmi_history = demo_index, dmi_context = demo_meta, dmi_authorKeyFingerprintHex = fp_hex 2,
      dmi_signatureHex = demo_sig 41, dmi_predecessor = None\<rparr>"

definition demo_attestation_input :: distributed_attestation_input where
  "demo_attestation_input =
     \<lparr>dai_history = demo_index, dai_context = demo_attestation, dai_attesterKeyFingerprintHex = fp_hex 2,
      dai_signatureHex = demo_sig 42\<rparr>"

definition demo_manifest_input :: "ustr \<Rightarrow> distributed_manifest_input" where
  "demo_manifest_input digest =
     \<lparr>dni_history = demo_index, dni_context = demo_manifest digest, dni_issuerKeyFingerprintHex = fp_hex 2,
      dni_signatureHex = demo_sig 43, dni_entries = [demo_digest_entry],
      dni_envMeta = \<lparr>bound_metaVersion = 1, bound_sigHashHex = key_hex 71\<rparr>,
      dni_predecessor = Some \<lparr>npred_signedBytesHashHex = key_hex 60, npred_epoch = 1\<rparr>\<rparr>"

lemma demo_counters [simp]: "\<not> counter_invalid 1" "\<not> counter_invalid 2" "\<not> counter_invalid 8" "\<not> counter_invalid 3"
  by (simp_all add: counter_invalid_def safe_int_def max_safe_integer_def)

lemma demo_not_Nil [simp]: "key_hex n \<noteq> []" "fp_hex n \<noteq> []" "demo_hash n \<noteq> []" "lit s = [] \<longleftrightarrow> s = []"
  using demo_lengths [of n] by (auto simp: lit_def simp del: demo_lengths)

lemma short_demo [simp]:
  "length s \<le> 1000 \<Longrightarrow> short_text (lit s)" "short_text (key_hex n)" "short_text (demo_hash n)" "short_text []"
  "short_text SUITE_ID" "SUITE_ID \<noteq> []"
  by (simp_all add: short_text_def SUITE_ID_def)

lemma demo_texts_well_formed [simp]: "well_formed (key_hex n)" "well_formed (demo_hash n)" "well_formed SUITE_ID"
  using hex_of_length_wf [OF demo_hex(1)] hex_of_length_wf [OF demo_hex(4)] by (simp_all add: SUITE_ID_def)

lemma demo_value_valid: "valueContextInvalidField demo_value = None" "list_all short_text (value_texts demo_value)"
proof -
  have "isLowercaseHexOfLength (encode_hex (replicate 12 7)) NONCE_HEX_LENGTH"
    by (simp add: isLowercaseHexOfLength_def NONCE_HEX_LENGTH_def)
  then show "valueContextInvalidField demo_value = None"
    by (simp add: demo_value_def valueContextInvalidField_def valueNumericFieldInvalid_def valueHexFieldInvalid_def
        MIN_CIPHERTEXT_HEX_LENGTH_def)
  show "list_all short_text (value_texts demo_value)"
    by (simp add: value_texts_def demo_value_def) (simp add: short_text_def)
qed

lemma demo_value_signed:
  "\<exists>hash. verifyDistributedValue demo_api demo_keys (demo_value_input\<lparr>din_signatureHex := demo_sig n\<rparr>) = Accepted hash"
proof -
  obtain message where "buildValueSignedBytes demo_value = Some message"
    using value_bytes_defined [OF demo_value_valid] by blast
  moreover have "valueHeadStateReason (demo_value_input\<lparr>din_signatureHex := demo_sig n\<rparr>) = None"
    unfolding valueHeadStateReason_None
    using demo_authorized demo_head_queries(6) by (simp add: demo_value_input_def demo_value_def)
  ultimately show ?thesis
    using demo_value_valid(1)
    by (simp add: verifyDistributedValue_Accepted demo_value_input_def distributedInputInvalidField_def valuePrevReason_def)
      (simp add: demo_value_def)
qed

lemma demo_value_accepted: "\<exists>hash. verifyDistributedValue demo_api demo_keys demo_value_input = Accepted hash"
  using demo_value_signed [of 40] by (simp add: demo_value_input_def)

lemma demo_attestation_accepted:
  "\<exists>hash. verifyDistributedHeadAttestation demo_api demo_keys demo_attestation_input = Accepted hash"
proof -
  have valid: "attestationContextInvalidField demo_attestation = None" "list_all short_text (attestation_texts demo_attestation)"
    by (simp_all add: demo_attestation_def attestationContextInvalidField_def attestation_texts_def)
  then obtain message where "buildHeadAttestationSignedBytes demo_attestation = Some message"
    using attestation_bytes_defined by blast
  moreover have "attestationHeadReason demo_attestation_input = None"
    unfolding attestationHeadReason_None
    using demo_authorized by (simp add: demo_attestation_input_def demo_attestation_def)
  ultimately show ?thesis
    using valid(1)
    by (simp add: verifyDistributedHeadAttestation_Accepted demo_attestation_input_def distributedInputInvalidField_def)
      (simp add: demo_attestation_def)
qed

lemma demo_meta_layout:
  "checkedMetaLayout demo_meta = Accepted (Layout_3 (lit ''var-1'')
     \<lparr>sch_varType = lit ''url'', sch_required = lit ''true'', sch_description = [], sch_maxAgeDays = Some (lit ''90'')\<rparr>)"
proof -
  have "decimal 90 = lit ''90''" by (simp add: decimal.simps lit_def)
  then have "isMetaMaxAgeDays (lit ''90'')" unfolding declarable_ages by (intro disjI2 exI [of _ 90]) simp
  then show ?thesis
    by (simp add: checkedMetaLayout_Accepted selectMetaLayout_def demo_meta_def metaLayoutVersionOf_def
        SUPPORTED_META_LAYOUT_VERSIONS_def layoutV3Of_def metaContextInvalidField_def coordinateFieldInvalid_def
        layoutV3FieldInvalid_def metaNumericFieldInvalid_def metaHexFieldInvalid_def META_VAR_TYPES_def)
qed

lemma demo_meta_short:
  assumes "checkedMetaLayout demo_meta = Accepted l"
  shows "list_all short_text (meta_texts demo_meta l)"
proof -
  have "l = Layout_3 (lit ''var-1'') \<lparr>sch_varType = lit ''url'', sch_required = lit ''true'', sch_description = [],
    sch_maxAgeDays = Some (lit ''90'')\<rparr>"
    using assms by (simp add: demo_meta_layout)
  then show ?thesis by (simp add: demo_meta_def meta_texts_def)
qed

lemma demo_meta_accepted:
  "\<exists>hash. verifyDistributedMetaStatement demo_api demo_keys demo_meta_input = Accepted hash"
proof -
  let ?l = "Layout_3 (lit ''var-1'') \<lparr>sch_varType = lit ''url'', sch_required = lit ''true'', sch_description = [],
    sch_maxAgeDays = Some (lit ''90'')\<rparr>"
  obtain message where "encodeMetaSignedBytes demo_meta ?l = Some message"
    using meta_bytes_defined [OF demo_meta_layout demo_meta_short [OF demo_meta_layout]] by blast
  moreover have "metaHeadStateReason demo_meta_input = None"
    unfolding metaHeadStateReason_None
    using demo_authorized by (simp add: demo_meta_input_def demo_meta_def)
  ultimately show ?thesis
    using demo_meta_layout
    by (simp add: verifyDistributedMetaStatement_Accepted demo_meta_input_def distributedInputInvalidField_def metaPrevReason_def)
      (simp add: demo_meta_def)
qed

lemma demo_digest_defined:
  "\<exists>digest. computeVariablesDigest demo_sha256 SUITE_ID [demo_digest_entry] = Accepted digest \<and>
     isLowercaseHexOfLength digest SHA256_HEX_LENGTH"
proof -
  have "\<forall>e \<in> set [demo_digest_entry]. short_text (ve_variableId e)" by (simp add: demo_digest_entry_def)
  with variables_digest_not_Threw [of SUITE_ID] have
    "computeVariablesDigest demo_sha256 SUITE_ID [demo_digest_entry] \<noteq> Threw" by simp
  then obtain b where "computeVariablesDigest demo_sha256 SUITE_ID [demo_digest_entry] = Accepted (encode_hex (demo_sha256 b))"
    by (auto simp: computeVariablesDigest_def computeVariableKeyedDigest_def digestEntryInvalidField_def
        demo_digest_entry_def with_bytes_def split: option.splits)
  then show ?thesis by (simp add: isLowercaseHexOfLength_def SHA256_HEX_LENGTH_def demo_sha256_def)
qed

lemma demo_manifest_accepted:
  "\<exists>digest hash. verifyDistributedEnvManifest demo_api demo_keys (demo_manifest_input digest) = Accepted hash"
proof -
  obtain digest where digest: "computeVariablesDigest demo_sha256 SUITE_ID [demo_digest_entry] = Accepted digest"
    "isLowercaseHexOfLength digest SHA256_HEX_LENGTH"
    using demo_digest_defined by blast
  have valid: "manifestContextInvalidField (demo_manifest digest) = None"
    using digest(2) by (simp add: demo_manifest_def manifestContextInvalidField_def manifestNumericFieldInvalid_def
        manifestHexFieldInvalid_def)
  have "short_text digest"
    using digest(2) by (simp add: isLowercaseHexOfLength_def short_text_def SHA256_HEX_LENGTH_def)
  then have "list_all short_text (manifest_texts (demo_manifest digest))" by (simp add: demo_manifest_def manifest_texts_def)
  then obtain message where "buildEnvManifestSignedBytes (demo_manifest digest) = Some message"
    using manifest_bytes_defined [OF valid] by blast
  moreover have "manifestHeadStateReason (demo_manifest_input digest) = None"
    unfolding manifestHeadStateReason_None
    using demo_authorized by (simp add: demo_manifest_input_def demo_manifest_def)
  moreover have "epochIntegrityReason (demo_manifest_input digest) h = None" for h
    by (simp add: epochIntegrityReason_def demo_manifest_input_def demo_manifest_def demo_head_queries)
  moreover have "checkpointIntegrityReason (demo_manifest_input digest) = None"
    by (simp add: checkpointIntegrityReason_def demo_manifest_input_def demo_manifest_def demo_head_queries)
  moreover have "contentReason (api_sha256 demo_api) (demo_manifest_input digest) = Accepted None"
    unfolding contentReason_None using digest(1) by (simp add: demo_manifest_input_def demo_manifest_def)
  moreover have "manifestPrevReason (demo_manifest_input digest) = None"
    by (simp add: manifestPrevReason_def demo_manifest_input_def demo_manifest_def)
  moreover have "man_issuerUserId (demo_manifest digest) = lit ''alice''" by (simp add: demo_manifest_def)
  ultimately have "verifyDistributedEnvManifest demo_api demo_keys (demo_manifest_input digest) =
      Accepted (encode_hex (demo_sha256 message))"
    using valid
    by (simp add: verifyDistributedEnvManifest_Accepted demo_manifest_input_def distributedInputInvalidField_def)
  then show ?thesis by blast
qed

end
