(* ===== verification/Statement_Guarantees.thy ===== *)
theory Statement_Guarantees
  imports Statement_Example
begin

text \<open>
  What accepting a signed statement means for the chain it was verified against. Every verifier of a
  statement takes the history index of a verified chain, so its answers are those of the chain's
  prefixes.
\<close>

section \<open>From acceptance to the chain\<close>

lemma accepted_signature:
  assumes "verifyChainWithHistory api entries = Accepted (st, h)"
    and "importActorKeyByFingerprint keys h user fp e = Accepted key"
    and "verifyEd25519Over api message sigHex key e' = Accepted ()"
  shows "signed_by_registered_key api entries user fp message sigHex"
proof -
  from assms(2) obtain sigPub where sel: "sigKeyByFingerprint h user fp = Some sigPub" "decode_hex sigPub = Some key"
    by (auto simp: importActorKey_Accepted)
  from selected_key_registered [OF assms(1) sel(1)] obtain seq s d
    where "prefix_state api entries seq s" "device_of (st_members s) user fp = Some d" "sigPubHex d = sigPub" .
  with sel(2) assms(3) show ?thesis
    unfolding signed_by_registered_key_def verifyEd25519Over_Accepted by blast
qed

lemma current_epoch_of_view:
  assumes "environmentStateAt h e seq = Some x"
    and "map_option (\<lambda>x. (at_createdAtSeq x, at_currentEpoch x, at_deletedAtSeq x)) (environmentStateAt h e seq) =
      map_option (\<lambda>x. (createdAtSeq x, currentEpoch x, deletedAtSeq x)) m"
  shows "\<exists>r. m = Some r \<and> currentEpoch r = at_currentEpoch x"
  using assms by (cases m) auto

text \<open>
  C20. Accepted values: the declared chain head is the hash of a verified prefix, in whose state the
  writer is at least a member, in scope of the environment, and holds a device with the declared
  fingerprint, and the environment's current epoch is the signed one. The signature is one of a key the
  chain registered for the writer under that fingerprint, over the value's canonical bytes, whose hash
  is the result.
\<close>

theorem accepted_value_authorized:
  assumes "verifyChainWithHistory api entries = Accepted (st, h)" and "length entries < 2 ^ 32"
    and "verifyDistributedValue api keys i = Accepted hash" and "din_history i = h" and "din_context i = c"
  shows "\<exists>s env message. prefix_state api entries (val_chainHeadSeq c) s \<and>
    st_headHashHex s = val_chainHeadHashHex c \<and>
    authority_at s (val_writerUserId c) (din_writerKeyFingerprintHex i) Member (Some (val_environmentId c)) \<and>
    map_of (st_environments s) (val_environmentId c) = Some env \<and> currentEpoch env = val_epoch c \<and>
    buildValueSignedBytes c = Some message \<and> hash = encode_hex (api_sha256 api message) \<and>
    signed_by_registered_key api entries (val_writerUserId c) (din_writerKeyFingerprintHex i) message (din_signatureHex i)"
proof -
  from assms(3-5) obtain key message where A: "buildValueSignedBytes c = Some message"
    "importActorKeyByFingerprint keys h (val_writerUserId c) (din_writerKeyFingerprintHex i) (Value_Invalid Writer_Unknown) = Accepted key"
    "verifyEd25519Over api message (din_signatureHex i) key (Value_Invalid Value_Signature_Invalid) = Accepted ()"
    "hash = encode_hex (api_sha256 api message)" and head: "valueHeadStateReason i = None"
    by (auto simp: verifyDistributedValue_Accepted)
  from head assms(4,5) obtain atHead
    where H: "authorized_at_head h (val_chainHeadSeq c) (val_chainHeadHashHex c) (val_writerUserId c)
        (din_writerKeyFingerprintHex i) Member (Some (val_environmentId c))"
      and env: "environmentStateAt h (val_environmentId c) (val_chainHeadSeq c) = Some atHead" "at_currentEpoch atHead = val_epoch c"
    by (auto simp: valueHeadStateReason_None)
  obtain s where s: "prefix_state api entries (val_chainHeadSeq c) s" "st_headHashHex s = val_chainHeadHashHex c"
      "authority_at s (val_writerUserId c) (din_writerKeyFingerprintHex i) Member (Some (val_environmentId c))"
    and envs: "map_option (\<lambda>x. (at_createdAtSeq x, at_currentEpoch x, at_deletedAtSeq x))
        (environmentStateAt h (val_environmentId c) (val_chainHeadSeq c)) =
      map_option (\<lambda>x. (createdAtSeq x, currentEpoch x, deletedAtSeq x)) (map_of (st_environments s) (val_environmentId c))"
    by (rule head_authority [OF assms(1,2) H], rule that)
  from current_epoch_of_view [OF env(1) envs] env(2)
  obtain e where "map_of (st_environments s) (val_environmentId c) = Some e" "currentEpoch e = val_epoch c" by auto
  with s A accepted_signature [OF assms(1) A(2,3)] show ?thesis by blast
qed

theorem accepted_value_authorized_witness:
  "\<exists>hash s env message. verifyDistributedValue demo_api demo_keys demo_value_input = Accepted hash \<and>
     prefix_state demo_api (demo_chain 8) 8 s \<and> st_headHashHex s = demo_hash 8 \<and>
     authority_at s (lit ''alice'') (fp_hex 2) Member (Some (lit ''prod'')) \<and>
     map_of (st_environments s) (lit ''prod'') = Some env \<and> currentEpoch env = 2 \<and>
     signed_by_registered_key demo_api (demo_chain 8) (lit ''alice'') (fp_hex 2) message (demo_sig 40)"
proof -
  obtain st where st: "verifyChainWithHistory demo_api (demo_chain 8) = Accepted (st, demo_index)"
    using demo_chain_index by blast
  obtain hash where hash: "verifyDistributedValue demo_api demo_keys demo_value_input = Accepted hash"
    using demo_value_accepted by blast
  have "length (demo_chain 8) < 2 ^ 32" by (simp add: length_demo_chain_8)
  from accepted_value_authorized [OF st this hash _ refl] hash show ?thesis
    by (simp add: demo_value_input_def demo_value_def) blast
qed

text \<open>
  C23. Accepted metadata statements: as for values, with the author as the member in scope of the
  environment at the declared head, and the layout that was checked as the one that was signed.
\<close>

theorem accepted_meta_authorized:
  assumes "verifyChainWithHistory api entries = Accepted (st, h)" and "length entries < 2 ^ 32"
    and "verifyDistributedMetaStatement api keys i = Accepted hash" and "dmi_history i = h" and "dmi_context i = c"
  shows "\<exists>s layout message. prefix_state api entries (met_chainHeadSeq c) s \<and>
    st_headHashHex s = met_chainHeadHashHex c \<and>
    authority_at s (met_authorUserId c) (dmi_authorKeyFingerprintHex i) Member (Some (met_environmentId c)) \<and>
    checkedMetaLayout c = Accepted layout \<and> encodeMetaSignedBytes c layout = Some message \<and>
    hash = encode_hex (api_sha256 api message) \<and>
    signed_by_registered_key api entries (met_authorUserId c) (dmi_authorKeyFingerprintHex i) message (dmi_signatureHex i)"
proof -
  from assms(3-5) obtain key layout message where A: "checkedMetaLayout c = Accepted layout"
    "encodeMetaSignedBytes c layout = Some message"
    "importActorKeyByFingerprint keys h (met_authorUserId c) (dmi_authorKeyFingerprintHex i) (Meta_Statement_Invalid Author_Unknown) = Accepted key"
    "verifyEd25519Over api message (dmi_signatureHex i) key (Meta_Statement_Invalid Meta_Signature_Invalid) = Accepted ()"
    "hash = encode_hex (api_sha256 api message)" and head: "metaHeadStateReason i = None"
    by (auto simp: verifyDistributedMetaStatement_Accepted)
  from head assms(4,5) have H: "authorized_at_head h (met_chainHeadSeq c) (met_chainHeadHashHex c)
      (met_authorUserId c) (dmi_authorKeyFingerprintHex i) Member (Some (met_environmentId c))"
    by (simp add: metaHeadStateReason_None)
  obtain s where s: "prefix_state api entries (met_chainHeadSeq c) s" "st_headHashHex s = met_chainHeadHashHex c"
      "authority_at s (met_authorUserId c) (dmi_authorKeyFingerprintHex i) Member (Some (met_environmentId c))"
    by (rule head_authority [OF assms(1,2) H], rule that)
  with A accepted_signature [OF assms(1) A(3,4)] show ?thesis by blast
qed

theorem accepted_meta_authorized_witness:
  "\<exists>hash s message. verifyDistributedMetaStatement demo_api demo_keys demo_meta_input = Accepted hash \<and>
     prefix_state demo_api (demo_chain 8) 8 s \<and> st_headHashHex s = demo_hash 8 \<and>
     authority_at s (lit ''alice'') (fp_hex 2) Member (Some (lit ''prod'')) \<and>
     signed_by_registered_key demo_api (demo_chain 8) (lit ''alice'') (fp_hex 2) message (demo_sig 41)"
proof -
  obtain st where st: "verifyChainWithHistory demo_api (demo_chain 8) = Accepted (st, demo_index)"
    using demo_chain_index by blast
  obtain hash where hash: "verifyDistributedMetaStatement demo_api demo_keys demo_meta_input = Accepted hash"
    using demo_meta_accepted by blast
  have "length (demo_chain 8) < 2 ^ 32" by (simp add: length_demo_chain_8)
  from accepted_meta_authorized [OF st this hash _ refl] hash show ?thesis
    by (simp add: demo_meta_input_def demo_meta_def) blast
qed

text \<open>
  C24. Accepted head attestations: the attested head is the hash of a verified prefix of the very chain
  the verifier holds, and the attester is a member of that prefix who holds a device with the declared
  fingerprint.
\<close>

theorem accepted_attestation_names_prefix:
  assumes "verifyChainWithHistory api entries = Accepted (st, h)" and "length entries < 2 ^ 32"
    and "verifyDistributedHeadAttestation api keys i = Accepted hash" and "dai_history i = h" and "dai_context i = c"
  shows "\<exists>s message. prefix_state api entries (att_chainHeadSeq c) s \<and>
    st_headHashHex s = att_chainHeadHashHex c \<and>
    authority_at s (att_attesterUserId c) (dai_attesterKeyFingerprintHex i) Reader None \<and>
    buildHeadAttestationSignedBytes c = Some message \<and> hash = encode_hex (api_sha256 api message) \<and>
    signed_by_registered_key api entries (att_attesterUserId c) (dai_attesterKeyFingerprintHex i) message (dai_signatureHex i)"
proof -
  from assms(3-5) obtain key message where A: "buildHeadAttestationSignedBytes c = Some message"
    "importActorKeyByFingerprint keys h (att_attesterUserId c) (dai_attesterKeyFingerprintHex i)
       (Head_Attestation_Invalid Attester_Unknown) = Accepted key"
    "verifyEd25519Over api message (dai_signatureHex i) key (Head_Attestation_Invalid Attestation_Signature_Invalid) = Accepted ()"
    "hash = encode_hex (api_sha256 api message)" and head: "attestationHeadReason i = None"
    by (auto simp: verifyDistributedHeadAttestation_Accepted)
  from head assms(4,5) have H: "authorized_at_head h (att_chainHeadSeq c) (att_chainHeadHashHex c)
      (att_attesterUserId c) (dai_attesterKeyFingerprintHex i) Reader None"
    by (simp add: attestationHeadReason_None)
  obtain s where s: "prefix_state api entries (att_chainHeadSeq c) s" "st_headHashHex s = att_chainHeadHashHex c"
      "authority_at s (att_attesterUserId c) (dai_attesterKeyFingerprintHex i) Reader None"
    by (rule head_authority [OF assms(1,2) H], rule that)
  with A accepted_signature [OF assms(1) A(2,3)] show ?thesis by blast
qed

theorem accepted_attestation_names_prefix_witness:
  "\<exists>hash s message. verifyDistributedHeadAttestation demo_api demo_keys demo_attestation_input = Accepted hash \<and>
     prefix_state demo_api (demo_chain 8) 8 s \<and> st_headHashHex s = demo_hash 8 \<and>
     authority_at s (lit ''alice'') (fp_hex 2) Reader None \<and>
     signed_by_registered_key demo_api (demo_chain 8) (lit ''alice'') (fp_hex 2) message (demo_sig 42)"
proof -
  obtain st where st: "verifyChainWithHistory demo_api (demo_chain 8) = Accepted (st, demo_index)"
    using demo_chain_index by blast
  obtain hash where hash: "verifyDistributedHeadAttestation demo_api demo_keys demo_attestation_input = Accepted hash"
    using demo_attestation_accepted by blast
  have "length (demo_chain 8) < 2 ^ 32" by (simp add: length_demo_chain_8)
  from accepted_attestation_names_prefix [OF st this hash _ refl] hash show ?thesis
    by (simp add: demo_attestation_input_def demo_attestation_def) blast
qed

section \<open>Environment manifests\<close>

text \<open>
  Accepted environment manifests: the issuer is a member in scope of the environment at the declared
  head and signed with a registered key, the manifest's digest is that of the variables presented with
  it, and it is bound to the environment statement presented with it.
\<close>

lemma accepted_manifest_authorized:
  assumes "verifyChainWithHistory api entries = Accepted (st, h)" and "length entries < 2 ^ 32"
    and "verifyDistributedEnvManifest api keys i = Accepted hash" and "dni_history i = h" and "dni_context i = c"
  shows "\<exists>s message. prefix_state api entries (man_chainHeadSeq c) s \<and>
    st_headHashHex s = man_chainHeadHashHex c \<and>
    authority_at s (man_issuerUserId c) (dni_issuerKeyFingerprintHex i) Member (Some (man_environmentId c)) \<and>
    buildEnvManifestSignedBytes c = Some message \<and> hash = encode_hex (api_sha256 api message) \<and>
    signed_by_registered_key api entries (man_issuerUserId c) (dni_issuerKeyFingerprintHex i) message (dni_signatureHex i) \<and>
    man_envMetaVersion c = bound_metaVersion (dni_envMeta i) \<and>
    man_envMetaSigHashHex c = bound_sigHashHex (dni_envMeta i) \<and>
    computeVariablesDigest (api_sha256 api) (man_suite c) (dni_entries i) = Accepted (man_variablesDigestHex c)"
proof -
  from assms(3-5) obtain key message where A: "buildEnvManifestSignedBytes c = Some message"
    "importActorKeyByFingerprint keys h (man_issuerUserId c) (dni_issuerKeyFingerprintHex i)
       (Env_Manifest_Invalid Issuer_Unknown) = Accepted key"
    "verifyEd25519Over api message (dni_signatureHex i) key (Env_Manifest_Invalid Manifest_Signature_Invalid) = Accepted ()"
    "hash = encode_hex (api_sha256 api message)" and head: "manifestHeadStateReason i = None"
    and content: "contentReason (api_sha256 api) i = Accepted None"
    by (auto simp: verifyDistributedEnvManifest_Accepted)
  from head assms(4,5) have H: "authorized_at_head h (man_chainHeadSeq c) (man_chainHeadHashHex c)
      (man_issuerUserId c) (dni_issuerKeyFingerprintHex i) Member (Some (man_environmentId c))"
    by (simp add: manifestHeadStateReason_None)
  obtain s where s: "prefix_state api entries (man_chainHeadSeq c) s" "st_headHashHex s = man_chainHeadHashHex c"
      "authority_at s (man_issuerUserId c) (dni_issuerKeyFingerprintHex i) Member (Some (man_environmentId c))"
    by (rule head_authority [OF assms(1,2) H], rule that)
  with A content assms(5) accepted_signature [OF assms(1) A(2,3)] show ?thesis
    unfolding contentReason_None by blast
qed

lemma bound_to_tuples:
  assumes "verifyChainWithHistory api entries = Accepted (st, h)" and "map read_entry entries = map Some es"
    and "epochIntegrityReason i hash = None" and "dni_history i = h" and "dni_context i = c"
    and "1 \<le> man_manifestVersion c" and "safe_int (man_manifestVersion c)"
  shows "(\<forall>(seq, t) \<in> set (tuples_for (checkpoint_log es) (man_environmentId c) (man_manifestVersion c)).
      ck_epoch t = man_epoch c \<and> ck_manifestSigHashHex t = hash) \<and>
    (tuples_for (checkpoint_log es) (man_environmentId c) (man_manifestVersion c) = [] \<longrightarrow>
      (\<exists>x. environmentStateAt h (man_environmentId c) (man_chainHeadSeq c) = Some x \<and> at_currentEpoch x = man_epoch c))"
proof (cases "tuples_for (checkpoint_log es) (man_environmentId c) (man_manifestVersion c)")
  case Nil
  then have "checkpointTupleFor h (man_environmentId c) (man_manifestVersion c) = None"
    using checkpointTupleFor_log [OF assms(1,2,6,7)] by simp
  with Nil assms(3-5) show ?thesis
    by (auto simp: epochIntegrityReason_def Let_def split: option.splits if_splits)
next
  case (Cons x rest)
  obtain seq t where x: "x = (seq, t)" by (cases x)
  have "checkpointTupleFor h (man_environmentId c) (man_manifestVersion c) =
      Some (if \<forall>(s', t') \<in> set rest. same_tuple t t' then Unique seq (ck_epoch t) (ck_manifestSigHashHex t) else Conflicting)"
    using checkpointTupleFor_log [OF assms(1,2,6,7)] Cons x by simp
  with assms(3-5) have "\<forall>(s', t') \<in> set rest. same_tuple t t'" "ck_epoch t = man_epoch c" "ck_manifestSigHashHex t = hash"
    by (auto simp: epochIntegrityReason_def Let_def split: if_splits)
  with Cons x show ?thesis by (auto simp: same_tuple_def)
qed

text \<open>
  Accepted environment manifests and checkpoints: every checkpoint of the chain that names the
  manifest's version carries its epoch and the hash of its signed bytes; without such a checkpoint the
  epoch is the environment's current one at the declared head; and neither version nor epoch lies
  behind the environment's latest checkpoint.
\<close>

lemma accepted_manifest_checkpoints:
  assumes "verifyChainWithHistory api entries = Accepted (st, h)" and "length entries < 2 ^ 32"
    and "map read_entry entries = map Some es"
    and "verifyDistributedEnvManifest api keys i = Accepted hash" and "dni_history i = h" and "dni_context i = c"
  shows "(\<forall>(seq, t) \<in> set (tuples_for (checkpoint_log es) (man_environmentId c) (man_manifestVersion c)).
      ck_epoch t = man_epoch c \<and> ck_manifestSigHashHex t = hash) \<and>
    (tuples_for (checkpoint_log es) (man_environmentId c) (man_manifestVersion c) = [] \<longrightarrow>
      (\<exists>s env. prefix_state api entries (man_chainHeadSeq c) s \<and>
         map_of (st_environments s) (man_environmentId c) = Some env \<and> currentEpoch env = man_epoch c)) \<and>
    (\<forall>latest. map_of (st_checkpoints st) (man_environmentId c) = Some latest \<longrightarrow>
      chk_manifestVersion latest \<le> man_manifestVersion c \<and> chk_epoch latest \<le> man_epoch c)"
proof -
  from assms(4-6) have valid: "manifestContextInvalidField c = None" and head: "manifestHeadStateReason i = None"
    and epoch: "epochIntegrityReason i hash = None" and check: "checkpointIntegrityReason i = None"
    by (auto simp: verifyDistributedEnvManifest_Accepted)
  have version: "1 \<le> man_manifestVersion c" "safe_int (man_manifestVersion c)"
    using valid by (auto simp: manifestContextInvalidField_def manifestNumericFieldInvalid_def first_invalid_def
        counter_invalid_def split: if_splits option.splits)
  from head assms(5,6) have H: "authorized_at_head h (man_chainHeadSeq c) (man_chainHeadHashHex c)
      (man_issuerUserId c) (dni_issuerKeyFingerprintHex i) Member (Some (man_environmentId c))"
    by (simp add: manifestHeadStateReason_None)
  obtain s where s: "prefix_state api entries (man_chainHeadSeq c) s"
    and envs: "map_option (\<lambda>x. (at_createdAtSeq x, at_currentEpoch x, at_deletedAtSeq x))
        (environmentStateAt h (man_environmentId c) (man_chainHeadSeq c)) =
      map_option (\<lambda>x. (createdAtSeq x, currentEpoch x, deletedAtSeq x)) (map_of (st_environments s) (man_environmentId c))"
    by (rule head_authority [OF assms(1,2) H], rule that)
  have "latestCheckpointFor h env = map_of (st_checkpoints st) env" for env
    by (rule latest_checkpoint_of_state [OF assms(1)])
  then have latest: "chk_manifestVersion b \<le> man_manifestVersion c \<and> chk_epoch b \<le> man_epoch c"
    if "map_of (st_checkpoints st) (man_environmentId c) = Some b" for b
    using check that assms(5,6) by (auto simp: checkpointIntegrityReason_def Let_def split: option.splits)
  have "(\<exists>x. environmentStateAt h (man_environmentId c) (man_chainHeadSeq c) = Some x \<and> at_currentEpoch x = man_epoch c) \<Longrightarrow>
      \<exists>env. map_of (st_environments s) (man_environmentId c) = Some env \<and> currentEpoch env = man_epoch c"
    using current_epoch_of_view [OF _ envs] by metis
  then show ?thesis
    using bound_to_tuples [OF assms(1,3) epoch assms(5,6) version] s latest by blast
qed

text \<open>
  C21. Accepted environment manifests: the issuer is a member in scope of the environment at the declared
  head and signed with a registered key, the manifest's digest is that of the variables presented with
  it, and it is bound to the environment statement presented with it. Every checkpoint of the chain that
  names the manifest's version carries its epoch and the hash of its signed bytes; without such a
  checkpoint the epoch is the environment's current one at the declared head; and neither version nor
  epoch lies behind the environment's latest checkpoint.
\<close>

theorem accepted_manifest_sound:
  assumes "verifyChainWithHistory api entries = Accepted (st, h)" and "length entries < 2 ^ 32"
    and "map read_entry entries = map Some es"
    and "verifyDistributedEnvManifest api keys i = Accepted hash" and "dni_history i = h" and "dni_context i = c"
  shows "(\<exists>s message. prefix_state api entries (man_chainHeadSeq c) s \<and>
      st_headHashHex s = man_chainHeadHashHex c \<and>
      authority_at s (man_issuerUserId c) (dni_issuerKeyFingerprintHex i) Member (Some (man_environmentId c)) \<and>
      buildEnvManifestSignedBytes c = Some message \<and> hash = encode_hex (api_sha256 api message) \<and>
      signed_by_registered_key api entries (man_issuerUserId c) (dni_issuerKeyFingerprintHex i) message (dni_signatureHex i) \<and>
      man_envMetaVersion c = bound_metaVersion (dni_envMeta i) \<and>
      man_envMetaSigHashHex c = bound_sigHashHex (dni_envMeta i) \<and>
      computeVariablesDigest (api_sha256 api) (man_suite c) (dni_entries i) = Accepted (man_variablesDigestHex c)) \<and>
    (\<forall>(seq, t) \<in> set (tuples_for (checkpoint_log es) (man_environmentId c) (man_manifestVersion c)).
      ck_epoch t = man_epoch c \<and> ck_manifestSigHashHex t = hash) \<and>
    (tuples_for (checkpoint_log es) (man_environmentId c) (man_manifestVersion c) = [] \<longrightarrow>
      (\<exists>s env. prefix_state api entries (man_chainHeadSeq c) s \<and>
         map_of (st_environments s) (man_environmentId c) = Some env \<and> currentEpoch env = man_epoch c)) \<and>
    (\<forall>latest. map_of (st_checkpoints st) (man_environmentId c) = Some latest \<longrightarrow>
      chk_manifestVersion latest \<le> man_manifestVersion c \<and> chk_epoch latest \<le> man_epoch c)"
  using accepted_manifest_authorized [OF assms(1,2,4-6)] accepted_manifest_checkpoints [OF assms] by (rule conjI)

theorem accepted_manifest_sound_witness:
  "\<exists>st digest hash s env message. verifyDistributedEnvManifest demo_api demo_keys (demo_manifest_input digest) = Accepted hash \<and>
     signed_by_registered_key demo_api (demo_chain 8) (lit ''alice'') (fp_hex 2) message (demo_sig 43) \<and>
     computeVariablesDigest demo_sha256 SUITE_ID [demo_digest_entry] = Accepted digest \<and>
     prefix_state demo_api (demo_chain 8) 8 s \<and> map_of (st_environments s) (lit ''prod'') = Some env \<and>
     currentEpoch env = 2 \<and> verifyChainWithHistory demo_api (demo_chain 8) = Accepted (st, demo_index) \<and>
     (\<forall>latest. map_of (st_checkpoints st) (lit ''prod'') = Some latest \<longrightarrow> chk_manifestVersion latest \<le> 2)"
proof -
  obtain st where st: "verifyChainWithHistory demo_api (demo_chain 8) = Accepted (st, demo_index)"
    using demo_chain_index by blast
  obtain digest hash where hash: "verifyDistributedEnvManifest demo_api demo_keys (demo_manifest_input digest) = Accepted hash"
    using demo_manifest_accepted by blast
  have len: "length (demo_chain 8) < 2 ^ 32" by (simp add: length_demo_chain_8)
  have reads: "map read_entry (demo_chain 8) = map Some (take 8 demo_entries)"
    by (simp add: demo_chain_def read_write_entry comp_def)
  have "checkpoint_log (take 8 demo_entries) = [(7, \<lparr>ck_environmentId = lit ''prod'', ck_epoch = 1,
     ck_manifestVersion = 1, ck_manifestSigHashHex = key_hex 60, ck_valuesDigestHex = key_hex 61\<rparr>)]"
    by (simp add: checkpoint_log_def demo_entries_def demo_entry_def demo_ops)
  then have "tuples_for (checkpoint_log (take 8 demo_entries)) (lit ''prod'') 2 = []" by (simp add: tuples_for_def)
  with accepted_manifest_sound [OF st len reads hash _ refl] st hash show ?thesis
    by (simp add: demo_manifest_input_def demo_manifest_def) blast
qed

section \<open>Totality\<close>

text \<open>
  Statements never throw: whatever the key, the signature and the history, verifying a distributed
  value, metadata statement, manifest or attestation returns acceptance or a reason, for texts of at
  most \<open>2 ^ 30\<close> code units.
\<close>

lemma statement_verification_returns:
  assumes "list_all short_text (value_texts (din_context v))"
    and "\<And>l. checkedMetaLayout (dmi_context m) = Accepted l \<Longrightarrow> list_all short_text (meta_texts (dmi_context m) l)"
    and "list_all short_text (manifest_texts (dni_context e))"
    and "\<forall>x \<in> set (dni_entries e). short_text (ve_variableId x)"
    and "list_all short_text (attestation_texts (dai_context a))"
  shows "verifyDistributedValue api keys v \<noteq> Threw \<and> verifyDistributedMetaStatement api keys m \<noteq> Threw \<and>
    verifyDistributedEnvManifest api keys e \<noteq> Threw \<and> verifyDistributedHeadAttestation api keys a \<noteq> Threw"
  using value_verification_total [OF assms(1)] meta_verification_total [OF assms(2)]
    manifest_verification_total [OF assms(3,4)] attestation_verification_total [OF assms(5)]
  by blast

end
