(* ===== verification/Registration_Statements.thy ===== *)
theory Registration_Statements
  imports Signatures Domain_Strings
begin

text \<open>
  The signing of chain entries (\<open>chain-sign.ts\<close>) and three more signed statements: the registration of a
  key wrap (\<open>dek-wrap-sign.ts\<close>), and for an invite its acceptance, co-signed by the link key
  (\<open>invite-accept-sign.ts\<close>), and its issuance (\<open>invite-link.ts\<close>). The two invite statements are verified
  under a key they declare themselves.
\<close>

section \<open>Chain entries\<close>

text \<open>The encoder runs inside the \<open>try\<close>, so a field it cannot encode is a failed signature too.\<close>

definition signChainEntry :: "signing_api \<Rightarrow> unsigned_chain_entry \<Rightarrow> bytes \<Rightarrow> chain_entry crypto_result" where
  "signChainEntry keys entry signingKey =
     (if counter_invalid (entry_seq entry) then Rejected (Invalid_Input ''seq'')
      else if \<not> safe_int (entry_timestampMs entry) \<or> entry_timestampMs entry < 0
        then Rejected (Invalid_Input ''timestampMs'')
      else case canonicalChainSignedBytes entry of
        None \<Rightarrow> Rejected Sign_Failed
      | Some signedBytes \<Rightarrow>
          (case api_ed25519_sign keys signingKey signedBytes of
             None \<Rightarrow> Rejected Sign_Failed
           | Some signature \<Rightarrow>
               Accepted (unsigned_chain_entry.extend entry
                 (chain_entry.fields (encode_hex signature)))))"

section \<open>The registration of a wrap\<close>

definition ENC_PUB_HEX_LENGTH :: nat where "ENC_PUB_HEX_LENGTH = 32 * 2"

definition HPKE_ENC_HEX_LENGTH :: nat where "HPKE_ENC_HEX_LENGTH = 32 * 2"

definition WRAP_CIPHERTEXT_HEX_LENGTH :: nat where "WRAP_CIPHERTEXT_HEX_LENGTH = 48 * 2"

record dek_wrap_signature_context =
  dws_suite :: ustr
  dws_projectId :: ustr
  dws_environmentId :: environment_id
  dws_epoch :: int
  dws_recipientUserId :: ustr
  dws_recipientEncPubHex :: ustr
  dws_encHex :: ustr
  dws_ciphertextHex :: ustr
  dws_signerUserId :: user_id

definition dekWrapContextInvalidField :: "dek_wrap_signature_context \<Rightarrow> string option" where
  "dekWrapContextInvalidField c = first_invalid
     [(dws_suite c = [], ''context suite''),
      (dws_signerUserId c = [], ''context signerUserId''),
      (\<not> safe_int (dws_epoch c) \<or> dws_epoch c < 0, ''context epoch''),
      (\<not> isLowercaseHexOfLength (dws_recipientEncPubHex c) ENC_PUB_HEX_LENGTH, ''context recipientEncPubHex''),
      (\<not> isLowercaseHexOfLength (dws_encHex c) HPKE_ENC_HEX_LENGTH, ''context encHex''),
      (\<not> isLowercaseHexOfLength (dws_ciphertextHex c) WRAP_CIPHERTEXT_HEX_LENGTH, ''context ciphertextHex'')]"

definition dek_wrap_signature_fields :: "dek_wrap_signature_context \<Rightarrow> lp_field list" where
  "dek_wrap_signature_fields c =
     [LpStr (dws_projectId c), LpStr (dws_environmentId c), LpNum (dws_epoch c), LpStr (dws_recipientUserId c),
      LpStr (dws_recipientEncPubHex c), LpStr (dws_encHex c), LpStr (dws_ciphertextHex c), LpStr (dws_signerUserId c)]"

definition buildDekWrapSignatureBytes :: "dek_wrap_signature_context \<Rightarrow> bytes option" where
  "buildDekWrapSignatureBytes c = statement_bytes (dws_suite c) ''dek-wrap-sig'' (dek_wrap_signature_fields c)"

definition signDekWrap :: "signing_api \<Rightarrow> dek_wrap_signature_context \<Rightarrow> bytes \<Rightarrow> ustr crypto_result" where
  "signDekWrap keys c signingKey =
     require_valid (dekWrapContextInvalidField c)
       (with_bytes (buildDekWrapSignatureBytes c) (\<lambda>b. signEd25519Over keys b signingKey))"

definition verifyDekWrapSignature ::
  "crypto_api \<Rightarrow> dek_wrap_signature_context \<Rightarrow> ustr \<Rightarrow> bytes \<Rightarrow> unit crypto_result" where
  "verifyDekWrapSignature api c signatureHex signerPublicKey =
     require_valid (dekWrapContextInvalidField c)
       (with_bytes (buildDekWrapSignatureBytes c)
          (\<lambda>b. verifyEd25519Over api b signatureHex signerPublicKey Dek_Wrap_Signature_Invalid))"

section \<open>The acceptance of an invite\<close>

definition PUB_KEY_HEX_LENGTH :: nat where "PUB_KEY_HEX_LENGTH = 32 * 2"

record invite_accept_context =
  ia_suite :: ustr
  ia_projectId :: ustr
  ia_linkPubHex :: ustr
  ia_inviteeUserId :: user_id
  ia_inviteeEncPubHex :: ustr
  ia_inviteeSigPubHex :: ustr

definition acceptContextInvalidField :: "invite_accept_context \<Rightarrow> string option" where
  "acceptContextInvalidField c = first_invalid
     [(ia_suite c = [], ''context suite''),
      (ia_inviteeUserId c = [], ''context inviteeUserId''),
      (\<not> isLowercaseHexOfLength (ia_linkPubHex c) PUB_KEY_HEX_LENGTH, ''context linkPubHex''),
      (\<not> isLowercaseHexOfLength (ia_inviteeEncPubHex c) PUB_KEY_HEX_LENGTH, ''context inviteeEncPubHex''),
      (\<not> isLowercaseHexOfLength (ia_inviteeSigPubHex c) PUB_KEY_HEX_LENGTH, ''context inviteeSigPubHex'')]"

definition accept_fields :: "invite_accept_context \<Rightarrow> lp_field list" where
  "accept_fields c =
     [LpStr (ia_projectId c), LpStr (ia_linkPubHex c), LpStr (ia_inviteeUserId c), LpStr (ia_inviteeEncPubHex c),
      LpStr (ia_inviteeSigPubHex c)]"

definition buildInviteAcceptSignedBytes :: "invite_accept_context \<Rightarrow> bytes option" where
  "buildInviteAcceptSignedBytes c = statement_bytes (ia_suite c) ''invite-accept-v2'' (accept_fields c)"

definition signInviteAccept :: "signing_api \<Rightarrow> invite_accept_context \<Rightarrow> bytes \<Rightarrow> ustr crypto_result" where
  "signInviteAccept keys c signingKey =
     require_valid (acceptContextInvalidField c)
       (with_bytes (buildInviteAcceptSignedBytes c) (\<lambda>b. signEd25519Over keys b signingKey))"

definition signInviteLink :: "signing_api \<Rightarrow> invite_accept_context \<Rightarrow> bytes \<Rightarrow> ustr crypto_result" where
  "signInviteLink keys c linkPrivateKey =
     require_valid (acceptContextInvalidField c)
       (with_bytes (buildInviteAcceptSignedBytes c) (\<lambda>b. signEd25519Over keys b linkPrivateKey))"

definition verifyDeclared ::
  "crypto_api \<Rightarrow> signing_api \<Rightarrow> invite_accept_context \<Rightarrow> ustr \<Rightarrow> ustr \<Rightarrow> string \<Rightarrow> crypto_error \<Rightarrow> unit crypto_result" where
  "verifyDeclared api keys c signatureHex declaredKeyHex declaredField onInvalid =
     require_valid (acceptContextInvalidField c)
       (case decode_hex declaredKeyHex of
          None \<Rightarrow> Rejected (Invalid_Input declaredField)
        | Some keyBytes \<Rightarrow>
            then_call (importSigningPublicKey keys keyBytes)
              (\<lambda>publicKey. with_bytes (buildInviteAcceptSignedBytes c)
                 (\<lambda>b. verifyEd25519Over api b signatureHex publicKey onInvalid)))"

definition verifyInviteAcceptSignature ::
  "crypto_api \<Rightarrow> signing_api \<Rightarrow> invite_accept_context \<Rightarrow> ustr \<Rightarrow> unit crypto_result" where
  "verifyInviteAcceptSignature api keys c signatureHex =
     verifyDeclared api keys c signatureHex (ia_inviteeSigPubHex c) ''context inviteeSigPubHex''
       Invite_Accept_Signature_Invalid"

definition verifyInviteLinkSignature ::
  "crypto_api \<Rightarrow> signing_api \<Rightarrow> invite_accept_context \<Rightarrow> ustr \<Rightarrow> unit crypto_result" where
  "verifyInviteLinkSignature api keys c linkSignatureHex =
     verifyDeclared api keys c linkSignatureHex (ia_linkPubHex c) ''context linkPubHex'' Invite_Link_Signature_Invalid"

section \<open>The issuance of an invite\<close>

record invite_issue_context = scope_payload_fields +
  ii_suite :: ustr
  ii_inviteId :: ustr
  ii_projectId :: ustr
  ii_linkPubHex :: ustr
  ii_headHashHex :: ustr
  ii_headSeq :: int
  ii_role :: ustr
  ii_inviterUserId :: user_id
  ii_inviterEncPubHex :: ustr
  ii_inviterSigPubHex :: ustr

definition MAX_ENVIRONMENT_ID_BYTES :: nat where "MAX_ENVIRONMENT_ID_BYTES = 1024"

fun isBoundedEnvironmentId :: "js_value \<Rightarrow> bool" where
  "isBoundedEnvironmentId (JString value) \<longleftrightarrow>
     0 < length value \<and> length value \<le> MAX_ENVIRONMENT_ID_BYTES \<and> length (utf8_encode value) \<le> MAX_ENVIRONMENT_ID_BYTES"
| "isBoundedEnvironmentId _ \<longleftrightarrow> False"

definition issueContextTextInvalidField :: "invite_issue_context \<Rightarrow> string option" where
  "issueContextTextInvalidField c = first_invalid
     [(ii_suite c = [], ''context suite''),
      (ii_inviteId c = [], ''context inviteId''),
      (\<not> (\<exists>r \<in> set [Reader, Member, Admin, Owner]. ii_role c = role_name r), ''context role''),
      (ii_inviterUserId c = [], ''context inviterUserId''),
      (\<not> scopeShapeOk (JString (scope_kind_name (scopeKind c))) (JArray (map JString (scopeEnvironmentIds c)))
            isBoundedEnvironmentId, ''context scope'')]"

definition issueContextBinaryInvalidField :: "invite_issue_context \<Rightarrow> string option" where
  "issueContextBinaryInvalidField c = first_invalid
     [(\<not> isLowercaseHexOfLength (ii_linkPubHex c) PUB_KEY_HEX_LENGTH, ''context linkPubHex''),
      (\<not> isLowercaseHexOfLength (ii_headHashHex c) SHA256_HEX_LENGTH, ''context headHashHex''),
      (\<not> isLowercaseHexOfLength (ii_inviterEncPubHex c) PUB_KEY_HEX_LENGTH, ''context inviterEncPubHex''),
      (\<not> isLowercaseHexOfLength (ii_inviterSigPubHex c) PUB_KEY_HEX_LENGTH, ''context inviterSigPubHex''),
      (counter_invalid (ii_headSeq c), ''context headSeq'')]"

definition issueContextInvalidField :: "invite_issue_context \<Rightarrow> string option" where
  "issueContextInvalidField c = first_reason (issueContextTextInvalidField c) (issueContextBinaryInvalidField c)"

definition issue_fields :: "invite_issue_context \<Rightarrow> lp_field list" where
  "issue_fields c =
     [LpStr (ii_inviteId c), LpStr (ii_projectId c), LpStr (ii_linkPubHex c), LpStr (ii_headHashHex c),
      LpNum (ii_headSeq c), LpStr (ii_role c), LpStr (ii_inviterUserId c), LpStr (ii_inviterEncPubHex c),
      LpStr (ii_inviterSigPubHex c)]"

definition buildInviteIssueSignedBytes :: "invite_issue_context \<Rightarrow> bytes option" where
  "buildInviteIssueSignedBytes c =
     with_scope_fields (LpStr (domain_string (ii_suite c) ''invite-issue'') # issue_fields c) c"

definition signInviteIssue :: "signing_api \<Rightarrow> invite_issue_context \<Rightarrow> bytes \<Rightarrow> ustr crypto_result" where
  "signInviteIssue keys c signingKey =
     require_valid (issueContextInvalidField c)
       (with_bytes (buildInviteIssueSignedBytes c) (\<lambda>b. signEd25519Over keys b signingKey))"

definition verifyInviteIssueSignature ::
  "crypto_api \<Rightarrow> signing_api \<Rightarrow> invite_issue_context \<Rightarrow> ustr \<Rightarrow> unit crypto_result" where
  "verifyInviteIssueSignature api keys c signatureHex =
     require_valid (issueContextInvalidField c)
       (case decode_hex (ii_inviterSigPubHex c) of
          None \<Rightarrow> Rejected (Invalid_Input ''context inviterSigPubHex'')
        | Some keyBytes \<Rightarrow>
            then_call (importSigningPublicKey keys keyBytes)
              (\<lambda>publicKey. with_bytes (buildInviteIssueSignedBytes c)
                 (\<lambda>b. verifyEd25519Over api b signatureHex publicKey Invite_Issue_Signature_Invalid)))"

section \<open>What the bytes bind\<close>

definition dek_wrap_signature_texts :: "dek_wrap_signature_context \<Rightarrow> ustr list" where
  "dek_wrap_signature_texts c =
     [dws_suite c, dws_projectId c, dws_environmentId c, dws_recipientUserId c, dws_recipientEncPubHex c, dws_encHex c,
      dws_ciphertextHex c, dws_signerUserId c]"

definition accept_texts :: "invite_accept_context \<Rightarrow> ustr list" where
  "accept_texts c =
     [ia_suite c, ia_projectId c, ia_linkPubHex c, ia_inviteeUserId c, ia_inviteeEncPubHex c, ia_inviteeSigPubHex c]"

definition issue_texts :: "invite_issue_context \<Rightarrow> ustr list" where
  "issue_texts c =
     [ii_suite c, ii_inviteId c, ii_projectId c, ii_linkPubHex c, ii_headHashHex c, ii_role c, ii_inviterUserId c,
      ii_inviterEncPubHex c, ii_inviterSigPubHex c] @ scopeEnvironmentIds c"

interpretation wrap_registration:
  signed_statement dws_suite "\<lambda>_. ''dek-wrap-sig''" dek_wrap_signature_fields dek_wrap_signature_texts "\<lambda>c. c"
  by unfold_locales (auto simp: plain_name_def dek_wrap_signature_texts_def dek_wrap_signature_fields_def)

interpretation invite_acceptance:
  signed_statement ia_suite "\<lambda>_. ''invite-accept-v2''" accept_fields accept_texts "\<lambda>c. c"
  by unfold_locales (auto simp: plain_name_def accept_texts_def accept_fields_def)

lemma well_formed_append: "well_formed s \<Longrightarrow> well_formed t \<Longrightarrow> well_formed (s @ t)"
proof (induction s rule: well_formed.induct)
  case (2 u)
  then show ?case by (cases t) auto
qed (auto split: if_splits)

lemma issue_statement:
  assumes "buildInviteIssueSignedBytes c = Some b"
  obtains fs where "statement_bytes (ii_suite c) ''invite-issue'' fs = Some b"
  using assms by (auto simp: buildInviteIssueSignedBytes_def with_scope_fields_def statement_bytes_def Option.bind_eq_Some_conv)

lemma issue_bytes_determine:
  assumes "buildInviteIssueSignedBytes c = Some b" and "buildInviteIssueSignedBytes c' = Some b"
    and "list_all well_formed (issue_texts c)" and "list_all well_formed (issue_texts c')"
  shows "c = c'"
proof -
  let ?fs = "\<lambda>c. LpStr (domain_string (ii_suite c) ''invite-issue'') # issue_fields c"
  have plain: "plain_name ''invite-issue''" by (simp add: plain_name_def)
  obtain fs fs' where "statement_bytes (ii_suite c) ''invite-issue'' fs = Some b"
    "statement_bytes (ii_suite c') ''invite-issue'' fs' = Some b"
    using issue_statement assms(1,2) by metis
  from statement_bytes_name [OF this plain plain] have suite: "ii_suite c = ii_suite c'"
    using assms(3,4) by (auto simp: issue_texts_def dest: utf8_encode_inj)
  have "well_formed (domain_string (ii_suite c) ''invite-issue'')"
    using assms(3) unfolding domain_string_def
    by (intro well_formed_append) (auto simp: issue_texts_def lit_def high_surrogate_def low_surrogate_def)
  then have "list_all2 same_kind (?fs c) (?fs c')"
    using assms(3,4) suite by (simp add: issue_fields_def issue_texts_def)
  moreover have "list_all well_formed (scopeEnvironmentIds c)" "list_all well_formed (scopeEnvironmentIds c')"
    using assms(3,4) by (simp_all add: issue_texts_def)
  ultimately have "?fs c = ?fs c' \<and> scopeKind c = scopeKind c' \<and> scopeEnvironmentIds c = scopeEnvironmentIds c'"
    using assms(1,2) unfolding buildInviteIssueSignedBytes_def by (intro with_scope_fields_inj)
  with suite show ?thesis by (cases c; cases c') (simp add: issue_fields_def)
qed

end
