(* ===== verification/Statement_Binding.thy ===== *)
theory Statement_Binding
  imports Statement_Example Registration_Statements
begin

text \<open>
  What the signed bytes and the digests bind. A key signs chain entries, values, metadata statements,
  manifests, head attestations, wrap registrations and invites alike; the domain strings keep the kinds
  apart, and within one kind the bytes determine every field. A digest determines the set of its entries.
\<close>

section \<open>One signature, one message\<close>

datatype signed_message =
    Entry_Message chain_entry
  | Value_Message value_signature_context
  | Meta_Message meta_statement_context
  | Manifest_Message env_manifest_context
  | Attestation_Message head_attestation_context
  | Wrap_Message dek_wrap_signature_context
  | Accept_Message invite_accept_context
  | Issue_Message invite_issue_context

definition meta_message_bytes :: "meta_statement_context \<Rightarrow> bytes option" where
  "meta_message_bytes c = (case checkedMetaLayout c of Accepted l \<Rightarrow> encodeMetaSignedBytes c l | _ \<Rightarrow> None)"

fun message_bytes :: "signed_message \<Rightarrow> bytes option" where
  "message_bytes (Entry_Message e) = (if entry_suite e = SUITE_ID then canonicalChainSignedBytes e else None)"
| "message_bytes (Value_Message c) = buildValueSignedBytes c"
| "message_bytes (Meta_Message c) = meta_message_bytes c"
| "message_bytes (Manifest_Message c) = buildEnvManifestSignedBytes c"
| "message_bytes (Attestation_Message c) = buildHeadAttestationSignedBytes c"
| "message_bytes (Wrap_Message c) = buildDekWrapSignatureBytes c"
| "message_bytes (Accept_Message c) = buildInviteAcceptSignedBytes c"
| "message_bytes (Issue_Message c) = buildInviteIssueSignedBytes c"

fun message_well_formed :: "signed_message \<Rightarrow> bool" where
  "message_well_formed (Entry_Message e) \<longleftrightarrow> well_formed_entry e"
| "message_well_formed (Value_Message c) \<longleftrightarrow> list_all well_formed (value_texts c)"
| "message_well_formed (Meta_Message c) \<longleftrightarrow>
     (\<forall>l. checkedMetaLayout c = Accepted l \<longrightarrow> list_all well_formed (meta_texts c l))"
| "message_well_formed (Manifest_Message c) \<longleftrightarrow> list_all well_formed (manifest_texts c)"
| "message_well_formed (Attestation_Message c) \<longleftrightarrow> list_all well_formed (attestation_texts c)"
| "message_well_formed (Wrap_Message c) \<longleftrightarrow> list_all well_formed (dek_wrap_signature_texts c)"
| "message_well_formed (Accept_Message c) \<longleftrightarrow> list_all well_formed (accept_texts c)"
| "message_well_formed (Issue_Message c) \<longleftrightarrow> list_all well_formed (issue_texts c)"

text \<open>
  What is signed of a message: all of it, up to an entry's own signature and to whether layout 1 of a
  metadata statement is written out or left to its default.
\<close>

fun signed_content :: "signed_message \<Rightarrow> signed_message" where
  "signed_content (Entry_Message e) = Entry_Message (e\<lparr>entry_signatureHex := []\<rparr>)"
| "signed_content (Meta_Message c) =
     Meta_Message (c\<lparr>met_layoutVersion := Some (metaLayoutVersionOf (met_layoutVersion c))\<rparr>)"
| "signed_content m = m"

fun message_name :: "signed_message \<Rightarrow> string set" where
  "message_name (Entry_Message e) = {''v1''}"
| "message_name (Value_Message c) = {''value-sig''}"
| "message_name (Meta_Message c) = {''var-meta-sig'', ''env-meta-sig'', ''var-meta-sig-v3''}"
| "message_name (Manifest_Message c) = {''env-manifest-sig''}"
| "message_name (Attestation_Message c) = {''head-attestation''}"
| "message_name (Wrap_Message c) = {''dek-wrap-sig''}"
| "message_name (Accept_Message c) = {''invite-accept-v2''}"
| "message_name (Issue_Message c) = {''invite-issue''}"

lemma names_plain: "name \<in> message_name m \<Longrightarrow> plain_name name"
  by (cases m) (auto simp: plain_name_def)

lemma suite_domain: "SUITE_ID = domain_string (lit ''maruhi'') ''v1''"
  by (simp add: SUITE_ID_def domain_string_def lit_def)

lemma message_statement:
  assumes "message_bytes m = Some b"
  obtains s name fs where "statement_bytes s name fs = Some b" and "name \<in> message_name m"
proof (cases m)
  case (Entry_Message e)
  with assms obtain p where "entry_suite e = SUITE_ID" "encode_lp (signed_fields e p) = Some b"
    by (auto simp: canonicalChainSignedBytes_def Option.bind_eq_Some_conv split: if_splits)
  then have "statement_bytes (lit ''maruhi'') ''v1'' (tl (signed_fields e p)) = Some b"
    by (simp add: statement_bytes_def signed_fields_def suite_domain)
  with Entry_Message show ?thesis by (intro that) auto
next
  case (Meta_Message c)
  with assms obtain l where "encodeMetaSignedBytes c l = Some b" by (auto simp: meta_message_bytes_def split: outcome.splits)
  then have "statement_bytes (met_suite c) (meta_name c l) (meta_fields c l) = Some b" by (simp add: encodeMetaSignedBytes_def)
  moreover have "meta_name c l \<in> message_name m"
    using Meta_Message by (cases l) (auto split: meta_statement_target.split)
  ultimately show ?thesis by (rule that)
next
  case (Issue_Message c)
  with assms have "buildInviteIssueSignedBytes c = Some b" by simp
  then obtain fs where "statement_bytes (ii_suite c) ''invite-issue'' fs = Some b" by (rule issue_statement)
  then show ?thesis by (rule that) (simp add: Issue_Message)
qed (use assms in \<open>auto simp: buildValueSignedBytes_def buildEnvManifestSignedBytes_def
      buildHeadAttestationSignedBytes_def buildDekWrapSignatureBytes_def buildInviteAcceptSignedBytes_def intro: that\<close>)

lemma same_message_kind:
  assumes "message_bytes m = Some b" and "message_bytes m' = Some b"
  shows "message_name m \<inter> message_name m' \<noteq> {}"
proof -
  obtain s n fs where m: "statement_bytes s n fs = Some b" "n \<in> message_name m" using message_statement [OF assms(1)] .
  obtain s' n' fs' where m': "statement_bytes s' n' fs' = Some b" "n' \<in> message_name m'" using message_statement [OF assms(2)] .
  have "n = n'" using statement_bytes_name [OF m(1) m'(1)] names_plain m(2) m'(2) by blast
  with m(2) m'(2) show ?thesis by blast
qed

lemma same_meta_message:
  assumes "meta_message_bytes c = Some b" and "meta_message_bytes c' = Some b"
    and "message_well_formed (Meta_Message c)" and "message_well_formed (Meta_Message c')"
  shows "signed_content (Meta_Message c) = signed_content (Meta_Message c')"
proof -
  from assms(1) obtain l where l: "checkedMetaLayout c = Accepted l" "encodeMetaSignedBytes c l = Some b"
    by (auto simp: meta_message_bytes_def split: outcome.splits)
  from assms(2) obtain l' where l': "checkedMetaLayout c' = Accepted l'" "encodeMetaSignedBytes c' l' = Some b"
    by (auto simp: meta_message_bytes_def split: outcome.splits)
  have "list_all well_formed (meta_texts c l)" "list_all well_formed (meta_texts c' l')"
    using assms(3,4) l(1) l'(1) by simp_all
  from meta_bytes_determine [OF l(1) l'(1) l(2) l'(2) this] show ?thesis by (cases c; cases c') simp
qed

text \<open>
  C22. Signatures do not transplant: two well-formed messages of any of the eight kinds a user's key signs
  (chain entry, value, metadata statement, manifest, head attestation, wrap registration, invite
  acceptance, invite issuance) with the same signed bytes are the same message, so a signature made for
  one is never valid for another kind, suite, project, environment, layout, version or position.
\<close>

theorem signatures_never_transplant:
  assumes "message_bytes m = Some b" and "message_bytes m' = Some b"
    and "message_well_formed m" and "message_well_formed m'"
  shows "signed_content m = signed_content m'"
proof (cases m)
  case (Entry_Message e)
  then obtain e' where m': "m' = Entry_Message e'" using same_message_kind [OF assms(1,2)] by (cases m') auto
  have "canonicalChainSignedBytes e = Some b" "canonicalChainSignedBytes e' = Some b" "well_formed_entry e" "well_formed_entry e'"
    using assms Entry_Message m' by (auto split: if_splits)
  from signed_bytes_determine_fields [OF this] Entry_Message m' show ?thesis by (cases e; cases e') simp
next
  case (Value_Message c)
  then obtain c' where "m' = Value_Message c'" using same_message_kind [OF assms(1,2)] by (cases m') auto
  with Value_Message assms value_statement.bytes_determine [of c b c'] show ?thesis
    by (simp add: buildValueSignedBytes_def)
next
  case (Meta_Message c)
  then obtain c' where "m' = Meta_Message c'" using same_message_kind [OF assms(1,2)] by (cases m') auto
  with Meta_Message assms same_meta_message [of c b c'] show ?thesis by simp
next
  case (Manifest_Message c)
  then obtain c' where "m' = Manifest_Message c'" using same_message_kind [OF assms(1,2)] by (cases m') auto
  with Manifest_Message assms manifest_statement.bytes_determine [of c b c'] show ?thesis
    by (simp add: buildEnvManifestSignedBytes_def)
next
  case (Attestation_Message c)
  then obtain c' where "m' = Attestation_Message c'" using same_message_kind [OF assms(1,2)] by (cases m') auto
  with Attestation_Message assms attestation_statement.bytes_determine [of c b c'] show ?thesis
    by (simp add: buildHeadAttestationSignedBytes_def)
next
  case (Wrap_Message c)
  then obtain c' where "m' = Wrap_Message c'" using same_message_kind [OF assms(1,2)] by (cases m') auto
  with Wrap_Message assms wrap_registration.bytes_determine [of c b c'] show ?thesis
    by (simp add: buildDekWrapSignatureBytes_def)
next
  case (Accept_Message c)
  then obtain c' where "m' = Accept_Message c'" using same_message_kind [OF assms(1,2)] by (cases m') auto
  with Accept_Message assms invite_acceptance.bytes_determine [of c b c'] show ?thesis
    by (simp add: buildInviteAcceptSignedBytes_def)
next
  case (Issue_Message c)
  then obtain c' where "m' = Issue_Message c'" using same_message_kind [OF assms(1,2)] by (cases m') auto
  with Issue_Message assms issue_bytes_determine [of c b c'] show ?thesis by simp
qed

theorem signatures_never_transplant_witness:
  "\<exists>b. message_bytes (Entry_Message (demo_entry 3 ''alice'' 2 (Direct op_create))) = Some b \<and>
     message_bytes (Entry_Message (demo_entry 3 ''alice'' 2 (Direct op_create)\<lparr>entry_signatureHex := demo_sig 9\<rparr>)) = Some b \<and>
     signed_content (Entry_Message (demo_entry 3 ''alice'' 2 (Direct op_create))) =
     signed_content (Entry_Message (demo_entry 3 ''alice'' 2 (Direct op_create)\<lparr>entry_signatureHex := demo_sig 9\<rparr>))"
proof -
  let ?e = "demo_entry 3 ''alice'' 2 (Direct op_create)"
  let ?f = "?e\<lparr>entry_signatureHex := demo_sig 9\<rparr>"
  have ok: "entry_ok ?e"
    using demo_ops_ok(2) by (simp add: demo_entry_def entry_ok_def bounded_lit FINGERPRINT_BYTES_def SIGNATURE_BYTES_def
        safe_int_def max_safe_integer_def operation_ok_def)
  obtain b where b: "canonicalChainSignedBytes ?e = Some b"
    using entry_bytes_defined(1) [OF ok] demo_ops_bounded(2)
    by (auto simp: demo_entry_def safe_int_def max_safe_integer_def SHA256_BYTES_def bounded_operation_def)
  then have bytes: "message_bytes (Entry_Message ?e) = Some b" "message_bytes (Entry_Message ?f) = Some b"
    by (simp_all add: canonicalChainSignedBytes_def signed_fields_def demo_entry_def)
  have "message_well_formed (Entry_Message ?e)" "message_well_formed (Entry_Message ?f)"
    using demo_well_formed by (auto simp: demo_entries_def well_formed_entry_def entry_texts_def demo_entry_def demo_sig_def)
  with bytes signatures_never_transplant [OF bytes] show ?thesis by blast
qed

section \<open>Signing and verifying\<close>

definition key_pair :: "crypto_api \<Rightarrow> signing_api \<Rightarrow> bytes \<Rightarrow> bytes \<Rightarrow> bool" where
  "key_pair api keys secret public \<longleftrightarrow>
     (\<forall>message signature. api_ed25519_sign keys secret message = Some signature \<longrightarrow>
        length signature = SIGNATURE_BYTES \<and> api_ed25519_verify api public signature message = Some True)"

lemma signed_bytes_verify:
  assumes "key_pair api keys secret public" and "sign_bytes keys secret message = Accepted signatureHex"
  shows "verifyEd25519Over api message signatureHex public e = Accepted ()"
  using assms by (auto simp: key_pair_def sign_bytes_def verifyEd25519Over_Accepted split: option.splits)

definition declares_key :: "signing_api \<Rightarrow> ustr \<Rightarrow> bytes \<Rightarrow> bool" where
  "declares_key keys keyHex public \<longleftrightarrow>
     decode_hex keyHex = Some public \<and> importSigningPublicKey keys public = Accepted public"

lemma signed_entry_verifies:
  assumes "key_pair api keys secret public" and "signChainEntry keys u secret = Accepted entry"
    and "declares_key keys keyHex public"
  shows "verifyEntrySignature api entry keyHex"
proof -
  from assms(2) obtain b signature where b: "canonicalChainSignedBytes u = Some b"
    and sig: "api_ed25519_sign keys secret b = Some signature"
    and entry: "entry = unsigned_chain_entry.extend u (chain_entry.fields (encode_hex signature))"
    by (auto simp: signChainEntry_def split: if_splits option.splits)
  have "canonicalChainSignedBytes entry = Some b" and "entry_signatureHex entry = encode_hex signature"
    using b unfolding entry
    by (simp_all add: canonicalChainSignedBytes_def signed_fields_def unsigned_chain_entry.extend_def chain_entry.fields_def)
  with assms(1,3) sig show ?thesis by (auto simp: verifyEntrySignature_def key_pair_def declares_key_def)
qed

text \<open>
  C28. What is signed verifies: for a key pair whose platform signatures verify, a signature that
  \<open>signValue\<close>, \<open>signMetaStatement\<close>, \<open>signEnvManifest\<close>, \<open>signHeadAttestation\<close> or \<open>signDekWrap\<close> returns passes the
  signature verification of the same context; a chain entry \<open>signChainEntry\<close> returns passes the entry
  check under its key, and an invite's acceptance, co-signature and issuance pass when the context declares
  the signing key.
\<close>

theorem signed_statements_verify:
  assumes "key_pair api keys secret public"
  shows "(signValue keys v secret = Accepted sv \<longrightarrow> verifyValueSignature api v sv public = Accepted ()) \<and>
    (signMetaStatement keys m secret = Accepted sm \<longrightarrow> verifyMetaStatementSignature api m sm public = Accepted ()) \<and>
    (signEnvManifest keys e secret = Accepted se \<longrightarrow> verifyEnvManifestSignature api e se public = Accepted ()) \<and>
    (signHeadAttestation keys a secret = Accepted sa \<longrightarrow> verifyHeadAttestationSignature api a sa public = Accepted ()) \<and>
    (signDekWrap keys w secret = Accepted sw \<longrightarrow> verifyDekWrapSignature api w sw public = Accepted ()) \<and>
    (signChainEntry keys u secret = Accepted entry \<and> declares_key keys keyHex public \<longrightarrow>
       verifyEntrySignature api entry keyHex) \<and>
    (signInviteAccept keys i secret = Accepted si \<and> declares_key keys (ia_inviteeSigPubHex i) public \<longrightarrow>
       verifyInviteAcceptSignature api keys i si = Accepted ()) \<and>
    (signInviteLink keys i secret = Accepted sl \<and> declares_key keys (ia_linkPubHex i) public \<longrightarrow>
       verifyInviteLinkSignature api keys i sl = Accepted ()) \<and>
    (signInviteIssue keys n secret = Accepted sn \<and> declares_key keys (ii_inviterSigPubHex n) public \<longrightarrow>
       verifyInviteIssueSignature api keys n sn = Accepted ())"
proof (intro conjI impI)
  note verifies = signed_bytes_verify [OF assms]
  note invites = declares_key_def signInviteAccept_def signInviteLink_def signInviteIssue_def verifyInviteAcceptSignature_def
    verifyInviteLinkSignature_def verifyInviteIssueSignature_def verifyDeclared_def signEd25519Over_def
  show "verifyValueSignature api v sv public = Accepted ()" if "signValue keys v secret = Accepted sv"
    using that verifies by (auto simp: signValue_def verifyValueSignature_def reject_when_def split: option.splits)
  show "verifyMetaStatementSignature api m sm public = Accepted ()" if "signMetaStatement keys m secret = Accepted sm"
    using that verifies by (auto simp: signMetaStatement_def verifyMetaStatementSignature_def split: option.splits)
  show "verifyEnvManifestSignature api e se public = Accepted ()" if "signEnvManifest keys e secret = Accepted se"
    using that verifies by (auto simp: signEnvManifest_def verifyEnvManifestSignature_def reject_when_def split: option.splits)
  show "verifyHeadAttestationSignature api a sa public = Accepted ()" if "signHeadAttestation keys a secret = Accepted sa"
    using that verifies by (auto simp: signHeadAttestation_def verifyHeadAttestationSignature_def signEd25519Over_def)
  show "verifyDekWrapSignature api w sw public = Accepted ()" if "signDekWrap keys w secret = Accepted sw"
    using that verifies by (auto simp: signDekWrap_def verifyDekWrapSignature_def signEd25519Over_def)
  show "verifyEntrySignature api entry keyHex"
    if "signChainEntry keys u secret = Accepted entry \<and> declares_key keys keyHex public"
    using that signed_entry_verifies [OF assms] by blast
  show "verifyInviteAcceptSignature api keys i si = Accepted ()"
    if "signInviteAccept keys i secret = Accepted si \<and> declares_key keys (ia_inviteeSigPubHex i) public"
    using that verifies by (auto simp: invites)
  show "verifyInviteLinkSignature api keys i sl = Accepted ()"
    if "signInviteLink keys i secret = Accepted sl \<and> declares_key keys (ia_linkPubHex i) public"
    using that verifies by (auto simp: invites)
  show "verifyInviteIssueSignature api keys n sn = Accepted ()"
    if "signInviteIssue keys n secret = Accepted sn \<and> declares_key keys (ii_inviterSigPubHex n) public"
    using that verifies by (auto simp: invites)
qed

theorem signed_statements_verify_witness:
  "\<exists>signatureHex. signHeadAttestation demo_keys demo_attestation [] = Accepted signatureHex \<and>
     verifyHeadAttestationSignature demo_api demo_attestation signatureHex [] = Accepted ()"
proof -
  have pair: "key_pair demo_api demo_keys [] []" by (simp add: key_pair_def demo_keys_def SIGNATURE_BYTES_def)
  have "attestationContextInvalidField demo_attestation = None" "list_all short_text (attestation_texts demo_attestation)"
    by (simp_all add: demo_attestation_def attestationContextInvalidField_def attestation_texts_def)
  moreover from attestation_bytes_defined [OF this] obtain b where "buildHeadAttestationSignedBytes demo_attestation = Some b"
    by blast
  ultimately have "signHeadAttestation demo_keys demo_attestation [] = Accepted (encode_hex (replicate 64 1))"
    by (simp add: signHeadAttestation_def signEd25519Over_def sign_bytes_def demo_keys_def)
  with signed_statements_verify [OF pair, of _ _ _ _ _ _ demo_attestation] show ?thesis by blast
qed

text \<open>
  Declared ages: the texts \<open>isMetaMaxAgeDays\<close> accepts are the empty text and the decimal forms of
  the numbers from 1 to 3650, each number in exactly one form, so the signed text determines the number.
\<close>

theorem meta_age_texts:
  "isMetaMaxAgeDays s \<longleftrightarrow> s = [] \<or> (\<exists>n. 1 \<le> n \<and> n \<le> 3650 \<and> s = decimal n)"
  by (rule declarable_ages)

section \<open>Digests\<close>

definition digest_inputs :: "'e digest_spec \<Rightarrow> 'e list list \<Rightarrow> bytes set" where
  "digest_inputs spec inputs = {b. \<exists>entries \<in> set inputs. digest_bytes spec entries = Some b}"

lemma collision_free_inputs:
  assumes "collision_free_on sha256 (digest_inputs spec [entries, entries'])"
    and "digest_bytes spec entries = Some b" and "digest_bytes spec entries' = Some b'" and "sha256 b = sha256 b'"
  shows "b = b'"
  using assms by (auto simp: collision_free_on_def digest_inputs_def)

lemma selected_iff: "e \<in> set (selectEnvValuesDigestEntries vs) \<longleftrightarrow> Active_Variable e \<in> set vs"
  by (induction vs rule: list.induct)
    (auto simp: selectEnvValuesDigestEntries_def List.map_filter_simps elim: selected_entry.elims split: option.splits)

lemma selected_mset:
  "mset (selectEnvValuesDigestEntries vs) = mset (selectEnvValuesDigestEntries vs') \<longleftrightarrow>
   filter_mset (\<lambda>v. \<exists>e. v = Active_Variable e) (mset vs) = filter_mset (\<lambda>v. \<exists>e. v = Active_Variable e) (mset vs')"
proof -
  have "filter_mset (\<lambda>v. \<exists>e. v = Active_Variable e) (mset xs) =
      image_mset Active_Variable (mset (selectEnvValuesDigestEntries xs))" for xs
  proof (induction xs)
    case (Cons x xs)
    then show ?case by (cases x) (simp_all add: selectEnvValuesDigestEntries_def List.map_filter_simps)
  qed (simp add: selectEnvValuesDigestEntries_def List.map_filter_simps)
  then show ?thesis by (simp add: inj_eq [OF multiset.inj_map] inj_def)
qed

text \<open>
  The manifest's variables digest is canonical: for entries with well-formed identifiers another
  list has the same digest exactly when it is a permutation of the first, unless the hash function
  collides on the two digests' inputs.
\<close>

lemma variables_digest_canonical:
  assumes "computeVariablesDigest sha256 suite entries = Accepted digest"
    and "\<forall>e \<in> set entries \<union> set entries'. well_formed (ve_variableId e)"
    and "collision_free_on sha256 (digest_inputs (variables_digest.spec_for suite) [entries, entries'])"
  shows "computeVariablesDigest sha256 suite entries' = Accepted digest \<longleftrightarrow> mset entries = mset entries'"
proof
  note free = collision_free_inputs [OF assms(3)]
  show "mset entries = mset entries'" if "computeVariablesDigest sha256 suite entries' = Accepted digest"
    using variables_digest.digest_determines_entries [OF _ _ assms(2) free] assms(1) that
    by (simp add: computeVariablesDigest_spec)
  show "computeVariablesDigest sha256 suite entries' = Accepted digest" if "mset entries = mset entries'"
    using variables_digest.digest_order_independent [OF _ that] assms(1,2) by (simp add: computeVariablesDigest_spec)
qed

text \<open>
  The checkpoint's values digest is canonical: it depends on the active variables only, and two
  variable lists have the same digest exactly when their active entries agree up to order, unless the
  hash function collides on the digests' inputs.
\<close>

lemma values_digest_canonical:
  assumes "computeEnvValuesDigest sha256 suite (selectEnvValuesDigestEntries vs) = Accepted digest"
    and "\<forall>e. Active_Variable e \<in> set vs \<union> set vs' \<longrightarrow> well_formed (vd_variableId e)"
    and "collision_free_on sha256 (digest_inputs (values_digest.spec_for suite)
      [selectEnvValuesDigestEntries vs, selectEnvValuesDigestEntries vs'])"
  shows "computeEnvValuesDigest sha256 suite (selectEnvValuesDigestEntries vs') = Accepted digest \<longleftrightarrow>
    filter_mset (\<lambda>v. \<exists>e. v = Active_Variable e) (mset vs) = filter_mset (\<lambda>v. \<exists>e. v = Active_Variable e) (mset vs')"
proof -
  note free = collision_free_inputs [OF assms(3)]
  have ids: "\<forall>e \<in> set (selectEnvValuesDigestEntries vs) \<union> set (selectEnvValuesDigestEntries vs'). well_formed (vd_variableId e)"
    using assms(2) by (auto simp: selected_iff)
  have "computeEnvValuesDigest sha256 suite (selectEnvValuesDigestEntries vs') = Accepted digest \<longleftrightarrow>
      mset (selectEnvValuesDigestEntries vs) = mset (selectEnvValuesDigestEntries vs')"
    using values_digest.digest_determines_entries [OF _ _ ids free]
      values_digest.digest_order_independent [of sha256 suite "selectEnvValuesDigestEntries vs" digest] assms(1) ids
    by (auto simp: computeEnvValuesDigest_spec)
  then show ?thesis by (simp add: selected_mset)
qed

text \<open>
  C27. The two digests are canonical. For entries with well-formed identifiers another list has the
  manifest's variables digest of the first exactly when it is a permutation of it. The checkpoint's values
  digest depends on the active variables only, and two variable lists have the same one exactly when
  their active entries agree up to order. Both unless the hash function collides on the digests' inputs.
\<close>

theorem digests_canonical:
  assumes "computeVariablesDigest sha256 suite entries = Accepted digest"
    and "\<forall>e \<in> set entries \<union> set entries'. well_formed (ve_variableId e)"
    and "collision_free_on sha256 (digest_inputs (variables_digest.spec_for suite) [entries, entries'])"
    and "computeEnvValuesDigest sha256 suite (selectEnvValuesDigestEntries vs) = Accepted vdigest"
    and "\<forall>e. Active_Variable e \<in> set vs \<union> set vs' \<longrightarrow> well_formed (vd_variableId e)"
    and "collision_free_on sha256 (digest_inputs (values_digest.spec_for suite)
      [selectEnvValuesDigestEntries vs, selectEnvValuesDigestEntries vs'])"
  shows "(computeVariablesDigest sha256 suite entries' = Accepted digest \<longleftrightarrow> mset entries = mset entries') \<and>
    (computeEnvValuesDigest sha256 suite (selectEnvValuesDigestEntries vs') = Accepted vdigest \<longleftrightarrow>
      filter_mset (\<lambda>v. \<exists>e. v = Active_Variable e) (mset vs) = filter_mset (\<lambda>v. \<exists>e. v = Active_Variable e) (mset vs'))"
  using variables_digest_canonical [OF assms(1-3)] values_digest_canonical [OF assms(4-6)] by (rule conjI)

theorem digests_canonical_witness:
  "\<exists>digest vdigest. computeVariablesDigest demo_sha256 SUITE_ID
       [demo_digest_entry, demo_digest_entry\<lparr>ve_variableId := lit ''var-2''\<rparr>] = Accepted digest \<and>
     computeVariablesDigest demo_sha256 SUITE_ID
       [demo_digest_entry\<lparr>ve_variableId := lit ''var-2''\<rparr>, demo_digest_entry] = Accepted digest \<and>
     computeEnvValuesDigest demo_sha256 SUITE_ID (selectEnvValuesDigestEntries
       [Active_Variable \<lparr>vd_variableId = lit ''var-1'', vd_version = 1, vd_valueSigHashHex = key_hex 1\<rparr>]) = Accepted vdigest \<and>
     computeEnvValuesDigest demo_sha256 SUITE_ID (selectEnvValuesDigestEntries
       [Inactive_Variable (lit ''var-2'') (lit ''declared''),
        Active_Variable \<lparr>vd_variableId = lit ''var-1'', vd_version = 1, vd_valueSigHashHex = key_hex 1\<rparr>]) = Accepted vdigest"
proof -
  let ?a = demo_digest_entry and ?b = "demo_digest_entry\<lparr>ve_variableId := lit ''var-2''\<rparr>"
  have ids: "\<forall>e \<in> set [?a, ?b]. well_formed (ve_variableId e)" and distinct: "distinct (map ve_variableId [?a, ?b])"
    and short: "\<forall>e \<in> set [?a, ?b]. short_text (ve_variableId e)"
    by (simp_all add: demo_digest_entry_def)
  from variables_digest_not_Threw [OF _ short, of SUITE_ID demo_sha256] distinct
  obtain digest where digest: "computeVariablesDigest demo_sha256 SUITE_ID [?a, ?b] = Accepted digest"
    by (auto simp: computeVariablesDigest_def computeVariableKeyedDigest_def digestEntryInvalidField_def
        demo_digest_entry_def with_bytes_def split: option.splits)
  have "digest_bytes (variables_digest.spec_for SUITE_ID) [?a, ?b] = digest_bytes (variables_digest.spec_for SUITE_ID) [?b, ?a]"
    using variables_digest.order_irrelevant [of "[?a, ?b]" "[?b, ?a]" SUITE_ID] ids distinct
    by (simp add: digest_bytes_def)
  then have free: "collision_free_on demo_sha256 (digest_inputs (variables_digest.spec_for SUITE_ID) [[?a, ?b], [?b, ?a]])"
    by (auto simp: collision_free_on_def digest_inputs_def)
  let ?v = "\<lparr>vd_variableId = lit ''var-1'', vd_version = 1, vd_valueSigHashHex = key_hex 1\<rparr>"
  let ?vs = "[Active_Variable ?v]" and ?vs' = "[Inactive_Variable (lit ''var-2'') (lit ''declared''), Active_Variable ?v]"
  have selected: "selectEnvValuesDigestEntries ?vs = [?v]" "selectEnvValuesDigestEntries ?vs' = [?v]"
    by (simp_all add: selectEnvValuesDigestEntries_def List.map_filter_simps)
  have "computeEnvValuesDigest demo_sha256 SUITE_ID [?v] \<noteq> Threw" by (rule values_digest_not_Threw) simp_all
  then obtain vdigest where vals: "computeEnvValuesDigest demo_sha256 SUITE_ID (selectEnvValuesDigestEntries ?vs) = Accepted vdigest"
    unfolding selected
    by (auto simp: computeEnvValuesDigest_def computeVariableKeyedDigest_def valuesDigestEntryInvalidField_def
        with_bytes_def split: option.splits)
  have "collision_free_on demo_sha256 (digest_inputs (values_digest.spec_for SUITE_ID)
      [selectEnvValuesDigestEntries ?vs, selectEnvValuesDigestEntries ?vs'])"
    unfolding selected by (auto simp: collision_free_on_def digest_inputs_def)
  from digests_canonical [OF digest _ free vals _ this] ids digest vals show ?thesis by auto
qed

end
