(* ===== verification/Statement_Histories.thy ===== *)
theory Statement_Histories
  imports Statement_Binding
begin

text \<open>
  Versions of one variable, one metadata statement or one manifest, verified one after the other, each
  with the previous one as its predecessor. The signed bytes carry the hash of the previous ones, so the
  newest statement pins all of them; epochs, layouts and statuses move one way.
\<close>

section \<open>Verification in order\<close>

text \<open>Each input names the statement verified just before it; the first names none.\<close>

fun verified_in_order ::
  "('i \<Rightarrow> ustr crypto_result) \<Rightarrow> ('i \<Rightarrow> 'p option) \<Rightarrow> (ustr \<Rightarrow> 'i \<Rightarrow> 'p) \<Rightarrow> 'p option \<Rightarrow> 'i list \<Rightarrow> bool" where
  "verified_in_order verify pred_of as_pred p [] \<longleftrightarrow> True"
| "verified_in_order verify pred_of as_pred p (i # is) \<longleftrightarrow>
     pred_of i = p \<and>
     (case verify i of
        Accepted hash \<Rightarrow> verified_in_order verify pred_of as_pred (Some (as_pred hash i)) is
      | _ \<Rightarrow> False)"

lemma in_order_accepted:
  "verified_in_order verify pred_of as_pred p is \<Longrightarrow> n < length is \<Longrightarrow> \<exists>hash. verify (is ! n) = Accepted hash"
  by (induction "is" arbitrary: p n) (auto simp: nth_Cons split: outcome.splits nat.splits)

lemma in_order_next:
  "verified_in_order verify pred_of as_pred p is \<Longrightarrow> Suc n < length is \<Longrightarrow>
   \<exists>hash. verify (is ! n) = Accepted hash \<and> pred_of (is ! Suc n) = Some (as_pred hash (is ! n))"
proof (induction "is" arbitrary: p n)
  case (Cons i "is")
  then show ?case
  proof (cases n)
    case 0
    with Cons.prems show ?thesis by (cases "is") (auto split: outcome.splits)
  next
    case (Suc m)
    with Cons.prems obtain q where "verified_in_order verify pred_of as_pred q is" by (auto split: outcome.splits)
    with Cons.IH Suc Cons.prems(2) show ?thesis by simp
  qed
qed simp

section \<open>The newest statement pins its history\<close>

fun hash_linked :: "('c \<Rightarrow> bytes option) \<Rightarrow> ('c \<Rightarrow> ustr) \<Rightarrow> (bytes \<Rightarrow> bytes) \<Rightarrow> ustr \<Rightarrow> 'c list \<Rightarrow> bool" where
  "hash_linked bytes_of prev_of sha256 h [] \<longleftrightarrow> True"
| "hash_linked bytes_of prev_of sha256 h (c # cs) \<longleftrightarrow>
     prev_of c = h \<and>
     (case bytes_of c of None \<Rightarrow> False | Some b \<Rightarrow> hash_linked bytes_of prev_of sha256 (encode_hex (sha256 b)) cs)"

definition last_hash :: "('c \<Rightarrow> bytes option) \<Rightarrow> (bytes \<Rightarrow> bytes) \<Rightarrow> 'c list \<Rightarrow> ustr" where
  "last_hash bytes_of sha256 cs =
     (if cs = [] then [] else case bytes_of (last cs) of None \<Rightarrow> [] | Some b \<Rightarrow> encode_hex (sha256 b))"

lemma hash_linked_snoc:
  "hash_linked bytes_of prev_of sha256 [] (cs @ [c]) \<longleftrightarrow>
     hash_linked bytes_of prev_of sha256 [] cs \<and> prev_of c = last_hash bytes_of sha256 cs \<and> bytes_of c \<noteq> None"
proof -
  have "hash_linked bytes_of prev_of sha256 h (cs @ [c]) \<longleftrightarrow>
      hash_linked bytes_of prev_of sha256 h cs \<and> bytes_of c \<noteq> None \<and>
      prev_of c = (if cs = [] then h else last_hash bytes_of sha256 cs)" for h
    by (induction cs arbitrary: h) (auto simp: last_hash_def split: option.splits)
  from this [of "[]"] show ?thesis by (auto simp: last_hash_def)
qed

lemma hash_linked_bytes: "hash_linked bytes_of prev_of sha256 h cs \<Longrightarrow> c \<in> set cs \<Longrightarrow> bytes_of c \<noteq> None"
  by (induction cs arbitrary: h) (auto split: option.splits)

locale linked_statement =
  fixes bytes_of :: "'c \<Rightarrow> bytes option"
    and prev_of :: "'c \<Rightarrow> ustr"
    and texts_ok :: "'c \<Rightarrow> bool"
    and content :: "'c \<Rightarrow> 'v"
  assumes bytes_pin: "bytes_of c = Some b \<Longrightarrow> bytes_of c' = Some b \<Longrightarrow> texts_ok c \<Longrightarrow> texts_ok c' \<Longrightarrow> content c = content c'"
    and content_prev: "content c = content c' \<Longrightarrow> prev_of c = prev_of c'"
begin

lemma history_pinned:
  assumes "hash_linked bytes_of prev_of sha256 [] cs" and "hash_linked bytes_of prev_of sha256 [] ds"
    and "list_all texts_ok (cs @ ds)" and "collision_free_on sha256 {b. \<exists>c \<in> set (cs @ ds). bytes_of c = Some b}"
    and "\<And>b. sha256 b \<noteq> []" and "cs \<noteq> []" and "ds \<noteq> []" and "content (last cs) = content (last ds)"
  shows "map content cs = map content ds"
  using assms
proof (induction cs arbitrary: ds rule: rev_induct)
  case (snoc c cs)
  then obtain ds' d where ds: "ds = ds' @ [d]" by (cases ds rule: rev_cases) auto
  have links: "hash_linked bytes_of prev_of sha256 [] cs" "hash_linked bytes_of prev_of sha256 [] ds'"
    and prevs: "prev_of c = last_hash bytes_of sha256 cs" "prev_of d = last_hash bytes_of sha256 ds'"
    using snoc.prems(1,2) unfolding ds hash_linked_snoc by simp_all
  have same: "content c = content d" using snoc.prems(8) ds by simp
  then have hashes: "last_hash bytes_of sha256 cs = last_hash bytes_of sha256 ds'" using prevs content_prev [OF same] by simp
  have some: "\<exists>b. bytes_of (last xs) = Some b \<and> last_hash bytes_of sha256 xs = encode_hex (sha256 b)"
    if "xs \<noteq> []" "hash_linked bytes_of prev_of sha256 [] xs" for xs
    using hash_linked_bytes [OF that(2), of "last xs"] that(1) by (auto simp: last_hash_def)
  have empty: "last_hash bytes_of sha256 xs = [] \<longleftrightarrow> xs = []" if link: "hash_linked bytes_of prev_of sha256 [] xs" for xs
  proof (cases "xs = []")
    case False
    from some [OF this link] obtain b where "last_hash bytes_of sha256 xs = encode_hex (sha256 b)" by blast
    with False snoc.prems(5) [of b] encode_hex_inject [of "sha256 b" "[]"] show ?thesis by simp
  qed (simp add: last_hash_def)
  have ends: "cs = [] \<longleftrightarrow> ds' = []" using empty [OF links(1)] empty [OF links(2)] hashes by simp
  show ?case
  proof (cases "cs = []")
    case True
    with ends same ds show ?thesis by simp
  next
    case False
    with ends have ne: "ds' \<noteq> []" by simp
    from some [OF False links(1)] obtain b where b: "bytes_of (last cs) = Some b" "last_hash bytes_of sha256 cs = encode_hex (sha256 b)" by blast
    from some [OF ne links(2)] obtain b' where b': "bytes_of (last ds') = Some b'" "last_hash bytes_of sha256 ds' = encode_hex (sha256 b')" by blast
    have "sha256 b = sha256 b'" using b(2) b'(2) hashes encode_hex_inject by simp
    moreover have "last cs \<in> set (cs @ [c] @ ds)" "last ds' \<in> set (cs @ [c] @ ds)" using False ne ds by simp_all
    ultimately have "b = b'" using snoc.prems(4) b(1) b'(1) unfolding collision_free_on_def by fastforce
    moreover have "texts_ok (last cs)" "texts_ok (last ds')" using snoc.prems(3) False ne ds by (auto simp: list_all_iff)
    ultimately have last: "content (last cs) = content (last ds')" using b(1) b'(1) bytes_pin by blast
    have "collision_free_on sha256 {b. \<exists>x \<in> set (cs @ ds'). bytes_of x = Some b}"
      using snoc.prems(4) ds by (auto simp: collision_free_on_def)
    moreover have "list_all texts_ok (cs @ ds')" using snoc.prems(3) ds by simp
    ultimately have "map content cs = map content ds'"
      using snoc.IH [OF links _ _ snoc.prems(5) False ne last] by blast
    with same ds show ?thesis by simp
  qed
qed simp

end

section \<open>The three histories\<close>

interpretation value_history:
  linked_statement buildValueSignedBytes val_prevValueSigHashHex "\<lambda>c. list_all well_formed (value_texts c)" "\<lambda>c. c"
  by unfold_locales (auto simp: buildValueSignedBytes_def intro: value_statement.bytes_determine)

interpretation manifest_history:
  linked_statement buildEnvManifestSignedBytes man_prevManifestSigHashHex "\<lambda>c. list_all well_formed (manifest_texts c)" "\<lambda>c. c"
  by unfold_locales (auto simp: buildEnvManifestSignedBytes_def intro: manifest_statement.bytes_determine)

interpretation meta_history:
  linked_statement meta_message_bytes met_prevMetaSigHashHex "\<lambda>c. message_well_formed (Meta_Message c)"
    "\<lambda>c. signed_content (Meta_Message c)"
proof unfold_locales
  show "signed_content (Meta_Message c) = signed_content (Meta_Message c') \<Longrightarrow> met_prevMetaSigHashHex c = met_prevMetaSigHashHex c'"
    for c c' by (cases c; cases c') simp
qed (rule same_meta_message)

definition value_versions :: "crypto_api \<Rightarrow> signing_api \<Rightarrow> distributed_value_input list \<Rightarrow> bool" where
  "value_versions api keys is \<longleftrightarrow>
     verified_in_order (verifyDistributedValue api keys) din_predecessor
       (\<lambda>hash i. \<lparr>vpred_signedBytesHashHex = hash, vpred_epoch = val_epoch (din_context i)\<rparr>) None is"

definition manifest_versions :: "crypto_api \<Rightarrow> signing_api \<Rightarrow> distributed_manifest_input list \<Rightarrow> bool" where
  "manifest_versions api keys is \<longleftrightarrow>
     verified_in_order (verifyDistributedEnvManifest api keys) dni_predecessor
       (\<lambda>hash i. \<lparr>npred_signedBytesHashHex = hash, npred_epoch = man_epoch (dni_context i)\<rparr>) None is"

definition meta_versions :: "crypto_api \<Rightarrow> signing_api \<Rightarrow> distributed_meta_input list \<Rightarrow> bool" where
  "meta_versions api keys is \<longleftrightarrow>
     verified_in_order (verifyDistributedMetaStatement api keys) dmi_predecessor
       (\<lambda>hash i. \<lparr>mpred_signedBytesHashHex = hash, mpred_status = met_status (dmi_context i),
          mpred_layoutVersion = metaLayoutVersionOf (met_layoutVersion (dmi_context i))\<rparr>) None is"

text \<open>The hash of each statement is what the next one carries; version 1 carries none.\<close>

lemma verified_hash_linked:
  assumes "verified_in_order verify pred_of as_pred p is"
    and "\<And>i hash. i \<in> set is \<Longrightarrow> verify i = Accepted hash \<Longrightarrow> \<exists>b. bytes_of (ctx i) = Some b \<and> hash = encode_hex (sha256 b)"
    and "\<And>i hash j hash'. i \<in> set is \<Longrightarrow> verify i = Accepted hash' \<Longrightarrow> pred_of i = Some (as_pred hash j) \<Longrightarrow> prev_of (ctx i) = hash"
    and "is \<noteq> [] \<Longrightarrow> prev_of (ctx (hd is)) = h"
  shows "hash_linked bytes_of prev_of sha256 h (map ctx is)"
  using assms
proof (induction "is" arbitrary: p h)
  case (Cons i "is")
  from Cons.prems(1) obtain hash where hash: "verify i = Accepted hash"
    and rest: "verified_in_order verify pred_of as_pred (Some (as_pred hash i)) is"
    by (auto split: outcome.splits)
  from Cons.prems(2) [OF _ hash] obtain b where b: "bytes_of (ctx i) = Some b" "hash = encode_hex (sha256 b)" by auto
  have "prev_of (ctx (hd is)) = hash" if "is \<noteq> []"
  proof -
    from rest that have "pred_of (hd is) = Some (as_pred hash i)" "\<exists>hash'. verify (hd is) = Accepted hash'"
      by (cases "is"; auto split: outcome.splits)+
    with Cons.prems(3) [of "hd is"] that show ?thesis by fastforce
  qed
  from Cons.IH [OF rest _ _ this] Cons.prems(2,3) have "hash_linked bytes_of prev_of sha256 hash (map ctx is)" by auto
  with b Cons.prems(4) show ?case by simp
qed simp

lemma in_order_sorted:
  assumes "verified_in_order verify pred_of as_pred p is"
    and "\<And>i hash j hash'. verify i = Accepted hash' \<Longrightarrow> pred_of i = Some (as_pred hash j) \<Longrightarrow> (rank j :: int) \<le> rank i"
  shows "sorted (map rank is)"
  unfolding sorted_iff_nth_Suc
proof (intro allI impI)
  fix n assume "Suc n < length (map rank is)"
  then have n: "Suc n < length is" by simp
  from in_order_next [OF assms(1) n] in_order_accepted [OF assms(1) n] assms(2) n
  show "map rank is ! n \<le> map rank is ! Suc n" by fastforce
qed

lemma value_versions_linked:
  assumes "value_versions api keys is" and "is \<noteq> []" and "val_version (din_context (hd is)) = 1"
  shows "hash_linked buildValueSignedBytes val_prevValueSigHashHex (api_sha256 api) [] (map din_context is)"
  using assms(1) unfolding value_versions_def
proof (rule verified_hash_linked)
  show "val_prevValueSigHashHex (din_context i) = hash"
    if "verifyDistributedValue api keys i = Accepted hash'"
      and "din_predecessor i = Some \<lparr>vpred_signedBytesHashHex = hash, vpred_epoch = val_epoch (din_context j)\<rparr>" for i hash j hash'
    using that by (simp add: verifyDistributedValue_Accepted valuePrevReason_def Let_def split: if_splits)
  from in_order_accepted [OF assms(1) [unfolded value_versions_def], of 0] assms(2)
  obtain hash where "verifyDistributedValue api keys (hd is) = Accepted hash" by (auto simp: hd_conv_nth)
  then show "val_prevValueSigHashHex (din_context (hd is)) = []"
    using assms(3) by (simp add: verifyDistributedValue_Accepted valuePrevReason_def Let_def split: if_splits)
qed (auto simp: verifyDistributedValue_Accepted)

lemma manifest_versions_linked:
  assumes "manifest_versions api keys is" and "is \<noteq> []" and "man_manifestVersion (dni_context (hd is)) = 1"
  shows "hash_linked buildEnvManifestSignedBytes man_prevManifestSigHashHex (api_sha256 api) [] (map dni_context is)"
  using assms(1) unfolding manifest_versions_def
proof (rule verified_hash_linked)
  show "man_prevManifestSigHashHex (dni_context i) = hash"
    if "verifyDistributedEnvManifest api keys i = Accepted hash'"
      and "dni_predecessor i = Some \<lparr>npred_signedBytesHashHex = hash, npred_epoch = man_epoch (dni_context j)\<rparr>" for i hash j hash'
    using that by (simp add: verifyDistributedEnvManifest_Accepted manifestPrevReason_def Let_def split: if_splits)
  from in_order_accepted [OF assms(1) [unfolded manifest_versions_def], of 0] assms(2)
  obtain hash where "verifyDistributedEnvManifest api keys (hd is) = Accepted hash" by (auto simp: hd_conv_nth)
  then show "man_prevManifestSigHashHex (dni_context (hd is)) = []"
    using assms(3) by (simp add: verifyDistributedEnvManifest_Accepted manifestPrevReason_def Let_def split: if_splits)
qed (auto simp: verifyDistributedEnvManifest_Accepted)

lemma meta_versions_linked:
  assumes "meta_versions api keys is" and "is \<noteq> []" and "met_metaVersion (dmi_context (hd is)) = 1"
  shows "hash_linked meta_message_bytes met_prevMetaSigHashHex (api_sha256 api) [] (map dmi_context is)"
  using assms(1) unfolding meta_versions_def
proof (rule verified_hash_linked)
  show "met_prevMetaSigHashHex (dmi_context i) = hash"
    if "verifyDistributedMetaStatement api keys i = Accepted hash'"
      and "dmi_predecessor i = Some \<lparr>mpred_signedBytesHashHex = hash, mpred_status = met_status (dmi_context j),
          mpred_layoutVersion = metaLayoutVersionOf (met_layoutVersion (dmi_context j))\<rparr>" for i hash j hash'
    using that by (simp add: verifyDistributedMetaStatement_Accepted metaPrevReason_def Let_def split: if_splits)
  from in_order_accepted [OF assms(1) [unfolded meta_versions_def], of 0] assms(2)
  obtain hash where "verifyDistributedMetaStatement api keys (hd is) = Accepted hash" by (auto simp: hd_conv_nth)
  then show "met_prevMetaSigHashHex (dmi_context (hd is)) = []"
    using assms(3) by (simp add: verifyDistributedMetaStatement_Accepted metaPrevReason_def Let_def split: if_splits)
qed (auto simp: verifyDistributedMetaStatement_Accepted meta_message_bytes_def)

definition signed_strings :: "('c \<Rightarrow> bytes option) \<Rightarrow> 'c list \<Rightarrow> bytes set" where
  "signed_strings bytes_of cs = {b. \<exists>c \<in> set cs. bytes_of c = Some b}"

section \<open>Histories of the example\<close>

definition demo_value_next :: "ustr \<Rightarrow> distributed_value_input" where
  "demo_value_next hash = demo_value_input
     \<lparr>din_context := demo_value\<lparr>val_version := 2, val_prevValueSigHashHex := hash\<rparr>,
      din_predecessor := Some \<lparr>vpred_signedBytesHashHex = hash, vpred_epoch = 2\<rparr>\<rparr>"

lemma hash_hex: "length (sha256 b) = 32 \<Longrightarrow> isLowercaseHexOfLength (encode_hex (sha256 b)) SHA256_HEX_LENGTH"
  by (simp add: isLowercaseHexOfLength_def SHA256_HEX_LENGTH_def)

lemma length_demo_sha256: "length (demo_sha256 b) = 32"
  by (simp add: demo_sha256_def)

lemma demo_value_next_accepted:
  assumes "isLowercaseHexOfLength hash SHA256_HEX_LENGTH"
  shows "\<exists>h. verifyDistributedValue demo_api demo_keys (demo_value_next hash) = Accepted h"
proof -
  let ?c = "demo_value\<lparr>val_version := 2, val_prevValueSigHashHex := hash\<rparr>"
  have hash: "hash \<noteq> []" "short_text hash"
    using assms by (auto simp: isLowercaseHexOfLength_def SHA256_HEX_LENGTH_def short_text_def)
  have valid: "valueContextInvalidField ?c = None"
    using demo_value_valid(1) assms
    by (simp add: valueContextInvalidField_def valueNumericFieldInvalid_def valueHexFieldInvalid_def demo_value_def
        split: if_splits)
  have "list_all short_text (value_texts ?c)" using demo_value_valid(2) hash(2) by (simp add: value_texts_def)
  then obtain message where "buildValueSignedBytes ?c = Some message"
    using value_bytes_defined [OF valid] by blast
  moreover have "valueHeadStateReason (demo_value_next hash) = None"
    unfolding valueHeadStateReason_None
    using demo_authorized demo_head_queries(6) by (simp add: demo_value_next_def demo_value_input_def demo_value_def)
  moreover have "val_writerUserId demo_value = lit ''alice''" "val_epoch demo_value = 2" by (simp_all add: demo_value_def)
  ultimately show ?thesis
    using valid assms hash
    by (simp add: verifyDistributedValue_Accepted demo_value_next_def demo_value_input_def distributedInputInvalidField_def
        valuePrevReason_def)
qed

lemma demo_value_versions:
  "\<exists>hash. value_versions demo_api demo_keys [demo_value_input, demo_value_next hash]"
proof -
  obtain hash where hash: "verifyDistributedValue demo_api demo_keys demo_value_input = Accepted hash"
    using demo_value_accepted by blast
  then have "isLowercaseHexOfLength hash SHA256_HEX_LENGTH"
    by (auto simp: verifyDistributedValue_Accepted intro: hash_hex length_demo_sha256)
  from demo_value_next_accepted [OF this] hash show ?thesis
    by (intro exI [of _ hash]) (auto simp: value_versions_def demo_value_next_def demo_value_input_def demo_value_def)
qed

definition demo_meta_deleted :: "ustr \<Rightarrow> distributed_meta_input" where
  "demo_meta_deleted hash = demo_meta_input
     \<lparr>dmi_context := demo_meta\<lparr>met_metaVersion := 2, met_status := lit ''deleted'', met_prevMetaSigHashHex := hash\<rparr>,
      dmi_predecessor := Some \<lparr>mpred_signedBytesHashHex = hash, mpred_status = lit ''active'', mpred_layoutVersion = 3\<rparr>\<rparr>"

lemma demo_meta_deleted_accepted:
  assumes "isLowercaseHexOfLength hash SHA256_HEX_LENGTH"
  shows "\<exists>h. verifyDistributedMetaStatement demo_api demo_keys (demo_meta_deleted hash) = Accepted h"
proof -
  let ?c = "demo_meta\<lparr>met_metaVersion := 2, met_status := lit ''deleted'', met_prevMetaSigHashHex := hash\<rparr>"
  have hash: "hash \<noteq> []" "short_text hash"
    using assms by (auto simp: isLowercaseHexOfLength_def SHA256_HEX_LENGTH_def short_text_def)
  obtain l where l: "checkedMetaLayout demo_meta = Accepted l" using demo_meta_layout by blast
  have layout: "checkedMetaLayout ?c = Accepted l"
    using l assms
    by (simp add: checkedMetaLayout_Accepted selectMetaLayout_def demo_meta_def metaLayoutVersionOf_def
        SUPPORTED_META_LAYOUT_VERSIONS_def layoutV3Of_def metaContextInvalidField_def coordinateFieldInvalid_def
        layoutV3FieldInvalid_def metaNumericFieldInvalid_def metaHexFieldInvalid_def split: if_splits)
      (auto simp: layoutV3FieldInvalid_def reject_when_def split: if_splits)
  have "list_all short_text (meta_texts ?c l)"
    using demo_meta_short [OF l] hash(2) by (simp add: meta_texts_def)
  then obtain message where "encodeMetaSignedBytes ?c l = Some message"
    using meta_bytes_defined [OF layout] by blast
  moreover have "metaHeadStateReason (demo_meta_deleted hash) = None"
    unfolding metaHeadStateReason_None
    using demo_authorized by (simp add: demo_meta_deleted_def demo_meta_input_def demo_meta_def)
  moreover have "metaPrevReason (demo_meta_deleted hash) = None"
    using hash(1) by (simp add: metaPrevReason_def demo_meta_deleted_def demo_meta_def metaLayoutVersionOf_def)
  moreover have "met_authorUserId demo_meta = lit ''alice''" by (simp add: demo_meta_def)
  ultimately show ?thesis
    using layout assms
    by (simp add: verifyDistributedMetaStatement_Accepted)
      (simp add: demo_meta_deleted_def demo_meta_input_def distributedInputInvalidField_def)
qed

lemma demo_meta_versions:
  "\<exists>hash. meta_versions demo_api demo_keys [demo_meta_input, demo_meta_deleted hash]"
proof -
  obtain hash where hash: "verifyDistributedMetaStatement demo_api demo_keys demo_meta_input = Accepted hash"
    using demo_meta_accepted by blast
  then have "isLowercaseHexOfLength hash SHA256_HEX_LENGTH"
    by (auto simp: verifyDistributedMetaStatement_Accepted intro: hash_hex length_demo_sha256)
  from demo_meta_deleted_accepted [OF this] hash show ?thesis
    by (intro exI [of _ hash])
      (auto simp: meta_versions_def demo_meta_deleted_def demo_meta_input_def demo_meta_def metaLayoutVersionOf_def)
qed

text \<open>A first manifest, against an index that knows no checkpoint.\<close>

definition demo_first_manifest :: "ustr \<Rightarrow> ustr \<Rightarrow> distributed_manifest_input" where
  "demo_first_manifest digest signature = (demo_manifest_input digest)
     \<lparr>dni_history := demo_index\<lparr>checkpointTuples := [], latestCheckpoints := []\<rparr>,
      dni_context := (demo_manifest digest)\<lparr>man_manifestVersion := 1, man_prevManifestSigHashHex := []\<rparr>,
      dni_signatureHex := signature, dni_predecessor := None\<rparr>"

lemma checkpoints_unread:
  "authorized_at_head (h\<lparr>checkpointTuples := x, latestCheckpoints := y\<rparr>) = authorized_at_head h"
  "environmentStateAt (h\<lparr>checkpointTuples := x, latestCheckpoints := y\<rparr>) = environmentStateAt h"
  "importActorKeyByFingerprint keys (h\<lparr>checkpointTuples := x, latestCheckpoints := y\<rparr>) = importActorKeyByFingerprint keys h"
  by (simp_all add: fun_eq_iff authorized_at_head_def entryHashAt_def memberStateAt_def deviceStateAt_def tenureAt_def
      in_range_def headSeq_def environmentStateAt_def importActorKeyByFingerprint_def sigKeyByFingerprint_def)

text \<open>
  Two versions across a key rotation: the first signed at the head before the rotation, in epoch 1, the
  second at the head with it, in epoch 2, carrying the hash of the first.
\<close>

lemma demo_head_7:
  "authorized_at_head demo_index 7 (demo_hash 7) (lit ''alice'') (fp_hex 2) r env"
  "environmentStateAt demo_index (lit ''prod'') 7 = Some \<lparr>at_createdAtSeq = 3, at_currentEpoch = 1, at_deletedAtSeq = None\<rparr>"
proof -
  have range: "in_range demo_index 7"
    by (simp add: in_range_def headSeq_def demo_index_def safe_int_def max_safe_integer_def)
  then have tenure: "tenureAt demo_index (lit ''alice'') 7 = Some (demo_tenure 1 2 1)"
    by (simp add: tenureAt_def) (simp add: demo_index_def)
  then have "\<exists>d. deviceStateAt demo_index (lit ''alice'') (fp_hex 2) 7 = Some d \<and>
     at_permission d = \<lparr>perm_role = Owner, perm_scope = AllScope\<rparr>"
    by (simp add: deviceStateAt_def spanAt_def deviceActiveAt_def deviceAt_def effectivePermissionOf_def minRole_def)
  moreover have "entryHashAt demo_index 7 = Some (demo_hash 7)"
    using range by (simp add: entryHashAt_def) (simp add: demo_index_def)
  moreover have "memberStateAt demo_index (lit ''alice'') 7 \<noteq> None"
    using tenure by (simp add: memberStateAt_def) (simp add: spanAt_def)
  moreover have "r \<le> Owner" by (cases r) (simp_all add: less_eq_role_def)
  ultimately show "authorized_at_head demo_index 7 (demo_hash 7) (lit ''alice'') (fp_hex 2) r env"
    using range by (auto simp: authorized_at_head_def)
  show "environmentStateAt demo_index (lit ''prod'') 7 = Some \<lparr>at_createdAtSeq = 3, at_currentEpoch = 1, at_deletedAtSeq = None\<rparr>"
    using range by (simp add: environmentStateAt_def) (simp add: demo_index_def epochAt_def deletedAtOrBefore_def)
qed

lemma demo_counter_7: "\<not> counter_invalid 7"
  by (simp add: counter_invalid_def safe_int_def max_safe_integer_def)

definition demo_value_first :: "nat \<Rightarrow> distributed_value_input" where
  "demo_value_first n = demo_value_input
     \<lparr>din_context := demo_value\<lparr>val_epoch := 1, val_chainHeadHashHex := demo_hash 7, val_chainHeadSeq := 7\<rparr>,
      din_signatureHex := demo_sig n\<rparr>"

definition demo_value_second :: "ustr \<Rightarrow> nat \<Rightarrow> distributed_value_input" where
  "demo_value_second hash n = (demo_value_next hash)
     \<lparr>din_signatureHex := demo_sig n, din_predecessor := Some \<lparr>vpred_signedBytesHashHex = hash, vpred_epoch = 1\<rparr>\<rparr>"

lemma demo_value_first_accepted: 
  "\<exists>h. \<forall>n. verifyDistributedValue demo_api demo_keys (demo_value_first n) = Accepted h"
proof -
  let ?c = "demo_value\<lparr>val_epoch := 1, val_chainHeadHashHex := demo_hash 7, val_chainHeadSeq := 7\<rparr>"
  have valid: "valueContextInvalidField ?c = None"
    using demo_value_valid(1) demo_counter_7
    by (simp add: valueContextInvalidField_def valueNumericFieldInvalid_def valueHexFieldInvalid_def demo_value_def
        split: if_splits)
  have "list_all short_text (value_texts ?c)" using demo_value_valid(2) by (simp add: value_texts_def)
  then obtain message where "buildValueSignedBytes ?c = Some message"
    using value_bytes_defined [OF valid] by blast
  moreover have "valueHeadStateReason (demo_value_first n) = None" for n
    unfolding valueHeadStateReason_None
    using demo_head_7 by (simp add: demo_value_first_def demo_value_input_def demo_value_def)
  moreover have "val_writerUserId demo_value = lit ''alice''" "val_version demo_value = 1" "val_prevValueSigHashHex demo_value = []"
    by (simp_all add: demo_value_def)
  ultimately show ?thesis
    using valid
    by (intro exI [of _ "encode_hex (demo_sha256 message)"])
      (simp add: verifyDistributedValue_Accepted demo_value_first_def demo_value_input_def distributedInputInvalidField_def
        valuePrevReason_def)
qed

lemma demo_value_second_accepted:
  assumes "isLowercaseHexOfLength hash SHA256_HEX_LENGTH"
  shows "\<exists>h. verifyDistributedValue demo_api demo_keys (demo_value_second hash n) = Accepted h"
  using demo_value_next_accepted [OF assms]
  by (simp add: verifyDistributedValue_Accepted demo_value_second_def demo_value_next_def demo_value_input_def
      distributedInputInvalidField_def valuePrevReason_def valueHeadStateReason_None demo_value_def Let_def split: if_splits)

lemma demo_value_pair:
  "\<exists>hash. \<forall>n m. value_versions demo_api demo_keys [demo_value_first n, demo_value_second hash m] \<and>
     isLowercaseHexOfLength hash SHA256_HEX_LENGTH"
proof -
  obtain hash where hash: "verifyDistributedValue demo_api demo_keys (demo_value_first n) = Accepted hash" for n
    using demo_value_first_accepted by blast
  then have hex: "isLowercaseHexOfLength hash SHA256_HEX_LENGTH"
    using hash [of 0] by (auto simp: verifyDistributedValue_Accepted intro: hash_hex length_demo_sha256)
  show ?thesis
  proof (intro exI [of _ hash] allI conjI hex)
    fix n m
    from demo_value_second_accepted [OF hex, of m] hash [of n]
    show "value_versions demo_api demo_keys [demo_value_first n, demo_value_second hash m]"
      by (auto simp: value_versions_def)
        (simp_all add: demo_value_first_def demo_value_second_def demo_value_input_def demo_value_def)
  qed
qed


lemma last_of_statement:
  assumes "statement_bytes s name (fs @ [LpNum k]) = Some b" and "0 \<le> k" and "k < 10"
  shows "last b = word_of_nat (48 + nat k)" and "b \<noteq> []"
proof -
  have digit: "decimal (nat k) = [word_of_nat (48 + nat k)]"
    using assms(2,3) by (subst decimal.simps) (simp add: nat_less_iff)
  have ascii: "utf8_encode [word_of_nat (48 + n)] = [word_of_nat (48 + n)]" if "n < 10" for n
  proof -
    have "n \<in> set [0..<10]" using that by simp
    then show ?thesis by (simp add: upt_rec eval_nat_numeral) (elim disjE; simp add: utf8_encode_def utf8_of_code_point_def utf8_units_def scalar_of_unit_def high_surrogate_def low_surrogate_def)
  qed
  have "last b = word_of_nat (48 + nat k) \<and> b \<noteq> []" if lp: "encode_lp (gs @ [LpNum k]) = Some b" for gs
  proof -
    from lp obtain bodies where bodies: "map lp_body (gs @ [LpNum k]) = map Some bodies" and b: "b = concat (map framed bodies)"
      by (auto simp: encode_lp_Some_iff)
    then obtain xs where "bodies = xs @ [utf8_encode (decimal (nat k))]"
      by (cases bodies rule: rev_cases) (auto split: if_splits)
    with b digit ascii [of "nat k"] assms(2,3) show ?thesis by (simp add: framed_def)
  qed
  with assms(1) show "last b = word_of_nat (48 + nat k)" "b \<noteq> []" 
    unfolding statement_bytes_def append_Cons [symmetric] by blast+
qed

lemma demo_sha256_last: "b \<noteq> [] \<Longrightarrow> hd (demo_sha256 b) = last b"
  by (cases b rule: rev_cases) (simp_all add: demo_sha256_def)

lemma demo_pair_collision_free:
  assumes "\<And>b. bytes_of x = Some b \<Longrightarrow> last b = 55 \<and> b \<noteq> []" and "\<And>b. bytes_of y = Some b \<Longrightarrow> last b = 56 \<and> b \<noteq> []"
  shows "collision_free_on demo_sha256 (signed_strings bytes_of [x, y, x, y])"
proof -
  have "b = b'" if b: "b \<in> signed_strings bytes_of [x, y, x, y]" "b' \<in> signed_strings bytes_of [x, y, x, y]"
    and hash: "demo_sha256 b = demo_sha256 b'" for b b'
  proof -
    have ends: "last c = 55 \<and> c \<noteq> [] \<and> bytes_of x = Some c \<or> last c = 56 \<and> c \<noteq> [] \<and> bytes_of y = Some c"
      if "c \<in> signed_strings bytes_of [x, y, x, y]" for c
      using that assms by (auto simp: signed_strings_def)
    have "last b = last b'"
      using demo_sha256_last [of b] demo_sha256_last [of b'] hash ends [OF b(1)] ends [OF b(2)] by metis
    then show ?thesis using ends [OF b(1)] ends [OF b(2)] by (elim disjE conjE) simp_all
  qed
  then show ?thesis by (simp add: collision_free_on_def)
qed

lemma demo_values_collision_free:
  "collision_free_on demo_sha256 (signed_strings buildValueSignedBytes
     [din_context (demo_value_first n), din_context (demo_value_second hash m), din_context (demo_value_first n), din_context (demo_value_second hash m)])"
proof (rule demo_pair_collision_free)
  show "buildValueSignedBytes (din_context (demo_value_first n)) = Some b \<Longrightarrow> last b = 55 \<and> b \<noteq> []" for b
    using last_of_statement [of _ "''value-sig''" "butlast (value_fields (din_context (demo_value_first n)))" 7 b]
    by (simp add: buildValueSignedBytes_def value_fields_def demo_value_first_def)
  show "buildValueSignedBytes (din_context (demo_value_second hash m)) = Some b \<Longrightarrow> last b = 56 \<and> b \<noteq> []" for b
    using last_of_statement [of _ "''value-sig''" "butlast (value_fields (din_context (demo_value_second hash m)))" 8 b]
    by (simp add: buildValueSignedBytes_def value_fields_def demo_value_second_def demo_value_next_def demo_value_def)
qed

definition demo_manifest_one :: "ustr \<Rightarrow> nat \<Rightarrow> distributed_manifest_input" where
  "demo_manifest_one digest n = (demo_first_manifest digest (demo_sig n))
     \<lparr>dni_context := (demo_manifest digest)\<lparr>man_epoch := 1, man_manifestVersion := 1, man_prevManifestSigHashHex := [],
        man_chainHeadHashHex := demo_hash 7, man_chainHeadSeq := 7\<rparr>\<rparr>"

definition demo_manifest_two :: "ustr \<Rightarrow> ustr \<Rightarrow> nat \<Rightarrow> distributed_manifest_input" where
  "demo_manifest_two digest hash n = (demo_first_manifest digest (demo_sig n))
     \<lparr>dni_context := (demo_manifest digest)\<lparr>man_prevManifestSigHashHex := hash\<rparr>,
      dni_predecessor := Some \<lparr>npred_signedBytesHashHex = hash, npred_epoch = 1\<rparr>\<rparr>"

lemma demo_manifest_pair:
  "\<exists>digest hash. \<forall>n m. manifest_versions demo_api demo_keys [demo_manifest_one digest n, demo_manifest_two digest hash m] \<and>
     isLowercaseHexOfLength digest SHA256_HEX_LENGTH \<and> isLowercaseHexOfLength hash SHA256_HEX_LENGTH"
proof -
  obtain digest where digest: "computeVariablesDigest demo_sha256 SUITE_ID [demo_digest_entry] = Accepted digest"
    "isLowercaseHexOfLength digest SHA256_HEX_LENGTH"
    using demo_digest_defined by blast
  have short: "short_text s" if "isLowercaseHexOfLength s SHA256_HEX_LENGTH" for s
    using that by (simp add: isLowercaseHexOfLength_def short_text_def SHA256_HEX_LENGTH_def)
  note index = demo_first_manifest_def demo_manifest_input_def checkpoints_unread
  let ?c = "\<lambda>n. dni_context (demo_manifest_one digest n)"
  have issuer: "man_issuerUserId (demo_manifest digest) = lit ''alice''" by (simp add: demo_manifest_def)
  have content: "contentReason demo_sha256 (demo_manifest_one digest n) = Accepted None"
    "contentReason demo_sha256 (demo_manifest_two digest hash n) = Accepted None" for hash n
    unfolding contentReason_None
    using digest(1) by (simp_all add: demo_manifest_one_def demo_manifest_two_def demo_first_manifest_def
        demo_manifest_input_def demo_manifest_def)
  have integrity: "epochIntegrityReason (demo_manifest_one digest n) h = None" "epochIntegrityReason (demo_manifest_two digest hash n) h = None"
    "checkpointIntegrityReason (demo_manifest_one digest n) = None" "checkpointIntegrityReason (demo_manifest_two digest hash n) = None" for hash n h
    by (simp_all add: epochIntegrityReason_def checkpointIntegrityReason_def latestCheckpointFor_def Let_def
        demo_manifest_one_def demo_manifest_two_def demo_first_manifest_def demo_manifest_input_def demo_manifest_def
        checkpoints_unread demo_head_queries demo_head_7 checkpointTupleFor_def)
  have heads: "manifestHeadStateReason (demo_manifest_one digest n) = None" "manifestHeadStateReason (demo_manifest_two digest hash n) = None" for hash n
    unfolding manifestHeadStateReason_None
    using demo_authorized demo_head_7 by (simp_all add: demo_manifest_one_def demo_manifest_two_def demo_first_manifest_def
        demo_manifest_input_def demo_manifest_def checkpoints_unread)
  have valid: "manifestContextInvalidField (?c n) = None" for n
    using digest(2) demo_counter_7 by (simp add: demo_manifest_one_def demo_manifest_def manifestContextInvalidField_def
        manifestNumericFieldInvalid_def manifestHexFieldInvalid_def)
  have "list_all short_text (manifest_texts (?c n))" for n
    using short [OF digest(2)] by (simp add: demo_manifest_one_def demo_manifest_def manifest_texts_def)
  then have "\<exists>m. buildEnvManifestSignedBytes (?c 0) = Some m"
    using manifest_bytes_defined [OF valid] by blast
  then obtain message where message: "buildEnvManifestSignedBytes (?c n) = Some message" for n
    by (auto simp: demo_manifest_one_def)
  define hash where "hash = encode_hex (demo_sha256 message)"
  have hex: "isLowercaseHexOfLength hash SHA256_HEX_LENGTH"
    unfolding hash_def by (intro hash_hex length_demo_sha256)
  have one: "verifyDistributedEnvManifest demo_api demo_keys (demo_manifest_one digest n) = Accepted hash" for n
    using valid [of n] message [of n] content integrity heads issuer
    by (simp add: verifyDistributedEnvManifest_Accepted hash_def) (simp add: demo_manifest_one_def index
        distributedInputInvalidField_def manifestPrevReason_def)
  have two: "\<exists>h. verifyDistributedEnvManifest demo_api demo_keys (demo_manifest_two digest hash m) = Accepted h" for m
  proof -
    let ?d = "dni_context (demo_manifest_two digest hash m)"
    have valid: "manifestContextInvalidField ?d = None"
      using digest(2) hex by (simp add: demo_manifest_two_def demo_manifest_def manifestContextInvalidField_def
          manifestNumericFieldInvalid_def manifestHexFieldInvalid_def)
    have "list_all short_text (manifest_texts ?d)"
      using short [OF digest(2)] short [OF hex] by (simp add: demo_manifest_two_def demo_manifest_def manifest_texts_def)
    then obtain message where message: "buildEnvManifestSignedBytes ?d = Some message"
      using manifest_bytes_defined [OF valid] by blast
    have shape: "hash \<noteq> []" using hex by (auto simp: isLowercaseHexOfLength_def SHA256_HEX_LENGTH_def)
    have "manifestPrevReason (demo_manifest_two digest hash m) = None"
      using shape by (simp add: manifestPrevReason_def Let_def demo_manifest_two_def demo_manifest_def)
    with valid message content(2) integrity(2,4) heads(2) issuer hex show ?thesis
      by (simp add: verifyDistributedEnvManifest_Accepted) (simp add: demo_manifest_two_def index
          distributedInputInvalidField_def)
  qed
  have "manifest_versions demo_api demo_keys [demo_manifest_one digest n, demo_manifest_two digest hash m]" for n m
    using one [of n] two [of m]
    by (auto simp: manifest_versions_def)
      (simp_all add: demo_manifest_one_def demo_manifest_two_def demo_first_manifest_def)
  with digest(2) hex show ?thesis by blast
qed

lemma demo_manifests_collision_free:
  "collision_free_on demo_sha256 (signed_strings buildEnvManifestSignedBytes
     [dni_context (demo_manifest_one digest n), dni_context (demo_manifest_two digest hash m),
      dni_context (demo_manifest_one digest n), dni_context (demo_manifest_two digest hash m)])"
proof (rule demo_pair_collision_free)
  show "buildEnvManifestSignedBytes (dni_context (demo_manifest_one digest n)) = Some b \<Longrightarrow> last b = 55 \<and> b \<noteq> []" for b
    using last_of_statement [of _ "''env-manifest-sig''" "butlast (manifest_fields (dni_context (demo_manifest_one digest n)))" 7 b]
    by (simp add: buildEnvManifestSignedBytes_def manifest_fields_def demo_manifest_one_def)
  show "buildEnvManifestSignedBytes (dni_context (demo_manifest_two digest hash m)) = Some b \<Longrightarrow> last b = 56 \<and> b \<noteq> []" for b
    using last_of_statement [of _ "''env-manifest-sig''" "butlast (manifest_fields (dni_context (demo_manifest_two digest hash m)))" 8 b]
    by (simp add: buildEnvManifestSignedBytes_def manifest_fields_def demo_manifest_two_def demo_manifest_def)
qed

lemma pairs_agree:
  "din_context (demo_value_first n) = din_context (demo_value_first 0)" "din_context (demo_value_second hash n) = din_context (demo_value_second hash 0)"
  "dni_context (demo_manifest_one digest n) = dni_context (demo_manifest_one digest 0)"
  "dni_context (demo_manifest_two digest hash n) = dni_context (demo_manifest_two digest hash 0)"
  by (simp_all add: demo_value_first_def demo_value_second_def demo_manifest_one_def demo_manifest_two_def)

section \<open>What the histories guarantee\<close>

text \<open>
  A variable's newest value pins its versions: two histories from version 1 whose every value was
  verified with the one before as predecessor, and whose newest contexts agree, are the same, unless
  SHA-256 collides on their signed bytes. The server can neither drop, reorder nor replace a version.
\<close>

lemma value_history_pinned:
  assumes "value_versions api keys is" and "value_versions api keys js"
    and "is \<noteq> []" and "js \<noteq> []"
    and "val_version (din_context (hd is)) = 1" and "val_version (din_context (hd js)) = 1"
    and "din_context (last is) = din_context (last js)"
    and "\<forall>i \<in> set (is @ js). list_all well_formed (value_texts (din_context i))"
    and "\<forall>b. length (api_sha256 api b) = 32"
    and "collision_free_on (api_sha256 api) (signed_strings buildValueSignedBytes (map din_context (is @ js)))"
  shows "map din_context is = map din_context js"
proof -
  have "map (\<lambda>c. c) (map din_context is) = map (\<lambda>c. c) (map din_context js)"
  proof (rule value_history.history_pinned)
    show "hash_linked buildValueSignedBytes val_prevValueSigHashHex (api_sha256 api) [] (map din_context is)"
      "hash_linked buildValueSignedBytes val_prevValueSigHashHex (api_sha256 api) [] (map din_context js)"
      using value_versions_linked assms(1-6) by blast+
    show "api_sha256 api b \<noteq> []" for b using assms(9) [rule_format, of b] by auto
  qed (use assms(3,4,7,8,10) in \<open>auto simp: list_all_iff last_map signed_strings_def\<close>)
  then show ?thesis by simp
qed

text \<open>
  An environment's newest manifest pins its versions, in the same way.
\<close>

lemma manifest_history_pinned:
  assumes "manifest_versions api keys is" and "manifest_versions api keys js"
    and "is \<noteq> []" and "js \<noteq> []"
    and "man_manifestVersion (dni_context (hd is)) = 1" and "man_manifestVersion (dni_context (hd js)) = 1"
    and "dni_context (last is) = dni_context (last js)"
    and "\<forall>i \<in> set (is @ js). list_all well_formed (manifest_texts (dni_context i))"
    and "\<forall>b. length (api_sha256 api b) = 32"
    and "collision_free_on (api_sha256 api) (signed_strings buildEnvManifestSignedBytes (map dni_context (is @ js)))"
  shows "map dni_context is = map dni_context js"
proof -
  have "map (\<lambda>c. c) (map dni_context is) = map (\<lambda>c. c) (map dni_context js)"
  proof (rule manifest_history.history_pinned)
    show "hash_linked buildEnvManifestSignedBytes man_prevManifestSigHashHex (api_sha256 api) [] (map dni_context is)"
      "hash_linked buildEnvManifestSignedBytes man_prevManifestSigHashHex (api_sha256 api) [] (map dni_context js)"
      using manifest_versions_linked assms(1-6) by blast+
    show "api_sha256 api b \<noteq> []" for b using assms(9) [rule_format, of b] by auto
  qed (use assms(3,4,7,8,10) in \<open>auto simp: list_all_iff last_map signed_strings_def\<close>)
  then show ?thesis by simp
qed

text \<open>
  Epochs never go back: along verified versions of a value, and along verified versions of a manifest,
  the epoch does not decrease.
\<close>

lemma version_epochs_monotone:
  "(value_versions api keys vs \<longrightarrow> sorted (map (\<lambda>i. val_epoch (din_context i)) vs)) \<and>
   (manifest_versions api keys ms \<longrightarrow> sorted (map (\<lambda>i. man_epoch (dni_context i)) ms))"
proof (intro conjI impI)
  assume "value_versions api keys vs"
  then show "sorted (map (\<lambda>i. val_epoch (din_context i)) vs)"
    unfolding value_versions_def
    by (rule in_order_sorted) (simp add: verifyDistributedValue_Accepted valuePrevReason_def Let_def split: if_splits)
next
  assume "manifest_versions api keys ms"
  then show "sorted (map (\<lambda>i. man_epoch (dni_context i)) ms)"
    unfolding manifest_versions_def
    by (rule in_order_sorted) (simp add: verifyDistributedEnvManifest_Accepted manifestPrevReason_def Let_def split: if_splits)
qed

text \<open>
  The life of a metadata statement: along verified versions nothing follows a deletion, an active
  variable is never declared again, and the layout never goes back.
\<close>

lemma meta_lifecycle:
  assumes "meta_versions api keys is" and "a < b" and "b < length is"
  shows "met_status (dmi_context (is ! a)) \<noteq> lit ''deleted'' \<and>
    (met_status (dmi_context (is ! a)) = lit ''active'' \<longrightarrow> met_status (dmi_context (is ! b)) \<noteq> lit ''declared'') \<and>
    metaLayoutVersionOf (met_layoutVersion (dmi_context (is ! a))) \<le> metaLayoutVersionOf (met_layoutVersion (dmi_context (is ! b)))"
proof -
  let ?status = "\<lambda>n. met_status (dmi_context (is ! n))"
  let ?layout = "\<lambda>n. metaLayoutVersionOf (met_layoutVersion (dmi_context (is ! n)))"
  have step: "?status n \<noteq> lit ''deleted'' \<and> (?status n = lit ''active'' \<longrightarrow> ?status (Suc n) \<noteq> lit ''declared'') \<and>
      ?layout n \<le> ?layout (Suc n)" if n: "Suc n < length is" for n
    using in_order_next [OF assms(1) [unfolded meta_versions_def] n] in_order_accepted [OF assms(1) [unfolded meta_versions_def] n]
    by (auto simp: verifyDistributedMetaStatement_Accepted metaPrevReason_def Let_def split: if_splits)
  have known: "?status n = lit ''active'' \<or> ?status n = lit ''deleted'' \<or> ?status n = lit ''declared''" if "n < length is" for n
  proof -
    from in_order_accepted [OF assms(1) [unfolded meta_versions_def] that] obtain l
      where "checkedMetaLayout (dmi_context (is ! n)) = Accepted l"
      by (auto simp: verifyDistributedMetaStatement_Accepted)
    then show ?thesis
      by (cases l) (auto simp: checkedMetaLayout_Accepted metaContextInvalidField_def layoutV1FieldInvalid_def
          layoutV3FieldInvalid_def reject_when_def Let_def split: if_splits option.splits)
  qed
  have "(?status a = lit ''active'' \<longrightarrow> ?status b \<noteq> lit ''declared'') \<and> ?layout a \<le> ?layout b"
    using assms(2,3)
  proof (induction b)
    case (Suc b)
    show ?case
    proof (cases "a = b")
      case False
      with Suc have "(?status a = lit ''active'' \<longrightarrow> ?status b \<noteq> lit ''declared'') \<and> ?layout a \<le> ?layout b" by simp
      with step [OF Suc.prems(2)] known [of b] Suc.prems(2) show ?thesis by (auto intro: order_trans)
    qed (use step Suc.prems in blast)
  qed simp
  with step [of a] assms(2,3) show ?thesis by simp
qed

text \<open>
  C26. The newest value and the newest manifest pin all their versions: two histories from version 1 whose
  every statement was verified with the one before as predecessor, and whose newest contexts agree, have the
  same contexts throughout, so that the server can neither drop, reorder nor replace a version. The conditions:
  every text of every context of both histories is well formed (no lone surrogates, which the encoder maps
  to one and the same replacement character, so that contexts differing only in them have the same bytes),
  and the hash function gives 32 bytes and does not collide on the signed bytes of these contexts.
\<close>

theorem newest_statement_pins_versions:
  assumes "\<forall>b. length (api_sha256 api b) = 32"
  shows "(value_versions api keys is \<and> value_versions api keys js \<and> is \<noteq> [] \<and> js \<noteq> [] \<and>
      val_version (din_context (hd is)) = 1 \<and> val_version (din_context (hd js)) = 1 \<and>
      din_context (last is) = din_context (last js) \<and>
      (\<forall>i \<in> set (is @ js). list_all well_formed (value_texts (din_context i))) \<and>
      collision_free_on (api_sha256 api) (signed_strings buildValueSignedBytes (map din_context (is @ js))) \<longrightarrow>
      map din_context is = map din_context js) \<and>
    (manifest_versions api keys ms \<and> manifest_versions api keys ns \<and> ms \<noteq> [] \<and> ns \<noteq> [] \<and>
      man_manifestVersion (dni_context (hd ms)) = 1 \<and> man_manifestVersion (dni_context (hd ns)) = 1 \<and>
      dni_context (last ms) = dni_context (last ns) \<and>
      (\<forall>i \<in> set (ms @ ns). list_all well_formed (manifest_texts (dni_context i))) \<and>
      collision_free_on (api_sha256 api) (signed_strings buildEnvManifestSignedBytes (map dni_context (ms @ ns))) \<longrightarrow>
      map dni_context ms = map dni_context ns)"
  using value_history_pinned [of api keys "is" js] manifest_history_pinned [of api keys ms ns] assms by blast

theorem newest_statement_pins_versions_witness:
  "\<exists>h digest k.
     value_versions demo_api demo_keys [demo_value_first 5, demo_value_second h 2] \<and>
     value_versions demo_api demo_keys [demo_value_first 3, demo_value_second h 4] \<and>
     map din_context [demo_value_first 5, demo_value_second h 2] = map din_context [demo_value_first 3, demo_value_second h 4] \<and>
     manifest_versions demo_api demo_keys [demo_manifest_one digest 5, demo_manifest_two digest k 2] \<and>
     manifest_versions demo_api demo_keys [demo_manifest_one digest 3, demo_manifest_two digest k 4] \<and>
     map dni_context [demo_manifest_one digest 5, demo_manifest_two digest k 2] =
       map dni_context [demo_manifest_one digest 3, demo_manifest_two digest k 4]"
proof -
  have len: "\<forall>b. length (api_sha256 demo_api b) = 32" by (simp add: length_demo_sha256)
  note pin = newest_statement_pins_versions [where keys = demo_keys, OF len]
  obtain h where vs: "value_versions demo_api demo_keys [demo_value_first n, demo_value_second h m]"
    and h: "isLowercaseHexOfLength h SHA256_HEX_LENGTH" for n m
    using demo_value_pair by blast
  obtain digest k where ms: "manifest_versions demo_api demo_keys [demo_manifest_one digest n, demo_manifest_two digest k m]"
    and k: "isLowercaseHexOfLength digest SHA256_HEX_LENGTH" "isLowercaseHexOfLength k SHA256_HEX_LENGTH" for n m
    using demo_manifest_pair by blast
  have texts: "list_all well_formed (value_texts (din_context (demo_value_first n)))"
    "list_all well_formed (value_texts (din_context (demo_value_second h n)))" for n
    using h by (auto simp: demo_value_first_def demo_value_second_def demo_value_next_def demo_value_def value_texts_def
        intro: hex_of_length_wf)
  have texts': "list_all well_formed (manifest_texts (dni_context (demo_manifest_one digest n)))"
    "list_all well_formed (manifest_texts (dni_context (demo_manifest_two digest k n)))" for n
    using k by (auto simp: demo_manifest_one_def demo_manifest_two_def demo_manifest_def manifest_texts_def intro: hex_of_length_wf)
  have first: "val_version (din_context (demo_value_first n)) = 1" "man_manifestVersion (dni_context (demo_manifest_one digest n)) = 1" for n
    by (simp_all add: demo_value_first_def demo_value_def demo_manifest_one_def)
  have "map din_context [demo_value_first 5, demo_value_second h 2] = map din_context [demo_value_first 3, demo_value_second h 4]"
    by (intro pin [THEN conjunct1, rule_format] conjI vs)
      (use texts first demo_values_collision_free [of 0 h 0] in
        \<open>auto simp: pairs_agree [where n = 5] pairs_agree [where n = 2] pairs_agree [where n = 3] pairs_agree [where n = 4]\<close>)
  moreover have "map dni_context [demo_manifest_one digest 5, demo_manifest_two digest k 2] =
      map dni_context [demo_manifest_one digest 3, demo_manifest_two digest k 4]"
    by (intro pin [THEN conjunct2, rule_format] conjI ms)
      (use texts' first demo_manifests_collision_free [of digest 0 k 0] in
        \<open>auto simp: pairs_agree [where n = 5] pairs_agree [where n = 2] pairs_agree [where n = 3] pairs_agree [where n = 4]\<close>)
  ultimately show ?thesis using vs ms by blast
qed

text \<open>
  C25. Versions move one way. Along verified versions of a value, and of a manifest, the epoch does not
  decrease. Along verified versions of a metadata statement nothing follows a deletion, an active
  variable is never declared again, and the layout never goes back.
\<close>

theorem versions_move_forward:
  "(value_versions api keys vs \<longrightarrow> sorted (map (\<lambda>i. val_epoch (din_context i)) vs)) \<and>
   (manifest_versions api keys ms \<longrightarrow> sorted (map (\<lambda>i. man_epoch (dni_context i)) ms)) \<and>
   (meta_versions api keys is \<and> a < b \<and> b < length is \<longrightarrow>
      met_status (dmi_context (is ! a)) \<noteq> lit ''deleted'' \<and>
      (met_status (dmi_context (is ! a)) = lit ''active'' \<longrightarrow> met_status (dmi_context (is ! b)) \<noteq> lit ''declared'') \<and>
      metaLayoutVersionOf (met_layoutVersion (dmi_context (is ! a))) \<le> metaLayoutVersionOf (met_layoutVersion (dmi_context (is ! b))))"
  using version_epochs_monotone [of api keys vs ms] meta_lifecycle [of api keys "is" a b] by blast

theorem versions_move_forward_witness:
  "\<exists>hash hash'. value_versions demo_api demo_keys [demo_value_input, demo_value_next hash] \<and>
     sorted (map (\<lambda>i. val_epoch (din_context i)) [demo_value_input, demo_value_next hash]) \<and>
     meta_versions demo_api demo_keys [demo_meta_input, demo_meta_deleted hash'] \<and>
     met_status (dmi_context (demo_meta_deleted hash')) \<noteq> lit ''declared'' \<and>
     metaLayoutVersionOf (met_layoutVersion demo_meta) \<le> metaLayoutVersionOf (met_layoutVersion (dmi_context (demo_meta_deleted hash')))"
proof -
  obtain hash' where metas: "meta_versions demo_api demo_keys [demo_meta_input, demo_meta_deleted hash']"
    using demo_meta_versions by blast
  obtain hash where vals: "value_versions demo_api demo_keys [demo_value_input, demo_value_next hash]"
    using demo_value_versions by blast
  note forward = versions_move_forward [of demo_api demo_keys "[demo_value_input, demo_value_next hash]" "[]"
    "[demo_meta_input, demo_meta_deleted hash']" 0 1]
  from forward vals have "sorted (map (\<lambda>i. val_epoch (din_context i)) [demo_value_input, demo_value_next hash])" by blast
  moreover from forward metas have "met_status (dmi_context (demo_meta_deleted hash')) \<noteq> lit ''declared'' \<and>
     metaLayoutVersionOf (met_layoutVersion demo_meta) \<le> metaLayoutVersionOf (met_layoutVersion (dmi_context (demo_meta_deleted hash')))"
    by (simp add: demo_meta_input_def demo_meta_def)
  ultimately show ?thesis using vals metas by blast
qed

end
