(* ===== verification/Recipient_Set.thy ===== *)
theory Recipient_Set
  imports Sorted_Digest Chain_Guarantees
begin

text \<open>
  The recipients of an environment's key wraps and of its sealed values (\<open>recipient-set.ts\<close>), over the
  state of a verified chain. The lists are sorted by identifier; the properties speak of their elements,
  of the absence of shared addresses, and of the order being a function of the set.
\<close>

section \<open>The lists\<close>

datatype wrap_recipient = Member_Recipient chain_member chain_device | Server_Recipient server_grant

definition byCodeUnits :: "ustr \<Rightarrow> ustr \<Rightarrow> int" where
  "byCodeUnits a b = (if units_less a b then -1 else if units_less b a then 1 else 0)"

definition deviceReceivesEnvironment :: "chain_member \<Rightarrow> chain_device \<Rightarrow> environment_id \<Rightarrow> bool" where
  "deviceReceivesEnvironment person device environmentId =
     scopeIncludesEnvironment (perm_scope (effectivePermissionOf (mem_role person) (mem_scope person) device)) environmentId"

definition memberDevicesInOrder :: "(user_id, chain_member) js_map \<Rightarrow> (chain_member \<times> chain_device) list" where
  "memberDevicesInOrder ms =
     concat (map (\<lambda>member. map (\<lambda>device. (member, device))
         (toSorted (\<lambda>a b. byCodeUnits (keyFingerprintHex a) (keyFingerprintHex b)) (map snd (devices member))))
       (toSorted (\<lambda>a b. byCodeUnits (mem_userId a) (mem_userId b)) (map snd ms)))"

definition wrapRecipientsOf ::
  "(user_id, chain_member) js_map \<Rightarrow> (fingerprint, server_grant) js_map \<Rightarrow> environment_id \<Rightarrow> wrap_recipient list" where
  "wrapRecipientsOf ms grants environmentId =
     map (\<lambda>(member, device). Member_Recipient member device)
       (filter (\<lambda>(member, device). deviceReceivesEnvironment member device environmentId) (memberDevicesInOrder ms)) @
     map Server_Recipient
       (toSorted (\<lambda>a b. byCodeUnits (serverKeyFingerprintHex a) (serverKeyFingerprintHex b))
         (filter (\<lambda>grant. environmentId \<in> set (grant_scopeEnvironmentIds grant)) (map snd grants)))"

definition proposalRecipientsOf ::
  "(user_id, chain_member) js_map \<Rightarrow> environment_id \<Rightarrow> (chain_member \<times> chain_device) list" where
  "proposalRecipientsOf ms environmentId =
     filter (\<lambda>(member, device).
        let effective = effectivePermissionOf (mem_role member) (mem_scope member) device in
        ROLE_RANK Member \<le> ROLE_RANK (perm_role effective) \<and>
        scopeIncludesEnvironment (perm_scope effective) environmentId)
       (memberDevicesInOrder ms)"

section \<open>The order of code units\<close>

lemma byCodeUnits_flip: "byCodeUnits b a = - byCodeUnits a b"
  using units_less_irrefl units_less_trans by (auto simp: byCodeUnits_def)

lemma byCodeUnits_le: "byCodeUnits a b \<le> 0 \<longleftrightarrow> a = b \<or> units_less a b"
  using units_less_irrefl units_less_trans units_less_total [of a b]
  by (cases "a = b") (auto simp: byCodeUnits_def)

lemma byCodeUnits_trans: "byCodeUnits a b \<le> 0 \<Longrightarrow> byCodeUnits b c \<le> 0 \<Longrightarrow> byCodeUnits a c \<le> 0"
  unfolding byCodeUnits_le using units_less_trans by blast

lemma sorted_by_units:
  "sorted_wrt (\<lambda>a b. byCodeUnits (f a) (f b) \<le> 0) (toSorted (\<lambda>a b. byCodeUnits (f a) (f b)) xs)"
proof (induction xs)
  case (Cons x xs)
  have "sorted_wrt (\<lambda>a b. byCodeUnits (f a) (f b) \<le> 0)
      (insert_by (\<lambda>a b. byCodeUnits (f a) (f b)) x (toSorted (\<lambda>a b. byCodeUnits (f a) (f b)) xs))"
    by (rule sorted_insert_by [OF byCodeUnits_flip byCodeUnits_trans Cons])
  then show ?case by (simp add: toSorted_def)
qed (simp add: toSorted_def)

lemma strictly_sorted_by_units:
  assumes "distinct (map f xs)"
  shows "sorted_wrt (\<lambda>a b. units_less (f a) (f b)) (toSorted (\<lambda>a b. byCodeUnits (f a) (f b)) xs)"
proof -
  let ?ss = "toSorted (\<lambda>a b. byCodeUnits (f a) (f b)) xs"
  have "distinct (map f ?ss)"
    using assms by (metis mset_eq_imp_distinct_iff mset_map mset_toSorted)
  then have "f (?ss ! i) \<noteq> f (?ss ! j)" if "i < j" "j < length ?ss" for i j
    using that nth_eq_iff_index_eq [of "map f ?ss" i j] by simp
  with sorted_by_units [of f xs] show ?thesis
    by (auto simp: sorted_wrt_iff_nth_less byCodeUnits_le)
qed

section \<open>Members and devices in order\<close>

lemma set_memberDevicesInOrder:
  "(m, d) \<in> set (memberDevicesInOrder ms) \<longleftrightarrow> m \<in> snd ` set ms \<and> d \<in> snd ` set (devices m)"
  by (auto simp: memberDevicesInOrder_def)

abbreviation before :: "chain_member \<times> chain_device \<Rightarrow> chain_member \<times> chain_device \<Rightarrow> bool" where
  "before \<equiv> \<lambda>(m, d) (m', d'). units_less (mem_userId m) (mem_userId m') \<or>
     mem_userId m = mem_userId m' \<and> units_less (keyFingerprintHex d) (keyFingerprintHex d')"

lemma sorted_pairs:
  assumes "sorted_wrt (\<lambda>a b. units_less (mem_userId a) (mem_userId b)) ms"
    and "\<And>m. m \<in> set ms \<Longrightarrow> sorted_wrt (\<lambda>a b. units_less (keyFingerprintHex a) (keyFingerprintHex b)) (f m)"
  shows "sorted_wrt before (concat (map (\<lambda>m. map (\<lambda>d. (m, d)) (f m)) ms))"
  using assms by (induction ms) (auto simp: sorted_wrt_append sorted_wrt_map units_less_irrefl)

lemma memberDevices_sorted:
  assumes "members_ok sha256 n ms"
  shows "sorted_wrt before (memberDevicesInOrder ms)"
  unfolding memberDevicesInOrder_def
proof (rule sorted_pairs)
  have member: "member_ok sha256 n u m" if "(u, m) \<in> set ms" for u m
    using assms that in_set_map_of [of ms u m] by (auto simp: members_ok_def js.everywhere_def)
  have "map mem_userId (map snd ms) = map fst ms" using member by (auto simp: member_ok_def)
  moreover have "distinct (map fst ms)" using assms by (simp add: members_ok_def keys_ok_def)
  ultimately have "distinct (map mem_userId (map snd ms))" by (simp only:)
  then show "sorted_wrt (\<lambda>a b. units_less (mem_userId a) (mem_userId b))
      (toSorted (\<lambda>a b. byCodeUnits (mem_userId a) (mem_userId b)) (map snd ms))"
    by (rule strictly_sorted_by_units)
  fix m
  assume "m \<in> set (toSorted (\<lambda>a b. byCodeUnits (mem_userId a) (mem_userId b)) (map snd ms))"
  then obtain u where "(u, m) \<in> set ms" by auto
  then have ok: "member_ok sha256 n u m" by (rule member)
  have "map keyFingerprintHex (map snd (devices m)) = map fst (devices m)"
    using ok in_set_map_of [of "devices m"] by (auto simp: member_ok_def js.everywhere_def device_ok_def)
  moreover have "distinct (map fst (devices m))" using ok by (simp add: member_ok_def keys_ok_def)
  ultimately have "distinct (map keyFingerprintHex (map snd (devices m)))" by (simp only:)
  then show "sorted_wrt (\<lambda>a b. units_less (keyFingerprintHex a) (keyFingerprintHex b))
      (toSorted (\<lambda>a b. byCodeUnits (keyFingerprintHex a) (keyFingerprintHex b)) (map snd (devices m)))"
    by (rule strictly_sorted_by_units)
qed

lemma distinct_before: "sorted_wrt before ps \<Longrightarrow> distinct ps"
  by (induction ps) (auto simp: units_less_irrefl split: prod.splits)

section \<open>The recipients of an accepted chain\<close>

text \<open>What a wrap is addressed to: the recipient's identifier and its encryption key.\<close>

fun recipient_id :: "wrap_recipient \<Rightarrow> ustr" where
  "recipient_id (Member_Recipient m d) = mem_userId m"
| "recipient_id (Server_Recipient g) = serverKeyFingerprintHex g"

fun recipient_key :: "wrap_recipient \<Rightarrow> ustr" where
  "recipient_key (Member_Recipient m d) = encPubHex d"
| "recipient_key (Server_Recipient g) = serverEncPubHex g"

text \<open>The recipient sets as the specification writes them.\<close>

fun receives :: "chain_state \<Rightarrow> environment_id \<Rightarrow> wrap_recipient \<Rightarrow> bool" where
  "receives st e (Member_Recipient m d) \<longleftrightarrow>
     map_of (st_members st) (mem_userId m) = Some m \<and> map_of (devices m) (keyFingerprintHex d) = Some d \<and>
     e \<in> scope_envs (mem_scope m) \<and> e \<in> scope_envs (cap_scope d)"
| "receives st e (Server_Recipient g) \<longleftrightarrow>
     map_of (st_serverGrants st) (serverKeyFingerprintHex g) = Some g \<and> e \<in> set (grant_scopeEnvironmentIds g)"

lemma value_by_key:
  assumes "keys_ok m" and "\<And>k v. map_of m k = Some v \<Longrightarrow> key v = k"
  shows "v \<in> snd ` set m \<longleftrightarrow> map_of m (key v) = Some v"
proof
  assume "v \<in> snd ` set m"
  then obtain k where "map_of m k = Some v" using in_set_map_of [OF assms(1)] by auto
  with assms(2) show "map_of m (key v) = Some v" by auto
next
  assume "map_of m (key v) = Some v"
  then show "v \<in> snd ` set m" using in_set_map_of [OF assms(1)] by (metis image_eqI snd_conv)
qed

lemma accepted_members:
  assumes "verifyChain api entries = Accepted st" and "map_of (st_members st) u = Some m"
  shows "mem_userId m = u" and "keys_ok (devices m)"
    and "map_of (devices m) f = Some d \<Longrightarrow> keyFingerprintHex d = f"
  using accepted_state_parts(2) [OF assms(1)] assms(2)
  by (auto simp: members_ok_def member_ok_def device_ok_def js.everywhere_def)

lemma accepted_member_in:
  assumes "verifyChain api entries = Accepted st"
  shows "m \<in> snd ` set (st_members st) \<and> d \<in> snd ` set (devices m) \<longleftrightarrow>
    map_of (st_members st) (mem_userId m) = Some m \<and> map_of (devices m) (keyFingerprintHex d) = Some d"
proof -
  have "keys_ok (st_members st)" using accepted_state_parts(2) [OF assms] by (simp add: members_ok_def)
  then have "m \<in> snd ` set (st_members st) \<longleftrightarrow> map_of (st_members st) (mem_userId m) = Some m"
    by (rule value_by_key) (rule accepted_members(1) [OF assms])
  moreover have "d \<in> snd ` set (devices m) \<longleftrightarrow> map_of (devices m) (keyFingerprintHex d) = Some d"
    if "map_of (st_members st) (mem_userId m) = Some m"
    by (rule value_by_key [OF accepted_members(2) [OF assms that]]) (rule accepted_members(3) [OF assms that])
  ultimately show ?thesis by blast
qed

lemma accepted_grants:
  assumes "verifyChain api entries = Accepted st" and "map_of (st_serverGrants st) fp = Some g"
  shows "serverKeyFingerprintHex g = fp" and "map_of (st_namedServerKeys st) (serverEncPubHex g) = Some fp"
  using accepted_state_parts(5) [OF assms(1)] assms(2)
  by (auto simp: grants_ok_def grant_ok_def js.everywhere_def)

lemma accepted_grant_in:
  assumes "verifyChain api entries = Accepted st"
  shows "g \<in> snd ` set (st_serverGrants st) \<longleftrightarrow> map_of (st_serverGrants st) (serverKeyFingerprintHex g) = Some g"
  using accepted_state_parts(5) [OF assms] accepted_grants(1) [OF assms]
  by (intro value_by_key) (simp_all add: grants_ok_def)

lemma receives_iff:
  assumes "verifyChain api entries = Accepted st"
  shows "w \<in> set (wrapRecipientsOf (st_members st) (st_serverGrants st) e) \<longleftrightarrow> receives st e w"
proof (cases w)
  case (Member_Recipient m d)
  then have "w \<in> set (wrapRecipientsOf (st_members st) (st_serverGrants st) e) \<longleftrightarrow>
      (m, d) \<in> set (memberDevicesInOrder (st_members st)) \<and> deviceReceivesEnvironment m d e"
    by (force simp: wrapRecipientsOf_def)
  then show ?thesis
    by (simp add: set_memberDevicesInOrder accepted_member_in [OF assms] Member_Recipient
        deviceReceivesEnvironment_def scopeIncludesEnvironment_iff effective_scope_envs)
next
  case (Server_Recipient g)
  then have "w \<in> set (wrapRecipientsOf (st_members st) (st_serverGrants st) e) \<longleftrightarrow>
      g \<in> snd ` set (st_serverGrants st) \<and> e \<in> set (grant_scopeEnvironmentIds g)"
    by (auto simp: wrapRecipientsOf_def)
  then show ?thesis by (simp add: accepted_grant_in [OF assms] Server_Recipient)
qed

lemma receives_device:
  assumes "receives st e (Member_Recipient m d)"
  shows "device_of (st_members st) (mem_userId m) (keyFingerprintHex d) = Some d"
  using assms by (simp add: device_of_def)

lemma recipient_key_inj:
  assumes st: "verifyChain api entries = Accepted st" and "receives st e w" and "receives st e w'"
    and "recipient_key w = recipient_key w'"
  shows "w = w'"
proof (cases w; cases w')
  fix m d m' d'
  assume w: "w = Member_Recipient m d" "w' = Member_Recipient m' d'"
  with assms(2,3) have "device_of (st_members st) (mem_userId m) (keyFingerprintHex d) = Some d"
    "device_of (st_members st) (mem_userId m') (keyFingerprintHex d') = Some d'"
    by (auto intro: receives_device)
  with accepted_state_parts(7) [OF st] assms(4) w
  have same: "mem_userId m = mem_userId m'" "keyFingerprintHex d = keyFingerprintHex d'"
    unfolding unique_keys_def by fastforce+
  from assms(2,3) w have "map_of (st_members st) (mem_userId m) = Some m"
    "map_of (st_members st) (mem_userId m') = Some m'" by simp_all
  then have "m = m'" unfolding same(1) by (metis option.inject)
  moreover from assms(2,3) w have "map_of (devices m) (keyFingerprintHex d) = Some d"
    "map_of (devices m') (keyFingerprintHex d') = Some d'" by simp_all
  then have "d = d'" unfolding \<open>m = m'\<close> same(2) by (metis option.inject)
  ultimately show ?thesis by (simp only: w)
next
  fix g g'
  assume w: "w = Server_Recipient g" "w' = Server_Recipient g'"
  with assms(2,3) have g: "map_of (st_serverGrants st) (serverKeyFingerprintHex g) = Some g"
    "map_of (st_serverGrants st) (serverKeyFingerprintHex g') = Some g'"
    by simp_all
  with accepted_grants(2) [OF st g(1)] accepted_grants(2) [OF st g(2)] assms(4) w
  show ?thesis by simp
next
  fix m d g
  assume w: "w = Member_Recipient m d" "w' = Server_Recipient g"
  then have "device_of (st_members st) (mem_userId m) (keyFingerprintHex d) = Some d"
    using assms(2) receives_device by blast
  with accepted_state_parts(10) [OF st] have "map_of (st_namedServerKeys st) (encPubHex d) = None" .
  moreover from assms(3) w have "map_of (st_serverGrants st) (serverKeyFingerprintHex g) = Some g" by simp
  ultimately show ?thesis using accepted_grants(2) [OF st] assms(4) w by fastforce
next
  fix g m d
  assume w: "w = Server_Recipient g" "w' = Member_Recipient m d"
  then have "device_of (st_members st) (mem_userId m) (keyFingerprintHex d) = Some d"
    using assms(3) receives_device by blast
  with accepted_state_parts(10) [OF st] have "map_of (st_namedServerKeys st) (encPubHex d) = None" .
  moreover from assms(2) w have "map_of (st_serverGrants st) (serverKeyFingerprintHex g) = Some g" by simp
  ultimately show ?thesis using accepted_grants(2) [OF st] assms(4) w by fastforce
qed

lemma sorted_grants:
  assumes "verifyChain api entries = Accepted st"
  shows "sorted_wrt (\<lambda>a b. units_less (serverKeyFingerprintHex a) (serverKeyFingerprintHex b))
    (toSorted (\<lambda>a b. byCodeUnits (serverKeyFingerprintHex a) (serverKeyFingerprintHex b))
      (filter P (map snd (st_serverGrants st))))"
proof (rule strictly_sorted_by_units)
  have "keys_ok (st_serverGrants st)" using accepted_state_parts(5) [OF assms] by (simp add: grants_ok_def)
  then have "map serverKeyFingerprintHex (map snd (st_serverGrants st)) = map fst (st_serverGrants st)"
    and "distinct (map fst (st_serverGrants st))"
    using accepted_grants(1) [OF assms] by (auto simp: in_set_map_of) (simp add: keys_ok_def)
  then have "distinct (map serverKeyFingerprintHex (map snd (st_serverGrants st)))" by (simp only:)
  then show "distinct (map serverKeyFingerprintHex (filter P (map snd (st_serverGrants st))))"
    by (rule distinct_map_filter)
qed

lemma recipients_distinct:
  assumes "verifyChain api entries = Accepted st"
  shows "distinct (map recipient_key (wrapRecipientsOf (st_members st) (st_serverGrants st) e))"
proof -
  let ?R = "wrapRecipientsOf (st_members st) (st_serverGrants st) e"
  have "distinct (memberDevicesInOrder (st_members st))"
    using memberDevices_sorted [OF accepted_state_parts(2) [OF assms]] by (rule distinct_before)
  moreover have "distinct gs" if "sorted_wrt (\<lambda>a b. units_less (serverKeyFingerprintHex a) (serverKeyFingerprintHex b)) gs" for gs
    using that by (induction gs) (auto simp: units_less_irrefl)
  ultimately have "distinct ?R"
    using sorted_grants [OF assms] by (auto simp: wrapRecipientsOf_def distinct_map inj_on_def)
  moreover have "inj_on recipient_key (set ?R)"
    using recipient_key_inj [OF assms] by (auto simp: inj_on_def receives_iff [OF assms])
  ultimately show ?thesis by (simp add: distinct_map)
qed

text \<open>
  C33. The recipients of an environment's key wraps, over an accepted chain: an element of the list is a
  current member's current device whose person's scope and whose own scope both hold the environment,
  or a grant that names it, and nothing else is; no two elements share an encryption key, so no two
  share an address; the member devices come first, in strictly increasing order of user identifier and
  device fingerprint, then the server keys in strictly increasing order of fingerprint, so the list is
  a function of the set; and the recipients of sealed values are exactly the member devices among them
  whose effective role is a member's or higher.
\<close>

theorem wrap_recipients_exact:
  assumes "verifyChain api entries = Accepted st"
  shows "(\<forall>w. w \<in> set (wrapRecipientsOf (st_members st) (st_serverGrants st) e) \<longleftrightarrow> receives st e w) \<and>
    distinct (map recipient_key (wrapRecipientsOf (st_members st) (st_serverGrants st) e)) \<and>
    (\<exists>pairs grants. wrapRecipientsOf (st_members st) (st_serverGrants st) e =
         map (\<lambda>(m, d). Member_Recipient m d) pairs @ map Server_Recipient grants \<and>
       sorted_wrt before pairs \<and>
       sorted_wrt (\<lambda>a b. units_less (serverKeyFingerprintHex a) (serverKeyFingerprintHex b)) grants) \<and>
    (\<forall>m d. (m, d) \<in> set (proposalRecipientsOf (st_members st) e) \<longleftrightarrow>
       receives st e (Member_Recipient m d) \<and> Member \<le> min (mem_role m) (roleCap d)) \<and>
    sorted_wrt before (proposalRecipientsOf (st_members st) e)"
proof (intro conjI exI)
  show "\<forall>w. w \<in> set (wrapRecipientsOf (st_members st) (st_serverGrants st) e) \<longleftrightarrow> receives st e w"
    by (simp add: receives_iff [OF assms])
  show "distinct (map recipient_key (wrapRecipientsOf (st_members st) (st_serverGrants st) e))"
    using assms by (rule recipients_distinct)
  show "wrapRecipientsOf (st_members st) (st_serverGrants st) e =
      map (\<lambda>(m, d). Member_Recipient m d) (filter (\<lambda>(m, d). deviceReceivesEnvironment m d e) (memberDevicesInOrder (st_members st))) @
      map Server_Recipient (toSorted (\<lambda>a b. byCodeUnits (serverKeyFingerprintHex a) (serverKeyFingerprintHex b))
        (filter (\<lambda>g. e \<in> set (grant_scopeEnvironmentIds g)) (map snd (st_serverGrants st))))"
    by (simp add: wrapRecipientsOf_def)
  note sorted = memberDevices_sorted [OF accepted_state_parts(2) [OF assms]]
  show "sorted_wrt before (filter (\<lambda>(m, d). deviceReceivesEnvironment m d e) (memberDevicesInOrder (st_members st)))"
    "sorted_wrt before (proposalRecipientsOf (st_members st) e)"
    unfolding proposalRecipientsOf_def by (rule sorted_wrt_filter [OF sorted])+
  show "sorted_wrt (\<lambda>a b. units_less (serverKeyFingerprintHex a) (serverKeyFingerprintHex b))
      (toSorted (\<lambda>a b. byCodeUnits (serverKeyFingerprintHex a) (serverKeyFingerprintHex b))
        (filter (\<lambda>g. e \<in> set (grant_scopeEnvironmentIds g)) (map snd (st_serverGrants st))))"
    by (rule sorted_grants [OF assms])
  show "\<forall>m d. (m, d) \<in> set (proposalRecipientsOf (st_members st) e) \<longleftrightarrow>
      receives st e (Member_Recipient m d) \<and> Member \<le> min (mem_role m) (roleCap d)"
    by (auto simp: proposalRecipientsOf_def Let_def set_memberDevicesInOrder accepted_member_in [OF assms]
        scopeIncludesEnvironment_iff effective_scope_envs effective_role_eq less_eq_role_def)
qed

theorem wrap_recipients_exact_witness:
  "\<exists>st. verifyChain demo_api (demo_chain 10) = Accepted st \<and>
     Member_Recipient demo_carol (demo_device 6 7 9) \<in>
       set (wrapRecipientsOf (st_members st) (st_serverGrants st) (lit ''prod'')) \<and>
     (demo_carol, demo_device 6 7 9) \<notin> set (proposalRecipientsOf (st_members st) (lit ''prod''))"
proof -
  obtain st where st: "verifyChain demo_api (demo_chain 10) = Accepted st" and "head_of demo_st10 10 st"
    using demo_heads(5) by auto
  then have carol: "map_of (st_members st) (lit ''carol'') = Some demo_carol"
    by (simp add: head_of_def demo_states)
  have "receives st (lit ''prod'') (Member_Recipient demo_carol (demo_device 6 7 9))"
    using carol by (simp add: demo_carol_def demo_device_def)
  moreover have "\<not> Member \<le> min (mem_role demo_carol) (roleCap (demo_device 6 7 9))"
    by (simp add: demo_carol_def demo_device_def min_def less_eq_role_def)
  ultimately show ?thesis using wrap_recipients_exact [OF st, of "lit ''prod''"] st by blast
qed

end
