(* ===== verification/Sealed_Transport.thy ===== *)
theory Sealed_Transport
  imports Signatures Domain_Strings
begin

text \<open>
  What travels encrypted: the wrap of an epoch key to a recipient (\<open>dek-wrap.ts\<close>), its lease to a
  workload (\<open>lease-wrap.ts\<close>), a proposed value sealed to a device (\<open>sealed-value.ts\<close>), the encryption of
  a variable's value (\<open>variable.ts\<close>) and the recovery wrap of the master secret (\<open>recovery.ts\<close>). The
  HPKE suite, AES-GCM and HKDF are parameters, \<^const>\<open>None\<close> where they throw; randomness is an argument.
  The context strings are ours, and what the section proves is that they keep every two contexts apart.
\<close>

record hpke_api =
  api_seal :: "bytes \<Rightarrow> bytes \<Rightarrow> bytes \<Rightarrow> bytes \<Rightarrow> (bytes \<times> bytes) option"
  api_open :: "bytes \<Rightarrow> bytes \<Rightarrow> bytes \<Rightarrow> bytes \<Rightarrow> bytes option"

definition DEK_BYTES :: nat where "DEK_BYTES = 32"

record wrapped_dek =
  wrapped_enc :: bytes
  wrapped_ciphertext :: bytes

definition count_invalid :: "int \<Rightarrow> bool" where
  "count_invalid n \<longleftrightarrow> \<not> safe_int n \<or> n < 0"

text \<open>The common body of the three seals and of the three opens: info and primitive inside one \<open>try\<close>.\<close>

definition seal_under :: "hpke_api \<Rightarrow> bytes \<Rightarrow> bytes \<Rightarrow> bytes \<Rightarrow> bytes option \<Rightarrow> wrapped_dek crypto_result" where
  "seal_under hpke random publicKey plaintext info =
     (case Option.bind info (api_seal hpke random publicKey plaintext) of
        None \<Rightarrow> Rejected Dek_Wrap_Failed
      | Some (enc, ciphertext) \<Rightarrow> Accepted \<lparr>wrapped_enc = enc, wrapped_ciphertext = ciphertext\<rparr>)"

definition open_under :: "hpke_api \<Rightarrow> bytes \<Rightarrow> wrapped_dek \<Rightarrow> bytes option \<Rightarrow> bytes crypto_result" where
  "open_under hpke keyPair w info =
     (case Option.bind info (api_open hpke keyPair (wrapped_enc w) (wrapped_ciphertext w)) of
        None \<Rightarrow> Rejected Dek_Unwrap_Failed
      | Some plaintext \<Rightarrow> Accepted plaintext)"

section \<open>The wrap of an epoch key\<close>

record dek_wrap_context =
  dw_projectId :: ustr
  dw_environmentId :: environment_id
  dw_epoch :: int
  dw_recipientUserId :: ustr

definition checkEpoch :: "dek_wrap_context \<Rightarrow> bool" where
  "checkEpoch c \<longleftrightarrow> safe_int (dw_epoch c) \<and> 0 \<le> dw_epoch c"

definition dek_wrap_fields :: "dek_wrap_context \<Rightarrow> lp_field list" where
  "dek_wrap_fields c =
     [LpStr (dw_projectId c), LpStr (dw_environmentId c), LpNum (dw_epoch c), LpStr (dw_recipientUserId c)]"

definition buildDekWrapInfo :: "dek_wrap_context \<Rightarrow> bytes option" where
  "buildDekWrapInfo c = statement_bytes SUITE_ID ''dek-wrap'' (dek_wrap_fields c)"

definition wrapDek :: "hpke_api \<Rightarrow> bytes \<Rightarrow> bytes \<Rightarrow> bytes \<Rightarrow> dek_wrap_context \<Rightarrow> wrapped_dek crypto_result" where
  "wrapDek hpke random recipientPublicKey dek c =
     require_valid (first_invalid
         [(length dek \<noteq> DEK_BYTES, ''dek length''), (\<not> checkEpoch c, ''context epoch'')])
       (seal_under hpke random recipientPublicKey dek (buildDekWrapInfo c))"

definition unwrapDek :: "hpke_api \<Rightarrow> bytes \<Rightarrow> wrapped_dek \<Rightarrow> dek_wrap_context \<Rightarrow> bytes crypto_result" where
  "unwrapDek hpke recipientKeyPair wrapped c =
     require_valid (first_invalid [(\<not> checkEpoch c, ''context epoch'')])
       (open_under hpke recipientKeyPair wrapped (buildDekWrapInfo c))"

section \<open>The lease wrap\<close>

record lease_claims =
  lc_issuerUrl :: ustr
  lc_subject :: ustr
  lc_audience :: ustr

record lease_wrap_context =
  lw_projectId :: ustr
  lw_environmentId :: environment_id
  lw_epoch :: int
  lw_claimsDigestHex :: ustr

definition lease_claims_fields :: "lease_claims \<Rightarrow> lp_field list" where
  "lease_claims_fields claims = [LpStr (lc_issuerUrl claims), LpStr (lc_subject claims), LpStr (lc_audience claims)]"

definition buildLeaseClaimsBytes :: "lease_claims \<Rightarrow> bytes option" where
  "buildLeaseClaimsBytes claims = statement_bytes SUITE_ID ''lease-claims'' (lease_claims_fields claims)"

definition computeLeaseClaimsDigest :: "(bytes \<Rightarrow> bytes) \<Rightarrow> lease_claims \<Rightarrow> ustr crypto_result" where
  "computeLeaseClaimsDigest sha256 claims =
     require_valid (first_invalid
         [(lc_issuerUrl claims = [], ''claims issuerUrl''), (lc_subject claims = [], ''claims subject''),
          (lc_audience claims = [], ''claims audience'')])
       (with_bytes (buildLeaseClaimsBytes claims) (\<lambda>b. Accepted (encode_hex (sha256 b))))"

definition leaseContextInvalidField :: "lease_wrap_context \<Rightarrow> string option" where
  "leaseContextInvalidField c = first_invalid
     [(count_invalid (lw_epoch c), ''context epoch''),
      (\<not> (length (lw_claimsDigestHex c) = SHA256_HEX_LENGTH \<and> list_all is_hex_digit (lw_claimsDigestHex c)),
       ''context claimsDigestHex'')]"

definition lease_wrap_fields :: "lease_wrap_context \<Rightarrow> lp_field list" where
  "lease_wrap_fields c =
     [LpStr (lw_projectId c), LpStr (lw_environmentId c), LpNum (lw_epoch c), LpStr (lw_claimsDigestHex c)]"

definition buildLeaseWrapInfo :: "lease_wrap_context \<Rightarrow> bytes option" where
  "buildLeaseWrapInfo c = statement_bytes SUITE_ID ''lease-wrap'' (lease_wrap_fields c)"

definition wrapLeaseDek :: "hpke_api \<Rightarrow> bytes \<Rightarrow> bytes \<Rightarrow> bytes \<Rightarrow> lease_wrap_context \<Rightarrow> wrapped_dek crypto_result" where
  "wrapLeaseDek hpke random workloadPublicKey dek c =
     require_valid (first_reason (reject_when (length dek \<noteq> DEK_BYTES) ''dek length'') (leaseContextInvalidField c))
       (seal_under hpke random workloadPublicKey dek (buildLeaseWrapInfo c))"

definition unwrapLeaseDek :: "hpke_api \<Rightarrow> bytes \<Rightarrow> wrapped_dek \<Rightarrow> lease_wrap_context \<Rightarrow> bytes crypto_result" where
  "unwrapLeaseDek hpke workloadKeyPair wrapped c =
     require_valid (leaseContextInvalidField c)
       (open_under hpke workloadKeyPair wrapped (buildLeaseWrapInfo c))"

section \<open>The sealed value of a proposal\<close>

definition PROPOSAL_ID_BYTES :: nat where "PROPOSAL_ID_BYTES = 16"

definition MAX_SEALED_VALUE_BYTES :: nat where "MAX_SEALED_VALUE_BYTES = 64 * 1024 - 16"

record sealed_value_context =
  sv_projectId :: ustr
  sv_environmentId :: environment_id
  sv_proposalId :: ustr
  sv_variableId :: ustr
  sv_baseVersion :: int
  sv_recipientUserId :: user_id

definition isProposalId :: "ustr \<Rightarrow> bool" where
  "isProposalId value \<longleftrightarrow> length value = PROPOSAL_ID_BYTES * 2 \<and> list_all is_hex_digit value"

definition sealedContextInvalidField :: "sealed_value_context \<Rightarrow> string option" where
  "sealedContextInvalidField c = first_invalid
     [(\<not> isProposalId (sv_proposalId c), ''context proposalId''),
      (counter_invalid (sv_baseVersion c), ''context baseVersion''),
      (sv_projectId c = [], ''context projectId''),
      (sv_environmentId c = [], ''context environmentId''),
      (sv_variableId c = [], ''context variableId''),
      (sv_recipientUserId c = [], ''context recipientUserId'')]"

definition sealed_value_fields :: "sealed_value_context \<Rightarrow> lp_field list" where
  "sealed_value_fields c =
     [LpStr (sv_projectId c), LpStr (sv_environmentId c), LpStr (sv_proposalId c), LpStr (sv_variableId c),
      LpNum (sv_baseVersion c), LpStr (sv_recipientUserId c)]"

definition buildSealedValueInfo :: "sealed_value_context \<Rightarrow> bytes option" where
  "buildSealedValueInfo c = statement_bytes SUITE_ID ''sealed-value'' (sealed_value_fields c)"

definition sealProposedValue ::
  "hpke_api \<Rightarrow> bytes \<Rightarrow> bytes \<Rightarrow> bytes \<Rightarrow> sealed_value_context \<Rightarrow> wrapped_dek crypto_result" where
  "sealProposedValue hpke random recipientPublicKey value c =
     require_valid (first_reason
         (reject_when (length value = 0 \<or> MAX_SEALED_VALUE_BYTES < length value) ''value length'')
         (sealedContextInvalidField c))
       (seal_under hpke random recipientPublicKey value (buildSealedValueInfo c))"

definition openProposedValue :: "hpke_api \<Rightarrow> bytes \<Rightarrow> wrapped_dek \<Rightarrow> sealed_value_context \<Rightarrow> bytes crypto_result" where
  "openProposedValue hpke recipientKeyPair sealed c =
     require_valid (sealedContextInvalidField c)
       (open_under hpke recipientKeyPair sealed (buildSealedValueInfo c))"

section \<open>AES-GCM: the value of a variable, the master secret\<close>

record aead_api =
  api_gcm_encrypt :: "bytes \<Rightarrow> bytes \<Rightarrow> bytes \<Rightarrow> bytes \<Rightarrow> bytes option"
  api_gcm_decrypt :: "bytes \<Rightarrow> bytes \<Rightarrow> bytes \<Rightarrow> bytes \<Rightarrow> bytes option"
  api_hkdf :: "bytes \<Rightarrow> bytes \<Rightarrow> bytes option"

definition NONCE_BYTES :: nat where "NONCE_BYTES = 12"

record variable_context =
  var_projectId :: ustr
  var_environmentId :: environment_id
  var_epoch :: int
  var_variableId :: ustr
  var_version :: int

record encrypted_variable =
  enc_nonce :: bytes
  enc_ciphertext :: bytes

definition checkContextNumbers :: "variable_context \<Rightarrow> string option" where
  "checkContextNumbers c = first_invalid
     [(count_invalid (var_epoch c), ''context epoch''), (count_invalid (var_version c), ''context version'')]"

definition variable_fields :: "variable_context \<Rightarrow> lp_field list" where
  "variable_fields c =
     [LpStr (var_projectId c), LpStr (var_environmentId c), LpNum (var_epoch c), LpStr (var_variableId c),
      LpNum (var_version c)]"

definition buildVariableAad :: "variable_context \<Rightarrow> bytes option" where
  "buildVariableAad c = encode_lp (LpStr SUITE_ID # variable_fields c)"

definition encryptVariable ::
  "aead_api \<Rightarrow> bytes \<Rightarrow> bytes \<Rightarrow> variable_context \<Rightarrow> bytes \<Rightarrow> encrypted_variable crypto_result" where
  "encryptVariable aead nonce dek c plaintext =
     require_valid (first_reason (reject_when (length dek \<noteq> DEK_BYTES) ''dek length'') (checkContextNumbers c))
       (case Option.bind (buildVariableAad c) (\<lambda>aad. api_gcm_encrypt aead dek nonce aad plaintext) of
          None \<Rightarrow> Rejected (Encrypt_Failed Aead_Variable)
        | Some ciphertext \<Rightarrow> Accepted \<lparr>enc_nonce = nonce, enc_ciphertext = ciphertext\<rparr>)"

definition decryptVariable ::
  "aead_api \<Rightarrow> bytes \<Rightarrow> variable_context \<Rightarrow> bytes \<Rightarrow> bytes \<Rightarrow> bytes crypto_result" where
  "decryptVariable aead dek c nonce ciphertext =
     require_valid (first_reason
         (first_invalid [(length dek \<noteq> DEK_BYTES, ''dek length''), (length nonce \<noteq> NONCE_BYTES, ''nonce length'')])
         (checkContextNumbers c))
       (case Option.bind (buildVariableAad c) (\<lambda>aad. api_gcm_decrypt aead dek nonce aad ciphertext) of
          None \<Rightarrow> Rejected (Decrypt_Failed Aead_Variable)
        | Some plaintext \<Rightarrow> Accepted plaintext)"

definition RECOVERY_SECRET_BYTES :: nat where "RECOVERY_SECRET_BYTES = 32"

definition deriveKek :: "aead_api \<Rightarrow> bytes \<Rightarrow> bytes option" where
  "deriveKek aead recoverySecret = api_hkdf aead recoverySecret (utf8_encode (domain_string SUITE_ID ''recovery''))"

definition wrapAad :: "user_id \<Rightarrow> bytes option" where
  "wrapAad userId = statement_bytes SUITE_ID ''recovery-wrap'' [LpStr userId]"

definition wrapMasterSecret ::
  "aead_api \<Rightarrow> bytes \<Rightarrow> bytes \<Rightarrow> user_id \<Rightarrow> bytes \<Rightarrow> encrypted_variable crypto_result" where
  "wrapMasterSecret aead nonce recoverySecret userId masterSecretBlob =
     require_valid (first_invalid [(length recoverySecret \<noteq> RECOVERY_SECRET_BYTES, ''recovery secret length'')])
       (case Option.bind (deriveKek aead recoverySecret) (\<lambda>kek.
               Option.bind (wrapAad userId) (\<lambda>aad. api_gcm_encrypt aead kek nonce aad masterSecretBlob)) of
          None \<Rightarrow> Rejected (Encrypt_Failed Aead_Recovery)
        | Some ciphertext \<Rightarrow> Accepted \<lparr>enc_nonce = nonce, enc_ciphertext = ciphertext\<rparr>)"

definition unwrapMasterSecret :: "aead_api \<Rightarrow> bytes \<Rightarrow> user_id \<Rightarrow> encrypted_variable \<Rightarrow> bytes crypto_result" where
  "unwrapMasterSecret aead recoverySecret userId wrapped =
     require_valid (first_invalid
         [(length recoverySecret \<noteq> RECOVERY_SECRET_BYTES, ''recovery secret length''),
          (length (enc_nonce wrapped) \<noteq> NONCE_BYTES, ''nonce length'')])
       (case Option.bind (deriveKek aead recoverySecret) (\<lambda>kek.
               Option.bind (wrapAad userId) (\<lambda>aad. api_gcm_decrypt aead kek (enc_nonce wrapped) aad (enc_ciphertext wrapped))) of
          None \<Rightarrow> Rejected (Decrypt_Failed Aead_Recovery)
        | Some blob \<Rightarrow> Accepted blob)"

end
