(* ===== verification/Context_Binding.thy ===== *)
theory Context_Binding
  imports Sealed_Transport Statement_Totality
begin

text \<open>
  What is sealed for a context opens under that context and under no other: the three HPKE transports
  share one recipient key, and their context strings keep project, environment, epoch, recipient,
  workload, proposal, variable and version apart, within a transport and across the three. The same for
  the two uses of AES-GCM.
\<close>

section \<open>The context strings\<close>

definition dek_wrap_texts :: "dek_wrap_context \<Rightarrow> ustr list" where
  "dek_wrap_texts c = [SUITE_ID, dw_projectId c, dw_environmentId c, dw_recipientUserId c]"

definition lease_wrap_texts :: "lease_wrap_context \<Rightarrow> ustr list" where
  "lease_wrap_texts c = [SUITE_ID, lw_projectId c, lw_environmentId c, lw_claimsDigestHex c]"

definition sealed_value_texts :: "sealed_value_context \<Rightarrow> ustr list" where
  "sealed_value_texts c =
     [SUITE_ID, sv_projectId c, sv_environmentId c, sv_proposalId c, sv_variableId c, sv_recipientUserId c]"

definition variable_texts :: "variable_context \<Rightarrow> ustr list" where
  "variable_texts c = [lit ''maruhi'', var_projectId c, var_environmentId c, var_variableId c]"

definition lease_claims_texts :: "lease_claims \<Rightarrow> ustr list" where
  "lease_claims_texts c = [SUITE_ID, lc_issuerUrl c, lc_subject c, lc_audience c]"

interpretation dek_wrap: signed_statement "\<lambda>_. SUITE_ID" "\<lambda>_. ''dek-wrap''" dek_wrap_fields dek_wrap_texts "\<lambda>c. c"
  by unfold_locales (auto simp: plain_name_def dek_wrap_texts_def dek_wrap_fields_def)

interpretation lease_wrap: signed_statement "\<lambda>_. SUITE_ID" "\<lambda>_. ''lease-wrap''" lease_wrap_fields lease_wrap_texts "\<lambda>c. c"
  by unfold_locales (auto simp: plain_name_def lease_wrap_texts_def lease_wrap_fields_def)

interpretation sealed_value:
  signed_statement "\<lambda>_. SUITE_ID" "\<lambda>_. ''sealed-value''" sealed_value_fields sealed_value_texts "\<lambda>c. c"
  by unfold_locales (auto simp: plain_name_def sealed_value_texts_def sealed_value_fields_def)

interpretation lease_claims:
  signed_statement "\<lambda>_. SUITE_ID" "\<lambda>_. ''lease-claims''" lease_claims_fields lease_claims_texts "\<lambda>c. c"
  by unfold_locales (auto simp: plain_name_def lease_claims_texts_def lease_claims_fields_def)

interpretation recovery_wrap:
  signed_statement "\<lambda>_. SUITE_ID" "\<lambda>_. ''recovery-wrap''" "\<lambda>u. [LpStr u]" "\<lambda>u. [SUITE_ID, u]" "\<lambda>u. u"
  by unfold_locales (auto simp: plain_name_def)

text \<open>The associated data of a variable starts with the bare suite, itself a name behind a slash.\<close>

interpretation variable_aad:
  signed_statement "\<lambda>_. lit ''maruhi''" "\<lambda>_. ''v1''" variable_fields variable_texts "\<lambda>c. c"
  by unfold_locales (auto simp: plain_name_def variable_texts_def variable_fields_def)

lemma variable_aad_statement: "buildVariableAad c = statement_bytes (lit ''maruhi'') ''v1'' (variable_fields c)"
proof -
  have "SUITE_ID = domain_string (lit ''maruhi'') ''v1''" by (simp add: SUITE_ID_def domain_string_def lit_def)
  then show ?thesis by (simp add: buildVariableAad_def statement_bytes_def)
qed

section \<open>The three transports as one\<close>

datatype sealing_context =
    Dek_Context dek_wrap_context
  | Lease_Context lease_wrap_context
  | Proposal_Context sealed_value_context

fun seal_as :: "hpke_api \<Rightarrow> bytes \<Rightarrow> bytes \<Rightarrow> bytes \<Rightarrow> sealing_context \<Rightarrow> wrapped_dek crypto_result" where
  "seal_as hpke random pk m (Dek_Context c) = wrapDek hpke random pk m c"
| "seal_as hpke random pk m (Lease_Context c) = wrapLeaseDek hpke random pk m c"
| "seal_as hpke random pk m (Proposal_Context c) = sealProposedValue hpke random pk m c"

fun open_as :: "hpke_api \<Rightarrow> bytes \<Rightarrow> wrapped_dek \<Rightarrow> sealing_context \<Rightarrow> bytes crypto_result" where
  "open_as hpke pair w (Dek_Context c) = unwrapDek hpke pair w c"
| "open_as hpke pair w (Lease_Context c) = unwrapLeaseDek hpke pair w c"
| "open_as hpke pair w (Proposal_Context c) = openProposedValue hpke pair w c"

fun sealing_info :: "sealing_context \<Rightarrow> bytes option" where
  "sealing_info (Dek_Context c) = buildDekWrapInfo c"
| "sealing_info (Lease_Context c) = buildLeaseWrapInfo c"
| "sealing_info (Proposal_Context c) = buildSealedValueInfo c"

fun sealing_texts :: "sealing_context \<Rightarrow> ustr list" where
  "sealing_texts (Dek_Context c) = dek_wrap_texts c"
| "sealing_texts (Lease_Context c) = lease_wrap_texts c"
| "sealing_texts (Proposal_Context c) = sealed_value_texts c"

fun sealing_invalid :: "sealing_context \<Rightarrow> string option" where
  "sealing_invalid (Dek_Context c) = (if checkEpoch c then None else Some ''context epoch'')"
| "sealing_invalid (Lease_Context c) = leaseContextInvalidField c"
| "sealing_invalid (Proposal_Context c) = sealedContextInvalidField c"

lemma open_as_cases:
  "open_as hpke pair w c = require_valid (sealing_invalid c) (open_under hpke pair w (sealing_info c))"
  by (cases c) (simp_all add: unwrapDek_def unwrapLeaseDek_def openProposedValue_def)

lemma seal_as_Accepted:
  "seal_as hpke random pk m c = Accepted w \<Longrightarrow>
     sealing_invalid c = None \<and> (\<exists>info. sealing_info c = Some info \<and>
       api_seal hpke random pk m info = Some (wrapped_enc w, wrapped_ciphertext w))"
  by (cases c; cases w)
    (auto simp: wrapDek_def wrapLeaseDek_def sealProposedValue_def seal_under_def first_reason_def reject_when_def
      Option.bind_eq_Some_conv split: option.splits prod.splits if_splits)

fun sealing_name :: "sealing_context \<Rightarrow> string" where
  "sealing_name (Dek_Context c) = ''dek-wrap''"
| "sealing_name (Lease_Context c) = ''lease-wrap''"
| "sealing_name (Proposal_Context c) = ''sealed-value''"

fun sealing_fields :: "sealing_context \<Rightarrow> lp_field list" where
  "sealing_fields (Dek_Context c) = dek_wrap_fields c"
| "sealing_fields (Lease_Context c) = lease_wrap_fields c"
| "sealing_fields (Proposal_Context c) = sealed_value_fields c"

lemma sealing_info_statement: "sealing_info c = statement_bytes SUITE_ID (sealing_name c) (sealing_fields c)"
  by (cases c) (simp_all add: buildDekWrapInfo_def buildLeaseWrapInfo_def buildSealedValueInfo_def)

interpretation sealing: signed_statement "\<lambda>_. SUITE_ID" sealing_name sealing_fields sealing_texts "\<lambda>c. c"
proof unfold_locales
  show "plain_name (sealing_name c)" for c by (cases c) (simp_all add: plain_name_def)
  show "SUITE_ID \<in> set (sealing_texts c)" for c
    by (cases c) (simp_all add: dek_wrap_texts_def lease_wrap_texts_def sealed_value_texts_def)
  fix c c'
  assume name: "sealing_name c = sealing_name c'"
  show "list_all2 same_kind (sealing_fields c) (sealing_fields c')"
    if "list_all well_formed (sealing_texts c)" "list_all well_formed (sealing_texts c')"
    using that name dek_wrap.kinds lease_wrap.kinds sealed_value.kinds by (cases c; cases c') auto
  show "c = c'" if "sealing_fields c = sealing_fields c'"
    using that name dek_wrap.determined lease_wrap.determined sealed_value.determined by (cases c; cases c') auto
qed

lemma sealing_info_inj:
  assumes "sealing_info c = Some b" and "sealing_info c' = Some b"
    and "list_all well_formed (sealing_texts c)" and "list_all well_formed (sealing_texts c')"
  shows "c = c'"
  using sealing.bytes_determine [of c b c'] assms by (simp add: sealing_info_statement)

text \<open>What the specification of HPKE promises of a key pair: a seal opens, under its own info only.\<close>

definition hpke_key_pair :: "hpke_api \<Rightarrow> bytes \<Rightarrow> bytes \<Rightarrow> bool" where
  "hpke_key_pair hpke publicKey keyPair \<longleftrightarrow>
     (\<forall>random m info enc ciphertext. api_seal hpke random publicKey m info = Some (enc, ciphertext) \<longrightarrow>
        (\<forall>info'. api_open hpke keyPair enc ciphertext info' = (if info' = info then Some m else None)))"

lemma sealed_for_one_context:
  assumes "hpke_key_pair hpke publicKey keyPair" and "seal_as hpke random publicKey m c = Accepted w"
    and "list_all well_formed (sealing_texts c)" and "list_all well_formed (sealing_texts c')"
  shows "open_as hpke keyPair w c' =
    (if c' = c then Accepted m
     else Rejected (case sealing_invalid c' of Some f \<Rightarrow> Invalid_Input f | None \<Rightarrow> Dek_Unwrap_Failed))"
proof -
  obtain info where c: "sealing_invalid c = None" "sealing_info c = Some info"
    "api_seal hpke random publicKey m info = Some (wrapped_enc w, wrapped_ciphertext w)"
    using seal_as_Accepted [OF assms(2)] by blast
  with assms(1) have opened:
    "api_open hpke keyPair (wrapped_enc w) (wrapped_ciphertext w) i = (if i = info then Some m else None)" for i
    unfolding hpke_key_pair_def by blast
  have "sealing_info c' \<noteq> Some info" if "c' \<noteq> c"
    using that sealing_info_inj [OF c(2) _ assms(3,4)] by blast
  then show ?thesis
    using c opened by (auto simp: open_as_cases open_under_def require_valid_def split: option.splits bind_splits)
qed

definition demo_hpke :: hpke_api where
  "demo_hpke =
     \<lparr>api_seal = (\<lambda>random pk m info. Some (random, replicate (length info) 1 @ 0 # info @ m)),
      api_open = (\<lambda>pair enc ciphertext info.
        let n = length (takeWhile (\<lambda>x. x = 1) ciphertext) in
        if take n (drop (Suc n) ciphertext) = info then Some (drop (Suc n + n) ciphertext) else None)\<rparr>"

lemma demo_hpke_opens:
  assumes "api_seal demo_hpke random pk m info = Some (enc, ciphertext)"
  shows "api_open demo_hpke pair enc' ciphertext info' = (if info' = info then Some m else None)"
proof -
  have "takeWhile (\<lambda>x. x = (1 :: 8 word)) (replicate (length info) 1 @ 0 # info @ m) = replicate (length info) 1"
    for info m
    by (subst takeWhile_append2) auto
  with assms show ?thesis by (auto simp: demo_hpke_def Let_def)
qed

lemma demo_hpke_pair: "hpke_key_pair demo_hpke pk pair"
  using demo_hpke_opens by (simp add: hpke_key_pair_def)

section \<open>AES-GCM\<close>

text \<open>What the specification of AES-GCM promises: a ciphertext decrypts under its own associated data only.\<close>

definition gcm_authentic :: "aead_api \<Rightarrow> bool" where
  "gcm_authentic aead \<longleftrightarrow>
     (\<forall>key nonce aad m ciphertext. api_gcm_encrypt aead key nonce aad m = Some ciphertext \<longrightarrow>
        (\<forall>aad'. api_gcm_decrypt aead key nonce aad' ciphertext = (if aad' = aad then Some m else None)))"

lemma wrapAad_inj:
  "wrapAad u = Some b \<Longrightarrow> wrapAad u' = Some b \<Longrightarrow> well_formed u \<Longrightarrow> well_formed u' \<Longrightarrow> u = u'"
  unfolding wrapAad_def by (rule recovery_wrap.bytes_determine) (simp_all add: SUITE_ID_def)

lemma variable_aad_inj:
  "buildVariableAad c = Some b \<Longrightarrow> buildVariableAad c' = Some b \<Longrightarrow>
   list_all well_formed (variable_texts c) \<Longrightarrow> list_all well_formed (variable_texts c') \<Longrightarrow> c = c'"
  unfolding variable_aad_statement by (rule variable_aad.bytes_determine)

lemma encrypted_for_one_context:
  assumes "gcm_authentic aead" and "length nonce = NONCE_BYTES"
  shows "(encryptVariable aead nonce dek c m = Accepted e \<and>
       list_all well_formed (variable_texts c) \<and> list_all well_formed (variable_texts c') \<longrightarrow>
       decryptVariable aead dek c' (enc_nonce e) (enc_ciphertext e) =
         (if c' = c then Accepted m
          else Rejected (case checkContextNumbers c' of Some f \<Rightarrow> Invalid_Input f | None \<Rightarrow> Decrypt_Failed Aead_Variable))) \<and>
    (wrapMasterSecret aead nonce secret user blob = Accepted w \<and> well_formed user \<and> well_formed user' \<longrightarrow>
       unwrapMasterSecret aead secret user' w =
         (if user' = user then Accepted blob else Rejected (Decrypt_Failed Aead_Recovery)))"
proof (intro conjI impI; elim conjE)
  assume enc: "encryptVariable aead nonce dek c m = Accepted e"
    and texts: "list_all well_formed (variable_texts c)" "list_all well_formed (variable_texts c')"
  from enc obtain aad where c: "checkContextNumbers c = None" "length dek = DEK_BYTES" "buildVariableAad c = Some aad"
    "api_gcm_encrypt aead dek nonce aad m = Some (enc_ciphertext e)" "enc_nonce e = nonce"
    by (auto simp: encryptVariable_def first_reason_def reject_when_def Option.bind_eq_Some_conv split: option.splits if_splits)
  have opened: "api_gcm_decrypt aead dek nonce x (enc_ciphertext e) = (if x = aad then Some m else None)" for x
    using assms(1) c(4) unfolding gcm_authentic_def by blast
  have "buildVariableAad c' \<noteq> Some aad" if "c' \<noteq> c" using variable_aad_inj [OF c(3) _ texts] that by blast
  then show "decryptVariable aead dek c' (enc_nonce e) (enc_ciphertext e) =
      (if c' = c then Accepted m
       else Rejected (case checkContextNumbers c' of Some f \<Rightarrow> Invalid_Input f | None \<Rightarrow> Decrypt_Failed Aead_Variable))"
    using c opened assms(2)
    by (auto simp: decryptVariable_def first_reason_def require_valid_def split: option.splits bind_splits)
next
  assume wrap: "wrapMasterSecret aead nonce secret user blob = Accepted w"
    and texts: "well_formed user" "well_formed user'"
  from wrap obtain kek aad where u: "length secret = RECOVERY_SECRET_BYTES" "deriveKek aead secret = Some kek"
    "wrapAad user = Some aad" "api_gcm_encrypt aead kek nonce aad blob = Some (enc_ciphertext w)" "enc_nonce w = nonce"
    by (auto simp: wrapMasterSecret_def Option.bind_eq_Some_conv split: option.splits if_splits)
  have opened: "api_gcm_decrypt aead kek nonce x (enc_ciphertext w) = (if x = aad then Some blob else None)" for x
    using assms(1) u(4) unfolding gcm_authentic_def by blast
  have "wrapAad user' \<noteq> Some aad" if "user' \<noteq> user" using wrapAad_inj [OF u(3) _ texts] that by blast
  then show "unwrapMasterSecret aead secret user' w =
      (if user' = user then Accepted blob else Rejected (Decrypt_Failed Aead_Recovery))"
    using u opened assms(2) by (auto simp: unwrapMasterSecret_def split: option.splits bind_splits)
qed

definition demo_aead :: aead_api where
  "demo_aead =
     \<lparr>api_gcm_encrypt = (\<lambda>key nonce aad m. Option.bind (api_seal demo_hpke nonce key m aad) (\<lambda>p. Some (snd p))),
      api_gcm_decrypt = (\<lambda>key nonce aad ciphertext. api_open demo_hpke key nonce ciphertext aad),
      api_hkdf = (\<lambda>secret info. Some secret)\<rparr>"

text \<open>
  C31. Sealed or encrypted for one context, opened under that context only: what \<open>wrapDek\<close>, \<open>wrapLeaseDek\<close> or
  \<open>sealProposedValue\<close> seals for a context is opened by its own open under the same context, and every open
  under every other well-formed context, of the same or of another transport, is an error. A value
  encrypted for a variable, epoch and version decrypts to itself under the same context and is an error
  under every other, and a master secret wrapped for one user is unwrapped for that user only.
\<close>

theorem opened_in_one_context:
  assumes "hpke_key_pair hpke publicKey keyPair" and "seal_as hpke random publicKey plain c = Accepted sealed"
    and "list_all well_formed (sealing_texts c)" and "list_all well_formed (sealing_texts c')"
    and "gcm_authentic aead" and "length nonce = NONCE_BYTES"
  shows "open_as hpke keyPair sealed c' =
      (if c' = c then Accepted plain
       else Rejected (case sealing_invalid c' of Some f \<Rightarrow> Invalid_Input f | None \<Rightarrow> Dek_Unwrap_Failed)) \<and>
    (encryptVariable aead nonce dek v m = Accepted e \<and>
       list_all well_formed (variable_texts v) \<and> list_all well_formed (variable_texts v') \<longrightarrow>
       decryptVariable aead dek v' (enc_nonce e) (enc_ciphertext e) =
         (if v' = v then Accepted m
          else Rejected (case checkContextNumbers v' of Some f \<Rightarrow> Invalid_Input f | None \<Rightarrow> Decrypt_Failed Aead_Variable))) \<and>
    (wrapMasterSecret aead nonce secret user blob = Accepted w \<and> well_formed user \<and> well_formed user' \<longrightarrow>
       unwrapMasterSecret aead secret user' w =
         (if user' = user then Accepted blob else Rejected (Decrypt_Failed Aead_Recovery)))"
  using sealed_for_one_context [OF assms(1-4)] encrypted_for_one_context [OF assms(5,6)] by blast

theorem opened_in_one_context_witness:
  "\<exists>w r. wrapDek demo_hpke [] [] (replicate 32 7)
       \<lparr>dw_projectId = lit ''p'', dw_environmentId = lit ''prod'', dw_epoch = 2, dw_recipientUserId = lit ''bob''\<rparr> = Accepted w \<and>
     unwrapDek demo_hpke [] w
       \<lparr>dw_projectId = lit ''p'', dw_environmentId = lit ''prod'', dw_epoch = 1, dw_recipientUserId = lit ''bob''\<rparr> =
       Rejected Dek_Unwrap_Failed \<and>
     wrapMasterSecret demo_aead (replicate 12 0) (replicate 32 9) (lit ''bob'') [1, 2] = Accepted r \<and>
     unwrapMasterSecret demo_aead (replicate 32 9) (lit ''bob'') r = Accepted [1, 2] \<and>
     unwrapMasterSecret demo_aead (replicate 32 9) (lit ''eve'') r = Rejected (Decrypt_Failed Aead_Recovery)"
proof -
  let ?c = "\<lparr>dw_projectId = lit ''p'', dw_environmentId = lit ''prod'', dw_epoch = 2, dw_recipientUserId = lit ''bob''\<rparr>"
  have "\<exists>b. buildDekWrapInfo ?c = Some b"
    unfolding buildDekWrapInfo_def
    by (rule statement_bytes_defined)
      (auto simp: dek_wrap_fields_def SUITE_ID_def short_text_def safe_int_def max_safe_integer_def
        intro: short_text_field short_field_num)
  then obtain w where w: "wrapDek demo_hpke [] [] (replicate 32 7) ?c = Accepted w"
    by (auto simp: wrapDek_def seal_under_def demo_hpke_def DEK_BYTES_def checkEpoch_def safe_int_def max_safe_integer_def)
  then have sealed: "seal_as demo_hpke [] [] (replicate 32 7) (Dek_Context ?c) = Accepted w" by simp
  have texts: "list_all well_formed (sealing_texts (Dek_Context ?c))"
    "list_all well_formed (sealing_texts (Dek_Context (?c\<lparr>dw_epoch := 1\<rparr>)))"
    by (simp_all add: dek_wrap_texts_def SUITE_ID_def)
  have gcm: "gcm_authentic demo_aead"
    using demo_hpke_opens by (auto simp: gcm_authentic_def demo_aead_def Option.bind_eq_Some_conv)
  have nonce: "length (replicate 12 0 :: bytes) = NONCE_BYTES" by (simp add: NONCE_BYTES_def)
  have "\<exists>b. wrapAad (lit ''bob'') = Some b"
    unfolding wrapAad_def
    by (rule statement_bytes_defined) (simp_all add: SUITE_ID_def short_text_def short_text_field)
  then obtain r where r: "wrapMasterSecret demo_aead (replicate 12 0) (replicate 32 9) (lit ''bob'') [1, 2] = Accepted r"
    by (auto simp: wrapMasterSecret_def deriveKek_def demo_aead_def demo_hpke_def RECOVERY_SECRET_BYTES_def)
  have "lit ''eve'' \<noteq> lit ''bob''" by (simp add: lit_def)
  note opened = opened_in_one_context [OF demo_hpke_pair sealed texts gcm nonce,
      where secret = "replicate 32 9" and user = "lit ''bob''" and blob = "[1, 2]" and w = r]
  have "unwrapDek demo_hpke [] w (?c\<lparr>dw_epoch := 1\<rparr>) = Rejected Dek_Unwrap_Failed"
    using opened by (simp add: checkEpoch_def safe_int_def max_safe_integer_def)
  moreover have "unwrapMasterSecret demo_aead (replicate 32 9) (lit ''bob'') r = Accepted [1, 2]"
    and "unwrapMasterSecret demo_aead (replicate 32 9) (lit ''eve'') r = Rejected (Decrypt_Failed Aead_Recovery)"
    using opened r \<open>lit ''eve'' \<noteq> lit ''bob''\<close> by fastforce+
  ultimately show ?thesis using w r by simp
qed

end
