(* ===== verification/Key_Commitment.thy ===== *)
theory Key_Commitment
  imports Context_Binding Statement_Example
begin

text \<open>
  The commitment of an epoch key (\<open>dek-commitment.ts\<close>), which the chain publishes when an environment is
  created or its key rotated, and the check of an unwrapped key against it.
\<close>

definition COMMITMENT_HEX_LENGTH :: nat where "COMMITMENT_HEX_LENGTH = 32 * 2"

record dek_commitment_context =
  dc_suite :: ustr
  dc_projectId :: ustr
  dc_environmentId :: environment_id
  dc_epoch :: int

definition commitmentContextInvalidField :: "dek_commitment_context \<Rightarrow> string option" where
  "commitmentContextInvalidField c = first_invalid
     [(dc_suite c = [], ''context suite''), (counter_invalid (dc_epoch c), ''context epoch'')]"

definition commitment_fields :: "dek_commitment_context \<times> bytes \<Rightarrow> lp_field list" where
  "commitment_fields = (\<lambda>(c, dek).
     [LpStr (dc_projectId c), LpStr (dc_environmentId c), LpNum (dc_epoch c), LpStr (encode_hex dek)])"

definition buildDekCommitmentBytes :: "dek_commitment_context \<Rightarrow> bytes \<Rightarrow> bytes option" where
  "buildDekCommitmentBytes c dek = statement_bytes (dc_suite c) ''dek-commit'' (commitment_fields (c, dek))"

definition computeDekCommitment ::
  "(bytes \<Rightarrow> bytes) \<Rightarrow> dek_commitment_context \<Rightarrow> bytes \<Rightarrow> ustr crypto_result" where
  "computeDekCommitment sha256 c dek =
     require_valid (first_reason (commitmentContextInvalidField c)
         (reject_when (length dek \<noteq> DEK_BYTES) ''dek''))
       (with_bytes (buildDekCommitmentBytes c dek) (\<lambda>b. Accepted (encode_hex (sha256 b))))"

definition verifyDekCommitment ::
  "(bytes \<Rightarrow> bytes) \<Rightarrow> dek_commitment_context \<Rightarrow> bytes \<Rightarrow> ustr \<Rightarrow> unit crypto_result" where
  "verifyDekCommitment sha256 c dek expectedCommitmentHex =
     require_valid (first_invalid
         [(length expectedCommitmentHex \<noteq> COMMITMENT_HEX_LENGTH \<or>
           \<not> (expectedCommitmentHex \<noteq> [] \<and> list_all is_hex_digit expectedCommitmentHex), ''expectedCommitmentHex'')])
       (then_call (computeDekCommitment sha256 c dek)
          (\<lambda>computed. if computed = expectedCommitmentHex then Accepted () else Rejected Dek_Commitment_Mismatch))"

definition commitment_texts :: "dek_commitment_context \<Rightarrow> ustr list" where
  "commitment_texts c = [dc_suite c, dc_projectId c, dc_environmentId c]"

interpretation dek_commitment:
  signed_statement "\<lambda>p. dc_suite (fst p)" "\<lambda>_. ''dek-commit''" commitment_fields
    "\<lambda>p. encode_hex (snd p) # commitment_texts (fst p)" "\<lambda>p. p"
  by unfold_locales (auto simp: plain_name_def commitment_texts_def commitment_fields_def)

lemma commitment_bytes_inj:
  assumes "buildDekCommitmentBytes c dek = Some b" and "buildDekCommitmentBytes c' dek' = Some b"
    and "list_all well_formed (commitment_texts c)" and "list_all well_formed (commitment_texts c')"
  shows "c = c' \<and> dek = dek'"
proof -
  have hex: "well_formed (encode_hex x)" for x by (rule well_formed_hex [OF decode_encode_hex])
  show ?thesis
    using dek_commitment.bytes_determine [of "(c, dek)" b "(c', dek')"] assms hex
    by (simp add: buildDekCommitmentBytes_def)
qed

lemma computeDekCommitment_Accepted:
  "computeDekCommitment sha256 c dek = Accepted h \<longleftrightarrow>
     commitmentContextInvalidField c = None \<and> length dek = DEK_BYTES \<and>
     (\<exists>b. buildDekCommitmentBytes c dek = Some b \<and> h = encode_hex (sha256 b))"
  by (auto simp: computeDekCommitment_def first_reason_def reject_when_def split: option.split)

lemma verifyDekCommitment_Accepted:
  "verifyDekCommitment sha256 c dek h = Accepted () \<longleftrightarrow>
     length h = COMMITMENT_HEX_LENGTH \<and> list_all is_hex_digit h \<and> computeDekCommitment sha256 c dek = Accepted h"
  by (auto simp: verifyDekCommitment_def COMMITMENT_HEX_LENGTH_def)

text \<open>The inputs the hash function must not collide on.\<close>

definition commitment_inputs :: "(dek_commitment_context \<times> bytes) set \<Rightarrow> bytes set" where
  "commitment_inputs X = {b. \<exists>(c, dek) \<in> X. buildDekCommitmentBytes c dek = Some b}"

text \<open>
  C32. A commitment pins the key and its place: the commitment computed for a key verifies for that key
  in that project, environment and epoch under that suite, and for no other key and no other place. The
  conditions: the suite and the two ids are well-formed texts in both places (the check of the context does
  not refuse a lone surrogate, and ids that differ only in lone surrogates have the same bytes), and the
  hash function gives 32 bytes and does not collide on the two inputs.
\<close>

theorem commitment_pins_key:
  assumes "computeDekCommitment sha256 c dek = Accepted h" and "\<And>b. length (sha256 b) = SHA256_BYTES"
    and "list_all well_formed (commitment_texts c)" and "list_all well_formed (commitment_texts c')"
    and "collision_free_on sha256 (commitment_inputs {(c, dek), (c', dek')})"
  shows "verifyDekCommitment sha256 c' dek' h = Accepted () \<longleftrightarrow> c' = c \<and> dek' = dek"
proof
  assume "c' = c \<and> dek' = dek"
  with assms(1,2) show "verifyDekCommitment sha256 c' dek' h = Accepted ()"
    by (auto simp: verifyDekCommitment_Accepted computeDekCommitment_Accepted COMMITMENT_HEX_LENGTH_def SHA256_BYTES_def)
next
  assume "verifyDekCommitment sha256 c' dek' h = Accepted ()"
  with assms(1) obtain b b' where "buildDekCommitmentBytes c dek = Some b" "buildDekCommitmentBytes c' dek' = Some b'"
    and "sha256 b = sha256 b'"
    by (auto simp: verifyDekCommitment_Accepted computeDekCommitment_Accepted)
  moreover from this assms(5) have "b = b'" by (auto simp: collision_free_on_def commitment_inputs_def)
  ultimately show "c' = c \<and> dek' = dek" using commitment_bytes_inj assms(3,4) by blast
qed

definition demo_commitment_context :: "int \<Rightarrow> dek_commitment_context" where
  "demo_commitment_context n =
     \<lparr>dc_suite = SUITE_ID, dc_projectId = lit ''p'', dc_environmentId = lit ''prod'', dc_epoch = n\<rparr>"

text \<open>A hash function that tells one input from all others.\<close>

definition demo_digest :: "bytes \<Rightarrow> bytes" where
  "demo_digest b = replicate 32
     (if Some b = buildDekCommitmentBytes (demo_commitment_context 2) (replicate 32 7) then 1 else 0)"

theorem commitment_pins_key_witness:
  "\<exists>h. computeDekCommitment demo_digest (demo_commitment_context 2) (replicate 32 7) = Accepted h \<and>
     verifyDekCommitment demo_digest (demo_commitment_context 2) (replicate 32 7) h = Accepted () \<and>
     verifyDekCommitment demo_digest (demo_commitment_context 1) (replicate 32 7) h \<noteq> Accepted ()"
proof -
  let ?c = demo_commitment_context and ?dek = "replicate 32 7 :: bytes"
  have texts: "list_all well_formed (commitment_texts (?c n))" for n
    by (simp add: commitment_texts_def demo_commitment_context_def)
  have "\<exists>b. buildDekCommitmentBytes (?c 2) ?dek = Some b"
    unfolding buildDekCommitmentBytes_def
    by (rule statement_bytes_defined)
      (auto simp: commitment_fields_def demo_commitment_context_def SUITE_ID_def short_text_def safe_int_def
        max_safe_integer_def intro: short_text_field short_field_num)
  then obtain h where h: "computeDekCommitment demo_digest (?c 2) ?dek = Accepted h"
    by (auto simp: computeDekCommitment_Accepted commitmentContextInvalidField_def demo_commitment_context_def
        counter_invalid_def safe_int_def max_safe_integer_def DEK_BYTES_def SUITE_ID_def)
  have size: "length (demo_digest b) = SHA256_BYTES" for b by (simp add: demo_digest_def SHA256_BYTES_def)
  have free: "collision_free_on demo_digest (commitment_inputs {(?c 2, ?dek), (?c n, ?dek)})" for n
    using commitment_bytes_inj [OF _ _ texts texts]
    by (auto simp: collision_free_on_def commitment_inputs_def demo_digest_def split: if_splits)
  show ?thesis
    using commitment_pins_key [OF h size texts texts free] h by (auto simp: demo_commitment_context_def)
qed

end
