(* ===== verification/Audit_Head.thy ===== *)
theory Audit_Head
  imports Signatures Domain_Strings Chain_Authority
begin

text \<open>
  The cumulative hash of the audit log (\<open>audit-head.ts\<close>): the digest of one row, with absent columns
  tagged apart from empty ones, and the head that chains the digests. Two logs with the same head are
  the same log, unless the hash function collides.
\<close>

section \<open>Digest and head\<close>

record audit_head_row =
  row_seq :: int
  row_rowId :: "ustr option"
  row_serverTs :: int
  row_clientTs :: "int option"
  row_event :: ustr
  row_actorType :: ustr
  row_actorUserId :: "ustr option"
  row_actorKeyFingerprintHex :: "ustr option"
  row_actorApiTokenId :: "ustr option"
  row_targetUserId :: "ustr option"
  row_targetKeyFingerprintHex :: "ustr option"
  row_environmentId :: "ustr option"
  row_variableId :: "ustr option"
  row_epoch :: "int option"
  row_version :: "int option"
  row_chainSeq :: "int option"
  row_payloadText :: "ustr option"

definition isCountingNumber :: "int \<Rightarrow> bool" where
  "isCountingNumber value \<longleftrightarrow> safe_int value \<and> 0 \<le> value"

definition taggedField :: "ustr option \<Rightarrow> bytes" where
  "taggedField value = (case value of None \<Rightarrow> [0x00] | Some v \<Rightarrow> 0x01 # utf8_encode v)"

definition taggedNumberField :: "int option \<Rightarrow> string \<Rightarrow> bytes crypto_result" where
  "taggedNumberField value f =
     (case value of
        None \<Rightarrow> Accepted [0x00]
      | Some n \<Rightarrow>
          if \<not> isCountingNumber n then Rejected (Invalid_Input f)
          else Accepted (taggedField (Some (decimal (nat n)))))"

definition computeAuditRowDigest :: "(bytes \<Rightarrow> bytes) \<Rightarrow> audit_head_row \<Rightarrow> ustr crypto_result" where
  "computeAuditRowDigest sha256 row =
     require_valid (first_invalid
         [(\<not> isCountingNumber (row_seq row) \<or> row_seq row < 1, ''seq''),
          (\<not> isCountingNumber (row_serverTs row), ''serverTs'')])
       (then_call (taggedNumberField (row_clientTs row) ''clientTs'') (\<lambda>clientTs.
        then_call (taggedNumberField (row_epoch row) ''epoch'') (\<lambda>epoch.
        then_call (taggedNumberField (row_version row) ''version'') (\<lambda>version.
        then_call (taggedNumberField (row_chainSeq row) ''chainSeq'') (\<lambda>chainSeq.
        with_bytes
          (encode_lp
             [LpNum (row_seq row), LpBytes (taggedField (row_rowId row)), LpNum (row_serverTs row), LpBytes clientTs,
              LpStr (row_event row), LpStr (row_actorType row), LpBytes (taggedField (row_actorUserId row)),
              LpBytes (taggedField (row_actorKeyFingerprintHex row)), LpBytes (taggedField (row_actorApiTokenId row)),
              LpBytes (taggedField (row_targetUserId row)), LpBytes (taggedField (row_targetKeyFingerprintHex row)),
              LpBytes (taggedField (row_environmentId row)), LpBytes (taggedField (row_variableId row)),
              LpBytes epoch, LpBytes version, LpBytes chainSeq, LpBytes (taggedField (row_payloadText row))])
          (\<lambda>b. Accepted (encode_hex (sha256 b))))))))"

definition computeAuditHeadHash :: "(bytes \<Rightarrow> bytes) \<Rightarrow> ustr \<Rightarrow> ustr \<Rightarrow> int \<Rightarrow> ustr \<Rightarrow> ustr crypto_result" where
  "computeAuditHeadHash sha256 suite prevHeadHashHex seq rowDigestHex =
     require_valid (first_invalid
         [(suite = [], ''suite''),
          (\<not> isCountingNumber seq \<or> seq < 1, ''seq''),
          (prevHeadHashHex \<noteq> [] \<and> \<not> isLowercaseHexOfLength prevHeadHashHex SHA256_HEX_LENGTH, ''prevHeadHashHex''),
          (\<not> isLowercaseHexOfLength rowDigestHex SHA256_HEX_LENGTH, ''rowDigestHex'')])
       (with_bytes (statement_bytes suite ''audit-head'' [LpStr prevHeadHashHex, LpNum seq, LpStr rowDigestHex])
          (\<lambda>b. Accepted (encode_hex (sha256 b))))"

text \<open>One step of the two loops that use the head: digest the row, then advance the head by it.\<close>

definition advance_head :: "(bytes \<Rightarrow> bytes) \<Rightarrow> ustr \<Rightarrow> audit_head_row \<Rightarrow> ustr crypto_result" where
  "advance_head sha256 head row =
     then_call (computeAuditRowDigest sha256 row) (computeAuditHeadHash sha256 SUITE_ID head (row_seq row))"

section \<open>What a row's bytes determine\<close>

definition tagged_number :: "int option \<Rightarrow> bytes" where
  "tagged_number value = taggedField (map_option (\<lambda>n. decimal (nat n)) value)"

definition counting :: "int option \<Rightarrow> bool" where
  "counting value \<longleftrightarrow> (\<forall>n. value = Some n \<longrightarrow> isCountingNumber n)"

lemma taggedNumberField_Accepted:
  "taggedNumberField value f = Accepted b \<longleftrightarrow> counting value \<and> b = tagged_number value"
  by (auto simp: taggedNumberField_def counting_def tagged_number_def taggedField_def split: option.splits)

definition row_ok :: "audit_head_row \<Rightarrow> bool" where
  "row_ok row \<longleftrightarrow> isCountingNumber (row_seq row) \<and> 1 \<le> row_seq row \<and> isCountingNumber (row_serverTs row) \<and>
     counting (row_clientTs row) \<and> counting (row_epoch row) \<and> counting (row_version row) \<and> counting (row_chainSeq row)"

definition audit_row_fields :: "audit_head_row \<Rightarrow> lp_field list" where
  "audit_row_fields row =
     [LpNum (row_seq row), LpBytes (taggedField (row_rowId row)), LpNum (row_serverTs row),
      LpBytes (tagged_number (row_clientTs row)),
      LpStr (row_event row), LpStr (row_actorType row), LpBytes (taggedField (row_actorUserId row)),
      LpBytes (taggedField (row_actorKeyFingerprintHex row)), LpBytes (taggedField (row_actorApiTokenId row)),
      LpBytes (taggedField (row_targetUserId row)), LpBytes (taggedField (row_targetKeyFingerprintHex row)),
      LpBytes (taggedField (row_environmentId row)), LpBytes (taggedField (row_variableId row)),
      LpBytes (tagged_number (row_epoch row)), LpBytes (tagged_number (row_version row)),
      LpBytes (tagged_number (row_chainSeq row)), LpBytes (taggedField (row_payloadText row))]"

lemma computeAuditRowDigest_Accepted:
  "computeAuditRowDigest sha256 row = Accepted digest \<longleftrightarrow>
     row_ok row \<and> (\<exists>b. encode_lp (audit_row_fields row) = Some b \<and> digest = encode_hex (sha256 b))"
  by (auto simp: computeAuditRowDigest_def taggedNumberField_Accepted row_ok_def audit_row_fields_def)

definition optional_texts :: "audit_head_row \<Rightarrow> ustr option list" where
  "optional_texts row =
     [row_rowId row, row_actorUserId row, row_actorKeyFingerprintHex row, row_actorApiTokenId row, row_targetUserId row,
      row_targetKeyFingerprintHex row, row_environmentId row, row_variableId row, row_payloadText row]"

definition row_well_formed :: "audit_head_row \<Rightarrow> bool" where
  "row_well_formed row \<longleftrightarrow> well_formed (row_event row) \<and> well_formed (row_actorType row) \<and>
     list_all (\<lambda>v. \<forall>s. v = Some s \<longrightarrow> well_formed s) (optional_texts row)"

lemma taggedField_inj:
  assumes "taggedField v = taggedField v'"
    and "\<forall>s. v = Some s \<longrightarrow> well_formed s" and "\<forall>s. v' = Some s \<longrightarrow> well_formed s"
  shows "v = v'"
  using assms by (auto simp: taggedField_def split: option.splits dest: utf8_encode_inj)

lemma tagged_texts_inj:
  assumes "list_all2 (\<lambda>v v'. taggedField v = taggedField v') vs vs'"
    and "list_all (\<lambda>v. \<forall>s. v = Some s \<longrightarrow> well_formed s) vs" and "list_all (\<lambda>v. \<forall>s. v = Some s \<longrightarrow> well_formed s) vs'"
  shows "vs = vs'"
  using assms by (induction rule: list_all2_induct) (auto dest: taggedField_inj)

lemma tagged_number_inj:
  assumes "tagged_number v = tagged_number v'" and "counting v" and "counting v'"
  shows "v = v'"
  using assms
  by (auto simp: tagged_number_def taggedField_def counting_def isCountingNumber_def split: option.splits dest: utf8_decimal_inj)

lemma row_bytes_inj:
  assumes "encode_lp (audit_row_fields r) = Some b" and "encode_lp (audit_row_fields r') = Some b"
    and "row_ok r" and "row_ok r'" and "row_well_formed r" and "row_well_formed r'"
  shows "r = r'"
proof -
  have "list_all2 same_kind (audit_row_fields r) (audit_row_fields r')"
    using assms(5,6) by (simp add: audit_row_fields_def row_well_formed_def)
  then have "audit_row_fields r = audit_row_fields r'" by (rule encode_lp_inj [OF assms(1,2)])
  then have same: "row_seq r = row_seq r'" "row_serverTs r = row_serverTs r'" "row_event r = row_event r'"
    "row_actorType r = row_actorType r'"
    and numbers: "tagged_number (row_clientTs r) = tagged_number (row_clientTs r')"
      "tagged_number (row_epoch r) = tagged_number (row_epoch r')"
      "tagged_number (row_version r) = tagged_number (row_version r')"
      "tagged_number (row_chainSeq r) = tagged_number (row_chainSeq r')"
    and texts: "list_all2 (\<lambda>v v'. taggedField v = taggedField v') (optional_texts r) (optional_texts r')"
    by (simp_all add: audit_row_fields_def optional_texts_def)
  have "optional_texts r = optional_texts r'"
    using tagged_texts_inj [OF texts] assms(5,6) by (simp only: row_well_formed_def)
  moreover have "row_clientTs r = row_clientTs r'" "row_epoch r = row_epoch r'" "row_version r = row_version r'"
    "row_chainSeq r = row_chainSeq r'"
    using numbers assms(3,4) tagged_number_inj unfolding row_ok_def by blast+
  ultimately show ?thesis using same by (cases r; cases r') (simp add: optional_texts_def)
qed

section \<open>The head of a log\<close>

text \<open>The head after a list of rows, and the inputs the hash function is called with on the way.\<close>

fun fold_heads :: "(bytes \<Rightarrow> bytes) \<Rightarrow> ustr \<Rightarrow> audit_head_row list \<Rightarrow> ustr crypto_result" where
  "fold_heads sha256 head [] = Accepted head"
| "fold_heads sha256 head (row # rows) =
     then_call (advance_head sha256 head row) (\<lambda>next_head. fold_heads sha256 next_head rows)"

definition head_bytes :: "(bytes \<Rightarrow> bytes) \<Rightarrow> ustr \<Rightarrow> audit_head_row \<Rightarrow> bytes \<Rightarrow> bytes option" where
  "head_bytes sha256 head row rowBytes =
     statement_bytes SUITE_ID ''audit-head'' [LpStr head, LpNum (row_seq row), LpStr (encode_hex (sha256 rowBytes))]"

fun head_inputs :: "(bytes \<Rightarrow> bytes) \<Rightarrow> ustr \<Rightarrow> audit_head_row list \<Rightarrow> bytes set" where
  "head_inputs sha256 head [] = {}"
| "head_inputs sha256 head (row # rows) =
     (case encode_lp (audit_row_fields row) of
        None \<Rightarrow> {}
      | Some rowBytes \<Rightarrow>
          insert rowBytes
            (case head_bytes sha256 head row rowBytes of
               None \<Rightarrow> {}
             | Some headBytes \<Rightarrow> insert headBytes (head_inputs sha256 (encode_hex (sha256 headBytes)) rows)))"

lemma advance_head_Accepted:
  "advance_head sha256 head row = Accepted h \<longleftrightarrow>
     row_ok row \<and> (head = [] \<or> isLowercaseHexOfLength head SHA256_HEX_LENGTH) \<and>
     (\<exists>rowBytes headBytes. encode_lp (audit_row_fields row) = Some rowBytes \<and>
        isLowercaseHexOfLength (encode_hex (sha256 rowBytes)) SHA256_HEX_LENGTH \<and>
        head_bytes sha256 head row rowBytes = Some headBytes \<and> h = encode_hex (sha256 headBytes))"
  by (auto simp: advance_head_def computeAuditRowDigest_Accepted computeAuditHeadHash_def head_bytes_def SUITE_ID_def row_ok_def)

lemma fold_heads_append:
  "fold_heads sha256 head (rs @ rs') = then_call (fold_heads sha256 head rs) (\<lambda>h. fold_heads sha256 h rs')"
proof (induction rs arbitrary: head)
  case (Cons r rs)
  then show ?case by (cases "advance_head sha256 head r") simp_all
qed simp

lemma fold_heads_snoc:
  "fold_heads sha256 head (rs @ [r]) = Accepted h \<longleftrightarrow>
     (\<exists>h'. fold_heads sha256 head rs = Accepted h' \<and> advance_head sha256 h' r = Accepted h)"
  by (auto simp: fold_heads_append)

lemma head_inputs_append:
  "fold_heads sha256 head rs = Accepted h \<Longrightarrow>
     head_inputs sha256 head (rs @ rs') = head_inputs sha256 head rs \<union> head_inputs sha256 h rs'"
  by (induction rs arbitrary: head) (auto simp: advance_head_Accepted)

lemma head_bytes_inj:
  assumes "head_bytes sha256 head row rb = Some b" and "head_bytes sha256 head' row' rb' = Some b"
    and "well_formed head" and "well_formed head'"
  shows "head = head' \<and> row_seq row = row_seq row' \<and> sha256 rb = sha256 rb'"
proof -
  have hex: "well_formed (encode_hex x)" for x by (rule well_formed_hex [OF decode_encode_hex])
  have "domain_string SUITE_ID ''audit-head'' = lit ''maruhi/v1/audit-head''"
    by (simp add: domain_string_def SUITE_ID_def lit_def)
  then have domain: "well_formed (domain_string SUITE_ID ''audit-head'')" by simp
  let ?fs = "\<lambda>head row rb. [LpStr (domain_string SUITE_ID ''audit-head''), LpStr head, LpNum (row_seq row),
      LpStr (encode_hex (sha256 rb))]"
  have "list_all2 same_kind (?fs head row rb) (?fs head' row' rb')"
    using assms(3,4) hex domain by simp
  then have "?fs head row rb = ?fs head' row' rb'"
    using assms(1,2) unfolding head_bytes_def statement_bytes_def by (intro encode_lp_inj)
  then show ?thesis by simp
qed

lemma advanced_head_length:
  assumes "\<And>b. length (sha256 b) = SHA256_BYTES" and "advance_head sha256 head row = Accepted h"
  shows "length h = SHA256_HEX_LENGTH"
  using assms by (auto simp: advance_head_Accepted SHA256_HEX_LENGTH_def SHA256_BYTES_def)

lemma same_head_same_log:
  assumes "\<And>b. length (sha256 b) = SHA256_BYTES"
    and "fold_heads sha256 [] rs = Accepted h" and "fold_heads sha256 [] rs' = Accepted h"
    and "collision_free_on sha256 (head_inputs sha256 [] rs \<union> head_inputs sha256 [] rs')"
    and "list_all row_well_formed rs" and "list_all row_well_formed rs'"
  shows "rs = rs'"
  using assms(2-)
proof (induction rs arbitrary: h rs' rule: rev_induct)
  case Nil
  then show ?case
    by (cases rs' rule: rev_cases)
      (auto simp: fold_heads_snoc SHA256_HEX_LENGTH_def dest!: advanced_head_length [OF assms(1)])
next
  case (snoc r rs)
  then obtain g where g: "fold_heads sha256 [] rs = Accepted g" "advance_head sha256 g r = Accepted h"
    by (auto simp: fold_heads_snoc)
  from snoc.prems(2) g(2) have "rs' \<noteq> []"
    by (auto simp: SHA256_HEX_LENGTH_def dest!: advanced_head_length [OF assms(1)])
  then obtain qs q where rs': "rs' = qs @ [q]" by (cases rs' rule: rev_cases) auto
  with snoc.prems(2) obtain g' where g': "fold_heads sha256 [] qs = Accepted g'" "advance_head sha256 g' q = Accepted h"
    by (auto simp: fold_heads_snoc)
  obtain rb hb where r: "row_ok r" "encode_lp (audit_row_fields r) = Some rb" "head_bytes sha256 g r rb = Some hb"
    "h = encode_hex (sha256 hb)" "well_formed g"
    using g(2) by (auto simp: advance_head_Accepted intro: hex_of_length_wf)
  obtain rb' hb' where q: "row_ok q" "encode_lp (audit_row_fields q) = Some rb'" "head_bytes sha256 g' q rb' = Some hb'"
    "h = encode_hex (sha256 hb')" "well_formed g'"
    using g'(2) by (auto simp: advance_head_Accepted intro: hex_of_length_wf)
  have inputs: "{rb, hb} \<union> head_inputs sha256 [] rs \<subseteq> head_inputs sha256 [] (rs @ [r])"
    "{rb', hb'} \<union> head_inputs sha256 [] qs \<subseteq> head_inputs sha256 [] rs'"
    using r q unfolding rs' head_inputs_append [OF g(1)] head_inputs_append [OF g'(1)] by simp_all
  have free: "sha256 x = sha256 y \<Longrightarrow> x = y"
    if "x \<in> {rb, hb} \<union> head_inputs sha256 [] rs" "y \<in> {rb', hb'} \<union> head_inputs sha256 [] qs" for x y
    using snoc.prems(3) inputs that unfolding collision_free_on_def by blast
  have "hb = hb'" using free [of hb hb'] r(4) q(4) by simp
  with head_bytes_inj [OF r(3) _ r(5) q(5)] q(3) have same: "g = g'" "sha256 rb = sha256 rb'" by blast+
  then have "rb = rb'" using free [of rb rb'] by simp
  moreover have "row_well_formed r" "row_well_formed q" using snoc.prems(4,5) rs' by simp_all
  ultimately have "r = q" using row_bytes_inj r(1,2) q(1,2) by blast
  moreover have "rs = qs"
  proof (rule snoc.IH [OF g(1)])
    show "fold_heads sha256 [] qs = Accepted g" using g'(1) same(1) by simp
    show "collision_free_on sha256 (head_inputs sha256 [] rs \<union> head_inputs sha256 [] qs)"
      using snoc.prems(3) inputs unfolding collision_free_on_def by blast
  qed (use snoc.prems(4,5) rs' in simp_all)
  ultimately show ?case by (simp add: rs')
qed

end
