(* ===== verification/Audit_Log.thy ===== *)
theory Audit_Log
  imports Audit_Head "HOL-Library.Multiset"
begin

text \<open>
  The two loops that derive the heads of a whole log: the server's lazy extension of its stored column,
  chunk by chunk (\<open>audit-store.ts\<close>), and the client's recomputation from the fetched rows
  (\<open>audit-reconcile.ts\<close>). A table is the list of its decoded rows, whose \<open>seq\<close> is a primary key; the
  selection by position is the query's.
\<close>

section \<open>The server's derivation\<close>

definition HEAD_CHUNK_ROWS :: nat where "HEAD_CHUNK_ROWS = 50"

datatype chunk_fault = Seq_Gap | Row_Digest_Fault crypto_error | Head_Hash_Fault crypto_error

datatype chunk_invalid = Chunk_Invalid int chunk_fault

datatype chunk_outcome = Chunk_Done | Chunk_More

record hash_state =
  hashedUpTo :: int
  hashed_head :: ustr

type_synonym head_column = "(int \<times> ustr) list"

fun chunk_rows ::
  "(bytes \<Rightarrow> bytes) \<Rightarrow> hash_state \<Rightarrow> audit_head_row list \<Rightarrow> (chunk_invalid, hash_state \<times> head_column) outcome" where
  "chunk_rows sha256 st [] = Accepted (st, [])"
| "chunk_rows sha256 st (row # rows) =
     (if row_seq row \<noteq> hashedUpTo st + 1 then Rejected (Chunk_Invalid (hashedUpTo st + 1) Seq_Gap)
      else case computeAuditRowDigest sha256 row of
        Threw \<Rightarrow> Threw
      | Rejected e \<Rightarrow> Rejected (Chunk_Invalid (row_seq row) (Row_Digest_Fault e))
      | Accepted digest \<Rightarrow>
          (case computeAuditHeadHash sha256 SUITE_ID (hashed_head st) (row_seq row) digest of
             Threw \<Rightarrow> Threw
           | Rejected e \<Rightarrow> Rejected (Chunk_Invalid (row_seq row) (Head_Hash_Fault e))
           | Accepted next \<Rightarrow>
               then_call (chunk_rows sha256 \<lparr>hashedUpTo = row_seq row, hashed_head = next\<rparr> rows)
                 (\<lambda>(st', inserts). Accepted (st', (row_seq row, next) # inserts))))"

definition rows_after :: "audit_head_row list \<Rightarrow> int \<Rightarrow> audit_head_row list" where
  "rows_after source upTo = sort_key row_seq (filter (\<lambda>row. upTo < row_seq row) source)"

definition deriveChunk ::
  "(bytes \<Rightarrow> bytes) \<Rightarrow> audit_head_row list \<Rightarrow> hash_state \<Rightarrow> bool \<Rightarrow>
   (chunk_invalid, chunk_outcome \<times> hash_state \<times> head_column) outcome" where
  "deriveChunk sha256 source st persist =
     (let rows = take HEAD_CHUNK_ROWS (rows_after source (hashedUpTo st)) in
      if rows = [] then Accepted (Chunk_Done, st, [])
      else then_call (chunk_rows sha256 st rows) (\<lambda>(st', inserts).
        Accepted (if length rows < HEAD_CHUNK_ROWS then Chunk_Done else Chunk_More, st', if persist then inserts else [])))"

lemma chunk_rows_advances:
  "chunk_rows sha256 st rows = Accepted (st', inserts) \<Longrightarrow> hashedUpTo st' = hashedUpTo st + int (length rows)"
  by (induction rows arbitrary: st inserts) (fastforce split: if_splits outcome.splits)+

lemma filter_shorter:
  assumes "\<And>x. P x \<Longrightarrow> Q x" and "r \<in> set xs" and "Q r" and "\<not> P r"
  shows "length (filter P xs) < length (filter Q xs)"
proof -
  have "filter P xs = filter P (filter Q xs)" using assms(1) by (auto intro: filter_cong)
  moreover have "length (filter P (filter Q xs)) < length (filter Q xs)"
    by (rule length_filter_less [of r]) (use assms in simp_all)
  ultimately show ?thesis by simp
qed

lemma rows_after_shrinks:
  assumes "deriveChunk sha256 source st persist = Accepted (Chunk_More, st', inserts)"
  shows "length (rows_after source (hashedUpTo st')) < length (rows_after source (hashedUpTo st))"
proof -
  let ?rows = "take HEAD_CHUNK_ROWS (rows_after source (hashedUpTo st))"
  from assms have ne: "?rows \<noteq> []" and ok: "\<exists>ins. chunk_rows sha256 st ?rows = Accepted (st', ins)"
    by (auto simp: deriveChunk_def Let_def split: if_splits)
  then have upTo: "hashedUpTo st' = hashedUpTo st + int (length ?rows)" using chunk_rows_advances by blast
  obtain r rest where r: "?rows = r # rest" using ne by (cases ?rows) auto
  with ok have "row_seq r = hashedUpTo st + 1" by (auto split: if_splits)
  moreover have "r \<in> set (rows_after source (hashedUpTo st))" using r by (metis in_set_takeD list.set_intros(1))
  then have "r \<in> set source" by (simp add: rows_after_def)
  ultimately have "length (filter (\<lambda>row. hashedUpTo st' < row_seq row) source) <
      length (filter (\<lambda>row. hashedUpTo st < row_seq row) source)"
    using upTo r by (intro filter_shorter [of _ _ r]) auto
  then show ?thesis by (simp add: rows_after_def)
qed

text \<open>
  \<open>deriveAuditHeads\<close>: the whole log from a position on, into a target column; \<open>stores k\<close> is the storage
  guard's answer before chunk \<open>k\<close>. It ends because every chunk moves past a row.
\<close>

function derive_heads ::
  "(bytes \<Rightarrow> bytes) \<Rightarrow> audit_head_row list \<Rightarrow> (nat \<Rightarrow> bool) \<Rightarrow> nat \<Rightarrow> bool \<Rightarrow> hash_state \<Rightarrow> head_column \<Rightarrow>
   (chunk_invalid, ustr option \<times> head_column) outcome" where
  "derive_heads sha256 source stores k persist st target =
     (let keep = persist \<and> stores k in
      case deriveChunk sha256 source st keep of
        Threw \<Rightarrow> Threw
      | Rejected e \<Rightarrow> Accepted (None, target)
      | Accepted (ended, st', inserts) \<Rightarrow>
          (case ended of
             Chunk_Done \<Rightarrow> Accepted (Some (hashed_head st'), target @ inserts)
           | Chunk_More \<Rightarrow> derive_heads sha256 source stores (Suc k) keep st' (target @ inserts)))"
  by pat_completeness auto
termination
  by (relation "measure (\<lambda>(sha256, source, stores, k, persist, st, target). length (rows_after source (hashedUpTo st)))")
    (auto dest: rows_after_shrinks)

definition deriveAuditHeads ::
  "(bytes \<Rightarrow> bytes) \<Rightarrow> audit_head_row list \<Rightarrow> int \<Rightarrow> ustr \<Rightarrow> (nat \<Rightarrow> bool) \<Rightarrow>
   (chunk_invalid, ustr option \<times> head_column) outcome" where
  "deriveAuditHeads sha256 source fromSeq prevHead stores =
     derive_heads sha256 source stores 0 True \<lparr>hashedUpTo = fromSeq, hashed_head = prevHead\<rparr> []"

text \<open>
  \<open>extendHeadHashes\<close>: at most \<open>maxChunks\<close> chunks from the stored column's end. A refused row is a defect
  there. The stored column is listed by position.
\<close>

datatype head_extension = Extension_Current | Extension_More_Remains

fun extend_chunks ::
  "(bytes \<Rightarrow> bytes) \<Rightarrow> nat \<Rightarrow> audit_head_row list \<Rightarrow> hash_state \<Rightarrow> head_column \<Rightarrow>
   (chunk_invalid, head_extension \<times> head_column) outcome" where
  "extend_chunks sha256 0 source st column =
     Accepted (if \<exists>row \<in> set source. hashedUpTo st < row_seq row then Extension_More_Remains else Extension_Current, column)"
| "extend_chunks sha256 (Suc n) source st column =
     (case deriveChunk sha256 source st True of
        Threw \<Rightarrow> Threw
      | Rejected e \<Rightarrow> Threw
      | Accepted (ended, st', inserts) \<Rightarrow>
          (case ended of
             Chunk_Done \<Rightarrow> Accepted (Extension_Current, column @ inserts)
           | Chunk_More \<Rightarrow> extend_chunks sha256 n source st' (column @ inserts)))"

definition column_end :: "head_column \<Rightarrow> hash_state" where
  "column_end column =
     (if column = [] then \<lparr>hashedUpTo = 0, hashed_head = []\<rparr>
      else \<lparr>hashedUpTo = fst (last column), hashed_head = snd (last column)\<rparr>)"

definition extendHeadHashes ::
  "(bytes \<Rightarrow> bytes) \<Rightarrow> nat \<Rightarrow> audit_head_row list \<Rightarrow> head_column \<Rightarrow>
   (chunk_invalid, head_extension \<times> head_column) outcome" where
  "extendHeadHashes sha256 maxChunks source column = extend_chunks sha256 maxChunks source (column_end column) column"

section \<open>The client's recomputation\<close>

datatype recomputation_error = Recomputation_Failed int crypto_error

fun recompute_rows ::
  "(bytes \<Rightarrow> bytes) \<Rightarrow> (ustr, int) js_map \<Rightarrow> ustr \<Rightarrow> audit_head_row list \<Rightarrow>
   (recomputation_error, (ustr, int) js_map \<times> ustr) outcome" where
  "recompute_rows sha256 positions head [] = Accepted (positions, head)"
| "recompute_rows sha256 positions head (row # rows) =
     (case computeAuditRowDigest sha256 row of
        Threw \<Rightarrow> Threw
      | Rejected e \<Rightarrow> Rejected (Recomputation_Failed (row_seq row) e)
      | Accepted digest \<Rightarrow>
          (case computeAuditHeadHash sha256 SUITE_ID head (row_seq row) digest of
             Threw \<Rightarrow> Threw
           | Rejected e \<Rightarrow> Rejected (Recomputation_Failed (row_seq row) e)
           | Accepted next \<Rightarrow>
               recompute_rows sha256
                 (if map_has positions next then positions else AList.update next (row_seq row) positions) next rows))"

definition recomputeColumn ::
  "(bytes \<Rightarrow> bytes) \<Rightarrow> audit_head_row list \<Rightarrow> (recomputation_error, (ustr, int) js_map \<times> ustr) outcome" where
  "recomputeColumn sha256 rows = recompute_rows sha256 [] [] rows"

text \<open>
  What the two loops over the audit log compute: the same heads over the rows in order, the server's
  chunk by chunk over a contiguous log, the client's in one pass with an index of positions.
\<close>

section \<open>The heads of a list of rows\<close>

fun head_list :: "(bytes \<Rightarrow> bytes) \<Rightarrow> ustr \<Rightarrow> audit_head_row list \<Rightarrow> head_column" where
  "head_list sha256 head [] = []"
| "head_list sha256 head (row # rows) =
     (case advance_head sha256 head row of
        Accepted h \<Rightarrow> (row_seq row, h) # head_list sha256 h rows
      | _ \<Rightarrow> [])"

fun numbered :: "int \<Rightarrow> audit_head_row list \<Rightarrow> bool" where
  "numbered n [] \<longleftrightarrow> True"
| "numbered n (row # rows) \<longleftrightarrow> row_seq row = n + 1 \<and> numbered (n + 1) rows"

lemma numbered_append: "numbered n (xs @ ys) \<longleftrightarrow> numbered n xs \<and> numbered (n + int (length xs)) ys"
  by (induction xs arbitrary: n) (auto simp: algebra_simps)

lemma numbered_bounds: "numbered n rows \<Longrightarrow> row \<in> set rows \<Longrightarrow> n < row_seq row \<and> row_seq row \<le> n + int (length rows)"
  by (induction rows arbitrary: n) fastforce+

lemma numbered_last: "numbered n rows \<Longrightarrow> rows \<noteq> [] \<Longrightarrow> row_seq (last rows) = n + int (length rows)"
  by (induction rows arbitrary: n) auto

lemma head_list_append:
  "fold_heads sha256 head xs = Accepted h \<Longrightarrow>
     head_list sha256 head (xs @ ys) = head_list sha256 head xs @ head_list sha256 h ys"
  by (induction xs arbitrary: head) auto

lemma length_head_list: "fold_heads sha256 head rows = Accepted h \<Longrightarrow> length (head_list sha256 head rows) = length rows"
  by (induction rows arbitrary: head) auto

lemma fold_heads_take:
  assumes "fold_heads sha256 head rows = Accepted h"
  shows "\<exists>h'. fold_heads sha256 head (take n rows) = Accepted h' \<and> fold_heads sha256 h' (drop n rows) = Accepted h"
proof -
  have "fold_heads sha256 head (take n rows @ drop n rows) = Accepted h" using assms by simp
  then show ?thesis unfolding fold_heads_append then_call_Accepted_iff .
qed

lemma head_list_take:
  assumes "fold_heads sha256 head rows = Accepted h"
  shows "head_list sha256 head (take n rows) = take n (head_list sha256 head rows)"
proof -
  obtain h' where h': "fold_heads sha256 head (take n rows) = Accepted h'" using fold_heads_take [OF assms] by blast
  show ?thesis
    using head_list_append [OF h', of "drop n rows"] length_head_list [OF h'] length_head_list [OF assms]
    by (cases "n \<le> length rows") simp_all
qed

lemma head_list_last:
  "fold_heads sha256 head rows = Accepted h \<Longrightarrow> rows \<noteq> [] \<Longrightarrow> last (head_list sha256 head rows) = (row_seq (last rows), h)"
proof (induction rows arbitrary: head)
  case (Cons r rs)
  then obtain h1 where h1: "advance_head sha256 head r = Accepted h1" "fold_heads sha256 h1 rs = Accepted h" by auto
  show ?case
  proof (cases "rs = []")
    case False
    with Cons.IH h1 length_head_list [OF h1(2)] show ?thesis by auto
  qed (use h1 in simp)
qed simp

text \<open>A head stands in the list exactly when a non-empty prefix of the rows has it.\<close>

lemma in_head_list:
  assumes "fold_heads sha256 head rows = Accepted h"
  shows "(s, x) \<in> set (head_list sha256 head rows) \<longleftrightarrow>
    (\<exists>k. 0 < k \<and> k \<le> length rows \<and> fold_heads sha256 head (take k rows) = Accepted x \<and> row_seq (rows ! (k - 1)) = s)"
  using assms
proof (induction rows arbitrary: head)
  case (Cons r rs)
  then obtain h1 where h1: "advance_head sha256 head r = Accepted h1" "fold_heads sha256 h1 rs = Accepted h" by auto
  have "(\<exists>k. 0 < k \<and> k \<le> length (r # rs) \<and> fold_heads sha256 head (take k (r # rs)) = Accepted x \<and>
        row_seq ((r # rs) ! (k - 1)) = s) \<longleftrightarrow>
      (s, x) = (row_seq r, h1) \<or>
      (\<exists>k. 0 < k \<and> k \<le> length rs \<and> fold_heads sha256 h1 (take k rs) = Accepted x \<and> row_seq (rs ! (k - 1)) = s)"
    (is "?L \<longleftrightarrow> ?one \<or> ?rest")
  proof
    assume ?L
    then obtain k where k: "0 < k" "k \<le> Suc (length rs)" "fold_heads sha256 head (take k (r # rs)) = Accepted x"
      "row_seq ((r # rs) ! (k - 1)) = s" by auto
    show "?one \<or> ?rest"
    proof (cases "k = 1")
      case False
      with k h1 have "?rest" by (intro exI [of _ "k - 1"]) (auto simp: take_Cons' nth_Cons')
      then show ?thesis ..
    qed (use k h1 in simp)
  next
    assume "?one \<or> ?rest"
    then show ?L
    proof
      assume ?one
      then show ?L using h1 by (intro exI [of _ 1]) simp
    next
      assume ?rest
      then obtain k where "0 < k" "k \<le> length rs" "fold_heads sha256 h1 (take k rs) = Accepted x" "row_seq (rs ! (k - 1)) = s"
        by blast
      then show ?L using h1 by (intro exI [of _ "Suc k"]) (auto simp: nth_Cons')
    qed
  qed
  with Cons.IH [OF h1(2)] h1(1) show ?case by auto
qed simp

section \<open>One chunk, and the client's pass\<close>

lemma split_advance:
  "advance_head sha256 head row = Accepted h \<longleftrightarrow>
     (\<exists>digest. computeAuditRowDigest sha256 row = Accepted digest \<and>
        computeAuditHeadHash sha256 SUITE_ID head (row_seq row) digest = Accepted h)"
  by (simp add: advance_head_def)

lemma chunk_rows_Accepted:
  "chunk_rows sha256 st rows = Accepted (st', inserts) \<longleftrightarrow>
     numbered (hashedUpTo st) rows \<and> fold_heads sha256 (hashed_head st) rows = Accepted (hashed_head st') \<and>
     hashedUpTo st' = hashedUpTo st + int (length rows) \<and> inserts = head_list sha256 (hashed_head st) rows"
proof (induction rows arbitrary: st inserts)
  case Nil
  then show ?case by (cases st; cases st') auto
next
  case (Cons row rows)
  show ?case
  proof (cases "row_seq row = hashedUpTo st + 1 \<and> (\<exists>h. advance_head sha256 (hashed_head st) row = Accepted h)")
    case True
    then obtain digest h where "computeAuditRowDigest sha256 row = Accepted digest"
      "computeAuditHeadHash sha256 SUITE_ID (hashed_head st) (row_seq row) digest = Accepted h"
      "advance_head sha256 (hashed_head st) row = Accepted h" "row_seq row = hashedUpTo st + 1"
      by (auto simp: split_advance)
    then show ?thesis by (auto simp: Cons.IH)
  next
    case False
    then show ?thesis by (auto simp: split_advance split: outcome.splits)
  qed
qed

lemma recompute_rows_Accepted:
  "recompute_rows sha256 positions head rows = Accepted (positions', h) \<Longrightarrow>
     fold_heads sha256 head rows = Accepted h \<and>
     map_of positions' = (\<lambda>x. case map_of positions x of
        Some s \<Rightarrow> Some s | None \<Rightarrow> map_of (map prod.swap (head_list sha256 head rows)) x)"
proof (induction rows arbitrary: positions head)
  case Nil
  then show ?case by (auto split: option.split)
next
  case (Cons row rows)
  from Cons.prems obtain digest h1 where "computeAuditRowDigest sha256 row = Accepted digest"
    "computeAuditHeadHash sha256 SUITE_ID head (row_seq row) digest = Accepted h1"
    by (auto split: outcome.splits)
  then have step: "advance_head sha256 head row = Accepted h1"
    and rest: "recompute_rows sha256
      (if map_has positions h1 then positions else AList.update h1 (row_seq row) positions) h1 rows = Accepted (positions', h)"
    using Cons.prems by (simp_all add: split_advance)
  from Cons.IH [OF rest] step show ?case
    by (auto simp: fun_eq_iff map_has_ex split: option.split)
qed

lemma recompute_rows_defined:
  "fold_heads sha256 head rows = Accepted h \<Longrightarrow> \<exists>positions'. recompute_rows sha256 positions head rows = Accepted (positions', h)"
  by (induction rows arbitrary: head positions) (auto simp: split_advance)

section \<open>The rows after a position\<close>

lemma rows_after_again: "u \<le> v \<Longrightarrow> rows_after source v = filter (\<lambda>row. v < row_seq row) (rows_after source u)"
  unfolding rows_after_def filter_sort filter_filter by (rule arg_cong [where f = "sort_key row_seq"]) (auto intro: filter_cong)

lemma rows_after_strict:
  assumes "distinct (map row_seq source)"
  shows "sorted_wrt (\<lambda>a b. row_seq a < row_seq b) (rows_after source u)"
proof -
  let ?S = "rows_after source u"
  have "distinct (map row_seq (filter (\<lambda>row. u < row_seq row) source))" using assms by (rule distinct_map_filter)
  then have "distinct (map row_seq ?S)"
    unfolding rows_after_def by (metis mset_eq_imp_distinct_iff mset_map mset_sort)
  moreover have "sorted (map row_seq ?S)" by (simp add: rows_after_def)
  ultimately have "sorted_wrt (<) (map row_seq ?S)" by (simp add: strict_sorted_iff)
  then show ?thesis by (simp add: sorted_wrt_map)
qed

lemma rows_after_drop:
  assumes "distinct (map row_seq source)" and "numbered u (take n (rows_after source u))"
  shows "rows_after source (u + int (length (take n (rows_after source u)))) = drop n (rows_after source u)"
proof -
  let ?S = "rows_after source u" and ?v = "u + int (length (take n (rows_after source u)))"
  have "filter (\<lambda>row. ?v < row_seq row) (take n ?S) = []"
    using numbered_bounds [OF assms(2)] by (force simp: filter_empty_conv)
  moreover have "?v < row_seq y" if y: "y \<in> set (drop n ?S)" for y
  proof (cases "take n ?S = []")
    case True
    with y show ?thesis by (auto simp: rows_after_def dest: in_set_dropD)
  next
    case False
    have "sorted_wrt (\<lambda>a b. row_seq a < row_seq b) (take n ?S @ drop n ?S)"
      using rows_after_strict [OF assms(1)] by simp
    then have "row_seq (last (take n ?S)) < row_seq y"
      using y last_in_set [OF False] unfolding sorted_wrt_append by blast
    with numbered_last [OF assms(2) False] show ?thesis by simp
  qed
  then have "filter (\<lambda>row. ?v < row_seq row) (drop n ?S) = drop n ?S" by (auto simp: filter_id_conv)
  moreover have "filter P ?S = filter P (take n ?S) @ filter P (drop n ?S)" for P
    by (simp only: filter_append [symmetric] append_take_drop_id)
  moreover have "rows_after source ?v = filter (\<lambda>row. ?v < row_seq row) ?S"
    by (rule rows_after_again) simp
  ultimately show ?thesis by (simp only: append.simps)
qed

section \<open>One chunk of the server's derivation\<close>

lemma deriveChunk_Accepted:
  "deriveChunk sha256 source st persist = Accepted (ended, st', inserts) \<longleftrightarrow>
     (let rows = take HEAD_CHUNK_ROWS (rows_after source (hashedUpTo st)) in
      numbered (hashedUpTo st) rows \<and> fold_heads sha256 (hashed_head st) rows = Accepted (hashed_head st') \<and>
      hashedUpTo st' = hashedUpTo st + int (length rows) \<and>
      inserts = (if persist then head_list sha256 (hashed_head st) rows else []) \<and>
      ended = (if length rows < HEAD_CHUNK_ROWS then Chunk_Done else Chunk_More))"
proof (cases "take HEAD_CHUNK_ROWS (rows_after source (hashedUpTo st)) = []")
  case True
  then show ?thesis
    by (cases st; cases st') (auto simp: deriveChunk_def HEAD_CHUNK_ROWS_def)
next
  case False
  then show ?thesis
    by (auto simp: deriveChunk_def Let_def chunk_rows_Accepted)
qed

lemma short_chunk: "length (take n xs) < n \<Longrightarrow> take n xs = xs"
  by simp

lemma next_chunk:
  assumes "distinct (map row_seq source)"
    and "deriveChunk sha256 source st persist = Accepted (ended, st', inserts)"
  shows "rows_after source (hashedUpTo st') = drop HEAD_CHUNK_ROWS (rows_after source (hashedUpTo st))"
    and "ended = Chunk_Done \<Longrightarrow> take HEAD_CHUNK_ROWS (rows_after source (hashedUpTo st)) = rows_after source (hashedUpTo st)"
proof -
  let ?rows = "take HEAD_CHUNK_ROWS (rows_after source (hashedUpTo st))"
  from assms(2) have chunk: "numbered (hashedUpTo st) ?rows" "hashedUpTo st' = hashedUpTo st + int (length ?rows)"
    "ended = (if length ?rows < HEAD_CHUNK_ROWS then Chunk_Done else Chunk_More)"
    by (simp_all add: deriveChunk_Accepted Let_def)
  show "rows_after source (hashedUpTo st') = drop HEAD_CHUNK_ROWS (rows_after source (hashedUpTo st))"
    unfolding chunk(2) by (rule rows_after_drop [OF assms(1) chunk(1)])
  show "?rows = rows_after source (hashedUpTo st)" if "ended = Chunk_Done"
    using that chunk(3) by (intro short_chunk) (simp split: if_splits)
qed

section \<open>The whole derivation\<close>

text \<open>One chunk of a log splits the question of the whole log.\<close>

lemma log_by_chunk:
  assumes "distinct (map row_seq source)"
    and "deriveChunk sha256 source st persist = Accepted (ended, st', inserts)"
  shows "numbered (hashedUpTo st) (rows_after source (hashedUpTo st)) \<and>
      fold_heads sha256 (hashed_head st) (rows_after source (hashedUpTo st)) = Accepted h \<longleftrightarrow>
    numbered (hashedUpTo st') (rows_after source (hashedUpTo st')) \<and>
      fold_heads sha256 (hashed_head st') (rows_after source (hashedUpTo st')) = Accepted h"
proof -
  let ?S = "rows_after source (hashedUpTo st)" and ?n = HEAD_CHUNK_ROWS
  from assms(2) have chunk: "numbered (hashedUpTo st) (take ?n ?S)"
    "fold_heads sha256 (hashed_head st) (take ?n ?S) = Accepted (hashed_head st')"
    "hashedUpTo st' = hashedUpTo st + int (length (take ?n ?S))"
    by (simp_all add: deriveChunk_Accepted Let_def)
  have "numbered (hashedUpTo st) (take ?n ?S @ drop ?n ?S) \<longleftrightarrow> numbered (hashedUpTo st') (drop ?n ?S)"
    using chunk(1) unfolding numbered_append chunk(3) by simp
  moreover have "fold_heads sha256 (hashed_head st) (take ?n ?S @ drop ?n ?S) = fold_heads sha256 (hashed_head st') (drop ?n ?S)"
    unfolding fold_heads_append chunk(2) by simp
  ultimately show ?thesis unfolding next_chunk(1) [OF assms] by simp
qed

lemma log_needs_chunk:
  assumes "numbered (hashedUpTo st) (rows_after source (hashedUpTo st))"
    and "fold_heads sha256 (hashed_head st) (rows_after source (hashedUpTo st)) = Accepted h"
  shows "\<exists>ended st' inserts. deriveChunk sha256 source st persist = Accepted (ended, st', inserts)"
proof -
  let ?S = "rows_after source (hashedUpTo st)" and ?n = HEAD_CHUNK_ROWS
  obtain h' where "fold_heads sha256 (hashed_head st) (take ?n ?S) = Accepted h'" using fold_heads_take [OF assms(2)] by blast
  moreover have "numbered (hashedUpTo st) (take ?n ?S)"
    using assms(1) numbered_append [of "hashedUpTo st" "take ?n ?S" "drop ?n ?S"] by simp
  ultimately have "deriveChunk sha256 source st persist = Accepted
      (if length (take ?n ?S) < ?n then Chunk_Done else Chunk_More,
       \<lparr>hashedUpTo = hashedUpTo st + int (length (take ?n ?S)), hashed_head = h'\<rparr>,
       if persist then head_list sha256 (hashed_head st) (take ?n ?S) else [])"
    by (subst deriveChunk_Accepted) (simp add: Let_def)
  then show ?thesis by blast
qed

declare derive_heads.simps [simp del]

lemma derive_heads_head:
  assumes "distinct (map row_seq source)"
  shows "(\<exists>t. derive_heads sha256 source stores k persist st target = Accepted (Some h, t)) \<longleftrightarrow>
    numbered (hashedUpTo st) (rows_after source (hashedUpTo st)) \<and>
    fold_heads sha256 (hashed_head st) (rows_after source (hashedUpTo st)) = Accepted h"
  using assms
proof (induction sha256 source stores k persist st target rule: derive_heads.induct)
  case (1 sha256 source stores k persist st target)
  let ?keep = "persist \<and> stores k"
  show ?case
  proof (cases "\<exists>ended st' inserts. deriveChunk sha256 source st ?keep = Accepted (ended, st', inserts)")
    case True
    then obtain ended st' inserts where chunk: "deriveChunk sha256 source st ?keep = Accepted (ended, st', inserts)" by blast
    note whole = log_by_chunk [OF 1(2) chunk, of h] and rest = next_chunk [OF 1(2) chunk]
    show ?thesis
    proof (cases ended)
      case Chunk_Done
      have "rows_after source (hashedUpTo st') = []"
        unfolding rest(1) by (subst rest(2) [OF Chunk_Done, symmetric]) simp
      with whole show ?thesis
        by (subst derive_heads.simps) (auto simp: chunk Chunk_Done Let_def)
    next
      case Chunk_More
      have "(\<exists>t. derive_heads sha256 source stores (Suc k) ?keep st' (target @ inserts) = Accepted (Some h, t)) \<longleftrightarrow>
          numbered (hashedUpTo st') (rows_after source (hashedUpTo st')) \<and>
          fold_heads sha256 (hashed_head st') (rows_after source (hashedUpTo st')) = Accepted h"
        by (rule 1(1) [OF refl chunk refl refl Chunk_More 1(2)])
      with whole show ?thesis
        by (subst derive_heads.simps) (simp add: chunk Chunk_More Let_def)
    qed
  next
    case False
    then have "\<not> (numbered (hashedUpTo st) (rows_after source (hashedUpTo st)) \<and>
        fold_heads sha256 (hashed_head st) (rows_after source (hashedUpTo st)) = Accepted h)"
      using log_needs_chunk by blast
    with False show ?thesis
      by (subst derive_heads.simps) (auto simp: Let_def split: outcome.split)
  qed
qed

section \<open>The lazy extension\<close>

text \<open>The stored column after \<open>k\<close> rows of a log whose rows are numbered and hash.\<close>

lemma column_end_take:
  assumes "numbered 0 rows" and "fold_heads sha256 [] (take k rows) = Accepted h'" and "fold_heads sha256 [] rows = Accepted h"
  shows "column_end (take k (head_list sha256 [] rows)) = \<lparr>hashedUpTo = int (length (take k rows)), hashed_head = h'\<rparr>"
proof (cases "take k rows = []")
  case True
  then have "rows = [] \<or> k = 0" by auto
  with assms(2) show ?thesis by (auto simp: column_end_def)
next
  case False
  have heads: "take k (head_list sha256 [] rows) = head_list sha256 [] (take k rows)" by (simp add: head_list_take [OF assms(3)])
  have "numbered 0 (take k rows)" using assms(1) numbered_append [of 0 "take k rows" "drop k rows"] by simp
  from numbered_last [OF this False] have "row_seq (last (take k rows)) = int (length (take k rows))" by simp
  moreover have "head_list sha256 [] (take k rows) \<noteq> []"
    using length_head_list [OF assms(2)] False by (metis length_0_conv)
  ultimately show ?thesis using head_list_last [OF assms(2) False] by (simp add: column_end_def heads)
qed

lemma extend_chunks_column:
  assumes "distinct (map row_seq source)" and "numbered 0 (rows_after source 0)"
    and "fold_heads sha256 [] (rows_after source 0) = Accepted h"
    and "fold_heads sha256 [] (take k (rows_after source 0)) = Accepted (hashed_head st)"
    and "hashedUpTo st = int (length (take k (rows_after source 0)))"
  shows "extend_chunks sha256 n source st (take k (head_list sha256 [] (rows_after source 0))) =
    Accepted (if length (rows_after source 0) \<le> k + HEAD_CHUNK_ROWS * n then Extension_Current else Extension_More_Remains,
      take (k + HEAD_CHUNK_ROWS * n) (head_list sha256 [] (rows_after source 0)))"
  using assms(4,5)
proof (induction n arbitrary: k st)
  case 0
  let ?S = "rows_after source 0"
  have "numbered 0 (take k ?S)" using assms(2) numbered_append [of 0 "take k ?S" "drop k ?S"] by simp
  from rows_after_drop [OF assms(1) this] 0 have "rows_after source (hashedUpTo st) = drop k ?S" by simp
  moreover have "(\<exists>row \<in> set source. hashedUpTo st < row_seq row) \<longleftrightarrow> rows_after source (hashedUpTo st) \<noteq> []"
    by (auto simp: rows_after_def filter_empty_conv simp flip: set_empty)
  ultimately show ?case by auto
next
  case (Suc n)
  let ?S = "rows_after source 0" and ?c = HEAD_CHUNK_ROWS
  have nums: "numbered 0 (take k ?S)" "numbered (hashedUpTo st) (drop k ?S)"
    using assms(2) numbered_append [of 0 "take k ?S" "drop k ?S"] Suc.prems(2) by simp_all
  have after: "rows_after source (hashedUpTo st) = drop k ?S"
    using rows_after_drop [OF assms(1) nums(1)] Suc.prems(2) by simp
  have tail: "fold_heads sha256 (hashed_head st) (drop k ?S) = Accepted h"
    using fold_heads_take [OF assms(3), of k] Suc.prems(1) by simp
  obtain ended st' inserts where chunk: "deriveChunk sha256 source st True = Accepted (ended, st', inserts)"
    using log_needs_chunk [of st source sha256 h] nums(2) tail unfolding after by blast
  then have st': "fold_heads sha256 (hashed_head st) (take ?c (drop k ?S)) = Accepted (hashed_head st')"
    "hashedUpTo st' = hashedUpTo st + int (length (take ?c (drop k ?S)))"
    "inserts = head_list sha256 (hashed_head st) (take ?c (drop k ?S))"
    "ended = (if length (take ?c (drop k ?S)) < ?c then Chunk_Done else Chunk_More)"
    unfolding deriveChunk_Accepted Let_def after by simp_all
  have both: "take (k + ?c) ?S = take k ?S @ take ?c (drop k ?S)" by (rule take_add)
  have head': "fold_heads sha256 [] (take (k + ?c) ?S) = Accepted (hashed_head st')"
    unfolding both fold_heads_append Suc.prems(1) using st'(1) by simp
  have column: "take k (head_list sha256 [] ?S) @ inserts = take (k + ?c) (head_list sha256 [] ?S)"
    unfolding st'(3) head_list_take [OF assms(3), symmetric] both by (rule head_list_append [OF Suc.prems(1), symmetric])
  show ?case
  proof (cases ended)
    case Chunk_Done
    then have "length ?S < k + ?c" using st'(4) by (auto split: if_splits)
    with Chunk_Done chunk column length_head_list [OF assms(3)] show ?thesis by simp
  next
    case Chunk_More
    have "hashedUpTo st' = int (length (take (k + ?c) ?S))" unfolding both st'(2) Suc.prems(2) by simp
    from Suc.IH [OF head' this] Chunk_More chunk column show ?thesis by (simp add: algebra_simps)
  qed
qed

lemma extendHeadHashes_column:
  assumes "distinct (map row_seq source)" and "numbered 0 (rows_after source 0)"
    and "fold_heads sha256 [] (rows_after source 0) = Accepted h"
  shows "extendHeadHashes sha256 n source (take k (head_list sha256 [] (rows_after source 0))) =
    Accepted (if length (rows_after source 0) \<le> k + HEAD_CHUNK_ROWS * n then Extension_Current else Extension_More_Remains,
      take (k + HEAD_CHUNK_ROWS * n) (head_list sha256 [] (rows_after source 0)))"
proof -
  obtain h' where h': "fold_heads sha256 [] (take k (rows_after source 0)) = Accepted h'"
    using fold_heads_take [OF assms(3)] by blast
  show ?thesis
    unfolding extendHeadHashes_def column_end_take [OF assms(2) h' assms(3)]
    by (rule extend_chunks_column [OF assms]) (simp_all add: h')
qed

end
