(* ===== verification/Audit_Reconcile.thy ===== *)
theory Audit_Reconcile
  imports Audit_Log Chain_Types
begin

text \<open>
  The administrator's reconciliation of the audit log (\<open>audit-reconcile.ts\<close>): the checks of the fetched
  rows, the gap check, the recomputed column, and the membership, non-regression and position-floor
  checks of the notarizing checkpoints on the verified chain. The pages of the fetch are its input, and
  the serialization of a row's payload is a parameter.
\<close>

section \<open>The rows\<close>

record 'p wire_event =
  we_seq :: "int option"
  we_id :: ustr
  we_serverTs :: int
  we_clientTs :: "int option"
  we_event :: ustr
  we_actorType :: ustr
  we_actorUserId :: "ustr option"
  we_actorKeyFingerprintHex :: "ustr option"
  we_actorApiTokenId :: "ustr option"
  we_targetUserId :: "ustr option"
  we_targetKeyFingerprintHex :: "ustr option"
  we_environmentId :: "ustr option"
  we_variableId :: "ustr option"
  we_epoch :: "int option"
  we_version :: "int option"
  we_chainSeq :: "int option"
  we_orgId :: "ustr option"
  we_projectId :: "ustr option"
  we_payload :: "'p option"

datatype row_problem = No_Seq ustr | Returned_Twice ustr | Not_Descending int int

definition reconcileRowProblem :: "'p wire_event \<Rightarrow> ustr set \<Rightarrow> int option \<Rightarrow> row_problem option" where
  "reconcileRowProblem row seenIds previousSeq =
     (case we_seq row of
        None \<Rightarrow> Some (No_Seq (we_id row))
      | Some seq \<Rightarrow>
          if we_id row \<in> seenIds then Some (Returned_Twice (we_id row))
          else (case previousSeq of
                  None \<Rightarrow> None
                | Some p \<Rightarrow> reject_when (p \<le> seq) (Not_Descending seq p)))"

text \<open>The fetch: every delivered row is checked against those before it, newest first.\<close>

fun collect_rows :: "ustr set \<Rightarrow> int option \<Rightarrow> 'p wire_event list \<Rightarrow> (row_problem, 'p wire_event list) outcome" where
  "collect_rows seenIds previousSeq [] = Accepted []"
| "collect_rows seenIds previousSeq (row # delivered) =
     (case reconcileRowProblem row seenIds previousSeq of
        Some problem \<Rightarrow> Rejected problem
      | None \<Rightarrow>
          then_call (collect_rows (insert (we_id row) seenIds) (we_seq row) delivered) (\<lambda>rows. Accepted (row # rows)))"

definition seq_or_zero :: "'p wire_event \<Rightarrow> int" where
  "seq_or_zero row = (case we_seq row of None \<Rightarrow> 0 | Some s \<Rightarrow> s)"

definition toHeadRow :: "('p \<Rightarrow> ustr) \<Rightarrow> 'p wire_event \<Rightarrow> int \<Rightarrow> audit_head_row" where
  "toHeadRow stringify event seq =
     \<lparr>row_seq = seq, row_rowId = Some (we_id event), row_serverTs = we_serverTs event, row_clientTs = we_clientTs event,
      row_event = we_event event, row_actorType = we_actorType event, row_actorUserId = we_actorUserId event,
      row_actorKeyFingerprintHex = we_actorKeyFingerprintHex event, row_actorApiTokenId = we_actorApiTokenId event,
      row_targetUserId = we_targetUserId event, row_targetKeyFingerprintHex = we_targetKeyFingerprintHex event,
      row_environmentId = we_environmentId event, row_variableId = we_variableId event, row_epoch = we_epoch event,
      row_version = we_version event, row_chainSeq = we_chainSeq event,
      row_payloadText = map_option stringify (we_payload event)\<rparr>"

section \<open>Violations\<close>

datatype violation_category = Row_Tampering | Acceptance_Policy

datatype violation_detail =
    Missing_Rows int int
  | Head_Not_In_Column int
  | Position_Regressed int int int int
  | Duplicate_Mirrors int nat
  | Missing_Mirror int int
  | Below_Floor int int int int
  | Declared_Empty
  | Declared_Not_In_Column

record reconcile_violation =
  viol_category :: violation_category
  viol_detail :: violation_detail

fun gaps_from :: "int \<Rightarrow> int list \<Rightarrow> reconcile_violation list" where
  "gaps_from expected [] = []"
| "gaps_from expected (seq # seqs) =
     (if seq \<noteq> expected
      then \<lparr>viol_category = Row_Tampering,
            viol_detail = Missing_Rows expected (if expected < seq - 1 then seq - 1 else expected)\<rparr>
           # gaps_from (seq + 1) seqs
      else gaps_from (expected + 1) seqs)"

definition gapViolations :: "int list \<Rightarrow> reconcile_violation list" where
  "gapViolations sortedSeqs = gaps_from 1 sortedSeqs"

definition checkpointMirrorIndex :: "'p wire_event list \<Rightarrow> (int, int list) js_map" where
  "checkpointMirrorIndex rows =
     foldl (\<lambda>index row.
         case (we_chainSeq row, we_seq row) of
           (Some chainSeq, Some seq) \<Rightarrow>
             if we_event row = lit ''chain.checkpointed''
             then AList.update chainSeq ((case map_of index chainSeq of None \<Rightarrow> [] | Some seqs \<Rightarrow> seqs) @ [seq]) index
             else index
         | _ \<Rightarrow> index)
       [] rows"

record notarized_context =
  nc_chainSeq :: int
  nc_position :: int
  nc_previousCheckpointChainSeq :: "int option"
  nc_lastNotarized :: "(int \<times> int) option"

definition regressionViolation :: "notarized_context \<Rightarrow> reconcile_violation option" where
  "regressionViolation c =
     (case nc_lastNotarized c of
        None \<Rightarrow> None
      | Some (chainSeq, position) \<Rightarrow>
          if position \<le> nc_position c then None
          else Some \<lparr>viol_category = Acceptance_Policy,
                     viol_detail = Position_Regressed (nc_chainSeq c) (nc_position c) position chainSeq\<rparr>)"

definition floorViolation :: "notarized_context \<Rightarrow> (int, int list) js_map \<Rightarrow> reconcile_violation option" where
  "floorViolation c mirrors =
     (case nc_previousCheckpointChainSeq c of
        None \<Rightarrow> None
      | Some previous \<Rightarrow>
          let mirrorSeqs = (case map_of mirrors previous of None \<Rightarrow> [] | Some seqs \<Rightarrow> seqs) in
          if 1 < length mirrorSeqs
          then Some \<lparr>viol_category = Row_Tampering, viol_detail = Duplicate_Mirrors previous (length mirrorSeqs)\<rparr>
          else (case mirrorSeqs of
                  [] \<Rightarrow> Some \<lparr>viol_category = Row_Tampering, viol_detail = Missing_Mirror previous (nc_chainSeq c)\<rparr>
                | floor # _ \<Rightarrow>
                    if nc_position c < floor
                    then Some \<lparr>viol_category = Acceptance_Policy,
                               viol_detail = Below_Floor (nc_chainSeq c) (nc_position c) floor previous\<rparr>
                    else None))"

definition violations_of :: "reconcile_violation option list \<Rightarrow> reconcile_violation list" where
  "violations_of found = List.map_filter (\<lambda>x. x) found"

fun scan_checkpoints ::
  "(ustr, int) js_map \<Rightarrow> (int, int list) js_map \<Rightarrow> int option \<Rightarrow> (int \<times> int) option \<Rightarrow> chain_entry list \<Rightarrow>
   reconcile_violation list \<times> nat" where
  "scan_checkpoints positions mirrors previousCheckpoint lastNotarized [] = ([], 0)"
| "scan_checkpoints positions mirrors previousCheckpoint lastNotarized (entry # entries) =
     (case entry_operation entry of
        Direct (Checkpoint p) \<Rightarrow>
          if cp_auditHeadHashHex p = []
          then scan_checkpoints positions mirrors (Some (entry_seq entry)) lastNotarized entries
          else (case map_of positions (cp_auditHeadHashHex p) of
                  None \<Rightarrow>
                    let (violations, notarized) =
                      scan_checkpoints positions mirrors (Some (entry_seq entry)) lastNotarized entries in
                    (\<lparr>viol_category = Row_Tampering, viol_detail = Head_Not_In_Column (entry_seq entry)\<rparr> # violations,
                     Suc notarized)
                | Some position \<Rightarrow>
                    let c = \<lparr>nc_chainSeq = entry_seq entry, nc_position = position,
                             nc_previousCheckpointChainSeq = previousCheckpoint, nc_lastNotarized = lastNotarized\<rparr>;
                        (violations, notarized) =
                          scan_checkpoints positions mirrors (Some (entry_seq entry))
                            (Some (entry_seq entry, position)) entries in
                    (violations_of [regressionViolation c, floorViolation c mirrors] @ violations, Suc notarized))
      | _ \<Rightarrow> scan_checkpoints positions mirrors previousCheckpoint lastNotarized entries)"

definition checkpointViolations ::
  "chain_entry list \<Rightarrow> (ustr, int) js_map \<Rightarrow> (int, int list) js_map \<Rightarrow> reconcile_violation list \<times> nat" where
  "checkpointViolations entries positions mirrors = scan_checkpoints positions mirrors None None entries"

definition declaredHeadViolations :: "ustr \<Rightarrow> (ustr, int) js_map \<times> ustr \<Rightarrow> reconcile_violation list" where
  "declaredHeadViolations declaredHeadHex column =
     (if (if declaredHeadHex = [] then snd column = [] else map_has (fst column) declaredHeadHex) then []
      else [\<lparr>viol_category = Row_Tampering,
             viol_detail = (if declaredHeadHex = [] then Declared_Empty else Declared_Not_In_Column)\<rparr>])"

section \<open>The verdict\<close>

text \<open>
  \<open>auditReconcileOp\<close> from the declared head and the fetched rows on: the exit code and the violations it
  reports.
\<close>

definition auditReconcile ::
  "(bytes \<Rightarrow> bytes) \<Rightarrow> ('p \<Rightarrow> ustr) \<Rightarrow> chain_entry list \<Rightarrow> ustr \<Rightarrow> 'p wire_event list \<Rightarrow>
   (recomputation_error, nat \<times> reconcile_violation list) outcome" where
  "auditReconcile sha256 stringify entries declaredHeadHex rows =
     (let ascending = sort_key seq_or_zero rows;
          gaps = gapViolations (map seq_or_zero ascending) in
      if gaps \<noteq> [] then Accepted (1, gaps)
      else then_call (recomputeColumn sha256 (map (\<lambda>row. toHeadRow stringify row (seq_or_zero row)) ascending))
        (\<lambda>column.
           let checkpoints = checkpointViolations entries (fst column) (checkpointMirrorIndex rows);
               violations = declaredHeadViolations declaredHeadHex column @ fst checkpoints in
           Accepted (if violations = [] then 0 else 1, violations)))"

end
