(* ===== verification/Audit_Guarantees.thy ===== *)
theory Audit_Guarantees
  imports Audit_Reconcile Statement_Example
begin

text \<open>
  What the audit log's hash column is worth: the server's stored column and the client's recomputed one
  agree on a contiguous log, and a reconciliation without violations pins every notarized prefix of it.
\<close>

section \<open>Gaps\<close>

lemma numbered_iff_gaps: "numbered n rows \<longleftrightarrow> gaps_from (n + 1) (map row_seq rows) = []"
  by (induction rows arbitrary: n) auto

lemma rows_after_all: "\<forall>row \<in> set source. u < row_seq row \<Longrightarrow> rows_after source u = sort_key row_seq source"
  by (simp add: rows_after_def)

text \<open>
  C30. The server's column is the client's: over a table keyed by position, the server derives a head for
  the whole log exactly when the log has no gap and the client's recomputation succeeds, and it is the
  same head; and extending a stored prefix of that column, in any number of chunks, stores a longer
  prefix of the same column, which is reported current exactly when it is complete.
\<close>

theorem server_and_client_heads_agree:
  assumes "distinct (map row_seq log)" and "\<forall>row \<in> set log. 1 \<le> row_seq row"
  shows "((\<exists>t. deriveAuditHeads sha256 log 0 [] stores = Accepted (Some h, t)) \<longleftrightarrow>
      gapViolations (map row_seq (sort_key row_seq log)) = [] \<and>
      (\<exists>positions. recomputeColumn sha256 (sort_key row_seq log) = Accepted (positions, h))) \<and>
    (gapViolations (map row_seq (sort_key row_seq log)) = [] \<and>
       fold_heads sha256 [] (sort_key row_seq log) = Accepted h \<longrightarrow>
     extendHeadHashes sha256 n log (take k (head_list sha256 [] (sort_key row_seq log))) =
       Accepted (if length log \<le> k + 50 * n then Extension_Current else Extension_More_Remains,
         take (k + 50 * n) (head_list sha256 [] (sort_key row_seq log))))"
proof -
  have rows: "rows_after log 0 = sort_key row_seq log" using assms(2) by (intro rows_after_all) auto
  have gaps: "gapViolations (map row_seq (sort_key row_seq log)) = [] \<longleftrightarrow> numbered 0 (sort_key row_seq log)"
    by (simp add: gapViolations_def numbered_iff_gaps)
  have recomputed: "(\<exists>positions. recomputeColumn sha256 (sort_key row_seq log) = Accepted (positions, h)) \<longleftrightarrow>
      fold_heads sha256 [] (sort_key row_seq log) = Accepted h"
    unfolding recomputeColumn_def using recompute_rows_Accepted recompute_rows_defined by blast
  show ?thesis
    using derive_heads_head [OF assms(1), of sha256 stores 0 True "\<lparr>hashedUpTo = 0, hashed_head = []\<rparr>" "[]" h]
      extendHeadHashes_column [OF assms(1), of sha256 h n k]
    by (simp add: deriveAuditHeads_def rows gaps recomputed HEAD_CHUNK_ROWS_def)
qed

section \<open>What the checkpoint scan accepts\<close>

fun notarized_heads :: "chain_entry list \<Rightarrow> ustr list" where
  "notarized_heads [] = []"
| "notarized_heads (entry # entries) =
     (case entry_operation entry of
        Direct (Checkpoint p) \<Rightarrow>
          (if cp_auditHeadHashHex p = [] then notarized_heads entries
           else cp_auditHeadHashHex p # notarized_heads entries)
      | _ \<Rightarrow> notarized_heads entries)"

lemma scan_checkpoints_clean:
  assumes "scan_checkpoints positions mirrors previous lastNotarized entries = ([], n)"
  shows "\<exists>ps. map (map_of positions) (notarized_heads entries) = map Some ps \<and> n = length ps \<and>
    sorted (case lastNotarized of None \<Rightarrow> ps | Some l \<Rightarrow> snd l # ps)"
  using assms
proof (induction entries arbitrary: previous lastNotarized n)
  case Nil
  then show ?case by (auto split: option.split)
next
  case (Cons entry entries)
  show ?case
  proof (cases "\<exists>p. entry_operation entry = Direct (Checkpoint p) \<and> cp_auditHeadHashHex p \<noteq> []")
    case False
    then have "notarized_heads (entry # entries) = notarized_heads entries"
      and "\<exists>previous'. scan_checkpoints positions mirrors previous' lastNotarized entries = ([], n)"
      using Cons.prems by (auto split: chain_operation.splits proposable_operation.splits)
    with Cons.IH show ?thesis by metis
  next
    case True
    then obtain p where p: "entry_operation entry = Direct (Checkpoint p)" "cp_auditHeadHashHex p \<noteq> []" by blast
    with Cons.prems obtain position where position: "map_of positions (cp_auditHeadHashHex p) = Some position"
      by (auto simp: Let_def split: option.splits prod.splits)
    with Cons.prems p obtain m where m: "n = Suc m"
      "scan_checkpoints positions mirrors (Some (entry_seq entry)) (Some (entry_seq entry, position)) entries = ([], m)"
      "regressionViolation \<lparr>nc_chainSeq = entry_seq entry, nc_position = position,
         nc_previousCheckpointChainSeq = previous, nc_lastNotarized = lastNotarized\<rparr> = None"
      by (auto simp: Let_def violations_of_def List.map_filter_simps split: prod.splits option.splits)
    from Cons.IH [OF m(2)] obtain ps where ps: "map (map_of positions) (notarized_heads entries) = map Some ps"
      "m = length ps" "sorted (position # ps)" by auto
    have "sorted (case lastNotarized of None \<Rightarrow> position # ps | Some l \<Rightarrow> snd l # position # ps)"
      using ps(3) m(3) by (auto simp: regressionViolation_def split: option.splits if_splits)
    then show ?thesis using p position ps m(1) by (intro exI [of _ "position # ps"]) simp
  qed
qed

section \<open>A clean reconciliation\<close>

definition fetched_log :: "('p \<Rightarrow> ustr) \<Rightarrow> 'p wire_event list \<Rightarrow> audit_head_row list" where
  "fetched_log stringify rows =
     map (\<lambda>row. toHeadRow stringify row (seq_or_zero row)) (sort_key seq_or_zero rows)"

lemma clean_reconciliation:
  assumes "auditReconcile sha256 stringify entries declared rows = Accepted (0, vs)"
  obtains positions h n where "numbered 0 (fetched_log stringify rows)"
    and "fold_heads sha256 [] (fetched_log stringify rows) = Accepted h"
    and "map_of positions = map_of (map prod.swap (head_list sha256 [] (fetched_log stringify rows)))"
    and "scan_checkpoints positions (checkpointMirrorIndex rows) None None entries = ([], n)"
    and "if declared = [] then h = [] else map_has positions declared"
proof -
  let ?log = "fetched_log stringify rows"
  have seqs: "map row_seq ?log = map seq_or_zero (sort_key seq_or_zero rows)" by (simp add: fetched_log_def toHeadRow_def comp_def)
  from assms obtain column where gaps: "gapViolations (map row_seq ?log) = []"
    and column: "recomputeColumn sha256 ?log = Accepted column"
    and declared: "declaredHeadViolations declared column = []"
    and scan: "fst (checkpointViolations entries (fst column) (checkpointMirrorIndex rows)) = []"
    unfolding auditReconcile_def Let_def seqs [symmetric] fetched_log_def [symmetric] by (auto split: if_splits)
  obtain positions h where p: "column = (positions, h)" by (cases column)
  from column recompute_rows_Accepted [of sha256 "[]" "[]" ?log positions h]
  have "fold_heads sha256 [] ?log = Accepted h" "map_of positions = map_of (map prod.swap (head_list sha256 [] ?log))"
    by (simp_all add: recomputeColumn_def p)
  moreover have "numbered 0 ?log" using gaps by (simp add: gapViolations_def numbered_iff_gaps)
  moreover have "\<exists>n. scan_checkpoints positions (checkpointMirrorIndex rows) None None entries = ([], n)"
    using scan by (simp add: checkpointViolations_def p) (metis prod.collapse)
  moreover have "if declared = [] then h = [] else map_has positions declared"
    using declared by (auto simp: declaredHeadViolations_def p split: if_splits)
  ultimately show ?thesis using that by blast
qed

text \<open>The position of a head that the index knows: the prefix of that length has it.\<close>

lemma indexed_head:
  assumes "numbered 0 log" and "fold_heads sha256 [] log = Accepted h"
    and "map_of (map prod.swap (head_list sha256 [] log)) x = Some s"
  shows "fold_heads sha256 [] (take (nat s) log) = Accepted x"
proof -
  have "(s, x) \<in> set (head_list sha256 [] log)" using map_of_SomeD [OF assms(3)] by auto
  then obtain k where k: "0 < k" "k \<le> length log" "fold_heads sha256 [] (take k log) = Accepted x" "row_seq (log ! (k - 1)) = s"
    unfolding in_head_list [OF assms(2)] by blast
  have "numbered 0 (take k log)" using assms(1) numbered_append [of 0 "take k log" "drop k log"] by simp
  then have "row_seq (last (take k log)) = int k" using numbered_last [of 0 "take k log"] k(1,2) by fastforce
  moreover have "last (take k log) = log ! (k - 1)" using k(1,2) by (subst last_conv_nth) auto
  ultimately have "nat s = k" using k(4) by simp
  with k(3) show ?thesis by simp
qed

lemma prefix_with_head:
  assumes "\<And>b. length (sha256 b) = SHA256_BYTES" and "fold_heads sha256 [] log = Accepted h"
    and "fold_heads sha256 [] (take k log) = Accepted x" and "fold_heads sha256 [] other = Accepted x"
    and "list_all row_well_formed log" and "list_all row_well_formed other"
    and "collision_free_on sha256 (head_inputs sha256 [] log \<union> head_inputs sha256 [] other)"
  shows "other = take k log"
proof (rule same_head_same_log [OF assms(1) assms(4,3)])
  have "head_inputs sha256 [] (take k log @ drop k log) = head_inputs sha256 [] (take k log) \<union> head_inputs sha256 x (drop k log)"
    by (rule head_inputs_append [OF assms(3)])
  then have "head_inputs sha256 [] (take k log) \<subseteq> head_inputs sha256 [] log" by simp
  with assms(7) show "collision_free_on sha256 (head_inputs sha256 [] other \<union> head_inputs sha256 [] (take k log))"
    unfolding collision_free_on_def by blast
  show "list_all row_well_formed (take k log)" using assms(5) by (auto simp: list_all_iff dest: in_set_takeD)
qed (rule assms(6))

text \<open>
  C29. A clean reconciliation pins the log: when it reports no violation, the log behind the declared head
  and the log behind every head a checkpoint of the chain notarizes are prefixes of the rows the server
  returns now, and the notarized prefixes grow along the chain: no row inside a notarized prefix was altered
  or deleted. The conditions: the hash function gives 32 bytes and does not collide on the bytes hashed for
  the rows and the heads of these logs, and the texts of all rows are well formed, those of the fetched rows
  included. The last is a real restriction: the code does not refuse a lone surrogate, the encoder maps every
  one to the same replacement character, so a server could exchange one for another under the same digest.
\<close>

theorem clean_reconciliation_pins_log:
  assumes "auditReconcile sha256 stringify entries declared rows = Accepted (0, vs)"
    and "\<And>b. length (sha256 b) = SHA256_BYTES"
    and "list_all2 (\<lambda>log head. fold_heads sha256 [] log = Accepted head) logs (notarized_heads entries)"
    and "fold_heads sha256 [] declaredLog = Accepted declared"
    and "\<forall>log \<in> set (fetched_log stringify rows # declaredLog # logs). list_all row_well_formed log"
    and "collision_free_on sha256
      (\<Union>log \<in> set (fetched_log stringify rows # declaredLog # logs). head_inputs sha256 [] log)"
  shows "\<exists>ks k. logs = map (\<lambda>n. take n (fetched_log stringify rows)) ks \<and> sorted ks \<and>
    declaredLog = take k (fetched_log stringify rows)"
proof -
  let ?log = "fetched_log stringify rows"
  from clean_reconciliation [OF assms(1)] obtain positions h n where log: "numbered 0 ?log"
    "fold_heads sha256 [] ?log = Accepted h"
    and positions: "map_of positions = map_of (map prod.swap (head_list sha256 [] ?log))"
    and scan: "scan_checkpoints positions (checkpointMirrorIndex rows) None None entries = ([], n)"
    and declared: "if declared = [] then h = [] else map_has positions declared"
    by metis
  have same: "other = take (nat s) ?log"
    if "other \<in> set (declaredLog # logs)" "fold_heads sha256 [] other = Accepted x" "map_of positions x = Some s" for other x s
  proof (rule prefix_with_head [OF assms(2) log(2) _ that(2)])
    show "fold_heads sha256 [] (take (nat s) ?log) = Accepted x"
      using that(3) unfolding positions by (rule indexed_head [OF log])
    show "collision_free_on sha256 (head_inputs sha256 [] ?log \<union> head_inputs sha256 [] other)"
      using assms(6) that(1) unfolding collision_free_on_def by fastforce
  qed (use assms(5) that(1) in auto)
  obtain ps where ps: "map (map_of positions) (notarized_heads entries) = map Some ps" "sorted ps"
    using scan_checkpoints_clean [OF scan] by auto
  have "logs = map (\<lambda>n. take n ?log) (map nat ps)"
  proof (rule nth_equalityI)
    have sizes: "length logs = length (notarized_heads entries)" "length ps = length (notarized_heads entries)"
      using list_all2_lengthD [OF assms(3)] arg_cong [OF ps(1), of length] by simp_all
    then show "length logs = length (map (\<lambda>n. take n ?log) (map nat ps))" by simp
    fix i
    assume i: "i < length logs"
    have "map_of positions (notarized_heads entries ! i) = Some (ps ! i)"
      using arg_cong [OF ps(1), of "\<lambda>xs. xs ! i"] i sizes by simp
    moreover have "fold_heads sha256 [] (logs ! i) = Accepted (notarized_heads entries ! i)"
      using list_all2_nthD [OF assms(3) i] .
    ultimately have "logs ! i = take (nat (ps ! i)) ?log" using i by (intro same) simp_all
    then show "logs ! i = map (\<lambda>n. take n ?log) (map nat ps) ! i" using i sizes by simp
  qed
  moreover have "sorted (map nat ps)" using ps(2) by (simp add: sorted_iff_nth_mono nat_mono)
  moreover have "\<exists>k. declaredLog = take k ?log"
  proof (cases "declared = []")
    case True
    have "declaredLog = []"
      using assms(4) True
      by (cases declaredLog rule: rev_cases)
        (auto simp: fold_heads_snoc SHA256_HEX_LENGTH_def dest!: advanced_head_length [OF assms(2)])
    then show ?thesis by (intro exI [of _ 0]) simp
  next
    case False
    with declared obtain s where "map_of positions declared = Some s" by (auto simp: map_has_ex)
    with same [OF _ assms(4)] show ?thesis by auto
  qed
  ultimately show ?thesis by blast
qed

section \<open>An example log\<close>

definition demo_event :: "unit wire_event" where
  "demo_event =
     \<lparr>we_seq = Some 1, we_id = lit ''row'', we_serverTs = 1, we_clientTs = None, we_event = lit ''value.pushed'',
      we_actorType = lit ''user'', we_actorUserId = Some (lit ''bob''), we_actorKeyFingerprintHex = None,
      we_actorApiTokenId = None, we_targetUserId = None, we_targetKeyFingerprintHex = None,
      we_environmentId = Some (lit ''prod''), we_variableId = Some (lit ''v''), we_epoch = Some 1, we_version = Some 1,
      we_chainSeq = None, we_orgId = None, we_projectId = None, we_payload = None\<rparr>"

definition demo_row :: audit_head_row where
  "demo_row = toHeadRow (\<lambda>_. []) demo_event 1"

definition demo_log_digest :: "bytes \<Rightarrow> bytes" where
  "demo_log_digest b = replicate 32 (if Some b = encode_lp (audit_row_fields demo_row) then 1 else 0)"

lemma demo_row_bytes: "\<exists>b. encode_lp (audit_row_fields demo_row) = Some b"
proof -
  have tag: "short_field (LpBytes (taggedField None))" "short_field (LpBytes (tagged_number None))" for s
    by (simp_all add: short_field_def taggedField_def tagged_number_def uint32_max_def)
  have texts: "short_field (LpBytes (taggedField (Some (lit s))))" if "length s \<le> 100" for s
    using length_utf8_encode_le [of "lit s"] that by (simp add: short_field_def taggedField_def uint32_max_def)
  have one: "short_field (LpBytes (tagged_number (Some 1)))"
  proof -
    have "short_field (LpNum 1)" by (rule short_field_num) (simp_all add: safe_int_def max_safe_integer_def)
    then show ?thesis
      using length_utf8_encode_le [of "decimal 1"] length_decimal_digits [of 1 0]
      by (simp add: short_field_def tagged_number_def taggedField_def uint32_max_def)
  qed
  show ?thesis
    unfolding encode_lp_defined
    by (simp add: audit_row_fields_def demo_row_def toHeadRow_def demo_event_def tag texts one short_text_field short_text_def
        short_field_num safe_int_def max_safe_integer_def)
qed

lemma demo_row_ok: "row_ok demo_row" "row_well_formed demo_row"
  by (simp_all add: demo_row_def toHeadRow_def demo_event_def row_ok_def row_well_formed_def optional_texts_def counting_def
      isCountingNumber_def safe_int_def max_safe_integer_def)

lemma demo_log_head:
  obtains h where "fold_heads demo_log_digest [] [demo_row] = Accepted h"
proof -
  obtain rb where rb: "encode_lp (audit_row_fields demo_row) = Some rb" using demo_row_bytes by blast
  have hex: "isLowercaseHexOfLength (encode_hex (demo_log_digest rb)) SHA256_HEX_LENGTH"
    by (simp add: isLowercaseHexOfLength_def SHA256_HEX_LENGTH_def demo_log_digest_def)
  have "\<exists>hb. head_bytes demo_log_digest [] demo_row rb = Some hb"
    unfolding head_bytes_def
    by (rule statement_bytes_defined)
      (auto simp: SUITE_ID_def short_text_def demo_row_def toHeadRow_def demo_log_digest_def safe_int_def max_safe_integer_def
        intro!: short_text_field short_field_num)
  with rb hex demo_row_ok(1) show ?thesis
    using that by (fastforce simp: advance_head_Accepted)
qed

lemma demo_log_free: "collision_free_on demo_log_digest (head_inputs demo_log_digest [] [demo_row])"
  using demo_row_bytes by (auto simp: collision_free_on_def demo_log_digest_def split: option.splits)

theorem server_and_client_heads_agree_witness:
  "\<exists>h t. deriveAuditHeads demo_log_digest [demo_row] 0 [] (\<lambda>_. True) = Accepted (Some h, t) \<and>
     extendHeadHashes demo_log_digest 1 [demo_row] [] = Accepted (Extension_Current, [(1, h)])"
proof -
  obtain h where h: "fold_heads demo_log_digest [] [demo_row] = Accepted h" by (rule demo_log_head)
  have seq: "row_seq demo_row = 1" by (simp add: demo_row_def toHeadRow_def)
  have "distinct (map row_seq [demo_row])" and "\<forall>row \<in> set [demo_row]. 1 \<le> row_seq row"
    using seq by simp_all
  note agree = server_and_client_heads_agree [OF this, where n = 1 and k = 0]
  have gaps: "gapViolations (map row_seq (sort_key row_seq [demo_row])) = []" by (simp add: gapViolations_def seq)
  have "\<exists>positions. recomputeColumn demo_log_digest (sort_key row_seq [demo_row]) = Accepted (positions, h)"
    using recompute_rows_defined [OF h] by (simp add: recomputeColumn_def)
  with agree [of demo_log_digest "\<lambda>_. True" h] gaps h seq show ?thesis by auto
qed

text \<open>One row, declared and notarized by one checkpoint.\<close>

theorem clean_reconciliation_pins_log_witness:
  "\<exists>h. auditReconcile demo_log_digest (\<lambda>_. [])
       [demo_entry 3 ''alice'' 2 (Direct (Checkpoint \<lparr>cp_environments = [], cp_auditHeadHashHex = h\<rparr>))] h [demo_event] =
       Accepted (0, []) \<and>
     (\<exists>ks k. [[demo_row]] = map (\<lambda>n. take n [demo_row]) ks \<and> sorted ks \<and> [demo_row] = take k [demo_row])"
proof -
  obtain h where h: "fold_heads demo_log_digest [] [demo_row] = Accepted h" by (rule demo_log_head)
  let ?entry = "demo_entry 3 ''alice'' 2 (Direct (Checkpoint \<lparr>cp_environments = [], cp_auditHeadHashHex = h\<rparr>))"
  have size: "length (demo_log_digest b) = SHA256_BYTES" for b by (simp add: demo_log_digest_def SHA256_BYTES_def)
  have seq: "row_seq demo_row = 1" "seq_or_zero demo_event = 1"
    by (simp_all add: demo_row_def toHeadRow_def seq_or_zero_def demo_event_def)
  have fetched: "fetched_log (\<lambda>_. []) [demo_event] = [demo_row]" by (simp add: fetched_log_def demo_row_def seq)
  from h have advanced: "advance_head demo_log_digest [] demo_row = Accepted h" by simp
  then have "length h = SHA256_HEX_LENGTH" by (rule advanced_head_length [OF size])
  then have ne: "h \<noteq> []" by (auto simp: SHA256_HEX_LENGTH_def)
  obtain positions where positions: "recomputeColumn demo_log_digest [demo_row] = Accepted (positions, h)"
    using recompute_rows_defined [OF h, of "[]"] by (auto simp: recomputeColumn_def)
  then have index: "map_of positions = map_of [(h, 1)]"
    using recompute_rows_Accepted [of demo_log_digest "[]" "[]" "[demo_row]" positions h] advanced seq
    by (simp add: recomputeColumn_def fun_eq_iff)
  have clean: "auditReconcile demo_log_digest (\<lambda>_. []) [?entry] h [demo_event] = Accepted (0, [])"
    using positions index ne fetched
    by (simp add: auditReconcile_def Let_def gapViolations_def seq demo_row_def [symmetric] declaredHeadViolations_def
        checkpointViolations_def demo_entry_def regressionViolation_def floorViolation_def violations_of_def
        List.map_filter_simps map_has_def)
  have heads: "notarized_heads [?entry] = [h]" using ne by (simp add: demo_entry_def)
  have "\<exists>ks k. [[demo_row]] = map (\<lambda>n. take n (fetched_log (\<lambda>_. []) [demo_event])) ks \<and> sorted ks \<and>
      [demo_row] = take k (fetched_log (\<lambda>_. []) [demo_event])"
    by (rule clean_reconciliation_pins_log [OF clean size])
      (use h heads fetched demo_row_ok demo_log_free in simp_all)
  with clean fetched show ?thesis by auto
qed

end
