(* ===== verification/Fingerprint_Words.thy ===== *)
theory Fingerprint_Words
  imports Word_List Crypto_Errors
begin

unbundle bit_operations_syntax

text \<open>
  The word display of a key fingerprint (\<open>fingerprint-words.ts\<close>): the 128 bits of the fingerprint and four
  checksum bits, read as twelve 11-bit indexes into the word list. Two people who read out the same words
  hold the same fingerprint.
\<close>

section \<open>The display\<close>

definition FINGERPRINT_DISPLAY_BYTES :: nat where "FINGERPRINT_DISPLAY_BYTES = 16"

definition FINGERPRINT_WORD_COUNT :: nat where "FINGERPRINT_WORD_COUNT = 12"

definition INDEX_BITS :: nat where "INDEX_BITS = 11"

definition bitAt :: "bytes \<Rightarrow> nat \<Rightarrow> nat" where
  "bitAt stream position =
     (let byte = (if position div 8 < length stream then stream ! (position div 8) else 0) in
      unat (drop_bit (7 - position mod 8) byte AND 1))"

definition word_index :: "bytes \<Rightarrow> nat \<Rightarrow> nat" where
  "word_index stream word =
     foldl (\<lambda>index bit. push_bit 1 index OR bitAt stream (word * INDEX_BITS + bit)) 0 [0..<INDEX_BITS]"

fun words_from :: "bytes \<Rightarrow> nat list \<Rightarrow> ustr list crypto_result" where
  "words_from stream [] = Accepted []"
| "words_from stream (word # rest) =
     (if word_index stream word < length BIP39_ENGLISH_WORDS
      then then_call (words_from stream rest)
        (\<lambda>found. Accepted (BIP39_ENGLISH_WORDS ! word_index stream word # found))
      else Rejected (Invalid_Input ''word index''))"

definition fingerprintToWords :: "(bytes \<Rightarrow> bytes) \<Rightarrow> bytes \<Rightarrow> ustr list crypto_result" where
  "fingerprintToWords sha256 fingerprint =
     require_valid (first_invalid [(length fingerprint \<noteq> FINGERPRINT_DISPLAY_BYTES, ''fingerprint length'')])
       (let digest = sha256 fingerprint;
            stream = fingerprint @ [(case digest of [] \<Rightarrow> 0 | d # _ \<Rightarrow> d) AND 0xF0] in
        words_from stream [0..<FINGERPRINT_WORD_COUNT])"

section \<open>Reading the bits back\<close>

lemma bitAt_le: "bitAt stream p \<le> 1"
  by (simp add: bitAt_def Let_def and_one_eq mod2_eq_if)

lemma shift_or: "b \<le> 1 \<Longrightarrow> push_bit 1 (n :: nat) OR b = 2 * n + b"
  by (cases "b = 0") (auto simp: le_Suc_eq or_Suc_0_eq push_bit_eq_mult)

fun bits_value :: "nat \<Rightarrow> nat list \<Rightarrow> nat" where
  "bits_value n [] = n"
| "bits_value n (b # bs) = bits_value (2 * n + b) bs"

lemma word_index_bits:
  "word_index stream word = bits_value 0 (map (\<lambda>i. bitAt stream (word * INDEX_BITS + i)) [0..<INDEX_BITS])"
proof -
  have "foldl (\<lambda>index bit. push_bit 1 index OR bitAt stream (word * INDEX_BITS + bit)) n is =
      bits_value n (map (\<lambda>i. bitAt stream (word * INDEX_BITS + i)) is)" for n "is"
    by (induction "is" arbitrary: n) (simp_all only: list.map foldl.simps bits_value.simps shift_or [OF bitAt_le])
  then show ?thesis by (simp add: word_index_def)
qed

lemma bits_value_bound: "list_all (\<lambda>b. b \<le> 1) bs \<Longrightarrow> bits_value n bs < (n + 1) * 2 ^ length bs"
proof (induction bs arbitrary: n)
  case (Cons b bs)
  then have "bits_value (2 * n + b) bs < (2 * n + b + 1) * 2 ^ length bs" by simp
  also have "\<dots> \<le> (2 * (n + 1)) * 2 ^ length bs" using Cons.prems by (intro mult_right_mono) auto
  finally show ?case by (simp add: algebra_simps)
qed simp

lemma bits_value_inj:
  assumes "length bs = length cs" and "list_all (\<lambda>b. b \<le> 1) bs" and "list_all (\<lambda>b. b \<le> 1) cs"
    and "bits_value n bs = bits_value m cs"
  shows "n = m \<and> bs = cs"
  using assms
proof (induction bs cs arbitrary: n m rule: list_induct2)
  case (Cons b bs c cs)
  then have eq: "2 * n + b = 2 * m + c" and tails: "bs = cs" by simp_all
  have "b \<le> 1" "c \<le> 1" using Cons.prems by simp_all
  with eq have "n = m \<and> b = c" by presburger
  with tails show ?case by simp
qed simp

lemma word_index_bound: "word_index stream word < 2048"
proof -
  have "word_index stream word < (0 + 1) * 2 ^ length (map (\<lambda>i. bitAt stream (word * INDEX_BITS + i)) [0..<INDEX_BITS])"
    unfolding word_index_bits by (rule bits_value_bound) (simp add: list_all_iff bitAt_le [simplified])
  then show ?thesis by (simp add: INDEX_BITS_def)
qed

lemma words_from_defined:
  "words_from stream ws = Accepted (map (\<lambda>w. BIP39_ENGLISH_WORDS ! word_index stream w) ws)"
  by (induction ws) (simp_all add: BIP39_ENGLISH_WORDS_def word_index_bound)

section \<open>The words determine the fingerprint\<close>

lemma word_index_inj:
  assumes "word_index s word = word_index s' word" and "i < INDEX_BITS"
  shows "bitAt s (word * INDEX_BITS + i) = bitAt s' (word * INDEX_BITS + i)"
proof -
  let ?bits = "\<lambda>s. map (\<lambda>i. bitAt s (word * INDEX_BITS + i)) [0..<INDEX_BITS]"
  have "list_all (\<lambda>b. b \<le> 1) (?bits t)" for t by (simp add: list_all_iff bitAt_le [simplified])
  with bits_value_inj [of "?bits s" "?bits s'" 0 0] assms(1) have "?bits s = ?bits s'"
    unfolding word_index_bits by simp
  from arg_cong [OF this, of "\<lambda>bs. bs ! i"] assms(2) show ?thesis by simp
qed

lemma bitAt_bit:
  assumes "p div 8 < length s"
  shows "bitAt s p = of_bool (bit (s ! (p div 8)) (7 - p mod 8))"
  using assms by (simp add: bitAt_def Let_def and_one_eq mod2_eq_if bit_iff_odd_drop_bit)

lemma same_bits_same_bytes:
  assumes "length fp = 16" and "length fp' = 16"
    and "\<And>p. p < 128 \<Longrightarrow> bitAt (fp @ c) p = bitAt (fp' @ c') p"
  shows "fp = fp'"
proof (rule nth_equalityI)
  fix j
  assume "j < length fp"
  then have j: "j < 16" using assms(1) by simp
  show "fp ! j = fp' ! j"
  proof (rule bit_word_eqI)
    fix n
    assume "n < LENGTH(8)"
    then have n: "n < 8" by simp
    define p where "p = 8 * j + (7 - n)"
    have "p mod 8 = (7 - n) mod 8" unfolding p_def by (rule mod_mult_self4)
    then have at: "p div 8 = j" "7 - p mod 8 = n" "p < 128" using j n by (auto simp: p_def)
    have "bitAt (fp @ c) p = of_bool (bit (fp ! j) n)" "bitAt (fp' @ c') p = of_bool (bit (fp' ! j) n)"
      using bitAt_bit [of p "fp @ c"] bitAt_bit [of p "fp' @ c'"] at j assms(1,2) by (simp_all add: nth_append)
    with assms(3) [OF at(3)] show "bit (fp ! j) n = bit (fp' ! j) n" by (simp add: of_bool_eq_iff)
  qed
qed (simp add: assms)

lemma words_inject: "i < 2048 \<Longrightarrow> j < 2048 \<Longrightarrow> BIP39_ENGLISH_WORDS ! i = BIP39_ENGLISH_WORDS ! j \<longleftrightarrow> i = j"
  using distinct_words by (simp add: BIP39_ENGLISH_WORDS_def nth_eq_iff_index_eq)

lemma fingerprintToWords_words:
  "fingerprintToWords sha256 fp = Accepted ws \<longleftrightarrow>
     length fp = 16 \<and>
     (\<exists>c. c = (case sha256 fp of [] \<Rightarrow> 0 | d # _ \<Rightarrow> d) AND 0xF0 \<and>
        ws = map (\<lambda>w. BIP39_ENGLISH_WORDS ! word_index (fp @ [c]) w) [0..<12])"
  by (auto simp: fingerprintToWords_def words_from_defined FINGERPRINT_DISPLAY_BYTES_def FINGERPRINT_WORD_COUNT_def)

text \<open>
  The words of a fingerprint stand for it: every 16-byte fingerprint has a display of twelve words of
  the list, and two fingerprints with the same words are the same, so nothing of the 128 bits is lost.
\<close>

lemma words_determine_fingerprint:
  assumes "length fp = 16"
  shows "\<exists>ws. fingerprintToWords sha256 fp = Accepted ws \<and> length ws = 12 \<and> set ws \<subseteq> set BIP39_ENGLISH_WORDS \<and>
    (\<forall>fp'. fingerprintToWords sha256 fp' = Accepted ws \<longrightarrow> fp' = fp)"
proof -
  define c where "c = (case sha256 fp of [] \<Rightarrow> 0 | d # _ \<Rightarrow> d) AND 0xF0"
  define ws where c: "ws = map (\<lambda>w. BIP39_ENGLISH_WORDS ! word_index (fp @ [c]) w) [0..<12]"
  have ws: "fingerprintToWords sha256 fp = Accepted ws"
    unfolding fingerprintToWords_words c using assms c_def by blast
  have "fp' = fp" if same: "fingerprintToWords sha256 fp' = Accepted ws" for fp'
  proof -
    from same obtain c' where fp': "length fp' = 16"
      and c': "ws = map (\<lambda>w. BIP39_ENGLISH_WORDS ! word_index (fp' @ [c']) w) [0..<12]"
      by (auto simp: fingerprintToWords_words)
    have index: "word_index (fp' @ [c']) w = word_index (fp @ [c]) w" if "w < 12" for w
    proof -
      have "ws ! w = BIP39_ENGLISH_WORDS ! word_index (fp' @ [c']) w" using that unfolding c' by simp
      moreover have "ws ! w = BIP39_ENGLISH_WORDS ! word_index (fp @ [c]) w" using that unfolding c by simp
      ultimately show ?thesis using words_inject [OF word_index_bound word_index_bound] by simp
    qed
    show ?thesis
    proof (rule same_bits_same_bytes [OF fp' assms])
      fix p :: nat
      assume "p < 128"
      then have "p div 11 < 12" by simp
      from word_index_inj [OF index [OF this], of "p mod 11"]
      show "bitAt (fp' @ [c']) p = bitAt (fp @ [c]) p" by (simp add: INDEX_BITS_def)
    qed
  qed
  moreover have "set ws \<subseteq> set BIP39_ENGLISH_WORDS"
    unfolding c using word_index_bound by (auto simp: BIP39_ENGLISH_WORDS_def)
  ultimately show ?thesis using ws c by auto
qed

end
