(* ===== verification/Floor.thy ===== *)
theory Floor
  imports Chain_Types
begin

text \<open>
  The client's floor (\<open>floor.ts\<close>): the join of the facts it has verified so far about a project, which no
  later response of the server may contradict. Every coordinate is joined on its own; two observations of
  one version with different hashes have no join and are kept as a conflict, which the source sends to a
  sink and the model returns beside the joined value. The keys of \<open>variables\<close> are variable ids by the
  decoding of a record, so \<open>floorKeyAsVariableId\<close> returns its argument.
\<close>

section \<open>The floor\<close>

type_synonym variable_id = ustr

record chain_head_floor =
  hf_seq :: int
  hf_hashHex :: ustr

datatype variable_floor =
    Active_Floor (vf_version: int) (vf_epoch: int) (vf_valueSigHashHex: ustr)
      (vf_metaVersion: int) (vf_metaSigHashHex: ustr)
  | Declared_Floor (vf_metaVersion: int) (vf_metaSigHashHex: ustr)
  | Deleted_Floor (vf_metaVersion: int) (vf_metaSigHashHex: ustr)

record manifest_floor =
  mf_manifestVersion :: int
  mf_epoch :: int
  mf_manifestSigHashHex :: ustr

record environment_floor =
  ef_pullEpoch :: int
  ef_observedEpoch :: int
  ef_metaVersion :: int
  ef_metaSigHashHex :: ustr
  ef_manifest :: "manifest_floor option"
  ef_variables :: "(variable_id, variable_floor) js_map"

datatype conflict_kind =
    Chain_Head_Conflict
  | Value_Conflict
  | Variable_Meta_Conflict
  | Environment_Meta_Conflict
  | Manifest_Conflict
  | Undeletion

record floor_conflict =
  con_kind :: conflict_kind
  con_environmentId :: "environment_id option"
  con_variableId :: "variable_id option"
  con_firstVersion :: int
  con_firstHashHex :: ustr
  con_secondVersion :: int
  con_secondHashHex :: ustr

definition emptyEnvironmentFloor :: environment_floor where
  "emptyEnvironmentFloor =
     \<lparr>ef_pullEpoch = 0, ef_observedEpoch = 0, ef_metaVersion = 0, ef_metaSigHashHex = [], ef_manifest = None,
      ef_variables = []\<rparr>"

section \<open>Joining\<close>

record versioned_evidence =
  ev_version :: int
  ev_hashHex :: ustr

record epoch_evidence = versioned_evidence +
  ev_epoch :: int

type_synonym 'a joined = "'a \<times> floor_conflict list"

definition floor_conflict_of ::
  "conflict_kind \<Rightarrow> environment_id option \<Rightarrow> variable_id option \<Rightarrow> int \<times> ustr \<Rightarrow> int \<times> ustr \<Rightarrow> floor_conflict" where
  "floor_conflict_of kind env var first second =
     \<lparr>con_kind = kind, con_environmentId = env, con_variableId = var, con_firstVersion = fst first,
      con_firstHashHex = snd first, con_secondVersion = fst second, con_secondHashHex = snd second\<rparr>"

definition joinVersioned ::
  "'a versioned_evidence_scheme \<Rightarrow> 'a versioned_evidence_scheme \<Rightarrow> (int \<times> ustr \<Rightarrow> int \<times> ustr \<Rightarrow> floor_conflict) \<Rightarrow>
   'a versioned_evidence_scheme joined" where
  "joinVersioned a b conflict =
     (if ev_version a \<noteq> ev_version b then (if ev_version b < ev_version a then a else b, [])
      else if ev_hashHex a = ev_hashHex b then (a, [])
      else (if units_less (ev_hashHex b) (ev_hashHex a) then a else b,
            [conflict (ev_version a, ev_hashHex a) (ev_version b, ev_hashHex b)]))"

definition joinChainHead :: "chain_head_floor option \<Rightarrow> chain_head_floor \<Rightarrow> chain_head_floor joined" where
  "joinChainHead existing incoming =
     (case existing of
        None \<Rightarrow> (incoming, [])
      | Some head \<Rightarrow>
          let (v, conflicts) =
            joinVersioned \<lparr>ev_version = hf_seq head, ev_hashHex = hf_hashHex head\<rparr>
              \<lparr>ev_version = hf_seq incoming, ev_hashHex = hf_hashHex incoming\<rparr>
              (floor_conflict_of Chain_Head_Conflict None None)
          in (\<lparr>hf_seq = ev_version v, hf_hashHex = ev_hashHex v\<rparr>, conflicts))"

text \<open>The meta side of a floor: its version and the hash of its statement.\<close>

definition metaConflict ::
  "conflict_kind \<Rightarrow> environment_id \<Rightarrow> variable_id option \<Rightarrow> int \<times> ustr \<Rightarrow> int \<times> ustr \<Rightarrow> floor_conflict" where
  "metaConflict kind env var = floor_conflict_of kind (Some env) var"

definition joinMetaSide ::
  "environment_id \<Rightarrow> variable_id option \<Rightarrow> int \<times> ustr \<Rightarrow> int \<times> ustr \<Rightarrow> (int \<times> ustr) joined" where
  "joinMetaSide env var a b =
     (let (v, conflicts) =
        joinVersioned \<lparr>ev_version = fst a, ev_hashHex = snd a\<rparr> \<lparr>ev_version = fst b, ev_hashHex = snd b\<rparr>
          (metaConflict (if var = None then Environment_Meta_Conflict else Variable_Meta_Conflict) env var)
      in ((ev_version v, ev_hashHex v), conflicts))"

definition meta_of :: "variable_floor \<Rightarrow> int \<times> ustr" where
  "meta_of f = (vf_metaVersion f, vf_metaSigHashHex f)"

definition joinDeletedWithLive ::
  "environment_id \<Rightarrow> variable_id \<Rightarrow> variable_floor \<Rightarrow> variable_floor \<Rightarrow> variable_floor joined" where
  "joinDeletedWithLive env var deleted live =
     (deleted,
      if vf_metaVersion deleted < vf_metaVersion live
      then [floor_conflict_of Undeletion (Some env) (Some var) (meta_of deleted) (meta_of live)]
      else if vf_metaVersion live = vf_metaVersion deleted
      then [floor_conflict_of Variable_Meta_Conflict (Some env) (Some var) (meta_of deleted) (meta_of live)]
      else [])"

fun joinLiveVariableFloor ::
  "environment_id \<Rightarrow> variable_id \<Rightarrow> variable_floor \<Rightarrow> variable_floor \<Rightarrow> variable_floor joined" where
  "joinLiveVariableFloor env var (Active_Floor v e h mv mh) (Active_Floor v' e' h' mv' mh') =
     (let (m, metaConflicts) = joinMetaSide env (Some var) (mv, mh) (mv', mh');
          (value, valueConflicts) =
            joinVersioned \<lparr>ev_version = v, ev_hashHex = h, ev_epoch = e\<rparr> \<lparr>ev_version = v', ev_hashHex = h', ev_epoch = e'\<rparr>
              (floor_conflict_of Value_Conflict (Some env) (Some var))
      in (Active_Floor (ev_version value) (ev_epoch value) (ev_hashHex value) (fst m) (snd m), metaConflicts @ valueConflicts))"
| "joinLiveVariableFloor env var (Active_Floor v e h mv mh) incoming =
     (let (m, conflicts) = joinMetaSide env (Some var) (mv, mh) (meta_of incoming)
      in (Active_Floor v e h (fst m) (snd m), conflicts))"
| "joinLiveVariableFloor env var existing (Active_Floor v e h mv mh) =
     (let (m, conflicts) = joinMetaSide env (Some var) (meta_of existing) (mv, mh)
      in (Active_Floor v e h (fst m) (snd m), conflicts))"
| "joinLiveVariableFloor env var existing incoming =
     (let (m, conflicts) = joinMetaSide env (Some var) (meta_of existing) (meta_of incoming)
      in (Declared_Floor (fst m) (snd m), conflicts))"

definition joinVariableFloor ::
  "environment_id \<Rightarrow> variable_id \<Rightarrow> variable_floor option \<Rightarrow> variable_floor \<Rightarrow> variable_floor joined" where
  "joinVariableFloor env var existing incoming =
     (case existing of
        None \<Rightarrow> (incoming, [])
      | Some floor \<Rightarrow>
          if is_Deleted_Floor floor then
            (if is_Deleted_Floor incoming then
               let (m, conflicts) = joinMetaSide env (Some var) (meta_of floor) (meta_of incoming)
               in (Deleted_Floor (fst m) (snd m), conflicts)
             else joinDeletedWithLive env var floor incoming)
          else if is_Deleted_Floor incoming then joinDeletedWithLive env var incoming floor
          else joinLiveVariableFloor env var floor incoming)"

definition joinManifestFloor ::
  "environment_id \<Rightarrow> manifest_floor option \<Rightarrow> manifest_floor option \<Rightarrow> manifest_floor option joined" where
  "joinManifestFloor env existing incoming =
     (case (existing, incoming) of
        (Some a, Some b) \<Rightarrow>
          let (v, conflicts) =
            joinVersioned
              \<lparr>ev_version = mf_manifestVersion a, ev_hashHex = mf_manifestSigHashHex a, ev_epoch = mf_epoch a\<rparr>
              \<lparr>ev_version = mf_manifestVersion b, ev_hashHex = mf_manifestSigHashHex b, ev_epoch = mf_epoch b\<rparr>
              (floor_conflict_of Manifest_Conflict (Some env) None)
          in (Some \<lparr>mf_manifestVersion = ev_version v, mf_epoch = ev_epoch v, mf_manifestSigHashHex = ev_hashHex v\<rparr>,
              conflicts)
      | (Some a, None) \<Rightarrow> (Some a, [])
      | (None, b) \<Rightarrow> (b, []))"

text \<open>The loop over the incoming variables; each reads the existing map, not the one being built.\<close>

fun join_variables ::
  "environment_id \<Rightarrow> (variable_id, variable_floor) js_map \<Rightarrow> (variable_id, variable_floor) js_map \<Rightarrow>
   (variable_id, variable_floor) js_map \<Rightarrow> (variable_id, variable_floor) js_map joined" where
  "join_variables env existing [] variables = (variables, [])"
| "join_variables env existing ((key, variable) # rest) variables =
     (let (joined, conflicts) = joinVariableFloor env key (map_of existing key) variable;
          (result, more_conflicts) = join_variables env existing rest (AList.update key joined variables)
      in (result, conflicts @ more_conflicts))"

definition joinEnvironmentFloor ::
  "environment_id \<Rightarrow> environment_floor option \<Rightarrow> environment_floor \<Rightarrow> environment_floor joined" where
  "joinEnvironmentFloor env existing incoming =
     (case existing of
        None \<Rightarrow> (incoming, [])
      | Some floor \<Rightarrow>
          let (m, metaConflicts) =
                (if ef_metaVersion floor = 0 then ((ef_metaVersion incoming, ef_metaSigHashHex incoming), [])
                 else if ef_metaVersion incoming = 0 then ((ef_metaVersion floor, ef_metaSigHashHex floor), [])
                 else joinMetaSide env None (ef_metaVersion floor, ef_metaSigHashHex floor)
                        (ef_metaVersion incoming, ef_metaSigHashHex incoming));
              (manifest, manifestConflicts) = joinManifestFloor env (ef_manifest floor) (ef_manifest incoming);
              (variables, variableConflicts) =
                join_variables env (ef_variables floor) (ef_variables incoming) (ef_variables floor)
          in (\<lparr>ef_pullEpoch = max (ef_pullEpoch floor) (ef_pullEpoch incoming),
               ef_observedEpoch = max (ef_observedEpoch floor) (ef_observedEpoch incoming),
               ef_metaVersion = fst m, ef_metaSigHashHex = snd m, ef_manifest = manifest, ef_variables = variables\<rparr>,
              metaConflicts @ manifestConflicts @ variableConflicts))"

end
