(* ===== verification/Floor_Log.thy ===== *)
theory Floor_Log
  imports Floor
begin

text \<open>
  The storage of the floor: an append-only log of observations, one JSON line each, and the fold that
  derives the floor from it (\<open>floor-log-decode.ts\<close>, \<open>floor-log-fold.ts\<close>, \<open>floor-log.ts\<close>). The file is its
  text. Encoding and decoding of a line (JSON and the schema library) are a parameter; \<open>valid_record\<close> is what
  the schema admits.
\<close>

section \<open>Records\<close>

datatype floor_intent_op = Create_Environment_Op | Rotate_Epoch_Op | Meta_Op

datatype floor_intent =
    Manifest_Intent (intent_id: ustr) (intent_op: floor_intent_op) (intent_environmentId: environment_id)
      (intent_epoch: int) (intent_dekCommitmentHex: "ustr option") (intent_variableId: "variable_id option")
      (intent_manifestVersion: int) (intent_manifestSigHashHex: ustr) (intent_declaredHead: chain_head_floor)
  | Deletion_Intent (intent_id: ustr) (intent_environmentId: environment_id) (intent_declaredHead: chain_head_floor)

datatype floor_intent_outcome =
    Outcome_Accepted
  | Outcome_Accepted_Superseded
  | Outcome_Rejected
  | Outcome_Not_Accepted
  | Outcome_Superseded

record project_floor =
  pf_chainHead :: "chain_head_floor option"
  pf_environments :: "(environment_id, environment_floor) js_map"
  pf_conflicts :: "floor_conflict list"
  pf_intents :: "floor_intent list"

datatype floor_log_record =
    Head_Record chain_head_floor
  | Pull_Record chain_head_floor environment_id environment_floor
  | Push_Record chain_head_floor environment_id variable_id variable_floor
  | Meta_Record chain_head_floor environment_id int int ustr manifest_floor
  | Manifest_Record chain_head_floor environment_id manifest_floor
  | Intent_Record floor_intent
  | Resolution_Record ustr floor_intent_outcome
  | Snapshot_Record nat project_floor

section \<open>The fold\<close>

record fold_state =
  fs_chainHead :: "chain_head_floor option"
  fs_environments :: "(environment_id, environment_floor) js_map"
  fs_conflicts :: "(ustr, floor_conflict) js_map"
  fs_intents :: "(ustr, floor_intent) js_map"

fun conflict_kind_name :: "conflict_kind \<Rightarrow> string" where
  "conflict_kind_name Chain_Head_Conflict = ''chain-head''"
| "conflict_kind_name Value_Conflict = ''value''"
| "conflict_kind_name Variable_Meta_Conflict = ''variable-meta''"
| "conflict_kind_name Environment_Meta_Conflict = ''environment-meta''"
| "conflict_kind_name Manifest_Conflict = ''manifest''"
| "conflict_kind_name Undeletion = ''undeletion''"

definition conflictKey :: "floor_conflict \<Rightarrow> ustr" where
  "conflictKey c =
     (let first = decimal (nat (con_firstVersion c)) @ lit '':'' @ con_firstHashHex c;
          second = decimal (nat (con_secondVersion c)) @ lit '':'' @ con_secondHashHex c;
          (a, b) = (if units_less second first then (second, first) else (first, second));
          text_or_empty = case_option [] id
      in lit (conflict_kind_name (con_kind c)) @ lit ''|'' @ text_or_empty (con_environmentId c) @ lit ''|'' @
         text_or_empty (con_variableId c) @ lit ''|'' @ a @ lit ''|'' @ b)"

definition addConflict :: "floor_conflict \<Rightarrow> fold_state \<Rightarrow> fold_state" where
  "addConflict conflict state =
     (if map_has (fs_conflicts state) (conflictKey conflict) then state
      else state\<lparr>fs_conflicts := AList.update (conflictKey conflict) conflict (fs_conflicts state)\<rparr>)"

definition sink_conflicts :: "floor_conflict list \<Rightarrow> fold_state \<Rightarrow> fold_state" where
  "sink_conflicts conflicts state = foldl (\<lambda>s c. addConflict c s) state conflicts"

definition joinHeadInto :: "fold_state \<Rightarrow> chain_head_floor \<Rightarrow> fold_state" where
  "joinHeadInto state head =
     (let (joined, conflicts) = joinChainHead (fs_chainHead state) head
      in sink_conflicts conflicts (state\<lparr>fs_chainHead := Some joined\<rparr>))"

definition joinEnvironmentInto :: "fold_state \<Rightarrow> environment_id \<Rightarrow> environment_floor \<Rightarrow> fold_state" where
  "joinEnvironmentInto state env incoming =
     (let (joined, conflicts) = joinEnvironmentFloor env (map_of (fs_environments state) env) incoming
      in sink_conflicts conflicts (state\<lparr>fs_environments := AList.update env joined (fs_environments state)\<rparr>))"

fun applyRecord :: "fold_state \<Rightarrow> floor_log_record \<Rightarrow> fold_state" where
  "applyRecord state (Head_Record head) = joinHeadInto state head"
| "applyRecord state (Pull_Record head env environment) = joinEnvironmentInto (joinHeadInto state head) env environment"
| "applyRecord state (Push_Record head env var variable) =
     joinEnvironmentInto (joinHeadInto state head) env (emptyEnvironmentFloor\<lparr>ef_variables := [(var, variable)]\<rparr>)"
| "applyRecord state (Meta_Record head env observedEpoch metaVersion metaSigHashHex manifest) =
     joinEnvironmentInto (joinHeadInto state head) env
       (emptyEnvironmentFloor\<lparr>ef_observedEpoch := observedEpoch, ef_metaVersion := metaVersion,
          ef_metaSigHashHex := metaSigHashHex, ef_manifest := Some manifest\<rparr>)"
| "applyRecord state (Manifest_Record head env manifest) =
     joinEnvironmentInto (joinHeadInto state head) env
       (emptyEnvironmentFloor\<lparr>ef_observedEpoch := mf_epoch manifest, ef_manifest := Some manifest\<rparr>)"
| "applyRecord state (Intent_Record intent) =
     state\<lparr>fs_intents := AList.update (intent_id intent) intent (fs_intents state)\<rparr>"
| "applyRecord state (Resolution_Record intentId outcome) = state\<lparr>fs_intents := AList.delete intentId (fs_intents state)\<rparr>"
| "applyRecord state (Snapshot_Record folded snapshot) = state"

definition empty_fold :: fold_state where
  "empty_fold = \<lparr>fs_chainHead = None, fs_environments = [], fs_conflicts = [], fs_intents = []\<rparr>"

definition baseStateOf :: "project_floor option \<Rightarrow> fold_state" where
  "baseStateOf snapshot =
     (case snapshot of
        None \<Rightarrow> empty_fold
      | Some s \<Rightarrow>
          sink_conflicts (pf_conflicts s)
            \<lparr>fs_chainHead = pf_chainHead s,
             fs_environments = foldl (\<lambda>m (k, v). AList.update k v m) [] (pf_environments s),
             fs_conflicts = [],
             fs_intents = foldl (\<lambda>m i. AList.update (intent_id i) i m) [] (pf_intents s)\<rparr>)"

section \<open>Reading the log\<close>

text \<open>The white space that \<open>trim\<close> removes.\<close>

definition js_white_space :: "16 word list" where
  "js_white_space =
     [0x09, 0x0A, 0x0B, 0x0C, 0x0D, 0x20, 0xA0, 0x1680, 0x2000, 0x2001, 0x2002, 0x2003, 0x2004, 0x2005, 0x2006, 0x2007,
      0x2008, 0x2009, 0x200A, 0x2028, 0x2029, 0x202F, 0x205F, 0x3000, 0xFEFF]"

definition blank_line :: "ustr \<Rightarrow> bool" where
  "blank_line line \<longleftrightarrow> list_all (\<lambda>u. u \<in> set js_white_space) line"

fun parseLogLines ::
  "(ustr \<Rightarrow> floor_log_record option) \<Rightarrow> ustr list \<Rightarrow> nat \<Rightarrow> floor_log_record list \<times> nat list" where
  "parseLogLines decode [] count = ([], [])"
| "parseLogLines decode (line # rest) count =
     (if blank_line line then parseLogLines decode rest count
      else case decode line of
        None \<Rightarrow> (let (records, dropped) = parseLogLines decode rest count in (records, count # dropped))
      | Some r \<Rightarrow> (let (records, dropped) = parseLogLines decode rest (Suc count) in (r # records, dropped)))"

text \<open>The search for the latest snapshot goes down from the end of the records.\<close>

fun latest_snapshot :: "floor_log_record list \<Rightarrow> nat \<Rightarrow> (nat \<times> nat \<times> project_floor) option" where
  "latest_snapshot records 0 = None"
| "latest_snapshot records (Suc index) =
     (case records ! index of
        Snapshot_Record folded state \<Rightarrow> Some (index, folded, state)
      | _ \<Rightarrow> latest_snapshot records index)"

record fold_base =
  fb_foldFrom :: nat
  fb_snapshotIndex :: "nat option"
  fb_state :: fold_state

definition foldBase :: "floor_log_record list \<Rightarrow> fold_base" where
  "foldBase records =
     (case latest_snapshot records (length records) of
        None \<Rightarrow> \<lparr>fb_foldFrom = 0, fb_snapshotIndex = None, fb_state = baseStateOf None\<rparr>
      | Some (index, folded, state) \<Rightarrow>
          \<lparr>fb_foldFrom = (if folded \<le> index then folded else 0), fb_snapshotIndex = Some index,
           fb_state = baseStateOf (if folded \<le> index then Some state else None)\<rparr>)"

record fold_outcome =
  fo_floor :: project_floor
  fo_decodedRecords :: nat
  fo_droppedLines :: nat
  fo_recordsSinceSnapshot :: nat

definition floor_of_state :: "fold_state \<Rightarrow> project_floor" where
  "floor_of_state state =
     \<lparr>pf_chainHead = fs_chainHead state, pf_environments = fs_environments state,
      pf_conflicts = map snd (fs_conflicts state), pf_intents = map snd (fs_intents state)\<rparr>"

definition foldRecords :: "(ustr \<Rightarrow> floor_log_record option) \<Rightarrow> ustr list \<Rightarrow> fold_outcome" where
  "foldRecords decode lines =
     (let (records, droppedAtRecordCount) = parseLogLines decode lines 0;
          base = foldBase records;
          state = foldl applyRecord (fb_state base) (drop (fb_foldFrom base) records)
      in \<lparr>fo_floor = floor_of_state state,
          fo_decodedRecords = length records,
          fo_droppedLines = length (filter (\<lambda>position. fb_foldFrom base \<le> position) droppedAtRecordCount),
          fo_recordsSinceSnapshot =
            (case fb_snapshotIndex base of None \<Rightarrow> length records | Some index \<Rightarrow> length records - 1 - index)\<rparr>)"

section \<open>The file\<close>

definition newline :: "16 word" where "newline = 0x0A"

fun split_lines :: "ustr \<Rightarrow> ustr list" where
  "split_lines [] = [[]]"
| "split_lines (u # us) =
     (if u = newline then [] # split_lines us
      else (case split_lines us of [] \<Rightarrow> [[u]] | line # rest \<Rightarrow> (u # line) # rest))"

record floor_codec =
  codec_decode :: "ustr \<Rightarrow> floor_log_record option"
  codec_encode :: "floor_log_record \<Rightarrow> ustr"

definition encodeRecord :: "floor_codec \<Rightarrow> floor_log_record \<Rightarrow> ustr" where
  "encodeRecord codec r = codec_encode codec r @ [newline]"

definition append_payload :: "floor_codec \<Rightarrow> floor_log_record list \<Rightarrow> ustr" where
  "append_payload codec records = newline # concat (map (encodeRecord codec) records)"

definition readAndFold :: "floor_codec \<Rightarrow> ustr \<Rightarrow> fold_outcome" where
  "readAndFold codec raw = foldRecords (codec_decode codec) (split_lines raw)"

definition snapshot_of :: "fold_outcome \<Rightarrow> floor_log_record" where
  "snapshot_of outcome = Snapshot_Record (fo_decodedRecords outcome) (fo_floor outcome)"

definition mutate ::
  "floor_codec \<Rightarrow> nat \<Rightarrow> ustr \<Rightarrow> floor_log_record list \<Rightarrow> ustr \<times> (floor_conflict list, project_floor) outcome" where
  "mutate codec compactionThreshold raw records =
     (let appended = raw @ append_payload codec records;
          outcome = readAndFold codec appended;
          (result, final) =
            (if compactionThreshold < fo_recordsSinceSnapshot outcome
             then (let compacted = appended @ append_payload codec [snapshot_of outcome]
                   in (compacted, readAndFold codec compacted))
             else (appended, outcome))
      in (result,
          if pf_conflicts (fo_floor final) \<noteq> [] then Rejected (pf_conflicts (fo_floor final))
          else Accepted (fo_floor final)))"

definition environmentOf :: "project_floor \<Rightarrow> environment_id \<Rightarrow> environment_floor" where
  "environmentOf floor env = case_option emptyEnvironmentFloor id (map_of (pf_environments floor) env)"

datatype floor_load_result = Floor_Missing | Floor_Corrupt nat | Floor_Loaded project_floor nat

definition load_floor :: "floor_codec \<Rightarrow> ustr option \<Rightarrow> floor_load_result" where
  "load_floor codec file =
     (case file of
        None \<Rightarrow> Floor_Missing
      | Some raw \<Rightarrow>
          let outcome = readAndFold codec raw in
          if fo_decodedRecords outcome = 0
          then (if \<not> blank_line raw then Floor_Corrupt (fo_droppedLines outcome) else Floor_Missing)
          else Floor_Loaded (fo_floor outcome) (fo_droppedLines outcome))"

section \<open>What a line decodes to\<close>

definition hash_hex :: "ustr \<Rightarrow> bool" where
  "hash_hex s \<longleftrightarrow> length s = 64 \<and> decode_hex s \<noteq> None"

definition positive_int :: "int \<Rightarrow> bool" where "positive_int n \<longleftrightarrow> safe_int n \<and> 1 \<le> n"

definition natural_int :: "int \<Rightarrow> bool" where "natural_int n \<longleftrightarrow> safe_int n \<and> 0 \<le> n"

definition id_first_units :: "16 word list" where
  "id_first_units = lit ''ABCDEFGHIJKLMNOPQRSTUVWXYZabcdefghijklmnopqrstuvwxyz0123456789''"

definition resource_id :: "ustr \<Rightarrow> bool" where
  "resource_id s \<longleftrightarrow> s \<noteq> [] \<and> length s \<le> 64 \<and> hd s \<in> set id_first_units \<and>
     list_all (\<lambda>u. u \<in> set id_first_units \<union> set (lit ''_-'')) (tl s)"

definition isEnvironmentId :: "ustr \<Rightarrow> bool" where "isEnvironmentId s \<longleftrightarrow> resource_id s"

definition isVariableId :: "ustr \<Rightarrow> bool" where "isVariableId s \<longleftrightarrow> resource_id s"

definition valid_head :: "chain_head_floor \<Rightarrow> bool" where
  "valid_head h \<longleftrightarrow> positive_int (hf_seq h) \<and> hash_hex (hf_hashHex h)"

fun valid_variable :: "variable_floor \<Rightarrow> bool" where
  "valid_variable (Active_Floor v e h mv mh) \<longleftrightarrow>
     positive_int v \<and> positive_int e \<and> hash_hex h \<and> positive_int mv \<and> hash_hex mh"
| "valid_variable (Declared_Floor mv mh) \<longleftrightarrow> positive_int mv \<and> hash_hex mh"
| "valid_variable (Deleted_Floor mv mh) \<longleftrightarrow> positive_int mv \<and> hash_hex mh"

definition valid_manifest :: "manifest_floor \<Rightarrow> bool" where
  "valid_manifest m \<longleftrightarrow> positive_int (mf_manifestVersion m) \<and> positive_int (mf_epoch m) \<and> hash_hex (mf_manifestSigHashHex m)"

definition valid_environment :: "environment_floor \<Rightarrow> bool" where
  "valid_environment e \<longleftrightarrow>
     natural_int (ef_pullEpoch e) \<and> natural_int (ef_observedEpoch e) \<and> natural_int (ef_metaVersion e) \<and>
     pred_option valid_manifest (ef_manifest e) \<and>
     keys_ok (ef_variables e) \<and> list_all (\<lambda>(k, v). isVariableId k \<and> valid_variable v) (ef_variables e) \<and>
     (if ef_metaVersion e = 0 then ef_metaSigHashHex e = [] else hash_hex (ef_metaSigHashHex e))"

definition valid_conflict :: "floor_conflict \<Rightarrow> bool" where
  "valid_conflict c \<longleftrightarrow>
     pred_option isEnvironmentId (con_environmentId c) \<and> pred_option isVariableId (con_variableId c) \<and>
     natural_int (con_firstVersion c) \<and> natural_int (con_secondVersion c)"

definition intent_id_ok :: "ustr \<Rightarrow> bool" where
  "intent_id_ok s \<longleftrightarrow> length s = 16 \<and> decode_hex s \<noteq> None"

fun valid_intent :: "floor_intent \<Rightarrow> bool" where
  "valid_intent (Manifest_Intent i k env epoch commitment var version sig head) \<longleftrightarrow>
     intent_id_ok i \<and> isEnvironmentId env \<and> positive_int epoch \<and> pred_option hash_hex commitment \<and>
     pred_option isVariableId var \<and> positive_int version \<and> hash_hex sig \<and> valid_head head"
| "valid_intent (Deletion_Intent i env head) \<longleftrightarrow> intent_id_ok i \<and> isEnvironmentId env \<and> valid_head head"

definition valid_snapshot :: "project_floor \<Rightarrow> bool" where
  "valid_snapshot s \<longleftrightarrow>
     pred_option valid_head (pf_chainHead s) \<and>
     keys_ok (pf_environments s) \<and> list_all (\<lambda>(k, e). isEnvironmentId k \<and> valid_environment e) (pf_environments s) \<and>
     list_all valid_conflict (pf_conflicts s) \<and> list_all valid_intent (pf_intents s)"

fun valid_record :: "floor_log_record \<Rightarrow> bool" where
  "valid_record (Head_Record head) \<longleftrightarrow> valid_head head"
| "valid_record (Pull_Record head env environment) \<longleftrightarrow> valid_head head \<and> isEnvironmentId env \<and> valid_environment environment"
| "valid_record (Push_Record head env var variable) \<longleftrightarrow>
     valid_head head \<and> isEnvironmentId env \<and> isVariableId var \<and> valid_variable variable"
| "valid_record (Meta_Record head env observedEpoch metaVersion metaSigHashHex manifest) \<longleftrightarrow>
     valid_head head \<and> isEnvironmentId env \<and> positive_int observedEpoch \<and> positive_int metaVersion \<and>
     hash_hex metaSigHashHex \<and> valid_manifest manifest"
| "valid_record (Manifest_Record head env manifest) \<longleftrightarrow> valid_head head \<and> isEnvironmentId env \<and> valid_manifest manifest"
| "valid_record (Intent_Record intent) \<longleftrightarrow> valid_intent intent"
| "valid_record (Resolution_Record intentId outcome) \<longleftrightarrow> intent_id_ok intentId"
| "valid_record (Snapshot_Record folded snapshot) \<longleftrightarrow> natural_int (int folded) \<and> valid_snapshot snapshot"

end
