(* ===== verification/Join_Semilattice.thy ===== *)
theory Join_Semilattice
  imports Prelude
begin

text \<open>
  The interface of a join: commutative, associative and idempotent on the values that are good. Folding a
  join over a list depends on the set of its elements only, in no order and with any repetition. Joins
  lift to optional values, pairs and functions.
\<close>

locale join_on =
  fixes good :: "'a \<Rightarrow> bool"
    and join :: "'a \<Rightarrow> 'a \<Rightarrow> 'a"
  assumes good_join: "good a \<Longrightarrow> good b \<Longrightarrow> good (join a b)"
    and commute: "good a \<Longrightarrow> good b \<Longrightarrow> join a b = join b a"
    and assoc: "good a \<Longrightarrow> good b \<Longrightarrow> good c \<Longrightarrow> join (join a b) c = join a (join b c)"
    and idem: "good a \<Longrightarrow> join a a = a"
begin

definition below :: "'a \<Rightarrow> 'a \<Rightarrow> bool" where
  "below a b \<longleftrightarrow> join a b = b"

lemma below_refl: "good a \<Longrightarrow> below a a"
  by (simp add: below_def idem)

lemma below_trans: "good a \<Longrightarrow> good b \<Longrightarrow> good c \<Longrightarrow> below a b \<Longrightarrow> below b c \<Longrightarrow> below a c"
  by (metis assoc below_def)

lemma below_join: "good a \<Longrightarrow> good b \<Longrightarrow> below a (join a b)"
  by (metis assoc below_def idem)

lemma swap: "good a \<Longrightarrow> good x \<Longrightarrow> good y \<Longrightarrow> join (join a x) y = join (join a y) x"
  by (metis assoc commute)

lemma good_fold: "good s \<Longrightarrow> list_all good xs \<Longrightarrow> good (foldl join s xs)"
  by (induction xs arbitrary: s) (auto intro: good_join)

lemma fold_push: "good s \<Longrightarrow> good x \<Longrightarrow> list_all good xs \<Longrightarrow> foldl join (join s x) xs = join (foldl join s xs) x"
proof (induction xs arbitrary: s)
  case (Cons y ys)
  then show ?case by (simp add: swap [of s x y] good_join)
qed simp

lemma fold_below: "good s \<Longrightarrow> list_all good xs \<Longrightarrow> below s (foldl join s xs)"
proof (induction xs arbitrary: s)
  case (Cons x xs)
  then have "below s (join s x)" "below (join s x) (foldl join (join s x) xs)"
    by (simp_all add: below_join good_join)
  with Cons.prems show ?case by (auto intro!: below_trans [of s "join s x"] good_join good_fold)
qed (simp add: below_refl)

lemma fold_absorb: "good s \<Longrightarrow> list_all good xs \<Longrightarrow> x \<in> set xs \<Longrightarrow> join (foldl join s xs) x = foldl join s xs"
proof (induction xs arbitrary: s)
  case (Cons y ys)
  show ?case
  proof (cases "x = y")
    case True
    with Cons.prems have "join (foldl join (join s y) ys) x = foldl join (join (join s y) y) ys"
      by (simp add: fold_push good_join)
    moreover have "join (join s y) y = join s y" using Cons.prems by (simp add: assoc idem)
    ultimately show ?thesis by simp
  next
    case False
    with Cons show ?thesis by (simp add: good_join)
  qed
qed simp

lemma fold_absorbs:
  "good s \<Longrightarrow> list_all good ys \<Longrightarrow> set xs \<subseteq> set ys \<Longrightarrow> foldl join (foldl join s ys) xs = foldl join s ys"
  by (induction xs) (simp_all add: fold_absorb)

lemma fold_append_commute:
  "good s \<Longrightarrow> list_all good xs \<Longrightarrow> list_all good ys \<Longrightarrow> foldl join s (xs @ ys) = foldl join s (ys @ xs)"
proof (induction xs arbitrary: s)
  case (Cons x xs)
  then have "foldl join s ((x # xs) @ ys) = foldl join (foldl join (join s x) ys) xs"
    by (simp add: good_join)
  also have "\<dots> = foldl join (join (foldl join s ys) x) xs"
    using Cons.prems by (simp add: fold_push)
  finally show ?case by simp
qed simp

lemma fold_set:
  assumes "good s" and "list_all good xs" and "set xs = set ys"
  shows "foldl join s xs = foldl join s ys"
proof -
  have ys: "list_all good ys" using assms(2,3) by (simp add: list_all_iff)
  have "foldl join s xs = foldl join s (xs @ ys)"
    using fold_absorbs [of s xs ys] assms by simp
  also have "\<dots> = foldl join s (ys @ xs)"
    using assms(1,2) ys by (rule fold_append_commute)
  also have "\<dots> = foldl join s ys"
    using fold_absorbs [of s ys xs] assms(1,3) ys by simp
  finally show ?thesis .
qed

end

section \<open>Lifted joins\<close>

definition option_join :: "('a \<Rightarrow> 'a \<Rightarrow> 'a) \<Rightarrow> 'a option \<Rightarrow> 'a option \<Rightarrow> 'a option" where
  "option_join join a b =
     (case a of None \<Rightarrow> b | Some x \<Rightarrow> (case b of None \<Rightarrow> a | Some y \<Rightarrow> Some (join x y)))"

definition pair_join :: "('a \<Rightarrow> 'a \<Rightarrow> 'a) \<Rightarrow> ('b \<Rightarrow> 'b \<Rightarrow> 'b) \<Rightarrow> 'a \<times> 'b \<Rightarrow> 'a \<times> 'b \<Rightarrow> 'a \<times> 'b" where
  "pair_join f g p q = (f (fst p) (fst q), g (snd p) (snd q))"

definition pair_good :: "('a \<Rightarrow> bool) \<Rightarrow> ('b \<Rightarrow> bool) \<Rightarrow> 'a \<times> 'b \<Rightarrow> bool" where
  "pair_good P Q p \<longleftrightarrow> P (fst p) \<and> Q (snd p)"

definition fun_join :: "('a \<Rightarrow> 'a \<Rightarrow> 'a) \<Rightarrow> ('k \<Rightarrow> 'a) \<Rightarrow> ('k \<Rightarrow> 'a) \<Rightarrow> 'k \<Rightarrow> 'a" where
  "fun_join join f g k = join (f k) (g k)"

definition fun_good :: "('a \<Rightarrow> bool) \<Rightarrow> ('k \<Rightarrow> 'a) \<Rightarrow> bool" where
  "fun_good P f \<longleftrightarrow> (\<forall>k. P (f k))"

lemma option_join_simps [simp]:
  "option_join join None b = b"
  "option_join join a None = a"
  "option_join join (Some x) (Some y) = Some (join x y)"
  by (simp_all add: option_join_def split: option.split)

lemma join_on_option:
  assumes "join_on good join"
  shows "join_on (pred_option good) (option_join join)"
proof
  note facts = join_on.good_join [OF assms] join_on.assoc [OF assms] join_on.idem [OF assms]
  fix a b c :: "'a option"
  show "pred_option good (option_join join a b)" if "pred_option good a" "pred_option good b"
    using that facts by (cases a; cases b) auto
  show "option_join join a b = option_join join b a" if "pred_option good a" "pred_option good b"
    using that join_on.commute [OF assms] by (cases a; cases b) auto
  show "option_join join (option_join join a b) c = option_join join a (option_join join b c)"
    if "pred_option good a" "pred_option good b" "pred_option good c"
    using that facts by (cases a; cases b; cases c) auto
  show "option_join join a a = a" if "pred_option good a"
    using that facts by (cases a) auto
qed

lemma join_on_pair:
  assumes "join_on P f" and "join_on Q g"
  shows "join_on (pair_good P Q) (pair_join f g)"
proof
  fix a b c :: "'a \<times> 'b"
  show "pair_good P Q (pair_join f g a b)" if "pair_good P Q a" "pair_good P Q b"
    using that assms [THEN join_on.good_join] by (simp add: pair_good_def pair_join_def)
  show "pair_join f g a b = pair_join f g b a" if "pair_good P Q a" "pair_good P Q b"
    using that join_on.commute [OF assms(1), of "fst a" "fst b"] join_on.commute [OF assms(2), of "snd a" "snd b"]
    by (simp add: pair_good_def pair_join_def)
  show "pair_join f g (pair_join f g a b) c = pair_join f g a (pair_join f g b c)"
    if "pair_good P Q a" "pair_good P Q b" "pair_good P Q c"
    using that assms [THEN join_on.assoc] by (simp add: pair_good_def pair_join_def)
  show "pair_join f g a a = a" if "pair_good P Q a"
    using that assms [THEN join_on.idem] by (simp add: pair_good_def pair_join_def)
qed

lemma join_on_fun:
  assumes "join_on P join"
  shows "join_on (fun_good P) (fun_join join)"
proof
  fix f g h :: "'b \<Rightarrow> 'a"
  show "fun_good P (fun_join join f g)" if "fun_good P f" "fun_good P g"
    using that join_on.good_join [OF assms] by (simp add: fun_good_def fun_join_def)
  show "fun_join join f g = fun_join join g f" if "fun_good P f" "fun_good P g"
    using that join_on.commute [OF assms] by (simp add: fun_good_def fun_join_def fun_eq_iff)
  show "fun_join join (fun_join join f g) h = fun_join join f (fun_join join g h)"
    if "fun_good P f" "fun_good P g" "fun_good P h"
    using that join_on.assoc [OF assms] by (simp add: fun_good_def fun_join_def fun_eq_iff)
  show "fun_join join f f = f" if "fun_good P f"
    using that join_on.idem [OF assms] by (simp add: fun_good_def fun_join_def fun_eq_iff)
qed

text \<open>The later of two values under a total order of their keys; ties between different values are excluded.\<close>

definition later :: "('k \<Rightarrow> 'k \<Rightarrow> bool) \<Rightarrow> ('a \<Rightarrow> 'k) \<Rightarrow> 'a \<Rightarrow> 'a \<Rightarrow> 'a" where
  "later le key a b = (if le (key b) (key a) then a else b)"

lemma join_on_later:
  fixes le :: "'k \<Rightarrow> 'k \<Rightarrow> bool" and key :: "'a \<Rightarrow> 'k" and good :: "'a \<Rightarrow> bool"
  assumes total: "\<And>x y. le x y \<or> le y x" and trans: "\<And>x y z. le x y \<Longrightarrow> le y z \<Longrightarrow> le x z"
    and antisym: "\<And>x y. le x y \<Longrightarrow> le y x \<Longrightarrow> x = y"
    and pinned: "\<And>a b. good a \<Longrightarrow> good b \<Longrightarrow> key a = key b \<Longrightarrow> a = b"
  shows "join_on good (later le key)"
proof
  fix a b c :: 'a
  show "good (later le key a b)" if "good a" "good b" using that by (simp add: later_def)
  show "later le key a b = later le key b a" if "good a" "good b"
    using that total [of "key a" "key b"] antisym [of "key a" "key b"] pinned by (auto simp: later_def)
  show "later le key (later le key a b) c = later le key a (later le key b c)"
    using total [of "key a" "key b"] total [of "key b" "key c"] trans [of "key c" "key b" "key a"]
      trans [of "key b" "key a" "key c"] trans [of "key a" "key b" "key c"] trans [of "key b" "key c" "key a"]
    by (auto simp: later_def)
  show "later le key a a = a" using total by (simp add: later_def)
qed

end
