(* ===== verification/Floor_Lattice.thy ===== *)
theory Floor_Lattice
  imports Floor_Log Join_Semilattice
begin

text \<open>
  The joins of the floor are joins in the sense of \<open>Join_Semilattice\<close>: on the view of a floor in which maps
  are functions, the joined value of every coordinate is the later of two, a maximum, or a lifted join. What
  a version and a hash of signed bytes determine (here the epoch) is an argument \<open>epoch_of\<close>.
\<close>

section \<open>The order of evidence\<close>

definition evidence_le :: "int \<times> ustr \<Rightarrow> int \<times> ustr \<Rightarrow> bool" where
  "evidence_le a b \<longleftrightarrow> fst a < fst b \<or> fst a = fst b \<and> (snd a = snd b \<or> units_less (snd a) (snd b))"

declare units_less_irrefl [simp]

lemma evidence_le_order:
  "evidence_le x y \<or> evidence_le y x"
  "evidence_le x y \<Longrightarrow> evidence_le y z \<Longrightarrow> evidence_le x z"
  "evidence_le x y \<Longrightarrow> evidence_le y x \<Longrightarrow> x = y"
proof -
  show "evidence_le x y \<or> evidence_le y x" using units_less_total [of "snd x" "snd y"] by (auto simp: evidence_le_def)
  show "evidence_le x z" if "evidence_le x y" "evidence_le y z"
    using that units_less_trans [of "snd x" "snd y" "snd z"] by (auto simp: evidence_le_def)
  show "x = y" if "evidence_le x y" "evidence_le y x"
    using that units_less_asym [of "snd x" "snd y"] by (auto simp: evidence_le_def prod_eq_iff)
qed

lemmas join_on_later_evidence = join_on_later [of evidence_le, OF evidence_le_order]

lemma joinVersioned_later:
  "fst (joinVersioned a b conflict) = later evidence_le (\<lambda>e. (ev_version e, ev_hashHex e)) a b"
  using units_less_total [of "ev_hashHex a" "ev_hashHex b"] units_less_asym [of "ev_hashHex a" "ev_hashHex b"]
  by (auto simp: joinVersioned_def later_def evidence_le_def)

section \<open>Coordinates\<close>

definition head_key :: "chain_head_floor \<Rightarrow> int \<times> ustr" where
  "head_key h = (hf_seq h, hf_hashHex h)"

definition head_join :: "chain_head_floor \<Rightarrow> chain_head_floor \<Rightarrow> chain_head_floor" where
  "head_join = later evidence_le head_key"

lemma join_on_head: "join_on (\<lambda>_. True) head_join"
  unfolding head_join_def by (rule join_on_later_evidence) (auto simp: head_key_def intro: chain_head_floor.equality)

lemma joinChainHead_view: "Some (fst (joinChainHead existing incoming)) = option_join head_join existing (Some incoming)"
  by (cases existing) (auto simp: joinChainHead_def head_join_def joinVersioned_later later_def head_key_def case_prod_beta
      intro: chain_head_floor.equality)

definition meta_join :: "int \<times> ustr \<Rightarrow> int \<times> ustr \<Rightarrow> int \<times> ustr" where
  "meta_join = later evidence_le id"

lemma join_on_meta: "join_on (\<lambda>_. True) meta_join"
  unfolding meta_join_def by (rule join_on_later_evidence) (auto simp: id_def)

lemma joinMetaSide_view: "fst (joinMetaSide env var a b) = meta_join a b"
  by (simp add: joinMetaSide_def meta_join_def joinVersioned_later later_def case_prod_beta)

text \<open>A value observation: version, hash and epoch.\<close>

definition value_key :: "int \<times> ustr \<times> int \<Rightarrow> int \<times> ustr" where
  "value_key v = (fst v, fst (snd v))"

definition value_good :: "(int \<times> ustr \<Rightarrow> int) \<Rightarrow> int \<times> ustr \<times> int \<Rightarrow> bool" where
  "value_good epoch_of v \<longleftrightarrow> snd (snd v) = epoch_of (value_key v)"

definition value_join :: "int \<times> ustr \<times> int \<Rightarrow> int \<times> ustr \<times> int \<Rightarrow> int \<times> ustr \<times> int" where
  "value_join = later evidence_le value_key"

lemma join_on_value: "join_on (value_good epoch_of) value_join"
  unfolding value_join_def by (rule join_on_later_evidence) (auto simp: value_good_def value_key_def)

definition manifest_key :: "manifest_floor \<Rightarrow> int \<times> ustr" where
  "manifest_key m = (mf_manifestVersion m, mf_manifestSigHashHex m)"

definition manifest_good :: "(int \<times> ustr \<Rightarrow> int) \<Rightarrow> manifest_floor \<Rightarrow> bool" where
  "manifest_good epoch_of m \<longleftrightarrow> mf_epoch m = epoch_of (manifest_key m)"

definition manifest_join :: "manifest_floor \<Rightarrow> manifest_floor \<Rightarrow> manifest_floor" where
  "manifest_join = later evidence_le manifest_key"

lemma join_on_manifest: "join_on (manifest_good epoch_of) manifest_join"
  unfolding manifest_join_def
  by (rule join_on_later_evidence) (auto simp: manifest_good_def manifest_key_def intro: manifest_floor.equality)

lemma joinManifestFloor_view: "fst (joinManifestFloor env a b) = option_join manifest_join a b"
  by (cases a; cases b) (auto simp: joinManifestFloor_def manifest_join_def joinVersioned_later later_def manifest_key_def
      case_prod_beta intro: manifest_floor.equality)

section \<open>Variables\<close>

fun value_of :: "variable_floor \<Rightarrow> (int \<times> ustr \<times> int) option" where
  "value_of (Active_Floor v e h mv mh) = Some (v, h, e)"
| "value_of _ = None"

fun live_floor :: "(int \<times> ustr \<times> int) option \<Rightarrow> int \<times> ustr \<Rightarrow> variable_floor" where
  "live_floor None m = Declared_Floor (fst m) (snd m)"
| "live_floor (Some (v, h, e)) m = Active_Floor v e h (fst m) (snd m)"

definition variable_join :: "variable_floor \<Rightarrow> variable_floor \<Rightarrow> variable_floor" where
  "variable_join a b =
     (if is_Deleted_Floor a \<and> is_Deleted_Floor b
      then Deleted_Floor (fst (meta_join (meta_of a) (meta_of b))) (snd (meta_join (meta_of a) (meta_of b)))
      else if is_Deleted_Floor a then a else if is_Deleted_Floor b then b
      else live_floor (option_join value_join (value_of a) (value_of b)) (meta_join (meta_of a) (meta_of b)))"

definition variable_good :: "(int \<times> ustr \<Rightarrow> int) \<Rightarrow> variable_floor \<Rightarrow> bool" where
  "variable_good epoch_of f \<longleftrightarrow> pred_option (value_good epoch_of) (value_of f)"

lemma live_floor_simps [simp]:
  "value_of (live_floor v m) = v" "meta_of (live_floor v m) = m" "\<not> is_Deleted_Floor (live_floor v m)"
  "meta_of (Deleted_Floor n h) = (n, h)"
  by (cases v; force simp: meta_of_def)+

lemma live_floor_id: "\<not> is_Deleted_Floor f \<Longrightarrow> live_floor (value_of f) (meta_of f) = f"
  by (cases f) (simp_all add: meta_of_def)

lemma deleted_floor_id: "is_Deleted_Floor f \<Longrightarrow> Deleted_Floor (fst (meta_of f)) (snd (meta_of f)) = f"
  by (cases f) (simp_all add: meta_of_def)

lemma joinLive_view:
  "\<not> is_Deleted_Floor a \<Longrightarrow> \<not> is_Deleted_Floor b \<Longrightarrow> fst (joinLiveVariableFloor env var a b) = variable_join a b"
  by (cases a; cases b) (auto simp: variable_join_def case_prod_beta joinMetaSide_view joinVersioned_later later_def
      value_join_def value_key_def meta_of_def)

lemma joinVariableFloor_view:
  "Some (fst (joinVariableFloor env var existing incoming)) = option_join variable_join existing (Some incoming)"
proof (cases existing)
  case (Some f)
  then show ?thesis
    using joinLive_view [of f incoming env var]
    by (auto simp: joinVariableFloor_def joinDeletedWithLive_def variable_join_def case_prod_beta joinMetaSide_view)
qed (simp add: joinVariableFloor_def)

lemma join_on_variable: "join_on (variable_good epoch_of) variable_join"
proof
  note opt = join_on_option [OF join_on_value [of epoch_of]]
  fix a b c :: variable_floor
  show "variable_good epoch_of (variable_join a b)" if "variable_good epoch_of a" "variable_good epoch_of b"
    using that join_on.good_join [OF opt] by (auto simp: variable_good_def variable_join_def)
  show "variable_join a b = variable_join b a" if "variable_good epoch_of a" "variable_good epoch_of b"
    using that join_on.commute [OF opt, of "value_of a" "value_of b"] join_on.commute [OF join_on_meta, of "meta_of a" "meta_of b"]
    by (auto simp: variable_good_def variable_join_def)
  show "variable_join (variable_join a b) c = variable_join a (variable_join b c)"
    if "variable_good epoch_of a" "variable_good epoch_of b" "variable_good epoch_of c"
    using that join_on.assoc [OF opt, of "value_of a" "value_of b" "value_of c"]
      join_on.assoc [OF join_on_meta, of "meta_of a" "meta_of b" "meta_of c"]
    by (cases "is_Deleted_Floor a"; cases "is_Deleted_Floor b"; cases "is_Deleted_Floor c")
      (simp_all add: variable_good_def variable_join_def)
  show "variable_join a a = a" if "variable_good epoch_of a"
    using that join_on.idem [OF opt, of "value_of a"] join_on.idem [OF join_on_meta, of "meta_of a"]
    by (auto simp: variable_good_def variable_join_def live_floor_id deleted_floor_id)
qed

section \<open>Environments\<close>

type_synonym environment_view =
  "int \<times> int \<times> (int \<times> ustr) \<times> manifest_floor option \<times> (variable_id \<Rightarrow> variable_floor option)"

definition env_view :: "environment_floor \<Rightarrow> environment_view" where
  "env_view f =
     (ef_pullEpoch f, ef_observedEpoch f, (ef_metaVersion f, ef_metaSigHashHex f), ef_manifest f, map_of (ef_variables f))"

definition env_join :: "environment_view \<Rightarrow> environment_view \<Rightarrow> environment_view" where
  "env_join = pair_join max (pair_join max (pair_join meta_join
     (pair_join (option_join manifest_join) (fun_join (option_join variable_join)))))"

definition meta_bottom_ok :: "int \<times> ustr \<Rightarrow> bool" where
  "meta_bottom_ok m \<longleftrightarrow> 0 \<le> fst m \<and> (fst m = 0 \<longrightarrow> snd m = [])"

definition env_good :: "(int \<times> ustr \<Rightarrow> int) \<Rightarrow> environment_view \<Rightarrow> bool" where
  "env_good epoch_of = pair_good (\<lambda>_. True) (pair_good (\<lambda>_. True) (pair_good meta_bottom_ok
     (pair_good (pred_option (manifest_good epoch_of)) (fun_good (pred_option (variable_good epoch_of))))))"

lemma join_on_max: "join_on (\<lambda>_. True) (max :: int \<Rightarrow> int \<Rightarrow> int)"
  by standard (simp_all add: max.commute max.assoc)

lemma join_on_meta_bottom: "join_on meta_bottom_ok meta_join"
  unfolding meta_join_def by (rule join_on_later_evidence) (auto simp: id_def)

lemma join_on_env: "join_on (env_good epoch_of) env_join"
  unfolding env_good_def env_join_def
  by (intro join_on_pair join_on_max join_on_meta_bottom join_on_option join_on_manifest join_on_fun join_on_variable)

lemma join_variables_view:
  "keys_ok incoming \<Longrightarrow>
   map_of (fst (join_variables env existing incoming acc)) k =
     (case map_of incoming k of None \<Rightarrow> map_of acc k
      | Some v \<Rightarrow> option_join variable_join (map_of existing k) (Some v))"
proof (induction incoming arbitrary: acc)
  case (Cons p incoming)
  obtain key v where p: "p = (key, v)" by (cases p)
  have keys: "keys_ok incoming" "key \<notin> fst ` set incoming" using Cons.prems by (simp_all add: keys_ok_def p)
  then have "map_of incoming key = None" by (simp add: map_of_eq_None_iff)
  with Cons.IH [OF keys(1)] show ?case
    by (auto simp: p case_prod_beta joinVariableFloor_view split: option.split)
qed simp

lemma meta_bottom_join:
  "meta_bottom_ok a \<Longrightarrow> meta_bottom_ok b \<Longrightarrow>
   (if fst a = 0 then b else if fst b = 0 then a else meta_join a b) = meta_join a b"
  by (cases a; cases b) (auto simp: meta_join_def later_def evidence_le_def meta_bottom_ok_def)

lemma joinEnvironmentFloor_view:
  assumes "env_good epoch_of (env_view f)" and "env_good epoch_of (env_view g)" and "keys_ok (ef_variables g)"
  shows "env_view (fst (joinEnvironmentFloor env (Some f) g)) = env_join (env_view f) (env_view g)"
proof -
  have "meta_bottom_ok (ef_metaVersion f, ef_metaSigHashHex f)" "meta_bottom_ok (ef_metaVersion g, ef_metaSigHashHex g)"
    using assms(1,2) by (simp_all add: env_good_def pair_good_def env_view_def)
  from meta_bottom_join [OF this]
  have m: "(if ef_metaVersion f = 0 then (ef_metaVersion g, ef_metaSigHashHex g)
      else if ef_metaVersion g = 0 then (ef_metaVersion f, ef_metaSigHashHex f)
      else meta_join (ef_metaVersion f, ef_metaSigHashHex f) (ef_metaVersion g, ef_metaSigHashHex g)) =
      meta_join (ef_metaVersion f, ef_metaSigHashHex f) (ef_metaVersion g, ef_metaSigHashHex g)"
    by (simp only: fst_conv)
  have meta: "fst (if ef_metaVersion f = 0 then ((ef_metaVersion g, ef_metaSigHashHex g), [])
      else if ef_metaVersion g = 0 then ((ef_metaVersion f, ef_metaSigHashHex f), [])
      else joinMetaSide env None (ef_metaVersion f, ef_metaSigHashHex f) (ef_metaVersion g, ef_metaSigHashHex g)) =
      meta_join (ef_metaVersion f, ef_metaSigHashHex f) (ef_metaVersion g, ef_metaSigHashHex g)"
    by (subst m [symmetric]) (simp add: joinMetaSide_view)
  have variables: "map_of (fst (join_variables env (ef_variables f) (ef_variables g) (ef_variables f))) =
      fun_join (option_join variable_join) (map_of (ef_variables f)) (map_of (ef_variables g))"
    by (rule ext) (simp add: join_variables_view [OF assms(3)] fun_join_def split: option.split)
  show ?thesis
    by (simp add: joinEnvironmentFloor_def env_view_def env_join_def pair_join_def case_prod_beta variables
        joinManifestFloor_view meta)
qed

section \<open>Projects\<close>

type_synonym project_view = "chain_head_floor option \<times> (environment_id \<Rightarrow> environment_view option)"

definition floor_view :: "project_floor \<Rightarrow> project_view" where
  "floor_view floor = (pf_chainHead floor, map_option env_view \<circ> map_of (pf_environments floor))"

definition state_view :: "fold_state \<Rightarrow> project_view" where
  "state_view s = (fs_chainHead s, map_option env_view \<circ> map_of (fs_environments s))"

definition project_join :: "project_view \<Rightarrow> project_view \<Rightarrow> project_view" where
  "project_join = pair_join (option_join head_join) (fun_join (option_join env_join))"

definition project_good :: "(int \<times> ustr \<Rightarrow> int) \<Rightarrow> project_view \<Rightarrow> bool" where
  "project_good epoch_of = pair_good (pred_option (\<lambda>_. True)) (fun_good (pred_option (env_good epoch_of)))"

interpretation projects: join_on "project_good epoch_of" project_join for epoch_of
  unfolding project_good_def project_join_def
  by (intro join_on_pair join_on_option join_on_head join_on_fun join_on_env)

text \<open>What a record adds to the view.\<close>

fun record_environment :: "floor_log_record \<Rightarrow> (environment_id \<times> environment_floor) option" where
  "record_environment (Pull_Record head env environment) = Some (env, environment)"
| "record_environment (Push_Record head env var variable) = Some (env, emptyEnvironmentFloor\<lparr>ef_variables := [(var, variable)]\<rparr>)"
| "record_environment (Meta_Record head env observedEpoch metaVersion metaSigHashHex manifest) =
     Some (env, emptyEnvironmentFloor\<lparr>ef_observedEpoch := observedEpoch, ef_metaVersion := metaVersion,
       ef_metaSigHashHex := metaSigHashHex, ef_manifest := Some manifest\<rparr>)"
| "record_environment (Manifest_Record head env manifest) =
     Some (env, emptyEnvironmentFloor\<lparr>ef_observedEpoch := mf_epoch manifest, ef_manifest := Some manifest\<rparr>)"
| "record_environment _ = None"

fun record_head :: "floor_log_record \<Rightarrow> chain_head_floor option" where
  "record_head (Head_Record head) = Some head"
| "record_head (Pull_Record head env environment) = Some head"
| "record_head (Push_Record head env var variable) = Some head"
| "record_head (Meta_Record head env observedEpoch metaVersion metaSigHashHex manifest) = Some head"
| "record_head (Manifest_Record head env manifest) = Some head"
| "record_head _ = None"

definition record_view :: "floor_log_record \<Rightarrow> project_view" where
  "record_view r =
     (record_head r, case record_environment r of None \<Rightarrow> (\<lambda>_. None) | Some (env, e) \<Rightarrow> [env \<mapsto> env_view e])"

lemma sink_conflicts_view [simp]: "state_view (sink_conflicts cs s) = state_view s"
  unfolding sink_conflicts_def by (induction cs arbitrary: s) (simp_all add: addConflict_def state_view_def)

lemma sink_conflicts_fields [simp]:
  "fs_chainHead (sink_conflicts cs s) = fs_chainHead s" "fs_environments (sink_conflicts cs s) = fs_environments s"
  "fs_intents (sink_conflicts cs s) = fs_intents s"
  unfolding sink_conflicts_def by (induction cs arbitrary: s) (simp_all add: addConflict_def)

lemma joinHeadInto_view:
  "state_view (joinHeadInto s head) = project_join (state_view s) (Some head, \<lambda>_. None)"
proof -
  have "option_join head_join (fs_chainHead s) (Some head) = Some (fst (joinChainHead (fs_chainHead s) head))"
    by (simp only: joinChainHead_view)
  then show ?thesis
    by (simp add: joinHeadInto_def case_prod_beta project_join_def pair_join_def fun_join_def state_view_def fun_eq_iff)
qed

lemma joinEnvironmentInto_view:
  assumes "project_good epoch_of (state_view s)" and "env_good epoch_of (env_view e)" and "keys_ok (ef_variables e)"
  shows "state_view (joinEnvironmentInto s env e) = project_join (state_view s) (None, [env \<mapsto> env_view e])"
proof -
  have joined: "Some (env_view (fst (joinEnvironmentFloor env (map_of (fs_environments s) env) e))) =
      option_join env_join (map_option env_view (map_of (fs_environments s) env)) (Some (env_view e))"
  proof (cases "map_of (fs_environments s) env")
    case (Some f)
    with assms(1) have "env_good epoch_of (env_view f)"
      by (auto simp: project_good_def pair_good_def fun_good_def state_view_def dest: spec [of _ env])
    with Some joinEnvironmentFloor_view [OF this assms(2,3)] show ?thesis by simp
  qed (simp add: joinEnvironmentFloor_def)
  show ?thesis
    using joined by (auto simp: joinEnvironmentInto_def case_prod_beta project_join_def pair_join_def fun_join_def
        state_view_def fun_eq_iff)
qed

definition record_keys_ok :: "floor_log_record \<Rightarrow> bool" where
  "record_keys_ok r \<longleftrightarrow> (\<forall>env e. record_environment r = Some (env, e) \<longrightarrow> keys_ok (ef_variables e))"

lemma valid_record_keys: "valid_record r \<Longrightarrow> record_keys_ok r"
  by (cases r) (auto simp: record_keys_ok_def valid_environment_def emptyEnvironmentFloor_def)

lemma project_good_parts:
  "project_good epoch_of (h, \<lambda>_. None)"
  "project_good epoch_of (h, [env \<mapsto> v]) \<longleftrightarrow> env_good epoch_of v"
  by (cases h; auto simp: project_good_def pair_good_def fun_good_def)+

lemma fun_join_nothing [simp]:
  "fun_join (option_join join) (\<lambda>_. None) m = m" "fun_join (option_join join) m (\<lambda>_. None) = m"
  by (simp_all add: fun_join_def fun_eq_iff)

lemma project_join_parts: "project_join (Some h, \<lambda>_. None) (None, m) = (Some h, m)"
  by (simp add: project_join_def pair_join_def)

lemma join_head_and_environment:
  assumes "project_good epoch_of (state_view s)" and "env_good epoch_of (env_view e)" and "keys_ok (ef_variables e)"
  shows "state_view (joinEnvironmentInto (joinHeadInto s head) env e) =
    project_join (state_view s) (Some head, [env \<mapsto> env_view e])"
proof -
  have "project_good epoch_of (state_view (joinHeadInto s head))"
    unfolding joinHeadInto_view by (intro projects.good_join assms(1) project_good_parts(1))
  from joinEnvironmentInto_view [OF this assms(2,3)]
  have "state_view (joinEnvironmentInto (joinHeadInto s head) env e) =
      project_join (project_join (state_view s) (Some head, \<lambda>_. None)) (None, [env \<mapsto> env_view e])"
    by (simp only: joinHeadInto_view)
  also have "\<dots> = project_join (state_view s) (Some head, [env \<mapsto> env_view e])"
    using assms(1,2) by (subst projects.assoc) (auto simp: project_good_parts project_join_parts)
  finally show ?thesis .
qed

lemma project_join_nothing: "project_join v (None, \<lambda>_. None) = v"
  by (cases v) (simp add: project_join_def pair_join_def)

lemma applyRecord_view:
  assumes "project_good epoch_of (state_view s)" and "project_good epoch_of (record_view r)" and "record_keys_ok r"
  shows "state_view (applyRecord s r) = project_join (state_view s) (record_view r)"
proof (cases "record_environment r")
  case None
  then show ?thesis
    by (cases r) (simp_all add: record_view_def joinHeadInto_view project_join_nothing, simp_all add: state_view_def)
next
  case (Some p)
  obtain env e where p: "p = (env, e)" by (cases p)
  have "env_good epoch_of (env_view e)" "keys_ok (ef_variables e)"
    using assms(2,3) Some by (auto simp: p record_view_def project_good_parts record_keys_ok_def)
  from join_head_and_environment [OF assms(1) this] Some show ?thesis
    by (cases r) (auto simp: p record_view_def)
qed

lemma fold_view:
  "project_good epoch_of (state_view s) \<Longrightarrow> list_all (\<lambda>r. project_good epoch_of (record_view r) \<and> record_keys_ok r) rs \<Longrightarrow>
   state_view (foldl applyRecord s rs) = foldl project_join (state_view s) (map record_view rs)"
proof (induction rs arbitrary: s)
  case (Cons r rs)
  then have r: "project_good epoch_of (record_view r)" "record_keys_ok r" by simp_all
  from applyRecord_view [OF Cons.prems(1) this]
  have step: "state_view (applyRecord s r) = project_join (state_view s) (record_view r)" .
  then have "project_good epoch_of (state_view (applyRecord s r))"
    using Cons.prems(1) r(1) by (simp add: projects.good_join)
  with Cons step show ?case by simp
qed simp

end
