(* ===== verification/Floor_File.thy ===== *)
theory Floor_File
  imports Floor_Lattice
begin

text \<open>
  The floor's file as processes leave it: each write is one append, whole or cut off, of observations or
  of a snapshot taken from the file as some earlier write left it. The records of such a file, and that
  folding from its latest snapshot gives what folding every record gives.
\<close>

definition codec_ok :: "floor_codec \<Rightarrow> bool" where
  "codec_ok codec \<longleftrightarrow>
     (\<forall>r. codec_decode codec (codec_encode codec r) = (if valid_record r then Some r else None) \<and>
          newline \<notin> set (codec_encode codec r) \<and> \<not> blank_line (codec_encode codec r) \<and>
          (\<forall>n < length (codec_encode codec r). codec_decode codec (take n (codec_encode codec r)) = None))"

fun snapshot_record :: "floor_log_record \<Rightarrow> bool" where
  "snapshot_record (Snapshot_Record folded snapshot) \<longleftrightarrow> True"
| "snapshot_record _ \<longleftrightarrow> False"

inductive floor_file :: "floor_codec \<Rightarrow> ustr list \<Rightarrow> bool" for codec where
  Created: "floor_file codec []"
| Appended: "floor_file codec writes \<Longrightarrow> list_all (\<lambda>r. \<not> snapshot_record r) records \<Longrightarrow>
    floor_file codec (writes @ [take n (append_payload codec records)])"
| Compacted: "floor_file codec writes \<Longrightarrow> k \<le> length writes \<Longrightarrow>
    floor_file codec
      (writes @ [take n (append_payload codec [snapshot_of (readAndFold codec (concat (take k writes)))])])"

definition file_records :: "floor_codec \<Rightarrow> ustr \<Rightarrow> floor_log_record list" where
  "file_records codec raw = List.map_filter (codec_decode codec) (filter (\<lambda>line. \<not> blank_line line) (split_lines raw))"

section \<open>Lines\<close>

lemma split_lines_not_Nil [simp]: "split_lines s \<noteq> []"
  by (induction s) (auto split: list.split)

lemma split_lines_append_newline: "split_lines (a @ newline # b) = split_lines a @ split_lines b"
proof (induction a)
  case (Cons u a)
  then show ?case by (auto split: list.split)
qed simp

lemma split_lines_single: "newline \<notin> set a \<Longrightarrow> split_lines a = [a]"
  by (induction a) auto

lemma parse_records: "fst (parseLogLines decode lines count) = List.map_filter decode (filter (\<lambda>line. \<not> blank_line line) lines)"
  by (induction lines arbitrary: count) (auto simp: List.map_filter_simps case_prod_beta split: option.split)

lemma map_filter_append: "List.map_filter f (xs @ ys) = List.map_filter f xs @ List.map_filter f ys"
  by (simp add: List.map_filter_def)

lemma file_records_append: "file_records codec (a @ newline # b) = file_records codec a @ file_records codec b"
  by (simp add: file_records_def split_lines_append_newline map_filter_append)

lemma file_records_empty: "file_records codec [] = []"
  by (simp add: file_records_def blank_line_def List.map_filter_simps)

text \<open>What a write that may be cut off leaves: the valid ones among its first records.\<close>

lemma cut_line:
  assumes "codec_ok codec" and "n \<le> length (codec_encode codec r)"
  shows "file_records codec (take n (codec_encode codec r)) =
    (if n = length (codec_encode codec r) \<and> valid_record r then [r] else [])"
proof -
  have "newline \<notin> set (take n (codec_encode codec r))"
    using assms(1) by (auto simp: codec_ok_def dest: in_set_takeD)
  then have "file_records codec (take n (codec_encode codec r)) =
      List.map_filter (codec_decode codec) (filter (\<lambda>line. \<not> blank_line line) [take n (codec_encode codec r)])"
    by (simp add: file_records_def split_lines_single)
  moreover have "codec_decode codec (take n (codec_encode codec r)) =
      (if n = length (codec_encode codec r) \<and> valid_record r then Some r else None)"
    using assms by (cases "n = length (codec_encode codec r)") (simp_all add: codec_ok_def)
  moreover have "\<not> blank_line (codec_encode codec r)" using assms(1) by (simp add: codec_ok_def)
  ultimately show ?thesis
    by (cases "n = length (codec_encode codec r)"; cases "blank_line (take n (codec_encode codec r))")
      (simp_all add: List.map_filter_def)
qed

lemma cut_records:
  assumes "codec_ok codec"
  shows "\<exists>j. file_records codec (take n (concat (map (encodeRecord codec) records))) = filter valid_record (take j records)"
proof (induction records arbitrary: n)
  case Nil
  then show ?case by (simp add: file_records_empty)
next
  case (Cons r records)
  let ?e = "codec_encode codec r"
  show ?case
  proof (cases "n \<le> length ?e")
    case True
    then have "file_records codec (take n (concat (map (encodeRecord codec) (r # records)))) =
        (if n = length ?e \<and> valid_record r then [r] else [])"
      using cut_line [OF assms True] by (simp add: encodeRecord_def)
    then have "\<dots> = filter valid_record (take (if n = length ?e then 1 else 0) (r # records))" by simp
    with \<open>file_records codec _ = _\<close> show ?thesis by metis
  next
    case False
    then obtain m where n: "n = length ?e + Suc m" by (metis add_Suc_right less_iff_Suc_add not_le)
    from Cons.IH obtain j where j: "file_records codec (take m (concat (map (encodeRecord codec) records))) =
        filter valid_record (take j records)" by blast
    have "file_records codec ?e = (if valid_record r then [r] else [])"
      using cut_line [OF assms order_refl, of r] by simp
    then have "file_records codec (take n (concat (map (encodeRecord codec) (r # records)))) =
        filter valid_record (take (Suc j) (r # records))"
      using j by (simp add: n encodeRecord_def file_records_append)
    then show ?thesis by blast
  qed
qed

lemma written_records:
  assumes "codec_ok codec"
  obtains j where "file_records codec (raw @ take n (append_payload codec records)) =
    file_records codec raw @ filter valid_record (take j records)"
proof (cases n)
  case 0
  then show ?thesis using that [of 0] by simp
next
  case (Suc m)
  from cut_records [OF assms] obtain j where
    "file_records codec (take m (concat (map (encodeRecord codec) records))) = filter valid_record (take j records)" by blast
  with Suc that [of j] show ?thesis by (simp add: append_payload_def file_records_append)
qed

section \<open>Snapshots\<close>

text \<open>The maps of a fold state are keyed by their values, so a floor determines its state.\<close>

definition state_shape :: "fold_state \<Rightarrow> bool" where
  "state_shape s \<longleftrightarrow>
     keys_ok (fs_environments s) \<and>
     keys_ok (fs_conflicts s) \<and> (\<forall>(k, c) \<in> set (fs_conflicts s). k = conflictKey c) \<and>
     keys_ok (fs_intents s) \<and> (\<forall>(k, i) \<in> set (fs_intents s). k = intent_id i)"

lemma set_update_sub: "set (AList.update k v m) \<subseteq> insert (k, v) (set m)"
  by (induction m) auto

lemma set_delete_sub: "set (AList.delete k m) \<subseteq> set m"
  by (auto simp: AList.delete_eq)

lemma addConflict_shape: "state_shape s \<Longrightarrow> state_shape (addConflict c s)"
  using set_update_sub [of "conflictKey c" c "fs_conflicts s"] by (auto simp: state_shape_def addConflict_def)

lemma sink_conflicts_shape: "state_shape s \<Longrightarrow> state_shape (sink_conflicts cs s)"
  unfolding sink_conflicts_def by (induction cs arbitrary: s) (simp_all add: addConflict_shape)

lemma joinHeadInto_shape: "state_shape s \<Longrightarrow> state_shape (joinHeadInto s head)"
  unfolding joinHeadInto_def case_prod_beta Let_def by (rule sink_conflicts_shape) (simp add: state_shape_def)

lemma joinEnvironmentInto_shape: "state_shape s \<Longrightarrow> state_shape (joinEnvironmentInto s env e)"
  unfolding joinEnvironmentInto_def case_prod_beta Let_def by (rule sink_conflicts_shape) (simp add: state_shape_def)

lemma applyRecord_shape: "state_shape s \<Longrightarrow> state_shape (applyRecord s r)"
proof (cases r)
  case (Intent_Record intent)
  then show "state_shape s \<Longrightarrow> state_shape (applyRecord s r)"
    using set_update_sub [of "intent_id intent" intent "fs_intents s"] by (auto simp: state_shape_def)
next
  case (Resolution_Record intentId outcome)
  then show "state_shape s \<Longrightarrow> state_shape (applyRecord s r)"
    using set_delete_sub [of intentId "fs_intents s"] by (auto simp: state_shape_def)
qed (simp_all add: joinHeadInto_shape joinEnvironmentInto_shape)

lemma empty_fold_shape: "state_shape empty_fold"
  by (simp add: state_shape_def empty_fold_def)

lemma fold_shape: "state_shape s \<Longrightarrow> state_shape (foldl applyRecord s rs)"
  by (induction rs arbitrary: s) (simp_all add: applyRecord_shape)

lemma rebuild_map: "keys_ok (acc @ m) \<Longrightarrow> foldl (\<lambda>m (k, v). AList.update k v m) acc m = acc @ m"
proof (induction m arbitrary: acc)
  case (Cons p m)
  obtain k v where p: "p = (k, v)" by (cases p)
  have "k \<notin> fst ` set acc" using Cons.prems by (auto simp: keys_ok_def p)
  moreover have "keys_ok ((acc @ [p]) @ m)" using Cons.prems by simp
  from Cons.IH [OF this] calculation show ?case by (simp add: p update_fresh)
qed simp

lemma rebuild_values:
  assumes "\<forall>(k, v) \<in> set m. k = key v"
  shows "foldl (\<lambda>m v. AList.update (key v) v m) acc (map snd m) = foldl (\<lambda>m (k, v). AList.update k v m) acc m"
  using assms by (induction m arbitrary: acc) auto

lemma rebuild_conflicts:
  "keys_ok (fs_conflicts s @ m) \<Longrightarrow> \<forall>(k, c) \<in> set m. k = conflictKey c \<Longrightarrow>
   sink_conflicts (map snd m) s = s\<lparr>fs_conflicts := fs_conflicts s @ m\<rparr>"
proof (induction m arbitrary: s)
  case (Cons p m)
  obtain k c where p: "p = (k, c)" by (cases p)
  have k: "k = conflictKey c" and fresh: "conflictKey c \<notin> fst ` set (fs_conflicts s)"
    using Cons.prems by (auto simp: keys_ok_def p)
  then have "addConflict c s = s\<lparr>fs_conflicts := fs_conflicts s @ [(k, c)]\<rparr>"
    by (simp add: addConflict_def update_fresh map_of_eq_None_iff [symmetric] map_has_def)
  with Cons.IH [of "addConflict c s"] Cons.prems show ?case by (simp add: p sink_conflicts_def)
qed (simp add: sink_conflicts_def)

lemma baseStateOf_snapshot:
  assumes "state_shape s"
  shows "baseStateOf (Some (floor_of_state s)) = s"
proof -
  from assms have shape: "keys_ok (fs_environments s)" "keys_ok (fs_conflicts s)" "keys_ok (fs_intents s)"
    "\<forall>(k, c) \<in> set (fs_conflicts s). k = conflictKey c" "\<forall>(k, i) \<in> set (fs_intents s). k = intent_id i"
    by (simp_all add: state_shape_def)
  have intents: "foldl (\<lambda>m i. AList.update (intent_id i) i m) [] (map snd (fs_intents s)) = fs_intents s"
    using rebuild_values [of "fs_intents s" intent_id "[]"] rebuild_map [of "[]" "fs_intents s"] shape(3,5) by simp
  show ?thesis
    using rebuild_map [of "[]" "fs_environments s"] shape
    by (simp add: baseStateOf_def floor_of_state_def intents rebuild_conflicts)
qed

section \<open>Folding from the latest snapshot\<close>

definition snapshots_sound :: "floor_log_record list \<Rightarrow> bool" where
  "snapshots_sound rs \<longleftrightarrow> (\<forall>i folded st. i < length rs \<longrightarrow> rs ! i = Snapshot_Record folded st \<longrightarrow>
     folded \<le> i \<and> st = floor_of_state (foldl applyRecord empty_fold (take folded rs)))"

lemma latest_snapshot_Some: "latest_snapshot rs n = Some (i, folded, st) \<Longrightarrow> i < n \<and> rs ! i = Snapshot_Record folded st"
  by (induction n) (auto split: floor_log_record.splits)

lemma fold_from_base:
  assumes "snapshots_sound rs"
  shows "foldl applyRecord (fb_state (foldBase rs)) (drop (fb_foldFrom (foldBase rs)) rs) = foldl applyRecord empty_fold rs"
proof (cases "latest_snapshot rs (length rs)")
  case None
  then show ?thesis by (simp add: foldBase_def baseStateOf_def)
next
  case (Some p)
  obtain i folded st where p: "p = (i, folded, st)" by (cases p)
  with Some latest_snapshot_Some [of rs "length rs"] assms
  have sound: "folded \<le> i" "st = floor_of_state (foldl applyRecord empty_fold (take folded rs))"
    by (auto simp: snapshots_sound_def)
  have "baseStateOf (Some st) = foldl applyRecord empty_fold (take folded rs)"
    unfolding sound(2) by (intro baseStateOf_snapshot fold_shape empty_fold_shape)
  then have "foldl applyRecord (baseStateOf (Some st)) (drop folded rs) = foldl applyRecord empty_fold rs"
    by (simp only: foldl_append [symmetric] append_take_drop_id)
  with Some sound(1) show ?thesis by (simp add: foldBase_def p)
qed

lemma readAndFold_sound:
  assumes "snapshots_sound (file_records codec raw)"
  shows "fo_floor (readAndFold codec raw) = floor_of_state (foldl applyRecord empty_fold (file_records codec raw))"
    and "fo_decodedRecords (readAndFold codec raw) = length (file_records codec raw)"
  using fold_from_base [OF assms] parse_records [of "codec_decode codec" "split_lines raw" 0]
  by (simp_all add: readAndFold_def foldRecords_def case_prod_beta Let_def file_records_def)

definition whole_or_cut :: "floor_codec \<Rightarrow> ustr \<Rightarrow> bool" where
  "whole_or_cut codec w \<longleftrightarrow> (\<exists>n rs. w = take n (append_payload codec rs))"

lemma floor_file_writes: "floor_file codec writes \<Longrightarrow> list_all (whole_or_cut codec) writes"
  by (induction rule: floor_file.induct) (auto simp: whole_or_cut_def)

lemma writes_extend:
  "codec_ok codec \<Longrightarrow> list_all (whole_or_cut codec) ws \<Longrightarrow>
   \<exists>rs. file_records codec (raw @ concat ws) = file_records codec raw @ rs"
proof (induction ws arbitrary: raw)
  case (Cons w ws)
  then obtain n records where "w = take n (append_payload codec records)" by (auto simp: whole_or_cut_def)
  moreover obtain j where "file_records codec (raw @ take n (append_payload codec records)) =
      file_records codec raw @ filter valid_record (take j records)"
    using written_records [OF Cons.prems(1)] .
  ultimately have "file_records codec (raw @ w) = file_records codec raw @ filter valid_record (take j records)" by simp
  with Cons.IH [OF Cons.prems(1), of "raw @ w"] Cons.prems(2) show ?case by auto
qed simp

lemma snapshots_sound_append:
  assumes "snapshots_sound rs" and "\<And>r folded st. r \<in> set new \<Longrightarrow> r \<noteq> Snapshot_Record folded st"
  shows "snapshots_sound (rs @ new)"
  unfolding snapshots_sound_def
proof (intro allI impI)
  fix i folded st
  assume i: "i < length (rs @ new)" "(rs @ new) ! i = Snapshot_Record folded st"
  have "i < length rs"
  proof (rule ccontr)
    assume "\<not> i < length rs"
    with i have "new ! (i - length rs) = Snapshot_Record folded st" "i - length rs < length new"
      by (simp_all add: nth_append)
    then have "Snapshot_Record folded st \<in> set new" by (metis nth_mem)
    with assms(2) show False by blast
  qed
  with i assms(1) have sound: "folded \<le> i \<and> st = floor_of_state (foldl applyRecord empty_fold (take folded rs))"
    by (simp add: snapshots_sound_def nth_append)
  with \<open>i < length rs\<close> show "folded \<le> i \<and> st = floor_of_state (foldl applyRecord empty_fold (take folded (rs @ new)))"
    by simp
qed

lemma snapshots_sound_snapshot:
  assumes "snapshots_sound (rs @ newer)" and "st = floor_of_state (foldl applyRecord empty_fold rs)"
  shows "snapshots_sound ((rs @ newer) @ [Snapshot_Record (length rs) st])"
  unfolding snapshots_sound_def
proof (intro allI impI)
  fix i folded st'
  assume i: "i < length ((rs @ newer) @ [Snapshot_Record (length rs) st])"
    "((rs @ newer) @ [Snapshot_Record (length rs) st]) ! i = Snapshot_Record folded st'"
  show "folded \<le> i \<and> st' = floor_of_state (foldl applyRecord empty_fold
      (take folded ((rs @ newer) @ [Snapshot_Record (length rs) st])))"
  proof (cases "i < length (rs @ newer)")
    case True
    with i(2) have "(rs @ newer) ! i = Snapshot_Record folded st'" by (simp only: nth_append if_True)
    with assms(1) True have "folded \<le> i \<and> st' = floor_of_state (foldl applyRecord empty_fold (take folded (rs @ newer)))"
      unfolding snapshots_sound_def by blast
    with True show ?thesis by simp
  next
    case False
    with i have "i = length (rs @ newer)" by simp
    with i(2) have "folded = length rs" "st' = st" by simp_all
    with assms(2) \<open>i = _\<close> show ?thesis by simp
  qed
qed

lemma floor_file_sound_upto:
  assumes "codec_ok codec" and "floor_file codec writes"
  shows "snapshots_sound (file_records codec (concat (take k writes)))"
  using assms(2)
proof (induction arbitrary: k rule: floor_file.induct)
  case Created
  then show ?case by (simp add: file_records_empty snapshots_sound_def)
next
  case (Appended writes records n)
  obtain j where j: "file_records codec (concat writes @ take n (append_payload codec records)) =
      file_records codec (concat writes) @ filter valid_record (take j records)"
    using written_records [OF assms(1)] .
  have "snapshots_sound (file_records codec (concat writes) @ filter valid_record (take j records))"
    using Appended.IH [of "length writes"] Appended.hyps(2)
    by (intro snapshots_sound_append) (auto simp: list_all_iff dest!: in_set_takeD)
  with j Appended.IH [of k] show ?case by (cases "k \<le> length writes") simp_all
next
  case (Compacted writes m n)
  let ?seen = "concat (take m writes)"
  let ?snapshot = "snapshot_of (readAndFold codec ?seen)"
  obtain j where j: "file_records codec (concat writes @ take n (append_payload codec [?snapshot])) =
      file_records codec (concat writes) @ filter valid_record (take j [?snapshot])"
    using written_records [OF assms(1)] .
  have "list_all (whole_or_cut codec) (drop m writes)"
    using floor_file_writes [OF Compacted.hyps(1)] by (auto simp: list_all_iff dest: in_set_dropD)
  from writes_extend [OF assms(1) this, of ?seen] obtain newer where
    newer: "file_records codec (concat writes) = file_records codec ?seen @ newer"
    by (auto simp: concat_append [symmetric] simp del: concat_append)
  note seen = readAndFold_sound [OF Compacted.IH [of m]]
  have snapshot: "?snapshot = Snapshot_Record (length (file_records codec ?seen))
      (floor_of_state (foldl applyRecord empty_fold (file_records codec ?seen)))"
    by (simp add: snapshot_of_def seen)
  have all: "snapshots_sound (file_records codec ?seen @ newer)"
    using Compacted.IH [of "length writes"] newer by simp
  have "snapshots_sound (file_records codec (concat writes) @ filter valid_record (take j [?snapshot]))"
    using snapshots_sound_snapshot [OF all refl] all by (cases j) (simp_all add: newer snapshot)
  with j Compacted.IH [of k] show ?case by (cases "k \<le> length writes") simp_all
qed

lemma floor_file_sound:
  "codec_ok codec \<Longrightarrow> floor_file codec writes \<Longrightarrow> snapshots_sound (file_records codec (concat writes))"
  using floor_file_sound_upto [of codec writes "length writes"] by simp

end
