(* ===== verification/Floor_Example.thy ===== *)
theory Floor_Example
  imports Floor_File "HOL-Library.Countable"
begin

text \<open>
  A codec that satisfies the laws of the stored lines, and two files of the same observations: records are
  counted, and a line is its record's number in unary with an end mark.
\<close>

section \<open>Records are countable\<close>

instance chain_head_floor_ext :: (countable) countable
  by (rule countable_classI [of "\<lambda>h. to_nat (hf_seq h, hf_hashHex h, chain_head_floor.more h)"])
    (auto intro: chain_head_floor.equality)

instance manifest_floor_ext :: (countable) countable
  by (rule countable_classI [of "\<lambda>m. to_nat (mf_manifestVersion m, mf_epoch m, mf_manifestSigHashHex m, manifest_floor.more m)"])
    (auto intro: manifest_floor.equality)

instance variable_floor :: countable
  by countable_datatype

instance environment_floor_ext :: (countable) countable
  by (rule countable_classI [of "\<lambda>e. to_nat (ef_pullEpoch e, ef_observedEpoch e, ef_metaVersion e, ef_metaSigHashHex e,
      ef_manifest e, ef_variables e, environment_floor.more e)"])
    (auto intro: environment_floor.equality)

instance conflict_kind :: countable
  by countable_datatype

instance floor_conflict_ext :: (countable) countable
  by (rule countable_classI [of "\<lambda>c. to_nat (con_kind c, con_environmentId c, con_variableId c, con_firstVersion c,
      con_firstHashHex c, con_secondVersion c, con_secondHashHex c, floor_conflict.more c)"])
    (auto intro: floor_conflict.equality)

instance floor_intent_op :: countable
  by countable_datatype

instance floor_intent :: countable
  by countable_datatype

instance floor_intent_outcome :: countable
  by countable_datatype

instance project_floor_ext :: (countable) countable
  by (rule countable_classI [of "\<lambda>p. to_nat (pf_chainHead p, pf_environments p, pf_conflicts p, pf_intents p, project_floor.more p)"])
    (auto intro: project_floor.equality)

instance floor_log_record :: countable
  by countable_datatype

section \<open>The codec\<close>

definition demo_encode :: "floor_log_record \<Rightarrow> ustr" where
  "demo_encode r = replicate (to_nat r) 0x61 @ [0x62]"

definition demo_codec :: floor_codec where
  "demo_codec =
     \<lparr>codec_decode = (\<lambda>line. let r = from_nat (length line - 1) in
        if line = demo_encode r \<and> valid_record r then Some r else None),
      codec_encode = demo_encode\<rparr>"

lemma demo_codec_ok: "codec_ok demo_codec"
  unfolding codec_ok_def
proof (intro allI conjI impI)
  fix r n
  have end_mark: "take n (demo_encode r) \<noteq> demo_encode r'" if "n < length (demo_encode r)" for r'
  proof
    assume eq: "take n (demo_encode r) = demo_encode r'"
    have "take n (demo_encode r) = replicate (min n (to_nat r)) 0x61"
      using that by (simp add: demo_encode_def)
    with eq have "replicate (min n (to_nat r)) (0x61 :: 16 word) = demo_encode r'" by simp
    then have "(0x62 :: 16 word) \<in> set (replicate (min n (to_nat r)) 0x61)" by (simp add: demo_encode_def)
    then show False by (auto simp: in_set_replicate)
  qed
  show "codec_decode demo_codec (codec_encode demo_codec r) = (if valid_record r then Some r else None)"
    by (simp add: demo_codec_def Let_def demo_encode_def)
  show "newline \<notin> set (codec_encode demo_codec r)"
    by (auto simp: demo_codec_def demo_encode_def newline_def)
  show "\<not> blank_line (codec_encode demo_codec r)"
    by (simp add: demo_codec_def demo_encode_def blank_line_def js_white_space_def)
  show "codec_decode demo_codec (take n (codec_encode demo_codec r)) = None" if "n < length (codec_encode demo_codec r)"
    using that end_mark by (simp add: demo_codec_def Let_def)
qed

section \<open>Two files\<close>

lemma whole_records:
  assumes "codec_ok codec"
  shows "file_records codec (concat (map (encodeRecord codec) records)) = filter valid_record records"
proof (induction records)
  case (Cons r records)
  have "file_records codec (codec_encode codec r) = (if valid_record r then [r] else [])"
    using cut_line [OF assms order_refl, of r] by simp
  with Cons.IH show ?case by (simp add: encodeRecord_def file_records_append)
qed (simp add: file_records_empty)

lemma whole_write:
  assumes "codec_ok codec"
  shows "file_records codec (raw @ append_payload codec records) = file_records codec raw @ filter valid_record records"
  by (simp add: append_payload_def file_records_append whole_records [OF assms])

lemma whole_append:
  assumes "floor_file codec writes" and "list_all (\<lambda>r. \<not> snapshot_record r) records"
  shows "floor_file codec (writes @ [append_payload codec records])"
  using Appended [OF assms, of "length (append_payload codec records)"] by simp

definition demo_head_floor :: "nat \<Rightarrow> chain_head_floor" where
  "demo_head_floor n = \<lparr>hf_seq = int n, hf_hashHex = encode_hex (replicate 32 (word_of_nat n))\<rparr>"

definition demo_manifest_floor :: manifest_floor where
  "demo_manifest_floor =
     \<lparr>mf_manifestVersion = 4, mf_epoch = 2, mf_manifestSigHashHex = encode_hex (replicate 32 6)\<rparr>"

definition floor_first :: floor_log_record where
  "floor_first = Head_Record (demo_head_floor 7)"

definition floor_second :: floor_log_record where
  "floor_second = Manifest_Record (demo_head_floor 8) (lit ''prod'') demo_manifest_floor"

lemma demo_records_valid: "valid_record floor_first" "valid_record floor_second"
  by (simp_all add: floor_first_def floor_second_def demo_head_floor_def demo_manifest_floor_def valid_head_def positive_int_def
      safe_int_def max_safe_integer_def hash_hex_def valid_manifest_def isEnvironmentId_def resource_id_def
      id_first_units_def lit_def)

definition demo_file :: "ustr list" where
  "demo_file = [append_payload demo_codec [floor_first], append_payload demo_codec [floor_second]]"

definition demo_snapshot :: floor_log_record where
  "demo_snapshot = snapshot_of (readAndFold demo_codec (append_payload demo_codec [floor_second]))"

definition demo_file_later :: "ustr list" where
  "demo_file_later =
     [append_payload demo_codec [floor_second], append_payload demo_codec [demo_snapshot],
      append_payload demo_codec [floor_first, floor_second]]"

lemma demo_files: "floor_file demo_codec demo_file" "floor_file demo_codec demo_file_later"
proof -
  have plain: "list_all (\<lambda>r. \<not> snapshot_record r) [floor_first]" "list_all (\<lambda>r. \<not> snapshot_record r) [floor_second]"
    "list_all (\<lambda>r. \<not> snapshot_record r) [floor_first, floor_second]"
    by (simp_all add: floor_first_def floor_second_def)
  show "floor_file demo_codec demo_file"
    using whole_append [OF whole_append [OF Created plain(1)] plain(2)] by (simp add: demo_file_def)
  have one: "floor_file demo_codec [append_payload demo_codec [floor_second]]"
    using whole_append [OF Created plain(2), of demo_codec] by simp
  have "floor_file demo_codec ([append_payload demo_codec [floor_second]] @
      [take (length (append_payload demo_codec [demo_snapshot])) (append_payload demo_codec [snapshot_of (readAndFold demo_codec
        (concat (take 1 [append_payload demo_codec [floor_second]])))])])"
    by (rule Compacted [OF one]) simp
  then have two: "floor_file demo_codec ([append_payload demo_codec [floor_second]] @ [append_payload demo_codec [demo_snapshot]])"
    by (simp add: demo_snapshot_def)
  show "floor_file demo_codec demo_file_later"
    using whole_append [OF two plain(3)] by (simp add: demo_file_later_def)
qed

text \<open>The second file holds the observations of the first in another order, one of them twice, and a snapshot.\<close>

lemma demo_file_records:
  "file_records demo_codec (concat demo_file) = [floor_first, floor_second]"
  "\<exists>snapshots. list_all snapshot_record snapshots \<and>
     file_records demo_codec (concat demo_file_later) = [floor_second] @ snapshots @ [floor_first, floor_second]"
proof -
  note written = whole_write [OF demo_codec_ok]
  have first_write: "file_records demo_codec (append_payload demo_codec records) = filter valid_record records" for records
    using written [of "[]" records] by (simp add: file_records_empty)
  show "file_records demo_codec (concat demo_file) = [floor_first, floor_second]"
    by (simp add: demo_file_def written first_write demo_records_valid)
  have "file_records demo_codec (concat demo_file_later) =
      [floor_second] @ filter valid_record [demo_snapshot] @ [floor_first, floor_second]"
    by (simp add: demo_file_later_def written first_write demo_records_valid append_assoc [symmetric] del: append_assoc)
  then show "\<exists>snapshots. list_all snapshot_record snapshots \<and>
      file_records demo_codec (concat demo_file_later) = [floor_second] @ snapshots @ [floor_first, floor_second]"
    by (intro exI [of _ "filter valid_record [demo_snapshot]"]) (simp add: demo_snapshot_def snapshot_of_def)
qed

end
