(* ===== verification/Floor_Check.thy ===== *)
theory Floor_Check
  imports Floor_Log Chain_Verify
begin

text \<open>
  The rules (a), (b) and (c) that a verified distribution is held against before it enters the floor
  (\<open>floor-check.ts\<close>), and the order of checking and committing (\<open>values-floor.ts\<close>). The chain's verified
  state and its index are those of \<open>Chain_Verify\<close>.
\<close>

section \<open>Evidence\<close>

datatype evidence_status = Status_Active | Status_Deleted | Status_Declared

record verified_meta_evidence =
  me_status :: evidence_status
  me_metaVersion :: int
  me_metaSigHashHex :: ustr
  me_chainHeadSeq :: int
  me_chainHeadHashHex :: ustr
  me_signatureHex :: ustr
  me_authorUserId :: user_id
  me_authorKeyFingerprintHex :: ustr

record verified_schema_fields =
  sf_varType :: ustr
  sf_required :: bool
  sf_description :: ustr
  sf_maxAgeDays :: "int option"

record verified_tombstone = verified_meta_evidence +
  vt_variableId :: variable_id
  vt_name :: ustr

record verified_variable_statement = verified_meta_evidence +
  vs_variableId :: variable_id
  vs_name :: ustr
  vs_layoutVersion :: int
  vs_schema :: "verified_schema_fields option"

record verified_pulled_value =
  pv_variableId :: variable_id
  pv_name :: ustr
  pv_version :: int
  pv_epoch :: int
  pv_nonceHex :: ustr
  pv_ciphertextHex :: ustr
  pv_prevValueSigHashHex :: ustr
  pv_signedBytesHashHex :: ustr
  pv_metaVersion :: int
  pv_metaSignedBytesHashHex :: ustr
  pv_prevMetaSigHashHex :: ustr
  pv_valueChainHeadSeq :: int
  pv_valueChainHeadHashHex :: ustr
  pv_metaChainHeadSeq :: int
  pv_metaChainHeadHashHex :: ustr
  pv_valueSignatureHex :: ustr
  pv_writerUserId :: user_id
  pv_writerKeyFingerprintHex :: ustr
  pv_metaSignatureHex :: ustr
  pv_authorUserId :: user_id
  pv_authorKeyFingerprintHex :: ustr
  pv_layoutVersion :: int
  pv_schema :: "verified_schema_fields option"

record verified_manifest =
  vm_manifestVersion :: int
  vm_epoch :: int
  vm_variablesDigestHex :: ustr
  vm_envMetaVersion :: int
  vm_envMetaSigHashHex :: ustr
  vm_prevManifestSigHashHex :: ustr
  vm_signedBytesHashHex :: ustr
  vm_chainHeadSeq :: int
  vm_chainHeadHashHex :: ustr
  vm_signatureHex :: ustr
  vm_issuerUserId :: user_id
  vm_issuerKeyFingerprintHex :: ustr

record verified_pull_snapshot =
  sn_environment :: verified_meta_evidence
  sn_variables :: "verified_pulled_value list"
  sn_declared :: "verified_variable_statement list"
  sn_tombstones :: "verified_tombstone list"
  sn_manifest :: verified_manifest

record verified_metadata_snapshot =
  sm_environment :: verified_meta_evidence
  sm_variables :: "verified_variable_statement list"
  sm_tombstones :: "verified_tombstone list"
  sm_manifest :: verified_manifest

record pulled_value_evidence =
  pe_version :: int
  pe_epoch :: int
  pe_valueSigHashHex :: ustr
  pe_chainHeadSeq :: int
  pe_chainHeadHashHex :: ustr
  pe_signatureHex :: ustr
  pe_writerUserId :: user_id
  pe_writerKeyFingerprintHex :: ustr

datatype evidence_target = On_Variable | On_Environment

datatype floor_violation =
    Chain_Shortened chain_head_floor chain_head_floor
  | Chain_Diverged chain_head_floor ustr chain_head_floor
  | Variable_Omitted variable_id variable_floor
  | Value_Rollback variable_id variable_floor pulled_value_evidence
  | Value_Equivocation variable_id variable_floor pulled_value_evidence
  | Value_Epoch_Regression variable_id variable_floor pulled_value_evidence
  | Stale_Epoch_Injection variable_id int int pulled_value_evidence
  | Meta_Rollback evidence_target "variable_id option" "int \<times> ustr" verified_meta_evidence
  | Meta_Equivocation evidence_target "variable_id option" "int \<times> ustr" verified_meta_evidence
  | Deletion_Revoked variable_id "int \<times> ustr" verified_meta_evidence
  | Tombstone_Mismatch variable_id "int \<times> ustr" verified_meta_evidence
  | Manifest_Rollback manifest_floor verified_manifest
  | Manifest_Equivocation manifest_floor verified_manifest
  | Stale_Manifest_Injection int int verified_manifest

section \<open>The chain\<close>

definition checkChainFloor :: "project_floor \<Rightarrow> chain_state \<Rightarrow> chain_history_builder \<Rightarrow> floor_violation option" where
  "checkChainFloor floor state history =
     (case pf_chainHead floor of
        None \<Rightarrow> None
      | Some floorHead \<Rightarrow>
          let syncedHead = \<lparr>hf_seq = st_headSeq state, hf_hashHex = st_headHashHex state\<rparr> in
          if st_headSeq state < hf_seq floorHead then Some (Chain_Shortened floorHead syncedHead)
          else if entryHashAt history (hf_seq floorHead) \<noteq> Some (hf_hashHex floorHead)
          then Some (Chain_Diverged floorHead (case_option [] id (entryHashAt history (hf_seq floorHead))) syncedHead)
          else None)"

section \<open>Statements and values\<close>

definition valueEvidenceOf :: "verified_pulled_value \<Rightarrow> pulled_value_evidence" where
  "valueEvidenceOf v =
     \<lparr>pe_version = pv_version v, pe_epoch = pv_epoch v, pe_valueSigHashHex = pv_signedBytesHashHex v,
      pe_chainHeadSeq = pv_valueChainHeadSeq v, pe_chainHeadHashHex = pv_valueChainHeadHashHex v,
      pe_signatureHex = pv_valueSignatureHex v, pe_writerUserId = pv_writerUserId v,
      pe_writerKeyFingerprintHex = pv_writerKeyFingerprintHex v\<rparr>"

definition metaEvidenceOf :: "verified_pulled_value \<Rightarrow> verified_meta_evidence" where
  "metaEvidenceOf v =
     \<lparr>me_status = Status_Active, me_metaVersion = pv_metaVersion v, me_metaSigHashHex = pv_metaSignedBytesHashHex v,
      me_chainHeadSeq = pv_metaChainHeadSeq v, me_chainHeadHashHex = pv_metaChainHeadHashHex v,
      me_signatureHex = pv_metaSignatureHex v, me_authorUserId = pv_authorUserId v,
      me_authorKeyFingerprintHex = pv_authorKeyFingerprintHex v\<rparr>"

definition checkMetaAgainstFloor ::
  "evidence_target \<Rightarrow> variable_id option \<Rightarrow> int \<times> ustr \<Rightarrow> verified_meta_evidence \<Rightarrow> floor_violation option" where
  "checkMetaAgainstFloor target var floor pulled =
     (if me_metaVersion pulled < fst floor then Some (Meta_Rollback target var floor pulled)
      else if me_metaVersion pulled = fst floor \<and> me_metaSigHashHex pulled \<noteq> snd floor
      then Some (Meta_Equivocation target var floor pulled)
      else None)"

definition checkManifestAgainstFloor :: "environment_floor \<Rightarrow> verified_manifest \<Rightarrow> floor_violation option" where
  "checkManifestAgainstFloor floor manifest =
     (case ef_manifest floor of
        None \<Rightarrow> None
      | Some m \<Rightarrow>
          if vm_manifestVersion manifest < mf_manifestVersion m then Some (Manifest_Rollback m manifest)
          else if vm_manifestVersion manifest = mf_manifestVersion m \<and>
            vm_signedBytesHashHex manifest \<noteq> mf_manifestSigHashHex m
          then Some (Manifest_Equivocation m manifest)
          else None)"

definition checkManifestEpochBaseline :: "environment_floor \<Rightarrow> verified_manifest \<Rightarrow> floor_violation option" where
  "checkManifestEpochBaseline floor manifest =
     (let floorVersion = case_option 0 mf_manifestVersion (ef_manifest floor);
          baselineEpoch = max (max (ef_pullEpoch floor) (ef_observedEpoch floor)) (case_option 0 mf_epoch (ef_manifest floor))
      in if floorVersion < vm_manifestVersion manifest \<and> vm_epoch manifest < baselineEpoch
         then Some (Stale_Manifest_Injection baselineEpoch floorVersion manifest) else None)"

text \<open>The floor argument of the next three is an active floor.\<close>

definition checkActiveVariable :: "variable_floor \<Rightarrow> verified_pulled_value \<Rightarrow> floor_violation option" where
  "checkActiveVariable floor v =
     (if pv_version v < vf_version floor then Some (Value_Rollback (pv_variableId v) floor (valueEvidenceOf v))
      else if pv_version v = vf_version floor \<and> pv_signedBytesHashHex v \<noteq> vf_valueSigHashHex floor
      then Some (Value_Equivocation (pv_variableId v) floor (valueEvidenceOf v))
      else if vf_version floor < pv_version v \<and> pv_epoch v < vf_epoch floor
      then Some (Value_Epoch_Regression (pv_variableId v) floor (valueEvidenceOf v))
      else checkMetaAgainstFloor On_Variable (Some (pv_variableId v)) (meta_of floor) (metaEvidenceOf v))"

definition checkFloorActiveMeta ::
  "variable_id \<Rightarrow> variable_floor \<Rightarrow> 'a verified_meta_evidence_scheme option \<Rightarrow> verified_tombstone option \<Rightarrow>
   floor_violation option" where
  "checkFloorActiveMeta var floor active tombstone =
     (case active of
        Some evidence \<Rightarrow>
          checkMetaAgainstFloor On_Variable (Some var) (meta_of floor) (verified_meta_evidence.truncate evidence)
      | None \<Rightarrow>
          (case tombstone of
             Some t \<Rightarrow> checkMetaAgainstFloor On_Variable (Some var) (meta_of floor) (verified_meta_evidence.truncate t)
           | None \<Rightarrow> Some (Variable_Omitted var floor)))"

definition checkFloorActive ::
  "variable_id \<Rightarrow> variable_floor \<Rightarrow> verified_pulled_value option \<Rightarrow> verified_tombstone option \<Rightarrow> floor_violation option" where
  "checkFloorActive var floor active tombstone =
     (case active of
        Some v \<Rightarrow> checkActiveVariable floor v
      | None \<Rightarrow> checkFloorActiveMeta var floor (None :: verified_meta_evidence option) tombstone)"

definition checkFloorDeclared ::
  "variable_id \<Rightarrow> variable_floor \<Rightarrow> verified_meta_evidence option \<Rightarrow> verified_tombstone option \<Rightarrow> floor_violation option" where
  "checkFloorDeclared var floor evidence tombstone =
     (case (case evidence of Some e \<Rightarrow> Some e | None \<Rightarrow> map_option verified_meta_evidence.truncate tombstone) of
        None \<Rightarrow> Some (Variable_Omitted var floor)
      | Some e \<Rightarrow> checkMetaAgainstFloor On_Variable (Some var) (meta_of floor) e)"

definition checkFloorDeleted ::
  "variable_id \<Rightarrow> variable_floor \<Rightarrow> verified_meta_evidence option \<Rightarrow> verified_tombstone option \<Rightarrow> floor_violation option" where
  "checkFloorDeleted var floor active tombstone =
     (case active of
        Some e \<Rightarrow> Some (Deletion_Revoked var (meta_of floor) e)
      | None \<Rightarrow>
          (case tombstone of
             None \<Rightarrow> Some (Variable_Omitted var floor)
           | Some t \<Rightarrow>
               if me_metaVersion t \<noteq> fst (meta_of floor) \<or> me_metaSigHashHex t \<noteq> snd (meta_of floor)
               then Some (Tombstone_Mismatch var (meta_of floor) (verified_meta_evidence.truncate t)) else None))"

section \<open>An environment\<close>

text \<open>The index of a list by the id of its elements; a later element replaces an earlier one.\<close>

definition index_by :: "('a \<Rightarrow> variable_id) \<Rightarrow> 'a list \<Rightarrow> (variable_id, 'a) js_map" where
  "index_by key xs = foldl (\<lambda>m x. AList.update (key x) x m) [] xs"

primrec first_violation :: "('x \<Rightarrow> floor_violation option) \<Rightarrow> 'x list \<Rightarrow> floor_violation option" where
  "first_violation f [] = None"
| "first_violation f (x # xs) = first_reason (f x) (first_violation f xs)"

definition check_floor_variable ::
  "('a \<Rightarrow> variable_id) \<Rightarrow>
   (variable_id \<Rightarrow> variable_floor \<Rightarrow> 'a option \<Rightarrow> verified_tombstone option \<Rightarrow> floor_violation option) \<Rightarrow>
   ('a \<Rightarrow> verified_meta_evidence) \<Rightarrow> 'a list \<Rightarrow> verified_variable_statement list \<Rightarrow> verified_tombstone list \<Rightarrow>
   variable_id \<times> variable_floor \<Rightarrow> floor_violation option" where
  "check_floor_variable id_of checkActive toMeta activeList declaredList tombstoneList entry =
     (let (var, floor) = entry;
          active = map_of (index_by id_of activeList) var;
          tombstone = map_of (index_by vt_variableId tombstoneList) var;
          evidence = (case active of
            None \<Rightarrow> map_option verified_meta_evidence.truncate (map_of (index_by vs_variableId declaredList) var)
          | Some a \<Rightarrow> Some (toMeta a))
      in case floor of
           Active_Floor _ _ _ _ _ \<Rightarrow> checkActive var floor active tombstone
         | Declared_Floor _ _ \<Rightarrow> checkFloorDeclared var floor evidence tombstone
         | Deleted_Floor _ _ \<Rightarrow> checkFloorDeleted var floor evidence tombstone)"

definition checkFloorCommon ::
  "environment_floor \<Rightarrow> verified_meta_evidence \<Rightarrow> ('a \<Rightarrow> variable_id) \<Rightarrow> 'a list \<Rightarrow> verified_variable_statement list \<Rightarrow>
   verified_tombstone list \<Rightarrow>
   (variable_id \<Rightarrow> variable_floor \<Rightarrow> 'a option \<Rightarrow> verified_tombstone option \<Rightarrow> floor_violation option) \<Rightarrow>
   ('a \<Rightarrow> verified_meta_evidence) \<Rightarrow> floor_violation option" where
  "checkFloorCommon floor environment id_of activeList declaredList tombstoneList checkActive toMeta =
     first_reason
       (checkMetaAgainstFloor On_Environment None (ef_metaVersion floor, ef_metaSigHashHex floor) environment)
       (first_violation (check_floor_variable id_of checkActive toMeta activeList declaredList tombstoneList)
         (ef_variables floor))"

definition stale_value :: "environment_floor \<Rightarrow> verified_pulled_value \<Rightarrow> floor_violation option" where
  "stale_value floor v =
     (let floorVersion = (case map_of (ef_variables floor) (pv_variableId v) of
            Some (Active_Floor version _ _ _ _) \<Rightarrow> version
          | _ \<Rightarrow> 0)
      in if floorVersion < pv_version v \<and> pv_epoch v < ef_pullEpoch floor
         then Some (Stale_Epoch_Injection (pv_variableId v) (ef_pullEpoch floor) floorVersion (valueEvidenceOf v)) else None)"

definition checkEnvironmentPull :: "environment_floor option \<Rightarrow> verified_pull_snapshot \<Rightarrow> floor_violation option" where
  "checkEnvironmentPull existing snapshot =
     (case existing of
        None \<Rightarrow> None
      | Some floor \<Rightarrow>
          first_reason
            (checkFloorCommon floor (sn_environment snapshot) pv_variableId (sn_variables snapshot) (sn_declared snapshot)
              (sn_tombstones snapshot) checkFloorActive metaEvidenceOf)
         (first_reason
            (checkManifestAgainstFloor floor (sn_manifest snapshot))
         (first_reason
            (checkManifestEpochBaseline floor (sn_manifest snapshot))
            (first_violation (stale_value floor) (sn_variables snapshot)))))"

definition checkEnvironmentMetadataPull ::
  "environment_floor option \<Rightarrow> verified_metadata_snapshot \<Rightarrow> floor_violation option" where
  "checkEnvironmentMetadataPull existing snapshot =
     (case existing of
        None \<Rightarrow> None
      | Some floor \<Rightarrow>
          first_reason
            (checkFloorCommon floor (sm_environment snapshot) vs_variableId (sm_variables snapshot) []
              (sm_tombstones snapshot) checkFloorActiveMeta verified_meta_evidence.truncate)
         (first_reason
            (checkManifestAgainstFloor floor (sm_manifest snapshot))
            (checkManifestEpochBaseline floor (sm_manifest snapshot))))"

definition pulled_floor :: "verified_pulled_value \<Rightarrow> variable_floor" where
  "pulled_floor v =
     Active_Floor (pv_version v) (pv_epoch v) (pv_signedBytesHashHex v) (pv_metaVersion v) (pv_metaSignedBytesHashHex v)"

definition declared_floor :: "verified_variable_statement \<Rightarrow> variable_floor" where
  "declared_floor d = Declared_Floor (me_metaVersion d) (me_metaSigHashHex d)"

definition tombstone_floor :: "verified_tombstone \<Rightarrow> variable_floor" where
  "tombstone_floor t = Deleted_Floor (me_metaVersion t) (me_metaSigHashHex t)"

definition buildEnvironmentFloor :: "int \<Rightarrow> verified_pull_snapshot \<Rightarrow> environment_floor" where
  "buildEnvironmentFloor chainCurrentEpoch snapshot =
     (let values = foldl (\<lambda>m v. AList.update (pv_variableId v) (pulled_floor v) m) [] (sn_variables snapshot);
          declared = foldl (\<lambda>m d. AList.update (vs_variableId d) (declared_floor d) m) values (sn_declared snapshot);
          variables = foldl (\<lambda>m t. AList.update (vt_variableId t) (tombstone_floor t) m) declared (sn_tombstones snapshot)
      in \<lparr>ef_pullEpoch = chainCurrentEpoch, ef_observedEpoch = chainCurrentEpoch,
          ef_metaVersion = me_metaVersion (sn_environment snapshot),
          ef_metaSigHashHex = me_metaSigHashHex (sn_environment snapshot),
          ef_manifest = Some \<lparr>mf_manifestVersion = vm_manifestVersion (sn_manifest snapshot),
            mf_epoch = vm_epoch (sn_manifest snapshot), mf_manifestSigHashHex = vm_signedBytesHashHex (sn_manifest snapshot)\<rparr>,
          ef_variables = variables\<rparr>)"

section \<open>Checking, then committing\<close>

datatype floor_refusal =
    Floor_Violation floor_violation
  | Environment_Unknown environment_id
  | Environment_Deleted environment_id int

definition requireChainEnvironment :: "chain_state \<Rightarrow> environment_id \<Rightarrow> (floor_refusal, environment_state) outcome" where
  "requireChainEnvironment state env =
     (case map_of (st_environments state) env of
        None \<Rightarrow> Rejected (Environment_Unknown env)
      | Some e \<Rightarrow>
          (case deletedAtSeq e of
             Some seq \<Rightarrow> Rejected (Environment_Deleted env seq)
           | None \<Rightarrow> Accepted e))"

definition chain_head_of :: "chain_state \<Rightarrow> chain_head_floor" where
  "chain_head_of state = \<lparr>hf_seq = st_headSeq state, hf_hashHex = st_headHashHex state\<rparr>"

text \<open>
  What \<open>enforceFloor\<close> appends: the record of the pull, nothing when the view before the response does not
  know the environment yet, or a refusal.
\<close>

definition enforceFloor ::
  "environment_floor option \<Rightarrow> chain_state \<Rightarrow> chain_state \<Rightarrow> environment_id \<Rightarrow> verified_pull_snapshot \<Rightarrow>
   (floor_refusal, floor_log_record option) outcome" where
  "enforceFloor existing baselineView commitView env snapshot =
     (case checkEnvironmentPull existing snapshot of
        Some violation \<Rightarrow> Rejected (Floor_Violation violation)
      | None \<Rightarrow>
          then_call (requireChainEnvironment commitView env) (\<lambda>_.
            case map_of (st_environments baselineView) env of
              None \<Rightarrow> Accepted None
            | Some baseline \<Rightarrow>
                Accepted (Some (Pull_Record (chain_head_of commitView) env
                  (buildEnvironmentFloor (currentEpoch baseline) snapshot)))))"

definition enforceMetadataFloor ::
  "environment_floor option \<Rightarrow> chain_state \<Rightarrow> environment_id \<Rightarrow> verified_metadata_snapshot \<Rightarrow>
   (floor_refusal, floor_log_record) outcome" where
  "enforceMetadataFloor existing verified env snapshot =
     (case checkEnvironmentMetadataPull existing snapshot of
        Some violation \<Rightarrow> Rejected (Floor_Violation violation)
      | None \<Rightarrow>
          then_call (requireChainEnvironment verified env) (\<lambda>environment.
            Accepted (Meta_Record (chain_head_of verified) env (currentEpoch environment)
              (me_metaVersion (sm_environment snapshot)) (me_metaSigHashHex (sm_environment snapshot))
              \<lparr>mf_manifestVersion = vm_manifestVersion (sm_manifest snapshot), mf_epoch = vm_epoch (sm_manifest snapshot),
               mf_manifestSigHashHex = vm_signedBytesHashHex (sm_manifest snapshot)\<rparr>)))"

text \<open>The resolutions that a verified manifest gives an environment's open metadata intents.\<close>

fun resolveMetaIntent :: "verified_manifest \<Rightarrow> floor_intent \<Rightarrow> floor_log_record option" where
  "resolveMetaIntent manifest (Manifest_Intent i Meta_Op env epoch commitment var version sig head) =
     (if version < vm_manifestVersion manifest then Some (Resolution_Record i Outcome_Superseded)
      else if vm_manifestVersion manifest = version
      then Some (Resolution_Record i
        (if vm_signedBytesHashHex manifest = sig then Outcome_Accepted else Outcome_Not_Accepted))
      else None)"
| "resolveMetaIntent manifest _ = None"

definition resolveMetaIntents :: "floor_intent list \<Rightarrow> verified_manifest \<Rightarrow> floor_log_record list" where
  "resolveMetaIntents intents manifest = List.map_filter (resolveMetaIntent manifest) intents"

end
