(* ===== verification/Floor_Pull.thy ===== *)
theory Floor_Pull
  imports Floor_Check Floor_Lattice Statement_Totality Chain_Authority
begin

text \<open>
  The check of a pull against the commit of the pull: what passes \<open>checkEnvironmentPull\<close> joins the floor
  without a conflict, and the joined floor is what the pull distributed.
\<close>

definition evidence_advances :: "int \<times> ustr \<Rightarrow> int \<times> ustr \<Rightarrow> bool" where
  "evidence_advances a b \<longleftrightarrow> fst a \<le> fst b \<and> (fst a = fst b \<longrightarrow> snd a = snd b)"

lemma checkMeta_None:
  "checkMetaAgainstFloor target var floor pulled = None \<longleftrightarrow>
     evidence_advances floor (me_metaVersion pulled, me_metaSigHashHex pulled)"
  by (auto simp: checkMetaAgainstFloor_def evidence_advances_def)

lemma first_violation_None: "first_violation f xs = None \<longleftrightarrow> (\<forall>x \<in> set xs. f x = None)"
  by (induction xs) auto

lemma joinVersioned_advances:
  assumes "evidence_advances (ev_version a, ev_hashHex a) (ev_version b, ev_hashHex b)"
    and "ev_version a = ev_version b \<Longrightarrow> a = b"
  shows "joinVersioned a b conflict = (b, [])"
  using assms by (auto simp: joinVersioned_def evidence_advances_def)

lemma joinMetaSide_advances: "evidence_advances a b \<Longrightarrow> joinMetaSide env var a b = (b, [])"
  by (auto simp: joinMetaSide_def joinVersioned_def evidence_advances_def prod_eq_iff)

section \<open>What a snapshot says of a variable\<close>

definition snapshot_ids_ok :: "verified_pull_snapshot \<Rightarrow> bool" where
  "snapshot_ids_ok s \<longleftrightarrow>
     distinct (map pv_variableId (sn_variables s) @ map vs_variableId (sn_declared s) @ map vt_variableId (sn_tombstones s))"

lemma index_lookup:
  "map_of (foldl (\<lambda>m x. AList.update (key x) (f x) m) m xs) k =
     (case find (\<lambda>x. key x = k) (rev xs) of None \<Rightarrow> map_of m k | Some x \<Rightarrow> Some (f x))"
  by (induction xs rule: rev_induct) auto

lemma index_by_lookup: "map_of (index_by key xs) k = find (\<lambda>x. key x = k) (rev xs)"
  by (simp add: index_by_def index_lookup split: option.split)

lemma keys_ok_index: "keys_ok m \<Longrightarrow> keys_ok (foldl (\<lambda>m x. AList.update (key x) (f x) m) m xs)"
  by (induction xs arbitrary: m) simp_all

lemma find_Some_set: "find P xs = Some x \<Longrightarrow> x \<in> set xs \<and> P x"
  by (auto simp: find_Some_iff)

lemma find_by_key:
  assumes "distinct (map key xs)" and "x \<in> set xs"
  shows "find (\<lambda>y. key y = key x) (rev xs) = Some x"
proof -
  have "find (\<lambda>y. key y = key x) (rev xs) \<noteq> None" using assms(2) by (auto simp: find_None_iff)
  then obtain y where y: "find (\<lambda>y. key y = key x) (rev xs) = Some y" by blast
  from find_Some_set [OF this] have "y \<in> set xs" "key y = key x" by simp_all
  with assms have "y = x" by (auto simp: distinct_map inj_on_def)
  with y show ?thesis by simp
qed

definition pulled_at :: "verified_pull_snapshot \<Rightarrow> variable_id \<Rightarrow> verified_pulled_value option" where
  "pulled_at s k = find (\<lambda>v. pv_variableId v = k) (rev (sn_variables s))"

definition declared_at :: "verified_pull_snapshot \<Rightarrow> variable_id \<Rightarrow> verified_variable_statement option" where
  "declared_at s k = find (\<lambda>d. vs_variableId d = k) (rev (sn_declared s))"

definition tombstone_at :: "verified_pull_snapshot \<Rightarrow> variable_id \<Rightarrow> verified_tombstone option" where
  "tombstone_at s k = find (\<lambda>t. vt_variableId t = k) (rev (sn_tombstones s))"

lemma snapshot_lookups:
  "map_of (index_by pv_variableId (sn_variables s)) k = pulled_at s k"
  "map_of (index_by vs_variableId (sn_declared s)) k = declared_at s k"
  "map_of (index_by vt_variableId (sn_tombstones s)) k = tombstone_at s k"
  by (simp_all add: index_by_lookup pulled_at_def declared_at_def tombstone_at_def)

lemma built_lookup:
  "map_of (ef_variables (buildEnvironmentFloor epoch s)) k =
     (case tombstone_at s k of Some t \<Rightarrow> Some (tombstone_floor t)
      | None \<Rightarrow> (case declared_at s k of Some d \<Rightarrow> Some (declared_floor d)
          | None \<Rightarrow> map_option pulled_floor (pulled_at s k)))"
  by (auto simp: buildEnvironmentFloor_def Let_def index_lookup tombstone_at_def declared_at_def pulled_at_def
      split: option.split)

lemma built_keys: "keys_ok (ef_variables (buildEnvironmentFloor epoch s))"
  by (simp add: buildEnvironmentFloor_def Let_def keys_ok_index)

lemma find_key_None: "find (\<lambda>x. key x = k) (rev xs) = None \<longleftrightarrow> k \<notin> key ` set xs"
  by (auto simp: find_None_iff)

lemma find_key_Some: "find (\<lambda>x. key x = k) (rev xs) = Some x \<Longrightarrow> k \<in> key ` set xs"
  by (auto dest: find_Some_set)

lemma one_list:
  assumes "snapshot_ids_ok s"
  shows "pulled_at s k = Some v \<Longrightarrow> declared_at s k = None \<and> tombstone_at s k = None"
    and "declared_at s k = Some d \<Longrightarrow> tombstone_at s k = None"
proof -
  have apart: "k \<in> pv_variableId ` set (sn_variables s) \<Longrightarrow>
      k \<notin> vs_variableId ` set (sn_declared s) \<and> k \<notin> vt_variableId ` set (sn_tombstones s)"
    "k \<in> vs_variableId ` set (sn_declared s) \<Longrightarrow> k \<notin> vt_variableId ` set (sn_tombstones s)"
    using assms unfolding snapshot_ids_ok_def distinct_append set_append set_map by blast+
  show "declared_at s k = None \<and> tombstone_at s k = None" if "pulled_at s k = Some v"
    using apart(1) find_key_Some that unfolding pulled_at_def declared_at_def tombstone_at_def find_key_None by fastforce
  show "tombstone_at s k = None" if "declared_at s k = Some d"
    using apart(2) find_key_Some that unfolding declared_at_def tombstone_at_def find_key_None by fastforce
qed

section \<open>One variable\<close>

text \<open>What signed bytes pin: the epoch of a value and of a manifest, and that a statement is no tombstone.\<close>

definition signatures_pin :: "environment_floor \<Rightarrow> verified_pull_snapshot \<Rightarrow> bool" where
  "signatures_pin floor s \<longleftrightarrow>
     (\<forall>v \<in> set (sn_variables s). \<forall>e mv mh. map_of (ef_variables floor) (pv_variableId v) =
        Some (Active_Floor (pv_version v) e (pv_signedBytesHashHex v) mv mh) \<longrightarrow> e = pv_epoch v) \<and>
     (\<forall>m. ef_manifest floor = Some m \<longrightarrow> mf_manifestVersion m = vm_manifestVersion (sn_manifest s) \<longrightarrow>
        mf_manifestSigHashHex m = vm_signedBytesHashHex (sn_manifest s) \<longrightarrow> mf_epoch m = vm_epoch (sn_manifest s)) \<and>
     (\<forall>t \<in> set (sn_tombstones s). \<forall>f. map_of (ef_variables floor) (vt_variableId t) = Some f \<longrightarrow>
        \<not> is_Deleted_Floor f \<longrightarrow> meta_of f \<noteq> (me_metaVersion t, me_metaSigHashHex t))"

text \<open>
  Where this comes from: the hashes in the floor and in the pull are those of the signed bytes of statements the
  client has verified, and version, epoch and status are read off the same statements. \<open>X\<close> holds their
  contexts.
\<close>

record signed_contexts =
  sc_values :: "value_signature_context list"
  sc_manifests :: "env_manifest_context list"
  sc_metas :: "meta_statement_context list"

definition value_read :: "(bytes \<Rightarrow> bytes) \<Rightarrow> signed_contexts \<Rightarrow> int \<Rightarrow> int \<Rightarrow> ustr \<Rightarrow> bool" where
  "value_read sha256 X version epoch hash \<longleftrightarrow>
     (\<exists>c \<in> set (sc_values X). val_version c = version \<and> val_epoch c = epoch \<and>
        computeValueSignedBytesHash sha256 c = Accepted hash)"

definition manifest_read :: "(bytes \<Rightarrow> bytes) \<Rightarrow> signed_contexts \<Rightarrow> int \<Rightarrow> int \<Rightarrow> ustr \<Rightarrow> bool" where
  "manifest_read sha256 X version epoch hash \<longleftrightarrow>
     (\<exists>c \<in> set (sc_manifests X). man_manifestVersion c = version \<and> man_epoch c = epoch \<and>
        computeEnvManifestSignedBytesHash sha256 c = Accepted hash)"

definition meta_read :: "(bytes \<Rightarrow> bytes) \<Rightarrow> signed_contexts \<Rightarrow> bool \<Rightarrow> int \<times> ustr \<Rightarrow> bool" where
  "meta_read sha256 X tomb m \<longleftrightarrow>
     (\<exists>c \<in> set (sc_metas X). (met_status c = lit ''deleted'') = tomb \<and> met_metaVersion c = fst m \<and>
        computeMetaSignedBytesHash sha256 c = Accepted (snd m))"

fun variable_read :: "(bytes \<Rightarrow> bytes) \<Rightarrow> signed_contexts \<Rightarrow> variable_floor \<Rightarrow> bool" where
  "variable_read sha256 X (Active_Floor v e h mv mh) \<longleftrightarrow> value_read sha256 X v e h \<and> meta_read sha256 X False (mv, mh)"
| "variable_read sha256 X (Declared_Floor mv mh) \<longleftrightarrow> meta_read sha256 X False (mv, mh)"
| "variable_read sha256 X (Deleted_Floor mv mh) \<longleftrightarrow> meta_read sha256 X True (mv, mh)"

definition floor_read :: "(bytes \<Rightarrow> bytes) \<Rightarrow> signed_contexts \<Rightarrow> environment_floor \<Rightarrow> bool" where
  "floor_read sha256 X floor \<longleftrightarrow>
     list_all (\<lambda>(k, f). variable_read sha256 X f) (ef_variables floor) \<and>
     pred_option (\<lambda>m. manifest_read sha256 X (mf_manifestVersion m) (mf_epoch m) (mf_manifestSigHashHex m)) (ef_manifest floor)"

definition pull_read :: "(bytes \<Rightarrow> bytes) \<Rightarrow> signed_contexts \<Rightarrow> verified_pull_snapshot \<Rightarrow> bool" where
  "pull_read sha256 X s \<longleftrightarrow>
     list_all (\<lambda>v. value_read sha256 X (pv_version v) (pv_epoch v) (pv_signedBytesHashHex v)) (sn_variables s) \<and>
     list_all (\<lambda>t. meta_read sha256 X True (me_metaVersion t, me_metaSigHashHex t)) (sn_tombstones s) \<and>
     manifest_read sha256 X (vm_manifestVersion (sn_manifest s)) (vm_epoch (sn_manifest s))
       (vm_signedBytesHashHex (sn_manifest s))"

definition signed_inputs :: "signed_contexts \<Rightarrow> bytes set" where
  "signed_inputs X = {b. (\<exists>c \<in> set (sc_values X). buildValueSignedBytes c = Some b) \<or>
     (\<exists>c \<in> set (sc_manifests X). buildEnvManifestSignedBytes c = Some b) \<or>
     (\<exists>c \<in> set (sc_metas X). buildMetaSignedBytes c = Accepted b)}"

definition contexts_well_formed :: "signed_contexts \<Rightarrow> bool" where
  "contexts_well_formed X \<longleftrightarrow>
     list_all (\<lambda>c. list_all well_formed (value_texts c)) (sc_values X) \<and>
     list_all (\<lambda>c. list_all well_formed (manifest_texts c)) (sc_manifests X) \<and>
     list_all (\<lambda>c. case selectMetaLayout c of Accepted l \<Rightarrow> list_all well_formed (meta_texts c l) | _ \<Rightarrow> True) (sc_metas X)"

lemma value_read_epoch:
  assumes "value_read sha256 X v e h" and "value_read sha256 X v e' h" and "contexts_well_formed X"
    and "collision_free_on sha256 (signed_inputs X)"
  shows "e = e'"
proof -
  from assms(1,2) obtain c c' b b' where c: "c \<in> set (sc_values X)" "val_epoch c = e" "buildValueSignedBytes c = Some b"
    and c': "c' \<in> set (sc_values X)" "val_epoch c' = e'" "buildValueSignedBytes c' = Some b'" and "sha256 b = sha256 b'"
    by (auto simp: value_read_def computeValueSignedBytesHash_def require_valid_def with_bytes_def split: option.splits)
  with assms(4) have "b = b'" unfolding collision_free_on_def signed_inputs_def by blast
  then have "c = c'"
    using value_statement.bytes_determine [of c b c'] c c' assms(3)
    by (simp add: contexts_well_formed_def list_all_iff buildValueSignedBytes_def)
  with c c' show ?thesis by simp
qed

lemma manifest_read_epoch:
  assumes "manifest_read sha256 X v e h" and "manifest_read sha256 X v e' h" and "contexts_well_formed X"
    and "collision_free_on sha256 (signed_inputs X)"
  shows "e = e'"
proof -
  from assms(1,2) obtain c c' b b' where c: "c \<in> set (sc_manifests X)" "man_epoch c = e" "buildEnvManifestSignedBytes c = Some b"
    and c': "c' \<in> set (sc_manifests X)" "man_epoch c' = e'" "buildEnvManifestSignedBytes c' = Some b'" and "sha256 b = sha256 b'"
    by (auto simp: manifest_read_def computeEnvManifestSignedBytesHash_def require_valid_def with_bytes_def split: option.splits)
  with assms(4) have "b = b'" unfolding collision_free_on_def signed_inputs_def by blast
  then have "c = c'"
    using manifest_statement.bytes_determine [of c b c'] c c' assms(3)
    by (simp add: contexts_well_formed_def list_all_iff buildEnvManifestSignedBytes_def)
  with c c' show ?thesis by simp
qed

lemma meta_read_status:
  assumes "meta_read sha256 X False m" and "meta_read sha256 X True m" and "contexts_well_formed X"
    and "collision_free_on sha256 (signed_inputs X)"
  shows False
proof -
  have parts: "\<exists>c l b. c \<in> set (sc_metas X) \<and> (met_status c = lit ''deleted'') = d \<and> checkedMetaLayout c = Accepted l \<and>
      encodeMetaSignedBytes c l = Some b \<and> encode_hex (sha256 b) = snd m" if "meta_read sha256 X d m" for d
    using that by (fastforce simp: meta_read_def computeMetaSignedBytesHash_def with_bytes_def split: option.splits)
  from parts [OF assms(1)] obtain c l b where c: "c \<in> set (sc_metas X)" "met_status c \<noteq> lit ''deleted''"
      "checkedMetaLayout c = Accepted l" "encodeMetaSignedBytes c l = Some b" and hash: "encode_hex (sha256 b) = snd m"
    by blast
  from parts [OF assms(2)] obtain c' l' b' where c': "c' \<in> set (sc_metas X)" "met_status c' = lit ''deleted''"
      "checkedMetaLayout c' = Accepted l'" "encodeMetaSignedBytes c' l' = Some b'" and "encode_hex (sha256 b') = snd m"
    by blast
  with hash have same: "sha256 b = sha256 b'" by (metis encode_hex_inject)
  have layouts: "selectMetaLayout c = Accepted l" "selectMetaLayout c' = Accepted l'"
    using c(3) c'(3) by (simp_all add: checkedMetaLayout_Accepted)
  with c(4) c'(4) have "buildMetaSignedBytes c = Accepted b" "buildMetaSignedBytes c' = Accepted b'"
    by (simp_all add: buildMetaSignedBytes_def with_bytes_def)
  with c(1) c'(1) have "b \<in> signed_inputs X" "b' \<in> signed_inputs X" unfolding signed_inputs_def by blast+
  with same assms(4) have "b = b'" unfolding collision_free_on_def by blast
  moreover have "list_all well_formed (meta_texts c l)" "list_all well_formed (meta_texts c' l')"
    using assms(3) c(1) c'(1) layouts unfolding contexts_well_formed_def list_all_iff [of _ "sc_metas X"] by force+
  ultimately have "c\<lparr>met_layoutVersion := None\<rparr> = c'\<lparr>met_layoutVersion := None\<rparr>"
    using meta_bytes_determine [OF c(3) c'(3) c(4)] c'(4) by simp
  then have "met_status c = met_status c'" by (cases c; cases c') simp
  with c(2) c'(2) show False by simp
qed

lemma signatures_pin_read:
  assumes "floor_read sha256 X floor" and "pull_read sha256 X s" and "contexts_well_formed X"
    and "collision_free_on sha256 (signed_inputs X)"
  shows "signatures_pin floor s"
proof -
  have floor: "variable_read sha256 X f" if "map_of (ef_variables floor) k = Some f" for k f
    using assms(1) that by (auto simp: floor_read_def list_all_iff dest: map_of_SomeD)
  note pin = value_read_epoch [OF _ _ assms(3,4)] manifest_read_epoch [OF _ _ assms(3,4)] meta_read_status [OF _ _ assms(3,4)]
  have "e = pv_epoch v" if "v \<in> set (sn_variables s)"
    "map_of (ef_variables floor) (pv_variableId v) = Some (Active_Floor (pv_version v) e (pv_signedBytesHashHex v) mv mh)"
    for v e mv mh
    using floor [OF that(2)] assms(2) that(1) pin(1) by (auto simp: pull_read_def list_all_iff)
  moreover have "mf_epoch m = vm_epoch (sn_manifest s)" if "ef_manifest floor = Some m"
    "mf_manifestVersion m = vm_manifestVersion (sn_manifest s)" "mf_manifestSigHashHex m = vm_signedBytesHashHex (sn_manifest s)" for m
    using assms(1,2) that pin(2) by (auto simp: pull_read_def floor_read_def)
  moreover have "meta_of f \<noteq> (me_metaVersion t, me_metaSigHashHex t)"
    if "t \<in> set (sn_tombstones s)" "map_of (ef_variables floor) (vt_variableId t) = Some f" "\<not> is_Deleted_Floor f" for t f
  proof -
    have "meta_read sha256 X False (meta_of f)" using floor [OF that(2)] that(3) by (cases f) (simp_all add: meta_of_def)
    moreover have "meta_read sha256 X True (me_metaVersion t, me_metaSigHashHex t)"
      using assms(2) that(1) by (simp add: pull_read_def list_all_iff)
    ultimately show ?thesis using pin(3) by auto
  qed
  ultimately show ?thesis unfolding signatures_pin_def by blast
qed

definition variable_passes :: "verified_pull_snapshot \<Rightarrow> variable_id \<times> variable_floor \<Rightarrow> bool" where
  "variable_passes s entry \<longleftrightarrow>
     check_floor_variable pv_variableId checkFloorActive metaEvidenceOf (sn_variables s) (sn_declared s) (sn_tombstones s)
       entry = None"

lemma tombstone_joins:
  assumes "evidence_advances (meta_of f) (me_metaVersion t, me_metaSigHashHex t)" and "\<not> is_Deleted_Floor f"
    and "meta_of f \<noteq> (me_metaVersion t, me_metaSigHashHex t)"
  shows "joinVariableFloor env k (Some f) (tombstone_floor t) = (tombstone_floor t, [])"
  using assms by (auto simp: joinVariableFloor_def joinDeletedWithLive_def tombstone_floor_def meta_of_def
      evidence_advances_def)

lemma active_passes:
  assumes "variable_passes s (k, Active_Floor v e h mv mh)" and "signatures_pin floor s" and "snapshot_ids_ok s"
    and "map_of (ef_variables floor) k = Some (Active_Floor v e h mv mh)"
  obtains g where "map_of (ef_variables (buildEnvironmentFloor epoch s)) k = Some g"
    and "joinVariableFloor env k (Some (Active_Floor v e h mv mh)) g = (g, [])"
    and "\<And>w. pulled_at s k = Some w \<Longrightarrow> e \<le> pv_epoch w"
proof -
  have check: "checkFloorActive k (Active_Floor v e h mv mh) (pulled_at s k) (tombstone_at s k) = None"
    using assms(1) unfolding variable_passes_def check_floor_variable_def Let_def snapshot_lookups by simp
  show ?thesis
  proof (cases "pulled_at s k")
    case (Some w)
    then have w: "w \<in> set (sn_variables s)" "pv_variableId w = k" by (auto simp: pulled_at_def dest!: find_Some_set)
    from check Some have val: "evidence_advances (v, h) (pv_version w, pv_signedBytesHashHex w)"
      and epoch: "v < pv_version w \<Longrightarrow> e \<le> pv_epoch w"
      and meta: "evidence_advances (mv, mh) (pv_metaVersion w, pv_metaSignedBytesHashHex w)"
      by (auto simp: checkFloorActive_def checkActiveVariable_def evidence_advances_def checkMeta_None meta_of_def
          metaEvidenceOf_def split: if_splits)
    have same_epoch: "e = pv_epoch w" if "v = pv_version w"
    proof -
      have "h = pv_signedBytesHashHex w" using val that by (simp add: evidence_advances_def)
      with assms(2,4) w that show ?thesis unfolding signatures_pin_def by blast
    qed
    have "joinVariableFloor env k (Some (Active_Floor v e h mv mh)) (pulled_floor w) = (pulled_floor w, [])"
      using val meta same_epoch by (auto simp: joinVariableFloor_def pulled_floor_def joinMetaSide_advances
          joinVersioned_def evidence_advances_def)
    moreover have "map_of (ef_variables (buildEnvironmentFloor epoch s)) k = Some (pulled_floor w)"
      using one_list(1) [OF assms(3) Some] by (simp add: built_lookup Some)
    moreover have "e \<le> pv_epoch w" using val epoch same_epoch by (cases "v = pv_version w") (auto simp: evidence_advances_def)
    ultimately show ?thesis using that Some by simp
  next
    case None
    with check obtain t where t: "tombstone_at s k = Some t"
      and meta: "evidence_advances (mv, mh) (me_metaVersion t, me_metaSigHashHex t)"
      by (auto simp: checkFloorActive_def checkFloorActiveMeta_def checkMeta_None meta_of_def
          verified_meta_evidence.truncate_def split: option.splits)
    then have "t \<in> set (sn_tombstones s)" "vt_variableId t = k" by (auto simp: tombstone_at_def dest!: find_Some_set)
    with assms(2,4) have "meta_of (Active_Floor v e h mv mh) \<noteq> (me_metaVersion t, me_metaSigHashHex t)"
      unfolding signatures_pin_def by force
    from tombstone_joins [OF _ _ this] meta t None show ?thesis
      by (intro that [of "tombstone_floor t"]) (simp_all add: built_lookup meta_of_def)
  qed
qed

lemma declared_passes:
  assumes "variable_passes s (k, Declared_Floor mv mh)" and "signatures_pin floor s" and "snapshot_ids_ok s"
    and "map_of (ef_variables floor) k = Some (Declared_Floor mv mh)"
  obtains g where "map_of (ef_variables (buildEnvironmentFloor epoch s)) k = Some g"
    and "joinVariableFloor env k (Some (Declared_Floor mv mh)) g = (g, [])"
proof -
  have check: "checkFloorDeclared k (Declared_Floor mv mh)
      (case pulled_at s k of None \<Rightarrow> map_option verified_meta_evidence.truncate (declared_at s k)
        | Some a \<Rightarrow> Some (metaEvidenceOf a)) (tombstone_at s k) = None"
    using assms(1) unfolding variable_passes_def check_floor_variable_def Let_def snapshot_lookups by simp
  consider w where "pulled_at s k = Some w" | d where "pulled_at s k = None" "declared_at s k = Some d"
    | t where "pulled_at s k = None" "declared_at s k = None" "tombstone_at s k = Some t"
    using check by (cases "pulled_at s k"; cases "declared_at s k"; cases "tombstone_at s k")
      (auto simp: checkFloorDeclared_def)
  then show ?thesis
  proof cases
    case (1 w)
    with check have "evidence_advances (mv, mh) (pv_metaVersion w, pv_metaSignedBytesHashHex w)"
      by (simp add: checkFloorDeclared_def checkMeta_None meta_of_def metaEvidenceOf_def)
    with 1 one_list(1) [OF assms(3) 1] show ?thesis
      by (intro that [of "pulled_floor w"])
        (simp_all add: built_lookup pulled_floor_def joinVariableFloor_def meta_of_def joinMetaSide_advances)
  next
    case (2 d)
    with check have "evidence_advances (mv, mh) (me_metaVersion d, me_metaSigHashHex d)"
      by (simp add: checkFloorDeclared_def checkMeta_None meta_of_def verified_meta_evidence.truncate_def)
    with 2 one_list(2) [OF assms(3) 2(2)] show ?thesis
      by (intro that [of "declared_floor d"])
        (simp_all add: built_lookup declared_floor_def joinVariableFloor_def meta_of_def joinMetaSide_advances)
  next
    case (3 t)
    with check have meta: "evidence_advances (mv, mh) (me_metaVersion t, me_metaSigHashHex t)"
      by (simp add: checkFloorDeclared_def checkMeta_None meta_of_def verified_meta_evidence.truncate_def)
    from 3 have "t \<in> set (sn_tombstones s)" "vt_variableId t = k" by (auto simp: tombstone_at_def dest!: find_Some_set)
    with assms(2,4) have "meta_of (Declared_Floor mv mh) \<noteq> (me_metaVersion t, me_metaSigHashHex t)"
      unfolding signatures_pin_def by force
    from tombstone_joins [OF _ _ this] meta 3 show ?thesis
      by (intro that [of "tombstone_floor t"]) (simp_all add: built_lookup meta_of_def)
  qed
qed

lemma deleted_passes:
  assumes "variable_passes s (k, Deleted_Floor mv mh)"
  obtains g where "map_of (ef_variables (buildEnvironmentFloor epoch s)) k = Some g"
    and "joinVariableFloor env k (Some (Deleted_Floor mv mh)) g = (g, [])"
proof -
  have "checkFloorDeleted k (Deleted_Floor mv mh)
      (case pulled_at s k of None \<Rightarrow> map_option verified_meta_evidence.truncate (declared_at s k)
        | Some a \<Rightarrow> Some (metaEvidenceOf a)) (tombstone_at s k) = None"
    using assms unfolding variable_passes_def check_floor_variable_def Let_def snapshot_lookups by simp
  then obtain t where "tombstone_at s k = Some t" "me_metaVersion t = mv" "me_metaSigHashHex t = mh"
    by (cases "tombstone_at s k") (auto simp: checkFloorDeleted_def meta_of_def split: option.splits if_splits)
  then show ?thesis
    by (intro that [of "tombstone_floor t"])
      (simp_all add: built_lookup tombstone_floor_def joinVariableFloor_def meta_of_def joinMetaSide_advances evidence_advances_def)
qed

section \<open>The environment\<close>

lemma variable_joins:
  assumes "variable_passes s (k, f)" and "signatures_pin floor s" and "snapshot_ids_ok s"
    and "map_of (ef_variables floor) k = Some f"
  obtains g where "map_of (ef_variables (buildEnvironmentFloor epoch s)) k = Some g"
    and "joinVariableFloor env k (Some f) g = (g, [])"
proof (cases f)
  case (Active_Floor v e h mv mh)
  with assms show ?thesis by (auto elim: active_passes intro: that)
next
  case (Declared_Floor mv mh)
  with assms show ?thesis by (auto elim: declared_passes intro: that)
next
  case (Deleted_Floor mv mh)
  with assms(1) show ?thesis by (auto elim: deleted_passes intro: that)
qed

lemma join_variables_clean:
  "\<forall>(k, g) \<in> set incoming. snd (joinVariableFloor env k (map_of existing k) g) = [] \<Longrightarrow>
   snd (join_variables env existing incoming acc) = []"
  by (induction incoming arbitrary: acc) (auto simp: case_prod_beta)

lemma built_variables_join:
  assumes "\<forall>entry \<in> set (ef_variables floor). variable_passes s entry" and "signatures_pin floor s" and "snapshot_ids_ok s"
    and "keys_ok (ef_variables floor)"
  shows "snd (join_variables env (ef_variables floor) (ef_variables (buildEnvironmentFloor epoch s)) (ef_variables floor)) = []"
    and "map_of (fst (join_variables env (ef_variables floor) (ef_variables (buildEnvironmentFloor epoch s)) (ef_variables floor)))
      = map_of (ef_variables (buildEnvironmentFloor epoch s))"
proof -
  let ?built = "ef_variables (buildEnvironmentFloor epoch s)"
  have known: "\<exists>g. map_of ?built k = Some g \<and> joinVariableFloor env k (Some f) g = (g, [])"
    if "map_of (ef_variables floor) k = Some f" for k f
  proof -
    have "variable_passes s (k, f)" using assms(1) that by (auto dest: map_of_SomeD)
    then show ?thesis using assms(2,3) that by (blast elim: variable_joins)
  qed
  have clean: "joinVariableFloor env k (map_of (ef_variables floor) k) g = (g, [])" if "map_of ?built k = Some g" for k g
    using known [of k] that by (cases "map_of (ef_variables floor) k") (auto simp: joinVariableFloor_def)
  have "snd (joinVariableFloor env k (map_of (ef_variables floor) k) g) = []" if "(k, g) \<in> set ?built" for k g
    using clean that in_set_map_of [OF built_keys] by simp
  then show "snd (join_variables env (ef_variables floor) ?built (ef_variables floor)) = []"
    by (intro join_variables_clean) auto
  show "map_of (fst (join_variables env (ef_variables floor) ?built (ef_variables floor))) = map_of ?built"
  proof (rule ext)
    fix k
    show "map_of (fst (join_variables env (ef_variables floor) ?built (ef_variables floor))) k = map_of ?built k"
    proof (cases "map_of ?built k")
      case None
      with known [of k] show ?thesis by (cases "map_of (ef_variables floor) k") (auto simp: join_variables_view [OF built_keys])
    next
      case (Some g)
      have "option_join variable_join (map_of (ef_variables floor) k) (Some g) = Some g"
        using clean [OF Some] joinVariableFloor_view [of env k "map_of (ef_variables floor) k" g] by simp
      with Some show ?thesis by (simp add: join_variables_view [OF built_keys])
    qed
  qed
qed

definition fresh_epochs :: "environment_floor \<Rightarrow> verified_pull_snapshot \<Rightarrow> bool" where
  "fresh_epochs floor s \<longleftrightarrow> (\<forall>v \<in> set (sn_variables s).
     case map_of (ef_variables floor) (pv_variableId v) of
       Some (Active_Floor version epoch _ _ _) \<Rightarrow>
         version \<le> pv_version v \<and> epoch \<le> pv_epoch v \<and> (version < pv_version v \<longrightarrow> ef_pullEpoch floor \<le> pv_epoch v)
     | _ \<Rightarrow> 0 < pv_version v \<longrightarrow> ef_pullEpoch floor \<le> pv_epoch v)"

lemma passed_parts:
  assumes "checkEnvironmentPull (Some floor) s = None"
  shows "evidence_advances (ef_metaVersion floor, ef_metaSigHashHex floor)
      (me_metaVersion (sn_environment s), me_metaSigHashHex (sn_environment s))"
    and "\<forall>entry \<in> set (ef_variables floor). variable_passes s entry"
    and "checkManifestAgainstFloor floor (sn_manifest s) = None"
    and "checkManifestEpochBaseline floor (sn_manifest s) = None"
    and "\<forall>v \<in> set (sn_variables s). stale_value floor v = None"
  using assms by (simp_all add: checkEnvironmentPull_def checkFloorCommon_def checkMeta_None first_violation_None
      variable_passes_def)

lemma passed_values_fresh:
  assumes "checkEnvironmentPull (Some floor) s = None" and "signatures_pin floor s" and "snapshot_ids_ok s"
  shows "fresh_epochs floor s"
  unfolding fresh_epochs_def
proof
  fix v assume v: "v \<in> set (sn_variables s)"
  have stale: "stale_value floor v = None" using passed_parts(5) [OF assms(1)] v by blast
  have at: "pulled_at s (pv_variableId v) = Some v"
    using assms(3) v unfolding pulled_at_def snapshot_ids_ok_def by (intro find_by_key) simp_all
  show "case map_of (ef_variables floor) (pv_variableId v) of
       Some (Active_Floor version epoch _ _ _) \<Rightarrow>
         version \<le> pv_version v \<and> epoch \<le> pv_epoch v \<and> (version < pv_version v \<longrightarrow> ef_pullEpoch floor \<le> pv_epoch v)
     | _ \<Rightarrow> 0 < pv_version v \<longrightarrow> ef_pullEpoch floor \<le> pv_epoch v"
  proof (cases "\<exists>w e h mv mh. map_of (ef_variables floor) (pv_variableId v) = Some (Active_Floor w e h mv mh)")
    case True
    then obtain w e h mv mh where f: "map_of (ef_variables floor) (pv_variableId v) = Some (Active_Floor w e h mv mh)" by blast
    have passes: "variable_passes s (pv_variableId v, Active_Floor w e h mv mh)"
      using passed_parts(2) [OF assms(1)] f by (auto dest: map_of_SomeD)
    have "e \<le> pv_epoch v" using active_passes [OF passes assms(2,3) f] at by metis
    moreover have "w \<le> pv_version v"
      using passes at unfolding variable_passes_def check_floor_variable_def Let_def snapshot_lookups
      by (simp add: checkFloorActive_def checkActiveVariable_def split: if_splits)
    ultimately show ?thesis using stale f by (auto simp: stale_value_def split: if_splits)
  next
    case False
    then show ?thesis using stale by (auto simp: stale_value_def split: option.splits variable_floor.splits if_splits)
  qed
qed

text \<open>
  C35. A pull that passes the check agrees with the floor: when \<open>checkEnvironmentPull\<close> reports nothing, joining
  the pull into the floor meets no conflict and the joined floor holds exactly what the pull distributed
  (the environment's statement, its manifest, every variable and every tombstone, nothing of the floor left
  over), so nothing the client has verified before is newer, dropped or different. No value's version or
  epoch is behind the floor's, and a newer value has at least the epoch of the last pull. The conditions:
  the floor is one the log's reader admits; the pull names every variable once, live or deleted (the
  verification that builds it refuses a response that does not); each hash in the floor and in the pull is
  that of the signed bytes of a statement from which the version, the epoch and whether it is a deletion
  were read; the texts of these statements are well formed, and the hash function does not collide on
  their signed bytes (with a collision a tombstone could carry the version and hash of a live statement,
  which the check lets through and the join reports).
\<close>

theorem passed_pull_extends_floor:
  assumes "checkEnvironmentPull (Some floor) s = None" and "valid_environment floor" and "snapshot_ids_ok s"
    and "floor_read sha256 X floor" and "pull_read sha256 X s" and "contexts_well_formed X"
    and "collision_free_on sha256 (signed_inputs X)"
  shows "(\<exists>joined. joinEnvironmentFloor env (Some floor) (buildEnvironmentFloor epoch s) = (joined, []) \<and>
      ef_pullEpoch joined = max (ef_pullEpoch floor) epoch \<and>
      ef_metaVersion joined = me_metaVersion (sn_environment s) \<and>
      ef_metaSigHashHex joined = me_metaSigHashHex (sn_environment s) \<and>
      ef_manifest joined = ef_manifest (buildEnvironmentFloor epoch s) \<and>
      map_of (ef_variables joined) = map_of (ef_variables (buildEnvironmentFloor epoch s))) \<and>
    fresh_epochs floor s"
proof -
  note pinned = signatures_pin_read [OF assms(4-7)]
  let ?built = "buildEnvironmentFloor epoch s"
  note parts = passed_parts [OF assms(1)]
  have keys: "keys_ok (ef_variables floor)" and natural: "0 \<le> ef_metaVersion floor"
    using assms(2) by (simp_all add: valid_environment_def natural_int_def)
  note variables = built_variables_join [OF parts(2) pinned assms(3) keys, of env epoch]
  have built: "ef_pullEpoch ?built = epoch" "ef_metaVersion ?built = me_metaVersion (sn_environment s)"
    "ef_metaSigHashHex ?built = me_metaSigHashHex (sn_environment s)"
    by (simp_all add: buildEnvironmentFloor_def Let_def)
  have meta: "(if ef_metaVersion floor = 0 then ((ef_metaVersion ?built, ef_metaSigHashHex ?built), [])
      else if ef_metaVersion ?built = 0 then ((ef_metaVersion floor, ef_metaSigHashHex floor), [])
      else joinMetaSide env None (ef_metaVersion floor, ef_metaSigHashHex floor) (ef_metaVersion ?built, ef_metaSigHashHex ?built)) =
      ((ef_metaVersion ?built, ef_metaSigHashHex ?built), [])"
    using parts(1) natural built by (auto simp: joinMetaSide_advances evidence_advances_def)
  have manifest: "joinManifestFloor env (ef_manifest floor) (ef_manifest ?built) = (ef_manifest ?built, [])"
  proof (cases "ef_manifest floor")
    case (Some m)
    have "mf_epoch m = vm_epoch (sn_manifest s)"
      if "mf_manifestVersion m = vm_manifestVersion (sn_manifest s)" "mf_manifestSigHashHex m = vm_signedBytesHashHex (sn_manifest s)"
      using pinned Some that by (simp add: signatures_pin_def)
    with Some parts(3) show ?thesis
      by (auto simp: joinManifestFloor_def checkManifestAgainstFloor_def joinVersioned_def buildEnvironmentFloor_def Let_def
          split: if_splits)
  qed (simp add: joinManifestFloor_def)
  let ?joined = "fst (joinEnvironmentFloor env (Some floor) ?built)"
  have "joinEnvironmentFloor env (Some floor) ?built = (?joined, []) \<and> ef_pullEpoch ?joined = max (ef_pullEpoch floor) epoch \<and>
      ef_metaVersion ?joined = me_metaVersion (sn_environment s) \<and>
      ef_metaSigHashHex ?joined = me_metaSigHashHex (sn_environment s) \<and>
      ef_manifest ?joined = ef_manifest ?built \<and> map_of (ef_variables ?joined) = map_of (ef_variables ?built)"
    by (simp add: joinEnvironmentFloor_def meta manifest case_prod_beta variables built)
  with passed_values_fresh [OF assms(1) pinned assms(3)] show ?thesis by blast
qed

definition demo_signed_hash :: "nat \<Rightarrow> ustr" where
  "demo_signed_hash n = encode_hex (replicate 32 (word_of_nat n))"

text \<open>The statements behind the example: two versions of a value and of a manifest, three metadata statements.\<close>

definition stated_value :: "int \<Rightarrow> int \<Rightarrow> value_signature_context" where
  "stated_value version epoch =
     \<lparr>val_suite = SUITE_ID, val_projectId = lit ''acme'', val_environmentId = lit ''prod'', val_epoch = epoch,
      val_variableId = lit ''var-1'', val_version = version, val_nonceHex = encode_hex (replicate 12 7),
      val_ciphertextHex = demo_signed_hash 10, val_prevValueSigHashHex = demo_signed_hash 1,
      val_writerUserId = lit ''alice'', val_chainHeadHashHex = demo_signed_hash 11, val_chainHeadSeq = 8\<rparr>"

definition stated_manifest :: "int \<Rightarrow> int \<Rightarrow> env_manifest_context" where
  "stated_manifest version epoch =
     \<lparr>man_suite = SUITE_ID, man_projectId = lit ''acme'', man_environmentId = lit ''prod'', man_epoch = epoch,
      man_manifestVersion = version, man_variablesDigestHex = demo_signed_hash 12, man_envMetaVersion = 1,
      man_envMetaSigHashHex = demo_signed_hash 5, man_prevManifestSigHashHex = demo_signed_hash 13,
      man_issuerUserId = lit ''alice'', man_chainHeadHashHex = demo_signed_hash 11, man_chainHeadSeq = 8\<rparr>"

definition stated_meta :: "string \<Rightarrow> string \<Rightarrow> int \<Rightarrow> meta_statement_context" where
  "stated_meta var status version =
     \<lparr>met_suite = SUITE_ID, met_projectId = lit ''acme'', met_environmentId = lit ''prod'',
      met_target = Target_Variable (lit var), met_name = lit ''TOKEN'', met_status = lit status, met_layoutVersion = Some 3,
      met_schema = Some \<lparr>sch_varType = lit ''url'', sch_required = lit ''true'', sch_description = [],
        sch_maxAgeDays = Some []\<rparr>,
      met_metaVersion = version, met_prevMetaSigHashHex = [], met_authorUserId = lit ''alice'',
      met_chainHeadHashHex = demo_signed_hash 11, met_chainHeadSeq = 8\<rparr>"

definition demo_contexts :: signed_contexts where
  "demo_contexts =
     \<lparr>sc_values = [stated_value 2 1, stated_value 3 2], sc_manifests = [stated_manifest 3 1, stated_manifest 4 2],
      sc_metas = [stated_meta ''var-1'' ''active'' 1, stated_meta ''var-2'' ''declared'' 1, stated_meta ''var-2'' ''deleted'' 2]\<rparr>"

text \<open>A hash function that tells these statements apart.\<close>

definition demo_statement_digest :: "bytes \<Rightarrow> bytes" where
  "demo_statement_digest b = replicate 32 (word_of_nat (length (takeWhile (\<lambda>m. m \<noteq> Accepted b)
     (map (\<lambda>c. with_bytes (buildValueSignedBytes c) Accepted) (sc_values demo_contexts) @
      map (\<lambda>c. with_bytes (buildEnvManifestSignedBytes c) Accepted) (sc_manifests demo_contexts) @
      map buildMetaSignedBytes (sc_metas demo_contexts)))))"

definition stated :: "ustr crypto_result \<Rightarrow> ustr" where
  "stated r = (case r of Accepted h \<Rightarrow> h | _ \<Rightarrow> [])"

abbreviation value_hash :: "int \<Rightarrow> int \<Rightarrow> ustr" where
  "value_hash v e \<equiv> stated (computeValueSignedBytesHash demo_statement_digest (stated_value v e))"

abbreviation manifest_hash :: "int \<Rightarrow> int \<Rightarrow> ustr" where
  "manifest_hash v e \<equiv> stated (computeEnvManifestSignedBytesHash demo_statement_digest (stated_manifest v e))"

abbreviation meta_hash :: "string \<Rightarrow> string \<Rightarrow> int \<Rightarrow> ustr" where
  "meta_hash var status v \<equiv> stated (computeMetaSignedBytesHash demo_statement_digest (stated_meta var status v))"

lemma takeWhile_nth: "x \<in> set xs \<Longrightarrow> xs ! length (takeWhile (\<lambda>m. m \<noteq> x) xs) = x"
  by (induction xs) auto

lemma takeWhile_index:
  "x \<in> set xs \<Longrightarrow> y \<in> set xs \<Longrightarrow> length (takeWhile (\<lambda>m. m \<noteq> x) xs) = length (takeWhile (\<lambda>m. m \<noteq> y) xs) \<Longrightarrow> x = y"
  using takeWhile_nth by metis

lemma demo_digest_free: "collision_free_on demo_statement_digest (signed_inputs demo_contexts)"
proof -
  let ?known = "map (\<lambda>c. with_bytes (buildValueSignedBytes c) Accepted) (sc_values demo_contexts) @
      map (\<lambda>c. with_bytes (buildEnvManifestSignedBytes c) Accepted) (sc_manifests demo_contexts) @
      map buildMetaSignedBytes (sc_metas demo_contexts)"
  let ?index = "\<lambda>b. length (takeWhile (\<lambda>m. m \<noteq> Accepted b) ?known)"
  have known: "(Accepted b :: bytes crypto_result) \<in> set ?known" if "b \<in> signed_inputs demo_contexts" for b
    using that unfolding signed_inputs_def by (force simp: with_bytes_def)
  have small: "?index b < 256" for b
  proof -
    have "?index b \<le> length ?known" by (rule length_takeWhile_le)
    then show ?thesis by (simp add: demo_contexts_def)
  qed
  have "b = b'" if "b \<in> signed_inputs demo_contexts" "b' \<in> signed_inputs demo_contexts"
    "demo_statement_digest b = demo_statement_digest b'" for b b'
  proof -
    have "(word_of_nat (?index b) :: 8 word) = word_of_nat (?index b')"
      using that(3) unfolding demo_statement_digest_def by (simp del: map_append set_append)
    then have "unat (word_of_nat (?index b) :: 8 word) = unat (word_of_nat (?index b') :: 8 word)" by (rule arg_cong)
    then have "?index b = ?index b'" using small [of b] small [of b'] by (simp add: unat_of_nat)
    from takeWhile_index [OF known [OF that(1)] known [OF that(2)] this] show ?thesis by simp
  qed
  then show ?thesis by (simp add: collision_free_on_def)
qed

lemma demo_statement_digest_length: "length (demo_statement_digest b) = 32"
  by (simp add: demo_statement_digest_def)

lemma small_counters: "k \<in> {1, 2, 3, 4, 8} \<Longrightarrow> \<not> counter_invalid k"
  by (auto simp: counter_invalid_def safe_int_def max_safe_integer_def)

lemma demo_signed_hash_texts [simp]:
  "isLowercaseHexOfLength (demo_signed_hash n) SHA256_HEX_LENGTH" "length (demo_signed_hash n) = 64"
  "short_text (demo_signed_hash n)" "well_formed (demo_signed_hash n)" "decode_hex (demo_signed_hash n) \<noteq> None"
proof -
  show hex: "isLowercaseHexOfLength (demo_signed_hash n) SHA256_HEX_LENGTH"
    by (simp add: demo_signed_hash_def isLowercaseHexOfLength_def SHA256_HEX_LENGTH_def)
  show "decode_hex (demo_signed_hash n) \<noteq> None" by (simp add: demo_signed_hash_def)
  show "length (demo_signed_hash n) = 64" by (simp add: demo_signed_hash_def)
  show "short_text (demo_signed_hash n)" by (simp add: short_text_def demo_signed_hash_def)
  show "well_formed (demo_signed_hash n)" by (rule hex_of_length_wf [OF hex])
qed

lemma stated_short [simp]: "length s \<le> 1000 \<Longrightarrow> short_text (lit s)" "short_text []" "short_text SUITE_ID" "lit s = [] \<longleftrightarrow> s = []"
  by (simp_all add: short_text_def SUITE_ID_def lit_def)

lemma stated_values:
  assumes "(v, e) \<in> {(2, 1), (3, 2)}"
  shows "computeValueSignedBytesHash demo_statement_digest (stated_value v e) = Accepted (value_hash v e)"
    and "hash_hex (value_hash v e)"
proof -
  have "isLowercaseHexOfLength (encode_hex (replicate 12 7)) NONCE_HEX_LENGTH"
    by (simp add: isLowercaseHexOfLength_def NONCE_HEX_LENGTH_def)
  then have valid: "valueContextInvalidField (stated_value v e) = None"
    using assms small_counters by (auto simp: stated_value_def valueContextInvalidField_def valueNumericFieldInvalid_def
        valueHexFieldInvalid_def MIN_CIPHERTEXT_HEX_LENGTH_def SUITE_ID_def)
  have "list_all short_text (value_texts (stated_value v e))"
    by (simp add: value_texts_def stated_value_def) (simp add: short_text_def)
  from value_bytes_defined [OF valid this] valid
  show "computeValueSignedBytesHash demo_statement_digest (stated_value v e) = Accepted (value_hash v e)"
    "hash_hex (value_hash v e)"
    by (auto simp: computeValueSignedBytesHash_def require_valid_def with_bytes_def stated_def hash_hex_def
        demo_statement_digest_length)
qed

lemma stated_manifests:
  assumes "(v, e) \<in> {(3, 1), (4, 2)}"
  shows "computeEnvManifestSignedBytesHash demo_statement_digest (stated_manifest v e) = Accepted (manifest_hash v e)"
    and "hash_hex (manifest_hash v e)"
proof -
  have valid: "manifestContextInvalidField (stated_manifest v e) = None"
    using assms small_counters by (auto simp: stated_manifest_def manifestContextInvalidField_def manifestNumericFieldInvalid_def
        manifestHexFieldInvalid_def SUITE_ID_def)
  have "list_all short_text (manifest_texts (stated_manifest v e))"
    by (simp add: manifest_texts_def stated_manifest_def)
  from manifest_bytes_defined [OF valid this] valid
  show "computeEnvManifestSignedBytesHash demo_statement_digest (stated_manifest v e) = Accepted (manifest_hash v e)"
    "hash_hex (manifest_hash v e)"
    by (auto simp: computeEnvManifestSignedBytesHash_def require_valid_def with_bytes_def stated_def hash_hex_def
        demo_statement_digest_length)
qed

lemma stated_metas:
  assumes "(var, status, v) \<in> {(''var-1'', ''active'', 1), (''var-2'', ''declared'', 1), (''var-2'', ''deleted'', 2)}"
  shows "computeMetaSignedBytesHash demo_statement_digest (stated_meta var status v) = Accepted (meta_hash var status v)"
    and "hash_hex (meta_hash var status v)"
    and "selectMetaLayout (stated_meta var status v) = Accepted l \<Longrightarrow> list_all well_formed (meta_texts (stated_meta var status v) l)"
proof -
  let ?c = "stated_meta var status v"
  let ?l = "Layout_3 (lit var) \<lparr>sch_varType = lit ''url'', sch_required = lit ''true'', sch_description = [], sch_maxAgeDays = Some []\<rparr>"
  have age: "isMetaMaxAgeDays []" unfolding declarable_ages by simp
  have select: "selectMetaLayout ?c = Accepted ?l"
    using small_counters [of 3] by (simp add: selectMetaLayout_def stated_meta_def metaLayoutVersionOf_def
        SUPPORTED_META_LAYOUT_VERSIONS_def layoutV3Of_def)
  moreover have "metaContextInvalidField ?c ?l = None"
    using assms age small_counters by (auto simp: stated_meta_def metaContextInvalidField_def coordinateFieldInvalid_def
        layoutV3FieldInvalid_def metaNumericFieldInvalid_def metaHexFieldInvalid_def META_VAR_TYPES_def SUITE_ID_def)
  ultimately have layout: "checkedMetaLayout ?c = Accepted ?l" by (simp add: checkedMetaLayout_Accepted)
  have "list_all short_text (meta_texts ?c ?l)"
    using assms by (auto simp: meta_texts_def stated_meta_def)
  from meta_bytes_defined [OF layout this] layout
  show "computeMetaSignedBytesHash demo_statement_digest ?c = Accepted (meta_hash var status v)"
    "hash_hex (meta_hash var status v)"
    by (auto simp: computeMetaSignedBytesHash_def with_bytes_def stated_def hash_hex_def demo_statement_digest_length)
  show "list_all well_formed (meta_texts ?c l)" if "selectMetaLayout ?c = Accepted l"
    using that select assms by (auto simp: meta_texts_def stated_meta_def SUITE_ID_def)
qed

lemma demo_contexts_well_formed: "contexts_well_formed demo_contexts"
proof -
  have "well_formed (encode_hex (replicate 12 7))" by (intro well_formed_hex) simp
  then show ?thesis
    using stated_metas(3) by (auto simp: contexts_well_formed_def demo_contexts_def value_texts_def stated_value_def
        manifest_texts_def stated_manifest_def SUITE_ID_def split: outcome.split)
qed

definition demo_pulled_value :: verified_pulled_value where
  "demo_pulled_value =
     \<lparr>pv_variableId = lit ''var-1'', pv_name = lit ''TOKEN'', pv_version = 3, pv_epoch = 2, pv_nonceHex = [],
      pv_ciphertextHex = [], pv_prevValueSigHashHex = demo_signed_hash 1, pv_signedBytesHashHex = value_hash 3 2,
      pv_metaVersion = 1, pv_metaSignedBytesHashHex = meta_hash ''var-1'' ''active'' 1, pv_prevMetaSigHashHex = [],
      pv_valueChainHeadSeq = 8, pv_valueChainHeadHashHex = [], pv_metaChainHeadSeq = 5, pv_metaChainHeadHashHex = [],
      pv_valueSignatureHex = [], pv_writerUserId = lit ''alice'', pv_writerKeyFingerprintHex = [], pv_metaSignatureHex = [],
      pv_authorUserId = lit ''alice'', pv_authorKeyFingerprintHex = [], pv_layoutVersion = 1, pv_schema = None\<rparr>"

definition demo_meta :: "int \<Rightarrow> ustr \<Rightarrow> verified_meta_evidence" where
  "demo_meta version hash =
     \<lparr>me_status = Status_Active, me_metaVersion = version, me_metaSigHashHex = hash, me_chainHeadSeq = 8,
      me_chainHeadHashHex = [], me_signatureHex = [], me_authorUserId = lit ''alice'', me_authorKeyFingerprintHex = []\<rparr>"

definition demo_tombstone :: verified_tombstone where
  "demo_tombstone =
     verified_meta_evidence.extend ((demo_meta 2 (meta_hash ''var-2'' ''deleted'' 2))\<lparr>me_status := Status_Deleted\<rparr>)
       (verified_tombstone.fields (lit ''var-2'') (lit ''OLD''))"

definition demo_pull :: verified_pull_snapshot where
  "demo_pull =
     \<lparr>sn_environment = demo_meta 1 (demo_signed_hash 5), sn_variables = [demo_pulled_value], sn_declared = [],
      sn_tombstones = [demo_tombstone],
      sn_manifest = \<lparr>vm_manifestVersion = 4, vm_epoch = 2, vm_variablesDigestHex = [], vm_envMetaVersion = 1,
        vm_envMetaSigHashHex = [], vm_prevManifestSigHashHex = [], vm_signedBytesHashHex = manifest_hash 4 2,
        vm_chainHeadSeq = 8, vm_chainHeadHashHex = [], vm_signatureHex = [], vm_issuerUserId = lit ''alice'',
        vm_issuerKeyFingerprintHex = []\<rparr>\<rparr>"

definition demo_environment_floor :: environment_floor where
  "demo_environment_floor =
     \<lparr>ef_pullEpoch = 1, ef_observedEpoch = 2, ef_metaVersion = 1, ef_metaSigHashHex = demo_signed_hash 5,
      ef_manifest = Some \<lparr>mf_manifestVersion = 3, mf_epoch = 1, mf_manifestSigHashHex = manifest_hash 3 1\<rparr>,
      ef_variables = [(lit ''var-1'', Active_Floor 2 1 (value_hash 2 1) 1 (meta_hash ''var-1'' ''active'' 1)),
        (lit ''var-2'', Declared_Floor 1 (meta_hash ''var-2'' ''declared'' 1))]\<rparr>"

lemma signed_hash_ok [simp]: "hash_hex (demo_signed_hash n)"
  by (simp add: hash_hex_def demo_signed_hash_def)

lemma demo_ids: "isVariableId (lit ''var-1'')" "isVariableId (lit ''var-2'')" "lit ''var-1'' \<noteq> lit ''var-2''"
  by (simp_all add: isVariableId_def resource_id_def id_first_units_def lit_def)

lemma demo_pull_passes: "checkEnvironmentPull (Some demo_environment_floor) demo_pull = None"
  using demo_ids(3)
  by (simp add: checkEnvironmentPull_def checkFloorCommon_def checkMeta_None evidence_advances_def check_floor_variable_def
      Let_def index_by_def demo_environment_floor_def demo_pull_def demo_meta_def demo_pulled_value_def demo_tombstone_def
      checkFloorActive_def checkActiveVariable_def checkFloorDeclared_def meta_of_def metaEvidenceOf_def
      verified_meta_evidence.truncate_def verified_meta_evidence.extend_def verified_tombstone.fields_def
      checkManifestAgainstFloor_def checkManifestEpochBaseline_def stale_value_def)

theorem passed_pull_extends_floor_witness:
  "\<exists>joined. joinEnvironmentFloor (lit ''prod'') (Some demo_environment_floor) (buildEnvironmentFloor 2 demo_pull) = (joined, []) \<and>
     ef_pullEpoch joined = 2 \<and>
     map_of (ef_variables joined) (lit ''var-1'') =
       Some (Active_Floor 3 2 (value_hash 3 2) 1 (meta_hash ''var-1'' ''active'' 1)) \<and>
     map_of (ef_variables joined) (lit ''var-2'') = Some (Deleted_Floor 2 (meta_hash ''var-2'' ''deleted'' 2))"
proof -
  have "valid_environment demo_environment_floor"
    using demo_ids by (simp add: valid_environment_def demo_environment_floor_def natural_int_def positive_int_def safe_int_def
        max_safe_integer_def valid_manifest_def keys_ok_def stated_values(2) stated_manifests(2) stated_metas(2))
  moreover have "snapshot_ids_ok demo_pull"
    using demo_ids(3) by (auto simp: snapshot_ids_ok_def demo_pull_def demo_pulled_value_def
        demo_tombstone_def verified_meta_evidence.extend_def verified_tombstone.fields_def demo_meta_def)
  moreover have "floor_read demo_statement_digest demo_contexts demo_environment_floor"
    using stated_values(1) stated_manifests(1) stated_metas(1)
    by (simp add: floor_read_def demo_environment_floor_def value_read_def manifest_read_def meta_read_def demo_contexts_def)
      (simp add: stated_value_def stated_manifest_def stated_meta_def lit_def)
  moreover have "pull_read demo_statement_digest demo_contexts demo_pull"
    using stated_values(1) stated_manifests(1) stated_metas(1)
    by (simp add: pull_read_def demo_pull_def demo_pulled_value_def demo_tombstone_def demo_meta_def
        verified_meta_evidence.extend_def verified_tombstone.fields_def value_read_def manifest_read_def meta_read_def
        demo_contexts_def)
      (simp add: stated_value_def stated_manifest_def stated_meta_def lit_def)
  ultimately obtain joined where joined:
    "joinEnvironmentFloor (lit ''prod'') (Some demo_environment_floor) (buildEnvironmentFloor 2 demo_pull) = (joined, [])"
    "ef_pullEpoch joined = max (ef_pullEpoch demo_environment_floor) 2"
    "map_of (ef_variables joined) = map_of (ef_variables (buildEnvironmentFloor 2 demo_pull))"
    using passed_pull_extends_floor [OF demo_pull_passes _ _ _ _ demo_contexts_well_formed demo_digest_free] by blast
  then show ?thesis
    using demo_ids(3) by (simp add: buildEnvironmentFloor_def Let_def demo_environment_floor_def demo_pull_def
        demo_pulled_value_def demo_tombstone_def pulled_floor_def tombstone_floor_def verified_meta_evidence.extend_def
        verified_tombstone.fields_def demo_meta_def)
qed

end
