(* ===== verification/Floor_Guarantees.thy ===== *)
theory Floor_Guarantees
  imports Floor_Example Floor_Pull Statement_Example
begin

text \<open>
  What the floor guarantees: however the log was written, the floor is the join of its observations; it
  only advances; a pull that passes the check agrees with it; a chain that passes the check extends it.
\<close>

section \<open>The log and its floor\<close>

definition observations :: "floor_codec \<Rightarrow> ustr list \<Rightarrow> floor_log_record list" where
  "observations codec writes = filter (\<lambda>r. record_head r \<noteq> None) (file_records codec (concat writes))"

definition stored_floor :: "floor_codec \<Rightarrow> ustr list \<Rightarrow> project_floor" where
  "stored_floor codec writes = fo_floor (readAndFold codec (concat writes))"

text \<open>A version and the hash of its signed bytes determine the epoch in them.\<close>

definition epochs_pinned :: "(int \<times> ustr \<Rightarrow> int) \<Rightarrow> floor_log_record \<Rightarrow> bool" where
  "epochs_pinned epoch_of r \<longleftrightarrow>
     (\<forall>env e. record_environment r = Some (env, e) \<longrightarrow>
        (\<forall>m. ef_manifest e = Some m \<longrightarrow> mf_epoch m = epoch_of (mf_manifestVersion m, mf_manifestSigHashHex m)) \<and>
        (\<forall>var v ep h mv mh. map_of (ef_variables e) var = Some (Active_Floor v ep h mv mh) \<longrightarrow> ep = epoch_of (v, h)))"

lemma written_valid:
  "codec_ok codec \<Longrightarrow> list_all (whole_or_cut codec) writes \<Longrightarrow> list_all valid_record (file_records codec (concat writes))"
proof (induction writes rule: rev_induct)
  case (snoc w writes)
  then obtain n records where w: "w = take n (append_payload codec records)" by (auto simp: whole_or_cut_def)
  obtain j where "file_records codec (concat writes @ take n (append_payload codec records)) =
      file_records codec (concat writes) @ filter valid_record (take j records)"
    using written_records [OF snoc.prems(1)] .
  moreover have "list_all valid_record (file_records codec (concat writes))" using snoc by simp
  ultimately show ?case by (auto simp: w list_all_iff)
qed (simp add: file_records_empty)

lemma record_good:
  assumes "valid_record r" and "epochs_pinned epoch_of r"
  shows "project_good epoch_of (record_view r)"
proof (cases "record_environment r")
  case None
  then show ?thesis by (simp add: record_view_def project_good_parts)
next
  case (Some p)
  obtain env e where p: "p = (env, e)" by (cases p)
  have "meta_bottom_ok (ef_metaVersion e, ef_metaSigHashHex e)"
    using assms(1) Some p by (cases r) (auto simp: meta_bottom_ok_def valid_environment_def natural_int_def positive_int_def
        emptyEnvironmentFloor_def split: if_splits)
  moreover have "pred_option (manifest_good epoch_of) (ef_manifest e)"
    using assms(2) Some p by (auto simp: epochs_pinned_def manifest_good_def manifest_key_def option.pred_set)
  moreover have "pred_option (variable_good epoch_of) (map_of (ef_variables e) k)" for k
  proof (cases "map_of (ef_variables e) k")
    case (Some f)
    have "ep = epoch_of (v, h)" if "f = Active_Floor v ep h mv mh" for v ep h mv mh
      using assms(2) \<open>record_environment r = Some p\<close> Some that unfolding epochs_pinned_def p by blast
    with Some show ?thesis by (cases f) (simp_all add: variable_good_def value_good_def value_key_def)
  qed simp
  ultimately show ?thesis
    using Some by (simp add: p record_view_def project_good_parts env_good_def env_view_def pair_good_def fun_good_def)
qed

lemma fold_no_snapshots: "foldl applyRecord s rs = foldl applyRecord s (filter (\<lambda>r. \<not> snapshot_record r) rs)"
proof (induction rs arbitrary: s)
  case (Cons r rs)
  then show ?case by (cases r) auto
qed simp


lemma stored_floor_fold:
  assumes "codec_ok codec" and "floor_file codec writes"
  shows "stored_floor codec writes = floor_of_state (foldl applyRecord empty_fold (file_records codec (concat writes)))"
  unfolding stored_floor_def by (rule readAndFold_sound [OF floor_file_sound [OF assms]])

lemma records_without_head: "record_head r = None \<Longrightarrow> record_view r = (None, \<lambda>_. None)"
  by (cases r) (simp_all add: record_view_def)

lemma fold_observations:
  "foldl project_join v (map record_view rs) = foldl project_join v (map record_view (filter (\<lambda>r. record_head r \<noteq> None) rs))"
  by (induction rs arbitrary: v) (simp_all add: records_without_head project_join_nothing)

lemma empty_view: "state_view empty_fold = (None, \<lambda>_. None)"
  by (simp add: state_view_def empty_fold_def fun_eq_iff)

lemma floor_of_state_view: "floor_view (floor_of_state s) = state_view s"
  by (simp add: floor_view_def floor_of_state_def state_view_def)

lemma stored_view:
  assumes "codec_ok codec" and "floor_file codec writes"
    and "\<forall>r \<in> set (observations codec writes). epochs_pinned epoch_of r"
  shows "floor_view (stored_floor codec writes) =
      foldl project_join (None, \<lambda>_. None) (map record_view (observations codec writes))"
    and "list_all (project_good epoch_of) (map record_view (observations codec writes))"
proof -
  let ?rs = "file_records codec (concat writes)"
  have valid: "list_all valid_record ?rs"
    using written_valid [OF assms(1) floor_file_writes [OF assms(2)]] .
  have "project_good epoch_of (record_view r) \<and> record_keys_ok r" if "r \<in> set ?rs" for r
  proof (cases "record_head r")
    case None
    then show ?thesis using that valid
      by (auto simp: records_without_head project_good_parts list_all_iff intro: valid_record_keys)
  next
    case Some
    then show ?thesis using that valid assms(3)
      by (auto simp: observations_def list_all_iff intro: record_good valid_record_keys)
  qed
  then have good: "list_all (\<lambda>r. project_good epoch_of (record_view r) \<and> record_keys_ok r) ?rs"
    by (simp add: list_all_iff)
  have "floor_view (stored_floor codec writes) = state_view (foldl applyRecord empty_fold ?rs)"
    by (simp add: stored_floor_fold [OF assms(1,2)] floor_of_state_view)
  also have "\<dots> = foldl project_join (None, \<lambda>_. None) (map record_view ?rs)"
    using fold_view [of epoch_of empty_fold, OF _ good] by (simp add: empty_view project_good_parts)
  also have "\<dots> = foldl project_join (None, \<lambda>_. None) (map record_view (observations codec writes))"
    unfolding observations_def by (rule fold_observations)
  finally show "floor_view (stored_floor codec writes) =
      foldl project_join (None, \<lambda>_. None) (map record_view (observations codec writes))" .
  show "list_all (project_good epoch_of) (map record_view (observations codec writes))"
    using good by (auto simp: observations_def list_all_iff)
qed

text \<open>
  C37. Snapshots are transparent: whatever sequence of appends and compactions wrote the log, by any number
  of processes, with writes cut off at any point and snapshots taken from any earlier state of the file,
  the floor that folding from the latest snapshot gives is the floor that folding every record since the
  log began gives, its conflicts and open intents included.
\<close>

theorem snapshots_are_transparent:
  assumes "codec_ok codec" and "floor_file codec writes"
  shows "stored_floor codec writes =
    floor_of_state (foldl applyRecord empty_fold
      (filter (\<lambda>r. \<not> snapshot_record r) (file_records codec (concat writes))))"
  using stored_floor_fold [OF assms] fold_no_snapshots by simp

lemma demo_observations:
  "observations demo_codec demo_file = [floor_first, floor_second]"
  "observations demo_codec demo_file_later = [floor_second, floor_first, floor_second]"
proof -
  have heads: "record_head floor_first \<noteq> None" "record_head floor_second \<noteq> None"
    by (simp_all add: floor_first_def floor_second_def)
  have none: "filter (\<lambda>r. record_head r \<noteq> None) snapshots = []" if "list_all snapshot_record snapshots" for snapshots
    using that by (induction snapshots) (auto elim: snapshot_record.elims)
  show "observations demo_codec demo_file = [floor_first, floor_second]"
    using demo_file_records(1) heads by (simp add: observations_def)
  obtain snapshots where "list_all snapshot_record snapshots"
    "file_records demo_codec (concat demo_file_later) = [floor_second] @ snapshots @ [floor_first, floor_second]"
    using demo_file_records(2) by blast
  with none [of snapshots] heads show "observations demo_codec demo_file_later = [floor_second, floor_first, floor_second]"
    by (simp add: observations_def)
qed

lemma demo_epochs_pinned: "r \<in> {floor_first, floor_second} \<Longrightarrow> epochs_pinned (\<lambda>_. 2) r"
  by (auto simp: epochs_pinned_def floor_first_def floor_second_def demo_manifest_floor_def emptyEnvironmentFloor_def)

theorem snapshots_are_transparent_witness:
  "stored_floor demo_codec demo_file_later =
     floor_of_state (foldl applyRecord empty_fold [floor_second, floor_first, floor_second])"
proof -
  obtain snapshots where "list_all snapshot_record snapshots"
    "file_records demo_codec (concat demo_file_later) = [floor_second] @ snapshots @ [floor_first, floor_second]"
    using demo_file_records(2) by blast
  moreover from this(1) have "filter (\<lambda>r. \<not> snapshot_record r) snapshots = []" by (induction snapshots) auto
  ultimately show ?thesis
    using snapshots_are_transparent [OF demo_codec_ok demo_files(2)] by (simp add: floor_first_def floor_second_def)
qed

text \<open>
  The floor is the join of its observations: two logs that hold the same observations, in any order
  and with any repetitions, intents and snapshots between, have the same chain head and the same
  environments, provided a signed version pins its epoch.
\<close>

lemma floor_depends_on_observations:
  assumes "codec_ok codec" and "floor_file codec writes" and "floor_file codec writes'"
    and "set (observations codec writes) = set (observations codec writes')"
    and "\<forall>r \<in> set (observations codec writes). epochs_pinned epoch_of r"
  shows "floor_view (stored_floor codec writes) = floor_view (stored_floor codec writes')"
proof -
  have pinned': "\<forall>r \<in> set (observations codec writes'). epochs_pinned epoch_of r" using assms(4,5) by simp
  have "foldl project_join (None, \<lambda>_. None) (map record_view (observations codec writes)) =
      foldl project_join (None, \<lambda>_. None) (map record_view (observations codec writes'))"
    using stored_view(2) [OF assms(1,2,5)] assms(4)
    by (intro projects.fold_set [of epoch_of]) (simp_all add: project_good_parts)
  then show ?thesis
    by (simp add: stored_view(1) [OF assms(1,2,5)] stored_view(1) [OF assms(1,3) pinned'])
qed

section \<open>The floor only advances\<close>






























section \<open>The chain and the floor\<close>

text \<open>
  C36. A chain that passes the check extends the floor's chain: when the floor's head is the head of a
  chain verified before, a verified chain that \<open>checkChainFloor\<close> lets through starts with all of that
  chain's entries, so the server can neither shorten nor fork what the client has seen. The conditions, as
  in C5: every text of the entries of both chains is well formed (entries that differ only in lone surrogates
  have the same bytes, hashes and signatures), SHA-256 does not collide on the two chains' canonical byte
  strings, and the new chain has fewer than 2^32 entries.
\<close>

theorem checked_chain_extends_floor:
  assumes "verifyChain api vs = Accepted st" and "pf_chainHead known = Some (chain_head_of st)"
    and "verifyChainWithHistory api ws = Accepted (st', h)" and "length ws < 2 ^ 32"
    and "checkChainFloor known st' h = None"
    and "map read_entry vs = map Some es" and "map read_entry ws = map Some ds"
    and "\<forall>x \<in> set (es @ ds). well_formed_entry x"
    and "collision_free_on (api_sha256 api) (entry_byte_strings (es @ ds))"
  shows "\<exists>newer. ds = es @ newer"
proof -
  have hash: "entryHashAt h (st_headSeq st) = Some (st_headHashHex st)"
    using assms(2,5) by (auto simp: checkChainFloor_def chain_head_of_def Let_def split: if_splits)
  obtain v es' where "recorded_run api ws = Accepted v" "history_agrees v h es'"
    using assms(3) by (elim with_history_run)
  then have "headSeq h = int (length ws)"
    using recorded_run_seq by (simp add: headSeq_def history_agrees_def)
  with entryHashAt_in_range [OF hash] obtain k where k: "st_headSeq st = int k" "1 \<le> k" "k \<le> length ws"
    by (intro that [of "nat (st_headSeq st)"]) (auto simp: in_range_def)
  obtain s where s: "verifyChain api (take k ws) = Accepted s" "entryHashAt h (int k) = Some (st_headHashHex s)"
    by (rule prefix_answers [OF assms(3,4) k(2,3)], rule that)
  have "map read_entry (take k ws) = map Some (take k ds)"
    using assms(7) by (simp add: take_map [symmetric])
  moreover have "\<forall>x \<in> set (es @ take k ds). well_formed_entry x" using assms(8) by (auto dest: in_set_takeD)
  moreover have "collision_free_on (api_sha256 api) (entry_byte_strings (es @ take k ds))"
    using assms(9) by (auto simp: collision_free_on_def entry_byte_strings_def dest: in_set_takeD)
  ultimately have "es = take k ds"
    using hash s k(1) assms(6) by (intro equal_heads_equal_entries [OF assms(1) s(1)]) simp_all
  then show ?thesis by (metis append_take_drop_id)
qed

theorem checked_chain_extends_floor_witness:
  "\<exists>st st'. verifyChain demo_api (demo_chain 6) = Accepted st \<and>
     verifyChainWithHistory demo_api (demo_chain 8) = Accepted (st', demo_index) \<and>
     checkChainFloor \<lparr>pf_chainHead = Some (chain_head_of st), pf_environments = [], pf_conflicts = [], pf_intents = []\<rparr>
       st' demo_index = None \<and>
     (\<exists>newer. take 8 demo_entries = take 6 demo_entries @ newer)"
proof -
  obtain st' where st': "verifyChainWithHistory demo_api (demo_chain 8) = Accepted (st', demo_index)"
    using demo_chain_index by blast
  have length: "length (demo_chain 8) < 2 ^ 32" by (simp add: length_demo_chain_8)
  have six: "take 6 (demo_chain 8) = demo_chain 6" by (simp add: demo_chain_def take_map)
  obtain st where st: "verifyChain demo_api (demo_chain 6) = Accepted st"
    and range: "in_range demo_index (int 6)" and hash: "entryHashAt demo_index (int 6) = Some (st_headHashHex st)"
    by (rule prefix_answers [OF st' length, of 6]) (use six length_demo_chain_8 in auto)
  let ?floor = "\<lparr>pf_chainHead = Some (chain_head_of st), pf_environments = [], pf_conflicts = [], pf_intents = []\<rparr>"
  obtain v es where "recorded_run demo_api (demo_chain 8) = Accepted v" "st' = at_head v"
    using st' by (elim with_history_run)
  then have seq: "st_headSeq st = 6" "st_headSeq st' = 8"
    using recorded_run_seq accepted_state_parts(1) [OF st] length_demo_chain_8
    by (simp_all add: at_head_def sealChainState_def demo_chain_def length_demo_entries)
  have check: "checkChainFloor ?floor st' demo_index = None"
    using hash seq by (simp add: checkChainFloor_def chain_head_of_def Let_def)
  have reads: "map read_entry (demo_chain n) = map Some (take n demo_entries)" for n
    by (simp add: demo_chain_def read_write_entry comp_def)
  have entries: "set (take n demo_entries) \<subseteq> set (take 11 demo_entries)" if "n \<le> 11" for n
    using that by (rule set_take_subset_set_take)
  then have sub: "set (take 6 demo_entries @ take 8 demo_entries) \<subseteq> set (take 11 demo_entries @ take 11 demo_entries)"
    using entries [of 6] entries [of 8] by auto
  then have wf: "\<forall>x \<in> set (take 6 demo_entries @ take 8 demo_entries). well_formed_entry x"
    using demo_well_formed by blast
  have free: "collision_free_on (api_sha256 demo_api) (entry_byte_strings (take 6 demo_entries @ take 8 demo_entries))"
  proof -
    have "entry_byte_strings (take 6 demo_entries @ take 8 demo_entries) \<subseteq>
        entry_byte_strings (take 11 demo_entries @ take 11 demo_entries)"
      using sub unfolding entry_byte_strings_def by blast
    then show ?thesis using demo_collision_free unfolding collision_free_on_def demo_api_simps by blast
  qed
  have "\<exists>newer. take 8 demo_entries = take 6 demo_entries @ newer"
    by (rule checked_chain_extends_floor [OF st _ st' length check reads reads wf free]) simp
  with st st' check show ?thesis by blast
qed

end
