(* ===== verification/Chain_Mirror.thy ===== *)
theory Chain_Mirror
  imports History_Guarantees
begin

text \<open>
  The audit mirror of the chain (\<open>packages/core/src/audit.ts\<close>): every accepted entry is copied into an
  audit row, and an approval that completes a proposal adds the row of the operation it applied. The
  server writes these rows, the command line rebuilds them from the verified chain, and both read which
  approval completed which proposal from \<open>indexProposals\<close>. An exception of the mapping is
  \<^const>\<open>None\<close>. The last section is \<open>appliedOperations\<close> of \<open>apps/cli/src/chain-applied.ts\<close>.
\<close>

section \<open>The proposal index\<close>

text \<open>A \<open>propose\<close> entry, with the payload its operation carries.\<close>

record propose_entry =
  pe_entry :: chain_entry
  pe_payload :: propose_payload

record open_proposal =
  op_entry :: propose_entry
  op_lastApproveSeq :: "int option"

record indexed_proposal =
  ip_entry :: propose_entry
  ip_completedAtSeq :: "int option"

type_synonym proposal_index = "(ustr, indexed_proposal) js_map"

type_synonym collected_proposals = "(ustr, open_proposal) js_map \<times> ustr set"

definition collect_proposal :: "(int \<Rightarrow> ustr option) \<Rightarrow> chain_entry \<Rightarrow> collected_proposals \<Rightarrow> collected_proposals" where
  "collect_proposal hashAt entry collected =
     (case (collected, entry_operation entry) of
        ((proposals, withdrawn), Propose p) \<Rightarrow>
          (case hashAt (entry_seq entry) of
             None \<Rightarrow> (proposals, withdrawn)
           | Some hash \<Rightarrow>
               (AList.update hash
                  \<lparr>op_entry = \<lparr>pe_entry = entry, pe_payload = p\<rparr>, op_lastApproveSeq = None\<rparr> proposals, withdrawn))
      | ((proposals, withdrawn), Approve hash) \<Rightarrow>
          (case map_of proposals hash of
             None \<Rightarrow> (proposals, withdrawn)
           | Some proposal \<Rightarrow>
               (AList.update hash (proposal\<lparr>op_lastApproveSeq := Some (entry_seq entry)\<rparr>) proposals, withdrawn))
      | ((proposals, withdrawn), Withdraw hash) \<Rightarrow> (proposals, insert hash withdrawn)
      | ((proposals, withdrawn), Direct _) \<Rightarrow> (proposals, withdrawn))"

definition indexProposals :: "chain_entry list \<Rightarrow> (int \<Rightarrow> ustr option) \<Rightarrow> ustr set \<Rightarrow> proposal_index" where
  "indexProposals entries hashAt pendingHashes =
     (let (proposals, withdrawn) = fold (collect_proposal hashAt) entries ([], {}) in
      map (\<lambda>(hash, proposal).
          (hash, \<lparr>ip_entry = op_entry proposal,
                  ip_completedAtSeq =
                    (if hash \<notin> pendingHashes \<and> hash \<notin> withdrawn then op_lastApproveSeq proposal else None)\<rparr>))
        proposals)"

section \<open>The row of an operation\<close>

text \<open>
  The payloads of the rows, one form per event; the last argument of a payload that an applied row can
  have is the number of the proposal that carried it.
\<close>

datatype mirror_payload =
    Via_Payload int
  | Member_Added_Payload role scope_kind "environment_id list" "int option"
  | Role_Changed_Payload role scope_kind "environment_id list" "int option"
  | Environment_Created_Payload ustr "int option"
  | Epoch_Rotated_Payload ustr ustr "int option"
  | Server_Granted_Payload "environment_id list" "int option"
  | Checkpointed_Payload "checkpoint_environment_entry list" ustr "int option"
  | Policy_Changed_Payload "approval_target_op list" int "int option"
  | Proposed_Payload ustr int
  | Approved_Payload int bool
  | Withdrawn_Payload int
  | Device_Added_Payload fingerprint role scope_kind "environment_id list" "int option"
  | Device_Revoked_Payload "fingerprint list" "int option"

record mirror_tail =
  mt_event :: ustr
  mt_targetUserId :: "user_id option"
  mt_targetKeyFingerprintHex :: "fingerprint option"
  mt_environmentId :: "environment_id option"
  mt_epoch :: "int option"
  mt_payload :: "mirror_payload option"

text \<open>A row; the columns a mirror row never has (token, variable, version) are left out.\<close>

record audit_event_record = mirror_tail +
  ae_serverTs :: int
  ae_clientTs :: int
  ae_chainSeq :: int
  ae_actorType :: ustr
  ae_actorUserId :: user_id
  ae_actorKeyFingerprintHex :: fingerprint

record mirror_subject =
  ms_actor :: chain_actor
  ms_addedDeviceKeyFingerprintHex :: "fingerprint option"
  ms_viaProposalSeq :: "int option"
  ms_referenced :: "(int \<times> bool) option"

fun PROPOSABLE_MIRROR_EVENT_NAME :: "proposable_operation \<Rightarrow> ustr" where
  "PROPOSABLE_MIRROR_EVENT_NAME (Genesis _) = lit ''chain.genesis''"
| "PROPOSABLE_MIRROR_EVENT_NAME (Add_Member _) = lit ''chain.member_added''"
| "PROPOSABLE_MIRROR_EVENT_NAME (Remove_Member _) = lit ''chain.member_removed''"
| "PROPOSABLE_MIRROR_EVENT_NAME (Change_Role _) = lit ''chain.role_changed''"
| "PROPOSABLE_MIRROR_EVENT_NAME (Create_Environment _) = lit ''chain.environment_created''"
| "PROPOSABLE_MIRROR_EVENT_NAME (Delete_Environment _) = lit ''chain.environment_deleted''"
| "PROPOSABLE_MIRROR_EVENT_NAME (Rotate_Epoch _) = lit ''chain.epoch_rotated''"
| "PROPOSABLE_MIRROR_EVENT_NAME (Grant_Server _) = lit ''chain.server_granted''"
| "PROPOSABLE_MIRROR_EVENT_NAME (Revoke_Server _) = lit ''chain.server_revoked''"
| "PROPOSABLE_MIRROR_EVENT_NAME (Checkpoint _) = lit ''chain.checkpointed''"
| "PROPOSABLE_MIRROR_EVENT_NAME (Set_Approval_Policy _) = lit ''chain.approval_policy_changed''"
| "PROPOSABLE_MIRROR_EVENT_NAME (Add_Device _) = lit ''chain.device_added''"
| "PROPOSABLE_MIRROR_EVENT_NAME (Revoke_Device _) = lit ''chain.device_revoked''"

fun MIRROR_EVENT_NAME :: "chain_operation \<Rightarrow> ustr" where
  "MIRROR_EVENT_NAME (Direct inner) = PROPOSABLE_MIRROR_EVENT_NAME inner"
| "MIRROR_EVENT_NAME (Propose _) = lit ''chain.proposed''"
| "MIRROR_EVENT_NAME (Approve _) = lit ''chain.approved''"
| "MIRROR_EVENT_NAME (Withdraw _) = lit ''chain.proposal_withdrawn''"

definition CHAIN_MIRROR_EVENTS :: "ustr list" where
  "CHAIN_MIRROR_EVENTS =
     [lit ''chain.genesis'', lit ''chain.member_added'', lit ''chain.member_removed'', lit ''chain.role_changed'',
      lit ''chain.environment_created'', lit ''chain.environment_deleted'', lit ''chain.epoch_rotated'',
      lit ''chain.server_granted'', lit ''chain.server_revoked'', lit ''chain.checkpointed'',
      lit ''chain.approval_policy_changed'', lit ''chain.proposed'', lit ''chain.approved'',
      lit ''chain.proposal_withdrawn'', lit ''chain.device_added'', lit ''chain.device_revoked'']"

definition CHAIN_MIRROR_EVENT_PREFIX :: ustr where
  "CHAIN_MIRROR_EVENT_PREFIX = lit ''chain.''"

definition viaOnly :: "mirror_subject \<Rightarrow> mirror_payload option" where
  "viaOnly subject = map_option Via_Payload (ms_viaProposalSeq subject)"

definition event_only :: "ustr \<Rightarrow> mirror_tail" where
  "event_only event =
     \<lparr>mt_event = event, mt_targetUserId = None, mt_targetKeyFingerprintHex = None, mt_environmentId = None,
      mt_epoch = None, mt_payload = None\<rparr>"

fun mirror_proposable :: "proposable_operation \<Rightarrow> mirror_subject \<Rightarrow> mirror_tail option" where
  "mirror_proposable (Genesis p) s = Some ((event_only (lit ''chain.genesis''))
     \<lparr>mt_targetUserId := Some (actor_userId (ms_actor s)), mt_payload := viaOnly s\<rparr>)"
| "mirror_proposable (Add_Member p) s = Some ((event_only (lit ''chain.member_added''))
     \<lparr>mt_targetUserId := Some (am_targetUserId p),
      mt_payload := Some (Member_Added_Payload (am_role p) (scopeKind p) (scopeEnvironmentIds p) (ms_viaProposalSeq s))\<rparr>)"
| "mirror_proposable (Remove_Member target) s = Some ((event_only (lit ''chain.member_removed''))
     \<lparr>mt_targetUserId := Some target, mt_payload := viaOnly s\<rparr>)"
| "mirror_proposable (Change_Role p) s = Some ((event_only (lit ''chain.role_changed''))
     \<lparr>mt_targetUserId := Some (cr_targetUserId p),
      mt_payload := Some (Role_Changed_Payload (cr_newRole p) (scopeKind p) (scopeEnvironmentIds p) (ms_viaProposalSeq s))\<rparr>)"
| "mirror_proposable (Create_Environment p) s = Some ((event_only (lit ''chain.environment_created''))
     \<lparr>mt_environmentId := Some (ce_environmentId p), mt_epoch := Some 1,
      mt_payload := Some (Environment_Created_Payload (ce_dekCommitmentHex p) (ms_viaProposalSeq s))\<rparr>)"
| "mirror_proposable (Delete_Environment env) s = Some ((event_only (lit ''chain.environment_deleted''))
     \<lparr>mt_environmentId := Some env, mt_payload := viaOnly s\<rparr>)"
| "mirror_proposable (Rotate_Epoch p) s = Some ((event_only (lit ''chain.epoch_rotated''))
     \<lparr>mt_environmentId := Some (re_environmentId p), mt_epoch := Some (re_newEpoch p),
      mt_payload := Some (Epoch_Rotated_Payload (re_reason p) (re_dekCommitmentHex p) (ms_viaProposalSeq s))\<rparr>)"
| "mirror_proposable (Grant_Server p) s = Some ((event_only (lit ''chain.server_granted''))
     \<lparr>mt_targetKeyFingerprintHex := Some (gs_serverKeyFingerprintHex p),
      mt_payload := Some (Server_Granted_Payload (gs_scopeEnvironmentIds p) (ms_viaProposalSeq s))\<rparr>)"
| "mirror_proposable (Revoke_Server key) s = Some ((event_only (lit ''chain.server_revoked''))
     \<lparr>mt_targetKeyFingerprintHex := Some key, mt_payload := viaOnly s\<rparr>)"
| "mirror_proposable (Checkpoint p) s = Some ((event_only (lit ''chain.checkpointed''))
     \<lparr>mt_payload := Some (Checkpointed_Payload (cp_environments p) (cp_auditHeadHashHex p) (ms_viaProposalSeq s))\<rparr>)"
| "mirror_proposable (Set_Approval_Policy p) s = Some ((event_only (lit ''chain.approval_policy_changed''))
     \<lparr>mt_payload := Some (Policy_Changed_Payload (sp_ops p) (sp_requiredApprovals p) (ms_viaProposalSeq s))\<rparr>)"
| "mirror_proposable (Add_Device p) s =
     map_option (\<lambda>added. (event_only (lit ''chain.device_added''))
       \<lparr>mt_targetUserId := Some (actor_userId (ms_actor s)),
        mt_payload := Some (Device_Added_Payload added (ad_roleCap p) (scopeKind p) (scopeEnvironmentIds p)
          (ms_viaProposalSeq s))\<rparr>)
       (ms_addedDeviceKeyFingerprintHex s)"
| "mirror_proposable (Revoke_Device p) s = Some ((event_only (lit ''chain.device_revoked''))
     \<lparr>mt_targetUserId := Some (rd_targetUserId p),
      mt_payload := Some (Device_Revoked_Payload (rd_deviceFingerprintsHex p) (ms_viaProposalSeq s))\<rparr>)"

fun mirrorTailOf :: "chain_operation \<Rightarrow> mirror_subject \<Rightarrow> mirror_tail option" where
  "mirrorTailOf (Direct inner) s = mirror_proposable inner s"
| "mirrorTailOf (Propose p) s = Some ((event_only (lit ''chain.proposed''))
     \<lparr>mt_payload := Some (Proposed_Payload (proposable_op_name (pr_inner p)) (pr_expiresAtMs p))\<rparr>)"
| "mirrorTailOf (Approve h) s =
     map_option (\<lambda>(seq, completed). (event_only (lit ''chain.approved''))
       \<lparr>mt_payload := Some (Approved_Payload seq completed)\<rparr>) (ms_referenced s)"
| "mirrorTailOf (Withdraw h) s =
     map_option (\<lambda>(seq, _). (event_only (lit ''chain.proposal_withdrawn''))
       \<lparr>mt_payload := Some (Withdrawn_Payload seq)\<rparr>) (ms_referenced s)"

section \<open>The rows of an entry\<close>

definition subject_of :: "chain_actor \<Rightarrow> mirror_subject" where
  "subject_of actor =
     \<lparr>ms_actor = actor, ms_addedDeviceKeyFingerprintHex = None, ms_viaProposalSeq = None, ms_referenced = None\<rparr>"

definition row_of :: "chain_entry \<Rightarrow> int \<Rightarrow> chain_actor \<Rightarrow> mirror_tail \<Rightarrow> audit_event_record" where
  "row_of entry serverTs actor tail =
     \<lparr>mt_event = mt_event tail, mt_targetUserId = mt_targetUserId tail,
      mt_targetKeyFingerprintHex = mt_targetKeyFingerprintHex tail, mt_environmentId = mt_environmentId tail,
      mt_epoch = mt_epoch tail, mt_payload = mt_payload tail,
      ae_serverTs = serverTs, ae_clientTs = entry_timestampMs entry, ae_chainSeq = entry_seq entry,
      ae_actorType = lit ''user'', ae_actorUserId = actor_userId actor,
      ae_actorKeyFingerprintHex = actor_keyFingerprintHex actor\<rparr>"

definition chainMirrorEvents ::
  "chain_entry \<Rightarrow> int \<Rightarrow> proposal_index \<Rightarrow> fingerprint option \<Rightarrow> audit_event_record list option" where
  "chainMirrorEvents entry serverTs index addedDevice =
     (let actor = entry_actor entry;
          row = (\<lambda>subject. map_option (row_of entry serverTs actor) (mirrorTailOf (entry_operation entry) subject))
      in case entry_operation entry of
        Direct (Add_Device _) \<Rightarrow>
          map_option (\<lambda>r. [r]) (row ((subject_of actor)\<lparr>ms_addedDeviceKeyFingerprintHex := addedDevice\<rparr>))
      | Withdraw hash \<Rightarrow>
          Option.bind (map_of index hash) (\<lambda>proposal.
          map_option (\<lambda>r. [r])
            (row ((subject_of actor)\<lparr>ms_referenced := Some (entry_seq (pe_entry (ip_entry proposal)), False)\<rparr>)))
      | Approve hash \<Rightarrow>
          Option.bind (map_of index hash) (\<lambda>proposal.
          let carrier = pe_entry (ip_entry proposal);
              completed = (ip_completedAtSeq proposal = Some (entry_seq entry)) in
          Option.bind (row ((subject_of actor)\<lparr>ms_referenced := Some (entry_seq carrier, completed)\<rparr>)) (\<lambda>approved.
          if \<not> completed then Some [approved]
          else
            map_option (\<lambda>tail. [approved, row_of entry serverTs (entry_actor carrier) tail])
              (mirror_proposable (pr_inner (pe_payload (ip_entry proposal)))
                 ((subject_of (entry_actor carrier))\<lparr>ms_viaProposalSeq := Some (entry_seq carrier)\<rparr>))))
      | _ \<Rightarrow> map_option (\<lambda>r. [r]) (row (subject_of actor)))"

section \<open>The operations a chain applied\<close>

record applied_chain_operation =
  ao_seq :: int
  ao_operation :: proposable_operation
  ao_actorUserId :: user_id
  ao_viaProposalSeq :: "int option"

definition applied_of :: "proposal_index \<Rightarrow> chain_entry \<Rightarrow> applied_chain_operation option" where
  "applied_of index entry =
     (case entry_operation entry of
        Propose _ \<Rightarrow> None
      | Withdraw _ \<Rightarrow> None
      | Approve hash \<Rightarrow>
          (case map_of index hash of
             None \<Rightarrow> None
           | Some proposal \<Rightarrow>
               if ip_completedAtSeq proposal = Some (entry_seq entry)
               then Some \<lparr>ao_seq = entry_seq entry, ao_operation = pr_inner (pe_payload (ip_entry proposal)),
                          ao_actorUserId = actor_userId (entry_actor (pe_entry (ip_entry proposal))),
                          ao_viaProposalSeq = Some (entry_seq (pe_entry (ip_entry proposal)))\<rparr>
               else None)
      | Direct operation \<Rightarrow>
          Some \<lparr>ao_seq = entry_seq entry, ao_operation = operation,
                ao_actorUserId = actor_userId (entry_actor entry), ao_viaProposalSeq = None\<rparr>)"

definition appliedOperations ::
  "chain_entry list \<Rightarrow> (int \<Rightarrow> ustr option) \<Rightarrow> ustr set \<Rightarrow> applied_chain_operation list" where
  "appliedOperations entries hashAt pendingHashes =
     List.map_filter (applied_of (indexProposals entries hashAt pendingHashes)) entries"

definition pending_hashes :: "chain_state \<Rightarrow> ustr set" where
  "pending_hashes state = fst ` set (st_pendingProposals state)"

text \<open>The index of a verified chain: both the server's and the command line's call of \<open>indexProposals\<close>.\<close>

definition proposalIndexOf :: "chain_entry list \<Rightarrow> chain_state \<Rightarrow> chain_history_builder \<Rightarrow> proposal_index" where
  "proposalIndexOf entries state history = indexProposals entries (entryHashAt history) (pending_hashes state)"

end
