(* ===== verification/Chain_Mirror_Facts.thy ===== *)
theory Chain_Mirror_Facts
  imports Chain_Mirror
begin

text \<open>
  The proposal index follows the verifier: along the entries of a verified chain it completes a proposal
  at the entry at which the verifier applied it, and entries accepted later do not change what it says
  of earlier ones.
\<close>

section \<open>The number is in the hash\<close>

lemma entry_bytes_seq:
  assumes "canonicalChainEntryBytes x = Some b" and "canonicalChainEntryBytes y = Some b"
  shows "entry_seq x = entry_seq y"
proof -
  from assms obtain u v where
    outer: "encode_lp (signed_fields x u @ [LpStr (entry_signatureHex x)]) = Some b"
      "encode_lp (signed_fields y v @ [LpStr (entry_signatureHex y)]) = Some b"
    by (auto simp: canonicalChainEntryBytes_def Option.bind_eq_Some_conv)
  from encode_lp_bodies [OF outer] have same: "lp_body (LpNum (entry_seq x)) = lp_body (LpNum (entry_seq y))"
    by (simp only: signed_fields_def list.map append_Cons list.inject)
  from outer(1) have "lp_body (LpNum (entry_seq x)) \<noteq> None"
    by (auto simp only: signed_fields_def encode_lp_Some_iff list.map append_Cons map_eq_Cons_conv option.distinct)
  with same have "LpNum (entry_seq x) = LpNum (entry_seq y)" by (intro lp_body_inj) simp_all
  then show ?thesis by simp
qed

lemma same_hash_same_seq:
  assumes "entry_hash api e = Some h" and "entry_hash api e' = Some h"
    and "e \<in> set es" and "e' \<in> set es" and "collision_free_on (api_sha256 api) (entry_byte_strings es)"
  shows "entry_seq e = entry_seq e'"
proof -
  from assms(1,2) obtain b b' where b: "canonicalChainEntryBytes e = Some b" "canonicalChainEntryBytes e' = Some b'"
    and "api_sha256 api b = api_sha256 api b'"
    by (auto simp: entry_hash_def computeChainEntryHash_def)
  with assms(3-5) have "b = b'"
    by (auto simp: collision_free_on_def entry_byte_strings_def)
  with b show ?thesis by (auto intro: entry_bytes_seq)
qed

section \<open>What an accepted entry does to the proposals\<close>

text \<open>Applying one operation of the list that \<open>appliedOperations\<close> derives.\<close>

definition replay_operation ::
  "(bytes \<Rightarrow> bytes) \<Rightarrow> applied_chain_operation \<Rightarrow> mutable_chain_state \<Rightarrow> mutable_chain_state" where
  "replay_operation sha256 a st =
     (case ao_operation a of
        Genesis p \<Rightarrow>
          applyGenesis p
            \<lparr>actor_userId = ao_actorUserId a,
             actor_keyFingerprintHex = userFingerprintHex sha256 (gn_encPubHex p) (gn_sigPubHex p)\<rparr> (ao_seq a) st
      | operation \<Rightarrow> applyOperation sha256 operation (ao_seq a) (ao_actorUserId a) st)"

lemma replay_operation_pending:
  "replay_operation sha256 a (st\<lparr>pendingProposals := ps\<rparr>) = (replay_operation sha256 a st)\<lparr>pendingProposals := ps\<rparr>"
  by (auto simp: replay_operation_def apply_operation_pending applyGenesis_def set_member_def indexDeviceKeys_def Let_def
      split: proposable_operation.split)

definition same_proposal :: "pending_proposal \<Rightarrow> pending_proposal \<Rightarrow> bool" where
  "same_proposal p q \<longleftrightarrow> inner_operation p = inner_operation q \<and> proposalSeq p = proposalSeq q \<and>
     proposerUserId p = proposerUserId q"

text \<open>The five things an accepted entry can do, by its operation.\<close>

inductive proposal_step ::
  "(bytes \<Rightarrow> bytes) \<Rightarrow> chain_entry \<Rightarrow> ustr \<Rightarrow> mutable_chain_state \<Rightarrow> applied_operation option \<Rightarrow> mutable_chain_state \<Rightarrow> bool"
  for sha256 entry h st where
  step_direct: "entry_operation entry = Direct operation \<Longrightarrow>
     proposal_step sha256 entry h st
       (Some \<lparr>applied_operation = operation, applied_actorUserId = actor_userId (entry_actor entry)\<rparr>)
       (replay_operation sha256
          \<lparr>ao_seq = entry_seq entry, ao_operation = operation, ao_actorUserId = actor_userId (entry_actor entry),
           ao_viaProposalSeq = None\<rparr> st)"
| step_propose: "entry_operation entry = Propose p \<Longrightarrow> inner_operation pending = pr_inner p \<Longrightarrow>
     proposalSeq pending = entry_seq entry \<Longrightarrow> proposerUserId pending = actor_userId (entry_actor entry) \<Longrightarrow>
     proposal_step sha256 entry h st None (st\<lparr>pendingProposals := AList.update h pending (pendingProposals st)\<rparr>)"
| step_vote: "entry_operation entry = Approve k \<Longrightarrow> map_of (pendingProposals st) k = Some pending \<Longrightarrow>
     same_proposal pending pending' \<Longrightarrow>
     proposal_step sha256 entry h st None (st\<lparr>pendingProposals := AList.update k pending' (pendingProposals st)\<rparr>)"
| step_complete: "entry_operation entry = Approve k \<Longrightarrow> map_of (pendingProposals st) k = Some pending \<Longrightarrow>
     proposal_step sha256 entry h st
       (Some \<lparr>applied_operation = inner_operation pending, applied_actorUserId = proposerUserId pending\<rparr>)
       ((replay_operation sha256
          \<lparr>ao_seq = entry_seq entry, ao_operation = inner_operation pending, ao_actorUserId = proposerUserId pending,
           ao_viaProposalSeq = Some (proposalSeq pending)\<rparr> st)
          \<lparr>pendingProposals := AList.delete k (pendingProposals st)\<rparr>)"
| step_withdraw: "entry_operation entry = Withdraw k \<Longrightarrow> map_of (pendingProposals st) k = Some pending \<Longrightarrow>
     proposal_step sha256 entry h st None (st\<lparr>pendingProposals := AList.delete k (pendingProposals st)\<rparr>)"

inductive_cases proposal_stepE: "proposal_step sha256 entry h st ev st'"

lemma accepts_proposal_step:
  assumes "accepts api v entry ev v'" and "verifier_ok api v"
  shows "proposal_step (api_sha256 api) entry (v_prevHash v') (v_state v) ev (v_state v')"
proof -
  from assms(1) obtain h st' where pass: "passes_checks api entry v"
    and eval: "evaluateEntry api entry h (v_state v) = Accepted (st', ev)"
    and v': "v_prevHash v' = h" "v_state v' = st'"
    by (auto elim: acceptsE)
  from pass have gen: "v_seq v = 0 \<longleftrightarrow> is_genesis (entry_operation entry)"
    and check: "check_read_entry api entry (v_state v) = None"
    by (simp_all add: passes_checks_def is_genesis_name)
  show ?thesis
  proof (cases "is_genesis (entry_operation entry)")
    case True
    then obtain p where op: "entry_operation entry = Direct (Genesis p)"
      by (auto simp: is_genesis_def split: chain_operation.splits proposable_operation.splits)
    with check have "actor_keyFingerprintHex (entry_actor entry) = userFingerprintHex (api_sha256 api) (gn_encPubHex p) (gn_sigPubHex p)"
      by (auto simp: check_read_entry_def resolveActorSigPub_def split: if_splits)
    then have "st' = replay_operation (api_sha256 api)
        \<lparr>ao_seq = entry_seq entry, ao_operation = Genesis p, ao_actorUserId = actor_userId (entry_actor entry),
         ao_viaProposalSeq = None\<rparr> (v_state v)"
      and "ev = Some \<lparr>applied_operation = Genesis p, applied_actorUserId = actor_userId (entry_actor entry)\<rparr>"
      using eval op by (auto simp: evaluateEntry_def replay_operation_def) (metis chain_actor.surjective old.unit.exhaust)
    with op v' show ?thesis by (simp add: step_direct)
  next
    case False
    with gen assms(2) have n: "1 \<le> v_seq v" and ok: "state_ok (api_sha256 api) (v_seq v) (v_state v)"
      by (auto simp: verifier_ok_def)
    from eval False obtain member device
      where member: "map_of (members (v_state v)) (actor_userId (entry_actor entry)) = Some member"
      and run: "evaluate_as api entry h (actorContextOf member device) (v_state v) = Accepted (st', ev)"
      by (rule evaluateEntry_Accepted)
    have ids: "mem_userId m = u" if "map_of (members (v_state v)) u = Some m" for u m
      using members_okD [OF state_okD(1) [OF ok] that] by blast
    have user: "ctx_userId (actorContextOf member device) = actor_userId (entry_actor entry)"
      using ids [OF member] by (simp add: actorContextOf_def)
    show ?thesis
    proof (cases "entry_operation entry")
      case (Direct operation)
      with False have "\<And>p. operation \<noteq> Genesis p" by (auto simp: is_genesis_def)
      then have "replay_operation (api_sha256 api)
          \<lparr>ao_seq = entry_seq entry, ao_operation = operation, ao_actorUserId = actor_userId (entry_actor entry),
           ao_viaProposalSeq = None\<rparr> (v_state v) =
          applyOperation (api_sha256 api) operation (entry_seq entry) (actor_userId (entry_actor entry)) (v_state v)"
        by (simp add: replay_operation_def split: proposable_operation.split)
      with Direct run user show ?thesis
        unfolding v' using step_direct [OF Direct, of "api_sha256 api" h "v_state v"]
        by (simp add: evaluate_as_def evaluateDirect_Accepted)
    next
      case (Propose p)
      with run user show ?thesis
        unfolding v' by (auto simp: evaluate_as_def evaluatePropose_Accepted intro!: step_propose)
    next
      case (Approve k)
      with run have "evaluateApprove api k (entry_seq entry) (entry_timestampMs entry) (actorContextOf member device) (v_state v) = Accepted (st', ev)"
        by (simp add: evaluate_as_def)
      then show ?thesis
      proof (cases rule: evaluateApprove_Accepted)
        case (1 pending signature)
        from 1(5) show ?thesis
        proof (elim disjE conjE)
          assume "ev = None" and "st' = (v_state v)\<lparr>pendingProposals :=
             AList.update k (pending\<lparr>approvals := approvals pending @ [signature]\<rparr>) (pendingProposals (v_state v))\<rparr>"
          with Approve 1(2) show ?thesis unfolding v' by (auto simp: same_proposal_def intro: step_vote)
        next
          assume complete: "completeProposal api pending (v_state v) (entry_seq entry) = Accepted (st', ev)"
          have ng: "inner_operation pending \<noteq> Genesis g" for g
            using not_genesis_target [OF vote_target [OF 1(3)]] .
          have key: "proposalHashHex pending = k"
            using state_okD(10) [OF ok] 1(2) by (auto simp: pendings_ok_def pending_ok_def dest: js.everywhere_lookup)
          from complete ids key obtain proposer where "map_of (members (v_state v)) (proposerUserId pending) = Some proposer"
            and "st' = (applyOperation (api_sha256 api) (inner_operation pending) (entry_seq entry) (proposerUserId pending) (v_state v))
              \<lparr>pendingProposals := AList.delete k (pendingProposals (v_state v))\<rparr>"
            and "ev = Some \<lparr>applied_operation = inner_operation pending, applied_actorUserId = proposerUserId pending\<rparr>"
            by (auto simp: completeProposal_Accepted Let_def)
          moreover have "applyOperation (api_sha256 api) (inner_operation pending) (entry_seq entry) (proposerUserId pending) (v_state v) =
              replay_operation (api_sha256 api) \<lparr>ao_seq = entry_seq entry, ao_operation = inner_operation pending,
                ao_actorUserId = proposerUserId pending, ao_viaProposalSeq = Some (proposalSeq pending)\<rparr> (v_state v)"
            using ng by (simp add: replay_operation_def split: proposable_operation.split)
          ultimately show ?thesis
            unfolding v' using step_complete [OF Approve 1(2)] by simp
        qed
      qed
    next
      case (Withdraw k)
      with run obtain p where "map_of (pendingProposals (v_state v)) k = Some p" and "ev = None"
        and "st' = (v_state v)\<lparr>pendingProposals := AList.delete (proposalHashHex p) (pendingProposals (v_state v))\<rparr>"
        by (auto simp: evaluate_as_def evaluateWithdraw_Accepted)
      moreover from this(1) have "proposalHashHex p = k"
        using state_okD(10) [OF ok] by (auto simp: pendings_ok_def pending_ok_def dest: js.everywhere_lookup)
      ultimately show ?thesis unfolding v' using Withdraw by (auto intro: step_withdraw)
    qed
  qed
qed

section \<open>The index along a chain\<close>

definition collected :: "(int \<Rightarrow> ustr option) \<Rightarrow> chain_entry list \<Rightarrow> collected_proposals" where
  "collected hashAt entries = fold (collect_proposal hashAt) entries ([], {})"

definition pending_keys :: "mutable_chain_state \<Rightarrow> ustr set" where
  "pending_keys st = fst ` set (pendingProposals st)"

definition completed_at :: "collected_proposals \<Rightarrow> ustr set \<Rightarrow> ustr \<Rightarrow> int option" where
  "completed_at c pending h =
     (if h \<notin> pending \<and> h \<notin> snd c then Option.bind (map_of (fst c) h) op_lastApproveSeq else None)"

lemma collected_simps [simp]:
  "collected hashAt [] = ([], {})"
  "collected hashAt (es @ [e]) = collect_proposal hashAt e (collected hashAt es)"
  by (simp_all add: collected_def)

lemma indexProposals_lookup:
  "map_of (indexProposals es hashAt pending) h =
     map_option (\<lambda>x. \<lparr>ip_entry = op_entry x, ip_completedAtSeq = completed_at (collected hashAt es) pending h\<rparr>)
       (map_of (fst (collected hashAt es)) h)"
proof -
  have "map_of (map (\<lambda>(k, x). (k, f k x)) m) h = map_option (f h) (map_of m h)" for f :: "ustr \<Rightarrow> open_proposal \<Rightarrow> indexed_proposal" and m
    by (induction m) auto
  then show ?thesis
    by (cases "collected hashAt es"; cases "map_of (fst (collected hashAt es)) h")
      (auto simp: indexProposals_def collected_def completed_at_def split: prod.split)
qed

lemma pending_keys_iff: "h \<in> pending_keys st \<longleftrightarrow> map_of (pendingProposals st) h \<noteq> None"
  by (simp add: pending_keys_def map_of_eq_None_iff)

lemma replay_pending [simp]: "pendingProposals (replay_operation sha256 a st) = pendingProposals st"
  by (simp add: replay_operation_def applyGenesis_def set_member_def indexDeviceKeys_def Let_def
      split: proposable_operation.split)

definition names_proposal :: "chain_entry \<Rightarrow> ustr \<Rightarrow> bool" where
  "names_proposal e h \<longleftrightarrow> entry_operation e = Approve h \<or> entry_operation e = Withdraw h"

definition carries :: "open_proposal \<Rightarrow> pending_proposal \<Rightarrow> bool" where
  "carries x p \<longleftrightarrow> pr_inner (pe_payload (op_entry x)) = inner_operation p \<and>
     entry_seq (pe_entry (op_entry x)) = proposalSeq p \<and>
     actor_userId (entry_actor (pe_entry (op_entry x))) = proposerUserId p"

definition tracked :: "(int \<Rightarrow> ustr option) \<Rightarrow> chain_entry list \<Rightarrow> mutable_chain_state \<Rightarrow> bool" where
  "tracked hashAt es st \<longleftrightarrow>
     (\<forall>h p. map_of (pendingProposals st) h = Some p \<longrightarrow>
        h \<notin> snd (collected hashAt es) \<and> (\<exists>x. map_of (fst (collected hashAt es)) h = Some x \<and> carries x p)) \<and>
     (\<forall>h x. map_of (fst (collected hashAt es)) h = Some x \<longrightarrow>
        pe_entry (op_entry x) \<in> set es \<and> hashAt (entry_seq (pe_entry (op_entry x))) = Some h) \<and>
     (\<forall>e \<in> set es. \<forall>h. names_proposal e h \<longrightarrow> map_of (fst (collected hashAt es)) h \<noteq> None) \<and>
     (\<forall>h \<in> snd (collected hashAt es). map_of (fst (collected hashAt es)) h \<noteq> None)"

lemma tracked_pending:
  "tracked hashAt es st \<Longrightarrow> map_of (pendingProposals st) h = Some p \<Longrightarrow>
     h \<notin> snd (collected hashAt es) \<and> (\<exists>x. map_of (fst (collected hashAt es)) h = Some x \<and> carries x p)"
  unfolding tracked_def by blast

lemma tracked_carrier:
  "tracked hashAt es st \<Longrightarrow> map_of (fst (collected hashAt es)) h = Some x \<Longrightarrow>
     pe_entry (op_entry x) \<in> set es \<and> hashAt (entry_seq (pe_entry (op_entry x))) = Some h"
  unfolding tracked_def by blast

lemma tracked_named:
  "tracked hashAt es st \<Longrightarrow> e \<in> set es \<Longrightarrow> names_proposal e h \<Longrightarrow> map_of (fst (collected hashAt es)) h \<noteq> None"
  unfolding tracked_def by blast

lemma tracked_step:
  assumes tracked: "tracked hashAt es st" and step: "proposal_step sha256 entry h st ev st'"
    and hash: "hashAt (entry_seq entry) = Some h" and fresh: "map_of (fst (collected hashAt es)) h = None"
  shows "tracked hashAt (es @ [entry]) st'"
    and "completed_at (collected hashAt (es @ [entry])) (pending_keys st') k =
      (if ev \<noteq> None \<and> entry_operation entry = Approve k then Some (entry_seq entry)
       else completed_at (collected hashAt es) (pending_keys st) k)"
    and "map_of (fst (collected hashAt es)) k = Some x \<Longrightarrow>
      \<exists>y. map_of (fst (collected hashAt (es @ [entry]))) k = Some y \<and> op_entry y = op_entry x"
proof -
  obtain P W where c: "collected hashAt es = (P, W)" by (cases "collected hashAt es")
  note T = tracked [unfolded tracked_def c, simplified]
  have unfresh: "map_of (pendingProposals st) h = None"
    using fresh tracked_pending [OF tracked, of h] by (cases "map_of (pendingProposals st) h") auto
  from step show "tracked hashAt (es @ [entry]) st'"
  proof cases
    case (step_direct operation)
    with T show ?thesis by (auto simp: tracked_def c collect_proposal_def names_proposal_def)
  next
    case (step_propose p pending)
    with T hash fresh show ?thesis
      by (auto simp: tracked_def c collect_proposal_def names_proposal_def carries_def split: if_splits)
  next
    case (step_vote k pending pending')
    from tracked_pending [OF tracked step_vote(4)] c obtain x where x: "map_of P k = Some x" "carries x pending" "k \<notin> W" by auto
    moreover from tracked_carrier [OF tracked, of k x] x(1) c have "hashAt (entry_seq (pe_entry (op_entry x))) = Some k" by simp
    ultimately show ?thesis using T step_vote
      by (auto simp: tracked_def c collect_proposal_def names_proposal_def carries_def same_proposal_def)
  next
    case (step_complete k pending)
    from tracked_pending [OF tracked step_complete(4)] c obtain x where x: "map_of P k = Some x" "carries x pending" "k \<notin> W" by auto
    moreover from tracked_carrier [OF tracked, of k x] x(1) c have "hashAt (entry_seq (pe_entry (op_entry x))) = Some k" by simp
    ultimately show ?thesis using T step_complete
      by (auto simp: tracked_def c collect_proposal_def names_proposal_def carries_def)
  next
    case (step_withdraw k pending)
    from tracked_pending [OF tracked step_withdraw(4)] c obtain x where "map_of P k = Some x" "carries x pending" "k \<notin> W" by auto
    with T step_withdraw show ?thesis
      by (auto simp: tracked_def c collect_proposal_def names_proposal_def)
  qed
  from step show "completed_at (collected hashAt (es @ [entry])) (pending_keys st') k =
      (if ev \<noteq> None \<and> entry_operation entry = Approve k then Some (entry_seq entry)
       else completed_at (collected hashAt es) (pending_keys st) k)"
  proof cases
    case (step_propose p pending)
    with hash fresh unfresh show ?thesis
      by (auto simp: c collect_proposal_def completed_at_def pending_keys_iff)
  next
    case (step_vote j pending pending')
    from tracked_pending [OF tracked step_vote(4)] c obtain x where "map_of P j = Some x" "j \<notin> W" by auto
    with step_vote show ?thesis
      by (auto simp: c collect_proposal_def completed_at_def pending_keys_iff)
  next
    case (step_complete j pending)
    from tracked_pending [OF tracked step_complete(4)] c obtain x where "map_of P j = Some x" "j \<notin> W" by auto
    with step_complete show ?thesis
      by (auto simp: c collect_proposal_def completed_at_def pending_keys_iff)
  qed (use T in \<open>auto simp: c collect_proposal_def completed_at_def pending_keys_iff\<close>)
  from step show "map_of (fst (collected hashAt es)) k = Some x \<Longrightarrow>
      \<exists>y. map_of (fst (collected hashAt (es @ [entry]))) k = Some y \<and> op_entry y = op_entry x"
    by cases (use hash fresh in \<open>auto simp: c collect_proposal_def split: option.split\<close>)
qed

section \<open>Along the accepted entries\<close>

lemma accepts_unique:
  "accepts api v e ev v1 \<Longrightarrow> accepts api v e ev' v2 \<Longrightarrow> ev = ev' \<and> v1 = v2"
  by (auto elim!: acceptsE)

lemma reached_unique: "reached api history es v \<Longrightarrow> reached api history es v' \<Longrightarrow> v = v'"
proof (induction es arbitrary: v v' rule: rev_induct)
  case Nil
  then show ?case by (auto elim!: reached_NilE)
next
  case (snoc e es)
  obtain u ev where u: "reached api history es u" "accepts api u e ev v" using snoc.prems(1) by (rule reached_last)
  obtain u' ev' where u': "reached api history es u'" "accepts api u' e ev' v'" using snoc.prems(2) by (rule reached_last)
  from snoc.IH [OF u(1) u'(1)] u(2) u'(2) show ?case by (auto dest: accepts_unique)
qed

lemma reached_numbers:
  "reached api history es v \<Longrightarrow> e \<in> set es \<Longrightarrow> 1 \<le> entry_seq e \<and> entry_seq e \<le> int (length es)"
proof (induction rule: reached.induct)
  case (reached_next es v entry ev v')
  from accepts_seq [OF reached_next.hyps(2)] reached_seq [OF reached_next.hyps(1)]
  have "entry_seq entry = int (length es) + 1" by simp
  with reached_next show ?case by auto
qed simp

lemma reached_propose:
  "reached api history es v \<Longrightarrow> e \<in> set es \<Longrightarrow> entry_operation e = Propose p \<Longrightarrow> pr_inner p \<noteq> Add_Device q"
proof (induction rule: reached.induct)
  case (reached_next es v entry ev v')
  have "pr_inner p \<noteq> Add_Device q" if "entry_operation entry = Propose p"
  proof -
    from reached_next.hyps(2) obtain h st' where "evaluateEntry api entry h (v_state v) = Accepted (st', ev)"
      by (auto elim: acceptsE)
    moreover have "\<not> is_genesis (entry_operation entry)" using that by (simp add: is_genesis_def)
    ultimately obtain actor where "evaluate_as api entry h actor (v_state v) = Accepted (st', ev)"
      by (auto elim: evaluateEntry_Accepted)
    with that have "isApprovalTarget (pr_inner p) (approvalPolicy (v_state v))"
      by (simp add: evaluate_as_def evaluatePropose_Accepted)
    then show ?thesis
      by (auto simp: isApprovalTarget_def establishesOwner_def approval_target_name_def
          proposable_op_name_def split: option.splits approval_target_op.splits)
  qed
  with reached_next show ?case by auto
qed simp

text \<open>The hashes the index is given, and entries whose hashes do not collide.\<close>

definition hashes_of :: "crypto_api \<Rightarrow> chain_entry list \<Rightarrow> (int \<Rightarrow> ustr option) \<Rightarrow> bool" where
  "hashes_of api es hashAt \<longleftrightarrow> (\<forall>e \<in> set es. hashAt (entry_seq e) = entry_hash api e) \<and>
     collision_free_on (api_sha256 api) (entry_byte_strings es)"

lemma hashes_of_subset: "hashes_of api es hashAt \<Longrightarrow> set xs \<subseteq> set es \<Longrightarrow> hashes_of api xs hashAt"
proof -
  assume hashes: "hashes_of api es hashAt" and sub: "set xs \<subseteq> set es"
  then have "entry_byte_strings xs \<subseteq> entry_byte_strings es" by (auto simp: entry_byte_strings_def)
  with hashes sub show "hashes_of api xs hashAt" unfolding hashes_of_def collision_free_on_def by blast
qed

lemma fresh_hash:
  assumes "reached api history es v" and "accepts api v entry ev v'" and "tracked hashAt es (v_state v)"
    and "hashes_of api (es @ [entry]) hashAt"
  shows "map_of (fst (collected hashAt es)) (v_prevHash v') = None"
proof (rule ccontr)
  assume "map_of (fst (collected hashAt es)) (v_prevHash v') \<noteq> None"
  then obtain x where "map_of (fst (collected hashAt es)) (v_prevHash v') = Some x" by blast
  with tracked_carrier [OF assms(3)] obtain c where c: "c \<in> set es" "hashAt (entry_seq c) = Some (v_prevHash v')"
    by blast
  with assms(4) have "entry_hash api c = Some (v_prevHash v')" by (simp add: hashes_of_def)
  then have "entry_seq c = entry_seq entry"
    using accepts_hash(1) [OF assms(2)] c(1) assms(4) same_hash_same_seq [of api c _ entry "es @ [entry]"]
    by (simp add: hashes_of_def)
  with reached_numbers [OF assms(1) c(1)] accepts_seq [OF assms(2)] reached_seq [OF assms(1)] show False by simp
qed

lemma reached_tracked:
  "reached api history es v \<Longrightarrow> hashes_of api es hashAt \<Longrightarrow> tracked hashAt es (v_state v)"
proof (induction rule: reached.induct)
  case reached_start
  show ?case by (simp add: tracked_def start_verifier_def empty_chain_state_def)
next
  case (reached_next es v entry ev v')
  have "hashes_of api es hashAt" by (rule hashes_of_subset [OF reached_next.prems]) auto
  then have tracked: "tracked hashAt es (v_state v)" by (rule reached_next.IH)
  have "hashAt (entry_seq entry) = Some (v_prevHash v')"
    using reached_next.prems accepts_hash(1) [OF reached_next.hyps(2)] by (simp add: hashes_of_def)
  with tracked_step(1) [OF tracked accepts_proposal_step [OF reached_next.hyps(2) reached_ok [OF reached_next.hyps(1)]]]
    fresh_hash [OF reached_next.hyps tracked reached_next.prems]
  show ?case by blast
qed

text \<open>One more entry: what the index says changes at the proposal that the entry completes, if any.\<close>

lemma reached_step:
  assumes "reached api history es u" and "accepts api u e ev v" and "hashes_of api (es @ [e]) hashAt"
  shows "proposal_step (api_sha256 api) e (v_prevHash v) (v_state u) ev (v_state v)"
    and "tracked hashAt es (v_state u)" and "tracked hashAt (es @ [e]) (v_state v)"
    and "completed_at (collected hashAt (es @ [e])) (pending_keys (v_state v)) k =
      (if ev \<noteq> None \<and> entry_operation e = Approve k then Some (entry_seq e)
       else completed_at (collected hashAt es) (pending_keys (v_state u)) k)"
    and "map_of (fst (collected hashAt es)) k = Some x \<Longrightarrow>
      \<exists>y. map_of (fst (collected hashAt (es @ [e]))) k = Some y \<and> op_entry y = op_entry x"
    and "ev \<noteq> None \<and> entry_operation e = Approve k \<Longrightarrow>
      completed_at (collected hashAt es) (pending_keys (v_state u)) k = None"
proof -
  show step: "proposal_step (api_sha256 api) e (v_prevHash v) (v_state u) ev (v_state v)"
    by (rule accepts_proposal_step [OF assms(2) reached_ok [OF assms(1)]])
  show tracked: "tracked hashAt es (v_state u)"
    using reached_tracked [OF assms(1)] hashes_of_subset [OF assms(3)] by auto
  have hash: "hashAt (entry_seq e) = Some (v_prevHash v)"
    using assms(3) accepts_hash(1) [OF assms(2)] by (simp add: hashes_of_def)
  note fresh = fresh_hash [OF assms(1,2) tracked assms(3)]
  show "tracked hashAt (es @ [e]) (v_state v)" by (rule tracked_step(1) [OF tracked step hash fresh])
  show "completed_at (collected hashAt (es @ [e])) (pending_keys (v_state v)) k =
      (if ev \<noteq> None \<and> entry_operation e = Approve k then Some (entry_seq e)
       else completed_at (collected hashAt es) (pending_keys (v_state u)) k)"
    by (rule tracked_step(2) [OF tracked step hash fresh])
  show "map_of (fst (collected hashAt es)) k = Some x \<Longrightarrow>
      \<exists>y. map_of (fst (collected hashAt (es @ [e]))) k = Some y \<and> op_entry y = op_entry x"
    by (rule tracked_step(3) [OF tracked step hash fresh])
  show "completed_at (collected hashAt es) (pending_keys (v_state u)) k = None"
    if "ev \<noteq> None \<and> entry_operation e = Approve k"
    using step that by cases (auto simp: completed_at_def pending_keys_iff)
qed

lemma completed_stable:
  assumes "reached api history (xs @ ys) v" and "reached api history xs u" and "hashes_of api (xs @ ys) hashAt"
    and "j \<le> int (length xs)"
  shows "completed_at (collected hashAt (xs @ ys)) (pending_keys (v_state v)) h = Some j \<longleftrightarrow>
      completed_at (collected hashAt xs) (pending_keys (v_state u)) h = Some j"
    and "map_of (fst (collected hashAt xs)) h = Some x \<Longrightarrow>
      \<exists>y. map_of (fst (collected hashAt (xs @ ys))) h = Some y \<and> op_entry y = op_entry x"
  using assms(1,3)
proof (induction ys arbitrary: v rule: rev_induct)
  case Nil
  case 1
  with reached_unique [OF assms(2)] show ?case by simp
  case 2
  then show ?case by simp
next
  case (snoc y ys)
  {
    case 1
    then have "reached api history ((xs @ ys) @ [y]) v" by simp
    then obtain w ev where w: "reached api history (xs @ ys) w" "accepts api w y ev v" by (rule reached_last)
    from 1 have hashes: "hashes_of api ((xs @ ys) @ [y]) hashAt" by simp
    have "hashes_of api (xs @ ys) hashAt" by (rule hashes_of_subset [OF hashes]) auto
    with snoc.IH(1) [OF w(1)] reached_step(4,6) [OF w hashes, of h] accepts_seq [OF w(2)] reached_seq [OF w(1)] assms(4)
    show ?case by (auto split: if_splits)
  next
    case 2
    then have "reached api history ((xs @ ys) @ [y]) v" by simp
    then obtain w ev where w: "reached api history (xs @ ys) w" "accepts api w y ev v" by (rule reached_last)
    from 2 have hashes: "hashes_of api ((xs @ ys) @ [y]) hashAt" by simp
    have "hashes_of api (xs @ ys) hashAt" by (rule hashes_of_subset [OF hashes]) auto
    with snoc.IH(2) [OF 2(1) w(1)] reached_step(5) [OF w hashes, of h] show ?case by fastforce
  }
qed

section \<open>What the rows and the applied operations depend on\<close>

definition same_answers :: "chain_entry \<Rightarrow> proposal_index \<Rightarrow> proposal_index \<Rightarrow> bool" where
  "same_answers e index index' \<longleftrightarrow>
     (\<forall>h. names_proposal e h \<longrightarrow> (\<exists>p q. map_of index h = Some p \<and> map_of index' h = Some q \<and> ip_entry p = ip_entry q \<and>
        (ip_completedAtSeq p = Some (entry_seq e) \<longleftrightarrow> ip_completedAtSeq q = Some (entry_seq e))))"

lemma same_answers_rows:
  assumes "same_answers e index index'"
  shows "chainMirrorEvents e ts index added = chainMirrorEvents e ts index' added"
    and "applied_of index e = applied_of index' e"
  using assms
  by (auto simp: same_answers_def names_proposal_def chainMirrorEvents_def applied_of_def Let_def
      split: chain_operation.split proposable_operation.split option.split)

lemma index_stable:
  assumes "reached api history (xs @ ys) v" and "reached api history xs u" and "hashes_of api (xs @ ys) hashAt"
    and "e \<in> set xs"
  shows "same_answers e (indexProposals (xs @ ys) hashAt (pending_keys (v_state v)))
     (indexProposals xs hashAt (pending_keys (v_state u)))"
  unfolding same_answers_def
proof (intro allI impI)
  fix h assume "names_proposal e h"
  moreover have "tracked hashAt xs (v_state u)"
    using reached_tracked [OF assms(2)] hashes_of_subset [OF assms(3)] by auto
  ultimately obtain x where x: "map_of (fst (collected hashAt xs)) h = Some x"
    using tracked_named [OF _ assms(4)] by blast
  with completed_stable(2) [OF assms(1-3) order_refl] obtain y
    where y: "map_of (fst (collected hashAt (xs @ ys))) h = Some y" "op_entry y = op_entry x" by blast
  have "entry_seq e \<le> int (length xs)" using reached_numbers [OF assms(2,4)] by simp
  from completed_stable(1) [OF assms(1-3) this, of h] x y
  show "\<exists>p q. map_of (indexProposals (xs @ ys) hashAt (pending_keys (v_state v))) h = Some p \<and>
      map_of (indexProposals xs hashAt (pending_keys (v_state u))) h = Some q \<and> ip_entry p = ip_entry q \<and>
      (ip_completedAtSeq p = Some (entry_seq e) \<longleftrightarrow> ip_completedAtSeq q = Some (entry_seq e))"
    by (simp add: indexProposals_lookup)
qed

end
