(* ===== verification/Chain_Mirror_Guarantees.thy ===== *)
theory Chain_Mirror_Guarantees
  imports Chain_Mirror_Facts
begin

text \<open>
  What the writers and the readers of the audit mirror can rely on: the rows of an entry are settled when
  it is accepted, they exist, and the applied operations read off the index are those that the verifier
  applied.
\<close>

section \<open>The index of a verified chain\<close>

lemma history_reached:
  assumes "verifyChainWithHistory api entries = Accepted (st, h)" and "map read_entry entries = map Some es"
    and "length entries < 2 ^ 32"
  obtains v where "reached api (Some empty_history) es v" and "verifier_ok api v" and "st = at_head v"
    and "\<And>e. e \<in> set es \<Longrightarrow> entryHashAt h (entry_seq e) = entry_hash api e"
proof -
  from assms(1) obtain v es' where run: "recorded_run api entries = Accepted v" and st: "st = at_head v"
    and reads: "map read_entry entries = map Some es'" and agrees: "history_agrees v h es'"
    and hashes: "\<And>k u. 1 \<le> k \<Longrightarrow> k \<le> length entries \<Longrightarrow> recorded_run api (take k entries) = Accepted u \<Longrightarrow>
      entryHashes h ! (k - 1) = v_prevHash u"
    by (elim with_history_run) blast
  from reads assms(2) have es': "es' = es" by (auto dest: map_injective simp: inj_def)
  from run_reached [OF run [unfolded recorded_run_def]] reads es' have reach: "reached api (Some empty_history) es v"
    by (auto dest: map_injective simp: inj_def)
  have len: "length es = length entries" using assms(2) by (metis length_map)
  have known: "entryHashAt h (entry_seq e) = entry_hash api e" if e: "e \<in> set es" for e
  proof -
    from e obtain i where i: "i < length es" "e = es ! i" by (auto simp: in_set_conv_nth)
    from reached_prefix [OF reach i(1)] i(2) obtain u ev v' where step: "reached api (Some empty_history) (take i es) u"
      "accepts api u e ev v'" "reached api (Some empty_history) (take (Suc i) es) v'" by blast
    have seq: "entry_seq e = int (Suc i)"
      using accepts_seq [OF step(2)] reached_seq [OF step(1)] i(1) by simp
    have range: "1 \<le> Suc i" "Suc i \<le> length entries" using i(1) len by simp_all
    from run range obtain w where w: "recorded_run api (take (Suc i) entries) = Accepted w"
      by (rule recorded_prefix)
    have "map read_entry (take (Suc i) entries) = map Some (take (Suc i) es)"
      using assms(2) by (metis take_map)
    with run_reached [OF w [unfolded recorded_run_def]] have "reached api (Some empty_history) (take (Suc i) es) w"
      by (auto dest: map_injective simp: inj_def)
    with step(3) have "w = v'" by (blast dest: reached_unique)
    with hashes [OF range w] have "entryHashes h ! i = v_prevHash v'" by simp
    moreover have "in_range h (int (Suc i))"
      using prefix_in_range [OF agrees recorded_run_seq [OF run] assms(3) range] .
    ultimately show ?thesis
      using accepts_hash(1) [OF step(2)] seq by (simp add: entryHashAt_def nat_diff_distrib)
  qed
  show ?thesis by (rule that [OF reach reached_ok [OF reach] st known])
qed

lemma pending_hashes_at_head: "verifier_ok api v \<Longrightarrow> pending_hashes (at_head v) = pending_keys (v_state v)"
  by (simp add: pending_hashes_def pending_keys_def at_head_fields)

lemma index_hashes_only:
  assumes "\<And>e. e \<in> set es \<Longrightarrow> hashAt (entry_seq e) = hashAt' (entry_seq e)"
  shows "indexProposals es hashAt pending = indexProposals es hashAt' pending"
proof -
  have "fold (collect_proposal hashAt) es c = fold (collect_proposal hashAt') es c" for c
    by (rule fold_cong) (auto simp: collect_proposal_def assms split: chain_operation.split)
  then show ?thesis by (simp add: indexProposals_def)
qed

text \<open>A proposal the index knows was carried by an accepted \<open>propose\<close> entry.\<close>

lemma collected_payload:
  "map_of (fst (collected hashAt es)) h = Some x \<Longrightarrow>
     pe_entry (op_entry x) \<in> set es \<and> entry_operation (pe_entry (op_entry x)) = Propose (pe_payload (op_entry x))"
proof (induction es arbitrary: x rule: rev_induct)
  case (snoc e es)
  obtain P W where c: "collected hashAt es = (P, W)" by (cases "collected hashAt es")
  from snoc show ?case
    by (auto simp: c collect_proposal_def split: chain_operation.splits option.splits if_splits)
qed simp

lemma rows_defined:
  assumes "reached api history es v" and "hashes_of api es hashAt" and "e \<in> set es"
  shows "chainMirrorEvents e ts (indexProposals es hashAt (pending_keys (v_state v))) added = None \<longleftrightarrow>
    (\<exists>p. entry_operation e = Direct (Add_Device p)) \<and> added = None"
proof -
  have lookup: "\<exists>x. map_of (fst (collected hashAt es)) h = Some x \<and> (\<forall>q. pr_inner (pe_payload (op_entry x)) \<noteq> Add_Device q)"
    if named: "names_proposal e h" for h
  proof -
    from tracked_named [OF reached_tracked [OF assms(1,2)] assms(3) named]
    obtain x where x: "map_of (fst (collected hashAt es)) h = Some x" by blast
    from collected_payload [OF this] reached_propose [OF assms(1)] have "pr_inner (pe_payload (op_entry x)) \<noteq> Add_Device q" for q
      by blast
    with x show ?thesis by blast
  qed
  have defined: "mirror_proposable operation s \<noteq> None" if "\<forall>q. operation \<noteq> Add_Device q" for operation s
    using that by (cases operation) auto
  show ?thesis
  proof (cases "entry_operation e")
    case (Direct operation)
    then show ?thesis
      using defined [of operation] by (cases operation) (auto simp: chainMirrorEvents_def Let_def)
  next
    case (Approve h)
    with lookup [of h] obtain x where "map_of (fst (collected hashAt es)) h = Some x"
      and "\<forall>q. pr_inner (pe_payload (op_entry x)) \<noteq> Add_Device q" by (auto simp: names_proposal_def)
    with Approve show ?thesis
      using defined [of "pr_inner (pe_payload (op_entry x))"]
      by (auto simp: chainMirrorEvents_def Let_def indexProposals_lookup)
  next
    case (Withdraw h)
    with lookup [of h] show ?thesis
      by (auto simp: names_proposal_def chainMirrorEvents_def Let_def indexProposals_lookup)
  qed (auto simp: chainMirrorEvents_def Let_def)
qed

section \<open>The applied operations\<close>

lemma map_filter_cong: "(\<And>x. x \<in> set xs \<Longrightarrow> f x = g x) \<Longrightarrow> List.map_filter f xs = List.map_filter g xs"
  by (induction xs) (simp_all add: List.map_filter_simps split: option.split)

lemma applied_step:
  assumes "reached api history es u" and "accepts api u e ev v" and "hashes_of api (es @ [e]) hashAt"
  shows "appliedOperations (es @ [e]) hashAt (pending_keys (v_state v)) =
      appliedOperations es hashAt (pending_keys (v_state u)) @
      (case applied_of (indexProposals (es @ [e]) hashAt (pending_keys (v_state v))) e of None \<Rightarrow> [] | Some a \<Rightarrow> [a])"
proof -
  have reach: "reached api history (es @ [e]) v" using assms(1,2) by (rule reached_next)
  have "List.map_filter (applied_of (indexProposals (es @ [e]) hashAt (pending_keys (v_state v)))) es =
      List.map_filter (applied_of (indexProposals es hashAt (pending_keys (v_state u)))) es"
    by (rule map_filter_cong) (rule same_answers_rows(2) [OF index_stable [OF reach assms(1,3)]])
  then show ?thesis
    by (simp add: appliedOperations_def map_filter_def split: option.split)
qed

lemma applied_replays:
  "reached api history es v \<Longrightarrow> hashes_of api es hashAt \<Longrightarrow>
   (fold (replay_operation (api_sha256 api)) (appliedOperations es hashAt (pending_keys (v_state v))) empty_chain_state)
     \<lparr>pendingProposals := pendingProposals (v_state v)\<rparr> = v_state v"
proof (induction rule: reached.induct)
  case reached_start
  show ?case by (simp add: appliedOperations_def List.map_filter_simps start_verifier_def empty_chain_state_def)
next
  case (reached_next es u e ev v)
  let ?sha = "api_sha256 api" and ?index = "indexProposals (es @ [e]) hashAt (pending_keys (v_state v))"
  have "hashes_of api es hashAt" by (rule hashes_of_subset [OF reached_next.prems]) auto
  with reached_next.IH obtain s ps where s: "fold (replay_operation ?sha) (appliedOperations es hashAt (pending_keys (v_state u))) empty_chain_state = s"
    and u: "v_state u = s\<lparr>pendingProposals := ps\<rparr>" by metis
  note step = reached_step [OF reached_next.hyps reached_next.prems]
  obtain P W where c: "collected hashAt es = (P, W)" by (cases "collected hashAt es")
  have replay: "fold (replay_operation ?sha) (appliedOperations (es @ [e]) hashAt (pending_keys (v_state v))) empty_chain_state =
      (case applied_of ?index e of None \<Rightarrow> s | Some a \<Rightarrow> replay_operation ?sha a s)"
    using applied_step [OF reached_next.hyps reached_next.prems] s by (simp split: option.split)
  from step(1) show ?case
  proof cases
    case (step_direct operation)
    then have "applied_of ?index e = Some \<lparr>ao_seq = entry_seq e, ao_operation = operation,
        ao_actorUserId = actor_userId (entry_actor e), ao_viaProposalSeq = None\<rparr>"
      by (simp add: applied_of_def)
    with step_direct replay u show ?thesis by (simp add: replay_operation_pending)
  next
    case (step_propose p pending)
    with replay u show ?thesis by (simp add: applied_of_def)
  next
    case (step_vote k pending pending')
    have "completed_at (collected hashAt (es @ [e])) (pending_keys (v_state v)) k = None"
      using step_vote by (simp add: completed_at_def pending_keys_iff)
    with step_vote have "applied_of ?index e = None"
      by (auto simp: applied_of_def indexProposals_lookup split: option.split)
    with step_vote replay u show ?thesis by simp
  next
    case (step_complete k pending)
    from tracked_pending [OF step(2) step_complete(4)] obtain x
      where x: "map_of (fst (collected hashAt es)) k = Some x" "carries x pending" by blast
    from step(5) [OF x(1)] obtain y where y: "map_of (fst (collected hashAt (es @ [e]))) k = Some y" "op_entry y = op_entry x" by blast
    have "completed_at (collected hashAt (es @ [e])) (pending_keys (v_state v)) k = Some (entry_seq e)"
      using step(4) [of k] step_complete by simp
    with step_complete x y have "applied_of ?index e = Some \<lparr>ao_seq = entry_seq e, ao_operation = inner_operation pending,
        ao_actorUserId = proposerUserId pending, ao_viaProposalSeq = Some (proposalSeq pending)\<rparr>"
      by (simp add: applied_of_def indexProposals_lookup carries_def)
    with step_complete replay u show ?thesis by (simp add: replay_operation_pending)
  next
    case (step_withdraw k pending)
    with replay u show ?thesis by (simp add: applied_of_def)
  qed
qed

section \<open>The properties\<close>

lemma history_prefix:
  assumes "verifyChainWithHistory api entries = Accepted (st, h)" and "1 \<le> k" and "k \<le> length entries"
  obtains s hk where "verifyChainWithHistory api (take k entries) = Accepted (s, hk)"
proof -
  from assms obtain v where "recorded_run api entries = Accepted v" by (elim with_history_run) blast
  from this assms(2,3) obtain u where u: "recorded_run api (take k entries) = Accepted u" by (rule recorded_prefix)
  from recorded_run_agrees [OF u] obtain hk where "v_history u = Some hk" by blast
  moreover have "take k entries \<noteq> []" using assms(2,3) by (cases entries) auto
  ultimately show ?thesis
    using u by (intro that) (auto simp: verifyChainWithHistory_def verifyChainCore_def recorded_run_def)
qed

lemma settled_rows:
  assumes "verifyChainWithHistory api entries = Accepted (st, h)" and "map read_entry entries = map Some es"
    and "length entries < 2 ^ 32" and "1 \<le> k" and "k \<le> length entries"
    and "collision_free_on (api_sha256 api) (entry_byte_strings es)"
  shows "\<exists>s hk. verifyChainWithHistory api (take k entries) = Accepted (s, hk) \<and>
    (\<forall>ts added. chainMirrorEvents (es ! (k - 1)) ts (proposalIndexOf (take k es) s hk) added =
       chainMirrorEvents (es ! (k - 1)) ts (proposalIndexOf es st h) added) \<and>
    (\<forall>ts added. chainMirrorEvents (es ! (k - 1)) ts (proposalIndexOf es st h) added = None \<longleftrightarrow>
       (\<exists>p. entry_operation (es ! (k - 1)) = Direct (Add_Device p)) \<and> added = None)"
proof -
  obtain s hk where prefix: "verifyChainWithHistory api (take k entries) = Accepted (s, hk)"
    using assms(1,4,5) by (rule history_prefix)
  obtain v where v: "reached api (Some empty_history) es v" "verifier_ok api v" "st = at_head v"
    and hashes: "\<And>e. e \<in> set es \<Longrightarrow> entryHashAt h (entry_seq e) = entry_hash api e"
    using assms(1-3) by (rule history_reached) blast
  have reads: "map read_entry (take k entries) = map Some (take k es)" using assms(2) by (metis take_map)
  have "length (take k entries) < 2 ^ 32" using assms(3) by simp
  with prefix reads obtain u where u: "reached api (Some empty_history) (take k es) u" "verifier_ok api u" "s = at_head u"
    and hashes': "\<And>e. e \<in> set (take k es) \<Longrightarrow> entryHashAt hk (entry_seq e) = entry_hash api e"
    by (rule history_reached) blast
  have len: "length es = length entries" using assms(2) by (metis length_map)
  have known: "hashes_of api es (entryHashAt h)" using hashes assms(6) by (simp add: hashes_of_def)
  have e: "es ! (k - 1) \<in> set (take k es)" "es ! (k - 1) \<in> set es"
  proof -
    have k: "k - 1 < k" "k - 1 < length es" using assms(4,5) len by linarith+
    then have "k - 1 < length (take k es)" by (simp only: length_take min_less_iff_conj)
    then have "take k es ! (k - 1) \<in> set (take k es)" by (rule nth_mem)
    then show "es ! (k - 1) \<in> set (take k es)" by (simp only: nth_take [OF k(1)])
    then show "es ! (k - 1) \<in> set es" by (rule in_set_takeD)
  qed
  have index: "proposalIndexOf (take k es) s hk = indexProposals (take k es) (entryHashAt h) (pending_keys (v_state u))"
  proof -
    have "entryHashAt hk (entry_seq e) = entryHashAt h (entry_seq e)" if "e \<in> set (take k es)" for e
      using hashes [OF in_set_takeD [OF that]] hashes' [OF that] by (simp only:)
    then have "indexProposals (take k es) (entryHashAt hk) (pending_hashes s) =
        indexProposals (take k es) (entryHashAt h) (pending_hashes s)" by (rule index_hashes_only)
    then show ?thesis unfolding proposalIndexOf_def u(3) pending_hashes_at_head [OF u(2)] .
  qed
  have whole: "proposalIndexOf es st h = indexProposals es (entryHashAt h) (pending_keys (v_state v))"
    unfolding proposalIndexOf_def v(3) pending_hashes_at_head [OF v(2)] ..
  have split: "take k es @ drop k es = es" by (rule append_take_drop_id)
  have same: "same_answers (es ! (k - 1)) (indexProposals es (entryHashAt h) (pending_keys (v_state v)))
     (indexProposals (take k es) (entryHashAt h) (pending_keys (v_state u)))"
    by (rule index_stable [of api _ "take k es" "drop k es" v u "entryHashAt h", unfolded split,
        OF v(1) u(1) known e(1)])
  have rows: "chainMirrorEvents (es ! (k - 1)) ts (proposalIndexOf (take k es) s hk) added =
      chainMirrorEvents (es ! (k - 1)) ts (proposalIndexOf es st h) added" for ts added
    unfolding index whole by (rule same_answers_rows(1) [OF same, symmetric])
  have "chainMirrorEvents (es ! (k - 1)) ts (proposalIndexOf es st h) added = None \<longleftrightarrow>
      (\<exists>p. entry_operation (es ! (k - 1)) = Direct (Add_Device p)) \<and> added = None" for ts added
    unfolding whole by (rule rows_defined [OF v(1) known e(2)])
  with prefix rows show ?thesis by blast
qed

lemma demo_entries_collision_free: "collision_free_on demo_sha256 (entry_byte_strings (take 11 demo_entries))"
  using demo_collision_free by (simp add: entry_byte_strings_def)

lemma demo_reads: "map read_entry (demo_chain 11) = map Some (take 11 demo_entries)"
  by (simp add: demo_chain_def read_write_entry comp_def)

text \<open>
  The applied operations are those the verifier applied: what the client reads off the chain as
  direct operations and completed proposals, with their numbers and actors, applied one after the other
  to an empty state without any rule, gives the members, environments, grants, checkpoints, approval
  policy and named keys of the verified state.
\<close>

lemma applied_operations_replay:
  assumes "verifyChainWithHistory api entries = Accepted (st, h)" and "map read_entry entries = map Some es"
    and "length entries < 2 ^ 32" and "collision_free_on (api_sha256 api) (entry_byte_strings es)"
    and "replayed = fold (replay_operation (api_sha256 api))
      (appliedOperations es (entryHashAt h) (pending_hashes st)) empty_chain_state"
  shows "st_members st = members replayed \<and> st_environments st = environments replayed \<and>
    st_serverGrants st = serverGrants replayed \<and> st_checkpoints st = checkpoints replayed \<and>
    st_approvalPolicy st = approvalPolicy replayed \<and> st_namedServerKeys st = namedServerKeys replayed"
proof -
  obtain v where v: "reached api (Some empty_history) es v" "verifier_ok api v" "st = at_head v"
    and hashes: "\<And>e. e \<in> set es \<Longrightarrow> entryHashAt h (entry_seq e) = entry_hash api e"
    using assms(1-3) by (rule history_reached) blast
  have "hashes_of api es (entryHashAt h)" using hashes assms(4) by (simp add: hashes_of_def)
  from applied_replays [OF v(1) this] assms(5) v(2,3)
  have "v_state v = replayed\<lparr>pendingProposals := pendingProposals (v_state v)\<rparr>"
    by (simp add: pending_hashes_at_head)
  then obtain ps where "v_state v = replayed\<lparr>pendingProposals := ps\<rparr>" by blast
  with v(2,3) show ?thesis by (simp add: at_head_fields)
qed

end
