(* ===== verification/Mirror_Check.thy ===== *)
theory Mirror_Check
  imports Complex_Main Chain_Mirror_Guarantees Audit_Reconcile
begin

text \<open>
  The command line's checks of the audit mirror: the field comparison and the label of one row
  (\<open>audit-mirror.ts\<close>), and the bijection check of \<open>maruhi audit verify\<close> with its paging and merging of
  the delivered rows (\<open>audit-verify.ts\<close>). A message is its kind and coordinates; an exception of the
  mapping is \<^const>\<open>None\<close>. The server is the function that answers a request for the page before a row.
\<close>

section \<open>JSON values\<close>

text \<open>A decoded JSON value; its numbers are finite, so a rational is exact.\<close>

datatype json =
    Json_Null
  | Json_Bool bool
  | Json_Number rat
  | Json_String ustr
  | Json_Array "json list"
  | Json_Object "(ustr \<times> json) list"

text \<open>
  Reading a key that \<open>key in right\<close> finds: an own property, or the prototype, an object with no key of
  its own. What else a plain object inherits is a function, equal to no JSON value.
\<close>

definition property_of :: "(ustr \<times> json) list \<Rightarrow> ustr \<Rightarrow> json option" where
  "property_of kvs key =
     (case map_of kvs key of
        Some v \<Rightarrow> Some v
      | None \<Rightarrow> if key = lit ''__proto__'' then Some (Json_Object []) else None)"

function jsonEqual :: "json \<Rightarrow> json \<Rightarrow> bool" where
  "jsonEqual Json_Null b = (b = Json_Null)"
| "jsonEqual (Json_Bool x) b = (b = Json_Bool x)"
| "jsonEqual (Json_Number x) b = (b = Json_Number x)"
| "jsonEqual (Json_String x) b = (b = Json_String x)"
| "jsonEqual (Json_Array xs) b =
     (case b of
        Json_Array ys \<Rightarrow> length xs = length ys \<and> list_all (\<lambda>(item, other). jsonEqual item other) (zip xs ys)
      | _ \<Rightarrow> False)"
| "jsonEqual (Json_Object left) b =
     (case b of
        Json_Object right \<Rightarrow>
          length left = length right \<and>
          list_all (\<lambda>(key, v). case property_of right key of None \<Rightarrow> False | Some w \<Rightarrow> jsonEqual v w) left
      | _ \<Rightarrow> False)"
  by pat_completeness auto

termination
proof (relation "measure (size \<circ> fst)")
  fix xs ys :: "json list" and z x y
  assume "z \<in> set (zip xs ys)" "(x, y) = z"
  then have "x \<in> set xs" by (auto dest: set_zip_leftD)
  then have "size x < Suc (size_list size xs)" by (auto intro!: size_list_estimation' simp: less_Suc_eq_le)
  then show "((x, y), Json_Array xs, b) \<in> measure (size \<circ> fst)" for b by simp
next
  fix left :: "(ustr \<times> json) list" and z k v w
  assume "z \<in> set left" "(k, v) = z"
  then have "size v < Suc (size_list (size_prod (\<lambda>x. 0) size) left)"
    using size_list_estimation' [of "(k, v)" left "size v" "size_prod (\<lambda>x. 0) size"]
    by (auto simp: less_Suc_eq_le)
  then show "((v, w), Json_Object left, b) \<in> measure (size \<circ> fst)" for b by simp
qed simp

definition optionalEqual :: "json option \<Rightarrow> json option \<Rightarrow> bool" where
  "optionalEqual a b =
     (case (a, b) of (None, None) \<Rightarrow> True | (Some x, Some y) \<Rightarrow> jsonEqual x y | _ \<Rightarrow> False)"

section \<open>The payload of a row\<close>

text \<open>The payload objects of \<open>mirrorTails\<close>; the applied row's \<open>viaProposalSeq\<close> is spread last.\<close>

definition json_int :: "int \<Rightarrow> json" where
  "json_int n = Json_Number (of_int n)"

definition viaOf :: "int option \<Rightarrow> (ustr \<times> json) list" where
  "viaOf via = (case via of None \<Rightarrow> [] | Some n \<Rightarrow> [(lit ''viaProposalSeq'', json_int n)])"

definition json_strings :: "ustr list \<Rightarrow> json" where
  "json_strings xs = Json_Array (map Json_String xs)"

definition json_scope :: "scope_kind \<Rightarrow> environment_id list \<Rightarrow> (ustr \<times> json) list" where
  "json_scope kind ids =
     [(lit ''scopeKind'', Json_String (scope_kind_name kind)), (lit ''scopeEnvironmentIds'', json_strings ids)]"

definition json_checkpoint_environment :: "checkpoint_environment_entry \<Rightarrow> json" where
  "json_checkpoint_environment e =
     Json_Object [(lit ''environmentId'', Json_String (ck_environmentId e)), (lit ''epoch'', json_int (ck_epoch e)),
       (lit ''manifestVersion'', json_int (ck_manifestVersion e)),
       (lit ''manifestSigHashHex'', Json_String (ck_manifestSigHashHex e)),
       (lit ''valuesDigestHex'', Json_String (ck_valuesDigestHex e))]"

fun json_payload :: "mirror_payload \<Rightarrow> json" where
  "json_payload (Via_Payload n) = Json_Object (viaOf (Some n))"
| "json_payload (Member_Added_Payload r k ids via) =
     Json_Object ([(lit ''role'', Json_String (role_name r))] @ json_scope k ids @ viaOf via)"
| "json_payload (Role_Changed_Payload r k ids via) =
     Json_Object ([(lit ''newRole'', Json_String (role_name r))] @ json_scope k ids @ viaOf via)"
| "json_payload (Environment_Created_Payload c via) =
     Json_Object ([(lit ''dekCommitmentHex'', Json_String c)] @ viaOf via)"
| "json_payload (Epoch_Rotated_Payload reason c via) =
     Json_Object ([(lit ''reason'', Json_String reason), (lit ''dekCommitmentHex'', Json_String c)] @ viaOf via)"
| "json_payload (Server_Granted_Payload ids via) =
     Json_Object ([(lit ''scopeEnvironmentIds'', json_strings ids)] @ viaOf via)"
| "json_payload (Checkpointed_Payload envs head via) =
     Json_Object ([(lit ''environments'', Json_Array (map json_checkpoint_environment envs)),
       (lit ''auditHeadHashHex'', Json_String head)] @ viaOf via)"
| "json_payload (Policy_Changed_Payload ops required via) =
     Json_Object ([(lit ''ops'', json_strings (map approval_target_name ops)),
       (lit ''requiredApprovals'', json_int required)] @ viaOf via)"
| "json_payload (Proposed_Payload op expires) =
     Json_Object [(lit ''innerOp'', Json_String op), (lit ''expiresAtMs'', json_int expires)]"
| "json_payload (Approved_Payload seq completed) =
     Json_Object [(lit ''proposalChainSeq'', json_int seq), (lit ''completed'', Json_Bool completed)]"
| "json_payload (Withdrawn_Payload seq) = Json_Object [(lit ''proposalChainSeq'', json_int seq)]"
| "json_payload (Device_Added_Payload key cap k ids via) =
     Json_Object ([(lit ''deviceKeyFingerprint'', Json_String key), (lit ''roleCap'', Json_String (role_name cap))]
       @ json_scope k ids @ viaOf via)"
| "json_payload (Device_Revoked_Payload keys via) =
     Json_Object ([(lit ''deviceKeyFingerprints'', json_strings keys)] @ viaOf via)"

section \<open>One row\<close>

type_synonym wire_row = "json wire_event"

datatype mirror_field =
    Event_Field | ClientTs_Field | ActorType_Field | ActorUserId_Field | ActorKeyFingerprint_Field
  | TargetUserId_Field | TargetKeyFingerprint_Field | ActorApiTokenId_Field | EnvironmentId_Field
  | VariableId_Field | Epoch_Field | Version_Field | Payload_Field

definition mirrorMismatches :: "audit_event_record \<Rightarrow> wire_row \<Rightarrow> mirror_field list" where
  "mirrorMismatches expected observed =
     map fst (filter (\<lambda>(label, same). \<not> same)
       [(Event_Field, mt_event expected = we_event observed),
        (ClientTs_Field, Some (ae_clientTs expected) = we_clientTs observed),
        (ActorType_Field, ae_actorType expected = we_actorType observed),
        (ActorUserId_Field, Some (ae_actorUserId expected) = we_actorUserId observed),
        (ActorKeyFingerprint_Field, Some (ae_actorKeyFingerprintHex expected) = we_actorKeyFingerprintHex observed),
        (TargetUserId_Field, mt_targetUserId expected = we_targetUserId observed),
        (TargetKeyFingerprint_Field, mt_targetKeyFingerprintHex expected = we_targetKeyFingerprintHex observed),
        (ActorApiTokenId_Field, None = we_actorApiTokenId observed),
        (EnvironmentId_Field, mt_environmentId expected = we_environmentId observed),
        (VariableId_Field, None = we_variableId observed),
        (Epoch_Field, mt_epoch expected = we_epoch observed),
        (Version_Field, None = we_version observed),
        (Payload_Field, optionalEqual (map_option json_payload (mt_payload expected)) (we_payload observed))])"

definition expectedRowFor :: "chain_entry \<Rightarrow> wire_row \<Rightarrow> proposal_index \<Rightarrow> audit_event_record option" where
  "expectedRowFor entry observed index =
     (case chainMirrorEvents entry (we_serverTs observed) index None of
        None \<Rightarrow> None
      | Some [] \<Rightarrow> None
      | Some (first # rows) \<Rightarrow>
          (case find (\<lambda>row. mt_event row = we_event observed) (first # rows) of
             None \<Rightarrow> Some first
           | Some row \<Rightarrow> Some row))"

definition proposalMissingFor :: "chain_entry \<Rightarrow> proposal_index \<Rightarrow> bool" where
  "proposalMissingFor entry index =
     (case entry_operation entry of
        Approve hash \<Rightarrow> \<not> map_has index hash
      | Withdraw hash \<Rightarrow> \<not> map_has index hash
      | _ \<Rightarrow> False)"

datatype mirror_label =
    Mirror_OK | Mirror_Mismatch | Newer_Than_Local | Proposal_Not_On_Chain | Outside_Chain_Namespace | Not_Stored_Here

datatype mirror_mismatch =
    No_Chain_Seq | No_Entry_At int | Field_Differs mirror_field | Provenance_Outside ustr | Provenance_On_D1 int

record mirror_trust =
  trust_label :: mirror_label
  trust_mismatches :: "mirror_mismatch list"

definition startsWith :: "ustr \<Rightarrow> ustr \<Rightarrow> bool" where
  "startsWith s start = (take (length start) s = start)"

definition mirrorTrustOf ::
  "wire_row \<Rightarrow> (int, chain_entry) js_map \<Rightarrow> int \<Rightarrow> proposal_index \<Rightarrow> mirror_trust option" where
  "mirrorTrustOf observed entries localHead index =
     (case we_chainSeq observed of
        None \<Rightarrow> Some \<lparr>trust_label = Mirror_Mismatch, trust_mismatches = [No_Chain_Seq]\<rparr>
      | Some chainSeq \<Rightarrow>
          if localHead < chainSeq then Some \<lparr>trust_label = Newer_Than_Local, trust_mismatches = []\<rparr>
          else (case map_of entries chainSeq of
            None \<Rightarrow> Some \<lparr>trust_label = Mirror_Mismatch, trust_mismatches = [No_Entry_At chainSeq]\<rparr>
          | Some entry \<Rightarrow>
              if proposalMissingFor entry index
              then Some \<lparr>trust_label = Proposal_Not_On_Chain, trust_mismatches = []\<rparr>
              else map_option (\<lambda>expected.
                  let mismatches = map Field_Differs (mirrorMismatches expected observed) in
                  \<lparr>trust_label = (if mismatches = [] then Mirror_OK else Mirror_Mismatch),
                   trust_mismatches = mismatches\<rparr>)
                (expectedRowFor entry observed index)))"

definition outsideChainNamespaceTrust :: "wire_row \<Rightarrow> mirror_trust option" where
  "outsideChainNamespaceTrust event =
     (if we_chainSeq event = None \<or> startsWith (we_event event) CHAIN_MIRROR_EVENT_PREFIX then None
      else Some \<lparr>trust_label = Outside_Chain_Namespace, trust_mismatches = [Provenance_Outside (we_event event)]\<rparr>)"

text \<open>The outer option is the exception, the inner one \<open>null\<close>: a row that claims no chain provenance.\<close>

definition projectMirrorTrustOf ::
  "wire_row \<Rightarrow> (int, chain_entry) js_map \<Rightarrow> int \<Rightarrow> proposal_index \<Rightarrow> mirror_trust option option" where
  "projectMirrorTrustOf event entries localHead index =
     (case outsideChainNamespaceTrust event of
        Some trust \<Rightarrow> Some (Some trust)
      | None \<Rightarrow>
          if startsWith (we_event event) CHAIN_MIRROR_EVENT_PREFIX
          then map_option Some (mirrorTrustOf event entries localHead index)
          else Some None)"

definition d1MirrorTrustOf :: "wire_row \<Rightarrow> mirror_trust option" where
  "d1MirrorTrustOf event =
     map_option (\<lambda>chainSeq. \<lparr>trust_label = Not_Stored_Here, trust_mismatches = [Provenance_On_D1 chainSeq]\<rparr>)
       (we_chainSeq event)"

section \<open>The row on the wire\<close>

text \<open>
  A stored mirror row as the server delivers it: \<open>eventBindings\<close> stores absent columns as \<open>NULL\<close> and the
  payload as JSON, and \<open>toAuditEventValue\<close> reads them back.
\<close>

definition toAuditEventValue :: "ustr \<Rightarrow> int option \<Rightarrow> audit_event_record \<Rightarrow> wire_row" where
  "toAuditEventValue rowId seq r =
     \<lparr>we_seq = seq, we_id = rowId, we_serverTs = ae_serverTs r, we_clientTs = Some (ae_clientTs r),
      we_event = mt_event r, we_actorType = ae_actorType r, we_actorUserId = Some (ae_actorUserId r),
      we_actorKeyFingerprintHex = Some (ae_actorKeyFingerprintHex r), we_actorApiTokenId = None,
      we_targetUserId = mt_targetUserId r, we_targetKeyFingerprintHex = mt_targetKeyFingerprintHex r,
      we_environmentId = mt_environmentId r, we_variableId = None, we_epoch = mt_epoch r, we_version = None,
      we_chainSeq = Some (ae_chainSeq r), we_orgId = None, we_projectId = None,
      we_payload = map_option json_payload (mt_payload r)\<rparr>"

section \<open>Fetching the rows\<close>

definition VERIFY_PAGE_LIMIT :: nat where "VERIFY_PAGE_LIMIT = 200"

definition VERIFY_MAX_PAGES :: nat where "VERIFY_MAX_PAGES = 100"

datatype mirror_row_selector = Chain_Namespace | Chain_Seq_Present

datatype fetch_problem = Not_Advancing mirror_row_selector ustr | Too_Many_Pages | Row_Changed ustr

fun first_repeated :: "ustr set \<Rightarrow> wire_row list \<Rightarrow> ustr option" where
  "first_repeated seen [] = None"
| "first_repeated seen (row # rows) =
     (if we_id row \<in> seen then Some (we_id row) else first_repeated (insert (we_id row) seen) rows)"

fun fetch_pages ::
  "mirror_row_selector \<Rightarrow> (ustr option \<Rightarrow> wire_row list) \<Rightarrow> nat \<Rightarrow> ustr set \<Rightarrow> ustr option \<Rightarrow>
   (fetch_problem, wire_row list) outcome" where
  "fetch_pages selector fetchPage 0 seen before = Rejected Too_Many_Pages"
| "fetch_pages selector fetchPage (Suc pages) seen before =
     (let rows = fetchPage before in
      case first_repeated seen rows of
        Some i \<Rightarrow> Rejected (Not_Advancing selector i)
      | None \<Rightarrow>
          if length rows < VERIFY_PAGE_LIMIT then Accepted rows
          else then_call
            (fetch_pages selector fetchPage pages (seen \<union> we_id ` set rows)
               (if rows = [] then None else Some (we_id (last rows))))
            (\<lambda>more. Accepted (rows @ more)))"

definition fetchMirrorRowsForSelector ::
  "(mirror_row_selector \<Rightarrow> ustr option \<Rightarrow> wire_row list) \<Rightarrow> mirror_row_selector \<Rightarrow>
   (fetch_problem, wire_row list) outcome" where
  "fetchMirrorRowsForSelector server selector = fetch_pages selector (server selector) VERIFY_MAX_PAGES {} None"

text \<open>\<open>jsonEqual\<close> of two decoded rows: the same fields are present, with equal values.\<close>

definition same_row :: "wire_row \<Rightarrow> wire_row \<Rightarrow> bool" where
  "same_row a b \<longleftrightarrow>
     a\<lparr>we_payload := None\<rparr> = b\<lparr>we_payload := None\<rparr> \<and> optionalEqual (we_payload a) (we_payload b)"

fun merge_rows :: "(ustr, wire_row) js_map \<Rightarrow> wire_row list \<Rightarrow> (fetch_problem, (ustr, wire_row) js_map) outcome" where
  "merge_rows byId [] = Accepted byId"
| "merge_rows byId (row # rows) =
     (case map_of byId (we_id row) of
        Some existing \<Rightarrow>
          if \<not> same_row existing row then Rejected (Row_Changed (we_id row))
          else merge_rows (AList.update (we_id row) row byId) rows
      | None \<Rightarrow> merge_rows (AList.update (we_id row) row byId) rows)"

definition fetchAllMirrorRows ::
  "(mirror_row_selector \<Rightarrow> ustr option \<Rightarrow> wire_row list) \<Rightarrow> (fetch_problem, wire_row list) outcome" where
  "fetchAllMirrorRows server =
     then_call (fetchMirrorRowsForSelector server Chain_Namespace) (\<lambda>named.
     then_call (merge_rows [] named) (\<lambda>byId.
     then_call (fetchMirrorRowsForSelector server Chain_Seq_Present) (\<lambda>numbered.
     then_call (merge_rows byId numbered) (\<lambda>merged. Accepted (map snd merged)))))"

section \<open>The bijection\<close>

datatype verify_problem =
    Outside_Namespace ustr
  | Unknown_Chain_Op ustr
  | Row_Without_Seq ustr
  | Not_Contiguous int int
  | Too_Many_Rows_Ahead int nat
  | Proposal_Unknown int
  | Missing_Row int ustr
  | Duplicate_Rows int ustr "ustr list"
  | Row_Differs int ustr mirror_field
  | Unexpected_Row int ustr

fun contiguity_problems :: "(int, nat) js_map \<Rightarrow> int \<Rightarrow> int list \<Rightarrow> verify_problem list" where
  "contiguity_problems counts expected [] = []"
| "contiguity_problems counts expected (chainSeq # seqs) =
     (if chainSeq \<noteq> expected then [Not_Contiguous chainSeq expected] else []) @
     (let c = (case map_of counts chainSeq of None \<Rightarrow> 0 | Some n \<Rightarrow> n) in
      if 2 < c then [Too_Many_Rows_Ahead chainSeq c] else []) @
     contiguity_problems counts (chainSeq + 1) seqs"

definition row_counts :: "int list \<Rightarrow> (int, nat) js_map" where
  "row_counts ahead =
     foldl (\<lambda>counts s. AList.update s (Suc (case map_of counts s of None \<Rightarrow> 0 | Some n \<Rightarrow> n)) counts) [] ahead"

definition aheadContiguityProblems :: "int list \<Rightarrow> int \<Rightarrow> verify_problem list" where
  "aheadContiguityProblems ahead localHead =
     (let counts = row_counts ahead in contiguity_problems counts (localHead + 1) (sort (map fst counts)))"

record mirror_buckets =
  bk_byChainSeq :: "(int, wire_row list) js_map"
  bk_problems :: "verify_problem list"
  bk_ahead :: "int list"

definition add_to_bucket :: "int \<Rightarrow> wire_row \<Rightarrow> mirror_buckets \<Rightarrow> mirror_buckets" where
  "add_to_bucket localHead row b =
     (if \<not> startsWith (we_event row) CHAIN_MIRROR_EVENT_PREFIX
      then b\<lparr>bk_problems := bk_problems b @ [Outside_Namespace (we_id row)]\<rparr>
      else if we_event row \<notin> set CHAIN_MIRROR_EVENTS
      then b\<lparr>bk_problems := bk_problems b @ [Unknown_Chain_Op (we_id row)]\<rparr>
      else (case we_chainSeq row of
          None \<Rightarrow> b\<lparr>bk_problems := bk_problems b @ [Row_Without_Seq (we_id row)]\<rparr>
        | Some chainSeq \<Rightarrow>
            if localHead < chainSeq then b\<lparr>bk_ahead := bk_ahead b @ [chainSeq]\<rparr>
            else b\<lparr>bk_byChainSeq := AList.update chainSeq
                ((case map_of (bk_byChainSeq b) chainSeq of None \<Rightarrow> [] | Some rows \<Rightarrow> rows) @ [row]) (bk_byChainSeq b)\<rparr>))"

definition bucketMirrorRows :: "wire_row list \<Rightarrow> int \<Rightarrow> mirror_buckets" where
  "bucketMirrorRows rows localHead =
     (let b = foldl (\<lambda>b row. add_to_bucket localHead row b) \<lparr>bk_byChainSeq = [], bk_problems = [], bk_ahead = []\<rparr> rows in
      b\<lparr>bk_problems := bk_problems b @ aheadContiguityProblems (bk_ahead b) localHead\<rparr>)"

definition expectedRowProblems ::
  "chain_entry \<Rightarrow> audit_event_record \<Rightarrow> wire_row list \<Rightarrow> proposal_index \<Rightarrow> verify_problem list option" where
  "expectedRowProblems entry expected rows index =
     (case rows of
        [] \<Rightarrow> Some [Missing_Row (entry_seq entry) (mt_event expected)]
      | observed # _ \<Rightarrow>
          if 1 < length rows then Some [Duplicate_Rows (entry_seq entry) (mt_event expected) (map we_id rows)]
          else map_option (\<lambda>e. map (Row_Differs (entry_seq entry) (we_id observed)) (mirrorMismatches e observed))
            (expectedRowFor entry observed index))"

definition entryMirrorProblems ::
  "chain_entry \<Rightarrow> wire_row list \<Rightarrow> proposal_index \<Rightarrow> verify_problem list option" where
  "entryMirrorProblems entry matched index =
     (if proposalMissingFor entry index then Some [Proposal_Unknown (entry_seq entry)]
      else case chainMirrorEvents entry 0 index None of
        None \<Rightarrow> None
      | Some expectedRows \<Rightarrow>
          map_option (\<lambda>problems.
              concat problems @
              map (\<lambda>row. Unexpected_Row (entry_seq entry) (we_id row))
                (filter (\<lambda>row. we_event row \<notin> mt_event ` set expectedRows) matched))
            (those (map (\<lambda>expected.
                expectedRowProblems entry expected (filter (\<lambda>row. we_event row = mt_event expected) matched) index)
              expectedRows)))"

text \<open>The check of fetched rows against a verified chain: the exit code and the problems it reports.\<close>

definition auditVerify ::
  "chain_entry list \<Rightarrow> chain_state \<Rightarrow> chain_history_builder \<Rightarrow> wire_row list \<Rightarrow>
   (nat \<times> verify_problem list) option" where
  "auditVerify entries state history rows =
     (let buckets = bucketMirrorRows rows (st_headSeq state);
          index = proposalIndexOf entries state history in
      map_option (\<lambda>found.
          let problems = bk_problems buckets @ concat found in
          (if problems = [] \<and> bk_ahead buckets = [] then 0 else 1, problems))
        (those (map (\<lambda>entry.
            entryMirrorProblems entry
              (case map_of (bk_byChainSeq buckets) (entry_seq entry) of None \<Rightarrow> [] | Some matched \<Rightarrow> matched) index)
          entries)))"

datatype verify_failure = Fetch_Failed fetch_problem | Mapping_Threw

definition auditVerifyOp ::
  "chain_entry list \<Rightarrow> chain_state \<Rightarrow> chain_history_builder \<Rightarrow>
   (mirror_row_selector \<Rightarrow> ustr option \<Rightarrow> wire_row list) \<Rightarrow> (verify_failure, nat \<times> verify_problem list) outcome" where
  "auditVerifyOp entries state history server =
     (case fetchAllMirrorRows server of
        Rejected problem \<Rightarrow> Rejected (Fetch_Failed problem)
      | Accepted rows \<Rightarrow>
          (case auditVerify entries state history rows of
             None \<Rightarrow> Rejected Mapping_Threw
           | Some verdict \<Rightarrow> Accepted verdict))"

end
