(* ===== verification/Mirror_Check_Facts.thy ===== *)
theory Mirror_Check_Facts
  imports Mirror_Check
begin

text \<open>
  The bijection check decides what it is for: it finds nothing exactly when the fetched rows are, up to
  order, one matching row for every row the mapping expects.
\<close>

section \<open>Matching by keys\<close>

lemma mset_by_keys:
  "distinct (map f rs) \<Longrightarrow> \<forall>x\<in>set xs. g x \<in> f ` set rs \<Longrightarrow>
   mset (concat (map (\<lambda>r. filter (\<lambda>x. g x = f r) xs) rs)) = mset xs"
proof (induction rs arbitrary: xs)
  case (Cons r rs)
  let ?rest = "filter (\<lambda>x. g x \<noteq> f r) xs"
  let ?cells = "\<lambda>ys. concat (map (\<lambda>s. filter (\<lambda>x. g x = f s) ys) rs)"
  have "filter (\<lambda>x. g x = f s) ?rest = filter (\<lambda>x. g x = f s) xs" if "s \<in> set rs" for s
    using Cons.prems(1) that by (auto simp: filter_filter intro!: filter_cong)
  then have "?cells ?rest = ?cells xs" by (simp cong: map_cong)
  moreover have "mset (?cells ?rest) = mset ?rest" using Cons.prems by (intro Cons.IH) auto
  moreover have "mset (filter (\<lambda>x. g x = f r) xs) + mset ?rest = mset xs"
    using multiset_partition [of "mset xs" "\<lambda>x. g x = f r"] by simp
  moreover have "mset (concat (map (\<lambda>s. filter (\<lambda>x. g x = f s) xs) (r # rs))) =
      mset (filter (\<lambda>x. g x = f r) xs) + mset (?cells xs)" by simp
  ultimately show ?case by (simp only:)
qed simp

lemma filter_keyed: "distinct (map f rs) \<Longrightarrow> r \<in> set rs \<Longrightarrow> filter (\<lambda>s. f s = f r) rs = [r]"
proof (induction rs)
  case (Cons s rs)
  have "filter (\<lambda>t. f t = f s) rs = []" using Cons.prems(1) by (auto simp: filter_empty_conv image_iff)
  with Cons show ?case by auto
qed simp

lemma list_all2_filter:
  "list_all2 R xs ys \<Longrightarrow> (\<And>x y. R x y \<Longrightarrow> P x = Q y) \<Longrightarrow> list_all2 R (filter P xs) (filter Q ys)"
  by (induction rule: list_all2_induct) auto

lemma matched_by_keys:
  assumes distinct: "distinct (map f rs)" and keyed: "\<And>r x. R r x \<Longrightarrow> f r = g x"
  shows "(\<forall>x\<in>set xs. g x \<in> f ` set rs) \<and> (\<forall>r\<in>set rs. \<exists>x. filter (\<lambda>x. g x = f r) xs = [x] \<and> R r x) \<longleftrightarrow>
    (\<exists>ys. mset ys = mset xs \<and> list_all2 R rs ys)"
proof (intro iffI conjI ballI)
  assume found: "(\<forall>x\<in>set xs. g x \<in> f ` set rs) \<and> (\<forall>r\<in>set rs. \<exists>x. filter (\<lambda>x. g x = f r) xs = [x] \<and> R r x)"
  then obtain h where h: "\<And>r. r \<in> set rs \<Longrightarrow> filter (\<lambda>x. g x = f r) xs = [h r] \<and> R r (h r)" by metis
  have "concat (map (\<lambda>r. filter (\<lambda>x. g x = f r) xs) rs) = concat (map (\<lambda>r. [h r]) rs)"
    using h by (intro arg_cong [where f = concat] map_cong) auto
  then have "concat (map (\<lambda>r. filter (\<lambda>x. g x = f r) xs) rs) = map h rs" by simp
  with mset_by_keys [OF distinct, of xs g] found have "mset (map h rs) = mset xs" by simp
  moreover have "list_all2 R rs (map h rs)" using h by (simp add: list_all2_conv_all_nth)
  ultimately show "\<exists>ys. mset ys = mset xs \<and> list_all2 R rs ys" by blast
next
  assume "\<exists>ys. mset ys = mset xs \<and> list_all2 R rs ys"
  then obtain ys where ys: "mset ys = mset xs" "list_all2 R rs ys" by blast
  {
    fix x assume "x \<in> set xs"
    with ys(1) have "x \<in> set ys" by (metis mset_eq_setD)
    then obtain i where i: "i < length ys" "x = ys ! i" by (auto simp: in_set_conv_nth)
    with ys(2) have "i < length rs" "R (rs ! i) x" by (simp_all add: list_all2_conv_all_nth)
    then have "rs ! i \<in> set rs" "f (rs ! i) = g x" using keyed by simp_all
    then show "g x \<in> f ` set rs" by (metis imageI)
  }
  fix r assume r: "r \<in> set rs"
  have "list_all2 R (filter (\<lambda>s. f s = f r) rs) (filter (\<lambda>x. g x = f r) ys)"
    using ys(2) keyed by (intro list_all2_filter) auto
  then obtain x where x: "filter (\<lambda>x. g x = f r) ys = [x]" "R r x"
    using filter_keyed [OF distinct r] by (auto simp: list_all2_Cons1)
  moreover have "mset (filter (\<lambda>x. g x = f r) xs) = mset (filter (\<lambda>x. g x = f r) ys)" using ys(1) by simp
  ultimately have "filter (\<lambda>x. g x = f r) xs = [x]" by (simp only: mset_single_iff_right [symmetric] mset.simps)
  with x(2) show "\<exists>x. filter (\<lambda>x. g x = f r) xs = [x] \<and> R r x" by blast
qed

section \<open>The rows of the mapping\<close>

lemma mirror_event_name:
  "mirror_proposable operation s = Some tail \<Longrightarrow> mt_event tail = PROPOSABLE_MIRROR_EVENT_NAME operation"
  by (cases operation) (auto simp: event_only_def)

lemma mirror_tail_event: "mirrorTailOf operation s = Some tail \<Longrightarrow> mt_event tail = MIRROR_EVENT_NAME operation"
  by (cases operation) (auto simp: event_only_def mirror_event_name)

lemma proposable_events: "PROPOSABLE_MIRROR_EVENT_NAME operation \<in> set CHAIN_MIRROR_EVENTS"
  "PROPOSABLE_MIRROR_EVENT_NAME operation \<noteq> MIRROR_EVENT_NAME (Approve h)"
  by (cases operation; simp add: CHAIN_MIRROR_EVENTS_def)+

lemma mirror_events: "MIRROR_EVENT_NAME operation \<in> set CHAIN_MIRROR_EVENTS"
  by (cases operation) (simp_all add: proposable_events, simp_all add: CHAIN_MIRROR_EVENTS_def)

lemma take_lit: "take n (lit s) = lit (take n s)"
  by (simp add: lit_def take_map)

lemma chain_events_prefixed: "event \<in> set CHAIN_MIRROR_EVENTS \<Longrightarrow> startsWith event CHAIN_MIRROR_EVENT_PREFIX"
  by (auto simp: CHAIN_MIRROR_EVENTS_def startsWith_def CHAIN_MIRROR_EVENT_PREFIX_def take_lit)

lemma row_of_fields [simp]:
  "mt_event (row_of entry ts actor tail) = mt_event tail"
  "ae_chainSeq (row_of entry ts actor tail) = entry_seq entry"
  by (simp_all add: row_of_def)

lemma mirror_rows_shape:
  assumes "chainMirrorEvents e ts index added = Some rows"
  obtains subject tail where "mirrorTailOf (entry_operation e) subject = Some tail"
      and "rows = [row_of e ts (entry_actor e) tail]"
  | subject tail h inner actor subject' tail' where "mirrorTailOf (Approve h) subject = Some tail"
      and "mirror_proposable inner subject' = Some tail'"
      and "rows = [row_of e ts (entry_actor e) tail, row_of e ts actor tail']"
proof (cases "entry_operation e")
  case (Direct inner)
  with assms that(1) show ?thesis
    by (cases inner) (auto simp: chainMirrorEvents_def Let_def simp del: mirrorTailOf.simps)
next
  case (Approve h)
  with assms that show ?thesis
    by (auto simp: chainMirrorEvents_def Let_def Option.bind_eq_Some_conv
        simp del: mirrorTailOf.simps mirror_proposable.simps split: if_splits)
next
  case (Withdraw h)
  with assms that(1) show ?thesis
    by (auto simp: chainMirrorEvents_def Let_def Option.bind_eq_Some_conv simp del: mirrorTailOf.simps)
next
  case (Propose p)
  with assms that(1) show ?thesis
    by (auto simp: chainMirrorEvents_def Let_def simp del: mirrorTailOf.simps)
qed

lemma mirror_rows:
  assumes "chainMirrorEvents e ts index added = Some rows"
  shows "rows \<noteq> []" and "distinct (map mt_event rows)"
    and "r \<in> set rows \<Longrightarrow> ae_chainSeq r = entry_seq e \<and> mt_event r \<in> set CHAIN_MIRROR_EVENTS"
  using assms
  by (cases rule: mirror_rows_shape;
      auto simp: mirror_events proposable_events dest!: mirror_event_name mirror_tail_event
        simp del: mirrorTailOf.simps mirror_proposable.simps MIRROR_EVENT_NAME.simps)+

lemma mirror_rows_at:
  "chainMirrorEvents e ts index added = map_option (map (\<lambda>r. r\<lparr>ae_serverTs := ts\<rparr>)) (chainMirrorEvents e 0 index added)"
proof -
  have "row_of e ts actor tail = (row_of e 0 actor tail)\<lparr>ae_serverTs := ts\<rparr>" for actor tail
    by (simp add: row_of_def)
  then show ?thesis
    by (auto simp: chainMirrorEvents_def Let_def option.map_comp comp_def
        split: chain_operation.split proposable_operation.split Option.bind_split)
qed

lemma mismatches_any_time [simp]: "mirrorMismatches (r\<lparr>ae_serverTs := ts\<rparr>) w = mirrorMismatches r w"
  by (simp add: mirrorMismatches_def)

section \<open>One entry\<close>

text \<open>An observed row mirrors an expected one: the number of the entry and every compared field agree.\<close>

definition row_mirrors :: "audit_event_record \<Rightarrow> wire_row \<Rightarrow> bool" where
  "row_mirrors r w \<longleftrightarrow> we_chainSeq w = Some (ae_chainSeq r) \<and> mirrorMismatches r w = []"

lemma row_mirrors_event: "row_mirrors r w \<Longrightarrow> mt_event r = we_event w"
  by (auto simp: row_mirrors_def mirrorMismatches_def split: if_splits)

lemma expected_row_for:
  assumes "chainMirrorEvents e 0 index None = Some rows" and "r \<in> set rows" and "we_event w = mt_event r"
  obtains ts where "expectedRowFor e w index = Some (r\<lparr>ae_serverTs := ts\<rparr>)"
proof -
  let ?ts = "we_serverTs w"
  have rows: "chainMirrorEvents e ?ts index None = Some (map (\<lambda>r. r\<lparr>ae_serverTs := ?ts\<rparr>) rows)"
    using assms(1) mirror_rows_at [of e ?ts] by simp
  have "find (\<lambda>row. mt_event row = we_event w) (map (\<lambda>r. r\<lparr>ae_serverTs := ?ts\<rparr>) rows) = Some (r\<lparr>ae_serverTs := ?ts\<rparr>)"
    using mirror_rows(2) [OF assms(1)] assms(2,3)
  proof (induction rows)
    case (Cons s rows)
    then show ?case by (auto simp: image_iff)
  qed simp
  with rows show ?thesis
    by (intro that [of ?ts]) (auto simp: expectedRowFor_def split: list.split)
qed

lemma mapped_not_missing: "chainMirrorEvents e ts index added = Some rows \<Longrightarrow> \<not> proposalMissingFor e index"
  by (cases "entry_operation e")
    (auto simp: chainMirrorEvents_def proposalMissingFor_def map_has_def Let_def Option.bind_eq_Some_conv
      simp del: mirrorTailOf.simps)

lemma expected_row_problems:
  assumes "chainMirrorEvents e 0 index None = Some rows" and "r \<in> set rows"
    and "\<forall>w\<in>set observed. we_event w = mt_event r"
  shows "expectedRowProblems e r observed index \<noteq> None"
    and "expectedRowProblems e r observed index = Some [] \<longleftrightarrow> (\<exists>w. observed = [w] \<and> mirrorMismatches r w = [])"
proof -
  have "expectedRowProblems e r observed index \<noteq> None \<and>
      (expectedRowProblems e r observed index = Some [] \<longleftrightarrow> (\<exists>w. observed = [w] \<and> mirrorMismatches r w = []))"
  proof (cases observed)
    case (Cons w more)
    with assms(3) obtain ts where "expectedRowFor e w index = Some (r\<lparr>ae_serverTs := ts\<rparr>)"
      using expected_row_for [OF assms(1,2)] by auto
    with Cons show ?thesis by (cases more) (auto simp: expectedRowProblems_def)
  qed (simp add: expectedRowProblems_def)
  then show "expectedRowProblems e r observed index \<noteq> None"
    and "expectedRowProblems e r observed index = Some [] \<longleftrightarrow> (\<exists>w. observed = [w] \<and> mirrorMismatches r w = [])"
    by blast+
qed

text \<open>A list of checks that all return: the concatenation is empty exactly when every check found nothing.\<close>

lemma those_map_total: "\<forall>x\<in>set xs. f x \<noteq> None \<Longrightarrow> those (map f xs) = Some (map (the \<circ> f) xs)"
  by (induction xs) auto

lemma the_value: "x \<noteq> None \<Longrightarrow> (x = Some v \<longleftrightarrow> P) \<Longrightarrow> (the x = v \<longleftrightarrow> P)"
  by auto

lemma those_undefined: "those (map f xs) = None \<longleftrightarrow> (\<exists>x\<in>set xs. f x = None)"
  by (induction xs) (auto split: option.split)

definition entry_mirrored :: "audit_event_record list \<Rightarrow> wire_row list \<Rightarrow> bool" where
  "entry_mirrored rows matched \<longleftrightarrow>
     (\<forall>r\<in>set rows. \<exists>w. filter (\<lambda>w. we_event w = mt_event r) matched = [w] \<and> mirrorMismatches r w = []) \<and>
     (\<forall>w\<in>set matched. we_event w \<in> mt_event ` set rows)"

lemma entry_mirror_problems:
  assumes rows: "chainMirrorEvents e 0 index None = Some rows"
  shows "entryMirrorProblems e matched index \<noteq> None"
    and "entryMirrorProblems e matched index = Some [] \<longleftrightarrow> entry_mirrored rows matched"
proof -
  let ?check = "\<lambda>r. expectedRowProblems e r (filter (\<lambda>w. we_event w = mt_event r) matched) index"
  have check: "?check r \<noteq> None"
    "?check r = Some [] \<longleftrightarrow> (\<exists>w. filter (\<lambda>w. we_event w = mt_event r) matched = [w] \<and> mirrorMismatches r w = [])"
    if "r \<in> set rows" for r
    using expected_row_problems [OF rows that, of "filter (\<lambda>w. we_event w = mt_event r) matched"] by simp_all
  have found: "those (map ?check rows) = Some (map (the \<circ> ?check) rows)"
    using check(1) by (intro those_map_total) simp
  have "\<not> proposalMissingFor e index" using rows by (rule mapped_not_missing)
  then have eq: "entryMirrorProblems e matched index = Some (concat (map (the \<circ> ?check) rows) @
      map (\<lambda>row. Unexpected_Row (entry_seq e) (we_id row)) (filter (\<lambda>row. we_event row \<notin> mt_event ` set rows) matched))"
    using rows found by (simp add: entryMirrorProblems_def)
  then show "entryMirrorProblems e matched index \<noteq> None" by simp
  have "the (?check r) = [] \<longleftrightarrow> ?check r = Some []" if "r \<in> set rows" for r
    by (rule the_value [OF check(1) [OF that] refl])
  with check(2) eq show "entryMirrorProblems e matched index = Some [] \<longleftrightarrow> entry_mirrored rows matched"
    by (auto simp: entry_mirrored_def filter_empty_conv)
qed

section \<open>The buckets\<close>

definition placed :: "int \<Rightarrow> wire_row \<Rightarrow> bool" where
  "placed localHead row \<longleftrightarrow>
     we_event row \<in> set CHAIN_MIRROR_EVENTS \<and> (\<exists>s. we_chainSeq row = Some s \<and> s \<le> localHead)"

definition bucketed :: "int \<Rightarrow> wire_row list \<Rightarrow> mirror_buckets" where
  "bucketed localHead rows =
     foldl (\<lambda>b row. add_to_bucket localHead row b) \<lparr>bk_byChainSeq = [], bk_problems = [], bk_ahead = []\<rparr> rows"

lemma bucketed_clean:
  "bk_problems (bucketed localHead rows) = [] \<and> bk_ahead (bucketed localHead rows) = [] \<longleftrightarrow>
     (\<forall>row\<in>set rows. placed localHead row)"
proof (induction rows rule: rev_induct)
  case (snoc row rows)
  let ?b = "bucketed localHead rows"
  have step: "bucketed localHead (rows @ [row]) = add_to_bucket localHead row ?b" by (simp add: bucketed_def)
  have "bk_problems (add_to_bucket localHead row ?b) = [] \<and> bk_ahead (add_to_bucket localHead row ?b) = [] \<longleftrightarrow>
      bk_problems ?b = [] \<and> bk_ahead ?b = [] \<and> placed localHead row"
    using chain_events_prefixed [of "we_event row"]
    by (auto simp: add_to_bucket_def placed_def split: option.splits)
  with snoc.IH step show ?case by auto
qed (simp add: bucketed_def)

lemma bucketed_rows:
  "(case map_of (bk_byChainSeq (bucketed localHead rows)) s of None \<Rightarrow> [] | Some matched \<Rightarrow> matched) =
     filter (\<lambda>row. placed localHead row \<and> we_chainSeq row = Some s) rows"
proof (induction rows rule: rev_induct)
  case (snoc row rows)
  have "bucketed localHead (rows @ [row]) = add_to_bucket localHead row (bucketed localHead rows)"
    by (simp add: bucketed_def)
  with snoc.IH show ?case
    using chain_events_prefixed [of "we_event row"]
    by (auto simp: add_to_bucket_def placed_def update_conv' split: option.splits)
qed (simp add: bucketed_def)

lemma bucket_mirror_rows:
  "bk_byChainSeq (bucketMirrorRows rows localHead) = bk_byChainSeq (bucketed localHead rows)"
  "bk_ahead (bucketMirrorRows rows localHead) = bk_ahead (bucketed localHead rows)"
  "bk_ahead (bucketed localHead rows) = [] \<Longrightarrow>
     bk_problems (bucketMirrorRows rows localHead) = bk_problems (bucketed localHead rows)"
  by (simp_all add: bucketMirrorRows_def bucketed_def Let_def aheadContiguityProblems_def row_counts_def)

section \<open>All rows\<close>

definition row_key :: "audit_event_record \<Rightarrow> int option \<times> ustr" where
  "row_key r = (Some (ae_chainSeq r), mt_event r)"

definition wire_key :: "wire_row \<Rightarrow> int option \<times> ustr" where
  "wire_key w = (we_chainSeq w, we_event w)"

definition expected_rows :: "chain_entry list \<Rightarrow> proposal_index \<Rightarrow> audit_event_record list" where
  "expected_rows es index = concat (map (\<lambda>e. the (chainMirrorEvents e 0 index None)) es)"

lemma expected_rows_distinct:
  assumes "\<forall>e\<in>set es. chainMirrorEvents e 0 index None \<noteq> None" and "distinct (map entry_seq es)"
  shows "distinct (map row_key (expected_rows es index))"
  using assms
proof (induction es)
  case (Cons e es)
  from Cons.prems(1) obtain rows where rows: "chainMirrorEvents e 0 index None = Some rows" by auto
  have apart: "row_key r \<noteq> row_key s" if "r \<in> set rows" "s \<in> set (expected_rows es index)" for r s
  proof -
    from that(2) obtain e' rows' where e': "e' \<in> set es" "s \<in> set (the (chainMirrorEvents e' 0 index None))"
      by (auto simp: expected_rows_def)
    with Cons.prems(1) obtain rows' where "chainMirrorEvents e' 0 index None = Some rows'" by fastforce
    with e' mirror_rows(3) have "ae_chainSeq s = entry_seq e'" by fastforce
    moreover have "ae_chainSeq r = entry_seq e" using mirror_rows(3) [OF rows that(1)] by blast
    ultimately show ?thesis using Cons.prems(2) e'(1) by (auto simp: row_key_def)
  qed
  have "map mt_event rows = map (snd \<circ> row_key) rows" by (simp add: row_key_def comp_def)
  with mirror_rows(2) [OF rows] have "distinct (map (snd \<circ> row_key) rows)" by simp
  then have "distinct (map row_key rows)" by (auto simp: distinct_map inj_on_def)
  with apart Cons rows show ?case by (fastforce simp: expected_rows_def)
qed (simp add: expected_rows_def)

lemma audit_verify_clean:
  assumes defined: "\<forall>e\<in>set es. chainMirrorEvents e 0 index None \<noteq> None"
    and index: "index = proposalIndexOf es st h"
    and numbers: "distinct (map entry_seq es)" "entry_seq ` set es = {1..st_headSeq st}"
    and positive: "\<forall>w\<in>set rows. \<forall>s. we_chainSeq w = Some s \<longrightarrow> 1 \<le> s"
  shows "auditVerify es st h rows = Some (0, []) \<longleftrightarrow>
    (\<exists>observed. mset observed = mset rows \<and> list_all2 row_mirrors (expected_rows es index) observed)"
proof -
  let ?n = "st_headSeq st" and ?expected = "\<lambda>e. the (chainMirrorEvents e 0 index None)"
  let ?matched = "\<lambda>e. filter (\<lambda>w. placed ?n w \<and> we_chainSeq w = Some (entry_seq e)) rows"
  have mapped: "chainMirrorEvents e 0 index None = Some (?expected e)" if "e \<in> set es" for e
    using defined that by (auto simp: option.expand)
  note fields = mirror_rows(3) [OF mapped]
  have check: "entryMirrorProblems e (?matched e) index \<noteq> None"
    "entryMirrorProblems e (?matched e) index = Some [] \<longleftrightarrow> entry_mirrored (?expected e) (?matched e)"
    if "e \<in> set es" for e
    using entry_mirror_problems [OF mapped [OF that]] by blast+
  let ?found = "\<lambda>e. entryMirrorProblems e (?matched e) index"
  have "those (map ?found es) = Some (map (the \<circ> ?found) es)"
    using check(1) by (intro those_map_total) simp
  then have verdict: "auditVerify es st h rows =
      (let problems = bk_problems (bucketMirrorRows rows ?n) @ concat (map (the \<circ> ?found) es) in
       Some (if problems = [] \<and> bk_ahead (bucketMirrorRows rows ?n) = [] then 0 else 1, problems))"
    by (simp add: auditVerify_def bucket_mirror_rows bucketed_rows index Let_def)
  have none: "the (?found e) = [] \<longleftrightarrow> entry_mirrored (?expected e) (?matched e)" if "e \<in> set es" for e
    by (rule the_value) (rule check [OF that])+
  have "auditVerify es st h rows = Some (0, []) \<longleftrightarrow>
      bk_problems (bucketMirrorRows rows ?n) = [] \<and> bk_ahead (bucketMirrorRows rows ?n) = [] \<and>
      (\<forall>e\<in>set es. entry_mirrored (?expected e) (?matched e))"
    unfolding verdict Let_def using none by (auto split: if_splits)
  also have "\<dots> \<longleftrightarrow> (\<forall>w\<in>set rows. placed ?n w) \<and> (\<forall>e\<in>set es. entry_mirrored (?expected e) (?matched e))"
    using bucketed_clean [of ?n rows] bucket_mirror_rows [where localHead = ?n and rows = rows] by auto
  also have "\<dots> \<longleftrightarrow> (\<forall>w\<in>set rows. wire_key w \<in> row_key ` set (expected_rows es index)) \<and>
      (\<forall>r\<in>set (expected_rows es index). \<exists>w. filter (\<lambda>w. wire_key w = row_key r) rows = [w] \<and> row_mirrors r w)"
    (is "?placed \<and> ?entries \<longleftrightarrow> ?covered \<and> ?single")
  proof (intro iffI conjI ballI)
    assume clean: "?placed \<and> ?entries"
    {
      fix w assume w: "w \<in> set rows"
      with clean obtain s where s: "we_chainSeq w = Some s" "s \<le> ?n" by (auto simp: placed_def)
      with positive w numbers(2) obtain e where e: "e \<in> set es" "entry_seq e = s" by (metis atLeastAtMost_iff imageE)
      with s w clean have "w \<in> set (?matched e)" by simp
      moreover from clean e(1) have "entry_mirrored (?expected e) (?matched e)" by blast
      ultimately have "we_event w \<in> mt_event ` set (?expected e)" unfolding entry_mirrored_def by blast
      then obtain r where "r \<in> set (?expected e)" "we_event w = mt_event r" by blast
      with e s fields [OF e(1)] show "wire_key w \<in> row_key ` set (expected_rows es index)"
        by (force simp: expected_rows_def wire_key_def row_key_def)
    }
    fix r assume "r \<in> set (expected_rows es index)"
    then obtain e where e: "e \<in> set es" "r \<in> set (?expected e)" by (auto simp: expected_rows_def)
    from clean e(1) have "entry_mirrored (?expected e) (?matched e)" by blast
    with e(2) obtain w where w: "filter (\<lambda>w. we_event w = mt_event r) (?matched e) = [w]" "mirrorMismatches r w = []"
      unfolding entry_mirrored_def by blast
    have same: "filter (\<lambda>w. wire_key w = row_key r) rows = filter (\<lambda>w. we_event w = mt_event r) (?matched e)"
      using clean fields [OF e] by (auto simp: filter_filter wire_key_def row_key_def intro!: filter_cong)
    moreover have "w \<in> set (filter (\<lambda>w. wire_key w = row_key r) rows)" using w(1) same by simp
    ultimately show "\<exists>w. filter (\<lambda>w. wire_key w = row_key r) rows = [w] \<and> row_mirrors r w"
      using w fields [OF e] by (auto simp: row_mirrors_def wire_key_def row_key_def)
  next
    assume found: "?covered \<and> ?single"
    {
      fix w assume "w \<in> set rows"
      with found obtain r where "r \<in> set (expected_rows es index)" "wire_key w = row_key r" by blast
      then obtain e where e: "e \<in> set es" "r \<in> set (?expected e)" "wire_key w = row_key r"
        by (auto simp: expected_rows_def)
      have "entry_seq e \<le> ?n" using e(1) numbers(2) by auto
      with e(3) fields [OF e(1,2)] show "placed ?n w" by (auto simp: placed_def wire_key_def row_key_def)
    }
    note placed = this
    fix e assume e: "e \<in> set es"
    have single: "\<exists>w. filter (\<lambda>w. we_event w = mt_event r) (?matched e) = [w] \<and> mirrorMismatches r w = []"
      if r: "r \<in> set (?expected e)" for r
    proof -
      have "r \<in> set (expected_rows es index)" using e r by (auto simp: expected_rows_def)
      with found obtain w where w: "filter (\<lambda>w. wire_key w = row_key r) rows = [w]" "row_mirrors r w" by blast
      have "filter (\<lambda>w. wire_key w = row_key r) rows = filter (\<lambda>w. we_event w = mt_event r) (?matched e)"
        using placed fields [OF e r] by (auto simp: filter_filter wire_key_def row_key_def intro!: filter_cong)
      with w show ?thesis by (auto simp: row_mirrors_def)
    qed
    have "we_event w \<in> mt_event ` set (?expected e)" if "w \<in> set (?matched e)" for w
    proof -
      from that found obtain r where "r \<in> set (expected_rows es index)" "wire_key w = row_key r" by auto
      then obtain e' where e': "e' \<in> set es" "r \<in> set (?expected e')" "wire_key w = row_key r"
        by (auto simp: expected_rows_def)
      with that fields [OF e'(1,2)] have "entry_seq e' = entry_seq e" by (auto simp: wire_key_def row_key_def)
      with e e'(1) numbers(1) have "e' = e" by (auto simp: distinct_map inj_on_def)
      with e' show ?thesis by (auto simp: wire_key_def row_key_def)
    qed
    with single show "entry_mirrored (?expected e) (?matched e)" by (auto simp: entry_mirrored_def)
  qed
  also have "\<dots> \<longleftrightarrow> (\<exists>observed. mset observed = mset rows \<and> list_all2 row_mirrors (expected_rows es index) observed)"
    using expected_rows_distinct [OF defined numbers(1)]
    by (intro matched_by_keys) (auto simp: row_key_def wire_key_def row_mirrors_event row_mirrors_def)
  finally show ?thesis .
qed

end
