(* ===== verification/Mirror_Check_Guarantees.thy ===== *)
theory Mirror_Check_Guarantees
  imports Mirror_Check_Facts
begin

text \<open>
  The mirror between a server and a client: what a clean run of \<open>maruhi audit verify\<close> says of the fetched
  rows, that the rows an honest server wrote and serves pass it, and the entries on which it throws.
\<close>

section \<open>On a verified chain\<close>

lemma numbered_from: "(\<And>i. i < length es \<Longrightarrow> entry_seq (es ! i) = int (Suc i)) \<Longrightarrow>
    distinct (map entry_seq es) \<and> entry_seq ` set es = {1..int (length es)}"
proof -
  assume numbers: "\<And>i. i < length es \<Longrightarrow> entry_seq (es ! i) = int (Suc i)"
  then have map: "map entry_seq es = map (\<lambda>i. int (Suc i)) [0..<length es]" by (intro nth_equalityI) auto
  have "set (map entry_seq es) = {1..int (length es)}"
  proof (unfold map, intro equalityI subsetI)
    fix k assume "k \<in> {1..int (length es)}"
    then have "k = int (Suc (nat k - 1))" "nat k - 1 < length es" by auto
    then show "k \<in> set (map (\<lambda>i. int (Suc i)) [0..<length es])" by (auto intro!: image_eqI [of _ _ "nat k - 1"])
  qed auto
  moreover have "distinct (map entry_seq es)" unfolding map by (simp add: distinct_map inj_on_def)
  ultimately show ?thesis by simp
qed

lemma reached_numbered:
  assumes "reached api history es v"
  shows "distinct (map entry_seq es)" and "entry_seq ` set es = {1..int (length es)}"
proof -
  have "entry_seq (es ! i) = int (Suc i)" if i: "i < length es" for i
  proof -
    from reached_prefix [OF assms i] obtain u ev v' where "reached api history (take i es) u" "accepts api u (es ! i) ev v'"
      by blast
    with accepts_seq reached_seq i show ?thesis by fastforce
  qed
  then have "distinct (map entry_seq es) \<and> entry_seq ` set es = {1..int (length es)}" by (rule numbered_from)
  then show "distinct (map entry_seq es)" and "entry_seq ` set es = {1..int (length es)}" by blast+
qed

lemma verified_rows:
  assumes "verifyChainWithHistory api entries = Accepted (st, h)" and "map read_entry entries = map Some es"
    and "length entries < 2 ^ 32" and "collision_free_on (api_sha256 api) (entry_byte_strings es)"
  shows "distinct (map entry_seq es)" and "entry_seq ` set es = {1..st_headSeq st}"
    and "e \<in> set es \<Longrightarrow> chainMirrorEvents e ts (proposalIndexOf es st h) added = None \<longleftrightarrow>
      (\<exists>p. entry_operation e = Direct (Add_Device p)) \<and> added = None"
proof -
  obtain v where v: "reached api (Some empty_history) es v" "verifier_ok api v" "st = at_head v"
    and hashes: "\<And>e. e \<in> set es \<Longrightarrow> entryHashAt h (entry_seq e) = entry_hash api e"
    using assms(1-3) by (rule history_reached) blast
  have known: "hashes_of api es (entryHashAt h)" using hashes assms(4) by (simp add: hashes_of_def)
  show "distinct (map entry_seq es)" using reached_numbered [OF v(1)] by blast
  show "entry_seq ` set es = {1..st_headSeq st}"
    using reached_numbered(2) [OF v(1)] reached_seq [OF v(1)] v(2,3) by (simp add: at_head_fields)
  show "e \<in> set es \<Longrightarrow> chainMirrorEvents e ts (proposalIndexOf es st h) added = None \<longleftrightarrow>
      (\<exists>p. entry_operation e = Direct (Add_Device p)) \<and> added = None"
    unfolding proposalIndexOf_def v(3) pending_hashes_at_head [OF v(2)] by (rule rows_defined [OF v(1) known])
qed

definition adds_device :: "chain_entry \<Rightarrow> bool" where
  "adds_device e \<longleftrightarrow> (\<exists>p. entry_operation e = Direct (Add_Device p))"

lemma clean_mirror:
  assumes "verifyChainWithHistory api entries = Accepted (st, h)" and "map read_entry entries = map Some es"
    and "length entries < 2 ^ 32" and "collision_free_on (api_sha256 api) (entry_byte_strings es)"
    and "\<forall>w\<in>set rows. \<forall>s. we_chainSeq w = Some s \<longrightarrow> 1 \<le> s" and "\<forall>e\<in>set es. \<not> adds_device e"
  shows "auditVerify es st h rows = Some (0, []) \<longleftrightarrow>
    (\<exists>observed. mset observed = mset rows \<and>
       list_all2 row_mirrors (expected_rows es (proposalIndexOf es st h)) observed)"
proof (rule audit_verify_clean)
  note facts = verified_rows [OF assms(1-4)]
  show "\<forall>e\<in>set es. chainMirrorEvents e 0 (proposalIndexOf es st h) None \<noteq> None"
    using facts(3) assms(6) by (auto simp: adds_device_def)
  show "distinct (map entry_seq es)" and "entry_seq ` set es = {1..st_headSeq st}" by (rule facts)+
qed (use assms(5) in simp_all)

section \<open>An honest server\<close>

text \<open>A JSON value whose objects have no key twice is equal to itself.\<close>

fun json_ok :: "json \<Rightarrow> bool" where
  "json_ok (Json_Array xs) = list_all json_ok xs"
| "json_ok (Json_Object kvs) = (distinct (map fst kvs) \<and> list_all (\<lambda>kv. json_ok (snd kv)) kvs)"
| "json_ok _ = True"

lemma jsonEqual_refl: "json_ok v \<Longrightarrow> jsonEqual v v"
proof (induction v rule: json_ok.induct)
  case (1 xs)
  have "jsonEqual x y" if "(x, y) \<in> set (zip xs xs)" for x y
    using that 1 by (auto simp: list_all_iff in_set_zip)
  then show ?case by (auto simp: list_all_iff)
next
  case (2 kvs)
  then show ?case by (auto simp: list_all_iff property_of_def)
qed simp_all

lemma json_payload_ok: "json_ok (json_payload p)"
  by (cases p) (auto simp: list_all_iff viaOf_def json_scope_def json_strings_def json_int_def
      json_checkpoint_environment_def split: option.splits)

lemma row_mirrors_delivered: "row_mirrors r (toAuditEventValue i seq (r\<lparr>ae_serverTs := ts\<rparr>))"
  by (simp add: row_mirrors_def mirrorMismatches_def toAuditEventValue_def optionalEqual_def jsonEqual_refl
      json_payload_ok split: option.split)

definition page_before :: "wire_row list \<Rightarrow> ustr option \<Rightarrow> wire_row list" where
  "page_before stored before =
     take VERIFY_PAGE_LIMIT (case before of None \<Rightarrow> stored | Some i \<Rightarrow> tl (dropWhile (\<lambda>row. we_id row \<noteq> i) stored))"

definition selects :: "mirror_row_selector \<Rightarrow> wire_row \<Rightarrow> bool" where
  "selects selector row =
     (case selector of
        Chain_Namespace \<Rightarrow> startsWith (we_event row) CHAIN_MIRROR_EVENT_PREFIX
      | Chain_Seq_Present \<Rightarrow> we_chainSeq row \<noteq> None)"

definition serve :: "wire_row list \<Rightarrow> mirror_row_selector \<Rightarrow> ustr option \<Rightarrow> wire_row list" where
  "serve stored selector before = page_before (filter (selects selector) stored) before"

lemma first_repeated_None: "first_repeated seen rows = None \<longleftrightarrow> distinct (map we_id rows) \<and> we_id ` set rows \<inter> seen = {}"
  by (induction rows arbitrary: seen) auto

lemma page_after:
  assumes "distinct (map we_id (old @ rest))"
  shows "page_before (old @ rest) (if old = [] then None else Some (we_id (last old))) = take VERIFY_PAGE_LIMIT rest"
proof (cases old rule: rev_cases)
  case (snoc pre row)
  with assms have "dropWhile (\<lambda>r. we_id r \<noteq> we_id row) (pre @ row # rest) = row # rest"
    by (subst dropWhile_append2) (force simp: image_iff)+
  with snoc show ?thesis by (simp add: page_before_def)
qed (simp add: page_before_def)

lemma fetch_pages_complete:
  assumes "distinct (map we_id (old @ rest))" and "length rest < pages * VERIFY_PAGE_LIMIT"
  shows "fetch_pages selector (page_before (old @ rest)) pages (we_id ` set old)
    (if old = [] then None else Some (we_id (last old))) = Accepted rest"
  using assms
proof (induction pages arbitrary: old rest)
  case (Suc pages)
  let ?page = "take VERIFY_PAGE_LIMIT rest"
  have page: "page_before (old @ rest) (if old = [] then None else Some (we_id (last old))) = ?page"
    using Suc.prems(1) by (rule page_after)
  have fresh: "first_repeated (we_id ` set old) ?page = None"
    using Suc.prems(1) by (auto simp: first_repeated_None simp flip: take_map dest: in_set_takeD)
  show ?case
  proof (cases "length rest < VERIFY_PAGE_LIMIT")
    case True
    with page fresh show ?thesis by (simp only: fetch_pages.simps Let_def) simp
  next
    case False
    then have full: "length ?page = VERIFY_PAGE_LIMIT" "?page \<noteq> []" by (auto simp: VERIFY_PAGE_LIMIT_def)
    have "fetch_pages selector (page_before ((old @ ?page) @ drop VERIFY_PAGE_LIMIT rest)) pages (we_id ` set (old @ ?page))
        (if old @ ?page = [] then None else Some (we_id (last (old @ ?page)))) = Accepted (drop VERIFY_PAGE_LIMIT rest)"
      using Suc.prems False by (intro Suc.IH) auto
    then have "fetch_pages selector (page_before (old @ rest)) pages (we_id ` set old \<union> we_id ` set ?page)
        (if ?page = [] then None else Some (we_id (last ?page))) = Accepted (drop VERIFY_PAGE_LIMIT rest)"
      using full(2) by (simp add: image_Un)
    with page fresh full(1) show ?thesis by (simp add: Let_def)
  qed
qed simp

lemma fetch_served:
  assumes "distinct (map we_id stored)"
    and "length (filter (selects selector) stored) < VERIFY_MAX_PAGES * VERIFY_PAGE_LIMIT"
  shows "fetchMirrorRowsForSelector (serve stored) selector = Accepted (filter (selects selector) stored)"
proof -
  have "serve stored selector = page_before (filter (selects selector) stored)" by (simp add: serve_def fun_eq_iff)
  moreover have "distinct (map we_id (filter (selects selector) stored))" using assms(1) by (rule distinct_map_filter)
  ultimately show ?thesis
    using assms(2) fetch_pages_complete [of "[]" "filter (selects selector) stored" VERIFY_MAX_PAGES selector]
    by (simp add: fetchMirrorRowsForSelector_def)
qed

lemma update_same: "map_of kvs k = Some v \<Longrightarrow> AList.update k v kvs = kvs"
  by (induction kvs) (auto split: if_splits)

lemma merge_new:
  "distinct (map we_id rows) \<Longrightarrow> we_id ` set rows \<inter> fst ` set byId = {} \<Longrightarrow>
   merge_rows byId rows = Accepted (byId @ map (\<lambda>row. (we_id row, row)) rows)"
proof (induction rows arbitrary: byId)
  case (Cons row rows)
  then have "map_of byId (we_id row) = None" by (auto simp: map_of_eq_None_iff)
  moreover have "AList.update (we_id row) row byId = byId @ [(we_id row, row)]" using Cons.prems by (intro update_fresh) auto
  moreover have "merge_rows (byId @ [(we_id row, row)]) rows =
      Accepted ((byId @ [(we_id row, row)]) @ map (\<lambda>row. (we_id row, row)) rows)"
    using Cons.prems by (intro Cons.IH) auto
  ultimately show ?case by simp
qed simp

lemma merge_again:
  "\<forall>row\<in>set rows. map_of byId (we_id row) = Some row \<and> same_row row row \<Longrightarrow> merge_rows byId rows = Accepted byId"
  by (induction rows) (auto simp: update_same)

definition mirror_candidates :: "wire_row list \<Rightarrow> wire_row list" where
  "mirror_candidates stored =
     filter (\<lambda>row. selects Chain_Namespace row \<or> selects Chain_Seq_Present row) stored"

lemma fetch_all_served:
  assumes ids: "distinct (map we_id stored)" and few: "length (mirror_candidates stored) < VERIFY_MAX_PAGES * VERIFY_PAGE_LIMIT"
    and mirror: "\<forall>row\<in>set (mirror_candidates stored). (\<forall>selector. selects selector row) \<and> same_row row row"
  shows "fetchAllMirrorRows (serve stored) = Accepted (mirror_candidates stored)"
proof -
  have both: "filter (selects selector) stored = mirror_candidates stored" for selector
  proof -
    have "selects Chain_Namespace row \<longleftrightarrow> selects Chain_Seq_Present row" if "row \<in> set stored" for row
    proof -
      have "row \<in> set (mirror_candidates stored)" if "selects Chain_Namespace row \<or> selects Chain_Seq_Present row"
        using that \<open>row \<in> set stored\<close> by (simp add: mirror_candidates_def)
      with mirror show ?thesis by blast
    qed
    then show ?thesis unfolding mirror_candidates_def by (cases selector) (simp_all cong: filter_cong)
  qed
  let ?rows = "mirror_candidates stored"
  have distinct: "distinct (map we_id ?rows)" using ids by (simp add: mirror_candidates_def distinct_map_filter)
  then have first: "merge_rows [] ?rows = Accepted (map (\<lambda>row. (we_id row, row)) ?rows)"
    by (simp add: merge_new)
  have "map_of (map (\<lambda>row. (we_id row, row)) ?rows) (we_id row) = Some row" if "row \<in> set ?rows" for row
    using distinct that by (auto intro!: map_of_is_SomeI simp: comp_def)
  with mirror have "merge_rows (map (\<lambda>row. (we_id row, row)) ?rows) ?rows = Accepted (map (\<lambda>row. (we_id row, row)) ?rows)"
    by (intro merge_again) blast
  with first show ?thesis
    using few by (simp add: fetchAllMirrorRows_def fetch_served [OF ids] both comp_def)
qed

lemma list_all2_concat_map:
  "\<forall>k\<in>set ks. list_all2 R (f k) (g k) \<Longrightarrow> list_all2 R (concat (map f ks)) (concat (map g ks))"
  by (induction ks) (auto intro: list_all2_appendI)

lemma delivered_mirror:
  assumes "chainMirrorEvents e ts index added = Some rows" and "r \<in> set rows"
  shows "selects selector (toAuditEventValue i seq r)" and "same_row (toAuditEventValue i seq r) (toAuditEventValue i seq r)"
    and "we_chainSeq (toAuditEventValue i seq r) = Some (entry_seq e)"
  using mirror_rows(3) [OF assms] chain_events_prefixed
  by (auto simp: selects_def toAuditEventValue_def same_row_def optionalEqual_def jsonEqual_refl json_payload_ok
      split: mirror_row_selector.split option.split)

text \<open>
  C38. A clean verification of the audit mirror means a bijection: on a verified chain without device
  additions, \<open>maruhi audit verify\<close> exits with 0 and no problem exactly when the fetched rows are, in some
  order, one row for every row the mapping expects of the chain, with the number of the entry and every
  compared field equal (payloads up to the order of their keys). A missing, added, duplicated or altered
  row is found. The numbers of the fetched rows are positive, as the schema of the response demands.
\<close>

theorem clean_mirror_is_bijection:
  assumes "verifyChainWithHistory api entries = Accepted (st, h)" and "map read_entry entries = map Some es"
    and "length entries < 2 ^ 32" and "collision_free_on (api_sha256 api) (entry_byte_strings es)"
    and "\<forall>w\<in>set rows. \<forall>s. we_chainSeq w = Some s \<longrightarrow> 1 \<le> s" and "\<forall>e\<in>set es. \<not> adds_device e"
  shows "auditVerify es st h rows = Some (0, []) \<longleftrightarrow>
    (\<exists>observed. mset observed = mset rows \<and>
       list_all2 row_mirrors (expected_rows es (proposalIndexOf es st h)) observed)"
  using assms by (rule clean_mirror)

text \<open>
  C40. A device addition breaks the verification of the mirror: the mapping needs the fingerprint of the
  added device, which the command line does not pass, so on every verified chain \<open>maruhi audit verify\<close>
  throws, whatever rows it fetched, exactly when the chain has a device addition.
\<close>

theorem device_addition_breaks_verification:
  assumes "verifyChainWithHistory api entries = Accepted (st, h)" and "map read_entry entries = map Some es"
    and "length entries < 2 ^ 32" and "collision_free_on (api_sha256 api) (entry_byte_strings es)"
  shows "auditVerify es st h rows = None \<longleftrightarrow> (\<exists>e\<in>set es. adds_device e)"
proof -
  let ?index = "proposalIndexOf es st h"
  have "entryMirrorProblems e matched ?index = None \<longleftrightarrow> adds_device e" if "e \<in> set es" for e matched
  proof (cases "adds_device e")
    case True
    then obtain p where "entry_operation e = Direct (Add_Device p)" by (auto simp: adds_device_def)
    moreover from this have "chainMirrorEvents e 0 ?index None = None"
      using verified_rows(3) [OF assms that, of 0 None] by simp
    ultimately show ?thesis using True by (simp add: entryMirrorProblems_def proposalMissingFor_def)
  next
    case False
    then have "chainMirrorEvents e 0 ?index None \<noteq> None"
      using verified_rows(3) [OF assms that, of 0 None] by (simp add: adds_device_def)
    then obtain rows where "chainMirrorEvents e 0 ?index None = Some rows" by auto
    from entry_mirror_problems(1) [OF this] False show ?thesis by simp
  qed
  then show ?thesis by (simp add: auditVerify_def Let_def those_undefined)
qed

text \<open>
  What the server wrote: after accepting the entry at every position it appended the rows it derived from
  the chain so far, at its own times and with its own row ids.
\<close>

definition mirror_written ::
  "crypto_api \<Rightarrow> js_value list \<Rightarrow> chain_entry list \<Rightarrow> (nat \<Rightarrow> audit_event_record list) \<Rightarrow> bool" where
  "mirror_written api entries es written \<longleftrightarrow>
     (\<forall>k\<in>{1..length es}. \<exists>s hk ts.
        verifyChainWithHistory api (take k entries) = Accepted (s, hk) \<and>
        chainMirrorEvents (es ! (k - 1)) ts (proposalIndexOf (take k es) s hk) None = Some (written k))"

lemma map_positions: "map F es = map (\<lambda>k. F (es ! (k - 1))) [1..<Suc (length es)]"
  by (rule nth_equalityI) (simp_all del: upt_Suc)

lemma written_rows:
  assumes "verifyChainWithHistory api entries = Accepted (st, h)" and "map read_entry entries = map Some es"
    and "length entries < 2 ^ 32" and "collision_free_on (api_sha256 api) (entry_byte_strings es)"
    and "mirror_written api entries es written" and k: "k \<in> {1..length es}"
  obtains ts where "chainMirrorEvents (es ! (k - 1)) ts (proposalIndexOf es st h) None = Some (written k)"
    and "written k = map (\<lambda>r. r\<lparr>ae_serverTs := ts\<rparr>) (the (chainMirrorEvents (es ! (k - 1)) 0 (proposalIndexOf es st h) None))"
proof -
  have len: "length es = length entries" using assms(2) by (metis length_map)
  from assms(5) k obtain s hk ts where w: "verifyChainWithHistory api (take k entries) = Accepted (s, hk)"
    "chainMirrorEvents (es ! (k - 1)) ts (proposalIndexOf (take k es) s hk) None = Some (written k)"
    unfolding mirror_written_def by blast
  have "1 \<le> k" "k \<le> length entries" using k len by simp_all
  from settled_rows [OF assms(1-3) this assms(4)] w have rows:
    "chainMirrorEvents (es ! (k - 1)) ts (proposalIndexOf es st h) None = Some (written k)" by auto
  with mirror_rows_at [of "es ! (k - 1)" ts "proposalIndexOf es st h" None]
  have "map_option (map (\<lambda>r. r\<lparr>ae_serverTs := ts\<rparr>)) (chainMirrorEvents (es ! (k - 1)) 0 (proposalIndexOf es st h) None) =
      Some (written k)" by (simp only:)
  then obtain base where base: "chainMirrorEvents (es ! (k - 1)) 0 (proposalIndexOf es st h) None = Some base"
    "written k = map (\<lambda>r. r\<lparr>ae_serverTs := ts\<rparr>) base" by (auto simp only: map_option_eq_Some)
  show ?thesis
    by (rule that [of ts, OF rows]) (unfold base(1) option.sel, rule base(2))
qed

lemma honest_mirror:
  assumes chain: "verifyChainWithHistory api entries = Accepted (st, h)" "map read_entry entries = map Some es"
      "length entries < 2 ^ 32" "collision_free_on (api_sha256 api) (entry_byte_strings es)"
    and written: "mirror_written api entries es written"
    and stored: "mset (mirror_candidates stored) =
      mset (map (\<lambda>r. toAuditEventValue (rowId r) None r) (concat (map written [1..<Suc (length es)])))"
    and served: "distinct (map we_id stored)" "length (mirror_candidates stored) < VERIFY_MAX_PAGES * VERIFY_PAGE_LIMIT"
  shows "auditVerifyOp es st h (serve stored) = Accepted (0, [])"
proof -
  let ?index = "proposalIndexOf es st h" and ?ks = "[1..<Suc (length es)]"
  let ?deliver = "\<lambda>r. toAuditEventValue (rowId r) None r"
  note upt_Suc [simp del]
  let ?rows = "\<lambda>k. the (chainMirrorEvents (es ! (k - 1)) 0 ?index None)"
  note rows = written_rows [OF chain written]
  have delivered: "(\<forall>selector. selects selector w) \<and> same_row w w \<and> (\<forall>s. we_chainSeq w = Some s \<longrightarrow> 1 \<le> s)"
    if "w \<in> set (mirror_candidates stored)" for w
  proof -
    from that have "w \<in> set (map ?deliver (concat (map written ?ks)))" using mset_eq_setD [OF stored] by simp
    then obtain r where "r \<in> set (concat (map written ?ks))" and w: "w = ?deliver r" by (auto simp only: set_map image_iff)
    then obtain k where k: "k \<in> set ?ks" "r \<in> set (written k)" by auto
    then have k: "k \<in> {1..length es}" "r \<in> set (written k)" "w = ?deliver r" using w by auto
    obtain ts where "chainMirrorEvents (es ! (k - 1)) ts ?index None = Some (written k)"
      using k(1) by (rule rows)
    note facts = delivered_mirror [OF this k(2)]
    have "es ! (k - 1) \<in> set es" using k(1) by (intro nth_mem) auto
    then have "1 \<le> entry_seq (es ! (k - 1))" using verified_rows(2) [OF chain] by auto
    with facts k(3) show ?thesis by auto
  qed
  have "expected_rows es ?index = concat (map ?rows ?ks)"
    unfolding expected_rows_def by (subst map_positions) simp
  moreover have "list_all2 row_mirrors (?rows k) (map ?deliver (written k))" if "k \<in> set ?ks" for k
  proof -
    have "k \<in> {1..length es}" using that by auto
    then obtain ts where "written k = map (\<lambda>r. r\<lparr>ae_serverTs := ts\<rparr>) (?rows k)" by (rule rows)
    then show ?thesis by (simp add: list_all2_conv_all_nth row_mirrors_delivered)
  qed
  ultimately have "list_all2 row_mirrors (expected_rows es ?index) (concat (map (\<lambda>k. map ?deliver (written k)) ?ks))"
    by (simp add: list_all2_concat_map)
  moreover have "concat (map (\<lambda>k. map ?deliver (written k)) ?ks) = map ?deliver (concat (map written ?ks))"
    by (simp add: map_concat comp_def)
  ultimately have match: "\<exists>observed. mset observed = mset (mirror_candidates stored) \<and>
      list_all2 row_mirrors (expected_rows es ?index) observed"
    by (intro exI [of _ "map ?deliver (concat (map written ?ks))"]) (simp only: stored)
  have "\<not> adds_device e" if e: "e \<in> set es" for e
  proof -
    from e obtain i where i: "i < length es" "e = es ! i" by (auto simp: in_set_conv_nth)
    then have "Suc i \<in> {1..length es}" by simp
    then obtain ts where "chainMirrorEvents (es ! (Suc i - 1)) ts ?index None = Some (written (Suc i))"
      by (rule rows)
    then have "chainMirrorEvents e ts ?index None = Some (written (Suc i))" using i(2) by simp
    with verified_rows(3) [OF chain e, of ts None] show ?thesis by (simp add: adds_device_def)
  qed
  moreover have "\<forall>w\<in>set (mirror_candidates stored). \<forall>s. we_chainSeq w = Some s \<longrightarrow> 1 \<le> s" using delivered by blast
  ultimately have "auditVerify es st h (mirror_candidates stored) = Some (0, [])"
    using clean_mirror [OF chain] match by blast
  moreover have "fetchAllMirrorRows (serve stored) = Accepted (mirror_candidates stored)"
    using delivered served by (intro fetch_all_served) blast+
  ultimately show ?thesis by (simp add: auditVerifyOp_def)
qed

section \<open>The example\<close>

lemma mirror_rows_at_most_two: "chainMirrorEvents e ts index added = Some rows \<Longrightarrow> length rows \<le> 2"
  by (erule mirror_rows_shape) simp_all

lemma length_concat_twice: "\<forall>k\<in>set ks. length (f k) \<le> 2 \<Longrightarrow> length (concat (map f ks)) \<le> 2 * length ks"
  by (induction ks) auto

text \<open>The rows written over the whole chain: they have the keys of the expected rows and the numbers of its entries.\<close>

lemma written_log:
  assumes chain: "verifyChainWithHistory api entries = Accepted (st, h)" "map read_entry entries = map Some es"
      "length entries < 2 ^ 32" "collision_free_on (api_sha256 api) (entry_byte_strings es)"
    and written: "mirror_written api entries es written"
  shows "map row_key (concat (map written [1..<Suc (length es)])) = map row_key (expected_rows es (proposalIndexOf es st h))"
    and "r \<in> set (concat (map written [1..<Suc (length es)])) \<Longrightarrow>
      selects Chain_Namespace (toAuditEventValue i None r) \<and> ae_chainSeq r \<in> {1..int (length es)}"
    and "length (concat (map written [1..<Suc (length es)])) \<le> 2 * length es"
proof -
  let ?index = "proposalIndexOf es st h" and ?ks = "[1..<Suc (length es)]"
  note upt_Suc [simp del]
  note facts = verified_rows [OF chain]
  have row: "\<exists>ts. chainMirrorEvents (es ! (k - 1)) ts ?index None = Some (written k)"
    "map row_key (written k) = map row_key (the (chainMirrorEvents (es ! (k - 1)) 0 ?index None))" if k: "k \<in> set ?ks" for k
  proof -
    from k have "k \<in> {1..length es}" by auto
    from written_rows [OF chain written this] obtain ts where
      "chainMirrorEvents (es ! (k - 1)) ts ?index None = Some (written k)"
      "written k = map (\<lambda>r. r\<lparr>ae_serverTs := ts\<rparr>) (the (chainMirrorEvents (es ! (k - 1)) 0 ?index None))" .
    then show "\<exists>ts. chainMirrorEvents (es ! (k - 1)) ts ?index None = Some (written k)"
      "map row_key (written k) = map row_key (the (chainMirrorEvents (es ! (k - 1)) 0 ?index None))"
      by (auto simp: row_key_def)
  qed
  have "map row_key (concat (map written ?ks)) = concat (map (\<lambda>k. map row_key (written k)) ?ks)"
    by (simp add: map_concat comp_def)
  also have "\<dots> = concat (map (\<lambda>k. map row_key (the (chainMirrorEvents (es ! (k - 1)) 0 ?index None))) ?ks)"
    by (rule arg_cong [where f = concat], rule map_cong, rule refl, rule row(2))
  also have "\<dots> = map row_key (expected_rows es ?index)"
    unfolding expected_rows_def by (subst (2) map_positions) (simp add: map_concat comp_def)
  finally show "map row_key (concat (map written ?ks)) = map row_key (expected_rows es ?index)" .
  show "length (concat (map written ?ks)) \<le> 2 * length es"
    using length_concat_twice [of ?ks written] row(1) mirror_rows_at_most_two by fastforce
  assume "r \<in> set (concat (map written ?ks))"
  then obtain k where k: "k \<in> set ?ks" "r \<in> set (written k)" by auto
  then have e: "es ! (k - 1) \<in> set es" by auto
  from row(1) [OF k(1)] obtain ts where rows: "chainMirrorEvents (es ! (k - 1)) ts ?index None = Some (written k)" by blast
  obtain v where v: "reached api (Some empty_history) es v" "verifier_ok api v" "st = at_head v"
    using chain(1-3) by (rule history_reached) blast
  have "st_headSeq st = int (length es)" using v reached_seq by (simp add: at_head_fields)
  moreover have "entry_seq (es ! (k - 1)) \<in> {1..st_headSeq st}" using facts(2) e by blast
  moreover have "ae_chainSeq r = entry_seq (es ! (k - 1))" using mirror_rows(3) [OF rows k(2)] by simp
  ultimately show "selects Chain_Namespace (toAuditEventValue i None r) \<and> ae_chainSeq r \<in> {1..int (length es)}"
    using delivered_mirror(1) [OF rows k(2)] by simp
qed

text \<open>A server that gives every row an id of its number and its event serves a log that the fetch accepts.\<close>

lemma served_log:
  assumes chain: "verifyChainWithHistory api entries = Accepted (st, h)" "map read_entry entries = map Some es"
      "length entries < 10000" "collision_free_on (api_sha256 api) (entry_byte_strings es)"
    and none: "\<forall>e\<in>set es. \<not> adds_device e" and written: "mirror_written api entries es written"
    and rs: "rs = concat (map written [1..<Suc (length es)])"
  obtains rowId stored where "mset (mirror_candidates stored) = mset (map (\<lambda>r. toAuditEventValue (rowId r) None r) rs)"
    and "distinct (map we_id stored)" and "length stored = length rs"
proof -
  let ?id = "\<lambda>(seq, event). event @ [word_of_int (the seq)] :: ustr" and ?rowId = "\<lambda>r. mt_event r @ [word_of_int (ae_chainSeq r)] :: ustr"
  let ?stored = "map (\<lambda>r. toAuditEventValue (?rowId r) None r) rs"
  have small: "length entries < 2 ^ 32" using chain(3) by simp
  have len: "length es = length entries" using chain(2) by (metis length_map)
  note facts = verified_rows [OF chain(1,2) small chain(4)]
  note all = written_log [OF chain(1,2) small chain(4) written, folded rs]
  have "\<forall>e\<in>set es. chainMirrorEvents e 0 (proposalIndexOf es st h) None \<noteq> None"
    using facts(3) none by (simp add: adds_device_def)
  then have "distinct (map row_key rs)" unfolding all(1) by (rule expected_rows_distinct [OF _ facts(1)])
  moreover have "inj_on ?id (row_key ` set rs)"
  proof (rule inj_onI)
    fix x y assume "x \<in> row_key ` set rs" "y \<in> row_key ` set rs" and same: "?id x = ?id y"
    then obtain r q where rq: "r \<in> set rs" "q \<in> set rs" "x = row_key r" "y = row_key q" by blast
    with same have "(word_of_int (ae_chainSeq r) :: 16 word) = word_of_int (ae_chainSeq q)" "mt_event r = mt_event q"
      by (simp_all add: row_key_def)
    moreover have "0 \<le> ae_chainSeq r \<and> ae_chainSeq r < 2 ^ 16" "0 \<le> ae_chainSeq q \<and> ae_chainSeq q < 2 ^ 16"
      using all(2) [OF rq(1), of "[]"] all(2) [OF rq(2), of "[]"] chain(3) len by auto
    ultimately show "x = y" using rq(3,4)
      by (simp add: row_key_def word_of_int_eq_iff take_bit_int_eq_self)
  qed
  ultimately have "distinct (map ?id (map row_key rs))" by (simp add: distinct_map comp_inj_on)
  then have "distinct (map we_id ?stored)" by (simp add: toAuditEventValue_def row_key_def comp_def)
  moreover have "mirror_candidates ?stored = ?stored"
    unfolding mirror_candidates_def using all(2) by (intro filter_True) auto
  ultimately show ?thesis using that [of ?stored ?rowId] by simp
qed

lemma demo_nine:
  obtains st h where "verifyChainWithHistory demo_api (demo_chain 9) = Accepted (st, h)"
    and "map read_entry (demo_chain 9) = map Some (take 9 demo_entries)" and "length (demo_chain 9) < 10000"
    and "collision_free_on (api_sha256 demo_api) (entry_byte_strings (take 9 demo_entries))"
    and "\<forall>e\<in>set (take 9 demo_entries). \<not> adds_device e"
proof -
  obtain st h where sh: "verifyChainWithHistory demo_api (demo_chain 11) = Accepted (st, h)"
    using demo_with_history by blast
  have "take 9 (demo_chain 11) = demo_chain 9" by (simp add: demo_chain_def take_map)
  with history_prefix [OF sh, of 9] obtain s hk where nine: "verifyChainWithHistory demo_api (demo_chain 9) = Accepted (s, hk)"
    by (auto simp: demo_chain_def length_demo_entries)
  have free: "collision_free_on demo_sha256 (entry_byte_strings (take 9 demo_entries))"
  proof -
    have "set (take 9 demo_entries) \<subseteq> set (take 11 demo_entries)" by (rule set_take_subset_set_take) simp
    with demo_entries_collision_free show ?thesis unfolding collision_free_on_def entry_byte_strings_def by blast
  qed
  have "\<forall>e\<in>set (take 9 demo_entries). \<not> adds_device e"
    by (simp add: demo_entries_def demo_entry_def demo_ops adds_device_def)
  with nine free show ?thesis
    by (intro that [of s hk]) (simp_all add: demo_chain_def read_write_entry comp_def)
qed

theorem clean_mirror_is_bijection_witness:
  "\<exists>st h. verifyChainWithHistory demo_api (demo_chain 9) = Accepted (st, h) \<and>
     auditVerify (take 9 demo_entries) st h [] \<noteq> Some (0, [])"
proof (rule demo_nine)
  fix st h
  assume chain: "verifyChainWithHistory demo_api (demo_chain 9) = Accepted (st, h)"
    "map read_entry (demo_chain 9) = map Some (take 9 demo_entries)" "length (demo_chain 9) < 10000"
    "collision_free_on (api_sha256 demo_api) (entry_byte_strings (take 9 demo_entries))"
    "\<forall>e\<in>set (take 9 demo_entries). \<not> adds_device e"
  have small: "length (demo_chain 9) < 2 ^ 32" using chain(3) by simp
  have first: "demo_entries ! 0 \<in> set (take 9 demo_entries)" by (simp add: demo_entries_def)
  from verified_rows(3) [OF chain(1,2) small chain(4) first, of 0 None] chain(5) first
  have "chainMirrorEvents (demo_entries ! 0) 0 (proposalIndexOf (take 9 demo_entries) st h) None \<noteq> None"
    by (simp add: adds_device_def)
  then obtain rows where rows: "chainMirrorEvents (demo_entries ! 0) 0 (proposalIndexOf (take 9 demo_entries) st h) None = Some rows"
    by auto
  then have "expected_rows (take 9 demo_entries) (proposalIndexOf (take 9 demo_entries) st h) \<noteq> []"
    using mirror_rows(1) [OF rows] first by (force simp: expected_rows_def)
  then show ?thesis
    using clean_mirror_is_bijection [OF chain(1,2) small chain(4) _ chain(5), of "[]"] chain(1) by auto
qed

theorem device_addition_breaks_verification_witness:
  "\<exists>st h. verifyChainWithHistory demo_api (demo_chain 11) = Accepted (st, h) \<and>
     (\<forall>rows. auditVerify (take 11 demo_entries) st h rows = None)"
proof -
  obtain st h where sh: "verifyChainWithHistory demo_api (demo_chain 11) = Accepted (st, h)"
    using demo_with_history by blast
  have "\<exists>e\<in>set (take 11 demo_entries). adds_device e"
    by (simp add: demo_entries_def demo_entry_def demo_ops adds_device_def)
  with device_addition_breaks_verification [OF sh demo_reads _ demo_entries_collision_free [folded demo_api_simps(1)]] sh
  show ?thesis by (auto simp: demo_chain_def length_demo_entries)
qed

end
