(* ===== verification/Chain_Store.thy ===== *)
theory Chain_Store
  imports Chain_Mirror_Guarantees Chain_Writing Sorted_Digest
begin

text \<open>
  The storage of a project's durable object and its caches (\<open>apps/server/src/do/chain-store.ts\<close>): the
  stored chain, its differential load behind the cache of the parsed chain, the insertion of an accepted
  row, and the verified view behind the cache of the derived state. A table is the list of its rows in
  insertion order; the tables do not exist before a genesis is accepted. A program is a function of the
  object's state whose outcome is a value, a rejection or a defect, with the state it leaves.
\<close>

section \<open>The state of the object\<close>

record stored_row =
  sr_seq :: int
  sr_entry :: chain_entry
  sr_entryHashHex :: ustr
  sr_canonicalBytes :: int

record stored_chain =
  sc_entries :: "chain_entry list"
  sc_headSeq :: int
  sc_headHashHex :: "ustr option"
  sc_genesisHashHex :: "ustr option"
  sc_totalCanonicalBytes :: int

type_synonym verified_view = "chain_state \<times> chain_history_builder"

record state_cache =
  cache_current :: "(ustr \<times> verified_view) option"
  cache_chain :: "stored_chain option"

record stored_head_attestation =
  sh_attesterUserId :: user_id
  sh_suite :: ustr
  sh_chainHeadSeq :: int
  sh_chainHeadHashHex :: ustr
  sh_signatureHex :: ustr
  sh_attesterKeyFingerprintHex :: fingerprint

text \<open>A wrapped key, with the columns that the sweep of stale wraps reads.\<close>

record dek_wrap_row =
  dw_environmentId :: environment_id
  dw_epoch :: int
  dw_recipientUserId :: user_id
  dw_memberRecipient :: bool
  dw_recipientEncPubHex :: ustr

text \<open>
  The audit log: the rows of the chain mirror, and all other rows. Of these a deletion of a stale wrap
  is written out; the rows that a rotation detection appends are the call of the detection.
\<close>

datatype detection =
    Member_Removal user_id int
  | Role_Change user_id int
  | Server_Revocation fingerprint int
  | Device_Revocation user_id "fingerprint list" int

datatype data_row =
    Dek_Deleted user_id environment_id int int
  | Detected detection
  | Data_Event ustr

datatype audit_row = Chain_Row audit_event_record | Data_Row data_row

record checkpoint_snapshot =
  sn_chainSeq :: int
  sn_entryHashHex :: ustr
  sn_tuple :: checkpoint_environment_entry
  sn_values :: "env_values_digest_entry list"

record project_storage =
  do_rows :: "stored_row list option"
  do_audit :: "audit_row list"
  do_attestations :: "(user_id \<times> fingerprint, stored_head_attestation) js_map"
  do_windows :: "(user_id, int \<times> int) js_map"
  do_wraps :: "dek_wrap_row list"
  do_snapshots :: "(environment_id, checkpoint_snapshot) js_map"
  do_mirrorMark :: bool

record project_do = project_storage +
  do_cache :: state_cache

definition NO_CACHE :: state_cache where
  "NO_CACHE = \<lparr>cache_current = None, cache_chain = None\<rparr>"

definition new_project_do :: project_do where
  "new_project_do =
     \<lparr>do_rows = None, do_audit = [], do_attestations = [], do_windows = [], do_wraps = [], do_snapshots = [],
      do_mirrorMark = False, do_cache = NO_CACHE\<rparr>"

section \<open>Programs\<close>

type_synonym ('e, 'a) program = "project_do \<Rightarrow> ('e, 'a) outcome \<times> project_do"

definition and_then :: "('e, 'a) program \<Rightarrow> ('a \<Rightarrow> ('e, 'b) program) \<Rightarrow> ('e, 'b) program" where
  "and_then p f = (\<lambda>st. case p st of
       (Threw, st) \<Rightarrow> (Threw, st)
     | (Rejected e, st) \<Rightarrow> (Rejected e, st)
     | (Accepted a, st) \<Rightarrow> f a st)"

definition yields :: "('e, 'a) outcome \<Rightarrow> ('e, 'a) program" where
  "yields r = (\<lambda>st. (r, st))"

definition updates :: "(project_do \<Rightarrow> project_do) \<Rightarrow> ('e, unit) program" where
  "updates f = (\<lambda>st. (Accepted (), f st))"

lemma and_then_Accepted:
  "and_then p f st = (Accepted b, st') \<longleftrightarrow> (\<exists>a u. p st = (Accepted a, u) \<and> f a u = (Accepted b, st'))"
  by (auto simp: and_then_def split: prod.split outcome.split)

lemma and_then_Rejected:
  "and_then p f st = (Rejected e, st') \<longleftrightarrow>
     p st = (Rejected e, st') \<or> (\<exists>a u. p st = (Accepted a, u) \<and> f a u = (Rejected e, st'))"
  by (auto simp: and_then_def split: prod.split outcome.split)

lemma yields_simps [simp]:
  "yields r st = (r', st') \<longleftrightarrow> r' = r \<and> st' = st"
  "updates f st = (answer, st') \<longleftrightarrow> answer = Accepted () \<and> st' = f st"
  by (auto simp: yields_def updates_def)

section \<open>Loading\<close>

definition projectDoInitialized :: "project_do \<Rightarrow> bool" where
  "projectDoInitialized st \<longleftrightarrow> do_rows st \<noteq> None"

definition loadRowsAfter :: "stored_row list \<Rightarrow> int \<Rightarrow> stored_row list" where
  "loadRowsAfter rows afterSeq = sort_key sr_seq (filter (\<lambda>row. afterSeq < sr_seq row) rows)"

definition EMPTY_CHAIN :: stored_chain where
  "EMPTY_CHAIN =
     \<lparr>sc_entries = [], sc_headSeq = 0, sc_headHashHex = None, sc_genesisHashHex = None, sc_totalCanonicalBytes = 0\<rparr>"

definition mergeLoadedDiff :: "stored_chain \<Rightarrow> stored_row list \<Rightarrow> stored_chain" where
  "mergeLoadedDiff base diff =
     \<lparr>sc_entries = sc_entries base @ map sr_entry diff,
      sc_headSeq = (if diff = [] then sc_headSeq base else sr_seq (last diff)),
      sc_headHashHex = (if diff = [] then sc_headHashHex base else Some (sr_entryHashHex (last diff))),
      sc_genesisHashHex =
        (case sc_genesisHashHex base of
           Some genesis \<Rightarrow> Some genesis
         | None \<Rightarrow> if diff = [] then None else Some (sr_entryHashHex (hd diff))),
      sc_totalCanonicalBytes = sc_totalCanonicalBytes base + sum_list (map sr_canonicalBytes diff)\<rparr>"

text \<open>A query on tables that do not exist is an error of the database.\<close>

definition loadChain :: "('e, stored_chain) program" where
  "loadChain st =
     (let cache = do_cache st in
      if cache_chain cache = None \<and> \<not> projectDoInitialized st then (Accepted EMPTY_CHAIN, st)
      else case do_rows st of
        None \<Rightarrow> (Threw, st)
      | Some rows \<Rightarrow>
          let base = (case cache_chain cache of None \<Rightarrow> EMPTY_CHAIN | Some chain \<Rightarrow> chain);
              diff = loadRowsAfter rows (sc_headSeq base) in
          if diff = [] \<and> cache_chain cache \<noteq> None then (Accepted base, st)
          else
            let chain = mergeLoadedDiff base diff in
            (Accepted chain, st\<lparr>do_cache := cache\<lparr>cache_chain := Some chain\<rparr>\<rparr>))"

text \<open>The number of a row is the primary key of the table.\<close>

definition insertSync :: "chain_entry \<Rightarrow> ustr \<Rightarrow> int \<Rightarrow> ('e, unit) program" where
  "insertSync entry entryHashHex canonicalBytes st =
     (case do_rows st of
        None \<Rightarrow> (Threw, st)
      | Some rows \<Rightarrow>
          if entry_seq entry \<in> sr_seq ` set rows then (Threw, st)
          else (Accepted (), st\<lparr>
            do_rows := Some (rows @ [\<lparr>sr_seq = entry_seq entry, sr_entry = entry, sr_entryHashHex = entryHashHex,
                                      sr_canonicalBytes = canonicalBytes\<rparr>]),
            do_cache := (do_cache st)\<lparr>cache_chain :=
              (case cache_chain (do_cache st) of
                 None \<Rightarrow> None
               | Some cached \<Rightarrow>
                   if entry_seq entry = sc_headSeq cached + 1
                   then Some \<lparr>sc_entries = sc_entries cached @ [entry], sc_headSeq = entry_seq entry,
                              sc_headHashHex = Some entryHashHex,
                              sc_genesisHashHex =
                                (case sc_genesisHashHex cached of None \<Rightarrow> Some entryHashHex | Some genesis \<Rightarrow> Some genesis),
                              sc_totalCanonicalBytes = sc_totalCanonicalBytes cached + canonicalBytes\<rparr>
                   else None)\<rparr>\<rparr>))"

section \<open>The derived state\<close>

definition verifyChainEffect :: "crypto_api \<Rightarrow> chain_entry list \<Rightarrow> (chain_invalid, verified_view) outcome" where
  "verifyChainEffect api entries = verifyChainWithHistory api (map write_entry entries)"

definition canonicalBytesOf :: "chain_entry \<Rightarrow> (chain_invalid, int) outcome" where
  "canonicalBytesOf entry =
     (case canonicalChainEntryBytes entry of
        None \<Rightarrow> Rejected \<lparr>err_seq = entry_seq entry, err_reason = Invalid_Payload\<rparr>
      | Some b \<Rightarrow> Accepted (int (length b)))"

definition updateStateCache :: "verified_view \<Rightarrow> state_cache \<Rightarrow> state_cache" where
  "updateStateCache verified cache =
     (let head = (st_headHashHex (fst verified), verified) in
      case cache_current cache of
        None \<Rightarrow> cache\<lparr>cache_current := Some head\<rparr>
      | Some (_, cached) \<Rightarrow>
          if st_headSeq (fst cached) \<le> st_headSeq (fst verified) then cache\<lparr>cache_current := Some head\<rparr> else cache)"

definition refresh_cache :: "verified_view \<Rightarrow> project_do \<Rightarrow> project_do" where
  "refresh_cache verified st = st\<lparr>do_cache := updateStateCache verified (do_cache st)\<rparr>"

text \<open>A stored chain that does not verify is a defect.\<close>

definition derive_fresh :: "crypto_api \<Rightarrow> stored_chain \<Rightarrow> ('e, verified_view) program" where
  "derive_fresh api chain st =
     (case verifyChainEffect api (sc_entries chain) of
        Accepted derived \<Rightarrow> (Accepted derived, refresh_cache derived st)
      | _ \<Rightarrow> (Threw, st))"

definition deriveStoredState :: "crypto_api \<Rightarrow> stored_chain \<Rightarrow> ('e, verified_view) program" where
  "deriveStoredState api chain st =
     (case cache_current (do_cache st) of
        Some (hash, verified) \<Rightarrow>
          if Some hash = sc_headHashHex chain then (Accepted verified, st) else derive_fresh api chain st
      | None \<Rightarrow> derive_fresh api chain st)"

end
