(* ===== verification/Chain_Accept.thy ===== *)
theory Chain_Accept
  imports Chain_Store
begin

text \<open>
  The acceptance of a chain entry by the server: the checks (\<open>chain-accept.ts\<close> of \<open>apps/server/src/do\<close>,
  with the limits of \<open>policy.ts\<close>), the write phase that inserts the entry with its mirror rows and its
  side effects in one synchronous block, and the commit (\<open>chain-commit.ts\<close>).
\<close>

section \<open>Rejections\<close>

datatype attestation_reject_reason = Reject_Signature_Invalid | Reject_Head_Unknown | Reject_Head_State_Mismatch

datatype checkpoint_mismatch = Manifest_Mismatch | Values_Digest_Mismatch | Audit_Head_Unknown | Audit_Head_Stale

text \<open>
  The rejections of the chain programs; the last three are the outcomes only an initialization has. A limit
  that a rejection repeats is a constant of \<open>policy.ts\<close> and left out.
\<close>

datatype data_rejection =
    Not_Initialized
  | Not_Member
  | Insufficient_Chain_Role
  | Insufficient_Scope
  | Composite_Required ustr
  | Device_Limit
  | Proposal_Lifetime
  | Pending_Proposals
  | Checkpoint_State_Mismatch checkpoint_mismatch
  | Audit_Head_Not_Ready
  | Chain_Head_Conflict int ustr
  | Chain_Entry_Invalid chain_invalid
  | Chain_Entry_Too_Large
  | Chain_Capacity_Exceeded
  | Mirror_Read_Only
  | Limit_Exceeded
  | Attestation_Rejected attestation_reject_reason
  | Attestation_Regression int
  | Attestation_Rate_Limited int
  | Already_Initialized user_id int ustr
  | Fresh_Init_Not_Admitted
  | Project_Id_Mismatch

section \<open>The checks\<close>

definition MAX_ENTRY_CANONICAL_BYTES :: int where "MAX_ENTRY_CANONICAL_BYTES = 1 * 1024 * 1024"

definition MAX_CHAIN_ENTRIES :: int where "MAX_CHAIN_ENTRIES = 10000"

definition MAX_CHAIN_TOTAL_CANONICAL_BYTES :: int where
  "MAX_CHAIN_TOTAL_CANONICAL_BYTES = 12 * 1024 * 1024"

definition rejectChainInvalid :: "(chain_invalid, 'a) outcome \<Rightarrow> (data_rejection, 'a) outcome" where
  "rejectChainInvalid r =
     (case r of Threw \<Rightarrow> Threw | Rejected e \<Rightarrow> Rejected (Chain_Entry_Invalid e) | Accepted a \<Rightarrow> Accepted a)"

definition checkEntrySize :: "chain_entry \<Rightarrow> (data_rejection, int) outcome" where
  "checkEntrySize entry =
     then_call (rejectChainInvalid (canonicalBytesOf entry)) (\<lambda>bytes.
       if MAX_ENTRY_CANONICAL_BYTES < bytes then Rejected Chain_Entry_Too_Large else Accepted bytes)"

definition chainCapacityExceeded :: "int \<Rightarrow> int \<Rightarrow> int \<Rightarrow> bool" where
  "chainCapacityExceeded entryCount totalCanonicalBytes addedCanonicalBytes \<longleftrightarrow>
     MAX_CHAIN_ENTRIES < entryCount + 1 \<or> MAX_CHAIN_TOTAL_CANONICAL_BYTES < totalCanonicalBytes + addedCanonicalBytes"

definition ensureChainCapacity :: "stored_chain \<Rightarrow> int \<Rightarrow> (data_rejection, unit) outcome" where
  "ensureChainCapacity chain canonicalBytes =
     (if chainCapacityExceeded (int (length (sc_entries chain))) (sc_totalCanonicalBytes chain) canonicalBytes
      then Rejected Chain_Capacity_Exceeded else Accepted ())"

text \<open>The callers have checked that the chain has a head.\<close>

definition ensureParentHead :: "stored_chain \<Rightarrow> ustr \<Rightarrow> (data_rejection, unit) outcome" where
  "ensureParentHead chain parentHeadHashHex =
     (case sc_headHashHex chain of
        None \<Rightarrow> Threw
      | Some head \<Rightarrow>
          if parentHeadHashHex \<noteq> head then Rejected (Chain_Head_Conflict (sc_headSeq chain) head) else Accepted ())"

definition verifyAcceptableEntry ::
  "crypto_api \<Rightarrow> stored_chain \<Rightarrow> chain_entry \<Rightarrow> (data_rejection, int \<times> verified_view) outcome" where
  "verifyAcceptableEntry api chain entry =
     then_call (checkEntrySize entry) (\<lambda>canonicalBytes.
     then_call (ensureChainCapacity chain canonicalBytes) (\<lambda>_.
     then_call (rejectChainInvalid (verifyChainEffect api (sc_entries chain @ [entry]))) (\<lambda>applied.
     Accepted (canonicalBytes, applied))))"

definition verifyAcceptableEntryPair ::
  "crypto_api \<Rightarrow> stored_chain \<Rightarrow> chain_entry \<Rightarrow> chain_entry \<Rightarrow>
   (data_rejection, int \<times> int \<times> verified_view) outcome" where
  "verifyAcceptableEntryPair api chain first second =
     then_call (checkEntrySize first) (\<lambda>firstBytes.
     then_call (checkEntrySize second) (\<lambda>secondBytes.
     if MAX_CHAIN_ENTRIES < int (length (sc_entries chain)) + 2 \<or>
        MAX_CHAIN_TOTAL_CANONICAL_BYTES < sc_totalCanonicalBytes chain + firstBytes + secondBytes
     then Rejected Chain_Capacity_Exceeded
     else
       then_call (rejectChainInvalid (verifyChainEffect api (sc_entries chain @ [first, second]))) (\<lambda>applied.
       Accepted (firstBytes, secondBytes, applied))))"

section \<open>The side effects of an acceptance\<close>

definition append_audit :: "audit_row list \<Rightarrow> project_do \<Rightarrow> project_do" where
  "append_audit rows st = st\<lparr>do_audit := do_audit st @ rows\<rparr>"

definition stale_wrap :: "user_id \<Rightarrow> ustr \<Rightarrow> dek_wrap_row \<Rightarrow> bool" where
  "stale_wrap recipient keepEncPub w \<longleftrightarrow>
     dw_recipientUserId w = recipient \<and> dw_memberRecipient w \<and> dw_recipientEncPubHex w \<noteq> keepEncPub"

text \<open>The deleted wraps, in the order of the query: by environment, then by epoch.\<close>

definition stale_wraps :: "user_id \<Rightarrow> ustr \<Rightarrow> dek_wrap_row list \<Rightarrow> (environment_id \<times> int) list" where
  "stale_wraps recipient keepEncPub wraps =
     toSorted (\<lambda>(environmentA, epochA) (environmentB, epochB).
         let byEnvironment = compareUtf8Bytes environmentA environmentB in
         if byEnvironment = 0 then epochA - epochB else byEnvironment)
       (map (\<lambda>w. (dw_environmentId w, dw_epoch w)) (filter (stale_wrap recipient keepEncPub) wraps))"

definition deleteStaleMemberWraps :: "user_id \<Rightarrow> ustr \<Rightarrow> int \<Rightarrow> project_do \<Rightarrow> project_do" where
  "deleteStaleMemberWraps recipient keepEncPub seq st =
     append_audit
       (map (\<lambda>(environmentId, epoch). Data_Row (Dek_Deleted recipient environmentId epoch seq))
         (stale_wraps recipient keepEncPub (do_wraps st)))
       (st\<lparr>do_wraps := filter (\<lambda>w. \<not> stale_wrap recipient keepEncPub w) (do_wraps st)\<rparr>)"

definition deleteHeadAttestation :: "user_id \<Rightarrow> project_do \<Rightarrow> project_do" where
  "deleteHeadAttestation attester st =
     st\<lparr>do_attestations := filter (\<lambda>((user, fp), _). user \<noteq> attester) (do_attestations st),
        do_windows := AList.delete attester (do_windows st)\<rparr>"

definition deleteDeviceHeadAttestation :: "user_id \<Rightarrow> fingerprint \<Rightarrow> project_do \<Rightarrow> project_do" where
  "deleteDeviceHeadAttestation attester fp st =
     st\<lparr>do_attestations := AList.delete (attester, fp) (do_attestations st)\<rparr>"

definition appendDetected :: "detection \<Rightarrow> project_do \<Rightarrow> project_do" where
  "appendDetected d = append_audit [Data_Row (Detected d)]"

fun applyAcceptanceSideEffectsSync :: "chain_operation \<Rightarrow> int \<Rightarrow> project_do \<Rightarrow> project_do" where
  "applyAcceptanceSideEffectsSync (Direct (Add_Member p)) seq st =
     deleteStaleMemberWraps (am_targetUserId p) (am_encPubHex p) seq st"
| "applyAcceptanceSideEffectsSync (Direct (Remove_Member target)) seq st =
     appendDetected (Member_Removal target seq) (deleteHeadAttestation target st)"
| "applyAcceptanceSideEffectsSync (Direct (Change_Role p)) seq st =
     appendDetected (Role_Change (cr_targetUserId p) seq) st"
| "applyAcceptanceSideEffectsSync (Direct (Revoke_Server key)) seq st =
     appendDetected (Server_Revocation key seq) st"
| "applyAcceptanceSideEffectsSync (Direct (Revoke_Device p)) seq st =
     appendDetected (Device_Revocation (rd_targetUserId p) (rd_deviceFingerprintsHex p) seq)
       (fold (deleteDeviceHeadAttestation (rd_targetUserId p)) (rd_deviceFingerprintsHex p) st)"
| "applyAcceptanceSideEffectsSync _ seq st = st"

section \<open>The write phase\<close>

record applied_proposal =
  ap_proposalSeq :: int
  ap_inner :: proposable_operation

text \<open>The proposal a completed approval applied.\<close>

definition completed_proposal :: "proposal_index \<Rightarrow> chain_entry \<Rightarrow> indexed_proposal option" where
  "completed_proposal proposals entry =
     (case entry_operation entry of
        Approve hash \<Rightarrow>
          (case map_of proposals hash of
             None \<Rightarrow> None
           | Some proposal \<Rightarrow> if ip_completedAtSeq proposal \<noteq> Some (entry_seq entry) then None else Some proposal)
      | _ \<Rightarrow> None)"

definition append_mirror :: "chain_entry \<Rightarrow> int \<Rightarrow> proposal_index \<Rightarrow> fingerprint option \<Rightarrow> ('e, unit) program" where
  "append_mirror entry nowMs proposals subject st =
     (case chainMirrorEvents entry nowMs proposals subject of
        None \<Rightarrow> (Threw, st)
      | Some rows \<Rightarrow> (Accepted (), append_audit (map Chain_Row rows) st))"

definition insert_entry ::
  "chain_entry \<Rightarrow> ustr \<Rightarrow> int \<Rightarrow> int \<Rightarrow> proposal_index \<Rightarrow> fingerprint option \<Rightarrow> ('e, unit) program" where
  "insert_entry entry entryHashHex canonicalBytes nowMs proposals subject =
     and_then (insertSync entry entryHashHex canonicalBytes) (\<lambda>_.
     and_then (append_mirror entry nowMs proposals subject) (\<lambda>_.
     updates (applyAcceptanceSideEffectsSync (entry_operation entry) (entry_seq entry))))"

definition insertAcceptedEntrySync ::
  "chain_entry \<Rightarrow> verified_view \<Rightarrow> int \<Rightarrow> int \<Rightarrow> proposal_index \<Rightarrow> fingerprint option \<Rightarrow>
   ('e, applied_proposal option) program" where
  "insertAcceptedEntrySync entry applied canonicalBytes nowMs proposals subject =
     and_then (insert_entry entry (st_headHashHex (fst applied)) canonicalBytes nowMs proposals subject) (\<lambda>_.
     case completed_proposal proposals entry of
       None \<Rightarrow> yields (Accepted None)
     | Some proposal \<Rightarrow>
         let inner = pr_inner (pe_payload (ip_entry proposal)) in
         and_then (updates (applyAcceptanceSideEffectsSync (Direct inner) (entry_seq entry))) (\<lambda>_.
         yields (Accepted (Some \<lparr>ap_proposalSeq = entry_seq (pe_entry (ip_entry proposal)), ap_inner = inner\<rparr>))))"

definition NO_PROPOSALS :: proposal_index where "NO_PROPOSALS = []"

definition insertAcceptedEntryPairSync ::
  "chain_entry \<Rightarrow> chain_entry \<Rightarrow> verified_view \<Rightarrow> int \<Rightarrow> int \<Rightarrow> int \<Rightarrow> ('e, unit) program" where
  "insertAcceptedEntryPairSync first second applied firstBytes secondBytes nowMs =
     and_then (insert_entry first (entry_prevHashHex second) firstBytes nowMs NO_PROPOSALS None) (\<lambda>_.
     insert_entry second (st_headHashHex (fst applied)) secondBytes nowMs NO_PROPOSALS None)"

section \<open>The commit\<close>

text \<open>The fingerprint of an added device; keys that are not hexadecimal are a defect.\<close>

definition mirrorSubjectOf :: "crypto_api \<Rightarrow> chain_entry \<Rightarrow> ('e, fingerprint option) outcome" where
  "mirrorSubjectOf api entry =
     (case entry_operation entry of
        Direct (Add_Device p) \<Rightarrow>
          (case (decode_hex (ad_encPubHex p), decode_hex (ad_sigPubHex p)) of
             (Some enc, Some sig) \<Rightarrow>
               Accepted (Some (encode_hex (take FINGERPRINT_BYTES (api_sha256 api (enc @ sig)))))
           | _ \<Rightarrow> Threw)
      | _ \<Rightarrow> Accepted None)"

definition commitAcceptedEntry ::
  "crypto_api \<Rightarrow> stored_chain \<Rightarrow> chain_entry \<Rightarrow> verified_view \<Rightarrow> int \<Rightarrow> int \<Rightarrow>
   (project_do \<Rightarrow> project_do) \<Rightarrow> ('e, applied_proposal option) program" where
  "commitAcceptedEntry api chain entry applied canonicalBytes nowMs extraSync =
     (let proposals = proposalIndexOf (sc_entries chain @ [entry]) (fst applied) (snd applied) in
      and_then (yields (mirrorSubjectOf api entry)) (\<lambda>subject.
      and_then (insertAcceptedEntrySync entry applied canonicalBytes nowMs proposals subject) (\<lambda>proposal.
      and_then (updates extraSync) (\<lambda>_.
      yields (Accepted proposal)))))"

end
