(* ===== verification/Chain_Programs.thy ===== *)
theory Chain_Programs
  imports Chain_Accept Recipient_Set Head_Attestation
begin

text \<open>
  The chain programs of a project's durable object (\<open>apps/server/src\<close>): the guards of a request
  (\<open>data/data-guards.ts\<close>), the acceptance policies (\<open>quotas.ts\<close>, \<open>storage-guard.ts\<close>), initialization, append,
  snapshot and role (\<open>programs/programs-chain.ts\<close>), the standalone checkpoint (\<open>checkpoint-accept.ts\<close>), the
  head attestation (\<open>attestation-accept.ts\<close>) and the entry points that run them one at a time
  (\<open>do/chain-do.ts\<close>).
\<close>

section \<open>What a request reads besides the chain\<close>

text \<open>
  The clock (before the checks, and before the write phase), the size of the database, and the answers of
  the queries on the tables of environments, manifests and values and on the column of audit heads. An
  environment's answer is its deletion time, a manifest's its version and hash.
\<close>

record request_world =
  rw_nowMs :: int
  rw_writeMs :: int
  rw_databaseSizeBytes :: int
  rw_findEnvironment :: "environment_id \<Rightarrow> int option option"
  rw_environmentManifestAnchor :: "environment_id \<Rightarrow> (int \<times> ustr) option"
  rw_checkpointValueEntries :: "environment_id \<Rightarrow> env_values_digest_entry list"
  rw_headColumnBehind :: bool
  rw_headCurrent :: bool
  rw_headPosition :: "ustr \<Rightarrow> int option"
  rw_latestCheckpointMirrorSeq :: "int option"

section \<open>Guards\<close>

definition roleAtLeast :: "role \<Rightarrow> role \<Rightarrow> bool" where
  "roleAtLeast r minimum \<longleftrightarrow> ROLE_RANK minimum \<le> ROLE_RANK r"

text \<open>A member with the device that signed the request.\<close>

record member_with_device =
  mw_member :: chain_member
  mw_device :: chain_device
  mw_permission :: effective_permission

definition withDevice :: "chain_member \<Rightarrow> chain_device \<Rightarrow> member_with_device" where
  "withDevice member device =
     \<lparr>mw_member = member, mw_device = device,
      mw_permission = effectivePermissionOf (mem_role member) (mem_scope member) device\<rparr>"

definition deviceOf :: "chain_member \<Rightarrow> fingerprint \<Rightarrow> member_with_device option" where
  "deviceOf member fp = map_option (withDevice member) (map_of (devices member) fp)"

definition activeDevicesOf :: "chain_member \<Rightarrow> member_with_device list" where
  "activeDevicesOf member =
     map (withDevice member)
       (toSorted (\<lambda>a b. if units_less (keyFingerprintHex a) (keyFingerprintHex b) then -1 else 1)
         (map snd (devices member)))"

text \<open>
  The trial of a member's devices: the first attempt that does not answer that the signature is invalid
  decides; when all do, the last answer is returned.
\<close>

fun try_devices ::
  "(member_with_device \<Rightarrow> (data_rejection, 'a) outcome) \<Rightarrow> data_rejection \<Rightarrow> member_with_device list \<Rightarrow>
   (data_rejection, member_with_device \<times> 'a) outcome" where
  "try_devices attempt lastRejection [] = Rejected lastRejection"
| "try_devices attempt lastRejection (device # candidates) =
     (case attempt device of
        Threw \<Rightarrow> Threw
      | Accepted a \<Rightarrow> Accepted (device, a)
      | Rejected e \<Rightarrow>
          if e = Attestation_Rejected Reject_Signature_Invalid then try_devices attempt e candidates else Rejected e)"

definition withSigningDevice ::
  "chain_member \<Rightarrow> (member_with_device \<Rightarrow> (data_rejection, 'a) outcome) \<Rightarrow>
   (data_rejection, member_with_device \<times> 'a) outcome" where
  "withSigningDevice member attempt =
     (if activeDevicesOf member = [] then Threw
      else try_devices attempt (Attestation_Rejected Reject_Signature_Invalid) (activeDevicesOf member))"

definition ensureDevicePermission ::
  "member_with_device \<Rightarrow> role \<Rightarrow> environment_id option \<Rightarrow> (data_rejection, unit) outcome" where
  "ensureDevicePermission device minimum environmentId =
     (if \<not> roleAtLeast (perm_role (mw_permission device)) minimum then Rejected Insufficient_Chain_Role
      else case environmentId of
        None \<Rightarrow> Accepted ()
      | Some e \<Rightarrow>
          if \<not> scopeIncludesEnvironment (perm_scope (mw_permission device)) e
          then Rejected Insufficient_Scope else Accepted ())"

definition requireChainRole :: "chain_state \<Rightarrow> user_id \<Rightarrow> role \<Rightarrow> (data_rejection, chain_member) outcome" where
  "requireChainRole state caller minimum =
     (case map_of (st_members state) caller of
        None \<Rightarrow> Rejected Not_Member
      | Some member \<Rightarrow>
          if roleAtLeast (mem_role member) minimum then Accepted member else Rejected Insufficient_Chain_Role)"

definition requireRoleInScope ::
  "chain_state \<Rightarrow> user_id \<Rightarrow> role \<Rightarrow> environment_id \<Rightarrow> (data_rejection, chain_member) outcome" where
  "requireRoleInScope state caller minimum environmentId =
     then_call (requireChainRole state caller minimum) (\<lambda>member.
       if scopeIncludesEnvironment (mem_scope member) environmentId then Accepted member
       else Rejected Insufficient_Scope)"

definition loadInitializedChain :: "(data_rejection, stored_chain) program" where
  "loadInitializedChain =
     and_then loadChain (\<lambda>chain.
       yields (if sc_headSeq chain = 0 \<or> sc_headHashHex chain = None then Rejected Not_Initialized
               else if sc_genesisHashHex chain = None then Threw
               else Accepted chain))"

definition projectIdOf :: "stored_chain \<Rightarrow> ustr" where
  "projectIdOf chain = (case sc_genesisHashHex chain of None \<Rightarrow> [] | Some genesis \<Rightarrow> genesis)"

record member_context =
  mc_state :: chain_state
  mc_history :: chain_history_builder
  mc_member :: chain_member
  mc_projectId :: ustr

definition requireMemberState :: "crypto_api \<Rightarrow> user_id \<Rightarrow> role \<Rightarrow> (data_rejection, member_context) program" where
  "requireMemberState api caller minimum =
     and_then loadInitializedChain (\<lambda>chain.
     and_then (deriveStoredState api chain) (\<lambda>(state, history).
     and_then (yields (requireChainRole state caller minimum)) (\<lambda>member.
     yields (Accepted \<lparr>mc_state = state, mc_history = history, mc_member = member,
                       mc_projectId = projectIdOf chain\<rparr>))))"

section \<open>Acceptance policies\<close>

definition MAX_PENDING_PROPOSALS :: int where "MAX_PENDING_PROPOSALS = 32"

definition MAX_PROPOSAL_LIFETIME_MS :: int where "MAX_PROPOSAL_LIFETIME_MS = 30 * 24 * 60 * 60 * 1000"

definition MAX_DEVICES_PER_MEMBER :: nat where "MAX_DEVICES_PER_MEMBER = 16"

definition proposalIsLive :: "int \<Rightarrow> int \<Rightarrow> bool" where
  "proposalIsLive expires nowMs \<longleftrightarrow> nowMs \<le> expires"

definition proposalLifetimeExceeded :: "int \<Rightarrow> int \<Rightarrow> bool" where
  "proposalLifetimeExceeded expires nowMs \<longleftrightarrow> nowMs + MAX_PROPOSAL_LIFETIME_MS < expires"

definition pendingProposalsExceeded :: "int \<Rightarrow> bool" where
  "pendingProposalsExceeded livePendingCount \<longleftrightarrow> MAX_PENDING_PROPOSALS < livePendingCount + 1"

definition countLivePendingProposals :: "(ustr, pending_proposal) js_map \<Rightarrow> int \<Rightarrow> int" where
  "countLivePendingProposals pending nowMs =
     int (length (filter (\<lambda>(_, proposal). proposalIsLive (expiresAtMs proposal) nowMs) pending))"

definition ensureProposalAdmitted ::
  "int \<Rightarrow> (ustr, pending_proposal) js_map \<Rightarrow> int \<Rightarrow> (data_rejection, unit) outcome" where
  "ensureProposalAdmitted expires pending nowMs =
     (if proposalLifetimeExceeded expires nowMs then Rejected Proposal_Lifetime
      else if pendingProposalsExceeded (countLivePendingProposals pending nowMs) then Rejected Pending_Proposals
      else Accepted ())"

datatype storage_guard_decision = Admit | Warn | Reject

definition DO_STORAGE_WARN_BYTES :: int where "DO_STORAGE_WARN_BYTES = 8000000000"

definition DO_STORAGE_REJECT_BYTES :: int where "DO_STORAGE_REJECT_BYTES = 9000000000"

definition storageGuardDecision :: "int \<Rightarrow> storage_guard_decision" where
  "storageGuardDecision databaseSizeBytes =
     (if DO_STORAGE_REJECT_BYTES \<le> databaseSizeBytes then Reject
      else if DO_STORAGE_WARN_BYTES \<le> databaseSizeBytes then Warn else Admit)"

definition ensureStorageAdmitsGrowth :: "request_world \<Rightarrow> (data_rejection, unit) outcome" where
  "ensureStorageAdmitsGrowth w =
     (if storageGuardDecision (rw_databaseSizeBytes w) \<noteq> Reject then Accepted () else Rejected Limit_Exceeded)"

definition ensureStorageAdmitsAuditHeadExtension :: "request_world \<Rightarrow> (data_rejection, unit) outcome" where
  "ensureStorageAdmitsAuditHeadExtension w =
     (if rw_headColumnBehind w then ensureStorageAdmitsGrowth w else Accepted ())"

definition isGrowthOp :: "chain_operation \<Rightarrow> bool" where
  "isGrowthOp operation =
     (case operation of Direct (Add_Member _) \<Rightarrow> True | Direct (Grant_Server _) \<Rightarrow> True | _ \<Rightarrow> False)"

definition growsAccessSet :: "chain_entry \<Rightarrow> chain_state \<Rightarrow> bool" where
  "growsAccessSet entry state =
     (case entry_operation entry of
        Propose p \<Rightarrow> isGrowthOp (Direct (pr_inner p))
      | Approve hash \<Rightarrow>
          (case map_of (st_pendingProposals state) hash of
             None \<Rightarrow> False
           | Some pending \<Rightarrow> isGrowthOp (Direct (inner_operation pending)))
      | operation \<Rightarrow> isGrowthOp operation)"

section \<open>Initialization\<close>

record chain_head_value =
  hv_headSeq :: int
  hv_headHashHex :: ustr

definition head_value :: "verified_view \<Rightarrow> chain_head_value" where
  "head_value applied = \<lparr>hv_headSeq = st_headSeq (fst applied), hv_headHashHex = st_headHashHex (fst applied)\<rparr>"

definition ensureProjectDoTables :: "project_do \<Rightarrow> project_do" where
  "ensureProjectDoTables st = (case do_rows st of None \<Rightarrow> st\<lparr>do_rows := Some []\<rparr> | Some _ \<Rightarrow> st)"

definition initProgram ::
  "crypto_api \<Rightarrow> ustr \<Rightarrow> chain_entry \<Rightarrow> bool \<Rightarrow> request_world \<Rightarrow> (data_rejection, chain_head_value) program" where
  "initProgram api expectedProjectId entry admitFresh w =
     and_then loadChain (\<lambda>chain.
     if 0 < sc_headSeq chain then
       yields (case (sc_entries chain, sc_headHashHex chain) of
           (first # _, Some head) \<Rightarrow>
             Rejected (Already_Initialized (actor_userId (entry_actor first)) (sc_headSeq chain) head)
         | _ \<Rightarrow> Threw)
     else if \<not> admitFresh then yields (Rejected Fresh_Init_Not_Admitted)
     else
       and_then (yields (verifyAcceptableEntry api chain entry)) (\<lambda>(canonicalBytes, applied).
       if st_headHashHex (fst applied) \<noteq> expectedProjectId then yields (Rejected Project_Id_Mismatch)
       else
         and_then (updates ensureProjectDoTables) (\<lambda>_.
         and_then (commitAcceptedEntry api chain entry applied canonicalBytes (rw_writeMs w) (\<lambda>st. st)) (\<lambda>_.
         and_then (updates (refresh_cache applied)) (\<lambda>_.
         yields (Accepted (head_value applied)))))))"

section \<open>The standalone checkpoint\<close>

definition ensureCheckpointValuesDigest ::
  "crypto_api \<Rightarrow> checkpoint_environment_entry \<Rightarrow> env_values_digest_entry list \<Rightarrow> (data_rejection, unit) outcome" where
  "ensureCheckpointValuesDigest api tuple vs =
     (case computeEnvValuesDigest (api_sha256 api) SUITE_ID vs of
        Accepted digest \<Rightarrow>
          if digest \<noteq> ck_valuesDigestHex tuple
          then Rejected (Checkpoint_State_Mismatch Values_Digest_Mismatch) else Accepted ()
      | _ \<Rightarrow> Threw)"

definition ensureAuditHeadAcceptable :: "request_world \<Rightarrow> ustr \<Rightarrow> (data_rejection, unit) outcome" where
  "ensureAuditHeadAcceptable w auditHeadHashHex =
     (if auditHeadHashHex = [] then Accepted ()
      else
        then_call (ensureStorageAdmitsAuditHeadExtension w) (\<lambda>_.
        if \<not> rw_headCurrent w then Rejected Audit_Head_Not_Ready
        else case rw_headPosition w auditHeadHashHex of
          None \<Rightarrow> Rejected (Checkpoint_State_Mismatch Audit_Head_Unknown)
        | Some position \<Rightarrow>
            (case rw_latestCheckpointMirrorSeq w of
               None \<Rightarrow> Accepted ()
             | Some lowest \<Rightarrow>
                 if position < lowest then Rejected (Checkpoint_State_Mismatch Audit_Head_Stale) else Accepted ())))"

definition ensureCheckpointTupleState ::
  "crypto_api \<Rightarrow> request_world \<Rightarrow> checkpoint_environment_entry \<Rightarrow>
   (data_rejection, env_values_digest_entry list) outcome" where
  "ensureCheckpointTupleState api w tuple =
     (case rw_findEnvironment w (ck_environmentId tuple) of
        Some None \<Rightarrow>
          (case rw_environmentManifestAnchor w (ck_environmentId tuple) of
             None \<Rightarrow> Threw
           | Some (manifestVersion, signedBytesHashHex) \<Rightarrow>
               if manifestVersion \<noteq> ck_manifestVersion tuple \<or> signedBytesHashHex \<noteq> ck_manifestSigHashHex tuple
               then Rejected (Checkpoint_State_Mismatch Manifest_Mismatch)
               else
                 let vs = rw_checkpointValueEntries w (ck_environmentId tuple) in
                 then_call (ensureCheckpointValuesDigest api tuple vs) (\<lambda>_. Accepted vs))
      | _ \<Rightarrow> Threw)"

text \<open>A loop over the tuples that ends at the first rejection.\<close>

fun for_each :: "('x \<Rightarrow> ('e, 'a) outcome) \<Rightarrow> 'x list \<Rightarrow> ('e, 'a list) outcome" where
  "for_each f [] = Accepted []"
| "for_each f (x # xs) = then_call (f x) (\<lambda>a. then_call (for_each f xs) (\<lambda>as. Accepted (a # as)))"

text \<open>The stored enumeration is replaced unless its digest is the tuple's.\<close>

definition upsertCheckpointSnapshot ::
  "int \<Rightarrow> ustr \<Rightarrow> checkpoint_environment_entry \<Rightarrow> env_values_digest_entry list \<Rightarrow> project_do \<Rightarrow> project_do" where
  "upsertCheckpointSnapshot chainSeq entryHashHex tuple vs st =
     (let kept = (case map_of (do_snapshots st) (ck_environmentId tuple) of
                    None \<Rightarrow> vs
                  | Some stored \<Rightarrow>
                      if ck_valuesDigestHex (sn_tuple stored) = ck_valuesDigestHex tuple then sn_values stored else vs)
      in st\<lparr>do_snapshots := AList.update (ck_environmentId tuple)
              \<lparr>sn_chainSeq = chainSeq, sn_entryHashHex = entryHashHex, sn_tuple = tuple, sn_values = kept\<rparr>
              (do_snapshots st)\<rparr>)"

definition save_snapshots ::
  "int \<Rightarrow> ustr \<Rightarrow> (checkpoint_environment_entry \<times> env_values_digest_entry list) list \<Rightarrow> project_do \<Rightarrow> project_do" where
  "save_snapshots chainSeq entryHashHex =
     fold (\<lambda>(tuple, vs). upsertCheckpointSnapshot chainSeq entryHashHex tuple vs)"

definition standaloneCheckpointProgram ::
  "crypto_api \<Rightarrow> ustr \<Rightarrow> chain_entry \<Rightarrow> checkpoint_payload \<Rightarrow> user_id \<Rightarrow> request_world \<Rightarrow>
   (data_rejection, chain_head_value \<times> applied_proposal option) program" where
  "standaloneCheckpointProgram api parentHeadHashHex entry p caller w =
     and_then loadInitializedChain (\<lambda>chain.
     and_then (deriveStoredState api chain) (\<lambda>(state, _).
     and_then (yields (requireChainRole state caller Reader)) (\<lambda>person.
     and_then (yields (if cp_auditHeadHashHex p \<noteq> []
                       then then_call (requireChainRole state caller Admin) (\<lambda>_. Accepted ())
                       else Accepted ())) (\<lambda>_.
     case deviceOf person (actor_keyFingerprintHex (entry_actor entry)) of
       None \<Rightarrow> yields (Rejected (Chain_Entry_Invalid \<lparr>err_seq = entry_seq entry, err_reason = Actor_Key_Mismatch\<rparr>))
     | Some device \<Rightarrow>
         and_then (yields (ensureDevicePermission device (if cp_auditHeadHashHex p = [] then Reader else Admin) None)) (\<lambda>_.
         and_then (yields (ensureParentHead chain parentHeadHashHex)) (\<lambda>_.
         and_then (yields (for_each (\<lambda>tuple.
             then_call (requireRoleInScope state caller Reader (ck_environmentId tuple)) (\<lambda>_.
               ensureDevicePermission device Reader (Some (ck_environmentId tuple)))) (cp_environments p))) (\<lambda>_.
         and_then (yields (verifyAcceptableEntry api chain entry)) (\<lambda>(canonicalBytes, applied).
         and_then (yields (for_each (ensureCheckpointTupleState api w) (cp_environments p))) (\<lambda>values.
         and_then (yields (ensureAuditHeadAcceptable w (cp_auditHeadHashHex p))) (\<lambda>_.
         and_then (commitAcceptedEntry api chain entry applied canonicalBytes (rw_writeMs w)
             (save_snapshots (entry_seq entry) (st_headHashHex (fst applied)) (zip (cp_environments p) values))) (\<lambda>_.
         and_then (updates (refresh_cache applied)) (\<lambda>_.
         yields (Accepted (head_value applied, None))))))))))))))"

section \<open>Append, snapshot and role\<close>

definition loadChainForMember :: "crypto_api \<Rightarrow> user_id \<Rightarrow> (data_rejection, stored_chain \<times> chain_state) program" where
  "loadChainForMember api caller =
     and_then loadChain (\<lambda>chain.
     if sc_headSeq chain = 0 \<or> sc_headHashHex chain = None then yields (Rejected Not_Initialized)
     else
       and_then (deriveStoredState api chain) (\<lambda>(state, _).
       yields (if map_has (st_members state) caller then Accepted (chain, state) else Rejected Not_Member)))"

definition device_count :: "chain_state \<Rightarrow> user_id \<Rightarrow> nat" where
  "device_count state user =
     (case map_of (st_members state) user of None \<Rightarrow> 0 | Some member \<Rightarrow> length (devices member))"

definition append_policies :: "chain_entry \<Rightarrow> chain_state \<Rightarrow> user_id \<Rightarrow> request_world \<Rightarrow> (data_rejection, unit) outcome" where
  "append_policies entry state caller w =
     then_call (if growsAccessSet entry state then ensureStorageAdmitsGrowth w else Accepted ()) (\<lambda>_.
     then_call (case entry_operation entry of
         Propose p \<Rightarrow> ensureProposalAdmitted (pr_expiresAtMs p) (st_pendingProposals state) (rw_nowMs w)
       | _ \<Rightarrow> Accepted ()) (\<lambda>_.
     case entry_operation entry of
       Direct (Add_Device _) \<Rightarrow>
         if MAX_DEVICES_PER_MEMBER \<le> device_count state caller then Rejected Device_Limit else Accepted ()
     | _ \<Rightarrow> Accepted ()))"

definition append_entry ::
  "crypto_api \<Rightarrow> ustr \<Rightarrow> chain_entry \<Rightarrow> user_id \<Rightarrow> request_world \<Rightarrow>
   (data_rejection, chain_head_value \<times> applied_proposal option) program" where
  "append_entry api parentHeadHashHex entry caller w =
     and_then (loadChainForMember api caller) (\<lambda>(chain, state).
     and_then (yields (append_policies entry state caller w)) (\<lambda>_.
     and_then (yields (ensureParentHead chain parentHeadHashHex)) (\<lambda>_.
     and_then (yields (verifyAcceptableEntry api chain entry)) (\<lambda>(canonicalBytes, applied).
     and_then (commitAcceptedEntry api chain entry applied canonicalBytes (rw_writeMs w) (\<lambda>st. st)) (\<lambda>proposal.
     and_then (updates (refresh_cache applied)) (\<lambda>_.
     yields (Accepted (head_value applied, proposal))))))))"

definition appendProgram ::
  "crypto_api \<Rightarrow> ustr \<Rightarrow> chain_entry \<Rightarrow> user_id \<Rightarrow> request_world \<Rightarrow>
   (data_rejection, chain_head_value \<times> applied_proposal option) program" where
  "appendProgram api parentHeadHashHex entry caller w =
     (case entry_operation entry of
        Direct (Create_Environment _) \<Rightarrow> yields (Rejected (Composite_Required (lit ''create_environment'')))
      | Direct (Rotate_Epoch _) \<Rightarrow> yields (Rejected (Composite_Required (lit ''rotate_epoch'')))
      | Direct (Delete_Environment _) \<Rightarrow> yields (Rejected (Composite_Required (lit ''delete_environment'')))
      | Direct (Checkpoint p) \<Rightarrow> standaloneCheckpointProgram api parentHeadHashHex entry p caller w
      | _ \<Rightarrow> append_entry api parentHeadHashHex entry caller w)"

record chain_snapshot_value =
  cs_entries :: "chain_entry list"
  cs_headSeq :: int
  cs_headHashHex :: ustr
  cs_attestations :: "stored_head_attestation list"

definition by_attester :: "stored_head_attestation \<Rightarrow> stored_head_attestation \<Rightarrow> int" where
  "by_attester a b =
     (let byUser = compareUtf8Bytes (sh_attesterUserId a) (sh_attesterUserId b) in
      if byUser = 0
      then compareUtf8Bytes (sh_attesterKeyFingerprintHex a) (sh_attesterKeyFingerprintHex b) else byUser)"

definition listHeadAttestations :: "project_do \<Rightarrow> stored_head_attestation list" where
  "listHeadAttestations st = toSorted by_attester (map snd (do_attestations st))"

definition attested_by_current_device :: "chain_state \<Rightarrow> stored_head_attestation \<Rightarrow> bool" where
  "attested_by_current_device state a =
     (case map_of (st_members state) (sh_attesterUserId a) of
        None \<Rightarrow> False
      | Some member \<Rightarrow> map_has (devices member) (sh_attesterKeyFingerprintHex a))"

definition snapshotProgram :: "crypto_api \<Rightarrow> user_id \<Rightarrow> (data_rejection, chain_snapshot_value) program" where
  "snapshotProgram api caller =
     and_then (loadChainForMember api caller) (\<lambda>(chain, state) st.
       (Accepted \<lparr>cs_entries = sc_entries chain, cs_headSeq = sc_headSeq chain,
                  cs_headHashHex = (case sc_headHashHex chain of None \<Rightarrow> [] | Some head \<Rightarrow> head),
                  cs_attestations = filter (attested_by_current_device state) (listHeadAttestations st)\<rparr>, st))"

definition memberRoleProgram :: "crypto_api \<Rightarrow> user_id \<Rightarrow> (data_rejection, role) program" where
  "memberRoleProgram api caller =
     and_then (requireMemberState api caller Reader) (\<lambda>context.
     yields (Accepted (mem_role (mc_member context))))"

section \<open>Head attestations\<close>

definition ATTESTATION_WINDOW_MS :: int where "ATTESTATION_WINDOW_MS = 60 * 60 * 1000"

definition MAX_ATTESTATIONS_PER_MEMBER_PER_WINDOW :: int where "MAX_ATTESTATIONS_PER_MEMBER_PER_WINDOW = 60"

text \<open>The live window of a member: the attestations counted in it and the time elapsed.\<close>

definition attestationWindowRow :: "project_do \<Rightarrow> user_id \<Rightarrow> int \<Rightarrow> (int \<times> int) option" where
  "attestationWindowRow st user nowMs =
     (case map_of (do_windows st) user of
        None \<Rightarrow> None
      | Some (start, n) \<Rightarrow>
          let elapsed = nowMs - start in
          if ATTESTATION_WINDOW_MS \<le> elapsed \<or> elapsed < 0 then None else Some (n, elapsed))"

definition checkAttestationWindow :: "user_id \<Rightarrow> int \<Rightarrow> (data_rejection, unit) program" where
  "checkAttestationWindow user nowMs st =
     (case attestationWindowRow st user nowMs of
        None \<Rightarrow> (Accepted (), st)
      | Some (n, elapsed) \<Rightarrow>
          if n < MAX_ATTESTATIONS_PER_MEMBER_PER_WINDOW then (Accepted (), st)
          else (Rejected (Attestation_Rate_Limited ((ATTESTATION_WINDOW_MS - elapsed + 999) div 1000)), st))"

definition recordAttestationWindowUse :: "user_id \<Rightarrow> int \<Rightarrow> project_do \<Rightarrow> project_do" where
  "recordAttestationWindowUse user nowMs st =
     st\<lparr>do_windows :=
        (case (attestationWindowRow st user nowMs, map_of (do_windows st) user) of
           (Some _, Some (start, n)) \<Rightarrow> AList.update user (start, n + 1) (do_windows st)
         | _ \<Rightarrow> AList.update user (nowMs, 1) (do_windows st))\<rparr>"

record head_attestation_submission =
  hs_suite :: ustr
  hs_chainHeadHashHex :: ustr
  hs_chainHeadSeq :: int
  hs_signatureHex :: ustr

definition ATTESTATION_REJECT_REASONS :: "attestation_invalid_reason \<Rightarrow> attestation_reject_reason" where
  "ATTESTATION_REJECT_REASONS reason =
     (case reason of
        Attestation_Signature_Invalid \<Rightarrow> Reject_Signature_Invalid
      | Attestation_Head_Mismatch \<Rightarrow> Reject_Head_Unknown
      | Attestation_Head_Future \<Rightarrow> Reject_Head_Unknown
      | Attester_Unknown \<Rightarrow> Reject_Head_State_Mismatch
      | Attester_Not_Member_At_Head \<Rightarrow> Reject_Head_State_Mismatch
      | Attester_Key_Mismatch_At_Head \<Rightarrow> Reject_Head_State_Mismatch)"

text \<open>What a client verifies of an attestation that a snapshot of the project distributes.\<close>

definition attestation_input ::
  "chain_history_builder \<Rightarrow> ustr \<Rightarrow> stored_head_attestation \<Rightarrow> distributed_attestation_input" where
  "attestation_input history projectId a =
     \<lparr>dai_history = history,
      dai_context = \<lparr>att_suite = sh_suite a, att_projectId = projectId, att_attesterUserId = sh_attesterUserId a,
                     att_chainHeadHashHex = sh_chainHeadHashHex a, att_chainHeadSeq = sh_chainHeadSeq a\<rparr>,
      dai_attesterKeyFingerprintHex = sh_attesterKeyFingerprintHex a, dai_signatureHex = sh_signatureHex a\<rparr>"

definition submitted :: "head_attestation_submission \<Rightarrow> member_with_device \<Rightarrow> stored_head_attestation" where
  "submitted input device =
     \<lparr>sh_attesterUserId = mem_userId (mw_member device), sh_suite = hs_suite input,
      sh_chainHeadSeq = hs_chainHeadSeq input, sh_chainHeadHashHex = hs_chainHeadHashHex input,
      sh_signatureHex = hs_signatureHex input,
      sh_attesterKeyFingerprintHex = keyFingerprintHex (mw_device device)\<rparr>"

definition attempt_attestation ::
  "crypto_api \<Rightarrow> signing_api \<Rightarrow> member_context \<Rightarrow> head_attestation_submission \<Rightarrow> member_with_device \<Rightarrow>
   (data_rejection, ustr) outcome" where
  "attempt_attestation api keys context input candidate =
     (case verifyDistributedHeadAttestation api keys
             (attestation_input (mc_history context) (mc_projectId context) (submitted input candidate)) of
        Accepted hash \<Rightarrow> Accepted hash
      | Rejected (Head_Attestation_Invalid reason) \<Rightarrow>
          Rejected (Attestation_Rejected (ATTESTATION_REJECT_REASONS reason))
      | _ \<Rightarrow> Threw)"

definition upsertHeadAttestation :: "stored_head_attestation \<Rightarrow> project_do \<Rightarrow> project_do" where
  "upsertHeadAttestation a st =
     st\<lparr>do_attestations :=
        AList.update (sh_attesterUserId a, sh_attesterKeyFingerprintHex a) a (do_attestations st)\<rparr>"

text \<open>A regression is rejected, the stored number again is no change, a later one replaces the row.\<close>

definition advance_attestation :: "user_id \<Rightarrow> stored_head_attestation \<Rightarrow> (data_rejection, unit) program" where
  "advance_attestation caller a st =
     (case map_of (do_attestations st) (caller, sh_attesterKeyFingerprintHex a) of
        None \<Rightarrow> (Accepted (), upsertHeadAttestation a st)
      | Some stored \<Rightarrow>
          if sh_chainHeadSeq a < sh_chainHeadSeq stored
          then (Rejected (Attestation_Regression (sh_chainHeadSeq stored)), st)
          else if sh_chainHeadSeq a = sh_chainHeadSeq stored then (Accepted (), st)
          else (Accepted (), upsertHeadAttestation a st))"

definition putHeadAttestationProgram ::
  "crypto_api \<Rightarrow> signing_api \<Rightarrow> user_id \<Rightarrow> head_attestation_submission \<Rightarrow> request_world \<Rightarrow>
   (data_rejection, unit) program" where
  "putHeadAttestationProgram api keys caller input w =
     and_then (requireMemberState api caller Reader) (\<lambda>context.
     and_then (checkAttestationWindow caller (rw_nowMs w)) (\<lambda>_.
     and_then (updates (recordAttestationWindowUse caller (rw_nowMs w))) (\<lambda>_.
     and_then (yields (withSigningDevice (mc_member context) (attempt_attestation api keys context input))) (\<lambda>(attester, _).
     advance_attestation caller (submitted input attester)))))"

section \<open>The entry points of the object\<close>

text \<open>
  One request runs at a time. A defect drops the caches and is raised again, with the tables as the
  program had left them; a rejection keeps what the program had done before it, which is loading into the
  caches and counting an attestation.
\<close>

definition invalidateCachesOnDefect :: "('e, 'a) program \<Rightarrow> ('e, 'a) program" where
  "invalidateCachesOnDefect p st =
     (case p st of (Threw, st') \<Rightarrow> (Threw, st'\<lparr>do_cache := NO_CACHE\<rparr>) | answer \<Rightarrow> answer)"

definition runData :: "(data_rejection, 'a) program \<Rightarrow> (data_rejection, 'a) program" where
  "runData p st =
     (if \<not> projectDoInitialized st then (Rejected Not_Initialized, st) else invalidateCachesOnDefect p st)"

definition ensureWritable :: "(data_rejection, unit) program" where
  "ensureWritable st = (if do_mirrorMark st then (Rejected Mirror_Read_Only, st) else (Accepted (), st))"

definition runWrite :: "crypto_api \<Rightarrow> user_id \<Rightarrow> (data_rejection, 'a) program \<Rightarrow> (data_rejection, 'a) program" where
  "runWrite api caller p =
     runData (and_then (requireMemberState api caller Reader) (\<lambda>_. and_then ensureWritable (\<lambda>_. p)))"

definition request_init ::
  "crypto_api \<Rightarrow> ustr \<Rightarrow> chain_entry \<Rightarrow> bool \<Rightarrow> request_world \<Rightarrow> (data_rejection, chain_head_value) program" where
  "request_init api expectedProjectId entry admitFresh w =
     invalidateCachesOnDefect (initProgram api expectedProjectId entry admitFresh w)"

definition request_append ::
  "crypto_api \<Rightarrow> ustr \<Rightarrow> chain_entry \<Rightarrow> user_id \<Rightarrow> request_world \<Rightarrow>
   (data_rejection, chain_head_value \<times> applied_proposal option) program" where
  "request_append api parentHeadHashHex entry caller w =
     runWrite api caller (appendProgram api parentHeadHashHex entry caller w)"

definition request_snapshot :: "crypto_api \<Rightarrow> user_id \<Rightarrow> (data_rejection, chain_snapshot_value) program" where
  "request_snapshot api caller = runData (snapshotProgram api caller)"

definition request_attestation ::
  "crypto_api \<Rightarrow> signing_api \<Rightarrow> user_id \<Rightarrow> head_attestation_submission \<Rightarrow> request_world \<Rightarrow>
   (data_rejection, unit) program" where
  "request_attestation api keys caller input w =
     runWrite api caller (putHeadAttestationProgram api keys caller input w)"

definition request_role :: "crypto_api \<Rightarrow> user_id \<Rightarrow> (data_rejection, role) program" where
  "request_role api caller = runData (memberRoleProgram api caller)"

end
