(* ===== verification/Chain_Object.thy ===== *)
theory Chain_Object
  imports Chain_Programs Mirror_Check_Guarantees
begin

text \<open>
  What the object's storage and caches hold in every state it can be in: a verified chain with the
  numbers, hashes and sizes of its rows, caches that agree with the storage, and the mirror of the whole
  chain. Programs are judged by what they guarantee of the states they leave, for each outcome.
\<close>

section \<open>Judgements on programs\<close>

definition ensures ::
  "(project_do \<Rightarrow> bool) \<Rightarrow> ('e, 'a) program \<Rightarrow> ('a \<Rightarrow> project_do \<Rightarrow> bool) \<Rightarrow> (project_do \<Rightarrow> bool) \<Rightarrow> bool" where
  "ensures P p Q R \<longleftrightarrow>
     (\<forall>st. P st \<longrightarrow> (\<forall>a st'. p st = (Accepted a, st') \<longrightarrow> Q a st') \<and> (\<forall>e st'. p st = (Rejected e, st') \<longrightarrow> R st'))"

lemma ensuresI:
  "(\<And>st a st'. P st \<Longrightarrow> p st = (Accepted a, st') \<Longrightarrow> Q a st') \<Longrightarrow>
   (\<And>st e st'. P st \<Longrightarrow> p st = (Rejected e, st') \<Longrightarrow> R st') \<Longrightarrow> ensures P p Q R"
  unfolding ensures_def by blast

lemma ensuresD:
  "ensures P p Q R \<Longrightarrow> P st \<Longrightarrow> p st = (Accepted a, st') \<Longrightarrow> Q a st'"
  "ensures P p Q R \<Longrightarrow> P st \<Longrightarrow> p st = (Rejected e, st') \<Longrightarrow> R st'"
  unfolding ensures_def by blast+

lemma ensures_and_then:
  assumes "ensures P p Q R" and "\<And>a. ensures (Q a) (f a) Q' R"
  shows "ensures P (and_then p f) Q' R"
proof (rule ensuresI)
  fix st b st' assume "P st" "and_then p f st = (Accepted b, st')"
  then obtain a u where "p st = (Accepted a, u)" "f a u = (Accepted b, st')" by (auto simp: and_then_Accepted)
  with ensuresD(1) [OF assms(1) \<open>P st\<close>] ensuresD(1) [OF assms(2)] show "Q' b st'" by blast
next
  fix st e st' assume "P st" "and_then p f st = (Rejected e, st')"
  then consider "p st = (Rejected e, st')" | a u where "p st = (Accepted a, u)" "f a u = (Rejected e, st')"
    by (auto simp: and_then_Rejected)
  then show "R st'"
    using ensuresD [OF assms(1) \<open>P st\<close>] ensuresD(2) [OF assms(2)] by cases blast+
qed

lemma ensures_yields:
  "(\<And>st a. P st \<Longrightarrow> r = Accepted a \<Longrightarrow> Q a st) \<Longrightarrow> (\<And>st e. P st \<Longrightarrow> r = Rejected e \<Longrightarrow> R st) \<Longrightarrow> ensures P (yields r) Q R"
  by (rule ensuresI) auto

lemma ensures_updates: "(\<And>st. P st \<Longrightarrow> Q () (f st)) \<Longrightarrow> ensures P (updates f) Q R"
  by (rule ensuresI) auto

lemma ensures_weaken:
  "ensures P p Q R \<Longrightarrow> (\<And>st. P' st \<Longrightarrow> P st) \<Longrightarrow> (\<And>a st. Q a st \<Longrightarrow> Q' a st) \<Longrightarrow> (\<And>st. R st \<Longrightarrow> R' st) \<Longrightarrow>
   ensures P' p Q' R'"
  unfolding ensures_def by blast

lemma ensures_fact: "(\<And>st. P st \<Longrightarrow> F) \<Longrightarrow> (F \<Longrightarrow> ensures P p Q R) \<Longrightarrow> ensures P p Q R"
  unfolding ensures_def by blast

section \<open>The verified view of a chain\<close>

definition view_of :: "verifier \<Rightarrow> verified_view" where
  "view_of v = (at_head v, case v_history v of None \<Rightarrow> empty_history | Some h \<Rightarrow> h)"

abbreviation chain_reached :: "crypto_api \<Rightarrow> chain_entry list \<Rightarrow> verifier \<Rightarrow> bool" where
  "chain_reached api \<equiv> reached api (Some empty_history)"

lemma reached_history:
  "chain_reached api es v \<Longrightarrow> \<exists>h. v_history v = Some h \<and> history_agrees v h es"
proof (induction rule: reached.induct)
  case reached_start
  then show ?case using start_agrees by (auto simp: start_verifier_def)
next
  case (reached_next es v entry ev v')
  then obtain h where "v_history v = Some h" "history_agrees v h es" by blast
  from step_agrees [OF reached_ok [OF reached_next.hyps(1)] reached_next.hyps(2) this] show ?case by blast
qed

lemma effect_reached:
  "verifyChainEffect api es = Accepted view \<longleftrightarrow> es \<noteq> [] \<and> (\<exists>v. chain_reached api es v \<and> view = view_of v)"
proof
  assume effect: "verifyChainEffect api es = Accepted view"
  then have ne: "es \<noteq> []"
    by (auto simp: verifyChainEffect_def verifyChainWithHistory_def verifyChainCore_def fail_def)
  with effect obtain v h where run: "run_loop (verify_step api) (start_verifier (Some empty_history)) (map write_entry es) = Accepted v"
    and h: "v_history v = Some h"
    and view: "view = (sealChainState (v_state v) (int (length es)) (v_prevHash v), h)"
    by (auto simp: verifyChainEffect_def verifyChainWithHistory_def verifyChainCore_def split: option.splits)
  from run_reached [OF run] obtain es' where "map read_entry (map write_entry es) = map Some es'" and reach: "chain_reached api es' v"
    by blast
  then have "es' = es" by (auto simp: read_write_entry comp_def dest: map_injective simp: inj_def)
  with reach have "chain_reached api es v" by simp
  moreover from reached_seq [OF this] view h have "view = view_of v" by (simp add: view_of_def at_head_def)
  ultimately show "es \<noteq> [] \<and> (\<exists>v. chain_reached api es v \<and> view = view_of v)" using ne by blast
next
  assume "es \<noteq> [] \<and> (\<exists>v. chain_reached api es v \<and> view = view_of v)"
  then obtain v where ne: "es \<noteq> []" and reach: "chain_reached api es v" and view: "view = view_of v" by blast
  from run_write_chain [OF reach] ne reached_history [OF reach] reached_seq [OF reach] view
  show "verifyChainEffect api es = Accepted view"
    by (auto simp: verifyChainEffect_def verifyChainWithHistory_def verifyChainCore_def view_of_def at_head_def)
qed

lemma view_head:
  assumes "chain_reached api es v"
  shows "st_headHashHex (fst (view_of v)) = v_prevHash v" and "st_headSeq (fst (view_of v)) = int (length es)"
    and "st_members (fst (view_of v)) = members (v_state v)"
    and "st_pendingProposals (fst (view_of v)) = pendingProposals (v_state v)"
  using at_head_fields [OF reached_ok [OF assms]] reached_seq [OF assms] by (simp_all add: view_of_def)

section \<open>The stored chain\<close>

definition rows_of :: "project_do \<Rightarrow> stored_row list" where
  "rows_of st = (case do_rows st of None \<Rightarrow> [] | Some rows \<Rightarrow> rows)"

definition total_bytes :: "project_do \<Rightarrow> int" where
  "total_bytes st = sum_list (map sr_canonicalBytes (rows_of st))"

definition row_holds :: "crypto_api \<Rightarrow> stored_row \<Rightarrow> bool" where
  "row_holds api row \<longleftrightarrow>
     sr_seq row = entry_seq (sr_entry row) \<and> entry_hash api (sr_entry row) = Some (sr_entryHashHex row) \<and>
     (\<exists>b. canonicalChainEntryBytes (sr_entry row) = Some b \<and> sr_canonicalBytes row = int (length b)) \<and>
     sr_canonicalBytes row \<le> MAX_ENTRY_CANONICAL_BYTES"

text \<open>What a load of the whole chain answers.\<close>

definition chain_value :: "ustr \<Rightarrow> project_do \<Rightarrow> chain_entry list \<Rightarrow> verifier \<Rightarrow> stored_chain" where
  "chain_value projectId st es v =
     \<lparr>sc_entries = es, sc_headSeq = int (length es),
      sc_headHashHex = (if es = [] then None else Some (v_prevHash v)),
      sc_genesisHashHex = (if es = [] then None else Some projectId),
      sc_totalCanonicalBytes = total_bytes st\<rparr>"

definition holds :: "crypto_api \<Rightarrow> ustr \<Rightarrow> project_do \<Rightarrow> chain_entry list \<Rightarrow> verifier \<Rightarrow> bool" where
  "holds api projectId st es v \<longleftrightarrow>
     chain_reached api es v \<and> map sr_entry (rows_of st) = es \<and> list_all (row_holds api) (rows_of st) \<and>
     int (length es) \<le> MAX_CHAIN_ENTRIES \<and> total_bytes st \<le> MAX_CHAIN_TOTAL_CANONICAL_BYTES \<and>
     (es \<noteq> [] \<longrightarrow> entry_hash api (hd es) = Some projectId) \<and>
     (case cache_chain (do_cache st) of
        None \<Rightarrow> True | Some chain \<Rightarrow> do_rows st \<noteq> None \<and> chain = chain_value projectId st es v)"

definition view_cached :: "project_do \<Rightarrow> chain_entry list \<Rightarrow> verifier \<Rightarrow> bool" where
  "view_cached st es v \<longleftrightarrow>
     (case cache_current (do_cache st) of
        None \<Rightarrow> True | Some cached \<Rightarrow> es \<noteq> [] \<and> cached = (v_prevHash v, view_of v))"

lemma holds_seqs:
  assumes "holds api projectId st es v"
  shows "map sr_seq (rows_of st) = map (\<lambda>i. int (Suc i)) [0..<length (rows_of st)]"
proof (rule nth_equalityI)
  fix i assume i: "i < length (map sr_seq (rows_of st))"
  have reach: "chain_reached api es v" and es: "es = map sr_entry (rows_of st)" and rows: "list_all (row_holds api) (rows_of st)"
    using assms by (simp_all add: holds_def)
  from i es have "i < length es" by simp
  with reached_prefix [OF reach] obtain u ev v' where u: "chain_reached api (take i es) u" "accepts api u (es ! i) ev v'" by blast
  from accepts_seq [OF u(2)] reached_seq [OF u(1)] \<open>i < length es\<close> have "entry_seq (es ! i) = int (Suc i)" by simp
  with rows i es show "map sr_seq (rows_of st) ! i = map (\<lambda>i. int (Suc i)) [0..<length (rows_of st)] ! i"
    by (simp add: list_all_length row_holds_def)
qed simp

lemma merged_rows:
  assumes "holds api projectId st es v"
  shows "mergeLoadedDiff EMPTY_CHAIN (rows_of st) = chain_value projectId st es v"
proof (cases "rows_of st = []")
  case True
  with assms show ?thesis
    by (auto simp: holds_def mergeLoadedDiff_def EMPTY_CHAIN_def chain_value_def total_bytes_def)
next
  case False
  have reach: "chain_reached api es v" and es: "es = map sr_entry (rows_of st)" and rows: "list_all (row_holds api) (rows_of st)"
    using assms by (simp_all add: holds_def)
  from False es have ne: "es \<noteq> []" by simp
  have "sr_seq (last (rows_of st)) = int (length es)"
  proof -
    have "sr_seq (last (rows_of st)) = last (map sr_seq (rows_of st))" using False by (simp add: last_map)
    also have "\<dots> = int (length (rows_of st))"
      unfolding holds_seqs [OF assms] using False by (cases "rows_of st") simp_all
    finally show ?thesis using es by simp
  qed
  moreover have "sr_entryHashHex (last (rows_of st)) = v_prevHash v"
  proof -
    have "row_holds api (last (rows_of st))" using rows False by (simp add: list_all_iff)
    moreover have "last es = sr_entry (last (rows_of st))" using es False by (simp add: last_map)
    moreover have "entry_hash api (last es) = Some (v_prevHash v)" using reached_head_hash [OF reach] ne by blast
    ultimately show ?thesis by (simp add: row_holds_def)
  qed
  moreover have "sr_entryHashHex (hd (rows_of st)) = projectId"
  proof -
    have "row_holds api (hd (rows_of st))" using rows False by (simp add: list_all_iff)
    moreover have "hd es = sr_entry (hd (rows_of st))" using es False by (simp add: list.map_sel(1))
    moreover have "entry_hash api (hd es) = Some projectId" using assms ne by (simp add: holds_def)
    ultimately show ?thesis by (simp add: row_holds_def)
  qed
  ultimately show ?thesis
    using False es ne by (simp add: mergeLoadedDiff_def EMPTY_CHAIN_def chain_value_def total_bytes_def)
qed

lemma loaded_after:
  assumes "holds api projectId st es v"
  shows "loadRowsAfter (rows_of st) 0 = rows_of st" and "loadRowsAfter (rows_of st) (int (length es)) = []"
proof -
  note seqs = holds_seqs [OF assms]
  have len: "length (rows_of st) = length es" using assms by (auto simp: holds_def)
  have mem: "1 \<le> sr_seq r \<and> sr_seq r \<le> int (length es)" if "r \<in> set (rows_of st)" for r
  proof -
    from that have "sr_seq r \<in> set (map sr_seq (rows_of st))" by simp
    then show ?thesis unfolding seqs using len by auto
  qed
  then have "filter (\<lambda>row. 0 < sr_seq row) (rows_of st) = rows_of st"
    by (intro filter_True) force
  moreover have "sorted (map sr_seq (rows_of st))"
    unfolding seqs by (simp add: sorted_iff_nth_mono)
  ultimately show "loadRowsAfter (rows_of st) 0 = rows_of st"
    by (simp add: loadRowsAfter_def sorted_sort_id sort_key_id_if_sorted)
  from mem show "loadRowsAfter (rows_of st) (int (length es)) = []"
    by (auto simp: loadRowsAfter_def filter_empty_conv not_less)
qed

section \<open>Loading and deriving\<close>

text \<open>The tables of the object, without its caches.\<close>

definition stored :: "project_do \<Rightarrow> project_storage" where
  "stored st = project_storage.truncate st"

lemma stored_cache [simp]: "stored (st\<lparr>do_cache := c\<rparr>) = stored st"
  by (simp add: stored_def project_storage.truncate_def)

lemma stored_eqD:
  assumes "stored st' = stored st"
  shows "do_rows st' = do_rows st" "do_audit st' = do_audit st" "do_attestations st' = do_attestations st"
    "do_windows st' = do_windows st" "do_wraps st' = do_wraps st" "do_snapshots st' = do_snapshots st"
    "do_mirrorMark st' = do_mirrorMark st" "rows_of st' = rows_of st" "total_bytes st' = total_bytes st"
  using assms by (simp_all add: stored_def project_storage.truncate_def rows_of_def total_bytes_def)

definition sound :: "crypto_api \<Rightarrow> ustr \<Rightarrow> project_do \<Rightarrow> chain_entry list \<Rightarrow> verifier \<Rightarrow> bool" where
  "sound api projectId st es v \<longleftrightarrow> holds api projectId st es v \<and> view_cached st es v"

lemma holds_cong:
  "do_rows st' = do_rows st \<Longrightarrow> cache_chain (do_cache st') = cache_chain (do_cache st) \<Longrightarrow>
   holds api projectId st' es v = holds api projectId st es v"
  by (cases "cache_chain (do_cache st)") (simp_all add: holds_def rows_of_def total_bytes_def chain_value_def)

lemma chain_value_stored: "stored st' = stored st \<Longrightarrow> chain_value projectId st' es v = chain_value projectId st es v"
  using stored_eqD(9) [of st' st] by (simp add: chain_value_def)

lemma loadChain_sound:
  assumes sound: "sound api projectId st es v" and load: "loadChain st = (r, st')"
  shows "r = Accepted (chain_value projectId st es v) \<and> sound api projectId st' es v \<and> stored st' = stored st"
proof -
  have holds: "holds api projectId st es v" using sound by (simp add: sound_def)
  have len: "length (rows_of st) = length es" using holds by (auto simp: holds_def)
  show ?thesis
  proof (cases "cache_chain (do_cache st)")
    case (Some chain)
    with holds have chain: "chain = chain_value projectId st es v" "do_rows st \<noteq> None" by (simp_all add: holds_def)
    then obtain rows where rows: "do_rows st = Some rows" by blast
    then have "loadRowsAfter rows (sc_headSeq chain) = []"
      using loaded_after(2) [OF holds] chain by (simp add: rows_of_def chain_value_def)
    with load Some rows chain sound show ?thesis by (auto simp: loadChain_def Let_def)
  next
    case None
    show ?thesis
    proof (cases "do_rows st")
      case None': None
      then have "rows_of st = []" by (simp add: rows_of_def)
      moreover from this len have "es = []" by simp
      ultimately have "chain_value projectId st es v = EMPTY_CHAIN"
        by (simp add: chain_value_def EMPTY_CHAIN_def total_bytes_def)
      with load None None' sound show ?thesis by (auto simp: loadChain_def projectDoInitialized_def)
    next
      case (Some rows)
      then have "rows_of st = rows" by (simp add: rows_of_def)
      then have "mergeLoadedDiff EMPTY_CHAIN (loadRowsAfter rows (sc_headSeq EMPTY_CHAIN)) = chain_value projectId st es v"
        using merged_rows [OF holds] loaded_after(1) [OF holds] by (simp add: EMPTY_CHAIN_def)
      with load None Some have r: "r = Accepted (chain_value projectId st es v)"
        and st': "st' = st\<lparr>do_cache := (do_cache st)\<lparr>cache_chain := Some (chain_value projectId st es v)\<rparr>\<rparr>"
        by (simp_all add: loadChain_def projectDoInitialized_def Let_def)
      have same: "stored st' = stored st" by (simp add: st')
      have "holds api projectId st' es v"
        using holds Some stored_eqD [OF same] chain_value_stored [OF same] by (simp add: holds_def st')
      with sound r same show ?thesis by (simp add: sound_def view_cached_def st')
    qed
  qed
qed

lemma refresh_sound:
  assumes "sound api projectId st es v" and "es \<noteq> []"
  shows "sound api projectId (refresh_cache (view_of v) st) es v" and "stored (refresh_cache (view_of v) st) = stored st"
proof -
  show same: "stored (refresh_cache (view_of v) st) = stored st" by (simp add: refresh_cache_def)
  have reach: "chain_reached api es v" using assms(1) by (simp add: sound_def holds_def)
  have "cache_chain (do_cache (refresh_cache (view_of v) st)) = cache_chain (do_cache st)"
    by (simp add: refresh_cache_def updateStateCache_def Let_def split: option.split prod.split)
  then have "holds api projectId (refresh_cache (view_of v) st) es v"
    using assms(1) holds_cong [OF stored_eqD(1) [OF same]] by (simp add: sound_def)
  moreover have "view_cached (refresh_cache (view_of v) st) es v"
    using assms view_head [OF reach]
    by (auto simp: sound_def view_cached_def refresh_cache_def updateStateCache_def Let_def split: option.splits)
  ultimately show "sound api projectId (refresh_cache (view_of v) st) es v" by (simp add: sound_def)
qed

lemma deriveStoredState_sound:
  assumes sound: "sound api projectId st es v" and ne: "es \<noteq> []"
    and derive: "deriveStoredState api (chain_value projectId st es v) st = (r, st')"
  shows "r = Accepted (view_of v) \<and> sound api projectId st' es v \<and> stored st' = stored st"
proof -
  have reach: "chain_reached api es v" using sound by (simp add: sound_def holds_def)
  with ne have effect: "verifyChainEffect api es = Accepted (view_of v)" by (auto simp: effect_reached)
  show ?thesis
  proof (cases "cache_current (do_cache st)")
    case None
    with derive effect refresh_sound [OF sound ne] show ?thesis
      by (auto simp: deriveStoredState_def derive_fresh_def chain_value_def)
  next
    case (Some cached)
    with sound have "cached = (v_prevHash v, view_of v)" by (simp add: sound_def view_cached_def)
    with derive Some ne sound show ?thesis by (auto simp: deriveStoredState_def chain_value_def)
  qed
qed

section \<open>Inserting an accepted entry\<close>

definition chain_rows :: "audit_row list \<Rightarrow> audit_event_record list" where
  "chain_rows rows = List.map_filter (\<lambda>row. case row of Chain_Row r \<Rightarrow> Some r | Data_Row _ \<Rightarrow> None) rows"

lemma chain_rows_simps [simp]:
  "chain_rows [] = []" "chain_rows (xs @ ys) = chain_rows xs @ chain_rows ys"
  "chain_rows (map Chain_Row rs) = rs" "chain_rows (map (\<lambda>(x, y). Data_Row (f x y)) zs) = []"
  "chain_rows (Data_Row d # xs) = chain_rows xs"
proof -
  show "chain_rows (map Chain_Row rs) = rs" by (induction rs) (simp_all add: chain_rows_def List.map_filter_simps)
  show "chain_rows (map (\<lambda>(x, y). Data_Row (f x y)) zs) = []" by (induction zs) (auto simp: chain_rows_def List.map_filter_simps)
qed (simp_all add: chain_rows_def List.map_filter_simps map_filter_def)

text \<open>The attestation rows an operation deletes.\<close>

fun revokes :: "chain_operation \<Rightarrow> user_id \<Rightarrow> fingerprint \<Rightarrow> bool" where
  "revokes (Direct (Remove_Member target)) user fp = (user = target)"
| "revokes (Direct (Revoke_Device p)) user fp = (user = rd_targetUserId p \<and> fp \<in> set (rd_deviceFingerprintsHex p))"
| "revokes _ user fp = False"

lemma deleted_attestations:
  "do_attestations (fold (deleteDeviceHeadAttestation user) fps st) =
     filter (\<lambda>((u, fp), _). \<not> (u = user \<and> fp \<in> set fps)) (do_attestations st)"
proof (induction fps arbitrary: st)
  case (Cons fp fps)
  have "do_attestations (deleteDeviceHeadAttestation user fp st) = filter (\<lambda>((u, f), _). \<not> (u = user \<and> f = fp)) (do_attestations st)"
    by (simp add: deleteDeviceHeadAttestation_def AList.delete_eq) (rule filter_cong, auto)
  then show ?case by (simp add: Cons case_prod_beta conj_commute) (rule filter_cong, auto)
qed (simp add: case_prod_beta)

lemma deleted_frame:
  "do_rows (fold (deleteDeviceHeadAttestation user) fps st) = do_rows st"
  "do_cache (fold (deleteDeviceHeadAttestation user) fps st) = do_cache st"
  "do_audit (fold (deleteDeviceHeadAttestation user) fps st) = do_audit st"
  "do_mirrorMark (fold (deleteDeviceHeadAttestation user) fps st) = do_mirrorMark st"
  by (induction fps arbitrary: st) (simp_all add: deleteDeviceHeadAttestation_def)

lemma side_effects_frame:
  "do_rows (applyAcceptanceSideEffectsSync operation seq st) = do_rows st"
  "do_cache (applyAcceptanceSideEffectsSync operation seq st) = do_cache st"
  "chain_rows (do_audit (applyAcceptanceSideEffectsSync operation seq st)) = chain_rows (do_audit st)"
  "do_mirrorMark (applyAcceptanceSideEffectsSync operation seq st) = do_mirrorMark st"
  "do_attestations (applyAcceptanceSideEffectsSync operation seq st) =
     filter (\<lambda>((u, fp), _). \<not> revokes operation u fp) (do_attestations st)"
proof -
  have audit: "chain_rows (do_audit (deleteStaleMemberWraps user pub seq st)) = chain_rows (do_audit st)" for user pub seq st
    by (simp add: deleteStaleMemberWraps_def append_audit_def)
  show "do_rows (applyAcceptanceSideEffectsSync operation seq st) = do_rows st"
    by (induction operation seq st rule: applyAcceptanceSideEffectsSync.induct)
      (simp_all add: deleteStaleMemberWraps_def append_audit_def appendDetected_def deleteHeadAttestation_def deleted_frame)
  show "do_cache (applyAcceptanceSideEffectsSync operation seq st) = do_cache st"
    by (induction operation seq st rule: applyAcceptanceSideEffectsSync.induct)
      (simp_all add: deleteStaleMemberWraps_def append_audit_def appendDetected_def deleteHeadAttestation_def deleted_frame)
  show "do_mirrorMark (applyAcceptanceSideEffectsSync operation seq st) = do_mirrorMark st"
    by (induction operation seq st rule: applyAcceptanceSideEffectsSync.induct)
      (simp_all add: deleteStaleMemberWraps_def append_audit_def appendDetected_def deleteHeadAttestation_def deleted_frame)
  show "chain_rows (do_audit (applyAcceptanceSideEffectsSync operation seq st)) = chain_rows (do_audit st)"
    by (induction operation seq st rule: applyAcceptanceSideEffectsSync.induct)
      (simp_all add: audit append_audit_def appendDetected_def deleteHeadAttestation_def deleted_frame)
  show "do_attestations (applyAcceptanceSideEffectsSync operation seq st) =
     filter (\<lambda>((u, fp), _). \<not> revokes operation u fp) (do_attestations st)"
    by (induction operation seq st rule: applyAcceptanceSideEffectsSync.induct)
      (auto simp: deleteStaleMemberWraps_def append_audit_def appendDetected_def deleteHeadAttestation_def
        deleted_attestations intro!: filter_cong)
qed

text \<open>
  The write phase keeps the object's tables in step: an accepted entry is stored with its number, hash
  and size, the mirror grows by the rows of the entry and stays the mirror of the whole chain, and the
  caches follow.
\<close>

section \<open>One row\<close>

definition fits_store :: "project_do \<Rightarrow> chain_entry list \<Rightarrow> chain_entry \<Rightarrow> int \<Rightarrow> bool" where
  "fits_store st es e bytes \<longleftrightarrow>
     (\<exists>b. canonicalChainEntryBytes e = Some b \<and> bytes = int (length b)) \<and> bytes \<le> MAX_ENTRY_CANONICAL_BYTES \<and>
     int (length es) + 1 \<le> MAX_CHAIN_ENTRIES \<and> total_bytes st + bytes \<le> MAX_CHAIN_TOTAL_CANONICAL_BYTES"

lemma insertSync_holds:
  assumes holds: "holds api projectId st es v" and step: "accepts api v e ev v'" and fits: "fits_store st es e bytes"
    and genesis: "es = [] \<Longrightarrow> v_prevHash v' = projectId"
    and insert: "insertSync e (v_prevHash v') bytes st = (Accepted (), st')"
  shows "holds api projectId st' (es @ [e]) v'"
    and "do_audit st' = do_audit st" and "do_attestations st' = do_attestations st"
    and "cache_current (do_cache st') = cache_current (do_cache st)" and "do_mirrorMark st' = do_mirrorMark st"
    and "total_bytes st' = total_bytes st + bytes" and "do_rows st \<noteq> None"
proof -
  let ?row = "\<lparr>sr_seq = entry_seq e, sr_entry = e, sr_entryHashHex = v_prevHash v', sr_canonicalBytes = bytes\<rparr>"
  from insert obtain rows where rows: "do_rows st = Some rows"
    by (auto simp: insertSync_def split: option.splits)
  then show "do_rows st \<noteq> None" by simp
  from insert rows have new: "do_rows st' = Some (rows @ [?row])"
    by (auto simp: insertSync_def split: if_splits)
  then have rows': "rows_of st' = rows_of st @ [?row]" using rows by (simp add: rows_of_def)
  from insert rows show "do_audit st' = do_audit st" "do_attestations st' = do_attestations st"
    "cache_current (do_cache st') = cache_current (do_cache st)" "do_mirrorMark st' = do_mirrorMark st"
    by (auto simp: insertSync_def split: if_splits)
  from rows' show total: "total_bytes st' = total_bytes st + bytes" by (simp add: total_bytes_def)
  have reach: "chain_reached api es v" using holds by (simp add: holds_def)
  then have reach': "chain_reached api (es @ [e]) v'" using step by (rule reached_next)
  have seq: "entry_seq e = int (length es) + 1" using accepts_seq [OF step] reached_seq [OF reach] by simp
  have row: "row_holds api ?row" using accepts_hash(1) [OF step] fits by (auto simp: row_holds_def fits_store_def)
  have cached: "cache_chain (do_cache st') = Some chain \<Longrightarrow> chain = chain_value projectId st' (es @ [e]) v'" for chain
    using insert rows holds seq genesis total
    by (auto simp: insertSync_def holds_def chain_value_def split: if_splits option.splits)
  show "holds api projectId st' (es @ [e]) v'"
    using holds reach' rows' row new cached total fits genesis accepts_hash(1) [OF step]
    by (cases "es = []") (auto simp: holds_def fits_store_def split: option.split)
qed

lemma insert_entry_holds:
  assumes holds: "holds api projectId st es v" and step: "accepts api v e ev v'" and fits: "fits_store st es e bytes"
    and genesis: "es = [] \<Longrightarrow> v_prevHash v' = projectId"
    and insert: "insert_entry e (v_prevHash v') bytes nowMs proposals subject st = (Accepted () :: ('e, unit) outcome, st')"
  obtains rows where "chainMirrorEvents e nowMs proposals subject = Some rows"
    and "chain_rows (do_audit st') = chain_rows (do_audit st) @ rows"
    and "holds api projectId st' (es @ [e]) v'"
    and "do_attestations st' = filter (\<lambda>((u, fp), _). \<not> revokes (entry_operation e) u fp) (do_attestations st)"
    and "cache_current (do_cache st') = cache_current (do_cache st)" and "do_mirrorMark st' = do_mirrorMark st"
    and "total_bytes st' = total_bytes st + bytes"
proof -
  from insert obtain s1 s2 where s1: "insertSync e (v_prevHash v') bytes st = (Accepted () :: ('e, unit) outcome, s1)"
    and s2: "append_mirror e nowMs proposals subject s1 = (Accepted () :: ('e, unit) outcome, s2)"
    and st': "st' = applyAcceptanceSideEffectsSync (entry_operation e) (entry_seq e) s2"
    by (auto simp: insert_entry_def and_then_Accepted)
  note row = insertSync_holds [OF holds step fits genesis s1]
  from s2 obtain rows where rows: "chainMirrorEvents e nowMs proposals subject = Some rows"
    and s2: "s2 = append_audit (map Chain_Row rows) s1"
    by (auto simp: append_mirror_def split: option.splits)
  have frame: "do_rows st' = do_rows s1" "do_cache st' = do_cache s1" "do_mirrorMark st' = do_mirrorMark s1"
    by (simp_all add: st' side_effects_frame s2 append_audit_def)
  then have "total_bytes st' = total_bytes s1" by (simp add: total_bytes_def rows_of_def)
  moreover have "holds api projectId st' (es @ [e]) v'"
    using holds_cong [of st' s1] frame row(1) by simp
  moreover have "chain_rows (do_audit st') = chain_rows (do_audit st) @ rows"
    by (simp add: st' side_effects_frame s2 append_audit_def row)
  moreover have "do_attestations st' = filter (\<lambda>((u, fp), _). \<not> revokes (entry_operation e) u fp) (do_attestations st)"
    by (simp add: st' side_effects_frame s2 append_audit_def row)
  ultimately show ?thesis using that rows frame row by simp
qed

section \<open>The mirror of the whole chain\<close>

definition index_of :: "chain_entry list \<Rightarrow> verifier \<Rightarrow> proposal_index" where
  "index_of es v = proposalIndexOf es (fst (view_of v)) (snd (view_of v))"

definition subject_at :: "crypto_api \<Rightarrow> chain_entry \<Rightarrow> fingerprint option" where
  "subject_at api e = (case (mirrorSubjectOf api e :: (unit, fingerprint option) outcome) of Accepted s \<Rightarrow> s | _ \<Rightarrow> None)"

definition mirror_rows_of :: "crypto_api \<Rightarrow> chain_entry list \<Rightarrow> verifier \<Rightarrow> int list \<Rightarrow> audit_event_record list" where
  "mirror_rows_of api es v clocks =
     concat (map (\<lambda>(e, t). the (chainMirrorEvents e t (index_of es v) (subject_at api e))) (zip es clocks))"

definition mirrors :: "crypto_api \<Rightarrow> project_do \<Rightarrow> chain_entry list \<Rightarrow> verifier \<Rightarrow> bool" where
  "mirrors api st es v \<longleftrightarrow>
     (\<exists>clocks. length clocks = length es \<and> chain_rows (do_audit st) = mirror_rows_of api es v clocks)"

definition distinct_bytes :: "crypto_api \<Rightarrow> chain_entry list \<Rightarrow> bool" where
  "distinct_bytes api es \<longleftrightarrow> collision_free_on (api_sha256 api) (entry_byte_strings es)"

lemma distinct_bytes_prefix: "distinct_bytes api (es @ ds) \<Longrightarrow> distinct_bytes api es"
  unfolding distinct_bytes_def collision_free_on_def entry_byte_strings_def by auto

lemma settled_index:
  assumes reach: "chain_reached api es v" and reach': "chain_reached api (es @ ds) v'"
    and small: "length (es @ ds) < 2 ^ 32" and hash: "distinct_bytes api (es @ ds)" and e: "e \<in> set es"
  shows "chainMirrorEvents e t (index_of (es @ ds) v') added = chainMirrorEvents e t (index_of es v) added"
proof -
  from e obtain i where i: "i < length es" "e = es ! i" by (auto simp: in_set_conv_nth)
  have ne: "es \<noteq> []" using i by auto
  have reads: "map read_entry (map write_entry xs) = map Some xs" for xs
    by (simp add: read_write_entry comp_def)
  have whole: "verifyChainWithHistory api (map write_entry (es @ ds)) = Accepted (view_of v')"
    using effect_reached [of api "es @ ds" "view_of v'"] reach' ne by (auto simp: verifyChainEffect_def)
  have prefix: "verifyChainWithHistory api (map write_entry es) = Accepted (view_of v)"
    using effect_reached [of api es "view_of v"] reach ne by (auto simp: verifyChainEffect_def)
  have k: "1 \<le> Suc i" "Suc i \<le> length (map write_entry (es @ ds))" "Suc i \<le> length (map write_entry es)" using i by simp_all
  have free: "collision_free_on (api_sha256 api) (entry_byte_strings es)"
    using distinct_bytes_prefix [OF hash] by (simp add: distinct_bytes_def)
  have len: "length (map write_entry (es @ ds)) < 2 ^ 32" "length (map write_entry es) < 2 ^ 32" using small by simp_all
  obtain s h where sh: "view_of v' = (s, h)" by (cases "view_of v'")
  obtain s0 h0 where sh0: "view_of v = (s0, h0)" by (cases "view_of v")
  from settled_rows [OF whole [unfolded sh] reads len(1) k(1,2) hash [unfolded distinct_bytes_def]]
  obtain a b where ab: "verifyChainWithHistory api (take (Suc i) (map write_entry (es @ ds))) = Accepted (a, b)"
    "\<And>ts added. chainMirrorEvents ((es @ ds) ! (Suc i - 1)) ts (proposalIndexOf (take (Suc i) (es @ ds)) a b) added =
       chainMirrorEvents ((es @ ds) ! (Suc i - 1)) ts (proposalIndexOf (es @ ds) s h) added" by blast
  from settled_rows [OF prefix [unfolded sh0] reads len(2) k(1,3) free]
  obtain c d where cd: "verifyChainWithHistory api (take (Suc i) (map write_entry es)) = Accepted (c, d)"
    "\<And>ts added. chainMirrorEvents (es ! (Suc i - 1)) ts (proposalIndexOf (take (Suc i) es) c d) added =
       chainMirrorEvents (es ! (Suc i - 1)) ts (proposalIndexOf es s0 h0) added" by blast
  have "take (Suc i) (es @ ds) = take (Suc i) es" using i by simp
  moreover have "a = c \<and> b = d"
    using ab(1) cd(1) calculation by (simp add: take_map del: take_append map_append)
  ultimately show ?thesis using ab(2) [of t added] cd(2) [of t added] i sh sh0
    by (simp add: index_of_def nth_append del: take_append)
qed

lemma mirror_rows_extend:
  assumes "chain_reached api es v" and "accepts api v e ev v'" and "length es + 1 < 2 ^ 32"
    and "distinct_bytes api (es @ [e])" and "length clocks = length es"
  shows "mirror_rows_of api (es @ [e]) v' (clocks @ [t]) =
    mirror_rows_of api es v clocks @ the (chainMirrorEvents e t (index_of (es @ [e]) v') (subject_at api e))"
proof -
  have reach': "chain_reached api (es @ [e]) v'" using assms(1,2) by (rule reached_next)
  have "length (es @ [e]) < 2 ^ 32" using assms(3) by simp
  note settled = settled_index [OF assms(1) reach' this assms(4)]
  have same: "map (\<lambda>(x, t). the (chainMirrorEvents x t (index_of (es @ [e]) v') (subject_at api x))) (zip es clocks) =
      map (\<lambda>(x, t). the (chainMirrorEvents x t (index_of es v) (subject_at api x))) (zip es clocks)"
    using settled by (auto dest: set_zip_leftD)
  have split: "zip (es @ [e]) (clocks @ [t]) = zip es clocks @ [(e, t)]" using assms(5) by simp
  show ?thesis unfolding mirror_rows_of_def split map_append concat_append same by simp
qed

lemma mirrors_step:
  assumes "holds api projectId st es v" and "accepts api v e ev v'" and "fits_store st es e bytes"
    and "distinct_bytes api (es @ [e])" and "mirrors api st es v"
    and "chainMirrorEvents e nowMs (index_of (es @ [e]) v') (subject_at api e) = Some rows"
    and "chain_rows (do_audit st') = chain_rows (do_audit st) @ rows"
  shows "mirrors api st' (es @ [e]) v'"
proof -
  from assms(5) obtain clocks where clocks: "length clocks = length es" "chain_rows (do_audit st) = mirror_rows_of api es v clocks"
    by (auto simp: mirrors_def)
  have "chain_reached api es v" using assms(1) by (simp add: holds_def)
  moreover have "length es + 1 < 2 ^ 32" using assms(3) by (simp add: fits_store_def MAX_CHAIN_ENTRIES_def)
  ultimately have "mirror_rows_of api (es @ [e]) v' (clocks @ [nowMs]) = chain_rows (do_audit st')"
    using mirror_rows_extend [of api es v e ev v' clocks nowMs] assms(2,4,6,7) clocks by simp
  with clocks(1) show ?thesis by (auto simp: mirrors_def intro!: exI [of _ "clocks @ [nowMs]"])
qed

text \<open>The operations of a composite read nothing of the proposals.\<close>

lemma direct_rows_any_index:
  "entry_operation e = Direct operation \<Longrightarrow> chainMirrorEvents e t index added = chainMirrorEvents e t index' added"
  by (cases operation) (simp_all add: chainMirrorEvents_def Let_def)

end
