(* ===== verification/Attestation_Stability.thy ===== *)
theory Attestation_Stability
  imports Chain_Object
begin

text \<open>
  A head attestation that verified against a chain verifies against every longer chain: the key that a
  fingerprint selects is never replaced in the history index, and what the index says of an attested head
  does not change. And which devices an accepted entry can take from a member: those that the operation
  it applies revokes, which the write phase reads off the proposal index.
\<close>

section \<open>The keys the index lists\<close>

definition tenure_keys :: "tenure_record \<Rightarrow> (fingerprint \<times> ustr) list" where
  "tenure_keys t = map (\<lambda>d. (keyFingerprintHex d, sigPubHex d)) (map rec_device (ten_devices t))"

definition listed_keys :: "chain_history_builder \<Rightarrow> user_id \<Rightarrow> (fingerprint \<times> ustr) list" where
  "listed_keys h u = concat (map tenure_keys (tenures_of h u))"

lemma sigKey_listed: "sigKeyByFingerprint h u fp = map_of (listed_keys h u) fp"
proof -
  have "map_option (\<lambda>r. sigPubHex (rec_device r)) (find (\<lambda>r. keyFingerprintHex (rec_device r) = fp) rs) =
      map_of (map (\<lambda>r. (keyFingerprintHex (rec_device r), sigPubHex (rec_device r))) rs) fp" for rs
    by (induction rs) auto
  moreover have "concat (map tenure_keys ts) =
      map (\<lambda>r. (keyFingerprintHex (rec_device r), sigPubHex (rec_device r))) (concat (map ten_devices ts))" for ts
    by (induction ts) (simp_all add: tenure_keys_def)
  ultimately show ?thesis by (simp add: sigKeyByFingerprint_def listed_keys_def tenures_of_def)
qed

definition keys_extend :: "chain_history_builder \<Rightarrow> chain_history_builder \<Rightarrow> bool" where
  "keys_extend h h' \<longleftrightarrow> (\<forall>u. \<exists>ks. listed_keys h' u = listed_keys h u @ ks)"

lemma keys_extend_refl: "tenures h' = tenures h \<Longrightarrow> keys_extend h h'"
  by (simp add: keys_extend_def listed_keys_def tenures_of_def)

lemma keys_extend_trans: "keys_extend h h1 \<Longrightarrow> keys_extend h1 h2 \<Longrightarrow> keys_extend h h2"
  unfolding keys_extend_def by (metis append.assoc)

lemma on_open_last_keys:
  assumes "\<And>t. \<exists>ks. tenure_keys (f t) = tenure_keys t @ ks"
  shows "\<exists>ks. concat (map tenure_keys (on_open_last f ts)) = concat (map tenure_keys ts) @ ks"
proof (cases "ts = [] \<or> endSeq (last ts) \<noteq> None")
  case False
  then obtain front t where "ts = front @ [t]" by (cases ts rule: rev_cases) auto
  moreover obtain ks where "tenure_keys (f t) = tenure_keys t @ ks" using assms by blast
  ultimately show ?thesis using False by (simp add: on_open_last_def)
qed (simp add: on_open_last_def)

lemma on_open_keys:
  assumes "\<And>t. \<exists>ks. tenure_keys (f t) = tenure_keys t @ ks"
  shows "keys_extend h (on_open_tenure u f h)"
  using on_open_last_keys [OF assms] by (auto simp: keys_extend_def listed_keys_def tenures_of_on_open)

lemma same_devices_keys: "map rec_device (ten_devices t') = map rec_device (ten_devices t) \<Longrightarrow> \<exists>ks. tenure_keys t' = tenure_keys t @ ks"
  by (simp add: tenure_keys_def del: map_map)

lemma record_device_kept:
  "map rec_device (map (revoke_record s fps) rs) = map rec_device rs"
  "map rec_device (map (prune_device_record e s) rs) = map rec_device rs"
  by (simp_all add: revoke_record_def prune_device_record_def Let_def)

lemma fold_on_open_keys:
  assumes "\<And>t. \<exists>ks. tenure_keys (f t) = tenure_keys t @ ks"
  shows "keys_extend h (fold (\<lambda>u. on_open_tenure u f) us h)"
proof (induction us arbitrary: h)
  case (Cons u us)
  from keys_extend_trans [OF on_open_keys [OF assms] Cons] show ?case by simp
qed (simp add: keys_extend_refl)

lemma start_keys: "keys_extend h (recordTenureStart u s d r sc h)"
  by (auto simp: keys_extend_def listed_keys_def recordTenureStart_def tenures_of_def Let_def split: option.split)

lemma recordHistory_keys: "keys_extend h (recordHistory a s st h)"
proof (cases "applied_operation a")
  case (Genesis p)
  then show ?thesis using start_keys
    by (auto simp: recordHistory_def recordTenureStartOf_def keys_extend_refl split: option.split)
next
  case (Add_Member p)
  then show ?thesis using start_keys
    by (auto simp: recordHistory_def recordTenureStartOf_def keys_extend_refl split: option.split)
next
  case (Remove_Member u)
  then show ?thesis by (simp add: recordHistory_def recordTenureEnd_def on_open_keys same_devices_keys)
next
  case (Change_Role p)
  then show ?thesis by (simp add: recordHistory_def recordRoleChange_def on_open_keys same_devices_keys)
next
  case (Delete_Environment e)
  let ?h = "(case map_of (environmentStarts h) e of None \<Rightarrow> h
    | Some environment \<Rightarrow> h\<lparr>environmentStarts := AList.update e (environment\<lparr>env_deletedAtSeq := Some s\<rparr>) (environmentStarts h)\<rparr>)"
  let ?h2 = "?h\<lparr>latestCheckpoints := AList.delete e (latestCheckpoints ?h)\<rparr>"
  have prune: "\<exists>ks. tenure_keys (pruneTenureAt e s t) = tenure_keys t @ ks" for t
    by (rule same_devices_keys) (simp add: pruneTenureAt_def record_device_kept del: map_map)
  have "keys_extend h ?h2" by (rule keys_extend_refl) (simp split: option.split)
  from keys_extend_trans [OF this fold_on_open_keys [OF prune]] Delete_Environment show ?thesis
    by (simp add: recordHistory_def recordEnvironmentDeleted_def Let_def)
next
  case (Add_Device p)
  have "\<exists>ks. tenure_keys (t\<lparr>ten_devices := ten_devices t @ rs\<rparr>) = tenure_keys t @ ks" for t rs
    by (simp add: tenure_keys_def)
  with Add_Device show ?thesis
    by (simp add: recordHistory_def recordDeviceAddedOf_def recordDeviceAdded_def on_open_keys keys_extend_refl
        split: option.split)
next
  case (Revoke_Device p)
  have "\<exists>ks. tenure_keys (t\<lparr>ten_devices := map (revoke_record s fps) (ten_devices t)\<rparr>) = tenure_keys t @ ks" for t fps
    by (rule same_devices_keys) (simp add: record_device_kept del: map_map)
  with Revoke_Device show ?thesis by (simp add: recordHistory_def recordDevicesRevoked_def on_open_keys)
next
  case (Rotate_Epoch p)
  then show ?thesis by (simp add: recordHistory_def recordEpochRotated_def keys_extend_refl split: option.split)
next
  case (Checkpoint p)
  then show ?thesis by (simp add: recordHistory_def keys_extend_refl)
qed (simp_all add: recordHistory_def recordEnvironmentCreated_def keys_extend_refl)

lemma key_kept:
  assumes "keys_extend h h'" and "sigKeyByFingerprint h u fp = Some key"
  shows "sigKeyByFingerprint h' u fp = Some key"
proof -
  obtain ks where "listed_keys h' u = listed_keys h u @ ks" using assms(1) by (auto simp: keys_extend_def)
  with assms(2) show ?thesis by (simp add: sigKey_listed)
qed

section \<open>Verified once, verified later\<close>

lemma step_keys:
  assumes "accepts api v e ev v'" and "v_history v = Some h" and "v_history v' = Some h'"
  shows "keys_extend h h'"
proof -
  have h': "h' = recordEntryHash (v_prevHash v') (case ev of None \<Rightarrow> h | Some a \<Rightarrow> recordHistory a (v_seq v') (v_state v') h)"
    using step_history [OF assms(1,2)] assms(3) by simp
  have "keys_extend h (case ev of None \<Rightarrow> h | Some a \<Rightarrow> recordHistory a (v_seq v') (v_state v') h)"
    by (cases ev) (simp_all add: keys_extend_refl recordHistory_keys)
  then show ?thesis by (simp add: h' keys_extend_def listed_keys_def tenures_of_def recordEntryHash_def)
qed

lemma attestation_kept:
  assumes reach: "chain_reached api es v" and step: "accepts api v e ev v'"
    and ok: "verifyDistributedHeadAttestation api keys (attestation_input (snd (view_of v)) projectId a) = Accepted hash"
  shows "verifyDistributedHeadAttestation api keys (attestation_input (snd (view_of v')) projectId a) = Accepted hash"
proof -
  obtain h where h: "v_history v = Some h" "history_agrees v h es" using reached_history [OF reach] by blast
  obtain h' where h': "v_history v' = Some h'" "earlier_answers (v_seq v) h h'" "entryHashes h' = entryHashes h @ [v_prevHash v']"
    using step_agrees [OF reached_ok [OF reach] step h] by blast
  have views: "snd (view_of v) = h" "snd (view_of v') = h'" using h(1) h'(1) by (simp_all add: view_of_def)
  let ?k = "sh_chainHeadSeq a" and ?u = "sh_attesterUserId a" and ?fp = "sh_attesterKeyFingerprintHex a"
  note was = ok [unfolded verifyDistributedHeadAttestation_Accepted views]
  from was have key: "importActorKeyByFingerprint keys h ?u ?fp err = Accepted key \<Longrightarrow>
      importActorKeyByFingerprint keys h' ?u ?fp err = Accepted key" for key err
    using key_kept [OF step_keys [OF step h(1) h'(1)], of ?u ?fp] by (auto simp: importActorKey_Accepted)
  from was have auth: "authorized_at_head h ?k (sh_chainHeadHashHex a) ?u ?fp Reader None"
    by (simp add: attestationHeadReason_None attestation_input_def)
  then have range: "in_range h ?k" by (auto simp: authorized_at_head_def dest: entryHashAt_in_range)
  then have range': "in_range h' ?k" by (auto simp: in_range_def headSeq_def h'(3))
  have len: "int (length (entryHashes h)) = v_seq v" using h(2) by (simp add: history_agrees_def)
  have at: "?k \<le> v_seq v" using range len by (simp add: in_range_def headSeq_def)
  have index: "nat (?k - 1) < length (entryHashes h)" using range by (simp add: in_range_def headSeq_def nat_less_iff)
  have "entryHashAt h' ?k = entryHashAt h ?k"
    using range range' index by (simp add: entryHashAt_def h'(3) nth_append)
  moreover have view: "member_view_at h' ?u ?k = member_view_at h ?u ?k"
    using h'(2) at by (simp add: earlier_answers_def)
  moreover have "memberStateAt h' ?u ?k = None \<longleftrightarrow> memberStateAt h ?u ?k = None"
    using memberStateAt_view [OF range, of ?u] memberStateAt_view [OF range', of ?u] view
    by (cases "memberStateAt h ?u ?k"; cases "memberStateAt h' ?u ?k") auto
  moreover have "deviceStateAt h' ?u ?fp ?k \<noteq> None \<longleftrightarrow> deviceStateAt h ?u ?fp ?k \<noteq> None"
    unfolding deviceStateAt_defined [OF range] deviceStateAt_defined [OF range'] view ..
  ultimately have "authorized_at_head h' ?k (sh_chainHeadHashHex a) ?u ?fp Reader None"
    using auth by (auto simp: authorized_at_head_def)
  with was key show ?thesis
    unfolding verifyDistributedHeadAttestation_Accepted views
    by (auto simp: attestationHeadReason_None attestation_input_def)
qed

section \<open>What an entry takes away\<close>

lemma revoke_listed_kept: "g \<notin> set fps \<Longrightarrow> map_of (fst (revoke_listed fps acc)) g = map_of (fst acc) g"
  by (induction fps acc rule: revoke_listed.induct) (auto split: option.splits)

lemma apply_keeps_device:
  assumes ok: "state_ok sha256 n st" and reason: "consensusReason sha256 operation actor st = None"
    and d: "device_of (members st) u f = Some d" and kept: "\<not> revokes (Direct operation) u f"
  shows "device_of (members (applyOperation sha256 operation seq u0 st)) u f \<noteq> None"
proof (cases operation)
  case (Add_Member p)
  with reason d have "u \<noteq> am_targetUserId p"
    by (auto simp: consensusReason_def addMemberReason_def device_of_def map_has_def split: if_splits)
  with d Add_Member show ?thesis
    by (simp add: applyOperation_def applyAddMember_def set_member_def indexDeviceKeys_def Let_def)
next
  case (Remove_Member t)
  with reason obtain mt where "map_of (members st) t = Some mt"
    by (auto simp: consensusReason_def removeMemberReason_def split: sum.splits dest: resolveTargetedOp_Inr)
  with d Remove_Member kept show ?thesis by (auto simp: members_apply(3) [OF ok])
next
  case (Change_Role p)
  with reason obtain mt where mt: "map_of (members st) (cr_targetUserId p) = Some mt"
    by (auto simp: consensusReason_def changeRoleReason_def split: sum.splits dest: resolveTargetedOp_Inr)
  with d Change_Role show ?thesis by (auto simp: members_apply(4) [OF ok] device_of_def)
next
  case (Delete_Environment e)
  with reason obtain env where env: "map_of (environments st) e = Some env"
    by (auto simp: consensusReason_def deleteEnvironmentReason_def liveEnvironmentReason_def map_has_def split: if_splits)
  from d Delete_Environment show ?thesis
    by (simp add: members_apply(2) [OF ok _ env] device_of_pruned [OF state_okD(1) [OF ok]])
next
  case (Add_Device p)
  show ?thesis
  proof (cases "map_of (members st) u0")
    case None
    with d Add_Device show ?thesis by (simp add: applyOperation_def applyAddDevice_def)
  next
    case (Some m0)
    with d Add_Device members_okD(2) [OF state_okD(1) [OF ok] Some] show ?thesis
      by (auto simp: applyOperation_def applyAddDevice_def set_member_def indexDeviceKeys_def Let_def device_of_def)
  qed
next
  case (Revoke_Device p)
  with reason obtain mt where mt: "map_of (members st) (rd_targetUserId p) = Some mt"
    by (auto simp: consensusReason_def revokeDeviceReason_def split: option.splits)
  obtain ds st' where run: "revoke_listed (rd_deviceFingerprintsHex p) (devices mt, st) = (ds, st')" by fastforce
  have "members st' = members st"
    using run revoke_listed_members [of "rd_deviceFingerprintsHex p" "(devices mt, st)"] by simp
  with d Revoke_Device mt run kept members_okD(2) [OF state_okD(1) [OF ok] mt]
    revoke_listed_kept [of f "rd_deviceFingerprintsHex p" "(devices mt, st)"]
  show ?thesis by (auto simp: applyOperation_def applyRevokeDevice_def set_member_def device_of_def split: if_splits)
qed (use d in \<open>auto simp: members_apply(1) [OF ok]\<close>)

lemma step_keeps_device:
  assumes reach: "chain_reached api es v" and step: "accepts api v e ev v'"
    and d: "device_of (members (v_state v)) u f \<noteq> None"
    and kept: "\<And>a. ev = Some a \<Longrightarrow> \<not> revokes (Direct (applied_operation a)) u f"
  shows "device_of (members (v_state v')) u f \<noteq> None"
proof -
  have vok: "verifier_ok api v" by (rule reached_ok [OF reach])
  have later: "v_seq v \<noteq> 0"
  proof
    assume "v_seq v = 0"
    with reached_seq [OF reach] have "es = []" by simp
    with reach have "v = start_verifier (Some empty_history)" by (auto elim: reached_NilE)
    with d show False by (simp add: start_verifier_def empty_chain_state_def)
  qed
  then have ok: "state_ok (api_sha256 api) (v_seq v) (v_state v)" using vok by (auto simp: verifier_ok_def)
  from vok step later show ?thesis
  proof (cases rule: accepts_cases)
    case (applied a actor ps)
    then have "consensusReason (api_sha256 api) (applied_operation a) actor (v_state v) = None"
      by (simp add: authorized_def)
    with applied(1,3) d kept apply_keeps_device [OF ok this] show ?thesis by auto
  qed (use d in auto)
qed

lemma applied_in_index:
  assumes reach: "chain_reached api es v" and step: "accepts api v e (Some a) v'"
    and hash: "distinct_bytes api (es @ [e])" and small: "length (es @ [e]) < 2 ^ 32"
  shows "entry_operation e = Direct (applied_operation a) \<or>
    (\<exists>p. completed_proposal (index_of (es @ [e]) v') e = Some p \<and> pr_inner (pe_payload (ip_entry p)) = applied_operation a)"
proof -
  have reach': "chain_reached api (es @ [e]) v'" using reach step by (rule reached_next)
  obtain s h where sh: "view_of v' = (s, h)" by (cases "view_of v'")
  have "verifyChainWithHistory api (map write_entry (es @ [e])) = Accepted (s, h)"
    using effect_reached [of api "es @ [e]" "view_of v'"] reach' sh by (auto simp: verifyChainEffect_def)
  moreover have "map read_entry (map write_entry (es @ [e])) = map Some (es @ [e])" by (simp add: read_write_entry comp_def)
  moreover have "length (map write_entry (es @ [e])) < 2 ^ 32" using small by simp
  ultimately have known: "\<And>x. x \<in> set (es @ [e]) \<Longrightarrow> entryHashAt h (entry_seq x) = entry_hash api x"
    by (rule history_reached) blast
  with hash have hashes: "hashes_of api (es @ [e]) (entryHashAt h)" by (simp add: hashes_of_def distinct_bytes_def)
  have "s = at_head v'" using sh by (simp add: view_of_def)
  then have index: "index_of (es @ [e]) v' = indexProposals (es @ [e]) (entryHashAt h) (pending_keys (v_state v'))"
    using pending_hashes_at_head [OF reached_ok [OF reach']] by (simp add: index_of_def sh proposalIndexOf_def)
  note known_step = reached_step [OF reach step hashes]
  from known_step(1) show ?thesis
  proof cases
    case (step_complete k pending)
    from tracked_pending [OF known_step(2) step_complete(4)] obtain x
      where x: "map_of (fst (collected (entryHashAt h) es)) k = Some x" "carries x pending" by blast
    from known_step(5) [OF x(1)] obtain y
      where y: "map_of (fst (collected (entryHashAt h) (es @ [e]))) k = Some y" "op_entry y = op_entry x" by blast
    have "completed_at (collected (entryHashAt h) (es @ [e])) (pending_keys (v_state v')) k = Some (entry_seq e)"
      using known_step(4) [of k] step_complete by simp
    with step_complete x y show ?thesis
      by (simp add: index completed_proposal_def indexProposals_lookup carries_def)
  qed auto
qed

end
