(* ===== verification/Chain_Object_Invariant.thy ===== *)
theory Chain_Object_Invariant
  imports Attestation_Stability
begin

text \<open>
  The invariant of the object and its preservation by every program: whatever requests it has served, the
  object holds a verified chain with its mirror and attestations, and its caches agree with its storage.
\<close>

section \<open>The invariant\<close>

definition attested :: "crypto_api \<Rightarrow> signing_api \<Rightarrow> ustr \<Rightarrow> project_do \<Rightarrow> verifier \<Rightarrow> bool" where
  "attested api keys projectId st v \<longleftrightarrow>
     (\<forall>(k, a) \<in> set (do_attestations st).
        k = (sh_attesterUserId a, sh_attesterKeyFingerprintHex a) \<and>
        attested_by_current_device (fst (view_of v)) a \<and>
        (\<exists>hash. verifyDistributedHeadAttestation api keys (attestation_input (snd (view_of v)) projectId a) = Accepted hash))"

text \<open>The mirror and the attestations depend on hashes without collision; the chain and the caches do not.\<close>

definition tables_follow ::
  "crypto_api \<Rightarrow> signing_api \<Rightarrow> ustr \<Rightarrow> project_do \<Rightarrow> chain_entry list \<Rightarrow> verifier \<Rightarrow> bool" where
  "tables_follow api keys projectId st es v \<longleftrightarrow>
     (distinct_bytes api es \<longrightarrow> mirrors api st es v \<and> attested api keys projectId st v)"

definition consistent ::
  "crypto_api \<Rightarrow> signing_api \<Rightarrow> ustr \<Rightarrow> project_do \<Rightarrow> chain_entry list \<Rightarrow> verifier \<Rightarrow> bool" where
  "consistent api keys projectId st es v \<longleftrightarrow>
     sound api projectId st es v \<and> tables_follow api keys projectId st es v"

definition object_ok :: "crypto_api \<Rightarrow> signing_api \<Rightarrow> ustr \<Rightarrow> project_do \<Rightarrow> bool" where
  "object_ok api keys projectId st \<longleftrightarrow> (\<exists>es v. consistent api keys projectId st es v)"

lemma tables_follow_cong:
  "chain_rows (do_audit st') = chain_rows (do_audit st) \<Longrightarrow> do_attestations st' = do_attestations st \<Longrightarrow>
   tables_follow api keys projectId st' es v = tables_follow api keys projectId st es v"
  by (simp add: tables_follow_def mirrors_def attested_def)

lemma consistent_stored:
  "consistent api keys projectId st es v \<Longrightarrow> sound api projectId st' es v \<Longrightarrow> stored st' = stored st \<Longrightarrow>
   consistent api keys projectId st' es v"
  unfolding consistent_def using tables_follow_cong stored_eqD(2,3) by metis

lemma consistent_dropped:
  assumes "consistent api keys projectId st es v"
  shows "consistent api keys projectId (st\<lparr>do_cache := NO_CACHE\<rparr>) es v"
proof -
  have "holds api projectId (st\<lparr>do_cache := NO_CACHE\<rparr>) es v"
    using assms by (auto simp: consistent_def sound_def holds_def NO_CACHE_def rows_of_def total_bytes_def)
  then have "sound api projectId (st\<lparr>do_cache := NO_CACHE\<rparr>) es v"
    by (simp add: sound_def view_cached_def NO_CACHE_def)
  with assms show ?thesis by (rule consistent_stored) simp
qed

lemma new_object_ok: "object_ok api keys projectId new_project_do"
proof -
  have "consistent api keys projectId new_project_do [] (start_verifier (Some empty_history))"
    by (auto simp: consistent_def sound_def holds_def view_cached_def new_project_do_def NO_CACHE_def rows_of_def
        total_bytes_def MAX_CHAIN_ENTRIES_def MAX_CHAIN_TOTAL_CANONICAL_BYTES_def tables_follow_def mirrors_def
        attested_def mirror_rows_of_def intro: reached_start)
  then show ?thesis by (auto simp: object_ok_def)
qed

section \<open>Committing an accepted entry\<close>

lemma subject_at_Accepted: "mirrorSubjectOf api e = Accepted s \<Longrightarrow> subject_at api e = s"
  by (auto simp: subject_at_def mirrorSubjectOf_def split: chain_operation.splits proposable_operation.splits option.splits)

lemma attested_step:
  assumes reach: "chain_reached api es v" and step: "accepts api v e ev v'"
    and was: "attested api keys projectId st v"
    and rows: "set (do_attestations st') \<subseteq> set (do_attestations st)"
    and gone: "\<And>a u f x. ev = Some a \<Longrightarrow> revokes (Direct (applied_operation a)) u f \<Longrightarrow> ((u, f), x) \<notin> set (do_attestations st')"
  shows "attested api keys projectId st' v'"
  unfolding attested_def
proof clarify
  fix u f a assume row: "((u, f), a) \<in> set (do_attestations st')"
  with rows was obtain hash where k: "(u, f) = (sh_attesterUserId a, sh_attesterKeyFingerprintHex a)"
    and current: "attested_by_current_device (fst (view_of v)) a"
    and verified: "verifyDistributedHeadAttestation api keys (attestation_input (snd (view_of v)) projectId a) = Accepted hash"
    unfolding attested_def by blast
  have reach': "chain_reached api (es @ [e]) v'" using reach step by (rule reached_next)
  from current view_head(3) [OF reach] k have "device_of (members (v_state v)) u f \<noteq> None"
    by (auto simp: attested_by_current_device_def device_of_def map_has_ex split: option.splits)
  from step_keeps_device [OF reach step this] gone row have "device_of (members (v_state v')) u f \<noteq> None" by blast
  then obtain m d where "map_of (members (v_state v')) u = Some m" "map_of (devices m) f = Some d"
    by (auto simp: device_of_def bind_eq_Some_conv split: option.splits)
  with view_head(3) [OF reach'] k have "attested_by_current_device (fst (view_of v')) a"
    by (simp add: attested_by_current_device_def map_has_ex)
  with k attestation_kept [OF reach step verified]
  show "(u, f) = (sh_attesterUserId a, sh_attesterKeyFingerprintHex a) \<and> attested_by_current_device (fst (view_of v')) a \<and>
     (\<exists>hash. verifyDistributedHeadAttestation api keys (attestation_input (snd (view_of v')) projectId a) = Accepted hash)"
    by blast
qed

lemma tables_step:
  assumes holds: "holds api projectId st es v" and follow: "tables_follow api keys projectId st es v"
    and step: "accepts api v e ev v'" and fits: "fits_store st es e bytes"
    and rows: "chainMirrorEvents e nowMs (index_of (es @ [e]) v') (subject_at api e) = Some rows"
    and audit: "chain_rows (do_audit st') = chain_rows (do_audit st) @ rows"
    and fewer: "set (do_attestations st') \<subseteq> set (do_attestations st)"
    and gone: "\<And>operation u f x. entry_operation e = Direct operation \<or>
        (\<exists>p. completed_proposal (index_of (es @ [e]) v') e = Some p \<and> pr_inner (pe_payload (ip_entry p)) = operation) \<Longrightarrow>
      revokes (Direct operation) u f \<Longrightarrow> ((u, f), x) \<notin> set (do_attestations st')"
  shows "tables_follow api keys projectId st' (es @ [e]) v'"
  unfolding tables_follow_def
proof (intro impI conjI)
  assume hash: "distinct_bytes api (es @ [e])"
  have reach: "chain_reached api es v" using holds by (simp add: holds_def)
  from hash follow distinct_bytes_prefix have was: "mirrors api st es v" "attested api keys projectId st v"
    by (auto simp: tables_follow_def)
  show "mirrors api st' (es @ [e]) v'"
    using mirrors_step [OF holds step fits hash was(1) rows] audit by simp
  have small: "length (es @ [e]) < 2 ^ 32" using fits by (simp add: fits_store_def MAX_CHAIN_ENTRIES_def)
  show "attested api keys projectId st' v'"
  proof (rule attested_step [OF reach step was(2) fewer])
    fix a u f x assume ev: "ev = Some a" and revoked: "revokes (Direct (applied_operation a)) u f"
    from gone [OF applied_in_index [OF reach step [unfolded ev] hash small] revoked]
    show "((u, f), x) \<notin> set (do_attestations st')" .
  qed
qed

lemma insertAccepted_follows:
  assumes holds: "holds api projectId st es v" and follow: "tables_follow api keys projectId st es v"
    and step: "accepts api v e ev v'" and fits: "fits_store st es e bytes"
    and genesis: "es = [] \<Longrightarrow> v_prevHash v' = projectId"
    and insert: "insertAcceptedEntrySync e (view_of v') bytes nowMs (index_of (es @ [e]) v') (subject_at api e) st =
      (Accepted proposal :: ('e, applied_proposal option) outcome, st')"
  shows "holds api projectId st' (es @ [e]) v'" and "tables_follow api keys projectId st' (es @ [e]) v'"
    and "cache_current (do_cache st') = cache_current (do_cache st)" and "do_mirrorMark st' = do_mirrorMark st"
proof -
  let ?index = "index_of (es @ [e]) v'"
  have reach: "chain_reached api es v" using holds by (simp add: holds_def)
  then have reach': "chain_reached api (es @ [e]) v'" using step by (rule reached_next)
  from insert view_head(1) [OF reach'] obtain s1 where
    s1: "insert_entry e (v_prevHash v') bytes nowMs ?index (subject_at api e) st = (Accepted () :: ('e, unit) outcome, s1)"
    and st': "st' = (case completed_proposal ?index e of
        None \<Rightarrow> s1
      | Some p \<Rightarrow> applyAcceptanceSideEffectsSync (Direct (pr_inner (pe_payload (ip_entry p)))) (entry_seq e) s1)"
    by (auto simp: insertAcceptedEntrySync_def and_then_Accepted Let_def split: option.splits)
  obtain rows where rows: "chainMirrorEvents e nowMs ?index (subject_at api e) = Some rows"
    and audit: "chain_rows (do_audit s1) = chain_rows (do_audit st) @ rows"
    and holds1: "holds api projectId s1 (es @ [e]) v'"
    and att: "do_attestations s1 = filter (\<lambda>((u, fp), _). \<not> revokes (entry_operation e) u fp) (do_attestations st)"
    and cache: "cache_current (do_cache s1) = cache_current (do_cache st)" and mark: "do_mirrorMark s1 = do_mirrorMark st"
    using holds step fits genesis s1 by (rule insert_entry_holds) auto
  have frame: "do_rows st' = do_rows s1" "do_cache st' = do_cache s1" "do_mirrorMark st' = do_mirrorMark s1"
    "chain_rows (do_audit st') = chain_rows (do_audit s1)"
    by (simp_all add: st' side_effects_frame split: option.split)
  show "holds api projectId st' (es @ [e]) v'" using holds_cong [of st' s1] frame holds1 by simp
  show "cache_current (do_cache st') = cache_current (do_cache st)" "do_mirrorMark st' = do_mirrorMark st"
    using frame cache mark by simp_all
  show "tables_follow api keys projectId st' (es @ [e]) v'"
  proof (rule tables_step [OF holds follow step fits rows])
    show "chain_rows (do_audit st') = chain_rows (do_audit st) @ rows" using audit frame(4) by simp
    show "set (do_attestations st') \<subseteq> set (do_attestations st)"
      by (auto simp: st' side_effects_frame att split: option.splits)
    fix operation u f x assume "entry_operation e = Direct operation \<or>
        (\<exists>p. completed_proposal ?index e = Some p \<and> pr_inner (pe_payload (ip_entry p)) = operation)"
      and "revokes (Direct operation) u f"
    then show "((u, f), x) \<notin> set (do_attestations st')"
      by (auto simp: st' side_effects_frame att split: option.splits)
  qed
qed

text \<open>An entry of a composite is inserted without the proposals of the chain.\<close>

lemma insert_direct_follows:
  assumes holds: "holds api projectId st es v" and follow: "tables_follow api keys projectId st es v"
    and step: "accepts api v e ev v'" and fits: "fits_store st es e bytes"
    and genesis: "es = [] \<Longrightarrow> v_prevHash v' = projectId"
    and direct: "entry_operation e = Direct operation" and plain: "subject_at api e = None"
    and insert: "insert_entry e (v_prevHash v') bytes nowMs index None st = (Accepted () :: ('e, unit) outcome, st')"
  shows "holds api projectId st' (es @ [e]) v'" and "tables_follow api keys projectId st' (es @ [e]) v'"
    and "cache_current (do_cache st') = cache_current (do_cache st)" and "do_mirrorMark st' = do_mirrorMark st"
    and "total_bytes st' = total_bytes st + bytes"
proof -
  obtain rows where rows: "chainMirrorEvents e nowMs index None = Some rows"
    and audit: "chain_rows (do_audit st') = chain_rows (do_audit st) @ rows"
    and holds': "holds api projectId st' (es @ [e]) v'"
    and att: "do_attestations st' = filter (\<lambda>((u, fp), _). \<not> revokes (entry_operation e) u fp) (do_attestations st)"
    and cache: "cache_current (do_cache st') = cache_current (do_cache st)" and mark: "do_mirrorMark st' = do_mirrorMark st"
    and total: "total_bytes st' = total_bytes st + bytes"
    using holds step fits genesis insert by (rule insert_entry_holds) auto
  have rows': "chainMirrorEvents e nowMs (index_of (es @ [e]) v') (subject_at api e) = Some rows"
    using rows direct_rows_any_index [OF direct, of nowMs index None] plain by simp
  show "tables_follow api keys projectId st' (es @ [e]) v'"
    by (rule tables_step [OF holds follow step fits rows' audit]) (auto simp: att direct completed_proposal_def)
  show "holds api projectId st' (es @ [e]) v'" "cache_current (do_cache st') = cache_current (do_cache st)"
    "do_mirrorMark st' = do_mirrorMark st" "total_bytes st' = total_bytes st + bytes"
    by (fact holds' cache mark total)+
qed

lemma commit_follows:
  assumes holds: "holds api projectId st es v" and follow: "tables_follow api keys projectId st es v"
    and effect: "verifyChainEffect api (es @ [e]) = Accepted applied" and fits: "fits_store st es e bytes"
    and genesis: "es = [] \<Longrightarrow> st_headHashHex (fst applied) = projectId"
    and extra: "\<And>s. do_rows (extra s) = do_rows s \<and> do_cache (extra s) = do_cache s \<and> chain_rows (do_audit (extra s)) = chain_rows (do_audit s) \<and>
      do_attestations (extra s) = do_attestations s \<and> do_mirrorMark (extra s) = do_mirrorMark s"
    and commit: "commitAcceptedEntry api chain e applied bytes nowMs extra st =
      (Accepted proposal :: ('e, applied_proposal option) outcome, st')"
    and chain: "sc_entries chain = es"
  obtains ev v' where "applied = view_of v'" and "accepts api v e ev v'"
    and "holds api projectId st' (es @ [e]) v'" and "tables_follow api keys projectId st' (es @ [e]) v'"
    and "cache_current (do_cache st') = cache_current (do_cache st)" and "do_mirrorMark st' = do_mirrorMark st"
proof -
  from effect obtain v' where reach': "chain_reached api (es @ [e]) v'" and applied: "applied = view_of v'"
    by (auto simp: effect_reached)
  obtain u ev where "chain_reached api es u" and "accepts api u e ev v'" using reach' by (rule reached_last)
  moreover have "chain_reached api es v" using holds by (simp add: holds_def)
  ultimately have step: "accepts api v e ev v'" using reached_unique by blast
  from commit chain applied obtain subject s1 where subject: "(mirrorSubjectOf api e :: ('e, fingerprint option) outcome) = Accepted subject"
    and insert: "insertAcceptedEntrySync e (view_of v') bytes nowMs (index_of (es @ [e]) v') subject st =
      (Accepted proposal :: ('e, applied_proposal option) outcome, s1)" and st': "st' = extra s1"
    by (auto simp: commitAcceptedEntry_def and_then_Accepted Let_def index_of_def dest: sym)
  have genesis': "es = [] \<Longrightarrow> v_prevHash v' = projectId" using genesis applied view_head(1) [OF reach'] by simp
  note follows = insertAccepted_follows [OF holds follow step fits genesis' insert [folded subject_at_Accepted [OF subject]]]
  show ?thesis
  proof (rule that [OF applied step])
    show "holds api projectId st' (es @ [e]) v'" using follows(1) holds_cong [of st' s1] extra by (simp add: st')
    show "tables_follow api keys projectId st' (es @ [e]) v'"
      using follows(2) tables_follow_cong [of st' s1] extra by (simp add: st')
  qed (use follows extra in \<open>simp_all add: st'\<close>)
qed

text \<open>The cache of the derived state moves to the new head.\<close>

lemma refresh_follows:
  assumes holds: "holds api projectId st es' v'" and follow: "tables_follow api keys projectId st es' v'"
    and ne: "es' \<noteq> []" and cached: "cache_current (do_cache st) = cache_current (do_cache st0)"
    and was: "view_cached st0 es v" and reach: "chain_reached api es v" and longer: "length es \<le> length es'"
  shows "consistent api keys projectId (refresh_cache (view_of v') st) es' v'"
proof -
  have reach': "chain_reached api es' v'" using holds by (simp add: holds_def)
  have "view_cached (refresh_cache (view_of v') st) es' v'"
    using was cached ne longer view_head [OF reach] view_head [OF reach']
    by (auto simp: view_cached_def refresh_cache_def updateStateCache_def Let_def split: option.splits)
  moreover have "holds api projectId (refresh_cache (view_of v') st) es' v'"
    using holds holds_cong [of "refresh_cache (view_of v') st" st]
    by (simp add: refresh_cache_def updateStateCache_def Let_def split: option.split prod.split)
  moreover have "tables_follow api keys projectId (refresh_cache (view_of v') st) es' v'"
    using follow tables_follow_cong [of "refresh_cache (view_of v') st" st] by (simp add: refresh_cache_def)
  ultimately show ?thesis by (simp add: consistent_def sound_def)
qed

end
