(* ===== verification/Chain_Object_Programs.thy ===== *)
theory Chain_Object_Programs
  imports Chain_Object_Invariant
begin

text \<open>
  The programs of the object against its invariant: a load, a derivation and every guard leave the tables
  as they are, a rejected program too, and an accepted append extends the chain by exactly its entry.
\<close>

section \<open>Reading\<close>

definition at_rest ::
  "crypto_api \<Rightarrow> signing_api \<Rightarrow> ustr \<Rightarrow> project_storage \<Rightarrow> chain_entry list \<Rightarrow> verifier \<Rightarrow> project_do \<Rightarrow> bool" where
  "at_rest api keys projectId s es v st \<longleftrightarrow> consistent api keys projectId st es v \<and> stored st = s"

definition chain_at :: "ustr \<Rightarrow> project_storage \<Rightarrow> chain_entry list \<Rightarrow> verifier \<Rightarrow> stored_chain \<Rightarrow> bool" where
  "chain_at projectId s es v chain \<longleftrightarrow> (\<forall>st. stored st = s \<longrightarrow> chain = chain_value projectId st es v)"

lemma ensures_reads:
  assumes "ensures A p (\<lambda>a st. A st \<and> Q a) A" and "\<And>st. A st \<Longrightarrow> R st" and "\<And>a. Q a \<Longrightarrow> ensures A (f a) Q' R"
  shows "ensures A (and_then p f) Q' R"
proof (rule ensures_and_then)
  show "ensures A p (\<lambda>a st. A st \<and> Q a) R" using assms(1) _ _ assms(2) by (rule ensures_weaken)
  show "ensures (\<lambda>st. A st \<and> Q a) (f a) Q' R" for a
    using assms(3) by (auto simp: ensures_def)
qed

lemma ensures_check:
  "(\<And>st. A st \<Longrightarrow> R st) \<Longrightarrow> (\<And>a. r = Accepted a \<Longrightarrow> ensures A (f a) Q' R) \<Longrightarrow> ensures A (and_then (yields r) f) Q' R"
  by (rule ensures_reads [where Q = "\<lambda>a. r = Accepted a"]) (auto intro: ensures_yields)

lemma ensures_refuse: "ensures A (yields (Rejected e)) Q A"
  by (rule ensures_yields) simp_all

lemma ensures_if:
  "(c \<Longrightarrow> ensures A p Q R) \<Longrightarrow> (\<not> c \<Longrightarrow> ensures A q Q R) \<Longrightarrow> ensures A (if c then p else q) Q R"
  by simp

lemma ensures_option:
  "(x = None \<Longrightarrow> ensures A p Q R) \<Longrightarrow> (\<And>y. x = Some y \<Longrightarrow> ensures A (f y) Q R) \<Longrightarrow>
   ensures A (case x of None \<Rightarrow> p | Some y \<Rightarrow> f y) Q R"
  by (cases x) simp_all

lemma loadChain_reads:
  "ensures (at_rest api keys projectId s es v) loadChain
     (\<lambda>chain st. at_rest api keys projectId s es v st \<and> chain_at projectId s es v chain) (at_rest api keys projectId s es v)"
proof (rule ensuresI)
  fix st chain st' assume was: "at_rest api keys projectId s es v st" and load: "loadChain st = (Accepted chain, st')"
  from was have c: "consistent api keys projectId st es v" and s: "stored st = s" by (simp_all add: at_rest_def)
  from c have sound: "sound api projectId st es v" by (simp add: consistent_def)
  from loadChain_sound [OF this load]
  have "chain = chain_value projectId st es v" "sound api projectId st' es v" "stored st' = stored st" by simp_all
  with s consistent_stored [OF c] chain_value_stored
  show "at_rest api keys projectId s es v st' \<and> chain_at projectId s es v chain"
    by (auto simp: at_rest_def chain_at_def)
next
  fix st e st' assume was: "at_rest api keys projectId s es v st" and load: "loadChain st = (Rejected e, st')"
  from was have "sound api projectId st es v" by (simp add: at_rest_def consistent_def)
  from loadChain_sound [OF this load] show "at_rest api keys projectId s es v st'" by simp
qed

lemma derive_reads:
  assumes "chain_at projectId s es v chain" and "es \<noteq> []"
  shows "ensures (at_rest api keys projectId s es v) (deriveStoredState api chain)
     (\<lambda>view st. at_rest api keys projectId s es v st \<and> view = view_of v) (at_rest api keys projectId s es v)"
proof (rule ensuresI)
  fix st view st' assume was: "at_rest api keys projectId s es v st" and derive: "deriveStoredState api chain st = (Accepted view, st')"
  from was have c: "consistent api keys projectId st es v" and s: "stored st = s" by (simp_all add: at_rest_def)
  from c have sound: "sound api projectId st es v" by (simp add: consistent_def)
  from assms(1) s have "chain = chain_value projectId st es v" by (simp add: chain_at_def)
  from deriveStoredState_sound [OF sound assms(2) derive [unfolded this]]
  have "view = view_of v" "sound api projectId st' es v" "stored st' = stored st" by simp_all
  with s consistent_stored [OF c] show "at_rest api keys projectId s es v st' \<and> view = view_of v" by (simp add: at_rest_def)
next
  fix st e st' assume was: "at_rest api keys projectId s es v st" and derive: "deriveStoredState api chain st = (Rejected e, st')"
  from was have sound: "sound api projectId st es v" and s: "stored st = s" by (simp_all add: at_rest_def consistent_def)
  from assms(1) s have "chain = chain_value projectId st es v" by (simp add: chain_at_def)
  from deriveStoredState_sound [OF sound assms(2) derive [unfolded this]] show "at_rest api keys projectId s es v st'" by simp
qed

lemma chain_at_head:
  assumes "chain_at projectId s es v chain" and "at_rest api keys projectId s es v st"
  shows "sc_entries chain = es" and "sc_headSeq chain = int (length es)"
    and "sc_headHashHex chain = (if es = [] then None else Some (v_prevHash v))"
    and "projectIdOf chain = (if es = [] then [] else projectId)"
  using assms by (auto simp: chain_at_def at_rest_def chain_value_def projectIdOf_def)

lemma loadInitialized_reads:
  "ensures (at_rest api keys projectId s es v) loadInitializedChain
     (\<lambda>chain st. at_rest api keys projectId s es v st \<and> chain_at projectId s es v chain \<and> es \<noteq> [])
     (at_rest api keys projectId s es v)"
  unfolding loadInitializedChain_def
proof (rule ensures_reads [OF loadChain_reads])
  fix chain assume "chain_at projectId s es v chain"
  then show "ensures (at_rest api keys projectId s es v)
      (yields (if sc_headSeq chain = 0 \<or> sc_headHashHex chain = None then Rejected Not_Initialized
               else if sc_genesisHashHex chain = None then Threw else Accepted chain))
      (\<lambda>chain st. at_rest api keys projectId s es v st \<and> chain_at projectId s es v chain \<and> es \<noteq> [])
      (at_rest api keys projectId s es v)"
    using chain_at_head by (intro ensures_yields) (fastforce split: if_splits)+
qed

definition caller_at :: "ustr \<Rightarrow> chain_entry list \<Rightarrow> verifier \<Rightarrow> user_id \<Rightarrow> role \<Rightarrow> member_context \<Rightarrow> bool" where
  "caller_at projectId es v caller minimum context \<longleftrightarrow>
     es \<noteq> [] \<and> mc_state context = fst (view_of v) \<and> mc_history context = snd (view_of v) \<and>
     mc_projectId context = projectId \<and> map_of (st_members (fst (view_of v))) caller = Some (mc_member context) \<and>
     roleAtLeast (mem_role (mc_member context)) minimum"

lemma requireMemberState_reads:
  "ensures (at_rest api keys projectId s es v) (requireMemberState api caller minimum)
     (\<lambda>context st. at_rest api keys projectId s es v st \<and> caller_at projectId es v caller minimum context)
     (at_rest api keys projectId s es v)"
  unfolding requireMemberState_def case_prod_beta
  apply (rule ensures_reads [OF loadInitialized_reads], assumption)
  apply (elim conjE, rule ensures_reads [OF derive_reads], assumption+)
  apply (rule ensures_check, assumption, rule ensures_yields)
   apply (auto simp: caller_at_def requireChainRole_def chain_at_head(4) split: option.splits if_splits)
  done

section \<open>Appending\<close>

lemma acceptable_fits:
  assumes "verifyAcceptableEntry api chain e = Accepted (bytes, applied)" and "chain_at projectId s es v chain"
    and "at_rest api keys projectId s es v st"
  shows "fits_store st es e bytes" and "verifyChainEffect api (es @ [e]) = Accepted applied"
proof -
  from assms(2,3) have chain: "chain = chain_value projectId st es v" by (simp add: chain_at_def at_rest_def)
  with assms(1) show "fits_store st es e bytes" "verifyChainEffect api (es @ [e]) = Accepted applied"
    by (auto simp: verifyAcceptableEntry_def checkEntrySize_def canonicalBytesOf_def rejectChainInvalid_def
        ensureChainCapacity_def chainCapacityExceeded_def fits_store_def chain_value_def split: option.splits outcome.splits if_splits)
qed

text \<open>What a committed entry leaves: the chain with the entry, and its head as the answer.\<close>

definition extended ::
  "crypto_api \<Rightarrow> signing_api \<Rightarrow> ustr \<Rightarrow> chain_entry list \<Rightarrow> verified_view \<Rightarrow> project_do \<Rightarrow> bool" where
  "extended api keys projectId es applied st \<longleftrightarrow>
     (\<exists>v. consistent api keys projectId st es v \<and> applied = view_of v)"

lemma commit_never_rejects: "commitAcceptedEntry api chain e applied bytes nowMs extra st \<noteq> (Rejected x, st')"
  by (auto simp: commitAcceptedEntry_def insertAcceptedEntrySync_def insert_entry_def insertSync_def append_mirror_def
      mirrorSubjectOf_def and_then_Rejected Let_def
      split: option.splits if_splits chain_operation.splits proposable_operation.splits)

lemma commit_extends:
  assumes acceptable: "verifyAcceptableEntry api chain e = Accepted (bytes, applied)"
    and chain: "chain_at projectId s es v chain" and genesis: "es = [] \<Longrightarrow> st_headHashHex (fst applied) = projectId"
    and extra: "\<And>s. do_rows (extra s) = do_rows s \<and> do_cache (extra s) = do_cache s \<and> chain_rows (do_audit (extra s)) = chain_rows (do_audit s) \<and>
      do_attestations (extra s) = do_attestations s \<and> do_mirrorMark (extra s) = do_mirrorMark s"
  shows "ensures (at_rest api keys projectId s es v)
     (and_then (commitAcceptedEntry api chain e applied bytes nowMs extra) (\<lambda>proposal.
      and_then (updates (refresh_cache applied)) (\<lambda>_. yields (Accepted (answer proposal)))) :: ('e, 'b) program)
     (\<lambda>a st. a \<in> range answer \<and> extended api keys projectId (es @ [e]) applied st \<and>
        do_mirrorMark st = do_mirrorMark s) R"
proof (rule ensuresI)
  fix st a st' assume was: "at_rest api keys projectId s es v st"
    and run: "and_then (commitAcceptedEntry api chain e applied bytes nowMs extra) (\<lambda>proposal.
      and_then (updates (refresh_cache applied)) (\<lambda>_. yields (Accepted (answer proposal)))) st =
      (Accepted a :: ('e, 'b) outcome, st')"
  from run obtain proposal s1 where commit: "commitAcceptedEntry api chain e applied bytes nowMs extra st =
      (Accepted proposal :: ('e, applied_proposal option) outcome, s1)" and st': "st' = refresh_cache applied s1"
    and a: "a \<in> range answer" by (auto simp: and_then_Accepted)
  from was have ok: "holds api projectId st es v" "view_cached st es v" "tables_follow api keys projectId st es v"
    and same: "stored st = s" by (simp_all add: at_rest_def consistent_def sound_def)
  have reach: "chain_reached api es v" using ok(1) by (simp add: holds_def)
  obtain ev v' where v': "applied = view_of v'" "holds api projectId s1 (es @ [e]) v'"
    "tables_follow api keys projectId s1 (es @ [e]) v'"
    "cache_current (do_cache s1) = cache_current (do_cache st)" "do_mirrorMark s1 = do_mirrorMark st"
    using commit_follows [OF ok(1,3) acceptable_fits(2,1) [OF acceptable chain was] genesis extra commit chain_at_head(1) [OF chain was]]
    by blast
  have "consistent api keys projectId (refresh_cache (view_of v') s1) (es @ [e]) v'"
    by (rule refresh_follows [OF v'(2,3) _ v'(4) ok(2) reach]) simp_all
  moreover have "do_mirrorMark st = do_mirrorMark s" using same by (auto simp: stored_def project_storage.truncate_def)
  ultimately show "a \<in> range answer \<and> extended api keys projectId (es @ [e]) applied st' \<and> do_mirrorMark st' = do_mirrorMark s"
    using v'(1,5) a by (auto simp: extended_def st' refresh_cache_def)
next
  fix st x st' assume "and_then (commitAcceptedEntry api chain e applied bytes nowMs extra) (\<lambda>proposal.
      and_then (updates (refresh_cache applied)) (\<lambda>_. yields (Accepted (answer proposal)))) st = (Rejected x, st')"
  with commit_never_rejects show "R st'" by (fastforce simp: and_then_Rejected)
qed

section \<open>The requests\<close>

lemma loadChainForMember_reads:
  "ensures (at_rest api keys projectId s es v) (loadChainForMember api caller)
     (\<lambda>(chain, state) st. at_rest api keys projectId s es v st \<and> (chain_at projectId s es v chain \<and> es \<noteq> [] \<and>
        state = fst (view_of v) \<and> map_has (st_members state) caller))
     (at_rest api keys projectId s es v)"
  unfolding loadChainForMember_def case_prod_beta
  apply (rule ensures_reads [OF loadChain_reads], assumption)
  apply (rule ensures_if, rule ensures_refuse)
  apply (rule ensures_fact [where F = "es \<noteq> []"])
   apply (use chain_at_head(2) in fastforce)
  apply (rule ensures_reads [OF derive_reads], assumption+)
  apply (rule ensures_yields)
   apply (auto split: if_splits)
  done

text \<open>What an accepted append answers and leaves.\<close>

definition appended ::
  "crypto_api \<Rightarrow> signing_api \<Rightarrow> ustr \<Rightarrow> chain_entry list \<Rightarrow> verifier \<Rightarrow> chain_entry \<Rightarrow> ustr \<Rightarrow> user_id \<Rightarrow>
   chain_head_value \<Rightarrow> project_do \<Rightarrow> bool" where
  "appended api keys projectId es v e parent caller head st \<longleftrightarrow>
     es \<noteq> [] \<and> parent = v_prevHash v \<and> map_has (st_members (fst (view_of v))) caller \<and>
     (\<exists>applied. extended api keys projectId (es @ [e]) applied st \<and> head = head_value applied)"

lemma ensureParentHead_at:
  "ensureParentHead chain parent = Accepted () \<Longrightarrow> chain_at projectId s es v chain \<Longrightarrow> es \<noteq> [] \<Longrightarrow>
   at_rest api keys projectId s es v st \<Longrightarrow> parent = v_prevHash v"
  using chain_at_head(3) by (auto simp: ensureParentHead_def split: if_splits)

text \<open>The end of an append: an acceptable entry with the current parent is committed.\<close>

lemma commit_appends:
  assumes "verifyAcceptableEntry api chain e = Accepted accepted" and "ensureParentHead chain parent = Accepted ()"
    and "chain_at projectId s es v chain" and "es \<noteq> []" and "map_has (st_members (fst (view_of v))) caller"
    and "\<And>s. do_rows (extra s) = do_rows s \<and> do_cache (extra s) = do_cache s \<and> chain_rows (do_audit (extra s)) = chain_rows (do_audit s) \<and>
      do_attestations (extra s) = do_attestations s \<and> do_mirrorMark (extra s) = do_mirrorMark s"
  shows "ensures (at_rest api keys projectId s es v)
     (and_then (commitAcceptedEntry api chain e (snd accepted) (fst accepted) nowMs extra) (\<lambda>proposal.
      and_then (updates (refresh_cache (snd accepted))) (\<lambda>_.
      yields (Accepted (head_value (snd accepted), f proposal)))))
     (\<lambda>a st. appended api keys projectId es v e parent caller (fst a) st)
     (at_rest api keys projectId s es v)"
  apply (rule ensures_fact [where F = "parent = v_prevHash v"])
   apply (rule ensureParentHead_at [OF assms(2-4)], assumption)
  apply (rule ensures_weaken [OF commit_extends [where bytes = "fst accepted", OF _ assms(3) _ assms(6)]])
       apply (use assms in \<open>auto simp: appended_def simp del: split_paired_Ex\<close>)
  done

lemma append_entry_ensures:
  "ensures (at_rest api keys projectId s es v) (append_entry api parent e caller w)
     (\<lambda>a st. appended api keys projectId es v e parent caller (fst a) st)
     (at_rest api keys projectId s es v)"
  unfolding append_entry_def case_prod_beta
  apply (rule ensures_reads [OF loadChainForMember_reads [unfolded case_prod_beta]], assumption)
  apply (elim conjE)
  apply (rule ensures_check, assumption)
  apply (rule ensures_check, assumption)
  apply (rule ensures_check, assumption)
  apply (rule commit_appends)
       apply (auto elim: chain_at_head)
  done

lemma save_snapshots_frame:
  "do_rows (save_snapshots seq hash ts st) = do_rows st \<and> do_cache (save_snapshots seq hash ts st) = do_cache st \<and>
   chain_rows (do_audit (save_snapshots seq hash ts st)) = chain_rows (do_audit st) \<and>
   do_attestations (save_snapshots seq hash ts st) = do_attestations st \<and>
   do_mirrorMark (save_snapshots seq hash ts st) = do_mirrorMark st"
  unfolding save_snapshots_def
  by (induction ts arbitrary: st) (simp_all add: case_prod_beta upsertCheckpointSnapshot_def Let_def)

lemma checkpoint_ensures:
  "ensures (at_rest api keys projectId s es v) (standaloneCheckpointProgram api parent e p caller w)
     (\<lambda>a st. appended api keys projectId es v e parent caller (fst a) st)
     (at_rest api keys projectId s es v)"
  unfolding standaloneCheckpointProgram_def case_prod_beta
  apply (rule ensures_reads [OF loadInitialized_reads], assumption)
  apply (elim conjE, rule ensures_reads [OF derive_reads], assumption+)
  apply (rule ensures_check, assumption)
  apply (rule ensures_check, assumption)
  apply (rule ensures_option, rule ensures_refuse)
  apply (rule ensures_check, assumption)
  apply (rule ensures_check, assumption)
  apply (rule ensures_check, assumption)
  apply (rule ensures_check, assumption)
  apply (rule ensures_check, assumption)
  apply (rule ensures_check, assumption)
  apply (rule commit_appends [OF _ _ _ _ _ save_snapshots_frame])
      apply (auto simp: requireChainRole_def map_has_ex split: option.splits)
  done

lemma appendProgram_ensures:
  "ensures (at_rest api keys projectId s es v) (appendProgram api parent e caller w)
     (\<lambda>a st. appended api keys projectId es v e parent caller (fst a) st)
     (at_rest api keys projectId s es v)"
  by (cases "entry_operation e")
    (auto simp: appendProgram_def ensures_refuse append_entry_ensures checkpoint_ensures split: proposable_operation.split)

text \<open>The tables of an object without entries are created empty.\<close>

lemma tables_created:
  assumes "at_rest api keys projectId s [] v st"
  shows "at_rest api keys projectId (s\<lparr>do_rows := Some []\<rparr>) [] v (ensureProjectDoTables st)"
proof -
  from assms have ok: "consistent api keys projectId st [] v" and same: "stored st = s" by (simp_all add: at_rest_def)
  have "rows_of st = []" using ok by (simp add: consistent_def sound_def holds_def)
  then have new: "ensureProjectDoTables st = st\<lparr>do_rows := Some []\<rparr>"
    by (auto simp: ensureProjectDoTables_def rows_of_def split: option.splits)
  have "holds api projectId (st\<lparr>do_rows := Some []\<rparr>) [] v"
    using ok \<open>rows_of st = []\<close>
    by (auto simp: consistent_def sound_def holds_def rows_of_def total_bytes_def chain_value_def split: option.splits)
  with ok have "consistent api keys projectId (st\<lparr>do_rows := Some []\<rparr>) [] v"
    using tables_follow_cong [of "st\<lparr>do_rows := Some []\<rparr>" st]
    by (simp add: consistent_def sound_def view_cached_def)
  moreover have "stored (st\<lparr>do_rows := Some []\<rparr>) = s\<lparr>do_rows := Some []\<rparr>"
    using same by (auto simp: stored_def project_storage.truncate_def)
  ultimately show ?thesis by (simp add: at_rest_def new)
qed

lemma created_chain:
  assumes "chain_at projectId s [] v chain" and "at_rest api keys projectId s [] v st"
  shows "chain_at projectId (s\<lparr>do_rows := Some []\<rparr>) [] v chain"
proof -
  have "rows_of st = []" using assms(2) by (simp add: at_rest_def consistent_def sound_def holds_def)
  then have "chain = chain_value projectId st [] v" "total_bytes st = 0"
    using assms by (simp_all add: chain_at_def at_rest_def total_bytes_def)
  moreover have "total_bytes st' = 0" if "stored st' = s\<lparr>do_rows := Some []\<rparr>" for st'
    using that by (cases s) (auto simp: total_bytes_def rows_of_def stored_def project_storage.truncate_def)
  ultimately show ?thesis by (simp add: chain_at_def chain_value_def)
qed

lemma initProgram_ensures:
  assumes "expected = projectId"
  shows "ensures (at_rest api keys projectId s es v) (initProgram api expected e admitFresh w)
     (\<lambda>head st. es = [] \<and> (\<exists>applied. extended api keys projectId [e] applied st \<and> head = head_value applied) \<and>
        do_mirrorMark st = project_storage.do_mirrorMark s)
     (at_rest api keys projectId s es v)"
  unfolding initProgram_def case_prod_beta
  apply (rule ensures_reads [OF loadChain_reads], assumption)
  apply (rule ensures_if)
   apply (rule ensures_yields)
    apply (auto split: list.splits option.splits) [2]
  apply (rule ensures_if, rule ensures_refuse)
  apply (rule ensures_check, assumption)
  apply (rule ensures_if, rule ensures_refuse)
  apply (rule ensures_fact [where F = "es = []"])
   apply (use chain_at_head(2) in fastforce)
  subgoal for chain accepted
    apply (rule ensures_fact [where F = "chain_at projectId (s\<lparr>do_rows := Some []\<rparr>) [] v chain"])
     apply (rule created_chain, simp, simp)
    apply (rule ensures_and_then [where Q = "\<lambda>_. at_rest api keys projectId (s\<lparr>do_rows := Some []\<rparr>) [] v"])
     apply (rule ensures_updates, simp add: tables_created)
    apply (rule ensures_weaken [OF commit_extends [where bytes = "fst accepted" and es = "[]" and s = "s\<lparr>do_rows := Some []\<rparr>"]])
           apply (use assms in \<open>auto simp del: split_paired_Ex\<close>)
    done
  done

text \<open>
  The remaining requests against the invariant: the head attestation, the snapshot and the role, and the
  guards that the entry points put around a program.
\<close>

section \<open>Attestations\<close>

definition follows :: "crypto_api \<Rightarrow> signing_api \<Rightarrow> ustr \<Rightarrow> chain_entry list \<Rightarrow> verifier \<Rightarrow> project_do \<Rightarrow> bool" where
  "follows api keys projectId es v st \<longleftrightarrow> consistent api keys projectId st es v"

lemma at_rest_follows: "at_rest api keys projectId s es v st \<Longrightarrow> follows api keys projectId es v st"
  by (simp add: at_rest_def follows_def)

lemma follows_at_rest: "follows api keys projectId es v st \<Longrightarrow> at_rest api keys projectId (stored st) es v st"
  by (simp add: at_rest_def follows_def)

lemma consistent_cong:
  assumes "do_rows st' = do_rows st" "do_cache st' = do_cache st" "chain_rows (do_audit st') = chain_rows (do_audit st)"
    "do_attestations st' = do_attestations st"
  shows "consistent api keys projectId st' es v = consistent api keys projectId st es v"
  using holds_cong [of st' st] tables_follow_cong [of st' st] assms
  by (simp add: consistent_def sound_def view_cached_def)

lemma window_use_consistent:
  "consistent api keys projectId (recordAttestationWindowUse u now st) es v = consistent api keys projectId st es v"
  by (rule consistent_cong) (simp_all add: recordAttestationWindowUse_def)

lemma members_at:
  assumes "chain_reached api es v" and "es \<noteq> []"
  shows "members_ok (api_sha256 api) (v_seq v) (st_members (fst (view_of v)))"
proof -
  have "v_seq v \<noteq> 0" using reached_seq [OF assms(1)] assms(2) by simp
  then have "state_ok (api_sha256 api) (v_seq v) (v_state v)"
    using reached_ok [OF assms(1)] by (auto simp: verifier_ok_def)
  from state_okD(1) [OF this] show ?thesis by (simp add: view_head(3) [OF assms(1)])
qed

lemma listed_device:
  assumes "member_ok sha256 n u member" and "x \<in> set (activeDevicesOf member)"
  shows "mw_member x = member" and "map_of (devices member) (keyFingerprintHex (mw_device x)) = Some (mw_device x)"
proof -
  from assms(2) obtain fp d where x: "x = withDevice member d" and d: "(fp, d) \<in> set (devices member)"
    by (auto simp: activeDevicesOf_def)
  from assms(1) have "keys_ok (devices member)" "js.everywhere (device_ok sha256 n) (devices member)"
    by (simp_all add: member_ok_def)
  from this(1) d have lookup: "map_of (devices member) fp = Some d" by (simp add: keys_ok_def)
  from js.everywhere_lookup [OF \<open>js.everywhere _ _\<close> this] have "keyFingerprintHex d = fp" by (simp add: device_ok_def)
  with lookup x show "mw_member x = member" "map_of (devices member) (keyFingerprintHex (mw_device x)) = Some (mw_device x)"
    by (simp_all add: withDevice_def)
qed

lemma try_devices_Accepted: "try_devices attempt r ds = Accepted (x, a) \<Longrightarrow> x \<in> set ds \<and> attempt x = Accepted a"
  by (induction attempt r ds rule: try_devices.induct) (auto split: outcome.splits if_splits)

lemma set_AList_update: "set (AList.update k x xs) \<subseteq> insert (k, x) (set xs)"
  by (induction xs) auto

lemma attempt_Accepted:
  "attempt_attestation api keys ctx input candidate = Accepted hash \<Longrightarrow>
   verifyDistributedHeadAttestation api keys
     (attestation_input (mc_history ctx) (mc_projectId ctx) (submitted input candidate)) = Accepted hash"
  by (auto simp: attempt_attestation_def split: outcome.splits crypto_error.splits)

lemma advance_follows:
  assumes known: "caller_at projectId es v caller Reader ctx"
    and attester: "withSigningDevice (mc_member ctx) (attempt_attestation api keys ctx input) = Accepted (x, hash)"
  shows "ensures (follows api keys projectId es v) (advance_attestation caller (submitted input x))
     (\<lambda>_. follows api keys projectId es v) (follows api keys projectId es v)"
proof -
  let ?a = "submitted input x"
  have up: "consistent api keys projectId (upsertHeadAttestation ?a st) es v" if ok: "consistent api keys projectId st es v" for st
  proof -
    have reach: "chain_reached api es v" using ok by (simp add: consistent_def sound_def holds_def)
    have member: "map_of (st_members (fst (view_of v))) caller = Some (mc_member ctx)" and ne: "es \<noteq> []"
      using known by (simp_all add: caller_at_def)
    note mok = members_okD [OF members_at [OF reach ne] member]
    from attester have x: "x \<in> set (activeDevicesOf (mc_member ctx))"
      and attempt: "attempt_attestation api keys ctx input x = Accepted hash"
      by (auto simp: withSigningDevice_def split: if_splits dest: try_devices_Accepted)
    note device = listed_device [OF mok(1) x]
    have "attested_by_current_device (fst (view_of v)) ?a"
      using member device mok(2) by (simp add: attested_by_current_device_def submitted_def map_has_ex)
    moreover have "verifyDistributedHeadAttestation api keys (attestation_input (snd (view_of v)) projectId ?a) = Accepted hash"
      using attempt_Accepted [OF attempt] known by (simp add: caller_at_def)
    ultimately have good: "attested_by_current_device (fst (view_of v)) ?a \<and>
      (\<exists>hash. verifyDistributedHeadAttestation api keys (attestation_input (snd (view_of v)) projectId ?a) = Accepted hash)"
      by blast
    have "attested api keys projectId (upsertHeadAttestation ?a st) v" if was: "attested api keys projectId st v"
      unfolding attested_def
    proof (intro ballI, clarify)
      fix u f a assume "((u, f), a) \<in> set (do_attestations (upsertHeadAttestation ?a st))"
      then consider "a = ?a" "u = sh_attesterUserId ?a" "f = sh_attesterKeyFingerprintHex ?a" | "((u, f), a) \<in> set (do_attestations st)"
        using set_AList_update [of "(sh_attesterUserId ?a, sh_attesterKeyFingerprintHex ?a)" ?a "do_attestations st"]
        unfolding upsertHeadAttestation_def by auto
      then show "(u, f) = (sh_attesterUserId a, sh_attesterKeyFingerprintHex a) \<and> attested_by_current_device (fst (view_of v)) a \<and>
        (\<exists>hash. verifyDistributedHeadAttestation api keys (attestation_input (snd (view_of v)) projectId a) = Accepted hash)"
      proof cases
        case 1
        with good show ?thesis by simp
      next
        case 2
        with was show ?thesis unfolding attested_def by blast
      qed
    qed
    moreover have "mirrors api (upsertHeadAttestation ?a st) es v = mirrors api st es v"
      by (simp add: mirrors_def upsertHeadAttestation_def)
    moreover have "sound api projectId (upsertHeadAttestation ?a st) es v"
      using ok holds_cong [of "upsertHeadAttestation ?a st" st]
      by (simp add: consistent_def sound_def view_cached_def upsertHeadAttestation_def)
    ultimately show ?thesis using ok by (auto simp: consistent_def tables_follow_def)
  qed
  show ?thesis
    by (rule ensuresI) (auto simp: advance_attestation_def follows_def up split: option.splits if_splits)
qed

lemma attestation_ensures:
  "ensures (follows api keys projectId es v) (putHeadAttestationProgram api keys caller input w)
     (\<lambda>_. follows api keys projectId es v) (follows api keys projectId es v)"
proof -
  have window: "ensures (follows api keys projectId es v) (checkAttestationWindow caller now)
      (\<lambda>a st. follows api keys projectId es v st \<and> True) (follows api keys projectId es v)" for now
    by (rule ensuresI) (auto simp: checkAttestationWindow_def split: option.splits if_splits)
  have use': "ensures (follows api keys projectId es v) (updates (recordAttestationWindowUse caller now))
      (\<lambda>a st. follows api keys projectId es v st \<and> True) (follows api keys projectId es v)" for now
    by (intro ensures_updates) (simp add: follows_def window_use_consistent)
  have load: "ensures (follows api keys projectId es v) (requireMemberState api caller Reader)
      (\<lambda>ctx st. follows api keys projectId es v st \<and> caller_at projectId es v caller Reader ctx)
      (follows api keys projectId es v)"
  proof (rule ensuresI)
    fix st a st' assume "follows api keys projectId es v st" "requireMemberState api caller Reader st = (Accepted a, st')"
    from ensuresD(1) [OF requireMemberState_reads follows_at_rest [OF this(1)] this(2)]
    show "follows api keys projectId es v st' \<and> caller_at projectId es v caller Reader a"
      by (simp add: at_rest_def follows_def)
  next
    fix st a st' assume "follows api keys projectId es v st" "requireMemberState api caller Reader st = (Rejected a, st')"
    from at_rest_follows [OF ensuresD(2) [OF requireMemberState_reads follows_at_rest [OF this(1)] this(2)]]
    show "follows api keys projectId es v st'" .
  qed
  show ?thesis
    unfolding putHeadAttestationProgram_def case_prod_beta
    apply (rule ensures_reads [OF load], assumption)
    apply (rule ensures_reads [OF window], assumption)
    apply (rule ensures_reads [OF use'], assumption)
    apply (rule ensures_check, assumption)
    subgoal for ctx _ _ answer by (rule advance_follows [where hash = "snd answer"]) simp_all
    done
qed

section \<open>The snapshot and the role\<close>

definition snapshot_at ::
  "project_storage \<Rightarrow> chain_entry list \<Rightarrow> verifier \<Rightarrow> user_id \<Rightarrow> chain_snapshot_value \<Rightarrow> bool" where
  "snapshot_at s es v caller answer \<longleftrightarrow>
     es \<noteq> [] \<and> map_has (st_members (fst (view_of v))) caller \<and>
     answer = \<lparr>cs_entries = es, cs_headSeq = int (length es), cs_headHashHex = v_prevHash v,
       cs_attestations = filter (attested_by_current_device (fst (view_of v)))
         (toSorted by_attester (map snd (project_storage.do_attestations s)))\<rparr>"

lemma snapshot_ensures:
  "ensures (at_rest api keys projectId s es v) (snapshotProgram api caller)
     (\<lambda>answer st. at_rest api keys projectId s es v st \<and> snapshot_at s es v caller answer)
     (at_rest api keys projectId s es v)"
  unfolding snapshotProgram_def case_prod_beta
proof (rule ensures_reads [OF loadChainForMember_reads [unfolded case_prod_beta]])
  fix r assume r: "chain_at projectId s es v (fst r) \<and> es \<noteq> [] \<and> snd r = fst (view_of v) \<and> map_has (st_members (snd r)) caller"
  then have chain: "chain_at projectId s es v (fst r)" by simp
  show "ensures (at_rest api keys projectId s es v)
     (\<lambda>st. (Accepted \<lparr>cs_entries = sc_entries (fst r), cs_headSeq = sc_headSeq (fst r),
         cs_headHashHex = case sc_headHashHex (fst r) of None \<Rightarrow> [] | Some head \<Rightarrow> head,
         cs_attestations = filter (attested_by_current_device (snd r)) (listHeadAttestations st)\<rparr>, st))
     (\<lambda>answer st. at_rest api keys projectId s es v st \<and> snapshot_at s es v caller answer)
     (at_rest api keys projectId s es v)"
    using r chain_at_head [OF chain]
    by (intro ensuresI)
      (auto simp: snapshot_at_def listHeadAttestations_def at_rest_def stored_def project_storage.truncate_def)
qed (assumption)

lemma role_ensures:
  "ensures (at_rest api keys projectId s es v) (memberRoleProgram api caller)
     (\<lambda>answer st. at_rest api keys projectId s es v st \<and>
        map_option mem_role (map_of (st_members (fst (view_of v))) caller) = Some answer)
     (at_rest api keys projectId s es v)"
  unfolding memberRoleProgram_def
  by (rule ensures_reads [OF requireMemberState_reads], assumption, rule ensures_yields) (auto simp: caller_at_def)

section \<open>The entry points\<close>

lemma dropped_at_rest: "at_rest api keys projectId s es v st \<Longrightarrow> at_rest api keys projectId s es v (st\<lparr>do_cache := NO_CACHE\<rparr>)"
  by (auto simp: at_rest_def consistent_dropped)

text \<open>A defect drops the caches.\<close>

lemma invalidate_settles:
  assumes "ensures (at_rest api keys projectId s es v) p Q R" and "at_rest api keys projectId s es v st"
    and "invalidateCachesOnDefect p st = (r, st')"
  shows "case r of Accepted a \<Rightarrow> Q a st' | Rejected _ \<Rightarrow> R st' | Threw \<Rightarrow> do_cache st' = NO_CACHE"
  using assms(3) ensuresD [OF assms(1,2)]
  by (auto simp: invalidateCachesOnDefect_def split: prod.splits outcome.splits)

lemma runData_settles:
  assumes "ensures (at_rest api keys projectId s es v) p Q R" and "\<And>st. at_rest api keys projectId s es v st \<Longrightarrow> R st"
    and "at_rest api keys projectId s es v st" and "runData p st = (r, st')"
  shows "case r of Accepted a \<Rightarrow> Q a st' | Rejected _ \<Rightarrow> R st' | Threw \<Rightarrow> do_cache st' = NO_CACHE"
  using assms(2) [OF assms(3)] assms(4) invalidate_settles [OF assms(1,3)]
  by (auto simp: runData_def split: if_splits)

lemma ensureWritable_reads:
  "ensures (at_rest api keys projectId s es v) ensureWritable
     (\<lambda>_ st. at_rest api keys projectId s es v st \<and> \<not> project_storage.do_mirrorMark s) (at_rest api keys projectId s es v)"
  by (rule ensuresI)
    (auto simp: ensureWritable_def at_rest_def stored_def project_storage.truncate_def split: if_splits)

lemma runWrite_settles:
  assumes "ensures (at_rest api keys projectId s es v) p Q R" and "\<And>st. at_rest api keys projectId s es v st \<Longrightarrow> R st"
    and "at_rest api keys projectId s es v st" and "runWrite api caller p st = (r, st')"
  shows "case r of
      Accepted a \<Rightarrow> Q a st' \<and> \<not> project_storage.do_mirrorMark s
    | Rejected _ \<Rightarrow> R st' | Threw \<Rightarrow> do_cache st' = NO_CACHE"
proof (rule runData_settles [OF _ assms(2,3) assms(4) [unfolded runWrite_def]])
  show "ensures (at_rest api keys projectId s es v)
      (and_then (requireMemberState api caller Reader) (\<lambda>_. and_then ensureWritable (\<lambda>_. p)))
      (\<lambda>a st. Q a st \<and> \<not> project_storage.do_mirrorMark s) R"
    apply (rule ensures_reads [OF requireMemberState_reads], erule assms(2))
    apply (rule ensures_reads [OF ensureWritable_reads], erule assms(2))
    apply (rule ensures_weaken [OF assms(1)], simp_all)
    done
qed

end
