(* ===== verification/Chain_Object_Steps.thy ===== *)
theory Chain_Object_Steps
  imports Chain_Object_Programs
begin

text \<open>
  The object over its lifetime: the requests of the chain, the chain part of the composites, and what the
  programs of the data plane do to the object otherwise, as steps. Every state the steps reach from a new
  object is consistent.
\<close>

section \<open>The composites\<close>

text \<open>
  The data plane writes its own tables and appends its own audit rows; the chain, its mirror rows, the
  attestations and the caches are not its to write.
\<close>

definition data_write :: "project_do \<Rightarrow> project_do \<Rightarrow> bool" where
  "data_write st st' \<longleftrightarrow>
     do_rows st' = do_rows st \<and> do_cache st' = do_cache st \<and> do_attestations st' = do_attestations st \<and>
     do_windows st' = do_windows st \<and> do_mirrorMark st' = do_mirrorMark st \<and>
     (\<exists>rows. do_audit st' = do_audit st @ map Data_Row rows)"

lemma chain_rows_data: "chain_rows (map Data_Row rows) = []"
  by (induction rows) simp_all

lemma data_write_consistent:
  "data_write st st' \<Longrightarrow> consistent api keys projectId st' es v = consistent api keys projectId st es v"
  by (rule consistent_cong) (auto simp: data_write_def chain_rows_data)

definition composite_pair :: "chain_entry \<Rightarrow> chain_entry \<Rightarrow> bool" where
  "composite_pair e checkpoint \<longleftrightarrow>
     (case entry_operation e of
        Direct (Create_Environment _) \<Rightarrow> True | Direct (Rotate_Epoch _) \<Rightarrow> True | _ \<Rightarrow> False) \<and>
     (case entry_operation checkpoint of Direct (Checkpoint _) \<Rightarrow> True | _ \<Rightarrow> False)"

lemma acceptable_pair_fits:
  assumes "verifyAcceptableEntryPair api chain e checkpoint = Accepted (bytes1, bytes2, applied)"
    and "chain_at projectId s es v chain" and "at_rest api keys projectId s es v st"
  shows "fits_store st es e bytes1"
    and "total_bytes st' = total_bytes st + bytes1 \<Longrightarrow> fits_store st' (es @ [e]) checkpoint bytes2"
    and "verifyChainEffect api (es @ [e, checkpoint]) = Accepted applied"
proof -
  from assms(2,3) have chain: "chain = chain_value projectId st es v" by (simp add: chain_at_def at_rest_def)
  have nonneg: "0 \<le> bytes2"
    using assms(1) by (auto simp: verifyAcceptableEntryPair_def checkEntrySize_def canonicalBytesOf_def
        rejectChainInvalid_def split: option.splits outcome.splits if_splits)
  with assms(1) chain show "fits_store st es e bytes1"
    "total_bytes st' = total_bytes st + bytes1 \<Longrightarrow> fits_store st' (es @ [e]) checkpoint bytes2"
    "verifyChainEffect api (es @ [e, checkpoint]) = Accepted applied"
    by (auto simp: verifyAcceptableEntryPair_def checkEntrySize_def canonicalBytesOf_def rejectChainInvalid_def
        fits_store_def chain_value_def split: option.splits outcome.splits if_splits)
qed

lemma pair_follows:
  assumes rest: "at_rest api keys projectId s es v st" and chain: "chain_at projectId s es v chain" and ne: "es \<noteq> []"
    and pair: "composite_pair e checkpoint"
    and acceptable: "verifyAcceptableEntryPair api chain e checkpoint = Accepted (bytes1, bytes2, applied)"
    and insert: "insertAcceptedEntryPairSync e checkpoint applied bytes1 bytes2 nowMs st = (Accepted () :: ('e, unit) outcome, s1)"
    and wrote: "data_write s1 s2"
  shows "extended api keys projectId (es @ [e, checkpoint]) applied (refresh_cache applied s2)"
proof -
  from rest have ok: "holds api projectId st es v" "view_cached st es v" "tables_follow api keys projectId st es v"
    by (simp_all add: at_rest_def consistent_def sound_def)
  have reach: "chain_reached api es v" using ok(1) by (simp add: holds_def)
  note fits = acceptable_pair_fits [OF acceptable chain rest]
  from fits(3) obtain v2 where reach2: "chain_reached api (es @ [e, checkpoint]) v2" and applied: "applied = view_of v2"
    by (auto simp: effect_reached)
  then have "chain_reached api ((es @ [e]) @ [checkpoint]) v2" by simp
  then obtain v1 ev2 where reach1: "chain_reached api (es @ [e]) v1" and step2: "accepts api v1 checkpoint ev2 v2"
    by (rule reached_last)
  from reach1 obtain v0 ev1 where "chain_reached api es v0" "accepts api v0 e ev1 v1" by (rule reached_last)
  with reach have step1: "accepts api v e ev1 v1" using reached_unique by blast
  obtain op1 op2 where op: "entry_operation e = Direct op1" "subject_at api e = None"
    "entry_operation checkpoint = Direct op2" "subject_at api checkpoint = None"
    using pair by (auto simp: composite_pair_def subject_at_def mirrorSubjectOf_def
        split: chain_operation.splits proposable_operation.splits)
  have prev: "entry_prevHashHex checkpoint = v_prevHash v1" using accepts_hash(2) [OF step2] .
  from insert obtain u where
    i1: "insert_entry e (v_prevHash v1) bytes1 nowMs NO_PROPOSALS None st = (Accepted () :: ('e, unit) outcome, u)"
    and i2: "insert_entry checkpoint (v_prevHash v2) bytes2 nowMs NO_PROPOSALS None u = (Accepted () :: ('e, unit) outcome, s1)"
    by (auto simp: insertAcceptedEntryPairSync_def and_then_Accepted prev applied view_head(1) [OF reach2])
  note first = insert_direct_follows [OF ok(1,3) step1 fits(1) _ op(1,2) i1]
  have first: "holds api projectId u (es @ [e]) v1" "tables_follow api keys projectId u (es @ [e]) v1"
    "cache_current (do_cache u) = cache_current (do_cache st)" "total_bytes u = total_bytes st + bytes1"
    using first ne by simp_all
  note second = insert_direct_follows [OF first(1,2) step2 fits(2) [OF first(4)] _ op(3,4) i2]
  have second: "holds api projectId s1 (es @ [e, checkpoint]) v2" "tables_follow api keys projectId s1 (es @ [e, checkpoint]) v2"
    "cache_current (do_cache s1) = cache_current (do_cache u)"
    using second by simp_all
  have frame: "do_rows s2 = do_rows s1" "do_cache s2 = do_cache s1" "do_attestations s2 = do_attestations s1"
    "chain_rows (do_audit s2) = chain_rows (do_audit s1)"
    using wrote by (auto simp: data_write_def chain_rows_data)
  have "consistent api keys projectId (refresh_cache (view_of v2) s2) (es @ [e, checkpoint]) v2"
  proof (rule refresh_follows [OF _ _ _ _ ok(2) reach])
    show "holds api projectId s2 (es @ [e, checkpoint]) v2" using second(1) holds_cong [of s2 s1] frame by simp
    show "tables_follow api keys projectId s2 (es @ [e, checkpoint]) v2"
      using second(2) tables_follow_cong [of s2 s1] frame by simp
    show "cache_current (do_cache s2) = cache_current (do_cache st)" using frame second(3) first(3) by simp
  qed simp_all
  then show ?thesis by (auto simp: extended_def applied)
qed

text \<open>The deletion of an environment is one entry, committed with the deletion of its data.\<close>

lemma deletion_follows:
  assumes rest: "at_rest api keys projectId s es v st" and chain: "chain_at projectId s es v chain" and ne: "es \<noteq> []"
    and acceptable: "verifyAcceptableEntry api chain e = Accepted (bytes, applied)" and wrote: "\<And>u. data_write u (extra u)"
    and commit: "commitAcceptedEntry api chain e applied bytes nowMs extra st =
      (Accepted proposal :: ('e, applied_proposal option) outcome, s1)"
  shows "extended api keys projectId (es @ [e]) applied (refresh_cache applied s1)"
proof -
  have "do_rows (extra u) = do_rows u \<and> do_cache (extra u) = do_cache u \<and>
      chain_rows (do_audit (extra u)) = chain_rows (do_audit u) \<and>
      do_attestations (extra u) = do_attestations u \<and> do_mirrorMark (extra u) = do_mirrorMark u" for u
    using wrote [of u] by (auto simp: data_write_def chain_rows_data)
  note run = commit_extends [where answer = "\<lambda>_. ()" and extra = extra and nowMs = nowMs, OF acceptable chain _ this]
  have "and_then (commitAcceptedEntry api chain e applied bytes nowMs extra) (\<lambda>_.
      and_then (updates (refresh_cache applied)) (\<lambda>_. yields (Accepted ()))) st =
      (Accepted () :: ('e, unit) outcome, refresh_cache applied s1)"
    using commit by (auto simp: and_then_Accepted)
  from ensuresD(1) [OF run rest this] ne show ?thesis by simp
qed

section \<open>Steps\<close>

text \<open>
  The platform runs a call of the object as one task of its storage: when the call ends with a defect, what
  it wrote is taken back, while the memory of the object stays as the call left it.
\<close>

definition storage_task :: "('e, 'a) program \<Rightarrow> ('e, 'a) program" where
  "storage_task p st = (case p st of (Threw, st') \<Rightarrow> (Threw, st\<lparr>do_cache := do_cache st'\<rparr>) | answer \<Rightarrow> answer)"

lemma task_settles:
  assumes "storage_task p st = (r, st')" and "at_rest api keys projectId s es v st"
    and "\<And>r st'. p st = (r, st') \<Longrightarrow> case r of Accepted a \<Rightarrow> Q a st' | Rejected _ \<Rightarrow> R st' | Threw \<Rightarrow> do_cache st' = NO_CACHE"
  shows "case r of Accepted a \<Rightarrow> Q a st' | Rejected _ \<Rightarrow> R st' | Threw \<Rightarrow> at_rest api keys projectId s es v st'"
proof -
  obtain q u where run: "p st = (q, u)" by fastforce
  with assms(1,3) dropped_at_rest [OF assms(2)] show ?thesis by (cases q) (auto simp: storage_task_def)
qed

lemma task_invalidate:
  assumes "ensures (at_rest api keys projectId s es v) p Q R" and "at_rest api keys projectId s es v st"
    and "storage_task (invalidateCachesOnDefect p) st = (r, st')"
  shows "case r of Accepted a \<Rightarrow> Q a st' | Rejected _ \<Rightarrow> R st' | Threw \<Rightarrow> at_rest api keys projectId s es v st'"
  using assms(3,2) by (rule task_settles) (rule invalidate_settles [OF assms(1,2)])

lemma task_runData:
  assumes "ensures (at_rest api keys projectId s es v) p Q R" and "\<And>st. at_rest api keys projectId s es v st \<Longrightarrow> R st"
    and "at_rest api keys projectId s es v st" and "storage_task (runData p) st = (r, st')"
  shows "case r of Accepted a \<Rightarrow> Q a st' | Rejected _ \<Rightarrow> R st' | Threw \<Rightarrow> at_rest api keys projectId s es v st'"
  using assms(4,3) by (rule task_settles) (rule runData_settles [OF assms(1-3)])

lemma task_runWrite:
  assumes "ensures (at_rest api keys projectId s es v) p Q R" and "\<And>st. at_rest api keys projectId s es v st \<Longrightarrow> R st"
    and "at_rest api keys projectId s es v st" and "storage_task (runWrite api caller p) st = (r, st')"
  shows "case r of Accepted a \<Rightarrow> Q a st' | Rejected _ \<Rightarrow> R st' | Threw \<Rightarrow> at_rest api keys projectId s es v st'"
proof -
  from runWrite_settles [OF assms(1-3)]
  have "case r of Accepted a \<Rightarrow> Q a u | Rejected _ \<Rightarrow> R u | Threw \<Rightarrow> do_cache u = NO_CACHE"
    if "runWrite api caller p st = (r, u)" for r u
    using that by (cases r) fastforce+
  from task_settles [OF assms(4,3) this] show ?thesis .
qed

lemma task_answers:
  "p st = (Accepted a, st') \<Longrightarrow> storage_task p st = (Accepted a, st')"
  "p st = (Rejected e, st') \<Longrightarrow> storage_task p st = (Rejected e, st')"
  by (simp_all add: storage_task_def)

inductive do_step :: "crypto_api \<Rightarrow> signing_api \<Rightarrow> ustr \<Rightarrow> project_do \<Rightarrow> project_do \<Rightarrow> bool"
  for api :: crypto_api and keys :: signing_api and projectId :: ustr where
  step_init: "storage_task (request_init api projectId e admitFresh w) st = (answer, st') \<Longrightarrow> do_step api keys projectId st st'"
| step_append: "storage_task (request_append api parent e caller w) st = (answer, st') \<Longrightarrow> do_step api keys projectId st st'"
| step_snapshot: "storage_task (request_snapshot api caller) st = (answer, st') \<Longrightarrow> do_step api keys projectId st st'"
| step_attestation: "storage_task (request_attestation api keys caller input w) st = (answer, st') \<Longrightarrow> do_step api keys projectId st st'"
| step_role: "storage_task (request_role api caller) st = (answer, st') \<Longrightarrow> do_step api keys projectId st st'"
| step_guard: "storage_task (runData (requireMemberState api caller minimum)) st = (answer, st') \<Longrightarrow> do_step api keys projectId st st'"
| step_data: "data_write st st' \<Longrightarrow> do_step api keys projectId st st'"
| step_pair:
    "requireMemberState api caller minimum st = (Accepted ctx, s1) \<Longrightarrow> loadInitializedChain s1 = (Accepted chain, s2) \<Longrightarrow>
     composite_pair e checkpoint \<Longrightarrow>
     verifyAcceptableEntryPair api chain e checkpoint = Accepted (bytes1, bytes2, applied) \<Longrightarrow>
     insertAcceptedEntryPairSync e checkpoint applied bytes1 bytes2 nowMs s2 = (Accepted () :: (data_rejection, unit) outcome, s3) \<Longrightarrow>
     data_write s3 s4 \<Longrightarrow> do_step api keys projectId st (refresh_cache applied s4)"
| step_deletion:
    "requireMemberState api caller minimum st = (Accepted ctx, s1) \<Longrightarrow> loadInitializedChain s1 = (Accepted chain, s2) \<Longrightarrow>
     entry_operation e = Direct (Delete_Environment environmentId) \<Longrightarrow>
     verifyAcceptableEntry api chain e = Accepted (bytes, applied) \<Longrightarrow> (\<And>u. data_write u (extra u)) \<Longrightarrow>
     commitAcceptedEntry api chain e applied bytes nowMs extra s2 =
       (Accepted proposal :: (data_rejection, applied_proposal option) outcome, s3) \<Longrightarrow>
     do_step api keys projectId st (refresh_cache applied s3)"
| step_restart: "do_step api keys projectId st (st\<lparr>do_cache := NO_CACHE\<rparr>)"
| step_mark: "do_step api keys projectId st (st\<lparr>do_mirrorMark := mark\<rparr>)"

inductive do_reachable :: "crypto_api \<Rightarrow> signing_api \<Rightarrow> ustr \<Rightarrow> project_do \<Rightarrow> bool"
  for api :: crypto_api and keys :: signing_api and projectId :: ustr where
  do_start: "do_reachable api keys projectId new_project_do"
| do_next: "do_reachable api keys projectId st \<Longrightarrow> do_step api keys projectId st st' \<Longrightarrow> do_reachable api keys projectId st'"

lemma extended_ok: "extended api keys projectId es applied st \<Longrightarrow> object_ok api keys projectId st"
  by (auto simp: extended_def object_ok_def)

lemma at_rest_ok: "at_rest api keys projectId s es v st \<Longrightarrow> object_ok api keys projectId st"
  by (auto simp: at_rest_def object_ok_def)

lemma follows_ok: "follows api keys projectId es v st \<Longrightarrow> object_ok api keys projectId st"
  by (auto simp: follows_def object_ok_def)

lemma loaded_for_composite:
  assumes rest: "at_rest api keys projectId s es v st"
    and guard: "requireMemberState api caller minimum st = (Accepted ctx, s1)"
    and load: "loadInitializedChain s1 = (Accepted chain, s2)"
  shows "at_rest api keys projectId s es v s2" and "chain_at projectId s es v chain" and "es \<noteq> []"
proof -
  from ensuresD(1) [OF requireMemberState_reads rest guard] have "at_rest api keys projectId s es v s1" by simp
  from ensuresD(1) [OF loadInitialized_reads this load]
  show "at_rest api keys projectId s es v s2" "chain_at projectId s es v chain" "es \<noteq> []" by simp_all
qed

lemma step_ok:
  assumes "do_step api keys projectId st st'" and "object_ok api keys projectId st"
  shows "object_ok api keys projectId st'"
proof -
  from assms(2) obtain es v where "consistent api keys projectId st es v" by (auto simp: object_ok_def)
  then have rest: "at_rest api keys projectId (stored st) es v st" by (simp add: at_rest_def)
  from assms(1) show ?thesis
  proof cases
    case (step_init e admitFresh w answer)
    from task_invalidate [OF initProgram_ensures [OF refl] rest step_init [unfolded request_init_def]]
    show ?thesis by (auto split: outcome.splits dest: extended_ok at_rest_ok)
  next
    case (step_append parent e caller w answer)
    from task_runWrite [OF appendProgram_ensures _ rest step_append [unfolded request_append_def]]
    show ?thesis by (auto simp: appended_def split: outcome.splits dest: extended_ok at_rest_ok)
  next
    case (step_snapshot caller answer)
    from task_runData [OF snapshot_ensures _ rest step_snapshot [unfolded request_snapshot_def]]
    show ?thesis by (auto split: outcome.splits dest: at_rest_ok)
  next
    case (step_attestation caller input w answer)
    have "ensures (at_rest api keys projectId (stored st) es v) (putHeadAttestationProgram api keys caller input w)
        (\<lambda>_. follows api keys projectId es v) (follows api keys projectId es v)"
      using attestation_ensures at_rest_follows by (rule ensures_weaken)
    from task_runWrite
      [OF this at_rest_follows [where s = "stored st"] rest step_attestation [unfolded request_attestation_def]]
    show ?thesis by (auto split: outcome.splits dest: at_rest_ok follows_ok)
  next
    case (step_role caller answer)
    from task_runData [OF role_ensures _ rest step_role [unfolded request_role_def]]
    show ?thesis by (auto split: outcome.splits dest: at_rest_ok)
  next
    case (step_guard caller minimum answer)
    from task_runData [OF requireMemberState_reads _ rest step_guard]
    show ?thesis by (auto split: outcome.splits dest: at_rest_ok)
  next
    case step_data
    with assms(2) data_write_consistent show ?thesis by (auto simp: object_ok_def)
  next
    case (step_pair caller minimum ctx s1 chain s2 e checkpoint bytes1 bytes2 applied nowMs s3 s4)
    from pair_follows [OF loaded_for_composite [OF rest step_pair(2,3)] step_pair(4-7)] step_pair(1)
    show ?thesis by (auto dest: extended_ok)
  next
    case (step_deletion caller minimum ctx s1 chain s2 e environmentId bytes applied extra nowMs proposal s3)
    from deletion_follows [OF loaded_for_composite [OF rest step_deletion(2,3)] step_deletion(5-7)] step_deletion(1)
    show ?thesis by (auto dest: extended_ok)
  next
    case step_restart
    with dropped_at_rest [OF rest] show ?thesis by (auto dest: at_rest_ok)
  next
    case (step_mark mark)
    have "consistent api keys projectId (st\<lparr>do_mirrorMark := mark\<rparr>) es v"
      using rest consistent_cong [of "st\<lparr>do_mirrorMark := mark\<rparr>" st] by (simp add: at_rest_def)
    with step_mark show ?thesis by (auto simp: object_ok_def)
  qed
qed

lemma reachable_ok: "do_reachable api keys projectId st \<Longrightarrow> object_ok api keys projectId st"
  by (induction rule: do_reachable.induct) (auto intro: new_object_ok step_ok)

end
