(* ===== verification/Chain_Object_Cache.thy ===== *)
theory Chain_Object_Cache
  imports Chain_Object_Steps
begin

text \<open>
  The caches of the object against its tables: whatever a request finds in the caches, it answers and
  leaves in the tables what it would with empty caches.
\<close>

section \<open>Programs that agree\<close>

text \<open>Two runs from states with the same tables answer the same and leave the same tables.\<close>

definition agree :: "(project_do \<Rightarrow> bool) \<Rightarrow> ('e, 'a) program \<Rightarrow> bool" where
  "agree A p \<longleftrightarrow>
     (\<forall>st st'. A st \<longrightarrow> A st' \<longrightarrow> stored st = stored st' \<longrightarrow>
        fst (p st) = fst (p st') \<and> stored (snd (p st)) = stored (snd (p st')))"

lemma agreeI:
  "(\<And>st st'. A st \<Longrightarrow> A st' \<Longrightarrow> stored st = stored st' \<Longrightarrow>
      fst (p st) = fst (p st') \<and> stored (snd (p st)) = stored (snd (p st'))) \<Longrightarrow> agree A p"
  unfolding agree_def by blast

lemma agreeD:
  "agree A p \<Longrightarrow> A st \<Longrightarrow> A st' \<Longrightarrow> stored st = stored st' \<Longrightarrow>
     fst (p st) = fst (p st') \<and> stored (snd (p st)) = stored (snd (p st'))"
  unfolding agree_def by blast

lemma agree_and_then:
  assumes "agree A p" and "ensures A p Q (\<lambda>_. True)" and "\<And>a. agree (Q a) (f a)"
  shows "agree A (and_then p f)"
proof (rule agreeI)
  fix st st' assume A: "A st" "A st'" and same: "stored st = stored st'"
  obtain r s where p: "p st = (r, s)" by fastforce
  obtain r' s' where p': "p st' = (r', s')" by fastforce
  from agreeD [OF assms(1) A same] p p' have eq: "r' = r" "stored s = stored s'" by simp_all
  show "fst (and_then p f st) = fst (and_then p f st') \<and> stored (snd (and_then p f st)) = stored (snd (and_then p f st'))"
  proof (cases r)
    case (Accepted a)
    with ensuresD(1) [OF assms(2)] A p p' eq(1) have "Q a s" "Q a s'" by blast+
    from agreeD [OF assms(3) this eq(2)] Accepted p p' eq(1) show ?thesis by (simp add: and_then_def)
  qed (use p p' eq in \<open>simp_all add: and_then_def\<close>)
qed

lemma agree_yields: "agree A (yields r)"
  by (simp add: agree_def yields_def)

lemma agree_if: "(c \<Longrightarrow> agree A p) \<Longrightarrow> (\<not> c \<Longrightarrow> agree A q) \<Longrightarrow> agree A (if c then p else q)"
  by simp

lemma agree_option:
  "(x = None \<Longrightarrow> agree A p) \<Longrightarrow> (\<And>y. x = Some y \<Longrightarrow> agree A (f y)) \<Longrightarrow> agree A (case x of None \<Rightarrow> p | Some y \<Rightarrow> f y)"
  by (cases x) simp_all

lemma agree_weaken: "agree A p \<Longrightarrow> (\<And>st. B st \<Longrightarrow> A st) \<Longrightarrow> agree B p"
  unfolding agree_def by blast

lemma agree_check: "(\<And>a. r = Accepted a \<Longrightarrow> agree A (f a)) \<Longrightarrow> agree A (and_then (yields r) f)"
proof (cases r)
  case (Accepted a)
  assume "\<And>a. r = Accepted a \<Longrightarrow> agree A (f a)"
  moreover have "and_then (yields r) f = f a" by (simp add: fun_eq_iff and_then_def yields_def Accepted)
  ultimately show ?thesis using Accepted by simp
qed (simp_all add: agree_def and_then_def yields_def)

lemma agree_nowhere: "agree (\<lambda>_. False) p"
  by (simp add: agree_def)

text \<open>Agreement after a read: the tables are still those it started from.\<close>

lemma agree_reads:
  assumes "agree A p" and "ensures A p (\<lambda>a st. A st \<and> Q a) R" and "\<And>a. Q a \<Longrightarrow> agree A (f a)"
  shows "agree A (and_then p f)"
proof (rule agree_and_then [where Q = "\<lambda>a st. A st \<and> Q a"])
  show "ensures A p (\<lambda>a st. A st \<and> Q a) (\<lambda>_. True)" using assms(2) by (rule ensures_weaken) simp_all
  show "agree (\<lambda>st. A st \<and> Q a) (f a)" for a
    using assms(3) [of a] by (cases "Q a") (simp_all add: agree_nowhere)
qed (rule assms(1))

section \<open>Programs that read no cache\<close>

abbreviation anywhere :: "project_do \<Rightarrow> bool" where "anywhere \<equiv> \<lambda>_. True"

lemma agree_anywhere: "agree anywhere p \<Longrightarrow> agree A p"
  by (rule agree_weaken) simp_all

lemma agree_then: "agree anywhere p \<Longrightarrow> (\<And>a. agree anywhere (f a)) \<Longrightarrow> agree anywhere (and_then p f)"
  by (rule agree_and_then [where Q = "\<lambda>_. anywhere"]) (simp_all add: ensures_def)

lemma agree_updates: "(\<And>st st'. stored st = stored st' \<Longrightarrow> stored (f st) = stored (f st')) \<Longrightarrow> agree A (updates f)"
  unfolding agree_def updates_def fst_conv snd_conv by blast

lemma same_tables:
  "stored st = stored st' \<longleftrightarrow>
     do_rows st = do_rows st' \<and> do_audit st = do_audit st' \<and> do_attestations st = do_attestations st' \<and>
     do_windows st = do_windows st' \<and> do_wraps st = do_wraps st' \<and> do_snapshots st = do_snapshots st' \<and>
     do_mirrorMark st = do_mirrorMark st'"
  by (auto simp: stored_def project_storage.truncate_def)

lemma agree_insertSync: "agree anywhere (insertSync e hash bytes)"
  by (rule agreeI) (auto simp: same_tables insertSync_def split: option.splits)

lemma agree_append_mirror: "agree anywhere (append_mirror e now index subject)"
  by (rule agreeI) (auto simp: same_tables append_mirror_def append_audit_def split: option.splits)

lemma deleted_tables:
  "do_windows (fold (deleteDeviceHeadAttestation user) fps st) = do_windows st"
  "do_wraps (fold (deleteDeviceHeadAttestation user) fps st) = do_wraps st"
  "do_snapshots (fold (deleteDeviceHeadAttestation user) fps st) = do_snapshots st"
  by (induction fps arbitrary: st) (simp_all add: deleteDeviceHeadAttestation_def)

lemma side_effects_tables:
  assumes "stored st = stored st'"
  shows "stored (applyAcceptanceSideEffectsSync operation seq st) = stored (applyAcceptanceSideEffectsSync operation seq st')"
proof (cases operation)
  case (Direct inner)
  then show ?thesis using assms
    by (cases inner)
      (simp_all add: same_tables deleteStaleMemberWraps_def deleteHeadAttestation_def appendDetected_def append_audit_def
        deleted_attestations deleted_frame deleted_tables)
qed (use assms in simp_all)

lemma agree_insertAccepted: "agree anywhere (insertAcceptedEntrySync e applied bytes now index subject)"
  unfolding insertAcceptedEntrySync_def insert_entry_def Let_def
  apply (rule agree_then)
   apply (intro agree_then agree_insertSync agree_append_mirror agree_updates side_effects_tables, assumption)
  apply (rule agree_option, rule agree_yields)
  apply (intro agree_then agree_updates side_effects_tables agree_yields, assumption)
  done

lemma agree_commit:
  assumes "\<And>st st'. stored st = stored st' \<Longrightarrow> stored (extra st) = stored (extra st')"
  shows "agree anywhere (commitAcceptedEntry api chain e applied bytes now extra)"
  unfolding commitAcceptedEntry_def Let_def
  by (intro agree_then agree_yields agree_insertAccepted agree_updates assms)

lemma agree_commit_end:
  assumes "\<And>st st'. stored st = stored st' \<Longrightarrow> stored (extra st) = stored (extra st')"
  shows "agree A (and_then (commitAcceptedEntry api chain e applied bytes now extra) (\<lambda>proposal.
      and_then (updates (refresh_cache applied)) (\<lambda>_. yields (answer proposal))))"
  by (rule agree_anywhere, intro agree_then agree_commit agree_updates agree_yields assms)
    (simp_all add: refresh_cache_def)

section \<open>Loading and deriving\<close>

lemma loadChain_answer:
  assumes "at_rest api keys projectId s es v st"
  shows "fst (loadChain st) = Accepted (chain_value projectId st es v)" and "stored (snd (loadChain st)) = stored st"
proof -
  have "sound api projectId st es v" using assms by (simp add: at_rest_def consistent_def)
  note loaded = loadChain_sound [OF this surjective_pairing]
  show "fst (loadChain st) = Accepted (chain_value projectId st es v)" by (rule loaded [THEN conjunct1])
  show "stored (snd (loadChain st)) = stored st" by (rule loaded [THEN conjunct2, THEN conjunct2])
qed

lemma derive_answer:
  assumes "chain_at projectId s es v chain" and "es \<noteq> []" and "at_rest api keys projectId s es v st"
  shows "fst (deriveStoredState api chain st) = Accepted (view_of v)" and "stored (snd (deriveStoredState api chain st)) = stored st"
proof -
  have sound: "sound api projectId st es v" using assms(3) by (simp add: at_rest_def consistent_def)
  have chain: "chain = chain_value projectId st es v" using assms by (simp add: chain_at_def at_rest_def)
  note derived = deriveStoredState_sound [OF sound assms(2) surjective_pairing, folded chain]
  show "fst (deriveStoredState api chain st) = Accepted (view_of v)" by (rule derived [THEN conjunct1])
  show "stored (snd (deriveStoredState api chain st)) = stored st" by (rule derived [THEN conjunct2, THEN conjunct2])
qed

lemma agree_loadChain: "agree (at_rest api keys projectId s es v) loadChain"
proof (rule agreeI)
  fix st st' assume A: "at_rest api keys projectId s es v st" "at_rest api keys projectId s es v st'"
    and same: "stored st = stored st'"
  show "fst (loadChain st) = fst (loadChain st') \<and> stored (snd (loadChain st)) = stored (snd (loadChain st'))"
    unfolding loadChain_answer [OF A(1)] loadChain_answer [OF A(2)] using same chain_value_stored [OF same] by simp
qed

lemma agree_derive:
  "chain_at projectId s es v chain \<Longrightarrow> es \<noteq> [] \<Longrightarrow>
   agree (at_rest api keys projectId s es v) (deriveStoredState api chain)"
  by (rule agreeI) (simp add: derive_answer)

lemma agree_loadInitialized: "agree (at_rest api keys projectId s es v) loadInitializedChain"
  unfolding loadInitializedChain_def by (rule agree_reads [OF agree_loadChain loadChain_reads]) (rule agree_yields)

lemma agree_require: "agree (at_rest api keys projectId s es v) (requireMemberState api caller minimum)"
  unfolding requireMemberState_def case_prod_beta
  apply (rule agree_reads [OF agree_loadInitialized loadInitialized_reads])
  apply (elim conjE, rule agree_reads [OF agree_derive derive_reads], assumption+)
  apply (rule agree_check, rule agree_yields)
  done

lemma agree_loadForMember: "agree (at_rest api keys projectId s es v) (loadChainForMember api caller)"
  unfolding loadChainForMember_def case_prod_beta
  apply (rule agree_reads [OF agree_loadChain loadChain_reads])
  apply (rule agree_if, rule agree_yields)
  subgoal for chain
    apply (cases "es = []")
     apply (rule agreeI, use chain_at_head(2) in fastforce)
    apply (rule agree_reads [OF agree_derive derive_reads], assumption+, rule agree_yields)
    done
  done

section \<open>The requests\<close>

lemma saved_tables:
  "stored st = stored st' \<Longrightarrow> stored (save_snapshots seq hash ts st) = stored (save_snapshots seq hash ts st')"
  unfolding save_snapshots_def
  by (induction ts arbitrary: st st') (simp_all add: case_prod_beta same_tables upsertCheckpointSnapshot_def Let_def)

lemma agree_append_entry: "agree (at_rest api keys projectId s es v) (append_entry api parent e caller w)"
  unfolding append_entry_def case_prod_beta
  apply (rule agree_reads [OF agree_loadForMember loadChainForMember_reads [unfolded case_prod_beta]])
  apply (intro agree_check agree_commit_end, assumption)
  done

lemma agree_checkpoint: "agree (at_rest api keys projectId s es v) (standaloneCheckpointProgram api parent e p caller w)"
  unfolding standaloneCheckpointProgram_def case_prod_beta
  apply (rule agree_reads [OF agree_loadInitialized loadInitialized_reads])
  apply (elim conjE, rule agree_reads [OF agree_derive derive_reads], assumption+)
  apply (rule agree_check, rule agree_check, rule agree_option, rule agree_yields)
  apply (intro agree_check agree_commit_end saved_tables, assumption)
  done

lemma agree_append: "agree (at_rest api keys projectId s es v) (appendProgram api parent e caller w)"
  unfolding appendProgram_def
  by (cases "entry_operation e")
    (simp_all add: agree_append_entry agree_checkpoint agree_yields split: proposable_operation.split)

lemma agree_init: "agree (at_rest api keys projectId s es v) (initProgram api expected e admitFresh w)"
  unfolding initProgram_def case_prod_beta
  apply (rule agree_reads [OF agree_loadChain loadChain_reads])
  apply (rule agree_if, rule agree_yields, rule agree_if, rule agree_yields, rule agree_check, rule agree_if, rule agree_yields)
  apply (rule agree_anywhere, rule agree_then, rule agree_updates)
   apply (simp add: same_tables ensureProjectDoTables_def split: option.splits)
  apply (rule agree_commit_end, assumption)
  done

lemma agree_snapshot: "agree (at_rest api keys projectId s es v) (snapshotProgram api caller)"
  unfolding snapshotProgram_def case_prod_beta
  apply (rule agree_reads [OF agree_loadForMember loadChainForMember_reads [unfolded case_prod_beta]])
  apply (rule agreeI, simp add: same_tables listHeadAttestations_def)
  done

lemma agree_role: "agree (at_rest api keys projectId s es v) (memberRoleProgram api caller)"
  unfolding memberRoleProgram_def by (rule agree_reads [OF agree_require requireMemberState_reads]) (rule agree_yields)

lemma window_use_tables:
  assumes "stored st = stored st'"
  shows "stored (recordAttestationWindowUse u now st) = stored (recordAttestationWindowUse u now st')"
proof -
  from assms have windows: "do_windows st = do_windows st'" by (simp add: same_tables)
  with assms show ?thesis
    unfolding same_tables recordAttestationWindowUse_def attestationWindowRow_def windows by simp
qed

lemma agree_attestation: "agree (at_rest api keys projectId s es v) (putHeadAttestationProgram api keys caller input w)"
  unfolding putHeadAttestationProgram_def case_prod_beta
  apply (rule agree_reads [OF agree_require requireMemberState_reads])
  apply (rule agree_anywhere, intro agree_then agree_yields)
    apply (rule agreeI)
    apply (simp add: same_tables checkAttestationWindow_def attestationWindowRow_def split: option.split)
   apply (rule agree_updates)
   apply (erule window_use_tables)
  apply (rule agreeI)
  apply (simp add: same_tables advance_attestation_def upsertHeadAttestation_def split: option.split)
  done

section \<open>The entry points\<close>

lemma agree_invalidate: "agree A p \<Longrightarrow> agree A (invalidateCachesOnDefect p)"
proof (rule agreeI)
  fix st st' assume p: "agree A p" and A: "A st" "A st'" and same: "stored st = stored st'"
  obtain r s where run: "p st = (r, s)" by fastforce
  obtain r' s' where run': "p st' = (r', s')" by fastforce
  from agreeD [OF p A same] run run' have "r' = r" "stored s = stored s'" by simp_all
  with run run' same show "fst (invalidateCachesOnDefect p st) = fst (invalidateCachesOnDefect p st') \<and>
      stored (snd (invalidateCachesOnDefect p st)) = stored (snd (invalidateCachesOnDefect p st'))"
    by (cases r) (simp_all add: invalidateCachesOnDefect_def)
qed

lemma agree_runData: "agree A p \<Longrightarrow> agree A (runData p)"
proof (rule agreeI)
  fix st st' assume p: "agree A p" and A: "A st" "A st'" and same: "stored st = stored st'"
  from same have "projectDoInitialized st' = projectDoInitialized st" by (simp add: same_tables projectDoInitialized_def)
  with agreeD [OF agree_invalidate [OF p] A same] same
  show "fst (runData p st) = fst (runData p st') \<and> stored (snd (runData p st)) = stored (snd (runData p st'))"
    by (simp add: runData_def)
qed

lemma agree_runWrite:
  "agree (at_rest api keys projectId s es v) p \<Longrightarrow> agree (at_rest api keys projectId s es v) (runWrite api caller p)"
  unfolding runWrite_def
  apply (rule agree_runData)
  apply (rule agree_reads [OF agree_require requireMemberState_reads])
  apply (rule agree_reads [OF _ ensureWritable_reads])
   apply (rule agreeI, simp add: same_tables ensureWritable_def)
  apply assumption
  done

text \<open>A request against the object and against the same tables with empty caches.\<close>

definition transparent :: "(data_rejection, 'a) program \<Rightarrow> project_do \<Rightarrow> bool" where
  "transparent p st \<longleftrightarrow>
     fst (p st) = fst (p (st\<lparr>do_cache := NO_CACHE\<rparr>)) \<and>
     stored (snd (p st)) = stored (snd (p (st\<lparr>do_cache := NO_CACHE\<rparr>)))"

lemma agree_transparent:
  assumes "object_ok api keys projectId st" and "\<And>s es v. agree (at_rest api keys projectId s es v) p"
  shows "transparent p st"
proof -
  from assms(1) obtain es v where "consistent api keys projectId st es v" by (auto simp: object_ok_def)
  then have "at_rest api keys projectId (stored st) es v st" by (simp add: at_rest_def)
  from agreeD [OF assms(2) this dropped_at_rest [OF this]] show ?thesis by (simp add: transparent_def)
qed

lemma requests_transparent:
  assumes "object_ok api keys projectId st"
  shows "transparent (request_init api projectId e admitFresh w) st"
    and "transparent (request_append api parent e caller w) st"
    and "transparent (request_snapshot api caller) st"
    and "transparent (request_attestation api keys caller input w) st"
    and "transparent (request_role api caller) st"
  unfolding request_init_def request_append_def request_snapshot_def request_attestation_def request_role_def
  by (rule agree_transparent [OF assms],
      intro agree_invalidate agree_runData agree_runWrite agree_init agree_append agree_snapshot agree_attestation agree_role)+

end
