(* ===== verification/Chain_Object_Liveness.thy ===== *)
theory Chain_Object_Liveness
  imports Chain_Object_Cache
begin

text \<open>
  The writes of the object return: an acceptable entry whose parent is the head is stored. The database
  refuses a row only for its number, and the mirror rows of a verified entry exist.
\<close>

lemma subject_accepts:
  assumes "entry_ok e"
  shows "\<exists>s. (mirrorSubjectOf api e :: ('e, fingerprint option) outcome) = Accepted s \<and> (adds_device e \<longrightarrow> s \<noteq> None)"
proof (cases "adds_device e")
  case True
  then obtain p where p: "entry_operation e = Direct (Add_Device p)" by (auto simp: adds_device_def)
  with assms have "hex_of_length 32 (ad_encPubHex p)" "hex_of_length 32 (ad_sigPubHex p)"
    by (simp_all add: entry_ok_def operation_ok_def proposable_ok_def)
  then have "decode_hex (ad_encPubHex p) \<noteq> None" "decode_hex (ad_sigPubHex p) \<noteq> None" by (auto simp: hex_of_length_def)
  with p show ?thesis by (auto simp: mirrorSubjectOf_def)
next
  case False
  then show ?thesis by (auto simp: mirrorSubjectOf_def adds_device_def split: chain_operation.split proposable_operation.split)
qed

lemma mirror_rows_exist:
  assumes reach: "chain_reached api es v" and hash: "distinct_bytes api es" and small: "length es < 2 ^ 32"
    and e: "e \<in> set es" and ok: "entry_ok e"
  shows "chainMirrorEvents e now (index_of es v) (subject_at api e) \<noteq> None"
proof -
  have ne: "es \<noteq> []" using e by auto
  obtain s h where sh: "view_of v = (s, h)" by (cases "view_of v")
  have "verifyChainWithHistory api (map write_entry es) = Accepted (s, h)"
    using effect_reached [of api es "view_of v"] reach ne sh by (auto simp: verifyChainEffect_def)
  moreover have "map read_entry (map write_entry es) = map Some es" by (simp add: read_write_entry comp_def)
  moreover have "length (map write_entry es) < 2 ^ 32" using small by simp
  ultimately have none: "chainMirrorEvents e now (proposalIndexOf es s h) (subject_at api e) = None \<longleftrightarrow>
      (\<exists>p. entry_operation e = Direct (Add_Device p)) \<and> subject_at api e = None"
    using verified_rows(3) hash e unfolding distinct_bytes_def by blast
  from subject_accepts [OF ok, of api] obtain s' where
    "(mirrorSubjectOf api e :: (unit, fingerprint option) outcome) = Accepted s'" "adds_device e \<longrightarrow> s' \<noteq> None" by blast
  then show ?thesis using none by (auto simp: index_of_def sh subject_at_def adds_device_def)
qed

lemma insertSync_runs:
  assumes holds: "holds api projectId st es v" and step: "accepts api v e ev v'" and "do_rows st \<noteq> None"
  shows "\<exists>st'. insertSync e hash bytes st = (Accepted () :: ('e, unit) outcome, st')"
proof -
  have reach: "chain_reached api es v" using holds by (simp add: holds_def)
  have "entry_seq e = int (length es) + 1" using accepts_seq [OF step] reached_seq [OF reach] by simp
  moreover have "length (rows_of st) = length es" using holds by (auto simp: holds_def)
  moreover have "sr_seq ` set (rows_of st) = set (map (\<lambda>i. int (Suc i)) [0..<length (rows_of st)])"
    using holds_seqs [OF holds] by (metis list.set_map)
  ultimately have "entry_seq e \<notin> sr_seq ` set (rows_of st)" by auto
  with assms(3) show ?thesis by (auto simp: insertSync_def rows_of_def)
qed

lemma commit_runs:
  assumes rest: "at_rest api keys projectId s es v st" and chain: "chain_at projectId s es v chain"
    and acceptable: "verifyAcceptableEntry api chain e = Accepted (bytes, applied)"
    and tables: "do_rows st \<noteq> None" and hash: "distinct_bytes api (es @ [e])"
  shows "\<exists>proposal st'. commitAcceptedEntry api chain e applied bytes now extra st =
    (Accepted proposal :: ('e, applied_proposal option) outcome, st')"
proof -
  have holds: "holds api projectId st es v" using rest by (simp add: at_rest_def consistent_def sound_def)
  have reach: "chain_reached api es v" using holds by (simp add: holds_def)
  note fits = acceptable_fits [OF acceptable chain rest]
  from fits(2) obtain v' where reach': "chain_reached api (es @ [e]) v'" and applied: "applied = view_of v'"
    by (auto simp: effect_reached)
  obtain u ev where "chain_reached api es u" "accepts api u e ev v'" using reach' by (rule reached_last)
  with reach have step: "accepts api v e ev v'" using reached_unique by blast
  have ok: "entry_ok e" using accepts_hash(3) [OF step] .
  have small: "length (es @ [e]) < 2 ^ 32" using fits(1) by (simp add: fits_store_def MAX_CHAIN_ENTRIES_def)
  have index: "proposalIndexOf (sc_entries chain @ [e]) (fst applied) (snd applied) = index_of (es @ [e]) v'"
    by (simp add: chain_at_head(1) [OF chain rest] applied index_of_def)
  obtain subject where subject: "(mirrorSubjectOf api e :: ('e, fingerprint option) outcome) = Accepted subject"
    using subject_accepts [OF ok] by blast
  obtain s1 where s1: "insertSync e (st_headHashHex (fst applied)) bytes st = (Accepted () :: ('e, unit) outcome, s1)"
    using insertSync_runs [OF holds step tables] by blast
  obtain rows where "chainMirrorEvents e now (index_of (es @ [e]) v') subject = Some rows"
    using mirror_rows_exist [OF reach' hash small _ ok, of now] subject_at_Accepted [OF subject] by auto
  with subject s1 index show ?thesis
    by (auto simp: commitAcceptedEntry_def insertAcceptedEntrySync_def insert_entry_def append_mirror_def and_then_def
        Let_def yields_def updates_def split: option.split)
qed

section \<open>Defects\<close>

text \<open>A program that leaves the tables \<open>s\<close> alone when it ends with a defect.\<close>

definition spares :: "project_storage \<Rightarrow> (project_do \<Rightarrow> bool) \<Rightarrow> ('e, 'a) program \<Rightarrow> bool" where
  "spares s A p \<longleftrightarrow> (\<forall>st st'. A st \<longrightarrow> p st = (Threw, st') \<longrightarrow> stored st' = s)"

lemma spares_reads:
  assumes "spares s A p" and "ensures A p (\<lambda>a st. A st \<and> Q a) R" and "\<And>a. Q a \<Longrightarrow> spares s A (f a)"
  shows "spares s A (and_then p f)"
  unfolding spares_def
proof (intro allI impI)
  fix st st' assume A: "A st" and run: "and_then p f st = (Threw, st')"
  obtain r u where p: "p st = (r, u)" by fastforce
  show "stored st' = s"
  proof (cases r)
    case Threw
    with p run assms(1) A show ?thesis by (auto simp: and_then_def spares_def)
  next
    case (Accepted a)
    with ensuresD(1) [OF assms(2) A] p have "A u" "Q a" by simp_all
    with assms(3) [of a] p Accepted run show ?thesis by (auto simp: and_then_def spares_def)
  qed (use p run in \<open>simp add: and_then_def\<close>)
qed

lemma spares_yields: "(\<And>st. A st \<Longrightarrow> stored st = s) \<Longrightarrow> spares s A (yields r)"
  by (auto simp: spares_def)

lemma spares_check:
  assumes "\<And>st. A st \<Longrightarrow> stored st = s" and "\<And>a. r = Accepted a \<Longrightarrow> spares s A (f a)"
  shows "spares s A (and_then (yields r) f)"
  using assms by (cases r) (auto simp: spares_def and_then_def yields_def)

lemma spares_if: "(c \<Longrightarrow> spares s A p) \<Longrightarrow> (\<not> c \<Longrightarrow> spares s A q) \<Longrightarrow> spares s A (if c then p else q)"
  by simp

lemma spares_option:
  "(x = None \<Longrightarrow> spares s A p) \<Longrightarrow> (\<And>y. x = Some y \<Longrightarrow> spares s A (f y)) \<Longrightarrow>
   spares s A (case x of None \<Rightarrow> p | Some y \<Rightarrow> f y)"
  by (cases x) simp_all

lemma at_rest_tables: "at_rest api keys projectId s es v st \<Longrightarrow> stored st = s"
  by (simp add: at_rest_def)

lemma never_threw: "(\<And>st. A st \<Longrightarrow> fst (p st) \<noteq> Threw) \<Longrightarrow> spares s A p"
  by (force simp: spares_def)

lemma spares_load: "spares s (at_rest api keys projectId s es v) loadChain"
  by (rule never_threw) (simp add: loadChain_answer)

lemma spares_derive:
  "chain_at projectId s es v chain \<Longrightarrow> es \<noteq> [] \<Longrightarrow>
   spares s (at_rest api keys projectId s es v) (deriveStoredState api chain)"
  by (rule never_threw) (simp add: derive_answer)

lemma spares_loadInitialized: "spares s (at_rest api keys projectId s es v) loadInitializedChain"
  unfolding loadInitializedChain_def
  by (rule spares_reads [OF spares_load loadChain_reads], rule spares_yields, rule at_rest_tables)

lemma spares_require: "spares s (at_rest api keys projectId s es v) (requireMemberState api caller minimum)"
  unfolding requireMemberState_def case_prod_beta
  apply (rule spares_reads [OF spares_loadInitialized loadInitialized_reads])
  apply (elim conjE, rule spares_reads [OF spares_derive derive_reads], assumption+)
  apply (rule spares_check, erule at_rest_tables, rule spares_yields, erule at_rest_tables)
  done

lemma spares_loadForMember: "spares s (at_rest api keys projectId s es v) (loadChainForMember api caller)"
  unfolding loadChainForMember_def case_prod_beta
  apply (rule spares_reads [OF spares_load loadChain_reads])
  apply (rule spares_if, rule spares_yields, erule at_rest_tables)
  subgoal for chain
    apply (cases "es = []")
     apply (simp add: spares_def, use chain_at_head(2) in fastforce)
    apply (rule spares_reads [OF spares_derive derive_reads], assumption+, rule spares_yields, erule at_rest_tables)
    done
  done

text \<open>The write phase of an acceptable entry has no defect.\<close>

lemma spares_commit:
  assumes chain: "chain_at projectId s es v chain" and ne: "es \<noteq> []"
    and acceptable: "verifyAcceptableEntry api chain e = Accepted accepted" and hash: "distinct_bytes api (es @ [e])"
  shows "spares s (at_rest api keys projectId s es v)
     (and_then (commitAcceptedEntry api chain e (snd accepted) (fst accepted) now extra) (\<lambda>proposal.
      and_then (updates (refresh_cache (snd accepted))) (\<lambda>_. yields (Accepted (answer proposal)))) :: ('e, 'b) program)"
proof (rule never_threw)
  fix st assume rest: "at_rest api keys projectId s es v st"
  then have "rows_of st \<noteq> []" using ne by (auto simp: at_rest_def consistent_def sound_def holds_def)
  then have "do_rows st \<noteq> None" by (auto simp: rows_of_def split: option.splits)
  from commit_runs [OF rest chain _ this hash, of "fst accepted" "snd accepted" now extra] acceptable
  obtain proposal u where "commitAcceptedEntry api chain e (snd accepted) (fst accepted) now extra st =
      (Accepted proposal :: ('e, applied_proposal option) outcome, u)" by auto
  then show "fst (and_then (commitAcceptedEntry api chain e (snd accepted) (fst accepted) now extra) (\<lambda>proposal.
      and_then (updates (refresh_cache (snd accepted))) (\<lambda>_. yields (Accepted (answer proposal)))) st :: ('e, 'b) outcome \<times> project_do) \<noteq> Threw"
    by (simp add: and_then_def updates_def yields_def)
qed

lemma spares_append:
  assumes "distinct_bytes api (es @ [e])"
  shows "spares s (at_rest api keys projectId s es v) (appendProgram api parent e caller w)"
proof -
  have entry: "spares s (at_rest api keys projectId s es v) (append_entry api parent e caller w)"
    unfolding append_entry_def case_prod_beta
    apply (rule spares_reads [OF spares_loadForMember loadChainForMember_reads [unfolded case_prod_beta]])
    apply (rule spares_check, erule at_rest_tables)+
    apply (rule spares_commit, simp_all add: assms)
    done
  have checkpoint: "spares s (at_rest api keys projectId s es v) (standaloneCheckpointProgram api parent e p caller w)" for p
    unfolding standaloneCheckpointProgram_def case_prod_beta
    apply (rule spares_reads [OF spares_loadInitialized loadInitialized_reads])
    apply (elim conjE, rule spares_reads [OF spares_derive derive_reads], assumption+)
    apply (rule spares_check, erule at_rest_tables)+
    apply (rule spares_option, rule spares_yields, erule at_rest_tables)
    apply (rule spares_check, erule at_rest_tables)+
    apply (rule spares_commit, simp_all add: assms)
    done
  have "spares s (at_rest api keys projectId s es v) (yields r)" for r :: "(data_rejection, chain_head_value \<times> applied_proposal option) outcome"
    by (rule spares_yields) (rule at_rest_tables)
  with entry checkpoint show ?thesis
    by (cases "entry_operation e") (simp_all add: appendProgram_def split: proposable_operation.split)
qed

lemma append_defect:
  assumes rest: "at_rest api keys projectId s es v st" and hash: "distinct_bytes api (es @ [e])"
    and run: "request_append api parent e caller w st = (Threw, st')"
  shows "stored st' = s"
proof -
  have "spares s (at_rest api keys projectId s es v)
      (and_then (requireMemberState api caller Reader) (\<lambda>_. and_then ensureWritable (\<lambda>_. appendProgram api parent e caller w)))"
    apply (rule spares_reads [OF spares_require requireMemberState_reads])
    apply (rule spares_reads [OF _ ensureWritable_reads])
     apply (simp add: spares_def ensureWritable_def)
    apply (rule spares_append [OF hash])
    done
  with rest run show ?thesis
    by (auto simp: request_append_def runWrite_def runData_def invalidateCachesOnDefect_def spares_def
        split: if_splits prod.splits outcome.splits)
qed

section \<open>Initialization and append\<close>

text \<open>The operations that the append program takes by itself.\<close>

definition plain_append :: "chain_entry \<Rightarrow> bool" where
  "plain_append e \<longleftrightarrow>
     (case entry_operation e of
        Direct (Create_Environment _) \<Rightarrow> False | Direct (Rotate_Epoch _) \<Rightarrow> False | Direct (Delete_Environment _) \<Rightarrow> False
      | Direct (Checkpoint _) \<Rightarrow> False | _ \<Rightarrow> True)"

lemma plain_append_program:
  assumes "plain_append e"
  shows "appendProgram api parent e caller w = append_entry api parent e caller w"
proof (cases "entry_operation e")
  case (Direct operation)
  with assms show ?thesis by (cases operation) (simp_all add: plain_append_def appendProgram_def)
qed (simp_all add: appendProgram_def)

lemma reads_runs:
  assumes "ensures A p (\<lambda>a st. A st \<and> Q a) A" and "A st" and "fst (p st) = Accepted a"
  shows "\<exists>st'. p st = (Accepted a, st') \<and> A st' \<and> Q a"
proof -
  obtain st' where run: "p st = (Accepted a, st')" using assms(3) by (cases "p st") simp
  with ensuresD(1) [OF assms(1,2) run] show ?thesis by blast
qed

lemma load_runs:
  assumes "at_rest api keys projectId s es v st"
  shows "\<exists>st'. loadChain st = (Accepted (chain_value projectId st es v), st') \<and> at_rest api keys projectId s es v st' \<and>
    chain_at projectId s es v (chain_value projectId st es v)"
  by (rule reads_runs [OF loadChain_reads assms loadChain_answer(1) [OF assms]])

lemma derive_runs:
  assumes "at_rest api keys projectId s es v st" and "chain_at projectId s es v chain" and "es \<noteq> []"
  shows "\<exists>st'. deriveStoredState api chain st = (Accepted (view_of v), st') \<and> at_rest api keys projectId s es v st'"
  using reads_runs [OF derive_reads [OF assms(2,3)] assms(1) derive_answer(1) [OF assms(2,3,1)]] by blast

lemma chain_value_head:
  "es \<noteq> [] \<Longrightarrow> sc_headSeq (chain_value projectId st es v) \<noteq> 0 \<and>
     sc_headHashHex (chain_value projectId st es v) = Some (v_prevHash v) \<and>
     sc_genesisHashHex (chain_value projectId st es v) = Some projectId"
  by (simp add: chain_value_def)

lemma require_runs:
  assumes rest: "at_rest api keys projectId s es v st" and ne: "es \<noteq> []"
    and member: "map_has (st_members (fst (view_of v))) caller"
  shows "\<exists>ctx st'. requireMemberState api caller Reader st = (Accepted ctx, st') \<and> at_rest api keys projectId s es v st'"
proof -
  let ?chain = "chain_value projectId st es v"
  obtain s1 where s1: "loadChain st = (Accepted ?chain :: (data_rejection, stored_chain) outcome, s1)"
    "at_rest api keys projectId s es v s1" "chain_at projectId s es v ?chain" using load_runs [OF rest] by blast
  obtain s2 where s2: "deriveStoredState api ?chain s1 = (Accepted (view_of v) :: (data_rejection, verified_view) outcome, s2)"
    "at_rest api keys projectId s es v s2" using derive_runs [OF s1(2,3) ne] by blast
  from member obtain m where "map_of (st_members (fst (view_of v))) caller = Some m" by (auto simp: map_has_ex)
  then have role: "requireChainRole (fst (view_of v)) caller Reader = Accepted m"
    by (simp add: requireChainRole_def roleAtLeast_def ROLE_RANK_def split: role.split)
  have load: "loadInitializedChain st = (Accepted ?chain, s1)"
    using s1(1) chain_value_head [OF ne, of projectId st v] by (simp add: loadInitializedChain_def and_then_def yields_def)
  obtain a b where ab: "view_of v = (a, b)" by (cases "view_of v")
  have "\<exists>ctx. requireMemberState api caller Reader st = (Accepted ctx, s2)"
    using load s2(1) role ab by (simp add: requireMemberState_def and_then_def yields_def)
  with s2(2) show ?thesis by blast
qed

lemma loadForMember_runs:
  assumes rest: "at_rest api keys projectId s es v st" and ne: "es \<noteq> []"
    and member: "map_has (st_members (fst (view_of v))) caller"
  shows "\<exists>chain st'. loadChainForMember api caller st = (Accepted (chain, fst (view_of v)), st') \<and>
    at_rest api keys projectId s es v st' \<and> chain_at projectId s es v chain"
proof -
  let ?chain = "chain_value projectId st es v"
  obtain s1 where s1: "loadChain st = (Accepted ?chain :: (data_rejection, stored_chain) outcome, s1)"
    "at_rest api keys projectId s es v s1" "chain_at projectId s es v ?chain" using load_runs [OF rest] by blast
  obtain s2 where s2: "deriveStoredState api ?chain s1 = (Accepted (view_of v) :: (data_rejection, verified_view) outcome, s2)"
    "at_rest api keys projectId s es v s2" using derive_runs [OF s1(2,3) ne] by blast
  obtain a b where ab: "view_of v = (a, b)" by (cases "view_of v")
  have "loadChainForMember api caller st = (Accepted (?chain, fst (view_of v)), s2)"
    using s1(1) s2(1) chain_value_head [OF ne, of projectId st v] member ab
    by (simp add: loadChainForMember_def and_then_def yields_def)
  with s2(2) s1(3) show ?thesis by blast
qed

lemma acceptable_at:
  "chain_at projectId s es v chain \<Longrightarrow> at_rest api keys projectId s es v st \<Longrightarrow> chain = chain_value projectId st es v"
  by (simp add: chain_at_def at_rest_def)

lemma append_runs:
  assumes rest: "at_rest api keys projectId s es v st" and ne: "es \<noteq> []" and writable: "\<not> do_mirrorMark st"
    and member: "map_has (st_members (fst (view_of v))) caller"
    and policies: "append_policies e (fst (view_of v)) caller w = Accepted ()" and plain: "plain_append e"
    and acceptable: "verifyAcceptableEntry api (chain_value projectId st es v) e = Accepted (bytes, applied)"
    and hash: "distinct_bytes api (es @ [e])"
  shows "\<exists>proposal st'. request_append api (v_prevHash v) e caller w st = (Accepted (head_value applied, proposal), st')"
proof -
  from rest have holds: "holds api projectId st es v" by (simp add: at_rest_def consistent_def sound_def)
  then have "rows_of st \<noteq> []" using ne by (auto simp: holds_def)
  then have rows: "do_rows st \<noteq> None" by (auto simp: rows_of_def split: option.splits)
  have kept: "do_rows st' \<noteq> None" "\<not> do_mirrorMark st'" if "at_rest api keys projectId s es v st'" for st'
  proof -
    from that rest have "stored st = stored st'" by (simp add: at_rest_def)
    then show "do_rows st' \<noteq> None" "\<not> do_mirrorMark st'" using rows writable by (simp_all add: same_tables)
  qed
  obtain ctx s1 where s1: "requireMemberState api caller Reader st = (Accepted ctx, s1)" "at_rest api keys projectId s es v s1"
    using require_runs [OF rest ne member] by blast
  obtain chain s2 where s2: "loadChainForMember api caller s1 = (Accepted (chain, fst (view_of v)), s2)"
    "at_rest api keys projectId s es v s2" "chain_at projectId s es v chain"
    using loadForMember_runs [OF s1(2) ne member] by blast
  have acceptable': "verifyAcceptableEntry api chain e = Accepted (bytes, applied)"
    using acceptable acceptable_at [OF s2(3) rest] by simp
  have parent: "ensureParentHead chain (v_prevHash v) = Accepted ()"
    using chain_at_head(3) [OF s2(3,2)] ne by (simp add: ensureParentHead_def)
  obtain proposal s3 where s3: "commitAcceptedEntry api chain e applied bytes (rw_writeMs w) (\<lambda>st. st) s2 =
      (Accepted proposal :: (data_rejection, applied_proposal option) outcome, s3)"
    using commit_runs [OF s2(2,3) acceptable' kept(1) [OF s2(2)] hash] by blast
  have "append_entry api (v_prevHash v) e caller w s1 = (Accepted (head_value applied, proposal), refresh_cache applied s3)"
    using s2(1) policies parent acceptable' s3 by (simp add: append_entry_def and_then_def yields_def updates_def)
  then have "request_append api (v_prevHash v) e caller w st = (Accepted (head_value applied, proposal), refresh_cache applied s3)"
    using s1(1) kept(2) [OF s1(2)] rows
    by (simp add: request_append_def runWrite_def runData_def projectDoInitialized_def invalidateCachesOnDefect_def
        and_then_def ensureWritable_def plain_append_program [OF plain])
  then show ?thesis by blast
qed

lemma init_runs:
  assumes rest: "at_rest api keys projectId s [] v st" and head: "st_headHashHex (fst applied) = projectId"
    and acceptable: "verifyAcceptableEntry api EMPTY_CHAIN e = Accepted (bytes, applied)" and hash: "distinct_bytes api [e]"
  shows "\<exists>st'. request_init api projectId e True w st = (Accepted (head_value applied), st')"
proof -
  let ?chain = "chain_value projectId st [] v"
  have "rows_of st = []" using rest by (simp add: at_rest_def consistent_def sound_def holds_def)
  then have empty: "?chain = EMPTY_CHAIN" by (simp add: chain_value_def EMPTY_CHAIN_def total_bytes_def)
  obtain s1 where s1: "loadChain st = (Accepted EMPTY_CHAIN :: (data_rejection, stored_chain) outcome, s1)"
    "at_rest api keys projectId s [] v s1" "chain_at projectId s [] v EMPTY_CHAIN" using load_runs [OF rest] empty by auto
  have rows: "do_rows (ensureProjectDoTables s1) \<noteq> None" by (simp add: ensureProjectDoTables_def split: option.split)
  have "distinct_bytes api ([] @ [e])" using hash by simp
  then obtain proposal s2 where "commitAcceptedEntry api EMPTY_CHAIN e applied bytes (rw_writeMs w) (\<lambda>st. st) (ensureProjectDoTables s1) =
      (Accepted proposal :: (data_rejection, applied_proposal option) outcome, s2)"
    using commit_runs [OF tables_created [OF s1(2)] created_chain [OF s1(3,2)] acceptable rows] by blast
  moreover have "sc_headSeq EMPTY_CHAIN = 0" by (simp add: EMPTY_CHAIN_def)
  ultimately have "initProgram api projectId e True w st = (Accepted (head_value applied), refresh_cache applied s2)"
    using s1(1) acceptable head by (simp add: initProgram_def and_then_def yields_def updates_def)
  then show ?thesis by (simp add: request_init_def invalidateCachesOnDefect_def)
qed

lemma snapshot_runs:
  assumes rest: "at_rest api keys projectId s es v st" and ne: "es \<noteq> []"
    and member: "map_has (st_members (fst (view_of v))) caller"
  shows "\<exists>snapshot st'. request_snapshot api caller st = (Accepted snapshot, st')"
proof -
  from rest ne have "rows_of st \<noteq> []" by (auto simp: at_rest_def consistent_def sound_def holds_def)
  then have "projectDoInitialized st" by (auto simp: projectDoInitialized_def rows_of_def split: option.splits)
  moreover obtain chain s1 where "loadChainForMember api caller st = (Accepted (chain, fst (view_of v)), s1)"
    using loadForMember_runs [OF rest ne member] by blast
  ultimately show ?thesis
    by (simp add: request_snapshot_def runData_def invalidateCachesOnDefect_def snapshotProgram_def and_then_def)
qed

end
