(* ===== verification/Chain_Object_Example.thy ===== *)
theory Chain_Object_Example
  imports Chain_Object_Liveness Statement_Example
begin

text \<open>
  An object in use: the example chain's genesis initializes it, its owner appends the second entry, and
  both are stored with their mirror rows.
\<close>

section \<open>Sizes\<close>

lemma demo_entry_small:
  assumes payload: "encodes 7000 (canonicalChainPayloadBytes operation)" and n: "0 < n" "n < 1000"
    and user: "user \<noteq> []" "length user \<le> 341"
  shows "encodes 80000 (canonicalChainEntryBytes (demo_entry n user key operation))"
proof -
  from payload obtain p where p: "canonicalChainPayloadBytes operation = Some p" "length p \<le> 7000" by (auto simp: encodes_def)
  let ?e = "demo_entry n user key operation"
  have "list_all (fits 1024) [LpStr (entry_suite ?e), LpNum (entry_seq ?e), LpStr (entry_prevHashHex ?e),
      LpStr (op_name (entry_operation ?e)), LpStr (actor_userId (entry_actor ?e)),
      LpStr (actor_keyFingerprintHex (entry_actor ?e)), LpNum (entry_timestampMs ?e), LpStr (entry_signatureHex ?e)]"
    using n user fits_hex_field [of 32 GENESIS_PREV_HASH] fits_hex_field [of 32 "demo_hash (n - 1)"]
    by (auto simp: demo_entry_def bounded_lit safe_int_def max_safe_integer_def SUITE_ID_def fits_fields
        intro: fits_short)
  moreover have "fits 7000 (LpBytes p)" using p(2) by (simp add: fits_def)
  ultimately have "list_all (fits 7000) (signed_fields ?e p @ [LpStr (entry_signatureHex ?e)])"
    by (auto simp: signed_fields_def intro: fits_mono [of 1024])
  then have "encodes 80000 (encode_lp (signed_fields ?e p @ [LpStr (entry_signatureHex ?e)]))"
    by (rule encodes_lp) (simp_all add: uint32_max_def signed_fields_def)
  then show ?thesis using p(1) by (simp add: canonicalChainEntryBytes_def demo_entry_def)
qed

lemma demo_small:
  "encodes 80000 (canonicalChainEntryBytes (demo_entries ! 0))" "encodes 80000 (canonicalChainEntryBytes (demo_entries ! 1))"
proof -
  have "encodes 7000 (canonicalChainPayloadBytes (Direct op_genesis))"
    by (simp add: canonicalChainPayloadBytes_def canonicalProposablePayloadBytes_def op_genesis_def)
      (rule encodes_lp [of 1024]; simp add: fits_fields uint32_max_def)
  then show "encodes 80000 (canonicalChainEntryBytes (demo_entries ! 0))"
    unfolding demo_entries_def nth_Cons_0 by (rule demo_entry_small) simp_all
  have kind: "fits 1024 (LpStr (scope_kind_name ScopeAll))" by (rule fits_short) (simp add: scope_kind_name_def)
  have "encodes 7000 (canonicalChainPayloadBytes (Direct op_add_bob))"
    by (simp add: canonicalChainPayloadBytes_def canonicalProposablePayloadBytes_def op_add_bob_def with_scope_fields_def
        canonicalScopeEnvironmentsHex_def encode_lp.simps(1))
      (rule encodes_lp [of 1024]; simp add: kind fits_fields fits_short bounded_lit uint32_max_def)
  then show "encodes 80000 (canonicalChainEntryBytes (demo_entries ! 1))"
    by (simp add: demo_entries_def) (rule demo_entry_small, simp_all)
qed

section \<open>The object\<close>

definition demo_world :: request_world where
  "demo_world =
     \<lparr>rw_nowMs = 0, rw_writeMs = 0, rw_databaseSizeBytes = 0, rw_findEnvironment = \<lambda>_. None,
      rw_environmentManifestAnchor = \<lambda>_. None, rw_checkpointValueEntries = \<lambda>_. [], rw_headColumnBehind = False,
      rw_headCurrent = True, rw_headPosition = \<lambda>_. None, rw_latestCheckpointMirrorSeq = None\<rparr>"

lemma demo_prefixes:
  "\<exists>h. chain_reached demo_api [demo_entries ! 0] (demo_verifier 1 demo_st1 h)"
  "\<exists>h. chain_reached demo_api [demo_entries ! 0, demo_entries ! 1] (demo_verifier 2 demo_st2 h)"
proof -
  note r1 = demo_next [OF demo_start [of "Some empty_history"] demo_genesis_step]
  note r2 = demo_next [OF r1 demo_step_2]
  show "\<exists>h. chain_reached demo_api [demo_entries ! 0] (demo_verifier 1 demo_st1 h)"
    using r1 by (simp add: demo_entries_def)
  show "\<exists>h. chain_reached demo_api [demo_entries ! 0, demo_entries ! 1] (demo_verifier 2 demo_st2 h)"
    using r2 by (simp add: demo_entries_def)
qed

lemma demo_distinct: "distinct_bytes demo_api (take k demo_entries)"
proof -
  have "set (take k demo_entries) \<subseteq> set (take 11 demo_entries)" by (auto simp: length_demo_entries dest: in_set_takeD)
  with demo_entries_collision_free show ?thesis
    unfolding distinct_bytes_def collision_free_on_def entry_byte_strings_def by (simp add: demo_api_simps) blast
qed

lemma acceptable_small:
  assumes "encodes 80000 (canonicalChainEntryBytes e)" and "verifyChainEffect api (sc_entries chain @ [e]) = Accepted applied"
    and "length (sc_entries chain) < 100" and "sc_totalCanonicalBytes chain \<le> 8000000"
  shows "\<exists>bytes. bytes \<le> 80000 \<and> verifyAcceptableEntry api chain e = Accepted (bytes, applied)"
proof -
  obtain b where "canonicalChainEntryBytes e = Some b" "length b \<le> 80000" using assms(1) by (auto simp: encodes_def)
  with assms(2-4) show ?thesis
    by (intro exI [of _ "int (length b)"])
      (simp add: verifyAcceptableEntry_def checkEntrySize_def canonicalBytesOf_def rejectChainInvalid_def
        ensureChainCapacity_def chainCapacityExceeded_def MAX_ENTRY_CANONICAL_BYTES_def MAX_CHAIN_ENTRIES_def
        MAX_CHAIN_TOTAL_CANONICAL_BYTES_def)
qed

lemma demo_initialized:
  obtains s h where "request_init demo_api (demo_hash 1) (demo_entries ! 0) True demo_world new_project_do =
      (Accepted \<lparr>hv_headSeq = 1, hv_headHashHex = demo_hash 1\<rparr>, s)"
    and "at_rest demo_api demo_keys (demo_hash 1) (stored s) [demo_entries ! 0] (demo_verifier 1 demo_st1 h) s"
    and "total_bytes s \<le> 1048576" and "\<not> do_mirrorMark s" and "do_reachable demo_api demo_keys (demo_hash 1) s"
proof -
  obtain es v where "consistent demo_api demo_keys (demo_hash 1) new_project_do es v"
    using new_object_ok [of demo_api demo_keys "demo_hash 1"] by (auto simp: object_ok_def)
  moreover from this have "es = []" by (simp add: consistent_def sound_def holds_def rows_of_def new_project_do_def)
  ultimately have rest: "at_rest demo_api demo_keys (demo_hash 1) (stored new_project_do) [] v new_project_do"
    by (simp add: at_rest_def)
  obtain h where reach: "chain_reached demo_api [demo_entries ! 0] (demo_verifier 1 demo_st1 h)" using demo_prefixes(1) by blast
  let ?view = "view_of (demo_verifier 1 demo_st1 h)"
  have effect: "verifyChainEffect demo_api [demo_entries ! 0] = Accepted ?view" using reach by (auto simp: effect_reached)
  have head: "st_headHashHex (fst ?view) = demo_hash 1" using view_head(1) [OF reach] by (simp add: demo_verifier_def)
  obtain bytes where bytes: "bytes \<le> 80000" "verifyAcceptableEntry demo_api EMPTY_CHAIN (demo_entries ! 0) = Accepted (bytes, ?view)"
    using acceptable_small [OF demo_small(1), of demo_api EMPTY_CHAIN ?view] effect by (auto simp: EMPTY_CHAIN_def)
  have hash: "distinct_bytes demo_api [demo_entries ! 0]" using demo_distinct [of 1] by (simp add: demo_entries_def)
  obtain s where run: "request_init demo_api (demo_hash 1) (demo_entries ! 0) True demo_world new_project_do =
      (Accepted (head_value ?view), s)" using init_runs [OF rest head bytes(2) hash] by blast
  have hv: "head_value ?view = \<lparr>hv_headSeq = 1, hv_headHashHex = demo_hash 1\<rparr>"
    using head view_head(2) [OF reach] by (simp add: head_value_def)
  show ?thesis
  proof (rule that)
    show "request_init demo_api (demo_hash 1) (demo_entries ! 0) True demo_world new_project_do =
      (Accepted \<lparr>hv_headSeq = 1, hv_headHashHex = demo_hash 1\<rparr>, s)" using run hv by simp
    note settled = invalidate_settles [OF initProgram_ensures [OF refl] rest run [unfolded request_init_def]]
    then show "\<not> do_mirrorMark s" by (simp add: stored_def project_storage.truncate_def new_project_do_def)
    from settled obtain v' where c: "consistent demo_api demo_keys (demo_hash 1) s [demo_entries ! 0] v'"
      by (auto simp: extended_def)
    then have "chain_reached demo_api [demo_entries ! 0] v'" by (simp add: consistent_def sound_def holds_def)
    with reach have "v' = demo_verifier 1 demo_st1 h" using reached_unique by blast
    with c show "at_rest demo_api demo_keys (demo_hash 1) (stored s) [demo_entries ! 0] (demo_verifier 1 demo_st1 h) s"
      by (simp add: at_rest_def)
    from c have "map sr_entry (rows_of s) = [demo_entries ! 0]" "list_all (row_holds demo_api) (rows_of s)"
      by (simp_all add: consistent_def sound_def holds_def)
    then show "total_bytes s \<le> 1048576"
      by (auto simp: total_bytes_def row_holds_def MAX_ENTRY_CANONICAL_BYTES_def)
    show "do_reachable demo_api demo_keys (demo_hash 1) s"
      using do_next [OF do_start step_init [OF task_answers(1) [where p = "request_init demo_api (demo_hash 1) (demo_entries ! 0) True demo_world", OF run]]] .
  qed
qed

text \<open>What the owner's append of the second entry meets.\<close>

lemma demo_append_ready:
  assumes reach: "chain_reached demo_api [demo_entries ! 0] (demo_verifier 1 demo_st1 h)"
  shows "map_has (st_members (fst (view_of (demo_verifier 1 demo_st1 h)))) (lit ''alice'')"
    and "append_policies (demo_entries ! 1) (fst (view_of (demo_verifier 1 demo_st1 h))) (lit ''alice'') demo_world = Accepted ()"
    and "plain_append (demo_entries ! 1)" and "\<not> adds_device (demo_entries ! 1)"
proof -
  have e: "entry_operation (demo_entries ! 1) = Direct op_add_bob" by (simp add: demo_entries_def demo_entry_def)
  have "map_has (members demo_st1) (lit ''alice'')"
    by (simp add: demo_st1_def applyGenesis_def set_member_def indexDeviceKeys_def empty_chain_state_def Let_def map_has_def)
  then show "map_has (st_members (fst (view_of (demo_verifier 1 demo_st1 h)))) (lit ''alice'')"
    using view_head(3) [OF reach] by (simp add: demo_verifier_def)
  show "append_policies (demo_entries ! 1) (fst (view_of (demo_verifier 1 demo_st1 h))) (lit ''alice'') demo_world = Accepted ()"
    unfolding append_policies_def growsAccessSet_def e
    by (simp add: op_add_bob_def isGrowthOp_def ensureStorageAdmitsGrowth_def storageGuardDecision_def demo_world_def
        DO_STORAGE_REJECT_BYTES_def DO_STORAGE_WARN_BYTES_def)
  show "plain_append (demo_entries ! 1)" "\<not> adds_device (demo_entries ! 1)"
    unfolding plain_append_def adds_device_def e by (simp_all add: op_add_bob_def)
qed

lemma demo_acceptable:
  obtains s h1 bytes h where
    "at_rest demo_api demo_keys (demo_hash 1) (stored s) [demo_entries ! 0] (demo_verifier 1 demo_st1 h1) s"
    and "\<not> do_mirrorMark s" and "do_reachable demo_api demo_keys (demo_hash 1) s"
    and "verifyAcceptableEntry demo_api (chain_value (demo_hash 1) s [demo_entries ! 0] (demo_verifier 1 demo_st1 h1))
      (demo_entries ! 1) = Accepted (bytes, view_of (demo_verifier 2 demo_st2 h))"
    and "chain_reached demo_api [demo_entries ! 0, demo_entries ! 1] (demo_verifier 2 demo_st2 h)"
proof -
  obtain s h1 where s: "at_rest demo_api demo_keys (demo_hash 1) (stored s) [demo_entries ! 0] (demo_verifier 1 demo_st1 h1) s"
    "total_bytes s \<le> 1048576" "\<not> do_mirrorMark s" "do_reachable demo_api demo_keys (demo_hash 1) s"
    by (rule demo_initialized)
  obtain h where reach: "chain_reached demo_api [demo_entries ! 0, demo_entries ! 1] (demo_verifier 2 demo_st2 h)"
    using demo_prefixes(2) by blast
  let ?view = "view_of (demo_verifier 2 demo_st2 h)"
  let ?chain = "chain_value (demo_hash 1) s [demo_entries ! 0] (demo_verifier 1 demo_st1 h1)"
  have "verifyChainEffect demo_api [demo_entries ! 0, demo_entries ! 1] = Accepted ?view" using reach by (auto simp: effect_reached)
  then obtain bytes where "verifyAcceptableEntry demo_api ?chain (demo_entries ! 1) = Accepted (bytes, ?view)"
    using acceptable_small [OF demo_small(2), of demo_api ?chain ?view] s(2) by (auto simp: chain_value_def)
  from that [OF s(1,3,4) this reach] show ?thesis .
qed

lemma demo_pair: "[demo_entries ! 0] @ [demo_entries ! 1] = take 2 demo_entries"
  by (simp add: demo_entries_def)

lemma demo_verifier_head: "v_prevHash (demo_verifier (Suc k) st h) = demo_hash (Suc k)"
  by (simp add: demo_verifier_def)

lemma demo_appended:
  obtains s t h proposal where
    "request_append demo_api (demo_hash 1) (demo_entries ! 1) (lit ''alice'') demo_world s =
      (Accepted (\<lparr>hv_headSeq = 2, hv_headHashHex = demo_hash 2\<rparr>, proposal), t)"
    and "do_reachable demo_api demo_keys (demo_hash 1) s" and "do_reachable demo_api demo_keys (demo_hash 1) t"
    and "at_rest demo_api demo_keys (demo_hash 1) (stored s) [demo_entries ! 0] (demo_verifier 1 demo_st1 h) s"
    and "map sr_entry (rows_of t) = [demo_entries ! 0, demo_entries ! 1]"
proof -
  let ?e = "demo_entries ! 1"
  obtain s h1 bytes h where s: "at_rest demo_api demo_keys (demo_hash 1) (stored s) [demo_entries ! 0] (demo_verifier 1 demo_st1 h1) s"
    "\<not> do_mirrorMark s" "do_reachable demo_api demo_keys (demo_hash 1) s"
    "verifyAcceptableEntry demo_api (chain_value (demo_hash 1) s [demo_entries ! 0] (demo_verifier 1 demo_st1 h1)) ?e =
      Accepted (bytes, view_of (demo_verifier 2 demo_st2 h))"
    and reach: "chain_reached demo_api [demo_entries ! 0, ?e] (demo_verifier 2 demo_st2 h)"
    by (rule demo_acceptable)
  have reach1: "chain_reached demo_api [demo_entries ! 0] (demo_verifier 1 demo_st1 h1)"
    using s(1) by (simp add: at_rest_def consistent_def sound_def holds_def)
  have hash: "distinct_bytes demo_api ([demo_entries ! 0] @ [?e])" unfolding demo_pair by (rule demo_distinct)
  have hv: "head_value (view_of (demo_verifier 2 demo_st2 h)) = \<lparr>hv_headSeq = 2, hv_headHashHex = demo_hash 2\<rparr>"
    using view_head(1,2) [OF reach] by (simp add: head_value_def demo_verifier_def)
  have prev: "v_prevHash (demo_verifier 1 demo_st1 h1) = demo_hash 1" by (simp add: demo_verifier_def)
  obtain proposal t where t: "request_append demo_api (demo_hash 1) ?e (lit ''alice'') demo_world s =
      (Accepted (\<lparr>hv_headSeq = 2, hv_headHashHex = demo_hash 2\<rparr>, proposal), t)"
    using append_runs [OF s(1) _ s(2) demo_append_ready(1-3) [OF reach1] s(4) hash] unfolding hv prev by blast
  from runWrite_settles [OF appendProgram_ensures _ s(1) t [unfolded request_append_def]]
  obtain v' where "consistent demo_api demo_keys (demo_hash 1) t [demo_entries ! 0, ?e] v'"
    by (auto simp: appended_def extended_def)
  then have "map sr_entry (rows_of t) = [demo_entries ! 0, ?e]" by (simp add: consistent_def sound_def holds_def)
  from that [OF t s(3) do_next [OF s(3) step_append [OF task_answers(1) [where p = "request_append demo_api (demo_hash 1) ?e (lit ''alice'') demo_world", OF t]]] s(1) this] show ?thesis .
qed

lemma demo_plain: "\<forall>e\<in>set [demo_entries ! 0, demo_entries ! 1]. \<not> adds_device e"
  by (simp add: demo_entries_def demo_entry_def demo_ops adds_device_def)

lemma demo_collision_free_pair: "collision_free_on (api_sha256 demo_api) (entry_byte_strings [demo_entries ! 0, demo_entries ! 1])"
  using demo_distinct [of 2] by (simp add: distinct_bytes_def demo_entries_def)

lemma demo_pair_verifies:
  obtains state history where "verifyChainEffect demo_api [demo_entries ! 0, demo_entries ! 1] = Accepted (state, history)"
    and "map_has (st_members state) (lit ''alice'')"
proof -
  obtain h where reach: "chain_reached demo_api [demo_entries ! 0, demo_entries ! 1] (demo_verifier 2 demo_st2 h)"
    using demo_prefixes(2) by blast
  obtain state history where view: "view_of (demo_verifier 2 demo_st2 h) = (state, history)" by fastforce
  show ?thesis
  proof (rule that)
    show "verifyChainEffect demo_api [demo_entries ! 0, demo_entries ! 1] = Accepted (state, history)"
      using reach view by (auto simp: effect_reached)
    show "map_has (st_members state) (lit ''alice'')"
      using view_head(3) [OF reach] view by (simp add: demo_verifier_def demo_st2_eq map_has_def)
  qed
qed

end
