(* ===== verification/Chain_Object_Guarantees.thy ===== *)
theory Chain_Object_Guarantees
  imports Chain_Object_Example
begin

text \<open>
  What the project's object guarantees in every state that requests, composites, writes of the data plane
  and restarts reach.
\<close>

lemma reachable_at_rest:
  assumes "do_reachable api keys projectId st"
  obtains es v where "at_rest api keys projectId (stored st) es v st" and "map sr_entry (rows_of st) = es"
    and "holds api projectId st es v" and "chain_reached api es v" and "es \<noteq> [] \<longrightarrow> verifyChainEffect api es = Accepted (view_of v)"
proof -
  from reachable_ok [OF assms] obtain es v where c: "consistent api keys projectId st es v" by (auto simp: object_ok_def)
  then have "holds api projectId st es v" "chain_reached api es v" "map sr_entry (rows_of st) = es"
    by (simp_all add: consistent_def sound_def holds_def)
  with c that show ?thesis by (auto simp: at_rest_def effect_reached)
qed

section \<open>The stored chain\<close>

text \<open>
  C13. The rows the object stores are always a chain that verifies from its genesis, with the numbers
  1, 2, ... as primary keys, the hash of every entry in its row and the project's id the hash of the
  genesis, in whatever order initializations, appends, composites, attestations, writes of the data
  plane, defects and restarts were served.
\<close>

theorem stored_chain_verifies:
  assumes "do_reachable api keys projectId st" and "rows_of st \<noteq> []"
  shows "(\<exists>view. verifyChainEffect api (map sr_entry (rows_of st)) = Accepted view) \<and>
    sr_entryHashHex (hd (rows_of st)) = projectId \<and>
    map sr_seq (rows_of st) = map (\<lambda>i. int (Suc i)) [0..<length (rows_of st)] \<and>
    (\<forall>row\<in>set (rows_of st). entry_seq (sr_entry row) = sr_seq row \<and>
       computeChainEntryHash (api_sha256 api) (sr_entry row) = Some (sr_entryHashHex row))"
  using assms(1)
proof (rule reachable_at_rest)
  fix es v assume es: "map sr_entry (rows_of st) = es" and holds: "holds api projectId st es v"
    and effect: "es \<noteq> [] \<longrightarrow> verifyChainEffect api es = Accepted (view_of v)"
  from es assms(2) have ne: "es \<noteq> []" by auto
  have rows: "\<And>row. row \<in> set (rows_of st) \<Longrightarrow> row_holds api row" using holds by (simp add: holds_def list_all_iff)
  have "entry_hash api (hd es) = Some projectId" using holds ne by (simp add: holds_def)
  moreover have "hd es = sr_entry (hd (rows_of st))" using es assms(2) by (auto simp: list.map_sel(1))
  moreover have "row_holds api (hd (rows_of st))" using rows assms(2) by simp
  ultimately have "sr_entryHashHex (hd (rows_of st)) = projectId" by (simp add: row_holds_def)
  moreover have "\<forall>row\<in>set (rows_of st). entry_seq (sr_entry row) = sr_seq row \<and>
       computeChainEntryHash (api_sha256 api) (sr_entry row) = Some (sr_entryHashHex row)"
    using rows by (auto simp: row_holds_def entry_hash_def)
  ultimately show ?thesis using es effect [rule_format, OF ne] holds_seqs [OF holds] by blast
qed

text \<open>
  C14. The stored chain stays within its limits: at most 10,000 entries, no entry of more than 1 MiB of
  canonical bytes, no chain of more than 12 MiB, with every size in its row the length of the entry's
  canonical bytes.
\<close>

theorem stored_chain_bounded:
  assumes "do_reachable api keys projectId st"
  shows "length (rows_of st) \<le> 10000 \<and> sum_list (map sr_canonicalBytes (rows_of st)) \<le> 12 * 1024 * 1024 \<and>
    (\<forall>row\<in>set (rows_of st). sr_canonicalBytes row \<le> 1024 * 1024 \<and>
       map_option (\<lambda>b. int (length b)) (canonicalChainEntryBytes (sr_entry row)) = Some (sr_canonicalBytes row))"
  using assms
proof (rule reachable_at_rest)
  fix es v assume es: "map sr_entry (rows_of st) = es" and holds: "holds api projectId st es v"
  have "length (rows_of st) = length es" using es by (metis length_map)
  with holds have "length (rows_of st) \<le> 10000" by (simp add: holds_def MAX_CHAIN_ENTRIES_def)
  moreover have "sum_list (map sr_canonicalBytes (rows_of st)) \<le> 12 * 1024 * 1024"
    using holds by (simp add: holds_def total_bytes_def MAX_CHAIN_TOTAL_CANONICAL_BYTES_def)
  moreover have "\<forall>row\<in>set (rows_of st). sr_canonicalBytes row \<le> 1024 * 1024 \<and>
       map_option (\<lambda>b. int (length b)) (canonicalChainEntryBytes (sr_entry row)) = Some (sr_canonicalBytes row)"
    using holds by (auto simp: holds_def list_all_iff row_holds_def MAX_ENTRY_CANONICAL_BYTES_def)
  ultimately show ?thesis by blast
qed

text \<open>
  C17. The caches are transparent: a request to the object, whatever its caches hold, is answered as by an
  object with the same tables and empty caches, and leaves the same tables.
\<close>

theorem caches_are_transparent:
  assumes "do_reachable api keys projectId st"
  shows "transparent (request_init api projectId e admitFresh w) st \<and>
    transparent (request_append api parent e caller w) st \<and> transparent (request_snapshot api caller) st \<and>
    transparent (request_attestation api keys caller input w) st \<and> transparent (request_role api caller) st"
  using requests_transparent [OF reachable_ok [OF assms]] by blast

section \<open>Appending\<close>

text \<open>
  C15. An append happens as a whole or not at all. When it is accepted, the rows grow by exactly the
  submitted entry, the declared parent was the head, the caller was a member of the verified state, the
  answer is the new head, and the object was no read-only mirror. On a rejection every table is as it was.
  A defect drops the caches, and it comes before the write phase, which has none: as the program itself
  leaves them, before the platform takes anything back, the tables are as they were, provided SHA-256
  does not collide on the bytes of the stored entries and the submitted one.
\<close>

theorem append_is_atomic:
  assumes "do_reachable api keys projectId st" and "request_append api parent e caller w st = (answer, st')"
  shows "case answer of
      Accepted (head, proposal) \<Rightarrow>
        rows_of st \<noteq> [] \<and> \<not> do_mirrorMark st \<and>
        map sr_entry (rows_of st') = map sr_entry (rows_of st) @ [e] \<and>
        parent = sr_entryHashHex (last (rows_of st)) \<and>
        head = \<lparr>hv_headSeq = int (length (rows_of st')), hv_headHashHex = sr_entryHashHex (last (rows_of st'))\<rparr> \<and>
        (\<exists>state history. verifyChainEffect api (map sr_entry (rows_of st)) = Accepted (state, history) \<and>
           map_has (st_members state) caller)
    | Rejected _ \<Rightarrow> stored st' = stored st
    | Threw \<Rightarrow> do_cache st' = NO_CACHE \<and>
        (collision_free_on (api_sha256 api) (entry_byte_strings (map sr_entry (rows_of st) @ [e])) \<longrightarrow> stored st' = stored st)"
  using assms(1)
proof (rule reachable_at_rest)
  fix es v assume rest: "at_rest api keys projectId (stored st) es v st" and es: "map sr_entry (rows_of st) = es"
    and holds: "holds api projectId st es v" and effect: "es \<noteq> [] \<longrightarrow> verifyChainEffect api es = Accepted (view_of v)"
  note settled = runWrite_settles [OF appendProgram_ensures _ rest assms(2) [unfolded request_append_def]]
  show ?thesis
  proof (cases answer)
    case (Accepted a)
    obtain head proposal where a: "a = (head, proposal)" by (cases a)
    with settled Accepted obtain applied where ne: "es \<noteq> []" and parent: "parent = v_prevHash v"
      and member: "map_has (st_members (fst (view_of v))) caller" and mark: "\<not> project_storage.do_mirrorMark (stored st)"
      and ext: "extended api keys projectId (es @ [e]) applied st'" and head: "head = head_value applied"
      by (auto simp: appended_def)
    from ext obtain v' where ok: "holds api projectId st' (es @ [e]) v'" and applied: "applied = view_of v'"
      by (auto simp: extended_def consistent_def sound_def)
    have reach': "chain_reached api (es @ [e]) v'" using ok by (simp add: holds_def)
    have es': "map sr_entry (rows_of st') = es @ [e]" using ok by (simp add: holds_def)
    then have len: "length (rows_of st') = length (es @ [e])" by (metis length_map)
    have last: "sr_entryHashHex (last (rows_of s)) = v_prevHash u" if h: "holds api projectId s xs u" and xs: "xs \<noteq> []" for s xs u
    proof -
      have m: "map sr_entry (rows_of s) = xs" and r: "chain_reached api xs u" and rows: "list_all (row_holds api) (rows_of s)"
        using h by (simp_all add: holds_def)
      from m xs have "rows_of s \<noteq> []" by auto
      then have "row_holds api (last (rows_of s))" "sr_entry (last (rows_of s)) = last xs"
        using rows m by (auto simp: list_all_iff last_map)
      moreover have "entry_hash api (last xs) = Some (v_prevHash u)" using reached_head_hash [OF r] xs by blast
      ultimately show ?thesis by (simp add: row_holds_def)
    qed
    have "head = \<lparr>hv_headSeq = int (length (rows_of st')), hv_headHashHex = sr_entryHashHex (last (rows_of st'))\<rparr>"
      using head applied view_head(1,2) [OF reach'] last [OF ok] len by (simp add: head_value_def)
    moreover have "rows_of st \<noteq> []" using es ne by auto
    moreover have "\<not> do_mirrorMark st" using mark by (simp add: stored_def project_storage.truncate_def)
    moreover have "\<exists>state history. verifyChainEffect api es = Accepted (state, history) \<and> map_has (st_members state) caller"
      using effect [rule_format, OF ne] member by (cases "view_of v") auto
    ultimately show ?thesis using Accepted a es es' parent last [OF holds ne] by simp
  next
    case Threw
    with settled append_defect [OF rest, of e parent caller w st'] assms(2) es show ?thesis
      by (auto simp: distinct_bytes_def)
  qed (use settled in \<open>simp add: at_rest_def\<close>)
qed

text \<open>
  C16. An acceptable entry is stored: when the object is no mirror, the caller is a member of the verified
  state, the entry is within the policies and of an operation that needs no composite, and the chain with
  the entry verifies within the limits, the append answers with the new head; the mirror rows of the entry
  exist and the database refuses nothing.
\<close>

theorem acceptable_append_accepted:
  assumes "do_reachable api keys projectId st" and "\<not> do_mirrorMark st"
    and "fst (loadChain st) = (Accepted chain :: (data_rejection, stored_chain) outcome)"
    and "verifyChainEffect api (sc_entries chain) = Accepted (state, history)"
    and "map_has (st_members state) caller" and "append_policies e state caller w = Accepted ()" and "plain_append e"
    and "verifyAcceptableEntry api chain e = Accepted (bytes, applied)"
    and "collision_free_on (api_sha256 api) (entry_byte_strings (sc_entries chain @ [e]))"
  shows "\<exists>proposal st'. request_append api (st_headHashHex state) e caller w st = (Accepted (head_value applied, proposal), st')"
  using assms(1)
proof (rule reachable_at_rest)
  fix es v assume rest: "at_rest api keys projectId (stored st) es v st" and reach: "chain_reached api es v"
    and effect: "es \<noteq> [] \<longrightarrow> verifyChainEffect api es = Accepted (view_of v)"
  have "(Accepted chain :: (data_rejection, stored_chain) outcome) = Accepted (chain_value projectId st es v)"
    by (rule trans [OF assms(3) [symmetric] loadChain_answer(1) [OF rest]])
  then have chain: "chain = chain_value projectId st es v" by simp
  then have entries: "sc_entries chain = es" by (simp add: chain_value_def)
  with assms(4) have ne: "es \<noteq> []" by (auto simp: effect_reached)
  have view: "view_of v = (state, history)" using effect [rule_format, OF ne] assms(4) entries by simp
  have "distinct_bytes api (es @ [e])" using assms(9) entries by (simp add: distinct_bytes_def)
  from append_runs [OF rest ne assms(2) _ _ assms(7) _ this, of caller w bytes applied] assms(5,6,8) view view_head(1) [OF reach] chain
  show ?thesis by simp
qed

section \<open>The mirror\<close>

lemma stored_mirror:
  assumes "do_reachable api keys projectId st" and "verifyChainEffect api (map sr_entry (rows_of st)) = Accepted (state, history)"
    and "collision_free_on (api_sha256 api) (entry_byte_strings (map sr_entry (rows_of st)))"
  shows "\<exists>rows. list_all2 (\<lambda>e rs. \<exists>ts. chainMirrorEvents e ts (proposalIndexOf (map sr_entry (rows_of st)) state history)
       (subject_at api e) = Some rs) (map sr_entry (rows_of st)) rows \<and> chain_rows (do_audit st) = concat rows"
proof -
  obtain es v where rest: "at_rest api keys projectId (stored st) es v st" and es: "map sr_entry (rows_of st) = es"
    and holds: "holds api projectId st es v" and reach: "chain_reached api es v"
    and effect: "es \<noteq> [] \<longrightarrow> verifyChainEffect api es = Accepted (view_of v)"
    using assms(1) by (rule reachable_at_rest)
  have hash: "distinct_bytes api es" using assms(3) es by (simp add: distinct_bytes_def)
  with rest have "mirrors api st es v" by (auto simp: at_rest_def consistent_def tables_follow_def)
  then obtain clocks where clocks: "length clocks = length es" "chain_rows (do_audit st) = mirror_rows_of api es v clocks"
    by (auto simp: mirrors_def)
  have small: "length es < 2 ^ 32" using holds by (simp add: holds_def MAX_CHAIN_ENTRIES_def)
  have whole: "verifyChainEffect api es = Accepted (state, history)" using assms(2) unfolding es .
  then have "es \<noteq> []" unfolding effect_reached by blast
  from effect [rule_format, OF this] whole have view: "view_of v = (state, history)" by simp
  let ?rows = "map (\<lambda>(e, t). the (chainMirrorEvents e t (index_of es v) (subject_at api e))) (zip es clocks)"
  have "list_all2 (\<lambda>e rs. \<exists>ts. chainMirrorEvents e ts (index_of es v) (subject_at api e) = Some rs) es ?rows"
  proof (rule list_all2_all_nthI)
    fix i assume i: "i < length es"
    with reached_prefix [OF reach] obtain u ev v' where "accepts api u (es ! i) ev v'" by blast
    then have "entry_ok (es ! i)" by (rule accepts_hash(3))
    from mirror_rows_exist [OF reach hash small _ this, of "clocks ! i"] i clocks(1)
    show "\<exists>ts. chainMirrorEvents (es ! i) ts (index_of es v) (subject_at api (es ! i)) = Some (?rows ! i)" by auto
  qed (simp add: clocks(1))
  then have "list_all2 (\<lambda>e rs. \<exists>ts. chainMirrorEvents e ts (proposalIndexOf es state history) (subject_at api e) = Some rs) es ?rows"
    by (simp add: index_of_def view)
  moreover have "chain_rows (do_audit st) = concat ?rows" using clocks(2) by (simp add: mirror_rows_of_def)
  ultimately show ?thesis unfolding es by blast
qed

text \<open>
  C18. The mirror refines the chain: the mirror rows in the object's audit log are, in order, the rows that
  the whole verified chain says its entries have, each with some clock reading, although every entry's
  rows were derived from the chain as it was when the entry was accepted.
\<close>

theorem stored_mirror_refines_chain:
  assumes "do_reachable api keys projectId st" and "verifyChainEffect api (map sr_entry (rows_of st)) = Accepted (state, history)"
    and "collision_free_on (api_sha256 api) (entry_byte_strings (map sr_entry (rows_of st)))"
  shows "\<exists>rows. list_all2 (\<lambda>e rs. \<exists>ts. chainMirrorEvents e ts (proposalIndexOf (map sr_entry (rows_of st)) state history)
       (subject_at api e) = Some rs) (map sr_entry (rows_of st)) rows \<and> chain_rows (do_audit st) = concat rows"
  using assms by (rule stored_mirror)


lemma stored_mirror_written:
  assumes "do_reachable api keys projectId st" and "es = map sr_entry (rows_of st)"
    and "verifyChainEffect api es = Accepted (state, history)"
    and "collision_free_on (api_sha256 api) (entry_byte_strings es)" and "\<forall>e\<in>set es. \<not> adds_device e"
  obtains written where "mirror_written api (map write_entry es) es written"
    and "chain_rows (do_audit st) = concat (map written [1..<Suc (length es)])"
    and "length (map write_entry es) < 2 ^ 32"
proof -
  note effect = assms(3) [unfolded verifyChainEffect_def]
  from stored_mirror [OF assms(1), folded assms(2), OF assms(3,4)] obtain rows where
    rows: "list_all2 (\<lambda>e rs. \<exists>ts. chainMirrorEvents e ts (proposalIndexOf es state history) (subject_at api e) = Some rs) es rows"
    and rs: "chain_rows (do_audit st) = concat rows" by blast
  have len: "length rows = length es" using rows by (simp add: list_all2_lengthD)
  have none: "subject_at api e = None" if "e \<in> set es" for e
    using assms(5) that by (auto simp: subject_at_def mirrorSubjectOf_def adds_device_def
        split: chain_operation.splits proposable_operation.splits)
  obtain v where "chain_reached api es v" "holds api projectId st es v"
    using assms(1) unfolding assms(2) by (rule reachable_at_rest) auto
  then have small: "length (map write_entry es) < 2 ^ 32" by (simp add: holds_def MAX_CHAIN_ENTRIES_def)
  have reads: "map read_entry (map write_entry es) = map Some es" by (simp add: read_write_entry comp_def)
  have "mirror_written api (map write_entry es) es (\<lambda>k. rows ! (k - 1))"
    unfolding mirror_written_def
  proof
    fix k assume k: "k \<in> {1..length es}"
    then have range: "1 \<le> k" "k \<le> length (map write_entry es)" and i: "k - 1 < length es" by auto
    from list_all2_nthD [OF rows i] none i obtain ts where
      "chainMirrorEvents (es ! (k - 1)) ts (proposalIndexOf es state history) None = Some (rows ! (k - 1))" by fastforce
    with settled_rows [OF effect reads small range assms(4)]
    show "\<exists>s hk ts. verifyChainWithHistory api (take k (map write_entry es)) = Accepted (s, hk) \<and>
        chainMirrorEvents (es ! (k - 1)) ts (proposalIndexOf (take k es) s hk) None = Some (rows ! (k - 1))" by auto
  qed
  moreover have "map (\<lambda>k. rows ! (k - 1)) [1..<Suc (length es)] = rows"
    by (rule nth_equalityI) (simp_all add: len del: upt_Suc)
  ultimately show ?thesis using that [of "\<lambda>k. rows ! (k - 1)"] rs small by simp
qed

text \<open>
  The mirror fits the pages the command fetches: an entry has two rows at most, the genesis one, and the
  object stores at most 10,000 entries.
\<close>

lemma direct_one_row:
  "chainMirrorEvents e ts index added = Some rows \<Longrightarrow> entry_operation e = Direct operation \<Longrightarrow> length rows = 1"
  by (cases operation) (auto simp: chainMirrorEvents_def Let_def)

lemma stored_mirror_fits:
  assumes "do_reachable api keys projectId st" and "verifyChainEffect api (map sr_entry (rows_of st)) = Accepted (state, history)"
    and "collision_free_on (api_sha256 api) (entry_byte_strings (map sr_entry (rows_of st)))"
  shows "length (chain_rows (do_audit st)) < VERIFY_MAX_PAGES * VERIFY_PAGE_LIMIT"
proof -
  let ?es = "map sr_entry (rows_of st)"
  from stored_mirror [OF assms] obtain rows where
    rows: "list_all2 (\<lambda>e rs. \<exists>ts. chainMirrorEvents e ts (proposalIndexOf ?es state history) (subject_at api e) = Some rs) ?es rows"
    and rs: "chain_rows (do_audit st) = concat rows" by blast
  obtain es v where es: "?es = es" and holds: "holds api projectId st es v" and reach: "chain_reached api es v"
    using assms(1) by (rule reachable_at_rest)
  from assms(2) have ne: "es \<noteq> []" by (auto simp: es effect_reached)
  then have pos: "0 < length es" by simp
  from reached_prefix [OF reach pos] obtain u ev v' where "chain_reached api (take 0 es) u" "accepts api u (es ! 0) ev v'" by blast
  with accepts_genesis_iff reached_seq have "is_genesis (entry_operation (hd es))" using ne by (fastforce simp: hd_conv_nth)
  then obtain g where genesis: "entry_operation (hd es) = Direct (Genesis g)"
    by (auto simp: is_genesis_def split: chain_operation.splits proposable_operation.splits)
  from rows ne obtain r rest where split: "rows = r # rest" by (cases rows) (auto simp: es)
  from rows obtain ts where "chainMirrorEvents (hd es) ts (proposalIndexOf es state history) (subject_at api (hd es)) = Some r"
    by (auto simp: split es list_all2_Cons2)
  then have "length r = 1" using genesis by (rule direct_one_row)
  moreover have "\<forall>x\<in>set rest. length x \<le> 2"
  proof
    fix x assume "x \<in> set rest"
    then have "x \<in> set rows" by (simp add: split)
    then obtain i where "i < length rows" "x = rows ! i" by (auto simp: in_set_conv_nth)
    with rows show "length x \<le> 2" by (auto simp: list_all2_conv_all_nth dest!: spec [of _ i] mirror_rows_at_most_two)
  qed
  then have "length (concat rest) \<le> 2 * length rest" using length_concat_twice [of rest id] by simp
  moreover have "length rest + 1 = length es" using list_all2_lengthD [OF rows] by (simp add: split es)
  moreover have "length es \<le> 10000" using holds by (simp add: holds_def MAX_CHAIN_ENTRIES_def)
  ultimately show ?thesis by (simp add: rs split VERIFY_MAX_PAGES_def VERIFY_PAGE_LIMIT_def)
qed

text \<open>
  C39. An honest server's log passes the client's audit: when a client that verified the stored chain is
  served the object's mirror rows, page by page, with any distinct row ids and in any fixed order among
  whatever other rows of the log that claim no chain provenance, \<open>maruhi audit verify\<close> fetches every mirror
  row within its limit of 100 pages of 200, finds nothing missing or differing, and exits with 0. The chain
  adds no devices, on which the command throws, and SHA-256 does not collide on the bytes of its entries.
\<close>

theorem stored_mirror_passes_audit:
  assumes "do_reachable api keys projectId st" and "es = map sr_entry (rows_of st)"
    and "verifyChainEffect api es = Accepted (state, history)"
    and "collision_free_on (api_sha256 api) (entry_byte_strings es)" and "\<forall>e\<in>set es. \<not> adds_device e"
    and "mset (mirror_candidates served) =
      mset (map (\<lambda>r. toAuditEventValue (rowId r) None r) (chain_rows (do_audit st)))"
    and "distinct (map we_id served)"
  shows "auditVerifyOp es state history (serve served) = Accepted (0, [])"
proof -
  obtain written where "mirror_written api (map write_entry es) es written"
    "chain_rows (do_audit st) = concat (map written [1..<Suc (length es)])" "length (map write_entry es) < 2 ^ 32"
    using assms(1-5) by (rule stored_mirror_written)
  moreover have "length (mirror_candidates served) < VERIFY_MAX_PAGES * VERIFY_PAGE_LIMIT"
    using stored_mirror_fits [OF assms(1), folded assms(2), OF assms(3,4)] mset_eq_length [OF assms(6)] by simp
  ultimately show ?thesis
    using honest_mirror [OF assms(3) [unfolded verifyChainEffect_def] _ _ assms(4), of written served rowId] assms(6,7)
    by (simp add: read_write_entry comp_def)
qed

section \<open>The snapshot\<close>

text \<open>
  C19. A snapshot convinces its client: a member who asks gets the whole stored chain, which the client's
  verification accepts with exactly the declared head, and every attestation distributed with it verifies
  against that chain's history and is by a current device of a current member.
\<close>

theorem snapshot_convinces_client:
  assumes "do_reachable api keys projectId st" and "request_snapshot api caller st = (Accepted snapshot, st')"
    and "collision_free_on (api_sha256 api) (entry_byte_strings (cs_entries snapshot))"
  shows "\<exists>state history. verifyChainWithHistory api (map write_entry (cs_entries snapshot)) = Accepted (state, history) \<and>
    cs_entries snapshot = map sr_entry (rows_of st) \<and>
    st_headSeq state = cs_headSeq snapshot \<and> st_headHashHex state = cs_headHashHex snapshot \<and>
    map_has (st_members state) caller \<and>
    (\<forall>a\<in>set (cs_attestations snapshot). attested_by_current_device state a \<and>
       (\<exists>hash. verifyDistributedHeadAttestation api keys (attestation_input history projectId a) = Accepted hash))"
proof -
  obtain es v where rest: "at_rest api keys projectId (stored st) es v st" and es: "map sr_entry (rows_of st) = es"
    and reach: "chain_reached api es v" and effect: "es \<noteq> [] \<longrightarrow> verifyChainEffect api es = Accepted (view_of v)"
    using assms(1) by (rule reachable_at_rest)
  from runData_settles [OF snapshot_ensures _ rest assms(2) [unfolded request_snapshot_def]]
  have ne: "es \<noteq> []" and member: "map_has (st_members (fst (view_of v))) caller"
    and snapshot: "snapshot = \<lparr>cs_entries = es, cs_headSeq = int (length es), cs_headHashHex = v_prevHash v,
       cs_attestations = filter (attested_by_current_device (fst (view_of v)))
         (toSorted by_attester (map snd (project_storage.do_attestations (stored st))))\<rparr>"
    by (simp_all add: snapshot_at_def)
  have "distinct_bytes api es" using assms(3) snapshot by (simp add: distinct_bytes_def)
  with rest have att: "attested api keys projectId st v" by (auto simp: at_rest_def consistent_def tables_follow_def)
  have "\<exists>hash. verifyDistributedHeadAttestation api keys (attestation_input (snd (view_of v)) projectId a) = Accepted hash"
    if "a \<in> set (cs_attestations snapshot)" for a
  proof -
    from that snapshot have "a \<in> snd ` set (do_attestations st)" by (auto simp: stored_def project_storage.truncate_def)
    then obtain k where "(k, a) \<in> set (do_attestations st)" by auto
    with att show ?thesis unfolding attested_def by blast
  qed
  moreover have "attested_by_current_device (fst (view_of v)) a" if "a \<in> set (cs_attestations snapshot)" for a
    using that snapshot by simp
  moreover obtain state history where view: "view_of v = (state, history)" by (cases "view_of v")
  ultimately show ?thesis
    using effect [rule_format, OF ne] view_head(1,2) [OF reach] member es snapshot by (auto simp: verifyChainEffect_def)
qed

section \<open>The example\<close>

text \<open>The object of the example after its second entry.\<close>

lemma demo_stored:
  obtains t where "do_reachable demo_api demo_keys (demo_hash 1) t"
    and "map sr_entry (rows_of t) = [demo_entries ! 0, demo_entries ! 1]" and "rows_of t \<noteq> []"
proof -
  obtain t where t: "do_reachable demo_api demo_keys (demo_hash 1) t" "map sr_entry (rows_of t) = [demo_entries ! 0, demo_entries ! 1]"
    by (rule demo_appended)
  from t(2) have "rows_of t \<noteq> []" by auto
  from that [OF t this] show ?thesis .
qed

theorem stored_chain_verifies_witness:
  "\<exists>t. do_reachable demo_api demo_keys (demo_hash 1) t \<and> length (rows_of t) = 2 \<and>
     sr_entryHashHex (hd (rows_of t)) = demo_hash 1 \<and> map sr_seq (rows_of t) = [1, 2]"
proof -
  obtain t where t: "do_reachable demo_api demo_keys (demo_hash 1) t"
    "map sr_entry (rows_of t) = [demo_entries ! 0, demo_entries ! 1]" "rows_of t \<noteq> []" by (rule demo_stored)
  from t(2) have "length (rows_of t) = 2" by (metis length_map length_Cons list.size(3) numeral_2_eq_2)
  with stored_chain_verifies [OF t(1,3)] t(1) show ?thesis by (auto simp: upt_rec)
qed

theorem stored_chain_bounded_witness:
  "\<exists>t. do_reachable demo_api demo_keys (demo_hash 1) t \<and> rows_of t \<noteq> [] \<and>
     (\<forall>row\<in>set (rows_of t). sr_canonicalBytes row \<le> 1024 * 1024)"
proof -
  obtain t where t: "do_reachable demo_api demo_keys (demo_hash 1) t" "rows_of t \<noteq> []" by (rule demo_stored)
  from stored_chain_bounded [OF t(1)] t show ?thesis by blast
qed

theorem caches_are_transparent_witness:
  "\<exists>t. do_reachable demo_api demo_keys (demo_hash 1) t \<and> rows_of t \<noteq> [] \<and>
     transparent (request_snapshot demo_api (lit ''alice'')) t"
proof -
  obtain t where t: "do_reachable demo_api demo_keys (demo_hash 1) t" "rows_of t \<noteq> []" by (rule demo_stored)
  from caches_are_transparent [OF t(1)] t show ?thesis by blast
qed

theorem append_is_atomic_witness:
  "\<exists>s t. do_reachable demo_api demo_keys (demo_hash 1) s \<and> do_reachable demo_api demo_keys (demo_hash 1) t \<and>
     rows_of s \<noteq> [] \<and> map sr_entry (rows_of t) = map sr_entry (rows_of s) @ [demo_entries ! 1]"
proof -
  obtain s t h proposal where t: "request_append demo_api (demo_hash 1) (demo_entries ! 1) (lit ''alice'') demo_world s =
      (Accepted (\<lparr>hv_headSeq = 2, hv_headHashHex = demo_hash 2\<rparr>, proposal), t)"
    "do_reachable demo_api demo_keys (demo_hash 1) s" "do_reachable demo_api demo_keys (demo_hash 1) t"
    by (rule demo_appended)
  from append_is_atomic [OF t(2,1)] t(2,3) show ?thesis by auto
qed

theorem acceptable_append_accepted_witness:
  "\<exists>s proposal t. do_reachable demo_api demo_keys (demo_hash 1) s \<and>
     request_append demo_api (demo_hash 1) (demo_entries ! 1) (lit ''alice'') demo_world s =
       (Accepted (\<lparr>hv_headSeq = 2, hv_headHashHex = demo_hash 2\<rparr>, proposal), t)"
proof -
  obtain s h1 bytes h where s: "at_rest demo_api demo_keys (demo_hash 1) (stored s) [demo_entries ! 0] (demo_verifier 1 demo_st1 h1) s"
    "\<not> do_mirrorMark s" "do_reachable demo_api demo_keys (demo_hash 1) s"
    "verifyAcceptableEntry demo_api (chain_value (demo_hash 1) s [demo_entries ! 0] (demo_verifier 1 demo_st1 h1)) (demo_entries ! 1) =
      Accepted (bytes, view_of (demo_verifier 2 demo_st2 h))"
    and reach: "chain_reached demo_api [demo_entries ! 0, demo_entries ! 1] (demo_verifier 2 demo_st2 h)"
    by (rule demo_acceptable)
  have reach1: "chain_reached demo_api [demo_entries ! 0] (demo_verifier 1 demo_st1 h1)"
    using s(1) by (simp add: at_rest_def consistent_def sound_def holds_def)
  obtain state history where view: "view_of (demo_verifier 1 demo_st1 h1) = (state, history)" by fastforce
  have head: "st_headHashHex state = demo_hash 1" using view_head(1) [OF reach1] view by (simp add: demo_verifier_def)
  have effect: "verifyChainEffect demo_api (sc_entries (chain_value (demo_hash 1) s [demo_entries ! 0] (demo_verifier 1 demo_st1 h1))) =
      Accepted (state, history)"
    using reach1 view by (auto simp: effect_reached chain_value_def)
  have free: "collision_free_on (api_sha256 demo_api)
      (entry_byte_strings (sc_entries (chain_value (demo_hash 1) s [demo_entries ! 0] (demo_verifier 1 demo_st1 h1)) @ [demo_entries ! 1]))"
    using demo_collision_free_pair by (simp add: chain_value_def)
  have hv: "head_value (view_of (demo_verifier 2 demo_st2 h)) = \<lparr>hv_headSeq = 2, hv_headHashHex = demo_hash 2\<rparr>"
    using view_head(1,2) [OF reach] by (simp add: head_value_def demo_verifier_def)
  from acceptable_append_accepted [OF s(3,2) loadChain_answer(1) [OF s(1)] effect _ _ demo_append_ready(3) [OF reach1] s(4) free]
    demo_append_ready(1,2) [OF reach1] view head hv s(3)
  show ?thesis by fastforce
qed

theorem stored_mirror_refines_chain_witness:
  "\<exists>t rows. do_reachable demo_api demo_keys (demo_hash 1) t \<and> length rows = 2 \<and> chain_rows (do_audit t) = concat rows"
proof -
  obtain t where t: "do_reachable demo_api demo_keys (demo_hash 1) t"
    "map sr_entry (rows_of t) = [demo_entries ! 0, demo_entries ! 1]" by (rule demo_stored)
  obtain state history where "verifyChainEffect demo_api (map sr_entry (rows_of t)) = Accepted (state, history)"
    unfolding t(2) by (rule demo_pair_verifies)
  from stored_mirror_refines_chain [OF t(1) this] obtain rows where
    rows: "list_all2 (\<lambda>e rs. \<exists>ts. chainMirrorEvents e ts (proposalIndexOf (map sr_entry (rows_of t)) state history)
       (subject_at demo_api e) = Some rs) (map sr_entry (rows_of t)) rows" "chain_rows (do_audit t) = concat rows"
    unfolding t(2) using demo_collision_free_pair by blast
  from rows(1) have "length rows = length [demo_entries ! 0, demo_entries ! 1]"
    unfolding t(2) by (rule list_all2_lengthD [symmetric])
  then have "length rows = 2" by simp
  with rows(2) t(1) show ?thesis by blast
qed

theorem stored_mirror_passes_audit_witness:
  "\<exists>t state history served. do_reachable demo_api demo_keys (demo_hash 1) t \<and>
     length served = length (chain_rows (do_audit t)) \<and>
     auditVerifyOp [demo_entries ! 0, demo_entries ! 1] state history (serve served) = Accepted (0, [])"
proof -
  let ?es = "[demo_entries ! 0, demo_entries ! 1]"
  obtain t where t: "do_reachable demo_api demo_keys (demo_hash 1) t" "map sr_entry (rows_of t) = ?es" by (rule demo_stored)
  obtain state history where effect: "verifyChainEffect demo_api ?es = Accepted (state, history)" by (rule demo_pair_verifies)
  obtain written where written: "mirror_written demo_api (map write_entry ?es) ?es written"
    "chain_rows (do_audit t) = concat (map written [1..<Suc (length ?es)])"
    using t(1) t(2) [symmetric] effect demo_collision_free_pair demo_plain by (rule stored_mirror_written)
  obtain rowId served where "mset (mirror_candidates served) =
      mset (map (\<lambda>r. toAuditEventValue (rowId r) None r) (chain_rows (do_audit t)))"
    "distinct (map we_id served)" "length served = length (chain_rows (do_audit t))"
    using effect [unfolded verifyChainEffect_def] _ _ demo_collision_free_pair demo_plain written
    by (rule served_log) (simp_all add: read_write_entry)
  with stored_mirror_passes_audit [OF t(1) t(2) [symmetric] effect demo_collision_free_pair demo_plain] t(1)
  show ?thesis by blast
qed

theorem snapshot_convinces_client_witness:
  "\<exists>t (snapshot :: chain_snapshot_value). do_reachable demo_api demo_keys (demo_hash 1) t \<and> cs_entries snapshot = [demo_entries ! 0, demo_entries ! 1] \<and>
     (\<exists>state history. verifyChainWithHistory demo_api (map write_entry (cs_entries snapshot)) = Accepted (state, history) \<and>
        st_headHashHex state = cs_headHashHex snapshot \<and> map_has (st_members state) (lit ''alice''))"
proof -
  let ?es = "[demo_entries ! 0, demo_entries ! 1]"
  obtain t where t: "do_reachable demo_api demo_keys (demo_hash 1) t" "map sr_entry (rows_of t) = ?es" by (rule demo_stored)
  obtain es v where rest: "at_rest demo_api demo_keys (demo_hash 1) (stored t) es v t" "map sr_entry (rows_of t) = es"
    "es \<noteq> [] \<longrightarrow> verifyChainEffect demo_api es = Accepted (view_of v)"
    using t(1) by (rule reachable_at_rest)
  obtain state history where pair: "verifyChainEffect demo_api ?es = Accepted (state, history)" "map_has (st_members state) (lit ''alice'')"
    by (rule demo_pair_verifies)
  have es: "es = ?es" using rest(2) t(2) by (rule trans [OF sym])
  have effect: "verifyChainEffect demo_api ?es = Accepted (view_of v)" using rest(3) unfolding es by simp
  from trans [OF sym [OF pair(1)] effect] have "fst (view_of v) = state" by (cases "view_of v") simp
  then have "map_has (st_members (fst (view_of v))) (lit ''alice'')" using pair(2) by (simp only:)
  moreover have "es \<noteq> []" unfolding es by simp
  ultimately obtain snapshot u where run: "request_snapshot demo_api (lit ''alice'') t = (Accepted snapshot, u)"
    using snapshot_runs [OF rest(1)] by blast
  from runData_settles [OF snapshot_ensures _ rest(1) run [unfolded request_snapshot_def]] have entries: "cs_entries snapshot = ?es"
    using rest(2) t(2) by (simp add: snapshot_at_def)
  then have "collision_free_on (api_sha256 demo_api) (entry_byte_strings (cs_entries snapshot))"
    using demo_collision_free_pair by simp
  from snapshot_convinces_client [OF t(1) run this]
  have "\<exists>state history. verifyChainWithHistory demo_api (map write_entry (cs_entries snapshot)) = Accepted (state, history) \<and>
      st_headHashHex state = cs_headHashHex snapshot \<and> map_has (st_members state) (lit ''alice'')" by metis
  with t(1) entries show ?thesis by blast
qed

end
