(* ===== verification/Spec2Isabelle.thy ===== *)
theory Spec2Isabelle
  imports History_Guarantees Statement_Guarantees Statement_Histories Recipient_Set Context_Binding Key_Commitment
    Audit_Guarantees Fingerprint_Words Floor_Guarantees Mirror_Check_Guarantees
    Chain_Object_Guarantees
begin

text \<open>
  maruhi keeps the secrets of a project's environments end-to-end encrypted. Who may do what is decided
  by a signed chain of membership entries that every client replays for itself; values, their metadata
  and the manifest of an environment are statements signed by chain members; the server stores and
  distributes all of it and is not trusted. This development models the core of that design, the package
  \<open>packages/crypto\<close>, with the object in which the server (\<open>apps/server\<close>) keeps a project's chain, the audit
  log it writes, and what the client (\<open>apps/cli\<close>) checks and remembers of both.

  \<^bold>\<open>How the parts interact.\<close> A chain entry is read from untrusted JavaScript values, checked for its
  structure, its signature and the consensus rules, and applied to the state (members with their devices,
  environments with their epochs, grants, the approval policy, pending proposals, checkpoints); a
  recorder keeps an index of past states. A signed statement declares a chain head; its verification
  takes the signer's key and authority from the index at that head. Manifests and checkpoints bind
  digests of the variables. Keys are wrapped for the devices and server grants the state names. The
  mirror of the chain in the audit log and the heads of the log that checkpoints notarize are what the
  client compares with the chain it has verified.

  \<^bold>\<open>Foundations.\<close> \<open>Prelude\<close> (outcomes of calls, insertion-ordered maps, lists) and \<open>Js_Text\<close> (\<open>bytes.ts\<close>: UTF-16
  texts as lists of 16-bit code units, their UTF-8 bytes, hexadecimal and decimal forms); \<open>Lp_Encoding\<close>
  (\<open>encoding.ts\<close>: the length-prefixed encoder, injective on fields of the same kinds); \<open>Js_Value\<close> (untrusted
  input); \<open>Domain_Strings\<close> (the interface of signed statements: different names never share bytes).

  \<^bold>\<open>The chain.\<close> \<open>Member_Scope\<close>, \<open>Chain_Device\<close> and \<open>Chain_Types\<close> model \<open>member-scope.ts\<close>, \<open>chain-device.ts\<close> and
  \<open>chain-types.ts\<close>; \<open>Chain_Canonical\<close> the canonical bytes and hashes of \<open>chain-canonical.ts\<close>; \<open>Chain_History\<close> the
  index of \<open>chain-history.ts\<close>. \<open>chain-verify.ts\<close> is split in its own order: \<open>Chain_Shape\<close> (the structure
  table), \<open>Chain_Rules\<close> (roles, scopes, votes, the consensus rule of every operation), \<open>Chain_Apply\<close>
  (transitions) and \<open>Chain_Verify\<close> (evaluation of an entry and the loop). \<open>Chain_Reading\<close> is the typed reading
  of an entry that passed the structure check and \<open>Chain_Writing\<close> its inverse; \<open>Chain_Steps\<close> cuts the loop
  into steps.
  \<open>Chain_Invariant\<close> and \<open>Chain_Preserve\<close> show that every operation keeps the state consistent;
  \<open>Chain_Authority\<close> and \<open>Chain_Extension\<close> what one more entry may change and which device must have initiated it;
  \<open>Chain_Totality\<close> that no exception escapes; \<open>Chain_History_Refinement\<close> and \<open>Chain_History_Queries\<close> that the
  index answers as the states of the prefixes do. \<open>Chain_Guarantees\<close> and \<open>History_Guarantees\<close> state the
  properties; \<open>Chain_Example\<close> is a chain that exercises them.

  \<^bold>\<open>Signed statements.\<close> \<open>Crypto_Errors\<close> and \<open>Signatures\<close> hold the error values and the steps all statements
  share (\<open>errors.ts\<close>, \<open>validate.ts\<close>). \<open>Value_Statement\<close>, \<open>Meta_Statement\<close>, \<open>Env_Manifest\<close> and \<open>Head_Attestation\<close>
  model signing and verifying of each kind, \<open>Registration_Statements\<close> wrap registrations, invites and the
  signing of chain entries; \<open>Sorted_Digest\<close> the digests of variables and values. \<open>Meta_Statement_Facts\<close> has
  the metadata fields, \<open>Statement_Totality\<close> their termination, \<open>Key_History\<close> the link
  to the chain; \<open>Statement_Guarantees\<close>, \<open>Statement_Binding\<close> and \<open>Statement_Histories\<close> the properties of one
  statement, of two statements with the same bytes, and of a history of versions.

  \<^bold>\<open>Transports.\<close> \<open>Sealed_Transport\<close> and \<open>Context_Binding\<close> (\<open>dek-wrap.ts\<close>, \<open>lease-wrap.ts\<close>, \<open>sealed-value.ts\<close>,
  \<open>variable.ts\<close>, \<open>recovery.ts\<close>): what is sealed for one context opens under no other. \<open>Key_Commitment\<close>
  (\<open>dek-commitment.ts\<close>), \<open>Recipient_Set\<close> (\<open>recipient-set.ts\<close>) and \<open>Fingerprint_Words\<close> with \<open>Word_List\<close>
  (\<open>fingerprint-words.ts\<close>, \<open>bip39-english.ts\<close>).

  \<^bold>\<open>The audit log.\<close> \<open>Audit_Head\<close> (\<open>audit-head.ts\<close>): row digests and the chained head. \<open>Audit_Log\<close>: the server's
  column of heads (\<open>audit-store.ts\<close>), the client's recomputation (\<open>audit-reconcile.ts\<close>) and how the two
  columns relate; \<open>Audit_Reconcile\<close> the reconciliation; \<open>Audit_Guarantees\<close> states the properties.

  \<^bold>\<open>The floor.\<close> What a client remembers between runs, so that the server cannot roll anything back
  (\<open>apps/cli\<close>). \<open>Floor\<close>: the joins of \<open>floor.ts\<close>. \<open>Floor_Log\<close>: the append-only log of \<open>floor-log.ts\<close> with its
  decoder's conditions and its fold (\<open>floor-log-decode.ts\<close>, \<open>floor-log-fold.ts\<close>). \<open>Floor_Check\<close>: the checks of
  a pull and what a passed pull commits (\<open>floor-check.ts\<close>, \<open>values-floor.ts\<close>). \<open>Join_Semilattice\<close> and
  \<open>Floor_Lattice\<close> show that the joins are those of a semilattice where evidence determines content;
  \<open>Floor_File\<close> that snapshots in the log are sound; \<open>Floor_Pull\<close> that a passed pull extends the floor when
  the hashes of both are those of signed statements;
  \<open>Floor_Guarantees\<close> states the properties and \<open>Floor_Example\<close> holds the witnesses' files.

  \<^bold>\<open>The audit mirror.\<close> Every chain entry leaves rows in the audit log; the client checks that they are
  in bijection with the chain. \<open>Chain_Mirror\<close> (\<open>audit.ts\<close> of \<open>packages/core\<close>, \<open>chain-applied.ts\<close>): the rows of an
  entry, for an approval those of the applied proposal too, and the index of proposals. \<open>Chain_Mirror_Facts\<close>
  and \<open>Chain_Mirror_Guarantees\<close>: the index built while the chain grows gives the rows of the whole chain,
  and the applied operations are those the verifier applied. \<open>Mirror_Check\<close>: the comparison of one row
  (\<open>audit-mirror.ts\<close>), the paging of the log in at most 100 pages of 200 rows and the bijection check
  (\<open>audit-verify.ts\<close>); numbers of the JSON payloads are rationals, and that row numbers are positive is the
  condition the wire schema imposes. \<open>Mirror_Check_Facts\<close> and \<open>Mirror_Check_Guarantees\<close>: a clean verdict is a
  bijection, an honest mirror verifies, and a chain that adds a device cannot be verified.

  \<^bold>\<open>The project's object.\<close> A durable object of the server holds the chain of one project, serves one
  request at a time, and caches the parsed chain and its derived state. \<open>Chain_Store\<close> (\<open>do/chain-store.ts\<close>): the
  tables, the differential load, the insertion, the derived view, each a program on the object's state
  that answers with a value, a rejection or a defect. \<open>Chain_Accept\<close> (\<open>chain-accept.ts\<close>, \<open>chain-commit.ts\<close>): size,
  capacity, parent head and verification of an entry or a pair, and the write phase with the mirror rows
  and side effects. \<open>Chain_Programs\<close>: the guards (\<open>data-guards.ts\<close>), policies (\<open>quotas.ts\<close>, \<open>storage-guard.ts\<close>),
  initialization, append, snapshot and role (\<open>programs-chain.ts\<close>), the standalone checkpoint
  (\<open>checkpoint-accept.ts\<close>), the head attestation (\<open>attestation-accept.ts\<close>) and the entry points of \<open>chain-do.ts\<close>.
  What a request reads besides the chain is the record \<open>request_world\<close>: the clock, the database's size, the
  answers of the queries on the data tables and on the column of audit heads. \<open>Chain_Object\<close>
  states what the tables and caches hold and that an insertion keeps it;
  \<open>Attestation_Stability\<close> that an accepted attestation stays valid as the chain grows; \<open>Chain_Object_Invariant\<close>
  and \<open>Chain_Object_Programs\<close> what every program and request ensures. \<open>Chain_Object_Steps\<close> is the
  step relation: every request, a commit by a composite (one entry or a pair, with any write of the data
  plane), any other write of the data tables, a defect, a restart, the mark of a mirror. A request that ends
  with a defect drops the caches; that the platform takes back what it wrote until then is an assumption on
  the platform, stated by a comment of \<open>chain-do.ts\<close> and applied there (\<open>storage_task\<close>), outside the programs.
  \<open>Chain_Object_Cache\<close> shows that caches change no answer, \<open>Chain_Object_Liveness\<close> that an acceptable request
  succeeds; \<open>Chain_Object_Guarantees\<close> states the properties for every reachable state and
  \<open>Chain_Object_Example\<close> is an object that initializes and appends. Two of them close the circle with the
  client: a snapshot passes the client's verification, and the rows the object writes pass \<open>maruhi audit
  verify\<close>.

  \<^bold>\<open>Parameters.\<close> Platform functions are arguments: SHA-256, Ed25519, HPKE, AES-GCM, HKDF, randomness. What
  the properties assume of them is a named hypothesis over the inputs at hand: no collision among given
  byte strings, a signature made by a key verifies under its public key, opening inverts sealing for the
  same key and context and fails for another. Where equal bytes must come from equal texts, the texts are
  assumed well formed, since the encoder replaces lone surrogates and the code does not refuse them; each
  such property says so. The JSON text of a floor line is
  an encoder and a decoder that invert each other. Each such property has a witness with concrete functions.

  \<^bold>\<open>Bounds.\<close> Numbers that are integers are unbounded \<open>int\<close>s with the source's safe-integer checks written
  out; other JavaScript numbers are one constructor of the untrusted input. Maps and records keep the order
  of insertion; JavaScript lists the keys of a record that look like array indices first, which can change the
  order of a listing, not what it lists. The encoder refuses fields
  of 4 GiB or more, so totality is stated for texts of at most \<open>2 ^ 30\<close> code units and for at most a
  million elements in the two unbounded lists of an entry. Recursions are structural or have measures;
  no fuel is used, but the audit column is extended by chunks of 50 rows with a proof that it ends.

  \<^bold>\<open>Not modelled.\<close> Of the project's object: the SQL text, migrations and JSON decoding of the stored rows
  (a table is the list of its decoded rows), the data plane's own tables and checks (of a composite only
  what it commits to the chain is a step, and a rotation detection is recorded as the call, not as the
  rows it derives), leases, export, and the import of a mirror or backup, which writes rows past the
  acceptance. Beyond it: network and file system calls, command-line code, the Effect runtime, the HTTP
  schemas, sign-in and accounts, the web application and site, key generation and the import formats of
  WebCrypto, the master-key wraps of guardians and passkeys. These are queries, requests and rendering
  around the modelled core, or repeat its statement and wrap checks on rows of a database.
\<close>

end
